(* ===== verification/Prelude.thy ===== *)
theory Prelude
  imports Main
begin

text \<open>
  Shared foundations of the development: the result type of fallible handlers, decimal strings,
  the JavaScript string operations the code uses, and database tables as lists of rows with a
  key, with the contract (\<open>locale repository\<close>) the services rely on when they call
  \<^verbatim>\<open>findOne\<close> and \<^verbatim>\<open>save\<close>.
\<close>

section \<open>Results\<close>

text \<open>
  The exceptions a handler may throw. The first group are the NestJS HTTP exceptions with their
  message; \<open>QueryFailed\<close> is a statement the database rejects (a unique index);
  \<open>SyntaxError\<close>, \<open>RangeError\<close> and \<open>TypeError\<close> are the exceptions of the
  JavaScript standard library that reach the caller when the code does not catch them;
  \<open>PlainError\<close> is \<^verbatim>\<open>new Error(message)\<close>.
\<close>

datatype http_error =
    BadRequest string
  | Unauthorized string
  | Forbidden string
  | NotFound string
  | Conflict string
  | TooManyRequests string
  | ServiceUnavailable string
  | InternalServerError string
  | QueryFailed string
  | SyntaxError string
  | RangeError string
  | TypeError string
  | PlainError string

type_synonym 'a result = "http_error + 'a"

text \<open>The \<^verbatim>\<open>message\<close> of an exception.\<close>

fun error_message :: "http_error \<Rightarrow> string" where
  "error_message (BadRequest m) = m" | "error_message (Unauthorized m) = m" | "error_message (Forbidden m) = m"
| "error_message (NotFound m) = m" | "error_message (Conflict m) = m" | "error_message (TooManyRequests m) = m"
| "error_message (ServiceUnavailable m) = m" | "error_message (InternalServerError m) = m"
| "error_message (QueryFailed m) = m" | "error_message (SyntaxError m) = m" | "error_message (RangeError m) = m"
| "error_message (TypeError m) = m" | "error_message (PlainError m) = m"

definition rbind :: "'e + 'a \<Rightarrow> ('a \<Rightarrow> 'e + 'b) \<Rightarrow> 'e + 'b" where
  "rbind m f = (case m of Inl e \<Rightarrow> Inl e | Inr x \<Rightarrow> f x)"

definition is_ok :: "'e + 'a \<Rightarrow> bool" where
  "is_ok r = (case r of Inr _ \<Rightarrow> True | Inl _ \<Rightarrow> False)"

named_theorems result_simps \<open>how the result combinators behave\<close>
named_theorems table_simps \<open>how table reads behave after table writes\<close>

lemma rbind_simps [simp, result_simps]:
  "rbind (Inl e) f = Inl e"
  "rbind (Inr x) f = f x"
  by (simp_all add: rbind_def)

lemma rbind_Inr_iff [result_simps]:
  "rbind m f = Inr y \<longleftrightarrow> (\<exists>x. m = Inr x \<and> f x = Inr y)"
  by (cases m) simp_all

lemma rbind_InrE:
  assumes "rbind m f = Inr y"
  obtains x where "m = Inr x" and "f x = Inr y"
  using assms by (cases m) simp_all

lemma is_ok_simps [simp]: "is_ok (Inr x)" "\<not> is_ok (Inl e)"
  by (simp_all add: is_ok_def)

lemma is_ok_iff: "is_ok r \<longleftrightarrow> (\<exists>x. r = Inr x)"
  by (cases r) simp_all

lemma if_Inl_eq_Inr_iff [result_simps]:
  "(if b then Inl e else m) = Inr y \<longleftrightarrow> \<not> b \<and> m = Inr y"
  by simp

text \<open>
  What a handler reads from its surroundings: the clock (milliseconds since the epoch), the
  identifiers the database generates in this call (the k-th one), and the public key of the
  random key pair the call makes.
\<close>

record env =
  now :: int
  uuid :: "nat \<Rightarrow> string"
  keypair :: string

text \<open>
  An optional field of a request object: absent, an explicit null, or a value. The two absent
  forms are different values for \<^verbatim>\<open>===\<close> and the same for \<^verbatim>\<open>??\<close>.
\<close>

datatype 'a field = Undefined | Null | Val 'a

fun field_opt :: "'a field \<Rightarrow> 'a option" where
  "field_opt (Val x) = Some x"
| "field_opt Undefined = None"
| "field_opt Null = None"

text \<open>
  Writing an optional field of a request into a row, as \<^verbatim>\<open>Object.assign\<close> or a guarded assignment does: an
  absent field keeps the stored value, and the database rejects a null where its column takes none.
\<close>

definition not_null :: "string \<Rightarrow> http_error" where
  "not_null c = QueryFailed (''null value in column '' @ c @ '' violates not-null constraint'')"

definition assign :: "string \<Rightarrow> 'a field \<Rightarrow> 'a \<Rightarrow> 'a result" where
  "assign c f old = (case f of Undefined \<Rightarrow> Inr old | Null \<Rightarrow> Inl (not_null c) | Val v \<Rightarrow> Inr v)"

definition assign_nullable :: "'a field \<Rightarrow> 'a option \<Rightarrow> 'a option" where
  "assign_nullable f old = (case f of Undefined \<Rightarrow> old | Null \<Rightarrow> None | Val v \<Rightarrow> Some v)"

section \<open>Decimal strings\<close>

definition digit_char :: "nat \<Rightarrow> char" where
  "digit_char d = char_of (48 + d)"

definition digit_val :: "char \<Rightarrow> nat option" where
  "digit_val c = (let n = of_char c in if 48 \<le> n \<and> n \<le> (57::nat) then Some (n - 48) else None)"

fun nat_to_string :: "nat \<Rightarrow> string" where
  "nat_to_string n =
     (if n < 10 then [digit_char n]
      else nat_to_string (n div 10) @ [digit_char (n mod 10)])"

declare nat_to_string.simps [simp del]

definition int_to_string :: "int \<Rightarrow> string" where
  "int_to_string i =
     (if i < 0 then CHR ''-'' # nat_to_string (nat (- i)) else nat_to_string (nat i))"

fun digits_val :: "nat \<Rightarrow> string \<Rightarrow> nat option" where
  "digits_val acc [] = Some acc"
| "digits_val acc (c # cs) =
     (case digit_val c of None \<Rightarrow> None | Some d \<Rightarrow> digits_val (10 * acc + d) cs)"

text \<open>\<^verbatim>\<open>padStart(n, '0')\<close>.\<close>

definition pad_zeros :: "nat \<Rightarrow> string \<Rightarrow> string" where
  "pad_zeros n s = replicate (n - length s) (CHR ''0'') @ s"

lemma digit_val_char [simp]: "d < 10 \<Longrightarrow> digit_val (digit_char d) = Some d"
  by (simp add: digit_val_def digit_char_def Let_def)

lemma digit_val_zero [simp]: "digit_val (CHR ''0'') = Some 0"
  by (simp add: digit_val_def)

lemma digits_val_append:
  "digits_val a (xs @ ys) = (case digits_val a xs of None \<Rightarrow> None | Some b \<Rightarrow> digits_val b ys)"
  by (induction xs arbitrary: a) (auto split: option.splits)

lemma digits_val_nat_to_string [simp]: "digits_val 0 (nat_to_string n) = Some n"
proof (induction n rule: nat_to_string.induct)
  case (1 n)
  show ?case
  proof (cases "n < 10")
    case True
    then show ?thesis by (simp add: nat_to_string.simps [of n])
  next
    case False
    with "1.IH" show ?thesis
      by (simp add: nat_to_string.simps [of n] digits_val_append)
  qed
qed

lemma digits_val_zeros [simp]:
  "digits_val 0 (replicate k (CHR ''0'') @ s) = digits_val 0 s"
  by (induction k) simp_all

lemma nat_to_string_nonempty [simp]: "nat_to_string n \<noteq> []"
  by (subst nat_to_string.simps) simp

lemma digits_val_SomeD:
  "digits_val a s = Some n \<Longrightarrow> c \<in> set s \<Longrightarrow> digit_val c \<noteq> None"
  by (induction s arbitrary: a) (auto split: option.splits)

lemma nat_to_string_digits: "c \<in> set (nat_to_string n) \<Longrightarrow> digit_val c \<noteq> None"
  by (rule digits_val_SomeD [OF digits_val_nat_to_string])

lemma nat_to_string_inj: "nat_to_string n = nat_to_string m \<longleftrightarrow> n = m"
  by (metis digits_val_nat_to_string option.inject)

lemma nat_to_string_length:
  "0 < k \<Longrightarrow> n < 10 ^ k \<Longrightarrow> length (nat_to_string n) \<le> k"
proof (induction n arbitrary: k rule: nat_to_string.induct)
  case (1 n)
  show ?case
  proof (cases "n < 10")
    case True
    with "1.prems" show ?thesis by (simp add: nat_to_string.simps [of n])
  next
    case False
    with "1.prems" obtain k' where k: "k = Suc k'" "0 < k'"
      by (cases k; cases "k - 1") auto
    with "1.prems" have "n div 10 < 10 ^ k'" by (simp add: less_mult_imp_div_less)
    with "1.IH" [OF False k(2)] have "length (nat_to_string (n div 10)) \<le> k'" .
    with False k show ?thesis by (simp add: nat_to_string.simps [of n])
  qed
qed

lemma pad_zeros_val [simp]: "digits_val 0 (pad_zeros k s) = digits_val 0 s"
  by (simp add: pad_zeros_def)

lemma length_pad_zeros [simp]: "length (pad_zeros k s) = max k (length s)"
  by (simp add: pad_zeros_def)

lemma set_pad_zeros: "set (pad_zeros k s) \<subseteq> insert (CHR ''0'') (set s)"
  by (auto simp: pad_zeros_def)

section \<open>String operations of JavaScript\<close>

text \<open>\<^verbatim>\<open>s.split(sep)\<close> for a one-character separator.\<close>

fun split_on :: "char \<Rightarrow> string \<Rightarrow> string list" where
  "split_on sep [] = [[]]"
| "split_on sep (c # cs) =
     (if c = sep then [] # split_on sep cs
      else (case split_on sep cs of [] \<Rightarrow> [[c]] | p # ps \<Rightarrow> (c # p) # ps))"

lemma split_on_free: "sep \<notin> set s \<Longrightarrow> split_on sep s = [s]"
  by (induction s) auto

lemma split_on_append:
  "sep \<notin> set s \<Longrightarrow> split_on sep (s @ sep # t) = s # split_on sep t"
  by (induction s) auto

definition is_ws :: "char \<Rightarrow> bool" where
  "is_ws c \<longleftrightarrow> of_char c \<in> {9, 10, 11, 12, 13, 32 :: nat}"

text \<open>\<^verbatim>\<open>s.trim()\<close>, for the ASCII white space characters.\<close>

definition trim :: "string \<Rightarrow> string" where
  "trim s = rev (dropWhile is_ws (rev (dropWhile is_ws s)))"

lemma trim_no_ws: "(\<And>c. c \<in> set s \<Longrightarrow> \<not> is_ws c) \<Longrightarrow> trim s = s"
proof -
  assume a: "\<And>c. c \<in> set s \<Longrightarrow> \<not> is_ws c"
  have "dropWhile is_ws s = s" using a by (cases s) auto
  moreover have "dropWhile is_ws (rev s) = rev s" using a by (cases "rev s") auto
  ultimately show ?thesis by (simp add: trim_def)
qed

lemma digit_not_ws: "digit_val c \<noteq> None \<Longrightarrow> \<not> is_ws c"
  by (auto simp: digit_val_def is_ws_def Let_def split: if_splits)

lemma digit_neq [simp]:
  "digit_val (CHR ''.'') = None" "digit_val (CHR ''-'') = None" "digit_val (CHR ''+'') = None"
  by (simp_all add: digit_val_def)

text \<open>\<^verbatim>\<open>s.includes(p)\<close>: some position of \<open>s\<close> starts with \<open>p\<close>.\<close>

fun starts_with :: "string \<Rightarrow> string \<Rightarrow> bool" where
  "starts_with s [] = True"
| "starts_with [] (p # ps) = False"
| "starts_with (c # cs) (p # ps) = (c = p \<and> starts_with cs ps)"

fun str_includes :: "string \<Rightarrow> string \<Rightarrow> bool" where
  "str_includes [] p = (p = [])"
| "str_includes (c # cs) p = (starts_with (c # cs) p \<or> str_includes cs p)"

lemma starts_with_iff: "starts_with s p \<longleftrightarrow> (\<exists>t. s = p @ t)"
  by (induction s p rule: starts_with.induct) auto

lemma str_includes_iff: "str_includes s p \<longleftrightarrow> (\<exists>u t. s = u @ p @ t)"
proof (induction s)
  case Nil
  show ?case by simp
next
  case (Cons c cs)
  show ?case (is "?l \<longleftrightarrow> ?r")
  proof
    assume ?l
    then consider "starts_with (c # cs) p" | "str_includes cs p" by auto
    then show ?r
    proof cases
      case 1
      then obtain t where "c # cs = [] @ p @ t" by (auto simp: starts_with_iff)
      then show ?thesis by blast
    next
      case 2
      with Cons.IH obtain u t where "c # cs = (c # u) @ p @ t" by auto
      then show ?thesis by blast
    qed
  next
    assume ?r
    then obtain u t where ut: "c # cs = u @ p @ t" by blast
    show ?l
    proof (cases u)
      case Nil
      with ut have "starts_with (c # cs) p" unfolding starts_with_iff by simp
      then show ?thesis by simp
    next
      case (Cons d u')
      with ut have "cs = u' @ p @ t" by simp
      then show ?thesis using Cons.IH by auto
    qed
  qed
qed

text \<open>\<^verbatim>\<open>s.toLowerCase()\<close> on ASCII.\<close>

definition lower_char :: "char \<Rightarrow> char" where
  "lower_char c = (let n = of_char c in if 65 \<le> n \<and> n \<le> (90::nat) then char_of (n + 32) else c)"

definition to_lower :: "string \<Rightarrow> string" where
  "to_lower s = map lower_char s"

section \<open>Maps and sets of JavaScript\<close>

text \<open>
  A \<^verbatim>\<open>Map\<close> is an association list in insertion order: \<open>set\<close> on a key that is
  there keeps its place, a new key goes to the end. \<open>js_set\<close> is
  \<^verbatim>\<open>[...new Set(xs)]\<close>.
\<close>

fun map_set :: "'k \<Rightarrow> 'v \<Rightarrow> ('k \<times> 'v) list \<Rightarrow> ('k \<times> 'v) list" where
  "map_set k v [] = [(k, v)]"
| "map_set k v ((k', v') # m) = (if k' = k then (k, v) # m else (k', v') # map_set k v m)"

fun map_delete :: "'k \<Rightarrow> ('k \<times> 'v) list \<Rightarrow> ('k \<times> 'v) list" where
  "map_delete k [] = []"
| "map_delete k ((k', v') # m) = (if k' = k then map_delete k m else (k', v') # map_delete k m)"

definition js_set :: "'a list \<Rightarrow> 'a list" where
  "js_set xs = foldl (\<lambda>s x. if x \<in> set s then s else s @ [x]) [] xs"

lemma map_set_new: "k \<notin> fst ` set m \<Longrightarrow> map_set k v m = m @ [(k, v)]"
  by (induction m) auto

lemma map_of_map_set [simp]: "map_of (map_set k v m) k' = (if k' = k then Some v else map_of m k')"
  by (induction m) auto

lemma keys_map_set: "fst ` set (map_set k v m) = insert k (fst ` set m)"
  by (induction k v m rule: map_set.induct) (auto simp: image_iff)

lemma distinct_map_set: "distinct (map fst m) \<Longrightarrow> distinct (map fst (map_set k v m))"
proof (induction m)
  case Nil
  show ?case by simp
next
  case (Cons p m)
  obtain k' v' where p: "p = (k', v')" by fastforce
  have "fst ` set (map_set k v m) = insert k (fst ` set m)" by (rule keys_map_set)
  with Cons p show ?case by auto
qed

lemma map_of_map_delete [simp]: "map_of (map_delete k m) k' = (if k' = k then None else map_of m k')"
  by (induction m) auto

lemma set_map_set: "x \<in> set (map_set k v m) \<Longrightarrow> x = (k, v) \<or> x \<in> set m"
  by (induction k v m rule: map_set.induct) (auto split: if_splits)

lemma set_map_set_distinct: "distinct (map fst m) \<Longrightarrow> set (map_set k v m) = insert (k, v) {x \<in> set m. fst x \<noteq> k}"
  by (induction m) (auto intro: rev_image_eqI split: if_splits)

lemma length_map_set: "length (map_set k v m) = (if k \<in> fst ` set m then length m else Suc (length m))"
  by (induction k v m rule: map_set.induct) auto

lemma map_delete_filter: "map_delete i p = filter (\<lambda>x. fst x \<noteq> i) p"
  by (induction i p rule: map_delete.induct) simp_all

lemma set_map_delete: "set (map_delete i p) = {x \<in> set p. fst x \<noteq> i}"
  by (simp add: map_delete_filter)

lemma distinct_map_delete: "distinct (map fst p) \<Longrightarrow> distinct (map fst (map_delete i p))"
  by (induction p) (auto simp: set_map_delete)

lemma map_delete_absent: "i \<notin> fst ` set p \<Longrightarrow> map_delete i p = p"
  by (induction p) auto

lemma length_map_delete: "distinct (map fst p) \<Longrightarrow> length p \<le> Suc (length (map_delete i p))"
  by (induction p) (auto simp: map_delete_absent)

lemma length_map_delete_le: "length (map_delete i p) \<le> length p"
  by (induction p) auto

lemma js_set_foldl:
  "set (foldl (\<lambda>s x. if x \<in> set s then s else s @ [x]) acc xs) = set acc \<union> set xs \<and>
   (distinct acc \<longrightarrow> distinct (foldl (\<lambda>s x. if x \<in> set s then s else s @ [x]) acc xs))"
  by (induction xs arbitrary: acc) auto

lemma set_js_set [simp]: "set (js_set xs) = set xs"
  using js_set_foldl [of "[]" xs] by (simp add: js_set_def)

lemma distinct_js_set [simp]: "distinct (js_set xs)"
  using js_set_foldl [of "[]" xs] by (simp add: js_set_def)

section \<open>Tables\<close>

text \<open>
  A database table is the list of its rows. \<open>save\<close> replaces the row that has the key of
  the saved entity and appends the entity when there is none, which is what the repositories'
  \<^verbatim>\<open>save\<close> promises; \<open>row_by\<close> is \<^verbatim>\<open>findOne\<close> by key.
\<close>

definition row_by :: "('a \<Rightarrow> 'k) \<Rightarrow> 'k \<Rightarrow> 'a list \<Rightarrow> 'a option" where
  "row_by key k t = find (\<lambda>r. key r = k) t"

fun save_row :: "('a \<Rightarrow> 'k) \<Rightarrow> 'a \<Rightarrow> 'a list \<Rightarrow> 'a list" where
  "save_row key x [] = [x]"
| "save_row key x (r # t) = (if key r = key x then x # t else r # save_row key x t)"

definition keys_distinct :: "('a \<Rightarrow> 'k) \<Rightarrow> 'a list \<Rightarrow> bool" where
  "keys_distinct key t \<longleftrightarrow> distinct (map key t)"

lemma row_by_Cons [simp]:
  "row_by key k (r # t) = (if key r = k then Some r else row_by key k t)"
  "row_by key k [] = None"
  by (simp_all add: row_by_def)

lemma row_by_SomeD: "row_by key k t = Some r \<Longrightarrow> r \<in> set t \<and> key r = k"
  by (induction t) (auto split: if_splits)

lemma row_by_save_row [table_simps]:
  "row_by key k (save_row key x t) = (if k = key x then Some x else row_by key k t)"
  by (induction t) auto

lemma set_save_row_subset: "set (save_row key x t) \<subseteq> insert x (set t)"
  by (induction t) auto

lemma key_set_save_row: "key ` set (save_row key x t) = insert (key x) (key ` set t)"
  by (induction t) auto

lemma keys_distinct_save_row:
  "keys_distinct key t \<Longrightarrow> keys_distinct key (save_row key x t)"
proof (induction t)
  case Nil
  show ?case by (simp add: keys_distinct_def)
next
  case (Cons r t)
  then show ?case
    using key_set_save_row [of key x t] by (auto simp: keys_distinct_def)
qed

lemma set_save_row:
  assumes "keys_distinct key t"
  shows "set (save_row key x t) = insert x {r \<in> set t. key r \<noteq> key x}"
  using assms by (induction t) (auto simp: keys_distinct_def dest: sym intro: rev_image_eqI)

lemma row_by_distinct:
  "keys_distinct key t \<Longrightarrow> r \<in> set t \<Longrightarrow> row_by key (key r) t = Some r"
proof (induction t)
  case Nil
  then show ?case by simp
next
  case (Cons x t)
  show ?case
  proof (cases "r = x")
    case True
    then show ?thesis by simp
  next
    case False
    with Cons.prems have "key x \<noteq> key r"
      by (auto simp: keys_distinct_def)
    with False Cons show ?thesis by (simp add: keys_distinct_def)
  qed
qed

lemma save_row_twice [simp]: "key x = key y \<Longrightarrow> save_row key y (save_row key x t) = save_row key y t"
  by (induction t) auto

lemma row_by_append:
  "row_by key k (t @ [x]) = (case row_by key k t of Some a \<Rightarrow> Some a
     | None \<Rightarrow> if k = key x then Some x else None)"
  by (induction t) auto

lemma row_by_None_iff: "row_by key k t = None \<longleftrightarrow> k \<notin> key ` set t"
  by (induction t) auto

lemma save_row_new: "row_by key (key x) t = None \<Longrightarrow> save_row key x t = t @ [x]"
  by (induction t) (auto split: if_splits)

lemma map_save_row_same:
  "row_by key (key x) t = Some r \<Longrightarrow> f x = f r \<Longrightarrow> map f (save_row key x t) = map f t"
  by (induction t) (auto split: if_splits)

lemma length_filter_save_row:
  "row_by key (key x) t = Some r \<Longrightarrow>
     int (length (filter P (save_row key x t))) = int (length (filter P t)) - of_bool (P r) + of_bool (P x)"
  by (induction t) (auto split: if_splits)

text \<open>Saving a row that has the place of another keeps a row-wise view of the others.\<close>

lemma save_row_as_map:
  assumes "keys_distinct key t" and "row_by key (key x) t = Some r"
  shows "save_row key x t = map (\<lambda>y. if key y = key x then x else y) t"
  using assms
proof (induction t)
  case Nil
  then show ?case by simp
next
  case (Cons y t)
  have "map (\<lambda>z. if key z = key x then x else z) t = t" if "key y = key x"
    using Cons.prems(1) that by (intro map_idI) (metis (no_types, lifting) keys_distinct_def distinct.simps(2) image_eqI list.set_map list.simps(9))
  then show ?case using Cons by (auto simp: keys_distinct_def)
qed

lemma filter_save_row_other:
  assumes "\<And>r. r \<in> set t \<Longrightarrow> key r = key x \<Longrightarrow> \<not> P r" and "\<not> P x"
  shows "filter P (save_row key x t) = filter P t"
  using assms by (induction t) auto

text \<open>
  Pages: rows in descending order of creation, \<open>limit\<close> of them after \<open>(page - 1) * limit\<close>. Page and limit
  are at least one, which the query classes check.
\<close>

record 'a paginated_result =
  pr_data :: "'a list"
  pr_total :: nat
  pr_page :: nat
  pr_limit :: nat
  pr_totalPages :: nat

definition PaginatedResultDto :: "'a list \<Rightarrow> nat \<Rightarrow> nat \<Rightarrow> nat \<Rightarrow> 'a paginated_result" where
  "PaginatedResultDto rows totalRows page limit = \<lparr>pr_data = rows, pr_total = totalRows, pr_page = page, pr_limit = limit,
     pr_totalPages = (totalRows + limit - 1) div limit\<rparr>"

definition newest_first :: "('a \<Rightarrow> int) \<Rightarrow> 'a list \<Rightarrow> 'a list" where
  "newest_first created rows = sort_key (\<lambda>r. - created r) rows"

definition page_of :: "('a \<Rightarrow> int) \<Rightarrow> 'a list \<Rightarrow> nat \<Rightarrow> nat \<Rightarrow> 'a paginated_result" where
  "page_of created rows page limit =
     PaginatedResultDto (take limit (drop ((page - 1) * limit) (newest_first created rows))) (length rows) page limit"

text \<open>
  The contract between a service and a repository: an abstract state \<open>'t\<close> that
  \<open>find\<close> reads by key and \<open>store\<close> writes.
\<close>

locale repository =
  fixes find :: "'k \<Rightarrow> 't \<Rightarrow> 'a option"
    and store :: "'a \<Rightarrow> 't \<Rightarrow> 't"
    and key :: "'a \<Rightarrow> 'k"
    and wf :: "'t \<Rightarrow> bool"
  assumes find_store: "find k (store x t) = (if k = key x then Some x else find k t)"
    and find_key: "find k t = Some x \<Longrightarrow> key x = k"
    and wf_store: "wf t \<Longrightarrow> wf (store x t)"
begin

lemma find_store_same [simp]: "find (key x) (store x t) = Some x"
  by (simp add: find_store)

lemma find_store_other: "k \<noteq> key x \<Longrightarrow> find k (store x t) = find k t"
  by (simp add: find_store)

text \<open>A property of every stored entity survives a write that establishes it.\<close>

lemma all_rows_store:
  assumes "\<And>k y. find k t = Some y \<Longrightarrow> P y" and "P x"
  shows "find k (store x t) = Some y \<Longrightarrow> P y"
  using assms by (auto simp: find_store split: if_splits)

lemma last_write_wins: "key x = key y \<Longrightarrow> find k (store y (store x t)) = find k (store y t)"
  by (simp add: find_store)

lemma writes_commute:
  "key x \<noteq> key y \<Longrightarrow> find k (store y (store x t)) = find k (store x (store y t))"
  by (simp add: find_store)

end

lemma table_repository:
  "repository (row_by key) (save_row key) key (keys_distinct key)"
  by unfold_locales (auto simp: row_by_save_row keys_distinct_save_row dest: row_by_SomeD)

end
