(* ===== verification/JsNumber.thy ===== *)
theory JsNumber
  imports Prelude Complex_Main "HOL-Library.Log_Nat"
begin

text \<open>
  The JavaScript type \<^verbatim>\<open>number\<close>. A finite number is its rational value; every
  arithmetic operation rounds the exact result to 53 significant binary digits, to nearest,
  ties to even (\<open>fl\<close>). Not modelled: overflow to an infinity beyond \<open>2^1024\<close>,
  gradual underflow below \<open>2^-1022\<close>, the sign of zero. Operations that can produce
  \<^verbatim>\<open>NaN\<close> or an infinity return an option.

  Also here: \<^verbatim>\<open>Math.round\<close>, \<^verbatim>\<open>toFixed\<close>,
  \<^verbatim>\<open>toString\<close> and \<^verbatim>\<open>parseFloat\<close> as ECMAScript defines them.
\<close>

type_synonym number = rat

section \<open>Rounding to doubles\<close>

text \<open>Round half to even.\<close>

definition rhe :: "rat \<Rightarrow> int" where
  "rhe x = (let f = \<lfloor>x\<rfloor>; r = x - of_int f in
     if r < 1/2 then f else if r > 1/2 then f + 1 else if even f then f else f + 1)"

text \<open>The binary exponent of a positive number: \<open>2^e \<le> x < 2^(e+1)\<close>.\<close>

definition expo :: "rat \<Rightarrow> int" where
  "expo x = (case quotient_of x of (p, q) \<Rightarrow>
     let e = int (floorlog 2 (nat p)) - int (floorlog 2 (nat q))
     in if 2 powi e \<le> x then e else e - 1)"

definition ulp :: "rat \<Rightarrow> rat" where
  "ulp x = 2 powi (expo \<bar>x\<bar> - 52)"

definition fl :: "rat \<Rightarrow> number" where
  "fl x = (if x = 0 then 0 else of_int (rhe (x / ulp x)) * ulp x)"

definition num_add :: "number \<Rightarrow> number \<Rightarrow> number" where "num_add a b = fl (a + b)"
definition num_sub :: "number \<Rightarrow> number \<Rightarrow> number" where "num_sub a b = fl (a - b)"
definition num_mul :: "number \<Rightarrow> number \<Rightarrow> number" where "num_mul a b = fl (a * b)"

text \<open>Division: \<open>None\<close> stands for the non-finite results of dividing by zero.\<close>

definition num_div :: "number \<Rightarrow> number \<Rightarrow> number option" where
  "num_div a b = (if b = 0 then None else Some (fl (a / b)))"

text \<open>\<^verbatim>\<open>Math.round\<close>: the nearest integer, ties towards plus infinity.\<close>

definition math_round :: "number \<Rightarrow> int" where
  "math_round x = \<lfloor>x + 1/2\<rfloor>"

section \<open>Conversion to strings\<close>

text \<open>The number \<open>n\<close> of digits before the point: \<open>10^(n-1) \<le> x < 10^n\<close> for positive \<open>x\<close>.\<close>

definition dec_expo :: "rat \<Rightarrow> int" where
  "dec_expo x =
     (if 1 \<le> x then int (length (nat_to_string (nat \<lfloor>x\<rfloor>)))
      else - int (length (nat_to_string (nat (\<lceil>1 / x\<rceil> - 1)))) + 1)"

text \<open>
  The shortest decimal significand: the least number of digits \<open>k\<close> for which some
  \<open>s * 10^(n-k)\<close> rounds back to \<open>x\<close>, the closest such \<open>s\<close>. Seventeen digits
  always suffice for a double, which is the fuel.
\<close>

definition sig_ok :: "rat \<Rightarrow> int \<Rightarrow> nat \<Rightarrow> int \<Rightarrow> bool" where
  "sig_ok x n k s \<longleftrightarrow> fl (of_int s * 10 powi (n - int k)) = x"

fun shortest :: "nat \<Rightarrow> rat \<Rightarrow> int \<Rightarrow> nat \<Rightarrow> int \<times> nat \<times> int" where
  "shortest 0 x n k = (\<lfloor>x * 10 powi (int k - n)\<rfloor>, k, n)"
| "shortest (Suc fuel) x n k =
     (let y = x * 10 powi (int k - n); f = \<lfloor>y\<rfloor>;
          s = (if sig_ok x n k f \<and> (\<not> sig_ok x n k (f + 1) \<or> y - of_int f \<le> 1/2) then f
               else f + 1)
      in if sig_ok x n k f \<or> sig_ok x n k (f + 1)
         then (if s = 10 ^ k then (1, 1, n + 1) else (s, k, n))
         else shortest fuel x n (Suc k))"

definition pos_to_string :: "rat \<Rightarrow> string" where
  "pos_to_string x = (case shortest 17 x (dec_expo x) 1 of (s, k, n) \<Rightarrow>
     let ds = nat_to_string (nat s); e = n - 1;
         es = (if 0 \<le> e then ''+'' else ''-'') @ nat_to_string (nat \<bar>e\<bar>)
     in if int k \<le> n \<and> n \<le> 21 then ds @ replicate (nat (n - int k)) (CHR ''0'')
        else if 0 < n \<and> n \<le> 21 then take (nat n) ds @ ''.'' @ drop (nat n) ds
        else if -6 < n \<and> n \<le> 0 then ''0.'' @ replicate (nat (- n)) (CHR ''0'') @ ds
        else if k = 1 then ds @ ''e'' @ es
        else take 1 ds @ ''.'' @ drop 1 ds @ ''e'' @ es)"

definition num_to_string :: "number \<Rightarrow> string" where
  "num_to_string x =
     (if x = 0 then ''0'' else if x < 0 then CHR ''-'' # pos_to_string (- x)
      else pos_to_string x)"

text \<open>
  \<^verbatim>\<open>x.toFixed(f)\<close>: the integer \<open>n\<close> closest to \<open>x * 10^f\<close> (the larger of
  two), written with \<open>f\<close> decimals; from \<open>10^21\<close> on, \<^verbatim>\<open>toString\<close>.
\<close>

definition fixed_pos :: "nat \<Rightarrow> rat \<Rightarrow> string" where
  "fixed_pos f x = (if 10 ^ 21 \<le> x then num_to_string x
     else let n = nat \<lfloor>x * 10 ^ f + 1/2\<rfloor>; m = nat_to_string n in
       if f = 0 then m
       else let p = pad_zeros (f + 1) m; k = length p
            in take (k - f) p @ ''.'' @ drop (k - f) p)"

definition to_fixed :: "nat \<Rightarrow> number \<Rightarrow> string" where
  "to_fixed f x = (if x < 0 then CHR ''-'' # fixed_pos f (- x) else fixed_pos f x)"

text \<open>
  \<^verbatim>\<open>parseFloat\<close>: the longest prefix that is a decimal literal, with an optional
  fraction and exponent; \<open>None\<close> is \<^verbatim>\<open>NaN\<close>. The word
  \<^verbatim>\<open>Infinity\<close> is not modelled.
\<close>

definition is_digit :: "char \<Rightarrow> bool" where
  "is_digit c \<longleftrightarrow> digit_val c \<noteq> None"

definition lead_digits :: "string \<Rightarrow> int" where
  "lead_digits s = (case digits_val 0 (takeWhile is_digit s) of None \<Rightarrow> 0 | Some n \<Rightarrow> int n)"

definition exp_part :: "string \<Rightarrow> int" where
  "exp_part s = (case s of
       c # d # cs \<Rightarrow>
         if c \<noteq> CHR ''e'' \<and> c \<noteq> CHR ''E'' then 0
         else if d = CHR ''-'' then - lead_digits cs
         else if d = CHR ''+'' then lead_digits cs
         else lead_digits (d # cs)
     | _ \<Rightarrow> 0)"

definition parse_unsigned :: "string \<Rightarrow> rat option" where
  "parse_unsigned s =
     (let ip = takeWhile is_digit s; rest = dropWhile is_digit s;
          dot = (case rest of c # cs \<Rightarrow> c = CHR ''.'' | [] \<Rightarrow> False);
          fp = (if dot then takeWhile is_digit (tl rest) else []);
          ep = exp_part (if dot then dropWhile is_digit (tl rest) else rest)
      in if ip = [] \<and> fp = [] then None
         else (case digits_val 0 (ip @ fp) of None \<Rightarrow> None
               | Some n \<Rightarrow> Some (of_nat n / 10 ^ length fp * 10 powi ep)))"

definition parse_float :: "string \<Rightarrow> number option" where
  "parse_float s = (case dropWhile is_ws s of
       c # cs \<Rightarrow>
         if c = CHR ''-'' then map_option (\<lambda>x. fl (- x)) (parse_unsigned cs)
         else if c = CHR ''+'' then map_option fl (parse_unsigned cs)
         else map_option fl (parse_unsigned (c # cs))
     | [] \<Rightarrow> None)"

section \<open>Lemmas\<close>

lemma rhe_mono: "x \<le> y \<Longrightarrow> rhe x \<le> rhe y"
proof -
  assume le: "x \<le> y"
  then have f: "\<lfloor>x\<rfloor> \<le> \<lfloor>y\<rfloor>" by (rule floor_mono)
  show ?thesis
  proof (cases "\<lfloor>x\<rfloor> = \<lfloor>y\<rfloor>")
    case True
    with le show ?thesis by (auto simp: rhe_def Let_def)
  next
    case False
    with f have "\<lfloor>x\<rfloor> + 1 \<le> \<lfloor>y\<rfloor>" by simp
    then show ?thesis by (auto simp: rhe_def Let_def)
  qed
qed

lemma rhe_of_int [simp]: "rhe (of_int n) = n"
  by (simp add: rhe_def)

lemma rhe_minus: "rhe (- x) = - rhe x"
proof (cases "x \<in> \<int>")
  case True
  then obtain n where "x = of_int n" by (rule Ints_cases)
  then show ?thesis by (metis of_int_minus rhe_of_int)
next
  case False
  then have "\<lceil>x\<rceil> = \<lfloor>x\<rfloor> + 1"
    by (metis Ints_of_int ceiling_altdef)
  then have "\<lfloor>- x\<rfloor> = - \<lfloor>x\<rfloor> - 1" by (simp add: floor_minus)
  then show ?thesis by (auto simp: rhe_def Let_def)
qed

lemma floorlog_int_bounds:
  assumes "0 < p"
  shows "(2::rat) ^ (floorlog 2 (nat p) - 1) \<le> of_int p"
    and "of_int p < (2::rat) ^ floorlog 2 (nat p)"
    and "0 < floorlog 2 (nat p)"
proof -
  let ?a = "floorlog 2 (nat p)"
  have b: "2 ^ (?a - 1) \<le> nat p" "nat p < 2 ^ ?a"
    using floorlog_bounds [of "nat p" 2] assms by auto
  then have "int (2 ^ (?a - 1)) \<le> p" "p < int (2 ^ ?a)"
    using assms by linarith+
  then have "(of_int (int (2 ^ (?a - 1))) :: rat) \<le> of_int p"
    and "(of_int p :: rat) < of_int (int (2 ^ ?a))"
    by (simp_all only: of_int_le_iff of_int_less_iff)
  then show "(2::rat) ^ (?a - 1) \<le> of_int p" and "of_int p < (2::rat) ^ ?a"
    by simp_all
  show "0 < ?a" using assms by (simp add: floorlog_def)
qed

lemma expo_bounds:
  assumes "0 < x"
  shows "2 powi (expo x) \<le> x" and "x < 2 powi (expo x + 1)"
proof -
  obtain p q where pq: "quotient_of x = (p, q)" by fastforce
  have q: "0 < q" using quotient_of_denom_pos [OF pq] .
  have x: "x = of_int p / of_int q" using quotient_of_div [OF pq] .
  with assms q have p: "0 < p" by (auto simp: zero_less_divide_iff)
  define a b where "a = floorlog 2 (nat p)" and "b = floorlog 2 (nat q)"
  note pa = floorlog_int_bounds [OF p, folded a_def]
  note qb = floorlog_int_bounds [OF q, folded b_def]
  define e where "e = int a - int b"
  have pe: "(2::rat) powi e = 2 ^ a / 2 ^ b"
    by (simp add: e_def power_int_diff)
  have a2: "(2::rat) ^ a = 2 * 2 ^ (a - 1)" and b2: "(2::rat) ^ b = 2 * 2 ^ (b - 1)"
    using pa(3) qb(3) by (metis Suc_diff_1 power_Suc)+
  have "(2::rat) ^ (a - 1) / 2 ^ b \<le> x"
    unfolding x using pa(1) qb(2) p q by (intro frac_le) (auto intro: less_imp_le)
  then have lo: "2 powi (e - 1) \<le> x"
    by (simp add: power_int_diff pe a2)
  have "x < (2::rat) ^ a / 2 ^ (b - 1)"
    unfolding x using pa(2) qb(1) p q by (intro frac_less) auto
  then have hi: "x < 2 powi (e + 1)"
    by (simp add: power_int_add pe b2)
  have ex: "expo x = (if 2 powi e \<le> x then e else e - 1)"
    by (simp add: expo_def pq e_def a_def b_def Let_def)
  show "2 powi (expo x) \<le> x" and "x < 2 powi (expo x + 1)"
    using lo hi by (auto simp: ex)
qed

lemma power_int_2_less: "(2::rat) powi a < 2 powi b \<Longrightarrow> a < b"
  by (meson linorder_not_less one_le_numeral power_int_increasing)

lemma ulp_pos [simp]: "0 < ulp x"
  by (simp add: ulp_def)

lemma fl_zero [simp]: "fl 0 = 0"
  by (simp add: fl_def)

lemma fl_minus: "fl (- x) = - fl x"
proof -
  have "ulp (- x) = ulp x" by (simp add: ulp_def)
  then show ?thesis by (simp add: fl_def rhe_minus)
qed

text \<open>Scaled by its unit in the last place, a positive number lies in \<open>[2^52, 2^53)\<close>.\<close>

lemma scaled_bounds:
  assumes "0 < x"
  shows "2 ^ 52 \<le> x / ulp x" and "x / ulp x < 2 ^ 53"
proof -
  have u: "ulp x = 2 powi (expo x) / 2 ^ 52"
    using assms by (simp add: ulp_def power_int_diff)
  show "2 ^ 52 \<le> x / ulp x" and "x / ulp x < 2 ^ 53"
    using expo_bounds [OF assms] by (simp_all add: u power_int_add field_simps)
qed

lemma fl_bounds:
  assumes "0 < x"
  shows "2 powi (expo x) \<le> fl x" and "fl x \<le> 2 powi (expo x + 1)"
proof -
  have u: "ulp x = 2 powi (expo x) / 2 ^ 52"
    using assms by (simp add: ulp_def power_int_diff)
  have "rhe (of_int (2 ^ 52)) \<le> rhe (x / ulp x)" and "rhe (x / ulp x) \<le> rhe (of_int (2 ^ 53))"
    using scaled_bounds [OF assms] by (intro rhe_mono; simp)+
  then have r: "2 ^ 52 \<le> rhe (x / ulp x)" and r': "rhe (x / ulp x) \<le> 2 ^ 53"
    by (simp_all only: rhe_of_int)
  have "(of_int (2 ^ 52) :: rat) \<le> of_int (rhe (x / ulp x))"
    and "(of_int (rhe (x / ulp x)) :: rat) \<le> of_int (2 ^ 53)"
    using r r' by (simp_all only: of_int_le_iff)
  then have "2 ^ 52 * ulp x \<le> of_int (rhe (x / ulp x)) * ulp x"
    and "of_int (rhe (x / ulp x)) * ulp x \<le> 2 ^ 53 * ulp x"
    using ulp_pos [of x] by (simp_all add: mult_right_mono less_imp_le)
  then show "2 powi (expo x) \<le> fl x" and "fl x \<le> 2 powi (expo x + 1)"
    using assms by (simp_all add: fl_def u power_int_add)
qed

lemma fl_pos: "0 < x \<Longrightarrow> 0 < fl x"
  using fl_bounds(1) [of x] by (meson less_le_trans zero_less_numeral zero_less_power_int)

lemma fl_pos_iff [simp]: "0 < fl x \<longleftrightarrow> 0 < x"
proof -
  have "x < 0 \<Longrightarrow> fl x < 0" using fl_pos [of "- x"] by (simp add: fl_minus)
  then show ?thesis using fl_pos [of x] by (cases "x = 0"; cases "0 < x") auto
qed

lemma fl_mono_pos:
  assumes "0 < x" and "x \<le> y"
  shows "fl x \<le> fl y"
proof (cases "expo x = expo y")
  case True
  then have u: "ulp x = ulp y" using assms by (simp add: ulp_def)
  have "x / ulp x \<le> y / ulp y"
    using assms u by (simp add: divide_right_mono less_imp_le)
  then have "rhe (x / ulp x) \<le> rhe (y / ulp y)" by (rule rhe_mono)
  then have "(of_int (rhe (x / ulp x)) :: rat) \<le> of_int (rhe (y / ulp y))"
    by (simp only: of_int_le_iff)
  then show ?thesis
    using assms u by (simp add: fl_def mult_right_mono less_imp_le)
next
  case False
  have y: "0 < y" using assms by simp
  have "2 powi (expo x) < (2::rat) powi (expo y + 1)"
    using expo_bounds [OF assms(1)] expo_bounds [OF y] assms(2) by linarith
  then have "expo x < expo y + 1" by (rule power_int_2_less)
  with False have "expo x + 1 \<le> expo y" by simp
  then have "2 powi (expo x + 1) \<le> (2::rat) powi (expo y)"
    by (intro power_int_increasing) auto
  with fl_bounds(2) [OF assms(1)] fl_bounds(1) [OF y] show ?thesis by linarith
qed

lemma fl_mono: "x \<le> y \<Longrightarrow> fl x \<le> fl y"
proof -
  assume le: "x \<le> y"
  consider "0 < x" | "y < 0" | "x \<le> 0" "0 \<le> y" by linarith
  then show ?thesis
  proof cases
    case 1
    with le show ?thesis by (simp add: fl_mono_pos)
  next
    case 2
    with le have "fl (- y) \<le> fl (- x)" by (intro fl_mono_pos) auto
    then show ?thesis by (simp add: fl_minus)
  next
    case 3
    have "fl x \<le> 0" using fl_pos_iff [of x] 3 by linarith
    moreover have "0 \<le> fl y" using fl_pos_iff [of "- y"] 3 by (simp add: fl_minus)
    ultimately show ?thesis by simp
  qed
qed

text \<open>Integers of at most 53 binary digits are exact.\<close>

lemma fl_of_nat_exact:
  assumes "n < 2 ^ 53"
  shows "fl (of_nat n) = of_nat n"
proof (cases "n = 0")
  case True
  then show ?thesis by simp
next
  case False
  then have pos: "(0::rat) < of_nat n" by simp
  define e where "e = expo (of_nat n)"
  have lo: "2 powi e \<le> (of_nat n :: rat)" and hi: "(of_nat n :: rat) < 2 powi (e + 1)"
    using expo_bounds [OF pos] by (simp_all add: e_def)
  have "(1::rat) \<le> of_nat n" using False by simp
  with hi have "(2::rat) powi 0 < 2 powi (e + 1)" by simp
  then have "0 < e + 1" by (rule power_int_2_less)
  then have e0: "0 \<le> e" by simp
  have "(of_nat n :: rat) < of_nat (2 ^ 53)" using assms by (simp only: of_nat_less_iff)
  with lo have "(2::rat) powi e < 2 powi 53" by simp
  then have e53: "e < 53" by (rule power_int_2_less)
  define k where "k = nat (52 - e)"
  have "e - 52 = - int k" using e53 by (simp add: k_def)
  then have u: "ulp (of_nat n) = 1 / 2 ^ k"
    by (simp add: ulp_def e_def [symmetric] power_int_minus inverse_eq_divide)
  have "(of_nat n :: rat) / ulp (of_nat n) = of_int (int n * 2 ^ k)"
    by (simp add: u)
  then have "rhe (of_nat n / ulp (of_nat n)) = int n * 2 ^ k"
    by (simp only: rhe_of_int)
  then show ?thesis using pos by (simp add: fl_def u)
qed

lemma fl_nonneg: "0 \<le> x \<Longrightarrow> 0 \<le> fl x"
  using fl_mono [of 0 x] by simp

lemma fl_one: "fl 1 = 1"
  using fl_of_nat_exact [of 1] by simp

lemma fl_le_one: "x \<le> 1 \<Longrightarrow> fl x \<le> 1"
  using fl_mono [of x 1] by (simp add: fl_one)

text \<open>The relative error is far below one tenth.\<close>

lemma rhe_near: "\<bar>of_int (rhe y) - y\<bar> \<le> 1 / 2"
proof -
  have "of_int \<lfloor>y\<rfloor> \<le> y" "y < of_int \<lfloor>y\<rfloor> + 1" by linarith+
  then show ?thesis by (auto simp: rhe_def Let_def abs_if) linarith+
qed

lemma fl_rel:
  assumes "0 \<le> x"
  shows "9 / 10 * x \<le> fl x" and "fl x \<le> 11 / 10 * x"
proof -
  have "9 / 10 * x \<le> fl x \<and> fl x \<le> 11 / 10 * x"
  proof (cases "x = 0")
    case False
    then have x: "0 < x" using assms by simp
    let ?y = "x / ulp x"
    have y: "2 ^ 52 \<le> ?y" using scaled_bounds(1) [OF x] .
    have "9 / 10 * y \<le> of_int (rhe y) \<and> of_int (rhe y) \<le> 11 / 10 * y" if "2 ^ 52 \<le> y" for y :: rat
    proof -
      have "of_int (rhe y) - y \<le> 1 / 2" "y - of_int (rhe y) \<le> 1 / 2" using rhe_near [of y] by (simp_all only: abs_le_iff minus_diff_eq)
      then show ?thesis using that by auto
    qed
    from this [OF y] have "9 / 10 * ?y \<le> of_int (rhe ?y) \<and> of_int (rhe ?y) \<le> 11 / 10 * ?y" .
    then have bnd: "9 / 10 * ?y * ulp x \<le> of_int (rhe ?y) * ulp x \<and> of_int (rhe ?y) * ulp x \<le> 11 / 10 * ?y * ulp x"
      by (meson less_imp_le mult_right_mono ulp_pos)
    have "ulp x \<noteq> 0" by (metis ulp_pos less_irrefl)
    then have "?y * ulp x = x" by simp
    then have "9 / 10 * ?y * ulp x = 9 / 10 * x" "11 / 10 * ?y * ulp x = 11 / 10 * x" by (simp_all only: mult.assoc)
    then show ?thesis using bnd False by (simp only: fl_def if_False)
  qed simp
  then show "9 / 10 * x \<le> fl x" and "fl x \<le> 11 / 10 * x" by simp_all
qed

text \<open>Printing a natural number of at most 53 binary digits and parsing it again gives the number.\<close>

lemma takeWhile_digits: "digits_val a s = Some n \<Longrightarrow> takeWhile is_digit s = s \<and> dropWhile is_digit s = []"
  using digits_val_SomeD [of a s n] by (auto simp: is_digit_def)

lemma parse_unsigned_digits: "s \<noteq> [] \<Longrightarrow> digits_val 0 s = Some n \<Longrightarrow> parse_unsigned s = Some (of_nat n)"
proof -
  assume s: "s \<noteq> []" "digits_val 0 s = Some n"
  then have "takeWhile is_digit s = s" "dropWhile is_digit s = []" using takeWhile_digits by auto
  with s show ?thesis by (simp only: parse_unsigned_def Let_def exp_part_def) simp
qed

lemma parse_float_digits: "s \<noteq> [] \<Longrightarrow> digits_val 0 s = Some n \<Longrightarrow> parse_float s = Some (fl (of_nat n))"
proof -
  assume s: "s \<noteq> []" "digits_val 0 s = Some n"
  then obtain c cs where c: "s = c # cs" by (cases s) auto
  with s have d: "digit_val c \<noteq> None" using digits_val_SomeD [OF s(2)] by simp
  then have "\<not> is_ws c" "c \<noteq> CHR ''-''" "c \<noteq> CHR ''+''" using digit_not_ws by auto
  with c parse_unsigned_digits [OF s] show ?thesis by (simp add: parse_float_def)
qed

lemma digits_val_replicate_zero: "digits_val a (replicate k (CHR ''0'')) = Some (a * 10 ^ k)"
  by (induction k arbitrary: a) (simp_all add: mult.commute mult.assoc mult.left_commute)

lemma shortest_value:
  assumes x: "0 < x" "x = of_nat m" "fl x = x" and "int k \<le> N" and "N - int k < int fuel"
  shows "case shortest fuel x N k of (s, k', n') \<Rightarrow>
     0 \<le> s \<and> int k' \<le> n' \<and> n' \<le> N + 1 \<and> fl (of_int s * 10 powi (n' - int k')) = x"
  using assms(4,5)
proof (induction fuel arbitrary: k)
  case 0
  then show ?case by simp
next
  case (Suc fuel)
  let ?y = "x * 10 powi (int k - N)" let ?f = "\<lfloor>?y\<rfloor>"
  have f0: "0 \<le> ?f" using x(1) by simp
  show ?case
  proof (cases "sig_ok x N k ?f \<or> sig_ok x N k (?f + 1)")
    case True
    define s where "s = (if sig_ok x N k ?f \<and> (\<not> sig_ok x N k (?f + 1) \<or> ?y - of_int ?f \<le> 1/2) then ?f else ?f + 1)"
    have r: "shortest (Suc fuel) x N k = (if s = 10 ^ k then (1, 1, N + 1) else (s, k, N))"
      using True by (simp add: s_def Let_def)
    have "sig_ok x N k s" using True by (auto simp: s_def)
    then have v: "fl (of_int s * 10 powi (N - int k)) = x" by (simp add: sig_ok_def)
    have "(of_int (10 ^ k) :: rat) * 10 powi (N - int k) = 10 powi N" by (simp add: power_int_diff)
    with v r f0 Suc.prems show ?thesis by (auto simp: s_def)
  next
    case False
    then have "int k \<noteq> N" using x by (auto simp: sig_ok_def)
    with Suc.IH [of "Suc k"] Suc.prems False show ?thesis by (simp add: Let_def)
  qed
qed

lemma dec_expo_of_nat: "0 < m \<Longrightarrow> dec_expo (of_nat m) = int (length (nat_to_string m))"
  by (simp add: dec_expo_def)

lemma parse_num_to_string:
  assumes "m < 2 ^ 53"
  shows "parse_float (num_to_string (of_nat m)) = Some (of_nat m)"
proof (cases "m = 0")
  case True
  then show ?thesis using parse_float_digits [of "''0''" 0] by (simp add: num_to_string_def)
next
  case False
  let ?N = "dec_expo (of_nat m)"
  have "m < 10 ^ 16" using assms by simp
  then have len: "length (nat_to_string m) \<le> 16" by (intro nat_to_string_length) simp_all
  have "1 \<le> length (nat_to_string m)" using nat_to_string_nonempty by (simp add: Suc_le_eq)
  then have N: "1 \<le> ?N" "?N \<le> 16" using len False by (simp_all add: dec_expo_of_nat)
  obtain s k n where sh: "shortest 17 (of_nat m) ?N 1 = (s, k, n)" by (cases "shortest 17 (of_nat m) ?N 1") auto
  have "0 \<le> s \<and> int k \<le> n \<and> n \<le> ?N + 1 \<and> fl (of_int s * 10 powi (n - int k)) = of_nat m"
    using shortest_value [of "of_nat m" m 1 ?N 17] N False fl_of_nat_exact [OF assms] unfolding sh by simp
  then have v: "0 \<le> s" "int k \<le> n" "n \<le> 21" "fl (of_int s * 10 powi (n - int k)) = of_nat m" using N by auto
  define j where "j = nat (n - int k)"
  have j: "n - int k = int j" using v(2) by (simp add: j_def)
  let ?d = "nat_to_string (nat s) @ replicate j (CHR ''0'')"
  have "pos_to_string (of_nat m) = ?d" unfolding pos_to_string_def sh using v(2,3) by (simp add: j_def Let_def)
  then have str: "num_to_string (of_nat m) = ?d" using False by (simp add: num_to_string_def)
  have "digits_val 0 ?d = Some (nat s * 10 ^ j)" by (simp add: digits_val_append digits_val_replicate_zero)
  then have "parse_float ?d = Some (fl (of_nat (nat s * 10 ^ j)))" by (intro parse_float_digits) simp_all
  also have "(of_nat (nat s * 10 ^ j) :: rat) = of_int s * 10 powi (n - int k)" using v(1) by (simp add: j)
  finally show ?thesis using v(4) str by simp
qed

end
