(* ===== verification/Stroops.thy ===== *)
theory Stroops
  imports JsNumber
begin

text \<open>
  The amounts of the escrow service: conversion of a decimal amount with seven places to an
  integer number of stroops and back (\<^verbatim>\<open>EscrowService.toStroops\<close>,
  \<^verbatim>\<open>EscrowService.fromStroops\<close> in \<^verbatim>\<open>escrow.service.ts\<close>). The
  conversions are inverse to each other, so the escrow arithmetic is integer arithmetic.
\<close>

section \<open>Definitions\<close>

text \<open>An argument of TypeScript type \<^verbatim>\<open>string | number\<close>.\<close>

datatype amount_arg = AStr string | ANum number

text \<open>\<^verbatim>\<open>BigInt(s)\<close> on decimal literals (an optional sign and digits).\<close>

definition bigint_of :: "string \<Rightarrow> int result" where
  "bigint_of s =
     (let t = trim s;
          err = Inl (SyntaxError (''Cannot convert '' @ s @ '' to a BigInt''));
          digs = (\<lambda>cs sgn. if cs = [] then err
                   else case digits_val 0 cs of None \<Rightarrow> err | Some n \<Rightarrow> Inr (sgn * int n))
      in case t of [] \<Rightarrow> Inr 0
         | c # cs \<Rightarrow> if c = CHR ''-'' then digs cs (-1)
                    else if c = CHR ''+'' then digs cs 1 else digs t 1)"

definition toStroops :: "amount_arg \<Rightarrow> int result" where
  "toStroops amount =
     (let normalized = (case amount of ANum x \<Rightarrow> to_fixed 7 x | AStr s \<Rightarrow> trim s);
          parts = split_on (CHR ''.'') normalized;
          intPart = (case parts of [] \<Rightarrow> [] | p # _ \<Rightarrow> p);
          fracPart = (case parts of _ # f # _ \<Rightarrow> f | _ \<Rightarrow> []);
          frac = take 7 (fracPart @ ''0000000'');
          sign = (if starts_with intPart ''-'' then -1 else 1 :: int);
          absStr = remove1 (CHR ''-'') intPart
      in rbind (bigint_of (if absStr = [] then ''0'' else absStr)) (\<lambda>absInt.
         rbind (bigint_of (if frac = [] then ''0'' else frac)) (\<lambda>f.
         Inr (sign * (absInt * 10000000 + f)))))"

definition fromStroops :: "int \<Rightarrow> string" where
  "fromStroops stroops =
     (let negative = stroops < 0;
          abs = (if negative then - stroops else stroops);
          intPart = abs div 10000000;
          frac = pad_zeros 7 (int_to_string (abs mod 10000000))
      in (if negative then ''-'' else '''') @ int_to_string intPart @ ''.'' @ frac)"

section \<open>Digits\<close>

lemma digits_val_base: "digits_val a s = map_option (\<lambda>v. a * 10 ^ length s + v) (digits_val 0 s)"
proof (induction s arbitrary: a)
  case Nil
  show ?case by simp
next
  case (Cons c s)
  show ?case
  proof (cases "digit_val c")
    case None
    then show ?thesis by simp
  next
    case (Some d)
    have "digits_val (10 * a + d) s = map_option (\<lambda>v. (10 * a + d) * 10 ^ length s + v) (digits_val 0 s)"
      by (rule Cons.IH)
    moreover have "digits_val d s = map_option (\<lambda>v. d * 10 ^ length s + v) (digits_val 0 s)"
      by (rule Cons.IH)
    ultimately show ?thesis using Some
      by (cases "digits_val 0 s") (simp_all add: algebra_simps)
  qed
qed

lemma digits_val_split:
  assumes "digits_val 0 (xs @ ys) = Some n"
  obtains a b where "digits_val 0 xs = Some a" and "digits_val 0 ys = Some b"
    and "n = a * 10 ^ length ys + b"
proof -
  from assms obtain a where a: "digits_val 0 xs = Some a" and n: "digits_val a ys = Some n"
    by (auto simp: digits_val_append split: option.splits)
  from n obtain b where "digits_val 0 ys = Some b" and "n = a * 10 ^ length ys + b"
    by (subst (asm) digits_val_base) auto
  with a show thesis by (rule that)
qed

lemma digit_not_sign: "digit_val c = Some d \<Longrightarrow> c \<noteq> CHR ''-'' \<and> c \<noteq> CHR ''+'' \<and> c \<noteq> CHR ''.''"
  by auto

lemma bigint_of_digits:
  assumes "s \<noteq> []" and "digits_val 0 s = Some n"
  shows "bigint_of s = Inr (int n)"
proof -
  have "trim s = s"
    by (rule trim_no_ws) (rule digit_not_ws, rule digits_val_SomeD [OF assms(2)])
  moreover from assms obtain c cs where s: "s = c # cs" by (cases s) auto
  moreover have "digit_val c \<noteq> None"
    using digits_val_SomeD [OF assms(2)] by (auto simp: s)
  then have "c \<noteq> CHR ''-''" "c \<noteq> CHR ''+''" by auto
  ultimately show ?thesis using assms by (simp add: bigint_of_def)
qed

lemma fixed_string_value:
  assumes "digits_val 0 ip = Some a" and "ip \<noteq> []"
    and "digits_val 0 fp = Some b" and "length fp = 7"
  shows "toStroops (AStr (ip @ ''.'' @ fp)) = Inr (int a * 10000000 + int b)"
    and "toStroops (AStr (CHR ''-'' # ip @ ''.'' @ fp)) = Inr (- (int a * 10000000 + int b))"
    and "to_fixed 7 x = ip @ ''.'' @ fp \<Longrightarrow> toStroops (ANum x) = Inr (int a * 10000000 + int b)"
proof -
  have ipd: "\<And>c. c \<in> set ip \<Longrightarrow> digit_val c \<noteq> None"
    by (rule digits_val_SomeD [OF assms(1)])
  have fpd: "\<And>c. c \<in> set fp \<Longrightarrow> digit_val c \<noteq> None"
    by (rule digits_val_SomeD [OF assms(3)])
  have nodot: "CHR ''.'' \<notin> set ip" "CHR ''.'' \<notin> set (CHR ''-'' # ip)" "CHR ''.'' \<notin> set fp"
    and nominus: "CHR ''-'' \<notin> set ip"
    using ipd fpd by fastforce+
  have ws: "\<not> is_ws (CHR ''.'')" "\<not> is_ws (CHR ''-'')" by (simp_all add: is_ws_def)
  have t1: "trim (ip @ ''.'' @ fp) = ip @ ''.'' @ fp"
    using ipd fpd ws digit_not_ws by (intro trim_no_ws) (simp; blast)+
  have t2: "trim (CHR ''-'' # ip @ ''.'' @ fp) = CHR ''-'' # ip @ ''.'' @ fp"
    using ipd fpd ws digit_not_ws by (intro trim_no_ws) (simp; blast)+
  have s1: "split_on (CHR ''.'') (ip @ ''.'' @ fp) = [ip, fp]"
    using split_on_append [OF nodot(1), of fp] split_on_free [OF nodot(3)] by simp
  have s2: "split_on (CHR ''.'') (CHR ''-'' # ip @ ''.'' @ fp) = [CHR ''-'' # ip, fp]"
    using split_on_append [OF nodot(2), of fp] split_on_free [OF nodot(3)] by simp
  have fr: "take 7 (fp @ ''0000000'') = fp" "fp \<noteq> []" using assms(4) by auto
  have sw: "\<not> starts_with ip ''-''" "remove1 (CHR ''-'') ip = ip"
    using nominus by (auto simp: starts_with_iff remove1_idem)
  note b = bigint_of_digits [OF assms(2,1)] bigint_of_digits [OF fr(2) assms(3)]
  show "toStroops (AStr (ip @ ''.'' @ fp)) = Inr (int a * 10000000 + int b)"
    by (simp only: toStroops_def amount_arg.case t1 s1 list.case fr sw Let_def if_False
        b rbind_simps assms(2)) (simp add: assms(2))
  show "toStroops (AStr (CHR ''-'' # ip @ ''.'' @ fp)) = Inr (- (int a * 10000000 + int b))"
    by (simp only: toStroops_def amount_arg.case t2 s2 list.case fr Let_def
        remove1.simps if_True starts_with.simps b rbind_simps assms(2)) (simp add: assms(2) b)
  show "toStroops (ANum x) = Inr (int a * 10000000 + int b)"
    if "to_fixed 7 x = ip @ ''.'' @ fp"
    by (simp only: toStroops_def amount_arg.case that s1 list.case fr sw Let_def if_False
        b rbind_simps assms(2)) (simp add: assms(2))
qed

section \<open>Round trips\<close>

lemma mod_nonneg: "\<not> n mod 10000000 < (0::int)"
  using pos_mod_sign [of 10000000 n] by linarith

lemma fromStroops_parts:
  assumes "0 \<le> n"
  shows "fromStroops n = nat_to_string (nat (n div 10000000)) @ ''.''
      @ pad_zeros 7 (nat_to_string (nat (n mod 10000000)))"
  using assms
  by (simp add: fromStroops_def int_to_string_def Let_def not_less pos_imp_zdiv_neg_iff mod_nonneg)

lemma fromStroops_neg:
  assumes "n < 0"
  shows "fromStroops n = CHR ''-'' # fromStroops (- n)"
  using assms by (simp add: fromStroops_def Let_def)

lemma frac_seven: "length (pad_zeros 7 (nat_to_string (nat (n mod 10000000)))) = 7"
proof -
  have "nat (n mod 10000000) < 10 ^ 7" by (simp add: nat_less_iff)
  then have "length (nat_to_string (nat (n mod 10000000))) \<le> 7"
    by (intro nat_to_string_length) simp_all
  then show ?thesis by simp
qed

lemma frac_value:
  "digits_val 0 (pad_zeros 7 (nat_to_string (nat (n mod 10000000)))) = Some (nat (n mod 10000000))"
  by simp

lemma toStroops_fromStroops [simp]: "toStroops (AStr (fromStroops n)) = Inr n"
proof (cases "0 \<le> n")
  case True
  have v: "int (nat (n div 10000000)) * 10000000 + int (nat (n mod 10000000)) = n"
    using True by (simp add: pos_imp_zdiv_nonneg_iff)
  show ?thesis
    using fixed_string_value(1) [OF digits_val_nat_to_string nat_to_string_nonempty
        frac_value frac_seven, of "nat (n div 10000000)" n] v
    by (simp only: fromStroops_parts [OF True])
next
  case False
  define m where "m = - n"
  have m: "0 \<le> m" and n: "n = - m" and neg: "n < 0" using False by (simp_all add: m_def)
  have v: "int (nat (m div 10000000)) * 10000000 + int (nat (m mod 10000000)) = m"
    using m by (simp add: pos_imp_zdiv_nonneg_iff)
  show ?thesis
    using fixed_string_value(2) [OF digits_val_nat_to_string nat_to_string_nonempty
        frac_value frac_seven, of "nat (m div 10000000)" m] v
    unfolding fromStroops_neg [OF neg] unfolding n minus_minus fromStroops_parts [OF m] by simp
qed

lemma fromStroops_inject [simp]: "fromStroops a = fromStroops b \<longleftrightarrow> a = b"
proof
  assume "fromStroops a = fromStroops b"
  then have "toStroops (AStr (fromStroops a)) = toStroops (AStr (fromStroops b))" by simp
  then show "a = b" by simp
qed simp

lemma fixed_pos_split:
  assumes "0 \<le> x" and "x < 10 ^ 21"
  obtains ip fp a b where "to_fixed 7 x = ip @ ''.'' @ fp" and "ip \<noteq> []"
    and "digits_val 0 ip = Some a" and "digits_val 0 fp = Some b" and "length fp = 7"
    and "int a * 10000000 + int b = \<lfloor>x * 10 ^ 7 + 1/2\<rfloor>"
proof -
  define n where "n = nat \<lfloor>x * 10 ^ 7 + 1/2\<rfloor>"
  define p where "p = pad_zeros 8 (nat_to_string n)"
  have len: "8 \<le> length p" by (simp add: p_def)
  have v: "digits_val 0 (take (length p - 7) p @ drop (length p - 7) p) = Some n"
    by (simp add: p_def)
  from digits_val_split [OF v] obtain a b where ab:
    "digits_val 0 (take (length p - 7) p) = Some a"
    "digits_val 0 (drop (length p - 7) p) = Some b"
    "n = a * 10 ^ length (drop (length p - 7) p) + b" .
  have "n = a * 10 ^ 7 + b" using ab(3) len by simp
  moreover have "int n = \<lfloor>x * 10 ^ 7 + 1/2\<rfloor>"
    using assms(1) by (simp add: n_def)
  ultimately have "int a * 10000000 + int b = \<lfloor>x * 10 ^ 7 + 1/2\<rfloor>" by simp
  moreover have "to_fixed 7 x = take (length p - 7) p @ ''.'' @ drop (length p - 7) p"
    using assms by (simp add: to_fixed_def fixed_pos_def Let_def p_def n_def)
  moreover have "take (length p - 7) p \<noteq> []" using len by auto
  ultimately show thesis using that ab len by simp
qed

text \<open>A number below \<open>10^21\<close> becomes the nearest number of stroops, halves upwards.\<close>

lemma toStroops_number:
  assumes "0 \<le> x" and "x < 10 ^ 21"
  shows "toStroops (ANum x) = Inr \<lfloor>x * 10 ^ 7 + 1/2\<rfloor>"
proof -
  from fixed_pos_split [OF assms] obtain ip fp a b where p:
    "to_fixed 7 x = ip @ ''.'' @ fp" "ip \<noteq> []" "digits_val 0 ip = Some a"
    "digits_val 0 fp = Some b" "length fp = 7"
    "int a * 10000000 + int b = \<lfloor>x * 10 ^ 7 + 1/2\<rfloor>" .
  show ?thesis
    using fixed_string_value(3) [OF p(3,2,4,5,1)] p(6) by simp
qed

end
