(* ===== verification/Escrow.thy ===== *)
theory Escrow
  imports Stroops
begin

text \<open>
  The escrow service (\<^verbatim>\<open>src/modules/escrow\<close>): its entities as records, its four
  tables and the emitted domain events as one state, one definition per handler of
  \<^verbatim>\<open>EscrowService\<close>. Timestamps are milliseconds; a handler reads the clock once
  (\<open>now\<close>). \<open>numeric_col\<close>, an argument of \<open>createEscrow\<close>, is what a column of type
  \<^verbatim>\<open>numeric(30,7)\<close> returns for a literal stored in it. Loggers are left out.
\<close>

section \<open>Entities\<close>

datatype escrow_status =
    PENDING | AWAITING_FUNDING | FUNDED | APPROVED | PARTIALLY_RELEASED | SETTLED
  | REFUNDED | DISPUTED | EXPIRED | CANCELLED

datatype escrow_type = STANDARD | TIME_LOCKED | MILESTONE_BASED | TRUST_ACCOUNT

datatype signatory_role = CREATOR | COUNTERPARTY | TRUSTEE | INSTITUTIONAL_REP | ADMIN_SIGNATORY

datatype timeline_event_type =
    ESCROW_CREATED | SIGNATORY_ADDED | SIGNATORY_APPROVED | SIGNATORY_REVOKED | ESCROW_FUNDED
  | MILESTONE_ADDED | MILESTONE_COMPLETED | PARTIAL_RELEASE | ESCROW_SETTLED | ESCROW_REFUNDED
  | ESCROW_EXPIRED | ESCROW_CANCELLED | DISPUTE_FLAGGED | DISPUTE_RESOLVED | TIMEOUT_TRIGGERED
  | SIGNATURE_THRESHOLD_REACHED

fun status_str :: "escrow_status \<Rightarrow> string" where
  "status_str PENDING = ''pending''"
| "status_str AWAITING_FUNDING = ''awaiting_funding''"
| "status_str FUNDED = ''funded''"
| "status_str APPROVED = ''approved''"
| "status_str PARTIALLY_RELEASED = ''partially_released''"
| "status_str SETTLED = ''settled''"
| "status_str REFUNDED = ''refunded''"
| "status_str DISPUTED = ''disputed''"
| "status_str EXPIRED = ''expired''"
| "status_str CANCELLED = ''cancelled''"

fun type_str :: "escrow_type \<Rightarrow> string" where
  "type_str STANDARD = ''standard''"
| "type_str TIME_LOCKED = ''time_locked''"
| "type_str MILESTONE_BASED = ''milestone_based''"
| "type_str TRUST_ACCOUNT = ''trust_account''"

fun role_str :: "signatory_role \<Rightarrow> string" where
  "role_str CREATOR = ''creator''"
| "role_str COUNTERPARTY = ''counterparty''"
| "role_str TRUSTEE = ''trustee''"
| "role_str INSTITUTIONAL_REP = ''institutional_rep''"
| "role_str ADMIN_SIGNATORY = ''admin''"

record escrow_account =
  ea_id :: string
  ea_createdAt :: int
  ea_creatorId :: string
  ea_escrowAddress :: "string option"
  ea_type :: escrow_type
  ea_status :: escrow_status
  ea_requiredSignatures :: nat
  ea_totalSignatories :: nat
  ea_assetCode :: string
  ea_assetIssuer :: "string option"
  ea_amount :: string
  ea_releasedAmount :: string
  ea_feeAmount :: string
  ea_settlementDeadline :: "int option"
  ea_timeLockExpiry :: "int option"
  ea_description :: "string option"
  ea_tradeId :: "string option"
  ea_disputeId :: "string option"
  ea_fundingTxHash :: "string option"
  ea_settlementTxHash :: "string option"
  ea_fundedAt :: "int option"
  ea_settledAt :: "int option"
  ea_refundedAt :: "int option"
  ea_metadata :: "string option"

record escrow_signatory =
  es_id :: string
  es_escrowAccountId :: string
  es_userId :: string
  es_publicKey :: string
  es_role :: signatory_role
  es_hasApproved :: bool
  es_approvedAt :: "int option"
  es_revokedAt :: "int option"
  es_approvalIpAddress :: "string option"

record escrow_milestone =
  em_id :: string
  em_escrowAccountId :: string
  em_title :: string
  em_description :: "string option"
  em_orderIndex :: nat
  em_amount :: string
  em_isCompleted :: bool
  em_completedAt :: "int option"
  em_completedBy :: "string option"
  em_releaseTxHash :: "string option"

record escrow_timeline =
  et_id :: string
  et_createdAt :: int
  et_escrowAccountId :: string
  et_eventType :: timeline_event_type
  et_actorId :: string
  et_description :: "string option"
  et_metadata :: "(string \<times> string) list option"

text \<open>The domain events of \<^verbatim>\<open>EscrowEvents\<close>, with the payloads the service emits.\<close>

datatype escrow_event =
    EvCreated string string escrow_type
  | EvFunded string string string
  | EvThresholdReached string nat nat
  | EvSettled string string bool
  | EvPartialRelease string string string
  | EvRefunded string string string
  | EvExpired string int
  | EvMilestoneCompleted string string string string
  | EvDisputed string string string
  | EvCancelled string string

record escrow_db =
  accounts :: "escrow_account list"
  signatories :: "escrow_signatory list"
  milestones :: "escrow_milestone list"
  timeline :: "escrow_timeline list"
  emitted :: "escrow_event list"

section \<open>Request bodies\<close>

record signatory_input =
  si_userId :: string
  si_publicKey :: string
  si_role :: signatory_role

record milestone_input =
  mi_title :: string
  mi_description :: "string option"
  mi_orderIndex :: nat
  mi_amount :: number

record create_escrow_dto =
  ce_type :: escrow_type
  ce_requiredSignatures :: nat
  ce_assetCode :: string
  ce_assetIssuer :: "string option"
  ce_amount :: number
  ce_description :: "string option"
  ce_tradeId :: "string option"
  ce_settlementDeadline :: "string field"
  ce_timeLockExpiry :: "string option"
  ce_signatories :: "signatory_input list"
  ce_milestones :: "milestone_input list option"
  ce_metadata :: "string option"

text \<open>An amount that is \<^verbatim>\<open>null\<close> instead of missing makes the conversion throw and is not a value here.\<close>

record release_funds_dto =
  rf_amount :: "number option"
  rf_milestoneId :: "string option"

record query_escrow_dto =
  qe_page :: nat
  qe_limit :: nat
  qe_status :: "escrow_status option"
  qe_type :: "escrow_type option"
  qe_creatorId :: "string option"
  qe_tradeId :: "string option"

definition DEFAULT_SETTLEMENT_WINDOW_MS :: int where
  "DEFAULT_SETTLEMENT_WINDOW_MS = 7 * 24 * 60 * 60 * 1000"

definition MAX_ACTIVE_ESCROWS_PER_USER :: nat where
  "MAX_ACTIVE_ESCROWS_PER_USER = 50"

section \<open>Timeline and helpers\<close>

definition addEvent ::
  "env \<Rightarrow> nat \<Rightarrow> string \<Rightarrow> timeline_event_type \<Rightarrow> string \<Rightarrow> string \<Rightarrow>
   (string \<times> string) list option \<Rightarrow> escrow_db \<Rightarrow> escrow_db" where
  "addEvent w k escrowId ty actor descr meta db =
     db\<lparr>timeline := timeline db @ [\<lparr>et_id = uuid w k, et_createdAt = now w,
        et_escrowAccountId = escrowId, et_eventType = ty, et_actorId = actor,
        et_description = Some descr, et_metadata = meta\<rparr>]\<rparr>"

definition emit :: "escrow_event \<Rightarrow> escrow_db \<Rightarrow> escrow_db" where
  "emit ev db = db\<lparr>emitted := emitted db @ [ev]\<rparr>"

definition save_account :: "escrow_account \<Rightarrow> escrow_db \<Rightarrow> escrow_db" where
  "save_account e db = db\<lparr>accounts := save_row ea_id e (accounts db)\<rparr>"

definition save_signatory :: "escrow_signatory \<Rightarrow> escrow_db \<Rightarrow> escrow_db" where
  "save_signatory s db = db\<lparr>signatories := save_row es_id s (signatories db)\<rparr>"

definition save_milestone :: "escrow_milestone \<Rightarrow> escrow_db \<Rightarrow> escrow_db" where
  "save_milestone m db = db\<lparr>milestones := save_row em_id m (milestones db)\<rparr>"

definition find_account :: "string \<Rightarrow> escrow_db \<Rightarrow> escrow_account option" where
  "find_account i db = row_by ea_id i (accounts db)"

definition signatories_of :: "string \<Rightarrow> escrow_db \<Rightarrow> escrow_signatory list" where
  "signatories_of i db = filter (\<lambda>s. es_escrowAccountId s = i) (signatories db)"

definition find_milestone :: "string \<Rightarrow> string \<Rightarrow> escrow_db \<Rightarrow> escrow_milestone option" where
  "find_milestone mid i db =
     find (\<lambda>m. em_id m = mid \<and> em_escrowAccountId m = i) (milestones db)"

definition getEscrowOrThrow :: "string \<Rightarrow> escrow_db \<Rightarrow> escrow_account result" where
  "getEscrowOrThrow i db =
     (case find_account i db of
        None \<Rightarrow> Inl (NotFound (''Escrow account '' @ i @ '' not found''))
      | Some e \<Rightarrow> Inr e)"

definition assertCreatorOrAdmin :: "escrow_account \<Rightarrow> string \<Rightarrow> string \<Rightarrow> unit result" where
  "assertCreatorOrAdmin e userId userRole =
     (if ea_creatorId e \<noteq> userId \<and> userRole \<noteq> ''admin''
      then Inl (Forbidden ''Only the creator or an admin can perform this action'')
      else Inr ())"

definition assertSignatory :: "escrow_signatory list \<Rightarrow> string \<Rightarrow> escrow_signatory result" where
  "assertSignatory sigs userId =
     (case find (\<lambda>s. es_userId s = userId) sigs of
        None \<Rightarrow> Inl (Forbidden ''You are not a signatory on this escrow'')
      | Some s \<Rightarrow> Inr s)"

record approval_progress =
  ap_current :: nat
  ap_required :: nat
  ap_percentage :: "int option"
  ap_isThresholdMet :: bool

definition calculateApprovalProgress :: "escrow_signatory list \<Rightarrow> nat \<Rightarrow> approval_progress" where
  "calculateApprovalProgress sigs required =
     (let approvedCount = length (filter es_hasApproved sigs) in
      \<lparr>ap_current = approvedCount, ap_required = required,
       ap_percentage = map_option (\<lambda>q. math_round (num_mul q 100))
         (num_div (of_nat approvedCount) (of_nat required)),
       ap_isThresholdMet = required \<le> approvedCount\<rparr>)"

section \<open>Create\<close>

definition milestone_total :: "milestone_input list \<Rightarrow> number" where
  "milestone_total ms = foldl (\<lambda>sum m. num_add sum (mi_amount m)) 0 ms"

text \<open>\<^verbatim>\<open>0.0000001\<close>, the double nearest to it.\<close>

definition milestone_tolerance :: number where
  "milestone_tolerance = fl (1 / 10 ^ 7)"

definition check_milestones :: "create_escrow_dto \<Rightarrow> unit result" where
  "check_milestones dto =
     (if ce_type dto \<noteq> MILESTONE_BASED then Inr ()
      else case ce_milestones dto of
        None \<Rightarrow> Inl (BadRequest ''At least one milestone is required for MILESTONE_BASED escrow type'')
      | Some ms \<Rightarrow>
          if ms = [] then
            Inl (BadRequest ''At least one milestone is required for MILESTONE_BASED escrow type'')
          else if \<bar>num_sub (milestone_total ms) (ce_amount dto)\<bar> > milestone_tolerance then
            Inl (BadRequest (''Milestone amounts ('' @ num_to_string (milestone_total ms) @
              '') must sum to the escrow amount ('' @ num_to_string (ce_amount dto) @ '')''))
          else Inr ())"

definition new_signatories :: "env \<Rightarrow> string \<Rightarrow> signatory_input list \<Rightarrow> escrow_signatory list" where
  "new_signatories w eid ss =
     map (\<lambda>(k, s). \<lparr>es_id = uuid w (Suc k), es_escrowAccountId = eid, es_userId = si_userId s,
       es_publicKey = si_publicKey s, es_role = si_role s, es_hasApproved = False,
       es_approvedAt = None, es_revokedAt = None, es_approvalIpAddress = None\<rparr>)
       (zip [0..<length ss] ss)"

definition new_milestones ::
  "env \<Rightarrow> (string \<Rightarrow> string) \<Rightarrow> nat \<Rightarrow> string \<Rightarrow> milestone_input list \<Rightarrow> escrow_milestone list" where
  "new_milestones w numeric_col k0 eid ms =
     map (\<lambda>(k, m). \<lparr>em_id = uuid w (k0 + k), em_escrowAccountId = eid, em_title = mi_title m,
       em_description = mi_description m, em_orderIndex = mi_orderIndex m,
       em_amount = numeric_col (num_to_string (mi_amount m)), em_isCompleted = False,
       em_completedAt = None, em_completedBy = None, em_releaseTxHash = None\<rparr>)
       (zip [0..<length ms] ms)"

definition new_account ::
  "env \<Rightarrow> (string \<Rightarrow> int) \<Rightarrow> (string \<Rightarrow> string) \<Rightarrow> string \<Rightarrow> create_escrow_dto \<Rightarrow> escrow_account" where
  "new_account w parse_date numeric_col userId dto =
     \<lparr>ea_id = uuid w 0, ea_createdAt = now w, ea_creatorId = userId,
      ea_escrowAddress = Some (keypair w), ea_type = ce_type dto, ea_status = PENDING,
      ea_requiredSignatures = ce_requiredSignatures dto,
      ea_totalSignatories = length (ce_signatories dto), ea_assetCode = ce_assetCode dto,
      ea_assetIssuer = ce_assetIssuer dto,
      ea_amount = numeric_col (num_to_string (ce_amount dto)),
      ea_releasedAmount = numeric_col ''0'', ea_feeAmount = numeric_col ''0'',
      ea_settlementDeadline =
        (case ce_settlementDeadline dto of
           Val s \<Rightarrow> if s = [] then None else Some (parse_date s)
         | Undefined \<Rightarrow> Some (now w + DEFAULT_SETTLEMENT_WINDOW_MS)
         | Null \<Rightarrow> None),
      ea_timeLockExpiry =
        (case ce_timeLockExpiry dto of
           Some s \<Rightarrow> if s = [] then None else Some (parse_date s) | None \<Rightarrow> None),
      ea_description = ce_description dto, ea_tradeId = ce_tradeId dto, ea_disputeId = None,
      ea_fundingTxHash = None, ea_settlementTxHash = None, ea_fundedAt = None,
      ea_settledAt = None, ea_refundedAt = None, ea_metadata = ce_metadata dto\<rparr>"

text \<open>
  The transaction of \<^verbatim>\<open>createEscrow\<close>: the inserts violate the unique indexes of the
  entities (address; escrow and user) or all succeed; a violation rolls everything back.
\<close>

definition createEscrow ::
  "env \<Rightarrow> (string \<Rightarrow> int) \<Rightarrow> (string \<Rightarrow> string) \<Rightarrow> string \<Rightarrow> string \<Rightarrow> create_escrow_dto \<Rightarrow>
   escrow_db \<Rightarrow> (escrow_account \<times> escrow_db) result" where
  "createEscrow w parse_date numeric_col userId userRole dto db =
    (if ce_requiredSignatures dto > length (ce_signatories dto) then
       Inl (BadRequest (''requiredSignatures ('' @ nat_to_string (ce_requiredSignatures dto) @
         '') cannot exceed the number of signatories ('' @
         nat_to_string (length (ce_signatories dto)) @ '')''))
     else if ce_type dto = TIME_LOCKED \<and> ce_timeLockExpiry dto \<in> {None, Some []} then
       Inl (BadRequest ''timeLockExpiry is required for TIME_LOCKED escrow type'')
     else rbind (check_milestones dto) (\<lambda>_.
       if MAX_ACTIVE_ESCROWS_PER_USER
          \<le> length (filter (\<lambda>e. ea_creatorId e = userId \<and> ea_status e = PENDING) (accounts db)) then
         Inl (BadRequest (''Maximum of '' @ nat_to_string MAX_ACTIVE_ESCROWS_PER_USER @
           '' active escrows exceeded''))
       else
         let e = new_account w parse_date numeric_col userId dto;
             sigs = new_signatories w (ea_id e) (ce_signatories dto);
             k1 = Suc (length sigs);
             ms = (case ce_milestones dto of None \<Rightarrow> [] | Some l \<Rightarrow> l);
             mils = new_milestones w numeric_col k1 (ea_id e) ms;
             k2 = k1 + length mils
         in if \<exists>a \<in> set (accounts db). ea_escrowAddress a = Some (keypair w) then
              Inl (QueryFailed ''duplicate escrowAddress'')
            else if \<not> distinct (map si_userId (ce_signatories dto)) then
              Inl (QueryFailed ''duplicate escrowAccountId, userId'')
            else Inr (e\<lparr>ea_amount := num_to_string (ce_amount dto)\<rparr>,
              emit (EvCreated (ea_id e) userId (ce_type dto))
               (addEvent w k2 (ea_id e) ESCROW_CREATED userId
                 (''Escrow created: '' @ num_to_string (ce_amount dto) @ '' '' @ ce_assetCode dto @
                  '' ('' @ type_str (ce_type dto) @ '')'')
                 (Some [(''type'', type_str (ce_type dto)),
                        (''amount'', num_to_string (ce_amount dto)),
                        (''assetCode'', ce_assetCode dto)])
                 (db\<lparr>accounts := accounts db @ [e], signatories := signatories db @ sigs,
                     milestones := milestones db @ mils\<rparr>)))))"

section \<open>Queries\<close>

record escrow_detail =
  ed_escrow :: escrow_account
  ed_signatories :: "escrow_signatory list"
  ed_milestones :: "escrow_milestone list"
  ed_progress :: approval_progress

definition getEscrowDetail ::
  "string \<Rightarrow> string \<Rightarrow> string \<Rightarrow> escrow_db \<Rightarrow> escrow_detail result" where
  "getEscrowDetail i userId userRole db =
     rbind (getEscrowOrThrow i db) (\<lambda>e.
       let sigs = signatories_of i db;
           isSignatory = (\<exists>s \<in> set sigs. es_userId s = userId)
       in if ea_creatorId e \<noteq> userId \<and> \<not> isSignatory \<and> userRole \<noteq> ''admin'' then
            Inl (Forbidden ''You do not have access to this escrow'')
          else
            let ms = sort_key em_orderIndex (filter (\<lambda>m. em_escrowAccountId m = i) (milestones db))
            in Inr \<lparr>ed_escrow = e, ed_signatories = sigs, ed_milestones = ms,
                    ed_progress = calculateApprovalProgress sigs (ea_requiredSignatures e)\<rparr>)"

definition opt_filter :: "('a \<Rightarrow> 'b) \<Rightarrow> 'b option \<Rightarrow> 'a \<Rightarrow> bool" where
  "opt_filter f q x = (case q of None \<Rightarrow> True | Some v \<Rightarrow> f x = v)"

definition findAll_rows ::
  "string \<Rightarrow> string \<Rightarrow> query_escrow_dto \<Rightarrow> escrow_db \<Rightarrow> escrow_account list" where
  "findAll_rows userId userRole q db =
     filter (\<lambda>e.
       (userRole = ''admin'' \<or> ea_creatorId e = userId \<or>
        (\<exists>s \<in> set (signatories db). es_userId s = userId \<and> es_escrowAccountId s = ea_id e)) \<and>
       opt_filter ea_status (qe_status q) e \<and> opt_filter ea_type (qe_type q) e \<and>
       opt_filter ea_creatorId (qe_creatorId q) e \<and>
       opt_filter (\<lambda>x. ea_tradeId x) (map_option Some (qe_tradeId q)) e) (accounts db)"

text \<open>Data page, total number of matches, page, page size and number of pages.\<close>

definition findAll ::
  "string \<Rightarrow> string \<Rightarrow> query_escrow_dto \<Rightarrow> escrow_db \<Rightarrow>
   escrow_account list \<times> nat \<times> nat \<times> nat \<times> nat" where
  "findAll userId userRole q db =
     (let rows = sort_key (\<lambda>e. - ea_createdAt e) (findAll_rows userId userRole q db);
          total = length rows
      in (take (qe_limit q) (drop ((qe_page q - 1) * qe_limit q) rows), total,
          qe_page q, qe_limit q, (total + qe_limit q - 1) div qe_limit q))"

definition getTimeline :: "string \<Rightarrow> escrow_db \<Rightarrow> escrow_timeline list result" where
  "getTimeline i db =
     rbind (getEscrowOrThrow i db) (\<lambda>_.
       Inr (sort_key et_createdAt (filter (\<lambda>t. et_escrowAccountId t = i) (timeline db))))"

section \<open>Approvals\<close>

definition approveEscrow ::
  "env \<Rightarrow> string \<Rightarrow> string \<Rightarrow> string option \<Rightarrow> string option \<Rightarrow> escrow_db \<Rightarrow>
   (escrow_account option \<times> escrow_db) result" where
  "approveEscrow w escrowId userId note ip db =
    rbind (getEscrowOrThrow escrowId db) (\<lambda>e.
     if ea_status e \<noteq> FUNDED \<and> ea_status e \<noteq> APPROVED then
       Inl (BadRequest (''Cannot approve escrow in status: '' @ status_str (ea_status e) @
         ''. Must be in FUNDED status.''))
     else let sigs = signatories_of escrowId db in
     rbind (assertSignatory sigs userId) (\<lambda>s.
     if es_hasApproved s then Inl (Conflict ''You have already approved this escrow'')
     else
       let s' = s\<lparr>es_hasApproved := True, es_approvedAt := Some (now w),
                  es_approvalIpAddress := ip\<rparr>;
           noteStr = (case note of None \<Rightarrow> [] | Some n \<Rightarrow> if n = [] then [] else '': '' @ n);
           db1 = addEvent w 0 escrowId SIGNATORY_APPROVED userId
                   (''Signature recorded from '' @ role_str (es_role s') @ noteStr)
                   (Some [(''signatoryRole'', role_str (es_role s')), (''publicKey'', es_publicKey s')])
                   (save_signatory s' db);
           progress = calculateApprovalProgress (save_row es_id s' sigs) (ea_requiredSignatures e);
           db2 = (if ap_isThresholdMet progress \<and> ea_status e \<noteq> APPROVED then
                    emit (EvThresholdReached (ea_id e) (ap_current progress) (ap_required progress))
                     (addEvent w 1 escrowId SIGNATURE_THRESHOLD_REACHED userId
                       (''Signature threshold reached: '' @ nat_to_string (ap_current progress) @ ''/'' @
                        nat_to_string (ap_required progress)) None
                       (save_account (e\<lparr>ea_status := APPROVED\<rparr>) db1))
                  else db1)
       in Inr (find_account escrowId db2, db2)))"

definition revokeApproval ::
  "env \<Rightarrow> string \<Rightarrow> string \<Rightarrow> escrow_db \<Rightarrow> (escrow_account option \<times> escrow_db) result" where
  "revokeApproval w escrowId userId db =
    rbind (getEscrowOrThrow escrowId db) (\<lambda>e.
     if ea_status e \<noteq> FUNDED then
       Inl (BadRequest (''Cannot revoke approval on escrow in status: '' @ status_str (ea_status e)))
     else rbind (assertSignatory (signatories_of escrowId db) userId) (\<lambda>s.
     if \<not> es_hasApproved s then Inl (BadRequest ''You have not approved this escrow'')
     else
       let s' = s\<lparr>es_hasApproved := False, es_revokedAt := Some (now w), es_approvedAt := None\<rparr>;
           db1 = addEvent w 0 escrowId SIGNATORY_REVOKED userId
                   (''Signature revoked by '' @ role_str (es_role s')) None (save_signatory s' db)
       in Inr (find_account escrowId db1, db1)))"

section \<open>Funding and release\<close>

definition fundEscrow ::
  "env \<Rightarrow> string \<Rightarrow> string \<Rightarrow> string \<Rightarrow> escrow_db \<Rightarrow> (escrow_account \<times> escrow_db) result" where
  "fundEscrow w escrowId userId txHash db =
    rbind (getEscrowOrThrow escrowId db) (\<lambda>e.
     if ea_status e \<noteq> PENDING then
       Inl (BadRequest (''Cannot fund escrow in status: '' @ status_str (ea_status e)))
     else if ea_creatorId e \<noteq> userId then
       Inl (Forbidden ''Only the creator can fund the escrow'')
     else
       let e' = e\<lparr>ea_status := FUNDED, ea_fundedAt := Some (now w), ea_fundingTxHash := Some txHash\<rparr>
       in Inr (e', emit (EvFunded (ea_id e') (ea_amount e') (ea_assetCode e'))
            (addEvent w 0 escrowId ESCROW_FUNDED userId
              (''Escrow funded: '' @ ea_amount e' @ '' '' @ ea_assetCode e')
              (Some [(''txHash'', txHash)]) (save_account e' db))))"

text \<open>
  \<^verbatim>\<open>releaseFunds\<close> reads first and writes in a transaction afterwards; the two halves are
  separate so that interleavings of two calls can be stated. The plan carries the entity as
  changed in memory, the released amount that was read, and the stroops involved.
\<close>

record release_plan =
  rp_escrow :: escrow_account
  rp_releasedStroops :: int
  rp_remainingStroops :: int
  rp_releaseStroops :: int
  rp_isFullySettled :: bool

definition check_release_milestone :: "string \<Rightarrow> string option \<Rightarrow> escrow_db \<Rightarrow> unit result" where
  "check_release_milestone escrowId mid db =
     (case mid of None \<Rightarrow> Inr ()
      | Some m \<Rightarrow> if m = [] then Inr () else
          (case find_milestone m escrowId db of
             None \<Rightarrow> Inl (NotFound (''Milestone '' @ m @ '' not found''))
           | Some r \<Rightarrow> if \<not> em_isCompleted r
               then Inl (BadRequest ''Milestone must be completed before releasing funds'')
               else Inr ()))"

definition release_read ::
  "env \<Rightarrow> string \<Rightarrow> string \<Rightarrow> release_funds_dto \<Rightarrow> escrow_db \<Rightarrow> release_plan result" where
  "release_read w escrowId userRole dto db =
    rbind (getEscrowOrThrow escrowId db) (\<lambda>e.
     let isForceRelease = (userRole = ''admin'') in
     if \<not> isForceRelease \<and> ea_status e \<notin> set [APPROVED, PARTIALLY_RELEASED] then
       Inl (BadRequest (''Cannot release funds from escrow in status: '' @ status_str (ea_status e)))
     else
       let progress = calculateApprovalProgress (signatories_of escrowId db) (ea_requiredSignatures e) in
       if \<not> isForceRelease \<and> \<not> ap_isThresholdMet progress then
         Inl (BadRequest (''Signature threshold not yet met ('' @ nat_to_string (ap_current progress) @
           ''/'' @ nat_to_string (ap_required progress) @ '')''))
       else rbind (check_release_milestone escrowId (rf_milestoneId dto) db) (\<lambda>_.
            rbind (toStroops (AStr (ea_amount e))) (\<lambda>totalStroops.
            rbind (toStroops (AStr (ea_releasedAmount e))) (\<lambda>releasedStroops.
            let remainingStroops = totalStroops - releasedStroops in
            rbind (case rf_amount dto of Some a \<Rightarrow> toStroops (ANum a) | None \<Rightarrow> Inr remainingStroops)
             (\<lambda>releaseStroops.
            if releaseStroops \<le> 0 \<or> releaseStroops > remainingStroops then
              Inl (BadRequest (''Invalid release amount: '' @ fromStroops releaseStroops @
                ''. Remaining: '' @ fromStroops remainingStroops))
            else
              let newReleasedStroops = releasedStroops + releaseStroops;
                  isFullySettled = (newReleasedStroops = totalStroops);
                  e1 = e\<lparr>ea_releasedAmount := fromStroops newReleasedStroops,
                         ea_status := (if isFullySettled then SETTLED else PARTIALLY_RELEASED)\<rparr>;
                  e2 = (if isFullySettled
                        then e1\<lparr>ea_settledAt := Some (now w),
                                ea_settlementTxHash := Some (''settlement_'' @ int_to_string (now w))\<rparr>
                        else e1)
              in Inr \<lparr>rp_escrow = e2, rp_releasedStroops = releasedStroops,
                      rp_remainingStroops = remainingStroops, rp_releaseStroops = releaseStroops,
                      rp_isFullySettled = isFullySettled\<rparr>)))))"

text \<open>
  The guarded update: the columns of \<^verbatim>\<open>updateSet\<close> change in the row whose identifier and
  released amount are the expected ones; with no such row the transaction fails.
\<close>

definition apply_update_set :: "escrow_account \<Rightarrow> escrow_account \<Rightarrow> escrow_account" where
  "apply_update_set e row =
     row\<lparr>ea_releasedAmount := ea_releasedAmount e, ea_status := ea_status e,
         ea_settledAt := (case ea_settledAt e of None \<Rightarrow> ea_settledAt row | Some t \<Rightarrow> Some t),
         ea_settlementTxHash :=
           (case ea_settlementTxHash e of None \<Rightarrow> ea_settlementTxHash row
            | Some h \<Rightarrow> if h = [] then ea_settlementTxHash row else Some h)\<rparr>"

definition release_write ::
  "env \<Rightarrow> string \<Rightarrow> string \<Rightarrow> release_plan \<Rightarrow> escrow_db \<Rightarrow> (escrow_account \<times> escrow_db) result" where
  "release_write w escrowId userId p db =
     (let e = rp_escrow p;
          hit = (\<lambda>row. ea_id row = escrowId \<and>
                       ea_releasedAmount row = fromStroops (rp_releasedStroops p))
      in if \<not> (\<exists>row \<in> set (accounts db). hit row) then
           Inl (Conflict ''Escrow was modified concurrently; the release was not applied. Please retry.'')
         else
           let db1 = db\<lparr>accounts := map (\<lambda>row. if hit row then apply_update_set e row else row) (accounts db)\<rparr>;
               releaseAmount = fromStroops (rp_releaseStroops p)
           in Inr (e,
             if rp_isFullySettled p then
               emit (EvSettled (ea_id e) (ea_releasedAmount e) False)
                (addEvent w 0 escrowId ESCROW_SETTLED userId
                  (''Escrow fully settled: '' @ ea_amount e @ '' '' @ ea_assetCode e)
                  (Some [(''releasedAmount'', ea_releasedAmount e)]) db1)
             else
               emit (EvPartialRelease (ea_id e) releaseAmount (ea_releasedAmount e))
                (addEvent w 0 escrowId PARTIAL_RELEASE userId
                  (''Partial release: '' @ releaseAmount @ '' '' @ ea_assetCode e)
                  (Some [(''releaseAmount'', releaseAmount), (''totalReleased'', ea_releasedAmount e),
                    (''remaining'', fromStroops (rp_remainingStroops p - rp_releaseStroops p))]) db1)))"

definition releaseFunds ::
  "env \<Rightarrow> string \<Rightarrow> string \<Rightarrow> string \<Rightarrow> release_funds_dto \<Rightarrow> escrow_db \<Rightarrow>
   (escrow_account \<times> escrow_db) result" where
  "releaseFunds w escrowId userId userRole dto db =
     rbind (release_read w escrowId userRole dto db) (\<lambda>p. release_write w escrowId userId p db)"

section \<open>Refund, timeout, time lock\<close>

definition refundEscrow ::
  "env \<Rightarrow> string \<Rightarrow> string \<Rightarrow> string \<Rightarrow> escrow_db \<Rightarrow> (escrow_account \<times> escrow_db) result" where
  "refundEscrow w escrowId userId userRole db =
    rbind (getEscrowOrThrow escrowId db) (\<lambda>e.
     if ea_status e \<notin> set [PENDING, AWAITING_FUNDING, FUNDED, EXPIRED] then
       Inl (BadRequest (''Cannot refund escrow in status: '' @ status_str (ea_status e)))
     else if ea_creatorId e \<noteq> userId \<and> userRole \<noteq> ''admin'' then
       Inl (Forbidden ''Only the creator or an admin can refund'')
     else if (case parse_float (ea_releasedAmount e) of None \<Rightarrow> False | Some x \<Rightarrow> x > 0) then
       Inl (BadRequest ''Cannot refund escrow with partially released funds. Use releaseFunds for remaining.'')
     else
       let e' = e\<lparr>ea_status := REFUNDED, ea_refundedAt := Some (now w)\<rparr>
       in Inr (e', emit (EvRefunded (ea_id e') (ea_amount e') (ea_creatorId e'))
            (addEvent w 0 escrowId ESCROW_REFUNDED userId
              (''Escrow refunded: '' @ ea_amount e' @ '' '' @ ea_assetCode e') None
              (save_account e' db))))"

definition handleTimeout ::
  "env \<Rightarrow> string \<Rightarrow> escrow_db \<Rightarrow> (escrow_account \<times> escrow_db) result" where
  "handleTimeout w escrowId db =
    rbind (getEscrowOrThrow escrowId db) (\<lambda>e.
     case ea_settlementDeadline e of
       None \<Rightarrow> Inl (BadRequest ''Escrow has no settlement deadline'')
     | Some deadline \<Rightarrow>
     if now w < deadline then Inl (BadRequest ''Escrow deadline has not passed yet'')
     else if ea_status e \<notin> set [PENDING, AWAITING_FUNDING, FUNDED] then
       Inl (BadRequest (''Cannot timeout escrow in status: '' @ status_str (ea_status e)))
     else
       let e1 = e\<lparr>ea_status := EXPIRED\<rparr>;
           db1 = emit (EvExpired (ea_id e1) deadline)
             (addEvent w 0 escrowId TIMEOUT_TRIGGERED (ea_creatorId e1)
               ''Settlement deadline expired without sufficient signatures''
               (Some [(''deadline'', int_to_string deadline)]) (save_account e1 db));
           e2 = e1\<lparr>ea_status := REFUNDED, ea_refundedAt := Some (now w)\<rparr>
       in Inr (e2, emit (EvRefunded (ea_id e2) (ea_amount e2) (ea_creatorId e2))
            (addEvent w 1 escrowId ESCROW_REFUNDED (ea_creatorId e2)
              ''Automatic refund triggered by timeout'' None (save_account e2 db1))))"

definition handleTimeLockSettlement ::
  "env \<Rightarrow> string \<Rightarrow> escrow_db \<Rightarrow> (escrow_account \<times> escrow_db) result" where
  "handleTimeLockSettlement w escrowId db =
    rbind (getEscrowOrThrow escrowId db) (\<lambda>e.
     if ea_type e \<noteq> TIME_LOCKED then Inl (BadRequest ''This is not a time-locked escrow'')
     else case ea_timeLockExpiry e of
       None \<Rightarrow> Inl (BadRequest ''Escrow has no time-lock expiry'')
     | Some expiry \<Rightarrow>
     if now w < expiry then Inl (BadRequest ''Time-lock has not expired yet'')
     else if ea_status e \<notin> set [FUNDED, PARTIALLY_RELEASED] then
       Inl (BadRequest (''Cannot settle time-locked escrow in status: '' @ status_str (ea_status e)))
     else
       let remaining = (case (parse_float (ea_amount e), parse_float (ea_releasedAmount e)) of
             (Some a, Some b) \<Rightarrow> num_to_string (num_sub a b) | _ \<Rightarrow> ''null'');
           e' = e\<lparr>ea_releasedAmount := ea_amount e, ea_status := SETTLED, ea_settledAt := Some (now w),
                  ea_settlementTxHash := Some (''timelock_settlement_'' @ int_to_string (now w))\<rparr>
       in Inr (e', emit (EvSettled (ea_id e') (ea_amount e') True)
            (addEvent w 0 escrowId ESCROW_SETTLED (ea_creatorId e')
              (''Time-lock expired. Auto-settled: '' @ ea_amount e' @ '' '' @ ea_assetCode e')
              (Some [(''timeLockExpiry'', int_to_string expiry), (''releasedAmount'', remaining)])
              (save_account e' db))))"

section \<open>Milestones, disputes, cancellation\<close>

definition updateMilestone ::
  "env \<Rightarrow> string \<Rightarrow> string \<Rightarrow> string \<Rightarrow> string \<Rightarrow> bool \<Rightarrow> escrow_db \<Rightarrow>
   (escrow_milestone \<times> escrow_db) result" where
  "updateMilestone w escrowId milestoneId userId userRole isCompleted db =
    rbind (getEscrowOrThrow escrowId db) (\<lambda>e.
     if ea_type e \<noteq> MILESTONE_BASED then
       Inl (BadRequest ''This escrow does not support milestones'')
     else if ea_status e \<notin> set [FUNDED, APPROVED, PARTIALLY_RELEASED] then
       Inl (BadRequest (''Cannot update milestones on escrow in status: '' @ status_str (ea_status e)))
     else if \<not> (\<exists>s \<in> set (signatories_of escrowId db). es_userId s = userId) \<and> userRole \<noteq> ''admin'' then
       Inl (Forbidden ''Only signatories or admins can update milestones'')
     else case find_milestone milestoneId escrowId db of
       None \<Rightarrow> Inl (NotFound (''Milestone '' @ milestoneId @ '' not found''))
     | Some m \<Rightarrow>
       if isCompleted \<and> \<not> em_isCompleted m then
         let m' = m\<lparr>em_isCompleted := True, em_completedAt := Some (now w), em_completedBy := Some userId\<rparr>
         in Inr (m', save_milestone m'
              (emit (EvMilestoneCompleted (ea_id e) (em_id m') (em_amount m') userId)
                (addEvent w 0 escrowId MILESTONE_COMPLETED userId
                  (''Milestone completed: '' @ em_title m' @ '' ('' @ em_amount m' @ '' '' @ ea_assetCode e @ '')'')
                  (Some [(''milestoneId'', milestoneId), (''amount'', em_amount m')]) db)))
       else if \<not> isCompleted \<and> em_isCompleted m then
         (if userRole \<noteq> ''admin'' then Inl (Forbidden ''Only admins can uncomplete milestones'')
          else let m' = m\<lparr>em_isCompleted := False, em_completedAt := None, em_completedBy := None\<rparr>
               in Inr (m', save_milestone m' db))
       else Inr (m, save_milestone m db))"

definition flagDispute ::
  "env \<Rightarrow> string \<Rightarrow> string \<Rightarrow> string \<Rightarrow> string \<Rightarrow> escrow_db \<Rightarrow> (escrow_account \<times> escrow_db) result" where
  "flagDispute w escrowId userId reason evidence db =
    rbind (getEscrowOrThrow escrowId db) (\<lambda>e.
     if ea_status e \<notin> set [FUNDED, APPROVED, PARTIALLY_RELEASED] then
       Inl (BadRequest (''Cannot raise dispute on escrow in status: '' @ status_str (ea_status e)))
     else if \<not> (ea_creatorId e = userId \<or> (\<exists>s \<in> set (signatories_of escrowId db). es_userId s = userId)) then
       Inl (Forbidden ''Only escrow parties can raise a dispute'')
     else if ea_disputeId e \<notin> {None, Some []} then
       Inl (Conflict ''A dispute is already active on this escrow'')
     else
       let e' = e\<lparr>ea_status := DISPUTED\<rparr>
       in Inr (e', emit (EvDisputed (ea_id e') userId reason)
            (addEvent w 0 escrowId DISPUTE_FLAGGED userId (''Dispute raised: '' @ reason)
              (Some [(''reason'', reason), (''evidence'', evidence)]) (save_account e' db))))"

definition resolveDispute ::
  "env \<Rightarrow> string \<Rightarrow> string \<Rightarrow> bool \<Rightarrow> escrow_db \<Rightarrow> (escrow_account \<times> escrow_db) result" where
  "resolveDispute w escrowId userId releaseToCreator db =
    rbind (getEscrowOrThrow escrowId db) (\<lambda>e.
     if ea_status e \<noteq> DISPUTED then
       Inl (BadRequest (''Cannot resolve dispute on escrow in status: '' @ status_str (ea_status e)))
     else
       let e' = e\<lparr>ea_status := (if releaseToCreator then REFUNDED else SETTLED),
                  ea_refundedAt := (if releaseToCreator then Some (now w) else None),
                  ea_settledAt := (if releaseToCreator then None else Some (now w)),
                  ea_disputeId := None\<rparr>
       in Inr (e', addEvent w 0 escrowId DISPUTE_RESOLVED userId
            (''Dispute resolved: funds '' @ (if releaseToCreator then ''refunded to creator'' else ''settled''))
            (Some [(''releasedToCreator'', if releaseToCreator then ''true'' else ''false'')])
            (save_account e' db)))"

definition cancelEscrow ::
  "env \<Rightarrow> string \<Rightarrow> string \<Rightarrow> string \<Rightarrow> escrow_db \<Rightarrow> (escrow_account \<times> escrow_db) result" where
  "cancelEscrow w escrowId userId userRole db =
    rbind (getEscrowOrThrow escrowId db) (\<lambda>e.
     if ea_status e \<noteq> PENDING then
       Inl (BadRequest (''Cannot cancel escrow in status: '' @ status_str (ea_status e)))
     else rbind (assertCreatorOrAdmin e userId userRole) (\<lambda>_.
       let e' = e\<lparr>ea_status := CANCELLED\<rparr>
       in Inr (e', emit (EvCancelled (ea_id e') userId)
            (addEvent w 0 escrowId ESCROW_CANCELLED userId ''Escrow cancelled'' None
              (save_account e' db)))))"

end
