(* ===== verification/Escrow_Inv.thy ===== *)
theory Escrow_Inv
  imports Escrow
begin

text \<open>
  The invariant of the escrow service and its preservation: released amounts stay between zero
  and the escrow amount, and an APPROVED escrow has its signatures, in every state that the
  handlers reach, including every interleaving of concurrent releases
  (\<open>release_read\<close> now, \<open>release_write\<close> later).
\<close>

section \<open>Invariant\<close>

definition stroops_of :: "string \<Rightarrow> int" where
  "stroops_of s = (case toStroops (AStr s) of Inr n \<Rightarrow> n | Inl _ \<Rightarrow> 0)"

definition canonical :: "string \<Rightarrow> bool" where
  "canonical s \<longleftrightarrow> fromStroops (stroops_of s) = s"

abbreviation total_of :: "escrow_account \<Rightarrow> int" where
  "total_of e \<equiv> stroops_of (ea_amount e)"

abbreviation released_of :: "escrow_account \<Rightarrow> int" where
  "released_of e \<equiv> stroops_of (ea_releasedAmount e)"

fun status_ok :: "escrow_status \<Rightarrow> int \<Rightarrow> int \<Rightarrow> bool" where
  "status_ok PARTIALLY_RELEASED rel tot = (0 < rel \<and> rel < tot)"
| "status_ok SETTLED rel tot = True"
| "status_ok REFUNDED rel tot = True"
| "status_ok DISPUTED rel tot = True"
| "status_ok s rel tot = (rel = 0)"

definition account_ok :: "escrow_account \<Rightarrow> bool" where
  "account_ok e \<longleftrightarrow> canonical (ea_amount e) \<and> canonical (ea_releasedAmount e) \<and>
     0 \<le> released_of e \<and> released_of e \<le> total_of e \<and>
     status_ok (ea_status e) (released_of e) (total_of e)"

definition approvals :: "string \<Rightarrow> escrow_db \<Rightarrow> nat" where
  "approvals i db = length (filter es_hasApproved (signatories_of i db))"

definition db_inv :: "escrow_db \<Rightarrow> bool" where
  "db_inv db \<longleftrightarrow>
     keys_distinct ea_id (accounts db) \<and> keys_distinct es_id (signatories db) \<and>
     (\<forall>e \<in> set (accounts db). account_ok e \<and>
        (ea_status e = APPROVED \<longrightarrow> ea_requiredSignatures e \<le> approvals (ea_id e) db))"

text \<open>What the caller of a release carries between the read and the write.\<close>

definition plan_ok :: "escrow_db \<Rightarrow> string \<Rightarrow> release_plan \<Rightarrow> bool" where
  "plan_ok db i p \<longleftrightarrow>
     (\<exists>e. find_account i db = Some e \<and>
        total_of e = rp_releasedStroops p + rp_remainingStroops p) \<and>
     0 \<le> rp_releasedStroops p \<and> 0 < rp_releaseStroops p \<and>
     rp_releaseStroops p \<le> rp_remainingStroops p \<and>
     rp_isFullySettled p = (rp_releaseStroops p = rp_remainingStroops p) \<and>
     ea_releasedAmount (rp_escrow p) = fromStroops (rp_releasedStroops p + rp_releaseStroops p) \<and>
     ea_status (rp_escrow p) = (if rp_isFullySettled p then SETTLED else PARTIALLY_RELEASED)"

section \<open>Repositories\<close>

lemma stroops_of_fromStroops [simp]: "stroops_of (fromStroops n) = n"
  by (simp add: stroops_of_def)

lemma canonical_fromStroops [simp]: "canonical (fromStroops n)"
  by (simp add: canonical_def)

lemma canonical_toStroops: "canonical s \<Longrightarrow> toStroops (AStr s) = Inr (stroops_of s)"
  unfolding canonical_def by (metis toStroops_fromStroops)

lemma canonical_eq: "canonical s \<Longrightarrow> s = fromStroops n \<longleftrightarrow> stroops_of s = n"
  by (auto simp: canonical_def)

lemma db_frames [simp]:
  "accounts (addEvent w k i t a d m db) = accounts db"
  "signatories (addEvent w k i t a d m db) = signatories db"
  "milestones (addEvent w k i t a d m db) = milestones db"
  "accounts (emit ev db) = accounts db"
  "signatories (emit ev db) = signatories db"
  "milestones (emit ev db) = milestones db"
  "accounts (save_account e db) = save_row ea_id e (accounts db)"
  "signatories (save_account e db) = signatories db"
  "milestones (save_account e db) = milestones db"
  "accounts (save_signatory s db) = accounts db"
  "signatories (save_signatory s db) = save_row es_id s (signatories db)"
  "milestones (save_signatory s db) = milestones db"
  "accounts (save_milestone ml db) = accounts db"
  "signatories (save_milestone ml db) = signatories db"
  "milestones (save_milestone ml db) = save_row em_id ml (milestones db)"
  by (simp_all add: addEvent_def emit_def save_account_def save_signatory_def save_milestone_def)

lemma db_frames_reads [simp]:
  "find_account i (addEvent w k j t a d m db) = find_account i db"
  "find_account i (emit ev db) = find_account i db"
  "find_account i (save_signatory s db) = find_account i db"
  "find_account i (save_milestone ml db) = find_account i db"
  "approvals i (addEvent w k j t a d m db) = approvals i db"
  "approvals i (emit ev db) = approvals i db"
  "approvals i (save_account e db) = approvals i db"
  "approvals i (save_milestone ml db) = approvals i db"
  by (simp_all add: find_account_def approvals_def signatories_of_def)

lemma db_inv_frames [simp]:
  "db_inv (addEvent w k i t a d m db) = db_inv db"
  "db_inv (emit ev db) = db_inv db"
  "db_inv (save_milestone ml db) = db_inv db"
  by (simp_all add: db_inv_def)

interpretation account_repo: repository find_account save_account ea_id
  "\<lambda>db. keys_distinct ea_id (accounts db)"
  by unfold_locales
    (auto simp: find_account_def row_by_save_row keys_distinct_save_row dest: row_by_SomeD)

interpretation signatory_repo: repository
  "\<lambda>i db. row_by es_id i (signatories db)" save_signatory es_id
  "\<lambda>db. keys_distinct es_id (signatories db)"
  by unfold_locales (auto simp: row_by_save_row keys_distinct_save_row dest: row_by_SomeD)

interpretation milestone_repo: repository
  "\<lambda>i db. row_by em_id i (milestones db)" save_milestone em_id
  "\<lambda>db. keys_distinct em_id (milestones db)"
  by unfold_locales (auto simp: row_by_save_row keys_distinct_save_row dest: row_by_SomeD)

lemma getEscrowOrThrow_Inr [simp]:
  "getEscrowOrThrow i db = Inr e \<longleftrightarrow> find_account i db = Some e"
  by (simp add: getEscrowOrThrow_def split: option.splits)

lemma find_account_in: "find_account i db = Some e \<Longrightarrow> e \<in> set (accounts db) \<and> ea_id e = i"
  unfolding find_account_def by (rule row_by_SomeD)

lemma find_account_ok:
  assumes "db_inv db" and "find_account i db = Some e"
  shows "account_ok e" and "ea_status e = APPROVED \<Longrightarrow> ea_requiredSignatures e \<le> approvals i db"
  using assms find_account_in [of i db e] by (auto simp: db_inv_def)

lemma db_inv_find:
  "db_inv db \<Longrightarrow> e \<in> set (accounts db) \<Longrightarrow> find_account (ea_id e) db = Some e"
  by (simp add: db_inv_def find_account_def row_by_distinct)

lemma assertSignatory_Inr:
  "assertSignatory sigs u = Inr s \<Longrightarrow> s \<in> set sigs \<and> es_userId s = u"
  by (auto simp: assertSignatory_def find_Some_iff split: option.splits)

section \<open>Approvals\<close>

text \<open>Flipping the flag of one signatory changes the count by that one signatory.\<close>

lemma filter_save_row_commute:
  "(\<And>r. r \<in> set t \<Longrightarrow> key r = key x \<Longrightarrow> P r = P x) \<Longrightarrow> key x \<in> key ` set t \<Longrightarrow>
   filter P (save_row key x t) = (if P x then save_row key x (filter P t) else filter P t)"
  by (induction t) auto

lemma signatories_of_save_signatory:
  assumes d: "keys_distinct es_id (signatories db)" and s: "s \<in> set (signatories db)"
    and k: "es_id s' = es_id s" "es_escrowAccountId s' = es_escrowAccountId s"
  shows "signatories_of i (save_signatory s' db) =
    (if es_escrowAccountId s = i then save_row es_id s' (signatories_of i db)
     else signatories_of i db)"
proof -
  have same: "r = s" if "r \<in> set (signatories db)" "es_id r = es_id s'" for r
    using row_by_distinct [OF d s] row_by_distinct [OF d that(1)] that(2) k by simp
  then have eq: "(es_escrowAccountId r = i) = (es_escrowAccountId s' = i)"
    if "r \<in> set (signatories db)" "es_id r = es_id s'" for r
    using that k(2) by metis
  have mem: "es_id s' \<in> es_id ` set (signatories db)" using s k(1) by (metis imageI)
  show ?thesis
    using filter_save_row_commute [of "signatories db" es_id s' "\<lambda>r. es_escrowAccountId r = i"] eq mem k(2)
    by (simp add: signatories_of_def)
qed

lemma count_save_row:
  assumes "keys_distinct key t" and "s \<in> set t" and "key s' = key s"
  shows "int (length (filter P (save_row key s' t))) =
    int (length (filter P t)) - of_bool (P s) + of_bool (P s')"
  using length_filter_save_row [of key s' t s P] row_by_distinct [OF assms(1,2)] assms(3) by simp

lemma approvals_save_signatory:
  assumes d: "keys_distinct es_id (signatories db)" and s: "s \<in> set (signatories_of j db)"
    and k: "es_id s' = es_id s" "es_escrowAccountId s' = es_escrowAccountId s"
  shows "int (approvals i (save_signatory s' db)) =
    int (approvals i db) + (if i = j then of_bool (es_hasApproved s') - of_bool (es_hasApproved s) else 0)"
proof -
  have mem: "s \<in> set (signatories db)" and j: "es_escrowAccountId s = j"
    using s by (auto simp: signatories_of_def)
  have "keys_distinct es_id (signatories_of j db)"
    using d by (simp add: keys_distinct_def signatories_of_def distinct_map_filter)
  from count_save_row [OF this s k(1), of es_hasApproved] show ?thesis
    using signatories_of_save_signatory [OF d mem k, of i] j by (auto simp: approvals_def)
qed

section \<open>Writes that keep the invariant\<close>

lemma db_inv_save_account:
  assumes inv: "db_inv db" and e: "find_account i db = Some e"
    and e': "ea_id e' = ea_id e" "account_ok e'"
    and ap: "ea_status e' = APPROVED \<Longrightarrow> ea_requiredSignatures e' \<le> approvals i db"
  shows "db_inv (save_account e' db)"
proof -
  have id: "ea_id e = i" using find_account_in [OF e] by simp
  have d: "keys_distinct ea_id (accounts db)" using inv by (simp add: db_inv_def)
  have "account_ok a \<and> (ea_status a = APPROVED \<longrightarrow> ea_requiredSignatures a \<le> approvals (ea_id a) db)"
    if "a \<in> set (accounts (save_account e' db))" for a
    using that inv e' ap id by (auto simp: set_save_row [OF d] db_inv_def)
  then show ?thesis
    using inv by (simp add: db_inv_def keys_distinct_save_row)
qed

lemma db_inv_save_signatory:
  assumes inv: "db_inv db" and s: "s \<in> set (signatories_of i db)"
    and k: "es_id s' = es_id s" "es_escrowAccountId s' = es_escrowAccountId s"
    and safe: "es_hasApproved s \<Longrightarrow> \<not> es_hasApproved s' \<Longrightarrow>
      (\<forall>e. find_account i db = Some e \<longrightarrow> ea_status e \<noteq> APPROVED)"
  shows "db_inv (save_signatory s' db)"
proof -
  have d: "keys_distinct es_id (signatories db)" using inv by (simp add: db_inv_def)
  have "ea_requiredSignatures a \<le> approvals (ea_id a) (save_signatory s' db)"
    if a: "a \<in> set (accounts db)" and st: "ea_status a = APPROVED" for a
  proof -
    have old: "ea_requiredSignatures a \<le> approvals (ea_id a) db"
      using inv a st by (simp add: db_inv_def)
    have "ea_id a = i \<Longrightarrow> \<not> (es_hasApproved s \<and> \<not> es_hasApproved s')"
      using safe db_inv_find [OF inv a] st by auto
    then have "int (approvals (ea_id a) db) \<le> int (approvals (ea_id a) (save_signatory s' db))"
      using approvals_save_signatory [OF d s k, of "ea_id a"] by (auto split: if_splits)
    with old show ?thesis by simp
  qed
  then show ?thesis
    using inv by (auto simp: db_inv_def keys_distinct_save_row)
qed

section \<open>What the handlers do when they succeed\<close>

text \<open>
  The common shape of a handler that changes one account: it reads the account, writes it back
  under the same identifier with the same amount, and touches no other account and no
  signatory.
\<close>

definition acct_upd ::
  "escrow_db \<Rightarrow> string \<Rightarrow> escrow_account \<Rightarrow> escrow_account \<Rightarrow> escrow_db \<Rightarrow> bool" where
  "acct_upd db i e e' db' \<longleftrightarrow> find_account i db = Some e \<and> ea_id e' = ea_id e \<and>
     ea_amount e' = ea_amount e \<and> accounts db' = save_row ea_id e' (accounts db) \<and>
     signatories db' = signatories db"

lemmas handler_simps = rbind_Inr_iff if_Inl_eq_Inr_iff acct_upd_def Let_def save_row_twice

lemma fundEscrow_Inr:
  assumes "fundEscrow w i u h db = Inr (e', db')"
  obtains e where "acct_upd db i e e' db'" and "ea_status e = PENDING" and "ea_creatorId e = u"
    and "ea_status e' = FUNDED" and "ea_releasedAmount e' = ea_releasedAmount e"
  using assms unfolding fundEscrow_def by (auto simp: handler_simps)

lemma refundEscrow_Inr:
  assumes "refundEscrow w i u r db = Inr (e', db')"
  obtains e where "acct_upd db i e e' db'"
    and "ea_status e \<in> {PENDING, AWAITING_FUNDING, FUNDED, EXPIRED}"
    and "ea_creatorId e = u \<or> r = ''admin''"
    and "ea_status e' = REFUNDED" and "ea_releasedAmount e' = ea_releasedAmount e"
  using assms unfolding refundEscrow_def by (auto simp: handler_simps)

lemma handleTimeout_Inr:
  assumes "handleTimeout w i db = Inr (e', db')"
  obtains e d where "acct_upd db i e e' db'"
    and "ea_status e \<in> {PENDING, AWAITING_FUNDING, FUNDED}"
    and "ea_settlementDeadline e = Some d" and "d \<le> now w"
    and "ea_status e' = REFUNDED" and "ea_releasedAmount e' = ea_releasedAmount e"
  using assms unfolding handleTimeout_def by (auto simp: handler_simps split: option.splits)

lemma handleTimeLockSettlement_Inr:
  assumes "handleTimeLockSettlement w i db = Inr (e', db')"
  obtains e d where "acct_upd db i e e' db'" and "ea_type e = TIME_LOCKED"
    and "ea_status e \<in> {FUNDED, PARTIALLY_RELEASED}"
    and "ea_timeLockExpiry e = Some d" and "d \<le> now w"
    and "ea_status e' = SETTLED" and "ea_releasedAmount e' = ea_amount e"
  using assms unfolding handleTimeLockSettlement_def
  by (auto simp: handler_simps split: option.splits)

lemma flagDispute_Inr:
  assumes "flagDispute w i u reason evidence db = Inr (e', db')"
  obtains e where "acct_upd db i e e' db'"
    and "ea_status e \<in> {FUNDED, APPROVED, PARTIALLY_RELEASED}"
    and "ea_status e' = DISPUTED" and "ea_releasedAmount e' = ea_releasedAmount e"
  using assms unfolding flagDispute_def by (auto simp: handler_simps)

lemma resolveDispute_Inr:
  assumes "resolveDispute w i u b db = Inr (e', db')"
  obtains e where "acct_upd db i e e' db'" and "ea_status e = DISPUTED"
    and "ea_status e' = (if b then REFUNDED else SETTLED)"
    and "ea_releasedAmount e' = ea_releasedAmount e"
  using assms unfolding resolveDispute_def by (auto simp: handler_simps)

lemma cancelEscrow_Inr:
  assumes "cancelEscrow w i u r db = Inr (e', db')"
  obtains e where "acct_upd db i e e' db'" and "ea_status e = PENDING"
    and "ea_creatorId e = u \<or> r = ''admin''"
    and "ea_status e' = CANCELLED" and "ea_releasedAmount e' = ea_releasedAmount e"
  using assms unfolding cancelEscrow_def assertCreatorOrAdmin_def by (auto simp: handler_simps)

lemma updateMilestone_Inr:
  assumes "updateMilestone w i m u r b db = Inr (ml, db')"
  shows "accounts db' = accounts db \<and> signatories db' = signatories db"
proof -
  from assms obtain e m' where "find_account i db = Some e" and m': "find_milestone m i db = Some m'"
    unfolding updateMilestone_def
    by (auto simp: rbind_Inr_iff if_Inl_eq_Inr_iff split: option.splits)
  then show ?thesis
    using assms unfolding updateMilestone_def
    by (cases "b"; cases "em_isCompleted m'"; cases "r = ''admin''")
      (auto simp: rbind_Inr_iff if_Inl_eq_Inr_iff Let_def)
qed

lemma revokeApproval_Inr:
  assumes "revokeApproval w i u db = Inr (r, db')"
  obtains e s s' where "find_account i db = Some e" and "ea_status e = FUNDED"
    and "s \<in> set (signatories_of i db)" and "es_userId s = u" and "es_hasApproved s"
    and "es_id s' = es_id s" and "es_escrowAccountId s' = es_escrowAccountId s"
    and "\<not> es_hasApproved s'" and "accounts db' = accounts db"
    and "signatories db' = signatories (save_signatory s' db)"
proof -
  from assms obtain e s where e: "find_account i db = Some e" "ea_status e = FUNDED"
    and s: "assertSignatory (signatories_of i db) u = Inr s" "es_hasApproved s"
    and db': "db' = addEvent w 0 i SIGNATORY_REVOKED u (''Signature revoked by '' @ role_str (es_role s))
       None (save_signatory (s\<lparr>es_hasApproved := False, es_revokedAt := Some (now w), es_approvedAt := None\<rparr>) db)"
    unfolding revokeApproval_def by (auto simp: handler_simps)
  show thesis
    by (rule that [OF e, of s "s\<lparr>es_hasApproved := False, es_revokedAt := Some (now w), es_approvedAt := None\<rparr>"])
      (use s db' assertSignatory_Inr [OF s(1)] in auto)
qed

text \<open>
  An approval: the signature is recorded, and the account becomes APPROVED exactly when it was
  not yet and the count now reaches the threshold, which is also when the event is emitted.
\<close>

lemma approveEscrow_Inr:
  assumes "approveEscrow w i u note ip db = Inr (r, db')"
  obtains e s s' where "find_account i db = Some e" and "ea_status e \<in> {FUNDED, APPROVED}"
    and "s \<in> set (signatories_of i db)" and "es_userId s = u" and "\<not> es_hasApproved s"
    and "es_id s' = es_id s" and "es_escrowAccountId s' = es_escrowAccountId s"
    and "es_hasApproved s'"
    and "if ea_status e = FUNDED \<and>
            ea_requiredSignatures e \<le> length (filter es_hasApproved (save_row es_id s' (signatories_of i db)))
         then accounts db' = accounts (save_account (e\<lparr>ea_status := APPROVED\<rparr>) db) \<and>
              emitted db' = emitted db @ [EvThresholdReached (ea_id e)
                (length (filter es_hasApproved (save_row es_id s' (signatories_of i db))))
                (ea_requiredSignatures e)]
         else accounts db' = accounts db \<and> emitted db' = emitted db"
    and "signatories db' = signatories (save_signatory s' db)"
    and "r = find_account i db'"
proof -
  from assms obtain e s where e: "find_account i db = Some e" "ea_status e \<in> {FUNDED, APPROVED}"
    and s: "assertSignatory (signatories_of i db) u = Inr s" "\<not> es_hasApproved s"
    unfolding approveEscrow_def by (auto simp: rbind_Inr_iff Let_def split: if_splits)
  let ?s' = "s\<lparr>es_hasApproved := True, es_approvedAt := Some (now w), es_approvalIpAddress := ip\<rparr>"
  show thesis
    by (rule that [OF e, of s ?s'])
      (use assms s e assertSignatory_Inr [OF s(1)] in
        \<open>auto simp: approveEscrow_def rbind_Inr_iff Let_def calculateApprovalProgress_def
           emit_def addEvent_def save_account_def save_signatory_def split: if_splits\<close>)
qed

end
