(* ===== verification/Escrow_Run.thy ===== *)
theory Escrow_Run
  imports Escrow_Inv
begin

text \<open>
  Runs of the escrow service: releases, creation, the step relation over all handlers with
  releases in flight, and the invariant of every reachable state.
\<close>

section \<open>Release\<close>

lemma release_read_Inr:
  assumes "release_read w i r dto db = Inr p"
  obtains e total rel amt where "find_account i db = Some e"
    and "r = ''admin'' \<or> (ea_status e \<in> {APPROVED, PARTIALLY_RELEASED} \<and>
           ea_requiredSignatures e \<le> approvals i db)"
    and "toStroops (AStr (ea_amount e)) = Inr total"
    and "toStroops (AStr (ea_releasedAmount e)) = Inr rel"
    and "(case rf_amount dto of Some a \<Rightarrow> toStroops (ANum a) | None \<Rightarrow> Inr (total - rel)) = Inr amt"
    and "0 < amt" and "amt \<le> total - rel"
    and "rp_releasedStroops p = rel" and "rp_remainingStroops p = total - rel"
    and "rp_releaseStroops p = amt" and "rp_isFullySettled p = (rel + amt = total)"
    and "ea_releasedAmount (rp_escrow p) = fromStroops (rel + amt)"
    and "ea_status (rp_escrow p) = (if rel + amt = total then SETTLED else PARTIALLY_RELEASED)"
  using assms unfolding release_read_def
  by (auto simp: rbind_Inr_iff if_Inl_eq_Inr_iff Let_def calculateApprovalProgress_def
      approvals_def not_le not_less)

lemma release_read_plan_ok:
  assumes inv: "db_inv db" and rd: "release_read w i r dto db = Inr p"
  shows "plan_ok db i p"
  using rd
proof (rule release_read_Inr)
  fix e total rel amt
  assume e: "find_account i db = Some e"
    and t: "toStroops (AStr (ea_amount e)) = Inr total"
      "toStroops (AStr (ea_releasedAmount e)) = Inr rel"
    and amt: "0 < amt" "amt \<le> total - rel"
    and p: "rp_releasedStroops p = rel" "rp_remainingStroops p = total - rel"
      "rp_releaseStroops p = amt" "rp_isFullySettled p = (rel + amt = total)"
      "ea_releasedAmount (rp_escrow p) = fromStroops (rel + amt)"
      "ea_status (rp_escrow p) = (if rel + amt = total then SETTLED else PARTIALLY_RELEASED)"
  have "total_of e = total" and "released_of e = rel" using t by (simp_all add: stroops_of_def)
  moreover have "0 \<le> released_of e" using find_account_ok(1) [OF inv e] by (simp add: account_ok_def)
  ultimately show ?thesis using e amt p by (auto simp: plan_ok_def)
qed

lemma map_hit_save_row:
  assumes "keys_distinct key t" and "row_by key k t = Some row" and "P row"
    and "\<And>x. key (f x) = key x"
  shows "map (\<lambda>r. if key r = k \<and> P r then f r else r) t = save_row key (f row) t"
  using assms
proof (induction t)
  case Nil
  then show ?case by simp
next
  case (Cons x t)
  show ?case
  proof (cases "key x = k")
    case True
    with Cons.prems have x: "row = x" by simp
    have "key r \<noteq> k" if "r \<in> set t" for r
      using Cons.prems(1) that True by (auto simp: keys_distinct_def dest: sym intro: rev_image_eqI)
    then have "map (\<lambda>r. if key r = k \<and> P r then f r else r) t = t"
      by (intro map_idI) auto
    with True x Cons.prems(3,4) show ?thesis by simp
  next
    case False
    then have row: "row_by key k t = Some row" using Cons.prems(2) by simp
    then have "key row = k" by (auto dest: row_by_SomeD)
    with False row Cons show ?thesis by (simp add: keys_distinct_def)
  qed
qed

lemma apply_update_set_simps [simp]:
  "ea_id (apply_update_set e row) = ea_id row"
  "ea_amount (apply_update_set e row) = ea_amount row"
  "ea_releasedAmount (apply_update_set e row) = ea_releasedAmount e"
  "ea_status (apply_update_set e row) = ea_status e"
  "ea_requiredSignatures (apply_update_set e row) = ea_requiredSignatures row"
  by (simp_all add: apply_update_set_def)

lemma release_write_Inr:
  assumes inv: "db_inv db" and wr: "release_write w i u p db = Inr (e', db')"
  obtains row where "acct_upd db i row (apply_update_set (rp_escrow p) row) db'"
    and "ea_releasedAmount row = fromStroops (rp_releasedStroops p)" and "e' = rp_escrow p"
proof -
  let ?hit = "\<lambda>row. ea_id row = i \<and> ea_releasedAmount row = fromStroops (rp_releasedStroops p)"
  have "\<exists>row \<in> set (accounts db). ?hit row"
    using wr unfolding release_write_def Let_def by (auto split: if_splits)
  then obtain row where row: "row \<in> set (accounts db)" "?hit row" by blast
  then have f: "find_account i db = Some row" using db_inv_find [OF inv] by auto
  have "map (\<lambda>r. if ?hit r then apply_update_set (rp_escrow p) r else r) (accounts db)
      = save_row ea_id (apply_update_set (rp_escrow p) row) (accounts db)"
    using map_hit_save_row [of ea_id "accounts db" i row
        "\<lambda>r. ea_releasedAmount r = fromStroops (rp_releasedStroops p)" "apply_update_set (rp_escrow p)"]
      inv f row(2) by (simp add: db_inv_def find_account_def)
  moreover have "accounts db' = map (\<lambda>r. if ?hit r then apply_update_set (rp_escrow p) r else r) (accounts db)"
    and "signatories db' = signatories db" and "e' = rp_escrow p"
    using wr row unfolding release_write_def Let_def by (auto split: if_splits)
  ultimately show thesis using that [of row] f row by (simp add: acct_upd_def)
qed

section \<open>The invariant is kept\<close>

lemma db_inv_cong:
  "accounts db' = accounts db \<Longrightarrow> signatories db' = signatories db \<Longrightarrow> db_inv db' = db_inv db"
  by (simp add: db_inv_def approvals_def signatories_of_def)

lemma acct_upd_inv:
  assumes "db_inv db" and u: "acct_upd db i e e' db'" and "account_ok e'"
    and "ea_status e' \<noteq> APPROVED"
  shows "db_inv db'"
proof -
  have "db_inv (save_account e' db)"
    using db_inv_save_account [OF assms(1)] u assms(3,4) by (auto simp: acct_upd_def)
  then show ?thesis
    using db_inv_cong [of db' "save_account e' db"] u by (simp add: acct_upd_def)
qed

text \<open>A new status with the old amounts.\<close>

lemma account_ok_status:
  assumes "account_ok e" and "ea_amount e' = ea_amount e"
    and "ea_releasedAmount e' = ea_releasedAmount e"
    and "status_ok (ea_status e') (released_of e) (total_of e)"
  shows "account_ok e'"
  using assms by (simp add: account_ok_def)

lemma acct_upd_account:
  assumes "db_inv db" and "acct_upd db i e e' db'"
  shows "account_ok e" and "ea_amount e' = ea_amount e"
  using assms find_account_ok(1) [OF assms(1)] by (auto simp: acct_upd_def)

lemma acct_upd_status_inv:
  assumes "db_inv db" and "acct_upd db i e e' db'"
    and "ea_releasedAmount e' = ea_releasedAmount e"
    and "status_ok (ea_status e) (released_of e) (total_of e) \<Longrightarrow>
         status_ok (ea_status e') (released_of e) (total_of e)"
    and "ea_status e' \<noteq> APPROVED"
  shows "db_inv db'"
proof -
  note a = acct_upd_account [OF assms(1,2)]
  then have "status_ok (ea_status e) (released_of e) (total_of e)" by (simp add: account_ok_def)
  then have "account_ok e'" using account_ok_status [OF a assms(3)] assms(4) by simp
  then show ?thesis using acct_upd_inv [OF assms(1,2)] assms(5) by blast
qed

lemma release_write_inv:
  assumes inv: "db_inv db" and pl: "plan_ok db i p"
    and wr: "release_write w i u p db = Inr (e', db')"
  shows "db_inv db'"
  using inv wr
proof (rule release_write_Inr)
  fix row
  let ?row' = "apply_update_set (rp_escrow p) row"
  assume upd: "acct_upd db i row ?row' db'"
    and rel: "ea_releasedAmount row = fromStroops (rp_releasedStroops p)"
  have ok: "account_ok row" using acct_upd_account [OF inv upd] by simp
  have tot: "total_of row = rp_releasedStroops p + rp_remainingStroops p"
    using pl upd by (auto simp: plan_ok_def acct_upd_def)
  have "account_ok ?row'"
    using ok tot pl by (auto simp: account_ok_def plan_ok_def)
  moreover have "ea_status ?row' \<noteq> APPROVED" using pl by (simp add: plan_ok_def)
  ultimately show ?thesis using acct_upd_inv [OF inv upd] by simp
qed

lemma approveEscrow_inv:
  assumes inv: "db_inv db" and ok: "approveEscrow w i u note ip db = Inr (r, db')"
  shows "db_inv db'"
  using ok
proof (rule approveEscrow_Inr)
  fix e s s'
  let ?cnt = "length (filter es_hasApproved (save_row es_id s' (signatories_of i db)))"
  assume e: "find_account i db = Some e" and st: "ea_status e \<in> {FUNDED, APPROVED}"
    and s: "s \<in> set (signatories_of i db)" "\<not> es_hasApproved s"
    and s': "es_id s' = es_id s" "es_escrowAccountId s' = es_escrowAccountId s" "es_hasApproved s'"
    and acc: "if ea_status e = FUNDED \<and> ea_requiredSignatures e \<le> ?cnt
         then accounts db' = accounts (save_account (e\<lparr>ea_status := APPROVED\<rparr>) db) \<and>
              emitted db' = emitted db @ [EvThresholdReached (ea_id e) ?cnt (ea_requiredSignatures e)]
         else accounts db' = accounts db \<and> emitted db' = emitted db"
    and sig: "signatories db' = signatories (save_signatory s' db)"
  have inv1: "db_inv (save_signatory s' db)"
    by (rule db_inv_save_signatory [OF inv s(1) s'(1,2)]) (use s s' in auto)
  show ?thesis
  proof (cases "ea_status e = FUNDED \<and> ea_requiredSignatures e \<le> ?cnt")
    case True
    have "keys_distinct es_id (signatories db)" using inv by (simp add: db_inv_def)
    then have "signatories_of i (save_signatory s' db) = save_row es_id s' (signatories_of i db)"
      using signatories_of_save_signatory [of db s s' i] s s' by (auto simp: signatories_of_def)
    then have "ea_requiredSignatures e \<le> approvals i (save_signatory s' db)"
      using True by (simp add: approvals_def)
    moreover have "account_ok (e\<lparr>ea_status := APPROVED\<rparr>)"
      using find_account_ok(1) [OF inv e] True by (simp add: account_ok_def)
    ultimately have "db_inv (save_account (e\<lparr>ea_status := APPROVED\<rparr>) (save_signatory s' db))"
      using db_inv_save_account [OF inv1, of i e] e by simp
    then show ?thesis
      using db_inv_cong [of db' "save_account (e\<lparr>ea_status := APPROVED\<rparr>) (save_signatory s' db)"]
        acc sig True by simp
  next
    case False
    then show ?thesis
      using inv1 db_inv_cong [of db' "save_signatory s' db"] acc sig by auto
  qed
qed

lemma revokeApproval_inv:
  assumes inv: "db_inv db" and ok: "revokeApproval w i u db = Inr (r, db')"
  shows "db_inv db'"
  using ok
proof (rule revokeApproval_Inr)
  fix e s s'
  assume e: "find_account i db = Some e" "ea_status e = FUNDED"
    and s: "s \<in> set (signatories_of i db)"
    and s': "es_id s' = es_id s" "es_escrowAccountId s' = es_escrowAccountId s"
    and db': "accounts db' = accounts db" "signatories db' = signatories (save_signatory s' db)"
  have "db_inv (save_signatory s' db)"
    by (rule db_inv_save_signatory [OF inv s s']) (use e in auto)
  then show ?thesis using db_inv_cong [of db' "save_signatory s' db"] db' by simp
qed

section \<open>Creation\<close>

definition fresh_uuids :: "env \<Rightarrow> escrow_db \<Rightarrow> bool" where
  "fresh_uuids w db \<longleftrightarrow> inj (uuid w) \<and>
     (\<forall>k. uuid w k \<notin> ea_id ` set (accounts db) \<and> uuid w k \<notin> es_id ` set (signatories db) \<and>
          uuid w k \<notin> es_escrowAccountId ` set (signatories db))"

definition numeric_ok :: "(string \<Rightarrow> string) \<Rightarrow> create_escrow_dto \<Rightarrow> bool" where
  "numeric_ok numeric_col dto \<longleftrightarrow> numeric_col ''0'' = fromStroops 0 \<and>
     canonical (numeric_col (num_to_string (ce_amount dto))) \<and>
     0 \<le> stroops_of (numeric_col (num_to_string (ce_amount dto)))"

lemma createEscrow_Inr:
  assumes "createEscrow w pd nc u r dto db = Inr (e, db')"
  shows "accounts db' = accounts db @ [new_account w pd nc u dto]"
    and "signatories db' = signatories db @ new_signatories w (uuid w 0) (ce_signatories dto)"
    and "ce_requiredSignatures dto \<le> length (ce_signatories dto)"
    and "distinct (map si_userId (ce_signatories dto))"
  using assms unfolding createEscrow_def Let_def
  by (auto simp: rbind_Inr_iff if_Inl_eq_Inr_iff new_account_def)

lemma new_signatories_facts:
  "set (map es_escrowAccountId (new_signatories w i ss)) \<subseteq> {i}"
  "map es_id (new_signatories w i ss) = map (\<lambda>k. uuid w (Suc k)) [0..<length ss]"
  "filter es_hasApproved (new_signatories w i ss) = []"
  by (auto simp: new_signatories_def filter_empty_conv zip_map1 o_def split_beta
      intro!: nth_equalityI)

lemma createEscrow_inv:
  assumes inv: "db_inv db" and fresh: "fresh_uuids w db" and num: "numeric_ok nc dto"
    and ok: "createEscrow w pd nc u r dto db = Inr (e, db')"
  shows "db_inv db'"
proof -
  note c = createEscrow_Inr [OF ok]
  let ?e = "new_account w pd nc u dto" and ?ss = "new_signatories w (uuid w 0) (ce_signatories dto)"
  have e: "ea_id ?e = uuid w 0" "ea_status ?e = PENDING" by (simp_all add: new_account_def)
  have okE: "account_ok ?e"
    using num by (simp add: numeric_ok_def account_ok_def new_account_def)
  have nin: "uuid w k \<notin> ea_id ` set (accounts db)" "uuid w k \<notin> es_id ` set (signatories db)" for k
    using fresh by (simp_all add: fresh_uuids_def)
  have dA: "keys_distinct ea_id (accounts db @ [?e])"
    using inv nin(1) [of 0] e(1) by (simp add: db_inv_def keys_distinct_def)
  have inj: "inj (uuid w)" using fresh by (simp add: fresh_uuids_def)
  have "distinct (map es_id ?ss)"
    unfolding new_signatories_facts(2) distinct_map
    using inj by (auto simp: inj_on_def)
  moreover have "set (map es_id ?ss) \<inter> es_id ` set (signatories db) = {}"
    unfolding new_signatories_facts(2) using nin(2) by auto
  ultimately have dS: "keys_distinct es_id (signatories db @ ?ss)"
    using inv by (auto simp: db_inv_def keys_distinct_def)
  have ap: "approvals j db' = approvals j db" for j
    using new_signatories_facts(3) [of w "uuid w 0" "ce_signatories dto"]
    by (auto simp: approvals_def signatories_of_def c(2) filter_empty_conv)
  show ?thesis
    unfolding db_inv_def c(1,2) using inv dA dS okE e(2) ap by (auto simp: db_inv_def)
qed

section \<open>Runs\<close>

text \<open>
  One handler call that succeeds. A call that fails leaves the state as it is, so it is no
  step. The identifiers a creation draws are unused, and the numeric columns return canonical
  amounts.
\<close>

inductive handler_step :: "escrow_db \<Rightarrow> escrow_db \<Rightarrow> bool" where
  create: "createEscrow w pd nc u r dto db = Inr (e, db') \<Longrightarrow> fresh_uuids w db \<Longrightarrow>
    numeric_ok nc dto \<Longrightarrow> handler_step db db'"
| approve: "approveEscrow w i u note ip db = Inr (x, db') \<Longrightarrow> handler_step db db'"
| revoke: "revokeApproval w i u db = Inr (x, db') \<Longrightarrow> handler_step db db'"
| fund: "fundEscrow w i u h db = Inr (e, db') \<Longrightarrow> handler_step db db'"
| refund: "refundEscrow w i u r db = Inr (e, db') \<Longrightarrow> handler_step db db'"
| timeout: "handleTimeout w i db = Inr (e, db') \<Longrightarrow> handler_step db db'"
| timelock: "handleTimeLockSettlement w i db = Inr (e, db') \<Longrightarrow> handler_step db db'"
| milestone: "updateMilestone w i m u r b db = Inr (ml, db') \<Longrightarrow> handler_step db db'"
| dispute: "flagDispute w i u reason evidence db = Inr (e, db') \<Longrightarrow> handler_step db db'"
| resolve: "resolveDispute w i u b db = Inr (e, db') \<Longrightarrow> handler_step db db'"
| cancel: "cancelEscrow w i u r db = Inr (e, db') \<Longrightarrow> handler_step db db'"

text \<open>
  The system: the tables and the releases that have read but not yet written. A release in
  flight may write after any number of other steps, or lose against the guard of its update.
\<close>

type_synonym escrow_sys = "escrow_db \<times> (string \<times> release_plan) list"

inductive sys_step :: "escrow_sys \<Rightarrow> escrow_sys \<Rightarrow> bool" where
  handler: "handler_step db db' \<Longrightarrow> sys_step (db, ps) (db', ps)"
| rel_read: "release_read w i r dto db = Inr p \<Longrightarrow> sys_step (db, ps) (db, (i, p) # ps)"
| rel_write: "(i, p) \<in> set ps \<Longrightarrow> release_write w i u p db = Inr (e, db') \<Longrightarrow>
    sys_step (db, ps) (db', remove1 (i, p) ps)"
| rel_conflict: "(i, p) \<in> set ps \<Longrightarrow> release_write w i u p db = Inl err \<Longrightarrow>
    sys_step (db, ps) (db, remove1 (i, p) ps)"

inductive_cases sys_stepE: "sys_step (db, ps) (db', ps')"

definition empty_db :: escrow_db where
  "empty_db = \<lparr>accounts = [], signatories = [], milestones = [], timeline = [], emitted = []\<rparr>"

inductive escrow_reachable :: "escrow_sys \<Rightarrow> bool" where
  start: "escrow_reachable (empty_db, [])"
| step: "escrow_reachable s \<Longrightarrow> sys_step s t \<Longrightarrow> escrow_reachable t"

lemma handler_step_inv: "handler_step db db' \<Longrightarrow> db_inv db \<Longrightarrow> db_inv db'"
proof (induction rule: handler_step.induct)
  case (create w pd nc u r dto db e db')
  then show ?case using createEscrow_inv by blast
next
  case (approve w i u nt ip db x db')
  then show ?case using approveEscrow_inv by blast
next
  case (revoke w i u db x db')
  then show ?case using revokeApproval_inv by blast
next
  case (fund w i u h db e db')
  from fund(1) obtain e0 where "acct_upd db i e0 e db'" "ea_status e0 = PENDING" "ea_status e = FUNDED"
    "ea_releasedAmount e = ea_releasedAmount e0" by (rule fundEscrow_Inr)
  with fund(2) show ?case by (auto intro: acct_upd_status_inv)
next
  case (refund w i u r db e db')
  from refund(1) obtain e0 where "acct_upd db i e0 e db'" "ea_status e = REFUNDED"
    "ea_releasedAmount e = ea_releasedAmount e0" by (rule refundEscrow_Inr)
  with refund(2) show ?case by (auto intro: acct_upd_status_inv)
next
  case (timeout w i db e db')
  from timeout(1) obtain e0 where "acct_upd db i e0 e db'" "ea_status e = REFUNDED"
    "ea_releasedAmount e = ea_releasedAmount e0" by (rule handleTimeout_Inr)
  with timeout(2) show ?case by (auto intro: acct_upd_status_inv)
next
  case (timelock w i db e db')
  from timelock(1) obtain e0 where u: "acct_upd db i e0 e db'" and "ea_status e = SETTLED"
    "ea_releasedAmount e = ea_amount e0" by (rule handleTimeLockSettlement_Inr)
  moreover from this acct_upd_account [OF timelock(2) u] have "account_ok e"
    by (auto simp: account_ok_def)
  ultimately show ?case using acct_upd_inv [OF timelock(2) u] by simp
next
  case (milestone w i m u r b db ml db')
  then show ?case using updateMilestone_Inr db_inv_cong by blast
next
  case (dispute w i u reason evidence db e db')
  from dispute(1) obtain e0 where "acct_upd db i e0 e db'" "ea_status e = DISPUTED"
    "ea_releasedAmount e = ea_releasedAmount e0" by (rule flagDispute_Inr)
  with dispute(2) show ?case by (auto intro: acct_upd_status_inv)
next
  case (resolve w i u b db e db')
  from resolve(1) obtain e0 where "acct_upd db i e0 e db'"
    "ea_status e = (if b then REFUNDED else SETTLED)"
    "ea_releasedAmount e = ea_releasedAmount e0" by (rule resolveDispute_Inr)
  with resolve(2) show ?case by (cases b) (auto intro: acct_upd_status_inv)
next
  case (cancel w i u r db e db')
  from cancel(1) obtain e0 where "acct_upd db i e0 e db'" "ea_status e0 = PENDING"
    "ea_status e = CANCELLED" "ea_releasedAmount e = ea_releasedAmount e0" by (rule cancelEscrow_Inr)
  with cancel(2) show ?case by (auto intro: acct_upd_status_inv)
qed

text \<open>Accounts are never removed and their amounts never change.\<close>

definition keeps_amounts :: "escrow_db \<Rightarrow> escrow_db \<Rightarrow> bool" where
  "keeps_amounts db db' \<longleftrightarrow>
     (\<forall>i e. find_account i db = Some e \<longrightarrow>
        (\<exists>e'. find_account i db' = Some e' \<and> ea_amount e' = ea_amount e))"

lemma acct_upd_keeps: "acct_upd db i e e' db' \<Longrightarrow> keeps_amounts db db'"
  using account_repo.find_key
  by (auto simp: keeps_amounts_def acct_upd_def find_account_def row_by_save_row)

lemma same_accounts_keeps: "accounts db' = accounts db \<Longrightarrow> keeps_amounts db db'"
  by (simp add: keeps_amounts_def find_account_def)

lemma handler_step_keeps:
  assumes "handler_step db db'"
  shows "keeps_amounts db db'"
  using assms
proof (induction rule: handler_step.induct)
  case (create w pd nc u r dto db e db')
  have "find_account i db' = Some a" if "find_account i db = Some a" for i a
    using that createEscrow_Inr(1) [OF create(1)]
    by (auto simp: find_account_def row_by_def find_Some_iff nth_append)
  then show ?case by (auto simp: keeps_amounts_def)
next
  case (approve w i u nt ip db x db')
  from approve obtain e where e: "find_account i db = Some e"
    and "accounts db' = accounts (save_account (e\<lparr>ea_status := APPROVED\<rparr>) db) \<or> accounts db' = accounts db"
    by (rule approveEscrow_Inr) (auto split: if_splits)
  then show ?case
    using account_repo.find_key [OF e]
    by (auto intro: same_accounts_keeps simp: keeps_amounts_def find_account_def row_by_save_row)
qed (auto elim!: fundEscrow_Inr refundEscrow_Inr handleTimeout_Inr handleTimeLockSettlement_Inr
      flagDispute_Inr resolveDispute_Inr cancelEscrow_Inr revokeApproval_Inr
      intro: acct_upd_keeps same_accounts_keeps dest!: updateMilestone_Inr)

lemma plan_ok_keeps: "plan_ok db i p \<Longrightarrow> keeps_amounts db db' \<Longrightarrow> plan_ok db' i p"
  unfolding plan_ok_def keeps_amounts_def by metis

definition sys_inv :: "escrow_sys \<Rightarrow> bool" where
  "sys_inv s \<longleftrightarrow> db_inv (fst s) \<and> (\<forall>(i, p) \<in> set (snd s). plan_ok (fst s) i p)"

lemma sys_step_inv: "sys_step s t \<Longrightarrow> sys_inv s \<Longrightarrow> sys_inv t"
proof (induction rule: sys_step.induct)
  case (handler db db' ps)
  then show ?case
    using handler_step_inv handler_step_keeps plan_ok_keeps by (fastforce simp: sys_inv_def)
next
  case (rel_read w i r dto db p ps)
  then show ?case using release_read_plan_ok by (auto simp: sys_inv_def)
next
  case (rel_write i p ps w u db e db')
  then have inv: "db_inv db" and pl: "plan_ok db i p" by (auto simp: sys_inv_def)
  have "keeps_amounts db db'"
    using release_write_Inr [OF inv rel_write(2)] acct_upd_keeps by metis
  then show ?case
    using release_write_inv [OF inv pl rel_write(2)] rel_write(3) set_remove1_subset [of "(i, p)" ps]
      plan_ok_keeps [of db _ _ db'] by (fastforce simp: sys_inv_def)
next
  case (rel_conflict i p ps w u db err)
  then show ?case
    using set_remove1_subset [of "(i, p)" ps] by (auto simp: sys_inv_def)
qed

lemma reachable_sys_inv: "escrow_reachable s \<Longrightarrow> sys_inv s"
proof (induction rule: escrow_reachable.induct)
  case start
  show ?case by (simp add: sys_inv_def db_inv_def empty_db_def keys_distinct_def)
next
  case (step s t)
  then show ?case by (blast intro: sys_step_inv)
qed

end
