(* ===== verification/Escrow_Props.thy ===== *)
theory Escrow_Props
  imports Escrow_Run
begin

text \<open>
  The properties of the escrow service, each with a witness run. The demonstration run at the
  start creates a two-of-two escrow of 100 units, funds it, collects both signatures and
  releases in two steps.
\<close>

section \<open>Threshold events\<close>

definition thr_events :: "string \<Rightarrow> escrow_db \<Rightarrow> escrow_event list" where
  "thr_events i db = filter (\<lambda>ev. case ev of EvThresholdReached j _ _ \<Rightarrow> j = i | _ \<Rightarrow> False) (emitted db)"

definition early :: "escrow_account \<Rightarrow> bool" where
  "early e \<longleftrightarrow> ea_status e \<in> {PENDING, AWAITING_FUNDING, FUNDED}"

fun thr_bound :: "escrow_account option \<Rightarrow> nat" where
  "thr_bound None = 0"
| "thr_bound (Some e) = (if early e then 0 else 1)"

definition thr_inv :: "escrow_db \<Rightarrow> bool" where
  "thr_inv db \<longleftrightarrow> (\<forall>i. length (thr_events i db) \<le> thr_bound (find_account i db))"

lemma thr_inv_mono:
  assumes "thr_inv db" and "\<And>j. thr_events j db' = thr_events j db"
    and "\<And>j. thr_bound (find_account j db) \<le> thr_bound (find_account j db')"
  shows "thr_inv db'"
  using assms unfolding thr_inv_def by (metis le_trans)

text \<open>The effect of a handler on the events, beside its effect on the accounts.\<close>

lemma thr_events_frames [simp]:
  "thr_events j (addEvent w k i t a d m db) = thr_events j db"
  "thr_events j (save_account e db) = thr_events j db"
  "thr_events j (save_signatory s db) = thr_events j db"
  "thr_events j (save_milestone ml db) = thr_events j db"
  "thr_events j (db\<lparr>accounts := as\<rparr>) = thr_events j db"
  "thr_events j (db\<lparr>accounts := as, signatories := ss, milestones := ms\<rparr>) = thr_events j db"
  "thr_events j (emit ev db) = thr_events j db @
     (case ev of EvThresholdReached i _ _ \<Rightarrow> if i = j then [ev] else [] | _ \<Rightarrow> [])"
  by (auto simp: thr_events_def addEvent_def save_account_def save_signatory_def
      save_milestone_def emit_def split: escrow_event.splits)

lemmas emits_simps = rbind_Inr_iff if_Inl_eq_Inr_iff Let_def

lemma fundEscrow_emits: "fundEscrow w i u h db = Inr (e, db') \<Longrightarrow> thr_events j db' = thr_events j db"
  by (auto simp: fundEscrow_def emits_simps)

lemma refundEscrow_emits: "refundEscrow w i u r db = Inr (e, db') \<Longrightarrow> thr_events j db' = thr_events j db"
  by (auto simp: refundEscrow_def emits_simps)

lemma handleTimeout_emits: "handleTimeout w i db = Inr (e, db') \<Longrightarrow> thr_events j db' = thr_events j db"
  by (auto simp: handleTimeout_def emits_simps split: option.splits)

lemma handleTimeLockSettlement_emits:
  "handleTimeLockSettlement w i db = Inr (e, db') \<Longrightarrow> thr_events j db' = thr_events j db"
  by (auto simp: handleTimeLockSettlement_def emits_simps split: option.splits)

lemma flagDispute_emits: "flagDispute w i u re ev db = Inr (e, db') \<Longrightarrow> thr_events j db' = thr_events j db"
  by (auto simp: flagDispute_def emits_simps)

lemma resolveDispute_emits: "resolveDispute w i u b db = Inr (e, db') \<Longrightarrow> thr_events j db' = thr_events j db"
  by (auto simp: resolveDispute_def emits_simps)

lemma cancelEscrow_emits: "cancelEscrow w i u r db = Inr (e, db') \<Longrightarrow> thr_events j db' = thr_events j db"
  by (auto simp: cancelEscrow_def emits_simps)

lemma createEscrow_emits:
  "createEscrow w pd nc u r dto db = Inr (e, db') \<Longrightarrow> thr_events j db' = thr_events j db"
  by (auto simp: createEscrow_def emits_simps)

lemma release_write_emits: "release_write w i u p db = Inr (e, db') \<Longrightarrow> thr_events j db' = thr_events j db"
  by (auto simp: release_write_def Let_def split: if_splits)

lemma updateMilestone_emits:
  assumes "updateMilestone w i m u r b db = Inr (ml, db')"
  shows "thr_events j db' = thr_events j db"
proof -
  from assms obtain e m' where "find_account i db = Some e" and m': "find_milestone m i db = Some m'"
    unfolding updateMilestone_def
    by (auto simp: rbind_Inr_iff if_Inl_eq_Inr_iff split: option.splits)
  then show ?thesis
    using assms unfolding updateMilestone_def
    by (cases "b"; cases "em_isCompleted m'"; cases "r = ''admin''")
      (auto simp: emits_simps)
qed

lemma revokeApproval_emits:
  assumes "revokeApproval w i u db = Inr (x, db')"
  shows "thr_events j db' = thr_events j db"
  using assms unfolding revokeApproval_def
  by (auto simp: emits_simps)

lemma acct_upd_thr_inv:
  assumes "thr_inv db" and "acct_upd db i e e' db'" and "\<And>j. thr_events j db' = thr_events j db"
    and "early e' \<Longrightarrow> early e"
  shows "thr_inv db'"
proof -
  have "find_account j db' = (if j = i then Some e' else find_account j db)" for j
    using assms(2) account_repo.find_key [of i db e]
    by (auto simp: acct_upd_def find_account_def row_by_save_row)
  moreover have "find_account i db = Some e" using assms(2) by (simp add: acct_upd_def)
  ultimately show ?thesis using assms(4) by (intro thr_inv_mono [OF assms(1,3)]) auto
qed

lemma same_accounts_thr_inv:
  "thr_inv db \<Longrightarrow> accounts db' = accounts db \<Longrightarrow> (\<And>j. thr_events j db' = thr_events j db) \<Longrightarrow> thr_inv db'"
  by (simp add: thr_inv_def find_account_def)

lemma approveEscrow_thr_inv:
  assumes t: "thr_inv db" and ok: "approveEscrow w i u nt ip db = Inr (x, db')"
  shows "thr_inv db'"
  using ok
proof (rule approveEscrow_Inr)
  fix e s s'
  let ?cnt = "length (filter es_hasApproved (save_row es_id s' (signatories_of i db)))"
  assume e: "find_account i db = Some e" and st: "ea_status e \<in> {FUNDED, APPROVED}"
    and acc: "if ea_status e = FUNDED \<and> ea_requiredSignatures e \<le> ?cnt
         then accounts db' = accounts (save_account (e\<lparr>ea_status := APPROVED\<rparr>) db) \<and>
              emitted db' = emitted db @ [EvThresholdReached (ea_id e) ?cnt (ea_requiredSignatures e)]
         else accounts db' = accounts db \<and> emitted db' = emitted db"
  have id: "ea_id e = i" using account_repo.find_key [OF e] .
  show ?thesis
  proof (cases "ea_status e = FUNDED \<and> ea_requiredSignatures e \<le> ?cnt")
    case True
    then have f: "find_account j db' = (if j = i then Some (e\<lparr>ea_status := APPROVED\<rparr>) else find_account j db)" for j
      using acc id by (auto simp: find_account_def row_by_save_row)
    have "thr_events i db = []"
      using t [unfolded thr_inv_def, rule_format, of i] e True by (simp add: early_def)
    moreover have "thr_events j db' = thr_events j db @
       (if j = i then [EvThresholdReached i ?cnt (ea_requiredSignatures e)] else [])" for j
      using acc True id by (auto simp: thr_events_def)
    ultimately show ?thesis
      using t f by (simp add: thr_inv_def early_def)
  next
    case False
    then have "accounts db' = accounts db" "\<And>j. thr_events j db' = thr_events j db"
      using acc by (auto simp: thr_events_def)
    then show ?thesis using same_accounts_thr_inv [OF t] by blast
  qed
qed

lemma createEscrow_thr_inv:
  assumes t: "thr_inv db" and ok: "createEscrow w pd nc u r dto db = Inr (e, db')"
  shows "thr_inv db'"
proof -
  let ?e = "new_account w pd nc u dto"
  have f: "find_account j db' = (case find_account j db of Some a \<Rightarrow> Some a
      | None \<Rightarrow> if j = ea_id ?e then Some ?e else None)" for j
    unfolding find_account_def createEscrow_Inr(1) [OF ok] by (rule row_by_append)
  show ?thesis
    by (rule thr_inv_mono [OF t createEscrow_emits [OF ok]]) (simp add: f split: option.splits)
qed

lemma handler_step_thr_inv: "handler_step db db' \<Longrightarrow> thr_inv db \<Longrightarrow> thr_inv db'"
proof (induction rule: handler_step.induct)
  case (create w pd nc u r dto db e db')
  then show ?case using createEscrow_thr_inv by blast
next
  case (approve w i u nt ip db x db')
  then show ?case using approveEscrow_thr_inv by blast
next
  case (revoke w i u db x db')
  from revoke(1) have "accounts db' = accounts db" by (rule revokeApproval_Inr)
  with revoke show ?case using same_accounts_thr_inv revokeApproval_emits by blast
next
  case (fund w i u h db e db')
  from fund(1) obtain e0 where u: "acct_upd db i e0 e db'" and st: "ea_status e0 = PENDING"
    by (rule fundEscrow_Inr)
  show ?case
    by (rule acct_upd_thr_inv [OF fund(2) u fundEscrow_emits [OF fund(1)]]) (simp add: early_def st)
next
  case (refund w i u r db e db')
  from refund(1) obtain e0 where u: "acct_upd db i e0 e db'" and st: "ea_status e = REFUNDED"
    by (rule refundEscrow_Inr)
  show ?case
    by (rule acct_upd_thr_inv [OF refund(2) u refundEscrow_emits [OF refund(1)]]) (simp add: early_def st)
next
  case (timeout w i db e db')
  from timeout(1) obtain e0 where u: "acct_upd db i e0 e db'" and st: "ea_status e = REFUNDED"
    by (rule handleTimeout_Inr)
  show ?case
    by (rule acct_upd_thr_inv [OF timeout(2) u handleTimeout_emits [OF timeout(1)]]) (simp add: early_def st)
next
  case (timelock w i db e db')
  from timelock(1) obtain e0 where u: "acct_upd db i e0 e db'" and st: "ea_status e = SETTLED"
    by (rule handleTimeLockSettlement_Inr)
  show ?case
    by (rule acct_upd_thr_inv [OF timelock(2) u handleTimeLockSettlement_emits [OF timelock(1)]]) (simp add: early_def st)
next
  case (milestone w i m u r b db ml db')
  then show ?case
    using updateMilestone_Inr updateMilestone_emits same_accounts_thr_inv by metis
next
  case (dispute w i u reason evidence db e db')
  from dispute(1) obtain e0 where u: "acct_upd db i e0 e db'" and st: "ea_status e = DISPUTED"
    by (rule flagDispute_Inr)
  show ?case
    by (rule acct_upd_thr_inv [OF dispute(2) u flagDispute_emits [OF dispute(1)]]) (simp add: early_def st)
next
  case (resolve w i u b db e db')
  from resolve(1) obtain e0 where u: "acct_upd db i e0 e db'" and st: "ea_status e = (if b then REFUNDED else SETTLED)"
    by (rule resolveDispute_Inr)
  show ?case
    by (rule acct_upd_thr_inv [OF resolve(2) u resolveDispute_emits [OF resolve(1)]]) (simp add: early_def st split: if_splits)
next
  case (cancel w i u r db e db')
  from cancel(1) obtain e0 where u: "acct_upd db i e0 e db'" and st: "ea_status e = CANCELLED"
    by (rule cancelEscrow_Inr)
  show ?case
    by (rule acct_upd_thr_inv [OF cancel(2) u cancelEscrow_emits [OF cancel(1)]]) (simp add: early_def st)
qed

lemma reachable_thr_inv: "escrow_reachable s \<Longrightarrow> thr_inv (fst s)"
proof (induction rule: escrow_reachable.induct)
  case start
  show ?case by (simp add: thr_inv_def empty_db_def thr_events_def)
next
  case (step s t)
  have inv: "sys_inv s" using step(1) by (rule reachable_sys_inv)
  from step(2) show ?case
  proof (cases rule: sys_step.cases)
    case (handler db db' ps)
    with step show ?thesis by (auto intro: handler_step_thr_inv)
  next
    case (rel_write i p ps w u db e db')
    then have d: "db_inv db" and pl: "plan_ok db i p" using inv by (auto simp: sys_inv_def)
    from release_write_Inr [OF d rel_write(4)] obtain row where
      "acct_upd db i row (apply_update_set (rp_escrow p) row) db'" by blast
    moreover have "\<not> early (apply_update_set (rp_escrow p) row)"
      using pl by (auto simp: plan_ok_def early_def)
    ultimately have "thr_inv db'"
      using acct_upd_thr_inv [of db i row "apply_update_set (rp_escrow p) row" db'] step.IH rel_write(1) release_write_emits [OF rel_write(4)]
      by simp
    then show ?thesis using rel_write(2) by simp
  qed (use step in auto)
qed

section \<open>A demonstration run\<close>

definition demo_env :: "int \<Rightarrow> env" where
  "demo_env t = \<lparr>now = t, uuid = (\<lambda>k. CHR ''u'' # nat_to_string k), keypair = ''GESCROW''\<rparr>"

definition demo_numeric :: "string \<Rightarrow> string" where
  "demo_numeric s = fromStroops (stroops_of s)"

definition demo_dto :: create_escrow_dto where
  "demo_dto = \<lparr>ce_type = STANDARD, ce_requiredSignatures = 2, ce_assetCode = ''XLM'',
     ce_assetIssuer = None, ce_amount = 100, ce_description = None, ce_tradeId = None,
     ce_settlementDeadline = Undefined, ce_timeLockExpiry = None,
     ce_signatories = [\<lparr>si_userId = ''alice'', si_publicKey = ''GA'', si_role = CREATOR\<rparr>,
                       \<lparr>si_userId = ''bob'', si_publicKey = ''GB'', si_role = COUNTERPARTY\<rparr>],
     ce_milestones = None, ce_metadata = None\<rparr>"


definition demo_account :: escrow_account where
  "demo_account = \<lparr>ea_id = ''u0'', ea_createdAt = 0, ea_creatorId = ''alice'',
     ea_escrowAddress = Some ''GESCROW'', ea_type = STANDARD, ea_status = PENDING,
     ea_requiredSignatures = 2, ea_totalSignatories = 2, ea_assetCode = ''XLM'',
     ea_assetIssuer = None, ea_amount = ''100.0000000'', ea_releasedAmount = ''0.0000000'',
     ea_feeAmount = ''0.0000000'', ea_settlementDeadline = Some 604800000,
     ea_timeLockExpiry = None, ea_description = None, ea_tradeId = None, ea_disputeId = None,
     ea_fundingTxHash = None, ea_settlementTxHash = None, ea_fundedAt = None,
     ea_settledAt = None, ea_refundedAt = None, ea_metadata = None\<rparr>"

definition demo_sig :: "string \<Rightarrow> string \<Rightarrow> string \<Rightarrow> signatory_role \<Rightarrow> int option \<Rightarrow> escrow_signatory" where
  "demo_sig i u k r t = \<lparr>es_id = i, es_escrowAccountId = ''u0'', es_userId = u, es_publicKey = k,
     es_role = r, es_hasApproved = (t \<noteq> None), es_approvedAt = t, es_revokedAt = None,
     es_approvalIpAddress = None\<rparr>"

text \<open>The tables of the run at each step; the timeline is what the handlers wrote.\<close>

definition demo_db :: "escrow_account \<Rightarrow> int option \<Rightarrow> int option \<Rightarrow> escrow_timeline list \<Rightarrow>
    escrow_event list \<Rightarrow> escrow_db" where
  "demo_db a t1 t2 ts ev = \<lparr>accounts = [a],
     signatories = [demo_sig ''u1'' ''alice'' ''GA'' CREATOR t1, demo_sig ''u2'' ''bob'' ''GB'' COUNTERPARTY t2],
     milestones = [], timeline = ts, emitted = ev\<rparr>"

lemma demo_num: "num_to_string 100 = ''100''" by code_simp
lemma demo_cols: "demo_numeric ''100'' = ''100.0000000''" "demo_numeric ''0'' = ''0.0000000''" by code_simp+
lemma demo_digits: "nat_to_string 0 = ''0''" "nat_to_string (Suc 0) = ''1''" "nat_to_string 2 = ''2''" "nat_to_string (Suc (Suc 0)) = ''2''" by code_simp+
lemma demo_create: "\<exists>x ts ev. createEscrow (demo_env 0) (\<lambda>_. 0) demo_numeric ''alice'' ''user'' demo_dto empty_db
  = Inr (x, demo_db demo_account None None ts ev)"
  by (simp add: createEscrow_def demo_dto_def check_milestones_def empty_db_def Let_def
    MAX_ACTIVE_ESCROWS_PER_USER_def demo_db_def demo_env_def new_account_def new_signatories_def
    new_milestones_def demo_num demo_cols addEvent_def emit_def demo_sig_def demo_account_def demo_digits DEFAULT_SETTLEMENT_WINDOW_MS_def)
lemma demo_fund: "\<exists>x ts' ev'. fundEscrow (demo_env 1) ''u0'' ''alice'' ''tx1'' (demo_db demo_account None None ts ev)
  = Inr (x, demo_db (demo_account\<lparr>ea_status := FUNDED, ea_fundedAt := Some 1, ea_fundingTxHash := Some ''tx1''\<rparr>) None None ts' ev')"
  by (simp add: fundEscrow_def demo_db_def demo_account_def demo_env_def getEscrowOrThrow_def find_account_def 
    Let_def addEvent_def emit_def save_account_def)

definition demo_funded :: escrow_account where
  "demo_funded = demo_account\<lparr>ea_status := FUNDED, ea_fundedAt := Some 1, ea_fundingTxHash := Some ''tx1''\<rparr>"

lemmas demo_defs = demo_db_def demo_account_def demo_funded_def demo_env_def demo_sig_def getEscrowOrThrow_def
  find_account_def Let_def addEvent_def emit_def save_account_def save_signatory_def signatories_of_def
  assertSignatory_def calculateApprovalProgress_def

lemma demo_approve1: "\<exists>x ts' ev'. approveEscrow (demo_env 2) ''u0'' ''alice'' None None (demo_db demo_funded None None ts ev)
  = Inr (x, demo_db demo_funded (Some 2) None ts' ev')"
  by (simp add: approveEscrow_def demo_defs)

lemma demo_approve2: "\<exists>x ts' ev'. approveEscrow (demo_env 3) ''u0'' ''bob'' None None (demo_db demo_funded (Some 2) None ts ev)
  = Inr (x, demo_db (demo_funded\<lparr>ea_status := APPROVED\<rparr>) (Some 2) (Some 3) ts' ev')"
  by (simp add: approveEscrow_def demo_defs)

lemma demo_strings: "fromStroops 1000000000 = ''100.0000000''" "fromStroops 250000000 = ''25.0000000''" "fromStroops 0 = ''0.0000000''"
  by code_simp+

lemma demo_floor: "\<lfloor>500000001 / 2 :: rat\<rfloor> = 250000000"
  by (rule floor_unique) simp_all
lemma demo_stroops: "toStroops (AStr ''100.0000000'') = Inr 1000000000" "toStroops (AStr ''0.0000000'') = Inr 0"
  "toStroops (ANum 25) = Inr 250000000"
  using toStroops_fromStroops [of 1000000000] toStroops_fromStroops [of 0] by (simp_all add: demo_strings toStroops_number demo_floor)

definition demo_plan :: release_plan where
  "demo_plan = \<lparr>rp_escrow = demo_funded\<lparr>ea_status := PARTIALLY_RELEASED, ea_releasedAmount := ''25.0000000''\<rparr>,
     rp_releasedStroops = 0, rp_remainingStroops = 1000000000, rp_releaseStroops = 250000000,
     rp_isFullySettled = False\<rparr>"

lemma demo_read: "release_read (demo_env 4) ''u0'' ''user'' \<lparr>rf_amount = Some 25, rf_milestoneId = None\<rparr>
    (demo_db (demo_funded\<lparr>ea_status := APPROVED\<rparr>) (Some 2) (Some 3) ts ev) = Inr demo_plan"
  by (simp add: release_read_def demo_defs check_release_milestone_def demo_stroops demo_strings demo_plan_def)

lemma demo_write: "\<exists>x ts' ev'. release_write w ''u0'' u demo_plan
    (demo_db (demo_funded\<lparr>ea_status := APPROVED\<rparr>) (Some 2) (Some 3) ts ev) 
   = Inr (x, demo_db (demo_funded\<lparr>ea_status := PARTIALLY_RELEASED, ea_releasedAmount := ''25.0000000''\<rparr>) (Some 2) (Some 3) ts' ev')"
  by (simp add: release_write_def demo_defs demo_strings demo_plan_def apply_update_set_def)

abbreviation demo_approved_db :: "escrow_timeline list \<Rightarrow> escrow_event list \<Rightarrow> escrow_db" where
  "demo_approved_db \<equiv> demo_db (demo_funded\<lparr>ea_status := APPROVED\<rparr>) (Some 2) (Some 3)"

abbreviation demo_partial_db :: "escrow_timeline list \<Rightarrow> escrow_event list \<Rightarrow> escrow_db" where
  "demo_partial_db \<equiv> demo_db (demo_funded\<lparr>ea_status := PARTIALLY_RELEASED,
     ea_releasedAmount := ''25.0000000''\<rparr>) (Some 2) (Some 3)"

lemma demo_fresh: "fresh_uuids (demo_env 0) empty_db"
proof -
  have "inj (\<lambda>k. CHR ''u'' # nat_to_string k)"
    by (rule injI) (metis digits_val_nat_to_string list.inject option.inject)
  then show ?thesis by (simp add: fresh_uuids_def demo_env_def empty_db_def)
qed

lemma demo_numeric_ok: "numeric_ok demo_numeric demo_dto"
  using demo_strings(1) stroops_of_fromStroops [of 1000000000]
  by (simp add: numeric_ok_def demo_dto_def demo_num demo_cols demo_strings
      flip: demo_strings(1))

lemma demo_reach_approved: "\<exists>ts ev. escrow_reachable (demo_approved_db ts ev, [])"
proof -
  obtain x ts ev where s1: "createEscrow (demo_env 0) (\<lambda>_. 0) demo_numeric ''alice'' ''user'' demo_dto empty_db
      = Inr (x, demo_db demo_account None None ts ev)" using demo_create by blast
  obtain x2 ts2 ev2 where s2: "fundEscrow (demo_env 1) ''u0'' ''alice'' ''tx1'' (demo_db demo_account None None ts ev)
      = Inr (x2, demo_db demo_funded None None ts2 ev2)" using demo_fund unfolding demo_funded_def by blast
  obtain x3 ts3 ev3 where s3: "approveEscrow (demo_env 2) ''u0'' ''alice'' None None (demo_db demo_funded None None ts2 ev2)
      = Inr (x3, demo_db demo_funded (Some 2) None ts3 ev3)" using demo_approve1 by blast
  obtain x4 ts4 ev4 where s4: "approveEscrow (demo_env 3) ''u0'' ''bob'' None None (demo_db demo_funded (Some 2) None ts3 ev3)
      = Inr (x4, demo_approved_db ts4 ev4)" using demo_approve2 by blast
  note h = handler_step.create [OF s1 demo_fresh demo_numeric_ok] handler_step.fund [OF s2]
    handler_step.approve [OF s3] handler_step.approve [OF s4]
  note r1 = escrow_reachable.step [OF escrow_reachable.start sys_step.handler [OF h(1)]]
  note r2 = escrow_reachable.step [OF r1 sys_step.handler [OF h(2)]]
  note r3 = escrow_reachable.step [OF r2 sys_step.handler [OF h(3)]]
  show ?thesis using escrow_reachable.step [OF r3 sys_step.handler [OF h(4)]] by blast
qed

lemma demo_reach_partial:
  "\<exists>ts ev. escrow_reachable (demo_partial_db ts ev, [(''u0'', demo_plan)])"
proof -
  from demo_reach_approved obtain ts ev where r: "escrow_reachable (demo_approved_db ts ev, [])" by blast
  obtain x ts' ev' where w: "release_write (demo_env 5) ''u0'' ''alice'' demo_plan (demo_approved_db ts ev)
      = Inr (x, demo_partial_db ts' ev')" using demo_write by blast
  note r1 = escrow_reachable.step [OF r sys_step.rel_read [OF demo_read]]
  note r2 = escrow_reachable.step [OF r1 sys_step.rel_read [OF demo_read]]
  have "(''u0'', demo_plan) \<in> set [(''u0'', demo_plan), (''u0'', demo_plan)]" by simp
  from escrow_reachable.step [OF r2 sys_step.rel_write [OF this w]] show ?thesis by auto
qed

section \<open>Properties\<close>

text \<open>
  C1. In every state the service reaches, with any interleaving of the handlers and of releases
  that read and write at different times, each escrow has released between zero and its
  amount; nothing has been released before an approved release (and exactly nothing while the
  escrow is pending, funded, approved, expired or cancelled), and a partially released
  escrow has released strictly less than its amount.
\<close>

theorem escrow_never_over_releases:
  assumes "escrow_reachable (db, ps)" and "e \<in> set (accounts db)"
  shows "0 \<le> released_of e \<and> released_of e \<le> total_of e \<and>
    (ea_status e \<in> {PENDING, AWAITING_FUNDING, FUNDED, APPROVED, EXPIRED, CANCELLED} \<longrightarrow> released_of e = 0) \<and>
    (ea_status e = PARTIALLY_RELEASED \<longrightarrow> 0 < released_of e \<and> released_of e < total_of e)"
proof -
  have "account_ok e"
    using reachable_sys_inv [OF assms(1)] assms(2) by (auto simp: sys_inv_def db_inv_def)
  then show ?thesis by (auto simp: account_ok_def)
qed

theorem escrow_never_over_releases_witness:
  "\<exists>ts ev e. e \<in> set (accounts (demo_partial_db ts ev)) \<and>
     escrow_reachable (demo_partial_db ts ev, [(''u0'', demo_plan)]) \<and>
     0 < released_of e \<and> released_of e < total_of e"
proof -
  from demo_reach_partial obtain ts ev where
    r: "escrow_reachable (demo_partial_db ts ev, [(''u0'', demo_plan)])" by blast
  let ?e = "demo_funded\<lparr>ea_status := PARTIALLY_RELEASED, ea_releasedAmount := ''25.0000000''\<rparr>"
  have m: "?e \<in> set (accounts (demo_partial_db ts ev))" by (simp add: demo_db_def)
  from escrow_never_over_releases [OF r m] m r show ?thesis by (intro exI conjI) auto
qed

text \<open>
  C7. Two releases that read the same escrow before either writes cannot both be applied: after
  the first update commits, the guarded update of the second finds no row and the call fails
  with a conflict.
\<close>

theorem concurrent_release_conflicts:
  assumes "escrow_reachable (db, ps)"
    and "release_read w1 i r1 dto1 db = Inr p1" and "release_read w2 i r2 dto2 db = Inr p2"
    and "release_write w3 i u1 p1 db = Inr (e1, db1)"
  shows "\<exists>msg. release_write w4 i u2 p2 db1 = Inl (Conflict msg)"
proof -
  have inv: "db_inv db" using reachable_sys_inv [OF assms(1)] by (simp add: sys_inv_def)
  note pl1 = release_read_plan_ok [OF inv assms(2)] and pl2 = release_read_plan_ok [OF inv assms(3)]
  have same: "rp_releasedStroops p1 = rp_releasedStroops p2"
    by (rule release_read_Inr [OF assms(2)], rule release_read_Inr [OF assms(3)]) simp
  from release_write_Inr [OF inv assms(4)] obtain row where
    upd: "acct_upd db i row (apply_update_set (rp_escrow p1) row) db1" by blast
  let ?row' = "apply_update_set (rp_escrow p1) row"
  have inv1: "db_inv db1" by (rule release_write_inv [OF inv pl1 assms(4)])
  have f: "find_account i db1 = Some ?row'"
    using upd account_repo.find_key [of i db row]
    by (auto simp: acct_upd_def find_account_def row_by_save_row)
  have "ea_releasedAmount ?row' \<noteq> fromStroops (rp_releasedStroops p2)"
    using pl1 same by (auto simp: plan_ok_def)
  then have "\<not> (\<exists>r \<in> set (accounts db1). ea_id r = i \<and>
      ea_releasedAmount r = fromStroops (rp_releasedStroops p2))"
    using db_inv_find [OF inv1] f by auto
  then show ?thesis by (simp add: release_write_def)
qed

theorem concurrent_release_conflicts_witness:
  "\<exists>ts ev r1 msg. release_write (demo_env 5) ''u0'' ''alice'' demo_plan (demo_approved_db ts ev) = Inr r1
     \<and> release_write (demo_env 6) ''u0'' ''bob'' demo_plan (snd r1) = Inl (Conflict msg)"
proof -
  from demo_reach_approved obtain ts ev where r: "escrow_reachable (demo_approved_db ts ev, [])" by blast
  obtain x ts' ev' where w: "release_write (demo_env 5) ''u0'' ''alice'' demo_plan (demo_approved_db ts ev)
      = Inr (x, demo_partial_db ts' ev')" using demo_write by blast
  from concurrent_release_conflicts [OF r demo_read demo_read w] w show ?thesis
    by (metis snd_conv)
qed

lemma releaseFunds_effect:
  assumes inv: "db_inv db" and "releaseFunds w i u r dto db = Inr (e', db')"
  shows "\<exists>e row. find_account i db = Some e \<and> find_account i db' = Some row \<and>
     released_of e < released_of row \<and> released_of row \<le> total_of e \<and> total_of row = total_of e \<and>
     ea_status row = (if released_of row = total_of e then SETTLED else PARTIALLY_RELEASED) \<and>
     (rf_amount dto = None \<longrightarrow> released_of row = total_of e) \<and>
     (r \<noteq> ''admin'' \<longrightarrow> ea_status e \<in> {APPROVED, PARTIALLY_RELEASED} \<and>
        ea_requiredSignatures e \<le> approvals i db) \<and>
     (\<forall>j. j \<noteq> i \<longrightarrow> find_account j db' = find_account j db)"
proof -
  from assms(2) obtain p where rd: "release_read w i r dto db = Inr p"
    and wr: "release_write w i u p db = Inr (e', db')"
    by (auto simp: releaseFunds_def rbind_Inr_iff)
  from release_write_Inr [OF inv wr] obtain row where
    upd: "acct_upd db i row (apply_update_set (rp_escrow p) row) db'" by blast
  let ?row' = "apply_update_set (rp_escrow p) row"
  have f: "find_account i db = Some row" and f': "find_account i db' = Some ?row'"
    and oth: "\<And>j. j \<noteq> i \<Longrightarrow> find_account j db' = find_account j db"
    using upd account_repo.find_key [of i db row]
    by (auto simp: acct_upd_def find_account_def row_by_save_row)
  show ?thesis
  proof (rule release_read_Inr [OF rd])
    fix e tot rel amt
    assume a: "find_account i db = Some e"
      "r = ''admin'' \<or> (ea_status e \<in> {APPROVED, PARTIALLY_RELEASED} \<and> ea_requiredSignatures e \<le> approvals i db)"
      "toStroops (AStr (ea_amount e)) = Inr tot" "toStroops (AStr (ea_releasedAmount e)) = Inr rel"
      "(case rf_amount dto of Some a \<Rightarrow> toStroops (ANum a) | None \<Rightarrow> Inr (tot - rel)) = Inr amt"
      "0 < amt" "amt \<le> tot - rel"
      "ea_releasedAmount (rp_escrow p) = fromStroops (rel + amt)"
      "ea_status (rp_escrow p) = (if rel + amt = tot then SETTLED else PARTIALLY_RELEASED)"
    then have "row = e" "total_of e = tot" "released_of e = rel" using f by (simp_all add: stroops_of_def)
    then show ?thesis using a f f' oth by (intro exI [of _ e] exI [of _ ?row']) auto
  qed
qed

text \<open>
  C24. A release that succeeds adds a positive amount to what the escrow has released, never
  beyond the escrow amount, changes no other escrow, settles exactly when everything is
  released (always, when no amount is given), and, unless the caller is an admin, starts from
  an approved or partially released escrow with its threshold of signatures.
\<close>

theorem releaseFunds_spec:
  assumes "escrow_reachable (db, ps)" and "releaseFunds w i u r dto db = Inr (e', db')"
  shows "\<exists>e row. find_account i db = Some e \<and> find_account i db' = Some row \<and>
     released_of e < released_of row \<and> released_of row \<le> total_of e \<and> total_of row = total_of e \<and>
     ea_status row = (if released_of row = total_of e then SETTLED else PARTIALLY_RELEASED) \<and>
     (rf_amount dto = None \<longrightarrow> released_of row = total_of e) \<and>
     (r \<noteq> ''admin'' \<longrightarrow> ea_status e \<in> {APPROVED, PARTIALLY_RELEASED} \<and>
        ea_requiredSignatures e \<le> approvals i db) \<and>
     (\<forall>j. j \<noteq> i \<longrightarrow> find_account j db' = find_account j db)"
  using releaseFunds_effect [OF _ assms(2)] reachable_sys_inv [OF assms(1)] by (simp add: sys_inv_def)

theorem releaseFunds_spec_witness:
  "\<exists>ts ev row db'. releaseFunds (demo_env 4) ''u0'' ''alice'' ''user''
       \<lparr>rf_amount = Some 25, rf_milestoneId = None\<rparr> (demo_approved_db ts ev) = Inr db' \<and>
     find_account ''u0'' (snd db') = Some row \<and> 0 < released_of row"
proof -
  from demo_reach_approved obtain ts ev where r: "escrow_reachable (demo_approved_db ts ev, [])" by blast
  have "\<exists>x. releaseFunds (demo_env 4) ''u0'' ''alice'' ''user''
       \<lparr>rf_amount = Some 25, rf_milestoneId = None\<rparr> (demo_approved_db ts ev) = Inr x"
    unfolding releaseFunds_def demo_read rbind_simps using demo_write by blast
  then obtain e' db' where ok: "releaseFunds (demo_env 4) ''u0'' ''alice'' ''user''
       \<lparr>rf_amount = Some 25, rf_milestoneId = None\<rparr> (demo_approved_db ts ev) = Inr (e', db')" by auto
  have "find_account ''u0'' (demo_approved_db ts ev) = Some (demo_funded\<lparr>ea_status := APPROVED\<rparr>)"
    by (simp add: find_account_def demo_db_def demo_funded_def demo_account_def)
  moreover have "released_of (demo_funded\<lparr>ea_status := APPROVED\<rparr>) = 0"
    using stroops_of_fromStroops [of 0] by (simp add: demo_funded_def demo_account_def demo_strings)
  moreover obtain e row where "find_account ''u0'' (demo_approved_db ts ev) = Some e"
    "find_account ''u0'' db' = Some row" "released_of e < released_of row"
    using releaseFunds_spec [OF r ok] by blast
  ultimately show ?thesis using ok by (metis option.inject snd_conv)
qed



text \<open>
  The threshold event of an escrow is emitted at most once in any run: the transition to
  APPROVED happens once, and further signatures do not emit it again.
\<close>

theorem threshold_event_at_most_once:
  assumes "escrow_reachable (db, ps)"
  shows "length (thr_events i db) \<le> 1"
proof -
  have "length (thr_events i db) \<le> thr_bound (find_account i db)"
    using reachable_thr_inv [OF assms] by (simp add: thr_inv_def)
  moreover have "thr_bound (find_account i db) \<le> 1" by (cases "find_account i db") auto
  ultimately show ?thesis by simp
qed

theorem threshold_event_at_most_once_witness:
  "\<exists>ts ev. escrow_reachable (demo_approved_db ts ev, []) \<and>
     length (thr_events ''u0'' (demo_approved_db ts ev)) \<le> 1"
  using demo_reach_approved threshold_event_at_most_once by blast

text \<open>
  While an escrow is disputed, no handler that a non-admin can call moves or returns its
  funds: release, refund, timeout, time-lock settlement, funding, cancellation, approval and
  revocation all fail.
\<close>

theorem disputed_escrow_frozen:
  assumes "find_account i db = Some e" and "ea_status e = DISPUTED" and "r \<noteq> ''admin''"
  shows "\<not> is_ok (releaseFunds w i u r dto db) \<and> \<not> is_ok (refundEscrow w i u r db) \<and>
    \<not> is_ok (handleTimeout w i db) \<and> \<not> is_ok (handleTimeLockSettlement w i db) \<and>
    \<not> is_ok (fundEscrow w i u h db) \<and> \<not> is_ok (cancelEscrow w i u r db) \<and>
    \<not> is_ok (approveEscrow w i u nt ip db) \<and> \<not> is_ok (revokeApproval w i u db)"
proof -
  have g: "getEscrowOrThrow i db = Inr e" using assms(1) by simp
  show ?thesis
    using assms(2,3)
    by (auto simp: g is_ok_def releaseFunds_def release_read_def refundEscrow_def handleTimeout_def
        handleTimeLockSettlement_def fundEscrow_def cancelEscrow_def approveEscrow_def
        revokeApproval_def split: option.splits)
qed

theorem disputed_escrow_frozen_witness:
  "\<not> is_ok (releaseFunds (demo_env 9) ''u0'' ''alice'' ''user'' \<lparr>rf_amount = None, rf_milestoneId = None\<rparr>
      (demo_db (demo_funded\<lparr>ea_status := DISPUTED\<rparr>) (Some 2) (Some 3) [] []))"
proof -
  let ?db = "demo_db (demo_funded\<lparr>ea_status := DISPUTED\<rparr>) (Some 2) (Some 3) [] []"
  have f: "find_account ''u0'' ?db = Some (demo_funded\<lparr>ea_status := DISPUTED\<rparr>)"
    by (simp add: find_account_def demo_db_def demo_funded_def demo_account_def)
  show ?thesis by (rule disputed_escrow_frozen [OF f, THEN conjunct1]) simp_all
qed

text \<open>
  An admin's full release has no status guard: from every reachable state and every status
  (pending and never funded, cancelled, refunded, disputed, \<dots>) in which the escrow has
  something left, it succeeds and records the escrow as SETTLED with everything released.
\<close>

theorem admin_release_ignores_status:
  assumes "escrow_reachable (db, ps)" and "find_account i db = Some e"
    and "released_of e < total_of e"
  shows "\<exists>e' db' row. releaseFunds w i u ''admin'' \<lparr>rf_amount = None, rf_milestoneId = None\<rparr> db = Inr (e', db') \<and>
     find_account i db' = Some row \<and> ea_status row = SETTLED \<and> released_of row = total_of e"
proof -
  have inv: "db_inv db" using reachable_sys_inv [OF assms(1)] by (simp add: sys_inv_def)
  have ok: "account_ok e" by (rule find_account_ok(1) [OF inv assms(2)])
  then have t: "toStroops (AStr (ea_amount e)) = Inr (total_of e)"
    "toStroops (AStr (ea_releasedAmount e)) = Inr (released_of e)"
    by (simp_all add: account_ok_def canonical_toStroops)
  have g: "getEscrowOrThrow i db = Inr e" using assms(2) by simp
  have "\<exists>p. release_read w i ''admin'' \<lparr>rf_amount = None, rf_milestoneId = None\<rparr> db = Inr p \<and>
      rp_releasedStroops p = released_of e"
    using assms(3) by (simp add: release_read_def g t check_release_milestone_def Let_def)
  then obtain p where p: "release_read w i ''admin'' \<lparr>rf_amount = None, rf_milestoneId = None\<rparr> db = Inr p"
    "rp_releasedStroops p = released_of e" by blast
  have "ea_releasedAmount e = fromStroops (rp_releasedStroops p)"
    using ok p(2) by (simp add: account_ok_def canonical_def)
  then have "\<exists>row \<in> set (accounts db). ea_id row = i \<and> ea_releasedAmount row = fromStroops (rp_releasedStroops p)"
    using find_account_in [OF assms(2)] by blast
  then have "\<exists>x. releaseFunds w i u ''admin'' \<lparr>rf_amount = None, rf_milestoneId = None\<rparr> db = Inr x"
    by (simp add: releaseFunds_def p(1) release_write_def Let_def)
  then obtain e' db' where r: "releaseFunds w i u ''admin'' \<lparr>rf_amount = None, rf_milestoneId = None\<rparr> db = Inr (e', db')"
    by auto
  from releaseFunds_effect [OF inv r] obtain e2 row where "find_account i db = Some e2"
    and row: "find_account i db' = Some row" "released_of row = total_of e2"
      "ea_status row = (if released_of row = total_of e2 then SETTLED else PARTIALLY_RELEASED)"
    by auto
  with assms(2) have "e2 = e" by simp
  with row r show ?thesis by auto
qed

lemma demo_reach_cancelled:
  "\<exists>ts ev. escrow_reachable (demo_db (demo_account\<lparr>ea_status := CANCELLED\<rparr>) None None ts ev, [])"
proof -
  obtain x ts ev where s1: "createEscrow (demo_env 0) (\<lambda>_. 0) demo_numeric ''alice'' ''user'' demo_dto empty_db
      = Inr (x, demo_db demo_account None None ts ev)" using demo_create by blast
  have "\<exists>x ts' ev'. cancelEscrow (demo_env 1) ''u0'' ''alice'' ''user'' (demo_db demo_account None None ts ev)
      = Inr (x, demo_db (demo_account\<lparr>ea_status := CANCELLED\<rparr>) None None ts' ev')"
    by (simp add: cancelEscrow_def assertCreatorOrAdmin_def demo_defs)
  then obtain x2 ts2 ev2 where s2: "cancelEscrow (demo_env 1) ''u0'' ''alice'' ''user'' (demo_db demo_account None None ts ev)
      = Inr (x2, demo_db (demo_account\<lparr>ea_status := CANCELLED\<rparr>) None None ts2 ev2)" by blast
  note r1 = escrow_reachable.step [OF escrow_reachable.start sys_step.handler
      [OF handler_step.create [OF s1 demo_fresh demo_numeric_ok]]]
  show ?thesis using escrow_reachable.step [OF r1 sys_step.handler [OF handler_step.cancel [OF s2]]] by blast
qed

theorem admin_release_ignores_status_witness:
  "\<exists>ts ev e' db' row. escrow_reachable (demo_db (demo_account\<lparr>ea_status := CANCELLED\<rparr>) None None ts ev, []) \<and>
     releaseFunds (demo_env 2) ''u0'' ''root'' ''admin'' \<lparr>rf_amount = None, rf_milestoneId = None\<rparr>
       (demo_db (demo_account\<lparr>ea_status := CANCELLED\<rparr>) None None ts ev) = Inr (e', db') \<and>
     find_account ''u0'' db' = Some row \<and> ea_status row = SETTLED"
proof -
  from demo_reach_cancelled obtain ts ev where
    r: "escrow_reachable (demo_db (demo_account\<lparr>ea_status := CANCELLED\<rparr>) None None ts ev, [])" by blast
  have f: "find_account ''u0'' (demo_db (demo_account\<lparr>ea_status := CANCELLED\<rparr>) None None ts ev)
      = Some (demo_account\<lparr>ea_status := CANCELLED\<rparr>)"
    by (simp add: find_account_def demo_db_def demo_account_def)
  have "released_of (demo_account\<lparr>ea_status := CANCELLED\<rparr>) < total_of (demo_account\<lparr>ea_status := CANCELLED\<rparr>)"
    by (simp add: demo_account_def stroops_of_def demo_stroops)
  from admin_release_ignores_status [OF r f this, of "demo_env 2" "''root''"] r show ?thesis by blast
qed

text \<open>
  C27. Formatting stroops and parsing them again gives back the same number, for negative
  amounts too, and the formatted strings of different amounts differ, so the string comparison
  of the guarded update compares amounts.
\<close>

theorem stroops_roundtrip:
  "toStroops (AStr (fromStroops n)) = Inr n \<and> (fromStroops m = fromStroops n \<longleftrightarrow> m = n)"
  by simp

text \<open>
  A release amount given as a number is converted to the nearest number of stroops, halves
  upwards, for every nonnegative number below \<open>10^21\<close>.
\<close>

theorem toStroops_nearest:
  assumes "0 \<le> x" and "x < 10 ^ 21"
  shows "toStroops (ANum x) = Inr \<lfloor>x * 10 ^ 7 + 1/2\<rfloor>"
  using assms by (rule toStroops_number)

theorem toStroops_nearest_witness: "toStroops (ANum 25) = Inr 250000000"
  using toStroops_nearest [of 25] by (simp add: demo_floor)

end
