(* ===== verification/JsDate.thy ===== *)
theory JsDate
  imports JsNumber
begin

text \<open>
  Dates as milliseconds since the epoch, with the UTC fields and
  \<^verbatim>\<open>toISOString\<close>, and \<^verbatim>\<open>JSON.stringify\<close> on the values the code serializes.
\<close>

datatype json =
    JNull
  | JBool bool
  | JNum number
  | JBig int
  | JStr string
  | JArr "json list"
  | JObj "(string \<times> json) list"

definition utc_hours :: "int \<Rightarrow> nat" where
  "utc_hours t = nat ((t div 3600000) mod 24)"

definition utc_day :: "int \<Rightarrow> nat" where
  "utc_day t = nat ((t div 86400000 + 4) mod 7)"

text \<open>Year, month and day of the proleptic Gregorian calendar from the number of days since the epoch.\<close>

definition civil_from_days :: "int \<Rightarrow> int \<times> int \<times> int" where
  "civil_from_days days =
     (let z = days + 719468;
          era = z div 146097;
          doe = z mod 146097;
          yoe = (doe - doe div 1460 + doe div 36524 - doe div 146096) div 365;
          doy = doe - (365 * yoe + yoe div 4 - yoe div 100);
          mp = (5 * doy + 2) div 153;
          d = doy - (153 * mp + 2) div 5 + 1;
          m = (if mp < 10 then mp + 3 else mp - 9)
      in (yoe + era * 400 + (if m \<le> 2 then 1 else 0), m, d))"

definition pad_int :: "nat \<Rightarrow> int \<Rightarrow> string" where
  "pad_int n i = pad_zeros n (int_to_string i)"

definition toISOString :: "int \<Rightarrow> string" where
  "toISOString t =
     (let (y, m, d) = civil_from_days (t div 86400000);
          ms = t mod 86400000;
          year = (if 0 \<le> y \<and> y \<le> 9999 then pad_int 4 y
                  else (if y < 0 then ''-'' else ''+'') @ pad_int 6 \<bar>y\<bar>)
      in year @ ''-'' @ pad_int 2 m @ ''-'' @ pad_int 2 d @ ''T'' @
         pad_int 2 (ms div 3600000) @ '':'' @ pad_int 2 (ms div 60000 mod 60) @ '':'' @
         pad_int 2 (ms div 1000 mod 60) @ ''.'' @ pad_int 3 (ms mod 1000) @ ''Z'')"

text \<open>
  \<^verbatim>\<open>new Date(s).getTime()\<close>: the format that \<^verbatim>\<open>toISOString\<close> writes, for years of four digits; other
  formats, which the language partly leaves to its implementations, are the parameter. \<open>None\<close> is
  \<^verbatim>\<open>NaN\<close>.
\<close>

definition days_from_civil :: "int \<Rightarrow> int \<Rightarrow> int \<Rightarrow> int" where
  "days_from_civil y m d =
     (let y = (if m \<le> 2 then y - 1 else y);
          yoe = y mod 400;
          doy = (153 * (if 2 < m then m - 3 else m + 9) + 2) div 5 + d - 1
      in (y div 400) * 146097 + yoe * 365 + yoe div 4 - yoe div 100 + doy - 719468)"

definition days_in_month :: "int \<Rightarrow> int \<Rightarrow> int" where
  "days_in_month y m =
     (if m = 12 then 31 else days_from_civil y (m + 1) 1 - days_from_civil y m 1)"

definition iso_field :: "string \<Rightarrow> nat \<Rightarrow> nat \<Rightarrow> int option" where
  "iso_field s i n = map_option int (digits_val 0 (take n (drop i s)))"

definition iso_shape :: "string \<Rightarrow> bool" where
  "iso_shape s \<longleftrightarrow> length s = 24 \<and> map (nth s) [4, 7, 10, 13, 16, 19, 23] = ''--T::.Z''"

definition parse_iso :: "string \<Rightarrow> int option" where
  "parse_iso s =
     (if \<not> iso_shape s then None else
      case (iso_field s 0 4, iso_field s 5 2, iso_field s 8 2) of
        (Some y, Some m, Some d) \<Rightarrow>
          (case (iso_field s 11 2, iso_field s 14 2, iso_field s 17 2, iso_field s 20 3) of
             (Some h, Some mi, Some sec, Some ms) \<Rightarrow>
               if 1 \<le> m \<and> m \<le> 12 \<and> 1 \<le> d \<and> d \<le> days_in_month y m \<and> h < 24 \<and> mi < 60 \<and> sec < 60
               then Some (days_from_civil y m d * 86400000 + h * 3600000 + mi * 60000 + sec * 1000 + ms) else None
           | _ \<Rightarrow> None)
      | _ \<Rightarrow> None)"

definition date_parse :: "(string \<Rightarrow> int option) \<Rightarrow> string \<Rightarrow> int option" where
  "date_parse other s = (case parse_iso s of Some t \<Rightarrow> Some t | None \<Rightarrow> other s)"

text \<open>
  Strings are quoted with the escapes of JSON. A \<^verbatim>\<open>bigint\<close>, which the serializer
  rejects, does not occur in what the code serializes.
\<close>

definition hex_digit :: "nat \<Rightarrow> char" where
  "hex_digit d = (if d < 10 then char_of (48 + d) else char_of (87 + d))"

definition json_escape :: "char \<Rightarrow> string" where
  "json_escape c =
     (let n = of_char c :: nat; bs = CHR 0x5C in
      if n = 34 \<or> n = 92 then [bs, c]
      else if n = 8 then [bs, CHR ''b''] else if n = 9 then [bs, CHR ''t'']
      else if n = 10 then [bs, CHR ''n''] else if n = 12 then [bs, CHR ''f'']
      else if n = 13 then [bs, CHR ''r'']
      else if n < 32 then [bs, CHR ''u'', CHR ''0'', CHR ''0'', hex_digit (n div 16), hex_digit (n mod 16)]
      else [c])"

definition json_quote :: "string \<Rightarrow> string" where
  "json_quote s = [CHR 0x22] @ concat (map json_escape s) @ [CHR 0x22]"

fun join_with :: "string \<Rightarrow> string list \<Rightarrow> string" where
  "join_with sep [] = []"
| "join_with sep [s] = s"
| "join_with sep (s # t # ss) = s @ sep @ join_with sep (t # ss)"

fun json_stringify :: "json \<Rightarrow> string" where
  "json_stringify JNull = ''null''"
| "json_stringify (JBool b) = (if b then ''true'' else ''false'')"
| "json_stringify (JNum x) = num_to_string x"
| "json_stringify (JBig i) = int_to_string i"
| "json_stringify (JStr s) = json_quote s"
| "json_stringify (JArr xs) = ''['' @ join_with '','' (map json_stringify xs) @ '']''"
| "json_stringify (JObj kvs) =
     ''{'' @ join_with '','' (map (\<lambda>kv. json_quote (fst kv) @ '':'' @ json_stringify (snd kv)) kvs) @ ''}''"

end
