(* ===== verification/TxTypes.thy ===== *)
theory TxTypes
  imports JsDate
begin

text \<open>
  Data of the transaction coordinator
  (\<^verbatim>\<open>src/src/modules/transaction-coordinator\<close>): the request bodies of
  \<^verbatim>\<open>dto/create-batch.dto.ts\<close> and the three entities, field for field. JSON columns are
  values of type \<open>json\<close>.
\<close>

section \<open>JSON values\<close>

text \<open>
  A decoded contract value may also be a \<^verbatim>\<open>bigint\<close> (\<open>JBig\<close>).
  \<open>truthy\<close> and \<open>to_js_string\<close> are the conversions to a condition and
  \<^verbatim>\<open>String(x)\<close>; an array is joined with commas, with nothing for a null.
\<close>

fun truthy :: "json \<Rightarrow> bool" where
  "truthy JNull = False"
| "truthy (JBool b) = b"
| "truthy (JNum x) = (x \<noteq> 0)"
| "truthy (JBig i) = (i \<noteq> 0)"
| "truthy (JStr s) = (s \<noteq> [])"
| "truthy (JArr _) = True"
| "truthy (JObj _) = True"

fun to_js_string :: "json \<Rightarrow> string" where
  "to_js_string JNull = ''null''"
| "to_js_string (JBool b) = (if b then ''true'' else ''false'')"
| "to_js_string (JNum x) = num_to_string x"
| "to_js_string (JBig i) = int_to_string i"
| "to_js_string (JStr s) = s"
| "to_js_string (JArr xs) = join_with '','' (map (\<lambda>x. if x = JNull then [] else to_js_string x) xs)"
| "to_js_string (JObj _) = ''[object Object]''"

definition truthy_str :: "string option \<Rightarrow> bool" where
  "truthy_str s = (case s of None \<Rightarrow> False | Some x \<Rightarrow> x \<noteq> [])"

section \<open>Request bodies\<close>

record conditional_leg_dto =
  cl_conditionType :: "string field"
  cl_conditionExpression :: "string field"

record swap_leg_dto =
  sl_contractId :: string
  sl_method :: string
  sl_args :: "json field"
  sl_sourceAssetCode :: string
  sl_sourceAssetIssuer :: "string field"
  sl_destAssetCode :: string
  sl_destAssetIssuer :: "string field"
  sl_amount :: number
  sl_minAmountOut :: number
  sl_maxAmountOut :: "number field"
  sl_dependencies :: "number list field"
  sl_isConditional :: "bool field"
  sl_conditional :: "conditional_leg_dto field"

record create_batch_dto =
  cb_name :: string
  cb_legs :: "swap_leg_dto list"
  cb_timeoutMs :: "number field"
  cb_metadata :: "json field"

section \<open>Entities\<close>

datatype leg_status =
    L_PENDING | L_PREPARING | L_PREPARED | L_EXECUTING | L_EXECUTED
  | L_ROLLING_BACK | L_ROLLED_BACK | L_FAILED | L_SKIPPED

datatype batch_status =
    B_CREATED | B_PREPARING | B_PREPARED | B_COMMITTING | B_COMMITTED
  | B_ROLLING_BACK | B_ROLLED_BACK | B_FAILED | B_EXPIRED

fun batch_status_str :: "batch_status \<Rightarrow> string" where
  "batch_status_str B_CREATED = ''created''"
| "batch_status_str B_PREPARING = ''preparing''"
| "batch_status_str B_PREPARED = ''prepared''"
| "batch_status_str B_COMMITTING = ''committing''"
| "batch_status_str B_COMMITTED = ''committed''"
| "batch_status_str B_ROLLING_BACK = ''rolling_back''"
| "batch_status_str B_ROLLED_BACK = ''rolled_back''"
| "batch_status_str B_FAILED = ''failed''"
| "batch_status_str B_EXPIRED = ''expired''"

datatype batch_audit_action =
    A_BATCH_CREATED | A_BATCH_PREPARE_STARTED | A_BATCH_PREPARED | A_BATCH_COMMIT_STARTED
  | A_BATCH_COMMITTED | A_BATCH_ROLLBACK_STARTED | A_BATCH_ROLLED_BACK | A_BATCH_FAILED
  | A_BATCH_EXPIRED | A_LEG_PREPARED | A_LEG_EXECUTED | A_LEG_ROLLED_BACK | A_LEG_FAILED
  | A_LEG_RETRIED | A_CONDITION_EVALUATED | A_CONSISTENCY_CHECK_PASSED
  | A_CONSISTENCY_CHECK_FAILED | A_PARTIAL_FILL_RECOVERY

record batch_leg =
  bl_id :: string
  bl_batchId :: string
  bl_orderIndex :: nat
  bl_dependencies :: "string list"
  bl_contractId :: string
  bl_method :: string
  bl_args :: json
  bl_sourceAssetCode :: string
  bl_sourceAssetIssuer :: "string option"
  bl_destAssetCode :: string
  bl_destAssetIssuer :: "string option"
  bl_amount :: string
  bl_minAmountOut :: string
  bl_maxAmountOut :: "string option"
  bl_status :: leg_status
  bl_isConditional :: bool
  bl_conditionExpression :: "string option"
  bl_conditionType :: "string option"
  bl_expectedOutput :: "string option"
  bl_actualOutput :: "string option"
  bl_stellarTxHash :: "string option"
  bl_errorMessage :: "string option"
  bl_executionMetadata :: "(string \<times> json) list option"
  bl_preparedAt :: "int option"
  bl_executedAt :: "int option"
  bl_rolledBackAt :: "int option"
  bl_retryCount :: nat

record transaction_batch =
  tb_id :: string
  tb_userId :: string
  tb_name :: string
  tb_status :: batch_status
  tb_totalLegs :: nat
  tb_preparedLegs :: nat
  tb_committedLegs :: nat
  tb_completionRate :: "string option"
  tb_sequenceNumber :: int
  tb_timeoutMs :: number
  tb_hasConditionals :: bool
  tb_resultSummary :: "(string \<times> json) list option"
  tb_errorMessage :: "string option"
  tb_metadata :: "json option"
  tb_preparedAt :: "int option"
  tb_committedAt :: "int option"
  tb_failedAt :: "int option"
  tb_expiresAt :: "number option"
  tb_createdAt :: int

record batch_audit_log =
  al_batchId :: string
  al_legId :: "string option"
  al_action :: batch_audit_action
  al_actorId :: string
  al_metadata :: "(string \<times> json) list"

end
