(* ===== verification/TxGraph.thy ===== *)
theory TxGraph
  imports TxTypes
begin

text \<open>
  The dependency graph of a batch
  (\<^verbatim>\<open>services/transaction-graph-builder.service.ts\<close>). The keys of the node map are
  always \<open>0, \<dots>, n - 1\<close>, in this order, so the map is the list of its nodes. A
  \<^verbatim>\<open>get\<close> of another key gives undefined, and reading a property of it is a
  \<open>TypeError\<close>.
\<close>

section \<open>The graph and its construction\<close>

record graph_node =
  legIndex :: nat
  dependencies :: "nat list"
  dependents :: "nat list"

record tx_graph =
  nodes :: "graph_node list"
  executionLayers :: "nat list list"
  hasCycle :: bool
  topologicalOrder :: "nat list"

definition createEmptyGraph :: "nat \<Rightarrow> tx_graph" where
  "createEmptyGraph nodeCount =
     \<lparr>nodes = map (\<lambda>i. \<lparr>legIndex = i, dependencies = [], dependents = []\<rparr>) [0..<nodeCount],
      executionLayers = [], hasCycle = False, topologicalOrder = []\<rparr>"

definition push_dependent :: "nat \<Rightarrow> graph_node \<Rightarrow> graph_node" where
  "push_dependent to node =
     (if to \<in> set (dependencies node) then node else node\<lparr>dependents := dependents node @ [to]\<rparr>)"

definition push_dependency :: "nat \<Rightarrow> graph_node \<Rightarrow> graph_node" where
  "push_dependency from node =
     (if from \<in> set (dependencies node) then node
      else node\<lparr>dependencies := dependencies node @ [from]\<rparr>)"

definition addEdge :: "tx_graph \<Rightarrow> nat \<Rightarrow> nat \<Rightarrow> tx_graph result" where
  "addEdge graph from to =
     (if length (nodes graph) \<le> from \<or> length (nodes graph) \<le> to
      then Inl (TypeError ''Cannot read properties of undefined'')
      else let ns = (nodes graph)[from := push_dependent to (nodes graph ! from)]
           in Inr (graph\<lparr>nodes := ns[to := push_dependency from (ns ! to)]\<rparr>))"

definition hasImplicitDependency :: "swap_leg_dto \<Rightarrow> swap_leg_dto \<Rightarrow> bool" where
  "hasImplicitDependency current previous \<longleftrightarrow>
     sl_sourceAssetCode current = sl_destAssetCode previous \<and>
     sl_sourceAssetIssuer current = sl_destAssetIssuer previous"

text \<open>
  The two inner loops of \<open>buildGraphFromDtos\<close> for leg \<open>i\<close>: the explicit
  dependencies, which are JavaScript numbers (a fraction passes the range check and finds no
  node), and the implicit ones on earlier legs.
\<close>

fun add_explicit :: "nat \<Rightarrow> nat \<Rightarrow> number list \<Rightarrow> tx_graph \<Rightarrow> tx_graph result" where
  "add_explicit n i [] g = Inr g"
| "add_explicit n i (d # ds) g =
     (if d < 0 \<or> of_nat n \<le> d
      then Inl (BadRequest (''Leg '' @ nat_to_string i @ '' has invalid dependency index '' @ num_to_string d))
      else if d = of_nat i
      then Inl (BadRequest (''Leg '' @ nat_to_string i @ '' cannot depend on itself''))
      else if of_int \<lfloor>d\<rfloor> \<noteq> d
      then Inl (TypeError ''Cannot read properties of undefined'')
      else rbind (addEdge g (nat \<lfloor>d\<rfloor>) i) (add_explicit n i ds))"

fun add_implicit :: "swap_leg_dto list \<Rightarrow> nat \<Rightarrow> nat list \<Rightarrow> tx_graph \<Rightarrow> tx_graph result" where
  "add_implicit legs i [] g = Inr g"
| "add_implicit legs i (j # js) g =
     (if hasImplicitDependency (legs ! i) (legs ! j)
      then rbind (addEdge g j i) (add_implicit legs i js)
      else add_implicit legs i js g)"

fun add_dto_edges :: "swap_leg_dto list \<Rightarrow> nat list \<Rightarrow> tx_graph \<Rightarrow> tx_graph result" where
  "add_dto_edges legs [] g = Inr g"
| "add_dto_edges legs (i # is) g =
     rbind (case field_opt (sl_dependencies (legs ! i)) of
              None \<Rightarrow> Inr g
            | Some ds \<Rightarrow> add_explicit (length legs) i ds g)
       (\<lambda>g. rbind (add_implicit legs i [0..<i] g) (add_dto_edges legs is))"

section \<open>Topological sort\<close>

text \<open>
  The loop over the dependents of one node. \<open>None\<close> is the TypeError the sort ends in when
  a dependent is not a node: it would be pushed (its missing in-degree counts as 1) and then
  not found.
\<close>

fun relax :: "nat list \<Rightarrow> int list \<Rightarrow> nat list \<Rightarrow> (int list \<times> nat list) option" where
  "relax [] inDegree queue = Some (inDegree, queue)"
| "relax (d # ds) inDegree queue =
     (if length inDegree \<le> d then None
      else let newDegree = inDegree ! d - 1
           in relax ds (inDegree[d := newDegree]) (if newDegree = 0 then queue @ [d] else queue))"

definition positives :: "int list \<Rightarrow> nat" where
  "positives xs = length (filter (\<lambda>x. 0 < x) xs)"

lemma positives_update:
  "d < length D \<Longrightarrow> positives (D[d := x]) + (if 0 < D ! d then 1 else 0) = positives D + (if 0 < x then 1 else 0)"
proof (induction D arbitrary: d)
  case Nil
  then show ?case by simp
next
  case (Cons a D)
  then show ?case by (cases d) (auto simp: positives_def split: if_splits)
qed

lemma relax_measure:
  "relax ds D q = Some (D', q') \<Longrightarrow> length q' + positives D' \<le> length q + positives D"
proof (induction ds D q arbitrary: D' q' rule: relax.induct)
  case (1 D q)
  then show ?case by simp
next
  case (2 d ds D q)
  let ?x = "D ! d - 1"
  from "2.prems" have d: "d < length D"
    and r: "relax ds (D[d := ?x]) (if ?x = 0 then q @ [d] else q) = Some (D', q')"
    by (auto simp: Let_def split: if_splits)
  from "2.IH" [of ?x, OF _ refl] d r
  have "length q' + positives D' \<le> length (if ?x = 0 then q @ [d] else q) + positives (D[d := ?x])" by simp
  with positives_update [OF d, of ?x] show ?case by (auto split: if_splits)
qed

function kahn :: "graph_node list \<Rightarrow> nat list \<Rightarrow> int list \<Rightarrow> nat list \<Rightarrow> nat list result" where
  "kahn ns [] inDegree res = Inr res"
| "kahn ns (current # queue) inDegree res =
     (if length ns \<le> current then Inl (TypeError ''Cannot read properties of undefined'')
      else case relax (dependents (ns ! current)) inDegree queue of
             None \<Rightarrow> Inl (TypeError ''Cannot read properties of undefined'')
           | Some (inDegree', queue') \<Rightarrow> kahn ns queue' inDegree' (res @ [current]))"
  by pat_completeness auto

termination
  by (relation "measure (\<lambda>(ns, q, D, r). length q + positives D)") (auto dest: relax_measure)

definition topologicalSort :: "tx_graph \<Rightarrow> (nat list \<times> tx_graph) result" where
  "topologicalSort graph =
     (let inDegree = map (\<lambda>node. int (length (dependencies node))) (nodes graph);
          queue = filter (\<lambda>i. dependencies (nodes graph ! i) = []) [0..<length (nodes graph)]
      in rbind (kahn (nodes graph) queue inDegree [])
           (\<lambda>res. Inr (res, if length res < length (nodes graph) then graph\<lparr>hasCycle := True\<rparr> else graph)))"

section \<open>Execution layers\<close>

text \<open>
  \<^verbatim>\<open>layerMap\<close> is a map in insertion order; \<open>put_layer\<close> pushes a leg to
  its layer. A hole in the array of layers would be an empty layer here; \<open>layers_nonempty\<close>
  below shows that there is none.
\<close>

definition layer_of :: "graph_node list \<Rightarrow> (nat \<times> nat) list \<Rightarrow> nat \<Rightarrow> nat" where
  "layer_of ns layerMap i =
     (if dependencies (ns ! i) = [] then 0
      else Max (set (map (\<lambda>dep. case map_of layerMap dep of None \<Rightarrow> 0 | Some l \<Rightarrow> l) (dependencies (ns ! i)))) + 1)"

fun assign_layers :: "graph_node list \<Rightarrow> nat list \<Rightarrow> (nat \<times> nat) list \<Rightarrow> (nat \<times> nat) list" where
  "assign_layers ns [] layerMap = layerMap"
| "assign_layers ns (i # is) layerMap = assign_layers ns is (map_set i (layer_of ns layerMap i) layerMap)"

definition put_layer :: "nat \<Rightarrow> nat \<Rightarrow> nat list list \<Rightarrow> nat list list" where
  "put_layer l i layers =
     (if l < length layers then layers[l := layers ! l @ [i]]
      else layers @ replicate (l - length layers) [] @ [[i]])"

definition buildExecutionLayers :: "graph_node list \<Rightarrow> nat list \<Rightarrow> nat list list" where
  "buildExecutionLayers ns order = foldl (\<lambda>layers (i, l). put_layer l i layers) [] (assign_layers ns order [])"

definition finish_graph :: "nat \<Rightarrow> tx_graph \<Rightarrow> tx_graph result" where
  "finish_graph n graph =
     rbind (topologicalSort graph) (\<lambda>(order, graph).
       if length order < n then Inl (BadRequest ''Cycle detected in transaction dependency graph'')
       else Inr (graph\<lparr>executionLayers := buildExecutionLayers (nodes graph) order, topologicalOrder := order\<rparr>))"

definition buildGraphFromDtos :: "swap_leg_dto list \<Rightarrow> tx_graph result" where
  "buildGraphFromDtos legs =
     rbind (add_dto_edges legs [0..<length legs] (createEmptyGraph (length legs)))
       (finish_graph (length legs))"

text \<open>\<^verbatim>\<open>legs.findIndex(p)\<close>.\<close>

definition find_index :: "('a \<Rightarrow> bool) \<Rightarrow> 'a list \<Rightarrow> nat option" where
  "find_index p xs = find (\<lambda>i. p (xs ! i)) [0..<length xs]"

fun add_leg_deps :: "batch_leg list \<Rightarrow> nat \<Rightarrow> string list \<Rightarrow> tx_graph \<Rightarrow> tx_graph result" where
  "add_leg_deps legs i [] g = Inr g"
| "add_leg_deps legs i (depId # ds) g =
     (case find_index (\<lambda>l. bl_id l = depId) legs of
        None \<Rightarrow> add_leg_deps legs i ds g
      | Some depIndex \<Rightarrow> rbind (addEdge g depIndex i) (add_leg_deps legs i ds))"

fun add_leg_edges :: "batch_leg list \<Rightarrow> nat list \<Rightarrow> tx_graph \<Rightarrow> tx_graph result" where
  "add_leg_edges legs [] g = Inr g"
| "add_leg_edges legs (i # is) g =
     rbind (add_leg_deps legs i (bl_dependencies (legs ! i)) g) (add_leg_edges legs is)"

definition buildGraphFromLegs :: "batch_leg list \<Rightarrow> tx_graph result" where
  "buildGraphFromLegs legs =
     rbind (add_leg_edges legs [0..<length legs] (createEmptyGraph (length legs)))
       (finish_graph (length legs))"

section \<open>Queries\<close>

definition validateGraph :: "tx_graph \<Rightarrow> bool \<times> string list" where
  "validateGraph graph =
     (let errors = (if hasCycle graph then [''Graph contains a cycle''] else []) @
            (if topologicalOrder graph = [] then [''Graph has no valid topological order''] else []) @
            concat (map (\<lambda>index. map (\<lambda>dep. ''Leg '' @ nat_to_string index @ '' depends on non-existent leg '' @ nat_to_string dep)
                                  (filter (\<lambda>dep. length (nodes graph) \<le> dep) (dependencies (nodes graph ! index))))
                     [0..<length (nodes graph)])
      in (errors = [], errors))"

definition getReadyLegs :: "tx_graph \<Rightarrow> nat list \<Rightarrow> nat list \<Rightarrow> nat list" where
  "getReadyLegs graph completedLegs failedLegs =
     filter (\<lambda>i. i \<notin> set completedLegs \<and> i \<notin> set failedLegs \<and>
                 (\<forall>dep \<in> set (dependencies (nodes graph ! i)). dep \<in> set completedLegs))
       [0..<length (nodes graph)]"

end
