(* ===== verification/TxRetry.thy ===== *)
theory TxRetry
  imports JsNumber
begin

text \<open>
  Retries with exponential backoff and jitter (\<^verbatim>\<open>services/retry-logic.service.ts\<close>).
  The operation is the sequence of outcomes of its calls, \<^verbatim>\<open>Math.random()\<close> and the
  clock are sequences of values; the loop returns the outcome, the number of calls made and the
  retry history.
\<close>

section \<open>Errors\<close>

record js_error =
  err_name :: string
  err_message :: string

text \<open>A thrown value: an \<^verbatim>\<open>Error\<close>, or something else with its string form.\<close>

datatype thrown = ThrownError js_error | ThrownOther string

fun as_error :: "thrown \<Rightarrow> js_error" where
  "as_error (ThrownError e) = e"
| "as_error (ThrownOther s) = \<lparr>err_name = ''Error'', err_message = s\<rparr>"

definition retryablePatterns :: "string list" where
  "retryablePatterns = [''timeout'', ''timed out'', ''econnrefused'', ''econnreset'', ''enotfound'',
     ''network'', ''socket'', ''fetch failed'', ''getaddrinfo'', ''service unavailable'',
     ''bad gateway'', ''gateway timeout'', ''request failed with status code 429'', ''rate limit'',
     ''too many requests'', ''resource temporarily unavailable'', ''eagain'', ''econnaborted'']"

definition retryableNames :: "string list" where
  "retryableNames = [''networkerror'', ''timeouterror'', ''fetcherror'', ''systemerror'']"

definition isRetryableError :: "js_error \<Rightarrow> bool" where
  "isRetryableError error =
     (let message = to_lower (err_message error);
          name = to_lower (err_name error)
      in if list_ex (\<lambda>p. str_includes message p) retryablePatterns then True
         else if str_includes message ''status code 5'' then True
         else if list_ex (\<lambda>n. str_includes name n) retryableNames then True
         else False)"

section \<open>The loop\<close>

record retry_config =
  maxRetries :: number
  baseDelayMs :: number
  maxDelayMs :: number
  jitterFactor :: number

definition DEFAULT_RETRY_CONFIG :: retry_config where
  "DEFAULT_RETRY_CONFIG =
     \<lparr>maxRetries = 3, baseDelayMs = 1000, maxDelayMs = 30000, jitterFactor = fl (3 / 10)\<rparr>"

definition calculateDelay :: "nat \<Rightarrow> retry_config \<Rightarrow> number \<Rightarrow> int" where
  "calculateDelay attempt config random =
     (let exponentialDelay = num_mul (baseDelayMs config) (2 ^ attempt);
          cappedDelay = min exponentialDelay (maxDelayMs config);
          jitterRange = num_mul cappedDelay (jitterFactor config);
          jitter = num_mul random jitterRange
      in math_round (num_add cappedDelay jitter))"

record retry_attempt =
  attemptNumber :: nat
  delayMs :: int
  ra_error :: js_error
  ra_timestamp :: int

text \<open>\<open>Inl None\<close> is \<^verbatim>\<open>throw undefined\<close>, when no attempt was made.\<close>

record 'a retry_outcome =
  ro_result :: "js_error option + 'a"
  ro_calls :: nat
  ro_history :: "retry_attempt list"

function retry_loop ::
  "retry_config \<Rightarrow> (nat \<Rightarrow> thrown + 'a) \<Rightarrow> (nat \<Rightarrow> number) \<Rightarrow> (nat \<Rightarrow> int) \<Rightarrow>
   nat \<Rightarrow> retry_attempt list \<Rightarrow> js_error option \<Rightarrow> 'a retry_outcome" where
  "retry_loop config operation random clock attempt retryHistory lastError =
     (if maxRetries config < of_nat attempt
      then \<lparr>ro_result = Inl lastError, ro_calls = attempt, ro_history = retryHistory\<rparr>
      else case operation attempt of
        Inr r \<Rightarrow> \<lparr>ro_result = Inr r, ro_calls = Suc attempt, ro_history = retryHistory\<rparr>
      | Inl error \<Rightarrow>
          let lastError = as_error error
          in if \<not> isRetryableError lastError \<or> of_nat attempt = maxRetries config
             then \<lparr>ro_result = Inl (Some lastError), ro_calls = Suc attempt, ro_history = retryHistory\<rparr>
             else let delay = calculateDelay attempt config (random attempt)
                  in retry_loop config operation random clock (Suc attempt)
                       (retryHistory @ [\<lparr>attemptNumber = attempt + 1, delayMs = delay,
                          ra_error = lastError, ra_timestamp = clock attempt\<rparr>])
                       (Some lastError))"
  by pat_completeness auto

termination
proof (relation "measure (\<lambda>(config, _, _, _, attempt, _, _). nat (\<lfloor>maxRetries config\<rfloor> + 1) - attempt)")
  fix config :: retry_config and attempt :: nat
  assume "\<not> maxRetries config < of_nat attempt"
  then have "int attempt \<le> \<lfloor>maxRetries config\<rfloor>" by (simp add: le_floor_iff)
  then have "nat (\<lfloor>maxRetries config\<rfloor> + 1) - Suc attempt < nat (\<lfloor>maxRetries config\<rfloor> + 1) - attempt" by linarith
  then show "((config, operation, random, clock, Suc attempt, h', l'), (config, operation, random, clock, attempt, h, l))
      \<in> measure (\<lambda>(config, _, _, _, attempt, _, _). nat (\<lfloor>maxRetries config\<rfloor> + 1) - attempt)"
    for operation :: "nat \<Rightarrow> thrown + 'a" and random :: "nat \<Rightarrow> number" and clock :: "nat \<Rightarrow> int"
      and h h' :: "retry_attempt list" and l l' :: "js_error option" by simp
qed simp

declare retry_loop.simps [simp del]

text \<open>The configuration the caller passes overrides the defaults field by field.\<close>

record partial_retry_config =
  p_maxRetries :: "number option"
  p_baseDelayMs :: "number option"
  p_maxDelayMs :: "number option"
  p_jitterFactor :: "number option"

definition full_config :: "partial_retry_config \<Rightarrow> retry_config" where
  "full_config config =
     \<lparr>maxRetries = (case p_maxRetries config of Some x \<Rightarrow> x | None \<Rightarrow> maxRetries DEFAULT_RETRY_CONFIG),
      baseDelayMs = (case p_baseDelayMs config of Some x \<Rightarrow> x | None \<Rightarrow> baseDelayMs DEFAULT_RETRY_CONFIG),
      maxDelayMs = (case p_maxDelayMs config of Some x \<Rightarrow> x | None \<Rightarrow> maxDelayMs DEFAULT_RETRY_CONFIG),
      jitterFactor = (case p_jitterFactor config of Some x \<Rightarrow> x | None \<Rightarrow> jitterFactor DEFAULT_RETRY_CONFIG)\<rparr>"

definition executeWithRetry ::
  "(nat \<Rightarrow> thrown + 'a) \<Rightarrow> partial_retry_config \<Rightarrow> (nat \<Rightarrow> number) \<Rightarrow> (nat \<Rightarrow> int) \<Rightarrow> 'a retry_outcome" where
  "executeWithRetry operation config random clock =
     retry_loop (full_config config) operation random clock 0 [] None"

record retry_summary =
  rs_totalAttempts :: nat
  rs_totalDelayMs :: number
  rs_errors :: "string list"
  rs_duration :: int

definition getRetrySummary :: "retry_attempt list \<Rightarrow> retry_summary" where
  "getRetrySummary retryHistory =
     \<lparr>rs_totalAttempts = length retryHistory,
      rs_totalDelayMs = foldl (\<lambda>sum r. num_add sum (of_int (delayMs r))) 0 retryHistory,
      rs_errors = map (\<lambda>r. err_message (ra_error r)) retryHistory,
      rs_duration = (if retryHistory \<noteq> []
        then ra_timestamp (last retryHistory) - ra_timestamp (hd retryHistory) else 0)\<rparr>"

section \<open>Bounds of the delay\<close>

lemma fl_between_nats:
  assumes "of_nat a \<le> x" and "x \<le> of_nat b" and "b < 2 ^ 53"
  shows "of_nat a \<le> fl x" and "fl x \<le> of_nat b"
proof -
  have "of_nat a \<le> (of_nat b :: rat)" using assms(1,2) by (rule order_trans)
  then have "a < 2 ^ 53" using assms(3) by simp
  then show "of_nat a \<le> fl x" using fl_mono [OF assms(1)] fl_of_nat_exact by metis
  show "fl x \<le> of_nat b" using fl_mono [OF assms(2)] fl_of_nat_exact [OF assms(3)] by metis
qed

lemma math_round_between:
  assumes "of_nat a \<le> x" and "x \<le> of_nat b"
  shows "int a \<le> math_round x" and "math_round x \<le> int b"
  using assms unfolding math_round_def by (simp_all add: le_floor_iff floor_le_iff)

text \<open>
  With whole base and maximum delays, a jitter of at most \<open>j\<close> milliseconds at the cap
  and a random value between 0 and 1, the delay before retry number \<open>attempt + 1\<close> is at
  least the capped exponential delay and at most \<open>j\<close> more, in spite of the rounding of the
  floating-point operations.
\<close>

theorem calculateDelay_bounds:
  assumes "baseDelayMs config = of_nat b" and "maxDelayMs config = of_nat m"
    and "0 \<le> jitterFactor config" and "of_nat m * jitterFactor config \<le> of_nat j"
    and "m + j < 2 ^ 53" and "0 \<le> random" and "random \<le> 1"
  shows "int (min (b * 2 ^ attempt) m) \<le> calculateDelay attempt config random \<and>
    calculateDelay attempt config random \<le> int (min (b * 2 ^ attempt) m + j)"
proof -
  define c where "c = min (b * 2 ^ attempt) m"
  have m: "m < 2 ^ 53" using assms(5) by simp
  have cap: "min (num_mul (of_nat b) (2 ^ attempt)) (of_nat m) = (of_nat c :: rat)"
  proof (cases "b * 2 ^ attempt \<le> m")
    case True
    then have "fl (of_nat (b * 2 ^ attempt)) = of_nat (b * 2 ^ attempt)" using m by (intro fl_of_nat_exact) simp
    then have "num_mul (of_nat b) (2 ^ attempt) = of_nat (b * 2 ^ attempt)"
      by (simp only: num_mul_def of_nat_mult of_nat_power of_nat_numeral)
    then show ?thesis using True unfolding c_def by (metis min_absorb1 of_nat_le_iff)
  next
    case False
    then have "(of_nat m :: rat) \<le> of_nat (b * 2 ^ attempt)" by (simp only: of_nat_le_iff)
    then have "fl (of_nat m) \<le> fl (of_nat (b * 2 ^ attempt))" by (rule fl_mono)
    then have "of_nat m \<le> num_mul (of_nat b) (2 ^ attempt)"
      using fl_of_nat_exact [OF m] by (simp add: num_mul_def)
    then show ?thesis using False unfolding c_def by simp
  qed
  define jr where "jr = num_mul (of_nat c) (jitterFactor config)"
  define jit where "jit = num_mul random jr"
  have j: "j < 2 ^ 53" using assms(5) by simp
  have "of_nat c * jitterFactor config \<le> of_nat m * jitterFactor config"
    using assms(3) by (intro mult_right_mono) (auto simp: c_def)
  with assms(4) have "of_nat c * jitterFactor config \<le> of_nat j" by linarith
  then have jr: "0 \<le> jr" "jr \<le> of_nat j"
    using fl_between_nats [of 0 "of_nat c * jitterFactor config" j] j assms(3) by (auto simp: jr_def num_mul_def)
  have "random * jr \<le> 1 * jr" using jr(1) assms(7) by (rule mult_right_mono [rotated])
  then have jit: "0 \<le> jit" "jit \<le> of_nat j"
    using fl_between_nats [of 0 "random * jr" j] jr j assms(6) by (auto simp: jit_def num_mul_def)
  have cj: "c + j < 2 ^ 53" using assms(5) by (simp add: c_def)
  have "of_nat c \<le> num_add (of_nat c) jit" "num_add (of_nat c) jit \<le> of_nat (c + j)"
    using fl_between_nats [of c "of_nat c + jit" "c + j"] cj jit by (auto simp: num_add_def)
  from math_round_between [OF this] show ?thesis
    using cap assms(1,2) by (simp add: calculateDelay_def Let_def c_def [symmetric] jr_def [symmetric] jit_def [symmetric])
qed

lemma default_jitter_value: "fl (3 / 10) = 5404319552844595 / 18014398509481984"
proof -
  have q: "quotient_of (3 / 10) = (3, 10)" by code_simp
  have l: "floorlog 2 3 = 2" "floorlog 2 10 = 4" by code_simp+
  have e: "expo (3 / 10) = - 2" by (simp add: expo_def q l power_int_minus)
  have "\<lfloor>27021597764222976 / (5 :: rat)\<rfloor> = 5404319552844595" by (rule floor_unique) simp_all
  then have "rhe (27021597764222976 / 5) = 5404319552844595" by (simp add: rhe_def Let_def)
  then show ?thesis by (simp add: fl_def ulp_def e power_int_minus field_simps)
qed

lemma default_jitter: "0 \<le> fl (3 / 10)" "of_nat 30000 * fl (3 / 10) \<le> of_nat 9000"
  by (simp_all add: default_jitter_value)

theorem calculateDelay_bounds_witness:
  "4000 \<le> calculateDelay 2 DEFAULT_RETRY_CONFIG (1 / 2) \<and> calculateDelay 2 DEFAULT_RETRY_CONFIG (1 / 2) \<le> 13000"
  using calculateDelay_bounds [of DEFAULT_RETRY_CONFIG 1000 30000 9000 "1 / 2" 2] default_jitter
  by (simp add: DEFAULT_RETRY_CONFIG_def)

section \<open>The retry loop\<close>

definition retry_fails :: "(nat \<Rightarrow> thrown + 'a) \<Rightarrow> nat \<Rightarrow> bool" where
  "retry_fails operation i = (case operation i of Inl e \<Rightarrow> isRetryableError (as_error e) | Inr _ \<Rightarrow> False)"

lemma retry_loop_stops:
  assumes "maxRetries config = of_nat n" and "k \<le> n" and "attempt \<le> k"
    and "\<And>i. attempt \<le> i \<Longrightarrow> i < k \<Longrightarrow> retry_fails operation i"
    and "k = n \<or> \<not> retry_fails operation k"
  shows "\<exists>h. retry_loop config operation random clock attempt hist lastError =
      \<lparr>ro_result = map_sum (\<lambda>e. Some (as_error e)) (\<lambda>r. r) (operation k), ro_calls = Suc k, ro_history = hist @ h\<rparr> \<and>
      map attemptNumber h = [attempt + 1..<k + 1] \<and>
      map delayMs h = map (\<lambda>i. calculateDelay i config (random i)) [attempt..<k]"
  using assms(3,4)
proof (induction "k - attempt" arbitrary: attempt hist lastError)
  case 0
  then have [simp]: "attempt = k" by simp
  from assms(1,2,5) show ?case
    by (subst retry_loop.simps)
      (auto simp: retry_fails_def Let_def split: sum.splits)
next
  case (Suc d)
  then have a: "attempt < k" and f: "retry_fails operation attempt" by auto
  then obtain e where e: "operation attempt = Inl e" "isRetryableError (as_error e)"
    by (auto simp: retry_fails_def split: sum.splits)
  let ?a = "\<lparr>attemptNumber = attempt + 1, delayMs = calculateDelay attempt config (random attempt),
    ra_error = as_error e, ra_timestamp = clock attempt\<rparr>"
  have "retry_loop config operation random clock attempt hist lastError =
      retry_loop config operation random clock (Suc attempt) (hist @ [?a]) (Some (as_error e))"
    using a e assms(1,2) by (subst retry_loop.simps) (simp add: Let_def)
  moreover have IH: "\<exists>h. retry_loop config operation random clock (Suc attempt) (hist @ [?a]) (Some (as_error e)) =
      \<lparr>ro_result = map_sum (\<lambda>e. Some (as_error e)) (\<lambda>r. r) (operation k), ro_calls = Suc k, ro_history = (hist @ [?a]) @ h\<rparr> \<and>
      map attemptNumber h = [Suc attempt + 1..<k + 1] \<and>
      map delayMs h = map (\<lambda>i. calculateDelay i config (random i)) [Suc attempt..<k]"
    by (rule Suc.hyps(1)) (use Suc.hyps(2) Suc.prems a in auto)
  moreover obtain h where "retry_loop config operation random clock (Suc attempt) (hist @ [?a]) (Some (as_error e)) =
      \<lparr>ro_result = map_sum (\<lambda>e. Some (as_error e)) (\<lambda>r. r) (operation k), ro_calls = Suc k, ro_history = (hist @ [?a]) @ h\<rparr>"
      "map attemptNumber h = [Suc attempt + 1..<k + 1]"
      "map delayMs h = map (\<lambda>i. calculateDelay i config (random i)) [Suc attempt..<k]"
    using IH by blast
  moreover have "[attempt + 1..<k + 1] = (attempt + 1) # [Suc attempt + 1..<k + 1]"
    "[attempt..<k] = attempt # [Suc attempt..<k]" using a by (simp_all add: upt_conv_Cons)
  ultimately show ?case by (intro exI [of _ "?a # h"]) simp
qed

lemma first_stop: "\<exists>k \<le> (n :: nat). (\<forall>i < k. P i) \<and> (k = n \<or> \<not> P k)"
proof (cases "\<exists>i \<le> n. \<not> P i")
  case True
  define k where "k = (LEAST i. \<not> P i)"
  from True obtain i where i: "i \<le> n" "\<not> P i" by blast
  have "\<not> P k" unfolding k_def using i(2) by (rule LeastI [of "\<lambda>i. \<not> P i"])
  moreover have "k \<le> n" unfolding k_def using i Least_le [of "\<lambda>i. \<not> P i" i] by simp
  moreover have "\<forall>i < k. P i" unfolding k_def using not_less_Least by blast
  ultimately show ?thesis by blast
next
  case False
  then show ?thesis by (intro exI [of _ n]) auto
qed

text \<open>
  With \<open>n\<close> retries the operation is called at most \<open>n + 1\<close> times: it is called
  again after each retryable failure until a call succeeds, fails for good or is the last, and
  the outcome of that call is the outcome of the whole. The waits in between are those of
  \<open>calculateDelay\<close>.
\<close>

theorem executeWithRetry_spec:
  assumes "maxRetries (full_config config) = of_nat n"
  shows "\<exists>k \<le> n. (\<forall>i < k. retry_fails operation i) \<and> (k = n \<or> \<not> retry_fails operation k) \<and>
    (let out = executeWithRetry operation config random clock
     in ro_result out = map_sum (\<lambda>e. Some (as_error e)) (\<lambda>r. r) (operation k) \<and> ro_calls out = k + 1 \<and>
        map attemptNumber (ro_history out) = [1..<k + 1] \<and>
        map delayMs (ro_history out) = map (\<lambda>i. calculateDelay i (full_config config) (random i)) [0..<k])"
proof -
  obtain k where k: "k \<le> n" "\<forall>i < k. retry_fails operation i" "k = n \<or> \<not> retry_fails operation k"
    using first_stop [of n "retry_fails operation"] by blast
  from retry_loop_stops [OF assms k(1) le0 _ k(3), of random clock "[]" None] k(2)
  obtain h where "executeWithRetry operation config random clock =
      \<lparr>ro_result = map_sum (\<lambda>e. Some (as_error e)) (\<lambda>r. r) (operation k), ro_calls = Suc k, ro_history = h\<rparr>"
    "map attemptNumber h = [1..<k + 1]" "map delayMs h = map (\<lambda>i. calculateDelay i (full_config config) (random i)) [0..<k]"
    by (auto simp: executeWithRetry_def)
  with k show ?thesis by (intro exI [of _ k]) (simp add: Let_def)
qed

text \<open>A call that times out once and then succeeds, with the settings of the prepare phase.\<close>

definition demo_retry :: partial_retry_config where
  "demo_retry = \<lparr>p_maxRetries = Some 2, p_baseDelayMs = Some 500, p_maxDelayMs = None, p_jitterFactor = None\<rparr>"

definition demo_operation :: "nat \<Rightarrow> thrown + nat" where
  "demo_operation i = (if i = 0 then Inl (ThrownOther ''Request timeout'') else Inr 7)"

lemma demo_operation_fails: "retry_fails demo_operation 0" "\<not> retry_fails demo_operation (Suc i)"
proof -
  have "isRetryableError \<lparr>err_name = ''Error'', err_message = ''Request timeout''\<rparr>" by code_simp
  then show "retry_fails demo_operation 0" by (simp add: retry_fails_def demo_operation_def)
  show "\<not> retry_fails demo_operation (Suc i)" by (simp add: retry_fails_def demo_operation_def)
qed

theorem executeWithRetry_spec_witness:
  "ro_result (executeWithRetry demo_operation demo_retry (\<lambda>_. 0) (\<lambda>_. 0)) = Inr 7 \<and>
   ro_calls (executeWithRetry demo_operation demo_retry (\<lambda>_. 0) (\<lambda>_. 0)) = 2"
proof -
  have "maxRetries (full_config demo_retry) = of_nat 2" by (simp add: full_config_def demo_retry_def)
  from executeWithRetry_spec [OF this, of demo_operation "\<lambda>_. 0" "\<lambda>_. 0"]
  obtain k where k: "k \<le> 2" "\<forall>i < k. retry_fails demo_operation i" "k = 2 \<or> \<not> retry_fails demo_operation k"
    "ro_result (executeWithRetry demo_operation demo_retry (\<lambda>_. 0) (\<lambda>_. 0)) =
       map_sum (\<lambda>e. Some (as_error e)) (\<lambda>r. r) (demo_operation k)"
    "ro_calls (executeWithRetry demo_operation demo_retry (\<lambda>_. 0) (\<lambda>_. 0)) = k + 1" by (auto simp: Let_def)
  have "k \<noteq> 0" using k(3) demo_operation_fails(1) by (cases k) auto
  moreover have "k \<noteq> 2" using k(2) demo_operation_fails(2) [of 0] by auto
  ultimately have "k = 1" using k(1) by simp
  with k(4,5) show ?thesis by (simp add: demo_operation_def)
qed

end
