(* ===== verification/TxCheck.thy ===== *)
theory TxCheck
  imports TxTypes
begin

text \<open>
  The consistency checks around the phases of a batch
  (\<^verbatim>\<open>services/state-consistency-checker.service.ts\<close>) and the evaluation of the condition of a
  leg. A comparison with \<^verbatim>\<open>NaN\<close> (\<open>None\<close>) is false.
\<close>

section \<open>Results\<close>

datatype severity = Critical | Warning | Info

record check_detail =
  cd_name :: string
  cd_passed :: bool
  cd_message :: string
  cd_severity :: severity

record consistency_check_result =
  cc_passed :: bool
  cc_checks :: "check_detail list"
  cc_timestamp :: int

definition buildResult :: "int \<Rightarrow> check_detail list \<Rightarrow> consistency_check_result" where
  "buildResult t checks =
     \<lparr>cc_passed = list_all (\<lambda>c. if cd_severity c = Critical then cd_passed c else True) checks,
      cc_checks = checks, cc_timestamp = t\<rparr>"

definition num_lt :: "number option \<Rightarrow> number option \<Rightarrow> bool" where
  "num_lt a b = (case (a, b) of (Some x, Some y) \<Rightarrow> x < y | _ \<Rightarrow> False)"

definition num_le :: "number option \<Rightarrow> number option \<Rightarrow> bool" where
  "num_le a b = (case (a, b) of (Some x, Some y) \<Rightarrow> x \<le> y | _ \<Rightarrow> False)"

definition parse_opt :: "string option \<Rightarrow> number option" where
  "parse_opt s = Option.bind s parse_float"

text \<open>A check that passes when no leg is on the list of offenders.\<close>

definition none_check :: "string \<Rightarrow> severity \<Rightarrow> string \<Rightarrow> string \<Rightarrow> batch_leg list \<Rightarrow> check_detail" where
  "none_check name sev ok bad offenders =
     \<lparr>cd_name = name, cd_passed = (offenders = []),
      cd_message = (if offenders = [] then ok else nat_to_string (length offenders) @ bad),
      cd_severity = sev\<rparr>"

section \<open>Before the prepare phase\<close>

fun dup_scan :: "string list \<Rightarrow> string list \<Rightarrow> bool" where
  "dup_scan depsSet [] = False"
| "dup_scan depsSet (k # ks) = (if k \<in> set depsSet then True else dup_scan (k # depsSet) ks)"

definition dep_keys :: "batch_leg list \<Rightarrow> string list" where
  "dep_keys legs = concat (map (\<lambda>leg. map (\<lambda>dep. bl_id leg @ ''-'' @ dep) (bl_dependencies leg)) legs)"

definition checkPreExecution :: "int \<Rightarrow> transaction_batch \<Rightarrow> batch_leg list \<Rightarrow> consistency_check_result" where
  "checkPreExecution t batch legs =
     (let conditionalLegs = filter bl_isConditional legs;
          hasDupDeps = dup_scan [] (dep_keys legs)
      in buildResult t
       [\<lparr>cd_name = ''batch_status'',
         cd_passed = (tb_status batch = B_CREATED \<or> tb_status batch = B_PREPARING),
         cd_message = ''Batch status is '' @ [CHR 0x27] @ batch_status_str (tb_status batch) @ [CHR 0x27] @
           '', expected '' @ [CHR 0x27] @ ''created'' @ [CHR 0x27] @ '' or '' @ [CHR 0x27] @ ''preparing'' @ [CHR 0x27],
         cd_severity = Critical\<rparr>,
        none_check ''legs_pending'' Critical ''All legs are in pending status'' '' legs are not in pending status''
          (filter (\<lambda>l. bl_status l \<noteq> L_PENDING) legs),
        none_check ''positive_amounts'' Critical ''All amounts are positive'' '' legs have non-positive amounts''
          (filter (\<lambda>l. num_le (parse_float (bl_amount l)) (Some 0)) legs),
        none_check ''min_amount_out_bounds'' Warning ''All minAmountOut values are within bounds'' '' legs have minAmountOut > amount''
          (filter (\<lambda>l. num_lt (parse_float (bl_amount l)) (parse_float (bl_minAmountOut l))) legs),
        none_check ''price_bounds'' Critical ''Price bounds are consistent'' '' legs have maxAmountOut < minAmountOut''
          (filter (\<lambda>l. bl_maxAmountOut l \<noteq> None \<and> num_lt (parse_opt (bl_maxAmountOut l)) (parse_float (bl_minAmountOut l))) legs),
        none_check ''conditional_legs_config'' Critical
          (''All '' @ nat_to_string (length conditionalLegs) @ '' conditional legs are properly configured'')
          '' conditional legs are missing configuration''
          (filter (\<lambda>l. \<not> truthy_str (bl_conditionExpression l) \<or> \<not> truthy_str (bl_conditionType l)) conditionalLegs),
        \<lparr>cd_name = ''no_duplicate_dependencies'', cd_passed = (\<not> hasDupDeps),
         cd_message = (if hasDupDeps then ''Duplicate dependencies detected'' else ''No duplicate dependencies''),
         cd_severity = Warning\<rparr>])"

section \<open>After the phases\<close>

definition checkPostPrepare :: "int \<Rightarrow> transaction_batch \<Rightarrow> batch_leg list \<Rightarrow> consistency_check_result" where
  "checkPostPrepare t batch legs =
     (let preparedLegs = filter (\<lambda>l. bl_status l = L_PREPARED \<or> bl_status l = L_SKIPPED) legs;
          preparedCount = length (filter (\<lambda>l. bl_status l = L_PREPARED) legs)
      in buildResult t
       [\<lparr>cd_name = ''all_prepared'', cd_passed = (length preparedLegs = length legs),
         cd_message = nat_to_string (length preparedLegs) @ ''/'' @ nat_to_string (length legs) @ '' legs are prepared or skipped'',
         cd_severity = Critical\<rparr>,
        none_check ''expected_output_bounds'' Critical ''All expected outputs are within price bounds''
          '' legs have expected outputs outside bounds''
          (filter (\<lambda>l. bl_status l = L_PREPARED \<and> truthy_str (bl_expectedOutput l) \<and>
             (num_lt (parse_opt (bl_expectedOutput l)) (parse_float (bl_minAmountOut l)) \<or>
              (truthy_str (bl_maxAmountOut l) \<and> num_lt (parse_opt (bl_maxAmountOut l)) (parse_opt (bl_expectedOutput l))))) legs),
        \<lparr>cd_name = ''batch_prepared_count'', cd_passed = (tb_preparedLegs batch = preparedCount),
         cd_message = ''Batch prepared count ('' @ nat_to_string (tb_preparedLegs batch) @ '') matches actual ('' @
           nat_to_string preparedCount @ '')'',
         cd_severity = Warning\<rparr>])"

definition checkPostCommit :: "int \<Rightarrow> transaction_batch \<Rightarrow> batch_leg list \<Rightarrow> consistency_check_result" where
  "checkPostCommit t batch legs =
     (let nonSkippedLegs = filter (\<lambda>l. bl_status l \<noteq> L_SKIPPED) legs;
          committedLegs = filter (\<lambda>l. bl_status l = L_EXECUTED) nonSkippedLegs
      in buildResult t
       [\<lparr>cd_name = ''legs_committed'',
         cd_passed = (length committedLegs = length nonSkippedLegs \<or>
           list_all (\<lambda>l. bl_status l = L_EXECUTED \<or> bl_status l = L_ROLLED_BACK) nonSkippedLegs),
         cd_message = nat_to_string (length committedLegs) @ ''/'' @ nat_to_string (length nonSkippedLegs) @ '' legs committed'',
         cd_severity = Critical\<rparr>,
        none_check ''positive_actual_outputs'' Critical ''All actual outputs are non-negative'' '' legs have negative actual outputs''
          (filter (\<lambda>l. bl_status l = L_EXECUTED \<and> truthy_str (bl_actualOutput l) \<and>
             num_lt (parse_opt (bl_actualOutput l)) (Some 0)) legs),
        none_check ''actual_output_meets_minimum'' Critical ''All actual outputs meet minimum requirements''
          '' legs have actual output below minimum''
          (filter (\<lambda>l. bl_status l = L_EXECUTED \<and> truthy_str (bl_actualOutput l) \<and>
             num_lt (parse_opt (bl_actualOutput l)) (parse_float (bl_minAmountOut l))) legs),
        none_check ''actual_output_price_bounds'' Warning ''All actual outputs are within price bounds'' '' legs exceed maximum output''
          (filter (\<lambda>l. bl_status l = L_EXECUTED \<and> truthy_str (bl_actualOutput l) \<and> truthy_str (bl_maxAmountOut l) \<and>
             num_lt (parse_opt (bl_maxAmountOut l)) (parse_opt (bl_actualOutput l))) legs),
        none_check ''tx_hashes_present'' Warning ''All committed legs have transaction hashes''
          '' committed legs are missing transaction hashes''
          (filter (\<lambda>l. bl_status l = L_EXECUTED \<and> \<not> truthy_str (bl_stellarTxHash l)) legs)])"

definition checkPostRollback :: "int \<Rightarrow> transaction_batch \<Rightarrow> batch_leg list \<Rightarrow> consistency_check_result" where
  "checkPostRollback t batch legs = buildResult t
     [none_check ''no_intermediate_state'' Critical ''No legs in intermediate state'' '' legs in intermediate state''
        (filter (\<lambda>l. bl_status l = L_PREPARING \<or> bl_status l = L_EXECUTING \<or> bl_status l = L_PREPARED) legs),
      \<lparr>cd_name = ''batch_rolled_back'',
       cd_passed = (tb_status batch = B_ROLLED_BACK \<or> tb_status batch = B_ROLLING_BACK),
       cd_message = ''Batch status is '' @ [CHR 0x27] @ batch_status_str (tb_status batch) @ [CHR 0x27],
       cd_severity = Critical\<rparr>]"

section \<open>Conditions\<close>

definition evaluateCondition :: "string \<Rightarrow> string \<Rightarrow> string \<Rightarrow> bool" where
  "evaluateCondition conditionType conditionExpression currentValue =
     (case (parse_float currentValue, parse_float conditionExpression) of
        (Some value, Some threshold) \<Rightarrow>
          if conditionType = ''price_gt'' then value > threshold
          else if conditionType = ''price_lt'' then value < threshold
          else if conditionType = ''price_gte'' then value \<ge> threshold
          else if conditionType = ''price_lte'' then value \<le> threshold
          else if conditionType = ''amount_gt'' then value > threshold
          else if conditionType = ''amount_lt'' then value < threshold
          else False
      | _ \<Rightarrow> False)"

section \<open>What a passed check means\<close>

lemma passed_buildResult:
  "cc_passed (buildResult t checks) \<longleftrightarrow> (\<forall>c \<in> set checks. cd_severity c = Critical \<longrightarrow> cd_passed c)"
  by (auto simp: buildResult_def list_all_iff)

lemma none_check_simps [simp]:
  "cd_severity (none_check n s ok bad xs) = s" "cd_passed (none_check n s ok bad xs) \<longleftrightarrow> xs = []"
  by (simp_all add: none_check_def)

lemma dup_scan_iff: "dup_scan seen ks \<longleftrightarrow> \<not> distinct ks \<or> set seen \<inter> set ks \<noteq> {}"
  by (induction ks arbitrary: seen) auto

lemma checkPreExecution_passed:
  "cc_passed (checkPreExecution t batch legs) \<longleftrightarrow>
     tb_status batch \<in> {B_CREATED, B_PREPARING} \<and>
     (\<forall>l \<in> set legs. bl_status l = L_PENDING \<and> \<not> num_le (parse_float (bl_amount l)) (Some 0) \<and>
        \<not> (bl_maxAmountOut l \<noteq> None \<and> num_lt (parse_opt (bl_maxAmountOut l)) (parse_float (bl_minAmountOut l))) \<and>
        (bl_isConditional l \<longrightarrow> truthy_str (bl_conditionExpression l) \<and> truthy_str (bl_conditionType l)))"
  by (auto simp: checkPreExecution_def Let_def passed_buildResult filter_empty_conv)

lemma filter_length_all: "length (filter P xs) = length xs \<longleftrightarrow> (\<forall>x \<in> set xs. P x)"
  by (metis filter_True length_filter_less less_irrefl_nat)

lemma checkPostPrepare_passed:
  "cc_passed (checkPostPrepare t batch legs) \<longleftrightarrow>
     (\<forall>l \<in> set legs. bl_status l \<in> {L_PREPARED, L_SKIPPED} \<and>
        (bl_status l = L_PREPARED \<and> truthy_str (bl_expectedOutput l) \<longrightarrow>
           \<not> num_lt (parse_opt (bl_expectedOutput l)) (parse_float (bl_minAmountOut l)) \<and>
           \<not> (truthy_str (bl_maxAmountOut l) \<and> num_lt (parse_opt (bl_maxAmountOut l)) (parse_opt (bl_expectedOutput l)))))"
  by (auto simp: checkPostPrepare_def Let_def passed_buildResult filter_empty_conv filter_length_all)

lemma checkPostRollback_passed:
  "cc_passed (checkPostRollback t batch legs) \<longleftrightarrow>
     (\<forall>l \<in> set legs. bl_status l \<notin> {L_PREPARING, L_EXECUTING, L_PREPARED}) \<and>
     tb_status batch \<in> {B_ROLLED_BACK, B_ROLLING_BACK}"
  by (auto simp: checkPostRollback_def passed_buildResult filter_empty_conv)

text \<open>
  A condition that cannot be evaluated (a value or a threshold that is not a number, an
  unknown type) is never met, and for numbers exactly one of \<^verbatim>\<open>price_gt\<close> and
  \<^verbatim>\<open>price_lte\<close>, and exactly one of \<^verbatim>\<open>price_lt\<close> and
  \<^verbatim>\<open>price_gte\<close>, holds.
\<close>

theorem evaluateCondition_decides:
  "(if parse_float cur = None \<or> parse_float thr = None then \<not> evaluateCondition ct thr cur
    else (evaluateCondition ''price_gt'' thr cur \<noteq> evaluateCondition ''price_lte'' thr cur) \<and>
         (evaluateCondition ''price_lt'' thr cur \<noteq> evaluateCondition ''price_gte'' thr cur) \<and>
         (evaluateCondition ''amount_gt'' thr cur = evaluateCondition ''price_gt'' thr cur) \<and>
         (evaluateCondition ct thr cur = False \<or>
          ct \<in> {''price_gt'', ''price_lt'', ''price_gte'', ''price_lte'', ''amount_gt'', ''amount_lt''}))"
proof (cases "parse_float cur = None \<or> parse_float thr = None")
  case True
  then have "\<not> evaluateCondition ct thr cur"
    unfolding evaluateCondition_def by (cases "parse_float cur"; cases "parse_float thr") simp_all
  with True show ?thesis by simp
next
  case False
  then obtain v x where "parse_float cur = Some v" "parse_float thr = Some x" by auto
  then show ?thesis by (simp add: evaluateCondition_def not_less not_le)
qed

end
