(* ===== verification/TxGas.thy ===== *)
theory TxGas
  imports Stroops
begin

text \<open>
  The gas estimates the batch executor records
  (\<^verbatim>\<open>src/src/modules/stellar/soroban/gas-optimizer.service.ts\<close>): a bounded history of the
  fees that invocations used, and an estimate calibrated with it. Fees are decimal strings that
  the code converts with \<^verbatim>\<open>BigInt\<close>.
\<close>

record gas_estimate =
  minResourceFee :: string
  cpuInstructions :: "string option"
  memoryBytes :: "string option"

record gas_usage =
  gu_contractId :: string
  gu_method :: string
  gu_gasUsed :: string
  gu_timestamp :: int
  gu_ledger :: int

record gas_optimization =
  originalEstimate :: gas_estimate
  optimizedEstimate :: gas_estimate
  optimizationsApplied :: "string list"
  estimatedSavings :: string
  savingsPercentage :: int

type_synonym gas_history = "gas_usage list"

definition maxHistorySize :: nat where
  "maxHistorySize = 1000"

definition safetyBuffer :: number where
  "safetyBuffer = fl (1 / 10)"

text \<open>Division of bigints truncates towards zero and fails for a zero divisor.\<close>

definition bigint_div :: "int \<Rightarrow> int \<Rightarrow> int result" where
  "bigint_div a b = (if b = 0 then Inl (RangeError ''Division by zero'')
     else Inr (sgn a * sgn b * (\<bar>a\<bar> div \<bar>b\<bar>)))"

definition recordGasUsage :: "gas_usage \<Rightarrow> gas_history \<Rightarrow> gas_history" where
  "recordGasUsage usage hist =
     (let hist = hist @ [usage] in if maxHistorySize < length hist then drop 1 hist else hist)"

definition relevant_usage :: "string \<Rightarrow> string \<Rightarrow> gas_history \<Rightarrow> gas_usage list" where
  "relevant_usage contractId method hist = filter (\<lambda>h. gu_contractId h = contractId \<and> gu_method h = method) hist"

fun sum_gas :: "int \<Rightarrow> gas_usage list \<Rightarrow> int result" where
  "sum_gas acc [] = Inr acc"
| "sum_gas acc (h # hs) = rbind (bigint_of (gu_gasUsed h)) (\<lambda>g. sum_gas (acc + g) hs)"

definition predictGasUsage :: "string \<Rightarrow> string \<Rightarrow> gas_history \<Rightarrow> gas_estimate option result" where
  "predictGasUsage contractId method hist =
     (let relevant = relevant_usage contractId method hist
      in if relevant = [] then Inr None
         else rbind (sum_gas 0 relevant) (\<lambda>sum.
              rbind (bigint_div sum (int (length relevant))) (\<lambda>avg.
              Inr (Some \<lparr>minResourceFee = int_to_string avg, cpuInstructions = None, memoryBytes = None\<rparr>))))"

fun gas_values :: "gas_usage list \<Rightarrow> int list result" where
  "gas_values [] = Inr []"
| "gas_values (h # hs) = rbind (bigint_of (gu_gasUsed h)) (\<lambda>v. rbind (gas_values hs) (\<lambda>vs. Inr (v # vs)))"

fun within_20_percent :: "int \<Rightarrow> int list \<Rightarrow> bool result" where
  "within_20_percent avg [] = Inr True"
| "within_20_percent avg (v # vs) =
     rbind (bigint_div ((if v > avg then v - avg else avg - v) * 100) avg) (\<lambda>d.
       if d < 20 then within_20_percent avg vs else Inr False)"

definition isMethodStable :: "string \<Rightarrow> string \<Rightarrow> gas_history \<Rightarrow> bool result" where
  "isMethodStable contractId method hist =
     (let relevant = relevant_usage contractId method hist
      in if length relevant < 10 then Inr False
         else rbind (gas_values relevant) (\<lambda>values.
              rbind (bigint_div (sum_list values) (int (length values))) (\<lambda>avg.
              within_20_percent avg values)))"

definition canBatchWithSimilarCalls :: "string \<Rightarrow> string \<Rightarrow> bool" where
  "canBatchWithSimilarCalls contractId method = False"

definition getHistoricalAverage :: "string \<Rightarrow> string \<Rightarrow> gas_history \<Rightarrow> string option result" where
  "getHistoricalAverage contractId method hist =
     rbind (predictGasUsage contractId method hist) (\<lambda>prediction.
       Inr (case prediction of None \<Rightarrow> None
            | Some p \<Rightarrow> if minResourceFee p = [] then None else Some (minResourceFee p)))"

definition applyBuffer :: "int \<Rightarrow> number \<Rightarrow> int" where
  "applyBuffer value bufferPercent = value + \<lfloor>num_mul (fl (of_int value)) bufferPercent\<rfloor>"

definition optimizeGas :: "string \<Rightarrow> string \<Rightarrow> gas_estimate \<Rightarrow> gas_history \<Rightarrow> gas_optimization result" where
  "optimizeGas contractId method currentEstimate hist =
     rbind (bigint_of (minResourceFee currentEstimate)) (\<lambda>originalBigInt.
     rbind (getHistoricalAverage contractId method hist) (\<lambda>historicalAvg.
     rbind (case historicalAvg of None \<Rightarrow> Inr (originalBigInt, [])
            | Some s \<Rightarrow> rbind (bigint_of s) (\<lambda>historicalBigInt.
                Inr (if historicalBigInt < originalBigInt
                     then (historicalBigInt, [''historical-data-calibration'']) else (originalBigInt, []))))
       (\<lambda>(fee, applied).
     rbind (isMethodStable contractId method hist) (\<lambda>stable.
     let (fee, applied) = (if stable
           then (applyBuffer fee (fl (1 / 20)), applied @ [''reduced-safety-buffer-stable-method''])
           else (applyBuffer fee safetyBuffer, applied));
         applied = (if canBatchWithSimilarCalls contractId method
           then applied @ [''batching-opportunity-detected''] else applied);
         savings = originalBigInt - fee
     in rbind (bigint_div (savings * 100) originalBigInt) (\<lambda>pct.
        Inr \<lparr>originalEstimate = currentEstimate,
             optimizedEstimate = currentEstimate\<lparr>minResourceFee := int_to_string fee\<rparr>,
             optimizationsApplied = applied, estimatedSavings = int_to_string savings,
             savingsPercentage = pct\<rparr>)))))"

lemma recordGasUsage_bounded:
  "length hist \<le> maxHistorySize \<Longrightarrow> length (recordGasUsage usage hist) \<le> maxHistorySize"
  by (auto simp: recordGasUsage_def Let_def maxHistorySize_def)

lemma fl_nonneg_iff [simp]: "0 \<le> fl x \<longleftrightarrow> 0 \<le> x"
  using fl_pos_iff [of "- x"] by (simp add: fl_minus not_less [symmetric])

lemma applyBuffer_mono:
  assumes "a \<le> b" and "0 \<le> b" and "0 \<le> p" and "p \<le> q"
  shows "applyBuffer a p \<le> applyBuffer b q"
proof -
  have "fl (of_int a) * p \<le> fl (of_int b) * q"
  proof (cases "0 \<le> a")
    case True
    then show ?thesis using assms by (intro mult_mono fl_mono) auto
  next
    case False
    then have "fl (of_int a) \<le> 0" using fl_pos_iff [of "of_int a"] by (simp add: not_less [symmetric])
    then have "fl (of_int a) * p \<le> 0" using assms(3) by (rule mult_nonpos_nonneg)
    also have "0 \<le> fl (of_int b) * q" using assms by (intro mult_nonneg_nonneg) auto
    finally show ?thesis .
  qed
  then have "\<lfloor>num_mul (fl (of_int a)) p\<rfloor> \<le> \<lfloor>num_mul (fl (of_int b)) q\<rfloor>"
    unfolding num_mul_def by (intro floor_mono fl_mono)
  with assms(1) show ?thesis by (simp add: applyBuffer_def)
qed

text \<open>
  The estimate the optimizer returns is never more than the simulated fee with the ten
  percent buffer, whatever the history, and the savings it reports are the difference from the
  simulated fee (negative when the buffer outweighs the calibration).
\<close>

theorem optimizeGas_bounded:
  assumes "optimizeGas contractId method est hist = Inr opt" and "bigint_of (minResourceFee est) = Inr n" and "0 \<le> n"
  shows "\<exists>f. minResourceFee (optimizedEstimate opt) = int_to_string f \<and> f \<le> applyBuffer n safetyBuffer \<and>
    estimatedSavings opt = int_to_string (n - f) \<and> originalEstimate opt = est"
proof -
  have b: "0 \<le> fl (1 / 20)" "fl (1 / 20) \<le> safetyBuffer" unfolding safetyBuffer_def by (simp_all add: fl_mono)
  from assms(1,2) obtain ha fee0 ap where
    h: "(case ha of None \<Rightarrow> Inr (n, []) | Some s \<Rightarrow> rbind (bigint_of s) (\<lambda>h.
          Inr (if h < n then (h, [''historical-data-calibration'']) else (n, [])))) = Inr (fee0, ap)"
    and r: "rbind (isMethodStable contractId method hist) (\<lambda>stable.
       let (fee, applied) = (if stable
             then (applyBuffer fee0 (fl (1 / 20)), ap @ [''reduced-safety-buffer-stable-method''])
             else (applyBuffer fee0 safetyBuffer, ap));
           applied = (if canBatchWithSimilarCalls contractId method
             then applied @ [''batching-opportunity-detected''] else applied);
           savings = n - fee
       in rbind (bigint_div (savings * 100) n) (\<lambda>pct.
          Inr \<lparr>originalEstimate = est,
               optimizedEstimate = est\<lparr>minResourceFee := int_to_string fee\<rparr>,
               optimizationsApplied = applied, estimatedSavings = int_to_string savings,
               savingsPercentage = pct\<rparr>)) = Inr opt"
    unfolding optimizeGas_def by (auto elim!: rbind_InrE)
  have f: "fee0 \<le> n" using h by (cases ha) (auto simp: rbind_Inr_iff split: if_splits)
  obtain stable where out: "let f = applyBuffer fee0 (if stable then fl (1 / 20) else safetyBuffer) in
      minResourceFee (optimizedEstimate opt) = int_to_string f \<and> estimatedSavings opt = int_to_string (n - f) \<and>
      originalEstimate opt = est"
  proof -
    from r obtain stable where "isMethodStable contractId method hist = Inr stable" by (auto elim!: rbind_InrE)
    with r show thesis by (intro that [of stable]) (cases stable; auto simp: Let_def rbind_Inr_iff)
  qed
  have "applyBuffer fee0 (if stable then fl (1 / 20) else safetyBuffer) \<le> applyBuffer n safetyBuffer"
    using b order_trans [OF b] by (intro applyBuffer_mono [OF f assms(3)]) simp_all
  with out show ?thesis by (auto simp: Let_def)
qed

theorem optimizeGas_bounded_witness:
  "\<exists>opt f. optimizeGas ''C'' ''swap'' \<lparr>minResourceFee = ''100'', cpuInstructions = None, memoryBytes = None\<rparr> [] = Inr opt \<and>
     minResourceFee (optimizedEstimate opt) = int_to_string f \<and> f \<le> applyBuffer 100 safetyBuffer"
proof -
  let ?est = "\<lparr>minResourceFee = ''100'', cpuInstructions = None, memoryBytes = None\<rparr>"
  have n: "bigint_of (minResourceFee ?est) = Inr 100" by code_simp
  then obtain opt where opt: "optimizeGas ''C'' ''swap'' ?est [] = Inr opt"
    by (simp add: optimizeGas_def getHistoricalAverage_def predictGasUsage_def relevant_usage_def
        isMethodStable_def bigint_div_def Let_def)
  from optimizeGas_bounded [OF opt n] opt show ?thesis by auto
qed

end
