(* ===== verification/TxBatch.thy ===== *)
theory TxBatch
  imports TxGraph TxRetry TxCheck TxGas
begin

text \<open>
  The two-phase execution of a batch (\<^verbatim>\<open>services/atomic-batch-executor.service.ts\<close>). The
  outcomes of the contract calls (simulation, invocation), the random numbers of the backoff,
  the clock and the measured durations are the fields of \<open>contract_world\<close>. The batch and
  its legs are objects in memory that each \<^verbatim>\<open>save\<close> writes to their table; a phase returns
  its result or error with the objects and the database it leaves behind. The legs of a layer,
  which the code starts together and awaits all, are processed one after the other: each one
  changes its own object and row only, and reads nothing the others change.
\<close>

section \<open>State\<close>

datatype tx_event =
    EvBatchCommitted string nat "string option"
  | EvBatchExpired string

record tx_db =
  batches :: "transaction_batch list"
  legs_tbl :: "batch_leg list"
  audits :: "batch_audit_log list"
  tx_events :: "tx_event list"
  gas_hist :: gas_history
  batchTimeouts :: "string list"

record sim_result =
  sr_result :: "json option"
  sr_gas :: gas_estimate

record invocation_result =
  ir_transactionHash :: string
  ir_result :: "json option"
  ir_ledger :: "int option"
  ir_gas :: gas_estimate

text \<open>The contract calls of a leg by its id, the method and the number of the attempt.\<close>

record contract_world =
  cw_now :: int
  cw_simulate :: "string \<Rightarrow> string \<Rightarrow> nat \<Rightarrow> thrown + sim_result"
  cw_invoke :: "string \<Rightarrow> nat \<Rightarrow> thrown + invocation_result"
  cw_random :: "nat \<Rightarrow> number"
  cw_elapsed :: "string \<Rightarrow> int"

record execution_result =
  er_batchId :: string
  er_status :: string
  er_committedLegs :: nat
  er_failedLegs :: nat
  er_skippedLegs :: nat
  er_totalDurationMs :: int
  er_error :: "string option"

definition audit ::
  "string \<Rightarrow> string option \<Rightarrow> batch_audit_action \<Rightarrow> string \<Rightarrow> (string \<times> json) list \<Rightarrow> tx_db \<Rightarrow> tx_db" where
  "audit batchId legId action actorId metadata db =
     db\<lparr>audits := audits db @ [\<lparr>al_batchId = batchId, al_legId = legId, al_action = action,
        al_actorId = actorId, al_metadata = metadata\<rparr>]\<rparr>"

definition save_batch :: "transaction_batch \<Rightarrow> tx_db \<Rightarrow> tx_db" where
  "save_batch b db = db\<lparr>batches := save_row tb_id b (batches db)\<rparr>"

definition save_leg :: "batch_leg \<Rightarrow> tx_db \<Rightarrow> tx_db" where
  "save_leg l db = db\<lparr>legs_tbl := save_row bl_id l (legs_tbl db)\<rparr>"

definition legs_of :: "string \<Rightarrow> tx_db \<Rightarrow> batch_leg list" where
  "legs_of i db = sort_key bl_orderIndex (filter (\<lambda>l. bl_batchId l = i) (legs_tbl db))"

section \<open>Messages and JSON\<close>

fun http_message :: "http_error \<Rightarrow> string" where
  "http_message (BadRequest s) = s"
| "http_message (Unauthorized s) = s"
| "http_message (Forbidden s) = s"
| "http_message (NotFound s) = s"
| "http_message (Conflict s) = s"
| "http_message (TooManyRequests s) = s"
| "http_message (ServiceUnavailable s) = s"
| "http_message (QueryFailed s) = s"
| "http_message (SyntaxError s) = s"
| "http_message (RangeError s) = s"
| "http_message (TypeError s) = s"
| "http_message (PlainError s) = s"

text \<open>\<^verbatim>\<open>error instanceof Error ? error.message : String(error)\<close>, for what a retried operation throws.\<close>

definition retry_message :: "js_error option \<Rightarrow> string" where
  "retry_message e = (case e of None \<Rightarrow> ''undefined'' | Some e \<Rightarrow> err_message e)"

definition obj_get :: "string \<Rightarrow> json option \<Rightarrow> json option" where
  "obj_get k v = (case v of Some (JObj kvs) \<Rightarrow> map_of kvs k | _ \<Rightarrow> None)"

text \<open>\<^verbatim>\<open>{...old, k: v}\<close>.\<close>

definition spread :: "(string \<times> json) list option \<Rightarrow> (string \<times> json) list \<Rightarrow> (string \<times> json) list" where
  "spread old new = foldl (\<lambda>m (k, v). map_set k v m) (case old of None \<Rightarrow> [] | Some m \<Rightarrow> m) new"

definition opt_str :: "string option \<Rightarrow> json" where
  "opt_str s = (case s of None \<Rightarrow> JNull | Some s \<Rightarrow> JStr s)"

abbreviation jnat :: "nat \<Rightarrow> json" where
  "jnat n \<equiv> JNum (of_nat n)"

definition gas_json :: "gas_estimate \<Rightarrow> json" where
  "gas_json g = JObj [(''minResourceFee'', JStr (minResourceFee g)), (''cpuInstructions'', opt_str (cpuInstructions g)),
     (''memoryBytes'', opt_str (memoryBytes g))]"

fun severity_str :: "severity \<Rightarrow> string" where
  "severity_str Critical = ''critical''"
| "severity_str Warning = ''warning''"
| "severity_str Info = ''info''"

definition checks_json :: "check_detail list \<Rightarrow> json" where
  "checks_json cs = JArr (map (\<lambda>c. JObj [(''name'', JStr (cd_name c)), (''passed'', JBool (cd_passed c)),
     (''message'', JStr (cd_message c)), (''severity'', JStr (severity_str (cd_severity c)))]) cs)"

text \<open>\<^verbatim>\<open>parseInt(s, 10)\<close>; \<open>None\<close> is \<^verbatim>\<open>NaN\<close>.\<close>

definition parse_int :: "string \<Rightarrow> int option" where
  "parse_int s =
     (let t = dropWhile is_ws s;
          (sgn, ds) = (case t of c # cs \<Rightarrow> if c = CHR ''-'' then (-1, cs) else if c = CHR ''+'' then (1, cs) else (1, t)
                       | [] \<Rightarrow> (1, []));
          digs = takeWhile is_digit ds
      in if digs = [] then None else map_option (\<lambda>n. sgn * int n) (digits_val 0 digs))"

section \<open>Preparing a leg\<close>

definition dep_met :: "nat list \<Rightarrow> string \<Rightarrow> bool" where
  "dep_met completedLegs depId =
     (if starts_with depId ''order_''
      then (case parse_int (drop 6 depId) of None \<Rightarrow> False
            | Some depIndex \<Rightarrow> depIndex \<in> int ` set completedLegs)
      else False)"

definition evaluateLegCondition :: "contract_world \<Rightarrow> batch_leg \<Rightarrow> bool" where
  "evaluateLegCondition w leg =
     (case cw_simulate w (bl_id leg) ''get_price'' 0 of
        Inl _ \<Rightarrow> False
      | Inr simulation \<Rightarrow>
          let currentPrice = (case obj_get ''price'' (sr_result simulation) of
                None \<Rightarrow> ''0'' | Some p \<Rightarrow> if truthy p then to_js_string p else ''0'')
          in evaluateCondition (the (bl_conditionType leg)) (the (bl_conditionExpression leg)) currentPrice)"

definition fail_leg :: "transaction_batch \<Rightarrow> batch_leg \<Rightarrow> string \<Rightarrow> tx_db \<Rightarrow> batch_leg \<times> tx_db" where
  "fail_leg batch leg msg db =
     (let leg = leg\<lparr>bl_status := L_FAILED, bl_errorMessage := Some msg\<rparr>
      in (leg, audit (tb_id batch) (Some (bl_id leg)) A_LEG_FAILED ''system'' [(''error'', JStr msg)] (save_leg leg db)))"

definition prepare_retry :: partial_retry_config where
  "prepare_retry = \<lparr>p_maxRetries = Some 2, p_baseDelayMs = Some 500, p_maxDelayMs = None, p_jitterFactor = None\<rparr>"

definition simulate_leg :: "contract_world \<Rightarrow> transaction_batch \<Rightarrow> batch_leg \<Rightarrow> tx_db \<Rightarrow> batch_leg \<times> tx_db" where
  "simulate_leg w batch leg db =
     (case ro_result (executeWithRetry (cw_simulate w (bl_id leg) (bl_method leg)) prepare_retry (cw_random w) (\<lambda>_. cw_now w)) of
        Inl e \<Rightarrow> fail_leg batch leg (retry_message e) db
      | Inr simulation \<Rightarrow>
         (case optimizeGas (bl_contractId leg) (bl_method leg) (sr_gas simulation) (gas_hist db) of
            Inl e \<Rightarrow> fail_leg batch leg (http_message e) db
          | Inr gasEstimate \<Rightarrow>
              let expected = (case obj_get ''amount_out'' (sr_result simulation) of
                    None \<Rightarrow> bl_expectedOutput leg | Some v \<Rightarrow> Some (to_js_string v));
                  leg = leg\<lparr>bl_expectedOutput := expected, bl_status := L_PREPARED,
                    bl_executionMetadata := Some [(''gasEstimate'', gas_json (optimizedEstimate gasEstimate)),
                      (''optimizations'', JArr (map JStr (optimizationsApplied gasEstimate))),
                      (''savings'', JStr (estimatedSavings gasEstimate))],
                    bl_preparedAt := Some (cw_now w)\<rparr>
              in (leg, audit (tb_id batch) (Some (bl_id leg)) A_LEG_PREPARED ''system''
                    [(''expectedOutput'', opt_str (bl_expectedOutput leg)), (''gasEstimate'', gas_json (optimizedEstimate gasEstimate))]
                    (save_leg leg db))))"

definition skip_leg :: "transaction_batch \<Rightarrow> batch_leg \<Rightarrow> tx_db \<Rightarrow> batch_leg \<times> tx_db" where
  "skip_leg batch leg db =
     (let leg = leg\<lparr>bl_status := L_SKIPPED,
            bl_executionMetadata := Some [(''skipReason'', JStr ''condition_not_met''),
              (''conditionType'', opt_str (bl_conditionType leg)), (''conditionExpression'', opt_str (bl_conditionExpression leg))]\<rparr>
      in (leg, audit (tb_id batch) (Some (bl_id leg)) A_CONDITION_EVALUATED ''system''
            [(''conditionMet'', JBool False), (''conditionType'', opt_str (bl_conditionType leg))] (save_leg leg db)))"

definition prepareLeg ::
  "contract_world \<Rightarrow> transaction_batch \<Rightarrow> nat list \<Rightarrow> batch_leg \<Rightarrow> nat list \<Rightarrow> tx_db \<Rightarrow> batch_leg \<times> nat list \<times> tx_db" where
  "prepareLeg w batch completedLegs leg failedLegs db =
     (let leg = leg\<lparr>bl_status := L_PREPARING\<rparr>; db = save_leg leg db
      in if \<not> list_all (dep_met completedLegs) (bl_dependencies leg)
         then let leg = leg\<lparr>bl_status := L_FAILED, bl_errorMessage := Some ''Dependencies not met''\<rparr>
              in (leg, List.insert (bl_orderIndex leg) failedLegs, save_leg leg db)
         else let (leg, db) =
                (if bl_isConditional leg \<and> truthy_str (bl_conditionExpression leg) \<and> truthy_str (bl_conditionType leg) \<and>
                    \<not> evaluateLegCondition w leg
                 then skip_leg batch leg db else simulate_leg w batch leg db)
              in (leg, failedLegs, db))"

section \<open>The prepare phase\<close>

text \<open>One layer: prepare its legs, then sort them into completed and failed.\<close>

fun prepare_layer ::
  "contract_world \<Rightarrow> transaction_batch \<Rightarrow> nat list \<Rightarrow> nat list \<Rightarrow> batch_leg list \<Rightarrow> nat list \<Rightarrow> tx_db \<Rightarrow>
   batch_leg list \<times> nat list \<times> tx_db" where
  "prepare_layer w batch completed [] legs failed db = (legs, failed, db)"
| "prepare_layer w batch completed (i # is) legs failed db =
     (let (leg, failed, db) = prepareLeg w batch completed (legs ! i) failed db
      in prepare_layer w batch completed is (legs[i := leg]) failed db)"

definition leg_ready :: "batch_leg \<Rightarrow> bool" where
  "leg_ready leg \<longleftrightarrow> bl_status leg = L_PREPARED \<or> bl_status leg = L_SKIPPED"

fun prepare_layers ::
  "contract_world \<Rightarrow> transaction_batch \<Rightarrow> nat list list \<Rightarrow> batch_leg list \<Rightarrow> nat list \<Rightarrow> nat list \<Rightarrow> tx_db \<Rightarrow>
   batch_leg list \<times> nat list \<times> tx_db" where
  "prepare_layers w batch [] legs completed failed db = (legs, failed, db)"
| "prepare_layers w batch (layer # ls) legs completed failed db =
     (let (legs, failed, db) = prepare_layer w batch completed layer legs failed db;
          completed = foldl (\<lambda>c i. if leg_ready (legs ! i) then List.insert i c else c) completed layer;
          failed = foldl (\<lambda>f i. if leg_ready (legs ! i) then f else List.insert i f) failed layer
      in prepare_layers w batch ls legs completed failed db)"

definition preparePhase ::
  "contract_world \<Rightarrow> transaction_batch \<Rightarrow> batch_leg list \<Rightarrow> tx_db \<Rightarrow>
   unit result \<times> transaction_batch \<times> batch_leg list \<times> tx_db" where
  "preparePhase w batch legs db =
     (let batch = batch\<lparr>tb_status := B_PREPARING\<rparr>; db = save_batch batch db
      in case buildGraphFromLegs legs of
           Inl e \<Rightarrow> (Inl e, batch, legs, db)
         | Inr graph \<Rightarrow>
             let (legs, failedLegs, db) = prepare_layers w batch (executionLayers graph) legs [] [] db
             in if failedLegs \<noteq> []
                then (Inl (PlainError (nat_to_string (length failedLegs) @ '' legs failed during preparation'')), batch, legs, db)
                else
                  let check = checkPostPrepare (cw_now w) batch legs;
                      db = audit (tb_id batch) None A_CONSISTENCY_CHECK_PASSED ''system''
                             [(''checks'', checks_json (cc_checks check)), (''passed'', JBool (cc_passed check))] db
                  in if \<not> cc_passed check
                     then (Inl (PlainError ''Post-prepare consistency check failed''), batch, legs, db)
                     else
                       let batch = batch\<lparr>tb_status := B_PREPARED,
                             tb_preparedLegs := length (filter (\<lambda>l. bl_status l = L_PREPARED) legs),
                             tb_preparedAt := Some (cw_now w)\<rparr>;
                           db = save_batch batch db;
                           db = audit (tb_id batch) None A_BATCH_PREPARED ''system''
                             [(''preparedLegs'', jnat (tb_preparedLegs batch)), (''totalLegs'', jnat (tb_totalLegs batch))] db
                       in (Inr (), batch, legs, db))"

section \<open>Executing and rolling back legs\<close>

definition execute_retry :: partial_retry_config where
  "execute_retry = \<lparr>p_maxRetries = Some 2, p_baseDelayMs = Some 1000, p_maxDelayMs = None, p_jitterFactor = None\<rparr>"

definition executeLeg ::
  "contract_world \<Rightarrow> transaction_batch \<Rightarrow> batch_leg \<Rightarrow> tx_db \<Rightarrow> bool \<times> batch_leg \<times> tx_db" where
  "executeLeg w batch leg db =
     (let leg = leg\<lparr>bl_status := L_EXECUTING\<rparr>; db = save_leg leg db; duration = cw_elapsed w (bl_id leg)
      in case ro_result (executeWithRetry (cw_invoke w (bl_id leg)) execute_retry (cw_random w) (\<lambda>_. cw_now w)) of
           Inl e \<Rightarrow>
             let msg = retry_message e;
                 leg = leg\<lparr>bl_status := L_FAILED, bl_errorMessage := Some msg,
                   bl_executionMetadata := Some (spread (bl_executionMetadata leg)
                     [(''error'', JStr msg), (''durationMs'', JNum (of_int duration))])\<rparr>
             in (False, leg, audit (tb_id batch) (Some (bl_id leg)) A_LEG_FAILED ''system'' [(''error'', JStr msg)] (save_leg leg db))
         | Inr r \<Rightarrow>
             let leg = leg\<lparr>bl_status := L_EXECUTED, bl_stellarTxHash := Some (ir_transactionHash r),
                   bl_executedAt := Some (cw_now w),
                   bl_executionMetadata := Some (spread (bl_executionMetadata leg)
                     ([(''transactionHash'', JStr (ir_transactionHash r))] @
                      (case ir_ledger r of None \<Rightarrow> [] | Some l \<Rightarrow> [(''ledger'', JNum (of_int l))]) @
                      [(''executionDurationMs'', JNum (of_int duration))])),
                   bl_actualOutput := (case obj_get ''amount_out'' (ir_result r) of
                     None \<Rightarrow> bl_actualOutput leg | Some v \<Rightarrow> Some (to_js_string v))\<rparr>;
                 db = save_leg leg db;
                 db = db\<lparr>gas_hist := recordGasUsage \<lparr>gu_contractId = bl_contractId leg, gu_method = bl_method leg,
                   gu_gasUsed = minResourceFee (ir_gas r), gu_timestamp = cw_now w,
                   gu_ledger = (case ir_ledger r of None \<Rightarrow> 0 | Some l \<Rightarrow> l)\<rparr> (gas_hist db)\<rparr>
             in (True, leg, audit (tb_id batch) (Some (bl_id leg)) A_LEG_EXECUTED ''system''
                   [(''transactionHash'', JStr (ir_transactionHash r)), (''actualOutput'', opt_str (bl_actualOutput leg)),
                    (''durationMs'', JNum (of_int duration))] db))"

definition rollbackLeg :: "int \<Rightarrow> transaction_batch \<Rightarrow> batch_leg \<Rightarrow> tx_db \<Rightarrow> batch_leg \<times> tx_db" where
  "rollbackLeg t batch leg db =
     (let leg = leg\<lparr>bl_status := L_ROLLING_BACK\<rparr>; db = save_leg leg db;
          leg = leg\<lparr>bl_status := L_ROLLED_BACK, bl_rolledBackAt := Some t, bl_retryCount := bl_retryCount leg + 1\<rparr>;
          db = save_leg leg db
      in (leg, audit (tb_id batch) (Some (bl_id leg)) A_LEG_ROLLED_BACK ''system''
            [(''originalTxHash'', opt_str (bl_stellarTxHash leg))] db))"

fun rollback_indices ::
  "int \<Rightarrow> transaction_batch \<Rightarrow> nat list \<Rightarrow> batch_leg list \<Rightarrow> tx_db \<Rightarrow> batch_leg list \<times> tx_db" where
  "rollback_indices t batch [] legs db = (legs, db)"
| "rollback_indices t batch (i # is) legs db =
     (if bl_status (legs ! i) = L_EXECUTED
      then let (leg, db) = rollbackLeg t batch (legs ! i) db
           in rollback_indices t batch is (legs[i := leg]) db
      else rollback_indices t batch is legs db)"

definition rollbackLegs ::
  "int \<Rightarrow> transaction_batch \<Rightarrow> batch_leg list \<Rightarrow> nat list \<Rightarrow> tx_db \<Rightarrow> batch_leg list \<times> tx_db" where
  "rollbackLegs t batch legs committedIndices db = rollback_indices t batch (rev (sort committedIndices)) legs db"

definition rollbackPhase :: "int \<Rightarrow> transaction_batch \<Rightarrow> tx_db \<Rightarrow> transaction_batch \<times> tx_db" where
  "rollbackPhase t batch db =
     (let batch = batch\<lparr>tb_status := B_ROLLING_BACK, tb_failedAt := Some t\<rparr>;
          db = save_batch batch db;
          db = audit (tb_id batch) None A_BATCH_ROLLBACK_STARTED ''system''
                 [(''previousStatus'', JStr (batch_status_str (tb_status batch)))] db;
          executedLegs = filter (\<lambda>l. bl_status l = L_EXECUTED) (rev (legs_of (tb_id batch) db));
          db = foldl (\<lambda>db leg. snd (rollbackLeg t batch leg db)) db executedLegs;
          batch = batch\<lparr>tb_status := B_ROLLED_BACK\<rparr>;
          db = save_batch batch db
      in (batch, audit (tb_id batch) None A_BATCH_ROLLED_BACK ''system'' [(''rolledBackLegs'', jnat (length executedLegs))] db))"

section \<open>The commit phase\<close>

text \<open>The three index lists the phase keeps: committed, failed and skipped legs.\<close>

record tally =
  committed :: "nat list"
  failed :: "nat list"
  skipped :: "nat list"

fun execute_layer ::
  "contract_world \<Rightarrow> transaction_batch \<Rightarrow> nat list \<Rightarrow> batch_leg list \<Rightarrow> tally \<Rightarrow> tx_db \<Rightarrow> batch_leg list \<times> tally \<times> tx_db" where
  "execute_layer w batch [] legs t db = (legs, t, db)"
| "execute_layer w batch (i # is) legs t db =
     (if bl_status (legs ! i) \<noteq> L_PREPARED
      then execute_layer w batch is legs
             (if bl_status (legs ! i) = L_SKIPPED then t\<lparr>skipped := skipped t @ [i]\<rparr> else t) db
      else let (ok, leg, db) = executeLeg w batch (legs ! i) db
           in execute_layer w batch is (legs[i := leg])
                (if ok then t\<lparr>committed := committed t @ [i]\<rparr> else t\<lparr>failed := failed t @ [i]\<rparr>) db)"

definition abort_commit ::
  "contract_world \<Rightarrow> transaction_batch \<Rightarrow> batch_leg list \<Rightarrow> tally \<Rightarrow> tx_db \<Rightarrow>
   execution_result \<times> transaction_batch \<times> batch_leg list \<times> tx_db" where
  "abort_commit w batch legs t db =
     (let (legs, db) = rollbackLegs (cw_now w) batch legs (committed t) db;
          msg = nat_to_string (length (failed t)) @ '' legs failed during commit'';
          batch = batch\<lparr>tb_status := B_ROLLED_BACK, tb_failedAt := Some (cw_now w), tb_errorMessage := Some msg\<rparr>;
          db = save_batch batch db;
          db = audit (tb_id batch) None A_BATCH_ROLLED_BACK ''system''
                 [(''committedLegs'', jnat (length (committed t))), (''failedLegs'', jnat (length (failed t))),
                  (''skippedLegs'', jnat (length (skipped t)))] db
      in (\<lparr>er_batchId = tb_id batch, er_status = ''rolled_back'', er_committedLegs = length (committed t),
           er_failedLegs = length (failed t), er_skippedLegs = length (skipped t), er_totalDurationMs = 0,
           er_error = Some msg\<rparr>, batch, legs, db))"

definition completion_rate :: "nat \<Rightarrow> nat \<Rightarrow> string" where
  "completion_rate c f = (case num_div (of_nat c) (of_nat (c + f)) of
     None \<Rightarrow> ''NaN'' | Some q \<Rightarrow> to_fixed 2 (num_mul q 100))"

definition finish_commit ::
  "contract_world \<Rightarrow> transaction_batch \<Rightarrow> batch_leg list \<Rightarrow> tally \<Rightarrow> tx_db \<Rightarrow>
   execution_result \<times> transaction_batch \<times> batch_leg list \<times> tx_db" where
  "finish_commit w batch legs t db =
     (let c = length (committed t); f = length (failed t); s = length (skipped t);
          batch = batch\<lparr>tb_status := B_COMMITTED, tb_committedLegs := c, tb_committedAt := Some (cw_now w),
            tb_completionRate := Some (completion_rate c f),
            tb_resultSummary := Some [(''committedLegs'', jnat c), (''failedLegs'', jnat f), (''skippedLegs'', jnat s)]\<rparr>;
          db = save_batch batch db;
          check = checkPostCommit (cw_now w) batch legs;
          db = audit (tb_id batch) None A_CONSISTENCY_CHECK_PASSED ''system'' [(''checks'', checks_json (cc_checks check))] db;
          db = audit (tb_id batch) None A_BATCH_COMMITTED ''system''
                 [(''committedLegs'', jnat c), (''completionRate'', opt_str (tb_completionRate batch))] db;
          db = db\<lparr>tx_events := tx_events db @ [EvBatchCommitted (tb_id batch) c (tb_completionRate batch)]\<rparr>
      in (\<lparr>er_batchId = tb_id batch, er_status = ''committed'', er_committedLegs = c, er_failedLegs = f,
           er_skippedLegs = s, er_totalDurationMs = 0, er_error = None\<rparr>, batch, legs, db))"

fun commit_layers ::
  "contract_world \<Rightarrow> transaction_batch \<Rightarrow> nat list list \<Rightarrow> batch_leg list \<Rightarrow> tally \<Rightarrow> tx_db \<Rightarrow>
   execution_result \<times> transaction_batch \<times> batch_leg list \<times> tx_db" where
  "commit_layers w batch [] legs t db = finish_commit w batch legs t db"
| "commit_layers w batch (layer # ls) legs t db =
     (let (legs, t, db) = execute_layer w batch layer legs t db
      in if failed t \<noteq> [] then abort_commit w batch legs t db
         else commit_layers w batch ls legs t db)"

definition commitPhase ::
  "contract_world \<Rightarrow> transaction_batch \<Rightarrow> batch_leg list \<Rightarrow> tx_db \<Rightarrow>
   execution_result result \<times> transaction_batch \<times> batch_leg list \<times> tx_db" where
  "commitPhase w batch legs db =
     (let batch = batch\<lparr>tb_status := B_COMMITTING\<rparr>;
          db = save_batch batch db;
          db = audit (tb_id batch) None A_BATCH_COMMIT_STARTED ''system'' [(''totalLegs'', jnat (length legs))] db
      in case buildGraphFromLegs legs of
           Inl e \<Rightarrow> (Inl e, batch, legs, db)
         | Inr graph \<Rightarrow>
             let (r, batch, legs, db) =
               commit_layers w batch (executionLayers graph) legs \<lparr>committed = [], failed = [], skipped = []\<rparr> db
             in (Inr r, batch, legs, db))"

section \<open>The whole batch\<close>

definition execute_try ::
  "contract_world \<Rightarrow> transaction_batch \<Rightarrow> tx_db \<Rightarrow> execution_result result \<times> transaction_batch \<times> tx_db" where
  "execute_try w batch db =
     (let legs = legs_of (tb_id batch) db
      in if legs = [] then (Inl (PlainError ''Batch has no legs''), batch, db)
         else
           let db = audit (tb_id batch) None A_BATCH_PREPARE_STARTED ''system'' [(''totalLegs'', jnat (length legs))] db;
               preCheck = checkPreExecution (cw_now w) batch legs
           in if \<not> cc_passed preCheck
              then (Inl (PlainError (''Pre-execution check failed: '' @
                       concat (map (\<lambda>(k, c). (if k = 0 then [] else '', '') @ cd_name c)
                         (enumerate 0 (filter (\<lambda>c. \<not> cd_passed c) (cc_checks preCheck)))))),
                    batch, audit (tb_id batch) None A_CONSISTENCY_CHECK_FAILED ''system''
                      [(''checks'', checks_json (cc_checks preCheck))] db)
              else
                let (r, batch, legs, db) = preparePhase w batch legs db
                in case r of Inl e \<Rightarrow> (Inl e, batch, db)
                   | Inr _ \<Rightarrow> let (r, batch, legs, db) = commitPhase w batch legs db in (r, batch, db))"

definition executeBatch ::
  "contract_world \<Rightarrow> transaction_batch \<Rightarrow> tx_db \<Rightarrow> execution_result \<times> tx_db" where
  "executeBatch w batch db =
     (let (r, batch, db) = execute_try w batch db; elapsed = cw_elapsed w (tb_id batch)
      in case r of
           Inr r \<Rightarrow> (r\<lparr>er_totalDurationMs := elapsed\<rparr>, db)
         | Inl e \<Rightarrow>
             let (batch, db) = rollbackPhase (cw_now w) batch db
             in (\<lparr>er_batchId = tb_id batch, er_status = ''failed'', er_committedLegs = 0, er_failedLegs = 0,
                  er_skippedLegs = 0, er_totalDurationMs = elapsed, er_error = Some (http_message e)\<rparr>, db))"

end
