(* ===== verification/TxCoordinator.thy ===== *)
theory TxCoordinator
  imports TxBatch
begin

text \<open>
  The coordinator (\<^verbatim>\<open>services/transaction-coordinator.service.ts\<close>): creation of batches,
  the guarded entry points to the two phases, cancellation and timeouts. An operation that can
  fail after it has changed rows returns its result with the database. \<open>numeric\<close> is how the
  database prints a value of a \<^verbatim>\<open>numeric(30,7)\<close> column it was given as a string.
\<close>

definition getBatchOrThrow :: "string \<Rightarrow> tx_db \<Rightarrow> transaction_batch result" where
  "getBatchOrThrow i db = (case row_by tb_id i (batches db) of
     None \<Rightarrow> Inl (NotFound (''Transaction batch '' @ i @ '' not found''))
   | Some b \<Rightarrow> Inr b)"

section \<open>Creating a batch\<close>

fun forward_deps :: "nat \<Rightarrow> number list \<Rightarrow> unit result" where
  "forward_deps i [] = Inr ()"
| "forward_deps i (dep # deps) =
     (if of_nat i \<le> dep
      then Inl (BadRequest (''Leg '' @ nat_to_string i @ '' has forward dependency on leg '' @ num_to_string dep))
      else forward_deps i deps)"

fun check_forward :: "nat \<Rightarrow> swap_leg_dto list \<Rightarrow> unit result" where
  "check_forward i [] = Inr ()"
| "check_forward i (leg # legs) =
     rbind (case field_opt (sl_dependencies leg) of None \<Rightarrow> Inr () | Some deps \<Rightarrow> forward_deps i deps)
       (\<lambda>_. check_forward (Suc i) legs)"

definition resolveDependencyIndices :: "swap_leg_dto \<Rightarrow> string list" where
  "resolveDependencyIndices legDto =
     map (\<lambda>dep. ''order_'' @ num_to_string dep)
       (case field_opt (sl_dependencies legDto) of None \<Rightarrow> [] | Some ds \<Rightarrow> ds)"

definition new_batch :: "env \<Rightarrow> string \<Rightarrow> create_batch_dto \<Rightarrow> transaction_batch" where
  "new_batch e userId dto =
     (let timeout = (case field_opt (cb_timeoutMs dto) of None \<Rightarrow> 30000 | Some t \<Rightarrow> t)
      in \<lparr>tb_id = uuid e 0, tb_userId = userId, tb_name = cb_name dto, tb_status = B_CREATED,
          tb_totalLegs = length (cb_legs dto), tb_preparedLegs = 0, tb_committedLegs = 0,
          tb_completionRate = None, tb_sequenceNumber = now e, tb_timeoutMs = timeout,
          tb_hasConditionals = list_ex (\<lambda>l. field_opt (sl_isConditional l) = Some True) (cb_legs dto),
          tb_resultSummary = None, tb_errorMessage = None, tb_metadata = field_opt (cb_metadata dto),
          tb_preparedAt = None, tb_committedAt = None, tb_failedAt = None,
          tb_expiresAt = Some (num_add (of_int (now e)) timeout), tb_createdAt = now e\<rparr>)"

definition new_leg :: "(string \<Rightarrow> string) \<Rightarrow> env \<Rightarrow> string \<Rightarrow> nat \<Rightarrow> swap_leg_dto \<Rightarrow> batch_leg" where
  "new_leg numeric e batchId index d =
     \<lparr>bl_id = uuid e (Suc index), bl_batchId = batchId, bl_orderIndex = index,
      bl_dependencies = resolveDependencyIndices d, bl_contractId = sl_contractId d, bl_method = sl_method d,
      bl_args = (case field_opt (sl_args d) of None \<Rightarrow> JObj [] | Some a \<Rightarrow> a),
      bl_sourceAssetCode = sl_sourceAssetCode d, bl_sourceAssetIssuer = field_opt (sl_sourceAssetIssuer d),
      bl_destAssetCode = sl_destAssetCode d, bl_destAssetIssuer = field_opt (sl_destAssetIssuer d),
      bl_amount = numeric (num_to_string (sl_amount d)), bl_minAmountOut = numeric (num_to_string (sl_minAmountOut d)),
      bl_maxAmountOut = map_option (\<lambda>x. numeric (num_to_string x)) (field_opt (sl_maxAmountOut d)),
      bl_status = L_PENDING,
      bl_isConditional = (case field_opt (sl_isConditional d) of None \<Rightarrow> False | Some b \<Rightarrow> b),
      bl_conditionExpression = Option.bind (field_opt (sl_conditional d)) (\<lambda>c. field_opt (cl_conditionExpression c)),
      bl_conditionType = Option.bind (field_opt (sl_conditional d)) (\<lambda>c. field_opt (cl_conditionType c)),
      bl_expectedOutput = None, bl_actualOutput = None, bl_stellarTxHash = None, bl_errorMessage = None,
      bl_executionMetadata = None, bl_preparedAt = None, bl_executedAt = None, bl_rolledBackAt = None,
      bl_retryCount = 0\<rparr>"

definition new_legs :: "(string \<Rightarrow> string) \<Rightarrow> env \<Rightarrow> string \<Rightarrow> swap_leg_dto list \<Rightarrow> batch_leg list" where
  "new_legs numeric e batchId dtos = map (\<lambda>i. new_leg numeric e batchId i (dtos ! i)) [0..<length dtos]"

definition createBatch ::
  "(string \<Rightarrow> string) \<Rightarrow> env \<Rightarrow> string \<Rightarrow> create_batch_dto \<Rightarrow> tx_db \<Rightarrow> (transaction_batch \<times> tx_db) result" where
  "createBatch numeric e userId dto db =
     (if length (cb_legs dto) < 1 then Inl (BadRequest ''Batch must have at least 1 leg'')
      else rbind (check_forward 0 (cb_legs dto)) (\<lambda>_.
           rbind (buildGraphFromDtos (cb_legs dto)) (\<lambda>graph.
           let batch = new_batch e userId dto;
               db = save_batch batch db;
               db = foldl (\<lambda>db l. save_leg l db) db (new_legs numeric e (tb_id batch) (cb_legs dto));
               db = audit (tb_id batch) None A_BATCH_CREATED userId
                 [(''name'', JStr (cb_name dto)), (''totalLegs'', jnat (length (cb_legs dto))),
                  (''hasConditionals'', JBool (tb_hasConditionals batch)),
                  (''executionPlan'', JArr (map (\<lambda>l. JArr (map jnat l)) (executionLayers graph)))] db
           in Inr (batch, db))))"

section \<open>Running a batch\<close>

text \<open>
  \<open>executeWithTimeout\<close> for a run that ends before its timer fires: the timer is registered,
  cleared and forgotten. A timer that fires during the run calls \<open>handleBatchTimeout\<close>
  between two steps of the executor.
\<close>

definition executeWithTimeout :: "contract_world \<Rightarrow> transaction_batch \<Rightarrow> tx_db \<Rightarrow> execution_result \<times> tx_db" where
  "executeWithTimeout w batch db =
     (let db = db\<lparr>batchTimeouts := List.insert (tb_id batch) (batchTimeouts db)\<rparr>;
          (r, db) = executeBatch w batch db
      in (r, db\<lparr>batchTimeouts := removeAll (tb_id batch) (batchTimeouts db)\<rparr>))"

definition quoted :: "string \<Rightarrow> string" where
  "quoted s = [CHR 0x27] @ s @ [CHR 0x27]"

definition executeBatchById :: "contract_world \<Rightarrow> string \<Rightarrow> tx_db \<Rightarrow> (execution_result \<times> tx_db) result" where
  "executeBatchById w batchId db =
     rbind (getBatchOrThrow batchId db) (\<lambda>batch.
       if tb_status batch \<noteq> B_CREATED
       then Inl (BadRequest (''Cannot execute batch in status '' @ quoted (batch_status_str (tb_status batch))))
       else Inr (executeWithTimeout w batch db))"

definition prepareBatch :: "contract_world \<Rightarrow> string \<Rightarrow> tx_db \<Rightarrow> transaction_batch result \<times> tx_db" where
  "prepareBatch w batchId db =
     (case getBatchOrThrow batchId db of
        Inl e \<Rightarrow> (Inl e, db)
      | Inr batch \<Rightarrow>
          if tb_status batch \<noteq> B_CREATED
          then (Inl (BadRequest (''Cannot prepare batch in status '' @ quoted (batch_status_str (tb_status batch)))), db)
          else let (r, _, _, db) = preparePhase w batch (legs_of (tb_id batch) db) db
               in case r of Inl e \<Rightarrow> (Inl e, db) | Inr _ \<Rightarrow> (getBatchOrThrow batchId db, db))"

definition commitBatch :: "contract_world \<Rightarrow> string \<Rightarrow> tx_db \<Rightarrow> execution_result result \<times> tx_db" where
  "commitBatch w batchId db =
     (case getBatchOrThrow batchId db of
        Inl e \<Rightarrow> (Inl e, db)
      | Inr batch \<Rightarrow>
          if tb_status batch \<noteq> B_PREPARED
          then (Inl (BadRequest (''Cannot commit batch in status '' @ quoted (batch_status_str (tb_status batch)))), db)
          else let (r, _, _, db) = commitPhase w batch (legs_of (tb_id batch) db) db in (r, db))"

section \<open>Queries\<close>

record batch_detail =
  bd_batch :: transaction_batch
  bd_legs :: "batch_leg list"
  bd_dependencyGraph :: "(string \<times> string list) list"
  bd_executionPlan :: "string list list"
  bd_estimatedDurationMs :: number

definition leg_duration :: "batch_leg \<Rightarrow> number" where
  "leg_duration leg = (case bl_executionMetadata leg of
     None \<Rightarrow> 1000
   | Some m \<Rightarrow> (case map_of m ''executionDurationMs'' of Some (JNum x) \<Rightarrow> x | _ \<Rightarrow> 1000))"

definition getBatchDetail :: "string \<Rightarrow> tx_db \<Rightarrow> batch_detail result" where
  "getBatchDetail batchId db =
     rbind (getBatchOrThrow batchId db) (\<lambda>batch.
       let legs = legs_of (tb_id batch) db
       in rbind (buildGraphFromLegs legs) (\<lambda>graph.
          Inr \<lparr>bd_batch = batch, bd_legs = legs,
               bd_dependencyGraph = foldl (\<lambda>m leg. map_set (bl_id leg) (bl_dependencies leg) m) [] legs,
               bd_executionPlan = map (\<lambda>layer. filter (\<lambda>s. s \<noteq> [])
                 (map (\<lambda>i. bl_id (legs ! i)) (filter (\<lambda>i. i < length legs) layer))) (executionLayers graph),
               bd_estimatedDurationMs = foldl (\<lambda>sum leg. num_add sum (leg_duration leg)) 0 legs\<rparr>))"

definition getAuditTrail :: "string \<Rightarrow> tx_db \<Rightarrow> batch_audit_log list result" where
  "getAuditTrail batchId db =
     rbind (getBatchOrThrow batchId db) (\<lambda>_. Inr (filter (\<lambda>a. al_batchId a = batchId) (audits db)))"

section \<open>Cancellation and timeout\<close>

definition roll_back_if :: "(leg_status \<Rightarrow> bool) \<Rightarrow> int \<Rightarrow> tx_db \<Rightarrow> batch_leg \<Rightarrow> tx_db" where
  "roll_back_if P t db leg =
     (if P (bl_status leg) then save_leg (leg\<lparr>bl_status := L_ROLLED_BACK, bl_rolledBackAt := Some t\<rparr>) db else db)"

definition batch_legs :: "string \<Rightarrow> tx_db \<Rightarrow> batch_leg list" where
  "batch_legs i db = filter (\<lambda>l. bl_batchId l = i) (legs_tbl db)"

definition cancelBatch :: "int \<Rightarrow> string \<Rightarrow> string \<Rightarrow> tx_db \<Rightarrow> (transaction_batch \<times> tx_db) result" where
  "cancelBatch t batchId userId db =
     rbind (getBatchOrThrow batchId db) (\<lambda>batch.
       if tb_userId batch \<noteq> userId then Inl (BadRequest ''Only the batch creator can cancel'')
       else if tb_status batch \<notin> {B_CREATED, B_PREPARING, B_PREPARED}
       then Inl (BadRequest (''Cannot cancel batch in status '' @ quoted (batch_status_str (tb_status batch))))
       else
         let (batch, db) =
               (if tb_status batch = B_PREPARED \<or> tb_status batch = B_PREPARING
                then let batch = batch\<lparr>tb_status := B_ROLLING_BACK\<rparr>;
                         db = save_batch batch db
                     in (batch, foldl (roll_back_if (\<lambda>s. s = L_PREPARED \<or> s = L_EXECUTED) t) db (batch_legs batchId db))
                else (batch, db));
             batch = batch\<lparr>tb_status := B_ROLLED_BACK, tb_failedAt := Some t,
               tb_errorMessage := Some (''Cancelled by user '' @ userId)\<rparr>;
             db = save_batch batch db;
             db = db\<lparr>batchTimeouts := removeAll batchId (batchTimeouts db)\<rparr>;
             db = audit batchId None A_BATCH_ROLLED_BACK userId [(''reason'', JStr ''user_cancel'')] db
         in Inr (batch, db))"

definition handleBatchTimeout :: "int \<Rightarrow> string \<Rightarrow> tx_db \<Rightarrow> tx_db result" where
  "handleBatchTimeout t batchId db =
     rbind (getBatchOrThrow batchId db) (\<lambda>batch.
       if tb_status batch \<notin> {B_CREATED, B_PREPARING, B_PREPARED, B_COMMITTING} then Inr db
       else
         let batch = batch\<lparr>tb_status := B_EXPIRED, tb_failedAt := Some t,
               tb_errorMessage := Some (''Batch timed out after '' @ num_to_string (tb_timeoutMs batch) @ ''ms'')\<rparr>;
             db = save_batch batch db;
             db = foldl (roll_back_if (\<lambda>s. s = L_PREPARED \<or> s = L_EXECUTED \<or> s = L_EXECUTING) t) db (batch_legs batchId db);
             db = audit batchId None A_BATCH_EXPIRED ''system'' [(''timeoutMs'', JNum (tb_timeoutMs batch))] db
         in Inr (db\<lparr>tx_events := tx_events db @ [EvBatchExpired batchId]\<rparr>))"

end
