(* ===== verification/TxGraph_Props.thy ===== *)
theory TxGraph_Props
  imports TxGraph "HOL-Library.Multiset"
begin

text \<open>
  Correctness of the graph builder. Kahn's loop is analysed for any multiplicity of edges, since
  \<open>addEdge\<close> may push an edge twice to the dependents of a node; the order of the result
  needs each edge once.
\<close>

section \<open>Kahn's algorithm\<close>

abbreviation deps :: "graph_node list \<Rightarrow> nat \<Rightarrow> nat list" where
  "deps ns i \<equiv> dependencies (ns ! i)"

definition edges :: "graph_node list \<Rightarrow> (nat \<times> nat) set" where
  "edges ns = {(j, i). i < length ns \<and> j \<in> set (deps ns i)}"

definition edge_mult :: "graph_node list \<Rightarrow> nat \<Rightarrow> nat \<Rightarrow> nat" where
  "edge_mult ns j i = count_list (dependents (ns ! j)) i"

text \<open>
  What the construction guarantees: indices in range, no dependency listed twice, and a
  dependent only where there is a dependency; a one-way dependency does have its dependent.
\<close>

definition graph_wf :: "graph_node list \<Rightarrow> bool" where
  "graph_wf ns \<longleftrightarrow> (\<forall>i < length ns.
      distinct (deps ns i) \<and> set (deps ns i) \<subseteq> {..<length ns} \<and>
      set (dependents (ns ! i)) \<subseteq> {..<length ns} \<and>
      (\<forall>j < length ns. (0 < edge_mult ns j i \<longrightarrow> j \<in> set (deps ns i)) \<and>
         (j \<in> set (deps ns i) \<and> i \<notin> set (deps ns j) \<longrightarrow> 0 < edge_mult ns j i)))"

definition once :: "graph_node list \<Rightarrow> bool" where
  "once ns \<longleftrightarrow> (\<forall>j < length ns. \<forall>i. edge_mult ns j i \<le> 1)"

definition ordered :: "graph_node list \<Rightarrow> nat list \<Rightarrow> bool" where
  "ordered ns xs \<longleftrightarrow> (\<forall>k < length xs. set (deps ns (xs ! k)) \<subseteq> set (take k xs))"

lemma graph_wfD:
  assumes "graph_wf ns" and "i < length ns"
  shows "distinct (deps ns i)" "set (deps ns i) \<subseteq> {..<length ns}"
    "set (dependents (ns ! i)) \<subseteq> {..<length ns}"
    "j < length ns \<Longrightarrow> 0 < edge_mult ns j i \<Longrightarrow> j \<in> set (deps ns i)"
    "j < length ns \<Longrightarrow> j \<in> set (deps ns i) \<Longrightarrow> i \<notin> set (deps ns j) \<Longrightarrow> 0 < edge_mult ns j i"
  using assms unfolding graph_wf_def by blast+

lemma relax_spec:
  "set ds \<subseteq> {..<length D} \<Longrightarrow>
   \<exists>D' new. relax ds D q = Some (D', q @ new) \<and> length D' = length D \<and>
     (\<forall>i < length D. D' ! i = D ! i - int (count_list ds i)) \<and> distinct new \<and>
     set new = {i. i < length D \<and> 0 < D ! i \<and> D' ! i \<le> 0}"
proof (induction ds arbitrary: D q)
  case Nil
  show ?case by (intro exI [of _ D] exI [of _ "[]"]) auto
next
  case (Cons d ds)
  let ?D = "D[d := D ! d - 1]"
  let ?q = "if D ! d - 1 = 0 then q @ [d] else q"
  have d: "d < length D" and ds: "set ds \<subseteq> {..<length ?D}" using Cons.prems by auto
  obtain D' new where r: "relax ds ?D ?q = Some (D', ?q @ new)" "length D' = length D"
    "\<forall>i < length D. D' ! i = ?D ! i - int (count_list ds i)" "distinct new"
    "set new = {i. i < length D \<and> 0 < ?D ! i \<and> D' ! i \<le> 0}"
    using Cons.IH [OF ds, of ?q] by auto
  let ?new = "if D ! d - 1 = 0 then d # new else new"
  have "relax (d # ds) D q = Some (D', q @ ?new)" using d r(1) by (auto simp: Let_def)
  moreover have "\<forall>i < length D. D' ! i = D ! i - int (count_list (d # ds) i)"
    using r(3) d by (auto simp: nth_list_update)
  moreover have "distinct ?new" using r(4,5) d by auto
  moreover have "set ?new = {i. i < length D \<and> 0 < D ! i \<and> D' ! i \<le> 0}"
  proof (rule set_eqI)
    fix i
    have le: "D' ! d \<le> D ! d - 1" using r(3) d by simp
    show "i \<in> set ?new \<longleftrightarrow> i \<in> {i. i < length D \<and> 0 < D ! i \<and> D' ! i \<le> 0}"
    proof (cases "i = d")
      case True
      have "i \<in> set new \<longleftrightarrow> 1 < D ! d \<and> D' ! d \<le> 0" unfolding r(5) True using d by auto
      then show ?thesis using True le d by auto
    next
      case False
      have "i \<in> set new \<longleftrightarrow> i < length D \<and> 0 < D ! i \<and> D' ! i \<le> 0" unfolding r(5) using False by simp
      then show ?thesis using False by simp
    qed
  qed
  ultimately show ?case using r(2) by blast
qed

definition kinv :: "graph_node list \<Rightarrow> nat list \<Rightarrow> int list \<Rightarrow> nat list \<Rightarrow> bool" where
  "kinv ns Q D R \<longleftrightarrow> length D = length ns \<and> distinct (R @ Q) \<and> set (R @ Q) \<subseteq> {..<length ns} \<and>
     (\<forall>i < length ns. D ! i = int (length (deps ns i)) - (\<Sum>j \<in> set R. int (edge_mult ns j i))) \<and>
     (\<forall>i < length ns. i \<in> set (R @ Q) \<longleftrightarrow> D ! i \<le> 0) \<and>
     (R @ Q \<noteq> [] \<longrightarrow> deps ns (hd (R @ Q)) = []) \<and> (once ns \<longrightarrow> ordered ns (R @ Q))"

lemma ordered_append:
  assumes "ordered ns xs" and "\<And>y. y \<in> set ys \<Longrightarrow> set (deps ns y) \<subseteq> set xs"
  shows "ordered ns (xs @ ys)"
  unfolding ordered_def
proof (intro allI impI)
  fix k assume k: "k < length (xs @ ys)"
  show "set (deps ns ((xs @ ys) ! k)) \<subseteq> set (take k (xs @ ys))"
  proof (cases "k < length xs")
    case True
    then show ?thesis using assms(1) by (simp add: ordered_def nth_append)
  next
    case False
    then have "set (deps ns ((xs @ ys) ! k)) \<subseteq> set xs"
      using k assms(2) by (simp add: nth_append)
    then show ?thesis using False by auto
  qed
qed

text \<open>With single edges, an in-degree that is used up means that every dependency is done.\<close>

lemma used_up_deps:
  assumes wf: "graph_wf ns" and once: "once ns" and i: "i < length ns"
    and R: "distinct R" "set R \<subseteq> {..<length ns}"
    and le: "int (length (deps ns i)) - (\<Sum>j \<in> set R. int (edge_mult ns j i)) \<le> 0"
  shows "set (deps ns i) \<subseteq> set R"
proof -
  let ?S = "{j \<in> set R. 0 < edge_mult ns j i}"
  have S: "?S \<subseteq> set (deps ns i)" using graph_wfD(4) [OF wf i] R(2) by auto
  have "(\<Sum>j \<in> set R. int (edge_mult ns j i)) = (\<Sum>j \<in> ?S. int (edge_mult ns j i))"
    by (rule sum.mono_neutral_right) auto
  also have "\<dots> \<le> (\<Sum>j \<in> ?S. 1)"
    by (rule sum_mono) (use once R(2) in \<open>auto simp: once_def\<close>)
  finally have "length (deps ns i) \<le> card ?S" using le by simp
  then have "card (set (deps ns i)) \<le> card ?S"
    using distinct_card [OF graph_wfD(1) [OF wf i]] by simp
  with S have "?S = set (deps ns i)" by (intro card_seteq) auto
  then show ?thesis by auto
qed

lemma kinv_step:
  assumes wf: "graph_wf ns" and inv: "kinv ns (c # Q) D R"
  shows "\<exists>D' new. relax (dependents (ns ! c)) D Q = Some (D', Q @ new) \<and> kinv ns (Q @ new) D' (R @ [c])"
proof -
  have len: "length D = length ns" and dist: "distinct (R @ c # Q)" and rng: "set (R @ c # Q) \<subseteq> {..<length ns}"
    and deg: "\<And>i. i < length ns \<Longrightarrow> D ! i = int (length (deps ns i)) - (\<Sum>j \<in> set R. int (edge_mult ns j i))"
    and mem: "\<And>i. i < length ns \<Longrightarrow> i \<in> set (R @ c # Q) \<longleftrightarrow> D ! i \<le> 0"
    and hd: "deps ns (hd (R @ c # Q)) = []" and ord: "once ns \<Longrightarrow> ordered ns (R @ c # Q)"
    using inv by (auto simp: kinv_def)
  have c: "c < length ns" using rng by simp
  have "set (dependents (ns ! c)) \<subseteq> {..<length D}" using graph_wfD(3) [OF wf c] len by simp
  then obtain D' new where r: "relax (dependents (ns ! c)) D Q = Some (D', Q @ new)" "length D' = length D"
    "\<And>i. i < length D \<Longrightarrow> D' ! i = D ! i - int (edge_mult ns c i)" "distinct new"
    "set new = {i. i < length D \<and> 0 < D ! i \<and> D' ! i \<le> 0}"
    using relax_spec [of "dependents (ns ! c)" D Q] by (auto simp: edge_mult_def)
  have c_notin: "c \<notin> set R" using dist by auto
  have deg': "D' ! i = int (length (deps ns i)) - (\<Sum>j \<in> set (R @ [c]). int (edge_mult ns j i))" if "i < length ns" for i
    using r(3) deg that len c_notin by simp
  have mem': "i \<in> set ((R @ [c]) @ Q @ new) \<longleftrightarrow> D' ! i \<le> 0" if i: "i < length ns" for i
  proof -
    have "D' ! i \<le> D ! i" using r(3) i len by simp
    moreover have "i \<in> set new \<longleftrightarrow> 0 < D ! i \<and> D' ! i \<le> 0" unfolding r(5) using i len by simp
    moreover have "i \<in> set (R @ [c]) \<or> i \<in> set Q \<longleftrightarrow> D ! i \<le> 0" using mem [OF i] by simp
    ultimately show ?thesis unfolding set_append Un_iff by linarith
  qed
  have new: "i < length ns" "i \<notin> set (R @ c # Q)" "D' ! i \<le> 0" if "i \<in> set new" for i
    using that r(5) mem [of i] len by auto
  have "distinct ((R @ [c]) @ Q @ new)" using dist r(4) new(2) by auto
  moreover have "set ((R @ [c]) @ Q @ new) \<subseteq> {..<length ns}" using rng new(1) by auto
  moreover have "deps ns (hd ((R @ [c]) @ Q @ new)) = []" using hd by (cases R) auto
  moreover have "ordered ns ((R @ [c]) @ Q @ new)" if o: "once ns"
  proof -
    have "set (deps ns i) \<subseteq> set (R @ c # Q)" if n: "i \<in> set new" for i
    proof -
      have "set (deps ns i) \<subseteq> set (R @ [c])"
        by (rule used_up_deps [OF wf o new(1) [OF n]])
          (use dist rng deg' [OF new(1) [OF n]] new(3) [OF n] in auto)
      then show ?thesis by auto
    qed
    from ordered_append [OF ord [OF o], of new] this show ?thesis by simp
  qed
  ultimately have "kinv ns (Q @ new) D' (R @ [c])"
    using r(2) len deg' mem' unfolding kinv_def by auto
  with r(1) show ?thesis by blast
qed

lemma kahn_spec:
  "graph_wf ns \<Longrightarrow> kinv ns Q D R \<Longrightarrow> \<exists>res D'. kahn ns Q D R = Inr res \<and> kinv ns [] D' res"
proof (induction ns Q D R rule: kahn.induct)
  case (1 ns D R)
  then show ?case by auto
next
  case (2 ns c Q D R)
  from "2.prems"(2) have c: "\<not> length ns \<le> c" by (simp add: kinv_def)
  from kinv_step [OF "2.prems"] obtain D' new where
    r: "relax (dependents (ns ! c)) D Q = Some (D', Q @ new)" and k: "kinv ns (Q @ new) D' (R @ [c])" by blast
  from "2.IH" [OF c r refl "2.prems"(1) k] c r show ?case by simp
qed

lemma topologicalSort_spec:
  assumes wf: "graph_wf (nodes g)"
  shows "\<exists>res D. topologicalSort g = Inr (res, g\<lparr>hasCycle := hasCycle g \<or> length res < length (nodes g)\<rparr>) \<and>
    kinv (nodes g) [] D res"
proof -
  let ?ns = "nodes g"
  let ?D = "map (\<lambda>node. int (length (dependencies node))) ?ns"
  let ?Q = "filter (\<lambda>i. deps ?ns i = []) [0..<length ?ns]"
  have "ordered ?ns ?Q" by (auto simp: ordered_def dest!: nth_mem)
  moreover have "?Q \<noteq> [] \<Longrightarrow> deps ?ns (hd ?Q) = []" using hd_in_set [of ?Q] by simp
  ultimately have "kinv ?ns ?Q ?D []" by (auto simp: kinv_def)
  from kahn_spec [OF wf this] show ?thesis
    by (auto simp: topologicalSort_def Let_def)
qed

text \<open>A closed set of nodes that misses one lies on a cycle.\<close>

lemma acyclic_closed_all:
  assumes wf: "graph_wf ns" and ac: "acyclic (edges ns)" and "C \<subseteq> {..<length ns}"
    and closed: "\<And>i. i < length ns \<Longrightarrow> set (deps ns i) \<subseteq> C \<Longrightarrow> i \<in> C"
  shows "C = {..<length ns}"
proof (rule ccontr)
  assume "C \<noteq> {..<length ns}"
  with assms(3) obtain i where i: "i < length ns" "i \<notin> C" by auto
  have "edges ns \<subseteq> {..<length ns} \<times> {..<length ns}"
    using graph_wfD(2) [OF wf] by (fastforce simp: edges_def)
  then have "finite (edges ns)" by (rule finite_subset) simp
  then have "wf (edges ns)" using ac by (rule finite_acyclic_wf)
  moreover have "i \<in> {..<length ns} - C" using i by simp
  ultimately obtain z where z: "z \<in> {..<length ns} - C" and
    min: "\<And>y. (y, z) \<in> edges ns \<Longrightarrow> y \<notin> {..<length ns} - C" by (rule wfE_min) blast
  have "set (deps ns z) \<subseteq> C"
    using min z graph_wfD(2) [OF wf, of z] by (fastforce simp: edges_def)
  with closed z show False by blast
qed

lemma kahn_complete:
  assumes wf: "graph_wf ns" and ac: "acyclic (edges ns)" and inv: "kinv ns [] D R"
  shows "set R = {..<length ns}"
proof (rule acyclic_closed_all [OF wf ac])
  show "set R \<subseteq> {..<length ns}" using inv by (simp add: kinv_def)
  fix i assume i: "i < length ns" and sub: "set (deps ns i) \<subseteq> set R"
  have one: "1 \<le> edge_mult ns j i" if j: "j \<in> set (deps ns i)" for j
  proof -
    have jn: "j < length ns" using graph_wfD(2) [OF wf i] j by auto
    have "i \<notin> set (deps ns j)"
    proof
      assume "i \<in> set (deps ns j)"
      then have "(i, j) \<in> edges ns" "(j, i) \<in> edges ns" using i j jn by (auto simp: edges_def)
      then have "(i, i) \<in> (edges ns)\<^sup>+" by (meson trancl.simps)
      with ac show False by (simp add: acyclic_def)
    qed
    from graph_wfD(5) [OF wf i jn j this] show ?thesis by simp
  qed
  have "int (length (deps ns i)) = (\<Sum>j \<in> set (deps ns i). 1)"
    using distinct_card [OF graph_wfD(1) [OF wf i]] by simp
  also have "\<dots> \<le> (\<Sum>j \<in> set (deps ns i). int (edge_mult ns j i))"
    by (rule sum_mono) (use one in force)
  also have "\<dots> \<le> (\<Sum>j \<in> set R. int (edge_mult ns j i))"
    by (rule sum_mono2) (use sub in auto)
  finally have "D ! i \<le> 0" using inv i by (simp add: kinv_def)
  then show "i \<in> set R" using inv i by (simp add: kinv_def)
qed

lemma ordered_acyclic:
  assumes "ordered ns R" and "set R = {..<length ns}"
  shows "acyclic (edges ns)"
proof -
  define pos where "pos i = (LEAST k. k < length R \<and> R ! k = i)" for i
  have pos: "pos i < length R \<and> R ! pos i = i" if "i < length ns" for i
  proof -
    have "i \<in> set R" using assms(2) that by simp
    then have "\<exists>k. k < length R \<and> R ! k = i" by (auto simp: in_set_conv_nth)
    then show ?thesis unfolding pos_def by (rule LeastI_ex)
  qed
  have "pos j < pos i" if "(j, i) \<in> edges ns" for i j
  proof -
    from that have i: "i < length ns" and j: "j \<in> set (deps ns i)" by (auto simp: edges_def)
    from assms(1) pos [OF i] j have "j \<in> set (take (pos i) R)" unfolding ordered_def by fastforce
    then obtain k where "k < pos i" "k < length R" "R ! k = j" by (auto simp: in_set_conv_nth)
    moreover from this have "pos j \<le> k" unfolding pos_def by (intro Least_le) simp
    ultimately show ?thesis by simp
  qed
  then have "edges ns \<subseteq> measure pos" by auto
  then show ?thesis by (meson acyclic_subset wf_acyclic wf_measure)
qed

section \<open>Execution layers\<close>

definition contig :: "(nat \<times> nat) list \<Rightarrow> bool" where
  "contig m \<longleftrightarrow> (\<forall>l \<in> snd ` set m. \<forall>l' \<le> l. l' \<in> snd ` set m)"

lemma layer_of_cases:
  assumes "m \<noteq> []" and "contig m"
  shows "layer_of ns m i = 0 \<or> layer_of ns m i - 1 \<in> snd ` set m"
proof (cases "deps ns i = []")
  case True
  then show ?thesis by (simp add: layer_of_def)
next
  case False
  let ?f = "\<lambda>dep. case map_of m dep of None \<Rightarrow> 0 | Some l \<Rightarrow> l"
  from assms have 0: "0 \<in> snd ` set m" by (cases m) (auto simp: contig_def)
  have "Max (set (map ?f (deps ns i))) \<in> set (map ?f (deps ns i))" using False by (intro Max_in) auto
  then obtain d where "Max (set (map ?f (deps ns i))) = ?f d" by auto
  moreover have "?f d \<in> snd ` set m" using 0 by (auto split: option.splits dest: map_of_SomeD intro: rev_image_eqI)
  ultimately show ?thesis using False by (simp add: layer_of_def)
qed

lemma assign_layers_spec:
  assumes "distinct (map fst m @ R)" and "contig m"
    and "m = [] \<Longrightarrow> R \<noteq> [] \<Longrightarrow> deps ns (hd R) = []"
  shows "map fst (assign_layers ns R m) = map fst m @ R \<and> contig (assign_layers ns R m)"
  using assms
proof (induction ns R m rule: assign_layers.induct)
  case (1 ns m)
  then show ?case by simp
next
  case (2 ns i R m)
  let ?m = "map_set i (layer_of ns m i) m"
  have new: "?m = m @ [(i, layer_of ns m i)]" using "2.prems"(1) by (intro map_set_new) auto
  have "contig ?m"
  proof (cases "m = []")
    case True
    then have "deps ns i = []" using "2.prems"(3) by simp
    then show ?thesis using True by (simp add: contig_def layer_of_def)
  next
    case False
    then have "layer_of ns m i = 0 \<or> layer_of ns m i - 1 \<in> snd ` set m"
      using "2.prems"(2) by (rule layer_of_cases)
    then show ?thesis using "2.prems"(2) unfolding new contig_def
      by (auto; metis diff_Suc_1 le_Suc_eq not0_implies_Suc le_SucE image_eqI snd_conv le_zero_eq)
  qed
  with "2.IH" "2.prems" new show ?case by auto
qed

text \<open>The layer assigned to a leg is one more than the largest layer of its dependencies.\<close>

definition lay :: "graph_node list \<Rightarrow> nat list \<Rightarrow> nat \<Rightarrow> nat" where
  "lay ns R i = (case map_of (assign_layers ns R []) i of None \<Rightarrow> 0 | Some l \<Rightarrow> l)"

lemma assign_layers_prefix:
  "distinct (map fst m @ R) \<Longrightarrow> \<exists>m'. assign_layers ns R m = m @ m' \<and> map fst m' = R"
proof (induction ns R m rule: assign_layers.induct)
  case (1 ns m)
  then show ?case by simp
next
  case (2 ns i R m)
  have new: "map_set i (layer_of ns m i) m = m @ [(i, layer_of ns m i)]"
    using "2.prems" by (intro map_set_new) auto
  with "2.IH" "2.prems" show ?case by auto
qed

lemma assign_layers_append: "assign_layers ns (xs @ ys) m = assign_layers ns ys (assign_layers ns xs m)"
  by (induction xs arbitrary: m) auto

lemma lay_step:
  assumes "distinct R" and "ordered ns R" and "i \<in> set R"
  shows "lay ns R i = (if deps ns i = [] then 0 else Max (set (map (lay ns R) (deps ns i))) + 1)"
proof -
  obtain k where k: "k < length R" "R ! k = i" using assms(3) by (auto simp: in_set_conv_nth)
  define m where "m = assign_layers ns (take k R) []"
  have R: "R = take k R @ i # drop (Suc k) R" using k id_take_nth_drop by blast
  obtain m' where m': "m = m'" "map fst m = take k R"
    using assign_layers_prefix [of "[]" "take k R" ns] assms(1) by (auto simp: m_def)
  have i: "i \<notin> set (take k R)" by (metis R assms(1) distinct.simps(2) distinct_append not_distinct_conv_prefix)
  then have "map_set i (layer_of ns m i) m = m @ [(i, layer_of ns m i)]"
    using m'(2) by (intro map_set_new) (metis list.set_map)
  then have "assign_layers ns R [] = assign_layers ns (drop (Suc k) R) (m @ [(i, layer_of ns m i)])"
    by (subst R) (simp add: assign_layers_append m_def)
  moreover have "distinct (map fst (m @ [(i, layer_of ns m i)]) @ drop (Suc k) R)"
    using assms(1) m'(2) by (metis R append.assoc append_Cons append_Nil fst_conv list.simps(8,9) map_append)
  ultimately obtain m2 where m2: "assign_layers ns R [] = (m @ [(i, layer_of ns m i)]) @ m2"
    using assign_layers_prefix by metis
  have old: "map_of m j = Some (lay ns R j)" if "j \<in> set (take k R)" for j
  proof -
    have "j \<in> fst ` set m" using that m'(2) by (metis list.set_map)
    then obtain l where "map_of m j = Some l" by (metis map_of_eq_None_iff not_None_eq)
    then show ?thesis unfolding lay_def m2 by simp
  qed
  have "set (deps ns i) \<subseteq> set (take k R)" using assms(2) k by (auto simp: ordered_def)
  then have "map (\<lambda>d. case map_of m d of None \<Rightarrow> 0 | Some l \<Rightarrow> l) (deps ns i) = map (lay ns R) (deps ns i)"
    using old by auto
  moreover have "map_of m i = None" using i m'(2) by (metis list.set_map map_of_eq_None_iff)
  then have "lay ns R i = layer_of ns m i" unfolding lay_def m2 by (simp add: map_add_def)
  ultimately show ?thesis by (simp add: layer_of_def)
qed

text \<open>Grouping puts each leg in the list of its layer.\<close>

abbreviation group_layers :: "(nat \<times> nat) list \<Rightarrow> nat list list" where
  "group_layers m \<equiv> foldl (\<lambda>layers (i, l). put_layer l i layers) [] m"

lemma length_put_layer [simp]: "length (put_layer l i layers) = max (length layers) (Suc l)"
  by (simp add: put_layer_def max_def)

lemma set_put_layer:
  "k < length (put_layer l i layers) \<Longrightarrow>
   set (put_layer l i layers ! k) = (if k < length layers then set (layers ! k) else {}) \<union> (if k = l then {i} else {})"
  by (auto simp: put_layer_def nth_append nth_list_update nth_Cons' split: if_splits)

lemma concat_put_layer: "mset (concat (put_layer l i layers)) = add_mset i (mset (concat layers))"
proof (cases "l < length layers")
  case True
  then have "layers = take l layers @ layers ! l # drop (Suc l) layers" by (rule id_take_nth_drop)
  then have "mset (concat layers) = mset (concat (take l layers)) + mset (layers ! l) + mset (concat (drop (Suc l) layers))"
    by (metis add.assoc concat.simps(2) concat_append mset_append)
  with True show ?thesis by (simp add: put_layer_def upd_conv_take_nth_drop)
next
  case False
  have "concat (replicate n []) = []" for n by (induction n) auto
  with False show ?thesis by (simp add: put_layer_def)
qed

lemma group_layers_spec:
  "(\<forall>k. k < length (group_layers m) \<longleftrightarrow> (\<exists>l \<in> snd ` set m. k \<le> l)) \<and>
   (\<forall>k < length (group_layers m). set (group_layers m ! k) = {i. (i, k) \<in> set m}) \<and>
   mset (concat (group_layers m)) = mset (map fst m)"
proof (induction m rule: rev_induct)
  case Nil
  show ?case by simp
next
  case (snoc p m)
  obtain i l where p: "p = (i, l)" by fastforce
  have len: "\<And>k. k < length (group_layers m) \<longleftrightarrow> (\<exists>l \<in> snd ` set m. k \<le> l)" using snoc by blast
  have "set (put_layer l i (group_layers m) ! k) = {i'. (i', k) \<in> set (m @ [p])}"
    if "k < length (put_layer l i (group_layers m))" for k
  proof -
    have "(if k < length (group_layers m) then set (group_layers m ! k) else {}) = {i. (i, k) \<in> set m}"
      using snoc len [of k] by (auto intro: rev_bexI)
    with set_put_layer [OF that] p show ?thesis by auto
  qed
  then show ?case using snoc p len by (auto simp: concat_put_layer less_Suc_eq_le less_max_iff_disj)
qed

text \<open>What the layers of an order that has every leg once say, for any multiplicity of edges.\<close>

lemma buildExecutionLayers_partition:
  assumes "distinct R" and "R \<noteq> [] \<Longrightarrow> deps ns (hd R) = []"
  shows "mset (concat (buildExecutionLayers ns R)) = mset R \<and> [] \<notin> set (buildExecutionLayers ns R)"
proof -
  let ?m = "assign_layers ns R []"
  have m: "map fst ?m = R" "contig ?m" using assign_layers_spec [of "[]" R ns] assms by (auto simp: contig_def)
  have "set (group_layers ?m ! k) \<noteq> {}" if "k < length (group_layers ?m)" for k
  proof -
    from that group_layers_spec [of ?m] obtain l where "l \<in> snd ` set ?m" "k \<le> l" by blast
    with m(2) have "k \<in> snd ` set ?m" by (auto simp: contig_def)
    with that group_layers_spec [of ?m] show ?thesis by force
  qed
  then have "[] \<notin> set (group_layers ?m)" by (auto simp: in_set_conv_nth)
  with m(1) group_layers_spec [of ?m] show ?thesis by (simp add: buildExecutionLayers_def)
qed

lemma in_layer_iff:
  assumes "distinct R" and "k < length (buildExecutionLayers ns R)"
  shows "i \<in> set (buildExecutionLayers ns R ! k) \<longleftrightarrow> i \<in> set R \<and> lay ns R i = k"
proof -
  let ?m = "assign_layers ns R []"
  have m: "map fst ?m = R" using assign_layers_prefix [of "[]" R ns] assms(1) by auto
  then have "distinct (map fst ?m)" using assms(1) by simp
  then have "(i, k) \<in> set ?m \<longleftrightarrow> map_of ?m i = Some k" by simp
  moreover have "map_of ?m i \<noteq> None \<longleftrightarrow> i \<in> set R" using m by (metis list.set_map map_of_eq_None_iff)
  ultimately show ?thesis using assms(2) group_layers_spec [of ?m]
    by (auto simp: buildExecutionLayers_def lay_def split: option.splits)
qed

lemma lay_in_range:
  assumes "distinct R" and "i \<in> set R"
  shows "lay ns R i < length (buildExecutionLayers ns R)"
proof -
  let ?m = "assign_layers ns R []"
  have m: "map fst ?m = R" using assign_layers_prefix [of "[]" R ns] assms(1) by auto
  then obtain l where l: "map_of ?m i = Some l" using assms(2) by (metis list.set_map map_of_eq_None_iff not_None_eq)
  then have "l \<in> snd ` set ?m" by (auto dest: map_of_SomeD intro: rev_image_eqI)
  with l group_layers_spec [of ?m] show ?thesis by (auto simp: buildExecutionLayers_def lay_def)
qed

text \<open>The legs of layer \<open>k\<close> have all their dependencies in earlier layers.\<close>

lemma layers_respect_deps:
  assumes "distinct R" and "ordered ns R" and "k < length (buildExecutionLayers ns R)"
    and "i \<in> set (buildExecutionLayers ns R ! k)" and "j \<in> set (deps ns i)"
  shows "\<exists>k' < k. j \<in> set (buildExecutionLayers ns R ! k')"
proof -
  have i: "i \<in> set R" "lay ns R i = k" using in_layer_iff [OF assms(1,3)] assms(4) by auto
  then obtain p where "p < length R" "R ! p = i" by (auto simp: in_set_conv_nth)
  with assms(2,5) have j: "j \<in> set R" unfolding ordered_def by (meson in_set_takeD subsetD)
  have "lay ns R j \<le> Max (set (map (lay ns R) (deps ns i)))" using assms(5) by (intro Max_ge) auto
  with lay_step [OF assms(1,2) i(1)] i(2) assms(5) have "lay ns R j < k" by (auto simp: less_Suc_eq_le)
  with in_layer_iff [OF assms(1) lay_in_range [OF assms(1) j]] j show ?thesis by blast
qed

section \<open>Construction\<close>

definition edge_upd :: "graph_node list \<Rightarrow> nat \<times> nat \<Rightarrow> graph_node list" where
  "edge_upd ns e = (let ns' = ns[fst e := push_dependent (snd e) (ns ! fst e)]
                    in ns'[snd e := push_dependency (fst e) (ns' ! snd e)])"

definition in_range :: "nat \<Rightarrow> nat \<times> nat \<Rightarrow> bool" where
  "in_range n e \<longleftrightarrow> fst e < n \<and> snd e < n"

lemma addEdge_in_range:
  "in_range (length (nodes g)) (j, i) \<Longrightarrow> addEdge g j i = Inr (g\<lparr>nodes := edge_upd (nodes g) (j, i)\<rparr>)"
  by (simp add: addEdge_def edge_upd_def in_range_def Let_def)

lemma length_edge_upd [simp]: "length (edge_upd ns e) = length ns"
  by (simp add: edge_upd_def Let_def)

lemma length_foldl_edge_upd [simp]: "length (foldl edge_upd ns es) = length ns"
  by (induction es arbitrary: ns) auto

lemma edge_upd_deps:
  assumes "in_range (length ns) (j, i)" and "k < length ns"
  shows "deps (edge_upd ns (j, i)) k = (if k = i \<and> j \<notin> set (deps ns i) then deps ns i @ [j] else deps ns k)"
  using assms by (auto simp: edge_upd_def in_range_def Let_def nth_list_update push_dependent_def push_dependency_def)

lemma edge_upd_dependents:
  assumes "in_range (length ns) (j, i)" and "k < length ns"
  shows "dependents (edge_upd ns (j, i) ! k) =
    (if k = j \<and> i \<notin> set (deps ns j) then dependents (ns ! j) @ [i] else dependents (ns ! k))"
  using assms by (auto simp: edge_upd_def in_range_def Let_def nth_list_update push_dependent_def push_dependency_def)

text \<open>The nodes after a sequence of edges.\<close>

definition empty_nodes :: "nat \<Rightarrow> graph_node list" where
  "empty_nodes n = nodes (createEmptyGraph n)"

lemma length_empty_nodes [simp]: "length (empty_nodes n) = n"
  by (simp add: empty_nodes_def createEmptyGraph_def)

lemma empty_nodes_nth [simp]: "i < n \<Longrightarrow> deps (empty_nodes n) i = []" "i < n \<Longrightarrow> dependents (empty_nodes n ! i) = []"
  by (simp_all add: empty_nodes_def createEmptyGraph_def)

lemma edges_inv:
  assumes "list_all (in_range n) es"
  shows "(\<forall>i < n. set (deps (foldl edge_upd (empty_nodes n) es) i) = {j. (j, i) \<in> set es} \<and>
      distinct (deps (foldl edge_upd (empty_nodes n) es) i)) \<and>
    (\<forall>j < n. \<forall>i. edge_mult (foldl edge_upd (empty_nodes n) es) j i \<le> count_list es (j, i) \<and>
      ((j, i) \<in> set es \<and> (i, j) \<notin> set es \<longrightarrow> 0 < edge_mult (foldl edge_upd (empty_nodes n) es) j i))"
  using assms
proof (induction es rule: rev_induct)
  case Nil
  show ?case by (simp add: edge_mult_def)
next
  case (snoc e es)
  obtain j i where e: "e = (j, i)" by fastforce
  let ?ns = "foldl edge_upd (empty_nodes n) es"
  have r: "in_range (length ?ns) (j, i)" and es: "list_all (in_range n) es" using snoc.prems e by auto
  note IH = snoc.IH [OF es]
  have jn: "j < n" "i < n" using r by (auto simp: in_range_def)
  have d: "deps (edge_upd ?ns e) k = (if k = i \<and> j \<notin> set (deps ?ns i) then deps ?ns i @ [j] else deps ?ns k)"
    if "k < n" for k using edge_upd_deps [OF r] that e by simp
  have m: "edge_mult (edge_upd ?ns e) k k' = edge_mult ?ns k k' + (if k = j \<and> k' = i \<and> i \<notin> set (deps ?ns j) then 1 else 0)"
    if "k < n" for k k' using edge_upd_dependents [OF r] that e by (simp add: edge_mult_def)
  have di: "i \<in> set (deps ?ns j) \<longleftrightarrow> (i, j) \<in> set es" using IH jn by blast
  have "\<forall>k < n. set (deps (edge_upd ?ns e) k) = {j. (j, k) \<in> set (es @ [e])} \<and> distinct (deps (edge_upd ?ns e) k)"
    using IH d jn e by auto
  moreover have "edge_mult (edge_upd ?ns e) k k' \<le> count_list (es @ [e]) (k, k')" if "k < n" for k k'
  proof -
    have "edge_mult ?ns k k' \<le> count_list es (k, k')" using IH that by blast
    then show ?thesis using m [OF that, of k'] e by auto
  qed
  moreover have "0 < edge_mult (edge_upd ?ns e) k k'"
    if "k < n" "(k, k') \<in> set (es @ [e])" "(k', k) \<notin> set (es @ [e])" for k k'
    using IH m [OF that(1), of k'] that e di by auto
  ultimately show ?case by simp
qed

lemma foldl_edges_wf:
  assumes "list_all (in_range n) es"
  shows "graph_wf (foldl edge_upd (empty_nodes n) es) \<and> edges (foldl edge_upd (empty_nodes n) es) = set es \<and>
    (distinct es \<longrightarrow> once (foldl edge_upd (empty_nodes n) es))"
proof -
  let ?ns = "foldl edge_upd (empty_nodes n) es"
  note inv = edges_inv [OF assms]
  have rng: "j < n \<and> i < n" if "(j, i) \<in> set es" for i j
    using assms that by (auto simp: list_all_iff in_range_def)
  have pos: "(j, i) \<in> set es" if "j < n" "0 < edge_mult ?ns j i" for i j
  proof -
    have "0 < count_list es (j, i)" using inv that by (meson order_less_le_trans)
    then show ?thesis using count_notin by fastforce
  qed
  have sub: "set (dependents (?ns ! j)) \<subseteq> {..<n}" if "j < n" for j
  proof
    fix i assume "i \<in> set (dependents (?ns ! j))"
    then have "0 < edge_mult ?ns j i" by (metis count_list_0_iff gr0I edge_mult_def)
    with pos [OF that] rng show "i \<in> {..<n}" by auto
  qed
  have dep: "set (deps ?ns i) = {j. (j, i) \<in> set es}" "distinct (deps ?ns i)" if "i < n" for i
    using inv that by blast+
  have "graph_wf ?ns" unfolding graph_wf_def length_foldl_edge_upd length_empty_nodes
  proof (intro allI impI conjI)
    fix i assume i: "i < n"
    show "distinct (deps ?ns i)" by (rule dep(2) [OF i])
    show "set (deps ?ns i) \<subseteq> {..<n}" using dep(1) [OF i] rng by auto
    show "set (dependents (?ns ! i)) \<subseteq> {..<n}" by (rule sub [OF i])
    fix j assume j: "j < n"
    show "j \<in> set (deps ?ns i)" if "0 < edge_mult ?ns j i" using pos [OF j that] dep(1) [OF i] by simp
    show "0 < edge_mult ?ns j i" if "j \<in> set (deps ?ns i) \<and> i \<notin> set (deps ?ns j)"
      using that inv j dep(1) [OF i] dep(1) [OF j] by simp
  qed
  moreover have "edges ?ns = set es" using inv rng by (fastforce simp: edges_def)
  moreover have "once ?ns" if "distinct es"
    unfolding once_def
  proof (intro allI impI)
    fix j i assume "j < length ?ns"
    then have "edge_mult ?ns j i \<le> count_list es (j, i)" using inv by simp
    also have "\<dots> \<le> 1" using that by (metis count_mset distinct_count_atmost_1 le_refl zero_le_one)
    finally show "edge_mult ?ns j i \<le> 1" .
  qed
  ultimately show ?thesis by blast
qed

section \<open>Execution plans\<close>

text \<open>
  A complete plan has every leg exactly once, in the order and in the layers, with no empty
  layer. It is valid for a dependency relation when a leg never comes before, or in the same
  layer as, a leg it depends on.
\<close>

definition complete_plan :: "nat \<Rightarrow> tx_graph \<Rightarrow> bool" where
  "complete_plan n g \<longleftrightarrow> mset (topologicalOrder g) = mset [0..<n] \<and>
     mset (concat (executionLayers g)) = mset [0..<n] \<and> [] \<notin> set (executionLayers g) \<and> \<not> hasCycle g"

definition valid_plan :: "(nat \<times> nat) set \<Rightarrow> tx_graph \<Rightarrow> bool" where
  "valid_plan E g \<longleftrightarrow>
     (\<forall>k < length (topologicalOrder g). \<forall>j. (j, topologicalOrder g ! k) \<in> E \<longrightarrow> j \<in> set (take k (topologicalOrder g))) \<and>
     (\<forall>k < length (executionLayers g). \<forall>i \<in> set (executionLayers g ! k). \<forall>j. (j, i) \<in> E \<longrightarrow>
        (\<exists>k' < k. j \<in> set (executionLayers g ! k')))"

lemma finish_graph_accepts:
  assumes wf: "graph_wf (nodes g)" and ac: "acyclic (edges (nodes g))" and "\<not> hasCycle g" and n: "n = length (nodes g)"
  shows "\<exists>g'. finish_graph n g = Inr g' \<and> nodes g' = nodes g \<and> complete_plan n g' \<and>
    (once (nodes g) \<longrightarrow> valid_plan (edges (nodes g)) g')"
proof -
  obtain R D where ts: "topologicalSort g = Inr (R, g\<lparr>hasCycle := hasCycle g \<or> length R < length (nodes g)\<rparr>)"
    and inv: "kinv (nodes g) [] D R" using topologicalSort_spec [OF wf] by blast
  have R: "set R = {..<n}" "distinct R" using kahn_complete [OF wf ac inv] inv n by (auto simp: kinv_def)
  then have len: "length R = n" using distinct_card by fastforce
  have ord: "ordered (nodes g) R" if "once (nodes g)" using inv that by (simp add: kinv_def)
  have perm: "mset R = mset [0..<n]" using R by (metis atLeast0LessThan distinct_upt set_eq_iff_mset_eq_distinct set_upt)
  let ?g' = "g\<lparr>hasCycle := False, executionLayers := buildExecutionLayers (nodes g) R, topologicalOrder := R\<rparr>"
  have f: "finish_graph n g = Inr ?g'" using ts len n assms(3) by (simp add: finish_graph_def)
  have "R \<noteq> [] \<Longrightarrow> deps (nodes g) (hd R) = []" using inv by (simp add: kinv_def)
  with buildExecutionLayers_partition [OF R(2)] perm have "complete_plan n ?g'" by (simp add: complete_plan_def)
  moreover have "valid_plan (edges (nodes g)) ?g'" if o: "once (nodes g)"
    using ord [OF o] layers_respect_deps [OF R(2) ord [OF o]]
    by (auto simp: valid_plan_def ordered_def edges_def)
  ultimately show ?thesis using f by auto
qed

lemma finish_graph_rejects:
  assumes wf: "graph_wf (nodes g)" and "once (nodes g)" and cyc: "\<not> acyclic (edges (nodes g))" and n: "n = length (nodes g)"
  shows "finish_graph n g = Inl (BadRequest ''Cycle detected in transaction dependency graph'')"
proof -
  obtain R D where ts: "topologicalSort g = Inr (R, g\<lparr>hasCycle := hasCycle g \<or> length R < length (nodes g)\<rparr>)"
    and inv: "kinv (nodes g) [] D R" using topologicalSort_spec [OF wf] by blast
  have R: "distinct R" "set R \<subseteq> {..<n}" "ordered (nodes g) R" using inv assms(2) n by (auto simp: kinv_def)
  with cyc n have "set R \<noteq> {..<n}" using ordered_acyclic by blast
  with R have "length R < n" by (metis card_lessThan distinct_card finite_lessThan psubsetI psubset_card_mono)
  with ts show ?thesis by (simp add: finish_graph_def)
qed

section \<open>The two builders as edge lists\<close>

definition explicit_deps :: "swap_leg_dto \<Rightarrow> number list" where
  "explicit_deps leg = (case field_opt (sl_dependencies leg) of None \<Rightarrow> [] | Some ds \<Rightarrow> ds)"

definition dep_index_ok :: "nat \<Rightarrow> nat \<Rightarrow> number \<Rightarrow> bool" where
  "dep_index_ok n i d \<longleftrightarrow> 0 \<le> d \<and> d < of_nat n \<and> d \<noteq> of_nat i \<and> of_int \<lfloor>d\<rfloor> = d"

definition valid_deps :: "swap_leg_dto list \<Rightarrow> bool" where
  "valid_deps legs \<longleftrightarrow> (\<forall>i < length legs. \<forall>d \<in> set (explicit_deps (legs ! i)). dep_index_ok (length legs) i d)"

definition dto_leg_edges :: "swap_leg_dto list \<Rightarrow> nat \<Rightarrow> (nat \<times> nat) list" where
  "dto_leg_edges legs i = map (\<lambda>d. (nat \<lfloor>d\<rfloor>, i)) (explicit_deps (legs ! i)) @
     map (\<lambda>j. (j, i)) (filter (\<lambda>j. hasImplicitDependency (legs ! i) (legs ! j)) [0..<i])"

definition dto_edges :: "swap_leg_dto list \<Rightarrow> (nat \<times> nat) list" where
  "dto_edges legs = concat (map (dto_leg_edges legs) [0..<length legs])"

abbreviation with_edges :: "tx_graph \<Rightarrow> (nat \<times> nat) list \<Rightarrow> tx_graph" where
  "with_edges g es \<equiv> g\<lparr>nodes := foldl edge_upd (nodes g) es\<rparr>"

lemma dep_index_nat:
  assumes "dep_index_ok n i d" shows "nat \<lfloor>d\<rfloor> < n" "nat \<lfloor>d\<rfloor> \<noteq> i"
proof -
  from assms have d: "d = of_int \<lfloor>d\<rfloor>" "0 \<le> \<lfloor>d\<rfloor>" "d < of_nat n" "d \<noteq> of_nat i"
    by (auto simp: dep_index_ok_def)
  from d(1,3) have "(of_int \<lfloor>d\<rfloor> :: rat) < of_int (int n)" by simp
  then have "\<lfloor>d\<rfloor> < int n" by (simp only: of_int_less_iff)
  with d(2) show "nat \<lfloor>d\<rfloor> < n" by linarith
  show "nat \<lfloor>d\<rfloor> \<noteq> i"
  proof
    assume "nat \<lfloor>d\<rfloor> = i"
    with d(2) have "\<lfloor>d\<rfloor> = int i" by linarith
    with d(1) have "d = of_nat i" by (metis of_int_of_nat_eq)
    with d(4) show False ..
  qed
qed

lemma add_explicit_ok:
  "i < n \<Longrightarrow> length (nodes g) = n \<Longrightarrow> (\<forall>d \<in> set ds. dep_index_ok n i d) \<Longrightarrow>
   add_explicit n i ds g = Inr (with_edges g (map (\<lambda>d. (nat \<lfloor>d\<rfloor>, i)) ds))"
proof (induction ds arbitrary: g)
  case Nil
  then show ?case by simp
next
  case (Cons d ds)
  then have d: "dep_index_ok n i d" by simp
  then have "\<not> (d < 0 \<or> of_nat n \<le> d)" "d \<noteq> of_nat i" "of_int \<lfloor>d\<rfloor> = d" by (auto simp: dep_index_ok_def)
  moreover have "addEdge g (nat \<lfloor>d\<rfloor>) i = Inr (with_edges g [(nat \<lfloor>d\<rfloor>, i)])"
    using dep_index_nat [OF d] Cons.prems by (simp add: addEdge_in_range in_range_def)
  ultimately show ?case using Cons by simp
qed

lemma add_explicit_bad:
  "\<not> (\<forall>d \<in> set ds. dep_index_ok n i d) \<Longrightarrow> \<not> is_ok (add_explicit n i ds g)"
proof (induction ds arbitrary: g)
  case Nil
  then show ?case by simp
next
  case (Cons d ds)
  show ?case
  proof (cases "dep_index_ok n i d")
    case True
    with Cons have "\<And>g'. \<not> is_ok (add_explicit n i ds g')" by simp
    then show ?thesis by (auto simp: is_ok_iff rbind_Inr_iff)
  next
    case False
    then show ?thesis by (auto simp: dep_index_ok_def)
  qed
qed

lemma add_implicit_ok:
  "i < length (nodes g) \<Longrightarrow> (\<forall>j \<in> set js. j < length (nodes g)) \<Longrightarrow>
   add_implicit legs i js g =
     Inr (with_edges g (map (\<lambda>j. (j, i)) (filter (\<lambda>j. hasImplicitDependency (legs ! i) (legs ! j)) js)))"
  by (induction js arbitrary: g) (auto simp: addEdge_in_range in_range_def)

lemma add_dto_edges_ok:
  assumes "valid_deps legs" and "list_all (\<lambda>i. i < length legs) is" and "length (nodes g) = length legs"
  shows "add_dto_edges legs is g = Inr (with_edges g (concat (map (dto_leg_edges legs) is)))"
  using assms(2,3)
proof (induction "is" arbitrary: g)
  case Nil
  then show ?case by simp
next
  case (Cons i "is")
  have ok: "\<forall>d \<in> set (explicit_deps (legs ! i)). dep_index_ok (length legs) i d"
    using assms(1) Cons.prems(1) by (simp add: valid_deps_def)
  let ?es = "map (\<lambda>d. (nat \<lfloor>d\<rfloor>, i)) (explicit_deps (legs ! i))"
  have "(case field_opt (sl_dependencies (legs ! i)) of None \<Rightarrow> Inr g | Some ds \<Rightarrow> add_explicit (length legs) i ds g) =
      Inr (with_edges g ?es)"
    using ok Cons.prems by (auto simp: explicit_deps_def add_explicit_ok split: option.splits)
  moreover have "add_implicit legs i [0..<i] (with_edges g ?es) = Inr (with_edges g (dto_leg_edges legs i))"
    using Cons.prems by (simp add: add_implicit_ok dto_leg_edges_def)
  ultimately show ?case using Cons by simp
qed

lemma add_dto_edges_bad:
  assumes "i \<in> set is" and "\<not> (\<forall>d \<in> set (explicit_deps (legs ! i)). dep_index_ok (length legs) i d)"
  shows "\<not> is_ok (add_dto_edges legs is g)"
  using assms(1)
proof (induction "is" arbitrary: g)
  case Nil
  then show ?case by simp
next
  case (Cons k "is")
  show ?case
  proof (cases "k = i")
    case True
    from assms(2) obtain ds where ds: "field_opt (sl_dependencies (legs ! i)) = Some ds"
      "\<not> (\<forall>d \<in> set ds. dep_index_ok (length legs) i d)" by (cases "field_opt (sl_dependencies (legs ! i))") (auto simp: explicit_deps_def)
    from add_explicit_bad [OF ds(2)] True ds(1) show ?thesis by (auto simp: is_ok_iff rbind_Inr_iff)
  next
    case False
    with Cons show ?thesis by (auto simp: is_ok_iff rbind_Inr_iff)
  qed
qed

lemma dto_edges_in_range:
  assumes "valid_deps legs" shows "list_all (in_range (length legs)) (dto_edges legs)"
  using assms dep_index_nat
  by (fastforce simp: list_all_iff dto_edges_def dto_leg_edges_def in_range_def valid_deps_def)

lemma buildGraphFromDtos_eq:
  assumes "valid_deps legs"
  shows "buildGraphFromDtos legs = finish_graph (length legs) (with_edges (createEmptyGraph (length legs)) (dto_edges legs))"
  using add_dto_edges_ok [OF assms, of "[0..<length legs]" "createEmptyGraph (length legs)"]
  by (simp add: buildGraphFromDtos_def dto_edges_def list_all_iff createEmptyGraph_def)

lemma buildGraphFromDtos_bad: "\<not> valid_deps legs \<Longrightarrow> \<not> is_ok (buildGraphFromDtos legs)"
  using add_dto_edges_bad [of _ "[0..<length legs]" legs]
  by (fastforce simp: valid_deps_def buildGraphFromDtos_def is_ok_iff rbind_Inr_iff)

lemma built_from_edges:
  assumes "list_all (in_range n) es"
  defines "g \<equiv> with_edges (createEmptyGraph n) es"
  shows "graph_wf (nodes g)" "edges (nodes g) = set es" "distinct es \<Longrightarrow> once (nodes g)"
    "\<not> hasCycle g" "length (nodes g) = n"
  using foldl_edges_wf [OF assms(1)] by (simp_all add: g_def empty_nodes_def createEmptyGraph_def)

lemma buildGraphFromDtos_accepts:
  assumes "valid_deps legs" and "acyclic (set (dto_edges legs))"
  shows "\<exists>g. buildGraphFromDtos legs = Inr g \<and> complete_plan (length legs) g"
proof -
  let ?g = "with_edges (createEmptyGraph (length legs)) (dto_edges legs)"
  note b = built_from_edges [OF dto_edges_in_range [OF assms(1)]]
  have "acyclic (edges (nodes ?g))" using assms(2) b(2) by simp
  from finish_graph_accepts [OF b(1) this b(4) b(5) [symmetric]]
  show ?thesis unfolding buildGraphFromDtos_eq [OF assms(1)] by blast
qed

section \<open>Properties\<close>

text \<open>
  C14. When no dependency of a leg is given twice (neither repeated in its list nor listed and
  implied by the assets), the builder accepts exactly the batches whose indices are valid and
  whose dependencies have no cycle, and the plan it returns has every leg once and never
  schedules a leg before, or together with, a leg it depends on.
\<close>

theorem buildGraphFromDtos_correct:
  assumes "distinct (dto_edges legs)"
  shows "(is_ok (buildGraphFromDtos legs) \<longleftrightarrow> valid_deps legs \<and> acyclic (set (dto_edges legs))) \<and>
    (\<forall>g. buildGraphFromDtos legs = Inr g \<longrightarrow>
       complete_plan (length legs) g \<and> valid_plan (set (dto_edges legs)) g)"
proof (cases "valid_deps legs")
  case True
  let ?g = "with_edges (createEmptyGraph (length legs)) (dto_edges legs)"
  note b = built_from_edges [OF dto_edges_in_range [OF True]]
  note once = b(3) [OF assms]
  show ?thesis
  proof (cases "acyclic (set (dto_edges legs))")
    case ac: True
    have "acyclic (edges (nodes ?g))" using ac b(2) by simp
    from finish_graph_accepts [OF b(1) this b(4) b(5) [symmetric]] once b(2) True ac
    show ?thesis unfolding buildGraphFromDtos_eq [OF True] by auto
  next
    case cyc: False
    have "\<not> acyclic (edges (nodes ?g))" using cyc b(2) by simp
    from finish_graph_rejects [OF b(1) once this b(5) [symmetric]] cyc
    show ?thesis unfolding buildGraphFromDtos_eq [OF True] by simp
  qed
next
  case False
  then show ?thesis using buildGraphFromDtos_bad [OF False] by (auto simp: is_ok_iff)
qed

text \<open>
  C28. Whatever is repeated, a batch with valid indices and no cycle is accepted, and the plan has
  every leg exactly once; so a batch whose legs only depend on earlier legs, as
  \<^verbatim>\<open>createBatch\<close> requires, always gets a plan.
\<close>

theorem buildGraphFromDtos_complete:
  assumes "valid_deps legs" and "acyclic (set (dto_edges legs))"
  shows "\<exists>g. buildGraphFromDtos legs = Inr g \<and> complete_plan (length legs) g"
  using assms by (rule buildGraphFromDtos_accepts)

text \<open>Example batches: swaps given by their assets and dependencies.\<close>

definition demo_leg :: "string \<Rightarrow> string \<Rightarrow> number list \<Rightarrow> swap_leg_dto" where
  "demo_leg src dst ds = \<lparr>sl_contractId = ''C'', sl_method = ''swap'', sl_args = Undefined,
     sl_sourceAssetCode = src, sl_sourceAssetIssuer = Undefined,
     sl_destAssetCode = dst, sl_destAssetIssuer = Undefined,
     sl_amount = 10, sl_minAmountOut = 9, sl_maxAmountOut = Undefined,
     sl_dependencies = Val ds, sl_isConditional = Undefined, sl_conditional = Undefined\<rparr>"

definition demo_chain :: "swap_leg_dto list" where
  "demo_chain = [demo_leg ''USD'' ''EUR'' [], demo_leg ''EUR'' ''JPY'' [], demo_leg ''GBP'' ''CHF'' [1]]"

definition demo_twice :: "swap_leg_dto list" where
  "demo_twice = [demo_leg ''USD'' ''EUR'' [], demo_leg ''GBP'' ''CHF'' [], demo_leg ''NOK'' ''SEK'' [1],
     demo_leg ''EUR'' ''JPY'' [0, 2]]"

lemma demo_edges: "dto_edges demo_chain = [(0, 1), (1, 2)]"
  "dto_edges demo_twice = [(1, 2), (0, 3), (2, 3), (0, 3)]"
  by (simp_all add: dto_edges_def dto_leg_edges_def explicit_deps_def demo_chain_def demo_twice_def
      demo_leg_def hasImplicitDependency_def upt_rec)

lemma demo_valid: "valid_deps demo_chain" "valid_deps demo_twice"
  by (simp_all add: valid_deps_def explicit_deps_def dep_index_ok_def demo_chain_def demo_twice_def
      demo_leg_def All_less_Suc2 numeral_eq_Suc)

definition demo_cycle :: "swap_leg_dto list" where
  "demo_cycle = [demo_leg ''USD'' ''EUR'' [], demo_leg ''GBP'' ''CHF'' [2], demo_leg ''EUR'' ''JPY'' [0, 1]]"

lemma demo_cycle_edges: "dto_edges demo_cycle = [(2, 1), (0, 2), (1, 2), (0, 2)]"
  by (simp add: dto_edges_def dto_leg_edges_def explicit_deps_def demo_cycle_def
      demo_leg_def hasImplicitDependency_def upt_rec)

lemma demo_cycle_valid: "valid_deps demo_cycle"
  by (simp add: valid_deps_def explicit_deps_def dep_index_ok_def demo_cycle_def
      demo_leg_def All_less_Suc2 numeral_eq_Suc)

lemma demo_lengths: "length demo_chain = 3" "length demo_twice = 4" "length demo_cycle = 3"
  by (simp_all add: demo_chain_def demo_twice_def demo_cycle_def)

lemma demo_finish:
  "map_sum (\<lambda>e. e) (\<lambda>g. (topologicalOrder g, executionLayers g))
     (finish_graph 3 (with_edges (createEmptyGraph 3) [(0, 1), (1, 2)])) = Inr ([0, 1, 2], [[0], [1], [2]])"
  "map_sum (\<lambda>e. e) (\<lambda>g. (topologicalOrder g, executionLayers g))
     (finish_graph 4 (with_edges (createEmptyGraph 4) [(1, 2), (0, 3), (2, 3), (0, 3)])) =
     Inr ([0, 1, 3, 2], [[0, 1], [3, 2]])"
  "map_sum (\<lambda>e. e) (\<lambda>g. (topologicalOrder g, executionLayers g))
     (finish_graph 3 (with_edges (createEmptyGraph 3) [(2, 1), (0, 2), (1, 2), (0, 2)])) =
     Inr ([0, 2, 1], [[0], [2], [1]])"
  by code_simp+

lemma demo_acyclic: "acyclic {(0, 1), (1, 2 :: nat)}" "acyclic {(1, 2), (0, 3), (2, 3 :: nat)}"
proof -
  have "{(0, 1), (1, 2 :: nat)} \<subseteq> less_than" "{(1, 2), (0, 3), (2, 3 :: nat)} \<subseteq> less_than" by auto
  then show "acyclic {(0, 1), (1, 2 :: nat)}" "acyclic {(1, 2), (0, 3), (2, 3 :: nat)}"
    by (meson acyclic_subset wf_acyclic wf_less_than)+
qed

theorem buildGraphFromDtos_correct_witness:
  "\<exists>g. buildGraphFromDtos demo_chain = Inr g \<and> complete_plan 3 g \<and> valid_plan {(0, 1), (1, 2)} g"
proof -
  have "distinct (dto_edges demo_chain)" by (simp add: demo_edges)
  note th = buildGraphFromDtos_correct [OF this]
  have "is_ok (buildGraphFromDtos demo_chain)" using th demo_valid(1) demo_acyclic(1) by (simp add: demo_edges)
  then obtain g where "buildGraphFromDtos demo_chain = Inr g" by (auto simp: is_ok_iff)
  with th show ?thesis by (simp add: demo_edges demo_lengths)
qed

theorem buildGraphFromDtos_complete_witness:
  "\<exists>g. buildGraphFromDtos demo_twice = Inr g \<and> complete_plan 4 g"
  using buildGraphFromDtos_complete [OF demo_valid(2)] demo_acyclic(2)
  by (simp add: demo_edges demo_lengths insert_commute)

text \<open>
  A dependency that is both listed and implied by the assets is counted twice when its leg
  completes. So a leg can be planned before a leg it depends on and share a layer with it
  (four legs, leg 3 after legs 0 and 2, leg 2 after leg 1), and a batch whose legs 1 and 2
  depend on each other is accepted.
\<close>

theorem repeated_dependency_breaks_plan:
  "(\<exists>g. buildGraphFromDtos demo_twice = Inr g \<and> topologicalOrder g = [0, 1, 3, 2] \<and>
      executionLayers g = [[0, 1], [3, 2]] \<and> (2, 3) \<in> set (dto_edges demo_twice)) \<and>
   (\<exists>g. buildGraphFromDtos demo_cycle = Inr g \<and> topologicalOrder g = [0, 2, 1] \<and>
      {(1, 2), (2, 1)} \<subseteq> set (dto_edges demo_cycle))"
proof -
  have e: "\<exists>g. r = Inr g \<and> f g = y" if "map_sum (\<lambda>e. e) f r = Inr y" for r :: "tx_graph result" and f y
    using that by (cases r) auto
  show ?thesis
    using e [OF demo_finish(2)] e [OF demo_finish(3)]
    unfolding buildGraphFromDtos_eq [OF demo_valid(2)] buildGraphFromDtos_eq [OF demo_cycle_valid]
      demo_edges demo_cycle_edges demo_lengths by auto
qed

lemma built_graph_acyclic:
  assumes "buildGraphFromDtos legs = Inr g" and "distinct (dto_edges legs)"
  shows "graph_wf (nodes g) \<and> acyclic (edges (nodes g)) \<and> length (nodes g) = length legs"
proof -
  have v: "valid_deps legs" using assms(1) buildGraphFromDtos_bad by fastforce
  let ?g = "with_edges (createEmptyGraph (length legs)) (dto_edges legs)"
  note b = built_from_edges [OF dto_edges_in_range [OF v]]
  have f: "finish_graph (length legs) ?g = Inr g" using assms(1) buildGraphFromDtos_eq [OF v] by simp
  have ac: "acyclic (edges (nodes ?g))"
    using finish_graph_rejects [OF b(1) b(3) [OF assms(2)] _ b(5) [symmetric]] f by fastforce
  from finish_graph_accepts [OF b(1) ac b(4) b(5) [symmetric]] f have "nodes g = nodes ?g" by auto
  then show ?thesis using b(1,5) ac by simp
qed

text \<open>
  Execution of an accepted batch never gets stuck: as long as some leg is not completed and
  none has failed, \<open>getReadyLegs\<close> offers a leg, and every leg it offers is uncompleted
  with all its dependencies completed.
\<close>

theorem getReadyLegs_progress:
  assumes "buildGraphFromDtos legs = Inr g" and "distinct (dto_edges legs)"
    and "i < length legs" and "i \<notin> set completed"
  shows "getReadyLegs g completed [] \<noteq> [] \<and>
    (\<forall>k \<in> set (getReadyLegs g completed []). k < length legs \<and> k \<notin> set completed \<and>
       set (deps (nodes g) k) \<subseteq> set completed)"
proof -
  note b = built_graph_acyclic [OF assms(1,2)]
  have "getReadyLegs g completed [] \<noteq> []"
  proof
    assume none: "getReadyLegs g completed [] = []"
    have "set completed \<inter> {..<length (nodes g)} = {..<length (nodes g)}"
    proof (rule acyclic_closed_all)
      fix k assume k: "k < length (nodes g)" "set (deps (nodes g) k) \<subseteq> set completed \<inter> {..<length (nodes g)}"
      then show "k \<in> set completed \<inter> {..<length (nodes g)}"
        using none by (auto simp: getReadyLegs_def filter_empty_conv)
    qed (use b in auto)
    with assms(3,4) b show False by auto
  qed
  moreover have "\<forall>k \<in> set (getReadyLegs g completed []). k < length legs \<and> k \<notin> set completed \<and>
       set (deps (nodes g) k) \<subseteq> set completed" using b by (auto simp: getReadyLegs_def)
  ultimately show ?thesis ..
qed

theorem getReadyLegs_progress_witness:
  "\<exists>g. buildGraphFromDtos demo_chain = Inr g \<and> getReadyLegs g [0] [] \<noteq> []"
proof -
  have d: "distinct (dto_edges demo_chain)" by (simp add: demo_edges)
  obtain g where g: "buildGraphFromDtos demo_chain = Inr g"
    using demo_finish(1) unfolding buildGraphFromDtos_eq [OF demo_valid(1)] demo_edges demo_lengths
    by (cases "finish_graph 3 (with_edges (createEmptyGraph 3) [(0, 1), (1, 2)])") auto
  with getReadyLegs_progress [OF g d, of 1 "[0]"] show ?thesis by (simp add: demo_lengths)
qed

end
