(* ===== verification/TxBatch_Props.thy ===== *)
theory TxBatch_Props
  imports TxCoordinator TxGraph_Props
begin

text \<open>
  Atomicity of the two-phase execution: what each step does to the rows of a batch, the
  agreement of the legs in memory with their rows, and the final states of
  \<open>executeBatch\<close> for every behaviour of the contracts.
\<close>

section \<open>The tables as repositories\<close>

abbreviation find_batch :: "string \<Rightarrow> tx_db \<Rightarrow> transaction_batch option" where
  "find_batch i db \<equiv> row_by tb_id i (batches db)"

abbreviation find_leg :: "string \<Rightarrow> tx_db \<Rightarrow> batch_leg option" where
  "find_leg i db \<equiv> row_by bl_id i (legs_tbl db)"

interpretation batch_repo: repository find_batch save_batch tb_id "\<lambda>db. keys_distinct tb_id (batches db)"
  by unfold_locales (auto simp: save_batch_def row_by_save_row keys_distinct_save_row dest: row_by_SomeD)

interpretation leg_repo: repository find_leg save_leg bl_id "\<lambda>db. keys_distinct bl_id (legs_tbl db)"
  by unfold_locales (auto simp: save_leg_def row_by_save_row keys_distinct_save_row dest: row_by_SomeD)

lemma tx_frames [simp]:
  "legs_tbl (save_batch b db) = legs_tbl db" "batches (save_leg l db) = batches db"
  "legs_tbl (audit i li a u m db) = legs_tbl db" "batches (audit i li a u m db) = batches db"
  "legs_tbl (save_leg l db) = save_row bl_id l (legs_tbl db)"
  "batches (save_batch b db) = save_row tb_id b (batches db)"
  by (simp_all add: save_batch_def save_leg_def audit_def)

lemma insert_nonempty [simp]: "List.insert x xs \<noteq> []"
  by (auto simp: List.insert_def)

section \<open>One leg\<close>

text \<open>A step on a leg replaces its row and keeps what identifies it.\<close>

definition leg_step :: "batch_leg \<Rightarrow> tx_db \<Rightarrow> batch_leg \<Rightarrow> tx_db \<Rightarrow> bool" where
  "leg_step leg db leg' db' \<longleftrightarrow> bl_id leg' = bl_id leg \<and> bl_batchId leg' = bl_batchId leg \<and>
     legs_tbl db' = save_row bl_id leg' (legs_tbl db) \<and> batches db' = batches db"

lemma prepareLeg_step:
  assumes "prepareLeg w batch c leg f db = (leg', f', db')"
  shows "leg_step leg db leg' db' \<and> bl_status leg' \<in> {L_PREPARED, L_SKIPPED, L_FAILED} \<and> set f \<subseteq> set f' \<and>
    (\<not> list_all (dep_met c) (bl_dependencies leg) \<longrightarrow> f' \<noteq> [])"
proof (cases "list_all (dep_met c) (bl_dependencies leg)")
  case False
  with assms show ?thesis by (auto simp: prepareLeg_def leg_step_def Let_def)
next
  case True
  then show ?thesis using assms
    by (auto simp: prepareLeg_def leg_step_def Let_def skip_leg_def simulate_leg_def fail_leg_def
        split: prod.splits sum.splits if_splits option.splits)
qed

lemma executeLeg_step:
  assumes "executeLeg w batch leg db = (ok, leg', db')"
  shows "leg_step leg db leg' db' \<and> bl_status leg' = (if ok then L_EXECUTED else L_FAILED)"
  using assms by (auto simp: executeLeg_def leg_step_def Let_def split: prod.splits sum.splits)

lemma rollbackLeg_step:
  assumes "rollbackLeg t batch leg db = (leg', db')"
  shows "leg_step leg db leg' db' \<and> bl_status leg' = L_ROLLED_BACK"
  using assms by (auto simp: rollbackLeg_def leg_step_def Let_def)

section \<open>Memory and rows\<close>

definition in_sync :: "string \<Rightarrow> batch_leg list \<Rightarrow> tx_db \<Rightarrow> bool" where
  "in_sync i legs db \<longleftrightarrow> keys_distinct bl_id (legs_tbl db) \<and> distinct (map bl_id legs) \<and>
     set legs = {l \<in> set (legs_tbl db). bl_batchId l = i}"

lemma set_update_distinct_key:
  assumes "distinct (map key xs)" and "k < length xs" and "key y = key (xs ! k)"
  shows "set (xs[k := y]) = insert y {x \<in> set xs. key x \<noteq> key y}"
proof -
  have "x \<in> set (xs[k := y]) \<longleftrightarrow> x = y \<or> x \<in> set xs \<and> key x \<noteq> key y" for x
  proof
    assume "x \<in> set (xs[k := y])"
    then obtain j where j: "j < length xs" "x = xs[k := y] ! j" by (auto simp: in_set_conv_nth)
    show "x = y \<or> x \<in> set xs \<and> key x \<noteq> key y"
    proof (cases "j = k")
      case True
      with j show ?thesis by simp
    next
      case False
      with j assms have "key (xs ! j) \<noteq> key (xs ! k)" by (simp add: distinct_conv_nth)
      with j False assms(3) show ?thesis by simp
    qed
  next
    assume r: "x = y \<or> x \<in> set xs \<and> key x \<noteq> key y"
    show "x \<in> set (xs[k := y])"
    proof (cases "x = y")
      case True
      then show ?thesis using assms(2) by (simp add: set_update_memI)
    next
      case False
      with r obtain j where "j < length xs" "x = xs ! j" "j \<noteq> k" using assms(3) by (auto simp: in_set_conv_nth)
      then show ?thesis by (metis length_list_update nth_list_update_neq nth_mem)
    qed
  qed
  then show ?thesis by blast
qed

lemma in_sync_step:
  assumes "in_sync i legs db" and "k < length legs" and "leg_step (legs ! k) db leg' db'"
  shows "in_sync i (legs[k := leg']) db'"
proof -
  have kd: "keys_distinct bl_id (legs_tbl db)" and d: "distinct (map bl_id legs)"
    and s: "set legs = {l \<in> set (legs_tbl db). bl_batchId l = i}" using assms(1) by (auto simp: in_sync_def)
  have l: "bl_id leg' = bl_id (legs ! k)" "bl_batchId leg' = bl_batchId (legs ! k)"
    "legs_tbl db' = save_row bl_id leg' (legs_tbl db)" using assms(3) by (auto simp: leg_step_def)
  have "bl_batchId (legs ! k) = i" using s assms(2) nth_mem by blast
  then have "set (legs[k := leg']) = {l \<in> set (legs_tbl db'). bl_batchId l = i}"
    unfolding l(3) set_save_row [OF kd] set_update_distinct_key [OF d assms(2) l(1)] s using l(2) by auto
  moreover have "map bl_id (legs[k := leg']) = map bl_id legs"
    using assms(2) l(1) by (metis list_update_id map_update nth_map)
  ultimately show ?thesis using d keys_distinct_save_row [OF kd] l(3) by (simp add: in_sync_def)
qed

lemma in_sync_frames [simp]:
  "in_sync i legs (save_batch b db) = in_sync i legs db" "in_sync i legs (audit j li a u m db) = in_sync i legs db"
  by (simp_all add: in_sync_def)

lemma in_sync_legs_of: "keys_distinct bl_id (legs_tbl db) \<Longrightarrow> in_sync i (legs_of i db) db"
proof -
  assume kd: "keys_distinct bl_id (legs_tbl db)"
  have "mset (map bl_id (legs_of i db)) = mset (map bl_id (filter (\<lambda>l. bl_batchId l = i) (legs_tbl db)))"
    by (simp add: legs_of_def)
  then have "distinct (map bl_id (legs_of i db)) = distinct (map bl_id (filter (\<lambda>l. bl_batchId l = i) (legs_tbl db)))"
    by (rule mset_eq_imp_distinct_iff)
  with kd show ?thesis by (auto simp: in_sync_def legs_of_def keys_distinct_def distinct_map_filter)
qed

section \<open>The prepare phase\<close>

abbreviation statuses_in :: "leg_status set \<Rightarrow> batch_leg list \<Rightarrow> bool" where
  "statuses_in S legs \<equiv> \<forall>l \<in> set legs. bl_status l \<in> S"

abbreviation unexecuted :: "leg_status set" where
  "unexecuted \<equiv> {L_PENDING, L_PREPARED, L_SKIPPED, L_FAILED}"

lemma statuses_update:
  assumes "statuses_in S legs" and "bl_status leg \<in> S"
  shows "statuses_in S (legs[k := leg])"
  using assms set_update_subset_insert [of legs k leg] by blast

lemma prepare_layer_spec:
  assumes "prepare_layer w batch c is legs f db = (legs', f', db')"
    and "in_sync i legs db" and "statuses_in unexecuted legs" and "\<forall>k \<in> set is. k < length legs"
  shows "in_sync i legs' db' \<and> statuses_in unexecuted legs' \<and> length legs' = length legs \<and>
    batches db' = batches db \<and> set f \<subseteq> set f'"
  using assms
proof (induction w batch c "is" legs f db rule: prepare_layer.induct)
  case (1 w batch c legs f db)
  then show ?case by simp
next
  case (2 w batch c k ks legs f db)
  obtain leg f1 db1 where p: "prepareLeg w batch c (legs ! k) f db = (leg, f1, db1)" by (cases "prepareLeg w batch c (legs ! k) f db")
  note st = prepareLeg_step [OF p]
  have k: "k < length legs" using "2.prems"(4) by simp
  have rest: "prepare_layer w batch c ks (legs[k := leg]) f1 db1 = (legs', f', db')" using "2.prems"(1) p by simp
  have "in_sync i (legs[k := leg]) db1" using in_sync_step [OF "2.prems"(2) k] st by blast
  moreover have "statuses_in unexecuted (legs[k := leg])" by (rule statuses_update) (use "2.prems"(3) st in auto)
  ultimately have "in_sync i legs' db' \<and> statuses_in unexecuted legs' \<and> length legs' = length legs \<and>
      batches db' = batches db1 \<and> set f1 \<subseteq> set f'"
    using "2.IH" [OF p [symmetric] refl refl rest] "2.prems"(4) by simp
  moreover have "batches db1 = batches db" "set f \<subseteq> set f1" using st by (auto simp: leg_step_def)
  ultimately show ?case by auto
qed

lemma foldl_insert_mono: "set f \<subseteq> set (foldl (\<lambda>f i. if P i then f else List.insert i f) f is)"
proof (induction "is" arbitrary: f)
  case Nil
  show ?case by simp
next
  case (Cons i "is")
  have "set f \<subseteq> set (if P i then f else List.insert i f)" by auto
  also have "\<dots> \<subseteq> set (foldl (\<lambda>f i. if P i then f else List.insert i f) (if P i then f else List.insert i f) is)"
    by (rule Cons.IH)
  finally show ?case by simp
qed

lemma prepare_layers_spec:
  assumes "prepare_layers w batch ls legs c f db = (legs', f', db')"
    and "in_sync i legs db" and "statuses_in unexecuted legs" and "\<forall>k \<in> set (concat ls). k < length legs"
  shows "in_sync i legs' db' \<and> statuses_in unexecuted legs' \<and> length legs' = length legs \<and>
    batches db' = batches db \<and> set f \<subseteq> set f'"
  using assms
proof (induction ls arbitrary: legs c f db)
  case Nil
  then show ?case by simp
next
  case (Cons layer ls)
  obtain legs1 f1 db1 where p: "prepare_layer w batch c layer legs f db = (legs1, f1, db1)"
    by (cases "prepare_layer w batch c layer legs f db")
  have s: "in_sync i legs1 db1 \<and> statuses_in unexecuted legs1 \<and> length legs1 = length legs \<and>
      batches db1 = batches db \<and> set f \<subseteq> set f1"
    using prepare_layer_spec [OF p Cons.prems(2,3)] Cons.prems(4) by simp
  let ?f = "foldl (\<lambda>f i. if leg_ready (legs1 ! i) then f else List.insert i f) f1 layer"
  obtain c1 where "prepare_layers w batch ls legs1 c1 ?f db1 = (legs', f', db')"
    using Cons.prems(1) p by simp
  from Cons.IH [OF this] s Cons.prems(4) foldl_insert_mono [of f1 "\<lambda>i. leg_ready (legs1 ! i)" layer]
  show ?case by auto
qed

text \<open>The plan of stored legs has every leg once.\<close>

definition leg_dep_edges :: "batch_leg list \<Rightarrow> nat \<Rightarrow> string list \<Rightarrow> (nat \<times> nat) list" where
  "leg_dep_edges legs i ds = List.map_filter (\<lambda>d. map_option (\<lambda>j. (j, i)) (find_index (\<lambda>l. bl_id l = d) legs)) ds"

lemma find_index_less: "find_index p xs = Some i \<Longrightarrow> i < length xs"
  by (auto simp: find_index_def find_Some_iff)

lemma add_leg_deps_eq:
  "i < length legs \<Longrightarrow> length (nodes g) = length legs \<Longrightarrow>
   add_leg_deps legs i ds g = Inr (with_edges g (leg_dep_edges legs i ds))"
  by (induction ds arbitrary: g)
    (auto simp: leg_dep_edges_def List.map_filter_simps addEdge_in_range in_range_def dest: find_index_less split: option.splits)

lemma add_leg_edges_eq:
  "list_all (\<lambda>i. i < length legs) is \<Longrightarrow> length (nodes g) = length legs \<Longrightarrow>
   add_leg_edges legs is g = Inr (with_edges g (concat (map (\<lambda>i. leg_dep_edges legs i (bl_dependencies (legs ! i))) is)))"
  by (induction "is" arbitrary: g) (auto simp: add_leg_deps_eq)

definition leg_edges :: "batch_leg list \<Rightarrow> (nat \<times> nat) list" where
  "leg_edges legs = concat (map (\<lambda>i. leg_dep_edges legs i (bl_dependencies (legs ! i))) [0..<length legs])"

lemma leg_edges_in_range: "list_all (in_range (length legs)) (leg_edges legs)"
  by (auto simp: leg_edges_def leg_dep_edges_def list_all_iff in_range_def List.map_filter_def dest: find_index_less)

lemma buildGraphFromLegs_eq:
  "buildGraphFromLegs legs = finish_graph (length legs) (with_edges (createEmptyGraph (length legs)) (leg_edges legs))"
  using add_leg_edges_eq [of legs "[0..<length legs]" "createEmptyGraph (length legs)"]
  by (simp add: buildGraphFromLegs_def leg_edges_def list_all_iff createEmptyGraph_def)

lemma finish_graph_complete:
  assumes wf: "graph_wf (nodes g)" and "\<not> hasCycle g" and n: "n = length (nodes g)" and f: "finish_graph n g = Inr g'"
  shows "complete_plan n g'"
proof -
  obtain R D where ts: "topologicalSort g = Inr (R, g\<lparr>hasCycle := hasCycle g \<or> length R < length (nodes g)\<rparr>)"
    and inv: "kinv (nodes g) [] D R" using topologicalSort_spec [OF wf] by blast
  have R: "distinct R" "set R \<subseteq> {..<n}" "R \<noteq> [] \<Longrightarrow> deps (nodes g) (hd R) = []" using inv n by (auto simp: kinv_def)
  have len: "\<not> length R < n" using f ts by (auto simp: finish_graph_def split: if_splits)
  have "card (set R) \<ge> card {..<n}" using R(1) len by (simp add: distinct_card)
  then have "set R = {..<n}" using R(2) by (intro card_seteq) auto
  then have "mset R = mset [0..<n]" using R(1) by (metis atLeast0LessThan distinct_upt set_eq_iff_mset_eq_distinct set_upt)
  with buildExecutionLayers_partition [OF R(1,3)] len f ts n assms(2) show ?thesis
    by (auto simp: finish_graph_def complete_plan_def)
qed

lemma buildGraphFromLegs_complete: "buildGraphFromLegs legs = Inr g \<Longrightarrow> complete_plan (length legs) g"
  unfolding buildGraphFromLegs_eq
  using finish_graph_complete built_from_edges [OF leg_edges_in_range] by metis

lemma complete_plan_layers: "complete_plan n g \<Longrightarrow> set (concat (executionLayers g)) = {..<n}"
  unfolding complete_plan_def by (metis atLeast0LessThan set_mset_mset set_upt)

lemma preparePhase_spec:
  assumes "preparePhase w batch legs db = (r, batch', legs', db')"
    and "in_sync i legs db" and "statuses_in unexecuted legs"
  shows "in_sync i legs' db' \<and> statuses_in unexecuted legs' \<and> tb_id batch' = tb_id batch \<and>
    (is_ok r \<longrightarrow> statuses_in {L_PREPARED, L_SKIPPED} legs')"
proof -
  let ?b = "batch\<lparr>tb_status := B_PREPARING\<rparr>"
  have s0: "in_sync i legs (save_batch ?b db)" using assms(2) by simp
  show ?thesis
  proof (cases "buildGraphFromLegs legs")
    case (Inl e)
    then show ?thesis using assms(1,3) s0 by (auto simp: preparePhase_def Let_def)
  next
    case (Inr g)
    obtain legs1 f1 db1 where p: "prepare_layers w ?b (executionLayers g) legs [] [] (save_batch ?b db) = (legs1, f1, db1)"
      by (cases "prepare_layers w ?b (executionLayers g) legs [] [] (save_batch ?b db)")
    have "\<forall>k \<in> set (concat (executionLayers g)). k < length legs"
      using complete_plan_layers [OF buildGraphFromLegs_complete [OF Inr]] by auto
    note s = prepare_layers_spec [OF p s0 assms(3) this]
    show ?thesis
    proof (cases "f1 = [] \<and> cc_passed (checkPostPrepare (cw_now w) ?b legs1)")
      case True
      then have "statuses_in {L_PREPARED, L_SKIPPED} legs1" using checkPostPrepare_passed by blast
      with True assms(1) Inr p s show ?thesis
        by (auto simp: preparePhase_def Let_def)
    next
      case False
      then show ?thesis using assms(1) Inr p s
        by (auto simp: preparePhase_def Let_def split: if_splits)
    qed
  qed
qed

section \<open>The commit phase\<close>

text \<open>What the tally says of the legs while the layers are executed.\<close>

definition tally_ok :: "batch_leg list \<Rightarrow> tally \<Rightarrow> bool" where
  "tally_ok legs t \<longleftrightarrow> set (committed t) \<subseteq> {..<length legs} \<and>
     (\<forall>k < length legs. bl_status (legs ! k) \<in> {L_PREPARED, L_SKIPPED, L_EXECUTED, L_FAILED} \<and>
        (bl_status (legs ! k) = L_EXECUTED \<longrightarrow> k \<in> set (committed t)) \<and>
        (bl_status (legs ! k) = L_FAILED \<longrightarrow> k \<in> set (failed t)))"

lemma execute_layer_spec:
  assumes "execute_layer w batch is legs t db = (legs', t', db')"
    and "in_sync i legs db" and "tally_ok legs t" and "\<forall>k \<in> set is. k < length legs"
  shows "in_sync i legs' db' \<and> tally_ok legs' t' \<and> length legs' = length legs \<and> batches db' = batches db \<and>
    (\<forall>k < length legs. bl_status (legs' ! k) = L_PREPARED \<longrightarrow> k \<notin> set is \<and> bl_status (legs ! k) = L_PREPARED)"
  using assms
proof (induction w batch "is" legs t db rule: execute_layer.induct)
  case (1 w batch legs t db)
  then show ?case by simp
next
  case (2 w batch k ks legs t db)
  have k: "k < length legs" using "2.prems"(4) by simp
  show ?case
  proof (cases "bl_status (legs ! k) = L_PREPARED")
    case False
    let ?t = "if bl_status (legs ! k) = L_SKIPPED then t\<lparr>skipped := skipped t @ [k]\<rparr> else t"
    have "execute_layer w batch ks legs ?t db = (legs', t', db')" using "2.prems"(1) False by simp
    moreover have "tally_ok legs ?t" using "2.prems"(3) by (simp add: tally_ok_def)
    ultimately show ?thesis using "2.IH"(1) [OF False] "2.prems"(2,4) False by fastforce
  next
    case True
    obtain ok leg db1 where p: "executeLeg w batch (legs ! k) db = (ok, leg, db1)" by (cases "executeLeg w batch (legs ! k) db")
    note st = executeLeg_step [OF p]
    let ?t = "if ok then t\<lparr>committed := committed t @ [k]\<rparr> else t\<lparr>failed := failed t @ [k]\<rparr>"
    have rest: "execute_layer w batch ks (legs[k := leg]) ?t db1 = (legs', t', db')" using "2.prems"(1) True p by simp
    have sync: "in_sync i (legs[k := leg]) db1" using in_sync_step [OF "2.prems"(2) k] st by blast
    have tal: "tally_ok (legs[k := leg]) ?t" using "2.prems"(3) k st
      by (auto simp: tally_ok_def nth_list_update)
    have "in_sync i legs' db' \<and> tally_ok legs' t' \<and> length legs' = length legs \<and> batches db' = batches db1 \<and>
      (\<forall>j < length legs. bl_status (legs' ! j) = L_PREPARED \<longrightarrow> j \<notin> set ks \<and> bl_status (legs[k := leg] ! j) = L_PREPARED)"
      using "2.IH"(2) [OF _ p [symmetric] refl refl rest sync tal] True "2.prems"(4) by simp
    moreover have "batches db1 = batches db" using st by (simp add: leg_step_def)
    moreover have "bl_status (legs[k := leg] ! j) = L_PREPARED \<Longrightarrow> j < length legs \<Longrightarrow> bl_status (legs ! j) = L_PREPARED \<and> j \<noteq> k" for j
      using st by (cases "j = k") (auto split: if_splits)
    ultimately show ?thesis by auto
  qed
qed

lemma rollback_indices_spec:
  assumes "rollback_indices t batch is legs db = (legs', db')"
    and "in_sync i legs db" and "\<forall>k \<in> set is. k < length legs"
  shows "in_sync i legs' db' \<and> length legs' = length legs \<and> batches db' = batches db \<and>
    (\<forall>k < length legs. bl_status (legs' ! k) = (if k \<in> set is \<and> bl_status (legs ! k) = L_EXECUTED then L_ROLLED_BACK else bl_status (legs ! k)))"
  using assms
proof (induction t batch "is" legs db rule: rollback_indices.induct)
  case (1 t batch legs db)
  then show ?case by simp
next
  case (2 t batch k ks legs db)
  have k: "k < length legs" using "2.prems"(3) by simp
  show ?case
  proof (cases "bl_status (legs ! k) = L_EXECUTED")
    case False
    have "rollback_indices t batch ks legs db = (legs', db')" using "2.prems"(1) False by simp
    from "2.IH"(2) [OF False this "2.prems"(2)] "2.prems"(3) False show ?thesis by auto
  next
    case True
    obtain leg db1 where p: "rollbackLeg t batch (legs ! k) db = (leg, db1)" by (cases "rollbackLeg t batch (legs ! k) db")
    note st = rollbackLeg_step [OF p]
    have rest: "rollback_indices t batch ks (legs[k := leg]) db1 = (legs', db')" using "2.prems"(1) True p by simp
    have sync: "in_sync i (legs[k := leg]) db1" using in_sync_step [OF "2.prems"(2) k] st by blast
    have "in_sync i legs' db' \<and> length legs' = length legs \<and> batches db' = batches db1 \<and>
      (\<forall>j < length legs. bl_status (legs' ! j) = (if j \<in> set ks \<and> bl_status (legs[k := leg] ! j) = L_EXECUTED
         then L_ROLLED_BACK else bl_status (legs[k := leg] ! j)))"
      using "2.IH"(1) [OF True p [symmetric] refl rest sync] "2.prems"(3) by simp
    moreover have "batches db1 = batches db" "bl_status leg = L_ROLLED_BACK" using st by (auto simp: leg_step_def)
    ultimately show ?thesis using k True by (auto simp: nth_list_update)
  qed
qed

text \<open>The two ways a run through the layers ends.\<close>

definition all_committed :: "execution_result \<Rightarrow> transaction_batch \<Rightarrow> batch_leg list \<Rightarrow> bool" where
  "all_committed r batch legs \<longleftrightarrow> er_status r = ''committed'' \<and> tb_status batch = B_COMMITTED \<and>
     statuses_in {L_EXECUTED, L_SKIPPED} legs"

definition all_undone :: "execution_result \<Rightarrow> transaction_batch \<Rightarrow> batch_leg list \<Rightarrow> bool" where
  "all_undone r batch legs \<longleftrightarrow> er_status r = ''rolled_back'' \<and> tb_status batch = B_ROLLED_BACK \<and>
     (\<forall>l \<in> set legs. bl_status l \<noteq> L_EXECUTED)"

lemma abort_commit_spec:
  assumes "abort_commit w batch legs t db = (r, batch', legs', db')"
    and "in_sync i legs db" and "tally_ok legs t"
  shows "all_undone r batch' legs' \<and> in_sync i legs' db' \<and> tb_id batch' = tb_id batch \<and>
    find_batch (tb_id batch) db' = Some batch'"
proof -
  obtain legs1 db1 where p: "rollbackLegs (cw_now w) batch legs (committed t) db = (legs1, db1)"
    by (cases "rollbackLegs (cw_now w) batch legs (committed t) db")
  have "\<forall>k \<in> set (rev (sort (committed t))). k < length legs" using assms(3) by (auto simp: tally_ok_def)
  from rollback_indices_spec [OF p [unfolded rollbackLegs_def] assms(2) this]
  have s: "in_sync i legs1 db1" "length legs1 = length legs"
    "\<And>k. k < length legs \<Longrightarrow> bl_status (legs1 ! k) =
       (if k \<in> set (committed t) \<and> bl_status (legs ! k) = L_EXECUTED then L_ROLLED_BACK else bl_status (legs ! k))" by auto
  have "bl_status (legs1 ! k) \<noteq> L_EXECUTED" if "k < length legs" for k
    using s(3) [OF that] assms(3) that by (auto simp: tally_ok_def)
  then have "\<forall>l \<in> set legs1. bl_status l \<noteq> L_EXECUTED" using s(2) by (metis in_set_conv_nth)
  with assms(1) p s(1) show ?thesis
    by (auto simp: abort_commit_def Let_def all_undone_def row_by_save_row)
qed

lemma finish_commit_spec:
  assumes "finish_commit w batch legs t db = (r, batch', legs', db')"
    and "in_sync i legs db" and "tally_ok legs t" and "failed t = []"
    and "\<forall>k < length legs. bl_status (legs ! k) \<noteq> L_PREPARED"
  shows "all_committed r batch' legs' \<and> in_sync i legs' db' \<and> tb_id batch' = tb_id batch \<and>
    find_batch (tb_id batch) db' = Some batch'"
proof -
  have "bl_status (legs ! k) \<in> {L_EXECUTED, L_SKIPPED}" if "k < length legs" for k
    using assms(3,4,5) that by (auto simp: tally_ok_def)
  then have "statuses_in {L_EXECUTED, L_SKIPPED} legs" by (metis in_set_conv_nth)
  with assms(1,2) show ?thesis
    by (auto simp: finish_commit_def Let_def all_committed_def row_by_save_row in_sync_def)
qed

lemma commit_layers_spec:
  assumes "commit_layers w batch ls legs t db = (r, batch', legs', db')"
    and "in_sync i legs db" and "tally_ok legs t" and "failed t = []"
    and "\<forall>k \<in> set (concat ls). k < length legs"
    and "\<forall>k < length legs. bl_status (legs ! k) = L_PREPARED \<longrightarrow> k \<in> set (concat ls)"
  shows "(all_committed r batch' legs' \<or> all_undone r batch' legs') \<and> in_sync i legs' db' \<and>
    tb_id batch' = tb_id batch \<and> find_batch (tb_id batch) db' = Some batch'"
  using assms
proof (induction ls arbitrary: legs t db)
  case Nil
  have "commit_layers w batch [] legs t db = finish_commit w batch legs t db" by simp
  with Nil show ?case using finish_commit_spec [of w batch legs t db r batch' legs' db' i] by auto
next
  case (Cons layer ls)
  obtain legs1 t1 db1 where p: "execute_layer w batch layer legs t db = (legs1, t1, db1)"
    by (cases "execute_layer w batch layer legs t db")
  have "\<forall>k \<in> set layer. k < length legs" using Cons.prems(5) by simp
  note s = execute_layer_spec [OF p Cons.prems(2,3) this]
  show ?case
  proof (cases "failed t1 = []")
    case False
    then have "abort_commit w batch legs1 t1 db1 = (r, batch', legs', db')" using Cons.prems(1) p by simp
    from abort_commit_spec [OF this, of i] s show ?thesis by blast
  next
    case True
    then have "commit_layers w batch ls legs1 t1 db1 = (r, batch', legs', db')" using Cons.prems(1) p by simp
    note IH = Cons.IH [OF this]
    have "\<forall>k < length legs1. bl_status (legs1 ! k) = L_PREPARED \<longrightarrow> k \<in> set (concat ls)"
      using s Cons.prems(6) by (metis Un_iff concat.simps(2) set_append)
    moreover have "\<forall>k \<in> set (concat ls). k < length legs1" using s Cons.prems(5) by simp
    ultimately show ?thesis using IH s True by blast
  qed
qed

lemma commitPhase_spec:
  assumes "commitPhase w batch legs db = (r, batch', legs', db')"
    and "in_sync i legs db" and "statuses_in {L_PREPARED, L_SKIPPED} legs"
  shows "in_sync i legs' db' \<and> tb_id batch' = tb_id batch \<and>
    (\<forall>x. r = Inr x \<longrightarrow> (all_committed x batch' legs' \<or> all_undone x batch' legs') \<and> find_batch (tb_id batch) db' = Some batch')"
proof (cases "buildGraphFromLegs legs")
  case (Inl e)
  then show ?thesis using assms by (auto simp: commitPhase_def Let_def)
next
  case (Inr g)
  let ?b = "batch\<lparr>tb_status := B_COMMITTING\<rparr>"
  let ?db = "audit (tb_id ?b) None A_BATCH_COMMIT_STARTED ''system'' [(''totalLegs'', jnat (length legs))] (save_batch ?b db)"
  let ?t = "\<lparr>committed = [], failed = [], skipped = []\<rparr>"
  obtain r1 b1 l1 d1 where p: "commit_layers w ?b (executionLayers g) legs ?t ?db = (r1, b1, l1, d1)"
    by (cases "commit_layers w ?b (executionLayers g) legs ?t ?db")
  have layers: "set (concat (executionLayers g)) = {..<length legs}"
    by (rule complete_plan_layers [OF buildGraphFromLegs_complete [OF Inr]])
  have "bl_status (legs ! k) \<in> {L_PREPARED, L_SKIPPED}" if "k < length legs" for k
    using assms(3) nth_mem [OF that] by blast
  then have "tally_ok legs ?t" by (fastforce simp: tally_ok_def)
  moreover have "in_sync i legs ?db" using assms(2) by simp
  moreover have "\<forall>k \<in> set (concat (executionLayers g)). k < length legs" using layers by blast
  moreover have "\<forall>k < length legs. bl_status (legs ! k) = L_PREPARED \<longrightarrow> k \<in> set (concat (executionLayers g))" using layers by blast
  ultimately have "(all_committed r1 b1 l1 \<or> all_undone r1 b1 l1) \<and> in_sync i l1 d1 \<and> tb_id b1 = tb_id batch \<and>
      find_batch (tb_id batch) d1 = Some b1"
    using commit_layers_spec [OF p, of i] by simp
  with assms(1) Inr p show ?thesis by (auto simp: commitPhase_def Let_def)
qed

section \<open>The rollback phase\<close>

lemma rollback_rows:
  assumes "keys_distinct bl_id (legs_tbl db)" and "\<forall>l \<in> set ls. bl_batchId l = i"
  shows "batches (foldl (\<lambda>db leg. snd (rollbackLeg t batch leg db)) db ls) = batches db \<and>
    (\<forall>r \<in> set (legs_tbl (foldl (\<lambda>db leg. snd (rollbackLeg t batch leg db)) db ls)).
       r \<in> set (legs_tbl db) \<and> bl_id r \<notin> bl_id ` set ls \<or> bl_status r = L_ROLLED_BACK)"
  using assms
proof (induction ls arbitrary: db)
  case Nil
  then show ?case by simp
next
  case (Cons l ls)
  obtain leg db1 where p: "rollbackLeg t batch l db = (leg, db1)" by (cases "rollbackLeg t batch l db")
  note st = rollbackLeg_step [OF p]
  have kd: "keys_distinct bl_id (legs_tbl db1)" using st Cons.prems(1) by (simp add: leg_step_def keys_distinct_save_row)
  have rows: "set (legs_tbl db1) = insert leg {r \<in> set (legs_tbl db). bl_id r \<noteq> bl_id l}"
    using st set_save_row [OF Cons.prems(1)] by (simp add: leg_step_def)
  from Cons.IH [OF kd] Cons.prems(2) st p rows show ?case by (auto simp: leg_step_def)
qed

lemma rollbackPhase_spec:
  assumes "rollbackPhase t batch db = (batch', db')" and "keys_distinct bl_id (legs_tbl db)"
  shows "tb_status batch' = B_ROLLED_BACK \<and> find_batch (tb_id batch) db' = Some batch' \<and>
    (\<forall>l \<in> set (legs_tbl db'). bl_batchId l = tb_id batch \<longrightarrow> bl_status l \<noteq> L_EXECUTED)"
proof -
  define b where "b = batch\<lparr>tb_status := B_ROLLING_BACK, tb_failedAt := Some t\<rparr>"
  define db1 where "db1 = audit (tb_id b) None A_BATCH_ROLLBACK_STARTED ''system''
    [(''previousStatus'', JStr (batch_status_str (tb_status b)))] (save_batch b db)"
  define ls where "ls = filter (\<lambda>l. bl_status l = L_EXECUTED) (rev (legs_of (tb_id b) db1))"
  define db2 where "db2 = foldl (\<lambda>db leg. snd (rollbackLeg t b leg db)) db1 ls"
  have eq: "rollbackPhase t batch db = (b\<lparr>tb_status := B_ROLLED_BACK\<rparr>,
      audit (tb_id b) None A_BATCH_ROLLED_BACK ''system'' [(''rolledBackLegs'', jnat (length ls))]
        (save_batch (b\<lparr>tb_status := B_ROLLED_BACK\<rparr>) db2))"
    unfolding rollbackPhase_def Let_def db2_def ls_def db1_def b_def by simp
  have kd: "keys_distinct bl_id (legs_tbl db1)" using assms(2) by (simp add: db1_def)
  have id: "tb_id b = tb_id batch" by (simp add: b_def)
  have ls: "set ls = {l \<in> set (legs_tbl db1). bl_batchId l = tb_id batch \<and> bl_status l = L_EXECUTED}"
    by (auto simp: legs_of_def ls_def id)
  have "\<forall>l \<in> set ls. bl_batchId l = tb_id batch" using ls by simp
  note r = rollback_rows [OF kd this, of t b, folded db2_def]
  have "bl_status l \<noteq> L_EXECUTED" if "l \<in> set (legs_tbl db2)" "bl_batchId l = tb_id batch" for l
  proof
    assume e: "bl_status l = L_EXECUTED"
    with r that(1) have "l \<in> set (legs_tbl db1)" "bl_id l \<notin> bl_id ` set ls" by auto
    with ls e that(2) show False by blast
  qed
  then show ?thesis using assms(1) eq id by (auto simp: row_by_save_row)
qed

section \<open>All or nothing\<close>

lemma execute_try_spec:
  assumes "execute_try w batch db = (r, batch', db')" and kd: "keys_distinct bl_id (legs_tbl db)"
  shows "keys_distinct bl_id (legs_tbl db') \<and> tb_id batch' = tb_id batch \<and>
    (\<forall>x. r = Inr x \<longrightarrow> find_batch (tb_id batch) db' = Some batch' \<and>
      (\<exists>legs. set legs = {l \<in> set (legs_tbl db'). bl_batchId l = tb_id batch} \<and>
        (all_committed x batch' legs \<or> all_undone x batch' legs)))"
proof -
  let ?legs = "legs_of (tb_id batch) db"
  let ?db = "audit (tb_id batch) None A_BATCH_PREPARE_STARTED ''system'' [(''totalLegs'', jnat (length ?legs))] db"
  let ?pre = "checkPreExecution (cw_now w) batch ?legs"
  show ?thesis
  proof (cases "?legs \<noteq> [] \<and> cc_passed ?pre")
    case False
    then show ?thesis using assms by (auto simp: execute_try_def Let_def split: if_splits)
  next
    case True
    obtain r1 b1 l1 d1 where p: "preparePhase w batch ?legs ?db = (r1, b1, l1, d1)"
      by (cases "preparePhase w batch ?legs ?db")
    have sync: "in_sync (tb_id batch) ?legs ?db" using in_sync_legs_of [OF kd] by simp
    have "statuses_in unexecuted ?legs" using True checkPreExecution_passed by auto
    note s1 = preparePhase_spec [OF p sync this]
    show ?thesis
    proof (cases r1)
      case (Inl e)
      then show ?thesis using assms(1) True p s1 by (auto simp: execute_try_def Let_def in_sync_def)
    next
      case (Inr u)
      obtain r2 b2 l2 d2 where c: "commitPhase w b1 l1 d1 = (r2, b2, l2, d2)" by (cases "commitPhase w b1 l1 d1")
      have e: "r = r2" "batch' = b2" "db' = d2" using assms(1) True p Inr c by (auto simp: execute_try_def Let_def)
      have "statuses_in {L_PREPARED, L_SKIPPED} l1" using s1 Inr by simp
      note s2 = commitPhase_spec [OF c _ this, of "tb_id batch"]
      have "in_sync (tb_id batch) l2 d2" using s1 s2 by blast
      then have "keys_distinct bl_id (legs_tbl d2)" "set l2 = {l \<in> set (legs_tbl d2). bl_batchId l = tb_id batch}"
        by (auto simp: in_sync_def)
      with s1 s2 show ?thesis unfolding e by metis
    qed
  qed
qed


section \<open>An example batch\<close>

definition demo_gas :: gas_estimate where
  "demo_gas = \<lparr>minResourceFee = ''100'', cpuInstructions = None, memoryBytes = None\<rparr>"

definition demo_world :: contract_world where
  "demo_world = \<lparr>cw_now = 2000,
     cw_simulate = (\<lambda>_ _ _. Inr \<lparr>sr_result = None, sr_gas = demo_gas\<rparr>),
     cw_invoke = (\<lambda>_ _. Inr \<lparr>ir_transactionHash = ''tx'', ir_result = None, ir_ledger = Some 7, ir_gas = demo_gas\<rparr>),
     cw_random = (\<lambda>_. 0), cw_elapsed = (\<lambda>_. 5)\<rparr>"

definition solo_leg :: batch_leg where
  "solo_leg = \<lparr>bl_id = ''l'', bl_batchId = ''b'', bl_orderIndex = 0, bl_dependencies = [], bl_contractId = ''C'',
     bl_method = ''swap'', bl_args = JObj [], bl_sourceAssetCode = ''USD'', bl_sourceAssetIssuer = None,
     bl_destAssetCode = ''EUR'', bl_destAssetIssuer = None, bl_amount = ''10.0000000'', bl_minAmountOut = ''9.0000000'',
     bl_maxAmountOut = None, bl_status = L_PENDING, bl_isConditional = False, bl_conditionExpression = None,
     bl_conditionType = None, bl_expectedOutput = None, bl_actualOutput = None, bl_stellarTxHash = None,
     bl_errorMessage = None, bl_executionMetadata = None, bl_preparedAt = None, bl_executedAt = None,
     bl_rolledBackAt = None, bl_retryCount = 0\<rparr>"

definition solo_batch :: transaction_batch where
  "solo_batch = \<lparr>tb_id = ''b'', tb_userId = ''user'', tb_name = ''swap'', tb_status = B_CREATED, tb_totalLegs = 1,
     tb_preparedLegs = 0, tb_committedLegs = 0, tb_completionRate = None, tb_sequenceNumber = 1, tb_timeoutMs = 30000,
     tb_hasConditionals = False, tb_resultSummary = None, tb_errorMessage = None, tb_metadata = None,
     tb_preparedAt = None, tb_committedAt = None, tb_failedAt = None, tb_expiresAt = None, tb_createdAt = 1\<rparr>"

definition solo_db :: tx_db where
  "solo_db = \<lparr>batches = [solo_batch], legs_tbl = [solo_leg], audits = [], tx_events = [], gas_hist = [], batchTimeouts = []\<rparr>"

lemma retry_first_success:
  "0 \<le> maxRetries (full_config c) \<Longrightarrow> ro_result (executeWithRetry (\<lambda>_. Inr x) c r k) = Inr x"
  by (simp add: executeWithRetry_def retry_loop.simps)

lemma demo_optimizeGas: "\<exists>est. optimizeGas c m demo_gas [] = Inr est"
proof -
  have "bigint_of ''100'' = Inr 100" by code_simp
  then show ?thesis
    by (simp add: optimizeGas_def demo_gas_def getHistoricalAverage_def predictGasUsage_def relevant_usage_def
        isMethodStable_def bigint_div_def Let_def)
qed

lemma solo_leg_simps [simp]:
  "bl_id solo_leg = ''l''" "bl_batchId solo_leg = ''b''" "bl_dependencies solo_leg = []" "bl_status solo_leg = L_PENDING"
  "bl_isConditional solo_leg = False" "bl_maxAmountOut solo_leg = None" "bl_expectedOutput solo_leg = None"
  "tb_id solo_batch = ''b''" "tb_status solo_batch = B_CREATED"
  by (simp_all add: solo_leg_def solo_batch_def)

lemma solo_precheck: "cc_passed (checkPreExecution t solo_batch [solo_leg])"
proof -
  have "parse_float ''10.0000000'' = Some (fl 10)"
    by (simp add: exp_part_def parse_float_def parse_unsigned_def is_ws_def is_digit_def digit_val_def)
  moreover have "\<not> fl 10 \<le> 0" by (simp add: not_le)
  ultimately have "\<not> num_le (parse_float (bl_amount solo_leg)) (Some 0)" by (simp add: num_le_def solo_leg_def)
  then show ?thesis by (simp add: checkPreExecution_passed)
qed

lemma solo_prepare:
  assumes "gas_hist db = []"
  shows "\<exists>leg db'. prepareLeg demo_world b c solo_leg f db = (leg, f, db') \<and>
     bl_status leg = L_PREPARED \<and> bl_expectedOutput leg = None \<and> bl_dependencies leg = []"
  using demo_optimizeGas [of "bl_contractId solo_leg" "bl_method solo_leg"] assms
  by (auto simp: prepareLeg_def simulate_leg_def Let_def demo_world_def retry_first_success prepare_retry_def
      full_config_def obj_get_def save_leg_def audit_def)

lemma solo_graph: "bl_dependencies leg = [] \<Longrightarrow>
  \<exists>g. buildGraphFromLegs [leg] = Inr g \<and> executionLayers g = [[0]]"
  by (simp add: buildGraphFromLegs_def createEmptyGraph_def finish_graph_def topologicalSort_def Let_def
     buildExecutionLayers_def layer_of_def put_layer_def)

lemma solo_execute: "\<exists>leg' db'. executeLeg demo_world b leg db = (True, leg', db')"
  by (simp add: executeLeg_def Let_def demo_world_def retry_first_success execute_retry_def full_config_def)

lemma solo_commit:
  assumes "bl_dependencies leg = []" and "bl_status leg = L_PREPARED"
  shows "\<exists>r b' l' d'. commitPhase demo_world b [leg] db = (Inr r, b', l', d') \<and> er_status r = ''committed''"
proof -
  obtain g where g: "buildGraphFromLegs [leg] = Inr g" "executionLayers g = [[0]]" using solo_graph [OF assms(1)] by blast
  let ?b = "b\<lparr>tb_status := B_COMMITTING\<rparr>"
  let ?db = "audit (tb_id b) None A_BATCH_COMMIT_STARTED ''system'' [(''totalLegs'', JNum 1)] (save_batch ?b db)"
  obtain leg' db' where "executeLeg demo_world ?b leg ?db = (True, leg', db')" using solo_execute by blast
  then show ?thesis using g assms(2) by (simp add: commitPhase_def Let_def finish_commit_def)
qed

lemma solo_committed: "er_status (fst (executeBatch demo_world solo_batch solo_db)) = ''committed''"
proof -
  have legs: "legs_of ''b'' solo_db = [solo_leg]" by (simp add: legs_of_def solo_db_def)
  obtain g where g: "buildGraphFromLegs [solo_leg] = Inr g" "executionLayers g = [[0]]" using solo_graph [of solo_leg] by auto
  let ?b = "solo_batch\<lparr>tb_status := B_PREPARING\<rparr>"
  let ?d = "audit ''b'' None A_BATCH_PREPARE_STARTED ''system'' [(''totalLegs'', JNum 1)] solo_db"
  have "gas_hist (save_batch ?b ?d) = []" by (simp add: save_batch_def audit_def solo_db_def)
  then obtain leg db' where p: "prepareLeg demo_world ?b [] solo_leg [] (save_batch ?b ?d) = (leg, [], db')"
    "bl_status leg = L_PREPARED" "bl_expectedOutput leg = None" "bl_dependencies leg = []"
    using solo_prepare [of "save_batch ?b ?d" ?b "[]" "[]"] by blast
  have "cc_passed (checkPostPrepare t ?b [leg])" for t using p by (simp add: checkPostPrepare_passed truthy_str_def)
  then obtain b2 d2 where pp: "preparePhase demo_world solo_batch [solo_leg] ?d = (Inr (), b2, [leg], d2)"
    using p g by (simp add: preparePhase_def Let_def leg_ready_def)
  obtain r b' l' d' where "commitPhase demo_world b2 [leg] d2 = (Inr r, b', l', d')" "er_status r = ''committed''"
    using solo_commit p by blast
  then show ?thesis using legs solo_precheck pp by (simp add: executeBatch_def execute_try_def Let_def)
qed

end
