(* ===== verification/TxCoordinator_Props.thy ===== *)
theory TxCoordinator_Props
  imports TxBatch_Props
begin

text \<open>
  Properties of the coordinator: what its guards allow, and the fate of batches whose legs
  have dependencies or that time out while they are committed.
\<close>

section \<open>The rows of a new batch\<close>

lemma foldl_save_leg_new:
  "distinct (map bl_id ls) \<Longrightarrow> bl_id ` set ls \<inter> bl_id ` set (legs_tbl db) = {} \<Longrightarrow>
   legs_tbl (foldl (\<lambda>db l. save_leg l db) db ls) = legs_tbl db @ ls"
proof (induction ls arbitrary: db)
  case Nil
  then show ?case by simp
next
  case (Cons l ls)
  then have "save_row bl_id l (legs_tbl db) = legs_tbl db @ [l]" by (intro save_row_new) (auto simp: row_by_None_iff)
  with Cons show ?case by auto
qed

text \<open>
  The identifiers a call generates are new, differ from each other and do not look like the
  references \<^verbatim>\<open>order_N\<close>.
\<close>

definition fresh_ids :: "env \<Rightarrow> nat \<Rightarrow> tx_db \<Rightarrow> bool" where
  "fresh_ids e n db \<longleftrightarrow> inj_on (uuid e) {..n} \<and> (\<forall>k \<le> n. \<not> starts_with (uuid e k) ''order_'') \<and>
     (\<forall>l \<in> set (legs_tbl db). bl_batchId l \<noteq> uuid e 0 \<and> (\<forall>k \<le> n. bl_id l \<noteq> uuid e k))"

lemma new_legs_ids: "map bl_id (new_legs numeric e i dtos) = map (\<lambda>k. uuid e (Suc k)) [0..<length dtos]"
  by (simp add: new_legs_def new_leg_def)

lemma legs_of_new_batch:
  assumes "createBatch numeric e u dto db = Inr (b, db')" and fresh: "fresh_ids e (length (cb_legs dto)) db"
  shows "tb_id b = uuid e 0 \<and> cb_legs dto \<noteq> [] \<and>
    legs_tbl db' = legs_tbl db @ new_legs numeric e (uuid e 0) (cb_legs dto) \<and>
    legs_of (uuid e 0) db' = new_legs numeric e (uuid e 0) (cb_legs dto)"
proof -
  let ?new = "new_legs numeric e (uuid e 0) (cb_legs dto)"
  have inj: "inj_on (\<lambda>k. uuid e (Suc k)) {0..<length (cb_legs dto)}"
  proof (rule inj_onI)
    fix x y assume "x \<in> {0..<length (cb_legs dto)}" "y \<in> {0..<length (cb_legs dto)}" "uuid e (Suc x) = uuid e (Suc y)"
    then have "Suc x = Suc y" using fresh inj_onD [of "uuid e" "{..length (cb_legs dto)}" "Suc x" "Suc y"]
      by (auto simp: fresh_ids_def)
    then show "x = y" by simp
  qed
  have d: "distinct (map bl_id ?new)" using inj by (simp add: new_legs_ids distinct_map)
  have "bl_id ` set ?new = (\<lambda>k. uuid e (Suc k)) ` {0..<length (cb_legs dto)}"
    by (metis new_legs_ids list.set_map set_upt)
  moreover have "bl_id l \<noteq> uuid e (Suc k)" if "l \<in> set (legs_tbl db)" "k < length (cb_legs dto)" for l k
    using fresh that by (simp add: fresh_ids_def)
  ultimately have "bl_id ` set ?new \<inter> bl_id ` set (legs_tbl db) = {}"
    unfolding disjoint_iff by (metis (no_types, lifting) atLeastLessThan_iff imageE)
  from foldl_save_leg_new [OF d this] have rows: "legs_tbl (foldl (\<lambda>db l. save_leg l db) db ?new) = legs_tbl db @ ?new" .
  have "\<exists>db1. legs_tbl db1 = legs_tbl db \<and> legs_tbl db' = legs_tbl (foldl (\<lambda>db l. save_leg l db) db1 ?new)"
    using assms(1) by (intro exI [of _ "save_batch (new_batch e u dto) db"])
      (auto simp: createBatch_def Let_def rbind_Inr_iff new_batch_def split: if_splits)
  then have t: "legs_tbl db' = legs_tbl db @ ?new"
    using foldl_save_leg_new [OF d] \<open>bl_id ` set ?new \<inter> bl_id ` set (legs_tbl db) = {}\<close> by metis
  have "filter (\<lambda>l. bl_batchId l = uuid e 0) (legs_tbl db) = []" using fresh by (auto simp: fresh_ids_def filter_empty_conv)
  moreover have "filter (\<lambda>l. bl_batchId l = uuid e 0) ?new = ?new"
    by (rule filter_True) (auto simp: new_legs_def new_leg_def)
  moreover have "sorted (map bl_orderIndex ?new)" by (simp add: new_legs_def new_leg_def comp_def)
  ultimately have "legs_of (uuid e 0) db' = ?new" by (simp add: legs_of_def t sort_key_id_if_sorted)
  with t assms(1) show ?thesis
    by (auto simp: createBatch_def Let_def rbind_Inr_iff new_batch_def split: if_splits)
qed

section \<open>Batches with dependencies\<close>

text \<open>Without edges every leg is in one layer.\<close>

lemma no_edges_single_layer:
  assumes "leg_edges legs = []" and "legs \<noteq> []"
  shows "\<exists>g L. buildGraphFromLegs legs = Inr g \<and> executionLayers g = [L] \<and> set L = {..<length legs}"
proof -
  let ?n = "length legs" and ?g = "createEmptyGraph (length legs)"
  have wf: "graph_wf (nodes ?g)" "edges (nodes ?g) = {}" "length (nodes ?g) = ?n" "\<not> hasCycle ?g"
    using built_from_edges [of ?n "[]"] by simp_all
  have dep: "deps (nodes ?g) i = []" if "i < ?n" for i using that by (simp add: createEmptyGraph_def)
  have "acyclic (edges (nodes ?g))" using wf(2) by (simp add: acyclic_def)
  obtain R D where ts: "topologicalSort ?g = Inr (R, ?g\<lparr>hasCycle := hasCycle ?g \<or> length R < length (nodes ?g)\<rparr>)"
    and inv: "kinv (nodes ?g) [] D R" using topologicalSort_spec [OF wf(1)] by blast
  have R: "set R = {..<?n}" "distinct R" using kahn_complete [OF wf(1) \<open>acyclic _\<close> inv] inv wf(3) by (auto simp: kinv_def)
  have len: "length R = ?n" using R distinct_card by fastforce
  have "deps (nodes ?g) (R ! k) = []" if "k < length R" for k using dep R(1) nth_mem [OF that] by simp
  then have ord: "ordered (nodes ?g) R" by (simp add: ordered_def)
  let ?L = "buildExecutionLayers (nodes ?g) R"
  have lay0: "lay (nodes ?g) R i = 0" if "i < ?n" for i
    using lay_step [OF R(2) ord] that R(1) dep by simp
  have "deps (nodes ?g) (hd R) = []" if "R \<noteq> []" using dep R(1) hd_in_set [OF that] by simp
  then have ne: "[] \<notin> set ?L" using buildExecutionLayers_partition [OF R(2)] by blast
  have one: "k = 0" if "k < length ?L" for k
  proof -
    have "?L ! k \<noteq> []" using ne that nth_mem by metis
    then obtain i where "i \<in> set (?L ! k)" by (meson last_in_set)
    with in_layer_iff [OF R(2) that] lay0 R(1) show ?thesis by auto
  qed
  have "0 \<in> set R" using R(1) assms(2) by simp
  from lay_in_range [OF R(2) this] have pos: "0 < length ?L" by (metis gr_zeroI not_less_zero)
  have "length ?L = 1"
  proof (rule ccontr)
    assume "length ?L \<noteq> 1"
    with pos have "1 < length ?L" by linarith
    from one [OF this] show False by simp
  qed
  then obtain L where L: "?L = [L]" by (metis One_nat_def length_0_conv length_Suc_conv)
  have "set L = {..<?n}" using in_layer_iff [OF R(2), of 0 "nodes ?g"] L lay0 R(1) by auto
  moreover have "buildGraphFromLegs legs = Inr (?g\<lparr>hasCycle := False, executionLayers := ?L, topologicalOrder := R\<rparr>)"
    using ts len wf(3,4) by (simp add: buildGraphFromLegs_eq assms(1) finish_graph_def)
  ultimately show ?thesis using L by auto
qed

lemma prepare_layer_dependent:
  assumes "prepare_layer w batch [] is legs f db = (legs', f', db')" and "k \<in> set is \<or> f \<noteq> []"
    and "bl_dependencies (legs ! k) \<noteq> []" and "k < length legs"
  shows "f' \<noteq> []"
  using assms
proof (induction w batch "[] :: nat list" "is" legs f db rule: prepare_layer.induct)
  case (1 w batch legs f db)
  then show ?case by simp
next
  case (2 w batch j js legs f db)
  obtain leg f1 db1 where p: "prepareLeg w batch [] (legs ! j) f db = (leg, f1, db1)" by (cases "prepareLeg w batch [] (legs ! j) f db")
  note st = prepareLeg_step [OF p]
  have rest: "prepare_layer w batch [] js (legs[j := leg]) f1 db1 = (legs', f', db')" using "2.prems"(1) p by simp
  have nd: "\<not> list_all (dep_met []) (bl_dependencies (legs ! k))"
    using "2.prems"(3) by (cases "bl_dependencies (legs ! k)") (auto simp: dep_met_def split: option.splits)
  have "f1 \<noteq> []" if "k = j \<or> f \<noteq> []" using that st nd by auto
  moreover have "bl_dependencies leg = bl_dependencies (legs ! j)"
    using p by (auto simp: prepareLeg_def Let_def skip_leg_def simulate_leg_def fail_leg_def
        split: prod.splits sum.splits if_splits option.splits)
  then have "bl_dependencies (legs[j := leg] ! k) \<noteq> []" using "2.prems"(3,4)
    by (cases "j = k") (auto simp: nth_list_update)
  ultimately show ?case using "2.hyps" [OF p [symmetric] refl refl rest] "2.prems"(2,4) by auto
qed

lemma leg_edges_new: 
  assumes "fresh_ids e (length dtos) db"
  shows "leg_edges (new_legs numeric e i dtos) = []"
proof -
  let ?legs = "new_legs numeric e i dtos"
  have len: "length ?legs = length dtos" by (simp add: new_legs_def)
  have "find_index (\<lambda>l. bl_id l = d) ?legs = None" if "starts_with d ''order_''" for d
    using that assms unfolding find_index_def find_None_iff
    by (auto simp: new_legs_def new_leg_def fresh_ids_def)
  moreover have "starts_with d ''order_''" if "d \<in> set (bl_dependencies (?legs ! k))" "k < length dtos" for k d
    using that by (auto simp: new_legs_def new_leg_def resolveDependencyIndices_def)
  ultimately have "leg_dep_edges ?legs k (bl_dependencies (?legs ! k)) = []" if "k < length dtos" for k
    using that by (auto simp: leg_dep_edges_def List.map_filter_def filter_empty_conv)
  then show ?thesis by (simp add: leg_edges_def len)
qed

lemma executeBatch_failed: "execute_try w batch db = (Inl e, b, d) \<Longrightarrow> er_status (fst (executeBatch w batch db)) = ''failed''"
  by (simp add: executeBatch_def Let_def split: prod.splits)

text \<open>
  C29. A batch in which some leg lists a dependency can never be executed: the stored references
  \<^verbatim>\<open>order_N\<close> match no leg id, so all legs are in one layer, the dependencies are not met when
  the leg is prepared, and the execution reports \<^verbatim>\<open>failed\<close> whatever the contracts do.
\<close>

theorem dependent_batch_always_fails:
  assumes "createBatch numeric e u dto db = Inr (b, db')" and "fresh_ids e (length (cb_legs dto)) db"
    and "k < length (cb_legs dto)" and "explicit_deps (cb_legs dto ! k) \<noteq> []"
  shows "er_status (fst (executeBatch w b db')) = ''failed''"
proof -
  let ?legs = "new_legs numeric e (uuid e 0) (cb_legs dto)"
  note n = legs_of_new_batch [OF assms(1,2)]
  have legs: "legs_of (tb_id b) db' = ?legs" "?legs \<noteq> []" using n by (auto simp: new_legs_def)
  have k: "k < length ?legs" "bl_dependencies (?legs ! k) \<noteq> []"
    using assms(3,4) by (auto simp: new_legs_def new_leg_def resolveDependencyIndices_def explicit_deps_def split: option.splits)
  obtain g L where g: "buildGraphFromLegs ?legs = Inr g" "executionLayers g = [L]" "set L = {..<length ?legs}"
    using no_edges_single_layer [OF leg_edges_new [OF assms(2)] legs(2)] by blast
  have "\<exists>err b' l' d'. preparePhase w b ?legs d = (Inl err, b', l', d')" for d
  proof -
    let ?b = "b\<lparr>tb_status := B_PREPARING\<rparr>"
    obtain l1 f1 d1 where p: "prepare_layer w ?b [] L ?legs [] (save_batch ?b d) = (l1, f1, d1)"
      by (cases "prepare_layer w ?b [] L ?legs [] (save_batch ?b d)")
    have "f1 \<noteq> []" using prepare_layer_dependent [OF p, of k] g(3) k by simp
    then have "foldl (\<lambda>f i. if leg_ready (l1 ! i) then f else List.insert i f) f1 L \<noteq> []"
      using foldl_insert_mono [of f1 "\<lambda>i. leg_ready (l1 ! i)" L] by auto
    then show ?thesis using g(1,2) p by (simp add: preparePhase_def Let_def)
  qed
  moreover define d where "d = audit (tb_id b) None A_BATCH_PREPARE_STARTED ''system'' [(''totalLegs'', jnat (length ?legs))] db'"
  ultimately obtain err b' l' d' where pp: "preparePhase w b ?legs d = (Inl err, b', l', d')" by blast
  have "\<exists>err b' d'. execute_try w b db' = (Inl err, b', d')"
  proof (cases "cc_passed (checkPreExecution (cw_now w) b ?legs)")
    case True
    then show ?thesis using pp legs by (simp add: execute_try_def Let_def d_def)
  next
    case False
    then show ?thesis using legs by (simp add: execute_try_def Let_def)
  qed
  then show ?thesis using executeBatch_failed by blast
qed

section \<open>Creation\<close>

definition backward_deps :: "swap_leg_dto list \<Rightarrow> bool" where
  "backward_deps legs \<longleftrightarrow> (\<forall>i < length legs. \<forall>d \<in> set (explicit_deps (legs ! i)). 0 \<le> d \<and> d < of_nat i \<and> of_int \<lfloor>d\<rfloor> = d)"

lemma forward_deps_iff: "is_ok (forward_deps i ds) \<longleftrightarrow> (\<forall>d \<in> set ds. d < of_nat i)"
  by (induction ds) auto

lemma check_forward_iff:
  "is_ok (check_forward i legs) \<longleftrightarrow> (\<forall>k < length legs. \<forall>d \<in> set (explicit_deps (legs ! k)). d < of_nat (i + k))"
proof (induction legs arbitrary: i)
  case Nil
  show ?case by simp
next
  case (Cons leg legs)
  have h: "is_ok (case field_opt (sl_dependencies leg) of None \<Rightarrow> Inr () | Some ds \<Rightarrow> forward_deps i ds) \<longleftrightarrow>
      (\<forall>d \<in> set (explicit_deps leg). d < of_nat i)"
    by (auto simp: explicit_deps_def forward_deps_iff split: option.splits)
  have "is_ok (check_forward i (leg # legs)) \<longleftrightarrow> (\<forall>d \<in> set (explicit_deps leg). d < of_nat i) \<and> is_ok (check_forward (Suc i) legs)"
    unfolding h [symmetric] by (auto simp: is_ok_iff rbind_Inr_iff)
  then show ?case unfolding Cons.IH by (simp add: All_less_Suc2 add.commute add.left_commute)
qed

lemma backward_valid: "backward_deps legs \<Longrightarrow> valid_deps legs"
  unfolding valid_deps_def backward_deps_def dep_index_ok_def
  by (metis less_trans nless_le of_nat_less_iff)

lemma backward_acyclic:
  assumes "backward_deps legs" shows "acyclic (set (dto_edges legs))"
proof -
  have "nat \<lfloor>d\<rfloor> < i" if "i < length legs" "d \<in> set (explicit_deps (legs ! i))" for i d
  proof -
    have d: "0 \<le> d" "d < of_nat i" using assms that by (auto simp: backward_deps_def)
    then have "\<lfloor>d\<rfloor> < int i" "0 \<le> \<lfloor>d\<rfloor>" by (simp_all add: floor_less_iff)
    then show ?thesis by linarith
  qed
  then have "set (dto_edges legs) \<subseteq> less_than" by (auto simp: dto_edges_def dto_leg_edges_def)
  then show ?thesis by (meson acyclic_subset wf_acyclic wf_less_than)
qed

lemma createBatch_accepts:
  assumes "cb_legs dto \<noteq> []" and "fresh_ids e (length (cb_legs dto)) db" and "backward_deps (cb_legs dto)"
  shows "\<exists>b db'. createBatch numeric e u dto db = Inr (b, db') \<and> find_batch (uuid e 0) db' = Some b \<and>
         tb_status b = B_CREATED \<and> tb_userId b = u \<and> tb_totalLegs b = length (cb_legs dto) \<and>
         map bl_orderIndex (legs_of (uuid e 0) db') = [0..<length (cb_legs dto)] \<and>
         statuses_in {L_PENDING} (legs_of (uuid e 0) db')"
proof -
  obtain g where g: "buildGraphFromDtos (cb_legs dto) = Inr g"
    using buildGraphFromDtos_accepts [OF backward_valid [OF assms(3)] backward_acyclic [OF assms(3)]] by blast
  have "is_ok (check_forward 0 (cb_legs dto))" using assms(3) by (simp add: check_forward_iff backward_deps_def)
  then have f: "check_forward 0 (cb_legs dto) = Inr ()" by (simp add: is_ok_iff)
  have foldb: "batches (foldl (\<lambda>db l. save_leg l db) d ls) = batches d" for d ls
    by (induction ls arbitrary: d) auto
  obtain b db' where c: "createBatch numeric e u dto db = Inr (b, db')" and b: "b = new_batch e u dto"
    and bs: "batches db' = save_row tb_id b (batches db)"
    using assms(1) f g foldb by (simp add: createBatch_def Let_def Suc_le_eq)
  have id: "tb_id b = uuid e 0" by (simp add: b new_batch_def Let_def)
  note n = legs_of_new_batch [OF c assms(2)]
  show "\<exists>b db'. createBatch numeric e u dto db = Inr (b, db') \<and> find_batch (uuid e 0) db' = Some b \<and>
         tb_status b = B_CREATED \<and> tb_userId b = u \<and> tb_totalLegs b = length (cb_legs dto) \<and>
         map bl_orderIndex (legs_of (uuid e 0) db') = [0..<length (cb_legs dto)] \<and>
         statuses_in {L_PENDING} (legs_of (uuid e 0) db')"
    using c n by (intro exI [of _ b] exI [of _ db'])
      (auto simp: bs row_by_save_row id, auto simp: b new_batch_def Let_def new_legs_def new_leg_def comp_def map_nth)
qed

text \<open>
  \<open>createBatch\<close> accepts every non-empty batch whose legs depend on earlier legs only, and
  stores the batch as CREATED with one pending leg per request leg, in order; a dependency on
  the leg itself or a later one is always rejected.
\<close>

theorem createBatch_spec:
  assumes "cb_legs dto \<noteq> []" and "fresh_ids e (length (cb_legs dto)) db"
  shows "(backward_deps (cb_legs dto) \<longrightarrow>
      (\<exists>b db'. createBatch numeric e u dto db = Inr (b, db') \<and> find_batch (uuid e 0) db' = Some b \<and>
         tb_status b = B_CREATED \<and> tb_userId b = u \<and> tb_totalLegs b = length (cb_legs dto) \<and>
         map bl_orderIndex (legs_of (uuid e 0) db') = [0..<length (cb_legs dto)] \<and>
         statuses_in {L_PENDING} (legs_of (uuid e 0) db'))) \<and>
    ((\<exists>i < length (cb_legs dto). \<exists>d \<in> set (explicit_deps (cb_legs dto ! i)). of_nat i \<le> d) \<longrightarrow>
      \<not> is_ok (createBatch numeric e u dto db))"
proof (intro conjI impI)
  assume "backward_deps (cb_legs dto)"
  from createBatch_accepts [OF assms this]
  show "\<exists>b db'. createBatch numeric e u dto db = Inr (b, db') \<and> find_batch (uuid e 0) db' = Some b \<and>
         tb_status b = B_CREATED \<and> tb_userId b = u \<and> tb_totalLegs b = length (cb_legs dto) \<and>
         map bl_orderIndex (legs_of (uuid e 0) db') = [0..<length (cb_legs dto)] \<and>
         statuses_in {L_PENDING} (legs_of (uuid e 0) db')" .
next
  assume "\<exists>i < length (cb_legs dto). \<exists>d \<in> set (explicit_deps (cb_legs dto ! i)). of_nat i \<le> d"
  then have "\<not> is_ok (check_forward 0 (cb_legs dto))" by (simp add: check_forward_iff not_less)
  then show "\<not> is_ok (createBatch numeric e u dto db)" by (auto simp: createBatch_def is_ok_iff rbind_Inr_iff)
qed

section \<open>Timeouts and final states\<close>

lemma foldl_roll_back_batches: "batches (foldl (roll_back_if P t) db ls) = batches db"
  by (induction ls arbitrary: db) (auto simp: roll_back_if_def)

lemma commit_layers_final:
  "commit_layers w batch ls legs t db = (r, batch', legs', db') \<Longrightarrow>
   find_batch (tb_id batch) db' = Some batch' \<and> tb_status batch' \<in> {B_COMMITTED, B_ROLLED_BACK}"
proof (induction ls arbitrary: legs t db)
  case Nil
  then show ?case by (auto simp: finish_commit_def Let_def row_by_save_row)
next
  case (Cons layer ls)
  obtain legs1 t1 db1 where p: "execute_layer w batch layer legs t db = (legs1, t1, db1)"
    by (cases "execute_layer w batch layer legs t db")
  show ?case
  proof (cases "failed t1 = []")
    case True
    with Cons p show ?thesis by simp
  next
    case False
    with Cons.prems p show ?thesis
      by (auto simp: abort_commit_def Let_def row_by_save_row split: prod.splits)
  qed
qed

text \<open>
  A timeout during the commit phase does not stop it: \<open>handleBatchTimeout\<close> stores the
  batch as EXPIRED, and the commit phase, which works on its own copy, then stores it as
  COMMITTED or ROLLED_BACK, after the caller was told that the batch has timed out.
\<close>

theorem timeout_during_commit_is_overwritten:
  assumes "find_batch (tb_id batch) db = Some b0" and "tb_status b0 = B_COMMITTING"
    and "handleBatchTimeout time (tb_id batch) db = Inr db1"
    and "commit_layers w batch ls legs t db1 = (r, batch', legs', db')"
  shows "(\<exists>b1. find_batch (tb_id batch) db1 = Some b1 \<and> tb_status b1 = B_EXPIRED) \<and>
    (\<exists>b2. find_batch (tb_id batch) db' = Some b2 \<and> tb_status b2 \<in> {B_COMMITTED, B_ROLLED_BACK})"
proof -
  have "tb_id b0 = tb_id batch" using assms(1) row_by_SomeD by fastforce
  with assms(1-3) have "\<exists>b1. find_batch (tb_id batch) db1 = Some b1 \<and> tb_status b1 = B_EXPIRED"
    by (auto simp: handleBatchTimeout_def getBatchOrThrow_def Let_def foldl_roll_back_batches row_by_save_row)
  with commit_layers_final [OF assms(4)] show ?thesis by blast
qed

text \<open>
  A committed batch is final: it cannot be executed, prepared, committed or cancelled again,
  and a late timeout leaves the database as it is.
\<close>

theorem committed_batch_is_final:
  assumes "find_batch i db = Some b" and "tb_status b = B_COMMITTED"
  shows "\<not> is_ok (executeBatchById w i db) \<and> \<not> is_ok (fst (prepareBatch w i db)) \<and> snd (prepareBatch w i db) = db \<and>
    \<not> is_ok (fst (commitBatch w i db)) \<and> snd (commitBatch w i db) = db \<and>
    \<not> is_ok (cancelBatch time i u db) \<and> handleBatchTimeout time i db = Inr db"
  using assms by (simp add: executeBatchById_def prepareBatch_def commitBatch_def cancelBatch_def
      handleBatchTimeout_def getBatchOrThrow_def)

text \<open>
  When preparation fails, nothing is rolled back: legs that were already prepared stay
  PREPARED although the stored batch is ROLLED_BACK, a state that the checker's own
  \<open>checkPostRollback\<close> (which the executor does not call) rejects.
\<close>

theorem failed_prepare_keeps_prepared_legs:
  assumes "keys_distinct bl_id (legs_tbl db)" and "legs_of (tb_id batch) db \<noteq> []"
    and "cc_passed (checkPreExecution (cw_now w) batch (legs_of (tb_id batch) db))"
    and "preparePhase w batch (legs_of (tb_id batch) db) (audit (tb_id batch) None A_BATCH_PREPARE_STARTED ''system''
      [(''totalLegs'', jnat (length (legs_of (tb_id batch) db)))] db) = (Inl err, b1, legs1, d1)"
    and "l \<in> set legs1" and "bl_status l = L_PREPARED"
  shows "\<exists>r db' b. executeBatch w batch db = (r, db') \<and> er_status r = ''failed'' \<and>
    find_batch (tb_id batch) db' = Some b \<and> tb_status b = B_ROLLED_BACK \<and> l \<in> set (batch_legs (tb_id batch) db') \<and>
    \<not> cc_passed (checkPostRollback time b (batch_legs (tb_id batch) db'))"
proof -
  let ?legs = "legs_of (tb_id batch) db"
  let ?d = "audit (tb_id batch) None A_BATCH_PREPARE_STARTED ''system'' [(''totalLegs'', jnat (length ?legs))] db"
  have sync: "in_sync (tb_id batch) ?legs ?d" using in_sync_legs_of [OF assms(1)] by simp
  have "statuses_in unexecuted ?legs" using assms(3) checkPreExecution_passed by auto
  note s = preparePhase_spec [OF assms(4) sync this]
  have rows: "set legs1 = {l \<in> set (legs_tbl d1). bl_batchId l = tb_id batch}" "tb_id b1 = tb_id batch"
    using s by (auto simp: in_sync_def)
  obtain b2 d2 where rb: "rollbackPhase (cw_now w) b1 d1 = (b2, d2)" by (cases "rollbackPhase (cw_now w) b1 d1")
  have none: "filter (\<lambda>l. bl_status l = L_EXECUTED) (rev (legs_of (tb_id batch) d)) = []" if "legs_tbl d = legs_tbl d1" for d
    using that s rows(1) by (auto simp: legs_of_def filter_empty_conv)
  have t: "legs_tbl d2 = legs_tbl d1" using rb rows(2) none by (auto simp: rollbackPhase_def Let_def)
  have kd: "keys_distinct bl_id (legs_tbl d1)" using s by (simp add: in_sync_def)
  note r = rollbackPhase_spec [OF rb kd]
  have "execute_try w batch db = (Inl err, b1, d1)" using assms(2,3,4) by (simp add: execute_try_def Let_def)
  then obtain x where "executeBatch w batch db = (x, d2)" "er_status x = ''failed''"
    using rb by (simp add: executeBatch_def Let_def)
  moreover have "l \<in> set (batch_legs (tb_id batch) d2)" using assms(5) rows(1) t by (simp add: batch_legs_def)
  moreover from this assms(6) have "\<not> cc_passed (checkPostRollback time b2 (batch_legs (tb_id batch) d2))"
    by (auto simp: checkPostRollback_passed)
  ultimately show ?thesis using r rows(2) by auto
qed

section \<open>Example runs\<close>

definition demo_ids :: env where
  "demo_ids = \<lparr>now = 1000, uuid = (\<lambda>k. replicate (Suc k) (CHR ''u'')), keypair = ''G''\<rparr>"

definition demo_request :: create_batch_dto where
  "demo_request = \<lparr>cb_name = ''swap'', cb_legs = [demo_leg ''USD'' ''EUR'' [], demo_leg ''GBP'' ''CHF'' [0]],
     cb_timeoutMs = Undefined, cb_metadata = Undefined\<rparr>"

definition no_batches :: tx_db where
  "no_batches = \<lparr>batches = [], legs_tbl = [], audits = [], tx_events = [], gas_hist = [], batchTimeouts = []\<rparr>"

lemma demo_ids_fresh: "fresh_ids demo_ids (length (cb_legs demo_request)) no_batches"
  by (auto simp: fresh_ids_def demo_ids_def no_batches_def inj_on_def dest: arg_cong [of _ _ length])

lemma demo_backward: "backward_deps (cb_legs demo_request)"
  by (simp add: backward_deps_def demo_request_def demo_leg_def explicit_deps_def All_less_Suc2 numeral_eq_Suc)

lemma demo_created:
  obtains b db where "createBatch (\<lambda>s. s) demo_ids ''user'' demo_request no_batches = Inr (b, db)"
    and "find_batch (uuid demo_ids 0) db = Some b"
  using createBatch_accepts [OF _ demo_ids_fresh demo_backward, of "\<lambda>s. s" "''user''"]
  by (auto simp: demo_request_def)

theorem createBatch_spec_witness:
  "\<exists>b db. createBatch (\<lambda>s. s) demo_ids ''user'' demo_request no_batches = Inr (b, db) \<and> tb_status b = B_CREATED"
  using createBatch_spec [OF _ demo_ids_fresh, of "\<lambda>s. s" "''user''"] demo_backward
  by (auto simp: demo_request_def)

theorem dependent_batch_always_fails_witness:
  "\<exists>b db. createBatch (\<lambda>s. s) demo_ids ''user'' demo_request no_batches = Inr (b, db) \<and>
     er_status (fst (executeBatch demo_world b db)) = ''failed''"
proof -
  obtain b db where c: "createBatch (\<lambda>s. s) demo_ids ''user'' demo_request no_batches = Inr (b, db)" by (rule demo_created)
  have "1 < length (cb_legs demo_request)" "explicit_deps (cb_legs demo_request ! 1) \<noteq> []"
    by (simp_all add: demo_request_def demo_leg_def explicit_deps_def)
  from dependent_batch_always_fails [OF c demo_ids_fresh this] c show ?thesis by blast
qed

definition demo_batch :: transaction_batch where
  "demo_batch = new_batch demo_ids ''user'' demo_request"

definition committing_db :: tx_db where
  "committing_db = no_batches\<lparr>batches := [demo_batch\<lparr>tb_status := B_COMMITTING\<rparr>]\<rparr>"

theorem timeout_during_commit_is_overwritten_witness:
  "\<exists>db1 r b l db2. handleBatchTimeout 5000 (tb_id demo_batch) committing_db = Inr db1 \<and>
     commit_layers demo_world demo_batch [] [] \<lparr>committed = [], failed = [], skipped = []\<rparr> db1 = (r, b, l, db2) \<and>
     (\<exists>b1. find_batch (tb_id demo_batch) db1 = Some b1 \<and> tb_status b1 = B_EXPIRED) \<and>
     (\<exists>b2. find_batch (tb_id demo_batch) db2 = Some b2 \<and> tb_status b2 \<noteq> B_EXPIRED)"
proof -
  have f: "find_batch (tb_id demo_batch) committing_db = Some (demo_batch\<lparr>tb_status := B_COMMITTING\<rparr>)"
    by (simp add: committing_db_def no_batches_def)
  obtain db1 where t: "handleBatchTimeout 5000 (tb_id demo_batch) committing_db = Inr db1"
    using f by (simp add: handleBatchTimeout_def getBatchOrThrow_def Let_def)
  obtain r b l db2 where c: "commit_layers demo_world demo_batch [] [] \<lparr>committed = [], failed = [], skipped = []\<rparr> db1 = (r, b, l, db2)"
    by (rule prod_cases4)
  from timeout_during_commit_is_overwritten [OF f _ t c] t c show ?thesis by fastforce
qed

theorem committed_batch_is_final_witness:
  "\<not> is_ok (executeBatchById demo_world (tb_id demo_batch) (no_batches\<lparr>batches := [demo_batch\<lparr>tb_status := B_COMMITTED\<rparr>]\<rparr>))"
  using committed_batch_is_final [of "tb_id demo_batch" "no_batches\<lparr>batches := [demo_batch\<lparr>tb_status := B_COMMITTED\<rparr>]\<rparr>"
      "demo_batch\<lparr>tb_status := B_COMMITTED\<rparr>"] by simp

text \<open>A batch of two legs, the second after the first.\<close>

definition after_leg :: batch_leg where
  "after_leg = solo_leg\<lparr>bl_id := ''m'', bl_orderIndex := 1, bl_dependencies := [''order_0'']\<rparr>"

definition pair_db :: tx_db where
  "pair_db = solo_db\<lparr>legs_tbl := [solo_leg, after_leg]\<rparr>"

lemma after_prepare: "\<exists>leg db'. prepareLeg w b [] after_leg [] db = (leg, [1], db') \<and> bl_status leg = L_FAILED"
proof -
  have "\<not> dep_met [] ''order_0''" by (simp add: dep_met_def split: option.splits)
  then show ?thesis by (simp add: prepareLeg_def Let_def after_leg_def)
qed

theorem failed_prepare_keeps_prepared_legs_witness:
  "\<exists>r db' b l. executeBatch demo_world solo_batch pair_db = (r, db') \<and> find_batch ''b'' db' = Some b \<and>
     tb_status b = B_ROLLED_BACK \<and> l \<in> set (batch_legs ''b'' db') \<and> bl_status l = L_PREPARED"
proof -
  have legs: "legs_of ''b'' pair_db = [solo_leg, after_leg]"
    by (simp add: legs_of_def pair_db_def after_leg_def) (simp add: solo_leg_def)
  have kd: "keys_distinct bl_id (legs_tbl pair_db)" by (simp add: pair_db_def keys_distinct_def after_leg_def)
  have pre: "cc_passed (checkPreExecution t solo_batch [solo_leg, after_leg])" for t
    using solo_precheck [of t] by (auto simp: checkPreExecution_passed after_leg_def)
  obtain g where g: "buildGraphFromLegs [solo_leg, after_leg] = Inr g" "executionLayers g = [[0, 1]]"
    by (simp add: buildGraphFromLegs_def find_index_def createEmptyGraph_def finish_graph_def topologicalSort_def Let_def
        buildExecutionLayers_def layer_of_def put_layer_def after_leg_def numeral_2_eq_2)
  let ?d = "audit ''b'' None A_BATCH_PREPARE_STARTED ''system'' [(''totalLegs'', JNum 2)] pair_db"
  let ?b = "solo_batch\<lparr>tb_status := B_PREPARING\<rparr>"
  have "gas_hist (save_batch ?b ?d) = []" by (simp add: save_batch_def audit_def pair_db_def solo_db_def)
  then obtain leg db1 where p1: "prepareLeg demo_world ?b [] solo_leg [] (save_batch ?b ?d) = (leg, [], db1)"
    "bl_status leg = L_PREPARED" using solo_prepare [of "save_batch ?b ?d" ?b "[]" "[]"] by blast
  obtain leg2 db2 where p2: "prepareLeg demo_world ?b [] after_leg [] db1 = (leg2, [1], db2)" "bl_status leg2 = L_FAILED"
    using after_prepare by blast
  obtain err b1 legs1 d1 where p: "preparePhase demo_world solo_batch [solo_leg, after_leg] ?d = (Inl err, b1, legs1, d1)"
    and "\<exists>l \<in> set legs1. bl_status l = L_PREPARED"
    using g p1 p2 by (auto simp: preparePhase_def Let_def leg_ready_def)
  then obtain l where l: "l \<in> set legs1" "bl_status l = L_PREPARED" by blast
  have "preparePhase demo_world solo_batch (legs_of (tb_id solo_batch) pair_db) (audit (tb_id solo_batch) None
      A_BATCH_PREPARE_STARTED ''system'' [(''totalLegs'', jnat (length (legs_of (tb_id solo_batch) pair_db)))] pair_db) = (Inl err, b1, legs1, d1)"
    using p legs by simp
  from failed_prepare_keeps_prepared_legs [OF kd _ _ this l, of 0] legs pre l(2) show ?thesis by auto
qed

end
