(* ===== verification/Auth.thy ===== *)
theory Auth
  imports JsDate
begin

text \<open>
  The authorization framework (\<^verbatim>\<open>src/src/modules/authorization\<close>): role hierarchy, policy
  engine, delegations, dynamic thresholds, Stellar signers, the hash-chained audit trail and
  the facade that combines them. The state of the services, which is in memory, is
  \<open>auth_state\<close>. The hash function (SHA-256 of the Node crypto module) is the parameter
  \<open>sha\<close> of the operations that use it.
\<close>

section \<open>Roles and permissions\<close>

datatype permission =
    TRADE_CREATE | TRADE_CANCEL | TRADE_SETTLE
  | ESCROW_CREATE | ESCROW_APPROVE | ESCROW_RELEASE
  | WALLET_READ | WALLET_SIGN | WALLET_KEY_ROTATE
  | ASSET_READ | LIQUIDITY_MANAGE
  | COMPLIANCE_READ | COMPLIANCE_WRITE | AUDIT_READ
  | USER_MANAGE | POLICY_MANAGE | API_KEY_MANAGE

definition all_permissions :: "permission list" where
  "all_permissions = [TRADE_CREATE, TRADE_CANCEL, TRADE_SETTLE, ESCROW_CREATE, ESCROW_APPROVE, ESCROW_RELEASE,
     WALLET_READ, WALLET_SIGN, WALLET_KEY_ROTATE, ASSET_READ, LIQUIDITY_MANAGE, COMPLIANCE_READ, COMPLIANCE_WRITE,
     AUDIT_READ, USER_MANAGE, POLICY_MANAGE, API_KEY_MANAGE]"

fun permission_str :: "permission \<Rightarrow> string" where
  "permission_str TRADE_CREATE = ''trade:create''"
| "permission_str TRADE_CANCEL = ''trade:cancel''"
| "permission_str TRADE_SETTLE = ''trade:settle''"
| "permission_str ESCROW_CREATE = ''escrow:create''"
| "permission_str ESCROW_APPROVE = ''escrow:approve''"
| "permission_str ESCROW_RELEASE = ''escrow:release''"
| "permission_str WALLET_READ = ''wallet:read''"
| "permission_str WALLET_SIGN = ''wallet:sign''"
| "permission_str WALLET_KEY_ROTATE = ''wallet:key-rotate''"
| "permission_str ASSET_READ = ''asset:read''"
| "permission_str LIQUIDITY_MANAGE = ''liquidity:manage''"
| "permission_str COMPLIANCE_READ = ''compliance:read''"
| "permission_str COMPLIANCE_WRITE = ''compliance:write''"
| "permission_str AUDIT_READ = ''audit:read''"
| "permission_str USER_MANAGE = ''user:manage''"
| "permission_str POLICY_MANAGE = ''policy:manage''"
| "permission_str API_KEY_MANAGE = ''api-key:manage''"

datatype role = TRADER | AUDITOR | CUSTODIAN | LIQUIDITY_PROVIDER | COMPLIANCE_OFFICER | ADMIN

fun auth_role_str :: "role \<Rightarrow> string" where
  "auth_role_str TRADER = ''trader''"
| "auth_role_str AUDITOR = ''auditor''"
| "auth_role_str CUSTODIAN = ''custodian''"
| "auth_role_str LIQUIDITY_PROVIDER = ''liquidity_provider''"
| "auth_role_str COMPLIANCE_OFFICER = ''compliance_officer''"
| "auth_role_str ADMIN = ''admin''"

fun rank :: "role \<Rightarrow> nat" where
  "rank TRADER = 10"
| "rank AUDITOR = 20"
| "rank LIQUIDITY_PROVIDER = 30"
| "rank CUSTODIAN = 40"
| "rank COMPLIANCE_OFFICER = 50"
| "rank ADMIN = 100"

fun ROLE_PERMISSIONS :: "role \<Rightarrow> permission list" where
  "ROLE_PERMISSIONS TRADER = [TRADE_CREATE, TRADE_CANCEL, ESCROW_CREATE, WALLET_READ, ASSET_READ]"
| "ROLE_PERMISSIONS AUDITOR = [AUDIT_READ, COMPLIANCE_READ, WALLET_READ, ASSET_READ]"
| "ROLE_PERMISSIONS LIQUIDITY_PROVIDER = [LIQUIDITY_MANAGE, TRADE_CREATE, TRADE_CANCEL, WALLET_READ, ASSET_READ]"
| "ROLE_PERMISSIONS CUSTODIAN = [WALLET_READ, WALLET_SIGN, WALLET_KEY_ROTATE, ESCROW_RELEASE, TRADE_SETTLE, ASSET_READ]"
| "ROLE_PERMISSIONS COMPLIANCE_OFFICER = [COMPLIANCE_READ, COMPLIANCE_WRITE, AUDIT_READ, ESCROW_CREATE, ESCROW_APPROVE, WALLET_READ]"
| "ROLE_PERMISSIONS ADMIN = all_permissions"

definition isAtLeast :: "role \<Rightarrow> role \<Rightarrow> bool" where
  "isAtLeast r minimumRole \<longleftrightarrow> rank minimumRole \<le> rank r"

definition permissionsFor :: "role list \<Rightarrow> permission list" where
  "permissionsFor roles = js_set (concat (map ROLE_PERMISSIONS roles))"

definition hasPermission :: "role list \<Rightarrow> permission \<Rightarrow> bool" where
  "hasPermission roles permission \<longleftrightarrow> permission \<in> set (permissionsFor roles)"

definition allRoles :: "role list" where
  "allRoles = rev (sort_key rank (rev [TRADER, AUDITOR, CUSTODIAN, LIQUIDITY_PROVIDER, COMPLIANCE_OFFICER, ADMIN]))"

section \<open>Policies\<close>

datatype policy_effect = Allow | Deny

record time_window =
  startHour :: number
  endHour :: number
  daysOfWeek :: "number list option"

record transaction_limit =
  tl_minAmount :: "number option"
  tl_maxAmount :: "number option"
  tl_maxDailyAmount :: "number option"

record token_restriction =
  allowedTokens :: "string list option"
  deniedTokens :: "string list option"

record rate_limit =
  maxActions :: number
  windowMs :: number

datatype policy_condition =
    TimeWindow time_window
  | TransactionLimit transaction_limit
  | TokenRestriction token_restriction
  | RateLimit rate_limit

record policy =
  pol_id :: string
  pol_effect :: policy_effect
  pol_conditions :: "policy_condition list"
  appliesToRoles :: "role list option"

record authorization_request =
  rq_subjectId :: string
  rq_roles :: "role list"
  rq_permission :: permission
  rq_amount :: "number option"
  rq_asset :: "string option"
  rq_tokenPair :: "string option"
  rq_timestamp :: "int option"
  rq_recentActionCount :: "number option"
  rq_dailyAmount :: "number option"

record policy_decision =
  pd_allowed :: bool
  pd_reason :: string
  pd_matchedPolicyIds :: "string list"
  pd_evaluatedAt :: int

record action_counter =
  ac_count :: nat
  ac_windowStart :: int

section \<open>Delegations, thresholds, signers and audit entries\<close>

datatype delegation_status = D_PENDING | D_ACTIVE | D_REVOKED | D_EXPIRED

record delegation =
  dg_id :: string
  dg_delegatorId :: string
  dg_delegateeId :: string
  dg_permissions :: "permission list"
  dg_expiresAt :: int
  dg_status :: delegation_status
  dg_approvalChain :: "string list"
  dg_approvals :: "string list"
  dg_createdAt :: int

record create_delegation_input =
  ci_delegatorId :: string
  ci_delegateeId :: string
  ci_permissions :: "permission list"
  ci_expiresAt :: int
  ci_approvalChain :: "string list option"

record base_threshold_config =
  bt_baseAmount :: number
  bt_minAmount :: number
  bt_maxAmount :: number
  bt_requiredSignatures :: number

record market_conditions =
  mc_volatility :: "number option"
  mc_liquidity :: "number option"
  mc_volume :: "number option"

record threshold_profile =
  tp_baseAmount :: number
  tp_minAmount :: number
  tp_maxAmount :: number
  tp_requiredSignatures :: number
  tp_rationale :: string

record stellar_signer_config =
  sc_accountId :: string
  sc_thresholdLow :: number
  sc_thresholdMedium :: number
  sc_thresholdHigh :: number
  sc_signers :: "(string \<times> number) list"

datatype signature_level = Low | Medium | High

record signature_verification =
  sv_valid :: bool
  sv_weight :: number
  sv_required :: number
  sv_missing :: number
  sv_level :: signature_level

record audit_input =
  ai_actorId :: string
  ai_action :: string
  ai_subjectId :: "string option"
  ai_decision :: policy_effect
  ai_reason :: string
  ai_metadata :: "(string \<times> json) list"

record audit_entry =
  ae_id :: string
  ae_sequence :: nat
  ae_timestamp :: int
  ae_input :: audit_input
  ae_previousHash :: string
  ae_hash :: string

record auth_state =
  st_policies :: "(string \<times> policy) list"
  st_counters :: "(string \<times> action_counter) list"
  st_delegations :: "(string \<times> delegation) list"
  st_thresholds :: base_threshold_config
  st_accounts :: "(string \<times> stellar_signer_config) list"
  st_entries :: "audit_entry list"

section \<open>The policy engine\<close>

definition registerPolicy :: "policy \<Rightarrow> auth_state \<Rightarrow> auth_state" where
  "registerPolicy p st = st\<lparr>st_policies := map_set (pol_id p) p (st_policies st)\<rparr>"

definition registerPolicies :: "policy list \<Rightarrow> auth_state \<Rightarrow> auth_state" where
  "registerPolicies ps st = foldl (\<lambda>st p. registerPolicy p st) st ps"

definition removePolicy :: "string \<Rightarrow> auth_state \<Rightarrow> bool \<times> auth_state" where
  "removePolicy i st = (map_of (st_policies st) i \<noteq> None, st\<lparr>st_policies := map_delete i (st_policies st)\<rparr>)"

definition recordAction :: "int \<Rightarrow> string \<Rightarrow> number \<Rightarrow> auth_state \<Rightarrow> auth_state" where
  "recordAction t subjectId window st =
     (case map_of (st_counters st) subjectId of
        None \<Rightarrow> st\<lparr>st_counters := map_set subjectId \<lparr>ac_count = 1, ac_windowStart = t\<rparr> (st_counters st)\<rparr>
      | Some c \<Rightarrow>
          st\<lparr>st_counters := map_set subjectId
            (if window \<le> of_int (t - ac_windowStart c) then \<lparr>ac_count = 1, ac_windowStart = t\<rparr>
             else c\<lparr>ac_count := ac_count c + 1\<rparr>) (st_counters st)\<rparr>)"

definition recentActionCount :: "int \<Rightarrow> string \<Rightarrow> number \<Rightarrow> auth_state \<Rightarrow> nat" where
  "recentActionCount t subjectId window st =
     (case map_of (st_counters st) subjectId of
        None \<Rightarrow> 0
      | Some c \<Rightarrow> if window \<le> of_int (t - ac_windowStart c) then 0 else ac_count c)"

definition appliesTo :: "policy \<Rightarrow> authorization_request \<Rightarrow> bool" where
  "appliesTo p rq = (case appliesToRoles p of
     None \<Rightarrow> True
   | Some roles \<Rightarrow> roles = [] \<or> list_ex (\<lambda>r. r \<in> set (rq_roles rq)) roles)"

definition matchesTimeWindow :: "time_window \<Rightarrow> int \<Rightarrow> bool" where
  "matchesTimeWindow c tm =
     (if (case daysOfWeek c of None \<Rightarrow> False | Some ds \<Rightarrow> ds \<noteq> [] \<and> of_nat (utc_day tm) \<notin> set ds) then False
      else let hour = of_nat (utc_hours tm)
           in if startHour c = endHour c then True
              else if startHour c < endHour c then startHour c \<le> hour \<and> hour < endHour c
              else startHour c \<le> hour \<or> hour < endHour c)"

definition matchesTransactionLimit :: "transaction_limit \<Rightarrow> authorization_request \<Rightarrow> bool" where
  "matchesTransactionLimit c rq =
     (let amount = (case rq_amount rq of None \<Rightarrow> 0 | Some a \<Rightarrow> a);
          daily = (case rq_dailyAmount rq of None \<Rightarrow> 0 | Some a \<Rightarrow> a)
      in if (case tl_minAmount c of None \<Rightarrow> False | Some m \<Rightarrow> amount < m) then False
         else if (case tl_maxAmount c of None \<Rightarrow> False | Some m \<Rightarrow> amount > m) then False
         else if (case tl_maxDailyAmount c of None \<Rightarrow> False | Some m \<Rightarrow> daily > m) then False
         else True)"

definition nonempty :: "string list option \<Rightarrow> bool" where
  "nonempty xs = (case xs of None \<Rightarrow> False | Some xs \<Rightarrow> xs \<noteq> [])"

definition matchesTokenRestriction :: "token_restriction \<Rightarrow> authorization_request \<Rightarrow> bool" where
  "matchesTokenRestriction c rq =
     (let token = (case rq_tokenPair rq of Some t \<Rightarrow> Some t | None \<Rightarrow> rq_asset rq);
          truthy = (case token of None \<Rightarrow> False | Some t \<Rightarrow> t \<noteq> [])
      in if nonempty (deniedTokens c) \<and> truthy \<and> the token \<in> set (the (deniedTokens c)) then False
         else if nonempty (allowedTokens c)
         then truthy \<and> list_ex (\<lambda>entry. entry = the token \<or> entry = hd (split_on (CHR '':'') (the token))) (the (allowedTokens c))
         else True)"

definition matchesRateLimit :: "int \<Rightarrow> rate_limit \<Rightarrow> authorization_request \<Rightarrow> auth_state \<Rightarrow> bool" where
  "matchesRateLimit t c rq st =
     (let tracked = of_nat (recentActionCount t (rq_subjectId rq) (windowMs c) st);
          reported = (case rq_recentActionCount rq of None \<Rightarrow> 0 | Some n \<Rightarrow> n)
      in max tracked reported < maxActions c)"

text \<open>\<open>t\<close> is the clock, \<open>tm\<close> the time of the request.\<close>

fun matchesCondition :: "int \<Rightarrow> authorization_request \<Rightarrow> int \<Rightarrow> auth_state \<Rightarrow> policy_condition \<Rightarrow> bool" where
  "matchesCondition t rq tm st (TimeWindow c) = matchesTimeWindow c tm"
| "matchesCondition t rq tm st (TransactionLimit c) = matchesTransactionLimit c rq"
| "matchesCondition t rq tm st (TokenRestriction c) = matchesTokenRestriction c rq"
| "matchesCondition t rq tm st (RateLimit c) = matchesRateLimit t c rq st"

definition request_time :: "int \<Rightarrow> authorization_request \<Rightarrow> int" where
  "request_time t rq = (case rq_timestamp rq of None \<Rightarrow> t | Some tm \<Rightarrow> tm)"

definition matched_policies :: "int \<Rightarrow> authorization_request \<Rightarrow> auth_state \<Rightarrow> policy list" where
  "matched_policies t rq st =
     filter (\<lambda>p. appliesTo p rq \<and> list_all (matchesCondition t rq (request_time t rq) st) (pol_conditions p))
       (map snd (st_policies st))"

definition evaluate :: "int \<Rightarrow> authorization_request \<Rightarrow> auth_state \<Rightarrow> policy_decision" where
  "evaluate t rq st =
     (let matched = matched_policies t rq st;
          denied = filter (\<lambda>p. pol_effect p = Deny) matched;
          allowed = filter (\<lambda>p. pol_effect p = Allow) matched;
          tm = request_time t rq
      in if denied \<noteq> [] then
           \<lparr>pd_allowed = False, pd_reason = ''Denied by policy: '' @ join_with '', '' (map pol_id denied),
            pd_matchedPolicyIds = map pol_id matched, pd_evaluatedAt = tm\<rparr>
         else if allowed \<noteq> [] then
           \<lparr>pd_allowed = True, pd_reason = ''Allowed by policy: '' @ join_with '', '' (map pol_id allowed),
            pd_matchedPolicyIds = map pol_id matched, pd_evaluatedAt = tm\<rparr>
         else
           \<lparr>pd_allowed = True, pd_reason = ''No policy restrictions applied'',
            pd_matchedPolicyIds = [], pd_evaluatedAt = tm\<rparr>)"

section \<open>Delegations\<close>

definition isExpired :: "int \<Rightarrow> delegation \<Rightarrow> bool" where
  "isExpired t d \<longleftrightarrow> dg_expiresAt d \<le> t"

definition requireDelegation :: "string \<Rightarrow> auth_state \<Rightarrow> delegation result" where
  "requireDelegation i st = (case map_of (st_delegations st) i of
     None \<Rightarrow> Inl (BadRequest (''Delegation '' @ i @ '' not found''))
   | Some d \<Rightarrow> Inr d)"

definition put_delegation :: "delegation \<Rightarrow> auth_state \<Rightarrow> auth_state" where
  "put_delegation d st = st\<lparr>st_delegations := map_set (dg_id d) d (st_delegations st)\<rparr>"

definition createDelegation :: "env \<Rightarrow> create_delegation_input \<Rightarrow> auth_state \<Rightarrow> (delegation \<times> auth_state) result" where
  "createDelegation e input st =
     (if ci_delegatorId input = ci_delegateeId input then Inl (BadRequest ''A delegation cannot target its delegator'')
      else if ci_permissions input = [] then Inl (BadRequest ''A delegation must grant at least one permission'')
      else if ci_expiresAt input \<le> now e then Inl (BadRequest ''A delegation must expire in the future'')
      else
        let chain = filter (\<lambda>a. a \<noteq> ci_delegateeId input)
              (js_set (case ci_approvalChain input of None \<Rightarrow> [] | Some c \<Rightarrow> c));
            d = \<lparr>dg_id = uuid e 0, dg_delegatorId = ci_delegatorId input, dg_delegateeId = ci_delegateeId input,
                 dg_permissions = js_set (ci_permissions input), dg_expiresAt = ci_expiresAt input,
                 dg_status = (if chain \<noteq> [] then D_PENDING else D_ACTIVE), dg_approvalChain = chain,
                 dg_approvals = [], dg_createdAt = now e\<rparr>
        in Inr (d, put_delegation d st))"

text \<open>A rejected approval of an expired delegation still marks it as expired.\<close>

definition approveDelegation :: "int \<Rightarrow> string \<Rightarrow> string \<Rightarrow> auth_state \<Rightarrow> delegation result \<times> auth_state" where
  "approveDelegation t i approverId st =
     (case requireDelegation i st of
        Inl e \<Rightarrow> (Inl e, st)
      | Inr d \<Rightarrow>
          if dg_status d = D_REVOKED then (Inl (BadRequest ''Cannot approve a revoked delegation''), st)
          else if dg_status d = D_EXPIRED \<or> isExpired t d
          then (Inl (BadRequest ''Cannot approve an expired delegation''), put_delegation (d\<lparr>dg_status := D_EXPIRED\<rparr>) st)
          else if approverId \<notin> set (dg_approvalChain d)
          then (Inl (BadRequest (approverId @ '' is not part of the approval chain for '' @ i)), st)
          else
            let d = (if approverId \<in> set (dg_approvals d) then d else d\<lparr>dg_approvals := dg_approvals d @ [approverId]\<rparr>);
                d = (if list_all (\<lambda>a. a \<in> set (dg_approvals d)) (dg_approvalChain d) then d\<lparr>dg_status := D_ACTIVE\<rparr> else d)
            in (Inr d, put_delegation d st))"

definition revokeDelegation :: "string \<Rightarrow> string \<Rightarrow> auth_state \<Rightarrow> (delegation \<times> auth_state) result" where
  "revokeDelegation i requesterId st =
     rbind (requireDelegation i st) (\<lambda>d.
       if dg_delegatorId d \<noteq> requesterId \<and> requesterId \<notin> set (dg_approvalChain d)
       then Inl (BadRequest ''Only the delegator or an approver can revoke this delegation'')
       else let d = d\<lparr>dg_status := D_REVOKED\<rparr> in Inr (d, put_delegation d st))"

definition usable :: "int \<Rightarrow> string \<Rightarrow> delegation \<Rightarrow> bool" where
  "usable t subjectId d \<longleftrightarrow> dg_delegateeId d = subjectId \<and> dg_status d = D_ACTIVE \<and> \<not> isExpired t d"

definition expire_for :: "int \<Rightarrow> string \<Rightarrow> delegation \<Rightarrow> delegation" where
  "expire_for t subjectId d =
     (if dg_delegateeId d = subjectId \<and> dg_status d = D_ACTIVE \<and> isExpired t d then d\<lparr>dg_status := D_EXPIRED\<rparr> else d)"

definition activePermissionsFor :: "int \<Rightarrow> string \<Rightarrow> auth_state \<Rightarrow> permission list \<times> auth_state" where
  "activePermissionsFor t subjectId st =
     (js_set (concat (map (\<lambda>d. dg_permissions d) (filter (usable t subjectId) (map snd (st_delegations st))))),
      st\<lparr>st_delegations := map (\<lambda>(i, d). (i, expire_for t subjectId d)) (st_delegations st)\<rparr>)"

definition hasDelegatedPermission :: "int \<Rightarrow> string \<Rightarrow> permission \<Rightarrow> auth_state \<Rightarrow> bool \<times> auth_state" where
  "hasDelegatedPermission t subjectId p st =
     (let (ps, st) = activePermissionsFor t subjectId st in (p \<in> set ps, st))"

section \<open>The audit trail\<close>

definition GENESIS_HASH :: string where
  "GENESIS_HASH = replicate 64 (CHR ''0'')"

fun effect_str :: "policy_effect \<Rightarrow> string" where
  "effect_str Allow = ''allow''"
| "effect_str Deny = ''deny''"

definition hash_payload :: "string \<Rightarrow> nat \<Rightarrow> audit_input \<Rightarrow> int \<Rightarrow> string" where
  "hash_payload previousHash sequence input timestamp =
     join_with ''|'' [previousHash, nat_to_string sequence, ai_actorId input, ai_action input,
       (case ai_subjectId input of None \<Rightarrow> [] | Some s \<Rightarrow> s), effect_str (ai_decision input), ai_reason input,
       toISOString timestamp, json_stringify (JObj (ai_metadata input))]"

definition computeHash :: "(string \<Rightarrow> string) \<Rightarrow> string \<Rightarrow> nat \<Rightarrow> audit_input \<Rightarrow> int \<Rightarrow> string" where
  "computeHash sha previousHash sequence input timestamp = sha (hash_payload previousHash sequence input timestamp)"

definition record_entry :: "(string \<Rightarrow> string) \<Rightarrow> env \<Rightarrow> audit_input \<Rightarrow> auth_state \<Rightarrow> auth_state" where
  "record_entry sha e input st =
     (let entries = st_entries st;
          previousHash = (if entries \<noteq> [] then ae_hash (last entries) else GENESIS_HASH);
          sequence = length entries + 1;
          entry = \<lparr>ae_id = uuid e 1, ae_sequence = sequence, ae_timestamp = now e, ae_input = input,
            ae_previousHash = previousHash, ae_hash = computeHash sha previousHash sequence input (now e)\<rparr>
      in st\<lparr>st_entries := entries @ [entry]\<rparr>)"

fun verify_from :: "(string \<Rightarrow> string) \<Rightarrow> string \<Rightarrow> audit_entry list \<Rightarrow> bool" where
  "verify_from sha previousHash [] = True"
| "verify_from sha previousHash (x # xs) =
     (if ae_previousHash x \<noteq> previousHash then False
      else if computeHash sha (ae_previousHash x) (ae_sequence x) (ae_input x) (ae_timestamp x) \<noteq> ae_hash x then False
      else verify_from sha (ae_hash x) xs)"

definition verifyChain :: "(string \<Rightarrow> string) \<Rightarrow> auth_state \<Rightarrow> bool" where
  "verifyChain sha st = verify_from sha GENESIS_HASH (st_entries st)"

definition listForSubject :: "string \<Rightarrow> auth_state \<Rightarrow> audit_entry list" where
  "listForSubject subjectId st = filter (\<lambda>x. ai_subjectId (ae_input x) = Some subjectId) (st_entries st)"

section \<open>Dynamic thresholds\<close>

definition clamp :: "number \<Rightarrow> number" where
  "clamp x = min 1 (max 0 x)"

definition calculate :: "market_conditions \<Rightarrow> auth_state \<Rightarrow> threshold_profile" where
  "calculate c st =
     (let config = st_thresholds st;
          volatility = clamp (case mc_volatility c of None \<Rightarrow> 0 | Some x \<Rightarrow> x);
          liquidity = clamp (case mc_liquidity c of None \<Rightarrow> 1 | Some x \<Rightarrow> x);
          volume = clamp (case mc_volume c of None \<Rightarrow> 0 | Some x \<Rightarrow> x);
          volatilityFactor = num_sub 1 (num_mul (3 / 4) volatility);
          liquidityFactor = num_add 1 (num_mul (1 / 4) (num_sub 1 liquidity));
          maxAmount = max (bt_minAmount config)
            (of_int (math_round (num_mul (num_mul (bt_maxAmount config) volatilityFactor) liquidityFactor)));
          s0 = bt_requiredSignatures config;
          s1 = (if volume > fl (3 / 5) then num_add s0 1 else s0);
          requiredSignatures = (if volatility > 3 / 4 then num_add s1 1 else s1)
      in \<lparr>tp_baseAmount = bt_baseAmount config, tp_minAmount = bt_minAmount config, tp_maxAmount = maxAmount,
          tp_requiredSignatures = requiredSignatures,
          tp_rationale = join_with '' '' [''base='' @ num_to_string (bt_baseAmount config),
            ''volatility='' @ to_fixed 2 volatility, ''liquidity='' @ to_fixed 2 liquidity, ''volume='' @ to_fixed 2 volume]\<rparr>)"

definition isWithinLimits :: "number \<Rightarrow> threshold_profile \<Rightarrow> bool" where
  "isWithinLimits amount p \<longleftrightarrow> tp_minAmount p \<le> amount \<and> amount \<le> tp_maxAmount p"

definition requiresMultiSignature :: "number \<Rightarrow> threshold_profile \<Rightarrow> bool" where
  "requiresMultiSignature amount p \<longleftrightarrow> tp_baseAmount p \<le> amount \<and> 1 < tp_requiredSignatures p"

section \<open>Stellar signers\<close>

definition registerAccount :: "stellar_signer_config \<Rightarrow> auth_state \<Rightarrow> auth_state" where
  "registerAccount c st = st\<lparr>st_accounts := map_set (sc_accountId c) c (st_accounts st)\<rparr>"

definition requiredWeight :: "string \<Rightarrow> signature_level \<Rightarrow> auth_state \<Rightarrow> number result" where
  "requiredWeight accountId level st = (case map_of (st_accounts st) accountId of
     None \<Rightarrow> Inl (BadRequest (''No signer configuration registered for account '' @ accountId))
   | Some a \<Rightarrow> Inr (case level of Low \<Rightarrow> sc_thresholdLow a | Medium \<Rightarrow> sc_thresholdMedium a | High \<Rightarrow> sc_thresholdHigh a))"

text \<open>The weights are a \<^verbatim>\<open>Map\<close> built from the signers: the last weight of a key counts.\<close>

definition totalWeight :: "string \<Rightarrow> string list \<Rightarrow> auth_state \<Rightarrow> number" where
  "totalWeight accountId signatures st = (case map_of (st_accounts st) accountId of
     None \<Rightarrow> 0
   | Some a \<Rightarrow>
       let weights = foldl (\<lambda>m (k, w). map_set k w m) [] (sc_signers a)
       in foldl (\<lambda>sum key. num_add sum (case map_of weights key of None \<Rightarrow> 0 | Some w \<Rightarrow> w)) 0 signatures)"

definition verify :: "string \<Rightarrow> string list \<Rightarrow> signature_level \<Rightarrow> auth_state \<Rightarrow> signature_verification result" where
  "verify accountId signatures level st =
     rbind (requiredWeight accountId level st) (\<lambda>required.
       let weight = totalWeight accountId signatures st
       in Inr \<lparr>sv_valid = (required \<le> weight), sv_weight = weight, sv_required = required,
               sv_missing = max 0 (num_sub required weight), sv_level = level\<rparr>)"

definition levelForAmount :: "number \<Rightarrow> number \<Rightarrow> number \<Rightarrow> signature_level" where
  "levelForAmount amount baseAmount maxAmount =
     (if maxAmount \<le> amount then High else if baseAmount \<le> amount then Medium else Low)"

section \<open>The facade\<close>

record authorize_result =
  ar_decision :: policy_decision
  ar_viaDelegation :: bool
  ar_effectivePermissions :: "permission list"

definition roles_json :: "role list \<Rightarrow> json" where
  "roles_json rs = JArr (map (\<lambda>r. JStr (auth_role_str r)) rs)"

definition authorize ::
  "(string \<Rightarrow> string) \<Rightarrow> env \<Rightarrow> authorization_request \<Rightarrow> auth_state \<Rightarrow> authorize_result \<times> auth_state" where
  "authorize sha e rq st =
     (let (delegated, st) = activePermissionsFor (now e) (rq_subjectId rq) st;
          rolePermissions = permissionsFor (rq_roles rq);
          fromRole = rq_permission rq \<in> set rolePermissions;
          fromDelegation = rq_permission rq \<in> set delegated;
          entry = (\<lambda>d reason meta. \<lparr>ai_actorId = rq_subjectId rq, ai_action = permission_str (rq_permission rq),
            ai_subjectId = Some (rq_subjectId rq), ai_decision = d, ai_reason = reason, ai_metadata = meta\<rparr>)
      in if \<not> fromRole \<and> \<not> fromDelegation
         then let reason = ''Subject lacks permission '' @ permission_str (rq_permission rq)
              in (\<lparr>ar_decision = \<lparr>pd_allowed = False, pd_reason = reason, pd_matchedPolicyIds = [],
                     pd_evaluatedAt = request_time (now e) rq\<rparr>,
                   ar_viaDelegation = False, ar_effectivePermissions = rolePermissions\<rparr>,
                  record_entry sha e (entry Deny reason [(''roles'', roles_json (rq_roles rq))]) st)
         else let decision = evaluate (now e) rq st;
                  meta = [(''roles'', roles_json (rq_roles rq))] @
                    (case rq_amount rq of None \<Rightarrow> [] | Some a \<Rightarrow> [(''amount'', JNum a)]) @
                    (case rq_asset rq of None \<Rightarrow> [] | Some a \<Rightarrow> [(''asset'', JStr a)]) @
                    [(''matchedPolicyIds'', JArr (map JStr (pd_matchedPolicyIds decision)))]
              in (\<lparr>ar_decision = decision, ar_viaDelegation = (\<not> fromRole \<and> fromDelegation),
                   ar_effectivePermissions = js_set (rolePermissions @ delegated)\<rparr>,
                  record_entry sha e (entry (if pd_allowed decision then Allow else Deny) (pd_reason decision) meta) st))"

definition profile_json :: "threshold_profile \<Rightarrow> json" where
  "profile_json p = JObj [(''baseAmount'', JNum (tp_baseAmount p)), (''minAmount'', JNum (tp_minAmount p)),
     (''maxAmount'', JNum (tp_maxAmount p)), (''requiredSignatures'', JNum (tp_requiredSignatures p)),
     (''rationale'', JStr (tp_rationale p))]"

definition authorizeWithThresholds ::
  "(string \<Rightarrow> string) \<Rightarrow> env \<Rightarrow> authorization_request \<Rightarrow> market_conditions \<Rightarrow> auth_state \<Rightarrow>
   authorize_result \<times> threshold_profile \<times> auth_state" where
  "authorizeWithThresholds sha e rq c st =
     (let profile = calculate c st;
          amount = (case rq_amount rq of None \<Rightarrow> 0 | Some a \<Rightarrow> a)
      in if \<not> isWithinLimits amount profile
         then let reason = ''Amount '' @ num_to_string amount @ '' is outside the permitted range ['' @
                    num_to_string (tp_minAmount profile) @ '', '' @ num_to_string (tp_maxAmount profile) @ ''] ('' @
                    tp_rationale profile @ '')''
              in (\<lparr>ar_decision = \<lparr>pd_allowed = False, pd_reason = reason, pd_matchedPolicyIds = [],
                     pd_evaluatedAt = request_time (now e) rq\<rparr>,
                   ar_viaDelegation = False, ar_effectivePermissions = []\<rparr>, profile,
                  record_entry sha e \<lparr>ai_actorId = rq_subjectId rq, ai_action = permission_str (rq_permission rq),
                    ai_subjectId = Some (rq_subjectId rq), ai_decision = Deny, ai_reason = reason,
                    ai_metadata = [(''profile'', profile_json profile)]\<rparr> st)
         else let (r, st) = authorize sha e rq st in (r, profile, st))"

end
