(* ===== verification/Auth_Props.thy ===== *)
theory Auth_Props
  imports Auth
begin

text \<open>
  Properties of the authorization framework. The operations of the services are the steps of
  \<open>auth_step\<close>; the audit chain and the delegations are treated as invariants of the states
  it reaches.
\<close>

section \<open>Decisions\<close>

lemma evaluate_allowed: "pd_allowed (evaluate t rq st) \<longleftrightarrow> (\<forall>p \<in> set (matched_policies t rq st). pol_effect p \<noteq> Deny)"
  by (auto simp: evaluate_def Let_def filter_empty_conv)

lemma matched_policies_cong:
  "st_policies st' = st_policies st \<Longrightarrow> st_counters st' = st_counters st \<Longrightarrow>
   matched_policies t rq st' = matched_policies t rq st"
proof -
  assume eq: "st_policies st' = st_policies st" "st_counters st' = st_counters st"
  have "matchesCondition t rq tm st' = matchesCondition t rq tm st" for tm
  proof
    show "matchesCondition t rq tm st' c = matchesCondition t rq tm st c" for c
      by (cases c) (simp_all add: matchesRateLimit_def recentActionCount_def eq)
  qed
  then show ?thesis by (simp add: matched_policies_def eq)
qed

lemma activePermissionsFor_frame:
  "snd (activePermissionsFor t s st) = st\<lparr>st_delegations := map (\<lambda>(i, d). (i, expire_for t s d)) (st_delegations st)\<rparr>"
  "set (fst (activePermissionsFor t s st)) = {p. \<exists>(i, d) \<in> set (st_delegations st). usable t s d \<and> p \<in> set (dg_permissions d)}"
  by (auto simp: activePermissionsFor_def)

lemma activePermissionsFor_entries [simp]: "st_entries (snd (activePermissionsFor t s st)) = st_entries st"
  by (simp add: activePermissionsFor_def)

definition permitted :: "int \<Rightarrow> authorization_request \<Rightarrow> auth_state \<Rightarrow> bool" where
  "permitted t rq st \<longleftrightarrow> rq_permission rq \<in> set (concat (map ROLE_PERMISSIONS (rq_roles rq))) \<or>
     (\<exists>(i, d) \<in> set (st_delegations st). usable t (rq_subjectId rq) d \<and> rq_permission rq \<in> set (dg_permissions d))"

lemma authorize_effect:
  assumes "authorize sha e rq st = (r, st')"
  shows "(pd_allowed (ar_decision r) \<longleftrightarrow> permitted (now e) rq st \<and>
      (\<forall>p \<in> set (matched_policies (now e) rq st). pol_effect p \<noteq> Deny)) \<and>
    (\<exists>input. st' = record_entry sha e input (snd (activePermissionsFor (now e) (rq_subjectId rq) st)) \<and>
       ai_decision input = (if pd_allowed (ar_decision r) then Allow else Deny) \<and>
       ai_subjectId input = Some (rq_subjectId rq) \<and> ai_action input = permission_str (rq_permission rq))"
proof -
  obtain del st1 where a: "activePermissionsFor (now e) (rq_subjectId rq) st = (del, st1)"
    by (cases "activePermissionsFor (now e) (rq_subjectId rq) st")
  have del: "rq_permission rq \<in> set del \<longleftrightarrow>
      (\<exists>(i, d) \<in> set (st_delegations st). usable (now e) (rq_subjectId rq) d \<and> rq_permission rq \<in> set (dg_permissions d))"
    using activePermissionsFor_frame(2) [of "now e" "rq_subjectId rq" st] a by simp
  have st1: "st1 = st\<lparr>st_delegations := map (\<lambda>(i, d). (i, expire_for (now e) (rq_subjectId rq) d)) (st_delegations st)\<rparr>"
    using activePermissionsFor_frame(1) [of "now e" "rq_subjectId rq" st] a by simp
  have m: "matched_policies (now e) rq st1 = matched_policies (now e) rq st" by (rule matched_policies_cong) (simp_all add: st1)
  have perm: "permitted (now e) rq st \<longleftrightarrow> rq_permission rq \<in> set (permissionsFor (rq_roles rq)) \<or> rq_permission rq \<in> set del"
    unfolding permitted_def del permissionsFor_def by simp
  show ?thesis
  proof (cases "permitted (now e) rq st")
    case True
    then show ?thesis using assms a perm evaluate_allowed [of "now e" rq st1] m
      by (auto simp: authorize_def Let_def)
  next
    case False
    then show ?thesis using assms a perm by (auto simp: authorize_def Let_def)
  qed
qed

section \<open>Steps and reachable states\<close>

inductive auth_step :: "(string \<Rightarrow> string) \<Rightarrow> auth_state \<Rightarrow> auth_state \<Rightarrow> bool" for sha where
  register_policy: "auth_step sha st (registerPolicy p st)"
| remove_policy: "auth_step sha st (snd (removePolicy i st))"
| record_action: "auth_step sha st (recordAction t s w st)"
| register_account: "auth_step sha st (registerAccount c st)"
| configure: "auth_step sha st (st\<lparr>st_thresholds := c\<rparr>)"
| create_delegation: "createDelegation e input st = Inr (d, st') \<Longrightarrow> map_of (st_delegations st) (uuid e 0) = None \<Longrightarrow> auth_step sha st st'"
| approve_delegation: "auth_step sha st (snd (approveDelegation t i a st))"
| revoke_delegation: "revokeDelegation i a st = Inr (d, st') \<Longrightarrow> auth_step sha st st'"
| active_permissions: "auth_step sha st (snd (activePermissionsFor t s st))"
| authorize_request: "auth_step sha st (snd (authorize sha e rq st))"
| authorize_thresholds: "auth_step sha st (snd (snd (authorizeWithThresholds sha e rq c st)))"

definition initial_auth :: "auth_state" where
  "initial_auth = \<lparr>st_policies = [], st_counters = [], st_delegations = [],
     st_thresholds = \<lparr>bt_baseAmount = 1000, bt_minAmount = fl (1 / 100), bt_maxAmount = 100000, bt_requiredSignatures = 2\<rparr>,
     st_accounts = [], st_entries = []\<rparr>"

inductive auth_reachable :: "(string \<Rightarrow> string) \<Rightarrow> auth_state \<Rightarrow> bool" for sha where
  start: "auth_reachable sha initial_auth"
| step: "auth_reachable sha st \<Longrightarrow> auth_step sha st st' \<Longrightarrow> auth_reachable sha st'"

section \<open>The audit chain\<close>

definition chain_end :: "string \<Rightarrow> audit_entry list \<Rightarrow> string" where
  "chain_end h xs = (if xs = [] then h else ae_hash (last xs))"

lemma verify_from_append:
  "verify_from sha h (xs @ ys) \<longleftrightarrow> verify_from sha h xs \<and> verify_from sha (chain_end h xs) ys"
  by (induction sha h xs rule: verify_from.induct) (auto simp: chain_end_def)

definition chain_inv :: "(string \<Rightarrow> string) \<Rightarrow> audit_entry list \<Rightarrow> bool" where
  "chain_inv sha xs \<longleftrightarrow> verify_from sha GENESIS_HASH xs \<and> map ae_sequence xs = [1..<length xs + 1]"

lemma chain_inv_record:
  assumes "chain_inv sha (st_entries st)"
  shows "chain_inv sha (st_entries (record_entry sha e input st))"
  using assms by (auto simp: chain_inv_def record_entry_def Let_def verify_from_append chain_end_def)

definition logs :: "(string \<Rightarrow> string) \<Rightarrow> auth_state \<Rightarrow> auth_state \<Rightarrow> bool" where
  "logs sha st st' \<longleftrightarrow> (\<exists>e input st1. st_entries st1 = st_entries st \<and> st' = record_entry sha e input st1)"

lemma authorize_logs: "logs sha st (snd (authorize sha e rq st))"
proof -
  obtain r st1 where a: "authorize sha e rq st = (r, st1)" by fastforce
  from authorize_effect [OF a] obtain input where
    "st1 = record_entry sha e input (snd (activePermissionsFor (now e) (rq_subjectId rq) st))" by blast
  with a show ?thesis unfolding logs_def by (metis activePermissionsFor_entries snd_conv)
qed

lemma authorizeWithThresholds_logs: "logs sha st (snd (snd (authorizeWithThresholds sha e rq c st)))"
proof -
  obtain r st1 where a: "authorize sha e rq st = (r, st1)" by fastforce
  with authorize_logs [of sha st e rq] have l: "logs sha st st1" by simp
  have "logs sha st (record_entry sha e input st)" for input by (auto simp: logs_def)
  with l a show ?thesis by (simp add: authorizeWithThresholds_def Let_def)
qed

lemma auth_step_entries: "auth_step sha st st' \<Longrightarrow> st_entries st' = st_entries st \<or> logs sha st st'"
proof (induction rule: auth_step.induct)
  case (approve_delegation st t i a)
  show ?case by (simp add: approveDelegation_def put_delegation_def Let_def split: sum.split)
next
  case (create_delegation e input st d st')
  then show ?case by (auto simp: createDelegation_def put_delegation_def Let_def split: if_splits)
next
  case (revoke_delegation i a st d st')
  then show ?case by (auto simp: revokeDelegation_def put_delegation_def Let_def rbind_def split: if_splits sum.splits)
qed (simp_all add: authorize_logs authorizeWithThresholds_logs registerPolicy_def removePolicy_def recordAction_def
    registerAccount_def split: option.split)

lemma reachable_chain: "auth_reachable sha st \<Longrightarrow> chain_inv sha (st_entries st)"
proof (induction rule: auth_reachable.induct)
  case start
  show ?case by (simp add: chain_inv_def initial_auth_def)
next
  case (step st st')
  from auth_step_entries [OF step(2)] show ?case
  proof
    assume "st_entries st' = st_entries st"
    with step.IH show ?thesis by simp
  next
    assume "logs sha st st'"
    then show ?thesis unfolding logs_def using step.IH chain_inv_record by metis
  qed
qed

section \<open>Delegations\<close>

definition ended :: "delegation \<Rightarrow> bool" where
  "ended d \<longleftrightarrow> dg_status d \<in> {D_REVOKED, D_EXPIRED}"

text \<open>What every stored delegation satisfies: an active one has the approval of its whole chain.\<close>

definition deleg_ok :: "delegation \<Rightarrow> bool" where
  "deleg_ok d \<longleftrightarrow> dg_delegatorId d \<noteq> dg_delegateeId d \<and> dg_permissions d \<noteq> [] \<and>
     dg_delegateeId d \<notin> set (dg_approvalChain d) \<and> set (dg_approvals d) \<subseteq> set (dg_approvalChain d) \<and>
     (dg_status d = D_ACTIVE \<longrightarrow> set (dg_approvalChain d) \<subseteq> set (dg_approvals d))"

definition deleg_inv :: "auth_state \<Rightarrow> bool" where
  "deleg_inv st \<longleftrightarrow> (\<forall>(i, d) \<in> set (st_delegations st). dg_id d = i \<and> deleg_ok d)"

lemma js_set_Nil_iff [simp]: "js_set xs = [] \<longleftrightarrow> xs = []"
  by (metis set_empty set_js_set)

lemma deleg_inv_lookup: "deleg_inv st \<Longrightarrow> map_of (st_delegations st) i = Some d \<Longrightarrow> dg_id d = i \<and> deleg_ok d"
  by (fastforce simp: deleg_inv_def dest: map_of_SomeD)

lemma deleg_inv_put: "deleg_inv st \<Longrightarrow> deleg_ok d \<Longrightarrow> deleg_inv (put_delegation d st)"
  by (auto simp: deleg_inv_def put_delegation_def dest!: set_map_set)

text \<open>
  The delegation operations write one good delegation, which is not a return of an ended one,
  or expire the ones that have run out.
\<close>

definition deleg_write :: "auth_state \<Rightarrow> auth_state \<Rightarrow> bool" where
  "deleg_write st st' \<longleftrightarrow> (\<exists>d'. st' = put_delegation d' st \<and> deleg_ok d' \<and>
     (\<forall>d. map_of (st_delegations st) (dg_id d') = Some d \<longrightarrow> ended d \<longrightarrow> ended d'))"

lemma createDelegation_write:
  assumes "createDelegation e input st = Inr (d, st')" and "map_of (st_delegations st) (uuid e 0) = None"
  shows "deleg_write st st'"
proof -
  from assms(1) have d: "st' = put_delegation d st" "dg_id d = uuid e 0" "deleg_ok d"
    by (auto simp: createDelegation_def deleg_ok_def Let_def split: if_splits)
  with assms(2) show ?thesis unfolding deleg_write_def by (intro exI [of _ d]) simp
qed

lemma approveDelegation_write:
  assumes "deleg_inv st"
  shows "snd (approveDelegation t i a st) = st \<or> deleg_write st (snd (approveDelegation t i a st))"
proof (cases "map_of (st_delegations st) i")
  case None
  then show ?thesis by (simp add: approveDelegation_def requireDelegation_def)
next
  case (Some d)
  with deleg_inv_lookup [OF assms] have d: "dg_id d = i" "deleg_ok d" by auto
  show ?thesis
  proof (cases "ended d \<or> isExpired t d")
    case True
    have "deleg_write st (put_delegation (d\<lparr>dg_status := D_EXPIRED\<rparr>) st)"
      unfolding deleg_write_def using d by (intro exI [of _ "d\<lparr>dg_status := D_EXPIRED\<rparr>"]) (auto simp: deleg_ok_def ended_def)
    with True Some show ?thesis by (auto simp: approveDelegation_def requireDelegation_def ended_def)
  next
    case False
    let ?d = "if a \<in> set (dg_approvals d) then d else d\<lparr>dg_approvals := dg_approvals d @ [a]\<rparr>"
    let ?d' = "if list_all (\<lambda>x. x \<in> set (dg_approvals ?d)) (dg_approvalChain ?d) then ?d\<lparr>dg_status := D_ACTIVE\<rparr> else ?d"
    have "deleg_write st (put_delegation ?d' st)" if "a \<in> set (dg_approvalChain d)"
    proof -
      have "dg_id ?d' = i" "deleg_ok ?d'" using d that by (auto simp: deleg_ok_def list_all_iff)
      with False Some show ?thesis unfolding deleg_write_def by (intro exI [of _ ?d']) auto
    qed
    with False Some show ?thesis by (auto simp: approveDelegation_def requireDelegation_def ended_def Let_def)
  qed
qed

lemma revokeDelegation_write:
  assumes "deleg_inv st" and "revokeDelegation i a st = Inr (d', st')"
  shows "deleg_write st st' \<and> map_of (st_delegations st') i = Some d' \<and> dg_status d' = D_REVOKED"
proof -
  from assms(2) obtain d where d: "map_of (st_delegations st) i = Some d" "d' = d\<lparr>dg_status := D_REVOKED\<rparr>"
    "st' = put_delegation d' st"
    by (auto simp: revokeDelegation_def requireDelegation_def rbind_Inr_iff Let_def split: option.splits if_splits)
  with deleg_inv_lookup [OF assms(1) d(1)] have "deleg_ok d'" "ended d'" "dg_id d' = i" by (auto simp: deleg_ok_def ended_def)
  moreover from this d have "deleg_write st st'" unfolding deleg_write_def by (intro exI [of _ d']) simp
  ultimately show ?thesis using d by (simp add: put_delegation_def)
qed

definition deleg_change :: "auth_state \<Rightarrow> auth_state \<Rightarrow> bool" where
  "deleg_change st st' \<longleftrightarrow> st_delegations st' = st_delegations st \<or> deleg_write st st' \<or>
     (\<exists>t s. st_delegations st' = st_delegations (snd (activePermissionsFor t s st)))"

lemma record_entry_delegations [simp]: "st_delegations (record_entry sha e input st) = st_delegations st"
  by (simp add: record_entry_def Let_def)

lemma authorize_delegations:
  "st_delegations (snd (authorize sha e rq st)) = st_delegations (snd (activePermissionsFor (now e) (rq_subjectId rq) st))"
proof -
  obtain r st1 where a: "authorize sha e rq st = (r, st1)" by fastforce
  from authorize_effect [OF a] a show ?thesis by auto
qed

lemma auth_step_delegations: "auth_step sha st st' \<Longrightarrow> deleg_inv st \<Longrightarrow> deleg_change st st'"
proof (induction rule: auth_step.induct)
  case (approve_delegation st t i a)
  from approveDelegation_write [OF this, of t i a] show ?case by (auto simp: deleg_change_def)
next
  case (create_delegation e input st d st')
  then show ?case by (simp add: deleg_change_def createDelegation_write)
next
  case (revoke_delegation i a st d st')
  then show ?case by (simp add: deleg_change_def revokeDelegation_write)
next
  case (authorize_request st e rq)
  then show ?case unfolding deleg_change_def authorize_delegations by blast
next
  case (authorize_thresholds st e rq c)
  have "st_delegations (snd (snd (authorizeWithThresholds sha e rq c st))) \<in>
      {st_delegations st, st_delegations (snd (authorize sha e rq st))}"
    by (simp add: authorizeWithThresholds_def Let_def split: prod.split)
  then show ?case unfolding deleg_change_def authorize_delegations by blast
qed (auto simp: deleg_change_def registerPolicy_def removePolicy_def recordAction_def registerAccount_def split: option.split)

lemma expire_for_ok: "deleg_ok d \<Longrightarrow> deleg_ok (expire_for t s d) \<and> dg_id (expire_for t s d) = dg_id d"
  "dg_id (expire_for t s d) = dg_id d"
  by (auto simp: expire_for_def deleg_ok_def)

lemma deleg_change_inv:
  assumes "deleg_change st st'" and "deleg_inv st"
  shows "deleg_inv st'"
proof -
  have "deleg_inv st'" if "st_delegations st' = st_delegations (snd (activePermissionsFor t s st))" for t s
    using assms(2) that expire_for_ok by (fastforce simp: deleg_inv_def activePermissionsFor_def)
  moreover have "deleg_inv st'" if "deleg_write st st'"
    using that deleg_inv_put [OF assms(2)] by (auto simp: deleg_write_def)
  moreover have "deleg_inv st'" if "st_delegations st' = st_delegations st"
    using that assms(2) by (simp add: deleg_inv_def)
  ultimately show ?thesis using assms(1) by (auto simp: deleg_change_def)
qed

lemma reachable_deleg_inv: "auth_reachable sha st \<Longrightarrow> deleg_inv st"
proof (induction rule: auth_reachable.induct)
  case start
  show ?case by (simp add: deleg_inv_def initial_auth_def)
next
  case (step st st')
  then show ?case using auth_step_delegations deleg_change_inv by blast
qed

lemma deleg_change_ended:
  assumes "deleg_change st st'" and "map_of (st_delegations st) i = Some d" and "ended d"
  shows "\<exists>d'. map_of (st_delegations st') i = Some d' \<and> ended d'"
proof -
  have "\<exists>d'. map_of (st_delegations st') i = Some d' \<and> ended d'"
    if "st_delegations st' = st_delegations (snd (activePermissionsFor t s st))" for t s
    using assms(2,3) that by (auto simp: activePermissionsFor_def map_of_map expire_for_def ended_def)
  moreover have "\<exists>d'. map_of (st_delegations st') i = Some d' \<and> ended d'" if "deleg_write st st'"
    using that assms(2,3) by (auto simp: deleg_write_def put_delegation_def)
  ultimately show ?thesis using assms by (auto simp: deleg_change_def)
qed

lemma steps_ended:
  assumes "(auth_step sha)\<^sup>*\<^sup>* st st'" and "deleg_inv st" and "map_of (st_delegations st) i = Some d" and "ended d"
  shows "\<exists>d'. map_of (st_delegations st') i = Some d' \<and> ended d' \<and> deleg_inv st'"
  using assms
proof (induction rule: rtranclp_induct)
  case base
  then show ?case by blast
next
  case (step st1 st2)
  then obtain d1 where "map_of (st_delegations st1) i = Some d1" "ended d1" "deleg_inv st1" by blast
  with step(2) show ?case using auth_step_delegations deleg_change_inv deleg_change_ended by meson
qed

section \<open>What verification detects\<close>

definition entry_payload :: "audit_entry \<Rightarrow> string" where
  "entry_payload x = hash_payload (ae_previousHash x) (ae_sequence x) (ae_input x) (ae_timestamp x)"

lemma sep_cancel:
  assumes "a @ c # x = b @ c # y" and "c \<notin> set a" and "c \<notin> set b"
  shows "a = b \<and> x = y"
proof -
  have tw: "takeWhile (\<lambda>d. d \<noteq> c) (u @ c # v) = u" if "c \<notin> set u" for u v
    using that by (induction u) auto
  from assms have "a = b" using tw [of a x] tw [of b y] by metis
  with assms show ?thesis by simp
qed

lemma nat_to_string_no_bar: "CHR ''|'' \<notin> set (nat_to_string n)"
proof
  assume "CHR ''|'' \<in> set (nat_to_string n)"
  from nat_to_string_digits [OF this] show False by (simp add: digit_val_def)
qed

lemma hash_payload_inj:
  assumes "hash_payload p n i t = hash_payload p' n' i' t'" and "CHR ''|'' \<notin> set p" and "CHR ''|'' \<notin> set p'"
  shows "p = p' \<and> n = n'"
proof -
  let ?r = "\<lambda>i t. join_with ''|'' [ai_actorId i, ai_action i, (case ai_subjectId i of None \<Rightarrow> [] | Some s \<Rightarrow> s),
       effect_str (ai_decision i), ai_reason i, toISOString t, json_stringify (JObj (ai_metadata i))]"
  have u: "hash_payload p n i t = p @ CHR ''|'' # nat_to_string n @ CHR ''|'' # ?r i t" for p n i t
    by (simp add: hash_payload_def)
  from sep_cancel [OF assms(1) [unfolded u] assms(2,3)]
  have "p = p'" "nat_to_string n @ CHR ''|'' # ?r i t = nat_to_string n' @ CHR ''|'' # ?r i' t'" by blast+
  with sep_cancel [OF this(2) nat_to_string_no_bar nat_to_string_no_bar] show ?thesis
    using nat_to_string_inj by blast
qed

lemma verify_from_snoc:
  "verify_from sha h (xs @ [x]) \<longleftrightarrow> verify_from sha h xs \<and> ae_previousHash x = chain_end h xs \<and> sha (entry_payload x) = ae_hash x"
  by (auto simp: verify_from_append computeHash_def entry_payload_def)

lemma chain_end_snoc [simp]: "chain_end h (xs @ [x]) = ae_hash x"
  by (simp add: chain_end_def)

lemma chain_end_shape:
  assumes "verify_from sha GENESIS_HASH xs" and "\<forall>x. CHR ''|'' \<notin> set (sha x) \<and> sha x \<noteq> GENESIS_HASH"
  shows "CHR ''|'' \<notin> set (chain_end GENESIS_HASH xs) \<and> (xs \<noteq> [] \<longrightarrow> chain_end GENESIS_HASH xs \<noteq> GENESIS_HASH)"
proof (cases xs rule: rev_cases)
  case Nil
  then show ?thesis by (simp add: chain_end_def GENESIS_HASH_def)
next
  case (snoc ys y)
  with assms have "ae_hash y = sha (entry_payload y)" by (simp add: verify_from_snoc)
  with snoc assms(2) show ?thesis by simp
qed

lemma verified_chains_agree:
  assumes "inj sha" and sha: "\<forall>x. CHR ''|'' \<notin> set (sha x) \<and> sha x \<noteq> GENESIS_HASH"
    and "verify_from sha GENESIS_HASH xs" and "verify_from sha GENESIS_HASH ys"
    and "chain_end GENESIS_HASH xs = chain_end GENESIS_HASH ys"
  shows "map entry_payload xs = map entry_payload ys \<and> map ae_sequence xs = map ae_sequence ys"
  using assms(3-5)
proof (induction xs arbitrary: ys rule: rev_induct)
  case Nil
  then have "ys = []" using chain_end_shape [OF Nil.prems(2) sha] by (metis chain_end_def)
  then show ?case by simp
next
  case (snoc x xs)
  have "ys \<noteq> []" using snoc.prems(3) chain_end_shape [OF snoc.prems(1) sha] by (metis chain_end_def snoc_eq_iff_butlast)
  then obtain ys' y where ys: "ys = ys' @ [y]" by (cases ys rule: rev_cases) auto
  from snoc.prems ys have x: "verify_from sha GENESIS_HASH xs" "ae_previousHash x = chain_end GENESIS_HASH xs" "sha (entry_payload x) = ae_hash x"
    and y: "verify_from sha GENESIS_HASH ys'" "ae_previousHash y = chain_end GENESIS_HASH ys'" "sha (entry_payload y) = ae_hash y"
    and h: "ae_hash x = ae_hash y"
    by (auto simp: verify_from_snoc)
  from h x(3) y(3) assms(1) have p: "entry_payload x = entry_payload y" by (metis injD)
  from p [unfolded entry_payload_def] have "ae_previousHash x = ae_previousHash y \<and> ae_sequence x = ae_sequence y"
    by (rule hash_payload_inj) (use x(1,2) y(1,2) chain_end_shape [OF _ sha] in auto)
  with snoc.IH [OF x(1) y(1)] x(2) y(2) p ys show ?case by simp
qed


text \<open>
  A hash with the two properties the chain relies on: different inputs have different digests,
  and a digest is a string of hexadecimal digits that is not the genesis hash.
\<close>

definition hex_char :: "char \<Rightarrow> string" where
  "hex_char c = [hex_digit (of_char c div 16), hex_digit (of_char c mod 16)]"

definition hex_hash :: "string \<Rightarrow> string" where
  "hex_hash s = CHR ''f'' # concat (map hex_char s)"

lemma of_char_hex_digit: "d < 16 \<Longrightarrow> (of_char (hex_digit d) :: nat) = (if d < 10 then 48 + d else 87 + d)"
  by (simp add: hex_digit_def)

lemma hex_digit_inj:
  assumes "hex_digit a = hex_digit b" and "a < 16" and "b < 16"
  shows "a = b"
proof -
  from assms have "(if a < 10 then 48 + a else 87 + a) = (if b < 10 then 48 + b else 87 + b)"
    using of_char_hex_digit [of a] of_char_hex_digit [of b] by simp
  then show ?thesis by (simp split: if_splits)
qed

lemma of_char_div_16: "(of_char x :: nat) div 16 < 16"
  using nat_of_char_less_256 [of x] by (simp add: less_mult_imp_div_less)

lemma hex_char_inj: "hex_char c = hex_char d \<Longrightarrow> c = d"
proof -
  assume eq: "hex_char c = hex_char d"
  then have "(of_char c :: nat) div 16 = of_char d div 16"
    using of_char_div_16 hex_digit_inj unfolding hex_char_def by blast
  moreover have "(of_char c :: nat) mod 16 = of_char d mod 16"
    by (rule hex_digit_inj) (use eq in \<open>simp_all add: hex_char_def\<close>)
  ultimately have "(of_char c :: nat) = of_char d" by (metis div_mult_mod_eq)
  then show ?thesis by simp
qed

lemma hex_hash_inj: "inj hex_hash"
proof (rule injI)
  fix x y
  assume "hex_hash x = hex_hash y"
  then have "concat (map hex_char x) = concat (map hex_char y)" by (simp add: hex_hash_def)
  then show "x = y"
  proof (induction x arbitrary: y)
    case Nil
    then show ?case by (cases y) (auto simp: hex_char_def)
  next
    case (Cons c x)
    then obtain d y' where y: "y = d # y'" by (cases y) (auto simp: hex_char_def)
    with Cons.prems have "hex_char c @ concat (map hex_char x) = hex_char d @ concat (map hex_char y')" by simp
    moreover have "length (hex_char c) = length (hex_char d)" by (simp add: hex_char_def)
    ultimately have "hex_char c = hex_char d" "concat (map hex_char x) = concat (map hex_char y')" by auto
    with Cons.IH y show ?case using hex_char_inj by simp
  qed
qed

lemma hex_hash_shape: "CHR ''|'' \<notin> set (hex_hash x) \<and> hex_hash x \<noteq> GENESIS_HASH"
proof -
  have d: "hex_digit d \<noteq> CHR ''|''" if "d < 16" for d
  proof
    assume "hex_digit d = CHR ''|''"
    then have "(if d < 10 then 48 + d else 87 + d) = 124" using of_char_hex_digit [OF that] by simp
    with that show False by (simp split: if_splits)
  qed
  have "CHR ''|'' \<notin> set (hex_char c)" for c
    using d [OF of_char_div_16 [of c]] d [of "of_char c mod 16"] by (auto simp: hex_char_def dest: sym)
  then have "CHR ''|'' \<notin> set (hex_hash x)" by (simp add: hex_hash_def)
  moreover have "hd (hex_hash x) \<noteq> hd GENESIS_HASH" by (simp add: hex_hash_def GENESIS_HASH_def)
  ultimately show ?thesis by metis
qed

section \<open>Thresholds\<close>

lemma clamp_range: "0 \<le> clamp x \<and> clamp x \<le> 1"
  by (auto simp: clamp_def)

lemma clamp_mono: "x \<le> y \<Longrightarrow> clamp x \<le> clamp y"
  by (auto simp: clamp_def)

lemma volatility_factor_nonneg: "0 \<le> num_sub 1 (num_mul (3 / 4) (clamp v))"
proof -
  have "num_mul (3 / 4) (clamp v) \<le> fl 1" unfolding num_mul_def using clamp_range [of v] by (intro fl_mono) simp
  also have "fl 1 = 1" using fl_of_nat_exact [of 1] by simp
  finally have "0 \<le> 1 - num_mul (3 / 4) (clamp v)" by simp
  from fl_mono [OF this] show ?thesis by (simp add: num_sub_def)
qed

lemma liquidity_factor_antitone:
  "a \<le> b \<Longrightarrow> num_add 1 (num_mul (1 / 4) (num_sub 1 b)) \<le> num_add 1 (num_mul (1 / 4) (num_sub 1 a))"
  unfolding num_add_def num_mul_def num_sub_def by (intro fl_mono add_left_mono mult_left_mono diff_left_mono) simp_all

lemma math_round_mono: "x \<le> y \<Longrightarrow> math_round x \<le> math_round y"
  by (simp add: math_round_def floor_mono)

definition market_liquidity :: "market_conditions \<Rightarrow> number" where
  "market_liquidity c = clamp (case mc_liquidity c of None \<Rightarrow> 1 | Some x \<Rightarrow> x)"

lemma ceiling_antitone:
  assumes "0 \<le> bt_maxAmount (st_thresholds st)" and "mc_volatility c = mc_volatility c'"
    and "market_liquidity c \<le> market_liquidity c'"
  shows "tp_maxAmount (calculate c' st) \<le> tp_maxAmount (calculate c st)"
proof -
  let ?v = "num_sub 1 (num_mul (3 / 4) (clamp (case mc_volatility c of None \<Rightarrow> 0 | Some x \<Rightarrow> x)))"
  have "0 \<le> num_mul (bt_maxAmount (st_thresholds st)) ?v"
    unfolding num_mul_def [of "bt_maxAmount (st_thresholds st)"] using assms(1) volatility_factor_nonneg
    by (intro fl_nonneg mult_nonneg_nonneg)
  then have "num_mul (num_mul (bt_maxAmount (st_thresholds st)) ?v) (num_add 1 (num_mul (1 / 4) (num_sub 1 (market_liquidity c'))))
     \<le> num_mul (num_mul (bt_maxAmount (st_thresholds st)) ?v) (num_add 1 (num_mul (1 / 4) (num_sub 1 (market_liquidity c))))"
    unfolding num_mul_def [of "num_mul (bt_maxAmount (st_thresholds st)) ?v"]
    using liquidity_factor_antitone [OF assms(3)] by (intro fl_mono mult_left_mono)
  from math_round_mono [OF this]
  have "tp_maxAmount (calculate c' st) \<le> max (bt_minAmount (st_thresholds st)) (of_int (math_round
     (num_mul (num_mul (bt_maxAmount (st_thresholds st)) ?v) (num_add 1 (num_mul (1 / 4) (num_sub 1 (market_liquidity c)))))))"
    unfolding calculate_def market_liquidity_def Let_def assms(2)
    by (simp del: max.bounded_iff)
  then show ?thesis by (simp add: calculate_def market_liquidity_def Let_def)
qed

section \<open>Findings\<close>

text \<open>
  The payload of a digest joins the fields with a bar, so the border between two fields is not
  part of it: two different records have the same digest whatever the hash function is. A
  chain that has lost its last entries still verifies.
\<close>

lemma audit_fields_ambiguous:
  "computeHash sha h n (input\<lparr>ai_actorId := a @ ''|'' @ b, ai_action := c\<rparr>) t =
   computeHash sha h n (input\<lparr>ai_actorId := a, ai_action := b @ ''|'' @ c\<rparr>) t"
  by (simp add: computeHash_def hash_payload_def)

lemma audit_truncation_verifies:
  assumes "verifyChain sha st" and "st_entries st = xs @ ys"
  shows "verifyChain sha (st\<lparr>st_entries := xs\<rparr>)"
  using assms by (simp add: verifyChain_def verify_from_append)

text \<open>A signature that is given twice counts twice.\<close>

lemma duplicate_signature_counts_twice:
  "verify ''acc'' [''a'', ''a''] High (registerAccount \<lparr>sc_accountId = ''acc'', sc_thresholdLow = 1,
     sc_thresholdMedium = 1, sc_thresholdHigh = 2, sc_signers = [(''a'', 1), (''b'', 1)]\<rparr> initial_auth) =
   Inr \<lparr>sv_valid = True, sv_weight = 2, sv_required = 2, sv_missing = 0, sv_level = High\<rparr>"
proof -
  have "fl 1 = 1" "fl 2 = 2" using fl_of_nat_exact [of 1] fl_of_nat_exact [of 2] by simp_all
  then show ?thesis
    by (simp add: verify_def requiredWeight_def totalWeight_def registerAccount_def initial_auth_def num_add_def num_sub_def)
qed

text \<open>A senior role does not have the permissions of the roles below it.\<close>

lemma senior_role_lacks_permission:
  "isAtLeast COMPLIANCE_OFFICER TRADER \<and> hasPermission [TRADER] TRADE_CREATE \<and> \<not> hasPermission [COMPLIANCE_OFFICER] TRADE_CREATE"
  by (simp add: isAtLeast_def hasPermission_def permissionsFor_def)

section \<open>The properties of the framework\<close>

text \<open>
  The specification of a decision, written over the request and the registered policies alone. A window holds the hours
  from its start to before its end, over midnight when the end is not after the start; a limit holds inside its bounds;
  a token restriction holds for a token that is not denied and, when there is an allow list, is on it or has its code on
  it; a rate holds while both the counted and the reported number of actions are below it.
\<close>

definition window_holds :: "time_window \<Rightarrow> int \<Rightarrow> bool" where
  "window_holds w tm \<longleftrightarrow> (let h = of_nat (utc_hours tm) in
     (\<forall>ds. daysOfWeek w = Some ds \<and> ds \<noteq> [] \<longrightarrow> of_nat (utc_day tm) \<in> set ds) \<and>
     (startHour w < endHour w \<longrightarrow> h \<in> {startHour w..<endHour w}) \<and> (endHour w < startHour w \<longrightarrow> h \<notin> {endHour w..<startHour w}))"

definition limit_holds :: "transaction_limit \<Rightarrow> number \<Rightarrow> number \<Rightarrow> bool" where
  "limit_holds c amount daily \<longleftrightarrow> (\<forall>m. tl_minAmount c = Some m \<longrightarrow> m \<le> amount) \<and> (\<forall>m. tl_maxAmount c = Some m \<longrightarrow> amount \<le> m) \<and>
     (\<forall>m. tl_maxDailyAmount c = Some m \<longrightarrow> daily \<le> m)"

definition token_holds :: "token_restriction \<Rightarrow> string \<Rightarrow> bool" where
  "token_holds c token \<longleftrightarrow> (\<forall>xs. deniedTokens c = Some xs \<longrightarrow> token = [] \<or> token \<notin> set xs) \<and>
     (\<forall>xs. allowedTokens c = Some xs \<and> xs \<noteq> [] \<longrightarrow> token \<noteq> [] \<and> {token, takeWhile (\<lambda>c. c \<noteq> CHR '':'') token} \<inter> set xs \<noteq> {})"

definition rate_holds :: "rate_limit \<Rightarrow> int \<Rightarrow> action_counter option \<Rightarrow> number \<Rightarrow> bool" where
  "rate_holds c t counter reported \<longleftrightarrow> 0 < maxActions c \<and> reported < maxActions c \<and>
     (\<forall>k. counter = Some k \<and> of_int (t - ac_windowStart k) < windowMs c \<longrightarrow> of_nat (ac_count k) < maxActions c)"

fun condition_holds :: "int \<Rightarrow> authorization_request \<Rightarrow> auth_state \<Rightarrow> policy_condition \<Rightarrow> bool" where
  "condition_holds t rq st (TimeWindow w) = window_holds w (case_option t id (rq_timestamp rq))"
| "condition_holds t rq st (TransactionLimit c) = limit_holds c (case_option 0 id (rq_amount rq)) (case_option 0 id (rq_dailyAmount rq))"
| "condition_holds t rq st (TokenRestriction c) = token_holds c (case_option (case_option [] id (rq_asset rq)) id (rq_tokenPair rq))"
| "condition_holds t rq st (RateLimit c) = rate_holds c t (map_of (st_counters st) (rq_subjectId rq)) (case_option 0 id (rq_recentActionCount rq))"

definition refusing_policies :: "int \<Rightarrow> authorization_request \<Rightarrow> auth_state \<Rightarrow> policy set" where
  "refusing_policies t rq st = {p \<in> snd ` set (st_policies st). pol_effect p = Deny \<and>
     (\<forall>rs. appliesToRoles p = Some rs \<and> rs \<noteq> [] \<longrightarrow> set rs \<inter> set (rq_roles rq) \<noteq> {}) \<and> Ball (set (pol_conditions p)) (condition_holds t rq st)}"

definition held_permissions :: "int \<Rightarrow> authorization_request \<Rightarrow> auth_state \<Rightarrow> permission set" where
  "held_permissions t rq st = (\<Union>r \<in> set (rq_roles rq). set (ROLE_PERMISSIONS r)) \<union>
     (\<Union>d \<in> {d \<in> snd ` set (st_delegations st). dg_delegateeId d = rq_subjectId rq \<and> dg_status d = D_ACTIVE \<and> t < dg_expiresAt d}. set (dg_permissions d))"

lemma hd_split_on: "hd (split_on c s) = takeWhile (\<lambda>x. x \<noteq> c) s" "split_on c s \<noteq> []"
  by (induction s) (auto split: list.splits)

lemma condition_matches: "matchesCondition t rq (request_time t rq) st c \<longleftrightarrow> condition_holds t rq st c"
proof (cases c)
  case (TimeWindow w)
  then show ?thesis by (auto simp: matchesTimeWindow_def window_holds_def request_time_def Let_def split: option.splits)
next
  case (TransactionLimit l)
  then show ?thesis by (auto simp: matchesTransactionLimit_def limit_holds_def Let_def not_less split: option.splits)
next
  case (TokenRestriction l)
  then show ?thesis
    by (auto simp: matchesTokenRestriction_def token_holds_def nonempty_def list_ex_iff hd_split_on Let_def split: option.splits)
next
  case (RateLimit l)
  then show ?thesis
    by (auto simp: matchesRateLimit_def rate_holds_def recentActionCount_def Let_def not_le split: option.splits intro: le_less_trans)
qed

lemma refusing_matched: "refusing_policies t rq st = {} \<longleftrightarrow> (\<forall>p \<in> set (matched_policies t rq st). pol_effect p \<noteq> Deny)"
proof -
  have "appliesTo p rq \<longleftrightarrow> (\<forall>rs. appliesToRoles p = Some rs \<and> rs \<noteq> [] \<longrightarrow> set rs \<inter> set (rq_roles rq) \<noteq> {})" for p
    by (auto simp: appliesTo_def list_ex_iff split: option.splits)
  then show ?thesis by (auto simp: refusing_policies_def matched_policies_def list_all_iff condition_matches)
qed

lemma held_permitted: "rq_permission rq \<in> held_permissions t rq st \<longleftrightarrow> permitted t rq st"
  by (force simp: held_permissions_def permitted_def usable_def isExpired_def not_le)

text \<open>
  C9. What an authorization decides: it is granted exactly when the permission is in the table of one of the subject's
  own roles, or in an active and unexpired delegation to the subject, and no registered deny policy applies to these
  roles with all of its conditions holding. A condition of a deny policy thus refuses what lies inside its limit or
  window and lets through what lies outside. Whatever the decision is, one audit entry with it is appended and the
  policies, counters, thresholds and signer accounts stay as they are.
\<close>

theorem authorize_spec:
  "case authorize sha e rq st of (r, st') \<Rightarrow>
     (pd_allowed (ar_decision r) \<longleftrightarrow> rq_permission rq \<in> held_permissions (now e) rq st \<and> refusing_policies (now e) rq st = {}) \<and>
     (\<exists>x. st_entries st' = st_entries st @ [x] \<and> ae_sequence x = length (st_entries st) + 1 \<and>
       ai_decision (ae_input x) = (if pd_allowed (ar_decision r) then Allow else Deny) \<and>
       ai_subjectId (ae_input x) = Some (rq_subjectId rq) \<and> ai_action (ae_input x) = permission_str (rq_permission rq)) \<and>
     st_policies st' = st_policies st \<and> st_counters st' = st_counters st \<and>
     st_thresholds st' = st_thresholds st \<and> st_accounts st' = st_accounts st"
proof -
  obtain r st' where a: "authorize sha e rq st = (r, st')" by fastforce
  from authorize_effect [OF a] obtain input where
    d: "pd_allowed (ar_decision r) \<longleftrightarrow> permitted (now e) rq st \<and>
      (\<forall>p \<in> set (matched_policies (now e) rq st). pol_effect p \<noteq> Deny)" and
    st': "st' = record_entry sha e input (snd (activePermissionsFor (now e) (rq_subjectId rq) st))" and
    i: "ai_decision input = (if pd_allowed (ar_decision r) then Allow else Deny)"
      "ai_subjectId input = Some (rq_subjectId rq)" "ai_action input = permission_str (rq_permission rq)"
    by blast
  have "st_policies st' = st_policies st \<and> st_counters st' = st_counters st \<and>
     st_thresholds st' = st_thresholds st \<and> st_accounts st' = st_accounts st"
    unfolding st' by (simp add: record_entry_def activePermissionsFor_def Let_def)
  moreover have "\<exists>x. st_entries st' = st_entries st @ [x] \<and> ae_sequence x = length (st_entries st) + 1 \<and> ae_input x = input"
    unfolding st' by (simp add: record_entry_def Let_def)
  ultimately show ?thesis unfolding a prod.case held_permitted refusing_matched using i d by metis
qed

text \<open>
  C15. In every state the services reach, the audit chain verifies, its sequence numbers are
  1, 2, 3 and so on, and later steps only append to it.
\<close>

theorem audit_chain_intact:
  assumes "auth_reachable sha st" and "(auth_step sha)\<^sup>*\<^sup>* st st'"
  shows "verifyChain sha st' \<and> map ae_sequence (st_entries st') = [1..<length (st_entries st') + 1] \<and>
    (\<exists>new. st_entries st' = st_entries st @ new)"
  using assms(2)
proof (induction rule: rtranclp_induct)
  case base
  from reachable_chain [OF assms(1)] show ?case by (simp add: verifyChain_def chain_inv_def)
next
  case (step st1 st2)
  have "chain_inv sha (st_entries st1)" using step.IH by (simp add: verifyChain_def chain_inv_def)
  with auth_step_entries [OF step(2)] have "chain_inv sha (st_entries st2)"
    using chain_inv_record unfolding logs_def by metis
  moreover have "\<exists>new. st_entries st2 = st_entries st1 @ new"
    using auth_step_entries [OF step(2)] by (auto simp: logs_def record_entry_def Let_def)
  ultimately show ?case using step.IH by (auto simp: verifyChain_def chain_inv_def)
qed

definition sample_env :: "int \<Rightarrow> string \<Rightarrow> env" where
  "sample_env t i = \<lparr>now = t, uuid = (\<lambda>_. i), keypair = []\<rparr>"

definition sample_request :: "authorization_request" where
  "sample_request = \<lparr>rq_subjectId = ''s'', rq_roles = [TRADER], rq_permission = TRADE_CREATE, rq_amount = None, rq_asset = None,
      rq_tokenPair = None, rq_timestamp = None, rq_recentActionCount = None, rq_dailyAmount = None\<rparr>"

theorem audit_chain_intact_witness:
  "verifyChain hex_hash (snd (authorize hex_hash (sample_env 0 ''u'') sample_request initial_auth))"
  using audit_chain_intact [OF auth_reachable.start r_into_rtranclp [of "auth_step hex_hash", OF authorize_request]]
  by blast

text \<open>
  C30. Two audit trails that both verify and end in the same digest have the same digested
  payload and the same sequence number at every position, when the hash function has no
  collisions and yields hexadecimal digests other than the genesis value: whoever keeps the
  last digest detects a changed, removed, inserted or reordered entry.
\<close>

theorem audit_tamper_evidence:
  assumes "inj sha" and "\<forall>x. CHR ''|'' \<notin> set (sha x) \<and> sha x \<noteq> GENESIS_HASH"
    and "verifyChain sha st" and "verifyChain sha st'"
    and "chain_end GENESIS_HASH (st_entries st) = chain_end GENESIS_HASH (st_entries st')"
  shows "map entry_payload (st_entries st) = map entry_payload (st_entries st') \<and>
    map ae_sequence (st_entries st) = map ae_sequence (st_entries st')"
  using verified_chains_agree [OF assms(1,2)] assms(3-5) unfolding verifyChain_def by blast

theorem audit_tamper_evidence_witness:
  "let input = \<lparr>ai_actorId = ''a'', ai_action = ''b|c'', ai_subjectId = None, ai_decision = Allow, ai_reason = [], ai_metadata = []\<rparr>
   in map entry_payload (st_entries (record_entry hex_hash (sample_env 0 ''u'') input initial_auth)) =
      map entry_payload (st_entries (record_entry hex_hash (sample_env 0 ''u'')
        (input\<lparr>ai_actorId := ''a|b'', ai_action := ''c''\<rparr>) initial_auth))"
  unfolding Let_def
  by (rule audit_tamper_evidence [OF hex_hash_inj, THEN conjunct1])
    (simp_all add: hex_hash_shape verifyChain_def record_entry_def Let_def initial_auth_def chain_end_def computeHash_def hash_payload_def)

text \<open>
  C16. A delegation that gives permissions has the approval of its whole approval chain, has
  not expired, and was neither made by the delegatee nor approved by it; once a delegation is
  revoked or expired, no later step makes it usable again.
\<close>

theorem delegation_lifecycle:
  assumes "auth_reachable sha st" and "map_of (st_delegations st) i = Some d"
  shows "(usable t s d \<longrightarrow> set (dg_approvals d) = set (dg_approvalChain d) \<and> t < dg_expiresAt d \<and>
      s \<noteq> dg_delegatorId d \<and> s \<notin> set (dg_approvals d)) \<and>
    (dg_status d \<in> {D_REVOKED, D_EXPIRED} \<longrightarrow> (auth_step sha)\<^sup>*\<^sup>* st st' \<longrightarrow>
      (\<exists>d'. map_of (st_delegations st') i = Some d' \<and> \<not> usable t s d'))"
proof (intro conjI impI)
  note inv = reachable_deleg_inv [OF assms(1)]
  with assms(2) have ok: "deleg_ok d" by (simp add: deleg_inv_lookup)
  assume u: "usable t s d"
  with ok show "set (dg_approvals d) = set (dg_approvalChain d)" by (auto simp: deleg_ok_def usable_def)
  from u show "t < dg_expiresAt d" by (simp add: usable_def isExpired_def)
  from u ok show "s \<noteq> dg_delegatorId d" "s \<notin> set (dg_approvals d)" by (auto simp: deleg_ok_def usable_def)
next
  assume "dg_status d \<in> {D_REVOKED, D_EXPIRED}" and "(auth_step sha)\<^sup>*\<^sup>* st st'"
  with steps_ended [OF _ reachable_deleg_inv [OF assms(1)] assms(2)] obtain d'
    where "map_of (st_delegations st') i = Some d'" "ended d'" by (auto simp: ended_def)
  then show "\<exists>d'. map_of (st_delegations st') i = Some d' \<and> \<not> usable t s d'"
    by (auto simp: ended_def usable_def)
qed

definition sample_delegation :: "create_delegation_input" where
  "sample_delegation = \<lparr>ci_delegatorId = ''boss'', ci_delegateeId = ''s'', ci_permissions = [TRADE_SETTLE],
     ci_expiresAt = 100, ci_approvalChain = Some [''x'']\<rparr>"

definition sample_delegated :: "auth_state" where
  "sample_delegated = snd (approveDelegation 2 ''d'' ''x''
     (case createDelegation (sample_env 1 ''d'') sample_delegation initial_auth of Inr (_, st) \<Rightarrow> st | Inl _ \<Rightarrow> initial_auth))"

lemma sample_delegated_reachable: "auth_reachable sha sample_delegated"
proof -
  obtain d st where c: "createDelegation (sample_env 1 ''d'') sample_delegation initial_auth = Inr (d, st)"
    by (simp add: createDelegation_def sample_delegation_def sample_env_def Let_def)
  have "auth_step sha initial_auth st" by (rule create_delegation [OF c]) (simp add: initial_auth_def)
  with auth_reachable.start have "auth_reachable sha st" by (rule auth_reachable.step)
  then have "auth_reachable sha (snd (approveDelegation 2 ''d'' ''x'' st))" by (rule auth_reachable.step) (rule approve_delegation)
  with c show ?thesis by (simp add: sample_delegated_def)
qed

theorem delegation_lifecycle_witness:
  "case map_of (st_delegations sample_delegated) ''d'' of
     None \<Rightarrow> False
   | Some d \<Rightarrow> usable 50 ''s'' d \<and> set (dg_approvals d) = set (dg_approvalChain d) \<and> 50 < dg_expiresAt d"
proof -
  obtain d where d: "map_of (st_delegations sample_delegated) ''d'' = Some d" "usable 50 ''s'' d"
    by (simp add: sample_delegated_def createDelegation_def sample_delegation_def sample_env_def Let_def js_set_def
        initial_auth_def approveDelegation_def requireDelegation_def put_delegation_def isExpired_def usable_def)
  with delegation_lifecycle [OF sample_delegated_reachable d(1), of 50 "''s''"] show ?thesis by simp
qed

text \<open>
  A deny policy with a transaction limit refuses the requests within the limit and lets the
  ones above it through, and one with a time window refuses the requests inside the window: a
  condition that holds makes the policy match.
\<close>

theorem deny_limits_inverted:
  "(pd_allowed (evaluate t rq (registerPolicy \<lparr>pol_id = i, pol_effect = Deny, pol_conditions = [TransactionLimit
     \<lparr>tl_minAmount = None, tl_maxAmount = Some m, tl_maxDailyAmount = None\<rparr>], appliesToRoles = None\<rparr> initial_auth)) \<longleftrightarrow>
   m < (case rq_amount rq of None \<Rightarrow> 0 | Some a \<Rightarrow> a)) \<and>
   (pd_allowed (evaluate t rq (registerPolicy \<lparr>pol_id = i, pol_effect = Deny, pol_conditions = [TransactionLimit
     \<lparr>tl_minAmount = None, tl_maxAmount = None, tl_maxDailyAmount = Some m\<rparr>], appliesToRoles = None\<rparr> initial_auth)) \<longleftrightarrow>
   m < (case rq_dailyAmount rq of None \<Rightarrow> 0 | Some a \<Rightarrow> a)) \<and>
   (pd_allowed (evaluate t rq (registerPolicy \<lparr>pol_id = i, pol_effect = Deny, pol_conditions = [TimeWindow w],
     appliesToRoles = None\<rparr> initial_auth)) \<longleftrightarrow> \<not> matchesTimeWindow w (request_time t rq))"
  by (auto simp: evaluate_allowed matched_policies_def registerPolicy_def initial_auth_def appliesTo_def
      matchesTransactionLimit_def Let_def)

text \<open>
  The dynamic thresholds keep the floor below the ceiling, ask for at least the configured
  number of signatures, and the ceiling does not fall when the liquidity falls.
\<close>

theorem calculate_bounds:
  assumes "0 \<le> bt_maxAmount (st_thresholds st)" and "bt_requiredSignatures (st_thresholds st) = of_nat n"
    and "n + 2 < 2 ^ 53" and "mc_volatility c = mc_volatility c'" and "market_liquidity c \<le> market_liquidity c'"
  shows "tp_minAmount (calculate c st) \<le> tp_maxAmount (calculate c st) \<and>
    tp_requiredSignatures (calculate c st) \<in> {of_nat n, of_nat (n + 1), of_nat (n + 2)} \<and>
    tp_maxAmount (calculate c' st) \<le> tp_maxAmount (calculate c st)"
proof (intro conjI)
  show "tp_minAmount (calculate c st) \<le> tp_maxAmount (calculate c st)" by (simp add: calculate_def Let_def)
  have "num_add (of_nat k) 1 = of_nat (k + 1)" if "k + 1 < 2 ^ 53" for k
    using fl_of_nat_exact [OF that] by (simp add: num_add_def add.commute)
  from this [of n] this [of "n + 1"] assms(2,3)
  show "tp_requiredSignatures (calculate c st) \<in> {of_nat n, of_nat (n + 1), of_nat (n + 2)}"
    by (simp add: calculate_def Let_def add.commute)
  show "tp_maxAmount (calculate c' st) \<le> tp_maxAmount (calculate c st)" by (rule ceiling_antitone [OF assms(1,4,5)])
qed

theorem calculate_bounds_witness:
  "let low = \<lparr>mc_volatility = None, mc_liquidity = Some 0, mc_volume = None\<rparr>;
       high = \<lparr>mc_volatility = None, mc_liquidity = Some 1, mc_volume = None\<rparr>
   in tp_maxAmount (calculate high initial_auth) \<le> tp_maxAmount (calculate low initial_auth)"
  unfolding Let_def
  by (rule calculate_bounds [of initial_auth 2, THEN conjunct2, THEN conjunct2])
    (simp_all add: initial_auth_def market_liquidity_def clamp_def)

end
