(* ===== verification/JsNan.thy ===== *)
theory JsNan
  imports JsNumber
begin

text \<open>
  Numbers that may be \<^verbatim>\<open>NaN\<close> (\<open>None\<close>): the arithmetic propagates it and a comparison with it is
  false. Also here: \<^verbatim>\<open>Array.prototype.sort\<close> with a numeric comparator, and the locale
  \<open>priority_side\<close> of what such a sort promises.
\<close>

section \<open>Numbers that may be NaN\<close>

type_synonym jnum = "number option"

fun js_lift :: "(number \<Rightarrow> number \<Rightarrow> number) \<Rightarrow> jnum \<Rightarrow> jnum \<Rightarrow> jnum" where
  "js_lift f (Some x) (Some y) = Some (f x y)"
| "js_lift f _ _ = None"

abbreviation js_add :: "jnum \<Rightarrow> jnum \<Rightarrow> jnum" where "js_add \<equiv> js_lift num_add"
abbreviation js_sub :: "jnum \<Rightarrow> jnum \<Rightarrow> jnum" where "js_sub \<equiv> js_lift num_sub"
abbreviation js_min :: "jnum \<Rightarrow> jnum \<Rightarrow> jnum" where "js_min \<equiv> js_lift min"

fun js_less :: "jnum \<Rightarrow> jnum \<Rightarrow> bool" where
  "js_less (Some x) (Some y) = (x < y)"
| "js_less _ _ = False"

fun js_leq :: "jnum \<Rightarrow> jnum \<Rightarrow> bool" where
  "js_leq (Some x) (Some y) = (x \<le> y)"
| "js_leq _ _ = False"

definition js_num_str :: "jnum \<Rightarrow> string" where
  "js_num_str x = (case x of None \<Rightarrow> ''NaN'' | Some y \<Rightarrow> num_to_string y)"

abbreviation js_mul :: "jnum \<Rightarrow> jnum \<Rightarrow> jnum" where "js_mul \<equiv> js_lift num_mul"
abbreviation js_max :: "jnum \<Rightarrow> jnum \<Rightarrow> jnum" where "js_max \<equiv> js_lift max"

text \<open>
  Division. A division by zero is an infinity or \<^verbatim>\<open>NaN\<close>; both are \<open>None\<close> here, so models that
  use it keep to divisors that are not zero, or to \<open>0 / 0\<close>.
\<close>

definition js_div :: "jnum \<Rightarrow> jnum \<Rightarrow> jnum" where
  "js_div a b = Option.bind a (\<lambda>x. Option.bind b (num_div x))"

text \<open>\<^verbatim>\<open>a || b\<close> on numbers: zero and \<^verbatim>\<open>NaN\<close> are falsy.\<close>

definition js_or :: "jnum \<Rightarrow> jnum \<Rightarrow> jnum" where
  "js_or a b = (case a of None \<Rightarrow> b | Some x \<Rightarrow> if x = 0 then b else a)"

definition js_abs :: "jnum \<Rightarrow> jnum" where
  "js_abs a = map_option abs a"

definition js_fixed :: "nat \<Rightarrow> jnum \<Rightarrow> string" where
  "js_fixed f x = (case x of None \<Rightarrow> ''NaN'' | Some y \<Rightarrow> to_fixed f y)"

text \<open>\<^verbatim>\<open>parseFloat\<close> of a nullable string: \<^verbatim>\<open>null\<close> gives \<^verbatim>\<open>NaN\<close>.\<close>

definition parse_null :: "string option \<Rightarrow> jnum" where
  "parse_null s = Option.bind s parse_float"

definition truthy :: "string option \<Rightarrow> bool" where
  "truthy s = (case s of None \<Rightarrow> False | Some t \<Rightarrow> t \<noteq> [])"

text \<open>
  \<^verbatim>\<open>Array.prototype.sort\<close> with a numeric comparator: a stable sort, where \<^verbatim>\<open>NaN\<close>
  counts as zero. For a comparator that is not consistent the language leaves the order open;
  the theorems on sorted books are about comparators without \<^verbatim>\<open>NaN\<close>.
\<close>

fun sort_insert :: "('a \<Rightarrow> 'a \<Rightarrow> jnum) \<Rightarrow> 'a \<Rightarrow> 'a list \<Rightarrow> 'a list" where
  "sort_insert cmp x [] = [x]"
| "sort_insert cmp x (y # ys) = (if js_less (Some 0) (cmp y x) then x # y # ys else y # sort_insert cmp x ys)"

definition js_sort :: "('a \<Rightarrow> 'a \<Rightarrow> jnum) \<Rightarrow> 'a list \<Rightarrow> 'a list" where
  "js_sort cmp xs = foldl (\<lambda>acc x. sort_insert cmp x acc) [] xs"

section \<open>Sorting with a numeric comparator\<close>

text \<open>A comparator that compares ranks on the elements of \<open>dom\<close> keeps lists sorted by rank, and is stable.\<close>

locale priority_side =
  fixes cmp :: "'a \<Rightarrow> 'a \<Rightarrow> jnum"
    and rank :: "'a \<Rightarrow> number"
    and dom :: "'a \<Rightarrow> bool"
  assumes cmp_rank: "dom a \<Longrightarrow> dom b \<Longrightarrow> js_less (Some 0) (cmp a b) \<longleftrightarrow> rank b < rank a"
begin

lemma sort_insert_place:
  assumes "\<forall>y \<in> set xs. dom y" and "dom x"
  shows "\<exists>ys zs. xs = ys @ zs \<and> sort_insert cmp x xs = ys @ x # zs \<and> (\<forall>y \<in> set ys. rank y \<le> rank x) \<and>
    (zs \<noteq> [] \<longrightarrow> rank x < rank (hd zs))"
  using assms
proof (induction xs)
  case Nil
  show ?case by simp
next
  case (Cons y xs)
  show ?case
  proof (cases "rank x < rank y")
    case True
    then have "y # xs = [] @ y # xs \<and> sort_insert cmp x (y # xs) = [] @ x # y # xs" using Cons.prems by (simp add: cmp_rank)
    with True show ?thesis by fastforce
  next
    case False
    from Cons obtain ys zs where "xs = ys @ zs" "sort_insert cmp x xs = ys @ x # zs" "\<forall>y \<in> set ys. rank y \<le> rank x"
      "zs \<noteq> [] \<longrightarrow> rank x < rank (hd zs)" by auto
    with False Cons.prems have "y # xs = (y # ys) @ zs \<and> sort_insert cmp x (y # xs) = (y # ys) @ x # zs \<and>
      (\<forall>y \<in> set (y # ys). rank y \<le> rank x) \<and> (zs \<noteq> [] \<longrightarrow> rank x < rank (hd zs))" by (auto simp: cmp_rank)
    then show ?thesis by blast
  qed
qed

lemma sort_insert_end:
  "\<forall>y \<in> set xs. dom y \<and> rank y \<le> rank x \<Longrightarrow> dom x \<Longrightarrow> sort_insert cmp x xs = xs @ [x]"
  by (induction xs) (auto simp: cmp_rank)

lemma js_sort_sorted: "\<forall>y \<in> set xs. dom y \<Longrightarrow> sorted (map rank xs) \<Longrightarrow> js_sort cmp xs = xs"
proof (induction xs rule: rev_induct)
  case Nil
  show ?case by (simp add: js_sort_def)
next
  case (snoc x xs)
  then have "js_sort cmp xs = xs" by (simp add: sorted_append)
  then have "js_sort cmp (xs @ [x]) = sort_insert cmp x xs" by (simp add: js_sort_def)
  then show ?case using snoc.prems by (simp add: sort_insert_end sorted_append)
qed

text \<open>A new element goes behind all elements of the same or better rank and before all worse ones.\<close>

lemma js_sort_snoc:
  assumes "\<forall>y \<in> set xs. dom y" and "dom x" and "sorted (map rank xs)"
  obtains ys zs where "xs = ys @ zs" and "js_sort cmp (xs @ [x]) = ys @ x # zs"
    and "\<forall>y \<in> set ys. rank y \<le> rank x" and "\<forall>z \<in> set zs. rank x < rank z"
proof -
  have "js_sort cmp (xs @ [x]) = sort_insert cmp x (js_sort cmp xs)" by (simp add: js_sort_def)
  then have "js_sort cmp (xs @ [x]) = sort_insert cmp x xs" using assms by (simp add: js_sort_sorted)
  with sort_insert_place [OF assms(1,2)] obtain ys zs where
    a: "xs = ys @ zs" "js_sort cmp (xs @ [x]) = ys @ x # zs" "\<forall>y \<in> set ys. rank y \<le> rank x" "zs \<noteq> [] \<longrightarrow> rank x < rank (hd zs)"
    by metis
  moreover have "\<forall>z \<in> set zs. rank x < rank z" using a(1,4) assms(3) by (cases zs) (auto simp: sorted_append)
  ultimately show ?thesis using that by blast
qed

lemma js_sort_snoc_props:
  assumes "\<forall>y \<in> set xs. dom y" and "dom x" and "sorted (map rank xs)"
  shows "set (js_sort cmp (xs @ [x])) = insert x (set xs)" and "sorted (map rank (js_sort cmp (xs @ [x])))"
    and "distinct (map f xs) \<Longrightarrow> f x \<notin> f ` set xs \<Longrightarrow> distinct (map f (js_sort cmp (xs @ [x])))"
proof -
  obtain ys zs where a: "xs = ys @ zs" "js_sort cmp (xs @ [x]) = ys @ x # zs" "\<forall>y \<in> set ys. rank y \<le> rank x" "\<forall>z \<in> set zs. rank x < rank z"
    using js_sort_snoc [OF assms] .
  show "set (js_sort cmp (xs @ [x])) = insert x (set xs)" unfolding a(2) by (auto simp: a(1))
  show "sorted (map rank (js_sort cmp (xs @ [x])))" unfolding a(2) using a(1,3,4) assms(3) by (fastforce simp: sorted_append)
  show "distinct (map f xs) \<Longrightarrow> f x \<notin> f ` set xs \<Longrightarrow> distinct (map f (js_sort cmp (xs @ [x])))" unfolding a(2) using a(1) by auto
qed

lemma js_sort_all:
  assumes "\<forall>y \<in> set xs. dom y"
  shows "set (js_sort cmp xs) = set xs \<and> sorted (map rank (js_sort cmp xs))"
  using assms
proof (induction xs rule: rev_induct)
  case Nil
  show ?case by (simp add: js_sort_def)
next
  case (snoc x xs)
  let ?s = "js_sort cmp xs"
  have ih: "set ?s = set xs" "sorted (map rank ?s)" using snoc by simp_all
  have "js_sort cmp (xs @ [x]) = sort_insert cmp x ?s" by (simp add: js_sort_def)
  moreover have "\<forall>y \<in> set ?s. dom y" "dom x" using snoc.prems ih(1) by simp_all
  with sort_insert_place [of ?s x] obtain ys zs where "?s = ys @ zs" "sort_insert cmp x ?s = ys @ x # zs"
    "\<forall>y \<in> set ys. rank y \<le> rank x" "zs \<noteq> [] \<longrightarrow> rank x < rank (hd zs)" by metis
  ultimately show ?case using ih by (cases zs) (auto simp: sorted_append)
qed

end

end
