(* ===== verification/TradeEngine.thy ===== *)
theory TradeEngine
  imports JsDate JsNan
begin

text \<open>
  The trading engine (\<^verbatim>\<open>src/src/modules/trading-engine\<close>): order and trade entities, the
  in-memory order books, the matching loop and the operations of
  \<^verbatim>\<open>TradingEngineService\<close>. Quantities and prices are decimal strings that the code
  reads with \<^verbatim>\<open>parseFloat\<close>, so every number here may be \<^verbatim>\<open>NaN\<close>
  (\<open>None\<close>); the operations on them propagate it and a comparison with it is false.
  The request body types its numbers as strings and validates them as numbers;
  \<^verbatim>\<open>parseFloat\<close> reads both forms the same way. They differ in one test: a price that arrives
  as the number 0 is falsy, the string \<^verbatim>\<open>0\<close> is not; here prices are strings, and the properties
  about new orders are about prices other than 0. The settlement on the
  Stellar network is the parameter \<open>settle\<close> of \<open>settleTrade\<close>; whether the
  database commits the transaction of \<open>createOrder\<close> is its parameter \<open>failure\<close>.
\<close>

section \<open>Entities\<close>

datatype order_side = BUY | SELL
datatype order_type = MARKET | LIMIT
datatype order_status = O_PENDING | O_OPEN | O_PARTIALLY_FILLED | O_FILLED | O_CANCELLED | O_EXPIRED | O_REJECTED

record order =
  o_id :: string
  o_userId :: string
  o_assetCode :: string
  o_assetIssuer :: "string option"
  o_side :: order_side
  o_type :: order_type
  o_quantity :: string
  o_filledQuantity :: string
  o_price :: "string option"
  o_status :: order_status
  o_expiresAt :: "int option"
  o_metadata :: "json option"
  o_createdAt :: int

record trade =
  t_id :: string
  t_makerOrderId :: string
  t_takerOrderId :: string
  t_makerUserId :: string
  t_takerUserId :: string
  t_assetCode :: string
  t_assetIssuer :: "string option"
  t_quantity :: string
  t_price :: "string option"
  t_stellarTxHash :: "string option"
  t_settled :: bool
  t_settledAt :: "int option"

datatype audit_action = ORDER_CREATED | ORDER_UPDATED | ORDER_CANCELLED | TRADE_EXECUTED | TRADE_SETTLED | ORDER_REJECTED

datatype snapshot = Snap_Order order | Snap_Trade trade | Snap_Empty

record audit_trail =
  at_entityId :: string
  at_entityType :: string
  at_action :: audit_action
  at_actorId :: string
  at_previousState :: snapshot
  at_newState :: snapshot
  at_metadata :: "(string \<times> string) list option"

record create_order_dto =
  co_side :: order_side
  co_type :: order_type
  co_assetCode :: string
  co_assetIssuer :: "string option"
  co_quantity :: string
  co_price :: "string option"
  co_expiresAt :: "int option"
  co_metadata :: "json option"

record query_order_dto =
  qo_page :: nat
  qo_limit :: nat
  qo_status :: "order_status option"
  qo_side :: "order_side option"
  qo_assetCode :: "string option"
  qo_userId :: "string option"
  qo_fromDate :: "int option"
  qo_toDate :: "int option"

record order_book =
  bids :: "order list"
  asks :: "order list"

record te_state =
  te_books :: "(string \<times> order_book) list"
  te_orders :: "order list"
  te_trades :: "trade list"
  te_audits :: "audit_trail list"

section \<open>The order books\<close>

definition getAssetKey :: "string \<Rightarrow> string option \<Rightarrow> string" where
  "getAssetKey assetCode assetIssuer = (if truthy assetIssuer then assetCode @ ''-'' @ the assetIssuer else assetCode)"

abbreviation order_key :: "order \<Rightarrow> string" where
  "order_key x \<equiv> getAssetKey (o_assetCode x) (o_assetIssuer x)"

definition bid_cmp :: "order \<Rightarrow> order \<Rightarrow> jnum" where
  "bid_cmp a b = js_sub (parse_null (o_price b)) (parse_null (o_price a))"

definition ask_cmp :: "order \<Rightarrow> order \<Rightarrow> jnum" where
  "ask_cmp a b = js_sub (parse_null (o_price a)) (parse_null (o_price b))"

definition get_book :: "string \<Rightarrow> (string \<times> order_book) list \<Rightarrow> order_book" where
  "get_book k m = (case map_of m k of None \<Rightarrow> \<lparr>bids = [], asks = []\<rparr> | Some b \<Rightarrow> b)"

definition addToOrderBook :: "order \<Rightarrow> (string \<times> order_book) list \<Rightarrow> (string \<times> order_book) list" where
  "addToOrderBook x m =
     (let b = get_book (order_key x) m
      in map_set (order_key x)
           (if o_side x = BUY then b\<lparr>bids := js_sort bid_cmp (bids b @ [x])\<rparr>
            else b\<lparr>asks := js_sort ask_cmp (asks b @ [x])\<rparr>) m)"

definition removeFromOrderBook :: "order \<Rightarrow> (string \<times> order_book) list \<Rightarrow> (string \<times> order_book) list" where
  "removeFromOrderBook x m = (case map_of m (order_key x) of
     None \<Rightarrow> m
   | Some b \<Rightarrow> map_set (order_key x)
       (if o_side x = BUY then b\<lparr>bids := filter (\<lambda>y. o_id y \<noteq> o_id x) (bids b)\<rparr>
        else b\<lparr>asks := filter (\<lambda>y. o_id y \<noteq> o_id x) (asks b)\<rparr>) m)"

definition is_live :: "order \<Rightarrow> bool" where
  "is_live x \<longleftrightarrow> o_status x \<in> {O_OPEN, O_PARTIALLY_FILLED}"

definition initializeOrderBooks :: "order list \<Rightarrow> (string \<times> order_book) list" where
  "initializeOrderBooks rows = foldl (\<lambda>m x. addToOrderBook x m) [] (filter is_live rows)"

section \<open>Matching\<close>

definition prices_cross :: "order \<Rightarrow> order \<Rightarrow> bool" where
  "prices_cross newOrder best \<longleftrightarrow> o_type newOrder \<noteq> LIMIT \<or>
     truthy (o_price newOrder) \<and> truthy (o_price best) \<and>
     \<not> (o_side newOrder = BUY \<and> js_less (parse_null (o_price newOrder)) (parse_null (o_price best))) \<and>
     \<not> (o_side newOrder = SELL \<and> js_less (parse_null (o_price best)) (parse_null (o_price newOrder)))"

definition make_trade :: "order \<Rightarrow> order \<Rightarrow> jnum \<Rightarrow> trade" where
  "make_trade newOrder best q =
     (let buy = (o_side newOrder = BUY)
      in \<lparr>t_id = [], t_makerOrderId = (if buy then o_id best else o_id newOrder),
          t_takerOrderId = (if buy then o_id newOrder else o_id best),
          t_makerUserId = (if buy then o_userId best else o_userId newOrder),
          t_takerUserId = (if buy then o_userId newOrder else o_userId best),
          t_assetCode = o_assetCode newOrder, t_assetIssuer = o_assetIssuer newOrder,
          t_quantity = js_num_str q, t_price = o_price best, t_stellarTxHash = None,
          t_settled = False, t_settledAt = None\<rparr>)"

definition fill :: "jnum \<Rightarrow> order \<Rightarrow> order" where
  "fill q x = x\<lparr>o_filledQuantity := js_num_str (js_add (parse_float (o_filledQuantity x)) q)\<rparr>"

definition is_filled :: "order \<Rightarrow> bool" where
  "is_filled x \<longleftrightarrow> js_leq (parse_float (o_quantity x)) (parse_float (o_filledQuantity x))"

definition taker_status :: "order \<Rightarrow> order" where
  "taker_status x = (if is_filled x then x\<lparr>o_status := O_FILLED\<rparr>
     else if js_less (Some 0) (parse_float (o_filledQuantity x)) then x\<lparr>o_status := O_PARTIALLY_FILLED\<rparr> else x)"

definition maker_status :: "order \<Rightarrow> order" where
  "maker_status x = (if is_filled x then x\<lparr>o_status := O_FILLED\<rparr> else x)"

text \<open>
  The loop: the new order, what is left of it, the opposite side of the book, the trades and
  the makers touched so far, each once and with its latest values. \<open>None\<close> is a loop that
  does not end.
\<close>

record match_result =
  mr_order :: order
  mr_opposite :: "order list"
  mr_trades :: "trade list"
  mr_touched :: "(string \<times> order) list"

partial_function (option) match_loop ::
  "order \<Rightarrow> jnum \<Rightarrow> order list \<Rightarrow> trade list \<Rightarrow> (string \<times> order) list \<Rightarrow> match_result option" where
  [code]: "match_loop newOrder remaining opp trades touched =
     (case opp of
        [] \<Rightarrow> Some \<lparr>mr_order = newOrder, mr_opposite = [], mr_trades = trades, mr_touched = touched\<rparr>
      | best # rest \<Rightarrow>
          if \<not> js_less (Some 0) remaining \<or> \<not> prices_cross newOrder best
          then Some \<lparr>mr_order = newOrder, mr_opposite = opp, mr_trades = trades, mr_touched = touched\<rparr>
          else
            let bestRemaining = js_sub (parse_float (o_quantity best)) (parse_float (o_filledQuantity best));
                q = js_min remaining bestRemaining;
                taker = taker_status (fill q newOrder);
                maker = maker_status (fill q best)
            in match_loop taker (js_sub remaining q) (if is_filled maker then rest else maker # rest)
                 (trades @ [make_trade newOrder best q]) (map_set (o_id maker) maker touched))"

definition remaining_quantity :: "order \<Rightarrow> jnum" where
  "remaining_quantity x = (if js_less (Some 0) (parse_float (o_filledQuantity x))
     then js_sub (parse_float (o_quantity x)) (parse_float (o_filledQuantity x)) else parse_float (o_quantity x))"

definition opposite :: "order_side \<Rightarrow> order_book \<Rightarrow> order list" where
  "opposite s b = (if s = BUY then asks b else bids b)"

definition set_opposite :: "order_side \<Rightarrow> order list \<Rightarrow> order_book \<Rightarrow> order_book" where
  "set_opposite s xs b = (if s = BUY then b\<lparr>asks := xs\<rparr> else b\<lparr>bids := xs\<rparr>)"

definition matchOrder ::
  "order \<Rightarrow> (string \<times> order_book) list \<Rightarrow> (order \<times> trade list \<times> order list \<times> (string \<times> order_book) list) option" where
  "matchOrder newOrder m = (case map_of m (order_key newOrder) of
     None \<Rightarrow> Some (newOrder, [], [], m)
   | Some b \<Rightarrow> map_option (\<lambda>r. (mr_order r, mr_trades r, map snd (mr_touched r),
         map_set (order_key newOrder) (set_opposite (o_side newOrder) (mr_opposite r) b) m))
       (match_loop newOrder (remaining_quantity newOrder) (opposite (o_side newOrder) b) [] []))"

section \<open>Operations\<close>

definition new_order :: "env \<Rightarrow> string \<Rightarrow> create_order_dto \<Rightarrow> order" where
  "new_order e userId dto =
     \<lparr>o_id = uuid e 0, o_userId = userId, o_assetCode = co_assetCode dto, o_assetIssuer = co_assetIssuer dto,
      o_side = co_side dto, o_type = co_type dto, o_quantity = co_quantity dto, o_filledQuantity = ''0'',
      o_price = co_price dto, o_status = O_PENDING, o_expiresAt = co_expiresAt dto, o_metadata = co_metadata dto,
      o_createdAt = now e\<rparr>"

definition save_orders :: "order list \<Rightarrow> order list \<Rightarrow> order list" where
  "save_orders xs rows = foldl (\<lambda>t x. save_row o_id x t) rows xs"

definition save_trades :: "env \<Rightarrow> trade list \<Rightarrow> trade list" where
  "save_trades e ts = map (\<lambda>(k, t). t\<lparr>t_id := uuid e (Suc k)\<rparr>) (enumerate 0 ts)"

definition trade_audit :: "string \<Rightarrow> trade \<Rightarrow> audit_trail" where
  "trade_audit userId t = \<lparr>at_entityId = t_id t, at_entityType = ''trade'', at_action = TRADE_EXECUTED, at_actorId = userId,
     at_previousState = Snap_Empty, at_newState = Snap_Trade t,
     at_metadata = Some [(''makerOrderId'', t_makerOrderId t), (''takerOrderId'', t_takerOrderId t)]\<rparr>"

text \<open>
  The order is stored, then matched without waiting, and then a transaction stores the outcome before the order enters
  the book. Other requests run while the database works: \<open>createOrder_match\<close> is the part up to the
  transaction, \<open>createOrder_commit\<close> the rest, with the makers as they were after the match. When the transaction fails
  (\<open>failure\<close> is its message) the exception leaves the matched book and the first version of the order behind.
  The outer \<open>option\<close> is the one of the matching loop.
\<close>

definition createOrder_match ::
  "env \<Rightarrow> string \<Rightarrow> create_order_dto \<Rightarrow> te_state \<Rightarrow> ((order \<times> trade list \<times> order list) \<times> te_state) option" where
  "createOrder_match e userId dto st =
     (let order = (new_order e userId dto)\<lparr>o_status := O_OPEN\<rparr>;
          st = st\<lparr>te_orders := save_row o_id order (te_orders st)\<rparr>
      in case matchOrder order (te_books st) of
           None \<Rightarrow> None
         | Some (taker, trades, touched, books) \<Rightarrow> Some ((taker, trades, touched), st\<lparr>te_books := books\<rparr>))"

definition createOrder_commit ::
  "env \<Rightarrow> string option \<Rightarrow> string \<Rightarrow> create_order_dto \<Rightarrow> order \<times> trade list \<times> order list \<Rightarrow> te_state \<Rightarrow> order result \<times> te_state" where
  "createOrder_commit e failure userId dto matched st = (case matched of (taker, trades, touched) \<Rightarrow>
     (case failure of
        Some msg \<Rightarrow> (Inl (PlainError msg), st)
      | None \<Rightarrow>
          let pending = new_order e userId dto;
              order = pending\<lparr>o_status := O_OPEN\<rparr>;
              saved = save_trades e trades;
              orderAudit = \<lparr>at_entityId = o_id order, at_entityType = ''order'', at_action = ORDER_CREATED,
                at_actorId = userId, at_previousState = Snap_Order pending, at_newState = Snap_Order order,
                at_metadata = None\<rparr>
          in (Inr taker,
              st\<lparr>te_books := (if is_live taker then addToOrderBook taker (te_books st) else te_books st),
                 te_orders := save_orders touched (save_row o_id taker (te_orders st)),
                 te_trades := te_trades st @ saved,
                 te_audits := te_audits st @ orderAudit # map (trade_audit userId) saved\<rparr>)))"

definition createOrder ::
  "env \<Rightarrow> string option \<Rightarrow> string \<Rightarrow> create_order_dto \<Rightarrow> te_state \<Rightarrow> (order result \<times> te_state) option" where
  "createOrder e failure userId dto st =
     (if co_type dto = LIMIT \<and> \<not> truthy (co_price dto)
      then Some (Inl (BadRequest ''Limit orders must specify a price''), st)
      else if (case co_expiresAt dto of None \<Rightarrow> False | Some t \<Rightarrow> t < now e)
      then Some (Inl (BadRequest ''Expiration date must be in the future''), st)
      else case createOrder_match e userId dto st of
          None \<Rightarrow> None
        | Some (matched, st1) \<Rightarrow> Some (createOrder_commit e failure userId dto matched st1))"

lemmas createOrder_defs = createOrder_def createOrder_match_def createOrder_commit_def

definition getOrderById :: "string \<Rightarrow> te_state \<Rightarrow> order result" where
  "getOrderById orderId st = (case row_by o_id orderId (te_orders st) of
     None \<Rightarrow> Inl (NotFound ''Order not found'') | Some x \<Rightarrow> Inr x)"

definition cancelOrder :: "string \<Rightarrow> string \<Rightarrow> te_state \<Rightarrow> (order \<times> te_state) result" where
  "cancelOrder orderId userId st =
     rbind (getOrderById orderId st) (\<lambda>order.
       if o_userId order \<noteq> userId then Inl (BadRequest ''You can only cancel your own orders'')
       else if \<not> is_live order then Inl (BadRequest ''Cannot cancel order that is not open'')
       else
         let cancelled = order\<lparr>o_status := O_CANCELLED\<rparr>
         in Inr (cancelled,
              st\<lparr>te_books := removeFromOrderBook order (te_books st),
                 te_orders := save_row o_id cancelled (te_orders st),
                 te_audits := te_audits st @ [\<lparr>at_entityId = o_id order, at_entityType = ''order'',
                   at_action = ORDER_CANCELLED, at_actorId = userId, at_previousState = Snap_Order order,
                   at_newState = Snap_Order cancelled, at_metadata = None\<rparr>]\<rparr>))"

definition opt_match :: "'a option \<Rightarrow> 'a \<Rightarrow> bool" where
  "opt_match f x = (case f of None \<Rightarrow> True | Some y \<Rightarrow> x = y)"

definition str_match :: "string option \<Rightarrow> string \<Rightarrow> bool" where
  "str_match f x \<longleftrightarrow> (truthy f \<longrightarrow> x = the f)"

text \<open>The rows of the page and the number of rows that pass the filters.\<close>

definition getOrders :: "query_order_dto \<Rightarrow> te_state \<Rightarrow> order list \<times> nat" where
  "getOrders q st =
     (let rows = filter (\<lambda>x. opt_match (qo_status q) (o_status x) \<and> opt_match (qo_side q) (o_side x) \<and>
            str_match (qo_assetCode q) (o_assetCode x) \<and> str_match (qo_userId q) (o_userId x) \<and>
            (case qo_fromDate q of None \<Rightarrow> True | Some d \<Rightarrow> d \<le> o_createdAt x) \<and>
            (case qo_toDate q of None \<Rightarrow> True | Some d \<Rightarrow> o_createdAt x \<le> d)) (te_orders st)
      in (take (qo_limit q) (drop ((qo_page q - 1) * qo_limit q) rows), length rows))"

definition settleTrade :: "(trade \<Rightarrow> string result) \<Rightarrow> env \<Rightarrow> string \<Rightarrow> te_state \<Rightarrow> (trade \<times> te_state) result" where
  "settleTrade settle e tradeId st = (case row_by t_id tradeId (te_trades st) of
     None \<Rightarrow> Inl (NotFound ''Trade not found'')
   | Some trade \<Rightarrow>
       if t_settled trade then Inl (BadRequest ''Trade already settled'')
       else rbind (settle trade) (\<lambda>txHash.
         let settled = trade\<lparr>t_stellarTxHash := Some txHash, t_settled := True, t_settledAt := Some (now e)\<rparr>
         in Inr (settled,
              st\<lparr>te_trades := save_row t_id settled (te_trades st),
                 te_audits := te_audits st @ [\<lparr>at_entityId = t_id trade, at_entityType = ''trade'',
                   at_action = TRADE_SETTLED, at_actorId = t_makerUserId trade, at_previousState = Snap_Trade trade,
                   at_newState = Snap_Trade settled, at_metadata = None\<rparr>]\<rparr>)))"

definition expire_order :: "order \<Rightarrow> te_state \<Rightarrow> te_state" where
  "expire_order order st =
     (let expired = order\<lparr>o_status := O_EXPIRED\<rparr>
      in st\<lparr>te_books := removeFromOrderBook order (te_books st),
            te_orders := save_row o_id expired (te_orders st),
            te_audits := te_audits st @ [\<lparr>at_entityId = o_id order, at_entityType = ''order'',
              at_action = ORDER_UPDATED, at_actorId = o_userId order, at_previousState = Snap_Order order,
              at_newState = Snap_Order expired, at_metadata = Some [(''reason'', ''Order expired'')]\<rparr>]\<rparr>)"

definition cleanupExpiredOrders :: "int \<Rightarrow> te_state \<Rightarrow> te_state" where
  "cleanupExpiredOrders t st =
     foldl (\<lambda>st x. expire_order x st) st
       (filter (\<lambda>x. is_live x \<and> (case o_expiresAt x of None \<Rightarrow> False | Some d \<Rightarrow> d < t)) (te_orders st))"

end
