(* ===== verification/TradeMatch.thy ===== *)
theory TradeMatch
  imports TradeEngine
begin

text \<open>
  What matching promises, and that the loop of the engine keeps it. The specification
  \<open>fills\<close> works on whole units: it walks the opposite side in order and takes from each
  resting order the smaller of what is wanted and what is left. For orders whose quantities are
  whole numbers below \<open>2^53\<close> the floating-point and decimal-string computations of the loop
  are exact, the loop ends, and its trades, its book and its order are the ones of the
  specification.
\<close>

section \<open>Whole-unit orders\<close>

definition units :: "string \<Rightarrow> nat" where
  "units s = (case parse_float s of None \<Rightarrow> 0 | Some x \<Rightarrow> nat \<lfloor>x\<rfloor>)"

definition whole :: "string \<Rightarrow> bool" where
  "whole s \<longleftrightarrow> parse_float s = Some (of_nat (units s)) \<and> units s < 2 ^ 53"

definition left :: "order \<Rightarrow> nat" where
  "left x = units (o_quantity x) - units (o_filledQuantity x)"

definition whole_order :: "order \<Rightarrow> bool" where
  "whole_order x \<longleftrightarrow> whole (o_quantity x) \<and> whole (o_filledQuantity x) \<and>
     units (o_filledQuantity x) \<le> units (o_quantity x)"

definition take_units :: "nat \<Rightarrow> order \<Rightarrow> order" where
  "take_units k x = fill (Some (of_nat k)) x"

lemma units_num_to_string: "n < 2 ^ 53 \<Longrightarrow> units (num_to_string (of_nat n)) = n \<and> whole (num_to_string (of_nat n))"
  using parse_num_to_string [of n] by (simp add: whole_def units_def)

lemma num_add_nat: "a + b < 2 ^ 53 \<Longrightarrow> num_add (of_nat a) (of_nat b) = of_nat (a + b)"
  using fl_of_nat_exact [of "a + b"] by (simp add: num_add_def)

lemma num_sub_nat: "a \<le> b \<Longrightarrow> b < 2 ^ 53 \<Longrightarrow> num_sub (of_nat b) (of_nat a) = of_nat (b - a)"
  using fl_of_nat_exact [of "b - a"] by (simp add: num_sub_def of_nat_diff)

lemma take_units_simps [simp]:
  "o_id (take_units k x) = o_id x" "o_side (take_units k x) = o_side x" "o_type (take_units k x) = o_type x"
  "o_price (take_units k x) = o_price x" "o_quantity (take_units k x) = o_quantity x"
  "o_userId (take_units k x) = o_userId x" "o_assetCode (take_units k x) = o_assetCode x"
  "o_assetIssuer (take_units k x) = o_assetIssuer x" "o_status (take_units k x) = o_status x"
  by (simp_all add: take_units_def fill_def)

lemma status_simps [simp]:
  "o_id (taker_status x) = o_id x" "o_side (taker_status x) = o_side x" "o_type (taker_status x) = o_type x"
  "o_price (taker_status x) = o_price x" "o_quantity (taker_status x) = o_quantity x"
  "o_userId (taker_status x) = o_userId x" "o_assetCode (taker_status x) = o_assetCode x"
  "o_assetIssuer (taker_status x) = o_assetIssuer x" "o_filledQuantity (taker_status x) = o_filledQuantity x"
  "o_id (maker_status x) = o_id x" "o_side (maker_status x) = o_side x" "o_type (maker_status x) = o_type x"
  "o_price (maker_status x) = o_price x" "o_quantity (maker_status x) = o_quantity x"
  "o_userId (maker_status x) = o_userId x" "o_assetCode (maker_status x) = o_assetCode x"
  "o_assetIssuer (maker_status x) = o_assetIssuer x" "o_filledQuantity (maker_status x) = o_filledQuantity x"
  by (simp_all add: taker_status_def maker_status_def)

lemma whole_order_take:
  assumes "whole_order x" and "k \<le> left x"
  shows "units (o_filledQuantity (take_units k x)) = units (o_filledQuantity x) + k" "whole_order (take_units k x)"
    "left (take_units k x) = left x - k"
proof -
  have f: "parse_float (o_filledQuantity x) = Some (of_nat (units (o_filledQuantity x)))"
    and lt: "units (o_filledQuantity x) + k \<le> units (o_quantity x)" "units (o_quantity x) < 2 ^ 53"
    using assms by (auto simp: whole_order_def whole_def left_def)
  then have "num_add (of_nat (units (o_filledQuantity x))) (of_nat k) = of_nat (units (o_filledQuantity x) + k)"
    by (intro num_add_nat) linarith
  then have s: "o_filledQuantity (take_units k x) = num_to_string (of_nat (units (o_filledQuantity x) + k))"
    by (simp add: take_units_def fill_def f js_num_str_def)
  have "units (o_filledQuantity x) + k < 2 ^ 53" using lt by linarith
  from units_num_to_string [OF this] lt assms(1)
  show "units (o_filledQuantity (take_units k x)) = units (o_filledQuantity x) + k" "whole_order (take_units k x)"
    "left (take_units k x) = left x - k"
    by (auto simp: s whole_order_def left_def)
qed

lemma is_filled_whole: "whole_order x \<Longrightarrow> is_filled x \<longleftrightarrow> left x = 0"
  by (auto simp: is_filled_def whole_order_def whole_def left_def)

lemma whole_order_status [simp]:
  "whole_order (taker_status x) = whole_order x" "whole_order (maker_status x) = whole_order x"
  "left (taker_status x) = left x" "left (maker_status x) = left x"
  "is_filled (maker_status x) = is_filled x"
  by (simp_all add: whole_order_def left_def is_filled_def)

lemma remaining_quantity_whole:
  assumes "whole_order x"
  shows "remaining_quantity x = Some (of_nat (left x))"
proof -
  have q: "parse_float (o_quantity x) = Some (of_nat (units (o_quantity x)))"
    and f: "parse_float (o_filledQuantity x) = Some (of_nat (units (o_filledQuantity x)))"
    and lt: "units (o_filledQuantity x) \<le> units (o_quantity x)" "units (o_quantity x) < 2 ^ 53"
    using assms by (auto simp: whole_order_def whole_def)
  then show ?thesis using num_sub_nat [OF lt] by (simp add: remaining_quantity_def left_def)
qed

lemma best_remaining_whole:
  assumes "whole_order x"
  shows "js_sub (parse_float (o_quantity x)) (parse_float (o_filledQuantity x)) = Some (of_nat (left x))"
proof -
  have q: "parse_float (o_quantity x) = Some (of_nat (units (o_quantity x)))"
    and f: "parse_float (o_filledQuantity x) = Some (of_nat (units (o_filledQuantity x)))"
    and lt: "units (o_filledQuantity x) \<le> units (o_quantity x)" "units (o_quantity x) < 2 ^ 53"
    using assms by (auto simp: whole_order_def whole_def)
  then show ?thesis using num_sub_nat [OF lt] by (simp add: left_def)
qed

section \<open>The specification\<close>

fun fills :: "(order \<Rightarrow> bool) \<Rightarrow> nat \<Rightarrow> order list \<Rightarrow> (order \<times> nat) list" where
  "fills ok n [] = []"
| "fills ok n (x # xs) =
     (if n = 0 \<or> \<not> ok x then []
      else (x, min n (left x)) # (if left x \<le> n then fills ok (n - left x) xs else []))"

definition filled_makers :: "(order \<times> nat) list \<Rightarrow> order list" where
  "filled_makers fs = map (\<lambda>(x, k). maker_status (take_units k x)) fs"

definition rest_book :: "(order \<times> nat) list \<Rightarrow> order list \<Rightarrow> order list" where
  "rest_book fs opp = filter (\<lambda>x. \<not> is_filled x) (filled_makers fs) @ drop (length fs) opp"

definition fill_taker :: "(order \<times> nat) list \<Rightarrow> order \<Rightarrow> order" where
  "fill_taker fs x = foldl (\<lambda>x k. taker_status (take_units k x)) x (map snd fs)"

lemma fills_prefix: "map fst (fills ok n xs) = take (length (fills ok n xs)) xs"
  by (induction ok n xs rule: fills.induct) auto

lemma fills_ok: "(x, k) \<in> set (fills ok n xs) \<Longrightarrow> ok x \<and> k \<le> left x \<and> k \<le> n"
  by (induction ok n xs rule: fills.induct) (fastforce split: if_splits)+

lemma fills_total: "(\<Sum>(x, k) \<leftarrow> fills ok n xs. k) \<le> n"
  by (induction ok n xs rule: fills.induct) (auto simp: min_def)

text \<open>Matching stops only when nothing is wanted any more, the side is exhausted or its head does not match.\<close>

lemma fills_maximal:
  assumes "\<forall>x \<in> set xs. 0 < left x"
  shows "(\<Sum>(x, k) \<leftarrow> fills ok n xs. k) = n \<or>
    (let j = length (fills ok n xs) in (\<forall>(x, k) \<in> set (fills ok n xs). k = left x) \<and> (j < length xs \<longrightarrow> \<not> ok (xs ! j)))"
  using assms
proof (induction ok n xs rule: fills.induct)
  case (1 ok n)
  then show ?case by simp
next
  case (2 ok n x xs)
  show ?case
  proof (cases "n = 0 \<or> \<not> ok x")
    case True
    then show ?thesis by auto
  next
    case False
    then show ?thesis using 2 by (cases "left x \<le> n") (auto simp: Let_def min_def)
  qed
qed

lemma prices_cross_cong:
  "o_type y = o_type x \<Longrightarrow> o_price y = o_price x \<Longrightarrow> o_side y = o_side x \<Longrightarrow> prices_cross y = prices_cross x"
  by (rule ext) (simp add: prices_cross_def)

lemma make_trade_cong:
  "o_id y = o_id x \<Longrightarrow> o_userId y = o_userId x \<Longrightarrow> o_side y = o_side x \<Longrightarrow> o_assetCode y = o_assetCode x \<Longrightarrow>
   o_assetIssuer y = o_assetIssuer x \<Longrightarrow> make_trade y = make_trade x"
  by (intro ext) (simp add: make_trade_def Let_def)

section \<open>The loop refines the specification\<close>

lemma match_loop_stop:
  "\<not> js_less (Some 0) r \<Longrightarrow> match_loop x r opp trades touched =
     Some \<lparr>mr_order = x, mr_opposite = opp, mr_trades = trades, mr_touched = touched\<rparr>"
  by (subst match_loop.simps) (simp split: list.split)

lemma match_loop_step:
  assumes "whole_order x" "whole_order b" "0 < n" "n \<le> left x" "prices_cross x b"
  defines "k \<equiv> min n (left b)"
  shows "match_loop x (Some (of_nat n)) (b # opp) trades touched =
    match_loop (taker_status (take_units k x)) (Some (of_nat (n - k)))
      (if left b \<le> n then opp else maker_status (take_units k b) # opp)
      (trades @ [make_trade x b (Some (of_nat k))])
      (map_set (o_id b) (maker_status (take_units k b)) touched)"
proof -
  have k: "k \<le> left b" "k \<le> n" by (simp_all add: k_def)
  have "left x < 2 ^ 53" using assms(1) by (auto simp: left_def whole_order_def whole_def)
  then have sub: "num_sub (of_nat n) (of_nat k) = of_nat (n - k)" using k assms(4) by (intro num_sub_nat) linarith+
  have q: "js_min (Some (of_nat n)) (js_sub (parse_float (o_quantity b)) (parse_float (o_filledQuantity b))) = Some (of_nat k)"
    unfolding best_remaining_whole [OF assms(2)] by (simp add: k_def min_def)
  have fl: "is_filled (maker_status (take_units k b)) \<longleftrightarrow> left b \<le> n"
    using whole_order_take [OF assms(2) k(1)] by (auto simp: is_filled_whole k_def)
  show ?thesis
    using assms(3,5) q sub fl by (subst match_loop.simps) (simp add: take_units_def [symmetric] Let_def)
qed

lemma match_loop_fills:
  assumes "whole_order x" and "n \<le> left x" and "\<forall>y \<in> set opp. whole_order y"
  shows "match_loop x (Some (of_nat n)) opp trades touched =
    (let fs = fills (prices_cross x) n opp
     in Some \<lparr>mr_order = fill_taker fs x, mr_opposite = rest_book fs opp,
          mr_trades = trades @ map (\<lambda>(y, k). make_trade x y (Some (of_nat k))) fs,
          mr_touched = foldl (\<lambda>t y. map_set (o_id y) y t) touched (filled_makers fs)\<rparr>)"
  using assms
proof (induction opp arbitrary: x n trades touched)
  case Nil
  show ?case by (subst match_loop.simps) (simp add: fill_taker_def rest_book_def filled_makers_def)
next
  case (Cons b opp)
  show ?case
  proof (cases "n = 0 \<or> \<not> prices_cross x b")
    case True
    then show ?thesis
      by (subst match_loop.simps) (auto simp: fill_taker_def rest_book_def filled_makers_def)
  next
    case False
    let ?k = "min n (left b)" let ?x = "taker_status (take_units ?k x)" let ?b = "maker_status (take_units ?k b)"
    have b: "whole_order b" "\<forall>y \<in> set opp. whole_order y" using Cons.prems by auto
    have xk: "whole_order ?x" "left ?x = left x - ?k"
      using whole_order_take [OF Cons.prems(1), of ?k] Cons.prems(2) by auto
    have pc: "prices_cross ?x = prices_cross x" by (rule prices_cross_cong) simp_all
    have mt: "make_trade ?x = make_trade x" by (rule make_trade_cong) simp_all
    have fl: "is_filled ?b \<longleftrightarrow> left b \<le> n" using whole_order_take [OF b(1), of ?k] by (auto simp: is_filled_whole)
    note step = match_loop_step [OF Cons.prems(1) b(1) _ Cons.prems(2), of opp trades touched]
    show ?thesis
    proof (cases "left b \<le> n")
      case True
      then have "n - left b \<le> left ?x" using xk Cons.prems(2) by auto
      from Cons.IH [OF xk(1) this b(2)] show ?thesis
        using False step fl pc mt unfolding min_absorb2 [OF True]
        by (simp add: Let_def fill_taker_def rest_book_def filled_makers_def True)
    next
      case gt: False
      then have "n \<le> left b" by simp
      with gt show ?thesis
        using False step fl unfolding min_absorb1 [OF \<open>n \<le> left b\<close>]
        by (simp add: match_loop_stop fill_taker_def rest_book_def filled_makers_def)
    qed
  qed
qed

section \<open>The outcome of matching\<close>

abbreviation total_fills :: "(order \<times> nat) list \<Rightarrow> nat" where
  "total_fills fs \<equiv> \<Sum>(x, k) \<leftarrow> fs. k"

lemma fill_taker_simps [simp]:
  "o_id (fill_taker fs x) = o_id x" "o_side (fill_taker fs x) = o_side x" "o_type (fill_taker fs x) = o_type x"
  "o_price (fill_taker fs x) = o_price x" "o_quantity (fill_taker fs x) = o_quantity x"
  "o_userId (fill_taker fs x) = o_userId x" "o_assetCode (fill_taker fs x) = o_assetCode x"
  "o_assetIssuer (fill_taker fs x) = o_assetIssuer x"
  unfolding fill_taker_def by (induction fs arbitrary: x) auto

lemma fill_taker_whole:
  assumes "whole_order x" and "total_fills fs \<le> left x"
  shows "whole_order (fill_taker fs x) \<and> left (fill_taker fs x) = left x - total_fills fs \<and>
    units (o_filledQuantity (fill_taker fs x)) = units (o_filledQuantity x) + total_fills fs"
  using assms
proof (induction fs arbitrary: x)
  case Nil
  then show ?case by (simp add: fill_taker_def)
next
  case (Cons p fs)
  obtain y k where p: "p = (y, k)" by fastforce
  with Cons.prems have k: "k \<le> left x" by simp
  let ?x = "taker_status (take_units k x)"
  have "whole_order ?x" "left ?x = left x - k" "units (o_filledQuantity ?x) = units (o_filledQuantity x) + k"
    using whole_order_take [OF Cons.prems(1) k] by auto
  moreover have "fill_taker (p # fs) x = fill_taker fs ?x" by (simp add: fill_taker_def p)
  ultimately show ?case using Cons.IH [of ?x] Cons.prems(2) p by simp
qed

lemma taker_status_whole:
  "whole_order x \<Longrightarrow> 0 < units (o_filledQuantity x) \<Longrightarrow>
   o_status (taker_status x) = (if left x = 0 then O_FILLED else O_PARTIALLY_FILLED)"
  by (auto simp: taker_status_def is_filled_whole) (auto simp: whole_order_def whole_def)

lemma fill_taker_status:
  assumes "whole_order x" and "total_fills fs \<le> left x" and "\<forall>(y, k) \<in> set fs. 0 < k" and "fs \<noteq> []"
  shows "o_status (fill_taker fs x) = (if left x = total_fills fs then O_FILLED else O_PARTIALLY_FILLED)"
proof -
  obtain gs y k where fs: "fs = gs @ [(y, k)]" using assms(4) by (cases fs rule: rev_cases) auto
  let ?x = "fill_taker gs x"
  have g: "whole_order ?x" "left ?x = left x - total_fills gs" using fill_taker_whole [OF assms(1), of gs] assms(2) fs by auto
  have k: "k \<le> left ?x" "0 < k" using g assms(2,3) fs by auto
  note t = whole_order_take [OF g(1) k(1)]
  have "fill_taker fs x = taker_status (take_units k ?x)" by (simp add: fill_taker_def fs)
  moreover have "o_status (taker_status (take_units k ?x)) = (if left (take_units k ?x) = 0 then O_FILLED else O_PARTIALLY_FILLED)"
    using t k by (intro taker_status_whole) auto
  ultimately show ?thesis using t(3) g(2) fs assms(2) by auto
qed

lemma filled_makers_ids: "map o_id (filled_makers fs) = map (o_id \<circ> fst) fs"
  by (induction fs) (auto simp: filled_makers_def)

lemma touched_makers:
  assumes "distinct (map o_id ys)"
  shows "map snd (foldl (\<lambda>t y. map_set (o_id y) y t) [] ys) = ys"
proof -
  have "foldl (\<lambda>t y. map_set (o_id y) y t) acc ys = acc @ map (\<lambda>y. (o_id y, y)) ys"
    if "distinct (map o_id ys)" "fst ` set acc \<inter> o_id ` set ys = {}" for acc
    using that
  proof (induction ys arbitrary: acc)
    case Nil
    then show ?case by simp
  next
    case (Cons y ys)
    then have "map_set (o_id y) y acc = acc @ [(o_id y, y)]" by (intro map_set_new) auto
    with Cons show ?case by auto
  qed
  from this [OF assms, of "[]"] show ?thesis by (simp add: comp_def)
qed

lemma fills_distinct:
  assumes "distinct (map o_id opp)"
  shows "distinct (map o_id (filled_makers (fills ok n opp)))"
proof -
  have "map o_id (filled_makers (fills ok n opp)) = map o_id (take (length (fills ok n opp)) opp)"
    using fills_prefix [of ok n opp] unfolding filled_makers_ids by (metis map_map)
  with assms show ?thesis by (metis distinct_take take_map)
qed

lemma matchOrder_fills:
  assumes "map_of m (order_key x) = Some b" and "whole_order x"
    and "\<forall>y \<in> set (opposite (o_side x) b). whole_order y" and "distinct (map o_id (opposite (o_side x) b))"
  shows "matchOrder x m =
    (let opp = opposite (o_side x) b; fs = fills (prices_cross x) (left x) opp
     in Some (fill_taker fs x, map (\<lambda>(y, k). make_trade x y (Some (of_nat k))) fs, filled_makers fs,
          map_set (order_key x) (set_opposite (o_side x) (rest_book fs opp) b) m))"
  using match_loop_fills [OF assms(2) order_refl assms(3), of "[]" "[]"] assms(1)
    touched_makers [OF fills_distinct [OF assms(4)]]
  by (simp add: matchOrder_def remaining_quantity_whole [OF assms(2)] Let_def)

lemma whole_maker:
  assumes "whole_order y" and "k \<le> left y"
  shows "whole_order (maker_status (take_units k y))" "left (maker_status (take_units k y)) = left y - k"
    "units (o_filledQuantity (maker_status (take_units k y))) = units (o_filledQuantity y) + k"
  using whole_order_take [OF assms] by auto

text \<open>
  C3. For orders in whole units the matching loop ends and computes what the specification
  says: it takes the resting orders of the other side in their order, as long as they match,
  each for the smaller of what is wanted and what it has left; there is one trade per fill, at
  the price of the resting order; the book keeps the orders that are not filled.
\<close>

theorem matchOrder_refines:
  assumes "map_of m (order_key x) = Some b" and "whole_order x"
    and "list_all whole_order (opposite (o_side x) b)" and "distinct (map o_id (opposite (o_side x) b))"
  shows "matchOrder x m =
    (let opp = opposite (o_side x) b; fs = fills (prices_cross x) (left x) opp
     in Some (fill_taker fs x, map (\<lambda>(y, k). make_trade x y (Some (of_nat k))) fs, filled_makers fs,
          map_set (order_key x) (set_opposite (o_side x) (rest_book fs opp) b) m))"
  using matchOrder_fills assms by (simp add: list_all_iff)

definition sample_order :: "string \<Rightarrow> order_side \<Rightarrow> string \<Rightarrow> string \<Rightarrow> order" where
  "sample_order i s q p = \<lparr>o_id = i, o_userId = ''u'' @ i, o_assetCode = ''XLM'', o_assetIssuer = None, o_side = s,
     o_type = LIMIT, o_quantity = q, o_filledQuantity = ''0'', o_price = Some p, o_status = O_OPEN, o_expiresAt = None,
     o_metadata = None, o_createdAt = 0\<rparr>"

lemma digits_whole: "s \<noteq> [] \<Longrightarrow> digits_val 0 s = Some n \<Longrightarrow> n < 2 ^ 53 \<Longrightarrow> whole s \<and> units s = n"
  by (auto simp: whole_def units_def parse_float_digits fl_of_nat_exact)

lemma sample_units:
  "whole ''0'' \<and> units ''0'' = 0" "whole ''4'' \<and> units ''4'' = 4" "whole ''6'' \<and> units ''6'' = 6"
  "whole ''10'' \<and> units ''10'' = 10"
  by (rule digits_whole, simp_all add: digit_val_def)+

lemma sample_whole:
  "whole_order (sample_order i s ''4'' p) \<and> left (sample_order i s ''4'' p) = 4"
  "whole_order (sample_order i s ''6'' p) \<and> left (sample_order i s ''6'' p) = 6"
  "whole_order (sample_order i s ''10'' p) \<and> left (sample_order i s ''10'' p) = 10"
  using sample_units by (simp_all add: whole_order_def left_def sample_order_def)

definition sample_book :: "(string \<times> order_book) list" where
  "sample_book = [(''XLM'', \<lparr>bids = [], asks = [sample_order ''a'' SELL ''4'' ''100'', sample_order ''b'' SELL ''10'' ''100'']\<rparr>)]"

lemma parse_100: "parse_float ''100'' = Some 100"
  using parse_float_digits [of "''100''" 100] fl_of_nat_exact [of 100] by (simp add: digit_val_def)

theorem matchOrder_refines_witness:
  "map_option (\<lambda>(x, ts, ys, m). (length ts, map o_id ys)) (matchOrder (sample_order ''t'' BUY ''6'' ''100'') sample_book)
     = Some (2, [''a'', ''b''])"
proof -
  have k: "order_key (sample_order i s q p) = ''XLM''" for i s q p by (simp add: sample_order_def getAssetKey_def truthy_def)
  have c: "prices_cross (sample_order ''t'' BUY ''6'' ''100'') (sample_order i SELL q ''100'')" for i q
    by (simp add: prices_cross_def sample_order_def truthy_def parse_null_def parse_100)
  have s: "o_side (sample_order i s q p) = s" "o_id (sample_order i s q p) = i" for i s q p by (simp_all add: sample_order_def)
  show ?thesis
    using matchOrder_refines [of sample_book "sample_order ''t'' BUY ''6'' ''100''"] sample_whole c
    by (simp add: k s sample_book_def opposite_def Let_def filled_makers_def)
qed

lemma trade_units:
  assumes "k < 2 ^ 53"
  shows "units (t_quantity (make_trade x y (Some (of_nat k)))) = k"
  using units_num_to_string [OF assms] by (simp add: make_trade_def Let_def js_num_str_def)

lemma rest_book_stops:
  assumes "\<forall>y \<in> set opp. whole_order y \<and> 0 < left y"
  shows "total_fills (fills ok n opp) = n \<or> rest_book (fills ok n opp) opp = [] \<or> \<not> ok (hd (rest_book (fills ok n opp) opp))"
proof (cases "total_fills (fills ok n opp) = n")
  case True
  then show ?thesis by simp
next
  case False
  let ?fs = "fills ok n opp"
  from fills_maximal [of opp ok n] assms False
  have a: "\<forall>(y, k) \<in> set ?fs. k = left y" and b: "length ?fs < length opp \<longrightarrow> \<not> ok (opp ! length ?fs)"
    by (auto simp: Let_def)
  have "is_filled (maker_status (take_units k y))" if "(y, k) \<in> set ?fs" for y k
  proof -
    from that have "y \<in> set (map fst ?fs)" by force
    then have "y \<in> set opp" unfolding fills_prefix by (rule in_set_takeD)
    then show ?thesis using a that assms whole_maker [of y k] by (auto simp: is_filled_whole)
  qed
  then have "rest_book ?fs opp = drop (length ?fs) opp"
    by (auto simp: rest_book_def filled_makers_def filter_empty_conv)
  then show ?thesis using b by (cases "length ?fs < length opp") (auto simp: hd_drop_conv_nth)
qed

lemma opposite_set_opposite [simp]: "opposite s (set_opposite s xs b) = xs"
  by (simp add: opposite_def set_opposite_def)

lemma get_book_map_set: "get_book k (map_set k' b m) = (if k = k' then b else get_book k m)"
  by (simp add: get_book_def)

text \<open>
  C6. Matching a new order in whole units with resting orders in whole units conserves quantity: what the new order gains is the sum of its trades, every
  touched resting order gains exactly its trade, no order is filled beyond its quantity, and
  matching stops only when the new order is filled or no resting order that matches is left.
\<close>

theorem matchOrder_conserves:
  assumes "map_of m (order_key x) = Some b" and "whole_order x"
    and "list_all (\<lambda>y. whole_order y \<and> 0 < left y) (opposite (o_side x) b)"
    and "distinct (map o_id (opposite (o_side x) b))"
    and "matchOrder x m = Some (x', trades, touched, m')"
  shows "units (o_filledQuantity x') = units (o_filledQuantity x) + sum_list (map (units \<circ> t_quantity) trades) \<and>
    units (o_filledQuantity x') \<le> units (o_quantity x) \<and>
    list_all2 (\<lambda>y t. row_by o_id (o_id y) (opposite (o_side x) b) \<noteq> None \<and>
      units (o_filledQuantity y) = units (o_filledQuantity (the (row_by o_id (o_id y) (opposite (o_side x) b)))) + units (t_quantity t) \<and>
      units (o_filledQuantity y) \<le> units (o_quantity y) \<and> t_price t = o_price y \<and> prices_cross x y) touched trades \<and>
    (left x' = 0 \<or> (case opposite (o_side x) (get_book (order_key x) m') of [] \<Rightarrow> True | y # ys \<Rightarrow> \<not> prices_cross x y))"
proof -
  define opp where "opp = opposite (o_side x) b"
  define fs where "fs = fills (prices_cross x) (left x) opp"
  have opp: "\<forall>y \<in> set opp. whole_order y \<and> 0 < left y" and dist: "distinct (map o_id opp)"
    using assms(3,4) by (simp_all add: opp_def list_all_iff)
  have r: "x' = fill_taker fs x" "trades = map (\<lambda>(y, k). make_trade x y (Some (of_nat k))) fs"
    "touched = filled_makers fs" "m' = map_set (order_key x) (set_opposite (o_side x) (rest_book fs opp) b) m"
    using matchOrder_fills [OF assms(1,2)] opp dist assms(5) by (auto simp: opp_def fs_def Let_def)
  have tot: "total_fills fs \<le> left x" by (simp add: fs_def fills_total)
  note taker = fill_taker_whole [OF assms(2) tot]
  have mem: "y \<in> set opp \<and> prices_cross x y \<and> k \<le> left y \<and> k < 2 ^ 53" if "(y, k) \<in> set fs" for y k
  proof -
    from that have "y \<in> set (map fst fs)" by force
    then have "y \<in> set opp" unfolding fs_def fills_prefix by (rule in_set_takeD)
    moreover have "prices_cross x y \<and> k \<le> left y" using that fills_ok unfolding fs_def by blast
    moreover have "left y < 2 ^ 53" using calculation(1) opp by (auto simp: left_def whole_order_def whole_def)
    ultimately show ?thesis by auto
  qed
  have "map (units \<circ> t_quantity) trades = map snd fs" unfolding r(2) using mem trade_units by auto
  then have "sum_list (map (units \<circ> t_quantity) trades) = total_fills fs" by (simp add: case_prod_beta' comp_def)
  moreover have "units (o_filledQuantity x) + total_fills fs \<le> units (o_quantity x)"
    using tot assms(2) by (auto simp: left_def whole_order_def)
  moreover have "list_all2 (\<lambda>y t. row_by o_id (o_id y) opp \<noteq> None \<and>
      units (o_filledQuantity y) = units (o_filledQuantity (the (row_by o_id (o_id y) opp))) + units (t_quantity t) \<and>
      units (o_filledQuantity y) \<le> units (o_quantity y) \<and> t_price t = o_price y \<and> prices_cross x y) touched trades"
    unfolding r(2,3) filled_makers_def list_all2_map1 list_all2_map2 list_all2_same
  proof (clarify, goal_cases)
    case (1 y k)
    note y = mem [OF 1]
    have row: "row_by o_id (o_id y) opp = Some y" using y dist by (intro row_by_distinct) (auto simp: keys_distinct_def)
    have w: "whole_order y" using y opp by auto
    have "prices_cross x (maker_status (take_units k y)) = prices_cross x y" by (simp add: prices_cross_def)
    then show ?case using y row whole_maker [OF w, of k] trade_units [of k x y]
      by (auto simp: whole_order_def make_trade_def Let_def)
  qed
  moreover have "left x' = 0 \<or> (case opposite (o_side x) (get_book (order_key x) m') of [] \<Rightarrow> True | y # ys \<Rightarrow> \<not> prices_cross x y)"
    using rest_book_stops [OF opp, of "prices_cross x" "left x"] taker r
    by (auto simp: get_book_map_set fs_def split: list.split)
  ultimately show ?thesis using taker r(1) by (simp add: opp_def)
qed

theorem matchOrder_conserves_witness:
  "\<exists>x' ts ys m. matchOrder (sample_order ''t'' BUY ''6'' ''100'') sample_book = Some (x', ts, ys, m) \<and>
     units (o_filledQuantity x') = sum_list (map (units \<circ> t_quantity) ts)"
proof -
  let ?x = "sample_order ''t'' BUY ''6'' ''100''"
  let ?b = "\<lparr>bids = [], asks = [sample_order ''a'' SELL ''4'' ''100'', sample_order ''b'' SELL ''10'' ''100'']\<rparr>"
  have b: "map_of sample_book (order_key ?x) = Some ?b" "opposite (o_side ?x) ?b = asks ?b" "units (o_filledQuantity ?x) = 0"
    using sample_units by (simp_all add: sample_order_def getAssetKey_def truthy_def sample_book_def opposite_def)
  have w: "list_all (\<lambda>y. whole_order y \<and> 0 < left y) (opposite (o_side ?x) ?b)" "distinct (map o_id (opposite (o_side ?x) ?b))"
    using b sample_whole by (simp_all add: sample_order_def)
  obtain x' ts ys m where r: "matchOrder ?x sample_book = Some (x', ts, ys, m)"
    using matchOrder_fills [OF b(1)] w sample_whole by (auto simp: list_all_iff Let_def)
  from matchOrder_conserves [OF b(1) _ w r] sample_whole b(3) r show ?thesis by auto
qed

end
