(* ===== verification/TradeBook.thy ===== *)
theory TradeBook
  imports TradeMatch
begin

text \<open>
  The order books as an invariant: in every state that the operations reach with limit orders
  in whole units, each side of a book is sorted by price and, for equal prices, by arrival,
  the sides do not cross, and a book holds exactly the live orders of the order table.
\<close>

section \<open>A side in price-time priority\<close>

definition priced :: "order \<Rightarrow> bool" where
  "priced x \<longleftrightarrow> truthy (o_price x) \<and> parse_null (o_price x) \<noteq> None"

definition price :: "order \<Rightarrow> number" where
  "price x = the (parse_null (o_price x))"

interpretation bid_side: priority_side bid_cmp "\<lambda>x. - price x" priced
  by unfold_locales (auto simp: priced_def price_def bid_cmp_def num_sub_def)

interpretation ask_side: priority_side ask_cmp price priced
  by unfold_locales (auto simp: priced_def price_def ask_cmp_def num_sub_def)

section \<open>Both sides at once\<close>

fun other :: "order_side \<Rightarrow> order_side" where
  "other BUY = SELL"
| "other SELL = BUY"

definition side :: "order_side \<Rightarrow> order_book \<Rightarrow> order list" where
  "side s b = (if s = BUY then bids b else asks b)"

definition prio :: "order_side \<Rightarrow> order \<Rightarrow> number" where
  "prio s x = (if s = BUY then - price x else price x)"

lemma opposite_side: "opposite s b = side (other s) b"
  by (cases s) (simp_all add: opposite_def side_def)

lemma side_set_opposite: "side s (set_opposite s' xs b) = (if s = other s' then xs else side s b)"
  by (cases s; cases s') (simp_all add: set_opposite_def side_def)

lemma other_neq [simp]: "other s \<noteq> s" "s \<noteq> other s" "other (other s) = s" "s \<noteq> other s' \<longleftrightarrow> s = s'"
  by (cases s; cases s'; simp)+

definition good_order :: "order \<Rightarrow> bool" where
  "good_order x \<longleftrightarrow> whole_order x \<and> 0 < left x \<and> o_type x = LIMIT \<and> priced x"

lemma not_cross:
  assumes "o_type x = LIMIT" and "priced x" and "priced y" and "o_side x = s"
  shows "\<not> prices_cross x y \<longleftrightarrow> 0 < prio s x + prio (other s) y"
  using assms by (cases s) (auto simp: prices_cross_def priced_def prio_def price_def)

lemma add_sort:
  assumes "\<forall>y \<in> set xs. priced y" and "priced x" and "sorted (map (prio s) xs)"
  defines "ys \<equiv> js_sort (if s = BUY then bid_cmp else ask_cmp) (xs @ [x])"
  shows "sorted (map (prio s) ys)" and "set ys = insert x (set xs)"
    and "distinct (map o_id xs) \<Longrightarrow> o_id x \<notin> o_id ` set xs \<Longrightarrow> distinct (map o_id ys)"
proof -
  have p: "prio BUY = (\<lambda>x. - price x)" "prio SELL = price" by (auto simp: prio_def)
  note b = assms(1-3)
  show "sorted (map (prio s) ys)" using b bid_side.js_sort_snoc_props(2) ask_side.js_sort_snoc_props(2) unfolding ys_def by (cases s) (simp_all add: p)
  show "set ys = insert x (set xs)" using b bid_side.js_sort_snoc_props(1) ask_side.js_sort_snoc_props(1) unfolding ys_def by (cases s) (simp_all add: p)
  show "distinct (map o_id xs) \<Longrightarrow> o_id x \<notin> o_id ` set xs \<Longrightarrow> distinct (map o_id ys)"
    using b bid_side.js_sort_snoc_props(3) ask_side.js_sort_snoc_props(3) unfolding ys_def by (cases s) (simp_all add: p)
qed

lemma side_addToOrderBook:
  "side s (get_book k (addToOrderBook x m)) =
     (if k = order_key x \<and> s = o_side x then js_sort (if s = BUY then bid_cmp else ask_cmp) (side s (get_book k m) @ [x])
      else side s (get_book k m))"
  by (cases s; cases "o_side x") (auto simp: addToOrderBook_def Let_def side_def get_book_map_set)

lemma side_removeFromOrderBook:
  "side s (get_book k (removeFromOrderBook x m)) =
     (if k = order_key x \<and> s = o_side x then filter (\<lambda>y. o_id y \<noteq> o_id x) (side s (get_book k m))
      else side s (get_book k m))"
  by (cases s; cases "o_side x") (auto simp: removeFromOrderBook_def Let_def side_def get_book_def split: option.split)

section \<open>The invariant\<close>

definition book_inv :: "string \<Rightarrow> order_book \<Rightarrow> bool" where
  "book_inv k b \<longleftrightarrow>
     (\<forall>s. (\<forall>x \<in> set (side s b). good_order x \<and> is_live x \<and> o_side x = s \<and> order_key x = k) \<and>
          sorted (map (prio s) (side s b)) \<and> distinct (map o_id (side s b))) \<and>
     (\<forall>x \<in> set (bids b). \<forall>y \<in> set (asks b). price x < price y)"

definition book_rows :: "order_book \<Rightarrow> order set" where
  "book_rows b = set (bids b) \<union> set (asks b)"

definition te_inv :: "te_state \<Rightarrow> bool" where
  "te_inv st \<longleftrightarrow> keys_distinct o_id (te_orders st) \<and>
     (\<forall>k. book_inv k (get_book k (te_books st)) \<and>
          book_rows (get_book k (te_books st)) = {x \<in> set (te_orders st). is_live x \<and> order_key x = k})"

lemma book_rows_side: "book_rows b = set (side s b) \<union> set (side (other s) b)"
  by (cases s) (auto simp: book_rows_def side_def)

lemma uncrossed_side:
  "(\<forall>x \<in> set (bids b). \<forall>y \<in> set (asks b). price x < price y) \<longleftrightarrow>
   (\<forall>x \<in> set (side s b). \<forall>y \<in> set (side (other s) b). 0 < prio s x + prio (other s) y)"
  by (cases s) (auto simp: side_def prio_def)

section \<open>Matching against a good book\<close>

lemma matchOrder_get_book:
  assumes "whole_order x" and "\<forall>y \<in> set (opposite (o_side x) (get_book (order_key x) m)). whole_order y"
    and "distinct (map o_id (opposite (o_side x) (get_book (order_key x) m)))"
  defines "opp \<equiv> opposite (o_side x) (get_book (order_key x) m)"
  defines "fs \<equiv> fills (prices_cross x) (left x) opp"
  shows "\<exists>m'. matchOrder x m = Some (fill_taker fs x, map (\<lambda>(y, k). make_trade x y (Some (of_nat k))) fs, filled_makers fs, m') \<and>
    (\<forall>k. get_book k m' = (if k = order_key x then set_opposite (o_side x) (rest_book fs opp) (get_book k m) else get_book k m))"
proof (cases "map_of m (order_key x)")
  case None
  then have "opp = []" by (simp add: opp_def opposite_def get_book_def)
  then have "fs = []" "rest_book fs opp = []" by (simp_all add: fs_def rest_book_def filled_makers_def)
  with None show ?thesis by (auto simp: matchOrder_def fill_taker_def filled_makers_def get_book_def set_opposite_def)
next
  case (Some b)
  then have b: "get_book (order_key x) m = b" by (simp add: get_book_def)
  from matchOrder_fills [OF Some assms(1)] assms(2,3) show ?thesis
    by (auto simp: b opp_def fs_def Let_def get_book_map_set)
qed

lemma fills_pos: "\<forall>y \<in> set xs. 0 < left y \<Longrightarrow> \<forall>(y, k) \<in> set (fills ok n xs). 0 < k"
  by (induction ok n xs rule: fills.induct) (auto simp: min_def)

lemma fills_mem: "(y, k) \<in> set (fills ok n xs) \<Longrightarrow> y \<in> set (take (length (fills ok n xs)) xs)"
  unfolding fills_prefix [symmetric] by force

lemma maker_live:
  "is_live y \<Longrightarrow> is_live (maker_status (take_units k y)) \<longleftrightarrow> \<not> is_filled (maker_status (take_units k y))"
  by (auto simp: is_live_def maker_status_def is_filled_def)

lemma good_maker:
  assumes "good_order y" and "k \<le> left y" and "\<not> is_filled (maker_status (take_units k y))"
  shows "good_order (maker_status (take_units k y))"
  using assms whole_maker [of y k] by (auto simp: good_order_def is_filled_whole priced_def)

lemma maker_prio [simp]: "prio s (maker_status (take_units k y)) = prio s y" "prio s (fill_taker fs x) = prio s x"
  by (simp_all add: prio_def price_def)

text \<open>What the remaining opposite side is made of.\<close>

lemma rest_book_set:
  "set (rest_book fs opp) = {x \<in> set (filled_makers fs). \<not> is_filled x} \<union> set (drop (length fs) opp)"
  by (auto simp: rest_book_def)

lemma rest_book_sorted:
  assumes "sorted (map (prio s) opp)"
  shows "sorted (map (prio s) (rest_book (fills ok n opp) opp))"
proof -
  let ?fs = "fills ok n opp"
  have "map (prio s) (filled_makers ?fs) = map (prio s) (map fst ?fs)" by (auto simp: filled_makers_def)
  then have "map (prio s) (filled_makers ?fs @ drop (length ?fs) opp) = map (prio s) opp"
    unfolding fills_prefix by (metis append_take_drop_id map_append)
  with assms have "sorted (map (prio s) (filled_makers ?fs @ drop (length ?fs) opp))" by simp
  then show ?thesis by (auto simp: rest_book_def sorted_append intro: sorted_filter)
qed

lemma rest_book_distinct:
  assumes "distinct (map o_id opp)"
  shows "distinct (map o_id (rest_book (fills ok n opp) opp))"
proof -
  let ?fs = "fills ok n opp"
  have "map o_id (filled_makers ?fs) = map o_id (map fst ?fs)" by (auto simp: filled_makers_def)
  then have "map o_id (filled_makers ?fs @ drop (length ?fs) opp) = map o_id opp"
    unfolding fills_prefix by (metis append_take_drop_id map_append)
  with assms have "distinct (map o_id (filled_makers ?fs @ drop (length ?fs) opp))" by simp
  then show ?thesis by (auto simp: rest_book_def distinct_map_filter)
qed

lemma rest_book_mem:
  assumes "z \<in> set (rest_book (fills ok n opp) opp)"
  shows "\<exists>y \<in> set opp. o_id z = o_id y \<and> prio s z = prio s y \<and>
    (z = y \<or> (\<exists>k. (y, k) \<in> set (fills ok n opp) \<and> z = maker_status (take_units k y) \<and> \<not> is_filled z))"
proof -
  from assms consider "z \<in> set (drop (length (fills ok n opp)) opp)"
    | y k where "(y, k) \<in> set (fills ok n opp)" "z = maker_status (take_units k y)" "\<not> is_filled z"
    by (auto simp: rest_book_def filled_makers_def)
  then show ?thesis
  proof cases
    case 1
    then show ?thesis by (auto dest: in_set_dropD)
  next
    case 2
    then have "y \<in> set opp" using fills_mem in_set_takeD by fastforce
    with 2 show ?thesis by fastforce
  qed
qed

lemma rest_book_good:
  assumes "\<forall>y \<in> set opp. good_order y \<and> is_live y \<and> o_side y = s \<and> order_key y = k"
    and "z \<in> set (rest_book (fills ok n opp) opp)"
  shows "good_order z \<and> is_live z \<and> o_side z = s \<and> order_key z = k"
proof -
  from rest_book_mem [OF assms(2)] obtain y where y: "y \<in> set opp"
    "z = y \<or> (\<exists>k. (y, k) \<in> set (fills ok n opp) \<and> z = maker_status (take_units k y) \<and> \<not> is_filled z)" by blast
  then show ?thesis using assms(1) good_maker maker_live fills_ok by fastforce
qed

text \<open>A new limit order that is not filled does not cross what is left of the other side.\<close>

lemma rest_book_uncrossed:
  assumes "good_order x" and "o_side x = s" and "\<forall>y \<in> set opp. good_order y" and "sorted (map (prio (other s)) opp)"
    and "total_fills (fills (prices_cross x) (left x) opp) \<noteq> left x"
    and "z \<in> set (rest_book (fills (prices_cross x) (left x) opp) opp)"
  shows "0 < prio s x + prio (other s) z"
proof -
  let ?r = "rest_book (fills (prices_cross x) (left x) opp) opp"
  from rest_book_stops [of opp "prices_cross x" "left x"] assms(3,5,6)
  have nc: "\<not> prices_cross x (hd ?r)" by (fastforce simp: good_order_def)
  have ne: "?r \<noteq> []" using assms(6) by auto
  then have "hd ?r \<in> set ?r" by simp
  from rest_book_mem [OF this, of s] assms(3) have "priced (hd ?r)" by (auto simp: good_order_def priced_def)
  with nc assms(1,2) have "0 < prio s x + prio (other s) (hd ?r)" by (simp add: not_cross good_order_def)
  moreover have "prio (other s) (hd ?r) \<le> prio (other s) z"
    using rest_book_sorted [OF assms(4), of "prices_cross x" "left x"] assms(6) ne by (cases ?r) auto
  ultimately show ?thesis by linarith
qed

end
