(* ===== verification/TradeBook_Props.thy ===== *)
theory TradeBook_Props
  imports TradeBook "HOL-Library.Multiset"
begin

text \<open>
  The operations of the trading engine keep the invariant of the order books, for limit orders
  in whole units, and what follows from it.
\<close>

section \<open>The order table\<close>

lemma save_orders_set:
  "keys_distinct o_id rows \<Longrightarrow> distinct (map o_id ys) \<Longrightarrow>
   set (save_orders ys rows) = set ys \<union> {r \<in> set rows. o_id r \<notin> o_id ` set ys} \<and> keys_distinct o_id (save_orders ys rows)"
proof (induction ys arbitrary: rows)
  case Nil
  then show ?case by (simp add: save_orders_def)
next
  case (Cons y ys)
  have "save_orders (y # ys) rows = save_orders ys (save_row o_id y rows)" by (simp add: save_orders_def)
  moreover have "keys_distinct o_id (save_row o_id y rows)" using Cons.prems by (simp add: keys_distinct_save_row)
  ultimately show ?case using Cons.IH [of "save_row o_id y rows"] Cons.prems by (auto simp: set_save_row)
qed

lemma keys_distinct_eq: "keys_distinct o_id rows \<Longrightarrow> x \<in> set rows \<Longrightarrow> y \<in> set rows \<Longrightarrow> o_id x = o_id y \<Longrightarrow> x = y"
  by (metis option.inject row_by_distinct)

section \<open>A new order\<close>

definition good_dto :: "create_order_dto \<Rightarrow> bool" where
  "good_dto dto \<longleftrightarrow> co_type dto = LIMIT \<and> truthy (co_price dto) \<and> parse_null (co_price dto) \<noteq> None \<and> parse_null (co_price dto) \<noteq> Some 0 \<and>
     whole (co_quantity dto) \<and> 0 < units (co_quantity dto)"

lemma whole_zero: "whole ''0''" "units ''0'' = 0"
  using sample_units(1) by auto

lemma new_order_good:
  assumes "good_dto dto"
  shows "good_order ((new_order e u dto)\<lparr>o_status := O_OPEN\<rparr>)"
  using assms whole_zero by (simp add: good_dto_def new_order_def good_order_def whole_order_def left_def priced_def)

lemma taker_live:
  assumes "good_order x" and "o_status x = O_OPEN" and "total_fills fs \<le> left x" and "\<forall>(y, k) \<in> set fs. 0 < k"
  shows "is_live (fill_taker fs x) \<longleftrightarrow> total_fills fs \<noteq> left x"
proof (cases "fs = []")
  case True
  then show ?thesis using assms by (simp add: fill_taker_def is_live_def good_order_def)
next
  case False
  have "whole_order x" using assms(1) by (simp add: good_order_def)
  from fill_taker_status [OF this assms(3,4) False] show ?thesis by (simp add: is_live_def)
qed

lemma good_taker:
  assumes "good_order x" and "total_fills fs \<le> left x" and "total_fills fs \<noteq> left x"
  shows "good_order (fill_taker fs x)"
  using assms fill_taker_whole [of x fs] by (auto simp: good_order_def priced_def)

text \<open>The rows and the book after matching, when the old book holds the live rows.\<close>

lemma matched_rows:
  fixes ok :: "order \<Rightarrow> bool" and n :: nat and k :: string
  assumes rows: "keys_distinct o_id rows" "set own \<union> set opp = {r \<in> set rows. is_live r \<and> order_key r = key}"
    and own: "\<forall>y \<in> set own. o_side y = s" and opp: "\<forall>y \<in> set opp. is_live y \<and> o_side y = other s \<and> order_key y = key"
    and dist: "distinct (map o_id opp)" and t: "order_key t = key" "o_id t \<notin> o_id ` set rows"
  defines "fs \<equiv> fills ok n opp"
  defines "rows' \<equiv> set (filled_makers fs) \<union> {r \<in> insert t (set rows). o_id r \<notin> o_id ` set (filled_makers fs)}"
  shows "{r \<in> rows'. is_live r \<and> order_key r = key} = (if is_live t then insert t (set own) else set own) \<union> set (rest_book fs opp)"
    and "k \<noteq> key \<Longrightarrow> {r \<in> rows'. is_live r \<and> order_key r = k} = {r \<in> set rows. is_live r \<and> order_key r = k}"
proof -
  have oppr: "set opp \<subseteq> set rows" "set own \<subseteq> set rows" using rows(2) by auto
  have ids: "o_id ` set (filled_makers fs) = o_id ` set (take (length fs) opp)"
    using arg_cong [OF filled_makers_ids [of fs], of set] fills_prefix [of ok n opp] unfolding fs_def
    by (metis image_comp image_set list.map_comp)
  have taken: "set (take (length fs) opp) \<subseteq> set opp" by (rule set_take_subset)
  have tid: "o_id t \<notin> o_id ` set (filled_makers fs)" using t(2) oppr(1) taken unfolding ids by blast
  have mk: "order_key z = key \<and> (is_live z \<longleftrightarrow> \<not> is_filled z)" if "z \<in> set (filled_makers fs)" for z
  proof -
    from that obtain y j where y: "(y, j) \<in> set fs" "z = maker_status (take_units j y)" by (auto simp: filled_makers_def)
    then have "y \<in> set opp" using fills_mem taken unfolding fs_def by blast
    with y(2) opp show ?thesis using maker_live by auto
  qed
  have dr: "o_id r \<notin> o_id ` set (filled_makers fs)" if "r \<in> set (drop (length fs) opp)" for r
  proof -
    have "set (map o_id (take (length fs) opp)) \<inter> set (map o_id (drop (length fs) opp)) = {}"
      using dist by (metis append_take_drop_id distinct_append map_append)
    moreover have "o_id r \<in> set (map o_id (drop (length fs) opp))" using that by simp
    ultimately have "o_id r \<notin> set (map o_id (take (length fs) opp))" by blast
    then show ?thesis by (simp only: ids set_map not_False_eq_True)
  qed
  have ow: "o_id r \<notin> o_id ` set (filled_makers fs)" if "r \<in> set own" for r
  proof
    assume "o_id r \<in> o_id ` set (filled_makers fs)"
    then obtain y where y: "y \<in> set opp" "o_id r = o_id y" using taken unfolding ids by blast
    then have "r = y" using keys_distinct_eq [OF rows(1)] that oppr by blast
    moreover have "o_side r = s" "o_side y = other s" using that y own opp by blast+
    ultimately show False by (metis other_neq(1))
  qed
  have rest: "r \<in> set (drop (length fs) opp)" if "r \<in> set opp" "o_id r \<notin> o_id ` set (filled_makers fs)" for r
    using that unfolding ids by (metis Un_iff append_take_drop_id image_eqI set_append)
  show "{r \<in> rows'. is_live r \<and> order_key r = key} = (if is_live t then insert t (set own) else set own) \<union> set (rest_book fs opp)"
    (is "?L = ?R")
  proof
    show "?L \<subseteq> ?R"
    proof
      fix r
      assume r: "r \<in> ?L"
      then consider "r \<in> set (filled_makers fs)" | "r = t" | "r \<in> set rows" "o_id r \<notin> o_id ` set (filled_makers fs)"
        by (auto simp: rows'_def)
      then show "r \<in> ?R"
      proof cases
        case 1
        with r mk show ?thesis by (auto simp: rest_book_set)
      next
        case 2
        with r show ?thesis by simp
      next
        case 3
        with r rows(2) have "r \<in> set own \<or> r \<in> set opp" by blast
        with 3 rest show ?thesis by (auto simp: rest_book_set)
      qed
    qed
    have "r \<in> ?L" if "r \<in> set own" for r using that ow rows(2) by (auto simp: rows'_def)
    moreover have "r \<in> ?L" if "r \<in> set (drop (length fs) opp)" for r
      using that dr in_set_dropD [OF that] rows(2) by (auto simp: rows'_def)
    moreover have "r \<in> ?L" if "r \<in> set (filled_makers fs)" "\<not> is_filled r" for r using that mk by (auto simp: rows'_def)
    moreover have "t \<in> ?L" if "is_live t" using that t tid by (auto simp: rows'_def)
    ultimately show "?R \<subseteq> ?L" unfolding rest_book_set by (auto split: if_splits)
  qed
  assume k: "k \<noteq> key"
  have "o_id r \<notin> o_id ` set (filled_makers fs)" if "r \<in> set rows" "order_key r = k" for r
  proof
    assume "o_id r \<in> o_id ` set (filled_makers fs)"
    then obtain y where y: "y \<in> set opp" "o_id r = o_id y" using taken unfolding ids by blast
    then have "r = y" using keys_distinct_eq [OF rows(1)] that oppr by blast
    with y that opp k show False by auto
  qed
  then show "{r \<in> rows'. is_live r \<and> order_key r = k} = {r \<in> set rows. is_live r \<and> order_key r = k}"
    using k mk t by (auto simp: rows'_def)
qed

text \<open>The invariant after a new limit order in whole units.\<close>

lemma side_cases: "s' = s \<or> s' = other s"
  by (cases s; cases s') simp_all

lemma book_inv_sides:
  assumes own: "\<forall>x \<in> set (side s b). good_order x \<and> is_live x \<and> o_side x = s \<and> order_key x = k"
      "sorted (map (prio s) (side s b))" "distinct (map o_id (side s b))"
    and opp: "\<forall>x \<in> set (side (other s) b). good_order x \<and> is_live x \<and> o_side x = other s \<and> order_key x = k"
      "sorted (map (prio (other s)) (side (other s) b))" "distinct (map o_id (side (other s) b))"
    and unc: "\<forall>x \<in> set (side s b). \<forall>y \<in> set (side (other s) b). 0 < prio s x + prio (other s) y"
  shows "book_inv k b"
proof -
  have "(\<forall>x \<in> set (side s' b). good_order x \<and> is_live x \<and> o_side x = s' \<and> order_key x = k) \<and>
          sorted (map (prio s') (side s' b)) \<and> distinct (map o_id (side s' b))" for s'
    using side_cases [of s' s] own opp by auto
  moreover have "\<forall>x \<in> set (bids b). \<forall>y \<in> set (asks b). price x < price y" using unc by (simp add: uncrossed_side [of b s])
  ultimately show ?thesis by (simp add: book_inv_def)
qed

lemma book_invD:
  assumes "book_inv k b"
  shows "\<forall>x \<in> set (side s b). good_order x \<and> is_live x \<and> o_side x = s \<and> order_key x = k"
    and "sorted (map (prio s) (side s b))" and "distinct (map o_id (side s b))"
    and "\<forall>x \<in> set (side s b). \<forall>y \<in> set (side (other s) b). 0 < prio s x + prio (other s) y"
  using assms uncrossed_side [of b s] by (auto simp: book_inv_def)

lemma matched_book_inv:
  assumes inv: "book_inv key b" and x: "good_order x" "o_side x = s" "order_key x = key" "o_status x = O_OPEN"
    and fresh: "o_id x \<notin> o_id ` set (side s b)"
  defines "opp \<equiv> side (other s) b"
  defines "fs \<equiv> fills (prices_cross x) (left x) opp"
  defines "t \<equiv> fill_taker fs x"
  assumes b': "side (other s) b' = rest_book fs opp"
    "side s b' = (if is_live t then js_sort (if s = BUY then bid_cmp else ask_cmp) (side s b @ [t]) else side s b)"
  shows "book_inv key b'" and "set (side s b') = (if is_live t then insert t (set (side s b)) else set (side s b))"
proof -
  note own = book_invD [OF inv, of s] and op = book_invD [OF inv, of "other s", folded opp_def]
  have pos: "\<forall>(y, k) \<in> set fs. 0 < k" unfolding fs_def by (rule fills_pos) (use op(1) in \<open>auto simp: good_order_def\<close>)
  have tot: "total_fills fs \<le> left x" by (simp add: fs_def fills_total)
  have live: "is_live t \<longleftrightarrow> total_fills fs \<noteq> left x" unfolding t_def by (rule taker_live [OF x(1,4) tot pos])
  have tg: "good_order t" if "is_live t" using good_taker [OF x(1) tot] live that by (simp add: t_def)
  have ts: "o_side t = s" "order_key t = key" "o_id t = o_id x" "prio s t = prio s x" using x by (simp_all add: t_def)
  have pr: "\<forall>y \<in> set (side s b). priced y" using own(1) by (auto simp: good_order_def)
  have srt: "set (side s b') = insert t (set (side s b))" "sorted (map (prio s) (side s b'))" "distinct (map o_id (side s b'))"
    if "is_live t"
    using add_sort [OF pr, of t s] tg [OF that] that own(2,3) fresh ts(3) b'(2) by (auto simp: good_order_def)
  show st: "set (side s b') = (if is_live t then insert t (set (side s b)) else set (side s b))"
    using srt(1) b'(2) by simp
  have unc: "0 < prio s y + prio (other s) z" if "y \<in> set (side s b')" "z \<in> set (side (other s) b')" for y z
  proof (cases "y = t \<and> is_live t")
    case True
    have "0 < prio s x + prio (other s) z"
      by (rule rest_book_uncrossed [OF x(1,2), of opp]) (use op live True that b'(1) in \<open>auto simp: fs_def\<close>)
    with True ts show ?thesis by simp
  next
    case False
    with that(1) st have y: "y \<in> set (side s b)" by (auto split: if_splits)
    from rest_book_mem [of z "prices_cross x" "left x" opp "other s"] that(2) b'(1) obtain w where
      "w \<in> set opp" "prio (other s) z = prio (other s) w" by (auto simp: fs_def)
    with y own(4) show ?thesis by (auto simp: opp_def)
  qed
  show "book_inv key b'"
  proof (rule book_inv_sides [of s])
    show "\<forall>y \<in> set (side s b'). good_order y \<and> is_live y \<and> o_side y = s \<and> order_key y = key"
      using st own(1) tg ts by (auto split: if_splits)
    show "sorted (map (prio s) (side s b'))" "distinct (map o_id (side s b'))" using srt own(2,3) b'(2) by (cases "is_live t"; simp)+
    show "\<forall>y \<in> set (side (other s) b'). good_order y \<and> is_live y \<and> o_side y = other s \<and> order_key y = key"
      using rest_book_good [OF op(1)] b'(1) by (auto simp: fs_def)
    show "sorted (map (prio (other s)) (side (other s) b'))" using rest_book_sorted [OF op(2)] b'(1) by (simp add: fs_def)
    show "distinct (map o_id (side (other s) b'))" using rest_book_distinct [OF op(3)] b'(1) by (simp add: fs_def)
  qed (use unc in blast)
qed

lemma createOrder_inv:
  assumes inv: "te_inv st" and dto: "good_dto dto" and fresh: "row_by o_id (uuid e 0) (te_orders st) = None"
    and run: "createOrder e None u dto st = Some (Inr t, st')"
  shows "te_inv st'"
proof -
  define x where "x = (new_order e u dto)\<lparr>o_status := O_OPEN\<rparr>"
  define s where "s = o_side x"
  define key where "key = order_key x"
  define b where "b = get_book key (te_books st)"
  define opp where "opp = side (other s) b"
  define fs where "fs = fills (prices_cross x) (left x) opp"
  have x: "good_order x" "o_status x = O_OPEN" "o_id x = uuid e 0"
    using new_order_good [OF dto] by (simp_all add: x_def new_order_def)
  have kd: "keys_distinct o_id (te_orders st)"
    and bi: "book_inv k (get_book k (te_books st))"
    and br: "book_rows (get_book k (te_books st)) = {r \<in> set (te_orders st). is_live r \<and> order_key r = k}" for k
    using inv by (auto simp: te_inv_def)
  have idf: "o_id x \<notin> o_id ` set (te_orders st)"
    using fresh x(3) row_by_distinct [OF kd] by (metis image_iff option.distinct(1))
  note own = book_invD [OF bi [of key, folded b_def], of s] and op = book_invD [OF bi [of key, folded b_def], of "other s", folded opp_def]
  have rows: "set (side s b) \<union> set opp = {r \<in> set (te_orders st). is_live r \<and> order_key r = key}"
    using br [of key] by (simp add: b_def opp_def book_rows_side [of _ s])
  have oppe: "opposite (o_side x) (get_book (order_key x) (te_books st)) = opp"
    by (simp only: opp_def b_def key_def s_def opposite_side)
  have w: "whole_order x" "\<forall>y \<in> set opp. whole_order y" using x(1) op(1) by (auto simp: good_order_def)
  obtain m' where m: "matchOrder x (te_books st) = Some (fill_taker fs x, map (\<lambda>(y, k). make_trade x y (Some (of_nat k))) fs, filled_makers fs, m')"
    "\<And>k. get_book k m' = (if k = key then set_opposite s (rest_book fs opp) (get_book k (te_books st)) else get_book k (te_books st))"
    using matchOrder_get_book [of x "te_books st", unfolded oppe, folded fs_def s_def key_def] w op(3) by blast
  define t where "t = fill_taker fs x"
  define books' where "books' = (if is_live t then addToOrderBook t m' else m')"
  have st': "te_books st' = books'" "te_orders st' = save_orders (filled_makers fs) (save_row o_id t (te_orders st))"
    using run m(1) dto
    by (auto simp: createOrder_defs good_dto_def x_def [symmetric] Let_def t_def books'_def split: if_splits option.splits)
  have tk: "order_key t = key" "o_side t = s" "o_id t = o_id x" by (simp_all add: t_def key_def s_def)
  have sides: "side (other s) (get_book key books') = rest_book fs opp"
    "side s (get_book key books') = (if is_live t then js_sort (if s = BUY then bid_cmp else ask_cmp) (side s b @ [t]) else side s b)"
    "\<And>k. k \<noteq> key \<Longrightarrow> side s' (get_book k books') = side s' (get_book k (te_books st))" for s'
    by (auto simp: books'_def side_addToOrderBook m(2) side_set_opposite tk b_def)
  have frs: "o_id x \<notin> o_id ` set (side s b)" using idf rows by blast
  note mb = matched_book_inv [OF bi [of key, folded b_def] x(1) s_def [symmetric] key_def [symmetric] x(2) frs,
      folded opp_def, folded fs_def, folded t_def, OF sides(1,2)]
  have dm: "distinct (map o_id (filled_makers fs))" unfolding fs_def by (rule fills_distinct [OF op(3)])
  have ss: "set (save_row o_id t (te_orders st)) = insert t (set (te_orders st))"
  proof -
    have "o_id r \<noteq> o_id t" if "r \<in> set (te_orders st)" for r using idf that tk(3) by (metis image_eqI)
    then have "{r \<in> set (te_orders st). o_id r \<noteq> o_id t} = set (te_orders st)" by blast
    then show ?thesis by (simp only: set_save_row [OF kd])
  qed
  have rows': "set (te_orders st') = set (filled_makers fs) \<union> {r \<in> insert t (set (te_orders st)). o_id r \<notin> o_id ` set (filled_makers fs)}"
    "keys_distinct o_id (te_orders st')"
    using save_orders_set [OF keys_distinct_save_row [OF kd, of t] dm] unfolding st'(2) ss by simp_all
  note mr = matched_rows [where ok = "prices_cross x" and n = "left x" and s = s and t = t, OF kd rows, folded fs_def, folded rows'(1)]
  have "book_inv k (get_book k books') \<and> book_rows (get_book k books') = {r \<in> set (te_orders st'). is_live r \<and> order_key r = k}" for k
  proof (cases "k = key")
    case True
    have "{r \<in> set (te_orders st'). is_live r \<and> order_key r = key} = (if is_live t then insert t (set (side s b)) else set (side s b)) \<union> set (rest_book fs opp)"
      by (rule mr(1)) (use own op idf tk in auto)
    with mb sides(1) True show ?thesis by (auto simp: book_rows_side [of _ s])
  next
    case False
    then have "get_book k books' = get_book k (te_books st)"
      using sides(3) [of k BUY] sides(3) [of k SELL] by (simp add: side_def)
    moreover have "{r \<in> set (te_orders st'). is_live r \<and> order_key r = k} = {r \<in> set (te_orders st). is_live r \<and> order_key r = k}"
      by (rule mr(2)) (use own op idf tk False in auto)
    ultimately show ?thesis using bi br by simp
  qed
  then show ?thesis using rows'(2) by (simp add: te_inv_def st'(1))
qed

section \<open>Cancelling, expiring, settling, restarting\<close>

lemma end_order_inv:
  assumes inv: "te_inv st" and x: "x \<in> set (te_orders st)" "is_live x" and x': "o_id x' = o_id x" "\<not> is_live x'"
    and st': "te_books st' = removeFromOrderBook x (te_books st)" "te_orders st' = save_row o_id x' (te_orders st)"
  shows "te_inv st'"
proof -
  have kd: "keys_distinct o_id (te_orders st)"
    and bi: "book_inv k (get_book k (te_books st))"
    and br: "book_rows (get_book k (te_books st)) = {r \<in> set (te_orders st). is_live r \<and> order_key r = k}" for k
    using inv by (auto simp: te_inv_def)
  let ?b = "\<lambda>k. get_book k (te_books st)" and ?b' = "\<lambda>k. get_book k (te_books st')"
  have eq: "r = x" if "r \<in> set (te_orders st)" "o_id r = o_id x" for r using keys_distinct_eq [OF kd] that x(1) by blast
  have inb: "r \<in> set (te_orders st) \<and> o_side r = s \<and> order_key r = k" if "r \<in> set (side s (?b k))" for r s k
    using that book_invD(1) [OF bi] br [of k] by (auto simp: book_rows_side [of _ s])
  have side': "side s (?b' k) = filter (\<lambda>r. o_id r \<noteq> o_id x) (side s (?b k))" for s k
  proof (cases "k = order_key x \<and> s = o_side x")
    case True
    then show ?thesis by (simp add: st'(1) side_removeFromOrderBook)
  next
    case False
    then have "o_id r \<noteq> o_id x" if "r \<in> set (side s (?b k))" for r using inb [OF that] eq by blast
    then have "filter (\<lambda>r. o_id r \<noteq> o_id x) (side s (?b k)) = side s (?b k)" by simp
    moreover have "side s (?b' k) = side s (?b k)" using False by (auto simp: st'(1) side_removeFromOrderBook)
    ultimately show ?thesis by simp
  qed
  have rows': "set (te_orders st') = insert x' {r \<in> set (te_orders st). o_id r \<noteq> o_id x}"
    unfolding st'(2) set_save_row [OF kd] x'(1) ..
  have "book_inv k (?b' k)" for k
    by (rule book_inv_sides [of BUY]) (use book_invD [OF bi [of k], of BUY] book_invD(1-3) [OF bi [of k], of SELL]
        in \<open>auto simp: side' distinct_map_filter intro: sorted_filter\<close>)
  moreover have "book_rows (?b' k) = {r \<in> set (te_orders st'). is_live r \<and> order_key r = k}" for k
  proof -
    have "book_rows (?b' k) = {r \<in> book_rows (?b k). o_id r \<noteq> o_id x}"
      by (auto simp: book_rows_side [of _ BUY] side')
    then show ?thesis using br [of k] x'(2) unfolding rows' by auto
  qed
  moreover have "keys_distinct o_id (te_orders st')" unfolding st'(2) by (rule keys_distinct_save_row [OF kd])
  ultimately show ?thesis by (simp add: te_inv_def)
qed

lemma cancelOrder_inv:
  assumes "te_inv st" and "cancelOrder i u st = Inr (x, st')"
  shows "te_inv st'"
proof -
  from assms(2) obtain y where y: "row_by o_id i (te_orders st) = Some y" "is_live y"
    "te_books st' = removeFromOrderBook y (te_books st)" "te_orders st' = save_row o_id (y\<lparr>o_status := O_CANCELLED\<rparr>) (te_orders st)"
    by (auto simp: cancelOrder_def getOrderById_def Let_def rbind_def split: option.splits if_splits)
  show ?thesis
    by (rule end_order_inv [OF assms(1) _ y(2) _ _ y(3,4)]) (use row_by_SomeD [OF y(1)] in \<open>auto simp: is_live_def\<close>)
qed

lemma expire_order_inv:
  assumes "te_inv st" and "x \<in> set (te_orders st)" and "is_live x"
  shows "te_inv (expire_order x st)"
  by (rule end_order_inv [OF assms, of "x\<lparr>o_status := O_EXPIRED\<rparr>"]) (auto simp: expire_order_def Let_def is_live_def)

lemma expire_fold_inv:
  assumes "te_inv st" and "distinct (map o_id xs)" and "\<forall>x \<in> set xs. x \<in> set (te_orders st) \<and> is_live x"
  shows "te_inv (foldl (\<lambda>st x. expire_order x st) st xs)"
  using assms
proof (induction xs arbitrary: st)
  case Nil
  then show ?case by simp
next
  case (Cons x xs)
  have inv: "te_inv (expire_order x st)" using Cons.prems by (intro expire_order_inv) auto
  have "set (te_orders (expire_order x st)) = insert (x\<lparr>o_status := O_EXPIRED\<rparr>) {r \<in> set (te_orders st). o_id r \<noteq> o_id x}"
    using Cons.prems(1) by (simp add: expire_order_def Let_def te_inv_def set_save_row)
  moreover have "o_id x \<notin> o_id ` set xs" using Cons.prems(2) by simp
  then have "o_id y \<noteq> o_id x" if "y \<in> set xs" for y using that by (metis image_eqI)
  ultimately have "\<forall>y \<in> set xs. y \<in> set (te_orders (expire_order x st)) \<and> is_live y" using Cons.prems(3) by auto
  with Cons.IH [OF inv] Cons.prems(2) show ?case by simp
qed

lemma cleanupExpiredOrders_inv:
  assumes "te_inv st"
  shows "te_inv (cleanupExpiredOrders t st)"
  unfolding cleanupExpiredOrders_def
  by (rule expire_fold_inv [OF assms]) (use assms in \<open>auto simp: te_inv_def keys_distinct_def distinct_map_filter\<close>)

lemma settleTrade_frame:
  "settleTrade settle e i st = Inr (t, st') \<Longrightarrow> te_books st' = te_books st \<and> te_orders st' = te_orders st"
  by (auto simp: settleTrade_def rbind_def Let_def split: option.splits if_splits sum.splits)

text \<open>Rebuilding the books from any order of the rows gives sorted sides with the same orders.\<close>

lemma rebuild_sides:
  assumes "\<forall>x \<in> set xs. priced x" and "distinct (map o_id xs)"
  shows "let b = get_book k (foldl (\<lambda>m x. addToOrderBook x m) [] xs) in
    sorted (map (prio s) (side s b)) \<and> distinct (map o_id (side s b)) \<and>
    set (side s b) = {x \<in> set xs. order_key x = k \<and> o_side x = s}"
  using assms
proof (induction xs rule: rev_induct)
  case Nil
  show ?case by (simp add: get_book_def side_def)
next
  case (snoc x xs)
  define m where "m = foldl (\<lambda>m x. addToOrderBook x m) [] xs"
  have IH: "sorted (map (prio s) (side s (get_book k m)))" "distinct (map o_id (side s (get_book k m)))"
    "set (side s (get_book k m)) = {x \<in> set xs. order_key x = k \<and> o_side x = s}"
    using snoc by (auto simp: m_def Let_def)
  have f: "foldl (\<lambda>m x. addToOrderBook x m) [] (xs @ [x]) = addToOrderBook x m" by (simp add: m_def)
  show ?case
  proof (cases "k = order_key x \<and> s = o_side x")
    case False
    then have sd: "side s (get_book k (addToOrderBook x m)) = side s (get_book k m)" by (simp only: side_addToOrderBook if_False)
    have "{y \<in> set (xs @ [x]). order_key y = k \<and> o_side y = s} = {y \<in> set xs. order_key y = k \<and> o_side y = s}"
      using False by auto
    then show ?thesis unfolding f Let_def sd using IH by simp
  next
    case True
    have pr: "\<forall>y \<in> set (side s (get_book k m)). priced y" "priced x" using snoc.prems(1) IH(3) by simp_all
    have "o_id x \<notin> o_id ` set xs" using snoc.prems(2) by simp
    moreover have "set (side s (get_book k m)) \<subseteq> set xs" using IH(3) by blast
    ultimately have id: "o_id x \<notin> o_id ` set (side s (get_book k m))" by (meson image_mono subsetD)
    have sd: "side s (get_book k (addToOrderBook x m)) = js_sort (if s = BUY then bid_cmp else ask_cmp) (side s (get_book k m) @ [x])"
      using True by (simp add: side_addToOrderBook)
    note a = add_sort [OF pr IH(1), folded sd]
    have "set (side s (get_book k (addToOrderBook x m))) = {y \<in> set (xs @ [x]). order_key y = k \<and> o_side y = s}"
      unfolding a(2) IH(3) using True by auto
    with a(1) a(3) [OF IH(2) id] show ?thesis unfolding f Let_def by blast
  qed
qed

lemma te_inv_good: "te_inv st \<Longrightarrow> x \<in> set (te_orders st) \<Longrightarrow> is_live x \<Longrightarrow> good_order x \<and> x \<in> set (side (o_side x) (get_book (order_key x) (te_books st)))"
proof -
  assume a: "te_inv st" "x \<in> set (te_orders st)" "is_live x"
  let ?b = "get_book (order_key x) (te_books st)"
  from a have m: "x \<in> set (side BUY ?b) \<union> set (side SELL ?b)" and bi: "book_inv (order_key x) ?b"
    unfolding te_inv_def by (simp_all add: book_rows_side [of _ BUY])
  then obtain s where s: "x \<in> set (side s ?b)" by blast
  with book_invD(1) [OF bi, of s] have "good_order x" "o_side x = s" by blast+
  with s show ?thesis by simp
qed

lemma restart_sides:
  assumes "te_inv st" and "set rows = set (te_orders st)" and "distinct (map o_id rows)"
  defines "b' \<equiv> \<lambda>k. get_book k (initializeOrderBooks rows)"
  shows "sorted (map (prio s) (side s (b' k)))" and "distinct (map o_id (side s (b' k)))"
    and "set (side s (b' k)) = set (side s (get_book k (te_books st)))"
proof -
  have "\<forall>x \<in> set (filter is_live rows). priced x" using te_inv_good [OF assms(1)] assms(2) by (auto simp: good_order_def)
  moreover have "distinct (map o_id (filter is_live rows))" using assms(3) by (simp add: distinct_map_filter)
  ultimately have r: "sorted (map (prio s) (side s (b' k)))" "distinct (map o_id (side s (b' k)))"
    "set (side s (b' k)) = {x \<in> set (filter is_live rows). order_key x = k \<and> o_side x = s}"
    using rebuild_sides [of "filter is_live rows" k s] by (auto simp: b'_def initializeOrderBooks_def Let_def)
  show "sorted (map (prio s) (side s (b' k)))" "distinct (map o_id (side s (b' k)))" by (fact r(1), fact r(2))
  let ?b = "get_book k (te_books st)"
  have bi: "book_inv k ?b" and br: "book_rows ?b = {x \<in> set (te_orders st). is_live x \<and> order_key x = k}"
    using assms(1) by (auto simp: te_inv_def)
  have "o_side x = s" if "x \<in> set (side s ?b)" for x using book_invD(1) [OF bi, of s] that by blast
  moreover have "o_side x \<noteq> s" if "x \<in> set (side (other s) ?b)" for x
    using book_invD(1) [OF bi, of "other s"] that other_neq(1) by metis
  ultimately have "set (side s ?b) = {x \<in> book_rows ?b. o_side x = s}" unfolding book_rows_side [of _ s] by blast
  then show "set (side s (b' k)) = set (side s ?b)" unfolding r(3) br assms(2) [symmetric] by auto
qed

lemma restart_inv:
  assumes "te_inv st" and "set rows = set (te_orders st)" and "distinct (map o_id rows)"
  shows "te_inv (st\<lparr>te_books := initializeOrderBooks rows\<rparr>)"
proof -
  note r = restart_sides [OF assms]
  have bi: "book_inv k (get_book k (te_books st))" for k using assms(1) by (simp add: te_inv_def)
  have "book_inv k (get_book k (initializeOrderBooks rows))" for k
    by (rule book_inv_sides [of BUY]) (use book_invD [OF bi [of k], of BUY] book_invD(1-3) [OF bi [of k], of SELL] r in auto)
  moreover have "book_rows (get_book k (initializeOrderBooks rows)) = book_rows (get_book k (te_books st))" for k
    by (simp add: book_rows_side [of _ BUY] r(3))
  ultimately show ?thesis using assms(1) by (simp add: te_inv_def)
qed

section \<open>Reachable states\<close>

text \<open>
  Operations that run one after the other and complete: new limit orders in whole units at a price
  other than 0, with a fresh identifier and a transaction that commits, cancellations, the expiry
  job, settlements, and a restart of the process, which reads the rows back in some order.
\<close>

inductive te_step :: "te_state \<Rightarrow> te_state \<Rightarrow> bool" where
  te_create: "good_dto dto \<Longrightarrow> row_by o_id (uuid e 0) (te_orders st) = None \<Longrightarrow>
    createOrder e None u dto st = Some (Inr x, st') \<Longrightarrow> te_step st st'"
| te_cancel: "cancelOrder i u st = Inr (x, st') \<Longrightarrow> te_step st st'"
| te_cleanup: "te_step st (cleanupExpiredOrders t st)"
| te_settle: "settleTrade settle e i st = Inr (t, st') \<Longrightarrow> te_step st st'"
| te_restart: "set rows = set (te_orders st) \<Longrightarrow> distinct (map o_id rows) \<Longrightarrow>
    te_step st (st\<lparr>te_books := initializeOrderBooks rows\<rparr>)"

inductive te_reachable :: "te_state \<Rightarrow> bool" where
  te_start: "te_reachable \<lparr>te_books = [], te_orders = [], te_trades = [], te_audits = []\<rparr>"
| te_next: "te_reachable st \<Longrightarrow> te_step st st' \<Longrightarrow> te_reachable st'"

lemma te_step_inv: "te_step st st' \<Longrightarrow> te_inv st \<Longrightarrow> te_inv st'"
proof (induction rule: te_step.induct)
  case (te_settle settle e i st t st')
  then show ?case using settleTrade_frame [of settle e i st t st'] by (simp add: te_inv_def)
qed (auto intro: createOrder_inv cancelOrder_inv cleanupExpiredOrders_inv restart_inv)

lemma te_reachable_inv: "te_reachable st \<Longrightarrow> te_inv st"
proof (induction rule: te_reachable.induct)
  case te_start
  show ?case by (simp add: te_inv_def keys_distinct_def get_book_def book_inv_def side_def book_rows_def)
next
  case (te_next st st')
  then show ?case using te_step_inv by blast
qed

lemma matchOrder_returns:
  assumes inv: "te_inv st" and x: "good_order x"
  shows "\<exists>t ts ys m'. matchOrder x (te_books st) = Some (t, ts, ys, m')"
proof -
  have "book_inv (order_key x) (get_book (order_key x) (te_books st))" using inv by (simp add: te_inv_def)
  note op = book_invD [OF this, of "other (o_side x)", folded opposite_side]
  have "whole_order x" using x by (simp add: good_order_def)
  moreover have "\<forall>y \<in> set (opposite (o_side x) (get_book (order_key x) (te_books st))). whole_order y"
    using op(1) unfolding good_order_def by blast
  ultimately show ?thesis using matchOrder_get_book op(3) by blast
qed

lemma createOrder_returns:
  fixes u :: string
  assumes inv: "te_inv st" and dto: "good_dto dto" and exp: "case co_expiresAt dto of None \<Rightarrow> True | Some t \<Rightarrow> now e \<le> t"
  defines "x \<equiv> (new_order e u dto)\<lparr>o_status := O_OPEN\<rparr>"
  shows "\<exists>y st'. createOrder e None u dto st = Some (Inr y, st')"
    and "\<exists>m'. createOrder e (Some msg) u dto st =
      Some (Inl (PlainError msg), st\<lparr>te_orders := save_row o_id x (te_orders st), te_books := m'\<rparr>)"
proof -
  have "good_order x" using new_order_good [OF dto] by (simp add: x_def)
  from matchOrder_returns [OF inv this] obtain t ts ys m' where r: "matchOrder x (te_books st) = Some (t, ts, ys, m')" by blast
  have g: "co_type dto = LIMIT" "truthy (co_price dto)" using dto by (simp_all add: good_dto_def)
  have e: "\<not> (case co_expiresAt dto of None \<Rightarrow> False | Some t \<Rightarrow> t < now e)" using exp by (auto split: option.splits)
  show "\<exists>y st'. createOrder e None u dto st = Some (Inr y, st')" "\<exists>m'. createOrder e (Some msg) u dto st =
      Some (Inl (PlainError msg), st\<lparr>te_orders := save_row o_id x (te_orders st), te_books := m'\<rparr>)"
    unfolding createOrder_defs Let_def x_def [symmetric] using g e r by (simp, simp, blast)
qed

lemma sorted_distinct_set_unique_map:
  fixes f :: "'a \<Rightarrow> 'b :: linorder"
  assumes "sorted (map f xs)" and "sorted (map f ys)" and "set xs = set ys" and "distinct (map g xs)" and "distinct (map g ys)"
  shows "map f xs = map f ys"
proof -
  have "distinct xs" "distinct ys" using assms(4,5) by (simp_all add: distinct_map)
  with assms(3) have "mset xs = mset ys" by (simp add: set_eq_iff_mset_eq_distinct)
  then have "mset (map f xs) = mset (map f ys)" by simp
  with assms(1,2) show ?thesis by (metis properties_for_sort)
qed

section \<open>Properties\<close>


definition sample_dto :: "order_side \<Rightarrow> string \<Rightarrow> string \<Rightarrow> create_order_dto" where
  "sample_dto s q p = \<lparr>co_side = s, co_type = LIMIT, co_assetCode = ''XLM'', co_assetIssuer = None, co_quantity = q,
     co_price = Some p, co_expiresAt = None, co_metadata = None\<rparr>"

definition te_env :: "string \<Rightarrow> env" where
  "te_env i = \<lparr>now = 0, uuid = (\<lambda>n. i), keypair = []\<rparr>"

definition te_empty :: te_state where
  "te_empty = \<lparr>te_books = [], te_orders = [], te_trades = [], te_audits = []\<rparr>"

lemma sample_dto_good: "good_dto (sample_dto s ''10'' ''100'')" "good_dto (sample_dto s ''4'' ''100'')"
  using sample_units by (simp_all add: good_dto_def sample_dto_def truthy_def parse_null_def parse_100)

definition te_resting :: te_state where
  "te_resting = te_empty\<lparr>te_books := [(''XLM'', \<lparr>bids = [], asks = [sample_order ''a'' SELL ''10'' ''100'']\<rparr>)],
     te_orders := [sample_order ''a'' SELL ''10'' ''100''],
     te_audits := [\<lparr>at_entityId = ''a'', at_entityType = ''order'', at_action = ORDER_CREATED, at_actorId = ''ua'',
       at_previousState = Snap_Order ((sample_order ''a'' SELL ''10'' ''100'')\<lparr>o_status := O_PENDING\<rparr>),
       at_newState = Snap_Order (sample_order ''a'' SELL ''10'' ''100''), at_metadata = None\<rparr>]\<rparr>"

lemma te_resting_create:
  "createOrder (te_env ''a'') None ''ua'' (sample_dto SELL ''10'' ''100'') te_empty =
     Some (Inr (sample_order ''a'' SELL ''10'' ''100''), te_resting)"
  by (simp add: createOrder_defs sample_dto_def te_env_def te_empty_def new_order_def truthy_def matchOrder_def Let_def
      te_resting_def sample_order_def save_orders_def save_trades_def is_live_def addToOrderBook_def getAssetKey_def get_book_def js_sort_def)

lemma te_resting_reachable: "te_reachable te_resting"
proof -
  have "te_step te_empty te_resting"
    by (rule te_create [OF sample_dto_good(1) _ te_resting_create]) (simp add: te_empty_def te_env_def)
  with te_start show ?thesis unfolding te_empty_def [symmetric] by (rule te_next)
qed






text \<open>
  When the transaction of an accepted order fails, the caller gets the error and the order
  is in no book, but its row stays open with nothing filled: the next restart puts the refused
  order into the book.
\<close>

theorem failed_commit_returns_after_restart:
  assumes "te_reachable st" and "good_dto dto" and "case co_expiresAt dto of None \<Rightarrow> True | Some t \<Rightarrow> now e \<le> t"
    and "row_by o_id (uuid e 0) (te_orders st) = None"
  shows "\<exists>st' x. createOrder e (Some msg) u dto st = Some (Inl (PlainError msg), st') \<and>
    getOrderById (uuid e 0) st' = Inr x \<and> o_status x = O_OPEN \<and> o_filledQuantity x = ''0'' \<and>
    x \<in> set (side (co_side dto) (get_book (order_key x) (initializeOrderBooks (te_orders st'))))"
proof -
  note inv = te_reachable_inv [OF assms(1)]
  define x where "x = (new_order e u dto)\<lparr>o_status := O_OPEN\<rparr>"
  obtain m' where c: "createOrder e (Some msg) u dto st =
      Some (Inl (PlainError msg), st\<lparr>te_orders := save_row o_id x (te_orders st), te_books := m'\<rparr>)"
    using createOrder_returns(2) [OF inv assms(2,3)] unfolding x_def by blast
  have x: "good_order x" "is_live x" "o_id x = uuid e 0" "o_side x = co_side dto" "o_status x = O_OPEN" "o_filledQuantity x = ''0''"
    using new_order_good [OF assms(2)] by (simp_all add: x_def new_order_def is_live_def)
  have kd: "keys_distinct o_id (te_orders st)" using inv by (simp add: te_inv_def)
  let ?rows = "save_row o_id x (te_orders st)"
  have rows: "set ?rows \<subseteq> insert x (set (te_orders st))" "x \<in> set ?rows" "distinct (map o_id ?rows)"
    using set_save_row_subset [of o_id x] row_by_SomeD [of o_id "o_id x" ?rows x] keys_distinct_save_row [OF kd, of x]
    by (auto simp: row_by_save_row keys_distinct_def)
  have "\<forall>r \<in> set (filter is_live ?rows). priced r" using rows(1) te_inv_good [OF inv] x(1) by (auto simp: good_order_def)
  moreover have "distinct (map o_id (filter is_live ?rows))" using rows(3) by (simp add: distinct_map_filter)
  ultimately have "set (side (co_side dto) (get_book (order_key x) (initializeOrderBooks ?rows))) =
      {r \<in> set (filter is_live ?rows). order_key r = order_key x \<and> o_side r = co_side dto}"
    using rebuild_sides [of "filter is_live ?rows" "order_key x" "co_side dto"] by (simp add: initializeOrderBooks_def Let_def)
  then have "x \<in> set (side (co_side dto) (get_book (order_key x) (initializeOrderBooks ?rows)))" using rows(2) x by simp
  moreover have "getOrderById (uuid e 0) (st\<lparr>te_orders := ?rows, te_books := m'\<rparr>) = Inr x"
    using x(3) by (simp add: getOrderById_def row_by_save_row)
  ultimately show ?thesis using c x(5,6) by auto
qed

theorem failed_commit_returns_after_restart_witness:
  "\<exists>st' x. createOrder (te_env ''t'') (Some ''db gone'') ''ut'' (sample_dto BUY ''4'' ''100'') te_resting =
     Some (Inl (PlainError ''db gone''), st') \<and> getOrderById ''t'' st' = Inr x \<and> o_status x = O_OPEN"
proof -
  have e: "uuid (te_env ''t'') 0 = ''t''" by (simp add: te_env_def)
  have "\<exists>st' x. createOrder (te_env ''t'') (Some ''db gone'') ''ut'' (sample_dto BUY ''4'' ''100'') te_resting =
      Some (Inl (PlainError ''db gone''), st') \<and> getOrderById (uuid (te_env ''t'') 0) st' = Inr x \<and> o_status x = O_OPEN \<and>
      o_filledQuantity x = ''0'' \<and> x \<in> set (side (co_side (sample_dto BUY ''4'' ''100'')) (get_book (order_key x) (initializeOrderBooks (te_orders st'))))"
    by (rule failed_commit_returns_after_restart [OF te_resting_reachable sample_dto_good(2)])
      (simp_all add: sample_dto_def te_env_def te_resting_def sample_order_def)
  then show ?thesis unfolding e by blast
qed

text \<open>
  Two orders that overlap: when each is matched before the other has entered the book, both rest in it and the book is
  crossed; nothing matches them later.
\<close>

theorem overlapping_orders_cross:
  assumes "map_of (te_books st) (getAssetKey code issuer) = None"
    and "co_side d1 = BUY" "co_assetCode d1 = code" "co_assetIssuer d1 = issuer" and "co_side d2 = SELL" "co_assetCode d2 = code" "co_assetIssuer d2 = issuer"
  shows "\<exists>m1 st1 m2 st2. createOrder_match e1 u1 d1 st = Some (m1, st1) \<and> createOrder_match e2 u2 d2 st1 = Some (m2, st2) \<and>
    (let b = get_book (getAssetKey code issuer) (te_books (snd (createOrder_commit e2 None u2 d2 m2 (snd (createOrder_commit e1 None u1 d1 m1 st2)))))
     in map o_price (bids b) = [co_price d1] \<and> map o_price (asks b) = [co_price d2])"
  using assms by (simp add: createOrder_match_def createOrder_commit_def matchOrder_def new_order_def is_live_def addToOrderBook_def get_book_def js_sort_def Let_def)

theorem overlapping_orders_cross_witness:
  "\<exists>m1 st1 m2 st2. createOrder_match (te_env ''a'') ''ua'' (sample_dto BUY ''10'' ''100'') te_empty = Some (m1, st1) \<and>
    createOrder_match (te_env ''b'') ''ub'' (sample_dto SELL ''10'' ''100'') st1 = Some (m2, st2) \<and>
    (let b = get_book ''XLM'' (te_books (snd (createOrder_commit (te_env ''b'') None ''ub'' (sample_dto SELL ''10'' ''100'') m2
       (snd (createOrder_commit (te_env ''a'') None ''ua'' (sample_dto BUY ''10'' ''100'') m1 st2)))))
     in map o_price (bids b) = [Some ''100''] \<and> map o_price (asks b) = [Some ''100''])"
  using overlapping_orders_cross [of te_empty "''XLM''" None "sample_dto BUY ''10'' ''100''" "sample_dto SELL ''10'' ''100''" "te_env ''a''" "''ua''" "te_env ''b''" "''ub''"]
  by (simp add: te_empty_def sample_dto_def getAssetKey_def truthy_def)

text \<open>
  A resting order that is filled in part keeps its status: only the new order is ever
  marked as partially filled.
\<close>

theorem maker_never_partially_filled:
  assumes "map_of m (order_key x) = Some b" and "whole_order x"
    and "list_all (\<lambda>y. whole_order y \<and> 0 < left y \<and> o_status y = O_OPEN) (opposite (o_side x) b)"
    and "distinct (map o_id (opposite (o_side x) b))"
    and "matchOrder x m = Some (x', trades, touched, m')" and "y \<in> set touched"
  shows "o_status y = (if left y = 0 then O_FILLED else O_OPEN) \<and> 0 < units (o_filledQuantity y)"
proof -
  let ?opp = "opposite (o_side x) b" let ?fs = "fills (prices_cross x) (left x) ?opp"
  have opp: "\<forall>y \<in> set ?opp. whole_order y \<and> 0 < left y \<and> o_status y = O_OPEN" using assms(3) by (simp add: list_all_iff)
  have "touched = filled_makers ?fs" using matchOrder_fills [OF assms(1,2) _ assms(4)] opp assms(5) by (auto simp: Let_def)
  with assms(6) obtain z k where z: "(z, k) \<in> set ?fs" "y = maker_status (take_units k z)" by (auto simp: filled_makers_def)
  then have zo: "z \<in> set ?opp" using fills_mem in_set_takeD by fastforce
  have k: "k \<le> left z" using fills_ok z(1) by blast
  moreover have "0 < k" using fills_pos [of ?opp "prices_cross x" "left x"] opp z(1) by fastforce
  ultimately show ?thesis using whole_maker [OF _ k] zo opp z(2) is_filled_whole [of y]
    by (auto simp: maker_status_def is_filled_def)
qed

theorem maker_never_partially_filled_witness:
  "\<exists>x' ts ys m. matchOrder (sample_order ''t'' BUY ''6'' ''100'') sample_book = Some (x', ts, ys, m) \<and>
     (\<forall>y \<in> set ys. o_status y = (if left y = 0 then O_FILLED else O_OPEN))"
proof -
  let ?x = "sample_order ''t'' BUY ''6'' ''100''"
  let ?b = "\<lparr>bids = [], asks = [sample_order ''a'' SELL ''4'' ''100'', sample_order ''b'' SELL ''10'' ''100'']\<rparr>"
  have b: "map_of sample_book (order_key ?x) = Some ?b" "opposite (o_side ?x) ?b = asks ?b"
    by (simp_all add: sample_order_def getAssetKey_def truthy_def sample_book_def opposite_def)
  have w: "list_all (\<lambda>y. whole_order y \<and> 0 < left y \<and> o_status y = O_OPEN) (opposite (o_side ?x) ?b)"
    "distinct (map o_id (opposite (o_side ?x) ?b))"
    using b sample_whole by (simp_all add: sample_order_def)
  have x: "whole_order ?x" using sample_whole by blast
  obtain x' ts ys m where r: "matchOrder ?x sample_book = Some (x', ts, ys, m)"
    using matchOrder_fills [OF b(1) x] w by (auto simp: list_all_iff Let_def)
  from maker_never_partially_filled [OF b(1) x w r] r show ?thesis by auto
qed

text \<open>
  A market order that is not filled rests in the book without a price; a limit order that
  finds it at the head of the other side trades with nobody, whatever waits behind it.
\<close>

theorem resting_market_order_blocks:
  assumes "map_of m (order_key x) = Some b" and "o_type x = LIMIT" and "opposite (o_side x) b = y # ys"
    and "\<not> truthy (o_price y)"
  shows "matchOrder x m = Some (x, [], [], map_set (order_key x) b m)"
proof -
  have "\<not> prices_cross x y" using assms(2,4) by (simp add: prices_cross_def)
  then have "match_loop x (remaining_quantity x) (y # ys) [] [] =
      Some \<lparr>mr_order = x, mr_opposite = y # ys, mr_trades = [], mr_touched = []\<rparr>"
    by (subst match_loop.simps) simp
  moreover have "set_opposite (o_side x) (y # ys) b = b" unfolding assms(3) [symmetric] by (simp add: set_opposite_def opposite_def)
  ultimately show ?thesis using assms(1,3) by (simp add: matchOrder_def)
qed

theorem resting_market_order_blocks_witness:
  "let y = (sample_order ''m'' SELL ''10'' [])\<lparr>o_type := MARKET, o_price := None\<rparr>;
       b = \<lparr>bids = [], asks = [y, sample_order ''a'' SELL ''10'' ''100'']\<rparr>
   in map_option (\<lambda>(x, ts, r). ts) (matchOrder (sample_order ''t'' BUY ''6'' ''100'') [(''XLM'', b)]) = Some []"
proof -
  let ?y = "(sample_order ''m'' SELL ''10'' [])\<lparr>o_type := MARKET, o_price := None\<rparr>"
  let ?b = "\<lparr>bids = [], asks = [?y, sample_order ''a'' SELL ''10'' ''100'']\<rparr>"
  let ?x = "sample_order ''t'' BUY ''6'' ''100''"
  have "map_of [(''XLM'', ?b)] (order_key ?x) = Some ?b" "o_type ?x = LIMIT" "\<not> truthy (o_price ?y)"
    "opposite (o_side ?x) ?b = [?y, sample_order ''a'' SELL ''10'' ''100'']"
    by (simp_all add: sample_order_def getAssetKey_def truthy_def opposite_def)
  from resting_market_order_blocks [OF this(1,2,4,3)] show ?thesis by (simp add: Let_def)
qed

end
