(* ===== verification/Wallet.thy ===== *)
theory Wallet
  imports JsDate
begin

text \<open>
  Wallets (\<^verbatim>\<open>src/src/modules/wallet/wallet.service.ts\<close> and the verification of step-up
  tokens in \<^verbatim>\<open>auth/step-up-token.service.ts\<close>): creation, the primary wallet, updates,
  balance synchronisation and custodial signing with its policy. The Stellar SDK, the cipher and
  the token library are the records \<open>sdk\<close> and \<open>cipher\<close> and the argument \<open>jwt\<close>.
\<close>

section \<open>Data\<close>

datatype wallet_status = W_ACTIVE | W_INACTIVE | W_LOCKED

fun wallet_status_str :: "wallet_status \<Rightarrow> string" where
  "wallet_status_str W_ACTIVE = ''active''"
| "wallet_status_str W_INACTIVE = ''inactive''"
| "wallet_status_str W_LOCKED = ''locked''"

record wallet =
  wa_id :: string
  wa_userId :: string
  wa_publicKey :: string
  wa_encryptedSecretKey :: string
  wa_label :: "string option"
  wa_status :: wallet_status
  wa_isPrimary :: bool
  wa_cachedBalance :: string
  wa_balanceSyncedAt :: "int option"
  wa_multisigThreshold :: "int option"
  wa_cosigners :: "string list option"
  wa_createdAt :: int

record create_wallet_dto =
  cw_label :: "string option"
  cw_isPrimary :: "bool option"

record update_wallet_dto =
  uw_label :: "string option"
  uw_status :: "wallet_status option"
  uw_isPrimary :: "bool option"

record multisig_config_dto =
  mc_threshold :: int
  mc_cosigners :: "string list"

text \<open>An operation of a transaction, as far as the services read it.\<close>

datatype op_asset = AssetName string | AssetCode "string option" "string option"

record described_operation =
  op_type :: "string option"
  op_amount :: "string option"
  op_destination :: "string option"
  op_asset :: "op_asset option"

record classic_tx =
  ct_source :: string
  ct_operations :: "described_operation list"
  ct_maxTime :: "string option"
  ct_hash :: string

text \<open>A fee-bump envelope is rejected wherever its content would matter; only its hash is kept.\<close>

datatype parsed_tx = FeeBump string | Classic classic_tx

text \<open>
  The Stellar SDK: \<open>fromXDR\<close> on an envelope and a network passphrase (\<open>None\<close> when it throws),
  the public key of a secret key, the decorated signature of a hash, the verification of such
  a signature (false when the input is malformed), and the signed envelopes.
\<close>

record sdk =
  fromXDR :: "string \<Rightarrow> string \<Rightarrow> parsed_tx option"
  publicKeyOf :: "string \<Rightarrow> string"
  secretOf :: "string \<Rightarrow> string"
  signDecorated :: "string \<Rightarrow> string \<Rightarrow> string"
  verifySig :: "string \<Rightarrow> string \<Rightarrow> string \<Rightarrow> bool"
  signEnvelope :: "string \<Rightarrow> string \<Rightarrow> string"
  attachSignatures :: "string \<Rightarrow> string list \<Rightarrow> string"

text \<open>The cipher: the hexadecimal initialisation vector of the next call, tag and ciphertext, and opening.\<close>

record cipher =
  ci_iv :: string
  ci_tag :: "string \<Rightarrow> string \<Rightarrow> string"
  ci_seal :: "string \<Rightarrow> string \<Rightarrow> string"
  ci_open :: "string \<Rightarrow> string \<Rightarrow> string \<Rightarrow> string result"

record audit_record =
  au_action :: string
  au_userId :: string
  au_userRole :: "string option"
  au_resourceId :: string
  au_transactionHash :: string
  au_operations :: "described_operation list"

datatype allowed_config = ConfigList "string list" | ConfigString string | ConfigMissing

record wallet_config =
  wc_passphrase :: "string option"
  wc_allowedOperations :: allowed_config

record wallet_db =
  wdb_wallets :: "wallet list"
  wdb_audit :: "audit_record list"

section \<open>Key encryption\<close>

definition encrypt :: "cipher \<Rightarrow> string \<Rightarrow> string" where
  "encrypt c plaintext = ci_iv c @ '':'' @ ci_tag c (ci_iv c) plaintext @ '':'' @ ci_seal c (ci_iv c) plaintext"

definition decrypt :: "cipher \<Rightarrow> string \<Rightarrow> string result" where
  "decrypt c ciphertext = (case split_on (CHR '':'') ciphertext of
     iv # tag # enc # _ \<Rightarrow>
       if iv = [] \<or> tag = [] \<or> enc = [] then Inl (BadRequest ''Invalid encrypted key format'') else ci_open c iv tag enc
   | _ \<Rightarrow> Inl (BadRequest ''Invalid encrypted key format''))"

section \<open>Wallet operations\<close>

abbreviation save_wallet :: "wallet \<Rightarrow> wallet_db \<Rightarrow> wallet_db" where
  "save_wallet w db \<equiv> db\<lparr>wdb_wallets := save_row wa_id w (wdb_wallets db)\<rparr>"

definition unset_primary :: "string \<Rightarrow> wallet_db \<Rightarrow> wallet_db" where
  "unset_primary userId db = db\<lparr>wdb_wallets :=
     map (\<lambda>w. if wa_userId w = userId \<and> wa_isPrimary w then w\<lparr>wa_isPrimary := False\<rparr> else w) (wdb_wallets db)\<rparr>"

definition wallet_create :: "sdk \<Rightarrow> cipher \<Rightarrow> env \<Rightarrow> string \<Rightarrow> create_wallet_dto \<Rightarrow> wallet_db \<Rightarrow> wallet \<times> wallet_db" where
  "wallet_create s c e userId dto db =
     (let encryptedSecretKey = encrypt c (secretOf s (keypair e));
          existingCount = length (filter (\<lambda>w. wa_userId w = userId) (wdb_wallets db));
          isPrimary = (case cw_isPrimary dto of Some b \<Rightarrow> b | None \<Rightarrow> existingCount = 0);
          db = (if isPrimary then unset_primary userId db else db);
          wallet = \<lparr>wa_id = uuid e 0, wa_userId = userId, wa_publicKey = keypair e,
            wa_encryptedSecretKey = encryptedSecretKey, wa_label = cw_label dto, wa_status = W_ACTIVE,
            wa_isPrimary = isPrimary, wa_cachedBalance = ''0'', wa_balanceSyncedAt = None,
            wa_multisigThreshold = None, wa_cosigners = None, wa_createdAt = now e\<rparr>
      in (wallet, save_wallet wallet db))"

definition findAllForUser :: "string \<Rightarrow> nat \<Rightarrow> nat \<Rightarrow> wallet_db \<Rightarrow> wallet list \<times> nat" where
  "findAllForUser userId page limit db =
     (let rows = sort_key (\<lambda>w. - wa_createdAt w) (filter (\<lambda>w. wa_userId w = userId) (wdb_wallets db))
      in (take limit (drop ((page - 1) * limit) rows), length rows))"

definition wallet_findOne :: "string \<Rightarrow> string \<Rightarrow> wallet_db \<Rightarrow> wallet result" where
  "wallet_findOne i userId db = (case row_by wa_id i (wdb_wallets db) of
     None \<Rightarrow> Inl (NotFound (''Wallet '' @ i @ '' not found''))
   | Some w \<Rightarrow> if wa_userId w \<noteq> userId then Inl (Forbidden ''You do not own this wallet'') else Inr w)"

definition assign_wallet :: "update_wallet_dto \<Rightarrow> wallet \<Rightarrow> wallet" where
  "assign_wallet dto w = w\<lparr>wa_label := (case uw_label dto of None \<Rightarrow> wa_label w | Some l \<Rightarrow> Some l),
     wa_status := (case uw_status dto of None \<Rightarrow> wa_status w | Some s \<Rightarrow> s),
     wa_isPrimary := (case uw_isPrimary dto of None \<Rightarrow> wa_isPrimary w | Some b \<Rightarrow> b)\<rparr>"

definition wallet_update :: "string \<Rightarrow> string \<Rightarrow> update_wallet_dto \<Rightarrow> wallet_db \<Rightarrow> (wallet \<times> wallet_db) result" where
  "wallet_update i userId dto db =
     rbind (wallet_findOne i userId db) (\<lambda>w.
       let db = (if uw_isPrimary dto = Some True then unset_primary userId db else db);
           w = assign_wallet dto w
       in Inr (w, save_wallet w db))"

definition wallet_remove :: "string \<Rightarrow> string \<Rightarrow> wallet_db \<Rightarrow> wallet_db result" where
  "wallet_remove i userId db =
     rbind (wallet_findOne i userId db) (\<lambda>w.
       if wa_isPrimary w
       then Inl (BadRequest ''Cannot remove the primary wallet. Assign another wallet as primary first.'')
       else Inr (save_wallet (w\<lparr>wa_status := W_INACTIVE\<rparr>) db))"

text \<open>The balances of an account are pairs of asset type and balance.\<close>

definition syncBalance ::
  "(string \<Rightarrow> (string \<times> string) list result) \<Rightarrow> int \<Rightarrow> string \<Rightarrow> string \<Rightarrow> wallet_db \<Rightarrow> (wallet \<times> wallet_db) result" where
  "syncBalance balances t i userId db =
     rbind (wallet_findOne i userId db) (\<lambda>w.
     rbind (balances (wa_publicKey w)) (\<lambda>bs.
       let balance = (case find (\<lambda>b. fst b = ''native'') bs of None \<Rightarrow> ''0'' | Some b \<Rightarrow> snd b);
           w = w\<lparr>wa_cachedBalance := balance, wa_balanceSyncedAt := Some t\<rparr>
       in Inr (w, save_wallet w db)))"

definition configureMultisig :: "string \<Rightarrow> string \<Rightarrow> multisig_config_dto \<Rightarrow> wallet_db \<Rightarrow> (wallet \<times> wallet_db) result" where
  "configureMultisig i userId dto db =
     rbind (wallet_findOne i userId db) (\<lambda>w.
       if wa_publicKey w \<in> set (mc_cosigners dto)
       then Inl (Conflict ''Wallet public key cannot be listed as a co-signer of itself'')
       else let w = w\<lparr>wa_multisigThreshold := Some (mc_threshold dto), wa_cosigners := Some (mc_cosigners dto)\<rparr>
            in Inr (w, save_wallet w db))"

definition getPublicKey :: "string \<Rightarrow> string \<Rightarrow> wallet_db \<Rightarrow> string result" where
  "getPublicKey i userId db = rbind (wallet_findOne i userId db) (\<lambda>w. Inr (wa_publicKey w))"

section \<open>Step-up tokens\<close>

record step_up_payload =
  su_sub :: string
  su_purpose :: string
  su_scope :: string

definition STEP_UP_SCOPE :: string where "STEP_UP_SCOPE = ''wallet:high-risk''"
definition STEP_UP_PURPOSE :: string where "STEP_UP_PURPOSE = ''wallet-step-up''"

definition step_up_verify :: "(string \<Rightarrow> step_up_payload option) \<Rightarrow> string option \<Rightarrow> string \<Rightarrow> unit result" where
  "step_up_verify jwt token userId =
     (if (case token of None \<Rightarrow> True | Some t \<Rightarrow> t = [])
      then Inl (Unauthorized ''Step-up authentication required for this operation'')
      else case jwt (the token) of
        None \<Rightarrow> Inl (Unauthorized ''Invalid or expired step-up token'')
      | Some p \<Rightarrow>
          if su_purpose p \<noteq> STEP_UP_PURPOSE \<or> su_scope p \<noteq> STEP_UP_SCOPE \<or> su_sub p \<noteq> userId
          then Inl (Unauthorized ''Invalid step-up token'') else Inr ())"

section \<open>Signing\<close>

definition MAX_UNSIGNED_XDR_LENGTH :: nat where
  "MAX_UNSIGNED_XDR_LENGTH = 4096"

definition HIGH_RISK_OPERATIONS :: "string list" where
  "HIGH_RISK_OPERATIONS = [''setOptions'', ''accountMerge'']"

definition getNetworkPassphrase :: "wallet_config \<Rightarrow> string result" where
  "getNetworkPassphrase cfg = (case wc_passphrase cfg of
     None \<Rightarrow> Inl (InternalServerError ''STELLAR_NETWORK_PASSPHRASE is not configured'')
   | Some p \<Rightarrow> if trim p = [] then Inl (InternalServerError ''STELLAR_NETWORK_PASSPHRASE is not configured'') else Inr p)"

definition parseSigningTransaction :: "sdk \<Rightarrow> wallet_config \<Rightarrow> string \<Rightarrow> wallet \<Rightarrow> classic_tx result" where
  "parseSigningTransaction s cfg unsignedXdr w =
     (if MAX_UNSIGNED_XDR_LENGTH < length unsignedXdr
      then Inl (BadRequest (''unsignedXdr must not exceed '' @ nat_to_string MAX_UNSIGNED_XDR_LENGTH @ '' characters''))
      else rbind (getNetworkPassphrase cfg) (\<lambda>passphrase.
        case fromXDR s unsignedXdr passphrase of
          None \<Rightarrow> Inl (BadRequest ''Invalid unsigned XDR transaction envelope'')
        | Some (FeeBump h) \<Rightarrow> Inl (BadRequest ''Fee-bump transactions are not supported by the custodial signer'')
        | Some (Classic tx) \<Rightarrow>
            if ct_source tx \<noteq> wa_publicKey w then Inl (Forbidden ''Transaction source account does not match the wallet'')
            else Inr tx))"

definition getAllowedOperations :: "wallet_config \<Rightarrow> string list" where
  "getAllowedOperations cfg =
     (let values = (case wc_allowedOperations cfg of
            ConfigList xs \<Rightarrow> xs | ConfigString x \<Rightarrow> split_on (CHR '','') x | ConfigMissing \<Rightarrow> [''payment''])
      in js_set (filter (\<lambda>x. x \<noteq> []) (map trim values)))"

definition type_of :: "described_operation \<Rightarrow> string" where
  "type_of x = (case op_type x of None \<Rightarrow> ''unknown'' | Some t \<Rightarrow> t)"

definition assertSigningPolicy ::
  "(string \<Rightarrow> step_up_payload option) \<Rightarrow> wallet_config \<Rightarrow> classic_tx \<Rightarrow> string \<Rightarrow> string option \<Rightarrow> string option \<Rightarrow> unit result" where
  "assertSigningPolicy jwt cfg tx userId role stepUpToken =
     (let allowed = getAllowedOperations cfg;
          operationTypes = js_set (map type_of (ct_operations tx));
          disallowed = filter (\<lambda>t. t \<notin> set allowed) operationTypes;
          highRisk = filter (\<lambda>t. t \<in> set HIGH_RISK_OPERATIONS) operationTypes;
          names = join_with '', '' allowed
      in if disallowed \<noteq> [] then
           Inl (BadRequest (''Operation type(s) '' @ join_with '', '' disallowed @
             '' are not allowed by the wallet signing policy. Allowed operations: '' @
             (if names = [] then ''(none)'' else names)))
         else if highRisk = [] then Inr ()
         else if role \<noteq> Some ''admin'' then
           Inl (Forbidden (''Operation type(s) '' @ join_with '', '' highRisk @ '' require the admin role''))
         else step_up_verify jwt stepUpToken userId)"

definition describe_op :: "described_operation \<Rightarrow> described_operation" where
  "describe_op x = \<lparr>op_type = Some (type_of x),
     op_amount = (case op_amount x of Some [] \<Rightarrow> None | a \<Rightarrow> a),
     op_destination = (case op_destination x of Some [] \<Rightarrow> None | d \<Rightarrow> d),
     op_asset = (case op_asset x of Some (AssetName []) \<Rightarrow> None | a \<Rightarrow> a)\<rparr>"

definition describeOperations :: "classic_tx \<Rightarrow> described_operation list" where
  "describeOperations tx = map describe_op (ct_operations tx)"

definition find_signing_wallet :: "string \<Rightarrow> string \<Rightarrow> wallet_db \<Rightarrow> wallet result" where
  "find_signing_wallet i userId db =
     rbind (wallet_findOne i userId db) (\<lambda>w.
       if wa_status w \<noteq> W_ACTIVE
       then Inl (BadRequest (''Wallet is '' @ wallet_status_str (wa_status w) @ '' and cannot sign transactions''))
       else Inr w)"

definition signTransaction ::
  "sdk \<Rightarrow> cipher \<Rightarrow> (string \<Rightarrow> step_up_payload option) \<Rightarrow> wallet_config \<Rightarrow> string \<Rightarrow> string \<Rightarrow> string \<Rightarrow>
   string option \<Rightarrow> string option \<Rightarrow> wallet_db \<Rightarrow> (string \<times> wallet_db) result" where
  "signTransaction s c jwt cfg i userId unsignedXdr role stepUpToken db =
     rbind (find_signing_wallet i userId db) (\<lambda>w.
     rbind (parseSigningTransaction s cfg unsignedXdr w) (\<lambda>tx.
     rbind (assertSigningPolicy jwt cfg tx userId role stepUpToken) (\<lambda>_.
     rbind (decrypt c (wa_encryptedSecretKey w)) (\<lambda>secretKey.
       Inr (signEnvelope s unsignedXdr secretKey,
         db\<lparr>wdb_audit := wdb_audit db @ [\<lparr>au_action = ''wallet.sign_transaction'', au_userId = userId, au_userRole = role,
           au_resourceId = i, au_transactionHash = ct_hash tx, au_operations = describeOperations tx\<rparr>]\<rparr>)))))"

definition createDecoratedSignature ::
  "sdk \<Rightarrow> cipher \<Rightarrow> wallet_config \<Rightarrow> string \<Rightarrow> string \<Rightarrow> string \<Rightarrow> wallet_db \<Rightarrow> ((string \<times> string) \<times> wallet_db) result" where
  "createDecoratedSignature s c cfg walletId userId unsignedXdr db =
     rbind (find_signing_wallet walletId userId db) (\<lambda>w.
     rbind (parseSigningTransaction s cfg unsignedXdr w) (\<lambda>tx.
     rbind (decrypt c (wa_encryptedSecretKey w)) (\<lambda>secretKey.
       Inr ((publicKeyOf s secretKey, signDecorated s secretKey (ct_hash tx)),
         db\<lparr>wdb_audit := wdb_audit db @ [\<lparr>au_action = ''wallet.create_decorated_signature'', au_userId = userId,
           au_userRole = None, au_resourceId = walletId, au_transactionHash = ct_hash tx,
           au_operations = describeOperations tx\<rparr>]\<rparr>))))"

section \<open>Lemmas\<close>

lemma row_by_map_id: "(\<And>w. wa_id (f w) = wa_id w) \<Longrightarrow> row_by wa_id i (map f t) = map_option f (row_by wa_id i t)"
  by (induction t) auto

lemma wallet_findOne_iff:
  "wallet_findOne i u db = Inr w \<longleftrightarrow> row_by wa_id i (wdb_wallets db) = Some w \<and> wa_userId w = u"
  by (auto simp: wallet_findOne_def split: option.splits)

lemma find_signing_wallet_iff:
  "find_signing_wallet i u db = Inr w \<longleftrightarrow>
     row_by wa_id i (wdb_wallets db) = Some w \<and> wa_userId w = u \<and> wa_status w = W_ACTIVE"
  by (auto simp: find_signing_wallet_def rbind_Inr_iff wallet_findOne_iff split: if_splits)

lemma parseSigningTransaction_source:
  "parseSigningTransaction s cfg x w = Inr tx \<Longrightarrow> ct_source tx = wa_publicKey w \<and> length x \<le> MAX_UNSIGNED_XDR_LENGTH \<and>
     (\<exists>p. wc_passphrase cfg = Some p \<and> fromXDR s x p = Some (Classic tx))"
  by (auto simp: parseSigningTransaction_def getNetworkPassphrase_def rbind_Inr_iff
      split: if_splits option.splits parsed_tx.splits)

lemma assertSigningPolicy_ok:
  assumes "assertSigningPolicy jwt cfg tx u role token = Inr x"
  shows "set (map type_of (ct_operations tx)) \<subseteq> set (getAllowedOperations cfg)"
    and "set (map type_of (ct_operations tx)) \<inter> set HIGH_RISK_OPERATIONS \<noteq> {} \<Longrightarrow>
      role = Some ''admin'' \<and> step_up_verify jwt token u = Inr ()"
  using assms by (auto simp: assertSigningPolicy_def Let_def filter_empty_conv split: if_splits)

lemma step_up_verify_ok:
  "step_up_verify jwt token u = Inr () \<longleftrightarrow>
     (\<exists>t p. token = Some t \<and> t \<noteq> [] \<and> jwt t = Some p \<and> su_sub p = u \<and> su_purpose p = STEP_UP_PURPOSE \<and> su_scope p = STEP_UP_SCOPE)"
  by (auto simp: step_up_verify_def split: option.splits)

end
