(* ===== verification/Overlap.thy ===== *)
theory Overlap
  imports Prelude
begin

text \<open>
  Requests that overlap. A handler that reads a row, waits and then writes is two steps here: \<open>reads\<close> says what a
  request can have read in a state, and \<open>finish\<close> what the rest of its handler does with that copy later, when the
  state may be another one. A state of the system is the database with the copies that the running requests hold.
  Operations that are one step are the relation \<open>others\<close>.
\<close>

inductive overlap ::
  "('d \<Rightarrow> 'r \<Rightarrow> bool) \<Rightarrow> ('r \<Rightarrow> 'd \<Rightarrow> 'd \<Rightarrow> bool) \<Rightarrow> ('d \<Rightarrow> 'd \<Rightarrow> bool) \<Rightarrow> 'd \<times> 'r list \<Rightarrow> 'd \<times> 'r list \<Rightarrow> bool"
  for reads finish others where
  ov_read: "reads d r \<Longrightarrow> overlap reads finish others (d, P) (d, r # P)"
| ov_finish: "r \<in> set P \<Longrightarrow> finish r d d' \<Longrightarrow> overlap reads finish others (d, P) (d', remove1 r P)"
| ov_other: "others d d' \<Longrightarrow> overlap reads finish others (d, P) (d', P)"

lemma ov_finish_sole: "finish r d d' \<Longrightarrow> overlap reads finish others (d, [r]) (d', [])"
  using ov_finish [of r "[r]" finish d d' reads others] by simp

text \<open>
  The contract of handlers that refuse to touch what is settled: a copy that is read once \<open>i\<close> is settled cannot
  change \<open>i\<close>; neither can the rest of a handler that holds such a copy, nor any other operation. Only a \<open>stale\<close>
  copy, read before \<open>i\<close> was settled, can. What must not change is \<open>view i\<close>.
\<close>

locale settling =
  fixes reads :: "'d \<Rightarrow> 'r \<Rightarrow> bool"
    and finish :: "'r \<Rightarrow> 'd \<Rightarrow> 'd \<Rightarrow> bool"
    and others :: "'d \<Rightarrow> 'd \<Rightarrow> bool"
    and inv :: "'d \<Rightarrow> bool"
    and fine :: "'d \<Rightarrow> 'r \<Rightarrow> bool"
    and settled :: "'i \<Rightarrow> 'd \<Rightarrow> bool"
    and stale :: "'i \<Rightarrow> 'r \<Rightarrow> bool"
    and view :: "'i \<Rightarrow> 'd \<Rightarrow> 'v"
  assumes read_fine: "inv d \<Longrightarrow> reads d r \<Longrightarrow> fine d r"
    and finish_inv: "inv d \<Longrightarrow> fine d r \<Longrightarrow> finish r d d' \<Longrightarrow> inv d'"
    and other_inv: "inv d \<Longrightarrow> others d d' \<Longrightarrow> inv d'"
    and finish_fine: "finish r d d' \<Longrightarrow> fine d r' \<Longrightarrow> fine d' r'"
    and other_fine: "others d d' \<Longrightarrow> fine d r' \<Longrightarrow> fine d' r'"
    and read_settled: "inv d \<Longrightarrow> settled i d \<Longrightarrow> reads d r \<Longrightarrow> \<not> stale i r"
    and finish_settled: "inv d \<Longrightarrow> fine d r \<Longrightarrow> settled i d \<Longrightarrow> \<not> stale i r \<Longrightarrow> finish r d d' \<Longrightarrow> settled i d' \<and> view i d' = view i d"
    and other_settled: "inv d \<Longrightarrow> settled i d \<Longrightarrow> others d d' \<Longrightarrow> settled i d' \<and> view i d' = view i d"
begin

definition sound :: "'d \<times> 'r list \<Rightarrow> bool" where
  "sound c \<longleftrightarrow> inv (fst c) \<and> (\<forall>r \<in> set (snd c). fine (fst c) r)"

lemma sound_step:
  assumes "overlap reads finish others c c'" and "sound c"
  shows "sound c'"
  using assms
proof (cases rule: overlap.cases)
  case (ov_finish r P d d')
  have "fine d' q" if "q \<in> set (remove1 r P)" for q
    using ov_finish assms(2) that finish_fine [of r d d' q] notin_set_remove1 [of q P r] by (auto simp: sound_def)
  then show ?thesis using ov_finish assms(2) finish_inv [of d r d'] by (simp add: sound_def)
qed (auto simp: sound_def intro: read_fine other_inv other_fine)

lemma sound_run: "(overlap reads finish others)\<^sup>*\<^sup>* c c' \<Longrightarrow> sound c \<Longrightarrow> sound c'"
  by (induction rule: rtranclp_induct) (auto intro: sound_step)

definition quiet :: "'i \<Rightarrow> 'd \<times> 'r list \<Rightarrow> bool" where
  "quiet i c \<longleftrightarrow> settled i (fst c) \<and> (\<forall>r \<in> set (snd c). \<not> stale i r)"

lemma quiet_step:
  assumes "overlap reads finish others c c'" and "sound c" and "quiet i c"
  shows "quiet i c' \<and> view i (fst c') = view i (fst c)"
  using assms
proof (cases rule: overlap.cases)
  case (ov_read d r P)
  then show ?thesis using assms(2,3) read_settled [of d i r] by (auto simp: sound_def quiet_def)
next
  case (ov_finish r P d d')
  have "settled i d' \<and> view i d' = view i d"
    using ov_finish assms(2,3) finish_settled [of d r i d'] by (auto simp: sound_def quiet_def)
  moreover have "\<not> stale i q" if "q \<in> set (remove1 r P)" for q
    using ov_finish assms(3) that notin_set_remove1 [of q P r] by (auto simp: quiet_def)
  ultimately show ?thesis using ov_finish by (simp add: quiet_def)
next
  case (ov_other d d' P)
  then show ?thesis using assms(2,3) other_settled [of d i d'] by (auto simp: sound_def quiet_def)
qed

lemma quiet_run:
  assumes "(overlap reads finish others)\<^sup>*\<^sup>* c c'" and "sound c" and "quiet i c"
  shows "quiet i c' \<and> view i (fst c') = view i (fst c)"
  using assms(1)
proof (induction rule: rtranclp_induct)
  case base
  show ?case using assms(3) by simp
next
  case (step c1 c2)
  then show ?case using quiet_step [OF step(2) sound_run [OF step(1) assms(2)]] by simp
qed

end

end
