(* ===== verification/Multisig.thy ===== *)
theory Multisig
  imports Wallet Overlap
begin

text \<open>
  The multi-signature pipeline (\<^verbatim>\<open>wallet/services/multisig-transaction.service.ts\<close> and
  \<^verbatim>\<open>multisig-account.service.ts\<close>): a transaction is proposed, signatures are pooled until
  their weight meets the threshold, and the assembled transaction is broadcast. The account
  service computes the operations that enable multi-signature or rotate a key. The network is
  the record \<open>chain\<close>: signers and thresholds of an account, its sequence number, submission of an envelope,
  and the recording of a submitted transaction, which may fail without consequences.
\<close>

section \<open>Data\<close>

datatype threshold_category = TC_LOW | TC_MEDIUM | TC_HIGH

datatype multisig_status = MS_PENDING_SIGNATURES | MS_READY | MS_SUBMITTED | MS_FAILED | MS_EXPIRED | MS_CANCELLED

fun multisig_status_str :: "multisig_status \<Rightarrow> string" where
  "multisig_status_str MS_PENDING_SIGNATURES = ''pending_signatures''"
| "multisig_status_str MS_READY = ''ready''"
| "multisig_status_str MS_SUBMITTED = ''submitted''"
| "multisig_status_str MS_FAILED = ''failed''"
| "multisig_status_str MS_EXPIRED = ''expired''"
| "multisig_status_str MS_CANCELLED = ''cancelled''"

record multisig_transaction =
  mx_id :: string
  mx_walletId :: string
  mx_sourceAccount :: string
  mx_unsignedXdr :: string
  mx_description :: "string option"
  mx_requiredWeight :: int
  mx_thresholdCategory :: threshold_category
  mx_status :: multisig_status
  mx_createdByUserId :: string
  mx_networkPassphrase :: string
  mx_submittedTxHash :: "string option"
  mx_failureReason :: "string option"
  mx_expiresAt :: "int option"
  mx_createdAt :: int

record multisig_signature =
  sg_id :: string
  sg_transactionId :: string
  sg_signerPublicKey :: string
  sg_signatureXdr :: string
  sg_weight :: int
  sg_signedByUserId :: "string option"
  sg_createdAt :: int

record account_signers =
  as_accountId :: string
  as_masterWeight :: int
  as_low :: int
  as_med :: int
  as_high :: int
  as_signers :: "(string \<times> int) list"

record chain =
  getAccountSigners :: "string \<Rightarrow> account_signers result"
  loadSequence :: "string \<Rightarrow> string result"
  submitTransaction :: "string \<Rightarrow> string result"
  record_fails :: "string \<Rightarrow> bool"

record propose_dto =
  pd_unsignedXdr :: string
  pd_description :: "string option"

record add_signature_dto =
  as_walletId :: "string option"
  as_signerPublicKey :: "string option"
  as_signatureXdr :: "string option"

datatype multisig_event =
    TRANSACTION_PROPOSED string string int threshold_category string
  | TRANSACTION_SIGNED string string int
  | TRANSACTION_READY string
  | TRANSACTION_SUBMITTED string string
  | TRANSACTION_FAILED string string

record multisig_tx_view =
  mv_tx :: multisig_transaction
  mv_currentWeight :: int
  mv_isReadyToSubmit :: bool
  mv_signatures :: "(string \<times> int \<times> string option \<times> int) list"

text \<open>The wallet tables, extended by the tables of the pipeline, its events and the recorded history.\<close>

record multisig_db = wallet_db +
  ms_txs :: "multisig_transaction list"
  ms_sigs :: "multisig_signature list"
  ms_events :: "multisig_event list"
  ms_history :: "(string \<times> string) list"

section \<open>Helpers of the service\<close>

abbreviation save_tx :: "multisig_transaction \<Rightarrow> multisig_db \<Rightarrow> multisig_db" where
  "save_tx tx db \<equiv> db\<lparr>ms_txs := save_row mx_id tx (ms_txs db)\<rparr>"

definition ms_emit :: "multisig_event \<Rightarrow> multisig_db \<Rightarrow> multisig_db" where
  "ms_emit ev db = db\<lparr>ms_events := ms_events db @ [ev]\<rparr>"

definition ms_findOne :: "string \<Rightarrow> string \<Rightarrow> multisig_db \<Rightarrow> wallet result" where
  "ms_findOne i userId db = wallet_findOne i userId (wallet_db.truncate db)"

definition signatures_of :: "string \<Rightarrow> multisig_db \<Rightarrow> multisig_signature list" where
  "signatures_of i db = filter (\<lambda>s. sg_transactionId s = i) (ms_sigs db)"

definition weight_sum :: "multisig_signature list \<Rightarrow> int" where
  "weight_sum ss = foldl (\<lambda>sum s. sum + sg_weight s) 0 ss"

definition buildStatus :: "multisig_transaction \<Rightarrow> multisig_signature list \<Rightarrow> multisig_tx_view" where
  "buildStatus tx ss = \<lparr>mv_tx = tx, mv_currentWeight = weight_sum ss, mv_isReadyToSubmit = (mx_status tx = MS_READY),
     mv_signatures = map (\<lambda>s. (sg_signerPublicKey s, sg_weight s, sg_signedByUserId s, sg_createdAt s)) ss\<rparr>"

definition getTxOrThrow :: "string \<Rightarrow> multisig_db \<Rightarrow> multisig_transaction result" where
  "getTxOrThrow txId db = (case row_by mx_id txId (ms_txs db) of
     None \<Rightarrow> Inl (NotFound (''Multi-sig transaction '' @ txId @ '' not found'')) | Some tx \<Rightarrow> Inr tx)"

text \<open>An elapsed transaction is stored as expired before the call fails.\<close>

definition is_elapsed :: "int \<Rightarrow> multisig_transaction \<Rightarrow> bool" where
  "is_elapsed t tx = (case mx_expiresAt tx of None \<Rightarrow> False | Some d \<Rightarrow> d \<le> t)"

definition expired_error :: http_error where
  "expired_error = BadRequest ''Transaction has expired (timebounds elapsed) and can no longer be signed or broadcast''"

definition expireIfElapsed :: "int \<Rightarrow> multisig_transaction \<Rightarrow> multisig_db \<Rightarrow> unit result \<times> multisig_db" where
  "expireIfElapsed t tx db =
     (if is_elapsed t tx then (Inl expired_error, save_tx (tx\<lparr>mx_status := MS_EXPIRED\<rparr>) db) else (Inr (), db))"

definition parseClassicTransaction :: "sdk \<Rightarrow> string \<Rightarrow> string \<Rightarrow> classic_tx result" where
  "parseClassicTransaction s unsignedXdr passphrase = (case fromXDR s unsignedXdr passphrase of
     None \<Rightarrow> Inl (BadRequest ''unsignedXdr is not a valid transaction envelope for this network'')
   | Some (FeeBump h) \<Rightarrow> Inl (BadRequest ''Fee-bump transactions are not supported in the signing pool'')
   | Some (Classic tx) \<Rightarrow> Inr tx)"

definition op_rank :: "described_operation \<Rightarrow> nat" where
  "op_rank x =
     (if op_type x \<in> {Some ''setOptions'', Some ''accountMerge''} then 2
      else if op_type x \<in> {Some ''allowTrust'', Some ''bumpSequence'', Some ''setTrustLineFlags''} then 0 else 1)"

definition determineThresholdCategory :: "classic_tx \<Rightarrow> threshold_category" where
  "determineThresholdCategory tx =
     (let rank = foldl (\<lambda>rank x. if op_rank x > rank then op_rank x else rank) 0 (ct_operations tx)
      in if rank = 2 then TC_HIGH else if rank = 0 then TC_LOW else TC_MEDIUM)"

definition requiredWeightForCategory :: "threshold_category \<Rightarrow> account_signers \<Rightarrow> int" where
  "requiredWeightForCategory category config =
     max (case category of TC_HIGH \<Rightarrow> as_high config | TC_LOW \<Rightarrow> as_low config | TC_MEDIUM \<Rightarrow> as_med config) 1"

text \<open>\<^verbatim>\<open>parseInt\<close> on the digits of a time bound.\<close>

definition extractExpiry :: "classic_tx \<Rightarrow> int option" where
  "extractExpiry tx = (case ct_maxTime tx of
     None \<Rightarrow> None
   | Some m \<Rightarrow> if m = [] \<or> m = ''0'' then None else Some (lead_digits m * 1000))"

definition verifyDecoratedSignature :: "sdk \<Rightarrow> string \<Rightarrow> string \<Rightarrow> parsed_tx \<Rightarrow> bool" where
  "verifyDecoratedSignature s signerPublicKey signatureXdr tx = (case tx of
     FeeBump h \<Rightarrow> verifySig s signerPublicKey h signatureXdr | Classic c \<Rightarrow> verifySig s signerPublicKey (ct_hash c) signatureXdr)"

definition given :: "string option \<Rightarrow> bool" where
  "given x = (case x of None \<Rightarrow> False | Some y \<Rightarrow> y \<noteq> [])"

definition resolveSignature ::
  "sdk \<Rightarrow> cipher \<Rightarrow> wallet_config \<Rightarrow> multisig_transaction \<Rightarrow> string \<Rightarrow> add_signature_dto \<Rightarrow> multisig_db \<Rightarrow>
   ((string \<times> string \<times> string option) \<times> multisig_db) result" where
  "resolveSignature s c cfg tx userId dto db =
     (let serverMode = given (as_walletId dto);
          externalMode = given (as_signerPublicKey dto) \<or> given (as_signatureXdr dto)
      in if serverMode \<and> externalMode then
           Inl (BadRequest ''Provide either walletId (server-side) or signerPublicKey + signatureXdr (external), not both'')
         else if \<not> serverMode \<and> \<not> externalMode then
           Inl (BadRequest ''Provide either walletId (server-side) or signerPublicKey + signatureXdr (external)'')
         else if serverMode then
           rbind (createDecoratedSignature s c cfg (the (as_walletId dto)) userId (mx_unsignedXdr tx) (wallet_db.truncate db))
             (\<lambda>((pk, sig), wdb). Inr ((pk, sig, Some userId), db\<lparr>wdb_audit := wdb_audit wdb\<rparr>))
         else if \<not> given (as_signerPublicKey dto) \<or> \<not> given (as_signatureXdr dto) then
           Inl (BadRequest ''Both signerPublicKey and signatureXdr are required for an external signature'')
         else Inr ((the (as_signerPublicKey dto), the (as_signatureXdr dto), None), db))"

section \<open>The pipeline\<close>

definition propose ::
  "sdk \<Rightarrow> chain \<Rightarrow> string \<Rightarrow> env \<Rightarrow> string \<Rightarrow> string \<Rightarrow> propose_dto \<Rightarrow> multisig_db \<Rightarrow> (multisig_tx_view \<times> multisig_db) result" where
  "propose s n passphrase e walletId userId dto db =
     rbind (ms_findOne walletId userId db) (\<lambda>w.
     rbind (parseClassicTransaction s (pd_unsignedXdr dto) passphrase) (\<lambda>tx.
     if ct_operations tx = [] then Inl (BadRequest ''Transaction has no operations'')
     else if ct_source tx \<noteq> wa_publicKey w then Inl (BadRequest ''Transaction source account does not match the wallet'')
     else rbind (getAccountSigners n (wa_publicKey w)) (\<lambda>config.
       let category = determineThresholdCategory tx;
           requiredWeight = requiredWeightForCategory category config;
           entity = \<lparr>mx_id = uuid e 0, mx_walletId = wa_id w, mx_sourceAccount = wa_publicKey w,
             mx_unsignedXdr = pd_unsignedXdr dto, mx_description = pd_description dto, mx_requiredWeight = requiredWeight,
             mx_thresholdCategory = category, mx_status = MS_PENDING_SIGNATURES, mx_createdByUserId = userId,
             mx_networkPassphrase = passphrase, mx_submittedTxHash = None, mx_failureReason = None,
             mx_expiresAt = extractExpiry tx, mx_createdAt = now e\<rparr>
       in Inr (buildStatus entity [],
            ms_emit (TRANSACTION_PROPOSED (mx_id entity) (wa_id w) requiredWeight category userId) (save_tx entity db)))))"

definition pool_signature ::
  "env \<Rightarrow> multisig_transaction \<Rightarrow> string \<Rightarrow> string \<Rightarrow> int \<Rightarrow> string option \<Rightarrow> multisig_db \<Rightarrow>
   (bool \<times> multisig_transaction \<times> multisig_signature list \<times> multisig_db) result" where
  "pool_signature e tx signerPublicKey signatureXdr weight signedByUserId db =
     (if \<exists>s \<in> set (ms_sigs db). sg_transactionId s = mx_id tx \<and> sg_signerPublicKey s = signerPublicKey
      then Inl (Conflict (signerPublicKey @ '' has already signed this transaction''))
      else
        let signature = \<lparr>sg_id = uuid e 0, sg_transactionId = mx_id tx, sg_signerPublicKey = signerPublicKey,
              sg_signatureXdr = signatureXdr, sg_weight = weight, sg_signedByUserId = signedByUserId, sg_createdAt = now e\<rparr>;
            db = db\<lparr>ms_sigs := ms_sigs db @ [signature]\<rparr>;
            signatures = signatures_of (mx_id tx) db
        in if mx_requiredWeight tx \<le> weight_sum signatures
           then let tx = tx\<lparr>mx_status := MS_READY\<rparr> in Inr (True, tx, signatures, save_tx tx db)
           else Inr (False, tx, signatures, db))"

text \<open>
  The result and the state after the call: an elapsed transaction has been marked as expired,
  and a server-side signature has been recorded in the audit log, also when the call fails
  afterwards. A rejected signature leaves the pool as it was. The handlers read the transaction first and go on with
  that copy while they wait for the network and the database; what they do with it is the definition with \<open>rest\<close>.
\<close>

definition addSignature_rest ::
  "sdk \<Rightarrow> cipher \<Rightarrow> wallet_config \<Rightarrow> chain \<Rightarrow> env \<Rightarrow> string \<Rightarrow> add_signature_dto \<Rightarrow> multisig_transaction \<Rightarrow> multisig_db \<Rightarrow>
   multisig_tx_view result \<times> multisig_db" where
  "addSignature_rest s c cfg n e userId dto tx db =
     (if mx_status tx \<noteq> MS_PENDING_SIGNATURES
      then (Inl (BadRequest (''Cannot add signatures to a transaction in status '' @ multisig_status_str (mx_status tx))), db)
      else case expireIfElapsed (now e) tx db of (Inl err, db) \<Rightarrow> (Inl err, db) | (Inr _, db) \<Rightarrow>
      case resolveSignature s c cfg tx userId dto db of Inl err \<Rightarrow> (Inl err, db) | Inr ((pk, sig, by), db) \<Rightarrow>
      case getAccountSigners n (mx_sourceAccount tx) of Inl err \<Rightarrow> (Inl err, db) | Inr config \<Rightarrow>
      case find (\<lambda>(k, w). k = pk \<and> 0 < w) (as_signers config) of
        None \<Rightarrow> (Inl (Forbidden (pk @ '' is not an eligible signer on this account'')), db)
      | Some (_, weight) \<Rightarrow>
      case fromXDR s (mx_unsignedXdr tx) (mx_networkPassphrase tx) of
        None \<Rightarrow> (Inl (PlainError ''fromXDR''), db)
      | Some rebuilt \<Rightarrow>
      if \<not> verifyDecoratedSignature s pk sig rebuilt
      then (Inl (BadRequest ''Signature does not verify against the transaction''), db)
      else case pool_signature e tx pk sig weight by db of Inl err \<Rightarrow> (Inl err, db) | Inr (becameReady, tx, signatures, db) \<Rightarrow>
        let db = ms_emit (TRANSACTION_SIGNED (mx_id tx) pk weight) db;
            db = (if becameReady then ms_emit (TRANSACTION_READY (mx_id tx)) db else db)
        in (Inr (buildStatus tx signatures), db))"

definition addSignature ::
  "sdk \<Rightarrow> cipher \<Rightarrow> wallet_config \<Rightarrow> chain \<Rightarrow> env \<Rightarrow> string \<Rightarrow> string \<Rightarrow> add_signature_dto \<Rightarrow> multisig_db \<Rightarrow>
   multisig_tx_view result \<times> multisig_db" where
  "addSignature s c cfg n e txId userId dto db =
     (case getTxOrThrow txId db of Inl err \<Rightarrow> (Inl err, db) | Inr tx \<Rightarrow> addSignature_rest s c cfg n e userId dto tx db)"

definition getStatus :: "string \<Rightarrow> string \<Rightarrow> multisig_db \<Rightarrow> multisig_tx_view result" where
  "getStatus txId userId db =
     rbind (getTxOrThrow txId db) (\<lambda>tx. rbind (ms_findOne (mx_walletId tx) userId db) (\<lambda>_.
       Inr (buildStatus tx (signatures_of txId db))))"

definition ms_list ::
  "string \<Rightarrow> string \<Rightarrow> multisig_status option \<Rightarrow> nat \<Rightarrow> nat \<Rightarrow> multisig_db \<Rightarrow> (multisig_transaction list \<times> nat) result" where
  "ms_list walletId userId status page limit db =
     rbind (ms_findOne walletId userId db) (\<lambda>_.
       let rows = sort_key (\<lambda>x. - mx_createdAt x) (filter (\<lambda>x. mx_walletId x = walletId \<and>
             (case status of None \<Rightarrow> True | Some st \<Rightarrow> mx_status x = st)) (ms_txs db))
       in Inr (take limit (drop ((page - 1) * limit) rows), length rows))"

definition recordToHistory :: "chain \<Rightarrow> multisig_transaction \<Rightarrow> string \<Rightarrow> multisig_db \<Rightarrow> multisig_db" where
  "recordToHistory n tx hash db = (if record_fails n hash then db
     else db\<lparr>ms_history := ms_history db @ [(hash, mx_createdByUserId tx)]\<rparr>)"

text \<open>The signatures are read together with the transaction.\<close>

definition broadcast_rest ::
  "sdk \<Rightarrow> chain \<Rightarrow> env \<Rightarrow> multisig_transaction \<Rightarrow> multisig_signature list \<Rightarrow> multisig_db \<Rightarrow> multisig_tx_view result \<times> multisig_db" where
  "broadcast_rest s n e tx signatures db =
     (if mx_status tx = MS_SUBMITTED then (Inl (Conflict ''Transaction has already been submitted''), db)
      else if mx_status tx \<noteq> MS_READY
      then (Inl (BadRequest (''Transaction is not ready to broadcast (status: '' @ multisig_status_str (mx_status tx) @ '')'')), db)
      else case expireIfElapsed (now e) tx db of (Inl err, db) \<Rightarrow> (Inl err, db) | (Inr _, db) \<Rightarrow>
      case fromXDR s (mx_unsignedXdr tx) (mx_networkPassphrase tx) of
           None \<Rightarrow> (Inl (PlainError ''fromXDR''), db)
         | Some _ \<Rightarrow>
      case submitTransaction n (attachSignatures s (mx_unsignedXdr tx) (map sg_signatureXdr signatures)) of
        Inl err \<Rightarrow>
          let tx = tx\<lparr>mx_status := MS_FAILED, mx_failureReason := Some (error_message err)\<rparr>
          in (Inl err, ms_emit (TRANSACTION_FAILED (mx_id tx) (error_message err)) (save_tx tx db))
      | Inr hash \<Rightarrow>
          let tx = tx\<lparr>mx_status := MS_SUBMITTED, mx_submittedTxHash := Some hash, mx_failureReason := None\<rparr>
          in (Inr (buildStatus tx signatures),
              ms_emit (TRANSACTION_SUBMITTED (mx_id tx) hash) (recordToHistory n tx hash (save_tx tx db))))"

definition broadcast ::
  "sdk \<Rightarrow> chain \<Rightarrow> env \<Rightarrow> string \<Rightarrow> string \<Rightarrow> multisig_db \<Rightarrow> multisig_tx_view result \<times> multisig_db" where
  "broadcast s n e txId userId db =
     (case rbind (getTxOrThrow txId db) (\<lambda>tx. rbind (ms_findOne (mx_walletId tx) userId db) (\<lambda>_. Inr tx)) of
        Inl err \<Rightarrow> (Inl err, db)
      | Inr tx \<Rightarrow> broadcast_rest s n e tx (signatures_of txId db) db)"

definition cancel_rest :: "multisig_transaction \<Rightarrow> multisig_signature list \<Rightarrow> multisig_db \<Rightarrow> (multisig_tx_view \<times> multisig_db) result" where
  "cancel_rest tx signatures db =
     (if mx_status tx \<noteq> MS_PENDING_SIGNATURES
      then Inl (BadRequest (''Cannot cancel a transaction in status '' @ multisig_status_str (mx_status tx)))
      else let tx = tx\<lparr>mx_status := MS_CANCELLED\<rparr> in Inr (buildStatus tx signatures, save_tx tx db))"

definition cancel :: "string \<Rightarrow> string \<Rightarrow> multisig_db \<Rightarrow> (multisig_tx_view \<times> multisig_db) result" where
  "cancel txId userId db =
     rbind (getTxOrThrow txId db) (\<lambda>tx. rbind (ms_findOne (mx_walletId tx) userId db) (\<lambda>_.
       cancel_rest tx (signatures_of txId db) db))"

section \<open>The account service\<close>

definition MAX_SIGNERS :: nat where
  "MAX_SIGNERS = 20"

record set_options =
  so_masterWeight :: "int option"
  so_low :: "int option"
  so_med :: "int option"
  so_high :: "int option"
  so_signer :: "(string \<times> int) option"

record enable_multisig_dto =
  em_signers :: "(string \<times> int) list"
  em_masterWeight :: "int option"
  em_low :: "int option"
  em_med :: "int option"
  em_high :: "int option"

record rotate_key_dto =
  rk_old :: string
  rk_new :: string
  rk_weight :: "int option"

record unsigned_tx =
  ut_source :: string
  ut_sequence :: string
  ut_timeout :: nat
  ut_operations :: "set_options list"

definition DEFAULT_MULTISIG_TX_TIMEOUT_SECS :: nat where
  "DEFAULT_MULTISIG_TX_TIMEOUT_SECS = 3600"

definition set_signer :: "(string \<times> int) list \<Rightarrow> string \<times> int \<Rightarrow> (string \<times> int) list" where
  "set_signer m a = (if 0 < snd a then map_set (fst a) (snd a) m else map_delete (fst a) m)"

definition computeResultingSigners :: "(string \<times> int) list \<Rightarrow> string \<Rightarrow> (string \<times> int) list \<Rightarrow> (string \<times> int) list" where
  "computeResultingSigners existing accountId additions =
     foldl set_signer
       (foldl (\<lambda>m (k, w). if k = accountId then m else if 0 < w then map_set k w m else m) [] existing) additions"

definition assertThresholdSatisfiable :: "string \<Rightarrow> int option \<Rightarrow> int \<Rightarrow> unit result" where
  "assertThresholdSatisfiable label threshold totalWeight = (case threshold of
     None \<Rightarrow> Inr ()
   | Some t \<Rightarrow> if totalWeight < t then
       Inl (BadRequest (label @ '' threshold ('' @ int_to_string t @ '') exceeds the total available signing weight ('' @
         int_to_string totalWeight @ ''); the account would be unusable''))
     else Inr ())"

text \<open>
  What the transaction builder is given: the source account with its sequence number, the
  timeout and the operations. The SDK serializes it; the summary text is left out.
\<close>

definition build_tx :: "chain \<Rightarrow> string \<Rightarrow> set_options list \<Rightarrow> unsigned_tx result" where
  "build_tx n publicKey ops = rbind (loadSequence n publicKey) (\<lambda>sequence.
     Inr \<lparr>ut_source = publicKey, ut_sequence = sequence, ut_timeout = DEFAULT_MULTISIG_TX_TIMEOUT_SECS, ut_operations = ops\<rparr>)"

definition buildEnableMultisigTx ::
  "chain \<Rightarrow> string \<Rightarrow> string \<Rightarrow> enable_multisig_dto \<Rightarrow> multisig_db \<Rightarrow> unsigned_tx result" where
  "buildEnableMultisigTx n walletId userId dto db =
     rbind (ms_findOne walletId userId db) (\<lambda>w.
     if wa_publicKey w \<in> fst ` set (em_signers dto)
     then Inl (BadRequest ''The account key cannot be added as a signer of itself; use masterWeight instead'')
     else rbind (getAccountSigners n (wa_publicKey w)) (\<lambda>current.
       let resulting = computeResultingSigners (as_signers current) (as_accountId current) (em_signers dto)
       in if MAX_SIGNERS < length resulting then
            Inl (BadRequest (''Resulting signer count ('' @ nat_to_string (length resulting) @ '') exceeds the Stellar limit of '' @
              nat_to_string MAX_SIGNERS))
          else
            let effectiveMaster = (case em_masterWeight dto of None \<Rightarrow> as_masterWeight current | Some m \<Rightarrow> m);
                totalWeight = effectiveMaster + sum_list (map snd resulting)
            in if totalWeight < 1 then
                 Inl (BadRequest ''Resulting configuration has zero total signing weight and would lock the account'')
               else rbind (assertThresholdSatisfiable ''low'' (em_low dto) totalWeight) (\<lambda>_.
                    rbind (assertThresholdSatisfiable ''medium'' (em_med dto) totalWeight) (\<lambda>_.
                    rbind (assertThresholdSatisfiable ''high'' (em_high dto) totalWeight) (\<lambda>_.
                    let op = \<lparr>so_masterWeight = em_masterWeight dto, so_low = em_low dto, so_med = em_med dto,
                          so_high = em_high dto, so_signer = None\<rparr>
                    in build_tx n (wa_publicKey w) ((if em_masterWeight dto = None \<and> em_low dto = None \<and> em_med dto = None \<and> em_high dto = None
                             then [] else [op]) @
                            map (\<lambda>a. \<lparr>so_masterWeight = None, so_low = None, so_med = None, so_high = None, so_signer = Some a\<rparr>)
                              (em_signers dto)))))))"

definition buildRotateKeyTx ::
  "chain \<Rightarrow> string \<Rightarrow> string \<Rightarrow> rotate_key_dto \<Rightarrow> multisig_db \<Rightarrow> unsigned_tx result" where
  "buildRotateKeyTx n walletId userId dto db =
     rbind (ms_findOne walletId userId db) (\<lambda>w.
     rbind (getAccountSigners n (wa_publicKey w)) (\<lambda>current.
     if rk_old dto = as_accountId current then
       Inl (BadRequest ''The master key cannot be rotated through this endpoint; use enable-multisig with masterWeight'')
     else case find (\<lambda>(k, _). k = rk_old dto) (as_signers current) of
       None \<Rightarrow> Inl (BadRequest (rk_old dto @ '' is not a signer on this account''))
     | Some (_, outgoing) \<Rightarrow>
         if rk_new dto = rk_old dto then Inl (BadRequest ''The new signer must differ from the old signer'')
         else if rk_new dto \<in> fst ` set (as_signers current) then
           Inl (Conflict (rk_new dto @ '' is already a signer on this account''))
         else
           let weight = (case rk_weight dto of None \<Rightarrow> outgoing | Some x \<Rightarrow> x);
               signer = (\<lambda>a. \<lparr>so_masterWeight = None, so_low = None, so_med = None, so_high = None, so_signer = Some a\<rparr>)
           in build_tx n (wa_publicKey w) [signer (rk_new dto, weight), signer (rk_old dto, 0)]))"

end
