(* ===== verification/Multisig_Props.thy ===== *)
theory Multisig_Props
  imports Multisig
begin

text \<open>
  Properties of the wallets and of the multi-signature pipeline: the signing policy, the
  invariant of the pool over every sequence of proposals, signatures, broadcasts and
  cancellations, the primary wallet of a user, and the encryption of keys.
\<close>

section \<open>The state of the pool\<close>

fun submitted_id :: "multisig_event \<Rightarrow> string list" where
  "submitted_id (TRANSACTION_SUBMITTED i _) = [i]"
| "submitted_id _ = []"

definition submissions :: "multisig_db \<Rightarrow> string list" where
  "submissions db = concat (map submitted_id (ms_events db))"

definition ms_sig_ok :: "sdk \<Rightarrow> multisig_db \<Rightarrow> multisig_signature \<Rightarrow> bool" where
  "ms_sig_ok s db g \<longleftrightarrow> 0 < sg_weight g \<and> (case row_by mx_id (sg_transactionId g) (ms_txs db) of
     None \<Rightarrow> False
   | Some tx \<Rightarrow> (case fromXDR s (mx_unsignedXdr tx) (mx_networkPassphrase tx) of
       Some (Classic c) \<Rightarrow> verifySig s (sg_signerPublicKey g) (ct_hash c) (sg_signatureXdr g)
     | _ \<Rightarrow> False))"

abbreviation pool_weight :: "multisig_db \<Rightarrow> string \<Rightarrow> int" where
  "pool_weight db i \<equiv> weight_sum (signatures_of i db)"

definition tx_ok :: "multisig_db \<Rightarrow> multisig_transaction \<Rightarrow> bool" where
  "tx_ok db tx \<longleftrightarrow> 1 \<le> mx_requiredWeight tx \<and>
     (case mx_status tx of
        MS_PENDING_SIGNATURES \<Rightarrow> pool_weight db (mx_id tx) < mx_requiredWeight tx
      | MS_CANCELLED \<Rightarrow> pool_weight db (mx_id tx) < mx_requiredWeight tx
      | MS_EXPIRED \<Rightarrow> True
      | _ \<Rightarrow> mx_requiredWeight tx \<le> pool_weight db (mx_id tx))"

abbreviation sig_key :: "multisig_signature \<Rightarrow> string \<times> string" where
  "sig_key g \<equiv> (sg_transactionId g, sg_signerPublicKey g)"

definition classic :: "sdk \<Rightarrow> multisig_transaction \<Rightarrow> bool" where
  "classic s tx \<longleftrightarrow> (\<exists>c. fromXDR s (mx_unsignedXdr tx) (mx_networkPassphrase tx) = Some (Classic c))"

definition ms_inv :: "sdk \<Rightarrow> multisig_db \<Rightarrow> bool" where
  "ms_inv s db \<longleftrightarrow> (\<forall>i tx. row_by mx_id i (ms_txs db) = Some tx \<longrightarrow> classic s tx) \<and> distinct (map sig_key (ms_sigs db)) \<and> (\<forall>g \<in> set (ms_sigs db). ms_sig_ok s db g) \<and>
     (\<forall>i tx. row_by mx_id i (ms_txs db) = Some tx \<longrightarrow> tx_ok db tx) \<and> distinct (submissions db) \<and>
     (\<forall>i. i \<in> set (submissions db) \<longleftrightarrow> (\<exists>tx. row_by mx_id i (ms_txs db) = Some tx \<and> mx_status tx = MS_SUBMITTED))"

lemma ms_inv_sig: "ms_inv s db \<Longrightarrow> g \<in> set (ms_sigs db) \<Longrightarrow> ms_sig_ok s db g"
  by (simp add: ms_inv_def)

lemma ms_inv_tx_ok: "ms_inv s db \<Longrightarrow> row_by mx_id i (ms_txs db) = Some tx \<Longrightarrow> tx_ok db tx"
  by (simp add: ms_inv_def)

lemma ms_inv_classic: "ms_inv s db \<Longrightarrow> row_by mx_id i (ms_txs db) = Some tx \<Longrightarrow> classic s tx"
  by (simp add: ms_inv_def)

lemma ms_inv_submitted:
  "ms_inv s db \<Longrightarrow> i \<in> set (submissions db) \<longleftrightarrow> (\<exists>tx. row_by mx_id i (ms_txs db) = Some tx \<and> mx_status tx = MS_SUBMITTED)"
  by (simp add: ms_inv_def)

lemma submissions_emit [simp]: "submissions (ms_emit ev db) = submissions db @ submitted_id ev"
  by (simp add: submissions_def ms_emit_def)

lemma ms_emit_fields [simp]:
  "ms_txs (ms_emit ev db) = ms_txs db" "ms_sigs (ms_emit ev db) = ms_sigs db" "wdb_wallets (ms_emit ev db) = wdb_wallets db"
  by (simp_all add: ms_emit_def)

lemma submissions_update [simp]:
  "submissions (db\<lparr>ms_txs := t\<rparr>) = submissions db" "submissions (db\<lparr>ms_sigs := g\<rparr>) = submissions db"
  "submissions (db\<lparr>ms_history := h\<rparr>) = submissions db" "submissions (db\<lparr>wdb_audit := a\<rparr>) = submissions db"
  by (simp_all add: submissions_def)

lemma signatures_of_cong: "ms_sigs db' = ms_sigs db \<Longrightarrow> signatures_of i db' = signatures_of i db"
  by (simp add: signatures_of_def)

lemma weight_sum_append [simp]: "weight_sum (xs @ ys) = weight_sum xs + weight_sum ys"
proof -
  have "foldl (\<lambda>n g. n + sg_weight g) k gs = k + foldl (\<lambda>n g. n + sg_weight g) 0 gs" for k gs
  proof (induction gs arbitrary: k)
    case (Cons g gs)
    show ?case using Cons [of "k + sg_weight g"] Cons [of "sg_weight g"] by simp
  qed simp
  from this [of "weight_sum xs" ys] show ?thesis by (simp only: weight_sum_def foldl_append)
qed

lemma signatures_of_unknown:
  assumes "ms_inv s db" and "row_by mx_id i (ms_txs db) = None"
  shows "signatures_of i db = []"
proof -
  have "sg_transactionId g \<noteq> i" if "g \<in> set (ms_sigs db)" for g
    using ms_inv_sig [OF assms(1) that] assms(2) by (auto simp: ms_sig_ok_def)
  then show ?thesis by (simp add: signatures_of_def filter_empty_conv)
qed

lemma tx_ok_cong:
  "signatures_of (mx_id tx) db' = signatures_of (mx_id tx) db \<Longrightarrow> tx_ok db' tx \<longleftrightarrow> tx_ok db tx"
  by (cases "mx_status tx") (simp_all add: tx_ok_def)

text \<open>Every operation writes one row and appends signatures of that row.\<close>

lemma ms_inv_write:
  assumes inv: "ms_inv s db"
    and rows: "\<And>j. row_by mx_id j (ms_txs db') = (if j = i then Some tx' else row_by mx_id j (ms_txs db))"
    and sigs: "ms_sigs db' = ms_sigs db @ gs" "distinct (map sig_key (ms_sigs db @ gs))"
    and new: "\<And>g. g \<in> set gs \<Longrightarrow> sg_transactionId g = i \<and> ms_sig_ok s db' g"
    and old: "\<And>tx. row_by mx_id i (ms_txs db) = Some tx \<Longrightarrow> mx_unsignedXdr tx' = mx_unsignedXdr tx \<and>
       mx_networkPassphrase tx' = mx_networkPassphrase tx \<and> mx_status tx \<noteq> MS_SUBMITTED"
    and fresh: "row_by mx_id i (ms_txs db) = None \<Longrightarrow> classic s tx'"
    and ok: "tx_ok db' tx'"
    and subs: "submissions db' = submissions db @ (if mx_status tx' = MS_SUBMITTED then [i] else [])"
  shows "ms_inv s db'"
proof -
  have "classic s tx'" using fresh old ms_inv_classic [OF inv, of i] by (cases "row_by mx_id i (ms_txs db)") (auto simp: classic_def)
  then have cl: "classic s tx" if "row_by mx_id j (ms_txs db') = Some tx" for j tx
    using that rows [of j] ms_inv_classic [OF inv, of j tx] by (auto split: if_splits)
  have keep: "ms_sig_ok s db' g" if "ms_sig_ok s db g" for g
    using that old rows [of "sg_transactionId g"]
    by (cases "sg_transactionId g = i") (auto simp: ms_sig_ok_def split: option.splits)
  have other: "tx_ok db' tx" if "row_by mx_id j (ms_txs db) = Some tx" "j \<noteq> i" for j tx
  proof -
    have "signatures_of j db' = signatures_of j db"
      using new that(2) by (auto simp: signatures_of_def sigs filter_empty_conv)
    moreover have "mx_id tx = j" and "tx_ok db tx" using row_by_SomeD [OF that(1)] ms_inv_tx_ok [OF inv that(1)] by simp_all
    ultimately show ?thesis using tx_ok_cong [of tx db' db] by simp
  qed
  have notin: "i \<notin> set (submissions db)" using ms_inv_submitted [OF inv, of i] old by auto
  have "j \<in> set (submissions db') \<longleftrightarrow> (\<exists>tx. row_by mx_id j (ms_txs db') = Some tx \<and> mx_status tx = MS_SUBMITTED)" for j
  proof (cases "j = i")
    case False
    then have "j \<in> set (submissions db') \<longleftrightarrow> j \<in> set (submissions db)" by (simp add: subs)
    then show ?thesis using ms_inv_submitted [OF inv, of j] False rows [of j] by simp
  qed (use notin in \<open>simp add: subs rows\<close>)
  moreover have "distinct (submissions db')" using inv notin by (auto simp: ms_inv_def subs)
  moreover have "\<forall>g \<in> set (ms_sigs db'). ms_sig_ok s db' g" using inv keep new by (auto simp: ms_inv_def sigs)
  moreover have "tx_ok db' tx" if "row_by mx_id j (ms_txs db') = Some tx" for j tx
    using that rows [of j] ok other [of j tx] by (auto split: if_splits)
  ultimately show ?thesis using sigs cl by (simp add: ms_inv_def)
qed

lemma ms_inv_cong:
  assumes "ms_inv s db" "ms_txs db' = ms_txs db" "ms_sigs db' = ms_sigs db" "submissions db' = submissions db"
  shows "ms_inv s db'"
proof -
  have "ms_sig_ok s db' g \<longleftrightarrow> ms_sig_ok s db g" and "tx_ok db' tx \<longleftrightarrow> tx_ok db tx" for g tx
    by (simp_all add: ms_sig_ok_def assms(2) tx_ok_cong [OF signatures_of_cong [OF assms(3)]])
  then show ?thesis using assms by (simp add: ms_inv_def)
qed

text \<open>A change of status of a row that is not submitted yet.\<close>

lemma ms_inv_status:
  assumes inv: "ms_inv s db" and row: "row_by mx_id i (ms_txs db) = Some tx" "mx_status tx \<noteq> MS_SUBMITTED"
    and tx': "mx_id tx' = i" "mx_unsignedXdr tx' = mx_unsignedXdr tx" "mx_networkPassphrase tx' = mx_networkPassphrase tx"
    and ok: "tx_ok db tx'"
    and db': "ms_txs db' = save_row mx_id tx' (ms_txs db)" "ms_sigs db' = ms_sigs db"
      "submissions db' = submissions db @ (if mx_status tx' = MS_SUBMITTED then [i] else [])"
  shows "ms_inv s db'"
proof (rule ms_inv_write [where db = db and i = i and tx' = tx' and gs = "[]"])
  show "tx_ok db' tx'" using ok by (simp add: tx_ok_cong [OF signatures_of_cong [OF db'(2)]])
qed (use assms in \<open>auto simp: row_by_save_row ms_inv_def\<close>)

section \<open>The operations keep the invariant\<close>

lemma getTxOrThrow_iff: "getTxOrThrow i db = Inr tx \<longleftrightarrow> row_by mx_id i (ms_txs db) = Some tx"
  by (auto simp: getTxOrThrow_def split: option.splits)

lemma propose_ok:
  assumes "propose s n p e wid u dto db = Inr (v, db')"
  shows "db' = ms_emit (TRANSACTION_PROPOSED (uuid e 0) (mx_walletId (mv_tx v)) (mx_requiredWeight (mv_tx v))
      (mx_thresholdCategory (mv_tx v)) u) (save_tx (mv_tx v) db)"
    and "mx_id (mv_tx v) = uuid e 0" and "mx_status (mv_tx v) = MS_PENDING_SIGNATURES" and "1 \<le> mx_requiredWeight (mv_tx v)"
    and "classic s (mv_tx v)"
  using assms by (auto simp: propose_def classic_def parseClassicTransaction_def rbind_Inr_iff requiredWeightForCategory_def Let_def buildStatus_def split: if_splits option.splits parsed_tx.splits)

lemma propose_inv:
  assumes "ms_inv s db" and "row_by mx_id (uuid e 0) (ms_txs db) = None"
    and ok: "propose s n p e wid u dto db = Inr (v, db')"
  shows "ms_inv s db'"
proof -
  note db' = propose_ok(1) [OF ok]
  show ?thesis
  proof (rule ms_inv_write [where db = db and i = "uuid e 0" and tx' = "mv_tx v" and gs = "[]"])
    have "signatures_of (uuid e 0) db' = []"
      using signatures_of_unknown [OF assms(1,2)] by (simp add: db' signatures_of_def)
    then show "tx_ok db' (mv_tx v)" using propose_ok [OF ok] by (simp add: tx_ok_def weight_sum_def)
  qed (use assms(1,2) propose_ok(2,3,5) [OF ok] in \<open>auto simp: row_by_save_row ms_inv_def db'\<close>)
qed

lemma cancel_ok:
  assumes "cancel i u db = Inr (v, db')"
  obtains tx where "row_by mx_id i (ms_txs db) = Some tx" "mx_status tx = MS_PENDING_SIGNATURES"
    "db' = save_tx (tx\<lparr>mx_status := MS_CANCELLED\<rparr>) db"
  using assms by (auto simp: cancel_def cancel_rest_def rbind_Inr_iff getTxOrThrow_iff Let_def split: if_splits)

lemma cancel_inv:
  assumes inv: "ms_inv s db" and ok: "cancel i u db = Inr (v, db')"
  shows "ms_inv s db'"
  using ok
proof (rule cancel_ok)
  fix tx assume row: "row_by mx_id i (ms_txs db) = Some tx" "mx_status tx = MS_PENDING_SIGNATURES"
    and db': "db' = save_tx (tx\<lparr>mx_status := MS_CANCELLED\<rparr>) db"
  have "tx_ok db (tx\<lparr>mx_status := MS_CANCELLED\<rparr>)" using ms_inv_tx_ok [OF inv row(1)] row(2) by (simp add: tx_ok_def)
  then show ?thesis using row row_by_SomeD [OF row(1)] unfolding db'
    by (intro ms_inv_status [OF inv row(1)]) auto
qed


text \<open>Marking a live transaction as expired, and the three ways a broadcast ends.\<close>

lemma expire_inv:
  assumes inv: "ms_inv s db" and row: "row_by mx_id i (ms_txs db) = Some tx" "mx_status tx \<noteq> MS_SUBMITTED"
  shows "ms_inv s (save_tx (tx\<lparr>mx_status := MS_EXPIRED\<rparr>) db)"
proof -
  have "tx_ok db (tx\<lparr>mx_status := MS_EXPIRED\<rparr>)" using ms_inv_tx_ok [OF inv row(1)] by (simp add: tx_ok_def)
  then show ?thesis using row_by_SomeD [OF row(1)] by (intro ms_inv_status [OF inv row]) auto
qed

lemma broadcast_rest_cases:
  assumes "broadcast_rest s n e tx gs db = (r, db')"
  obtains (same) "db' = db"
  | (row) tx' evs h where "mx_status tx = MS_READY"
      "mx_status tx' \<in> {MS_EXPIRED, MS_FAILED, MS_SUBMITTED}" "mx_id tx' = mx_id tx"
      "mx_unsignedXdr tx' = mx_unsignedXdr tx" "mx_networkPassphrase tx' = mx_networkPassphrase tx"
      "mx_requiredWeight tx' = mx_requiredWeight tx"
      "concat (map submitted_id evs) = (if mx_status tx' = MS_SUBMITTED then [mx_id tx] else [])"
      "db' = db\<lparr>ms_txs := save_row mx_id tx' (ms_txs db), ms_events := ms_events db @ evs, ms_history := h\<rparr>"
proof (cases "db' = db")
  case False
  with assms have tx: "mx_status tx = MS_READY" by (auto simp: broadcast_rest_def split: if_splits)
  let ?t = "tx\<lparr>mx_status := MS_EXPIRED\<rparr>"
  show thesis
  proof (cases "is_elapsed (now e) tx")
    case True
    with assms tx have "db' = save_tx ?t db" by (auto simp: broadcast_rest_def expireIfElapsed_def)
    then show thesis using tx by (intro row [of ?t "[]" "ms_history db"]) simp_all
  next
    case live: False
    obtain out where out: "submitTransaction n (attachSignatures s (mx_unsignedXdr tx) (map sg_signatureXdr gs)) = out" by simp
    show thesis
    proof (cases out)
      case (Inl err)
      with assms False tx live out have "db' = ms_emit (TRANSACTION_FAILED (mx_id tx) (error_message err))
          (save_tx (tx\<lparr>mx_status := MS_FAILED, mx_failureReason := Some (error_message err)\<rparr>) db)"
        by (auto simp: broadcast_rest_def expireIfElapsed_def Let_def split: option.splits)
      then show thesis using tx by (intro row [of "tx\<lparr>mx_status := MS_FAILED, mx_failureReason := Some (error_message err)\<rparr>"
            "[TRANSACTION_FAILED (mx_id tx) (error_message err)]" "ms_history db"]) (simp_all add: ms_emit_def)
    next
      case (Inr hash)
      let ?t = "tx\<lparr>mx_status := MS_SUBMITTED, mx_submittedTxHash := Some hash, mx_failureReason := None\<rparr>"
      from assms False tx live out Inr have "db' = ms_emit (TRANSACTION_SUBMITTED (mx_id tx) hash) (recordToHistory n ?t hash (save_tx ?t db))"
        by (auto simp: broadcast_rest_def expireIfElapsed_def Let_def split: option.splits)
      then show thesis using tx by (intro row [of ?t "[TRANSACTION_SUBMITTED (mx_id tx) hash]" "ms_history db'"])
          (auto simp: ms_emit_def recordToHistory_def)
    qed
  qed
qed (rule same)

lemma broadcast_cases:
  assumes "broadcast s n e i u db = (r, db')"
  obtains (same) "db' = db"
  | (row) tx tx' evs h where "row_by mx_id i (ms_txs db) = Some tx" "mx_status tx = MS_READY"
      "mx_status tx' \<in> {MS_EXPIRED, MS_FAILED, MS_SUBMITTED}" "mx_id tx' = mx_id tx"
      "mx_unsignedXdr tx' = mx_unsignedXdr tx" "mx_networkPassphrase tx' = mx_networkPassphrase tx"
      "mx_requiredWeight tx' = mx_requiredWeight tx"
      "concat (map submitted_id evs) = (if mx_status tx' = MS_SUBMITTED then [mx_id tx] else [])"
      "db' = db\<lparr>ms_txs := save_row mx_id tx' (ms_txs db), ms_events := ms_events db @ evs, ms_history := h\<rparr>"
proof (cases "db' = db")
  case False
  with assms obtain tx where tx: "row_by mx_id i (ms_txs db) = Some tx" "broadcast_rest s n e tx (signatures_of i db) db = (r, db')"
    by (auto simp: broadcast_def rbind_Inr_iff getTxOrThrow_iff split: sum.splits)
  from tx(2) show thesis by (cases rule: broadcast_rest_cases) (use False row [OF tx(1)] in blast)+
qed (rule same)

lemma broadcast_inv:
  assumes inv: "ms_inv s db" and ok: "broadcast s n e i u db = (r, db')"
  shows "ms_inv s db'"
  using ok
proof (cases rule: broadcast_cases)
  case same
  then show ?thesis using inv by simp
next
  case (row tx tx' evs h)
  have "tx_ok db tx'" using ms_inv_tx_ok [OF inv row(1)] row(2-7) by (auto simp: tx_ok_def)
  then show ?thesis using row row_by_SomeD [OF row(1)] by (intro ms_inv_status [OF inv row(1)]) (auto simp: submissions_def)
qed


text \<open>A call that adds a signature: nothing, an audit record, an expiry, or a pooled signature.\<close>

lemma resolveSignature_frame:
  "resolveSignature s c cfg tx u dto db = Inr (x, db') \<Longrightarrow> \<exists>a. db' = db\<lparr>wdb_audit := a\<rparr>"
  by (auto simp: resolveSignature_def Let_def rbind_Inr_iff split: if_splits prod.splits intro: exI [of _ "wdb_audit db"])

lemma addSignature_rest_cases:
  assumes "addSignature_rest s c cfg n e u dto tx db = (r, db')"
  obtains (same) a where "db' = db\<lparr>wdb_audit := a\<rparr>"
  | (expired) "mx_status tx = MS_PENDING_SIGNATURES"
      "db' = save_tx (tx\<lparr>mx_status := MS_EXPIRED\<rparr>) db"
  | (pooled) a pk sig w b ready tx' gs db1 rebuilt cfgs where
      "mx_status tx = MS_PENDING_SIGNATURES" "pool_signature e tx pk sig w b (db\<lparr>wdb_audit := a\<rparr>) = Inr (ready, tx', gs, db1)"
      "0 < w" "getAccountSigners n (mx_sourceAccount tx) = Inr cfgs" "(pk, w) \<in> set (as_signers cfgs)"
      "fromXDR s (mx_unsignedXdr tx) (mx_networkPassphrase tx) = Some rebuilt" "verifyDecoratedSignature s pk sig rebuilt"
      "db' = (let d = ms_emit (TRANSACTION_SIGNED (mx_id tx') pk w) db1
              in if ready then ms_emit (TRANSACTION_READY (mx_id tx')) d else d)"
      "r = Inr (buildStatus tx' gs)"
proof (cases "\<exists>a. db' = db\<lparr>wdb_audit := a\<rparr>")
  case False
  have "db = db\<lparr>wdb_audit := wdb_audit db\<rparr>" by simp
  with False have "db' \<noteq> db" by metis
  with assms have tx: "mx_status tx = MS_PENDING_SIGNATURES"
    by (auto simp: addSignature_rest_def split: if_splits)
  show thesis
  proof (cases "is_elapsed (now e) tx")
    case True
    then have "db' = save_tx (tx\<lparr>mx_status := MS_EXPIRED\<rparr>) db"
      using assms tx by (auto simp: addSignature_rest_def expireIfElapsed_def)
    then show thesis by (rule expired [OF tx])
  next
    case live: False
    show thesis
    proof (cases "resolveSignature s c cfg tx u dto db")
      case (Inl err)
      then have "db' = db\<lparr>wdb_audit := wdb_audit db\<rparr>"
        using assms tx live by (auto simp: addSignature_rest_def expireIfElapsed_def)
      then show thesis using False by blast
    next
      case (Inr x)
      obtain pk sig b d where x: "x = ((pk, sig, b), d)" by (metis prod.exhaust)
      from Inr x resolveSignature_frame obtain a where d: "d = db\<lparr>wdb_audit := a\<rparr>" by blast
      note run = assms [unfolded addSignature_rest_def expireIfElapsed_def]
      have "db' \<noteq> d" using False d by blast
      with run tx live Inr x obtain cfgs where cfgs: "getAccountSigners n (mx_sourceAccount tx) = Inr cfgs"
        by (auto split: sum.splits)
      with run tx live Inr x \<open>db' \<noteq> d\<close> obtain k w where find: "find (\<lambda>(k, w). k = pk \<and> 0 < w) (as_signers cfgs) = Some (k, w)"
        by (auto split: option.splits)
      then have kw: "k = pk" "0 < w" "(pk, w) \<in> set (as_signers cfgs)"
        by (auto simp: find_Some_iff) (metis nth_mem)
      from run tx live Inr x \<open>db' \<noteq> d\<close> cfgs find obtain rebuilt where rebuilt:
        "fromXDR s (mx_unsignedXdr tx) (mx_networkPassphrase tx) = Some rebuilt"
        by (auto split: option.splits)
      with run tx live Inr x \<open>db' \<noteq> d\<close> cfgs find have ver: "verifyDecoratedSignature s pk sig rebuilt"
        by (auto split: if_splits)
      with run tx live Inr x \<open>db' \<noteq> d\<close> cfgs find rebuilt obtain y where
        pool: "pool_signature e tx pk sig w b d = Inr y"
        by (auto split: sum.splits)
      obtain ready tx' gs db1 where y: "y = (ready, tx', gs, db1)" by (metis prod.exhaust)
      show thesis
        using run tx live Inr x cfgs find rebuilt ver pool y d
        by (intro pooled [OF tx, of pk sig w b a ready tx' gs db1 cfgs rebuilt] kw(2,3) cfgs rebuilt ver)
          (auto simp: Let_def)
    qed
  qed
qed (use same in blast)


lemma addSignature_cases:
  assumes "addSignature s c cfg n e i u dto db = (r, db')"
  obtains (same) a where "db' = db\<lparr>wdb_audit := a\<rparr>"
  | (expired) tx where "row_by mx_id i (ms_txs db) = Some tx" "mx_status tx = MS_PENDING_SIGNATURES"
      "db' = save_tx (tx\<lparr>mx_status := MS_EXPIRED\<rparr>) db"
  | (pooled) tx a pk sig w b ready tx' gs db1 rebuilt cfgs where "row_by mx_id i (ms_txs db) = Some tx"
      "mx_status tx = MS_PENDING_SIGNATURES" "pool_signature e tx pk sig w b (db\<lparr>wdb_audit := a\<rparr>) = Inr (ready, tx', gs, db1)"
      "0 < w" "getAccountSigners n (mx_sourceAccount tx) = Inr cfgs" "(pk, w) \<in> set (as_signers cfgs)"
      "fromXDR s (mx_unsignedXdr tx) (mx_networkPassphrase tx) = Some rebuilt" "verifyDecoratedSignature s pk sig rebuilt"
      "db' = (let d = ms_emit (TRANSACTION_SIGNED (mx_id tx') pk w) db1
              in if ready then ms_emit (TRANSACTION_READY (mx_id tx')) d else d)"
      "r = Inr (buildStatus tx' gs)"
proof (cases "row_by mx_id i (ms_txs db)")
  case None
  then have "db' = db\<lparr>wdb_audit := wdb_audit db\<rparr>" using assms by (simp add: addSignature_def getTxOrThrow_def)
  then show thesis by (rule same)
next
  case (Some tx)
  then have "addSignature_rest s c cfg n e u dto tx db = (r, db')" using assms by (simp add: addSignature_def getTxOrThrow_def)
  then show thesis by (cases rule: addSignature_rest_cases) (use same expired [OF Some] pooled [OF Some] in blast)+
qed

lemma pool_signature_ok:
  assumes "pool_signature e tx pk sig w b db = Inr (ready, tx', gs, db')"
  obtains g where "g = \<lparr>sg_id = uuid e 0, sg_transactionId = mx_id tx, sg_signerPublicKey = pk,
      sg_signatureXdr = sig, sg_weight = w, sg_signedByUserId = b, sg_createdAt = now e\<rparr>"
    "\<And>h. h \<in> set (ms_sigs db) \<Longrightarrow> sig_key h \<noteq> sig_key g" "ms_sigs db' = ms_sigs db @ [g]"
    "submissions db' = submissions db" "ready \<longleftrightarrow> mx_requiredWeight tx \<le> pool_weight db' (mx_id tx)"
    "tx' = (if ready then tx\<lparr>mx_status := MS_READY\<rparr> else tx)"
    "ms_txs db' = (if ready then save_row mx_id tx' (ms_txs db) else ms_txs db)"
proof -
  let ?g = "\<lparr>sg_id = uuid e 0, sg_transactionId = mx_id tx, sg_signerPublicKey = pk,
      sg_signatureXdr = sig, sg_weight = w, sg_signedByUserId = b, sg_createdAt = now e\<rparr>"
  let ?d = "db\<lparr>ms_sigs := ms_sigs db @ [?g]\<rparr>"
  have fresh: "\<not> (\<exists>h \<in> set (ms_sigs db). sg_transactionId h = mx_id tx \<and> sg_signerPublicKey h = pk)"
    using assms unfolding pool_signature_def by (metis Inl_Inr_False)
  then have new: "sig_key h \<noteq> sig_key ?g" if "h \<in> set (ms_sigs db)" for h using that by auto
  have run: "(if mx_requiredWeight tx \<le> pool_weight ?d (mx_id tx)
      then Inr (True, tx\<lparr>mx_status := MS_READY\<rparr>, signatures_of (mx_id tx) ?d, save_tx (tx\<lparr>mx_status := MS_READY\<rparr>) ?d)
      else Inr (False, tx, signatures_of (mx_id tx) ?d, ?d)) = (Inr (ready, tx', gs, db') :: http_error + _)"
    using assms unfolding pool_signature_def if_not_P [OF fresh] Let_def .
  have same: "pool_weight db' (mx_id tx) = pool_weight ?d (mx_id tx)"
    using run by (auto simp: signatures_of_def split: if_splits)
  show thesis
    by (rule that [OF refl new]) (use run same in \<open>auto split: if_splits\<close>)
qed

lemma addSignature_inv:
  assumes inv: "ms_inv s db" and ok: "addSignature s c cfg n e i u dto db = (r, db')"
  shows "ms_inv s db'"
  using ok
proof (cases rule: addSignature_cases)
  case (same a)
  then show ?thesis using inv by (intro ms_inv_cong [OF inv]) simp_all
next
  case (expired tx)
  then show ?thesis using expire_inv [OF inv expired(1)] by simp
next
  case (pooled tx a pk sig w b ready tx' gs db1 rebuilt cfgs)
  from pooled(3) obtain g where g: "g = \<lparr>sg_id = uuid e 0, sg_transactionId = mx_id tx, sg_signerPublicKey = pk,
      sg_signatureXdr = sig, sg_weight = w, sg_signedByUserId = b, sg_createdAt = now e\<rparr>"
    "\<And>h. h \<in> set (ms_sigs db) \<Longrightarrow> sig_key h \<noteq> sig_key g" "ms_sigs db1 = ms_sigs db @ [g]"
    "submissions db1 = submissions db" "ready \<longleftrightarrow> mx_requiredWeight tx \<le> pool_weight db1 (mx_id tx)"
    "tx' = (if ready then tx\<lparr>mx_status := MS_READY\<rparr> else tx)"
    "ms_txs db1 = (if ready then save_row mx_id tx' (ms_txs db) else ms_txs db)"
    by (rule pool_signature_ok) simp
  note idx = row_by_SomeD [OF pooled(1)]
  have rows: "row_by mx_id j (ms_txs db1) = (if j = i then Some tx' else row_by mx_id j (ms_txs db))" for j
    using pooled(1) idx g(6,7) by (auto simp: row_by_save_row)
  have "ms_inv s db1"
  proof (rule ms_inv_write [OF inv rows g(3)])
    show "distinct (map sig_key (ms_sigs db @ [g]))" using inv g(2) by (fastforce simp: ms_inv_def simp del: Pair_inject)
    have "ms_sig_ok s db1 g" using pooled(4,7,8) idx ms_inv_classic [OF inv pooled(1)]
      by (auto simp: ms_sig_ok_def rows g(1,6) verifyDecoratedSignature_def classic_def split: parsed_tx.splits)
    then show "sg_transactionId h = i \<and> ms_sig_ok s db1 h" if "h \<in> set [g]" for h using that idx by (simp add: g(1))
    show "tx_ok db1 tx'" using ms_inv_tx_ok [OF inv pooled(1)] pooled(2) g(5,6) by (auto simp: tx_ok_def)
  qed (use pooled(1,2) g(4,6) in auto)
  then show ?thesis by (rule ms_inv_cong) (simp_all add: pooled(9) Let_def)
qed

section \<open>The pool as a state machine\<close>

text \<open>
  A step is one call of an operation that changes the pool, at any time, by any user, with any
  state of the network; the database generates fresh identifiers. The SDK is the same throughout.
\<close>

inductive ms_step :: "sdk \<Rightarrow> multisig_db \<Rightarrow> multisig_db \<Rightarrow> bool" for s where
  step_propose: "row_by mx_id (uuid e 0) (ms_txs db) = None \<Longrightarrow> propose s n p e wid u dto db = Inr (v, db') \<Longrightarrow> ms_step s db db'"
| step_addSignature: "addSignature s c cfg n e i u ad db = (r, db') \<Longrightarrow> ms_step s db db'"
| step_broadcast: "broadcast s n e i u db = (r, db') \<Longrightarrow> ms_step s db db'"
| step_cancel: "cancel i u db = Inr (v, db') \<Longrightarrow> ms_step s db db'"

inductive ms_reachable :: "sdk \<Rightarrow> multisig_db \<Rightarrow> bool" for s where
  ms_start: "ms_txs db = [] \<Longrightarrow> ms_sigs db = [] \<Longrightarrow> ms_events db = [] \<Longrightarrow> ms_reachable s db"
| ms_next: "ms_reachable s db \<Longrightarrow> ms_step s db db' \<Longrightarrow> ms_reachable s db'"

lemma ms_step_inv: "ms_step s db db' \<Longrightarrow> ms_inv s db \<Longrightarrow> ms_inv s db'"
  by (induction rule: ms_step.induct) (auto intro: propose_inv addSignature_inv broadcast_inv cancel_inv)

lemma ms_reachable_inv: "ms_reachable s db \<Longrightarrow> ms_inv s db"
proof (induction rule: ms_reachable.induct)
  case (ms_start db)
  then show ?case by (simp add: ms_inv_def submissions_def)
qed (rule ms_step_inv)

text \<open>The status of a stored transaction moves along these edges only.\<close>

definition ms_edge :: "multisig_status \<Rightarrow> multisig_status \<Rightarrow> bool" where
  "ms_edge a b \<longleftrightarrow> a = b \<or> (a, b) \<in> {(MS_PENDING_SIGNATURES, MS_READY), (MS_PENDING_SIGNATURES, MS_EXPIRED),
     (MS_PENDING_SIGNATURES, MS_CANCELLED), (MS_READY, MS_EXPIRED), (MS_READY, MS_FAILED), (MS_READY, MS_SUBMITTED)}"

lemma save_edge:
  assumes "row_by mx_id j t = Some tx1" and "row_by mx_id i t = Some tx" and "mx_id tx' = mx_id tx1"
    and "ms_edge (mx_status tx1) (mx_status tx')" and "mx_status tx' \<noteq> mx_status tx1"
  shows "\<exists>x. row_by mx_id i (save_row mx_id tx' t) = Some x \<and> ms_edge (mx_status tx) (mx_status x) \<and>
    (mx_status x = mx_status tx \<longrightarrow> x = tx)"
proof (cases "i = j")
  case True
  then show ?thesis using assms row_by_SomeD [OF assms(1)] by (simp add: row_by_save_row)
next
  case False
  then show ?thesis using assms row_by_SomeD [OF assms(1)] by (simp add: row_by_save_row ms_edge_def)
qed

lemma ms_step_edge:
  assumes "ms_step s db db'" and row: "row_by mx_id i (ms_txs db) = Some tx"
  shows "\<exists>tx'. row_by mx_id i (ms_txs db') = Some tx' \<and> ms_edge (mx_status tx) (mx_status tx') \<and>
    (mx_status tx' = mx_status tx \<longrightarrow> tx' = tx)"
  using assms(1)
proof (cases rule: ms_step.cases)
  case (step_propose e n p wid u dto v)
  then show ?thesis using row propose_ok(1,2) [OF step_propose(2)] by (auto simp: row_by_save_row ms_edge_def)
next
  case (step_addSignature c cfg n e j u ad r)
  then show ?thesis
  proof (cases rule: addSignature_cases)
    case (same a)
    then show ?thesis using row by (simp add: ms_edge_def)
  next
    case (expired tx1)
    then show ?thesis using save_edge [OF expired(1) row, of "tx1\<lparr>mx_status := MS_EXPIRED\<rparr>"] by (simp add: ms_edge_def)
  next
    case (pooled tx1 a pk sig w b ready tx' gs db1 rebuilt cfgs)
    from pooled(3) have tx': "tx' = (if ready then tx1\<lparr>mx_status := MS_READY\<rparr> else tx1)"
      and txs: "ms_txs db1 = (if ready then save_row mx_id tx' (ms_txs db) else ms_txs db)"
      by (rule pool_signature_ok, simp)+
    have "ms_txs db' = ms_txs db1" by (simp add: pooled(9) Let_def)
    then show ?thesis using row pooled(2) tx' txs save_edge [OF pooled(1) row, of tx'] by (cases ready) (auto simp: ms_edge_def)
  qed
next
  case (step_broadcast n e j u r)
  then show ?thesis
  proof (cases rule: broadcast_cases)
    case same
    then show ?thesis using row by (simp add: ms_edge_def)
  next
    case (row tx1 tx' evs h)
    then show ?thesis using save_edge [OF row(1) assms(2), of tx'] by (auto simp: ms_edge_def)
  qed
next
  case (step_cancel j u v)
  then show ?thesis
  proof (rule cancel_ok)
    fix tx1 assume "row_by mx_id j (ms_txs db) = Some tx1" "mx_status tx1 = MS_PENDING_SIGNATURES"
      "db' = save_tx (tx1\<lparr>mx_status := MS_CANCELLED\<rparr>) db"
    then show ?thesis using save_edge [OF _ row, of j tx1 "tx1\<lparr>mx_status := MS_CANCELLED\<rparr>"] by (simp add: ms_edge_def)
  qed
qed


lemma weight_sum_sum_list: "weight_sum gs = sum_list (map sg_weight gs)"
proof (induction gs)
  case (Cons g gs)
  have "weight_sum (g # gs) = weight_sum [g] + weight_sum gs" using weight_sum_append [of "[g]" gs] by simp
  then show ?case using Cons by (simp add: weight_sum_def)
qed (simp add: weight_sum_def)

lemma distinct_signers:
  assumes "distinct (map sig_key gs)"
  shows "distinct (map sg_signerPublicKey (filter (\<lambda>g. sg_transactionId g = i) gs))"
  using assms by (induction gs) (auto simp: image_iff)

lemma not_isl_pair: "\<not> isl r \<Longrightarrow> \<exists>x y. r = Inr (x, y)"
  by (cases r) auto

section \<open>A concrete network\<close>

text \<open>An account of two signers of weight one that asks for both, and a payment from it.\<close>

definition demo_tx :: classic_tx where
  "demo_tx = \<lparr>ct_source = ''GA'', ct_operations = [\<lparr>op_type = Some ''payment'', op_amount = None, op_destination = None, op_asset = None\<rparr>],
     ct_maxTime = None, ct_hash = ''h''\<rparr>"

definition demo_sdk :: sdk where
  "demo_sdk = \<lparr>fromXDR = (\<lambda>x p. if x = ''pay'' then Some (Classic demo_tx) else None),
     publicKeyOf = (\<lambda>k. ''G'' @ drop 1 k), secretOf = (\<lambda>k. ''S'' @ drop 1 k),
     signDecorated = (\<lambda>k h. ''G'' @ drop 1 k @ h), verifySig = (\<lambda>pk h sig. sig = pk @ h),
     signEnvelope = (\<lambda>x k. x @ k), attachSignatures = (\<lambda>x sigs. x @ concat sigs)\<rparr>"

definition demo_cipher :: cipher where
  "demo_cipher = \<lparr>ci_iv = ''00'', ci_tag = (\<lambda>_ _. ''ff''), ci_seal = (\<lambda>_ x. x), ci_open = (\<lambda>_ _ x. Inr x)\<rparr>"

definition demo_config :: wallet_config where
  "demo_config = \<lparr>wc_passphrase = Some ''net'', wc_allowedOperations = ConfigMissing\<rparr>"

definition demo_chain :: chain where
  "demo_chain = \<lparr>getAccountSigners = (\<lambda>_. Inr \<lparr>as_accountId = ''GA'', as_masterWeight = 1, as_low = 0, as_med = 2, as_high = 2,
     as_signers = [(''GA'', 1), (''GB'', 1)]\<rparr>), loadSequence = (\<lambda>_. Inr ''7''), submitTransaction = (\<lambda>_. Inr ''hash''), record_fails = (\<lambda>_. False)\<rparr>"

definition demo_wallet :: "string \<Rightarrow> string \<Rightarrow> string \<Rightarrow> wallet" where
  "demo_wallet i u k = \<lparr>wa_id = i, wa_userId = u, wa_publicKey = ''G'' @ k, wa_encryptedSecretKey = ''00:ff:S'' @ k, wa_label = None,
     wa_status = W_ACTIVE, wa_isPrimary = True, wa_cachedBalance = ''0'', wa_balanceSyncedAt = None,
     wa_multisigThreshold = None, wa_cosigners = None, wa_createdAt = 0\<rparr>"

definition demo_db :: multisig_db where
  "demo_db = \<lparr>wdb_wallets = [demo_wallet ''a'' ''ann'' ''A'', demo_wallet ''b'' ''bob'' ''B''], wdb_audit = [],
     ms_txs = [], ms_sigs = [], ms_events = [], ms_history = []\<rparr>"

definition demo_env :: "string \<Rightarrow> env" where
  "demo_env i = \<lparr>now = 1, uuid = (\<lambda>_. i), keypair = ''GK''\<rparr>"

definition demo_propose :: "(multisig_tx_view \<times> multisig_db) result" where
  "demo_propose = propose demo_sdk demo_chain ''net'' (demo_env ''t'') ''a'' ''ann'' \<lparr>pd_unsignedXdr = ''pay'', pd_description = None\<rparr> demo_db"

definition external :: "string \<Rightarrow> string \<Rightarrow> add_signature_dto" where
  "external k sig = \<lparr>as_walletId = None, as_signerPublicKey = Some k, as_signatureXdr = Some sig\<rparr>"

definition demo_sign :: "string \<Rightarrow> string \<Rightarrow> multisig_db \<Rightarrow> multisig_db" where
  "demo_sign i k db = snd (addSignature demo_sdk demo_cipher demo_config demo_chain (demo_env i) ''t'' ''ann'' (external k (k @ ''h'')) db)"

definition demo_ready :: multisig_db where
  "demo_ready = (case demo_propose of Inr (_, db) \<Rightarrow> demo_sign ''g2'' ''GB'' (demo_sign ''g1'' ''GA'' db) | Inl _ \<Rightarrow> demo_db)"


definition demo_waiting :: multisig_db where
  "demo_waiting = (case demo_propose of Inr (_, db) \<Rightarrow> demo_sign ''g1'' ''GA'' db | Inl _ \<Rightarrow> demo_db)"

lemma demo_start: "ms_reachable demo_sdk demo_db"
  by (rule ms_start) (simp_all add: demo_db_def)

lemma demo_sign_step: "ms_step demo_sdk db (demo_sign i k db)"
  unfolding demo_sign_def
  by (rule step_addSignature [of _ demo_cipher demo_config demo_chain "demo_env i" "''t''" "''ann''" "external k (k @ ''h'')"])
    (simp add: prod_eq_iff)

lemma demo_propose_step:
  assumes "demo_propose = Inr (v, db)"
  shows "ms_step demo_sdk demo_db db"
  using assms unfolding demo_propose_def by (rule step_propose [rotated]) (simp add: demo_db_def)

lemma demo_reachable: "ms_reachable demo_sdk demo_ready"
proof (cases demo_propose)
  case (Inl err)
  show ?thesis unfolding demo_ready_def Inl by (simp add: demo_start)
next
  case (Inr x)
  obtain v db where x: "x = (v, db)" by (cases x)
  have "ms_reachable demo_sdk db" using demo_start demo_propose_step Inr x by (blast intro: ms_next)
  then have "ms_reachable demo_sdk (demo_sign ''g2'' ''GB'' (demo_sign ''g1'' ''GA'' db))"
    by (blast intro: ms_next demo_sign_step)
  then show ?thesis unfolding demo_ready_def Inr x by (simp only: sum.case prod.case)
qed

lemma demo_parse:
  "parseSigningTransaction demo_sdk demo_config ''pay'' w =
    (if wa_publicKey w = ''GA'' then Inr demo_tx else Inl (Forbidden ''Transaction source account does not match the wallet''))"
proof -
  have "getNetworkPassphrase demo_config = Inr ''net''" by code_simp
  then show ?thesis by (simp add: parseSigningTransaction_def MAX_UNSIGNED_XDR_LENGTH_def demo_sdk_def demo_tx_def)
qed

lemma demo_find: "find_signing_wallet ''a'' ''ann'' (wallet_db.truncate demo_db) = Inr (demo_wallet ''a'' ''ann'' ''A'')"
  by (simp add: find_signing_wallet_iff wallet_db.truncate_def demo_db_def demo_wallet_def)

section \<open>Properties\<close>

lemma signTransaction_ok:
  assumes "signTransaction s c jwt cfg i u x role token db = Inr (signed, db')"
  shows "\<exists>w tx key p. row_by wa_id i (wdb_wallets db) = Some w \<and> wa_userId w = u \<and> wa_status w = W_ACTIVE \<and>
    wc_passphrase cfg = Some p \<and> fromXDR s x p = Some (Classic tx) \<and> ct_source tx = wa_publicKey w \<and>
    type_of ` set (ct_operations tx) \<subseteq> set (getAllowedOperations cfg) \<and>
    (type_of ` set (ct_operations tx) \<inter> {''setOptions'', ''accountMerge''} \<noteq> {} \<longrightarrow> role = Some ''admin'' \<and>
       (\<exists>t y. token = Some t \<and> jwt t = Some y \<and> su_sub y = u \<and> su_purpose y = STEP_UP_PURPOSE \<and> su_scope y = STEP_UP_SCOPE)) \<and>
    decrypt c (wa_encryptedSecretKey w) = Inr key \<and> signed = signEnvelope s x key \<and>
    (\<exists>r. db' = db\<lparr>wdb_audit := wdb_audit db @ [r]\<rparr> \<and> au_userId r = u \<and> au_resourceId r = i \<and>
       au_transactionHash r = ct_hash tx \<and> au_operations r = describeOperations tx)"
proof -
  from assms obtain w tx y key where run: "find_signing_wallet i u db = Inr w" "parseSigningTransaction s cfg x w = Inr tx"
    "assertSigningPolicy jwt cfg tx u role token = Inr y" "decrypt c (wa_encryptedSecretKey w) = Inr key"
    "signed = signEnvelope s x key" and db': "db' = db\<lparr>wdb_audit := wdb_audit db @ [\<lparr>au_action = ''wallet.sign_transaction'',
      au_userId = u, au_userRole = role, au_resourceId = i, au_transactionHash = ct_hash tx, au_operations = describeOperations tx\<rparr>]\<rparr>"
    unfolding signTransaction_def rbind_Inr_iff by auto
  have log: "\<exists>r. db' = db\<lparr>wdb_audit := wdb_audit db @ [r]\<rparr> \<and> au_userId r = u \<and> au_resourceId r = i \<and>
      au_transactionHash r = ct_hash tx \<and> au_operations r = describeOperations tx"
    unfolding db' by (intro exI conjI, rule refl) simp_all
  from parseSigningTransaction_source [OF run(2)] obtain p where p: "ct_source tx = wa_publicKey w"
    "wc_passphrase cfg = Some p" "fromXDR s x p = Some (Classic tx)" by blast
  have "role = Some ''admin'' \<and> (\<exists>t y. token = Some t \<and> jwt t = Some y \<and> su_sub y = u \<and> su_purpose y = STEP_UP_PURPOSE \<and> su_scope y = STEP_UP_SCOPE)"
    if "type_of ` set (ct_operations tx) \<inter> {''setOptions'', ''accountMerge''} \<noteq> {}"
    using assertSigningPolicy_ok(2) [OF run(3)] that unfolding step_up_verify_ok HIGH_RISK_OPERATIONS_def list.set list.set_map by blast
  moreover have "type_of ` set (ct_operations tx) \<subseteq> set (getAllowedOperations cfg)"
    using assertSigningPolicy_ok(1) [OF run(3)] by simp
  ultimately show ?thesis using run(1,4,5) log p unfolding find_signing_wallet_iff by blast
qed

lemma createDecoratedSignature_ok:
  assumes "createDecoratedSignature s c cfg i u x db = Inr ((pk, sig), db')"
  shows "\<exists>w tx key p. row_by wa_id i (wdb_wallets db) = Some w \<and> wa_userId w = u \<and> wa_status w = W_ACTIVE \<and>
    wc_passphrase cfg = Some p \<and> fromXDR s x p = Some (Classic tx) \<and> ct_source tx = wa_publicKey w \<and>
    decrypt c (wa_encryptedSecretKey w) = Inr key \<and> pk = publicKeyOf s key \<and> sig = signDecorated s key (ct_hash tx) \<and>
    (\<exists>r. db' = db\<lparr>wdb_audit := wdb_audit db @ [r]\<rparr> \<and> au_userId r = u \<and> au_resourceId r = i \<and>
       au_transactionHash r = ct_hash tx \<and> au_operations r = describeOperations tx)"
proof -
  from assms obtain w tx key where run: "find_signing_wallet i u db = Inr w" "parseSigningTransaction s cfg x w = Inr tx"
    "decrypt c (wa_encryptedSecretKey w) = Inr key" "pk = publicKeyOf s key" "sig = signDecorated s key (ct_hash tx)"
    and db': "db' = db\<lparr>wdb_audit := wdb_audit db @ [\<lparr>au_action = ''wallet.create_decorated_signature'', au_userId = u,
      au_userRole = None, au_resourceId = i, au_transactionHash = ct_hash tx, au_operations = describeOperations tx\<rparr>]\<rparr>"
    unfolding createDecoratedSignature_def rbind_Inr_iff by auto
  have "\<exists>r. db' = db\<lparr>wdb_audit := wdb_audit db @ [r]\<rparr> \<and> au_userId r = u \<and> au_resourceId r = i \<and>
      au_transactionHash r = ct_hash tx \<and> au_operations r = describeOperations tx"
    unfolding db' by (intro exI conjI, rule refl) simp_all
  then show ?thesis using run parseSigningTransaction_source [OF run(2)] unfolding find_signing_wallet_iff by blast
qed

text \<open>
  C13. Every custodial signature is for an active wallet of the caller: the transaction parses on the configured
  network with the wallet's account as its source, and the one change of the state is an audit record of the
  transaction and its operations. On the direct path, \<open>signTransaction\<close>, moreover every operation type is on the allow list and a
  set-options or account-merge operation comes from an administrator with a step-up token of that very user.
  The path of pooled transactions, \<open>createDecoratedSignature\<close>, leaves that to the threshold of the pool.
\<close>

theorem signTransaction_policy:
  shows "(signTransaction s c jwt cfg i u x role token db = Inr (signed, db') \<longrightarrow>
    (\<exists>w tx key p. row_by wa_id i (wdb_wallets db) = Some w \<and> wa_userId w = u \<and> wa_status w = W_ACTIVE \<and>
      wc_passphrase cfg = Some p \<and> fromXDR s x p = Some (Classic tx) \<and> ct_source tx = wa_publicKey w \<and>
      type_of ` set (ct_operations tx) \<subseteq> set (getAllowedOperations cfg) \<and>
      (type_of ` set (ct_operations tx) \<inter> {''setOptions'', ''accountMerge''} \<noteq> {} \<longrightarrow> role = Some ''admin'' \<and>
         (\<exists>t y. token = Some t \<and> jwt t = Some y \<and> su_sub y = u \<and> su_purpose y = STEP_UP_PURPOSE \<and> su_scope y = STEP_UP_SCOPE)) \<and>
      decrypt c (wa_encryptedSecretKey w) = Inr key \<and> signed = signEnvelope s x key \<and>
      (\<exists>r. db' = db\<lparr>wdb_audit := wdb_audit db @ [r]\<rparr> \<and> au_userId r = u \<and> au_resourceId r = i \<and>
         au_transactionHash r = ct_hash tx \<and> au_operations r = describeOperations tx))) \<and>
   (createDecoratedSignature s c cfg i u x db = Inr ((pk, sig), db') \<longrightarrow>
    (\<exists>w tx key p. row_by wa_id i (wdb_wallets db) = Some w \<and> wa_userId w = u \<and> wa_status w = W_ACTIVE \<and>
      wc_passphrase cfg = Some p \<and> fromXDR s x p = Some (Classic tx) \<and> ct_source tx = wa_publicKey w \<and>
      decrypt c (wa_encryptedSecretKey w) = Inr key \<and> pk = publicKeyOf s key \<and> sig = signDecorated s key (ct_hash tx) \<and>
      (\<exists>r. db' = db\<lparr>wdb_audit := wdb_audit db @ [r]\<rparr> \<and> au_userId r = u \<and> au_resourceId r = i \<and>
         au_transactionHash r = ct_hash tx \<and> au_operations r = describeOperations tx)))"
  by (intro conjI impI) (rule signTransaction_ok createDecoratedSignature_ok, assumption)+

lemma signTransaction_policy_witness:
  "\<exists>signed db'. signTransaction demo_sdk demo_cipher (\<lambda>_. None) demo_config ''a'' ''ann'' ''pay'' None None (wallet_db.truncate demo_db) =
     Inr (signed, db') \<and> signed = ''paySA'' \<and> type_of ` set (ct_operations demo_tx) \<subseteq> set (getAllowedOperations demo_config) \<and>
     map (\<lambda>r. (au_userId r, au_resourceId r, au_transactionHash r)) (wdb_audit db') = [(''ann'', ''a'', ''h'')]"
proof -
  let ?run = "signTransaction demo_sdk demo_cipher (\<lambda>_. None) demo_config ''a'' ''ann'' ''pay'' None None (wallet_db.truncate demo_db)"
  have "assertSigningPolicy (\<lambda>_. None) demo_config demo_tx ''ann'' None None = Inr ()" by code_simp
  moreover have key: "decrypt demo_cipher ''00:ff:SA'' = Inr ''SA''" by code_simp
  ultimately have "\<not> isl ?run" by (simp add: signTransaction_def demo_find demo_parse) (simp add: demo_wallet_def)
  then obtain signed db' where run: "?run = Inr (signed, db')" using not_isl_pair by blast
  have row: "row_by wa_id ''a'' (wdb_wallets (wallet_db.truncate demo_db)) = Some (demo_wallet ''a'' ''ann'' ''A'')"
    by (simp add: wallet_db.truncate_def demo_db_def demo_wallet_def)
  have sdk: "fromXDR demo_sdk ''pay'' ''net'' = Some (Classic demo_tx)" "wc_passphrase demo_config = Some ''net''"
    "signEnvelope demo_sdk ''pay'' ''SA'' = ''paySA''" "wa_encryptedSecretKey (demo_wallet ''a'' ''ann'' ''A'') = ''00:ff:SA''"
    "ct_hash demo_tx = ''h''" "wdb_audit (wallet_db.truncate demo_db) = []"
    by (simp_all add: demo_sdk_def demo_config_def demo_wallet_def demo_tx_def wallet_db.truncate_def demo_db_def)
  note policy = signTransaction_policy [of demo_sdk demo_cipher "\<lambda>_. None" demo_config "''a''" "''ann''" "''pay''" None None "wallet_db.truncate demo_db" signed db',
    THEN conjunct1, THEN mp, OF run]
  from policy show ?thesis unfolding run row sdk(2)
    by (elim exE conjE) (auto simp: sdk key)
qed

text \<open>
  The policy of the direct path does not bind a user whose own signature reaches the threshold: any transaction of
  the user's own active wallet, with whatever operations and for whatever role, is signed on the path of the pool.
\<close>

theorem pooled_signature_unrestricted:
  assumes "row_by wa_id i (wdb_wallets db) = Some w" and "wa_userId w = u" and "wa_status w = W_ACTIVE"
    and "wc_passphrase cfg = Some p" and "trim p \<noteq> []" and "length x \<le> MAX_UNSIGNED_XDR_LENGTH"
    and "fromXDR s x p = Some (Classic tx)" and "ct_source tx = wa_publicKey w" and "decrypt c (wa_encryptedSecretKey w) = Inr key"
  shows "\<exists>db'. createDecoratedSignature s c cfg i u x db = Inr ((publicKeyOf s key, signDecorated s key (ct_hash tx)), db')"
proof -
  have "find_signing_wallet i u db = Inr w" using assms(1-3) by (simp add: find_signing_wallet_iff)
  moreover have "parseSigningTransaction s cfg x w = Inr tx"
    using assms(4-8) by (simp add: parseSigningTransaction_def getNetworkPassphrase_def)
  ultimately show ?thesis using assms(9) by (simp add: createDecoratedSignature_def)
qed

text \<open>
  C8. The weight behind a transaction of the pool. In every state that proposals, signatures,
  broadcasts and cancellations can reach, the required weight is positive, no signer counts
  twice, every stored signature has positive weight and verifies against the hash of the
  stored envelope, a transaction waits for signatures only as long as their weight is too
  small, and one that is ready, submitted or failed at submission has the required weight.
\<close>

theorem pool_weight_sound:
  assumes "ms_reachable s db" and "row_by mx_id i (ms_txs db) = Some tx"
  shows "1 \<le> mx_requiredWeight tx \<and> distinct (map sg_signerPublicKey (signatures_of i db)) \<and>
    (\<forall>g \<in> set (signatures_of i db). 0 < sg_weight g \<and> (\<exists>c. fromXDR s (mx_unsignedXdr tx) (mx_networkPassphrase tx) = Some (Classic c) \<and>
       verifySig s (sg_signerPublicKey g) (ct_hash c) (sg_signatureXdr g))) \<and>
    (mx_status tx = MS_PENDING_SIGNATURES \<longrightarrow> sum_list (map sg_weight (signatures_of i db)) < mx_requiredWeight tx) \<and>
    (mx_status tx \<in> {MS_READY, MS_SUBMITTED, MS_FAILED} \<longrightarrow> mx_requiredWeight tx \<le> sum_list (map sg_weight (signatures_of i db)))"
proof -
  note inv = ms_reachable_inv [OF assms(1)]
  have "0 < sg_weight g \<and> (\<exists>c. fromXDR s (mx_unsignedXdr tx) (mx_networkPassphrase tx) = Some (Classic c) \<and>
       verifySig s (sg_signerPublicKey g) (ct_hash c) (sg_signatureXdr g))" if "g \<in> set (signatures_of i db)" for g
    using that ms_inv_sig [OF inv, of g] assms(2)
    by (auto simp: signatures_of_def ms_sig_ok_def split: option.splits parsed_tx.splits)
  moreover have "distinct (map sg_signerPublicKey (signatures_of i db))"
    using inv unfolding signatures_of_def ms_inv_def by (blast intro: distinct_signers)
  ultimately show ?thesis using ms_inv_tx_ok [OF inv assms(2)] row_by_SomeD [OF assms(2)]
    by (auto simp: tx_ok_def weight_sum_sum_list)
qed

lemma pool_weight_sound_witness:
  "\<exists>tx. row_by mx_id ''t'' (ms_txs demo_ready) = Some tx \<and> mx_status tx = MS_READY \<and>
     mx_requiredWeight tx \<le> sum_list (map sg_weight (signatures_of ''t'' demo_ready))"
proof -
  have "map_option mx_status (row_by mx_id ''t'' (ms_txs demo_ready)) = Some MS_READY" by code_simp
  then obtain tx where tx: "row_by mx_id ''t'' (ms_txs demo_ready) = Some tx" "mx_status tx = MS_READY" by auto
  from pool_weight_sound [OF demo_reachable tx(1)] tx show ?thesis by simp
qed

text \<open>
  A submission happens once, as long as calls do not overlap. From a reachable state, whatever calls follow, each
  transaction has at most one submission event, exactly the transactions with a submission
  event are stored as submitted, and a transaction that is submitted, failed, expired or
  cancelled keeps its row as it is.
\<close>

theorem submission_once:
  assumes "ms_reachable s db" and "(ms_step s)\<^sup>*\<^sup>* db db'"
  shows "distinct (submissions db') \<and>
    set (submissions db') = {i. \<exists>tx. row_by mx_id i (ms_txs db') = Some tx \<and> mx_status tx = MS_SUBMITTED} \<and>
    (\<forall>i tx. row_by mx_id i (ms_txs db) = Some tx \<and> mx_status tx \<in> {MS_SUBMITTED, MS_FAILED, MS_EXPIRED, MS_CANCELLED} \<longrightarrow>
       row_by mx_id i (ms_txs db') = Some tx)"
  using assms(2)
proof (induction rule: rtranclp_induct)
  case base
  note inv = ms_reachable_inv [OF assms(1)]
  then show ?case using ms_inv_submitted [OF inv] unfolding ms_inv_def by blast
next
  case (step d d')
  have "ms_reachable s d" using step(1) assms(1) by (induction rule: rtranclp_induct) (blast intro: ms_next)+
  then have inv: "ms_inv s d'" using step(2) ms_reachable_inv ms_step_inv by blast
  have keep: "row_by mx_id i (ms_txs d') = Some tx"
    if "row_by mx_id i (ms_txs d) = Some tx" "mx_status tx \<in> {MS_SUBMITTED, MS_FAILED, MS_EXPIRED, MS_CANCELLED}" for i tx
    using ms_step_edge [OF step(2) that(1)] that(2) by (auto simp: ms_edge_def)
  have "distinct (submissions d')" using inv by (simp add: ms_inv_def)
  moreover have "set (submissions d') = {i. \<exists>tx. row_by mx_id i (ms_txs d') = Some tx \<and> mx_status tx = MS_SUBMITTED}"
    using ms_inv_submitted [OF inv] by blast
  ultimately show ?case using step(3) keep by blast
qed

lemma submission_once_witness:
  "\<exists>db'. ms_step demo_sdk demo_ready db' \<and> submissions db' = [''t''] \<and> distinct (submissions db')"
proof -
  let ?out = "broadcast demo_sdk demo_chain (demo_env ''u'') ''t'' ''ann'' demo_ready"
  have step: "ms_step demo_sdk demo_ready (snd ?out)"
    by (rule step_broadcast [of _ demo_chain "demo_env ''u''" "''t''" "''ann''"]) (simp add: prod_eq_iff)
  have "submissions (snd ?out) = [''t'']" by code_simp
  moreover from submission_once [OF demo_reachable r_into_rtranclp, OF step] have "distinct (submissions (snd ?out))" by blast
  ultimately show ?thesis using step by blast
qed


text \<open>
  Calls that overlap. Signing, broadcasting and cancelling read the transaction, with its signatures, and finish
  later with that copy; a proposal is one step.
\<close>

definition is_final :: "multisig_transaction \<Rightarrow> bool" where
  "is_final tx \<longleftrightarrow> mx_status tx \<in> {MS_SUBMITTED, MS_FAILED, MS_EXPIRED, MS_CANCELLED}"

definition ms_reads :: "multisig_db \<Rightarrow> multisig_transaction \<times> multisig_signature list \<Rightarrow> bool" where
  "ms_reads db r \<longleftrightarrow> row_by mx_id (mx_id (fst r)) (ms_txs db) = Some (fst r) \<and> snd r = signatures_of (mx_id (fst r)) db"

inductive ms_finish :: "sdk \<Rightarrow> multisig_transaction \<times> multisig_signature list \<Rightarrow> multisig_db \<Rightarrow> multisig_db \<Rightarrow> bool" for s where
  fin_sign: "addSignature_rest s c cfg n e u dto tx db = (r, db') \<Longrightarrow> ms_finish s (tx, gs) db db'"
| fin_broadcast: "broadcast_rest s n e tx gs db = (r, db') \<Longrightarrow> ms_finish s (tx, gs) db db'"
| fin_cancel: "cancel_rest tx gs db = Inr (v, db') \<Longrightarrow> ms_finish s (tx, gs) db db'"

inductive ms_propose :: "sdk \<Rightarrow> multisig_db \<Rightarrow> multisig_db \<Rightarrow> bool" for s where
  "row_by mx_id (uuid e 0) (ms_txs db) = None \<Longrightarrow> propose s n p e wid u dto db = Inr (v, db') \<Longrightarrow> ms_propose s db db'"

abbreviation ms_overlap :: "sdk \<Rightarrow> multisig_db \<times> (multisig_transaction \<times> multisig_signature list) list \<Rightarrow>
    multisig_db \<times> (multisig_transaction \<times> multisig_signature list) list \<Rightarrow> bool" where
  "ms_overlap s \<equiv> overlap ms_reads (ms_finish s) (ms_propose s)"

definition tx_view :: "string \<Rightarrow> multisig_db \<Rightarrow> multisig_transaction option \<times> string list" where
  "tx_view i db = (row_by mx_id i (ms_txs db), filter ((=) i) (submissions db))"

lemma ms_finish_view:
  assumes "ms_finish s r db db'" and "mx_id (fst r) \<noteq> i \<or> is_final (fst r)"
  shows "tx_view i db' = tx_view i db"
  using assms(1)
proof (cases rule: ms_finish.cases)
  case (fin_sign c cfg n e u dto tx x gs)
  from fin_sign(2) show ?thesis
  proof (cases rule: addSignature_rest_cases)
    case expired
    then show ?thesis using assms(2) fin_sign(1) by (auto simp: tx_view_def row_by_save_row is_final_def)
  next
    case (pooled a pk sig w b ready tx' gs' db1 rebuilt cfgs)
    then have "mx_id tx \<noteq> i" using assms(2) fin_sign(1) by (auto simp: is_final_def)
    with pooled(2,8) show ?thesis
      by (elim pool_signature_ok) (auto simp: tx_view_def row_by_save_row Let_def split: if_splits)
  qed (simp add: tx_view_def)
next
  case (fin_broadcast n e tx gs x)
  from fin_broadcast(2) show ?thesis
  proof (cases rule: broadcast_rest_cases)
    case (row tx' evs h)
    then have "mx_id tx \<noteq> i" using assms(2) fin_broadcast(1) by (auto simp: is_final_def)
    with row show ?thesis by (auto simp: tx_view_def row_by_save_row submissions_def)
  qed simp
next
  case (fin_cancel tx gs v)
  then show ?thesis using assms(2) by (auto simp: cancel_rest_def tx_view_def row_by_save_row is_final_def Let_def split: if_splits)
qed

lemma ms_propose_view: "ms_propose s db db' \<Longrightarrow> row_by mx_id i (ms_txs db) = Some tx \<Longrightarrow> tx_view i db' = tx_view i db"
proof (induction rule: ms_propose.induct)
  case (1 e db n p wid u dto v db')
  then show ?case using propose_ok(1,2) [OF 1(2)] by (auto simp: tx_view_def row_by_save_row)
qed

interpretation final_tx: settling ms_reads "ms_finish s" "ms_propose s" "\<lambda>_. True" "\<lambda>_ _. True"
  "\<lambda>i db. \<exists>tx. row_by mx_id i (ms_txs db) = Some tx \<and> is_final tx" "\<lambda>i r. mx_id (fst r) = i \<and> \<not> is_final (fst r)" tx_view
proof
  fix db db' :: multisig_db and i r
  assume f: "\<exists>tx. row_by mx_id i (ms_txs db) = Some tx \<and> is_final tx"
  show "\<not> (mx_id (fst r) = i \<and> \<not> is_final (fst r))" if "ms_reads db r" using f that by (auto simp: ms_reads_def)
  show "(\<exists>tx. row_by mx_id i (ms_txs db') = Some tx \<and> is_final tx) \<and> tx_view i db' = tx_view i db"
    if "\<not> (mx_id (fst r) = i \<and> \<not> is_final (fst r))" "ms_finish s r db db'"
    using ms_finish_view [OF that(2), of i] that(1) f by (auto simp: tx_view_def)
  show "(\<exists>tx. row_by mx_id i (ms_txs db') = Some tx \<and> is_final tx) \<and> tx_view i db' = tx_view i db" if "ms_propose s db db'"
    using ms_propose_view [OF that, of i] f by (auto simp: tx_view_def)
qed simp_all

text \<open>
  C21. A transaction that is submitted, failed, expired or cancelled is final, for calls that overlap in any
  way: unless a signing, broadcasting or cancelling call that read it before it was final is still running, its row
  never changes again and it is not submitted again.
\<close>

theorem submission_final:
  assumes "(ms_overlap s)\<^sup>*\<^sup>* (db, P) (db', P')" and "row_by mx_id i (ms_txs db) = Some tx"
    and "mx_status tx \<in> {MS_SUBMITTED, MS_FAILED, MS_EXPIRED, MS_CANCELLED}"
    and "\<forall>(t, gs) \<in> set P. mx_id t = i \<longrightarrow> mx_status t \<in> {MS_SUBMITTED, MS_FAILED, MS_EXPIRED, MS_CANCELLED}"
  shows "row_by mx_id i (ms_txs db') = Some tx \<and> filter ((=) i) (submissions db') = filter ((=) i) (submissions db)"
proof -
  have "\<not> (mx_id (fst r) = i \<and> \<not> is_final (fst r))" if "r \<in> set P" for r
    using bspec [OF assms(4) that] by (cases r) (simp add: is_final_def)
  then have "final_tx.quiet i (db, P)" using assms(2,3) unfolding final_tx.quiet_def by (simp add: is_final_def)
  then show ?thesis using final_tx.quiet_run [OF assms(1), of i] assms(2) by (simp add: final_tx.sound_def tx_view_def)
qed

definition demo_done :: multisig_db where
  "demo_done = snd (broadcast_rest demo_sdk demo_chain (demo_env ''u'') (the (row_by mx_id ''t'' (ms_txs demo_ready)))
     (signatures_of ''t'' demo_ready) demo_ready)"

definition demo_after :: "(multisig_tx_view \<times> multisig_db) result" where
  "demo_after = propose demo_sdk demo_chain ''net'' (demo_env ''v'') ''a'' ''ann'' \<lparr>pd_unsignedXdr = ''pay'', pd_description = None\<rparr> demo_done"

lemma submission_final_witness:
  "\<exists>v db'. demo_after = Inr (v, db') \<and> map mx_id (ms_txs db') = [''t'', ''v''] \<and>
    map_option mx_status (row_by mx_id ''t'' (ms_txs db')) = Some MS_SUBMITTED \<and> filter ((=) ''t'') (submissions db') = [''t'']"
proof -
  have "map_option mx_status (row_by mx_id ''t'' (ms_txs demo_done)) = Some MS_SUBMITTED" by code_simp
  then obtain tx where tx: "row_by mx_id ''t'' (ms_txs demo_done) = Some tx" "mx_status tx = MS_SUBMITTED" by auto
  have "\<not> isl demo_after" by code_simp
  then obtain v db' where a: "demo_after = Inr (v, db')" using not_isl_pair by blast
  have "row_by mx_id (uuid (demo_env ''v'') 0) (ms_txs demo_done) = None" by code_simp
  from ms_propose.intros [OF this a [unfolded demo_after_def]]
  have run: "(ms_overlap demo_sdk)\<^sup>*\<^sup>* (demo_done, []) (db', [])" by (blast intro: ov_other r_into_rtranclp)
  have "map_sum id (\<lambda>x. map mx_id (ms_txs (snd x))) demo_after = Inr [''t'', ''v'']" by code_simp
  then have "map mx_id (ms_txs db') = [''t'', ''v'']" by (simp add: a)
  moreover have "filter ((=) ''t'') (submissions demo_done) = [''t'']" by code_simp
  ultimately show ?thesis using submission_final [OF run tx(1)] tx(2) a by (intro exI [of _ v] exI [of _ db']) simp
qed

text \<open>
  A co-signer's wallet cannot sign on the server. In the mode that names a wallet, the
  signature is made by \<open>createDecoratedSignature\<close>, which only accepts transactions whose source
  is the signing wallet. So for a wallet other than the source account itself the call always
  fails and the pool stays as it is, although the request exists for custodied co-signers and the
  key may be an eligible signer of the account.
\<close>

theorem cosigner_wallet_cannot_sign:
  assumes "row_by mx_id i (ms_txs db) = Some tx"
    and "as_walletId dto = Some wid" and "wid \<noteq> []"
    and "row_by wa_id wid (wdb_wallets db) = Some w" and "wa_publicKey w \<noteq> mx_sourceAccount tx"
    and "\<And>p d. fromXDR s (mx_unsignedXdr tx) p = Some (Classic d) \<Longrightarrow> ct_source d = mx_sourceAccount tx"
  shows "(\<exists>err. fst (addSignature s c cfg n e i u dto db) = Inl err) \<and>
    ms_sigs (snd (addSignature s c cfg n e i u dto db)) = ms_sigs db"
proof -
  have sign: "\<exists>err. createDecoratedSignature s c cfg wid u (mx_unsignedXdr tx) (wallet_db.truncate db) = Inl err"
  proof (cases "createDecoratedSignature s c cfg wid u (mx_unsignedXdr tx) (wallet_db.truncate db)")
    case (Inr x)
    then obtain w' d where "find_signing_wallet wid u (wallet_db.truncate db) = Inr w'"
      "parseSigningTransaction s cfg (mx_unsignedXdr tx) w' = Inr d"
      unfolding createDecoratedSignature_def rbind_Inr_iff by blast
    then have "w' = w" and "ct_source d = wa_publicKey w'" and "ct_source d = mx_sourceAccount tx"
      using assms(4,6) parseSigningTransaction_source [of s cfg "mx_unsignedXdr tx" w' d]
      by (auto simp: find_signing_wallet_iff wallet_db.truncate_def)
    with assms(5) show ?thesis by simp
  qed blast
  have "\<exists>err. resolveSignature s c cfg tx u dto db = Inl err"
    using sign assms(2,3) by (auto simp: resolveSignature_def given_def Let_def)
  then show ?thesis using assms(1)
    by (auto simp: addSignature_def addSignature_rest_def getTxOrThrow_def expireIfElapsed_def)
qed

lemma cosigner_wallet_cannot_sign_witness:
  "\<exists>db err. row_by wa_id ''b'' (wdb_wallets db) = Some (demo_wallet ''b'' ''bob'' ''B'') \<and>
     fst (addSignature demo_sdk demo_cipher demo_config demo_chain (demo_env ''g'') ''t'' ''bob''
       \<lparr>as_walletId = Some ''b'', as_signerPublicKey = None, as_signatureXdr = None\<rparr> db) = Inl err"
proof -
  have "\<not> isl demo_propose" by code_simp
  then obtain v db where p: "demo_propose = Inr (v, db)" using not_isl_pair by blast
  from propose_ok [OF p [unfolded demo_propose_def]] have row: "row_by mx_id ''t'' (ms_txs db) = Some (mv_tx v)"
    and wal: "wdb_wallets db = wdb_wallets demo_db" by (simp_all add: demo_env_def row_by_save_row)
  have "map_sum id (\<lambda>x. (mx_sourceAccount (mv_tx (fst x)), mx_unsignedXdr (mv_tx (fst x)))) demo_propose = Inr (''GA'', ''pay'')"
    by code_simp
  then have src: "mx_sourceAccount (mv_tx v) = ''GA''" "mx_unsignedXdr (mv_tx v) = ''pay''" by (simp_all add: p)
  have bob: "row_by wa_id ''b'' (wdb_wallets db) = Some (demo_wallet ''b'' ''bob'' ''B'')"
    by (simp add: wal demo_db_def demo_wallet_def)
  have "\<exists>err. fst (addSignature demo_sdk demo_cipher demo_config demo_chain (demo_env ''g'') ''t'' ''bob''
       \<lparr>as_walletId = Some ''b'', as_signerPublicKey = None, as_signatureXdr = None\<rparr> db) = Inl err"
    by (rule conjunct1 [OF cosigner_wallet_cannot_sign [OF row _ _ bob]])
      (simp_all add: src demo_wallet_def demo_sdk_def demo_tx_def split: if_splits)
  then obtain err where "fst (addSignature demo_sdk demo_cipher demo_config demo_chain (demo_env ''g'') ''t'' ''bob''
       \<lparr>as_walletId = Some ''b'', as_signerPublicKey = None, as_signatureXdr = None\<rparr> db) = Inl err" ..
  with bob show ?thesis by (intro exI conjI)
qed

text \<open>
  A cancellation can be lost. \<open>addSignature\<close> reads the transaction before it talks to the
  network and stores that copy when the pool is complete. If the owner cancels in between, the
  cancellation succeeds, the last signature is pooled nevertheless, and the stored transaction
  is ready for broadcast again.
\<close>

theorem stale_signature_revives_cancelled:
  assumes "row_by mx_id i (ms_txs db) = Some tx" and "mx_status tx = MS_PENDING_SIGNATURES"
    and "cancel i u db = Inr (v, db1)"
    and "pk \<notin> set (map sg_signerPublicKey (signatures_of i db))"
    and "mx_requiredWeight tx \<le> sum_list (map sg_weight (signatures_of i db)) + w"
  shows "mx_status (mv_tx v) = MS_CANCELLED \<and>
    (\<exists>gs db2. pool_signature e tx pk sig w b db1 = Inr (True, tx\<lparr>mx_status := MS_READY\<rparr>, gs, db2) \<and>
       row_by mx_id i (ms_txs db2) = Some (tx\<lparr>mx_status := MS_READY\<rparr>))"
proof -
  from cancel_ok [OF assms(3)] assms(1) have db1: "db1 = save_tx (tx\<lparr>mx_status := MS_CANCELLED\<rparr>) db" by (metis option.inject)
  have idx: "mx_id tx = i" using row_by_SomeD [OF assms(1)] by simp
  have fresh: "\<not> (\<exists>g \<in> set (ms_sigs db1). sg_transactionId g = mx_id tx \<and> sg_signerPublicKey g = pk)"
    using assms(4) by (auto simp: db1 idx signatures_of_def)
  have "weight_sum (signatures_of i db @ [g]) = sum_list (map sg_weight (signatures_of i db)) + sg_weight g" for g
    by (simp add: weight_sum_sum_list)
  then have "\<exists>gs db2. pool_signature e tx pk sig w b db1 = Inr (True, tx\<lparr>mx_status := MS_READY\<rparr>, gs, db2) \<and>
       row_by mx_id i (ms_txs db2) = Some (tx\<lparr>mx_status := MS_READY\<rparr>)"
    using assms(5) fresh unfolding pool_signature_def
    by (simp add: Let_def idx db1 signatures_of_def row_by_save_row)
  moreover have "mx_status (mv_tx v) = MS_CANCELLED"
    using assms(1-3) by (auto simp: cancel_def cancel_rest_def rbind_Inr_iff getTxOrThrow_iff buildStatus_def Let_def split: if_splits)
  ultimately show ?thesis by blast
qed


lemma stale_signature_revives_cancelled_witness:
  "\<exists>tx gs db1 db2. pool_signature (demo_env ''g2'') tx ''GB'' ''GBh'' 1 None db1 = Inr (True, tx\<lparr>mx_status := MS_READY\<rparr>, gs, db2) \<and>
     map_option mx_status (row_by mx_id ''t'' (ms_txs db1)) = Some MS_CANCELLED \<and>
     map_option mx_status (row_by mx_id ''t'' (ms_txs db2)) = Some MS_READY"
proof -
  have "map_option (\<lambda>tx. (mx_status tx, mx_requiredWeight tx)) (row_by mx_id ''t'' (ms_txs demo_waiting)) = Some (MS_PENDING_SIGNATURES, 2)"
    by code_simp
  then obtain tx where tx: "row_by mx_id ''t'' (ms_txs demo_waiting) = Some tx" "mx_status tx = MS_PENDING_SIGNATURES" "mx_requiredWeight tx = 2"
    by auto
  have "\<not> isl (cancel ''t'' ''ann'' demo_waiting)" by code_simp
  then obtain v db1 where c: "cancel ''t'' ''ann'' demo_waiting = Inr (v, db1)" using not_isl_pair by blast
  have "map_sum id (\<lambda>x. map_option mx_status (row_by mx_id ''t'' (ms_txs (snd x)))) (cancel ''t'' ''ann'' demo_waiting) = Inr (Some MS_CANCELLED)"
    by code_simp
  then have st: "map_option mx_status (row_by mx_id ''t'' (ms_txs db1)) = Some MS_CANCELLED" by (simp add: c)
  have "''GB'' \<notin> set (map sg_signerPublicKey (signatures_of ''t'' demo_waiting))" by code_simp
  moreover have "2 \<le> sum_list (map sg_weight (signatures_of ''t'' demo_waiting)) + 1" by code_simp
  ultimately obtain gs db2 where "pool_signature (demo_env ''g2'') tx ''GB'' ''GBh'' 1 None db1 = Inr (True, tx\<lparr>mx_status := MS_READY\<rparr>, gs, db2)"
    "row_by mx_id ''t'' (ms_txs db2) = Some (tx\<lparr>mx_status := MS_READY\<rparr>)"
    using stale_signature_revives_cancelled [OF tx(1,2) c, of "''GB''" 1 "demo_env ''g2''" "''GBh''" None] tx(3) by auto
  with st show ?thesis by (intro exI [of _ tx] exI [of _ gs] exI [of _ db1] exI [of _ db2]) simp
qed

section \<open>The primary wallet and the stored keys\<close>

definition primaries :: "string \<Rightarrow> wallet list \<Rightarrow> string list" where
  "primaries u ws = map wa_id (filter (\<lambda>w. wa_userId w = u \<and> wa_isPrimary w) ws)"

definition wallets_ok :: "wallet list \<Rightarrow> bool" where
  "wallets_ok ws \<longleftrightarrow> keys_distinct wa_id ws \<and> (\<forall>x \<in> set ws. \<forall>y \<in> set ws.
     wa_userId x = wa_userId y \<and> wa_isPrimary x \<and> wa_isPrimary y \<longrightarrow> x = y)"

text \<open>Storing a wallet that is primary only if no other wallet of its user is.\<close>

lemma wallets_ok_save:
  assumes "wallets_ok ws"
    and "wa_isPrimary w \<Longrightarrow> \<forall>x \<in> set ws. wa_userId x = wa_userId w \<and> wa_isPrimary x \<longrightarrow> wa_id x = wa_id w"
  shows "wallets_ok (save_row wa_id w ws)"
  using assms keys_distinct_save_row [of wa_id ws w] set_save_row [of wa_id ws w] unfolding wallets_ok_def by auto

lemma wallets_ok_update:
  assumes ok: "wallets_ok ws" and row: "row_by wa_id i ws = Some w"
    and w': "wa_id w' = wa_id w" "wa_userId w' = wa_userId w" "wa_isPrimary w' \<Longrightarrow> wa_isPrimary w"
  shows "wallets_ok (save_row wa_id w' ws)"
  using ok row_by_SomeD [OF row] w' by (intro wallets_ok_save) (auto simp: wallets_ok_def)

lemma unset_primary_wallets:
  assumes "wallets_ok (wdb_wallets db)"
  shows "wallets_ok (wdb_wallets (unset_primary u db))"
    and "\<forall>x \<in> set (wdb_wallets (unset_primary u db)). wa_userId x = u \<longrightarrow> \<not> wa_isPrimary x"
proof -
  have "map wa_id (wdb_wallets (unset_primary u db)) = map wa_id (wdb_wallets db)" by (simp add: unset_primary_def)
  then have "keys_distinct wa_id (wdb_wallets (unset_primary u db))"
    using assms by (simp add: wallets_ok_def keys_distinct_def)
  then show "wallets_ok (wdb_wallets (unset_primary u db))"
    using assms unfolding wallets_ok_def by (auto simp: unset_primary_def)
  show "\<forall>x \<in> set (wdb_wallets (unset_primary u db)). wa_userId x = u \<longrightarrow> \<not> wa_isPrimary x"
    by (simp add: unset_primary_def ball_Un)
qed


inductive wallet_step :: "wallet_db \<Rightarrow> wallet_db \<Rightarrow> bool" where
  step_create: "row_by wa_id (uuid e 0) (wdb_wallets db) = None \<Longrightarrow> wallet_create s c e u dto db = (w, db') \<Longrightarrow> wallet_step db db'"
| step_update: "wallet_update i u ud db = Inr (w, db') \<Longrightarrow> wallet_step db db'"
| step_remove: "wallet_remove i u db = Inr db' \<Longrightarrow> wallet_step db db'"
| step_sync: "syncBalance balances t i u db = Inr (w, db') \<Longrightarrow> wallet_step db db'"
| step_configure: "configureMultisig i u md db = Inr (w, db') \<Longrightarrow> wallet_step db db'"
| step_sign: "signTransaction s c jwt cfg i u x role token db = Inr (y, db') \<Longrightarrow> wallet_step db db'"

lemma wallet_step_ok: "wallet_step db db' \<Longrightarrow> wallets_ok (wdb_wallets db) \<Longrightarrow> wallets_ok (wdb_wallets db')"
proof (induction rule: wallet_step.induct)
  case (step_create e db s c u dto w db')
  let ?d = "if wa_isPrimary w then unset_primary u db else db"
  have w: "wdb_wallets db' = save_row wa_id w (wdb_wallets ?d)" "wa_userId w = u"
    using step_create(2) by (auto simp: wallet_create_def Let_def)
  show ?case unfolding w(1)
    by (rule wallets_ok_save) (use step_create(3) unset_primary_wallets [OF step_create(3), of u] w(2) in \<open>auto split: if_splits\<close>)
next
  case (step_update i u ud db w db')
  from step_update(1) obtain w0 where w0: "row_by wa_id i (wdb_wallets db) = Some w0" "wa_userId w0 = u" "w = assign_wallet ud w0"
    "wdb_wallets db' = save_row wa_id w (wdb_wallets (if uw_isPrimary ud = Some True then unset_primary u db else db))"
    by (auto simp: wallet_update_def rbind_Inr_iff wallet_findOne_iff Let_def)
  show ?case
  proof (cases "uw_isPrimary ud = Some True")
    case True
    show ?thesis unfolding w0(4) if_P [OF True]
      by (rule wallets_ok_save) (use unset_primary_wallets [OF step_update(2), of u] w0(2,3) in \<open>auto simp: assign_wallet_def\<close>)
  next
    case False
    show ?thesis unfolding w0(4) if_not_P [OF False]
      by (rule wallets_ok_update [OF step_update(2) w0(1)])
        (use False w0(3) in \<open>auto simp: assign_wallet_def split: option.splits\<close>)
  qed
next
  case (step_sign s c jwt cfg i u x role token db y db')
  then show ?case by (auto simp: signTransaction_def rbind_Inr_iff)
qed (clarsimp simp: wallet_remove_def syncBalance_def configureMultisig_def rbind_Inr_iff wallet_findOne_iff Let_def split: if_splits,
    rule wallets_ok_update, assumption, assumption, simp_all)+




text \<open>
  The stored form of a secret key is read back, for a cipher whose opening inverts its sealing
  and whose three parts are non-empty hexadecimal strings.
\<close>

lemma decrypt_encrypt:
  assumes "ci_open c (ci_iv c) (ci_tag c (ci_iv c) x) (ci_seal c (ci_iv c) x) = Inr x"
    and "\<forall>part \<in> {ci_iv c, ci_tag c (ci_iv c) x, ci_seal c (ci_iv c) x}. part \<noteq> [] \<and> CHR '':'' \<notin> set part"
  shows "decrypt c (encrypt c x) = Inr x"
  using assms by (simp add: decrypt_def encrypt_def split_on_append split_on_free)

end
