(* ===== verification/Dispute.thy ===== *)
theory Dispute
  imports TradeEngine
begin

text \<open>
  Dispute resolution (\<^verbatim>\<open>src/src/modules/dispute-resolution\<close>): filing a dispute about a
  trade, the assignment of arbitrators, evidence, messages, decisions with their enforcement,
  appeals, and the metrics. The rows of a table stand in the order in which the database
  returns them. Local time is UTC. Identifiers of timeline entries and messages, which nothing reads,
  are left out.
\<close>

section \<open>Data\<close>

datatype user_role = U_USER | U_ADMIN | U_ANALYST | U_ARBITRATOR

datatype dispute_status = DS_FILED | DS_UNDER_REVIEW | DS_INVESTIGATION | DS_ARBITRATION
  | DS_RESOLVED | DS_APPEALED | DS_CLOSED | DS_REJECTED

fun dispute_status_str :: "dispute_status \<Rightarrow> string" where
  "dispute_status_str DS_FILED = ''filed''"
| "dispute_status_str DS_UNDER_REVIEW = ''under_review''"
| "dispute_status_str DS_INVESTIGATION = ''investigation''"
| "dispute_status_str DS_ARBITRATION = ''arbitration''"
| "dispute_status_str DS_RESOLVED = ''resolved''"
| "dispute_status_str DS_APPEALED = ''appealed''"
| "dispute_status_str DS_CLOSED = ''closed''"
| "dispute_status_str DS_REJECTED = ''rejected''"

datatype classification = DC_NON_DELIVERY | DC_WRONG_AMOUNT | DC_FRAUD | DC_SYSTEM_ERROR

fun classification_str :: "classification \<Rightarrow> string" where
  "classification_str DC_NON_DELIVERY = ''non_delivery''"
| "classification_str DC_WRONG_AMOUNT = ''wrong_amount''"
| "classification_str DC_FRAUD = ''fraud''"
| "classification_str DC_SYSTEM_ERROR = ''system_error''"

datatype expertise = AE_NON_DELIVERY | AE_WRONG_AMOUNT | AE_FRAUD | AE_SYSTEM_ERROR | AE_GENERAL

datatype resolution_type = REFUND | SETTLEMENT | REVERSAL | DISMISSED

fun resolution_str :: "resolution_type \<Rightarrow> string" where
  "resolution_str REFUND = ''refund''"
| "resolution_str SETTLEMENT = ''settlement''"
| "resolution_str REVERSAL = ''reversal''"
| "resolution_str DISMISSED = ''dismissed''"

datatype evidence_status = EV_PENDING | EV_VALIDATED | EV_REJECTED

datatype dispute_event_type = DT_DISPUTE_FILED | DT_STATUS_CHANGED | DT_EVIDENCE_SUBMITTED | DT_EVIDENCE_VALIDATED
  | DT_ARBITRATOR_ASSIGNED | DT_MESSAGE_SENT | DT_DECISION_MADE | DT_APPEAL_FILED | DT_ENFORCEMENT_EXECUTED | DT_SLA_BREACH

record dispute =
  di_id :: string
  di_tradeId :: string
  di_complainantId :: string
  di_respondentId :: string
  di_classification :: classification
  di_status :: dispute_status
  di_description :: string
  di_arbitratorId :: "string option"
  di_resolutionType :: "resolution_type option"
  di_decisionReasoning :: "string option"
  di_resolutionAmount :: "string option"
  di_appealed :: bool
  di_similarDisputesFlagged :: bool
  di_enforcementExecuted :: bool
  di_initialReviewDeadline :: int
  di_resolutionDeadline :: int
  di_initialReviewCompletedAt :: "int option"
  di_resolvedAt :: "int option"
  di_metadata :: "(string \<times> json) list option"
  di_createdAt :: int

record arbitrator =
  ar_id :: string
  ar_userId :: string
  ar_expertise :: "expertise list"
  ar_isAvailable :: bool
  ar_activeDisputeCount :: int
  ar_maxActiveDisputes :: int
  ar_totalResolved :: int
  ar_createdAt :: int

record dispute_user =
  us_id :: string
  us_role :: user_role

record dispute_timeline =
  dt_disputeId :: string
  dt_eventType :: dispute_event_type
  dt_actorId :: string
  dt_description :: "string option"
  dt_metadata :: "(string \<times> string) list option"
  dt_createdAt :: int

record dispute_message =
  dm_disputeId :: string
  dm_senderId :: string
  dm_content :: string
  dm_isInternal :: bool
  dm_createdAt :: int

record validation =
  va_isValid :: bool
  va_mimeTypeValid :: bool
  va_sizeValid :: bool
  va_sizeBytes :: int
  va_mimeType :: string
  va_hasContent :: bool
  va_analyzedAt :: string

record dispute_evidence =
  ev_id :: string
  ev_disputeId :: string
  ev_uploadedById :: string
  ev_fileName :: string
  ev_mimeType :: string
  ev_fileSize :: int
  ev_storagePath :: string
  ev_description :: "string option"
  ev_status :: evidence_status
  ev_validationResult :: validation
  ev_createdAt :: int

record uploaded_file =
  uf_originalname :: string
  uf_mimetype :: string
  uf_size :: int
  uf_buffer :: string

text \<open>A transaction that the enforcement records: pending, of type other, from the account of the service.\<close>

record remediation =
  re_userId :: string
  re_assetCode :: string
  re_assetIssuer :: "string option"
  re_amount :: string

datatype dispute_event =
    EV_DISPUTE_CREATED string string string
  | EV_ARBITRATOR_ASSIGNED string string
  | EV_DISPUTE_RESOLVED string resolution_type string string
  | EV_DISPUTE_APPEALED string string

record create_dispute_dto =
  cd_tradeId :: string
  cd_classification :: classification
  cd_description :: string
  cd_metadata :: "(string \<times> json) list option"

record resolve_dispute_dto =
  rd_resolutionType :: resolution_type
  rd_decisionReasoning :: string
  rd_resolutionAmount :: "string option"

record create_message_dto =
  cm_content :: string
  cm_isInternal :: "bool option"

record create_arbitrator_dto =
  ca_userId :: string
  ca_expertise :: "expertise list"
  ca_maxActiveDisputes :: "int option"

record query_dispute_dto =
  qd_status :: "dispute_status option"
  qd_classification :: "classification option"
  qd_tradeId :: "string option"
  qd_page :: nat
  qd_limit :: nat

record dispute_db =
  ds_disputes :: "dispute list"
  ds_timeline :: "dispute_timeline list"
  ds_messages :: "dispute_message list"
  ds_evidence :: "dispute_evidence list"
  ds_files :: "(string \<times> string) list"
  ds_arbitrators :: "arbitrator list"
  ds_users :: "dispute_user list"
  ds_trades :: "trade list"
  ds_transactions :: "remediation list"
  ds_events :: "dispute_event list"

text \<open>
  What the service takes from outside: whether the query builder puts parentheses around each
  condition it combines, whether the database accepts an amount (its column has a check), and
  the working directory of the process.
\<close>

record dispute_env =
  qb_wraps :: bool
  amount_ok :: "string \<Rightarrow> bool"
  cwd :: string

section \<open>Constants\<close>

definition ALLOWED_EVIDENCE_MIME_TYPES :: "string list" where
  "ALLOWED_EVIDENCE_MIME_TYPES = [''image/jpeg'', ''image/png'', ''image/gif'', ''application/pdf'', ''text/plain'',
     ''application/msword'', ''application/vnd.openxmlformats-officedocument.wordprocessingml.document'']"

definition MAX_EVIDENCE_FILE_SIZE :: int where
  "MAX_EVIDENCE_FILE_SIZE = 10 * 1024 * 1024"

definition INITIAL_REVIEW_SLA_HOURS :: int where "INITIAL_REVIEW_SLA_HOURS = 24"
definition RESOLUTION_SLA_DAYS :: int where "RESOLUTION_SLA_DAYS = 14"
definition MAX_DISPUTES_PER_USER_PER_MONTH :: nat where "MAX_DISPUTES_PER_USER_PER_MONTH = 5"

section \<open>Dates and paths\<close>

text \<open>Days since the epoch of a date of the proleptic Gregorian calendar; the month counts from zero and may overflow.\<close>

definition days_from_civil :: "int \<Rightarrow> int \<Rightarrow> int \<Rightarrow> int" where
  "days_from_civil year month0 d =
     (let y0 = year + month0 div 12; m = month0 mod 12 + 1;
          y = (if m \<le> 2 then y0 - 1 else y0); era = y div 400; yoe = y mod 400;
          doy = (153 * (if m > 2 then m - 3 else m + 9) + 2) div 5 + d - 1;
          doe = yoe * 365 + yoe div 4 - yoe div 100 + doy
      in era * 146097 + doe - 719468)"

text \<open>\<^verbatim>\<open>d.setMonth(d.getMonth() - 1)\<close>: a day the month before does not have runs over.\<close>

definition month_before :: "int \<Rightarrow> int" where
  "month_before t = (case civil_from_days (t div 86400000) of (y, m, d) \<Rightarrow>
     days_from_civil y (m - 2) d * 86400000 + t mod 86400000)"

text \<open>\<^verbatim>\<open>path.join\<close> on an absolute directory: segments are normalised from left to right.\<close>

fun norm_path :: "string list \<Rightarrow> string list \<Rightarrow> string list" where
  "norm_path acc [] = rev acc"
| "norm_path acc (s # ss) = (if s = [] \<or> s = ''.'' then norm_path acc ss
     else if s = ''..'' then norm_path (tl acc) ss else norm_path (s # acc) ss)"

definition path_join :: "string \<Rightarrow> string \<Rightarrow> string" where
  "path_join dir name = ''/'' @ join_with ''/'' (norm_path [] (split_on (CHR ''/'') (dir @ ''/'' @ name)))"

section \<open>Helpers of the service\<close>

abbreviation save_dispute :: "dispute \<Rightarrow> dispute_db \<Rightarrow> dispute_db" where
  "save_dispute d db \<equiv> db\<lparr>ds_disputes := save_row di_id d (ds_disputes db)\<rparr>"

abbreviation save_arbitrator :: "arbitrator \<Rightarrow> dispute_db \<Rightarrow> dispute_db" where
  "save_arbitrator a db \<equiv> db\<lparr>ds_arbitrators := save_row ar_id a (ds_arbitrators db)\<rparr>"

definition ds_emit :: "dispute_event \<Rightarrow> dispute_db \<Rightarrow> dispute_db" where
  "ds_emit ev db = db\<lparr>ds_events := ds_events db @ [ev]\<rparr>"

definition calculateSlaDeadlines :: "int \<Rightarrow> int \<times> int" where
  "calculateSlaDeadlines t = (t + INITIAL_REVIEW_SLA_HOURS * 60 * 60 * 1000, t + RESOLUTION_SLA_DAYS * 24 * 60 * 60 * 1000)"

definition addTimelineEvent ::
  "int \<Rightarrow> string \<Rightarrow> dispute_event_type \<Rightarrow> string \<Rightarrow> string \<Rightarrow> (string \<times> string) list option \<Rightarrow> dispute_db \<Rightarrow> dispute_db" where
  "addTimelineEvent t disputeId eventType actorId description metadata db =
     db\<lparr>ds_timeline := ds_timeline db @ [\<lparr>dt_disputeId = disputeId, dt_eventType = eventType, dt_actorId = actorId,
       dt_description = Some description, dt_metadata = metadata, dt_createdAt = t\<rparr>]\<rparr>"

definition is_staff :: "user_role \<Rightarrow> bool" where
  "is_staff role \<longleftrightarrow> role = U_ADMIN \<or> role = U_ARBITRATOR \<or> role = U_ANALYST"

definition assertPartyAccess :: "dispute \<Rightarrow> string \<Rightarrow> user_role \<Rightarrow> unit result" where
  "assertPartyAccess d userId userRole =
     (let isParty = (di_complainantId d = userId \<or> di_respondentId d = userId)
      in if \<not> isParty \<and> \<not> is_staff userRole then Inl (Forbidden ''You do not have access to this dispute'') else Inr ())"

definition get_dispute :: "string \<Rightarrow> dispute_db \<Rightarrow> dispute result" where
  "get_dispute i db = (case row_by di_id i (ds_disputes db) of
     None \<Rightarrow> Inl (NotFound (''Dispute '' @ i @ '' not found'')) | Some d \<Rightarrow> Inr d)"

definition recent_disputes :: "int \<Rightarrow> string \<Rightarrow> dispute_db \<Rightarrow> dispute list" where
  "recent_disputes t userId db = filter (\<lambda>d. di_complainantId d = userId \<and> month_before t < di_createdAt d) (ds_disputes db)"

definition checkFrivolousDisputeProtection :: "int \<Rightarrow> string \<Rightarrow> dispute_db \<Rightarrow> unit result" where
  "checkFrivolousDisputeProtection t userId db =
     (if MAX_DISPUTES_PER_USER_PER_MONTH \<le> length (recent_disputes t userId db)
      then Inl (BadRequest (''Maximum of '' @ nat_to_string MAX_DISPUTES_PER_USER_PER_MONTH @
        '' disputes per month exceeded. Contact support if you believe this is an error.''))
      else Inr ())"

section \<open>Arbitrators\<close>

fun classificationToExpertise :: "classification \<Rightarrow> expertise" where
  "classificationToExpertise DC_NON_DELIVERY = AE_NON_DELIVERY"
| "classificationToExpertise DC_WRONG_AMOUNT = AE_WRONG_AMOUNT"
| "classificationToExpertise DC_FRAUD = AE_FRAUD"
| "classificationToExpertise DC_SYSTEM_ERROR = AE_SYSTEM_ERROR"

definition createArbitrator :: "env \<Rightarrow> create_arbitrator_dto \<Rightarrow> dispute_db \<Rightarrow> (arbitrator \<times> dispute_db) result" where
  "createArbitrator e dto db = (case row_by us_id (ca_userId dto) (ds_users db) of
     None \<Rightarrow> Inl (NotFound (''User '' @ ca_userId dto @ '' not found''))
   | Some user \<Rightarrow>
       if row_by ar_userId (ca_userId dto) (ds_arbitrators db) \<noteq> None
       then Inl (BadRequest ''User is already registered as an arbitrator'')
       else let a = \<lparr>ar_id = uuid e 0, ar_userId = ca_userId dto, ar_expertise = ca_expertise dto, ar_isAvailable = True,
                  ar_activeDisputeCount = 0,
                  ar_maxActiveDisputes = (case ca_maxActiveDisputes dto of None \<Rightarrow> 10 | Some m \<Rightarrow> m),
                  ar_totalResolved = 0, ar_createdAt = now e\<rparr>;
                db = save_arbitrator a db;
                db = (if us_role user \<noteq> U_ADMIN
                      then db\<lparr>ds_users := save_row us_id (user\<lparr>us_role := U_ARBITRATOR\<rparr>) (ds_users db)\<rparr> else db)
            in Inr (a, db))"

text \<open>
  The conditions are joined by \<^verbatim>\<open>AND\<close>, and the last one is itself a disjunction: without
  parentheses around it, general expertise alone is enough.
\<close>

definition assignable :: "bool \<Rightarrow> classification \<Rightarrow> arbitrator \<Rightarrow> bool" where
  "assignable wraps c a =
     (let free = ar_isAvailable a \<and> ar_activeDisputeCount a < ar_maxActiveDisputes a;
          expert = classificationToExpertise c \<in> set (ar_expertise a);
          general = AE_GENERAL \<in> set (ar_expertise a)
      in if wraps then free \<and> (expert \<or> general) else (free \<and> expert) \<or> general)"

definition assignArbitrator :: "dispute_env \<Rightarrow> classification \<Rightarrow> dispute_db \<Rightarrow> arbitrator option \<times> dispute_db" where
  "assignArbitrator w c db =
     (case sort_key ar_activeDisputeCount (filter (assignable (qb_wraps w) c) (ds_arbitrators db)) of
        [] \<Rightarrow> (None, db)
      | a # _ \<Rightarrow> let a = a\<lparr>ar_activeDisputeCount := ar_activeDisputeCount a + 1\<rparr> in (Some a, save_arbitrator a db))"

definition releaseArbitrator :: "string \<Rightarrow> dispute_db \<Rightarrow> dispute_db" where
  "releaseArbitrator userId db = (case row_by ar_userId userId (ds_arbitrators db) of
     None \<Rightarrow> db
   | Some a \<Rightarrow> if 0 < ar_activeDisputeCount a
       then save_arbitrator (a\<lparr>ar_activeDisputeCount := ar_activeDisputeCount a - 1, ar_totalResolved := ar_totalResolved a + 1\<rparr>) db
       else db)"

definition arbitrators_findAll :: "dispute_db \<Rightarrow> arbitrator list" where
  "arbitrators_findAll db = sort_key (\<lambda>a. - ar_createdAt a) (ds_arbitrators db)"

definition arbitrator_findByUserId :: "string \<Rightarrow> dispute_db \<Rightarrow> arbitrator result" where
  "arbitrator_findByUserId userId db = (case row_by ar_userId userId (ds_arbitrators db) of
     None \<Rightarrow> Inl (NotFound (''Arbitrator for user '' @ userId @ '' not found'')) | Some a \<Rightarrow> Inr a)"

section \<open>Similar disputes\<close>

record similar_match =
  sm_disputeId :: string
  sm_tradeId :: string
  sm_classification :: classification
  sm_status :: dispute_status
  sm_score :: int
  sm_reasons :: "string list"

definition similarity :: "dispute \<Rightarrow> dispute \<Rightarrow> int \<times> string list" where
  "similarity d c =
     (let trade = (di_tradeId c = di_tradeId d);
          party = (di_complainantId c = di_complainantId d \<or> di_respondentId c = di_respondentId d);
          cls = (di_classification c = di_classification d)
      in ((if trade then 50 else 0) + (if party then 30 else 0) + (if cls then 20 else 0) + (if di_status c \<noteq> DS_REJECTED then 10 else 0),
          (if trade then [''same_trade''] else []) @ (if party then [''same_party''] else []) @
          (if cls then [''same_classification''] else [])))"

definition detectSimilarDisputes :: "dispute \<Rightarrow> dispute_db \<Rightarrow> similar_match list" where
  "detectSimilarDisputes d db =
     (let candidates = filter (\<lambda>c. di_id c \<noteq> di_id d \<and> di_classification c = di_classification d) (ds_disputes db);
          matches = map (\<lambda>c. \<lparr>sm_disputeId = di_id c, sm_tradeId = di_tradeId c, sm_classification = di_classification c,
              sm_status = di_status c, sm_score = fst (similarity d c), sm_reasons = snd (similarity d c)\<rparr>)
            (filter (\<lambda>c. 30 \<le> fst (similarity d c)) candidates)
      in sort_key (\<lambda>m. - sm_score m) matches)"

definition match_json :: "similar_match \<Rightarrow> json" where
  "match_json m = JObj [(''disputeId'', JStr (sm_disputeId m)), (''tradeId'', JStr (sm_tradeId m)),
     (''classification'', JStr (classification_str (sm_classification m))), (''status'', JStr (dispute_status_str (sm_status m))),
     (''similarityScore'', JNum (of_int (sm_score m))), (''matchReasons'', JArr (map JStr (sm_reasons m)))]"

definition spread :: "(string \<times> json) list option \<Rightarrow> (string \<times> json) list" where
  "spread m = (case m of None \<Rightarrow> [] | Some kvs \<Rightarrow> kvs)"

definition flagIfSimilar :: "dispute \<Rightarrow> dispute_db \<Rightarrow> dispute \<times> dispute_db" where
  "flagIfSimilar d db =
     (let similar = detectSimilarDisputes d db
      in if similar \<noteq> [] then
           let d = d\<lparr>di_similarDisputesFlagged := True,
                 di_metadata := Some (map_set ''similarDisputes'' (JArr (map match_json (take 5 similar))) (spread (di_metadata d)))\<rparr>
           in (d, save_dispute d db)
         else (d, db))"

section \<open>Evidence\<close>

definition validateFile :: "string \<Rightarrow> int \<Rightarrow> unit result" where
  "validateFile mimeType fileSize =
     (if mimeType \<notin> set ALLOWED_EVIDENCE_MIME_TYPES
      then Inl (BadRequest (''Invalid file type. Allowed types: '' @ join_with '', '' ALLOWED_EVIDENCE_MIME_TYPES))
      else if MAX_EVIDENCE_FILE_SIZE < fileSize
      then Inl (BadRequest (''File size exceeds maximum of '' @ int_to_string (MAX_EVIDENCE_FILE_SIZE div (1024 * 1024)) @ ''MB''))
      else Inr ())"

definition analyzeEvidence :: "int \<Rightarrow> uploaded_file \<Rightarrow> validation" where
  "analyzeEvidence t f =
     (let mimeTypeValid = uf_mimetype f \<in> set ALLOWED_EVIDENCE_MIME_TYPES;
          sizeValid = uf_size f \<le> MAX_EVIDENCE_FILE_SIZE;
          hasContent = 0 < uf_size f
      in \<lparr>va_isValid = mimeTypeValid \<and> sizeValid \<and> hasContent, va_mimeTypeValid = mimeTypeValid, va_sizeValid = sizeValid,
          va_sizeBytes = uf_size f, va_mimeType = uf_mimetype f, va_hasContent = hasContent, va_analyzedAt = toISOString t\<rparr>)"

definition saveEvidence ::
  "dispute_env \<Rightarrow> env \<Rightarrow> string \<Rightarrow> string \<Rightarrow> uploaded_file \<Rightarrow> string option \<Rightarrow> dispute_db \<Rightarrow> (dispute_evidence \<times> dispute_db) result" where
  "saveEvidence w e disputeId uploadedById f description db =
     rbind (validateFile (uf_mimetype f) (uf_size f)) (\<lambda>_.
       let storagePath = path_join (cwd w @ ''/uploads/disputes'') (disputeId @ ''-'' @ int_to_string (now e) @ ''-'' @ uf_originalname f);
           v = analyzeEvidence (now e) f;
           x = \<lparr>ev_id = uuid e 0, ev_disputeId = disputeId, ev_uploadedById = uploadedById, ev_fileName = uf_originalname f,
             ev_mimeType = uf_mimetype f, ev_fileSize = uf_size f, ev_storagePath = storagePath, ev_description = description,
             ev_status = (if va_isValid v then EV_VALIDATED else EV_PENDING), ev_validationResult = v, ev_createdAt = now e\<rparr>
       in Inr (x, db\<lparr>ds_files := map_set storagePath (uf_buffer f) (ds_files db), ds_evidence := save_row ev_id x (ds_evidence db)\<rparr>))"

definition evidence_findByDispute :: "string \<Rightarrow> dispute_db \<Rightarrow> dispute_evidence list" where
  "evidence_findByDispute i db = sort_key ev_createdAt (filter (\<lambda>x. ev_disputeId x = i) (ds_evidence db))"

definition validateEvidence :: "string \<Rightarrow> dispute_db \<Rightarrow> (dispute_evidence \<times> dispute_db) result" where
  "validateEvidence i db = (case row_by ev_id i (ds_evidence db) of
     None \<Rightarrow> Inl (BadRequest (''Evidence '' @ i @ '' not found''))
   | Some x \<Rightarrow> let x = x\<lparr>ev_status := EV_VALIDATED\<rparr> in Inr (x, db\<lparr>ds_evidence := save_row ev_id x (ds_evidence db)\<rparr>))"

section \<open>Enforcement\<close>

definition createRemediationTransaction :: "dispute_env \<Rightarrow> string \<Rightarrow> trade \<Rightarrow> string \<Rightarrow> dispute_db \<Rightarrow> dispute_db result" where
  "createRemediationTransaction w userId trade amount db =
     (if amount_ok w amount
      then Inr (db\<lparr>ds_transactions := ds_transactions db @
        [\<lparr>re_userId = userId, re_assetCode = t_assetCode trade, re_assetIssuer = t_assetIssuer trade, re_amount = amount\<rparr>]\<rparr>)
      else Inl (QueryFailed ''CHK_transactions_amount_positive''))"

definition executeEnforcement :: "dispute_env \<Rightarrow> dispute \<Rightarrow> dispute_db \<Rightarrow> (dispute \<times> dispute_db) result" where
  "executeEnforcement w d db =
     (if di_enforcementExecuted d then Inr (d, db)
      else let finish = (\<lambda>db. let d = d\<lparr>di_enforcementExecuted := True\<rparr> in Inr (d, save_dispute d db))
      in if di_resolutionType d = Some DISMISSED then finish db
      else case row_by t_id (di_tradeId d) (ds_trades db) of
        None \<Rightarrow> Inr (d, db)
      | Some trade \<Rightarrow>
          let amount = (case di_resolutionAmount d of None \<Rightarrow> t_quantity trade | Some a \<Rightarrow> a)
          in case di_resolutionType d of
               Some REVERSAL \<Rightarrow> rbind (createRemediationTransaction w (di_respondentId d) trade amount db) finish
             | Some _ \<Rightarrow> rbind (createRemediationTransaction w (di_complainantId d) trade amount db) finish
             | None \<Rightarrow> finish db)"

section \<open>The service\<close>

definition assign_step :: "dispute_env \<Rightarrow> env \<Rightarrow> dispute_status \<Rightarrow> string \<Rightarrow> bool \<Rightarrow> dispute \<Rightarrow> dispute_db \<Rightarrow> dispute \<times> dispute_db" where
  "assign_step w e status note emits d db = (case assignArbitrator w (di_classification d) db of
     (None, db) \<Rightarrow> (d, db)
   | (Some a, db) \<Rightarrow>
       let d = d\<lparr>di_arbitratorId := Some (ar_userId a), di_status := status\<rparr>;
           db = addTimelineEvent (now e) (di_id d) DT_ARBITRATOR_ASSIGNED (ar_userId a) note None (save_dispute d db)
       in (d, if emits then ds_emit (EV_ARBITRATOR_ASSIGNED (di_id d) (ar_userId a)) db else db))"

definition new_dispute :: "env \<Rightarrow> string \<Rightarrow> create_dispute_dto \<Rightarrow> trade \<Rightarrow> dispute" where
  "new_dispute e userId dto trade =
     (let sla = calculateSlaDeadlines (now e)
      in \<lparr>di_id = uuid e 0, di_tradeId = cd_tradeId dto, di_complainantId = userId,
          di_respondentId = (if t_makerUserId trade = userId then t_takerUserId trade else t_makerUserId trade),
          di_classification = cd_classification dto, di_status = DS_FILED, di_description = cd_description dto,
          di_arbitratorId = None, di_resolutionType = None, di_decisionReasoning = None, di_resolutionAmount = None,
          di_appealed = False, di_similarDisputesFlagged = False, di_enforcementExecuted = False,
          di_initialReviewDeadline = fst sla, di_resolutionDeadline = snd sla, di_initialReviewCompletedAt = None,
          di_resolvedAt = None, di_metadata = cd_metadata dto, di_createdAt = now e\<rparr>)"

definition has_active_dispute :: "string \<Rightarrow> string \<Rightarrow> dispute_db \<Rightarrow> bool" where
  "has_active_dispute tradeId userId db =
     (case find (\<lambda>d. di_tradeId d = tradeId \<and> di_complainantId d = userId) (ds_disputes db) of
        None \<Rightarrow> False | Some d \<Rightarrow> di_status d \<noteq> DS_REJECTED)"

definition createDispute :: "dispute_env \<Rightarrow> env \<Rightarrow> string \<Rightarrow> create_dispute_dto \<Rightarrow> dispute_db \<Rightarrow> (dispute \<times> dispute_db) result" where
  "createDispute w e userId dto db =
     rbind (checkFrivolousDisputeProtection (now e) userId db) (\<lambda>_.
     case row_by t_id (cd_tradeId dto) (ds_trades db) of
       None \<Rightarrow> Inl (NotFound (''Trade '' @ cd_tradeId dto @ '' not found''))
     | Some trade \<Rightarrow>
         if t_makerUserId trade \<noteq> userId \<and> t_takerUserId trade \<noteq> userId
         then Inl (Forbidden ''Only trade participants can file a dispute'')
         else if has_active_dispute (cd_tradeId dto) userId db
         then Inl (BadRequest ''An active dispute already exists for this trade'')
         else
           let d = new_dispute e userId dto trade;
               db = addTimelineEvent (now e) (di_id d) DT_DISPUTE_FILED userId
                 (''Dispute filed: '' @ classification_str (cd_classification dto)) None (save_dispute d db);
               (d, db) = flagIfSimilar d db;
               (d, db) = assign_step w e DS_UNDER_REVIEW
                 (''Arbitrator assigned based on '' @ classification_str (cd_classification dto) @ '' expertise'') True d db
           in Inr (d, ds_emit (EV_DISPUTE_CREATED (di_id d) userId (di_respondentId d)) db))"

record sla_status =
  sl_initialReviewDeadline :: int
  sl_resolutionDeadline :: int
  sl_initialReviewOverdue :: bool
  sl_resolutionOverdue :: bool
  sl_initialReviewCompleted :: bool

definition dispute_findOne ::
  "int \<Rightarrow> string \<Rightarrow> string \<Rightarrow> user_role \<Rightarrow> dispute_db \<Rightarrow>
   (dispute \<times> dispute_evidence list \<times> dispute_timeline list \<times> dispute_message list \<times> sla_status) result" where
  "dispute_findOne t i userId userRole db =
     rbind (get_dispute i db) (\<lambda>d. rbind (assertPartyAccess d userId userRole) (\<lambda>_.
       Inr (d, evidence_findByDispute i db,
         sort_key dt_createdAt (filter (\<lambda>x. dt_disputeId x = i) (ds_timeline db)),
         filter (\<lambda>m. \<not> dm_isInternal m \<or> userRole = U_ADMIN \<or> userRole = U_ARBITRATOR)
           (sort_key dm_createdAt (filter (\<lambda>m. dm_disputeId m = i) (ds_messages db))),
         \<lparr>sl_initialReviewDeadline = di_initialReviewDeadline d, sl_resolutionDeadline = di_resolutionDeadline d,
          sl_initialReviewOverdue = (di_initialReviewCompletedAt d = None \<and> di_initialReviewDeadline d < t),
          sl_resolutionOverdue = (di_resolvedAt d = None \<and> di_resolutionDeadline d < t),
          sl_initialReviewCompleted = (di_initialReviewCompletedAt d \<noteq> None)\<rparr>)))"

definition dispute_findAll :: "string \<Rightarrow> user_role \<Rightarrow> query_dispute_dto \<Rightarrow> dispute_db \<Rightarrow> dispute list \<times> nat" where
  "dispute_findAll userId userRole q db =
     (let rows = sort_key (\<lambda>d. - di_createdAt d) (filter (\<lambda>d.
            (is_staff userRole \<or> di_complainantId d = userId \<or> di_respondentId d = userId) \<and>
            (case qd_status q of None \<Rightarrow> True | Some s \<Rightarrow> di_status d = s) \<and>
            (case qd_classification q of None \<Rightarrow> True | Some c \<Rightarrow> di_classification d = c) \<and>
            (case qd_tradeId q of None \<Rightarrow> True | Some i \<Rightarrow> di_tradeId d = i)) (ds_disputes db))
      in (take (qd_limit q) (drop ((qd_page q - 1) * qd_limit q) rows), length rows))"

definition submitEvidence ::
  "dispute_env \<Rightarrow> env \<Rightarrow> string \<Rightarrow> string \<Rightarrow> user_role \<Rightarrow> uploaded_file \<Rightarrow> string option \<Rightarrow> dispute_db \<Rightarrow>
   (dispute_evidence \<times> dispute_db) result" where
  "submitEvidence w e i userId userRole f description db =
     rbind (get_dispute i db) (\<lambda>d. rbind (assertPartyAccess d userId userRole) (\<lambda>_.
       if di_status d \<in> {DS_RESOLVED, DS_CLOSED, DS_REJECTED}
       then Inl (BadRequest ''Cannot submit evidence on a closed dispute'')
       else rbind (saveEvidence w e i userId f description db) (\<lambda>(x, db).
         let db = addTimelineEvent (now e) i DT_EVIDENCE_SUBMITTED userId (''Evidence submitted: '' @ uf_originalname f)
               (Some [(''evidenceId'', ev_id x)]) db;
             db = (if di_status d = DS_FILED then
               addTimelineEvent (now e) i DT_STATUS_CHANGED userId ''Status changed to investigation''
                 (Some [(''from'', dispute_status_str DS_FILED), (''to'', dispute_status_str DS_INVESTIGATION)])
                 (save_dispute (d\<lparr>di_status := DS_INVESTIGATION, di_initialReviewCompletedAt := Some (now e)\<rparr>) db)
               else db)
         in Inr (x, db))))"

definition sendMessage ::
  "env \<Rightarrow> string \<Rightarrow> string \<Rightarrow> user_role \<Rightarrow> create_message_dto \<Rightarrow> dispute_db \<Rightarrow> (dispute_message \<times> dispute_db) result" where
  "sendMessage e i userId userRole dto db =
     rbind (get_dispute i db) (\<lambda>d. rbind (assertPartyAccess d userId userRole) (\<lambda>_.
       if cm_isInternal dto = Some True \<and> userRole \<noteq> U_ADMIN \<and> userRole \<noteq> U_ARBITRATOR
       then Inl (Forbidden ''Only staff can send internal messages'')
       else let m = \<lparr>dm_disputeId = i, dm_senderId = userId, dm_content = cm_content dto,
                  dm_isInternal = (cm_isInternal dto = Some True), dm_createdAt = now e\<rparr>
            in Inr (m, addTimelineEvent (now e) i DT_MESSAGE_SENT userId ''Message sent'' None
                 (db\<lparr>ds_messages := ds_messages db @ [m]\<rparr>))))"

text \<open>The decision is stored and the arbitrator released before the enforcement, which may fail.\<close>

definition decide :: "env \<Rightarrow> string \<Rightarrow> resolve_dispute_dto \<Rightarrow> dispute \<Rightarrow> dispute_db \<Rightarrow> dispute \<times> dispute_db" where
  "decide e actorId dto d db =
     (let previousStatus = di_status d;
          d = d\<lparr>di_status := DS_RESOLVED, di_resolutionType := Some (rd_resolutionType dto),
            di_decisionReasoning := Some (rd_decisionReasoning dto), di_resolutionAmount := rd_resolutionAmount dto,
            di_resolvedAt := Some (now e),
            di_initialReviewCompletedAt := (case di_initialReviewCompletedAt d of None \<Rightarrow> Some (now e) | Some x \<Rightarrow> Some x)\<rparr>;
          db = addTimelineEvent (now e) (di_id d) DT_DECISION_MADE actorId (''Dispute resolved: '' @ resolution_str (rd_resolutionType dto))
            (Some [(''resolutionType'', resolution_str (rd_resolutionType dto)), (''reasoning'', rd_decisionReasoning dto)])
            (save_dispute d db);
          db = addTimelineEvent (now e) (di_id d) DT_STATUS_CHANGED actorId
            (''Status changed from '' @ dispute_status_str previousStatus @ '' to resolved'')
            (Some [(''from'', dispute_status_str previousStatus), (''to'', dispute_status_str DS_RESOLVED)]) db
      in (d, case di_arbitratorId d of None \<Rightarrow> db | Some a \<Rightarrow> releaseArbitrator a db))"

definition dispute_resolve ::
  "dispute_env \<Rightarrow> env \<Rightarrow> string \<Rightarrow> string \<Rightarrow> user_role \<Rightarrow> resolve_dispute_dto \<Rightarrow> dispute_db \<Rightarrow> dispute result \<times> dispute_db" where
  "dispute_resolve w e i actorId actorRole dto db = (case get_dispute i db of
     Inl err \<Rightarrow> (Inl err, db)
   | Inr d \<Rightarrow>
       if actorRole = U_ARBITRATOR \<and> di_arbitratorId d \<noteq> Some actorId
       then (Inl (Forbidden ''Arbitrators can only resolve disputes assigned to them''), db)
       else if di_status d \<notin> {DS_UNDER_REVIEW, DS_INVESTIGATION, DS_ARBITRATION, DS_APPEALED}
       then (Inl (BadRequest (''Cannot resolve dispute in status: '' @ dispute_status_str (di_status d))), db)
       else case decide e actorId dto d db of (d, db) \<Rightarrow>
         (case executeEnforcement w d db of
            Inl err \<Rightarrow> (Inl err, db)
          | Inr (d, db) \<Rightarrow>
              (Inr d, ds_emit (EV_DISPUTE_RESOLVED (di_id d) (rd_resolutionType dto) (di_complainantId d) (di_respondentId d))
                (addTimelineEvent (now e) i DT_ENFORCEMENT_EXECUTED actorId ''Resolution enforcement executed'' None db))))"

definition appealDispute :: "dispute_env \<Rightarrow> env \<Rightarrow> string \<Rightarrow> string \<Rightarrow> string \<Rightarrow> dispute_db \<Rightarrow> (dispute \<times> dispute_db) result" where
  "appealDispute w e i userId appealReason db =
     rbind (get_dispute i db) (\<lambda>d.
       if di_complainantId d \<noteq> userId \<and> di_respondentId d \<noteq> userId
       then Inl (Forbidden ''Only dispute parties can file an appeal'')
       else if di_status d \<noteq> DS_RESOLVED then Inl (BadRequest ''Appeals can only be filed on resolved disputes'')
       else if di_appealed d then Inl (BadRequest ''Only one appeal is allowed per dispute'')
       else
         let d = d\<lparr>di_appealed := True, di_status := DS_APPEALED, di_enforcementExecuted := False,
               di_metadata := Some (map_set ''appealedBy'' (JStr userId) (map_set ''appealedAt'' (JStr (toISOString (now e)))
                 (map_set ''appealReason'' (JStr appealReason) (spread (di_metadata d)))))\<rparr>;
             db = addTimelineEvent (now e) i DT_APPEAL_FILED userId ''Appeal filed'' (Some [(''reason'', appealReason)]) (save_dispute d db);
             (d, db) = assign_step w e DS_ARBITRATION ''New arbitrator assigned for appeal'' False d db
         in Inr (d, ds_emit (EV_DISPUTE_APPEALED (di_id d) userId) db))"

definition dispute_getTimeline :: "string \<Rightarrow> string \<Rightarrow> user_role \<Rightarrow> dispute_db \<Rightarrow> dispute_timeline list result" where
  "dispute_getTimeline i userId userRole db =
     rbind (get_dispute i db) (\<lambda>d. rbind (assertPartyAccess d userId userRole) (\<lambda>_.
       Inr (sort_key dt_createdAt (filter (\<lambda>x. dt_disputeId x = i) (ds_timeline db)))))"

section \<open>Metrics\<close>

record trend_point =
  tp_period :: string
  tp_filed :: nat
  tp_resolved :: nat

text \<open>First millisecond of a month, and the last second of it.\<close>

definition month_start :: "int \<Rightarrow> int \<Rightarrow> int" where
  "month_start y m0 = days_from_civil y m0 1 * 86400000"

definition trend_at :: "int \<Rightarrow> nat \<Rightarrow> dispute_db \<Rightarrow> trend_point" where
  "trend_at t i db = (case civil_from_days (t div 86400000) of (y, m, _) \<Rightarrow>
     let start = month_start y (m - 1 - int i);
         fin = month_start y (m - 1 - int i + 1) - 86400000 + (23 * 3600 + 59 * 60 + 59) * 1000;
         inside = (\<lambda>x. start \<le> x \<and> x \<le> fin);
         (ys, ms, _) = civil_from_days (start div 86400000)
     in \<lparr>tp_period = int_to_string ys @ ''-'' @ pad_int 2 ms,
         tp_filed = length (filter (\<lambda>d. inside (di_createdAt d)) (ds_disputes db)),
         tp_resolved = length (filter (\<lambda>d. (case di_resolvedAt d of None \<Rightarrow> False | Some x \<Rightarrow> inside x) \<and> di_status d = DS_RESOLVED)
           (ds_disputes db))\<rparr>)"

definition getTrends :: "int \<Rightarrow> nat \<Rightarrow> dispute_db \<Rightarrow> trend_point list" where
  "getTrends t months db = map (\<lambda>i. trend_at t i db) (rev [0..<months])"

record dispute_metrics =
  me_totalDisputes :: nat
  me_openDisputes :: nat
  me_resolvedDisputes :: nat
  me_appealedDisputes :: nat
  me_rejectedDisputes :: nat
  me_averageResolutionDays :: number
  me_slaComplianceRate :: number
  me_appealRate :: number
  me_byClassification :: "(classification \<times> nat) list"
  me_byStatus :: "(dispute_status \<times> nat) list"
  me_trends :: "trend_point list"

definition two_decimals :: "number \<Rightarrow> number" where
  "two_decimals x = fl (of_int (math_round (num_mul x 100)) / 100)"

text \<open>The percentage of a part, rounded as the code does; the quotient of two lengths is rounded first.\<close>

definition percent_of :: "nat \<Rightarrow> nat \<Rightarrow> number \<Rightarrow> number" where
  "percent_of part whole otherwise = (if 0 < whole then num_mul (fl (of_nat part / of_nat whole)) 100 else otherwise)"

definition resolution_days :: "dispute \<Rightarrow> number list" where
  "resolution_days d = (case di_resolvedAt d of None \<Rightarrow> [] | Some r \<Rightarrow> [fl (of_int (r - di_createdAt d) / 86400000)])"

definition getDashboardMetrics :: "int \<Rightarrow> dispute_db \<Rightarrow> dispute_metrics" where
  "getDashboardMetrics t db =
     (let all = ds_disputes db;
          openDisputes = filter (\<lambda>d. di_status d \<in> {DS_FILED, DS_UNDER_REVIEW, DS_INVESTIGATION, DS_ARBITRATION, DS_APPEALED}) all;
          resolved = filter (\<lambda>d. di_status d = DS_RESOLVED \<or> di_status d = DS_CLOSED) all;
          times = concat (map resolution_days resolved);
          average = (if times = [] then 0 else fl (foldl num_add 0 times / of_nat (length times)));
          compliant = filter (\<lambda>d. case di_resolvedAt d of None \<Rightarrow> False | Some r \<Rightarrow> r \<le> di_resolutionDeadline d) resolved
      in \<lparr>me_totalDisputes = length all, me_openDisputes = length openDisputes, me_resolvedDisputes = length resolved,
          me_appealedDisputes = length (filter di_appealed all),
          me_rejectedDisputes = length (filter (\<lambda>d. di_status d = DS_REJECTED) all),
          me_averageResolutionDays = two_decimals average,
          me_slaComplianceRate = two_decimals (percent_of (length compliant) (length resolved) 100),
          me_appealRate = two_decimals (percent_of (length (filter di_appealed resolved)) (length resolved) 0),
          me_byClassification = map (\<lambda>c. (c, length (filter (\<lambda>d. di_classification d = c) all)))
            [DC_NON_DELIVERY, DC_WRONG_AMOUNT, DC_FRAUD, DC_SYSTEM_ERROR],
          me_byStatus = map (\<lambda>s. (s, length (filter (\<lambda>d. di_status d = s) all)))
            [DS_FILED, DS_UNDER_REVIEW, DS_INVESTIGATION, DS_ARBITRATION, DS_RESOLVED, DS_APPEALED, DS_CLOSED, DS_REJECTED],
          me_trends = getTrends t 6 db\<rparr>)"

end
