(* ===== verification/Dispute_Props.thy ===== *)
theory Dispute_Props
  imports Dispute
begin

text \<open>
  Properties of dispute resolution: the invariant of filings, decisions and workloads over every
  sequence of operations, what an appeal does to the enforcement and to the workload of an
  arbitrator, and how a rejected amount leaves a decided dispute behind.
\<close>

section \<open>The invariant\<close>

definition decisions :: "dispute_db \<Rightarrow> dispute_timeline list" where
  "decisions db = filter (\<lambda>x. dt_eventType x = DT_DECISION_MADE) (ds_timeline db)"

definition decided_times :: "string \<Rightarrow> dispute_db \<Rightarrow> nat" where
  "decided_times i db = length (filter (\<lambda>x. dt_disputeId x = i) (decisions db))"

definition filing :: "dispute \<Rightarrow> string \<times> string" where
  "filing d = (di_tradeId d, di_complainantId d)"

text \<open>A row by itself: the statuses before and after an appeal, and the fields of a decision.\<close>

definition dispute_ok :: "dispute \<Rightarrow> bool" where
  "dispute_ok d \<longleftrightarrow>
     (if di_appealed d then di_status d \<in> {DS_APPEALED, DS_ARBITRATION, DS_RESOLVED}
      else di_status d \<in> {DS_FILED, DS_UNDER_REVIEW, DS_INVESTIGATION, DS_RESOLVED}) \<and>
     (di_status d = DS_RESOLVED \<longrightarrow> di_resolutionType d \<noteq> None \<and> di_resolvedAt d \<noteq> None \<and> di_initialReviewCompletedAt d \<noteq> None) \<and>
     (di_enforcementExecuted d \<longrightarrow> di_status d = DS_RESOLVED)"

definition parties_ok :: "dispute_db \<Rightarrow> dispute \<Rightarrow> bool" where
  "parties_ok db d \<longleftrightarrow> (case row_by t_id (di_tradeId d) (ds_trades db) of None \<Rightarrow> False
     | Some t \<Rightarrow> {di_complainantId d, di_respondentId d} = {t_makerUserId t, t_takerUserId t})"

definition decisions_due :: "dispute \<Rightarrow> nat" where
  "decisions_due d = of_bool (di_status d = DS_RESOLVED) + of_bool (di_appealed d)"

definition filings_inv :: "dispute_db \<Rightarrow> bool" where
  "filings_inv db \<longleftrightarrow> keys_distinct di_id (ds_disputes db) \<and> distinct (map filing (ds_disputes db)) \<and>
     (\<forall>d \<in> set (ds_disputes db). dispute_ok d \<and> parties_ok db d \<and> decided_times (di_id d) db = decisions_due d) \<and>
     (\<forall>x \<in> set (decisions db). dt_disputeId x \<in> di_id ` set (ds_disputes db)) \<and>
     length (ds_transactions db) \<le> length (decisions db)"

definition active_for :: "string \<Rightarrow> dispute \<Rightarrow> bool" where
  "active_for u d \<longleftrightarrow> di_arbitratorId d = Some u \<and> di_status d \<noteq> DS_RESOLVED"

definition workload :: "string \<Rightarrow> dispute list \<Rightarrow> int" where
  "workload u ds = int (length (filter (active_for u) ds))"

definition arbitrator_ok :: "bool \<Rightarrow> dispute list \<Rightarrow> arbitrator \<Rightarrow> bool" where
  "arbitrator_ok wraps ds a \<longleftrightarrow> 0 \<le> ar_activeDisputeCount a \<and> ar_activeDisputeCount a \<le> workload (ar_userId a) ds \<and>
     (wraps \<longrightarrow> ar_activeDisputeCount a \<le> ar_maxActiveDisputes a)"

definition workload_inv :: "bool \<Rightarrow> dispute list \<Rightarrow> arbitrator list \<Rightarrow> bool" where
  "workload_inv wraps ds as \<longleftrightarrow> keys_distinct ar_id as \<and> distinct (map ar_userId as) \<and> (\<forall>a \<in> set as. arbitrator_ok wraps ds a)"

section \<open>Filings and decisions\<close>

text \<open>
  One row is written. The written row is either new or has the filing of the row it replaces;
  decisions of this row are appended, and at most that many transactions.
\<close>

lemma filings_write:
  assumes inv: "filings_inv db"
    and rows: "ds_disputes db' = save_row di_id d' (ds_disputes db)"
    and old: "case row_by di_id (di_id d') (ds_disputes db) of
        None \<Rightarrow> filing d' \<notin> filing ` set (ds_disputes db) \<and> ds = []
      | Some d \<Rightarrow> filing d' = filing d \<and> decisions_due d' = decisions_due d + length ds"
    and new: "dispute_ok d'" "parties_ok db d'" "row_by di_id (di_id d') (ds_disputes db) = None \<Longrightarrow> decisions_due d' = 0"
    and dec: "decisions db' = decisions db @ ds" "\<And>x. x \<in> set ds \<Longrightarrow> dt_disputeId x = di_id d'"
    and txs: "length (ds_transactions db') \<le> length (ds_transactions db) + length ds"
    and trades: "ds_trades db' = ds_trades db"
  shows "filings_inv db'"
proof -
  have kd: "keys_distinct di_id (ds_disputes db)" using inv by (simp add: filings_inv_def)
  have set': "set (ds_disputes db') = insert d' {r \<in> set (ds_disputes db). di_id r \<noteq> di_id d'}"
    by (simp add: rows set_save_row [OF kd])
  have unique: "distinct (map filing (ds_disputes db'))"
  proof (cases "row_by di_id (di_id d') (ds_disputes db)")
    case None
    then show ?thesis using inv old by (simp add: rows save_row_new filings_inv_def)
  next
    case (Some d)
    then show ?thesis using inv old map_save_row_same [OF Some, of filing] by (simp add: rows filings_inv_def)
  qed
  have parties: "parties_ok db' d = parties_ok db d" for d by (simp add: parties_ok_def trades)
  have mine: "decided_times (di_id d') db' = decided_times (di_id d') db + length ds"
  proof -
    have "filter (\<lambda>x. dt_disputeId x = di_id d') ds = ds" using dec(2) by (simp add: filter_id_conv)
    then show ?thesis by (simp add: decided_times_def dec(1))
  qed
  have times: "decided_times (di_id d') db' = decisions_due d'"
  proof (cases "row_by di_id (di_id d') (ds_disputes db)")
    case None
    have "di_id d' \<notin> di_id ` set (ds_disputes db)" using None by (simp add: row_by_None_iff)
    then have "\<forall>x \<in> set (decisions db). dt_disputeId x \<noteq> di_id d'" using inv unfolding filings_inv_def by metis
    then have "decided_times (di_id d') db = 0" by (simp add: decided_times_def filter_empty_conv)
    then show ?thesis using mine None old new(3) by simp
  next
    case (Some d)
    then have "d \<in> set (ds_disputes db)" "di_id d = di_id d'" using row_by_SomeD [OF Some] by simp_all
    then have "decided_times (di_id d') db = decisions_due d" using inv unfolding filings_inv_def by metis
    then show ?thesis using mine Some old by simp
  qed
  have others: "decided_times (di_id r) db' = decided_times (di_id r) db" if "di_id r \<noteq> di_id d'" for r :: dispute
  proof -
    have "filter (\<lambda>x. dt_disputeId x = di_id r) ds = []" using dec(2) that by (auto simp: filter_empty_conv)
    then show ?thesis by (simp add: decided_times_def dec(1))
  qed
  have rowsok: "\<forall>d \<in> set (ds_disputes db'). dispute_ok d \<and> parties_ok db' d \<and> decided_times (di_id d) db' = decisions_due d"
    using inv new times others parties unfolding set' filings_inv_def by simp
  have "di_id ` set (ds_disputes db') = insert (di_id d') (di_id ` set (ds_disputes db))"
    by (simp add: rows key_set_save_row)
  then have refs: "\<forall>x \<in> set (decisions db'). dt_disputeId x \<in> di_id ` set (ds_disputes db')"
    using inv dec unfolding filings_inv_def by auto
  have "length (ds_transactions db') \<le> length (decisions db')" using inv txs by (simp add: filings_inv_def dec(1))
  then show ?thesis using keys_distinct_save_row [OF kd, of d'] unique rowsok refs
    unfolding filings_inv_def by (simp add: rows)
qed

lemma filings_cong:
  assumes "filings_inv db" "ds_disputes db' = ds_disputes db" "decisions db' = decisions db"
    "ds_transactions db' = ds_transactions db" "ds_trades db' = ds_trades db"
  shows "filings_inv db'"
  using assms by (simp add: filings_inv_def parties_ok_def decided_times_def)

section \<open>Workload\<close>

lemma workload_save:
  "row_by di_id (di_id d') ds = Some d \<Longrightarrow>
     workload u (save_row di_id d' ds) = workload u ds - of_bool (active_for u d) + of_bool (active_for u d')"
  unfolding workload_def by (rule length_filter_save_row)

lemma workload_new:
  "row_by di_id (di_id d') ds = None \<Longrightarrow> workload u (save_row di_id d' ds) = workload u ds + of_bool (active_for u d')"
  unfolding workload_def by (simp add: save_row_new)

lemma arbitrator_mono:
  "arbitrator_ok wraps ds a \<Longrightarrow> workload (ar_userId a) ds \<le> workload (ar_userId a) ds' \<Longrightarrow> arbitrator_ok wraps ds' a"
  unfolding arbitrator_ok_def by linarith

lemma workload_mono:
  assumes "workload_inv wraps ds as" and "\<And>u. workload u ds \<le> workload u ds'"
  shows "workload_inv wraps ds' as"
  using assms arbitrator_mono unfolding workload_inv_def by blast

text \<open>One arbitrator's counter changes along with the number of active disputes.\<close>

lemma workload_change:
  assumes inv: "workload_inv wraps ds as" and a: "a \<in> set as"
    and a': "ar_id a' = ar_id a" "ar_userId a' = ar_userId a" and ok: "arbitrator_ok wraps ds' a'"
    and others: "\<And>u. u \<noteq> ar_userId a \<Longrightarrow> workload u ds \<le> workload u ds'"
  shows "workload_inv wraps ds' (save_row ar_id a' as)"
proof -
  have kd: "keys_distinct ar_id as" and du: "distinct (map ar_userId as)" using inv by (simp_all add: workload_inv_def)
  have row: "row_by ar_id (ar_id a') as = Some a" using row_by_distinct [OF kd a] a' by simp
  have "arbitrator_ok wraps ds' r" if r: "r \<in> set as" "ar_id r \<noteq> ar_id a'" for r
  proof -
    have "ar_userId r \<noteq> ar_userId a" using du r a a'(1) by (metis distinct_map inj_on_contraD)
    then show ?thesis using inv r(1) others arbitrator_mono unfolding workload_inv_def by blast
  qed
  then show ?thesis using ok keys_distinct_save_row [OF kd, of a'] map_save_row_same [OF row a'(2)] du
    unfolding workload_inv_def by (simp add: set_save_row [OF kd])
qed

section \<open>What the operations write\<close>

lemma timeline_fields [simp]:
  "ds_disputes (addTimelineEvent t i ty u ds m db) = ds_disputes db"
  "ds_transactions (addTimelineEvent t i ty u ds m db) = ds_transactions db"
  "ds_trades (addTimelineEvent t i ty u ds m db) = ds_trades db"
  "ds_arbitrators (addTimelineEvent t i ty u ds m db) = ds_arbitrators db"
  by (simp_all add: addTimelineEvent_def)

lemma decisions_timeline [simp]:
  "decisions (addTimelineEvent t i ty u ds m db) = decisions db @ (if ty = DT_DECISION_MADE then
     [\<lparr>dt_disputeId = i, dt_eventType = ty, dt_actorId = u, dt_description = Some ds, dt_metadata = m, dt_createdAt = t\<rparr>] else [])"
  by (simp add: decisions_def addTimelineEvent_def)

lemma emit_fields [simp]:
  "ds_disputes (ds_emit ev db) = ds_disputes db" "ds_transactions (ds_emit ev db) = ds_transactions db"
  "ds_trades (ds_emit ev db) = ds_trades db" "ds_arbitrators (ds_emit ev db) = ds_arbitrators db"
  "decisions (ds_emit ev db) = decisions db"
  by (simp_all add: ds_emit_def decisions_def)

lemma decisions_update [simp]:
  "decisions (db\<lparr>ds_disputes := x\<rparr>) = decisions db" "decisions (db\<lparr>ds_arbitrators := a\<rparr>) = decisions db"
  "decisions (db\<lparr>ds_transactions := r\<rparr>) = decisions db" "decisions (db\<lparr>ds_evidence := v\<rparr>) = decisions db"
  "decisions (db\<lparr>ds_files := f\<rparr>) = decisions db" "decisions (db\<lparr>ds_messages := m\<rparr>) = decisions db"
  "decisions (db\<lparr>ds_users := y\<rparr>) = decisions db" "decisions (db\<lparr>ds_trades := z\<rparr>) = decisions db"
  by (simp_all add: decisions_def)

lemma assignArbitrator_cases:
  assumes "assignArbitrator w c db = (x, db')"
  obtains "x = None" "db' = db"
  | a where "a \<in> set (ds_arbitrators db)" "assignable (qb_wraps w) c a"
      "x = Some (a\<lparr>ar_activeDisputeCount := ar_activeDisputeCount a + 1\<rparr>)"
      "db' = save_arbitrator (a\<lparr>ar_activeDisputeCount := ar_activeDisputeCount a + 1\<rparr>) db"
proof (cases "sort_key ar_activeDisputeCount (filter (assignable (qb_wraps w) c) (ds_arbitrators db))")
  case Nil
  then show thesis using assms that(1) by (simp add: assignArbitrator_def)
next
  case (Cons a as)
  then have "a \<in> set (filter (assignable (qb_wraps w) c) (ds_arbitrators db))" by (metis list.set_intros(1) set_sort)
  then show thesis using assms Cons that(2) [of a] by (simp add: assignArbitrator_def Let_def)
qed

lemma assign_step_cases:
  assumes "assign_step w e st note em d db = (d', db')"
  obtains (none) "d' = d" "db' = db"
  | (some) a where "a \<in> set (ds_arbitrators db)" "assignable (qb_wraps w) (di_classification d) a"
      "d' = d\<lparr>di_arbitratorId := Some (ar_userId a), di_status := st\<rparr>"
      "ds_disputes db' = save_row di_id d' (ds_disputes db)"
      "ds_arbitrators db' = save_row ar_id (a\<lparr>ar_activeDisputeCount := ar_activeDisputeCount a + 1\<rparr>) (ds_arbitrators db)"
      "decisions db' = decisions db" "ds_transactions db' = ds_transactions db" "ds_trades db' = ds_trades db"
proof -
  obtain x db1 where x: "assignArbitrator w (di_classification d) db = (x, db1)" by fastforce
  from x show thesis
  proof (cases rule: assignArbitrator_cases)
    case 1
    then show thesis using assms x none by (simp add: assign_step_def)
  next
    case (2 a)
    then show thesis using assms x by (intro some [of a]) (auto simp: assign_step_def Let_def split: if_splits)
  qed
qed

lemma flagIfSimilar_ok:
  assumes "flagIfSimilar d db = (d', db')" and "row_by di_id (di_id d) (ds_disputes db) = Some d"
  shows "\<exists>f m. d' = d\<lparr>di_similarDisputesFlagged := f, di_metadata := m\<rparr> \<and> db' = save_dispute d' db"
proof (cases "detectSimilarDisputes d db = []")
  case True
  have "save_row key x t = t" if "row_by key (key x) t = Some x" for key :: "dispute \<Rightarrow> string" and x t
    using that by (induction t) (auto split: if_splits)
  with True assms have "d' = d" "db' = save_dispute d db" by (simp_all add: flagIfSimilar_def)
  moreover have "d = d\<lparr>di_similarDisputesFlagged := di_similarDisputesFlagged d, di_metadata := di_metadata d\<rparr>" by simp
  ultimately show ?thesis by metis
next
  case False
  then have "d' = d\<lparr>di_similarDisputesFlagged := True,
      di_metadata := Some (map_set ''similarDisputes'' (JArr (map match_json (take 5 (detectSimilarDisputes d db)))) (spread (di_metadata d)))\<rparr>"
    "db' = save_dispute d' db"
    using assms by (auto simp: flagIfSimilar_def Let_def)
  then show ?thesis by blast
qed

text \<open>An arbitrator takes a dispute: the counter and the status change together.\<close>

definition takes :: "dispute_env \<Rightarrow> dispute_status \<Rightarrow> arbitrator list \<Rightarrow> arbitrator list \<Rightarrow> dispute \<Rightarrow> bool" where
  "takes w st as as' d \<longleftrightarrow> (\<exists>a \<in> set as. assignable (qb_wraps w) (di_classification d) a \<and>
     di_arbitratorId d = Some (ar_userId a) \<and> di_status d = st \<and>
     as' = save_row ar_id (a\<lparr>ar_activeDisputeCount := ar_activeDisputeCount a + 1\<rparr>) as)"

definition new_filing :: "dispute \<Rightarrow> bool" where
  "new_filing d \<longleftrightarrow> \<not> di_appealed d \<and> \<not> di_enforcementExecuted d \<and> di_resolvedAt d = None \<and> di_resolutionType d = None"

lemma createDispute_ok:
  assumes ok: "createDispute w e u dto db = Inr (d, db')"
  obtains trade where "row_by t_id (cd_tradeId dto) (ds_trades db) = Some trade"
    "filing d = (cd_tradeId dto, u)" "{di_complainantId d, di_respondentId d} = {t_makerUserId trade, t_takerUserId trade}"
    "di_id d = uuid e 0" "new_filing d" "di_createdAt d = now e"
    "ds_disputes db' = save_row di_id d (ds_disputes db)" "decisions db' = decisions db"
    "ds_transactions db' = ds_transactions db" "ds_trades db' = ds_trades db"
    "di_status d = DS_FILED \<and> di_arbitratorId d = None \<and> ds_arbitrators db' = ds_arbitrators db \<or>
      takes w DS_UNDER_REVIEW (ds_arbitrators db) (ds_arbitrators db') d"
    "\<not> has_active_dispute (cd_tradeId dto) u db" "length (recent_disputes (now e) u db) < MAX_DISPUTES_PER_USER_PER_MONTH"
proof -
  from ok obtain trade where trade: "row_by t_id (cd_tradeId dto) (ds_trades db) = Some trade"
    and party: "\<not> (t_makerUserId trade \<noteq> u \<and> t_takerUserId trade \<noteq> u)"
    and guard: "\<not> has_active_dispute (cd_tradeId dto) u db"
    and recent: "checkFrivolousDisputeProtection (now e) u db = Inr ()"
    unfolding createDispute_def rbind_Inr_iff by (auto split: option.splits if_splits)
  define d0 where "d0 = new_dispute e u dto trade"
  define db0 where "db0 = addTimelineEvent (now e) (di_id d0) DT_DISPUTE_FILED u
      (''Dispute filed: '' @ classification_str (cd_classification dto)) None (save_dispute d0 db)"
  obtain d1 db1 where flag: "flagIfSimilar d0 db0 = (d1, db1)" by fastforce
  obtain d2 db2 where asg: "assign_step w e DS_UNDER_REVIEW
      (''Arbitrator assigned based on '' @ classification_str (cd_classification dto) @ '' expertise'') True d1 db1 = (d2, db2)" by fastforce
  have run: "d2 = d" "db' = ds_emit (EV_DISPUTE_CREATED (di_id d) u (di_respondentId d)) db2"
    using ok unfolding createDispute_def recent trade option.case rbind_simps if_not_P [OF party] if_not_P [OF guard] Let_def
      d0_def [symmetric] db0_def [symmetric] flag prod.case asg by auto
  have d0: "filing d0 = (cd_tradeId dto, u)" "{di_complainantId d0, di_respondentId d0} = {t_makerUserId trade, t_takerUserId trade}"
    "di_id d0 = uuid e 0" "new_filing d0" "di_createdAt d0 = now e" "di_status d0 = DS_FILED" "di_arbitratorId d0 = None"
    using party by (auto simp: d0_def new_dispute_def Let_def filing_def new_filing_def)
  have "row_by di_id (di_id d0) (ds_disputes db0) = Some d0" by (simp add: db0_def row_by_save_row)
  from flagIfSimilar_ok [OF flag this] obtain f m where d1: "d1 = d0\<lparr>di_similarDisputesFlagged := f, di_metadata := m\<rparr>"
    and db1: "db1 = save_dispute d1 db0" by blast
  have r1: "ds_disputes db1 = save_row di_id d1 (ds_disputes db)" "ds_arbitrators db1 = ds_arbitrators db"
    "decisions db1 = decisions db" "ds_transactions db1 = ds_transactions db" "ds_trades db1 = ds_trades db"
    by (simp_all add: db1 db0_def d1)
  have lim: "length (recent_disputes (now e) u db) < MAX_DISPUTES_PER_USER_PER_MONTH"
    using recent by (simp add: checkFrivolousDisputeProtection_def split: if_splits)
  show thesis
    using asg
  proof (cases rule: assign_step_cases)
    case none
    then show thesis
      using d0 r1 run guard lim by (intro that [OF trade]) (simp_all add: d1 filing_def new_filing_def)
  next
    case (some a)
    have "takes w DS_UNDER_REVIEW (ds_arbitrators db) (ds_arbitrators db') d"
      unfolding takes_def using some(1-3,5) run r1 by (intro bexI [of _ a]) simp_all
    moreover have "filing d = filing d0" "di_complainantId d = di_complainantId d0" "di_respondentId d = di_respondentId d0"
      "di_id d = di_id d0" "new_filing d = new_filing d0" "di_createdAt d = di_createdAt d0" "di_id d1 = di_id d"
      unfolding run(1) [symmetric] some(3) d1 filing_def new_filing_def by simp_all
    ultimately show thesis
      using d0(1-5) r1(1,3-5) run guard lim some(4-8) by (intro that [OF trade]) simp_all
  qed
qed

lemma get_dispute_iff: "get_dispute i db = Inr d \<longleftrightarrow> row_by di_id i (ds_disputes db) = Some d"
  by (auto simp: get_dispute_def split: option.splits)

lemma appealDispute_ok:
  assumes ok: "appealDispute w e i u reason db = Inr (d', db')"
  obtains d where "row_by di_id i (ds_disputes db) = Some d" "di_status d = DS_RESOLVED" "\<not> di_appealed d"
    "u \<in> {di_complainantId d, di_respondentId d}"
    "di_id d' = i" "filing d' = filing d" "di_respondentId d' = di_respondentId d" "di_appealed d'" "\<not> di_enforcementExecuted d'"
    "ds_disputes db' = save_row di_id d' (ds_disputes db)" "decisions db' = decisions db"
    "ds_transactions db' = ds_transactions db" "ds_trades db' = ds_trades db"
    "di_status d' = DS_APPEALED \<and> di_arbitratorId d' = di_arbitratorId d \<and> ds_arbitrators db' = ds_arbitrators db \<or>
      takes w DS_ARBITRATION (ds_arbitrators db) (ds_arbitrators db') d'"
proof -
  from ok obtain d where row: "row_by di_id i (ds_disputes db) = Some d"
    and party: "\<not> (di_complainantId d \<noteq> u \<and> di_respondentId d \<noteq> u)"
    and st: "\<not> di_status d \<noteq> DS_RESOLVED" and app: "\<not> di_appealed d"
    unfolding appealDispute_def rbind_Inr_iff get_dispute_iff by (auto split: if_splits)
  define d0 where "d0 = d\<lparr>di_appealed := True, di_status := DS_APPEALED, di_enforcementExecuted := False,
      di_metadata := Some (map_set ''appealedBy'' (JStr u) (map_set ''appealedAt'' (JStr (toISOString (now e)))
        (map_set ''appealReason'' (JStr reason) (spread (di_metadata d)))))\<rparr>"
  define db0 where "db0 = addTimelineEvent (now e) i DT_APPEAL_FILED u ''Appeal filed'' (Some [(''reason'', reason)]) (save_dispute d0 db)"
  obtain d2 db2 where asg: "assign_step w e DS_ARBITRATION ''New arbitrator assigned for appeal'' False d0 db0 = (d2, db2)" by fastforce
  have get: "get_dispute i db = Inr d" using row by (simp add: get_dispute_iff)
  have run: "d2 = d'" "db' = ds_emit (EV_DISPUTE_APPEALED (di_id d') u) db2"
    using ok unfolding appealDispute_def get rbind_simps if_not_P [OF party] if_not_P [OF st] if_not_P [OF app] Let_def
      d0_def [symmetric] db0_def [symmetric] prod.case asg by auto
  have id: "di_id d0 = i" using row_by_SomeD [OF row] by (simp add: d0_def)
  have r0: "ds_disputes db0 = save_row di_id d0 (ds_disputes db)" "ds_arbitrators db0 = ds_arbitrators db"
    "decisions db0 = decisions db" "ds_transactions db0 = ds_transactions db" "ds_trades db0 = ds_trades db"
    by (simp_all add: db0_def)
  show thesis
    using asg
  proof (cases rule: assign_step_cases)
    case none
    then show thesis using r0 run party st app id
      by (intro that [OF row]) (auto simp: d0_def filing_def)
  next
    case (some a)
    have "takes w DS_ARBITRATION (ds_arbitrators db) (ds_arbitrators db') d'"
      unfolding takes_def using some(1-3,5) run r0 by (intro bexI [of _ a]) simp_all
    then show thesis using r0 run party st app id some
      by (intro that [OF row]) (auto simp: d0_def filing_def)
  qed
qed

lemma submitEvidence_ok:
  assumes ok: "submitEvidence w e i u r f de db = Inr (x, db')"
  obtains d where "row_by di_id i (ds_disputes db) = Some d" "di_status d \<notin> {DS_RESOLVED, DS_CLOSED, DS_REJECTED}"
    "decisions db' = decisions db" "ds_transactions db' = ds_transactions db" "ds_trades db' = ds_trades db"
    "ds_arbitrators db' = ds_arbitrators db"
    "di_status d \<noteq> DS_FILED \<and> ds_disputes db' = ds_disputes db \<or> di_status d = DS_FILED \<and>
      ds_disputes db' = save_row di_id (d\<lparr>di_status := DS_INVESTIGATION, di_initialReviewCompletedAt := Some (now e)\<rparr>) (ds_disputes db)"
proof -
  from ok obtain d where row: "row_by di_id i (ds_disputes db) = Some d" and acc: "assertPartyAccess d u r = Inr ()"
    and st: "di_status d \<notin> {DS_RESOLVED, DS_CLOSED, DS_REJECTED}"
    unfolding submitEvidence_def rbind_Inr_iff get_dispute_iff by (auto split: if_splits)
  have get: "get_dispute i db = Inr d" using row by (simp add: get_dispute_iff)
  obtain db1 where ev: "saveEvidence w e i u f de db = Inr (x, db1)"
    and db': "db' = (let db = addTimelineEvent (now e) i DT_EVIDENCE_SUBMITTED u (''Evidence submitted: '' @ uf_originalname f)
               (Some [(''evidenceId'', ev_id x)]) db1
        in if di_status d = DS_FILED then
               addTimelineEvent (now e) i DT_STATUS_CHANGED u ''Status changed to investigation''
                 (Some [(''from'', dispute_status_str DS_FILED), (''to'', dispute_status_str DS_INVESTIGATION)])
                 (save_dispute (d\<lparr>di_status := DS_INVESTIGATION, di_initialReviewCompletedAt := Some (now e)\<rparr>) db)
               else db)"
    using ok unfolding submitEvidence_def get acc rbind_simps if_not_P [OF st] rbind_Inr_iff Let_def by fastforce
  have "ds_disputes db1 = ds_disputes db" "decisions db1 = decisions db" "ds_transactions db1 = ds_transactions db"
    "ds_trades db1 = ds_trades db" "ds_arbitrators db1 = ds_arbitrators db"
    using ev unfolding saveEvidence_def rbind_Inr_iff by (auto simp: Let_def)
  then show thesis using db' by (intro that [OF row st]) (auto simp: Let_def)
qed

text \<open>A release lowers one counter by one, or leaves a counter that is zero already.\<close>

lemma releaseArbitrator_cases:
  obtains (same) "releaseArbitrator u db = db"
      "\<And>a. row_by ar_userId u (ds_arbitrators db) = Some a \<Longrightarrow> ar_activeDisputeCount a \<le> 0"
  | (lowered) a where "row_by ar_userId u (ds_arbitrators db) = Some a" "0 < ar_activeDisputeCount a"
      "releaseArbitrator u db = save_arbitrator (a\<lparr>ar_activeDisputeCount := ar_activeDisputeCount a - 1,
         ar_totalResolved := ar_totalResolved a + 1\<rparr>) db"
proof (cases "row_by ar_userId u (ds_arbitrators db)")
  case None
  then show thesis using same by (simp add: releaseArbitrator_def)
next
  case (Some a)
  then show thesis using same lowered by (cases "0 < ar_activeDisputeCount a") (simp_all add: releaseArbitrator_def)
qed

definition decided_row :: "env \<Rightarrow> resolve_dispute_dto \<Rightarrow> dispute \<Rightarrow> dispute" where
  "decided_row e dto d = d\<lparr>di_status := DS_RESOLVED, di_resolutionType := Some (rd_resolutionType dto),
     di_decisionReasoning := Some (rd_decisionReasoning dto), di_resolutionAmount := rd_resolutionAmount dto,
     di_resolvedAt := Some (now e),
     di_initialReviewCompletedAt := (case di_initialReviewCompletedAt d of None \<Rightarrow> Some (now e) | Some x \<Rightarrow> Some x)\<rparr>"

definition release_of :: "dispute \<Rightarrow> dispute_db \<Rightarrow> arbitrator list" where
  "release_of d db = (case di_arbitratorId d of None \<Rightarrow> ds_arbitrators db | Some a \<Rightarrow> ds_arbitrators (releaseArbitrator a db))"

lemma release_fields:
  "ds_disputes (releaseArbitrator a db) = ds_disputes db" "decisions (releaseArbitrator a db) = decisions db"
  "ds_transactions (releaseArbitrator a db) = ds_transactions db" "ds_trades (releaseArbitrator a db) = ds_trades db"
  by (simp_all add: releaseArbitrator_def decisions_def split: option.splits)

lemma release_cong:
  "ds_arbitrators db' = ds_arbitrators db \<Longrightarrow> ds_arbitrators (releaseArbitrator a db') = ds_arbitrators (releaseArbitrator a db)"
  by (simp add: releaseArbitrator_def split: option.splits)

lemma decide_ok:
  assumes "decide e u dto d db = (d', db')"
  shows "d' = decided_row e dto d" "ds_disputes db' = save_row di_id d' (ds_disputes db)"
    "ds_arbitrators db' = release_of d db" "\<exists>x. decisions db' = decisions db @ [x] \<and> dt_disputeId x = di_id d"
    "ds_transactions db' = ds_transactions db" "ds_trades db' = ds_trades db"
  using assms by (auto simp: decide_def Let_def decided_row_def release_of_def release_fields split: option.splits
      intro!: release_cong)

lemma executeEnforcement_ok:
  assumes "executeEnforcement w d db = Inr (d', db')"
  obtains b rs where "d' = d\<lparr>di_enforcementExecuted := b\<rparr>" "ds_transactions db' = ds_transactions db @ rs" "length rs \<le> 1"
    "db' = db \<and> d' = d \<or> db' = save_dispute d' (db\<lparr>ds_transactions := ds_transactions db @ rs\<rparr>)"
proof -
  have self: "d = d\<lparr>di_enforcementExecuted := di_enforcementExecuted d\<rparr>" by simp
  show thesis
  proof (cases "db' = db \<and> d' = d")
    case True
    then show thesis using that [of "di_enforcementExecuted d" "[]"] self by simp
  next
    case False
    then show thesis using assms
      by (auto simp: executeEnforcement_def createRemediationTransaction_def Let_def rbind_Inr_iff
          split: if_splits option.splits resolution_type.splits intro: that [of True "[]"] that [of True])
  qed
qed

lemma dispute_resolve_cases:
  assumes run: "dispute_resolve w e i u r dto db = (res, db')"
  obtains (same) err where "res = Inl err" "db' = db"
  | (decided) d d' b x rs where "row_by di_id i (ds_disputes db) = Some d"
      "di_status d \<in> {DS_UNDER_REVIEW, DS_INVESTIGATION, DS_ARBITRATION, DS_APPEALED}"
      "d' = (decided_row e dto d)\<lparr>di_enforcementExecuted := b\<rparr>" "ds_disputes db' = save_row di_id d' (ds_disputes db)"
      "decisions db' = decisions db @ [x]" "dt_disputeId x = i" "ds_transactions db' = ds_transactions db @ rs" "length rs \<le> 1"
      "ds_trades db' = ds_trades db" "ds_arbitrators db' = release_of d db"
proof (cases "db' = db \<and> isl res")
  case False
  with run obtain d where row: "row_by di_id i (ds_disputes db) = Some d"
    and st: "di_status d \<in> {DS_UNDER_REVIEW, DS_INVESTIGATION, DS_ARBITRATION, DS_APPEALED}"
    and role: "\<not> (r = U_ARBITRATOR \<and> di_arbitratorId d \<noteq> Some u)"
    unfolding dispute_resolve_def get_dispute_def by (auto split: option.splits if_splits)
  have get: "get_dispute i db = Inr d" using row by (simp add: get_dispute_iff)
  have st': "\<not> di_status d \<notin> {DS_UNDER_REVIEW, DS_INVESTIGATION, DS_ARBITRATION, DS_APPEALED}" using st by blast
  obtain d1 db1 where dec: "decide e u dto d db = (d1, db1)" by fastforce
  note dk = decide_ok [OF dec]
  from dk(4) obtain x where x: "decisions db1 = decisions db @ [x]" "dt_disputeId x = di_id d" by blast
  note go = run [unfolded dispute_resolve_def get sum.case if_not_P [OF role] if_not_P [OF st'] dec prod.case]
  have self: "d1 = (decided_row e dto d)\<lparr>di_enforcementExecuted := di_enforcementExecuted d1\<rparr>" by (simp add: dk(1))
  have i: "di_id d = i" using row_by_SomeD [OF row] by simp
  show thesis
  proof (cases "executeEnforcement w d1 db1")
    case (Inl err)
    then have "db' = db1" using go by simp
    then show thesis using decided [OF row st self _ _ _ _ _ _, of x "[]"] dk(2,3,5,6) x i by simp
  next
    case (Inr y)
    obtain d2 db2 where y: "y = (d2, db2)" by fastforce
    from Inr [unfolded y] obtain b rs where enf: "d2 = d1\<lparr>di_enforcementExecuted := b\<rparr>"
      "ds_transactions db2 = ds_transactions db1 @ rs" "length rs \<le> 1"
      "db2 = db1 \<and> d2 = d1 \<or> db2 = save_dispute d2 (db1\<lparr>ds_transactions := ds_transactions db1 @ rs\<rparr>)"
      by (rule executeEnforcement_ok)
    have d2: "d2 = (decided_row e dto d)\<lparr>di_enforcementExecuted := b\<rparr>" by (simp add: enf(1) dk(1))
    have "ds_disputes db2 = save_row di_id d2 (ds_disputes db)" "decisions db2 = decisions db1" "ds_trades db2 = ds_trades db"
      "ds_arbitrators db2 = release_of d db"
      using enf(1,4) dk(2,3,6) by auto
    moreover have db': "db' = ds_emit (EV_DISPUTE_RESOLVED (di_id d2) (rd_resolutionType dto) (di_complainantId d2) (di_respondentId d2))
        (addTimelineEvent (now e) i DT_ENFORCEMENT_EXECUTED u ''Resolution enforcement executed'' None db2)"
      using go Inr y by simp
    ultimately show thesis using x i enf(2,3) dk(5) by (intro decided [OF row st d2, of x rs]) (simp_all add: db')
  qed
qed (use same in \<open>auto simp: isl_def\<close>)

section \<open>The operations keep the invariants\<close>

lemma find_row_member:
  assumes "find P xs = None" "x \<in> set xs"
  shows "\<not> P x"
  using assms by (simp add: find_None_iff)

lemma createDispute_filings:
  assumes inv: "filings_inv db" and fresh: "row_by di_id (uuid e 0) (ds_disputes db) = None"
    and ok: "createDispute w e u dto db = Inr (d, db')"
  shows "filings_inv db'"
  using ok
proof (rule createDispute_ok)
  fix trade
  assume trade: "row_by t_id (cd_tradeId dto) (ds_trades db) = Some trade"
    and d: "filing d = (cd_tradeId dto, u)" "{di_complainantId d, di_respondentId d} = {t_makerUserId trade, t_takerUserId trade}"
      "di_id d = uuid e 0" "new_filing d" "di_createdAt d = now e"
    and w: "ds_disputes db' = save_row di_id d (ds_disputes db)" "decisions db' = decisions db"
      "ds_transactions db' = ds_transactions db" "ds_trades db' = ds_trades db"
    and st: "di_status d = DS_FILED \<and> di_arbitratorId d = None \<and> ds_arbitrators db' = ds_arbitrators db \<or>
      takes w DS_UNDER_REVIEW (ds_arbitrators db) (ds_arbitrators db') d"
    and guard: "\<not> has_active_dispute (cd_tradeId dto) u db"
  have status: "di_status d \<in> {DS_FILED, DS_UNDER_REVIEW}" using st by (auto simp: takes_def)
  have "filing d \<notin> filing ` set (ds_disputes db)"
  proof
    assume "filing d \<in> filing ` set (ds_disputes db)"
    then obtain x where x: "x \<in> set (ds_disputes db)" "di_tradeId x = cd_tradeId dto \<and> di_complainantId x = u"
      using d(1) by (auto simp: filing_def)
    then obtain y where y: "find (\<lambda>d. di_tradeId d = cd_tradeId dto \<and> di_complainantId d = u) (ds_disputes db) = Some y"
      using find_row_member by (metis (mono_tags, lifting) not_None_eq)
    then have "y \<in> set (ds_disputes db)" by (auto simp: find_Some_iff)
    then have "di_status y \<noteq> DS_REJECTED" using inv by (auto simp: filings_inv_def dispute_ok_def split: if_splits)
    with y guard show False by (simp add: has_active_dispute_def)
  qed
  moreover have "dispute_ok d" "decisions_due d = 0"
    using d(4) status by (auto simp: dispute_ok_def new_filing_def decisions_due_def)
  moreover have "parties_ok db d" using trade d(1,2) by (simp add: parties_ok_def filing_def)
  ultimately show ?thesis using fresh d(3) w by (intro filings_write [OF inv w(1), of "[]"]) simp_all
qed

lemma parties_ok_cong:
  "filing d' = filing d \<Longrightarrow> di_respondentId d' = di_respondentId d \<Longrightarrow> parties_ok db d' = parties_ok db d"
  by (simp add: parties_ok_def filing_def split: option.splits)

lemma row_facts:
  assumes "filings_inv db" "row_by di_id i (ds_disputes db) = Some d"
  shows "dispute_ok d" "parties_ok db d" "di_id d = i"
  using assms row_by_SomeD [OF assms(2)] by (auto simp: filings_inv_def)

lemma appealDispute_filings:
  assumes inv: "filings_inv db" and ok: "appealDispute w e i u reason db = Inr (d', db')"
  shows "filings_inv db'"
  using ok
proof (rule appealDispute_ok)
  fix d assume row: "row_by di_id i (ds_disputes db) = Some d" and d: "di_status d = DS_RESOLVED" "\<not> di_appealed d"
    and d': "di_id d' = i" "filing d' = filing d" "di_respondentId d' = di_respondentId d" "di_appealed d'"
      "\<not> di_enforcementExecuted d'"
    and w: "ds_disputes db' = save_row di_id d' (ds_disputes db)" "decisions db' = decisions db"
      "ds_transactions db' = ds_transactions db" "ds_trades db' = ds_trades db"
    and st: "di_status d' = DS_APPEALED \<and> di_arbitratorId d' = di_arbitratorId d \<and> ds_arbitrators db' = ds_arbitrators db \<or>
      takes w DS_ARBITRATION (ds_arbitrators db) (ds_arbitrators db') d'"
  have status: "di_status d' \<in> {DS_APPEALED, DS_ARBITRATION}" using st by (auto simp: takes_def)
  have "dispute_ok d'" "decisions_due d' = decisions_due d"
    using status d d'(4,5) by (auto simp: dispute_ok_def decisions_due_def)
  moreover have "parties_ok db d'" using row_facts(2) [OF inv row] parties_ok_cong [OF d'(2,3)] by simp
  ultimately show ?thesis using row w d' by (intro filings_write [OF inv w(1), of "[]"]) simp_all
qed

lemma dispute_resolve_filings:
  assumes inv: "filings_inv db" and run: "dispute_resolve w e i u r dto db = (res, db')"
  shows "filings_inv db'"
  using run
proof (cases rule: dispute_resolve_cases)
  case (decided d d' b x rs)
  note rf = row_facts [OF inv decided(1)]
  have d': "di_id d' = i" "filing d' = filing d" "di_respondentId d' = di_respondentId d" "di_appealed d' = di_appealed d"
    "di_status d' = DS_RESOLVED"
    using rf(3) by (simp_all add: decided(3) decided_row_def filing_def)
  have "dispute_ok d'" using d' by (simp add: dispute_ok_def decided(3) decided_row_def split: option.splits)
  moreover have "decisions_due d' = decisions_due d + 1" using d' decided(2) by (auto simp: decisions_due_def)
  moreover have "parties_ok db d'" using rf(2) parties_ok_cong [OF d'(2,3)] by simp
  ultimately show ?thesis using decided d' by (intro filings_write [OF inv decided(4), of "[x]"]) simp_all
qed (use inv in simp)

lemma submitEvidence_filings:
  assumes inv: "filings_inv db" and ok: "submitEvidence w e i u r f de db = Inr (x, db')"
  shows "filings_inv db'"
  using ok
proof (rule submitEvidence_ok)
  fix d assume row: "row_by di_id i (ds_disputes db) = Some d"
    and w: "decisions db' = decisions db" "ds_transactions db' = ds_transactions db" "ds_trades db' = ds_trades db"
    and ch: "di_status d \<noteq> DS_FILED \<and> ds_disputes db' = ds_disputes db \<or> di_status d = DS_FILED \<and>
      ds_disputes db' = save_row di_id (d\<lparr>di_status := DS_INVESTIGATION, di_initialReviewCompletedAt := Some (now e)\<rparr>) (ds_disputes db)"
  note rf = row_facts [OF inv row]
  from ch show ?thesis
  proof (elim disjE conjE)
    assume "ds_disputes db' = ds_disputes db"
    then show ?thesis using w by (intro filings_cong [OF inv])
  next
    let ?d = "d\<lparr>di_status := DS_INVESTIGATION, di_initialReviewCompletedAt := Some (now e)\<rparr>"
    assume st: "di_status d = DS_FILED" and rows: "ds_disputes db' = save_row di_id ?d (ds_disputes db)"
    have "dispute_ok ?d" "decisions_due ?d = decisions_due d" using rf(1) st by (auto simp: dispute_ok_def decisions_due_def split: if_splits)
    moreover have "filing ?d = filing d" by (simp add: filing_def)
    moreover from this have "parties_ok db ?d" using rf(2) by (simp add: parties_ok_cong [of ?d d])
    ultimately show ?thesis using w row rf(3) by (intro filings_write [OF inv rows, of "[]"]) simp_all
  qed
qed

text \<open>The same for the workload.\<close>

lemma workload_takes:
  assumes inv: "workload_inv (qb_wraps w) ds as" and t: "takes w st as as' d'" "st \<noteq> DS_RESOLVED"
    and rows: "ds' = save_row di_id d' ds"
    and old: "\<And>d. row_by di_id (di_id d') ds = Some d \<Longrightarrow> di_status d = DS_RESOLVED"
  shows "workload_inv (qb_wraps w) ds' as'"
proof -
  have wl: "workload u ds' = workload u ds + of_bool (active_for u d')" for u
  proof (cases "row_by di_id (di_id d') ds")
    case None
    then show ?thesis by (simp add: rows workload_new)
  next
    case (Some d)
    then have "\<not> active_for u d" using old by (simp add: active_for_def)
    then show ?thesis using workload_save [OF Some, of u] by (simp add: rows)
  qed
  from t(1) obtain a where a: "a \<in> set as" "assignable (qb_wraps w) (di_classification d') a"
    "di_arbitratorId d' = Some (ar_userId a)" "di_status d' = st"
    "as' = save_row ar_id (a\<lparr>ar_activeDisputeCount := ar_activeDisputeCount a + 1\<rparr>) as" unfolding takes_def by blast
  let ?a = "a\<lparr>ar_activeDisputeCount := ar_activeDisputeCount a + 1\<rparr>"
  have act: "active_for u d' \<longleftrightarrow> u = ar_userId a" for u using a(3,4) t(2) by (auto simp: active_for_def)
  have "arbitrator_ok (qb_wraps w) ds a" using inv a(1) by (simp add: workload_inv_def)
  then have ok: "arbitrator_ok (qb_wraps w) ds' ?a"
    using a(2) wl [of "ar_userId a"] by (auto simp: arbitrator_ok_def act assignable_def Let_def split: if_splits)
  show ?thesis unfolding a(5) by (rule workload_change [OF inv a(1) _ _ ok]) (simp_all add: wl)
qed

lemma workload_release:
  assumes inv: "workload_inv wraps (ds_disputes db) (ds_arbitrators db)"
    and row: "row_by di_id i (ds_disputes db) = Some d" "di_status d \<noteq> DS_RESOLVED"
    and d': "di_id d' = i" "di_status d' = DS_RESOLVED"
  shows "workload_inv wraps (save_row di_id d' (ds_disputes db)) (release_of d db)"
proof -
  let ?ds = "save_row di_id d' (ds_disputes db)"
  have wl: "workload u ?ds = workload u (ds_disputes db) - of_bool (di_arbitratorId d = Some u)" for u
    using workload_save [of d' "ds_disputes db" d u] row d' by (simp add: active_for_def)
  show ?thesis
  proof (cases "di_arbitratorId d")
    case None
    then show ?thesis using workload_mono [OF inv, of ?ds] wl by (simp add: release_of_def)
  next
    case (Some u)
    have rest: "workload v (ds_disputes db) \<le> workload v ?ds" if "v \<noteq> u" for v using wl [of v] Some that by simp
    show ?thesis
    proof (cases rule: releaseArbitrator_cases [of u db])
      case same
      have "arbitrator_ok wraps ?ds a" if a: "a \<in> set (ds_arbitrators db)" for a
      proof (cases "ar_userId a = u")
        case True
        have "keys_distinct ar_userId (ds_arbitrators db)" using inv by (simp add: workload_inv_def keys_distinct_def)
        then have "ar_activeDisputeCount a \<le> 0" using same(2) row_by_distinct a True by metis
        then show ?thesis using inv a by (auto simp: workload_inv_def arbitrator_ok_def workload_def)
      next
        case False
        then show ?thesis using inv a rest arbitrator_mono unfolding workload_inv_def by blast
      qed
      then show ?thesis using inv same(1) Some by (simp add: workload_inv_def release_of_def)
    next
      case (lowered a)
      let ?a = "a\<lparr>ar_activeDisputeCount := ar_activeDisputeCount a - 1, ar_totalResolved := ar_totalResolved a + 1\<rparr>"
      have a: "a \<in> set (ds_arbitrators db)" "ar_userId a = u" using row_by_SomeD [OF lowered(1)] by simp_all
      have "arbitrator_ok wraps (ds_disputes db) a" using inv a(1) by (simp add: workload_inv_def)
      then have "arbitrator_ok wraps ?ds ?a" using wl [of u] Some a(2) lowered(2) by (auto simp: arbitrator_ok_def)
      then have "workload_inv wraps ?ds (save_row ar_id ?a (ds_arbitrators db))"
        by (intro workload_change [OF inv a(1)]) (use rest a(2) in simp_all)
      then show ?thesis using lowered(3) Some by (simp add: release_of_def)
    qed
  qed
qed

section \<open>The service as a state machine\<close>

text \<open>
  A step is one call of an operation, at any time and by anyone, with fresh identifiers. Requests
  to register an arbitrator pass the validation of their body, which asks for a limit of at least
  one. The trading engine adds trades.
\<close>

inductive ds_step :: "dispute_env \<Rightarrow> dispute_db \<Rightarrow> dispute_db \<Rightarrow> bool" for w where
  step_file: "row_by di_id (uuid e 0) (ds_disputes db) = None \<Longrightarrow> createDispute w e u cd db = Inr (d, db') \<Longrightarrow> ds_step w db db'"
| step_evidence: "submitEvidence w e i u r f de db = Inr (x, db') \<Longrightarrow> ds_step w db db'"
| step_message: "sendMessage e i u r md db = Inr (m, db') \<Longrightarrow> ds_step w db db'"
| step_decide: "dispute_resolve w e i u r rd db = (res, db') \<Longrightarrow> ds_step w db db'"
| step_appeal: "appealDispute w e i u reason db = Inr (d, db') \<Longrightarrow> ds_step w db db'"
| step_validate: "validateEvidence i db = Inr (x, db') \<Longrightarrow> ds_step w db db'"
| step_arbitrator: "row_by ar_id (uuid e 0) (ds_arbitrators db) = None \<Longrightarrow>
    (case ca_maxActiveDisputes ca of None \<Rightarrow> True | Some m \<Rightarrow> 1 \<le> m) \<Longrightarrow>
    createArbitrator e ca db = Inr (a, db') \<Longrightarrow> ds_step w db db'"
| step_trade: "row_by t_id (t_id t) (ds_trades db) = None \<Longrightarrow> ds_step w db (db\<lparr>ds_trades := ds_trades db @ [t]\<rparr>)"

inductive ds_reachable :: "dispute_env \<Rightarrow> dispute_db \<Rightarrow> bool" for w where
  ds_start: "ds_disputes db = [] \<Longrightarrow> ds_arbitrators db = [] \<Longrightarrow> ds_timeline db = [] \<Longrightarrow> ds_transactions db = [] \<Longrightarrow> ds_reachable w db"
| ds_next: "ds_reachable w db \<Longrightarrow> ds_step w db db' \<Longrightarrow> ds_reachable w db'"

lemma sendMessage_ok:
  "sendMessage e i u r md db = Inr (m, db') \<Longrightarrow>
     db' = addTimelineEvent (now e) i DT_MESSAGE_SENT u ''Message sent'' None (db\<lparr>ds_messages := ds_messages db @ [m]\<rparr>)"
  unfolding sendMessage_def rbind_Inr_iff Let_def by (auto split: if_splits)

lemma ds_step_filings: "ds_step w db db' \<Longrightarrow> filings_inv db \<Longrightarrow> filings_inv db'"
proof (induction rule: ds_step.induct)
  case (step_message e i u r md db m db')
  show ?case by (rule filings_cong [OF step_message(2)]) (simp_all add: sendMessage_ok [OF step_message(1)])
next
  case (step_validate i db x db')
  from step_validate(1) obtain v where db': "db' = db\<lparr>ds_evidence := v\<rparr>"
    unfolding validateEvidence_def Let_def by (auto split: option.splits)
  show ?case by (rule filings_cong [OF step_validate(2)]) (simp_all add: db')
next
  case (step_arbitrator e db ca a db')
  from step_arbitrator(3) have "ds_disputes db' = ds_disputes db" "decisions db' = decisions db"
    "ds_transactions db' = ds_transactions db" "ds_trades db' = ds_trades db"
    unfolding createArbitrator_def by (auto simp: Let_def split: option.splits if_splits)
  then show ?case by (rule filings_cong [OF step_arbitrator(4)])
next
  case (step_trade t db)
  have "parties_ok (db\<lparr>ds_trades := ds_trades db @ [t]\<rparr>) d" if "parties_ok db d" for d
    using that by (cases "row_by t_id (di_tradeId d) (ds_trades db)") (simp_all add: parties_ok_def row_by_append)
  then show ?case using step_trade(2) by (simp add: filings_inv_def decided_times_def)
qed (auto intro: createDispute_filings submitEvidence_filings dispute_resolve_filings appealDispute_filings)

lemma createArbitrator_arbs:
  assumes ok: "createArbitrator e ca db = Inr (a, db')" and fresh: "row_by ar_id (uuid e 0) (ds_arbitrators db) = None"
    and max: "case ca_maxActiveDisputes ca of None \<Rightarrow> True | Some m \<Rightarrow> 1 \<le> m"
    and inv: "workload_inv wraps (ds_disputes db) (ds_arbitrators db)"
  shows "workload_inv wraps (ds_disputes db') (ds_arbitrators db')"
proof -
  from ok have w: "ds_disputes db' = ds_disputes db" "ds_arbitrators db' = save_row ar_id a (ds_arbitrators db)" "ar_id a = uuid e 0"
    "row_by ar_userId (ar_userId a) (ds_arbitrators db) = None" "ar_activeDisputeCount a = 0"
    "ar_maxActiveDisputes a = (case ca_maxActiveDisputes ca of None \<Rightarrow> 10 | Some m \<Rightarrow> m)"
    unfolding createArbitrator_def by (auto simp: Let_def split: option.splits if_splits)
  have "arbitrator_ok wraps (ds_disputes db) a" using w(5,6) max by (auto simp: arbitrator_ok_def workload_def split: option.splits)
  moreover have "ar_id a \<notin> ar_id ` set (ds_arbitrators db)" "ar_userId a \<notin> ar_userId ` set (ds_arbitrators db)"
    using fresh w(3,4) by (simp_all add: row_by_None_iff)
  moreover have "ds_arbitrators db' = ds_arbitrators db @ [a]" using w(2,3) fresh save_row_new by metis
  ultimately show ?thesis using inv w(1) by (auto simp: workload_inv_def keys_distinct_def)
qed

lemma ds_step_workload:
  assumes "ds_step w db db'" and inv: "workload_inv (qb_wraps w) (ds_disputes db) (ds_arbitrators db)"
  shows "workload_inv (qb_wraps w) (ds_disputes db') (ds_arbitrators db')"
  using assms(1)
proof (cases rule: ds_step.cases)
  case (step_file e u cd d)
  from step_file(2) show ?thesis
  proof (rule createDispute_ok)
    assume d: "di_id d = uuid e 0" and rows: "ds_disputes db' = save_row di_id d (ds_disputes db)"
      and st: "di_status d = DS_FILED \<and> di_arbitratorId d = None \<and> ds_arbitrators db' = ds_arbitrators db \<or>
        takes w DS_UNDER_REVIEW (ds_arbitrators db) (ds_arbitrators db') d"
    have fresh: "row_by di_id (di_id d) (ds_disputes db) = None" using step_file(1) d by simp
    from st show ?thesis
    proof (elim disjE conjE)
      assume "ds_arbitrators db' = ds_arbitrators db"
      then show ?thesis using workload_mono [OF inv, of "ds_disputes db'"] workload_new [OF fresh] by (simp add: rows)
    next
      assume t: "takes w DS_UNDER_REVIEW (ds_arbitrators db) (ds_arbitrators db') d"
      show ?thesis by (rule workload_takes [OF inv t _ rows]) (use fresh in simp_all)
    qed
  qed
next
  case (step_evidence e i u r f de x)
  then show ?thesis
  proof (rule submitEvidence_ok)
    fix d assume row: "row_by di_id i (ds_disputes db) = Some d" "di_status d \<notin> {DS_RESOLVED, DS_CLOSED, DS_REJECTED}"
      and as: "ds_arbitrators db' = ds_arbitrators db"
      and ch: "di_status d \<noteq> DS_FILED \<and> ds_disputes db' = ds_disputes db \<or> di_status d = DS_FILED \<and>
        ds_disputes db' = save_row di_id (d\<lparr>di_status := DS_INVESTIGATION, di_initialReviewCompletedAt := Some (now e)\<rparr>) (ds_disputes db)"
    let ?d = "d\<lparr>di_status := DS_INVESTIGATION, di_initialReviewCompletedAt := Some (now e)\<rparr>"
    have "row_by di_id (di_id ?d) (ds_disputes db) = Some d" using row(1) row_by_SomeD [OF row(1)] by simp
    then have "workload u (save_row di_id ?d (ds_disputes db)) = workload u (ds_disputes db)" for u
      using workload_save [of ?d "ds_disputes db" d u] row(2) by (auto simp: active_for_def)
    then have "workload u (ds_disputes db) \<le> workload u (ds_disputes db')" for u using ch by auto
    then show ?thesis using workload_mono [OF inv, of "ds_disputes db'"] as by simp
  qed
next
  case (step_decide e i u r rd res)
  then show ?thesis
  proof (cases rule: dispute_resolve_cases)
    case (decided d d' b x rs)
    have "di_id d' = i" "di_status d' = DS_RESOLVED"
      using row_by_SomeD [OF decided(1)] by (simp_all add: decided(3) decided_row_def)
    then show ?thesis using workload_release [OF inv decided(1), of d'] decided(2,4,10) by auto
  qed (use inv in simp)
next
  case (step_appeal e i u reason d')
  then show ?thesis
  proof (rule appealDispute_ok)
    fix d assume row: "row_by di_id i (ds_disputes db) = Some d" "di_status d = DS_RESOLVED" and i: "di_id d' = i"
      and rows: "ds_disputes db' = save_row di_id d' (ds_disputes db)"
      and st: "di_status d' = DS_APPEALED \<and> di_arbitratorId d' = di_arbitratorId d \<and> ds_arbitrators db' = ds_arbitrators db \<or>
        takes w DS_ARBITRATION (ds_arbitrators db) (ds_arbitrators db') d'"
    have row': "row_by di_id (di_id d') (ds_disputes db) = Some d" using row(1) i by simp
    from st show ?thesis
    proof (elim disjE conjE)
      assume "ds_arbitrators db' = ds_arbitrators db"
      then show ?thesis using workload_mono [OF inv, of "ds_disputes db'"] workload_save [OF row'] row(2)
        by (simp add: rows active_for_def)
    next
      assume t: "takes w DS_ARBITRATION (ds_arbitrators db) (ds_arbitrators db') d'"
      show ?thesis by (rule workload_takes [OF inv t _ rows]) (use row' row(2) in simp_all)
    qed
  qed
next
  case (step_arbitrator e ca a)
  then show ?thesis using createArbitrator_arbs inv by blast
next
  case (step_message e i u r md m)
  then show ?thesis using inv by (simp add: sendMessage_ok [OF step_message])
next
  case (step_validate i x)
  then have "ds_disputes db' = ds_disputes db" "ds_arbitrators db' = ds_arbitrators db"
    unfolding validateEvidence_def by (auto simp: Let_def split: option.splits)
  then show ?thesis using inv by simp
next
  case (step_trade t)
  then show ?thesis using inv by simp
qed

lemma ds_reachable_inv:
  "ds_reachable w db \<Longrightarrow> filings_inv db \<and> workload_inv (qb_wraps w) (ds_disputes db) (ds_arbitrators db)"
proof (induction rule: ds_reachable.induct)
  case (ds_start db)
  then show ?case by (simp add: filings_inv_def workload_inv_def keys_distinct_def decisions_def)
qed (use ds_step_filings ds_step_workload in blast)

section \<open>What a decision pays\<close>

definition remedy :: "resolve_dispute_dto \<Rightarrow> dispute \<Rightarrow> trade \<Rightarrow> remediation" where
  "remedy dto d t = \<lparr>re_userId = (if rd_resolutionType dto = REVERSAL then di_respondentId d else di_complainantId d),
     re_assetCode = t_assetCode t, re_assetIssuer = t_assetIssuer t,
     re_amount = (case rd_resolutionAmount dto of None \<Rightarrow> t_quantity t | Some a \<Rightarrow> a)\<rparr>"

text \<open>The decision of an open dispute, up to the enforcement.\<close>

lemma dispute_resolve_run:
  assumes inv: "filings_inv db" and row: "row_by di_id i (ds_disputes db) = Some d"
    and st: "di_status d \<in> {DS_UNDER_REVIEW, DS_INVESTIGATION, DS_ARBITRATION, DS_APPEALED}"
    and role: "\<not> (r = U_ARBITRATOR \<and> di_arbitratorId d \<noteq> Some u)"
    and kind: "rd_resolutionType dto \<noteq> DISMISSED"
  obtains t d1 db1 where "row_by t_id (di_tradeId d) (ds_trades db) = Some t" "decide e u dto d db = (d1, db1)"
    "ds_transactions db1 = ds_transactions db" "ds_disputes db1 = save_row di_id (decided_row e dto d) (ds_disputes db)"
    "ds_arbitrators db1 = release_of d db"
    "amount_ok w (re_amount (remedy dto d t)) \<Longrightarrow>
       \<exists>db'. dispute_resolve w e i u r dto db = (Inr ((decided_row e dto d)\<lparr>di_enforcementExecuted := True\<rparr>), db') \<and>
         ds_transactions db' = ds_transactions db @ [remedy dto d t]"
    "\<not> amount_ok w (re_amount (remedy dto d t)) \<Longrightarrow>
       dispute_resolve w e i u r dto db = (Inl (QueryFailed ''CHK_transactions_amount_positive''), db1)"
proof -
  note rf = row_facts [OF inv row]
  have get: "get_dispute i db = Inr d" using row by (simp add: get_dispute_iff)
  have st': "\<not> di_status d \<notin> {DS_UNDER_REVIEW, DS_INVESTIGATION, DS_ARBITRATION, DS_APPEALED}" using st by blast
  obtain d1 db1 where dec: "decide e u dto d db = (d1, db1)" by fastforce
  note dk = decide_ok [OF dec]
  from rf(2) obtain t where t: "row_by t_id (di_tradeId d) (ds_trades db) = Some t"
    by (auto simp: parties_ok_def split: option.splits)
  have "di_status d \<noteq> DS_RESOLVED" using st by auto
  then have open_d: "\<not> di_enforcementExecuted d" using rf(1) unfolding dispute_ok_def by blast
  then have d1: "\<not> di_enforcementExecuted d1" "di_resolutionType d1 = Some (rd_resolutionType dto)" "di_tradeId d1 = di_tradeId d"
    "di_resolutionAmount d1 = rd_resolutionAmount dto" "di_complainantId d1 = di_complainantId d" "di_respondentId d1 = di_respondentId d"
    by (simp_all add: dk(1) decided_row_def)
  have enf: "executeEnforcement w d1 db1 = (if amount_ok w (re_amount (remedy dto d t))
      then Inr (d1\<lparr>di_enforcementExecuted := True\<rparr>, save_dispute (d1\<lparr>di_enforcementExecuted := True\<rparr>)
        (db1\<lparr>ds_transactions := ds_transactions db1 @ [remedy dto d t]\<rparr>))
      else Inl (QueryFailed ''CHK_transactions_amount_positive''))"
    using kind t unfolding executeEnforcement_def createRemediationTransaction_def Let_def
    by (cases "rd_resolutionType dto") (simp_all add: d1 dk(6) remedy_def)
  note run = dispute_resolve_def [of w e i u r dto db, unfolded get sum.case if_not_P [OF role] if_not_P [OF st'] dec prod.case enf]
  show thesis
  proof (rule that [OF t dec dk(5) dk(2) [unfolded dk(1)] dk(3)])
    assume "amount_ok w (re_amount (remedy dto d t))"
    then show "\<exists>db'. dispute_resolve w e i u r dto db = (Inr ((decided_row e dto d)\<lparr>di_enforcementExecuted := True\<rparr>), db') \<and>
        ds_transactions db' = ds_transactions db @ [remedy dto d t]"
      using run by (simp add: dk(1,5))
  next
    assume "\<not> amount_ok w (re_amount (remedy dto d t))"
    then show "dispute_resolve w e i u r dto db = (Inl (QueryFailed ''CHK_transactions_amount_positive''), db1)"
      using run by simp
  qed
qed

lemma dispute_resolve_pays:
  assumes inv: "filings_inv db" and run: "dispute_resolve w e i u r dto db = (Inr x, db')" and kind: "rd_resolutionType dto \<noteq> DISMISSED"
  shows "\<exists>d t. row_by di_id i (ds_disputes db) = Some d \<and> row_by t_id (di_tradeId d) (ds_trades db) = Some t \<and>
      ds_transactions db' = ds_transactions db @ [remedy dto d t] \<and> filing x = filing d"
proof -
  from run obtain d where row: "row_by di_id i (ds_disputes db) = Some d"
    and st: "di_status d \<in> {DS_UNDER_REVIEW, DS_INVESTIGATION, DS_ARBITRATION, DS_APPEALED}"
    and role: "\<not> (r = U_ARBITRATOR \<and> di_arbitratorId d \<noteq> Some u)"
    unfolding dispute_resolve_def by (auto simp: get_dispute_iff split: sum.splits if_splits)
  show ?thesis
  proof (rule dispute_resolve_run [OF inv row st role kind, of e w])
    fix t d1 db1 assume t: "row_by t_id (di_tradeId d) (ds_trades db) = Some t"
      and yes: "amount_ok w (re_amount (remedy dto d t)) \<Longrightarrow>
        \<exists>db'. dispute_resolve w e i u r dto db = (Inr ((decided_row e dto d)\<lparr>di_enforcementExecuted := True\<rparr>), db') \<and>
          ds_transactions db' = ds_transactions db @ [remedy dto d t]"
      and no: "\<not> amount_ok w (re_amount (remedy dto d t)) \<Longrightarrow>
        dispute_resolve w e i u r dto db = (Inl (QueryFailed ''CHK_transactions_amount_positive''), db1)"
    have "amount_ok w (re_amount (remedy dto d t))" using no run by auto
    from yes [OF this] run have "x = (decided_row e dto d)\<lparr>di_enforcementExecuted := True\<rparr>"
      "ds_transactions db' = ds_transactions db @ [remedy dto d t]" by auto
    then show ?thesis using row t by (auto simp: filing_def decided_row_def)
  qed
qed

text \<open>
  The score of a similar dispute is at least thirty for every dispute of the same classification
  that is not rejected, and no operation rejects one: a new dispute is flagged as soon as any
  other has its classification.
\<close>

lemma similar_means_same_classification:
  assumes "filings_inv db"
  shows "detectSimilarDisputes d db \<noteq> [] \<longleftrightarrow>
    (\<exists>c \<in> set (ds_disputes db). di_id c \<noteq> di_id d \<and> di_classification c = di_classification d)"
proof -
  have "30 \<le> fst (similarity d c)" if "c \<in> set (ds_disputes db)" "di_classification c = di_classification d" for c
  proof -
    have "dispute_ok c" using assms that(1) by (simp add: filings_inv_def)
    then have "di_status c \<noteq> DS_REJECTED" by (auto simp: dispute_ok_def split: if_splits)
    then show ?thesis using that(2) by (simp add: similarity_def Let_def)
  qed
  moreover have "sort_key f xs = [] \<longleftrightarrow> xs = []" for f :: "similar_match \<Rightarrow> int" and xs
    using length_sort [of f xs] by (metis length_0_conv)
  ultimately show ?thesis by (auto simp: detectSimilarDisputes_def Let_def filter_empty_conv)
qed

section \<open>A concrete run\<close>

definition demo_world :: "bool \<Rightarrow> dispute_env" where
  "demo_world strict = \<lparr>qb_wraps = True, amount_ok = (\<lambda>s. \<not> strict), cwd = ''/srv''\<rparr>"

definition demo_call :: "nat \<Rightarrow> env" where
  "demo_call k = \<lparr>now = int k, uuid = (\<lambda>_. nat_to_string k), keypair = []\<rparr>"

definition demo_trade :: "string \<Rightarrow> trade" where
  "demo_trade i = \<lparr>t_id = i, t_makerOrderId = ''m'', t_takerOrderId = ''t'', t_makerUserId = ''ann'', t_takerUserId = ''bob'',
     t_assetCode = ''USD'', t_assetIssuer = None, t_quantity = ''100'', t_price = None, t_stellarTxHash = None, t_settled = True, t_settledAt = None\<rparr>"

definition demo_base :: dispute_db where
  "demo_base = \<lparr>ds_disputes = [], ds_timeline = [], ds_messages = [], ds_evidence = [], ds_files = [], ds_arbitrators = [],
     ds_users = [\<lparr>us_id = ''eve'', us_role = U_USER\<rparr>], ds_trades = [demo_trade ''T1'', demo_trade ''T2''],
     ds_transactions = [], ds_events = []\<rparr>"

definition state_of :: "dispute_db \<Rightarrow> ('a \<times> dispute_db) result \<Rightarrow> dispute_db" where
  "state_of db r = (case r of Inl _ \<Rightarrow> db | Inr (_, db') \<Rightarrow> db')"

definition demo_register :: "dispute_db \<Rightarrow> dispute_db" where
  "demo_register db = state_of db (createArbitrator (demo_call 1)
     \<lparr>ca_userId = ''eve'', ca_expertise = [AE_FRAUD], ca_maxActiveDisputes = Some 1\<rparr> db)"

definition demo_file :: "dispute_env \<Rightarrow> nat \<Rightarrow> string \<Rightarrow> dispute_db \<Rightarrow> dispute_db" where
  "demo_file w k i db = (if row_by di_id (uuid (demo_call k) 0) (ds_disputes db) = None
     then state_of db (createDispute w (demo_call k) ''ann''
       \<lparr>cd_tradeId = i, cd_classification = DC_FRAUD, cd_description = ''d'', cd_metadata = None\<rparr> db) else db)"

definition demo_decision :: resolve_dispute_dto where
  "demo_decision = \<lparr>rd_resolutionType = REFUND, rd_decisionReasoning = ''r'', rd_resolutionAmount = None\<rparr>"

definition demo_decide :: "dispute_env \<Rightarrow> nat \<Rightarrow> string \<Rightarrow> dispute_db \<Rightarrow> dispute_db" where
  "demo_decide w k i db = snd (dispute_resolve w (demo_call k) i ''eve'' U_ARBITRATOR demo_decision db)"

definition demo_appeal :: "dispute_env \<Rightarrow> nat \<Rightarrow> string \<Rightarrow> dispute_db \<Rightarrow> dispute_db" where
  "demo_appeal w k i db = state_of db (appealDispute w (demo_call k) i ''bob'' ''why'' db)"

text \<open>One arbitrator with room for one dispute; the first dispute is filed and decided.\<close>

definition demo_filed :: "dispute_env \<Rightarrow> dispute_db" where
  "demo_filed w = demo_file w 2 ''T1'' (demo_register demo_base)"

lemma demo_reach:
  "ds_reachable w db \<Longrightarrow> ds_reachable w (demo_file w k i db)"
  "ds_reachable w db \<Longrightarrow> ds_reachable w (demo_decide w k i db)"
  "ds_reachable w db \<Longrightarrow> ds_reachable w (demo_appeal w k i db)"
proof -
  assume db: "ds_reachable w db"
  show "ds_reachable w (demo_file w k i db)"
    unfolding demo_file_def state_of_def using db by (auto split: sum.splits intro: ds_next step_file)
  show "ds_reachable w (demo_decide w k i db)"
    unfolding demo_decide_def by (rule ds_next [OF db step_decide [OF prod.collapse [symmetric]]])
  show "ds_reachable w (demo_appeal w k i db)"
    unfolding demo_appeal_def state_of_def using db by (auto split: sum.splits intro: ds_next step_appeal)
qed

lemma demo_filed_reach: "ds_reachable w (demo_filed w)"
proof -
  have base: "ds_reachable w demo_base" by (rule ds_start) (simp_all add: demo_base_def)
  have free: "row_by ar_id (uuid (demo_call 1) 0) (ds_arbitrators demo_base) = None" by (simp add: demo_base_def)
  have "ds_reachable w (demo_register demo_base)"
    unfolding demo_register_def state_of_def using base free
    by (auto split: sum.splits intro!: ds_next [OF base] step_arbitrator [OF free])
  then show ?thesis unfolding demo_filed_def by (rule demo_reach)
qed

section \<open>Properties\<close>



text \<open>
  An appeal pays twice. When a decision in favour of the complainant has been enforced, the
  appeal clears the enforcement mark and nothing takes the first payment back; a second decision
  of this kind records a second full payment to the same user.
\<close>

theorem appeal_pays_twice:
  assumes "ds_reachable w db"
    and "dispute_resolve w e1 i u1 r1 dto1 db = (Inr d1, db1)"
    and "appealDispute w e2 i u2 reason db1 = Inr (d2, db2)"
    and "dispute_resolve w e3 i u3 r3 dto3 db2 = (Inr d3, db3)"
    and "rd_resolutionType dto1 \<in> {REFUND, SETTLEMENT}" and "rd_resolutionType dto3 \<in> {REFUND, SETTLEMENT}"
  shows "\<exists>t :: trade. ds_transactions db3 = ds_transactions db @
    [\<lparr>re_userId = di_complainantId d3, re_assetCode = t_assetCode t, re_assetIssuer = t_assetIssuer t,
       re_amount = (case rd_resolutionAmount dto1 of None \<Rightarrow> t_quantity t | Some a \<Rightarrow> a)\<rparr>,
     \<lparr>re_userId = di_complainantId d3, re_assetCode = t_assetCode t, re_assetIssuer = t_assetIssuer t,
       re_amount = (case rd_resolutionAmount dto3 of None \<Rightarrow> t_quantity t | Some a \<Rightarrow> a)\<rparr>]"
proof -
  have kinds: "rd_resolutionType dto1 \<noteq> DISMISSED" "rd_resolutionType dto3 \<noteq> DISMISSED" using assms(5,6) by auto
  note inv = conjunct1 [OF ds_reachable_inv]
  have r1: "ds_reachable w db1" by (rule ds_next [OF assms(1) step_decide [OF assms(2)]])
  have r2: "ds_reachable w db2" by (rule ds_next [OF r1 step_appeal [OF assms(3)]])
  from dispute_resolve_pays [OF inv [OF assms(1)] assms(2) kinds(1)] obtain d t where p1: "row_by di_id i (ds_disputes db) = Some d"
    "row_by t_id (di_tradeId d) (ds_trades db) = Some t" "ds_transactions db1 = ds_transactions db @ [remedy dto1 d t]" by blast
  from dispute_resolve_pays [OF inv [OF r2] assms(4) kinds(2)] obtain d' t' where p3: "row_by di_id i (ds_disputes db2) = Some d'"
    "row_by t_id (di_tradeId d') (ds_trades db2) = Some t'" "ds_transactions db3 = ds_transactions db2 @ [remedy dto3 d' t']" "filing d3 = filing d'" by blast
  from assms(3) obtain y where ap: "row_by di_id i (ds_disputes db1) = Some y" "filing d2 = filing y" "di_id d2 = i"
    "ds_disputes db2 = save_row di_id d2 (ds_disputes db1)" "ds_transactions db2 = ds_transactions db1" "ds_trades db2 = ds_trades db1"
    by (rule appealDispute_ok) blast
  from assms(2) have y: "filing y = filing d \<and> ds_trades db1 = ds_trades db"
  proof (cases rule: dispute_resolve_cases)
    case (decided z z' b x rs)
    have "di_id z' = i" "filing z' = filing z" "z = d"
      using row_by_SomeD [OF decided(1)] p1(1) decided(1) by (simp_all add: decided(3) decided_row_def filing_def)
    then have "y = z'" using ap(1) decided(4) by (simp add: row_by_save_row)
    then show ?thesis using \<open>filing z' = filing z\<close> \<open>z = d\<close> decided(9) by simp
  qed (use p1(1) ap(1) in simp)
  have "d' = d2" using p3(1) ap(3,4) by (simp add: row_by_save_row)
  then have same: "filing d' = filing d" "t' = t" using ap(2,6) y p1(2) p3(2) by (simp_all add: filing_def)
  show ?thesis
    using p1(3) p3(3,4) ap(5) same assms(5,6) by (intro exI [of _ t]) (auto simp: remedy_def filing_def)
qed

lemma appeal_pays_twice_witness:
  "\<exists>(t :: trade) (db3 :: dispute_db). ds_transactions db3 =
    [\<lparr>re_userId = ''ann'', re_assetCode = t_assetCode t, re_assetIssuer = t_assetIssuer t, re_amount = t_quantity t\<rparr>,
     \<lparr>re_userId = ''ann'', re_assetCode = t_assetCode t, re_assetIssuer = t_assetIssuer t, re_amount = t_quantity t\<rparr>]"
proof -
  let ?w = "demo_world False" and ?d = "dispute_resolve (demo_world False)"
  let ?r1 = "?d (demo_call 3) ''2'' ''eve'' U_ARBITRATOR demo_decision (demo_filed ?w)"
  let ?r2 = "appealDispute ?w (demo_call 4) ''2'' ''bob'' ''why'' (snd ?r1)"
  have "\<not> isl (fst ?r1)" by code_simp
  then obtain d1 db1 where 1: "?r1 = (Inr d1, db1)" by (metis isl_def prod.collapse sum.collapse(2))
  have "\<not> isl ?r2" by code_simp
  then obtain d2 db2 where 2: "?r2 = Inr (d2, db2)" by (metis isl_def prod.collapse sum.collapse(2))
  let ?r3 = "?d (demo_call 5) ''2'' ''eve'' U_ARBITRATOR demo_decision (snd (projr ?r2))"
  have ok3: "\<not> isl (fst ?r3)" "di_complainantId (projr (fst ?r3)) = ''ann''" "ds_transactions (demo_filed ?w) = []" by code_simp+
  obtain d3 db3 where 3: "?r3 = (Inr d3, db3)" using ok3(1) by (metis prod.collapse sum.collapse(2))
  have c: "di_complainantId d3 = ''ann''" using ok3(2) 3 by simp
  have kind: "rd_resolutionType demo_decision \<in> {REFUND, SETTLEMENT}" and amt: "rd_resolutionAmount demo_decision = None"
    by (simp_all add: demo_decision_def)
  from appeal_pays_twice [OF demo_filed_reach 1 2 [unfolded 1 snd_conv] 3 [unfolded 2 sum.sel snd_conv] kind kind]
  obtain t :: trade where "ds_transactions db3 = ds_transactions (demo_filed ?w) @
    [\<lparr>re_userId = di_complainantId d3, re_assetCode = t_assetCode t, re_assetIssuer = t_assetIssuer t, re_amount = t_quantity t\<rparr>,
     \<lparr>re_userId = di_complainantId d3, re_assetCode = t_assetCode t, re_assetIssuer = t_assetIssuer t, re_amount = t_quantity t\<rparr>]"
    by (auto simp: amt)
  then show ?thesis by (intro exI [of _ t] exI [of _ db3]) (simp only: c ok3(3) append_Nil)
qed

text \<open>
  A rejected amount strands the dispute. The decision is stored before the remedial transaction is
  recorded, outside any database transaction. When the database refuses the amount, the caller
  gets an error, but the dispute is resolved, its arbitrator is released, nothing is paid, and no
  later decision is possible without an appeal.
\<close>

theorem failed_enforcement_strands_dispute:
  assumes "ds_reachable w db" and "row_by di_id i (ds_disputes db) = Some d"
    and "di_status d \<in> {DS_UNDER_REVIEW, DS_INVESTIGATION, DS_ARBITRATION, DS_APPEALED}"
    and "r = U_ARBITRATOR \<longrightarrow> di_arbitratorId d = Some u" and "rd_resolutionType dto \<noteq> DISMISSED"
    and "row_by t_id (di_tradeId d) (ds_trades db) = Some t"
    and "\<not> amount_ok w (case rd_resolutionAmount dto of None \<Rightarrow> t_quantity t | Some a \<Rightarrow> a)"
  shows "\<exists>db' d'. dispute_resolve w e i u r dto db = (Inl (QueryFailed ''CHK_transactions_amount_positive''), db') \<and>
    ds_transactions db' = ds_transactions db \<and> row_by di_id i (ds_disputes db') = Some d' \<and>
    di_status d' = DS_RESOLVED \<and> \<not> di_enforcementExecuted d' \<and>
    (\<forall>v. di_arbitratorId d = Some v \<longrightarrow> ds_arbitrators db' = ds_arbitrators (releaseArbitrator v db)) \<and>
    (\<forall>e' u' r' dto'. \<exists>err. dispute_resolve w e' i u' r' dto' db' = (Inl err, db'))"
proof -
  note inv = conjunct1 [OF ds_reachable_inv [OF assms(1)]]
  note rf = row_facts [OF inv assms(2)]
  have role: "\<not> (r = U_ARBITRATOR \<and> di_arbitratorId d \<noteq> Some u)" using assms(4) by blast
  have unexecuted: "\<not> di_enforcementExecuted d" using rf(1) assms(3) by (auto simp: dispute_ok_def)
  show ?thesis
  proof (rule dispute_resolve_run [OF inv assms(2,3) role assms(5), of e w])
    fix t1 d1 db1 assume t1: "row_by t_id (di_tradeId d) (ds_trades db) = Some t1"
      and txs: "ds_transactions db1 = ds_transactions db"
      and rows: "ds_disputes db1 = save_row di_id (decided_row e dto d) (ds_disputes db)"
      and arbs: "ds_arbitrators db1 = release_of d db"
      and no: "\<not> amount_ok w (re_amount (remedy dto d t1)) \<Longrightarrow>
        dispute_resolve w e i u r dto db = (Inl (QueryFailed ''CHK_transactions_amount_positive''), db1)"
    have "t1 = t" using t1 assms(6) by simp
    then have run: "dispute_resolve w e i u r dto db = (Inl (QueryFailed ''CHK_transactions_amount_positive''), db1)"
      using assms(7) by (intro no) (simp add: remedy_def)
    have row: "row_by di_id i (ds_disputes db1) = Some (decided_row e dto d)"
      using rf(3) by (simp add: rows row_by_save_row decided_row_def)
    have "\<exists>err. dispute_resolve w e' i u' r' dto' db1 = (Inl err, db1)" for e' u' r' dto'
      unfolding dispute_resolve_def get_dispute_def row by (simp add: decided_row_def)
    moreover have "di_status (decided_row e dto d) = DS_RESOLVED" "\<not> di_enforcementExecuted (decided_row e dto d)"
      using unexecuted by (simp_all add: decided_row_def)
    ultimately show ?thesis using run txs row arbs by (intro exI [of _ db1] exI [of _ "decided_row e dto d"]) (simp add: release_of_def)
  qed
qed

lemma failed_enforcement_strands_dispute_witness:
  "\<exists>db'. dispute_resolve (demo_world True) (demo_call 3) ''2'' ''eve'' U_ARBITRATOR demo_decision (demo_filed (demo_world True)) =
     (Inl (QueryFailed ''CHK_transactions_amount_positive''), db')"
proof -
  let ?db = "demo_filed (demo_world True)"
  have "map_option (\<lambda>d. (di_status d, di_arbitratorId d, di_tradeId d)) (row_by di_id ''2'' (ds_disputes ?db)) =
      Some (DS_UNDER_REVIEW, Some ''eve'', ''T1'')" by code_simp
  then obtain d where d: "row_by di_id ''2'' (ds_disputes ?db) = Some d" "di_status d = DS_UNDER_REVIEW"
    "di_arbitratorId d = Some ''eve''" "di_tradeId d = ''T1''" by auto
  have "row_by t_id ''T1'' (ds_trades ?db) = Some (demo_trade ''T1'')" by code_simp
  with d show ?thesis
    using failed_enforcement_strands_dispute [OF demo_filed_reach d(1), where r = U_ARBITRATOR and u = "''eve''" and dto = demo_decision
        and t = "demo_trade ''T1''" and e = "demo_call 3"]
    by (simp add: demo_decision_def demo_world_def) blast
qed

text \<open>
  An appeal that finds no free arbitrator keeps the old one on the row without counting the
  dispute. The second decision then releases that arbitrator a second time: the counter falls by
  one although the number of undecided disputes assigned to them is what it was before the
  appeal, so they can be given more disputes than their limit.
\<close>

theorem appeal_double_release:
  assumes "ds_reachable w db" and "appealDispute w e i u reason db = Inr (d1, db1)"
    and "di_status d1 = DS_APPEALED" and "di_arbitratorId d1 = Some v"
    and "row_by ar_userId v (ds_arbitrators db) = Some a" and "0 < ar_activeDisputeCount a"
    and "dispute_resolve w e' i u' r dto db1 = (Inr d2, db2)"
  shows "\<exists>a'. row_by ar_userId v (ds_arbitrators db2) = Some a' \<and>
      ar_activeDisputeCount a' = ar_activeDisputeCount a - 1 \<and>
      length (filter (\<lambda>d. di_arbitratorId d = Some v \<and> di_status d \<noteq> DS_RESOLVED) (ds_disputes db2)) =
      length (filter (\<lambda>d. di_arbitratorId d = Some v \<and> di_status d \<noteq> DS_RESOLVED) (ds_disputes db))"
proof -
  note inv = ds_reachable_inv [OF assms(1)]
  from assms(2) obtain d where ap: "row_by di_id i (ds_disputes db) = Some d" "di_status d = DS_RESOLVED" "di_id d1 = i"
    "ds_disputes db1 = save_row di_id d1 (ds_disputes db)" "ds_arbitrators db1 = ds_arbitrators db"
    by (rule appealDispute_ok) (use assms(3) in \<open>auto simp: takes_def\<close>)
  have row1: "row_by di_id i (ds_disputes db1) = Some d1" using ap(3,4) by (simp add: row_by_save_row)
  have w1: "workload v (ds_disputes db1) = workload v (ds_disputes db) + 1"
    using workload_save [of d1 "ds_disputes db" d v] ap assms(3,4) by (simp add: active_for_def)
  from assms(7) show ?thesis
  proof (cases rule: dispute_resolve_cases)
    case (same err)
    then show ?thesis by simp
  next
    case (decided z z' b x rs)
    have z: "z = d1" "di_id z' = i" "di_status z' = DS_RESOLVED"
      using decided(1) row1 row_by_SomeD [OF row1] by (simp_all add: decided(3) decided_row_def)
    have w2: "workload v (ds_disputes db2) = workload v (ds_disputes db)"
      using workload_save [of z' "ds_disputes db1" d1 v] decided(4) row1 z assms(3,4) w1 by (simp add: active_for_def)
    have "ds_arbitrators db2 = ds_arbitrators (releaseArbitrator v db)"
      using decided(10) z(1) assms(4) release_cong [OF ap(5), of v] by (simp add: release_of_def)
    then have arbs: "ds_arbitrators db2 = save_row ar_id (a\<lparr>ar_activeDisputeCount := ar_activeDisputeCount a - 1,
        ar_totalResolved := ar_totalResolved a + 1\<rparr>) (ds_arbitrators db)"
      using assms(5,6) by (simp add: releaseArbitrator_def)
    let ?a = "a\<lparr>ar_activeDisputeCount := ar_activeDisputeCount a - 1, ar_totalResolved := ar_totalResolved a + 1\<rparr>"
    have a: "a \<in> set (ds_arbitrators db)" "ar_userId a = v" using row_by_SomeD [OF assms(5)] by simp_all
    have keys: "keys_distinct ar_id (ds_arbitrators db)" "keys_distinct ar_userId (ds_arbitrators db)"
      using inv by (simp_all add: workload_inv_def keys_distinct_def)
    have "row_by ar_id (ar_id ?a) (ds_arbitrators db) = Some a" using row_by_distinct [OF keys(1) a(1)] by simp
    then have "keys_distinct ar_userId (ds_arbitrators db2)"
      using keys(2) map_save_row_same [of ar_id ?a "ds_arbitrators db" a ar_userId] by (simp add: arbs keys_distinct_def)
    moreover have "?a \<in> set (ds_arbitrators db2)" by (simp add: arbs set_save_row [OF keys(1)])
    ultimately have "row_by ar_userId v (ds_arbitrators db2) = Some ?a" using row_by_distinct a(2) by fastforce
    moreover have "active_for v = (\<lambda>d. di_arbitratorId d = Some v \<and> di_status d \<noteq> DS_RESOLVED)" by (rule ext) (simp add: active_for_def)
    ultimately show ?thesis using w2 by (simp add: workload_def)
  qed
qed

lemma appeal_double_release_witness:
  "\<exists>(db2 :: dispute_db) a'. row_by ar_userId ''eve'' (ds_arbitrators db2) = Some a' \<and> ar_activeDisputeCount a' = 0 \<and>
     length (filter (\<lambda>d. di_arbitratorId d = Some ''eve'' \<and> di_status d \<noteq> DS_RESOLVED) (ds_disputes db2)) = 1"
proof -
  let ?w = "demo_world False"
  let ?db = "demo_file ?w 4 ''T2'' (demo_decide ?w 3 ''2'' (demo_filed ?w))"
  let ?r1 = "appealDispute ?w (demo_call 5) ''2'' ''bob'' ''why'' ?db"
  let ?r2 = "dispute_resolve ?w (demo_call 6) ''2'' ''eve'' U_ARBITRATOR demo_decision (snd (projr ?r1))"
  have reach: "ds_reachable ?w ?db" by (intro demo_reach demo_filed_reach)
  have ok1: "\<not> isl ?r1" "(di_status (fst (projr ?r1)), di_arbitratorId (fst (projr ?r1))) = (DS_APPEALED, Some ''eve'')"
    and ok2: "\<not> isl (fst ?r2)" by code_simp+
  have arb: "map_option ar_activeDisputeCount (row_by ar_userId ''eve'' (ds_arbitrators ?db)) = Some 1"
    and wl: "length (filter (\<lambda>d. di_arbitratorId d = Some ''eve'' \<and> di_status d \<noteq> DS_RESOLVED) (ds_disputes ?db)) = 1"
    by code_simp+
  obtain d1 db1 where 1: "?r1 = Inr (d1, db1)" using ok1(1) by (metis prod.collapse sum.collapse(2))
  obtain d2 db2 where 2: "?r2 = (Inr d2, db2)" using ok2 by (metis prod.collapse sum.collapse(2))
  obtain a where a: "row_by ar_userId ''eve'' (ds_arbitrators ?db) = Some a" "ar_activeDisputeCount a = 1" using arb by auto
  have d1: "di_status d1 = DS_APPEALED" "di_arbitratorId d1 = Some ''eve''" using ok1(2) unfolding 1 by simp_all
  have pos: "0 < ar_activeDisputeCount a" using a(2) by simp
  from appeal_double_release [OF reach 1 d1 a(1) pos 2 [unfolded 1 sum.sel snd_conv]]
  obtain a' where "row_by ar_userId ''eve'' (ds_arbitrators db2) = Some a'" "ar_activeDisputeCount a' = ar_activeDisputeCount a - 1"
    "length (filter (\<lambda>d. di_arbitratorId d = Some ''eve'' \<and> di_status d \<noteq> DS_RESOLVED) (ds_disputes db2)) = 1" unfolding wl by (elim exE conjE)
  then show ?thesis using a(2) by (intro exI [of _ db2] exI [of _ a']) simp
qed

end
