(* ===== verification/Gateway.thy ===== *)
theory Gateway
  imports JsNumber
begin

text \<open>
  The Stellar API gateway (\<^verbatim>\<open>src/src/modules/stellar/gateway\<close>): the rate limiter, the
  connection pool, the request queue and the four operations that use them, with the controller's
  view of a response.

  The gateway runs on an event loop. The code between two awaits is one atomic operation of the
  model; \<open>gw_step\<close> interleaves the operations of all pending requests with the timers. A request
  passes through three phases: it waits for a connection, it waits for the answer of the Stellar
  network, and it has settled its promise while the \<^verbatim>\<open>finally\<close> callback that decrements
  \<^verbatim>\<open>activeRequests\<close> is still to run.

  The Horizon server is not under \<^verbatim>\<open>src\<close>: its answers are arguments of the steps, and the
  transaction builder of the Stellar SDK is the parameter \<open>gc_build\<close> of the configuration.
\<close>

section \<open>Rate limiter\<close>

record rate_limit_config =
  rl_requestsPerMinute :: int
  rl_burstLimit :: int
  rl_enabled :: bool

record client_rate_limit =
  cl_requests :: int
  cl_windowStart :: int

type_synonym client_limits = "(string \<times> client_rate_limit) list"

text \<open>The constructor: the configured values or the defaults.\<close>

definition rateLimiter_config :: "int option \<Rightarrow> int option \<Rightarrow> bool option \<Rightarrow> rate_limit_config" where
  "rateLimiter_config perMinute burst enabled =
     \<lparr>rl_requestsPerMinute = (case perMinute of None \<Rightarrow> 60 | Some n \<Rightarrow> n),
      rl_burstLimit = (case burst of None \<Rightarrow> 10 | Some n \<Rightarrow> n),
      rl_enabled = (case enabled of None \<Rightarrow> True | Some b \<Rightarrow> b)\<rparr>"

definition window_expired :: "int \<Rightarrow> client_rate_limit \<Rightarrow> bool" where
  "window_expired tm l \<longleftrightarrow> tm - cl_windowStart l > 60000"

definition current_window :: "int \<Rightarrow> string \<Rightarrow> client_limits \<Rightarrow> client_rate_limit" where
  "current_window tm c m = (case map_of m c of
       None \<Rightarrow> \<lparr>cl_requests = 0, cl_windowStart = tm\<rparr>
     | Some l \<Rightarrow> if window_expired tm l then \<lparr>cl_requests = 0, cl_windowStart = tm\<rparr> else l)"

definition checkRateLimit :: "rate_limit_config \<Rightarrow> int \<Rightarrow> string \<Rightarrow> client_limits \<Rightarrow> unit result \<times> client_limits" where
  "checkRateLimit cfg tm c m =
     (if \<not> rl_enabled cfg then (Inr (), m)
      else let l = current_window tm c m in
        if cl_requests l \<ge> rl_requestsPerMinute cfg
        then (Inl (TooManyRequests ''Stellar API rate limit exceeded. Please try again later.''), m)
        else (Inr (), map_set c (l\<lparr>cl_requests := cl_requests l + 1\<rparr>) m))"

definition checkBurstLimit :: "rate_limit_config \<Rightarrow> int \<Rightarrow> unit result" where
  "checkBurstLimit cfg concurrent =
     (if \<not> rl_enabled cfg then Inr ()
      else if concurrent \<ge> rl_burstLimit cfg
      then Inl (TooManyRequests ''Too many concurrent Stellar requests. Please try again later.'')
      else Inr ())"

text \<open>A \<^verbatim>\<open>Map\<close> may be changed while it is iterated: every entry is visited once and deleted on its turn.\<close>

definition cleanupOldWindows :: "int \<Rightarrow> client_limits \<Rightarrow> client_limits" where
  "cleanupOldWindows tm m = foldl (\<lambda>m' (c, l). if window_expired tm l then map_delete c m' else m') m m"

definition getClientLimit :: "string \<Rightarrow> client_limits \<Rightarrow> client_rate_limit option" where
  "getClientLimit c m = map_of m c"

section \<open>Connection pool\<close>

record pooled_connection =
  pc_id :: string
  pc_server :: string
  pc_inUse :: bool
  pc_lastUsed :: int
  pc_created :: int
  pc_usageCount :: int

record pool_config =
  po_minConnections :: nat
  po_maxConnections :: nat
  po_idleTimeoutMs :: int
  po_connectionTtlMs :: int
  po_horizonUrl :: string

type_synonym pool = "(string \<times> pooled_connection) list"

definition connectionPool_config ::
    "string \<Rightarrow> nat option \<Rightarrow> nat option \<Rightarrow> int option \<Rightarrow> int option \<Rightarrow> pool_config" where
  "connectionPool_config url mn mx idle ttl =
     \<lparr>po_minConnections = (case mn of None \<Rightarrow> 2 | Some n \<Rightarrow> n),
      po_maxConnections = (case mx of None \<Rightarrow> 10 | Some n \<Rightarrow> n),
      po_idleTimeoutMs = (case idle of None \<Rightarrow> 30000 | Some n \<Rightarrow> n),
      po_connectionTtlMs = (case ttl of None \<Rightarrow> 3600000 | Some n \<Rightarrow> n),
      po_horizonUrl = url\<rparr>"

text \<open>The argument \<open>rnd\<close> is \<^verbatim>\<open>Math.random().toString(36).substr(2, 9)\<close> of this call.\<close>

definition createConnection :: "pool_config \<Rightarrow> int \<Rightarrow> string \<Rightarrow> pool \<Rightarrow> pooled_connection \<times> pool" where
  "createConnection cfg tm rnd p =
     (let i = ''stellar-conn-'' @ int_to_string tm @ ''-'' @ rnd;
          c = \<lparr>pc_id = i, pc_server = po_horizonUrl cfg, pc_inUse = False, pc_lastUsed = tm,
               pc_created = tm, pc_usageCount = 0\<rparr>
      in (c, map_set i c p))"

definition initializePool :: "pool_config \<Rightarrow> int \<Rightarrow> (nat \<Rightarrow> string) \<Rightarrow> pool" where
  "initializePool cfg tm rnds =
     foldl (\<lambda>p k. snd (createConnection cfg tm (rnds k) p)) [] [0..<po_minConnections cfg]"

definition free_connection :: "pool \<Rightarrow> pooled_connection option" where
  "free_connection p = find (\<lambda>c. \<not> pc_inUse c) (map snd p)"

definition take_connection :: "int \<Rightarrow> pooled_connection \<Rightarrow> pooled_connection" where
  "take_connection tm c = c\<lparr>pc_inUse := True, pc_lastUsed := tm, pc_usageCount := pc_usageCount c + 1\<rparr>"

text \<open>
  \<open>acquireConnection\<close> returns the connection, or \<open>None\<close> when the pool is exhausted and the
  caller keeps a timer that runs \<open>poll_connection\<close> every 100 ms. Connections are objects: a
  change of one is a change of the entry of the map.
\<close>

definition poll_connection :: "int \<Rightarrow> pool \<Rightarrow> (pooled_connection \<times> pool) option" where
  "poll_connection tm p = (case free_connection p of None \<Rightarrow> None
     | Some c \<Rightarrow> Some (take_connection tm c, map_set (pc_id c) (take_connection tm c) p))"

definition acquireConnection :: "pool_config \<Rightarrow> int \<Rightarrow> string \<Rightarrow> pool \<Rightarrow> (pooled_connection \<times> pool) option" where
  "acquireConnection cfg tm rnd p = (case free_connection p of
       Some c \<Rightarrow> Some (take_connection tm c, map_set (pc_id c) (take_connection tm c) p)
     | None \<Rightarrow>
         if length p < po_maxConnections cfg
         then (case createConnection cfg tm rnd p of (c, p') \<Rightarrow>
                 let c' = c\<lparr>pc_inUse := True, pc_usageCount := pc_usageCount c + 1\<rparr>
                 in Some (c', map_set (pc_id c') c' p'))
         else None)"

definition releaseConnection :: "int \<Rightarrow> string \<Rightarrow> pool \<Rightarrow> pool" where
  "releaseConnection tm i p = (case map_of p i of None \<Rightarrow> p
     | Some c \<Rightarrow> map_set i (c\<lparr>pc_inUse := False, pc_lastUsed := tm\<rparr>) p)"

definition reclaimable :: "pool_config \<Rightarrow> int \<Rightarrow> pooled_connection \<Rightarrow> bool" where
  "reclaimable cfg tm c \<longleftrightarrow> tm - pc_lastUsed c > po_idleTimeoutMs cfg \<or> tm - pc_created c > po_connectionTtlMs cfg"

definition cleanup_visit :: "pool_config \<Rightarrow> int \<Rightarrow> pool \<Rightarrow> string \<times> pooled_connection \<Rightarrow> pool" where
  "cleanup_visit cfg tm p e = (case e of (i, c) \<Rightarrow>
     if \<not> pc_inUse c \<and> length p > po_minConnections cfg
     then (if reclaimable cfg tm c then map_delete i p else p)
     else p)"

definition cleanupIdleConnections :: "pool_config \<Rightarrow> int \<Rightarrow> pool \<Rightarrow> pool" where
  "cleanupIdleConnections cfg tm p = foldl (cleanup_visit cfg tm) p p"

record pool_stats =
  ps_total :: nat
  ps_active :: nat
  ps_idle :: nat
  ps_config :: pool_config

definition getPoolStats :: "pool_config \<Rightarrow> pool \<Rightarrow> pool_stats" where
  "getPoolStats cfg p =
     (let active = length (filter pc_inUse (map snd p))
      in \<lparr>ps_total = length p, ps_active = active, ps_idle = length p - active, ps_config = cfg\<rparr>)"

section \<open>Request queue\<close>

text \<open>The closure \<^verbatim>\<open>execute\<close> of a queued request is a value of the type \<open>'x\<close>.\<close>

record 'x queued_request =
  qr_id :: string
  qr_execute :: 'x
  qr_addedAt :: int
  qr_clientId :: string

record queue_config =
  qc_maxQueueSize :: nat
  qc_maxConcurrentRequests :: nat
  qc_processingIntervalMs :: int

record 'x request_queue =
  rq_queue :: "'x queued_request list"
  rq_activeRequests :: int
  rq_isProcessing :: bool

definition requestQueue_config :: "nat option \<Rightarrow> nat option \<Rightarrow> int option \<Rightarrow> queue_config" where
  "requestQueue_config mx conc iv =
     \<lparr>qc_maxQueueSize = (case mx of None \<Rightarrow> 100 | Some n \<Rightarrow> n),
      qc_maxConcurrentRequests = (case conc of None \<Rightarrow> 5 | Some n \<Rightarrow> n),
      qc_processingIntervalMs = (case iv of None \<Rightarrow> 50 | Some n \<Rightarrow> n)\<rparr>"

definition enqueue :: "queue_config \<Rightarrow> int \<Rightarrow> string \<Rightarrow> string \<Rightarrow> 'x \<Rightarrow> 'x request_queue \<Rightarrow> 'x request_queue result" where
  "enqueue cfg tm rnd clientId execute q =
     (if length (rq_queue q) \<ge> qc_maxQueueSize cfg
      then Inl (ServiceUnavailable ''Stellar request queue is full. Please try again later.'')
      else Inr (q\<lparr>rq_queue := rq_queue q @
             [\<lparr>qr_id = ''req-'' @ int_to_string tm @ ''-'' @ rnd, qr_execute = execute,
               qr_addedAt = tm, qr_clientId = clientId\<rparr>]\<rparr>))"

text \<open>
  The loop of \<^verbatim>\<open>processQueue\<close>. It never awaits: \<open>start\<close> is what
  \<^verbatim>\<open>executeRequest\<close> does before its first await, on the rest \<open>s\<close> of the state.
\<close>

fun process_loop :: "nat \<Rightarrow> ('x queued_request \<Rightarrow> 's \<Rightarrow> 's) \<Rightarrow> 'x queued_request list \<Rightarrow> int \<Rightarrow> 's \<Rightarrow>
    'x queued_request list \<times> int \<times> 's" where
  "process_loop mx start [] active s = ([], active, s)"
| "process_loop mx start (r # rs) active s =
     (if active < int mx then process_loop mx start rs (active + 1) (start r s) else (r # rs, active, s))"

definition processQueue :: "queue_config \<Rightarrow> ('x queued_request \<Rightarrow> 's \<Rightarrow> 's) \<Rightarrow> 'x request_queue \<Rightarrow> 's \<Rightarrow> 'x request_queue \<times> 's" where
  "processQueue cfg start q s =
     (if rq_isProcessing q then (q, s)
      else case process_loop (qc_maxConcurrentRequests cfg) start (rq_queue q) (rq_activeRequests q) s of
        (rs, active, s') \<Rightarrow> (q\<lparr>rq_queue := rs, rq_activeRequests := active, rq_isProcessing := False\<rparr>, s'))"

record queue_stats =
  qs_queueLength :: nat
  qs_activeRequests :: int
  qs_maxQueueSize :: nat
  qs_maxConcurrentRequests :: nat

definition getQueueStats :: "queue_config \<Rightarrow> 'x request_queue \<Rightarrow> queue_stats" where
  "getQueueStats cfg q = \<lparr>qs_queueLength = length (rq_queue q), qs_activeRequests = rq_activeRequests q,
     qs_maxQueueSize = qc_maxQueueSize cfg, qs_maxConcurrentRequests = qc_maxConcurrentRequests cfg\<rparr>"

text \<open>\<open>clearQueue\<close> returns the count and the requests whose promises it rejects, in order.\<close>

definition clearQueue :: "'x request_queue \<Rightarrow> nat \<times> ('x queued_request \<times> http_error) list \<times> 'x request_queue" where
  "clearQueue q = (length (rq_queue q),
     map (\<lambda>r. (r, ServiceUnavailable ''Queue cleared by administrator'')) (rq_queue q),
     q\<lparr>rq_queue := []\<rparr>)"

section \<open>The gateway's operations\<close>

record horizon_balance =
  hb_asset_type :: string
  hb_asset_code :: "string option"
  hb_asset_issuer :: "string option"
  hb_balance :: string

record horizon_account =
  ha_accountId :: string
  ha_sequenceNumber :: string
  ha_balances :: "horizon_balance list"

record asset_balance =
  ab_assetType :: string
  ab_assetCode :: "string option"
  ab_assetIssuer :: "string option"
  ab_balance :: string

record account_summary =
  as_accountId :: string
  as_sequence :: string
  as_balances :: "asset_balance list"

record settlement_request =
  sr_fromAccount :: string
  sr_toAccount :: string
  sr_assetCode :: string
  sr_assetIssuer :: "string field"
  sr_amount :: string

datatype sdk_asset = NativeAsset | IssuedAsset string string

datatype gateway_op =
    GetAccount string
  | ExecuteSettlement settlement_request
  | GetTransaction string
  | SubmitTransaction string

text \<open>The calls the gateway makes to the Stellar network, and the answers to them.\<close>

datatype network_call = LoadAccount string | FetchTransaction string | SubmitXdr string

datatype network_reply =
    AccountReply "horizon_account result"
  | RecordReply "string result"
  | SubmitReply "string result"

datatype gateway_data =
    AccountData account_summary
  | HashData string
  | RecordData string
  | SubmitData string

record gateway_response =
  gr_success :: bool
  gr_data :: "gateway_data option"
  gr_error :: "string option"
  gr_latency :: int
  gr_requestId :: string
  gr_timestamp :: int

type_synonym gw_request = "(string \<times> gateway_op) queued_request"
type_synonym gw_outcome = "gateway_response result"

text \<open>
  Requests that left the queue, in the order they were started. \<open>Calling i\<close> holds the
  connection \<open>i\<close>; \<open>Settled\<close> is the time between the settlement of the promise and the
  \<^verbatim>\<open>finally\<close> callback.
\<close>

datatype phase = Acquiring | Calling string | Settled

record running =
  ru_request :: gw_request
  ru_phase :: phase

record gateway_config =
  gc_limits :: rate_limit_config
  gc_pool :: pool_config
  gc_queue :: queue_config
  gc_networkPassphrase :: string
  gc_network :: "string option"
  gc_build :: "string \<Rightarrow> horizon_account \<Rightarrow> string \<Rightarrow> sdk_asset \<Rightarrow> string \<Rightarrow> unit result"

text \<open>
  The last three fields are the observations of the outside: the request identifiers the queue
  accepted, the promises that were settled, and the calls the Stellar network received.
\<close>

record gateway =
  gw_clock :: int
  gw_queue :: "(string \<times> gateway_op) request_queue"
  gw_limits :: client_limits
  gw_pool :: pool
  gw_requestCounter :: nat
  gw_running :: "running list"
  gw_accepted :: "string list"
  gw_settled :: "(gw_request \<times> gw_outcome) list"
  gw_calls :: "(gw_request \<times> network_call) list"

definition generateRequestId :: "int \<Rightarrow> gateway \<Rightarrow> string \<times> gateway" where
  "generateRequestId tm g = (''stellar-gateway-'' @ nat_to_string (gw_requestCounter g + 1) @ ''-'' @ int_to_string tm,
     g\<lparr>gw_requestCounter := gw_requestCounter g + 1\<rparr>)"

text \<open>
  \<open>executeWithMonitoring\<close> checks the limits when it is called and runs the operation afterwards.
  \<open>tm\<close> and \<open>tm'\<close> are the clock at its start and at its end.
\<close>

definition executeWithMonitoring :: "gateway_config \<Rightarrow> int \<Rightarrow> int \<Rightarrow> string \<Rightarrow> string \<Rightarrow> gateway_data result \<Rightarrow>
    gateway \<Rightarrow> gateway_response \<times> gateway" where
  "executeWithMonitoring cfg tm tm' requestId clientId operation g =
     (case checkRateLimit (gc_limits cfg) tm clientId (gw_limits g) of (limited, m) \<Rightarrow>
        let stats = getQueueStats (gc_queue cfg) (gw_queue g);
            outcome = rbind limited (\<lambda>_. rbind (checkBurstLimit (gc_limits cfg) (qs_activeRequests stats)) (\<lambda>_. operation));
            latency = tm' - tm
        in (case outcome of
              Inr d \<Rightarrow> \<lparr>gr_success = True, gr_data = Some d, gr_error = None, gr_latency = latency,
                        gr_requestId = requestId, gr_timestamp = tm'\<rparr>
            | Inl e \<Rightarrow> \<lparr>gr_success = False, gr_data = None, gr_error = Some (error_message e),
                        gr_latency = latency, gr_requestId = requestId, gr_timestamp = tm'\<rparr>,
            g\<lparr>gw_limits := m\<rparr>))"

definition release :: "int \<Rightarrow> string \<Rightarrow> gateway \<Rightarrow> gateway" where
  "release tm conn g = g\<lparr>gw_pool := releaseConnection tm conn (gw_pool g)\<rparr>"

text \<open>
  What each closure does when the network answers: on an answer the connection is released and the
  response is made, on an error the connection is released and the promise is rejected.
\<close>

definition balance_of :: "horizon_balance \<Rightarrow> asset_balance" where
  "balance_of b = \<lparr>ab_assetType = hb_asset_type b, ab_assetCode = hb_asset_code b,
     ab_assetIssuer = hb_asset_issuer b, ab_balance = hb_balance b\<rparr>"

definition getAccount_reply :: "gateway_config \<Rightarrow> int \<Rightarrow> int \<Rightarrow> string \<Rightarrow> string \<Rightarrow> string \<Rightarrow> horizon_account result \<Rightarrow>
    gateway \<Rightarrow> gw_outcome \<times> gateway" where
  "getAccount_reply cfg tm tm' conn requestId clientId reply g = (case reply of
       Inl e \<Rightarrow> (Inl e, release tm conn g)
     | Inr account \<Rightarrow>
         (case executeWithMonitoring cfg tm tm' requestId clientId
            (Inr (AccountData \<lparr>as_accountId = ha_accountId account, as_sequence = ha_sequenceNumber account,
               as_balances = map balance_of (ha_balances account)\<rparr>)) (release tm conn g) of
            (r, g') \<Rightarrow> (Inr r, g')))"

definition settlement_asset :: "settlement_request \<Rightarrow> sdk_asset" where
  "settlement_asset s = (case sr_assetIssuer s of
       Val issuer \<Rightarrow> if issuer \<noteq> [] then IssuedAsset (sr_assetCode s) issuer else NativeAsset
     | _ \<Rightarrow> NativeAsset)"

definition transfer_amount :: "string \<Rightarrow> string" where
  "transfer_amount s = (case parse_float s of None \<Rightarrow> ''NaN'' | Some x \<Rightarrow> to_fixed 7 x)"

definition executeSettlement_reply :: "gateway_config \<Rightarrow> int \<Rightarrow> int \<Rightarrow> string \<Rightarrow> string \<Rightarrow> string \<Rightarrow> string \<Rightarrow>
    settlement_request \<Rightarrow> horizon_account result \<Rightarrow> gateway \<Rightarrow> gw_outcome \<times> gateway" where
  "executeSettlement_reply cfg tm tm' rnd conn requestId clientId s reply g =
     (case rbind reply (\<lambda>account. gc_build cfg (gc_networkPassphrase cfg) account (sr_toAccount s)
             (settlement_asset s) (transfer_amount (sr_amount s))) of
       Inl e \<Rightarrow> (Inl e, release tm conn g)
     | Inr _ \<Rightarrow>
         let mockTxHash = ''settlement_'' @ int_to_string tm @ ''_'' @ rnd
         in (case executeWithMonitoring cfg tm tm' requestId clientId (Inr (HashData mockTxHash)) (release tm conn g) of
               (r, g') \<Rightarrow> (Inr r, g')))"

definition getTransaction_reply :: "gateway_config \<Rightarrow> int \<Rightarrow> int \<Rightarrow> string \<Rightarrow> string \<Rightarrow> string \<Rightarrow> string result \<Rightarrow>
    gateway \<Rightarrow> gw_outcome \<times> gateway" where
  "getTransaction_reply cfg tm tm' conn requestId clientId reply g = (case reply of
       Inl e \<Rightarrow> (Inl e, release tm conn g)
     | Inr x \<Rightarrow> (case executeWithMonitoring cfg tm tm' requestId clientId (Inr (RecordData x)) (release tm conn g) of
         (r, g') \<Rightarrow> (Inr r, g')))"

definition submitTransaction_reply :: "gateway_config \<Rightarrow> int \<Rightarrow> int \<Rightarrow> string \<Rightarrow> string \<Rightarrow> string \<Rightarrow> string result \<Rightarrow>
    gateway \<Rightarrow> gw_outcome \<times> gateway" where
  "submitTransaction_reply cfg tm tm' conn requestId clientId reply g = (case reply of
       Inl e \<Rightarrow> (Inl e, release tm conn g)
     | Inr x \<Rightarrow> (case executeWithMonitoring cfg tm tm' requestId clientId (Inr (SubmitData x)) (release tm conn g) of
         (r, g') \<Rightarrow> (Inr r, g')))"

text \<open>The closure of an operation: the first call it makes, and the answer it expects.\<close>

fun network_call_of :: "gateway_op \<Rightarrow> network_call" where
  "network_call_of (GetAccount a) = LoadAccount a"
| "network_call_of (ExecuteSettlement s) = LoadAccount (sr_fromAccount s)"
| "network_call_of (GetTransaction h) = FetchTransaction h"
| "network_call_of (SubmitTransaction xdr) = SubmitXdr xdr"

fun op_reply :: "gateway_config \<Rightarrow> int \<Rightarrow> int \<Rightarrow> string \<Rightarrow> string \<Rightarrow> string \<Rightarrow> string \<Rightarrow> gateway_op \<Rightarrow> network_reply \<Rightarrow>
    gateway \<Rightarrow> (gw_outcome \<times> gateway) option" where
  "op_reply cfg tm tm' rnd conn i c (GetAccount a) (AccountReply r) g = Some (getAccount_reply cfg tm tm' conn i c r g)"
| "op_reply cfg tm tm' rnd conn i c (ExecuteSettlement s) (AccountReply r) g =
     Some (executeSettlement_reply cfg tm tm' rnd conn i c s r g)"
| "op_reply cfg tm tm' rnd conn i c (GetTransaction h) (RecordReply r) g = Some (getTransaction_reply cfg tm tm' conn i c r g)"
| "op_reply cfg tm tm' rnd conn i c (SubmitTransaction x) (SubmitReply r) g =
     Some (submitTransaction_reply cfg tm tm' conn i c r g)"
| "op_reply cfg tm tm' rnd conn i c _ _ g = None"

section \<open>Events\<close>

text \<open>A call of one of the four operations: a new request id, then the queue.\<close>

definition gateway_call :: "gateway_config \<Rightarrow> int \<Rightarrow> string \<Rightarrow> gateway_op \<Rightarrow> string \<Rightarrow> gateway \<Rightarrow> string result \<times> gateway" where
  "gateway_call cfg tm rnd op clientId g =
     (case generateRequestId tm g of (requestId, g') \<Rightarrow>
        case enqueue (gc_queue cfg) tm rnd clientId (requestId, op) (gw_queue g') of
          Inl e \<Rightarrow> (Inl e, g')
        | Inr q \<Rightarrow> (Inr requestId, g'\<lparr>gw_queue := q, gw_accepted := gw_accepted g' @ [requestId]\<rparr>))"

text \<open>
  The start of a request up to its first await: the closure asks the pool for a connection, and
  with one it calls the network. The \<open>k\<close>-th connection of the pool gets the random suffix \<open>rnds k\<close>.
\<close>

definition start_call :: "gw_request \<Rightarrow> string \<Rightarrow> gateway \<Rightarrow> gateway" where
  "start_call r conn g = g\<lparr>gw_running := gw_running g @ [\<lparr>ru_request = r, ru_phase = Calling conn\<rparr>],
     gw_calls := gw_calls g @ [(r, network_call_of (snd (qr_execute r)))]\<rparr>"

definition executeRequest :: "gateway_config \<Rightarrow> int \<Rightarrow> (nat \<Rightarrow> string) \<Rightarrow> gw_request \<Rightarrow> gateway \<Rightarrow> gateway" where
  "executeRequest cfg tm rnds r g =
     (case acquireConnection (gc_pool cfg) tm (rnds (length (gw_pool g))) (gw_pool g) of
        Some (c, p) \<Rightarrow> start_call r (pc_id c) (g\<lparr>gw_pool := p\<rparr>)
      | None \<Rightarrow> g\<lparr>gw_running := gw_running g @ [\<lparr>ru_request = r, ru_phase = Acquiring\<rparr>]\<rparr>)"

definition gateway_tick :: "gateway_config \<Rightarrow> int \<Rightarrow> (nat \<Rightarrow> string) \<Rightarrow> gateway \<Rightarrow> gateway" where
  "gateway_tick cfg tm rnds g =
     (case processQueue (gc_queue cfg) (executeRequest cfg tm rnds) (gw_queue g) g of (q, g') \<Rightarrow> g'\<lparr>gw_queue := q\<rparr>)"

text \<open>The timer of the \<open>i\<close>-th running request, which waits for a connection.\<close>

definition gateway_poll :: "int \<Rightarrow> nat \<Rightarrow> gateway \<Rightarrow> gateway" where
  "gateway_poll tm i g = (case poll_connection tm (gw_pool g) of None \<Rightarrow> g
     | Some (c, p) \<Rightarrow>
         let ru = gw_running g ! i
         in g\<lparr>gw_pool := p, gw_running := (gw_running g)[i := ru\<lparr>ru_phase := Calling (pc_id c)\<rparr>],
              gw_calls := gw_calls g @ [(ru_request ru, network_call_of (snd (qr_execute (ru_request ru))))]\<rparr>)"

text \<open>The network answers the \<open>i\<close>-th running request, and its promise is settled.\<close>

definition gateway_reply :: "gateway_config \<Rightarrow> int \<Rightarrow> int \<Rightarrow> string \<Rightarrow> nat \<Rightarrow> network_reply \<Rightarrow> gateway \<Rightarrow> gateway option" where
  "gateway_reply cfg tm tm' rnd i reply g =
     (let ru = gw_running g ! i; r = ru_request ru in
      case ru_phase ru of Calling conn \<Rightarrow>
        (case op_reply cfg tm tm' rnd conn (fst (qr_execute r)) (qr_clientId r) (snd (qr_execute r)) reply g of
           None \<Rightarrow> None
         | Some (out, g') \<Rightarrow> Some (g'\<lparr>gw_running := (gw_running g')[i := ru\<lparr>ru_phase := Settled\<rparr>],
             gw_settled := gw_settled g' @ [(r, out)]\<rparr>))
      | _ \<Rightarrow> None)"

text \<open>The \<^verbatim>\<open>finally\<close> callback of the \<open>i\<close>-th running request.\<close>

definition gateway_finally :: "nat \<Rightarrow> gateway \<Rightarrow> gateway" where
  "gateway_finally i g = g\<lparr>gw_running := take i (gw_running g) @ drop (Suc i) (gw_running g),
     gw_queue := (gw_queue g)\<lparr>rq_activeRequests := rq_activeRequests (gw_queue g) - 1\<rparr>\<rparr>"

definition gateway_clear :: "gateway \<Rightarrow> gateway" where
  "gateway_clear g = (case clearQueue (gw_queue g) of (n, rejected, q) \<Rightarrow>
     g\<lparr>gw_queue := q, gw_settled := gw_settled g @ map (\<lambda>(r, e). (r, Inl e)) rejected\<rparr>)"

definition gateway_init :: "gateway_config \<Rightarrow> int \<Rightarrow> (nat \<Rightarrow> string) \<Rightarrow> gateway" where
  "gateway_init cfg tm rnds = \<lparr>gw_clock = tm,
     gw_queue = \<lparr>rq_queue = [], rq_activeRequests = 0, rq_isProcessing = False\<rparr>,
     gw_limits = [], gw_pool = initializePool (gc_pool cfg) tm rnds, gw_requestCounter = 0,
     gw_running = [], gw_accepted = [], gw_settled = [], gw_calls = []\<rparr>"

text \<open>The random suffixes of new connections do not repeat an identifier of the pool.\<close>

definition conn_name :: "int \<Rightarrow> string \<Rightarrow> string" where
  "conn_name tm rnd = ''stellar-conn-'' @ int_to_string tm @ ''-'' @ rnd"

definition fresh_names :: "int \<Rightarrow> (nat \<Rightarrow> string) \<Rightarrow> pool \<Rightarrow> bool" where
  "fresh_names tm rnds p \<longleftrightarrow> inj rnds \<and> (\<forall>k. conn_name tm (rnds k) \<notin> fst ` set p)"

inductive gw_step :: "gateway_config \<Rightarrow> gateway \<Rightarrow> gateway \<Rightarrow> bool" for cfg where
  step_call: "gw_step cfg g (snd (gateway_call cfg (gw_clock g) rnd op clientId g))"
| step_tick: "fresh_names (gw_clock g) rnds (gw_pool g) \<Longrightarrow> gw_step cfg g (gateway_tick cfg (gw_clock g) rnds g)"
| step_poll: "i < length (gw_running g) \<Longrightarrow> ru_phase (gw_running g ! i) = Acquiring \<Longrightarrow>
    gw_step cfg g (gateway_poll (gw_clock g) i g)"
| step_reply: "i < length (gw_running g) \<Longrightarrow> gw_clock g \<le> tm' \<Longrightarrow>
    gateway_reply cfg (gw_clock g) tm' rnd i reply g = Some g' \<Longrightarrow> gw_step cfg g (g'\<lparr>gw_clock := tm'\<rparr>)"
| step_finally: "i < length (gw_running g) \<Longrightarrow> ru_phase (gw_running g ! i) = Settled \<Longrightarrow>
    gw_step cfg g (gateway_finally i g)"
| step_cleanup_pool: "gw_step cfg g (g\<lparr>gw_pool := cleanupIdleConnections (gc_pool cfg) (gw_clock g) (gw_pool g)\<rparr>)"
| step_cleanup_limits: "gw_step cfg g (g\<lparr>gw_limits := cleanupOldWindows (gw_clock g) (gw_limits g)\<rparr>)"
| step_clear: "gw_step cfg g (gateway_clear g)"
| step_time: "gw_clock g \<le> tm' \<Longrightarrow> gw_step cfg g (g\<lparr>gw_clock := tm'\<rparr>)"

inductive gw_reachable :: "gateway_config \<Rightarrow> gateway \<Rightarrow> bool" for cfg where
  gw_start: "inj rnds \<Longrightarrow> gw_reachable cfg (gateway_init cfg tm rnds)"
| gw_next: "gw_reachable cfg g \<Longrightarrow> gw_step cfg g g' \<Longrightarrow> gw_reachable cfg g'"

text \<open>The three services have an \<^verbatim>\<open>onDestroy\<close> that stops the timer and drops the state.\<close>

definition gateway_onDestroy :: "gateway \<Rightarrow> gateway" where
  "gateway_onDestroy g = (gateway_clear g)\<lparr>gw_pool := [], gw_limits := []\<rparr>"

section \<open>Statistics and the controller\<close>

record gateway_stats =
  gs_pool :: pool_stats
  gs_queue :: queue_stats
  gs_rateLimit :: rate_limit_config
  gs_totalProcessed :: nat
  gs_timestamp :: int

definition getGatewayStats :: "gateway_config \<Rightarrow> int \<Rightarrow> gateway \<Rightarrow> gateway_stats" where
  "getGatewayStats cfg tm g = \<lparr>gs_pool = getPoolStats (gc_pool cfg) (gw_pool g),
     gs_queue = getQueueStats (gc_queue cfg) (gw_queue g), gs_rateLimit = gc_limits cfg,
     gs_totalProcessed = gw_requestCounter g, gs_timestamp = tm\<rparr>"

definition getNetworkInfo :: "gateway_config \<Rightarrow> string \<times> string \<times> string" where
  "getNetworkInfo cfg = ((case gc_network cfg of None \<Rightarrow> ''testnet'' | Some n \<Rightarrow> n), gc_networkPassphrase cfg,
     po_horizonUrl (gc_pool cfg))"

definition extractClientId :: "string option \<Rightarrow> string" where
  "extractClientId header = (case header of None \<Rightarrow> ''anonymous'' | Some c \<Rightarrow> if c = [] then ''anonymous'' else c)"

definition controller_response :: "gw_outcome \<Rightarrow> gw_outcome" where
  "controller_response out = rbind out (\<lambda>r.
     if \<not> gr_success r
     then Inl (ServiceUnavailable (case gr_error r of None \<Rightarrow> ''Unknown error occurred''
            | Some e \<Rightarrow> if e = [] then ''Unknown error occurred'' else e))
     else Inr r)"

end
