(* ===== verification/Gateway_Inv.thy ===== *)
theory Gateway_Inv
  imports Gateway "HOL-Library.Multiset"
begin

text \<open>
  The invariant of the Stellar gateway over every interleaving of its events. The connection pool is
  used through the contract \<open>connection_source\<close>: the connections that requests hold are exactly those in
  use, each held once. The rest of the invariant bounds the queue and the requests in flight and
  accounts for every request identifier.
\<close>

section \<open>The connection pool\<close>

text \<open>
  What a client relies on: an acquired connection was not in use, and giving one back frees exactly
  that one. Then the multiset of held connections stays the set of connections in use.
\<close>

locale connection_source =
  fixes acquire :: "'e \<Rightarrow> 'p \<Rightarrow> ('k \<times> 'p) option"
    and give_back :: "'t \<Rightarrow> 'k \<Rightarrow> 'p \<Rightarrow> 'p"
    and used :: "'p \<Rightarrow> 'k set"
    and fresh :: "'e \<Rightarrow> 'p \<Rightarrow> bool"
    and wf :: "'p \<Rightarrow> bool"
  assumes finite_used: "finite (used p)"
    and acquire_new: "wf p \<Longrightarrow> fresh e p \<Longrightarrow> acquire e p = Some (k, p') \<Longrightarrow> k \<notin> used p \<and> used p' = insert k (used p)"
    and acquire_wf: "wf p \<Longrightarrow> acquire e p = Some (k, p') \<Longrightarrow> wf p'"
    and give_back_used: "wf p \<Longrightarrow> used (give_back t k p) = used p - {k}"
    and give_back_wf: "wf p \<Longrightarrow> wf (give_back t k p)"
begin

definition holders :: "'k multiset \<Rightarrow> 'p \<Rightarrow> bool" where
  "holders h p \<longleftrightarrow> wf p \<and> h = mset_set (used p)"

lemma holders_exclusive: "holders h p \<Longrightarrow> count h k \<le> 1"
  by (simp add: holders_def count_mset_set')

lemma holders_set: "holders h p \<Longrightarrow> set_mset h = used p"
  by (simp add: holders_def finite_used)

lemma holders_acquire:
  "holders h p \<Longrightarrow> fresh e p \<Longrightarrow> acquire e p = Some (k, p') \<Longrightarrow> holders (add_mset k h) p'"
  using acquire_new [of p e k p'] acquire_wf [of p e k p'] by (auto simp: holders_def finite_used)

lemma holders_give_back: "holders (add_mset k h) p \<Longrightarrow> holders h (give_back t k p)"
proof -
  assume h: "holders (add_mset k h) p"
  then have k: "k \<in> used p" using holders_set by fastforce
  have "mset_set (used p) = add_mset k (mset_set (used p - {k}))"
    using mset_set.remove [OF finite_used k] by simp
  with h show ?thesis by (simp add: holders_def give_back_used give_back_wf)
qed

end

definition pool_wf :: "pool \<Rightarrow> bool" where
  "pool_wf p \<longleftrightarrow> distinct (map fst p) \<and> (\<forall>(i, c) \<in> set p. pc_id c = i)"

definition pool_used :: "pool \<Rightarrow> string set" where
  "pool_used p = {i. \<exists>c. map_of p i = Some c \<and> pc_inUse c}"

lemma finite_pool_used: "finite (pool_used p)"
proof -
  have "pool_used p \<subseteq> fst ` set p" by (auto simp: pool_used_def dest: map_of_SomeD intro: rev_image_eqI)
  then show ?thesis by (rule finite_subset) simp
qed

lemma pool_wf_map_set: "pool_wf p \<Longrightarrow> pc_id c = i \<Longrightarrow> pool_wf (map_set i c p)"
  by (auto simp: pool_wf_def distinct_map_set set_map_set_distinct)

lemma pool_used_map_set:
  "pool_used (map_set i c p) = (if pc_inUse c then insert i (pool_used p) else pool_used p - {i})"
  by (auto simp: pool_used_def)

lemma free_connection_SomeD:
  assumes "free_connection p = Some c" and "pool_wf p"
  shows "map_of p (pc_id c) = Some c" and "\<not> pc_inUse c" and "pc_id c \<notin> pool_used p" and "pc_id c \<in> fst ` set p"
proof -
  obtain i where i: "(i, c) \<in> set p" "\<not> pc_inUse c"
    using assms(1) by (auto simp: free_connection_def find_Some_iff) (metis nth_mem prod.collapse)
  with assms(2) have "pc_id c = i" "map_of p i = Some c" by (auto simp: pool_wf_def)
  with i show "map_of p (pc_id c) = Some c" and "\<not> pc_inUse c" and "pc_id c \<notin> pool_used p" and "pc_id c \<in> fst ` set p"
    by (auto simp: pool_used_def intro: rev_image_eqI)
qed

lemma free_connection_NoneD:
  assumes "free_connection p = None" and "pool_wf p"
  shows "pool_used p = fst ` set p"
proof -
  have "\<And>i c. (i, c) \<in> set p \<Longrightarrow> pc_inUse c" using assms(1) by (force simp: free_connection_def find_None_iff)
  then show ?thesis using assms(2) by (auto simp: pool_used_def pool_wf_def dest: map_of_SomeD intro: rev_image_eqI)
qed

lemma take_connection_simps [simp]: "pc_id (take_connection tm c) = pc_id c" "pc_inUse (take_connection tm c)"
  by (simp_all add: take_connection_def)

definition acquire_named :: "pool_config \<Rightarrow> int \<times> string \<Rightarrow> pool \<Rightarrow> (string \<times> pool) option" where
  "acquire_named cfg e p = map_option (\<lambda>(c, p'). (pc_id c, p')) (acquireConnection cfg (fst e) (snd e) p)"

definition fresh_name :: "int \<times> string \<Rightarrow> pool \<Rightarrow> bool" where
  "fresh_name e p \<longleftrightarrow> conn_name (fst e) (snd e) \<notin> fst ` set p"

lemma createConnection_eq:
  "createConnection cfg tm rnd p = (let c = \<lparr>pc_id = conn_name tm rnd, pc_server = po_horizonUrl cfg, pc_inUse = False,
     pc_lastUsed = tm, pc_created = tm, pc_usageCount = 0\<rparr> in (c, map_set (conn_name tm rnd) c p))"
  unfolding createConnection_def conn_name_def Let_def by (rule refl)

lemma acquire_cases:
  assumes "acquireConnection cfg tm rnd p = Some (c, p')" and wf: "pool_wf p"
  obtains (free) c0 where "free_connection p = Some c0" and "pc_id c = pc_id c0" and "pc_inUse c"
      and "p' = map_set (pc_id c0) c p"
    | (new) c0 where "free_connection p = None" and "length p < po_maxConnections cfg" and "pc_id c = conn_name tm rnd"
      and "pc_inUse c" and "pc_id c0 = conn_name tm rnd" and "p' = map_set (conn_name tm rnd) c (map_set (conn_name tm rnd) c0 p)"
proof (cases "free_connection p")
  case (Some c0)
  with assms show ?thesis by (intro free [of c0]) (auto simp: acquireConnection_def)
next
  case None
  with assms show ?thesis
    by (intro new) (auto simp: acquireConnection_def createConnection_eq Let_def split: if_splits)
qed

lemma acquire_pool:
  assumes "acquireConnection cfg tm rnd p = Some (c, p')" and wf: "pool_wf p"
  shows "pool_wf p'" and "pool_used p' = insert (pc_id c) (pool_used p)"
    and "fresh_name (tm, rnd) p \<Longrightarrow> pc_id c \<notin> pool_used p"
    and "length p \<le> length p'" and "length p' \<le> max (length p) (po_maxConnections cfg)"
    and "fst ` set p' \<subseteq> insert (conn_name tm rnd) (fst ` set p)"
    and "length p' = length p \<Longrightarrow> fresh_name (tm, rnd) p \<Longrightarrow> fst ` set p' = fst ` set p"
proof -
  note rules = pool_wf_map_set pool_used_map_set keys_map_set length_map_set
  have "pool_wf p' \<and> pool_used p' = insert (pc_id c) (pool_used p) \<and>
      (fresh_name (tm, rnd) p \<longrightarrow> pc_id c \<notin> pool_used p) \<and>
      length p \<le> length p' \<and> length p' \<le> max (length p) (po_maxConnections cfg) \<and>
      fst ` set p' \<subseteq> insert (conn_name tm rnd) (fst ` set p) \<and>
      (length p' = length p \<longrightarrow> fresh_name (tm, rnd) p \<longrightarrow> fst ` set p' = fst ` set p)"
    using assms
  proof (cases rule: acquire_cases)
    case (free c0)
    then show ?thesis using free_connection_SomeD [OF free(1) wf] wf by (auto simp: rules)
  next
    case (new c0)
    have "pool_used p = fst ` set p" by (rule free_connection_NoneD [OF new(1) wf])
    with new wf show ?thesis by (auto simp: rules fresh_name_def)
  qed
  then show "pool_wf p'" and "pool_used p' = insert (pc_id c) (pool_used p)"
    and "fresh_name (tm, rnd) p \<Longrightarrow> pc_id c \<notin> pool_used p"
    and "length p \<le> length p'" and "length p' \<le> max (length p) (po_maxConnections cfg)"
    and "fst ` set p' \<subseteq> insert (conn_name tm rnd) (fst ` set p)"
    and "length p' = length p \<Longrightarrow> fresh_name (tm, rnd) p \<Longrightarrow> fst ` set p' = fst ` set p" by auto
qed

lemma releaseConnection_pool:
  assumes "pool_wf p"
  shows "pool_wf (releaseConnection tm i p)" and "pool_used (releaseConnection tm i p) = pool_used p - {i}"
    and "fst ` set (releaseConnection tm i p) = fst ` set p" and "length (releaseConnection tm i p) = length p"
proof -
  have c: "map_of p i = Some c \<Longrightarrow> pc_id c = i \<and> i \<in> fst ` set p" for c
    using assms by (auto simp: pool_wf_def dest: map_of_SomeD intro: rev_image_eqI)
  show "pool_wf (releaseConnection tm i p)" and "fst ` set (releaseConnection tm i p) = fst ` set p"
    and "length (releaseConnection tm i p) = length p"
    using assms c by (auto simp: releaseConnection_def pool_wf_map_set keys_map_set length_map_set split: option.splits)
  show "pool_used (releaseConnection tm i p) = pool_used p - {i}"
    by (auto simp: releaseConnection_def pool_used_map_set pool_used_def split: option.splits)
qed

interpretation pc: connection_source "acquire_named cfg" releaseConnection pool_used fresh_name pool_wf
  for cfg
  by unfold_locales
    (auto simp: acquire_named_def releaseConnection_pool finite_pool_used acquire_pool)

lemma pool_used_map_delete: "pool_used (map_delete i p) = pool_used p - {i}"
  by (auto simp: pool_used_def)

lemma pool_wf_map_delete: "pool_wf p \<Longrightarrow> pool_wf (map_delete i p)"
  by (auto simp: pool_wf_def set_map_delete distinct_map_delete)

lemma cleanup_visit_ok:
  assumes "pool_wf p" and "\<not> pc_inUse c \<longrightarrow> i \<notin> pool_used p" and "po_minConnections cfg \<le> length p"
  shows "pool_wf (cleanup_visit cfg tm p (i, c)) \<and> pool_used (cleanup_visit cfg tm p (i, c)) = pool_used p \<and>
    po_minConnections cfg \<le> length (cleanup_visit cfg tm p (i, c)) \<and> length (cleanup_visit cfg tm p (i, c)) \<le> length p"
  using assms length_map_delete [of p i] length_map_delete_le [of i p]
  by (auto simp: cleanup_visit_def pool_wf_map_delete pool_used_map_delete) (simp_all add: pool_wf_def)

lemma cleanup_loop:
  assumes "pool_wf p" and "\<forall>(i, c) \<in> set es. \<not> pc_inUse c \<longrightarrow> i \<notin> pool_used p"
    and "po_minConnections cfg \<le> length p"
  shows "pool_wf (foldl (cleanup_visit cfg tm) p es) \<and> pool_used (foldl (cleanup_visit cfg tm) p es) = pool_used p \<and>
    po_minConnections cfg \<le> length (foldl (cleanup_visit cfg tm) p es) \<and> length (foldl (cleanup_visit cfg tm) p es) \<le> length p"
  using assms
proof (induction es arbitrary: p)
  case Nil
  then show ?case by simp
next
  case (Cons e es)
  obtain i c where e: "e = (i, c)" by fastforce
  let ?p = "cleanup_visit cfg tm p (i, c)"
  have v: "pool_wf ?p" "pool_used ?p = pool_used p" "po_minConnections cfg \<le> length ?p" "length ?p \<le> length p"
    using cleanup_visit_ok [of p c i cfg tm] Cons.prems e by simp_all
  have "\<forall>(i', c') \<in> set es. \<not> pc_inUse c' \<longrightarrow> i' \<notin> pool_used ?p" using Cons.prems(2) v(2) by simp
  from Cons.IH [OF v(1) this v(3)] show ?case using e v(2,4) by simp
qed

lemma cleanup_pool:
  assumes "pool_wf p" and "po_minConnections cfg \<le> length p"
  shows "pool_wf (cleanupIdleConnections cfg tm p)" and "pool_used (cleanupIdleConnections cfg tm p) = pool_used p"
    and "po_minConnections cfg \<le> length (cleanupIdleConnections cfg tm p)"
    and "length (cleanupIdleConnections cfg tm p) \<le> length p"
proof -
  have "\<forall>(i, c) \<in> set p. \<not> pc_inUse c \<longrightarrow> i \<notin> pool_used p"
    using assms(1) by (auto simp: pool_used_def pool_wf_def dest: map_of_SomeD eq_key_imp_eq_value)
  from cleanup_loop [OF assms(1) this assms(2), where tm = tm]
  show "pool_wf (cleanupIdleConnections cfg tm p)" and "pool_used (cleanupIdleConnections cfg tm p) = pool_used p"
    and "po_minConnections cfg \<le> length (cleanupIdleConnections cfg tm p)"
    and "length (cleanupIdleConnections cfg tm p) \<le> length p"
    unfolding cleanupIdleConnections_def by simp_all
qed

lemma conn_name_inj: "conn_name tm a = conn_name tm b \<longleftrightarrow> a = b"
  by (simp add: conn_name_def)

lemma initializePool_ok:
  assumes "inj rnds"
  shows "pool_wf (initializePool cfg tm rnds) \<and> pool_used (initializePool cfg tm rnds) = {} \<and>
    length (initializePool cfg tm rnds) = po_minConnections cfg"
proof -
  have "let p = foldl (\<lambda>p k. snd (createConnection cfg tm (rnds k) p)) [] [0..<n] in
      pool_wf p \<and> pool_used p = {} \<and> length p = n \<and> fst ` set p = (\<lambda>k. conn_name tm (rnds k)) ` {0..<n}" for n
  proof (induction n)
    case 0
    show ?case by (simp add: pool_wf_def pool_used_def)
  next
    case (Suc n)
    have "conn_name tm (rnds n) \<notin> (\<lambda>k. conn_name tm (rnds k)) ` {0..<n}"
      using assms by (auto simp: conn_name_inj dest: injD)
    moreover have "(\<lambda>k. conn_name tm (rnds k)) ` {0..<Suc n} = insert (conn_name tm (rnds n)) ((\<lambda>k. conn_name tm (rnds k)) ` {0..<n})"
      by (simp add: atLeastLessThanSuc)
    ultimately show ?case using Suc
      by (simp add: Let_def createConnection_eq pool_wf_map_set pool_used_map_set length_map_set keys_map_set)
  qed
  from this [of "po_minConnections cfg"] show ?thesis by (simp add: initializePool_def Let_def)
qed

section \<open>Invariant\<close>

fun held_by :: "running \<Rightarrow> string multiset" where
  "held_by ru = (case ru_phase ru of Calling i \<Rightarrow> {#i#} | _ \<Rightarrow> {#})"

definition held :: "running list \<Rightarrow> string multiset" where
  "held rs = sum_mset (image_mset held_by (mset rs))"

definition req_id :: "gw_request \<Rightarrow> string" where
  "req_id r = fst (qr_execute r)"

definition run_ids :: "(phase \<Rightarrow> bool) \<Rightarrow> running list \<Rightarrow> string multiset" where
  "run_ids P rs = image_mset (\<lambda>ru. req_id (ru_request ru)) (filter_mset (\<lambda>ru. P (ru_phase ru)) (mset rs))"

definition queue_ids :: "(string \<times> gateway_op) request_queue \<Rightarrow> string multiset" where
  "queue_ids q = image_mset req_id (mset (rq_queue q))"

definition gw_id :: "nat \<Rightarrow> int \<Rightarrow> string" where
  "gw_id n tm = ''stellar-gateway-'' @ nat_to_string n @ ''-'' @ int_to_string tm"

definition conns_ok :: "gateway_config \<Rightarrow> gateway \<Rightarrow> bool" where
  "conns_ok cfg g \<longleftrightarrow> pc.holders (held (gw_running g)) (gw_pool g) \<and>
     po_minConnections (gc_pool cfg) \<le> length (gw_pool g) \<and>
     length (gw_pool g) \<le> max (po_minConnections (gc_pool cfg)) (po_maxConnections (gc_pool cfg))"

definition queue_ok :: "gateway_config \<Rightarrow> gateway \<Rightarrow> bool" where
  "queue_ok cfg g \<longleftrightarrow> length (rq_queue (gw_queue g)) \<le> qc_maxQueueSize (gc_queue cfg) \<and>
     \<not> rq_isProcessing (gw_queue g) \<and> rq_activeRequests (gw_queue g) = int (length (gw_running g)) \<and>
     length (gw_running g) \<le> qc_maxConcurrentRequests (gc_queue cfg)"

definition ids_ok :: "gateway \<Rightarrow> bool" where
  "ids_ok g \<longleftrightarrow> distinct (gw_accepted g) \<and>
     mset (gw_accepted g) = queue_ids (gw_queue g) + run_ids (\<lambda>p. p \<noteq> Settled) (gw_running g)
       + image_mset (\<lambda>x. req_id (fst x)) (mset (gw_settled g)) \<and>
     (\<forall>x \<in> set (gw_accepted g). \<exists>n tm. n \<le> gw_requestCounter g \<and> x = gw_id n tm)"

definition calls_ok :: "gateway \<Rightarrow> bool" where
  "calls_ok g \<longleftrightarrow> image_mset (\<lambda>x. req_id (fst x)) (mset (gw_calls g)) + queue_ids (gw_queue g)
     + run_ids (\<lambda>p. p = Acquiring) (gw_running g) \<subseteq># mset (gw_accepted g)"

definition gw_inv :: "gateway_config \<Rightarrow> gateway \<Rightarrow> bool" where
  "gw_inv cfg g \<longleftrightarrow> conns_ok cfg g \<and> queue_ok cfg g \<and> ids_ok g \<and> calls_ok g"

lemma held_simps [simp]: "held [] = {#}" "held (rs @ [ru]) = held rs + held_by ru"
  by (simp_all add: held_def)

lemma run_ids_simps [simp]: "run_ids P [] = {#}"
  "run_ids P (rs @ [ru]) = run_ids P rs + (if P (ru_phase ru) then {#req_id (ru_request ru)#} else {#})"
  by (simp_all add: run_ids_def)

lemma nth_split:
  assumes "i < length rs"
  shows "mset rs = add_mset (rs ! i) (mset (take i rs @ drop (Suc i) rs))"
    and "mset (rs[i := x]) = add_mset x (mset (take i rs @ drop (Suc i) rs))"
  using assms by (simp_all add: id_take_nth_drop [OF assms, symmetric] upd_conv_take_nth_drop)
    (metis add_mset_add_single id_take_nth_drop mset.simps(2) mset_append union_mset_add_mset_right)

text \<open>The effect of one entry on the observations of the running list.\<close>

lemma held_nth:
  assumes "i < length rs"
  shows "held rs = held_by (rs ! i) + held (take i rs @ drop (Suc i) rs)"
    and "held (rs[i := x]) = held_by x + held (take i rs @ drop (Suc i) rs)"
  unfolding held_def by (simp_all only: nth_split [OF assms] image_mset_add_mset sum_mset.add_mset)

lemma run_ids_nth:
  assumes "i < length rs"
  shows "run_ids P rs = (if P (ru_phase (rs ! i)) then {#req_id (ru_request (rs ! i))#} else {#}) + run_ids P (take i rs @ drop (Suc i) rs)"
    and "run_ids P (rs[i := x]) = (if P (ru_phase x) then {#req_id (ru_request x)#} else {#}) + run_ids P (take i rs @ drop (Suc i) rs)"
  unfolding run_ids_def by (simp_all only: nth_split [OF assms]) simp_all

lemma dash_not_digit: "CHR ''-'' \<notin> set (nat_to_string n)"
  using nat_to_string_digits [of "CHR ''-''" n] by auto

lemma gw_id_inj: "gw_id n tm = gw_id m tm' \<Longrightarrow> n = m"
proof -
  assume "gw_id n tm = gw_id m tm'"
  then have "nat_to_string n @ CHR ''-'' # int_to_string tm = nat_to_string m @ CHR ''-'' # int_to_string tm'"
    by (simp add: gw_id_def)
  then have "split_on (CHR ''-'') (nat_to_string n @ CHR ''-'' # int_to_string tm)
      = split_on (CHR ''-'') (nat_to_string m @ CHR ''-'' # int_to_string tm')" by simp
  then show ?thesis by (simp add: split_on_append dash_not_digit nat_to_string_inj)
qed

lemma generateRequestId_eq:
  "generateRequestId tm g = (gw_id (gw_requestCounter g + 1) tm, g\<lparr>gw_requestCounter := gw_requestCounter g + 1\<rparr>)"
  unfolding generateRequestId_def gw_id_def by (rule refl)

lemma gw_invI: "conns_ok cfg g \<Longrightarrow> queue_ok cfg g \<Longrightarrow> ids_ok g \<Longrightarrow> calls_ok g \<Longrightarrow> gw_inv cfg g"
  by (simp add: gw_inv_def)

lemma gw_invE:
  assumes "gw_inv cfg g"
  obtains "conns_ok cfg g" and "queue_ok cfg g" and "ids_ok g" and "calls_ok g"
  using assms by (simp add: gw_inv_def)

lemma inv_call:
  assumes "gw_inv cfg g"
  shows "gw_inv cfg (snd (gateway_call cfg tm rnd op c g))"
proof -
  let ?i = "gw_id (gw_requestCounter g + 1) tm"
  have new: "?i \<notin> set (gw_accepted g)"
    using assms gw_id_inj by (fastforce simp: gw_inv_def ids_ok_def)
  have le: "\<forall>x \<in> set (gw_accepted g). \<exists>n tm. n \<le> gw_requestCounter g + 1 \<and> x = gw_id n tm"
    using assms by (auto simp: gw_inv_def ids_ok_def) (metis le_SucI)
  from assms obtain ok: "conns_ok cfg g" "queue_ok cfg g" "ids_ok g" "calls_ok g" by (rule gw_invE)
  show ?thesis
  proof (cases "length (rq_queue (gw_queue g)) < qc_maxQueueSize (gc_queue cfg)")
    case False
    note eq = gateway_call_def generateRequestId_eq enqueue_def
    show ?thesis
    proof (rule gw_invI)
      show "ids_ok (snd (gateway_call cfg tm rnd op c g))" using ok(3) le False by (simp add: eq ids_ok_def)
    qed (use ok(1,2,4) False in \<open>simp_all add: eq conns_ok_def queue_ok_def calls_ok_def\<close>)
  next
    case True
    note eq = gateway_call_def generateRequestId_eq enqueue_def queue_ids_def
    show ?thesis
    proof (rule gw_invI)
      show "conns_ok cfg (snd (gateway_call cfg tm rnd op c g))" using ok(1) True by (simp add: eq conns_ok_def)
      show "queue_ok cfg (snd (gateway_call cfg tm rnd op c g))" using ok(2) True by (simp add: eq queue_ok_def)
      show "ids_ok (snd (gateway_call cfg tm rnd op c g))" using ok(3) True le new
        by (auto simp: eq ids_ok_def req_id_def)
      show "calls_ok (snd (gateway_call cfg tm rnd op c g))" using ok(4) True by (simp add: eq calls_ok_def req_id_def ac_simps)
    qed
  qed
qed

section \<open>The processing loop\<close>

lemma process_loop_eq:
  "0 \<le> a \<Longrightarrow> process_loop mx start rs a s =
     (let k = min (length rs) (nat (int mx - a)) in (drop k rs, a + int k, foldl (\<lambda>s r. start r s) s (take k rs)))"
proof (induction rs arbitrary: a s)
  case Nil
  show ?case by simp
next
  case (Cons r rs)
  show ?case
  proof (cases "a < int mx")
    case True
    then have "nat (int mx - a) = Suc (nat (int mx - (a + 1)))" by simp
    with True Cons.IH [of "a + 1" "start r s"] Cons.prems show ?thesis by (simp add: Let_def)
  next
    case False
    then show ?thesis by simp
  qed
qed

lemma process_loop_induct:
  assumes "P rs a s" and "\<And>r rs a s. P (r # rs) a s \<Longrightarrow> a < int mx \<Longrightarrow> P rs (a + 1) (start r s)"
  shows "case process_loop mx start rs a s of (rs', a', s') \<Rightarrow> P rs' a' s'"
  using assms by (induction mx start rs a s rule: process_loop.induct) auto

text \<open>A state whose queue holds \<open>rs\<close> and counts \<open>a\<close> active requests.\<close>

definition with_queue :: "gw_request list \<Rightarrow> int \<Rightarrow> gateway \<Rightarrow> gateway" where
  "with_queue rs a g = g\<lparr>gw_queue := \<lparr>rq_queue = rs, rq_activeRequests = a, rq_isProcessing = False\<rparr>\<rparr>"

lemma with_queue_sel [simp]:
  "gw_queue (with_queue rs a g) = \<lparr>rq_queue = rs, rq_activeRequests = a, rq_isProcessing = False\<rparr>"
  "gw_running (with_queue rs a g) = gw_running g" "gw_pool (with_queue rs a g) = gw_pool g"
  "gw_accepted (with_queue rs a g) = gw_accepted g" "gw_settled (with_queue rs a g) = gw_settled g"
  "gw_calls (with_queue rs a g) = gw_calls g" "gw_requestCounter (with_queue rs a g) = gw_requestCounter g"
  "gw_limits (with_queue rs a g) = gw_limits g" "gw_clock (with_queue rs a g) = gw_clock g"
  by (simp_all add: with_queue_def)

lemma with_queue_id: "\<not> rq_isProcessing (gw_queue g) \<Longrightarrow>
    with_queue (rq_queue (gw_queue g)) (rq_activeRequests (gw_queue g)) g = g"
  by (cases g; cases "gw_queue g") (simp add: with_queue_def)

lemma gateway_tick_eq:
  assumes "\<not> rq_isProcessing (gw_queue g)"
  shows "gateway_tick cfg tm rnds g =
    (case process_loop (qc_maxConcurrentRequests (gc_queue cfg)) (executeRequest cfg tm rnds)
       (rq_queue (gw_queue g)) (rq_activeRequests (gw_queue g)) g of (rs, a, g') \<Rightarrow> with_queue rs a g')"
proof -
  have "(gw_queue g)\<lparr>rq_queue := rs, rq_activeRequests := a, rq_isProcessing := False\<rparr>
      = \<lparr>rq_queue = rs, rq_activeRequests = a, rq_isProcessing = False\<rparr>" for rs a
    by (cases "gw_queue g") simp
  with assms show ?thesis
    by (simp add: gateway_tick_def processQueue_def with_queue_def split: prod.split)
qed

text \<open>A connection given to a request at the end of the running list.\<close>

lemma conns_ok_acquire:
  assumes "conns_ok cfg g" and "fresh_name (tm, rnd) (gw_pool g)"
    and "acquireConnection (gc_pool cfg) tm rnd (gw_pool g) = Some (c, p)"
    and "held (gw_running g') = add_mset (pc_id c) (held (gw_running g))" and "gw_pool g' = p"
  shows "conns_ok cfg g'"
proof -
  have wf: "pool_wf (gw_pool g)" using assms(1) by (simp add: conns_ok_def pc.holders_def)
  have "pc.holders (add_mset (pc_id c) (held (gw_running g))) p"
    using assms(1-3) pc.holders_acquire [of "held (gw_running g)" "gw_pool g" "(tm, rnd)" "gc_pool cfg" "pc_id c" p]
    by (simp add: conns_ok_def acquire_named_def)
  with assms(1,4,5) acquire_pool(4,5) [OF assms(3) wf] show ?thesis by (auto simp: conns_ok_def)
qed

definition tick_inv :: "gateway_config \<Rightarrow> int \<Rightarrow> (nat \<Rightarrow> string) \<Rightarrow> gw_request list \<Rightarrow> int \<Rightarrow> gateway \<Rightarrow> bool" where
  "tick_inv cfg tm rnds rs a g \<longleftrightarrow> gw_inv cfg (with_queue rs a g) \<and>
     (\<forall>k. length (gw_pool g) \<le> k \<longrightarrow> conn_name tm (rnds k) \<notin> fst ` set (gw_pool g))"

lemma tick_start:
  assumes inv: "tick_inv cfg tm rnds (r # rs) a g" and "inj rnds" and "a < int (qc_maxConcurrentRequests (gc_queue cfg))"
  shows "tick_inv cfg tm rnds rs (a + 1) (executeRequest cfg tm rnds r g)"
proof (cases "acquireConnection (gc_pool cfg) tm (rnds (length (gw_pool g))) (gw_pool g)")
  case None
  then have eq: "executeRequest cfg tm rnds r g = g\<lparr>gw_running := gw_running g @ [\<lparr>ru_request = r, ru_phase = Acquiring\<rparr>]\<rparr>"
    by (simp add: executeRequest_def)
  have "gw_inv cfg (with_queue (r # rs) a g)" using inv by (simp add: tick_inv_def)
  then have "gw_inv cfg (with_queue rs (a + 1) (executeRequest cfg tm rnds r g))"
    using assms(3) by (elim gw_invE, intro gw_invI) (simp_all add: eq conns_ok_def queue_ok_def ids_ok_def calls_ok_def queue_ids_def)
  with inv show ?thesis by (simp add: tick_inv_def eq)
next
  case (Some cp)
  obtain c p where cp: "cp = (c, p)" by fastforce
  have g: "gw_inv cfg (with_queue (r # rs) a g)" using inv by (simp add: tick_inv_def)
  then have wf: "pool_wf (gw_pool g)" by (simp add: gw_inv_def conns_ok_def pc.holders_def)
  have fresh: "fresh_name (tm, rnds (length (gw_pool g))) (gw_pool g)" using inv by (simp add: tick_inv_def fresh_name_def)
  note acq = Some [unfolded cp]
  let ?g = "executeRequest cfg tm rnds r g"
  have eq: "?g = start_call r (pc_id c) (g\<lparr>gw_pool := p\<rparr>)" using acq by (simp add: executeRequest_def)
  have "conns_ok cfg (with_queue rs (a + 1) ?g)"
    by (rule conns_ok_acquire [of cfg "with_queue (r # rs) a g" tm "rnds (length (gw_pool g))" c p])
      (use g fresh acq in \<open>simp_all add: gw_inv_def eq start_call_def\<close>)
  moreover obtain ok: "queue_ok cfg (with_queue (r # rs) a g)" "ids_ok (with_queue (r # rs) a g)" "calls_ok (with_queue (r # rs) a g)"
    using g by (rule gw_invE)
  moreover have "queue_ok cfg (with_queue rs (a + 1) ?g)"
    using ok(1) assms(3) by (simp add: queue_ok_def eq start_call_def)
  moreover have "ids_ok (with_queue rs (a + 1) ?g)"
    using ok(2) by (simp add: ids_ok_def queue_ids_def eq start_call_def)
  moreover have "calls_ok (with_queue rs (a + 1) ?g)"
    using ok(3) by (simp add: calls_ok_def queue_ids_def eq start_call_def)
  ultimately have "gw_inv cfg (with_queue rs (a + 1) ?g)" by (intro gw_invI)
  moreover have "\<forall>k. length p \<le> k \<longrightarrow> conn_name tm (rnds k) \<notin> fst ` set p"
  proof (cases "length p = length (gw_pool g)")
    case True
    with acquire_pool(7) [OF acq wf True fresh] inv show ?thesis by (simp add: tick_inv_def)
  next
    case False
    with acquire_pool(4) [OF acq wf] have "length (gw_pool g) < length p" by simp
    then have "length p \<le> k \<Longrightarrow> conn_name tm (rnds k) \<noteq> conn_name tm (rnds (length (gw_pool g)))" for k
      using assms(2) by (auto simp: conn_name_inj inj_eq)
    with acquire_pool(4,6) [OF acq wf] inv show ?thesis unfolding tick_inv_def by (meson insertE le_trans subsetD)
  qed
  ultimately show ?thesis by (simp add: tick_inv_def eq start_call_def)
qed

lemma inv_tick:
  assumes "gw_inv cfg g" and "fresh_names tm rnds (gw_pool g)"
  shows "gw_inv cfg (gateway_tick cfg tm rnds g)"
proof -
  have p: "\<not> rq_isProcessing (gw_queue g)" using assms(1) by (simp add: gw_inv_def queue_ok_def)
  have "tick_inv cfg tm rnds (rq_queue (gw_queue g)) (rq_activeRequests (gw_queue g)) g"
    using assms with_queue_id [OF p] by (simp add: tick_inv_def fresh_names_def)
  from process_loop_induct [where P = "tick_inv cfg tm rnds", OF this tick_start] assms(2)
  have "case process_loop (qc_maxConcurrentRequests (gc_queue cfg)) (executeRequest cfg tm rnds)
      (rq_queue (gw_queue g)) (rq_activeRequests (gw_queue g)) g of (rs, a, g') \<Rightarrow> tick_inv cfg tm rnds rs a g'"
    by (simp add: fresh_names_def)
  then show ?thesis by (auto simp: gateway_tick_eq [OF p] tick_inv_def split: prod.splits)
qed

section \<open>Polling, answers and timers\<close>

lemma poll_acquire: "poll_connection tm p = Some cp \<Longrightarrow> acquireConnection cfg tm rnd p = Some cp"
  by (auto simp: poll_connection_def acquireConnection_def split: option.splits)

lemma poll_fresh:
  assumes "poll_connection tm p = Some (c, p')" and "pool_wf p"
  shows "pc_id c \<notin> pool_used p" and "length p' = length p"
proof -
  from assms(1) obtain c0 where c0: "free_connection p = Some c0" "c = take_connection tm c0"
    "p' = map_set (pc_id c0) (take_connection tm c0) p"
    by (auto simp: poll_connection_def split: option.splits)
  from free_connection_SomeD [OF c0(1) assms(2)] c0 show "pc_id c \<notin> pool_used p" and "length p' = length p"
    by (simp_all add: length_map_set)
qed

lemma inv_poll:
  assumes inv: "gw_inv cfg g" and i: "i < length (gw_running g)" and ph: "ru_phase (gw_running g ! i) = Acquiring"
  shows "gw_inv cfg (gateway_poll tm i g)"
proof (cases "poll_connection tm (gw_pool g)")
  case None
  with inv show ?thesis by (simp add: gateway_poll_def)
next
  case (Some cp)
  obtain c p where cp: "cp = (c, p)" by fastforce
  from inv obtain ok: "conns_ok cfg g" "queue_ok cfg g" "ids_ok g" "calls_ok g" by (rule gw_invE)
  have wf: "pool_wf (gw_pool g)" using ok(1) by (simp add: conns_ok_def pc.holders_def)
  note poll = Some [unfolded cp]
  note acq = poll_acquire [OF poll]
  note eq = gateway_poll_def poll Let_def
  note nth = held_nth [OF i] run_ids_nth [OF i]
  have "pc.holders (add_mset (pc_id c) (held (gw_running g))) p"
    using ok(1) poll_fresh(1) [OF poll wf] acquire_pool(1,2) [OF acq wf] finite_pool_used
    by (simp add: conns_ok_def pc.holders_def)
  then have "conns_ok cfg (gateway_poll tm i g)"
    using ok(1) ph poll_fresh(2) [OF poll wf] by (simp add: eq conns_ok_def nth)
  moreover have "queue_ok cfg (gateway_poll tm i g)" using ok(2) by (simp add: eq queue_ok_def)
  moreover have "ids_ok (gateway_poll tm i g)" using ok(3) ph by (simp add: eq ids_ok_def nth)
  moreover have "calls_ok (gateway_poll tm i g)" using ok(4) ph by (simp add: eq calls_ok_def nth)
  ultimately show ?thesis by (rule gw_invI)
qed

lemma executeWithMonitoring_effect:
  "\<exists>m. snd (executeWithMonitoring cfg tm tm' i c x g) = g\<lparr>gw_limits := m\<rparr>"
  by (auto simp: executeWithMonitoring_def Let_def split: prod.splits)

lemma op_reply_effect:
  assumes "op_reply cfg tm tm' rnd conn i c op reply g = Some (out, g')"
  shows "\<exists>m. g' = g\<lparr>gw_pool := releaseConnection tm conn (gw_pool g), gw_limits := m\<rparr>"
proof -
  have rel: "\<exists>m. release tm conn g = g\<lparr>gw_pool := releaseConnection tm conn (gw_pool g), gw_limits := m\<rparr>"
    by (rule exI [of _ "gw_limits g"]) (simp add: release_def)
  have mon: "executeWithMonitoring cfg tm tm' i c x (release tm conn g) = (r, g'') \<Longrightarrow>
      \<exists>m. g'' = g\<lparr>gw_pool := releaseConnection tm conn (gw_pool g), gw_limits := m\<rparr>" for x r g''
    using executeWithMonitoring_effect [of cfg tm tm' i c x "release tm conn g"] by (auto simp: release_def)
  from assms show ?thesis
    by (cases "(cfg, tm, tm', rnd, conn, i, c, op, reply, g)" rule: op_reply.cases)
      (auto simp: getAccount_reply_def executeSettlement_reply_def getTransaction_reply_def submitTransaction_reply_def Let_def
        dest: mon intro: rel split: sum.splits prod.splits)
qed

lemma gateway_reply_cases:
  assumes "gateway_reply cfg tm tm' rnd i reply g = Some g'"
  obtains conn m out where "ru_phase (gw_running g ! i) = Calling conn"
    and "g' = g\<lparr>gw_pool := releaseConnection tm conn (gw_pool g), gw_limits := m,
      gw_running := (gw_running g)[i := (gw_running g ! i)\<lparr>ru_phase := Settled\<rparr>],
      gw_settled := gw_settled g @ [(ru_request (gw_running g ! i), out)]\<rparr>"
proof -
  from assms obtain conn out g1 where ph: "ru_phase (gw_running g ! i) = Calling conn"
    and op: "op_reply cfg tm tm' rnd conn (fst (qr_execute (ru_request (gw_running g ! i)))) (qr_clientId (ru_request (gw_running g ! i)))
      (snd (qr_execute (ru_request (gw_running g ! i)))) reply g = Some (out, g1)"
    and g': "g' = g1\<lparr>gw_running := (gw_running g1)[i := (gw_running g ! i)\<lparr>ru_phase := Settled\<rparr>],
      gw_settled := gw_settled g1 @ [(ru_request (gw_running g ! i), out)]\<rparr>"
    by (auto simp: gateway_reply_def Let_def split: phase.splits option.splits)
  from op_reply_effect [OF op] obtain m where "g1 = g\<lparr>gw_pool := releaseConnection tm conn (gw_pool g), gw_limits := m\<rparr>" by blast
  with ph g' show ?thesis by (intro that [OF ph, of out m]) simp_all
qed

lemma inv_reply:
  assumes inv: "gw_inv cfg g" and i: "i < length (gw_running g)" and r: "gateway_reply cfg tm tm' rnd i reply g = Some g'"
  shows "gw_inv cfg g'"
  using r
proof (cases rule: gateway_reply_cases)
  case (1 conn m out)
  from inv obtain ok: "conns_ok cfg g" "queue_ok cfg g" "ids_ok g" "calls_ok g" by (rule gw_invE)
  have wf: "pool_wf (gw_pool g)" using ok(1) by (simp add: conns_ok_def pc.holders_def)
  note nth = held_nth [OF i] run_ids_nth [OF i]
  have "conns_ok cfg g'"
    using ok(1) 1 pc.holders_give_back [of conn _ "gw_pool g"] by (simp add: conns_ok_def nth releaseConnection_pool [OF wf])
  moreover have "queue_ok cfg g'" using ok(2) 1 by (simp add: queue_ok_def)
  moreover have "ids_ok g'" using ok(3) 1 by (simp add: ids_ok_def nth)
  moreover have "calls_ok g'" using ok(4) 1 by (simp add: calls_ok_def nth)
  ultimately show ?thesis by (rule gw_invI)
qed

lemma inv_finally:
  assumes inv: "gw_inv cfg g" and i: "i < length (gw_running g)" and ph: "ru_phase (gw_running g ! i) = Settled"
  shows "gw_inv cfg (gateway_finally i g)"
proof -
  from inv obtain ok: "conns_ok cfg g" "queue_ok cfg g" "ids_ok g" "calls_ok g" by (rule gw_invE)
  note nth = held_nth(1) [OF i] run_ids_nth(1) [OF i]
  have "conns_ok cfg (gateway_finally i g)" using ok(1) ph by (simp add: gateway_finally_def conns_ok_def nth)
  moreover have "queue_ok cfg (gateway_finally i g)" using ok(2) i by (auto simp: gateway_finally_def queue_ok_def)
  moreover have "ids_ok (gateway_finally i g)" using ok(3) ph by (simp add: gateway_finally_def ids_ok_def nth queue_ids_def)
  moreover have "calls_ok (gateway_finally i g)" using ok(4) ph by (simp add: gateway_finally_def calls_ok_def nth queue_ids_def)
  ultimately show ?thesis by (rule gw_invI)
qed

lemma inv_clear: "gw_inv cfg g \<Longrightarrow> gw_inv cfg (gateway_clear g)"
proof -
  assume "gw_inv cfg g"
  then obtain ok: "conns_ok cfg g" "queue_ok cfg g" "ids_ok g" "calls_ok g" by (rule gw_invE)
  note eq = gateway_clear_def clearQueue_def queue_ids_def
  have "conns_ok cfg (gateway_clear g)" using ok(1) by (simp add: eq conns_ok_def)
  moreover have "queue_ok cfg (gateway_clear g)" using ok(2) by (simp add: eq queue_ok_def)
  moreover have "ids_ok (gateway_clear g)" using ok(3) by (simp add: eq ids_ok_def multiset.map_comp comp_def ac_simps)
  moreover have "calls_ok (gateway_clear g)" using ok(4) by (simp add: eq calls_ok_def)
      (metis (no_types, lifting) add.assoc add.commute mset_subset_eq_add_left subset_mset.order_trans)
  ultimately show ?thesis by (rule gw_invI)
qed

lemma gw_inv_cong:
  "gw_inv cfg (g\<lparr>gw_clock := tm\<rparr>) = gw_inv cfg g" "gw_inv cfg (g\<lparr>gw_limits := m\<rparr>) = gw_inv cfg g"
  by (simp_all add: gw_inv_def conns_ok_def queue_ok_def ids_ok_def calls_ok_def)

lemma inv_cleanup_pool:
  "gw_inv cfg g \<Longrightarrow> gw_inv cfg (g\<lparr>gw_pool := cleanupIdleConnections (gc_pool cfg) tm (gw_pool g)\<rparr>)"
  using cleanup_pool [of "gw_pool g" "gc_pool cfg" tm]
  by (auto simp: gw_inv_def conns_ok_def pc.holders_def queue_ok_def ids_ok_def calls_ok_def)

lemma gw_step_inv: "gw_step cfg g g' \<Longrightarrow> gw_inv cfg g \<Longrightarrow> gw_inv cfg g'"
  by (induction rule: gw_step.induct)
    (auto intro: inv_call inv_tick inv_poll inv_reply inv_finally inv_clear inv_cleanup_pool simp: gw_inv_cong)

lemma gateway_init_inv: "inj rnds \<Longrightarrow> gw_inv cfg (gateway_init cfg tm rnds)"
  using initializePool_ok [of rnds "gc_pool cfg" tm]
  by (simp add: gateway_init_def gw_inv_def conns_ok_def pc.holders_def queue_ok_def ids_ok_def calls_ok_def queue_ids_def)

lemma gw_reachable_inv: "gw_reachable cfg g \<Longrightarrow> gw_inv cfg g"
  by (induction rule: gw_reachable.induct) (auto intro: gw_step_inv gateway_init_inv)

lemma held_member: "ru \<in> set rs \<Longrightarrow> held_by ru \<subseteq># held rs"
  by (induction rs) (auto simp: held_def intro: subset_mset.order_trans)

lemma held_exclusive:
  assumes "\<And>k. count (held rs) k \<le> 1" and "i < j" and "j < length rs"
    and "ru_phase (rs ! i) = Calling c" and "ru_phase (rs ! j) = Calling d"
  shows "c \<noteq> d"
proof
  assume "c = d"
  have "rs ! j = drop (Suc i) rs ! (j - Suc i)" using assms(2,3) by simp
  moreover have "j - Suc i < length (drop (Suc i) rs)" using assms(2,3) by simp
  ultimately have "rs ! j \<in> set (drop (Suc i) rs)" by (metis nth_mem)
  then have "held_by (rs ! j) \<subseteq># held (take i rs @ drop (Suc i) rs)" by (intro held_member) simp
  with assms(5) have "c \<in># held (take i rs @ drop (Suc i) rs)" using \<open>c = d\<close> by simp
  then have "2 \<le> count (held rs) c" using assms(2-4) held_nth(1) [of i rs] by simp
  with assms(1) [of c] show False by simp
qed

lemma held_iff: "c \<in># held rs \<longleftrightarrow> (\<exists>ru \<in> set rs. ru_phase ru = Calling c)"
proof -
  have "c \<in># held_by ru \<longleftrightarrow> ru_phase ru = Calling c" for ru by (cases "ru_phase ru") auto
  then show ?thesis by (auto simp: held_def simp del: held_by.simps)
qed

end
