(* ===== verification/Gateway_Props.thy ===== *)
theory Gateway_Props
  imports Gateway_Inv
begin

text \<open>
  Properties of the Stellar gateway: the bounds and the exclusive use of connections in every reachable
  state, that every accepted request is settled at most once and reaches the network at most once,
  that the default sizes never make a request wait for a connection, and what the rate limiter
  guarantees and does not guarantee.
\<close>

section \<open>A gateway with the default configuration\<close>

definition default_gateway :: gateway_config where
  "default_gateway = \<lparr>gc_limits = rateLimiter_config None None None,
     gc_pool = connectionPool_config ''https://horizon-testnet.stellar.org'' None None None None,
     gc_queue = requestQueue_config None None None,
     gc_networkPassphrase = ''Test SDF Network ; September 2015'', gc_network = None,
     gc_build = (\<lambda>_ _ _ _ _. Inr ())\<rparr>"

lemmas default_config_simps = default_gateway_def rateLimiter_config_def connectionPool_config_def requestQueue_config_def

text \<open>Two submissions of different clients are in flight.\<close>

definition demo_names :: "nat \<Rightarrow> string" where
  "demo_names k = replicate k (CHR ''x'')"

definition demo_start :: gateway where
  "demo_start = (gateway_init default_gateway 0 demo_names)\<lparr>gw_clock := 1000\<rparr>"

definition demo_called :: gateway where
  "demo_called = snd (gateway_call default_gateway 1000 ''b'' (SubmitTransaction ''BBBB'') ''app''
     (snd (gateway_call default_gateway 1000 ''a'' (SubmitTransaction ''AAAA'') ''web'' demo_start)))"

definition demo_running :: gateway where
  "demo_running = gateway_tick default_gateway 1000 demo_names demo_called"

lemma inj_demo_names: "inj demo_names"
  unfolding demo_names_def by (metis injI length_replicate)

lemma demo_pool: "gw_pool demo_called = gw_pool (gateway_init default_gateway 0 demo_names)" "gw_clock demo_called = 1000"
  "\<forall>x \<in> fst ` set (gw_pool (gateway_init default_gateway 0 demo_names)). take 14 x = ''stellar-conn-0''"
  by code_simp+

lemma demo_running_reachable: "gw_reachable default_gateway demo_running"
proof -
  have start: "gw_reachable default_gateway (gateway_init default_gateway 0 demo_names)"
    by (rule gw_start [OF inj_demo_names])
  have c: "gw_clock (gateway_init default_gateway 0 demo_names) \<le> 1000" by (simp add: gateway_init_def)
  have "gw_reachable default_gateway demo_start"
    unfolding demo_start_def by (rule gw_next [OF start step_time [OF c]])
  from gw_next [OF gw_next [OF this step_call [of _ _ "''a''" "SubmitTransaction ''AAAA''" "''web''"]]
      step_call [of _ _ "''b''" "SubmitTransaction ''BBBB''" "''app''"]]
  have called: "gw_reachable default_gateway demo_called"
    by (simp add: demo_called_def demo_start_def gateway_call_def generateRequestId_eq split: sum.splits)
  have "fresh_names 1000 demo_names (gw_pool demo_called)"
    unfolding fresh_names_def
  proof (intro conjI allI inj_demo_names notI)
    fix k
    assume "conn_name 1000 (demo_names k) \<in> fst ` set (gw_pool demo_called)"
    with demo_pool have "take 14 (conn_name 1000 (demo_names k)) = ''stellar-conn-0''" by metis
    moreover have "int_to_string 1000 = ''1000''" by code_simp
    ultimately show False by (simp add: conn_name_def)
  qed
  with gw_next [OF called step_tick [of demo_called demo_names]] show ?thesis
    by (simp add: demo_running_def demo_pool)
qed

lemma distinct_submset: "distinct ys \<Longrightarrow> mset xs \<subseteq># mset ys \<Longrightarrow> distinct xs"
  by (metis distinct_count_atmost_1 count_mset_0_iff le_antisym le_zero_eq less_one linorder_not_le
      mset_subset_eq_count set_mset_mset)

section \<open>The invariant, spelled out\<close>

text \<open>
  C5. In every reachable state of the gateway the queue holds at most \<^verbatim>\<open>maxQueueSize\<close> requests;
  \<^verbatim>\<open>activeRequests\<close> is the number of requests in flight, at most
  \<^verbatim>\<open>maxConcurrentRequests\<close>; the pool has between \<^verbatim>\<open>minConnections\<close> and
  \<^verbatim>\<open>maxConnections\<close> connections (the minimum, when it is configured above the maximum); two requests
  in flight never hold the same connection, and a connection of the pool is marked in use exactly
  while a request holds it: no connection leaks and the clean-up never removes one that is held.
\<close>

theorem gateway_invariant:
  assumes "gw_reachable cfg g"
  shows "length (rq_queue (gw_queue g)) \<le> qc_maxQueueSize (gc_queue cfg) \<and>
    rq_activeRequests (gw_queue g) = int (length (gw_running g)) \<and>
    rq_activeRequests (gw_queue g) \<le> int (qc_maxConcurrentRequests (gc_queue cfg)) \<and>
    po_minConnections (gc_pool cfg) \<le> length (gw_pool g) \<and>
    length (gw_pool g) \<le> max (po_minConnections (gc_pool cfg)) (po_maxConnections (gc_pool cfg)) \<and>
    (\<forall>i j c d. i < j \<and> j < length (gw_running g) \<and> ru_phase (gw_running g ! i) = Calling c \<and>
       ru_phase (gw_running g ! j) = Calling d \<longrightarrow> c \<noteq> d) \<and>
    (\<forall>c. (\<exists>x. (c, x) \<in> set (gw_pool g) \<and> pc_inUse x) \<longleftrightarrow> (\<exists>ru \<in> set (gw_running g). ru_phase ru = Calling c))"
proof -
  have conns: "conns_ok cfg g" and queue: "queue_ok cfg g" using gw_reachable_inv [OF assms] by (simp_all add: gw_inv_def)
  then have h: "pc.holders (held (gw_running g)) (gw_pool g)" by (simp add: conns_ok_def)
  have "c \<noteq> d" if "i < j" "j < length (gw_running g)" "ru_phase (gw_running g ! i) = Calling c"
      "ru_phase (gw_running g ! j) = Calling d" for i j c d
    by (rule held_exclusive [OF pc.holders_exclusive [OF h] that])
  moreover have "(\<exists>x. (c, x) \<in> set (gw_pool g) \<and> pc_inUse x) \<longleftrightarrow> (\<exists>ru \<in> set (gw_running g). ru_phase ru = Calling c)" for c
  proof -
    have "(\<exists>x. (c, x) \<in> set (gw_pool g) \<and> pc_inUse x) \<longleftrightarrow> c \<in> pool_used (gw_pool g)"
      using h by (auto simp: pool_used_def pc.holders_def pool_wf_def dest: map_of_SomeD)
    then show ?thesis using pc.holders_set [OF h] by (simp flip: held_iff)
  qed
  ultimately show ?thesis using conns queue by (auto simp: conns_ok_def queue_ok_def)
qed

theorem gateway_invariant_witness:
  "gw_reachable default_gateway demo_running \<and> length (gw_running demo_running) = 2 \<and>
   length (rq_queue (gw_queue demo_running)) \<le> 100 \<and> rq_activeRequests (gw_queue demo_running) = 2 \<and>
   2 \<le> length (gw_pool demo_running) \<and> length (gw_pool demo_running) \<le> 10 \<and>
   ru_phase (gw_running demo_running ! 0) \<noteq> ru_phase (gw_running demo_running ! 1)"
proof -
  have two: "length (gw_running demo_running) = 2" by code_simp
  have ph: "\<exists>c. ru_phase (gw_running demo_running ! 0) = Calling c" "\<exists>d. ru_phase (gw_running demo_running ! 1) = Calling d"
    by (rule exI [of _ "''stellar-conn-0-''"], code_simp, rule exI [of _ "''stellar-conn-0-x''"], code_simp)
  note inv = gateway_invariant [OF demo_running_reachable]
  obtain c d where cd: "ru_phase (gw_running demo_running ! 0) = Calling c" "ru_phase (gw_running demo_running ! 1) = Calling d"
    using ph by blast
  have "\<forall>i j c d. i < j \<and> j < length (gw_running demo_running) \<and> ru_phase (gw_running demo_running ! i) = Calling c \<and>
       ru_phase (gw_running demo_running ! j) = Calling d \<longrightarrow> c \<noteq> d" using inv by (elim conjE)
  from this [rule_format, of 0 1 c d] cd two have "c \<noteq> d" by simp
  then have "ru_phase (gw_running demo_running ! 0) \<noteq> ru_phase (gw_running demo_running ! 1)" using cd by simp
  with inv two show ?thesis using demo_running_reachable by (simp add: default_config_simps)
qed

text \<open>
  C22. Request identifiers are unique; the promise of an accepted request is settled at most once and its
  call reaches the Stellar network at most once; and when the queue is empty and nothing is in flight,
  every accepted request has been settled.
\<close>

theorem requests_settle_once:
  assumes "gw_reachable cfg g"
  shows "distinct (gw_accepted g) \<and>
    distinct (map (\<lambda>x. fst (qr_execute (fst x))) (gw_settled g)) \<and>
    distinct (map (\<lambda>x. fst (qr_execute (fst x))) (gw_calls g)) \<and>
    set (map (\<lambda>x. fst (qr_execute (fst x))) (gw_settled g)) \<subseteq> set (gw_accepted g) \<and>
    (rq_queue (gw_queue g) = [] \<and> gw_running g = [] \<longrightarrow>
      set (map (\<lambda>x. fst (qr_execute (fst x))) (gw_settled g)) = set (gw_accepted g))"
proof -
  have ids: "ids_ok g" and calls: "calls_ok g" using gw_reachable_inv [OF assms] by (simp_all add: gw_inv_def)
  have acc: "distinct (gw_accepted g)" using ids by (simp add: ids_ok_def)
  have settled: "mset (map (\<lambda>x. fst (qr_execute (fst x))) (gw_settled g)) \<subseteq># mset (gw_accepted g)"
    using ids by (simp add: ids_ok_def req_id_def)
  have called: "mset (map (\<lambda>x. fst (qr_execute (fst x))) (gw_calls g)) \<subseteq># mset (gw_accepted g)"
    using calls by (simp add: calls_ok_def req_id_def)
      (metis (no_types, lifting) add.assoc mset_subset_eq_add_left subset_mset.order_trans)
  have "set (map (\<lambda>x. fst (qr_execute (fst x))) (gw_settled g)) = set (gw_accepted g)"
    if "rq_queue (gw_queue g) = []" and "gw_running g = []"
  proof -
    from that ids have "mset (gw_accepted g) = mset (map (\<lambda>x. fst (qr_execute (fst x))) (gw_settled g))"
      by (simp add: ids_ok_def queue_ids_def req_id_def)
    then show ?thesis by (metis set_mset_mset)
  qed
  with acc distinct_submset [OF acc settled] distinct_submset [OF acc called] set_mset_mono [OF settled]
  show ?thesis by simp
qed

theorem requests_settle_once_witness:
  "gw_reachable default_gateway demo_running \<and> length (gw_calls demo_running) = 2 \<and>
   distinct (map (\<lambda>x. fst (qr_execute (fst x))) (gw_calls demo_running))"
proof -
  have "length (gw_calls demo_running) = 2" by code_simp
  then show ?thesis using requests_settle_once [OF demo_running_reachable] demo_running_reachable by simp
qed

section \<open>No request waits for a connection\<close>

definition none_waiting :: "gateway \<Rightarrow> bool" where
  "none_waiting g \<longleftrightarrow> (\<forall>ru \<in> set (gw_running g). ru_phase ru \<noteq> Acquiring)"

lemma size_held_le: "size (held rs) \<le> length rs"
proof (induction rs)
  case (Cons ru rs)
  then show ?case by (cases "ru_phase ru") (simp_all add: held_def)
qed (simp add: held_def)

lemma acquire_succeeds:
  assumes "conns_ok cfg g" and "length (gw_running g) < po_maxConnections (gc_pool cfg)"
  shows "acquireConnection (gc_pool cfg) tm rnd (gw_pool g) \<noteq> None"
proof
  assume none: "acquireConnection (gc_pool cfg) tm rnd (gw_pool g) = None"
  have h: "pool_wf (gw_pool g)" "held (gw_running g) = mset_set (pool_used (gw_pool g))"
    using assms(1) by (simp_all add: conns_ok_def pc.holders_def)
  have full: "free_connection (gw_pool g) = None" "po_maxConnections (gc_pool cfg) \<le> length (gw_pool g)"
    using none by (auto simp: acquireConnection_def createConnection_eq Let_def split: option.splits if_splits)
  have "card (pool_used (gw_pool g)) = length (gw_pool g)"
    using free_connection_NoneD [OF full(1) h(1)] h(1) distinct_card [of "map fst (gw_pool g)"] by (simp add: pool_wf_def)
  then have "size (held (gw_running g)) = length (gw_pool g)" by (simp add: h(2))
  with size_held_le [of "gw_running g"] assms(2) full(2) show False by simp
qed

lemma tick_none_waiting:
  assumes "gw_inv cfg g" and "fresh_names tm rnds (gw_pool g)" and "none_waiting g"
    and conf: "qc_maxConcurrentRequests (gc_queue cfg) \<le> po_maxConnections (gc_pool cfg)"
  shows "none_waiting (gateway_tick cfg tm rnds g)"
proof -
  have p: "\<not> rq_isProcessing (gw_queue g)" using assms(1) by (simp add: gw_inv_def queue_ok_def)
  let ?P = "\<lambda>rs a g. tick_inv cfg tm rnds rs a g \<and> none_waiting g"
  have "?P (rq_queue (gw_queue g)) (rq_activeRequests (gw_queue g)) g"
    using assms with_queue_id [OF p] by (simp add: tick_inv_def fresh_names_def)
  moreover have "?P rs (a + 1) (executeRequest cfg tm rnds r g)"
    if "?P (r # rs) a g" and "a < int (qc_maxConcurrentRequests (gc_queue cfg))" for r rs a g
  proof -
    have inv: "gw_inv cfg (with_queue (r # rs) a g)" using that(1) by (simp add: tick_inv_def)
    then have "length (gw_running g) < po_maxConnections (gc_pool cfg)" "conns_ok cfg g"
      using that(2) conf by (simp_all add: gw_inv_def queue_ok_def conns_ok_def)
    then obtain c p where "acquireConnection (gc_pool cfg) tm (rnds (length (gw_pool g))) (gw_pool g) = Some (c, p)"
      using acquire_succeeds by fast
    with that(1) have "none_waiting (executeRequest cfg tm rnds r g)"
      by (auto simp: executeRequest_def start_call_def none_waiting_def)
    moreover have "tick_inv cfg tm rnds rs (a + 1) (executeRequest cfg tm rnds r g)"
      using that assms(2) by (intro tick_start) (simp_all add: fresh_names_def)
    ultimately show ?thesis by simp
  qed
  ultimately have "case process_loop (qc_maxConcurrentRequests (gc_queue cfg)) (executeRequest cfg tm rnds)
      (rq_queue (gw_queue g)) (rq_activeRequests (gw_queue g)) g of (rs, a, g') \<Rightarrow> ?P rs a g'"
    by (rule process_loop_induct)
  then show ?thesis by (auto simp: gateway_tick_eq [OF p] none_waiting_def split: prod.splits)
qed

lemma step_none_waiting:
  assumes "gw_step cfg g g'" and "gw_inv cfg g" and "none_waiting g"
    and "qc_maxConcurrentRequests (gc_queue cfg) \<le> po_maxConnections (gc_pool cfg)"
  shows "none_waiting g'"
  using assms
proof (induction rule: gw_step.induct)
  case (step_call g rnd op c)
  then show ?case by (simp add: gateway_call_def generateRequestId_eq none_waiting_def split: sum.splits)
next
  case (step_tick g rnds)
  then show ?case by (intro tick_none_waiting)
next
  case (step_poll i g)
  then show ?case by (simp add: none_waiting_def)
next
  case (step_reply i g tm' rnd reply g')
  from step_reply(3) show ?case
  proof (cases rule: gateway_reply_cases)
    case 1
    with step_reply.prems(2) show ?thesis by (auto simp: none_waiting_def dest: set_update_subset_insert [THEN subsetD])
  qed
next
  case (step_finally i g)
  then show ?case by (auto simp: none_waiting_def gateway_finally_def dest: in_set_takeD in_set_dropD)
qed (simp_all add: none_waiting_def gateway_clear_def clearQueue_def)

text \<open>
  When at most as many requests run concurrently as the pool may have connections, which the
  defaults 5 and 10 satisfy, no request ever waits for a connection: the polling branch of
  \<^verbatim>\<open>acquireConnection\<close> is not reached.
\<close>

theorem no_request_waits:
  assumes "gw_reachable cfg g" and "qc_maxConcurrentRequests (gc_queue cfg) \<le> po_maxConnections (gc_pool cfg)"
  shows "\<forall>ru \<in> set (gw_running g). ru_phase ru \<noteq> Acquiring"
proof -
  from assms have "none_waiting g"
  proof (induction rule: gw_reachable.induct)
    case (gw_next g g')
    then show ?case using step_none_waiting gw_reachable_inv by blast
  qed (simp add: none_waiting_def gateway_init_def)
  then show ?thesis by (simp add: none_waiting_def)
qed

theorem no_request_waits_witness:
  "gw_reachable default_gateway demo_running \<and> length (gw_running demo_running) = 2 \<and>
   Acquiring \<notin> ru_phase ` set (gw_running demo_running)"
proof -
  have "length (gw_running demo_running) = 2" by code_simp
  then show ?thesis using no_request_waits [OF demo_running_reachable] demo_running_reachable
    by (auto simp: default_config_simps)
qed

section \<open>The fixed window\<close>

datatype limiter_event = Check int string | Sweep int

fun event_time :: "limiter_event \<Rightarrow> int" where
  "event_time (Check tm c) = tm"
| "event_time (Sweep tm) = tm"

fun admitted :: "rate_limit_config \<Rightarrow> string \<Rightarrow> client_limits \<Rightarrow> limiter_event list \<Rightarrow> int list" where
  "admitted cfg c m [] = []"
| "admitted cfg c m (Check tm d # es) = (case checkRateLimit cfg tm d m of (r, m') \<Rightarrow>
     (if d = c \<and> is_ok r then [tm] else []) @ admitted cfg c m' es)"
| "admitted cfg c m (Sweep tm # es) = admitted cfg c (cleanupOldWindows tm m) es"

definition in_minute :: "int \<Rightarrow> int list \<Rightarrow> int" where
  "in_minute x ts = int (length (filter (\<lambda>t. x \<le> t \<and> t \<le> x + 60000) ts))"

text \<open>
  The admissions \<open>A\<close> of a client: those of the current window \<open>W\<close>, which started at \<open>w\<close>, and the
  earlier ones \<open>B\<close>; what the limiter's map says about the current window.
\<close>

definition window_split :: "int \<Rightarrow> int list \<Rightarrow> int \<Rightarrow> int list \<Rightarrow> int list \<Rightarrow> bool" where
  "window_split N A w B W \<longleftrightarrow> A = B @ W \<and> int (length W) \<le> N \<and> (\<forall>t \<in> set W. w \<le> t) \<and> (W \<noteq> [] \<longrightarrow> hd W = w) \<and>
     (\<forall>t \<in> set B. t \<le> w) \<and> (\<forall>x. in_minute x B \<le> 2 * N - 1) \<and> int (length (filter (\<lambda>t. w - 60000 \<le> t) B)) \<le> N - 1"

definition window_entry :: "client_rate_limit option \<Rightarrow> int \<Rightarrow> int list \<Rightarrow> int \<Rightarrow> int list \<Rightarrow> bool" where
  "window_entry e tm A w W \<longleftrightarrow> (case e of None \<Rightarrow> A = [] \<or> w + 60000 < tm
     | Some l \<Rightarrow> cl_windowStart l = w \<and> cl_requests l = int (length W) \<and> w \<le> tm \<and> W \<noteq> [])"

definition windows_ok :: "int \<Rightarrow> string \<Rightarrow> client_limits \<Rightarrow> int \<Rightarrow> int list \<Rightarrow> bool" where
  "windows_ok N c m tm A \<longleftrightarrow> distinct (map fst m) \<and> (\<forall>t \<in> set A. t \<le> tm) \<and>
     (\<exists>w B W. window_split N A w B W \<and> window_entry (map_of m c) tm A w W)"

lemma in_minute_append: "in_minute x (A @ B) = in_minute x A + in_minute x B"
  by (simp add: in_minute_def)

lemma in_minute_le: "in_minute x A \<le> int (length A)"
  by (simp add: in_minute_def)

lemma windows_ok_minute:
  assumes "windows_ok N c m tm A"
  shows "in_minute x A \<le> 2 * N - 1"
proof -
  from assms obtain w B W where A: "A = B @ W" and W: "int (length W) \<le> N" "\<forall>t \<in> set W. w \<le> t"
    and B: "in_minute x B \<le> 2 * N - 1" "int (length (filter (\<lambda>t. w - 60000 \<le> t) B)) \<le> N - 1"
    unfolding windows_ok_def window_split_def by blast
  show ?thesis
  proof (cases "in_minute x W = 0")
    case True
    with A B show ?thesis by (simp add: in_minute_append)
  next
    case False
    then obtain t where "t \<in> set W" "t \<le> x + 60000" by (auto simp: in_minute_def filter_empty_conv)
    with W(2) have "w - 60000 \<le> x" by force
    then have "length (filter (\<lambda>t. x \<le> t \<and> t \<le> x + 60000) B) \<le> length (filter (\<lambda>t. w - 60000 \<le> t) B)"
      by (induction B) auto
    with B(2) have "in_minute x B \<le> N - 1" by (simp add: in_minute_def)
    with A W(1) in_minute_le [of x W] show ?thesis by (simp add: in_minute_append)
  qed
qed

lemma cleanup_windows_loop:
  "foldl (\<lambda>m' (c, l). if window_expired tm l then map_delete c m' else m') m es =
     filter (\<lambda>x. \<not> (\<exists>l. (fst x, l) \<in> set es \<and> window_expired tm l)) m"
proof (induction es arbitrary: m)
  case (Cons e es)
  obtain c l where e: "e = (c, l)" by fastforce
  show ?case
  proof (cases "window_expired tm l")
    case True
    with e show ?thesis by (simp add: Cons.IH map_delete_filter) (rule filter_cong; auto)
  next
    case False
    with e show ?thesis by (simp add: Cons.IH) (rule filter_cong; auto)
  qed
qed simp

lemma map_of_filter_keys: "map_of (filter (\<lambda>x. P (fst x)) m) c = (if P c then map_of m c else None)"
  by (induction m) auto

lemma cleanupOldWindows_map_of:
  assumes "distinct (map fst m)"
  shows "map_of (cleanupOldWindows tm m) c = (case map_of m c of None \<Rightarrow> None
    | Some l \<Rightarrow> if window_expired tm l then None else Some l)"
proof -
  have "(\<exists>l. (c, l) \<in> set m \<and> window_expired tm l) \<longleftrightarrow> (\<exists>l. map_of m c = Some l \<and> window_expired tm l)"
    using assms by (metis map_of_SomeD map_of_is_SomeI)
  then show ?thesis
    using map_of_filter_keys [of "\<lambda>k. \<not> (\<exists>l. (k, l) \<in> set m \<and> window_expired tm l)" m c]
    by (simp add: cleanupOldWindows_def cleanup_windows_loop split: option.splits)
qed

lemma cleanupOldWindows_distinct: "distinct (map fst m) \<Longrightarrow> distinct (map fst (cleanupOldWindows tm m))"
  by (simp add: cleanupOldWindows_def cleanup_windows_loop distinct_map_filter)

lemma windows_ok_sweep:
  assumes "windows_ok N c m tm A" and "tm \<le> tm'"
  shows "windows_ok N c (cleanupOldWindows tm' m) tm' A"
proof -
  from assms obtain w B W where d: "distinct (map fst m)" "\<forall>t \<in> set A. t \<le> tm"
    and s: "window_split N A w B W" and e: "window_entry (map_of m c) tm A w W"
    unfolding windows_ok_def by blast
  have "window_entry (map_of (cleanupOldWindows tm' m) c) tm' A w W"
    using e assms(2) by (auto simp: cleanupOldWindows_map_of [OF d(1)] window_entry_def window_expired_def split: option.splits)
  with s d assms(2) cleanupOldWindows_distinct [OF d(1)] show ?thesis unfolding windows_ok_def by fastforce
qed

lemma window_split_new:
  assumes s: "window_split N A w B W" and "A = [] \<or> w + 60000 < tm" and "\<forall>t \<in> set A. t \<le> tm"
    and "\<And>x. in_minute x A \<le> 2 * N - 1" and "1 \<le> N"
  shows "window_split N (A @ [tm]) tm A [tm]"
proof -
  have "int (length (filter (\<lambda>t. tm - 60000 \<le> t) A)) \<le> N - 1"
  proof (cases "A = []")
    case False
    with assms(2) have w: "w < tm - 60000" by simp
    then have B: "filter (\<lambda>t. tm - 60000 \<le> t) B = []" using s by (fastforce simp: window_split_def filter_empty_conv)
    show ?thesis
    proof (cases W)
      case Nil
      with B s assms(5) show ?thesis by (simp add: window_split_def)
    next
      case (Cons t W')
      with s w have "filter (\<lambda>t. tm - 60000 \<le> t) W = filter (\<lambda>t. tm - 60000 \<le> t) W'" by (simp add: window_split_def)
      moreover have "length (filter (\<lambda>t. tm - 60000 \<le> t) W') \<le> length W'" by simp
      moreover have "int (length W') \<le> N - 1" using s Cons by (simp add: window_split_def)
      ultimately show ?thesis using B s by (simp add: window_split_def del: length_filter_le)
    qed
  qed (use assms(5) in simp)
  with assms show ?thesis by (simp add: window_split_def)
qed

lemma window_split_same:
  assumes "window_split N A w B W" and "int (length W) < N" and "w \<le> tm" and "W \<noteq> []"
  shows "window_split N (A @ [tm]) w B (W @ [tm])"
  using assms by (auto simp: window_split_def)

lemma windows_ok_check:
  assumes ok: "windows_ok N c m tm A" and le: "tm \<le> tm'" and cfg: "rl_enabled cfg" "rl_requestsPerMinute cfg = N" "1 \<le> N"
    and chk: "checkRateLimit cfg tm' d m = (r, m')"
  shows "windows_ok N c m' tm' (A @ (if d = c \<and> is_ok r then [tm'] else []))"
proof -
  from ok obtain w B W where d: "distinct (map fst m)" "\<forall>t \<in> set A. t \<le> tm"
    and s: "window_split N A w B W" and e: "window_entry (map_of m c) tm A w W"
    unfolding windows_ok_def by blast
  have le': "\<forall>t \<in> set A. t \<le> tm'" using d(2) le by force
  have e': "window_entry (map_of m c) tm' A w W" using e le by (auto simp: window_entry_def split: option.splits)
  show ?thesis
  proof (cases "is_ok r")
    case False
    then have "m' = m" using chk cfg(1) by (auto simp: checkRateLimit_def Let_def split: if_splits)
    with False d s e' le' show ?thesis unfolding windows_ok_def by auto
  next
    case True
    let ?l = "current_window tm' d m"
    have lim: "cl_requests ?l < N" and m': "m' = map_set d (?l\<lparr>cl_requests := cl_requests ?l + 1\<rparr>) m"
      using True chk cfg by (auto simp: checkRateLimit_def Let_def split: if_splits)
    have d': "distinct (map fst m')" by (simp add: m' distinct_map_set d(1))
    show ?thesis
    proof (cases "d = c")
      case False
      with d' s e' le' m' show ?thesis unfolding windows_ok_def by auto
    next
      case c: True
      show ?thesis
      proof (cases "\<exists>l. map_of m c = Some l \<and> \<not> window_expired tm' l")
        case same: True
        then obtain l where l: "map_of m c = Some l" "?l = l" using c by (auto simp: current_window_def)
        with e' have w: "cl_windowStart l = w" "cl_requests l = int (length W)" "w \<le> tm'" "W \<noteq> []" by (simp_all add: window_entry_def)
        have "window_split N (A @ [tm']) w B (W @ [tm'])" using s lim w l by (intro window_split_same) simp_all
        moreover have "window_entry (map_of m' c) tm' (A @ [tm']) w (W @ [tm'])"
          using c l w m' by (simp add: window_entry_def)
        ultimately show ?thesis using d' le' True c unfolding windows_ok_def by auto
      next
        case new: False
        then have l: "?l = \<lparr>cl_requests = 0, cl_windowStart = tm'\<rparr>" using c by (auto simp: current_window_def split: option.splits)
        have "A = [] \<or> w + 60000 < tm'"
          using e' new by (auto simp: window_entry_def window_expired_def split: option.splits)
        from window_split_new [OF s this le' windows_ok_minute [OF ok]] lim l have "window_split N (A @ [tm']) tm' A [tm']" by simp
        moreover have "window_entry (map_of m' c) tm' (A @ [tm']) tm' [tm']" using c l m' by (simp add: window_entry_def)
        ultimately show ?thesis using d' le' True c unfolding windows_ok_def by auto
      qed
    qed
  qed
qed

lemma admitted_windows:
  assumes "windows_ok N c m tm A" and "sorted (tm # map event_time es)"
    and "rl_enabled cfg" "rl_requestsPerMinute cfg = N" "1 \<le> N"
  shows "\<exists>m' tm'. windows_ok N c m' tm' (A @ admitted cfg c m es)"
  using assms(1,2)
proof (induction es arbitrary: m tm A)
  case Nil
  then show ?case by auto
next
  case (Cons e es)
  show ?case
  proof (cases e)
    case (Check tm' d)
    obtain r m' where chk: "checkRateLimit cfg tm' d m = (r, m')" by fastforce
    have "tm \<le> tm'" using Cons.prems(2) Check by simp
    note ok = windows_ok_check [OF Cons.prems(1) this assms(3-5) chk]
    from Cons.IH [OF ok] Cons.prems(2) Check chk show ?thesis by (simp del: append_assoc add: append_assoc [symmetric])
  next
    case (Sweep tm')
    have "tm \<le> tm'" using Cons.prems(2) Sweep by simp
    from Cons.IH [OF windows_ok_sweep [OF Cons.prems(1) this]] Cons.prems(2) Sweep show ?thesis by simp
  qed
qed

text \<open>
  C26. What the limiter guarantees: with a limit of \<open>N\<close> requests per minute, over any sequence of checks of
  any clients and sweeps at non-decreasing times, at most \<open>2N - 1\<close> requests of a client are admitted
  in any interval of one minute. The bound is attained: the windows are fixed, not sliding.
\<close>

theorem limiter_sliding_minute:
  assumes "rl_enabled cfg" and "1 \<le> rl_requestsPerMinute cfg" and "sorted (map event_time es)"
  shows "int (length (filter (\<lambda>t. x \<le> t \<and> t \<le> x + 60000) (admitted cfg c [] es))) \<le> 2 * rl_requestsPerMinute cfg - 1"
proof (cases es)
  case Nil
  with assms(2) show ?thesis by simp
next
  case (Cons e es')
  let ?N = "rl_requestsPerMinute cfg"
  have "windows_ok ?N c [] (event_time e) []"
    using assms(2) by (auto simp: windows_ok_def window_split_def window_entry_def in_minute_def intro!: exI [of _ "[]"])
  from admitted_windows [OF this _ assms(1) refl assms(2)] assms(3) Cons
  obtain m' tm' where "windows_ok ?N c m' tm' (admitted cfg c [] es)" by fastforce
  from windows_ok_minute [OF this, of x] show ?thesis by (simp add: in_minute_def)
qed

definition two_per_minute :: rate_limit_config where
  "two_per_minute = rateLimiter_config (Some 2) None None"

definition burst_events :: "limiter_event list" where
  "burst_events = [Check 0 ''web'', Check 60000 ''web'', Check 60001 ''app'', Check 60001 ''web'', Check 60001 ''web'',
     Check 60001 ''web'']"

theorem limiter_sliding_minute_witness:
  "length (filter (\<lambda>t. 1 \<le> t \<and> t \<le> 60001) (admitted two_per_minute ''web'' [] burst_events)) = 3 \<and>
   int (length (filter (\<lambda>t. 1 \<le> t \<and> t \<le> 60001) (admitted two_per_minute ''web'' [] burst_events)))
     \<le> 2 * rl_requestsPerMinute two_per_minute - 1"
proof -
  have "length (filter (\<lambda>t. 1 \<le> t \<and> t \<le> 60001) (admitted two_per_minute ''web'' [] burst_events)) = 3" by code_simp
  moreover have "rl_enabled two_per_minute" "1 \<le> rl_requestsPerMinute two_per_minute" "sorted (map event_time burst_events)"
    by code_simp+
  ultimately show ?thesis using limiter_sliding_minute [of two_per_minute burst_events 1 "''web''"] by simp
qed

section \<open>The limits are checked after the network call\<close>

lemma fresh_names_exist: "\<exists>rnds. fresh_names tm rnds p"
proof -
  obtain M where M: "\<forall>n \<in> fst ` set p. length n < M"
    using finite_nat_set_iff_bounded [of "length ` fst ` set p"] by auto
  have "fresh_names tm (\<lambda>k. replicate (k + M) (CHR ''x'')) p"
    unfolding fresh_names_def
  proof (intro conjI allI)
    show "inj (\<lambda>k. replicate (k + M) (CHR ''x''))"
    proof (rule injI)
      fix a b :: nat
      assume "replicate (a + M) (CHR ''x'') = replicate (b + M) (CHR ''x'')"
      then have "length (replicate (a + M) (CHR ''x'')) = length (replicate (b + M) (CHR ''x''))" by (rule arg_cong)
      then show "a = b" by simp
    qed
    fix k
    have "M \<le> length (conn_name tm (replicate (k + M) (CHR ''x'')))" by (simp add: conn_name_def)
    with M show "conn_name tm (replicate (k + M) (CHR ''x'')) \<notin> fst ` set p" by (meson leD)
  qed
  then show ?thesis by blast
qed

text \<open>An idle gateway serves one submission: the state after its four events.\<close>

definition idle_gateway :: "gateway \<Rightarrow> bool" where
  "idle_gateway g \<longleftrightarrow> rq_queue (gw_queue g) = [] \<and> gw_running g = []"

definition serving :: "gateway_config \<Rightarrow> bool" where
  "serving cfg \<longleftrightarrow> 1 \<le> qc_maxQueueSize (gc_queue cfg) \<and> 1 \<le> qc_maxConcurrentRequests (gc_queue cfg) \<and>
     1 \<le> po_maxConnections (gc_pool cfg)"

lemma served_submission:
  assumes reach: "gw_reachable cfg g" and idle: "idle_gateway g" and cfg: "serving cfg"
  obtains g' r resp where "gw_reachable cfg g'" and "idle_gateway g'" and "gw_clock g' = gw_clock g"
    and "qr_clientId r = c" and "gw_calls g' = gw_calls g @ [(r, SubmitXdr xdr)]"
    and "gw_settled g' = gw_settled g @ [(r, Inr resp)]"
    and "gr_success resp \<longleftrightarrow> is_ok (fst (checkRateLimit (gc_limits cfg) (gw_clock g) c (gw_limits g))) \<and>
      is_ok (checkBurstLimit (gc_limits cfg) 1)"
    and "gw_limits g' = snd (checkRateLimit (gc_limits cfg) (gw_clock g) c (gw_limits g))"
proof -
  let ?t = "gw_clock g"
  have inv: "queue_ok cfg g" using gw_reachable_inv [OF reach] by (simp add: gw_inv_def)
  have q: "gw_queue g = \<lparr>rq_queue = [], rq_activeRequests = 0, rq_isProcessing = False\<rparr>" and run: "gw_running g = []"
    using inv idle by (cases "gw_queue g"; simp add: queue_ok_def idle_gateway_def)+
  define r :: gw_request where "r = \<lparr>qr_id = ''req-'' @ int_to_string ?t @ ''-'' @ [],
    qr_execute = (gw_id (gw_requestCounter g + 1) ?t, SubmitTransaction xdr), qr_addedAt = ?t, qr_clientId = c\<rparr>"
  define g1 where "g1 = snd (gateway_call cfg ?t [] (SubmitTransaction xdr) c g)"
  have g1: "g1 = g\<lparr>gw_requestCounter := gw_requestCounter g + 1,
      gw_queue := \<lparr>rq_queue = [r], rq_activeRequests = 0, rq_isProcessing = False\<rparr>,
      gw_accepted := gw_accepted g @ [gw_id (gw_requestCounter g + 1) ?t]\<rparr>"
    using cfg q by (simp add: g1_def gateway_call_def generateRequestId_eq enqueue_def serving_def r_def)
  have reach1: "gw_reachable cfg g1" unfolding g1_def by (rule gw_next [OF reach step_call])
  obtain rnds where fresh: "fresh_names ?t rnds (gw_pool g)" using fresh_names_exist by blast
  have "conns_ok cfg g" using gw_reachable_inv [OF reach] by (simp add: gw_inv_def)
  then obtain k p where acq: "acquireConnection (gc_pool cfg) ?t (rnds (length (gw_pool g))) (gw_pool g) = Some (k, p)"
    using acquire_succeeds [of cfg g ?t "rnds (length (gw_pool g))"] cfg run by (auto simp: serving_def)
  define g2 where "g2 = gateway_tick cfg ?t rnds g1"
  have g2: "g2 = g1\<lparr>gw_queue := \<lparr>rq_queue = [], rq_activeRequests = 1, rq_isProcessing = False\<rparr>, gw_pool := p,
      gw_running := [\<lparr>ru_request = r, ru_phase = Calling (pc_id k)\<rparr>], gw_calls := gw_calls g @ [(r, SubmitXdr xdr)]\<rparr>"
    using cfg acq run by (simp add: g2_def gateway_tick_eq g1 executeRequest_def start_call_def with_queue_def serving_def r_def)
  have reach2: "gw_reachable cfg g2" unfolding g2_def
    using gw_next [OF reach1 step_tick [of g1 rnds]] fresh by (simp add: g1)
  obtain resp gx where mon: "executeWithMonitoring cfg ?t ?t (gw_id (gw_requestCounter g + 1) ?t) c (Inr (SubmitData []))
      (release ?t (pc_id k) g2) = (resp, gx)" by fastforce
  have rel: "gw_limits (release ?t (pc_id k) g2) = gw_limits g" "rq_activeRequests (gw_queue (release ?t (pc_id k) g2)) = 1"
    by (simp_all add: release_def g2 g1)
  have resp: "gr_success resp \<longleftrightarrow> is_ok (fst (checkRateLimit (gc_limits cfg) ?t c (gw_limits g))) \<and>
      is_ok (checkBurstLimit (gc_limits cfg) 1)"
    and gx: "gx = (release ?t (pc_id k) g2)\<lparr>gw_limits := snd (checkRateLimit (gc_limits cfg) ?t c (gw_limits g))\<rparr>"
    using mon by (auto simp: executeWithMonitoring_def Let_def rel getQueueStats_def is_ok_def rbind_def split: prod.splits sum.splits)
  define g3 where "g3 = gx\<lparr>gw_running := [\<lparr>ru_request = r, ru_phase = Settled\<rparr>], gw_settled := gw_settled g @ [(r, Inr resp)]\<rparr>"
  have rep: "gateway_reply cfg ?t ?t [] 0 (SubmitReply (Inr [])) g2 = Some g3"
    using mon by (simp add: gateway_reply_def g2 Let_def r_def submitTransaction_reply_def g3_def gx release_def g1)
  have reach3: "gw_reachable cfg g3"
  proof -
    have "gw_step cfg g2 (g3\<lparr>gw_clock := ?t\<rparr>)"
      by (rule step_reply [where i = 0 and rnd = "[]" and reply = "SubmitReply (Inr [])"]) (use rep in \<open>simp_all add: g2 g1\<close>)
    moreover have "g3\<lparr>gw_clock := ?t\<rparr> = g3" by (simp add: g3_def gx release_def g2 g1)
    ultimately show ?thesis using reach2 by (auto intro: gw_next)
  qed
  define g4 where "g4 = gateway_finally 0 g3"
  have reach4: "gw_reachable cfg g4" unfolding g4_def
    by (rule gw_next [OF reach3 step_finally]) (simp_all add: g3_def)
  note eqs = g4_def gateway_finally_def g3_def gx release_def g2 g1
  show ?thesis
    by (rule that [of g4 r resp]) (use reach4 resp in \<open>simp_all add: eqs idle_gateway_def r_def\<close>)
qed

definition flooded :: "gateway_config \<Rightarrow> int \<Rightarrow> string \<Rightarrow> string \<Rightarrow> nat \<Rightarrow> gateway \<Rightarrow> bool" where
  "flooded cfg tm c xdr n g \<longleftrightarrow> gw_reachable cfg g \<and> idle_gateway g \<and> gw_clock g = tm \<and>
     length (gw_calls g) = n \<and> (\<forall>x \<in> set (gw_calls g). qr_clientId (fst x) = c \<and> snd x = SubmitXdr xdr) \<and>
     length (gw_settled g) = n \<and>
     length (filter (\<lambda>x. case snd x of Inr r \<Rightarrow> gr_success r | _ \<Rightarrow> False) (gw_settled g)) =
       min n (nat (rl_requestsPerMinute (gc_limits cfg))) \<and>
     current_window tm c (gw_limits g) =
       \<lparr>cl_requests = min (int n) (rl_requestsPerMinute (gc_limits cfg)), cl_windowStart = tm\<rparr>"

lemma flooded_round:
  assumes fl: "flooded cfg tm c xdr n g" and cfg: "serving cfg" "rl_enabled (gc_limits cfg)"
    "0 \<le> rl_requestsPerMinute (gc_limits cfg)" "2 \<le> rl_burstLimit (gc_limits cfg)"
  shows "\<exists>g'. flooded cfg tm c xdr (Suc n) g'"
proof -
  have reach: "gw_reachable cfg g" "idle_gateway g" and tm: "gw_clock g = tm" using fl by (simp_all add: flooded_def)
  obtain g' r resp where g': "gw_reachable cfg g'" "idle_gateway g'" "gw_clock g' = tm"
      "qr_clientId r = c" "gw_calls g' = gw_calls g @ [(r, SubmitXdr xdr)]" "gw_settled g' = gw_settled g @ [(r, Inr resp)]"
      "gr_success resp \<longleftrightarrow> is_ok (fst (checkRateLimit (gc_limits cfg) tm c (gw_limits g))) \<and> is_ok (checkBurstLimit (gc_limits cfg) 1)"
      "gw_limits g' = snd (checkRateLimit (gc_limits cfg) tm c (gw_limits g))"
    using served_submission [OF reach cfg(1), of c xdr] unfolding tm by metis
  let ?N = "rl_requestsPerMinute (gc_limits cfg)"
  have win: "current_window tm c (gw_limits g) = \<lparr>cl_requests = min (int n) ?N, cl_windowStart = tm\<rparr>"
    using fl by (simp add: flooded_def)
  have burst: "is_ok (checkBurstLimit (gc_limits cfg) 1)" using cfg by (simp add: checkBurstLimit_def)
  have succ: "gr_success resp \<longleftrightarrow> int n < ?N"
    using g'(7) burst win cfg by (auto simp: checkRateLimit_def Let_def)
  have "current_window tm c (gw_limits g') = \<lparr>cl_requests = min (int (Suc n)) ?N, cl_windowStart = tm\<rparr>"
    using g'(8) win cfg by (auto simp: checkRateLimit_def Let_def current_window_def [of _ _ "map_set _ _ _"] window_expired_def)
  then show ?thesis
    using g' fl succ cfg by (intro exI [of _ g']) (auto simp: flooded_def min_def)
qed

text \<open>
  The rate limiter does not protect the Stellar network: for every number \<open>n\<close> the gateway can, within
  one millisecond, send \<open>n\<close> submissions of one client to the network; the limiter only decides that
  all but \<^verbatim>\<open>requestsPerMinute\<close> of them are answered with a failure, after they were submitted.
\<close>

theorem limiter_after_submission:
  assumes "rl_enabled (gc_limits cfg)" and "0 \<le> rl_requestsPerMinute (gc_limits cfg)" and "2 \<le> rl_burstLimit (gc_limits cfg)"
    and "1 \<le> qc_maxQueueSize (gc_queue cfg)" and "1 \<le> qc_maxConcurrentRequests (gc_queue cfg)"
    and "1 \<le> po_maxConnections (gc_pool cfg)"
  shows "\<exists>g. gw_reachable cfg g \<and> gw_clock g = tm \<and>
     length (gw_calls g) = n \<and> (\<forall>x \<in> set (gw_calls g). qr_clientId (fst x) = c \<and> snd x = SubmitXdr xdr) \<and>
     length (gw_settled g) = n \<and>
     length (filter (\<lambda>x. case snd x of Inr r \<Rightarrow> gr_success r | _ \<Rightarrow> False) (gw_settled g)) =
       min n (nat (rl_requestsPerMinute (gc_limits cfg)))"
proof -
  have cfg: "serving cfg" using assms by (simp add: serving_def)
  have "\<exists>g. flooded cfg tm c xdr n g"
  proof (induction n)
    case 0
    have "inj (\<lambda>k. replicate k (CHR ''x''))" by (metis injI length_replicate)
    then have "flooded cfg tm c xdr 0 (gateway_init cfg tm (\<lambda>k. replicate k (CHR ''x'')))"
      using assms(2) by (auto simp: flooded_def idle_gateway_def gateway_init_def current_window_def
          intro: gw_start [unfolded gateway_init_def])
    then show ?case by blast
  next
    case (Suc n)
    then show ?case using flooded_round cfg assms by blast
  qed
  then show ?thesis by (auto simp: flooded_def)
qed

theorem limiter_after_submission_witness:
  "\<exists>g. gw_reachable default_gateway g \<and> gw_clock g = 0 \<and>
     length (gw_calls g) = 100 \<and> (\<lambda>x. (qr_clientId (fst x), snd x)) ` set (gw_calls g) \<subseteq> {(''web'', SubmitXdr ''AAAA'')} \<and>
     length (gw_settled g) = 100 \<and>
     length (filter (\<lambda>x. case snd x of Inr r \<Rightarrow> gr_success r | _ \<Rightarrow> False) (gw_settled g)) = 60"
  using limiter_after_submission [of default_gateway 0 100 "''web''" "''AAAA''"]
  by (force simp: default_config_simps)

end
