(* ===== verification/LiqPools.thy ===== *)
theory LiqPools
  imports JsDate JsNan
begin

text \<open>
  The liquidity aggregator (\<^verbatim>\<open>src/src/modules/liquidity-aggregator\<close>), first part: the entities, the
  pool registry, the price oracle and the monitoring with its search for arbitrage.

  The four tables and the in-memory route graph are one state \<open>liq_db\<close>. Amounts are decimal strings
  in \<^verbatim>\<open>numeric\<close> columns; what the database returns for a stored text is the function
  \<open>le_numeric\<close> of the scale in the environment \<open>liq_env\<close>. A \<^verbatim>\<open>where\<close> condition on
  \<^verbatim>\<open>undefined\<close> is no condition, which is what the object-relational mapper documents.
\<close>

section \<open>Entities\<close>

datatype pool_type = AMM | ORDER_BOOK | STELLAR_DEX

datatype pool_status = P_ACTIVE | P_INACTIVE | P_DEPRECATED

record liquidity_pool =
  lp_id :: string
  lp_name :: string
  lp_type :: pool_type
  lp_status :: pool_status
  lp_assetCodeA :: string
  lp_assetIssuerA :: "string option"
  lp_assetCodeB :: string
  lp_assetIssuerB :: "string option"
  lp_tvl :: string
  lp_feeRate :: string
  lp_volume24h :: string
  lp_feeRevenue24h :: string
  lp_maxInputSize :: "string option"
  lp_onChainAddress :: "string option"
  lp_lastRefreshedAt :: "int option"
  lp_config :: "json option"

record pool_snapshot =
  sn_poolId :: string
  sn_tvl :: string
  sn_volume24h :: string
  sn_feeRevenue24h :: string
  sn_reserveA :: string
  sn_reserveB :: string
  sn_spotPrice :: string
  sn_feeRate :: string
  sn_snapshotAt :: int

record route_cache =
  rc_tokenIn :: string
  rc_tokenOut :: string
  rc_poolPath :: "string list"
  rc_expectedOutput :: string
  rc_priceImpact :: string
  rc_estimatedGas :: string
  rc_confidence :: string
  rc_expiresAt :: int
  rc_createdAt :: int

datatype arbitrage_status = AR_DETECTED | AR_SIMULATED | AR_EXECUTED | AR_EXPIRED | AR_INVALIDATED

record arbitrage_opportunity =
  ao_baseAsset :: string
  ao_quoteAsset :: string
  ao_cyclePools :: "string list"
  ao_estimatedProfit :: string
  ao_maxProfitableSize :: string
  ao_spreadPercent :: string
  ao_estimatedGasCost :: string
  ao_status :: arbitrage_status
  ao_detectedAt :: int
  ao_expiresAt :: int

record graph_edge =
  ge_targetAsset :: string
  ge_poolId :: string
  ge_pool :: liquidity_pool
  ge_weight :: jnum
  ge_capacity :: jnum

type_synonym route_graph = "(string \<times> graph_edge list) list"

record liq_db =
  lq_pools :: "liquidity_pool list"
  lq_snapshots :: "pool_snapshot list"
  lq_cache :: "route_cache list"
  lq_arbs :: "arbitrage_opportunity list"
  lq_graph :: route_graph
  lq_poolMap :: "(string \<times> liquidity_pool) list"

record liq_env =
  le_now :: int
  le_uuid :: string
  le_numeric :: "nat \<Rightarrow> string \<Rightarrow> string"

section \<open>Pool registry\<close>

record register_pool_dto =
  rp_name :: string
  rp_type :: pool_type
  rp_assetCodeA :: string
  rp_assetIssuerA :: "string option"
  rp_assetCodeB :: string
  rp_assetIssuerB :: "string option"
  rp_onChainAddress :: "string option"
  rp_feeRate :: "number option"
  rp_config :: "json option"

definition stored_pool :: "liq_env \<Rightarrow> liquidity_pool \<Rightarrow> liquidity_pool" where
  "stored_pool e p = p\<lparr>lp_tvl := le_numeric e 7 (lp_tvl p), lp_feeRate := le_numeric e 8 (lp_feeRate p),
     lp_volume24h := le_numeric e 7 (lp_volume24h p), lp_feeRevenue24h := le_numeric e 7 (lp_feeRevenue24h p)\<rparr>"

definition save_pool :: "liq_env \<Rightarrow> liquidity_pool \<Rightarrow> liq_db \<Rightarrow> liq_db" where
  "save_pool e p db = db\<lparr>lq_pools := save_row lp_id (stored_pool e p) (lq_pools db)\<rparr>"

definition where_is :: "string option \<Rightarrow> string option \<Rightarrow> bool" where
  "where_is wanted column = (case wanted of None \<Rightarrow> True | Some s \<Rightarrow> column = Some s)"

definition register :: "liq_env \<Rightarrow> register_pool_dto \<Rightarrow> liq_db \<Rightarrow> (liquidity_pool \<times> liq_db) result" where
  "register e dto db =
     (if \<exists>p \<in> set (lq_pools db). lp_assetCodeA p = rp_assetCodeA dto \<and> where_is (rp_assetIssuerA dto) (lp_assetIssuerA p) \<and>
           lp_assetCodeB p = rp_assetCodeB dto \<and> where_is (rp_assetIssuerB dto) (lp_assetIssuerB p) \<and> lp_type p = rp_type dto
      then Inl (BadRequest ''A pool for this asset pair and type already exists'')
      else let pool = \<lparr>lp_id = le_uuid e, lp_name = rp_name dto, lp_type = rp_type dto, lp_status = P_ACTIVE,
                lp_assetCodeA = rp_assetCodeA dto, lp_assetIssuerA = rp_assetIssuerA dto,
                lp_assetCodeB = rp_assetCodeB dto, lp_assetIssuerB = rp_assetIssuerB dto,
                lp_tvl = ''0'', lp_feeRate = (case rp_feeRate dto of None \<Rightarrow> ''0'' | Some r \<Rightarrow> num_to_string r),
                lp_volume24h = ''0'', lp_feeRevenue24h = ''0'', lp_maxInputSize = None,
                lp_onChainAddress = rp_onChainAddress dto, lp_lastRefreshedAt = None, lp_config = rp_config dto\<rparr>
           in Inr (pool, save_pool e pool db))"

record query_pools_dto =
  qp_type :: "pool_type option"
  qp_status :: "pool_status option"
  qp_assetCode :: "string option"
  qp_page :: nat
  qp_limit :: nat

definition pools_findAll :: "query_pools_dto \<Rightarrow> liq_db \<Rightarrow> liquidity_pool list \<times> nat" where
  "pools_findAll q db =
     (let rows = sort_key (\<lambda>p. case parse_float (lp_tvl p) of None \<Rightarrow> 0 | Some x \<Rightarrow> - x)
            (filter (\<lambda>p. (case qp_type q of None \<Rightarrow> True | Some ty \<Rightarrow> lp_type p = ty) \<and>
               (case qp_status q of None \<Rightarrow> True | Some st \<Rightarrow> lp_status p = st) \<and>
               (truthy (qp_assetCode q) \<longrightarrow> Some (lp_assetCodeA p) = qp_assetCode q \<or> Some (lp_assetCodeB p) = qp_assetCode q))
             (lq_pools db))
      in (take (qp_limit q) (drop ((qp_page q - 1) * qp_limit q) rows), length rows))"

definition findById :: "string \<Rightarrow> liq_db \<Rightarrow> liquidity_pool result" where
  "findById i db = (case row_by lp_id i (lq_pools db) of
       None \<Rightarrow> Inl (NotFound (''Pool '' @ i @ '' not found'')) | Some p \<Rightarrow> Inr p)"

definition findActivePools :: "liq_db \<Rightarrow> liquidity_pool list" where
  "findActivePools db = filter (\<lambda>p. lp_status p = P_ACTIVE) (lq_pools db)"

definition deactivate :: "liq_env \<Rightarrow> string \<Rightarrow> liq_db \<Rightarrow> (liquidity_pool \<times> liq_db) result" where
  "deactivate e i db = rbind (findById i db) (\<lambda>p.
     let p' = p\<lparr>lp_status := P_INACTIVE\<rparr> in Inr (p', save_pool e p' db))"

record pool_metrics =
  pm_tvl :: string
  pm_volume24h :: string
  pm_feeRevenue24h :: string
  pm_feeRate :: string
  pm_reserveA :: string
  pm_reserveB :: string
  pm_spotPrice :: string

definition refreshPool :: "liq_env \<Rightarrow> string \<Rightarrow> pool_metrics \<Rightarrow> liq_db \<Rightarrow> liq_db result" where
  "refreshPool e i m db = rbind (findById i db) (\<lambda>p.
     let p' = p\<lparr>lp_tvl := pm_tvl m, lp_volume24h := pm_volume24h m, lp_feeRevenue24h := pm_feeRevenue24h m,
           lp_feeRate := pm_feeRate m, lp_lastRefreshedAt := Some (le_now e)\<rparr>;
         db' = save_pool e p' db
     in Inr (db'\<lparr>lq_snapshots := lq_snapshots db' @
          [\<lparr>sn_poolId = i, sn_tvl = le_numeric e 7 (pm_tvl m), sn_volume24h = le_numeric e 7 (pm_volume24h m),
            sn_feeRevenue24h = le_numeric e 7 (pm_feeRevenue24h m), sn_reserveA = le_numeric e 7 (pm_reserveA m),
            sn_reserveB = le_numeric e 7 (pm_reserveB m), sn_spotPrice = le_numeric e 10 (pm_spotPrice m),
            sn_feeRate = le_numeric e 8 (pm_feeRate m), sn_snapshotAt = le_now e\<rparr>]\<rparr>))"

text \<open>The loop stops at the first pool that does not exist; the updates before it stay.\<close>

fun bulkUpdateMetrics :: "liq_env \<Rightarrow> (string \<times> pool_metrics) list \<Rightarrow> liq_db \<Rightarrow> unit result \<times> liq_db" where
  "bulkUpdateMetrics e [] db = (Inr (), db)"
| "bulkUpdateMetrics e (u # us) db = (case refreshPool e (fst u) (snd u) db of
       Inl err \<Rightarrow> (Inl err, db) | Inr db' \<Rightarrow> bulkUpdateMetrics e us db')"

definition pool_between :: "string \<Rightarrow> string option \<Rightarrow> string \<Rightarrow> string option \<Rightarrow> liquidity_pool \<Rightarrow> bool" where
  "pool_between a ia b ib p \<longleftrightarrow> lp_assetCodeA p = a \<and> where_is ia (lp_assetIssuerA p) \<and>
     lp_assetCodeB p = b \<and> where_is ib (lp_assetIssuerB p) \<and> lp_status p = P_ACTIVE"

definition getPoolsForPair :: "string \<Rightarrow> string option \<Rightarrow> string \<Rightarrow> string option \<Rightarrow> liq_db \<Rightarrow> liquidity_pool list" where
  "getPoolsForPair a ia b ib db =
     filter (\<lambda>p. pool_between a ia b ib p \<or> pool_between b ib a ia p) (lq_pools db)"

definition getReachableAssets :: "string \<Rightarrow> liq_db \<Rightarrow> string list" where
  "getReachableAssets c db = js_set (map (\<lambda>p. if lp_assetCodeA p = c then lp_assetCodeB p else lp_assetCodeA p)
     (filter (\<lambda>p. (lp_assetCodeA p = c \<or> lp_assetCodeB p = c) \<and> lp_status p = P_ACTIVE) (lq_pools db)))"

definition getSnapshots :: "string \<Rightarrow> int \<Rightarrow> int \<Rightarrow> liq_db \<Rightarrow> pool_snapshot list" where
  "getSnapshots i from till db = sort_key sn_snapshotAt
     (filter (\<lambda>s. sn_poolId s = i \<and> from \<le> sn_snapshotAt s \<and> sn_snapshotAt s \<le> till) (lq_snapshots db))"

section \<open>Price oracle\<close>

record aggregated_price =
  ap_tokenIn :: string
  ap_tokenOut :: string
  ap_weightedPrice :: jnum
  ap_simplePrice :: jnum
  ap_poolCount :: nat
  ap_totalTvl :: jnum
  ap_bestPrice :: jnum
  ap_lastUpdated :: int

definition calculatePoolPrice :: "liquidity_pool \<Rightarrow> string \<Rightarrow> string \<Rightarrow> jnum" where
  "calculatePoolPrice p tokenIn tokenOut =
     (let tvl = parse_float (lp_tvl p);
          isDirect = (lp_assetCodeA p = tokenIn \<and> lp_assetCodeB p = tokenOut);
          isInverse = (lp_assetCodeA p = tokenOut \<and> lp_assetCodeB p = tokenIn);
          feeRate = parse_float (lp_feeRate p);
          volume = parse_float (lp_volume24h p)
      in if js_leq tvl (Some 0) then Some 0
         else if \<not> isDirect \<and> \<not> isInverse then Some 0
         else if js_leq volume (Some 0) then Some 0
         else let rawPrice = js_div volume tvl;
                  adjustedPrice = (if isDirect then rawPrice else js_div (Some 1) rawPrice)
              in js_mul adjustedPrice (js_sub (Some 1) feeRate))"

record price_totals =
  pt_weighted :: jnum
  pt_volume :: jnum
  pt_simple :: jnum
  pt_best :: jnum
  pt_tvl :: jnum
  pt_freshest :: int

definition price_step :: "string \<Rightarrow> string \<Rightarrow> price_totals \<Rightarrow> liquidity_pool \<Rightarrow> price_totals" where
  "price_step tokenIn tokenOut s p =
     (let price = calculatePoolPrice p tokenIn tokenOut;
          volume = parse_float (lp_volume24h p);
          tvl = parse_float (lp_tvl p);
          s1 = (if js_less (Some 0) price \<and> js_less (Some 0) volume
                then s\<lparr>pt_weighted := js_add (pt_weighted s) (js_mul price volume), pt_volume := js_add (pt_volume s) volume\<rparr>
                else s);
          s2 = (if js_less (Some 0) price
                then s1\<lparr>pt_simple := js_add (pt_simple s1) price,
                        pt_best := (if pt_best s1 = Some 0 \<or> js_less (pt_best s1) price then price else pt_best s1)\<rparr>
                else s1);
          s3 = s2\<lparr>pt_tvl := js_add (pt_tvl s2) tvl\<rparr>
      in case lp_lastRefreshedAt p of None \<Rightarrow> s3
         | Some r \<Rightarrow> if r > pt_freshest s3 then s3\<lparr>pt_freshest := r\<rparr> else s3)"

definition getAggregatedPrice :: "string \<Rightarrow> string option \<Rightarrow> string \<Rightarrow> string option \<Rightarrow> liq_db \<Rightarrow> aggregated_price" where
  "getAggregatedPrice tokenIn ii tokenOut io db =
     (let pools = getPoolsForPair tokenIn ii tokenOut io db in
      if pools = [] then \<lparr>ap_tokenIn = tokenIn, ap_tokenOut = tokenOut, ap_weightedPrice = Some 0, ap_simplePrice = Some 0,
        ap_poolCount = 0, ap_totalTvl = Some 0, ap_bestPrice = Some 0, ap_lastUpdated = 0\<rparr>
      else let s = foldl (price_step tokenIn tokenOut) \<lparr>pt_weighted = Some 0, pt_volume = Some 0, pt_simple = Some 0,
                 pt_best = Some 0, pt_tvl = Some 0, pt_freshest = 0\<rparr> pools
           in \<lparr>ap_tokenIn = tokenIn, ap_tokenOut = tokenOut,
               ap_weightedPrice = (if js_less (Some 0) (pt_volume s) then js_div (pt_weighted s) (pt_volume s) else Some 0),
               ap_simplePrice = js_div (pt_simple s) (Some (of_nat (length pools))),
               ap_poolCount = length pools, ap_totalTvl = pt_tvl s, ap_bestPrice = pt_best s,
               ap_lastUpdated = pt_freshest s\<rparr>)"

definition getBatchPrices :: "(string \<times> string option \<times> string \<times> string option) list \<Rightarrow> liq_db \<Rightarrow> aggregated_price list" where
  "getBatchPrices pairs db = map (\<lambda>(a, ia, b, ib). getAggregatedPrice a ia b ib db) pairs"

record price_point =
  pp_timestamp :: int
  pp_price :: jnum
  pp_volume :: jnum

definition getHistoricalPrices :: "string \<Rightarrow> int \<Rightarrow> int \<Rightarrow> nat \<Rightarrow> liq_db \<Rightarrow> price_point list" where
  "getHistoricalPrices i from till limit db =
     map (\<lambda>s. \<lparr>pp_timestamp = sn_snapshotAt s, pp_price = parse_float (sn_spotPrice s), pp_volume = parse_float (sn_volume24h s)\<rparr>)
       (take limit (getSnapshots i from till db))"

fun twap_sum :: "jnum \<Rightarrow> price_point list \<Rightarrow> jnum" where
  "twap_sum acc (p # q # ps) =
     twap_sum (js_add acc (js_mul (pp_price p) (js_div (Some (of_int (pp_timestamp q - pp_timestamp p))) (Some 1000)))) (q # ps)"
| "twap_sum acc ps = acc"

definition getTWAP :: "string \<Rightarrow> int \<Rightarrow> int \<Rightarrow> liq_db \<Rightarrow> jnum" where
  "getTWAP i windowMinutes tm db =
     (let prices = getHistoricalPrices i (tm - windowMinutes * 60 * 1000) tm 100 db in
      if prices = [] then Some 0
      else let total = js_div (Some (of_int (pp_timestamp (last prices) - pp_timestamp (hd prices)))) (Some 1000)
           in if js_less (Some 0) total then js_div (twap_sum (Some 0) prices) total else Some 0)"

end
