(* ===== verification/LiqMonitor.thy ===== *)
theory LiqMonitor
  imports LiqPools
begin

text \<open>
  The monitoring of the liquidity aggregator: alerts on the snapshots of a pool, and the search for
  arbitrage between pools of one pair and around triangles of assets.
\<close>

section \<open>Alerts\<close>

datatype alert_type = IMBALANCE | TVL_DROP | VOLUME_SPIKE | FEE_ANOMALY

datatype alert_severity = SEV_LOW | SEV_MEDIUM | SEV_HIGH | SEV_CRITICAL

record pool_alert =
  pa_poolId :: string
  pa_poolName :: string
  pa_alertType :: alert_type
  pa_severity :: alert_severity
  pa_message :: string
  pa_currentValue :: jnum
  pa_threshold :: jnum
  pa_detectedAt :: int

definition TVL_DROP_THRESHOLD :: jnum where "TVL_DROP_THRESHOLD = Some (fl (1/10))"
definition VOLUME_SPIKE_THRESHOLD :: jnum where "VOLUME_SPIKE_THRESHOLD = Some 3"
definition IMBALANCE_THRESHOLD :: jnum where "IMBALANCE_THRESHOLD = Some (fl (7/10))"

definition findSnapshotAt :: "pool_snapshot list \<Rightarrow> int \<Rightarrow> pool_snapshot option" where
  "findSnapshotAt snaps target = (case snaps of [] \<Rightarrow> None
     | s0 # _ \<Rightarrow>
       (case foldl (\<lambda>(closest, minDiff) s.
              let diff = \<bar>sn_snapshotAt s - target\<bar> in if diff < minDiff then (s, diff) else (closest, minDiff))
            (s0, \<bar>sn_snapshotAt s0 - target\<bar>) snaps of
        (closest, minDiff) \<Rightarrow> if minDiff < 2 * 60 * 60 * 1000 then Some closest else None))"

definition averageOverPeriod :: "pool_snapshot list \<Rightarrow> (pool_snapshot \<Rightarrow> string) \<Rightarrow> jnum" where
  "averageOverPeriod snaps field = (if snaps = [] then Some 0
     else js_div (foldl (\<lambda>s x. js_add s (parse_float (field x))) (Some 0) snaps) (Some (of_nat (length snaps))))"

definition percent_str :: "nat \<Rightarrow> jnum \<Rightarrow> string" where
  "percent_str f x = js_fixed f (js_mul x (Some 100))"

definition tvl_alert :: "liquidity_pool \<Rightarrow> int \<Rightarrow> pool_snapshot list \<Rightarrow> jnum \<Rightarrow> pool_alert list" where
  "tvl_alert pool tm snaps tvlNow = (case findSnapshotAt snaps (tm - 24 * 60 * 60 * 1000) of None \<Rightarrow> []
     | Some before \<Rightarrow>
       let prevTvl = parse_float (sn_tvl before) in
       if js_less (Some 0) prevTvl then
         let tvlChange = js_div (js_sub prevTvl tvlNow) prevTvl in
         if js_less TVL_DROP_THRESHOLD tvlChange
         then [\<lparr>pa_poolId = lp_id pool, pa_poolName = lp_name pool, pa_alertType = TVL_DROP,
                pa_severity = (if js_less (Some (1/4)) tvlChange then SEV_CRITICAL
                   else if js_less (Some (fl (15/100))) tvlChange then SEV_HIGH else SEV_MEDIUM),
                pa_message = ''TVL dropped '' @ percent_str 1 tvlChange @ ''% in 24h'',
                pa_currentValue = tvlNow, pa_threshold = js_mul prevTvl (js_sub (Some 1) TVL_DROP_THRESHOLD),
                pa_detectedAt = tm\<rparr>]
         else []
       else [])"

definition volume_alert :: "liquidity_pool \<Rightarrow> int \<Rightarrow> pool_snapshot list \<Rightarrow> pool_alert list" where
  "volume_alert pool tm snaps =
     (let avgVolume = averageOverPeriod (take 24 (drop 1 snaps)) sn_volume24h;
          currentVolume = parse_float (sn_volume24h (hd snaps))
      in if js_less (Some 0) avgVolume \<and> js_less (js_mul avgVolume VOLUME_SPIKE_THRESHOLD) currentVolume
         then [\<lparr>pa_poolId = lp_id pool, pa_poolName = lp_name pool, pa_alertType = VOLUME_SPIKE, pa_severity = SEV_MEDIUM,
                pa_message = ''Volume '' @ js_fixed 1 (js_div currentVolume avgVolume) @ ''x above 24h average'',
                pa_currentValue = currentVolume, pa_threshold = js_mul avgVolume VOLUME_SPIKE_THRESHOLD, pa_detectedAt = tm\<rparr>]
         else [])"

definition imbalance_alert :: "liquidity_pool \<Rightarrow> int \<Rightarrow> pool_snapshot \<Rightarrow> pool_alert list" where
  "imbalance_alert pool tm latest =
     (let reserveA = parse_float (sn_reserveA latest); reserveB = parse_float (sn_reserveB latest) in
      if js_less (Some 0) reserveA \<and> js_less (Some 0) reserveB then
        let ratio = js_div reserveA (js_add reserveA reserveB); rest = js_sub (Some 1) ratio in
        if js_less IMBALANCE_THRESHOLD ratio \<or> js_less ratio (js_sub (Some 1) IMBALANCE_THRESHOLD)
        then [\<lparr>pa_poolId = lp_id pool, pa_poolName = lp_name pool, pa_alertType = IMBALANCE, pa_severity = SEV_LOW,
               pa_message = ''Reserve ratio '' @ (if js_less (Some (1/2)) ratio
                  then percent_str 0 ratio @ ''%/'' @ percent_str 0 rest @ ''%''
                  else percent_str 0 rest @ ''%/'' @ percent_str 0 ratio @ ''%''),
               pa_currentValue = ratio, pa_threshold = IMBALANCE_THRESHOLD, pa_detectedAt = tm\<rparr>]
        else []
      else [])"

definition checkPoolAnomalies :: "int \<Rightarrow> liq_db \<Rightarrow> liquidity_pool \<Rightarrow> pool_alert list" where
  "checkPoolAnomalies tm db pool =
     (let recent = take 48 (sort_key (\<lambda>s. - sn_snapshotAt s) (filter (\<lambda>s. sn_poolId s = lp_id pool) (lq_snapshots db))) in
      if length recent < 2 then []
      else tvl_alert pool tm recent (parse_float (sn_tvl (hd recent))) @ volume_alert pool tm recent @
           imbalance_alert pool tm (hd recent))"

definition scanPoolHealth :: "int \<Rightarrow> liq_db \<Rightarrow> pool_alert list" where
  "scanPoolHealth tm db = concat (map (checkPoolAnomalies tm db) (findActivePools db))"

section \<open>Arbitrage\<close>

text \<open>\<^verbatim>\<open>sort\<close> of two strings: by the codes of their characters.\<close>

fun str_le :: "string \<Rightarrow> string \<Rightarrow> bool" where
  "str_le [] t = True"
| "str_le (c # cs) [] = False"
| "str_le (c # cs) (d # ds) = (if (of_char c :: nat) < of_char d then True else if c = d then str_le cs ds else False)"

definition pair_key :: "liquidity_pool \<Rightarrow> string" where
  "pair_key p = (if str_le (lp_assetCodeA p) (lp_assetCodeB p) then lp_assetCodeA p @ ''-'' @ lp_assetCodeB p
     else lp_assetCodeB p @ ''-'' @ lp_assetCodeA p)"

definition groupPoolsByAssetPair :: "liquidity_pool list \<Rightarrow> (string \<times> liquidity_pool list) list" where
  "groupPoolsByAssetPair pools = foldl (\<lambda>g p. map_set (pair_key p)
     ((case map_of g (pair_key p) of None \<Rightarrow> [] | Some ps \<Rightarrow> ps) @ [p]) g) [] pools"

definition getPoolPrice :: "liquidity_pool \<Rightarrow> jnum" where
  "getPoolPrice p = (let tvl = parse_float (lp_tvl p) in
     if js_leq tvl (Some 0) then Some 0
     else js_or (js_div (parse_float (lp_volume24h p)) tvl) (parse_float (lp_feeRate p)))"

definition getPoolRate :: "liquidity_pool \<Rightarrow> string \<Rightarrow> string \<Rightarrow> jnum" where
  "getPoolRate p from till =
     (if lp_assetCodeA p = from \<and> lp_assetCodeB p = till then js_div (Some 1) (js_add (Some 1) (parse_float (lp_feeRate p)))
      else if lp_assetCodeB p = from \<and> lp_assetCodeA p = till
      then js_div (Some 1) (js_add (Some 1) (parse_float (lp_feeRate p)))
      else Some 0)"

definition pair_opportunity :: "int \<Rightarrow> jnum \<Rightarrow> liquidity_pool \<Rightarrow> liquidity_pool \<Rightarrow> arbitrage_opportunity list" where
  "pair_opportunity tm minSpread a b =
     (let priceA = getPoolPrice a; priceB = getPoolPrice b in
      if js_leq priceA (Some 0) \<or> js_leq priceB (Some 0) then []
      else let spread = js_div (js_abs (js_sub priceA priceB)) (js_min priceA priceB);
               spreadPercent = js_mul spread (Some 100)
           in if js_leq minSpread spreadPercent then
                let cheaper = (if js_less priceA priceB then a else b);
                    expensive = (if js_less priceA priceB then b else a);
                    tvlMin = js_min (parse_float (lp_tvl cheaper)) (parse_float (lp_tvl expensive));
                    maxProfitable = js_mul (js_mul tvlMin spread) (Some (1/2))
                in [\<lparr>ao_baseAsset = lp_assetCodeA cheaper, ao_quoteAsset = lp_assetCodeB cheaper,
                     ao_cyclePools = [lp_id cheaper, lp_id expensive],
                     ao_estimatedProfit = js_num_str (js_mul maxProfitable spread),
                     ao_maxProfitableSize = js_num_str maxProfitable, ao_spreadPercent = js_fixed 6 spreadPercent,
                     ao_estimatedGasCost = ''200000'', ao_status = AR_DETECTED, ao_detectedAt = tm,
                     ao_expiresAt = tm + 5 * 60 * 1000\<rparr>]
              else [])"

fun findArbitrageInPair :: "int \<Rightarrow> jnum \<Rightarrow> liquidity_pool list \<Rightarrow> arbitrage_opportunity list" where
  "findArbitrageInPair tm minSpread [] = []"
| "findArbitrageInPair tm minSpread (a # ps) =
     concat (map (pair_opportunity tm minSpread a) ps) @ findArbitrageInPair tm minSpread ps"

record neighbor =
  nb_neighbor :: string
  nb_pool :: liquidity_pool
  nb_rate :: jnum

type_synonym rate_graph = "(string \<times> neighbor list) list"

definition neighbors :: "rate_graph \<Rightarrow> string \<Rightarrow> neighbor list" where
  "neighbors adj a = (case map_of adj a of None \<Rightarrow> [] | Some ns \<Rightarrow> ns)"

definition add_neighbor :: "string \<Rightarrow> string \<Rightarrow> liquidity_pool \<Rightarrow> rate_graph \<Rightarrow> rate_graph" where
  "add_neighbor from till p adj = (let rate = getPoolRate p from till in
     if js_less (Some 0) rate
     then map_set from (neighbors adj from @ [\<lparr>nb_neighbor = till, nb_pool = p, nb_rate = rate\<rparr>]) adj else adj)"

definition ensure_node :: "string \<Rightarrow> rate_graph \<Rightarrow> rate_graph" where
  "ensure_node a adj = (case map_of adj a of None \<Rightarrow> map_set a [] adj | Some _ \<Rightarrow> adj)"

definition rate_adjacency :: "liquidity_pool list \<Rightarrow> rate_graph" where
  "rate_adjacency pools = foldl (\<lambda>adj p.
     let adj = ensure_node (lp_assetCodeB p) (ensure_node (lp_assetCodeA p) adj)
     in add_neighbor (lp_assetCodeB p) (lp_assetCodeA p) p (add_neighbor (lp_assetCodeA p) (lp_assetCodeB p) p adj)) [] pools"

definition triangle_opportunity :: "int \<Rightarrow> jnum \<Rightarrow> string \<Rightarrow> neighbor \<Rightarrow> neighbor \<Rightarrow> neighbor \<Rightarrow> arbitrage_opportunity list" where
  "triangle_opportunity tm minSpread start n1 n2 n3 =
     (let cycleRate = js_mul (js_mul (nb_rate n1) (nb_rate n2)) (nb_rate n3);
          gain = js_sub cycleRate (Some 1);
          spreadPercent = js_mul gain (Some 100)
      in if js_leq minSpread spreadPercent then
           let tvlMin = js_min (js_min (parse_float (lp_tvl (nb_pool n1))) (parse_float (lp_tvl (nb_pool n2))))
                 (parse_float (lp_tvl (nb_pool n3)));
               maxProfitable = js_mul (js_mul tvlMin gain) (Some (fl (3/10)))
           in [\<lparr>ao_baseAsset = start, ao_quoteAsset = nb_neighbor n1,
                ao_cyclePools = [lp_id (nb_pool n1), lp_id (nb_pool n2), lp_id (nb_pool n3)],
                ao_estimatedProfit = js_num_str (js_mul maxProfitable gain),
                ao_maxProfitableSize = js_num_str maxProfitable, ao_spreadPercent = js_fixed 6 spreadPercent,
                ao_estimatedGasCost = ''300000'', ao_status = AR_DETECTED, ao_detectedAt = tm,
                ao_expiresAt = tm + 5 * 60 * 1000\<rparr>]
         else [])"

definition findTriangularArbitrage :: "int \<Rightarrow> jnum \<Rightarrow> liquidity_pool list \<Rightarrow> arbitrage_opportunity list" where
  "findTriangularArbitrage tm minSpread pools =
     (let adj = rate_adjacency pools in
      concat (map (\<lambda>start.
        concat (map (\<lambda>n1.
          concat (map (\<lambda>n2.
            if nb_neighbor n2 = start \<or> lp_id (nb_pool n2) = lp_id (nb_pool n1) then []
            else concat (map (\<lambda>n3.
              if nb_neighbor n3 \<noteq> start \<or> lp_id (nb_pool n3) = lp_id (nb_pool n1) \<or> lp_id (nb_pool n3) = lp_id (nb_pool n2)
              then [] else triangle_opportunity tm minSpread start n1 n2 n3)
              (neighbors adj (nb_neighbor n2))))
            (neighbors adj (nb_neighbor n1))))
          (neighbors adj start)))
        (map fst adj)))"

record arbitrage_scan =
  sc_opportunitiesFound :: nat
  sc_totalEstimatedProfit :: jnum
  sc_opportunities :: "arbitrage_opportunity list"
  sc_scannedAt :: int

definition stored_arb :: "liq_env \<Rightarrow> arbitrage_opportunity \<Rightarrow> arbitrage_opportunity" where
  "stored_arb e o1 = o1\<lparr>ao_estimatedProfit := le_numeric e 7 (ao_estimatedProfit o1),
     ao_maxProfitableSize := le_numeric e 7 (ao_maxProfitableSize o1),
     ao_spreadPercent := le_numeric e 6 (ao_spreadPercent o1), ao_estimatedGasCost := le_numeric e 0 (ao_estimatedGasCost o1)\<rparr>"

definition scanArbitrage :: "liq_env \<Rightarrow> jnum \<Rightarrow> liq_db \<Rightarrow> arbitrage_scan \<times> liq_db" where
  "scanArbitrage e minSpread db =
     (let pools = findActivePools db;
          pairs = concat (map (\<lambda>(k, ps). if length ps < 2 then [] else findArbitrageInPair (le_now e) minSpread ps)
                    (groupPoolsByAssetPair pools));
          opportunities = pairs @ findTriangularArbitrage (le_now e) minSpread pools;
          total = foldl (\<lambda>s x. js_add s (parse_float (ao_estimatedProfit x))) (Some 0) opportunities
      in (\<lparr>sc_opportunitiesFound = length opportunities, sc_totalEstimatedProfit = total,
           sc_opportunities = opportunities, sc_scannedAt = le_now e\<rparr>,
          db\<lparr>lq_arbs := lq_arbs db @ map (stored_arb e) opportunities\<rparr>))"

definition getActiveOpportunities :: "int \<Rightarrow> nat \<Rightarrow> nat \<Rightarrow> liq_db \<Rightarrow> arbitrage_opportunity list \<times> nat" where
  "getActiveOpportunities tm page limit db =
     (let rows = sort_key (\<lambda>x. case parse_float (ao_estimatedProfit x) of None \<Rightarrow> 0 | Some v \<Rightarrow> - v)
            (filter (\<lambda>x. ao_status x = AR_DETECTED \<and> ao_expiresAt x > tm) (lq_arbs db))
      in (take limit (drop ((page - 1) * limit) rows), length rows))"

end
