(* ===== verification/LiqRoutes.thy ===== *)
theory LiqRoutes
  imports LiqMonitor
begin

text \<open>
  The liquidity aggregator, second part: the route graph with its depth-limited search and its cache,
  the simulation of a route, the estimation of price impact, the splitter and the orchestrating
  service.

  The search threads the set \<open>visited\<close> the way the code mutates it. The language's recursion is a
  function here: the number of hops left is the measure of its termination.
\<close>

section \<open>Route graph\<close>

record route_result =
  rr_poolPath :: "string list"
  rr_assetPath :: "string list"
  rr_totalWeight :: jnum
  rr_estimatedOutput :: jnum
  rr_priceImpact :: jnum
  rr_estimatedGas :: jnum

definition edges_of :: "route_graph \<Rightarrow> string \<Rightarrow> graph_edge list" where
  "edges_of g a = (case map_of g a of None \<Rightarrow> [] | Some es \<Rightarrow> es)"

definition make_edge :: "liquidity_pool \<Rightarrow> string \<Rightarrow> graph_edge" where
  "make_edge p till =
     (let tvl = parse_float (lp_tvl p);
          feeRate = parse_float (lp_feeRate p);
          slippage = (if js_less (Some 0) tvl then js_min (Some (fl (5/100))) (js_div (Some 1000) tvl) else Some (fl (5/100)))
      in \<lparr>ge_targetAsset = till, ge_poolId = lp_id p, ge_pool = p, ge_weight = js_add feeRate slippage, ge_capacity = tvl\<rparr>)"

definition route_addEdge :: "liquidity_pool \<Rightarrow> string \<Rightarrow> string \<Rightarrow> route_graph \<Rightarrow> route_graph" where
  "route_addEdge p from till g = map_set from (edges_of g from @ [make_edge p till]) g"

definition buildGraph :: "liq_db \<Rightarrow> liq_db" where
  "buildGraph db =
     (let pools = findActivePools db
      in db\<lparr>lq_graph := foldl (\<lambda>g p. route_addEdge p (lp_assetCodeB p) (lp_assetCodeA p) (route_addEdge p (lp_assetCodeA p) (lp_assetCodeB p) g)) [] pools,
            lq_poolMap := foldl (\<lambda>m p. map_set (lp_id p) p m) [] pools\<rparr>)"

definition constantProductOutput :: "jnum \<Rightarrow> jnum \<Rightarrow> jnum \<Rightarrow> jnum \<Rightarrow> jnum" where
  "constantProductOutput reserveIn reserveOut feeRate amountIn =
     (let amountInWithFee = js_mul amountIn (js_sub (Some 1) feeRate);
          denominator = js_add reserveIn amountInWithFee
      in if js_less (Some 0) denominator then js_div (js_mul amountInWithFee reserveOut) denominator else Some 0)"

definition simulateSwap :: "liquidity_pool \<Rightarrow> jnum \<Rightarrow> jnum" where
  "simulateSwap p amountIn =
     (let tvl = parse_float (lp_tvl p) in
      if js_leq tvl (Some 0) then Some 0
      else let halfTvl = js_div tvl (Some 2) in constantProductOutput halfTvl halfTvl (parse_float (lp_feeRate p)) amountIn)"

definition impact_step :: "(string \<times> liquidity_pool) list \<Rightarrow> jnum \<times> jnum \<Rightarrow> string \<Rightarrow> jnum \<times> jnum" where
  "impact_step pm s i = (case s of (cumulative, amount) \<Rightarrow>
     case map_of pm i of None \<Rightarrow> s
     | Some p \<Rightarrow>
       let tvl = parse_float (lp_tvl p) in
       if js_leq tvl (Some 0) then s
       else let impact = js_min (js_div amount (js_div tvl (Some 2))) (Some 1)
            in (js_add cumulative (js_mul impact (js_sub (Some 1) cumulative)), js_mul amount (js_sub (Some 1) impact)))"

definition estimateRoutePriceImpact :: "(string \<times> liquidity_pool) list \<Rightarrow> string list \<Rightarrow> jnum \<Rightarrow> jnum" where
  "estimateRoutePriceImpact pm path amountIn = fst (foldl (impact_step pm) (Some 0, amountIn) path)"

definition found_route :: "(string \<times> liquidity_pool) list \<Rightarrow> string \<Rightarrow> jnum \<Rightarrow> string list \<Rightarrow> string list \<Rightarrow> jnum \<Rightarrow> route_result" where
  "found_route pm current amount poolPath assetPath weight =
     \<lparr>rr_poolPath = poolPath, rr_assetPath = assetPath @ [current], rr_totalWeight = weight,
      rr_estimatedOutput = amount, rr_priceImpact = estimateRoutePriceImpact pm poolPath amount,
      rr_estimatedGas = Some (of_nat (length poolPath * 100000))\<rparr>"

text \<open>
  The argument \<open>hops\<close> is \<^verbatim>\<open>maxHops - poolPath.length\<close>: a call with no hops left records a route
  that has arrived, and does nothing else.
\<close>

fun dfs :: "route_graph \<Rightarrow> (string \<times> liquidity_pool) list \<Rightarrow> string \<Rightarrow> nat \<Rightarrow> string \<Rightarrow> jnum \<Rightarrow> string list \<Rightarrow>
    string list \<Rightarrow> jnum \<Rightarrow> string set \<times> route_result list \<Rightarrow> string set \<times> route_result list" where
  "dfs g pm target 0 current amount poolPath assetPath weight st =
     (if current = target \<and> poolPath \<noteq> []
      then (fst st, snd st @ [found_route pm current amount poolPath assetPath weight]) else st)"
| "dfs g pm target (Suc hops) current amount poolPath assetPath weight st =
     (if current = target \<and> poolPath \<noteq> []
      then (fst st, snd st @ [found_route pm current amount poolPath assetPath weight])
      else case map_of g current of None \<Rightarrow> st
        | Some es \<Rightarrow>
            (case foldl (\<lambda>st e.
                 if ge_targetAsset e \<in> fst st then st
                 else let outputAmount = simulateSwap (ge_pool e) amount in
                   if js_leq outputAmount (Some 0) then st
                   else dfs g pm target hops (ge_targetAsset e) outputAmount (poolPath @ [ge_poolId e])
                     (assetPath @ [current]) (js_add weight (ge_weight e)) st)
               (insert current (fst st), snd st) es of
               (visited, results) \<Rightarrow> (visited - {current}, results)))"

section \<open>Route cache and search\<close>

definition getCachedRoute :: "liq_env \<Rightarrow> string \<Rightarrow> string \<Rightarrow> liq_db \<Rightarrow> route_result option" where
  "getCachedRoute e tokenIn tokenOut db =
     (case sort_key (\<lambda>c. - rc_createdAt c) (filter (\<lambda>c. rc_tokenIn c = tokenIn \<and> rc_tokenOut c = tokenOut) (lq_cache db)) of
        [] \<Rightarrow> None
      | c # _ \<Rightarrow> if rc_expiresAt c < le_now e then None
          else Some \<lparr>rr_poolPath = rc_poolPath c, rr_assetPath = [tokenIn] @ map (\<lambda>_. []) (rc_poolPath c) @ [tokenOut],
            rr_totalWeight = Some 0, rr_estimatedOutput = parse_float (rc_expectedOutput c),
            rr_priceImpact = parse_float (rc_priceImpact c), rr_estimatedGas = parse_float (rc_estimatedGas c)\<rparr>)"

definition cacheRoute :: "liq_env \<Rightarrow> string \<Rightarrow> string \<Rightarrow> route_result \<Rightarrow> liq_db \<Rightarrow> liq_db" where
  "cacheRoute e tokenIn tokenOut r db = db\<lparr>lq_cache := lq_cache db @
     [\<lparr>rc_tokenIn = tokenIn, rc_tokenOut = tokenOut, rc_poolPath = rr_poolPath r,
       rc_expectedOutput = le_numeric e 7 (js_num_str (rr_estimatedOutput r)),
       rc_priceImpact = le_numeric e 8 (js_num_str (rr_priceImpact r)),
       rc_estimatedGas = le_numeric e 0 (js_num_str (rr_estimatedGas r)),
       rc_confidence = le_numeric e 4 (js_fixed 4 (js_max (Some 0) (js_sub (Some 1) (rr_priceImpact r)))),
       rc_expiresAt = le_now e + 30000, rc_createdAt = le_now e\<rparr>]\<rparr>"

definition pruneExpiredCache :: "int \<Rightarrow> liq_db \<Rightarrow> nat \<times> liq_db" where
  "pruneExpiredCache tm db = (length (filter (\<lambda>c. rc_expiresAt c < tm) (lq_cache db)),
     db\<lparr>lq_cache := filter (\<lambda>c. \<not> rc_expiresAt c < tm) (lq_cache db)\<rparr>)"

definition output_cmp :: "route_result \<Rightarrow> route_result \<Rightarrow> jnum" where
  "output_cmp a b = js_sub (rr_estimatedOutput b) (rr_estimatedOutput a)"

definition search_routes :: "liq_db \<Rightarrow> string \<Rightarrow> string \<Rightarrow> jnum \<Rightarrow> nat \<Rightarrow> route_result list" where
  "search_routes db tokenIn tokenOut amountIn maxHops =
     snd (dfs (lq_graph db) (lq_poolMap db) tokenOut maxHops tokenIn amountIn [] [] (Some 0) ({}, []))"

definition findOptimalRoutes :: "liq_env \<Rightarrow> string \<Rightarrow> string \<Rightarrow> jnum \<Rightarrow> nat \<Rightarrow> nat \<Rightarrow> liq_db \<Rightarrow> route_result list \<times> liq_db" where
  "findOptimalRoutes e tokenIn tokenOut amountIn maxHops topN db =
     (let db1 = (if lq_graph db = [] then buildGraph db else db) in
      case (getCachedRoute e tokenIn tokenOut db1, topN = 1) of
        (Some c, True) \<Rightarrow> ([c], db1)
      | _ \<Rightarrow>
        let results = take topN (js_sort output_cmp (search_routes db1 tokenIn tokenOut amountIn maxHops))
        in (results, case results of [] \<Rightarrow> db1 | r # _ \<Rightarrow> cacheRoute e tokenIn tokenOut r db1))"

section \<open>Simulation of a route\<close>

record simulation_step =
  ss_poolId :: string
  ss_poolName :: string
  ss_tokenIn :: string
  ss_tokenOut :: string
  ss_amountIn :: jnum
  ss_amountOut :: jnum
  ss_fee :: jnum
  ss_priceImpact :: jnum
  ss_effectivePrice :: jnum

record simulation_result =
  sr_poolPath :: "string list"
  sr_inputAmount :: jnum
  sr_finalOutput :: jnum
  sr_executionPrice :: jnum
  sr_totalFees :: jnum
  sr_overallPriceImpact :: jnum
  sr_isFeasible :: bool
  sr_steps :: "simulation_step list"
  sr_estimatedGas :: nat
  sr_onChainValidated :: bool
  sr_simulatedAt :: int

definition MAX_ACCEPTABLE_IMPACT :: jnum where "MAX_ACCEPTABLE_IMPACT = Some (fl (1/10))"

definition loadPools :: "string list \<Rightarrow> liq_db \<Rightarrow> liquidity_pool list result" where
  "loadPools path db =
     (let pools = filter (\<lambda>p. lp_id p \<in> set path \<and> lp_status p = P_ACTIVE) (lq_pools db) in
      if length pools \<noteq> length path
      then Inl (BadRequest (''Pools not found or inactive: '' @ join_with '', '' (filter (\<lambda>i. i \<notin> lp_id ` set pools) path)))
      else Inr (map (\<lambda>i. the (find (\<lambda>p. lp_id p = i) pools)) path))"

definition determineOutputAsset :: "liquidity_pool \<Rightarrow> string \<Rightarrow> string" where
  "determineOutputAsset p inputAsset = (if lp_assetCodeA p = inputAsset then lp_assetCodeB p else lp_assetCodeA p)"

definition determineInputAsset :: "liquidity_pool \<Rightarrow> string \<Rightarrow> string" where
  "determineInputAsset p previousOutput = (if lp_assetCodeA p = previousOutput then lp_assetCodeB p else lp_assetCodeA p)"

text \<open>The loop over the pools; its accumulators are the amount, the fees, the factor of the impact and the steps.\<close>

fun sim_loop :: "liquidity_pool list \<Rightarrow> jnum \<times> jnum \<times> jnum \<times> simulation_step list \<Rightarrow> jnum \<times> jnum \<times> jnum \<times> simulation_step list" where
  "sim_loop [] st = st"
| "sim_loop (p # ps) (amount, fees, factor, steps) =
     (let previousAsset = (if steps = [] then lp_assetCodeA p else determineOutputAsset p (ss_tokenOut (last steps)));
          nextAsset = (if steps = [] then lp_assetCodeB p else determineInputAsset p (ss_tokenOut (last steps)));
          tvl = parse_float (lp_tvl p);
          feeRate = parse_float (lp_feeRate p)
      in if js_leq tvl (Some 0) then
           (amount, fees, factor, steps @ [\<lparr>ss_poolId = lp_id p, ss_poolName = lp_name p, ss_tokenIn = previousAsset,
              ss_tokenOut = nextAsset, ss_amountIn = amount, ss_amountOut = Some 0, ss_fee = Some 0,
              ss_priceImpact = Some 100, ss_effectivePrice = Some 0\<rparr>])
         else
           let reserve = js_div tvl (Some 2);
               amountOut = constantProductOutput reserve reserve feeRate amount;
               fee = js_mul amount feeRate;
               marketPrice = js_div reserve reserve;
               execPrice = js_div amountOut (js_or amount (Some 1));
               stepImpact = (if js_less (Some 0) marketPrice then js_div (js_sub marketPrice execPrice) marketPrice else Some 1)
           in sim_loop ps (amountOut, js_add fees fee, js_mul factor (js_sub (Some 1) stepImpact),
                steps @ [\<lparr>ss_poolId = lp_id p, ss_poolName = lp_name p, ss_tokenIn = previousAsset, ss_tokenOut = nextAsset,
                  ss_amountIn = amount, ss_amountOut = amountOut, ss_fee = fee,
                  ss_priceImpact = js_mul stepImpact (Some 100), ss_effectivePrice = execPrice\<rparr>]))"

definition simulateRoute :: "int \<Rightarrow> string list \<Rightarrow> jnum \<Rightarrow> jnum option \<Rightarrow> liq_db \<Rightarrow> simulation_result result" where
  "simulateRoute tm path amountIn minAmountOut db =
     (if path = [] then Inl (BadRequest ''Pool path must not be empty'')
      else rbind (loadPools path db) (\<lambda>pools.
        case sim_loop pools (amountIn, Some 0, Some 1, []) of (amount, fees, factor, steps) \<Rightarrow>
          let overall = js_mul (js_sub (Some 1) factor) (Some 100);
              feasible = (js_less (Some 0) amount \<and> js_less overall (js_mul MAX_ACCEPTABLE_IMPACT (Some 100)) \<and>
                (case minAmountOut of None \<Rightarrow> True | Some m \<Rightarrow> js_leq m amount))
          in Inr \<lparr>sr_poolPath = path, sr_inputAmount = amountIn, sr_finalOutput = amount,
               sr_executionPrice = (if js_less (Some 0) amountIn then js_div amount amountIn else Some 0),
               sr_totalFees = fees, sr_overallPriceImpact = overall, sr_isFeasible = feasible, sr_steps = steps,
               sr_estimatedGas = length pools * 100000, sr_onChainValidated = False, sr_simulatedAt = tm\<rparr>))"

fun result_list :: "'a result list \<Rightarrow> 'a list result" where
  "result_list [] = Inr []"
| "result_list (r # rs) = rbind r (\<lambda>x. rbind (result_list rs) (\<lambda>xs. Inr (x # xs)))"

definition simulateMultipleRoutes :: "int \<Rightarrow> (string list \<times> jnum) list \<Rightarrow> liq_db \<Rightarrow> simulation_result list result" where
  "simulateMultipleRoutes tm routes db =
     rbind (result_list (map (\<lambda>(path, amt). simulateRoute tm path amt None db) routes))
       (\<lambda>rs. Inr (js_sort (\<lambda>a b. js_sub (sr_finalOutput b) (sr_finalOutput a)) rs))"

record route_validation =
  rv_valid :: bool
  rv_reason :: string
  rv_simulatedOutput :: jnum

definition validateRoute :: "int \<Rightarrow> string list \<Rightarrow> jnum \<Rightarrow> jnum \<Rightarrow> liq_db \<Rightarrow> route_validation" where
  "validateRoute tm path amountIn minAmountOut db = (case simulateRoute tm path amountIn (Some minAmountOut) db of
       Inl err \<Rightarrow> \<lparr>rv_valid = False, rv_reason = ''Simulation failed: '' @ error_message err, rv_simulatedOutput = Some 0\<rparr>
     | Inr r \<Rightarrow>
         if \<not> sr_isFeasible r then
           let limit = js_mul MAX_ACCEPTABLE_IMPACT (Some 100);
               reasons = (if js_leq limit (sr_overallPriceImpact r)
                    then [''Price impact '' @ js_fixed 2 (sr_overallPriceImpact r) @ ''% exceeds '' @ js_num_str limit @ ''%''] else []) @
                 (if js_leq (sr_finalOutput r) (Some 0) then [''Zero output from route''] else []) @
                 (if js_less (sr_finalOutput r) minAmountOut
                    then [''Output '' @ js_num_str (sr_finalOutput r) @ '' below minimum '' @ js_num_str minAmountOut] else [])
           in \<lparr>rv_valid = False, rv_reason = join_with ''; '' reasons, rv_simulatedOutput = sr_finalOutput r\<rparr>
         else \<lparr>rv_valid = True, rv_reason = ''Route validated successfully'', rv_simulatedOutput = sr_finalOutput r\<rparr>)"

end
