(* ===== verification/LiqSplit.thy ===== *)
theory LiqSplit
  imports LiqRoutes
begin

text \<open>
  The liquidity aggregator, third part: the estimation of the price impact of a trade, the splitter that
  divides an order over several pools, and the orchestrating service.
\<close>

section \<open>Price impact\<close>

record price_impact_result =
  pi_poolId :: string
  pi_poolName :: string
  pi_inputAmount :: jnum
  pi_outputAmount :: jnum
  pi_marketPrice :: jnum
  pi_executionPrice :: jnum
  pi_priceImpactPercent :: jnum
  pi_estimatedSlippage :: jnum
  pi_isFeasible :: bool
  pi_maxInputBeforeHighImpact :: jnum

definition computeImpact :: "jnum \<Rightarrow> jnum \<Rightarrow> jnum \<Rightarrow> jnum \<Rightarrow> jnum" where
  "computeImpact reserveIn reserveOut feeRate amountIn =
     (let marketPrice = js_div reserveOut reserveIn;
          amountInWithFee = js_mul amountIn (js_sub (Some 1) feeRate);
          output = js_div (js_mul amountInWithFee reserveOut) (js_add reserveIn amountInWithFee);
          execPrice = (if js_less (Some 0) amountIn then js_div output amountIn else Some 0)
      in if js_less (Some 0) marketPrice then js_div (js_sub marketPrice execPrice) marketPrice else Some 0)"

fun bisect :: "nat \<Rightarrow> (jnum \<Rightarrow> jnum) \<Rightarrow> jnum \<Rightarrow> jnum \<Rightarrow> jnum \<Rightarrow> jnum" where
  "bisect 0 impact threshold low high = low"
| "bisect (Suc n) impact threshold low high =
     (let mid = js_div (js_add low high) (Some 2) in
      if js_less (impact mid) threshold then bisect n impact threshold mid high
      else bisect n impact threshold low mid)"

definition findMaxInputForImpact :: "jnum \<Rightarrow> jnum \<Rightarrow> jnum \<Rightarrow> jnum \<Rightarrow> jnum" where
  "findMaxInputForImpact reserveIn reserveOut feeRate threshold =
     (if js_leq reserveIn (Some 0) then Some 0
      else map_option (\<lambda>x. of_int \<lfloor>x\<rfloor>)
        (bisect 50 (computeImpact reserveIn reserveOut feeRate) threshold (Some 0) (js_mul reserveIn (Some 10))))"

definition impact_emptyResult :: "liquidity_pool \<Rightarrow> jnum \<Rightarrow> price_impact_result" where
  "impact_emptyResult p amountIn = \<lparr>pi_poolId = lp_id p, pi_poolName = lp_name p, pi_inputAmount = amountIn,
     pi_outputAmount = Some 0, pi_marketPrice = Some 0, pi_executionPrice = Some 0, pi_priceImpactPercent = Some 100,
     pi_estimatedSlippage = Some 100, pi_isFeasible = False, pi_maxInputBeforeHighImpact = Some 0\<rparr>"

definition calculatePoolImpact :: "liquidity_pool \<Rightarrow> jnum \<Rightarrow> price_impact_result" where
  "calculatePoolImpact p amountIn =
     (let tvl = parse_float (lp_tvl p); feeRate = parse_float (lp_feeRate p) in
      if js_leq tvl (Some 0) then impact_emptyResult p amountIn
      else let reserve = js_div tvl (Some 2);
               marketPrice = js_div reserve reserve;
               outputAmount = constantProductOutput reserve reserve feeRate amountIn;
               executionPrice = (if js_less (Some 0) amountIn then js_div outputAmount amountIn else Some 0);
               percent = (if js_less (Some 0) marketPrice
                 then js_mul (js_div (js_sub marketPrice executionPrice) marketPrice) (Some 100) else Some 0)
           in \<lparr>pi_poolId = lp_id p, pi_poolName = lp_name p, pi_inputAmount = amountIn, pi_outputAmount = outputAmount,
               pi_marketPrice = marketPrice, pi_executionPrice = executionPrice, pi_priceImpactPercent = percent,
               pi_estimatedSlippage = js_mul (js_min (js_div amountIn reserve) (Some 1)) (Some 100),
               pi_isFeasible = js_less percent (Some 5),
               pi_maxInputBeforeHighImpact = findMaxInputForImpact reserve reserve feeRate (Some (fl (5/100)))\<rparr>)"

record impact_comparison =
  ic_tokenIn :: string
  ic_tokenOut :: string
  ic_amountIn :: jnum
  ic_results :: "price_impact_result list"
  ic_bestPool :: "price_impact_result option"

definition better_impact :: "price_impact_result \<Rightarrow> price_impact_result \<Rightarrow> price_impact_result" where
  "better_impact best r = (if js_less (pi_outputAmount best) (pi_outputAmount r) then r else best)"

definition estimatePriceImpact ::
    "string \<Rightarrow> string option \<Rightarrow> string \<Rightarrow> string option \<Rightarrow> jnum \<Rightarrow> string option \<Rightarrow> liq_db \<Rightarrow> impact_comparison" where
  "estimatePriceImpact tokenIn ii tokenOut io amountIn poolId db =
     (let pools = (if truthy poolId then (case row_by lp_id (the poolId) (lq_pools db) of None \<Rightarrow> [] | Some p \<Rightarrow> [p])
                   else getPoolsForPair tokenIn ii tokenOut io db);
          results = map (\<lambda>p. calculatePoolImpact p amountIn) pools;
          feasible = filter pi_isFeasible results
      in \<lparr>ic_tokenIn = tokenIn, ic_tokenOut = tokenOut, ic_amountIn = amountIn, ic_results = results,
          ic_bestPool = (case feasible of [] \<Rightarrow> None | r # rs \<Rightarrow> Some (foldl better_impact r rs))\<rparr>)"

section \<open>Splitter\<close>

record split_allocation =
  sa_poolId :: string
  sa_poolName :: string
  sa_fraction :: jnum
  sa_amountIn :: jnum
  sa_expectedOutput :: jnum
  sa_priceImpact :: jnum

record split_result =
  sp_tokenIn :: string
  sp_tokenOut :: string
  sp_totalAmountIn :: jnum
  sp_totalExpectedOutput :: jnum
  sp_blendedPrice :: jnum
  sp_improvementOverSingle :: jnum
  sp_splitCount :: nat
  sp_allocations :: "split_allocation list"

definition simulateMarginalSwap :: "liquidity_pool \<Rightarrow> jnum \<Rightarrow> jnum \<Rightarrow> jnum" where
  "simulateMarginalSwap p currentInput marginalAmount =
     (let tvl = parse_float (lp_tvl p); feeRate = parse_float (lp_feeRate p) in
      if js_leq tvl (Some 0) then Some 0
      else let reserve = js_div tvl (Some 2);
               totalOutput = constantProductOutput reserve reserve feeRate (js_add currentInput marginalAmount);
               currentOutput = constantProductOutput reserve reserve feeRate currentInput
           in js_max (Some 0) (js_sub totalOutput currentOutput))"

definition computeSingleImpact :: "liquidity_pool \<Rightarrow> jnum \<Rightarrow> jnum" where
  "computeSingleImpact p amountIn =
     (let tvl = parse_float (lp_tvl p) in
      if js_leq tvl (Some 0) then Some 100
      else let reserve = js_div tvl (Some 2);
               execPrice = js_div (constantProductOutput reserve reserve (parse_float (lp_feeRate p)) amountIn) (js_or amountIn (Some 1))
           in js_mul (js_div (js_sub (Some 1) execPrice) (Some 1)) (Some 100))"

text \<open>
  \<open>allocated\<close> and \<open>allocations\<close> are maps by pool; the best pool of a step starts as the first one with
  an output of zero.
\<close>

type_synonym split_state = "(string \<times> jnum) list \<times> (string \<times> split_allocation) list"

definition input_of :: "(string \<times> jnum) list \<Rightarrow> string \<Rightarrow> jnum" where
  "input_of allocated i = (case map_of allocated i of None \<Rightarrow> Some 0 | Some x \<Rightarrow> x)"

definition best_step :: "(string \<times> jnum) list \<Rightarrow> jnum \<Rightarrow> liquidity_pool list \<Rightarrow> string \<times> jnum" where
  "best_step allocated stepAmount pools =
     foldl (\<lambda>(bestId, best) p.
        let marginal = simulateMarginalSwap p (input_of allocated (lp_id p)) stepAmount
        in if js_less best marginal then (lp_id p, marginal) else (bestId, best))
       (lp_id (hd pools), Some 0) pools"

definition allocate_step :: "liquidity_pool list \<Rightarrow> jnum \<Rightarrow> split_state \<Rightarrow> split_state" where
  "allocate_step pools stepAmount st = (case st of (allocated, allocations) \<Rightarrow>
     case best_step allocated stepAmount pools of (bestId, best) \<Rightarrow>
       let a = the (map_of allocations bestId)
       in (map_set bestId (js_add (input_of allocated bestId) stepAmount) allocated,
           map_set bestId (a\<lparr>sa_amountIn := js_add (sa_amountIn a) stepAmount,
             sa_expectedOutput := js_add (sa_expectedOutput a) best\<rparr>) allocations))"

fun allocate_loop :: "liquidity_pool list \<Rightarrow> jnum \<Rightarrow> nat \<Rightarrow> jnum \<Rightarrow> split_state \<Rightarrow> split_state" where
  "allocate_loop pools stepSize 0 remaining st = st"
| "allocate_loop pools stepSize (Suc n) remaining st =
     (if js_less (Some 0) remaining then
        let stepAmount = js_min stepSize remaining
        in allocate_loop pools stepSize n (js_sub remaining stepAmount) (allocate_step pools stepAmount st)
      else st)"

definition split_init :: "liquidity_pool list \<Rightarrow> split_state" where
  "split_init pools = foldl (\<lambda>(allocated, allocations) p. (map_set (lp_id p) (Some 0) allocated,
     map_set (lp_id p) \<lparr>sa_poolId = lp_id p, sa_poolName = lp_name p, sa_fraction = Some 0, sa_amountIn = Some 0,
       sa_expectedOutput = Some 0, sa_priceImpact = Some 0\<rparr> allocations)) ([], []) pools"

definition finish_allocation :: "jnum \<Rightarrow> (string \<times> split_allocation) list \<Rightarrow> liquidity_pool \<Rightarrow> split_allocation list" where
  "finish_allocation totalAmount allocations p = (let a = the (map_of allocations (lp_id p)) in
     if js_leq (sa_amountIn a) (Some 0) then []
     else [a\<lparr>sa_fraction := js_div (sa_amountIn a) totalAmount, sa_priceImpact := computeSingleImpact p (sa_amountIn a)\<rparr>])"

definition split_steps :: "jnum \<Rightarrow> nat" where
  "split_steps totalAmount = (case js_div totalAmount (js_div totalAmount (Some 100)) of None \<Rightarrow> 0 | Some x \<Rightarrow> nat \<lceil>x\<rceil>)"

definition greedyAllocate :: "liquidity_pool list \<Rightarrow> jnum \<Rightarrow> split_allocation list" where
  "greedyAllocate pools totalAmount =
     (case allocate_loop pools (js_div totalAmount (Some 100)) (split_steps totalAmount) totalAmount (split_init pools) of (allocated, allocations) \<Rightarrow>
        js_sort (\<lambda>a b. js_sub (sa_amountIn b) (sa_amountIn a)) (concat (map (finish_allocation totalAmount allocations) pools)))"

definition bestSinglePoolOutput :: "liquidity_pool list \<Rightarrow> jnum \<Rightarrow> jnum" where
  "bestSinglePoolOutput pools amountIn =
     foldl (\<lambda>best p. let output = simulateMarginalSwap p (Some 0) amountIn in if js_less best output then output else best) (Some 0) pools"

definition split_emptyResult :: "string \<Rightarrow> string \<Rightarrow> jnum \<Rightarrow> split_result" where
  "split_emptyResult tokenIn tokenOut amountIn = \<lparr>sp_tokenIn = tokenIn, sp_tokenOut = tokenOut, sp_totalAmountIn = amountIn,
     sp_totalExpectedOutput = Some 0, sp_blendedPrice = Some 0, sp_improvementOverSingle = Some 0, sp_splitCount = 0,
     sp_allocations = []\<rparr>"

definition findOptimalSplit ::
    "string \<Rightarrow> string option \<Rightarrow> string \<Rightarrow> string option \<Rightarrow> jnum \<Rightarrow> nat \<Rightarrow> liq_db \<Rightarrow> split_result" where
  "findOptimalSplit tokenIn ii tokenOut io amountIn numSplits db =
     (let pools = getPoolsForPair tokenIn ii tokenOut io db in
      if pools = [] then split_emptyResult tokenIn tokenOut amountIn
      else let activePools = take numSplits pools;
               allocations = greedyAllocate activePools amountIn;
               totalOutput = foldl (\<lambda>s a. js_add s (sa_expectedOutput a)) (Some 0) allocations;
               single = bestSinglePoolOutput activePools amountIn
           in \<lparr>sp_tokenIn = tokenIn, sp_tokenOut = tokenOut, sp_totalAmountIn = amountIn,
               sp_totalExpectedOutput = totalOutput,
               sp_blendedPrice = (if js_less (Some 0) amountIn then js_div totalOutput amountIn else Some 0),
               sp_improvementOverSingle = (if js_less (Some 0) single
                 then js_mul (js_div (js_sub totalOutput single) single) (Some 100) else Some 0),
               sp_splitCount = length allocations, sp_allocations = allocations\<rparr>)"

section \<open>The orchestrating service\<close>

definition findBestRoute :: "liq_env \<Rightarrow> string \<Rightarrow> string \<Rightarrow> jnum \<Rightarrow> nat \<Rightarrow> liq_db \<Rightarrow>
    (route_result \<times> simulation_result) result \<times> liq_db" where
  "findBestRoute e tokenIn tokenOut amountIn maxHops db =
     (case findOptimalRoutes e tokenIn tokenOut amountIn maxHops 1 db of (routes, db') \<Rightarrow>
        (case routes of [] \<Rightarrow> Inl (PlainError (''No route found from '' @ tokenIn @ '' to '' @ tokenOut))
         | route # _ \<Rightarrow> rbind (simulateRoute (le_now e) (rr_poolPath route) amountIn None db') (\<lambda>sim. Inr (route, sim)), db'))"

definition findMultipleRoutes :: "liq_env \<Rightarrow> string \<Rightarrow> string \<Rightarrow> jnum \<Rightarrow> nat \<Rightarrow> nat \<Rightarrow> liq_db \<Rightarrow>
    (route_result list \<times> simulation_result list) result \<times> liq_db" where
  "findMultipleRoutes e tokenIn tokenOut amountIn maxHops topN db =
     (case findOptimalRoutes e tokenIn tokenOut amountIn maxHops topN db of (routes, db') \<Rightarrow>
        (rbind (result_list (map (\<lambda>r. simulateRoute (le_now e) (rr_poolPath r) amountIn None db') routes)) (\<lambda>sims. Inr (routes, sims)), db'))"

definition splitRoute :: "string \<Rightarrow> string option \<Rightarrow> string \<Rightarrow> string option \<Rightarrow> jnum \<Rightarrow> nat option \<Rightarrow> liq_db \<Rightarrow> split_result" where
  "splitRoute tokenIn ii tokenOut io amountIn numSplits db =
     findOptimalSplit tokenIn ii tokenOut io amountIn (case numSplits of None \<Rightarrow> 3 | Some n \<Rightarrow> n) db"

record system_health =
  sh_poolCount :: nat
  sh_activePoolCount :: nat
  sh_activeArbOpportunities :: nat
  sh_alerts :: "pool_alert list"
  sh_graphBuiltAt :: int

definition getSystemHealth :: "liq_env \<Rightarrow> liq_db \<Rightarrow> system_health \<times> liq_db" where
  "getSystemHealth e db =
     (let pools = findActivePools db in
      case scanArbitrage e (Some (fl (1/10))) db of (arb, db') \<Rightarrow>
        (\<lparr>sh_poolCount = length pools, sh_activePoolCount = length pools,
          sh_activeArbOpportunities = sc_opportunitiesFound arb, sh_alerts = scanPoolHealth (le_now e) db,
          sh_graphBuiltAt = le_now e\<rparr>, db'))"

end
