(* ===== verification/Liq_Props.thy ===== *)
theory Liq_Props
  imports LiqSplit
begin

text \<open>
  Properties of the liquidity aggregator: the depth-limited search finds exactly the simple routes and
  the best of them is returned; what the cache, the never rebuilt graph and the simulation of
  empty pools do to the answers; and that the search for triangles cannot succeed.
\<close>

section \<open>The search finds every simple route\<close>

text \<open>A chain of edges that starts at an asset with an amount; every hop has a positive output.\<close>

fun is_path :: "route_graph \<Rightarrow> string \<Rightarrow> jnum \<Rightarrow> graph_edge list \<Rightarrow> bool" where
  "is_path g a x [] = True"
| "is_path g a x (e # es) = (e \<in> set (edges_of g a) \<and> \<not> js_leq (simulateSwap (ge_pool e) x) (Some 0) \<and>
     is_path g (ge_targetAsset e) (simulateSwap (ge_pool e) x) es)"

fun out_amount :: "jnum \<Rightarrow> graph_edge list \<Rightarrow> jnum" where
  "out_amount x [] = x"
| "out_amount x (e # es) = out_amount (simulateSwap (ge_pool e) x) es"

definition path_assets :: "string \<Rightarrow> graph_edge list \<Rightarrow> string list" where
  "path_assets a es = a # map ge_targetAsset es"

definition path_route :: "(string \<times> liquidity_pool) list \<Rightarrow> string \<Rightarrow> jnum \<Rightarrow> string list \<Rightarrow> string list \<Rightarrow> jnum \<Rightarrow> graph_edge list \<Rightarrow> route_result" where
  "path_route pm a x pp ap w es = found_route pm (last (path_assets a es)) (out_amount x es) (pp @ map ge_poolId es)
     (ap @ butlast (path_assets a es)) (foldl (\<lambda>w e. js_add w (ge_weight e)) w es)"

definition good_path :: "route_graph \<Rightarrow> string \<Rightarrow> nat \<Rightarrow> string \<Rightarrow> jnum \<Rightarrow> bool \<Rightarrow> string set \<Rightarrow> graph_edge list \<Rightarrow> bool" where
  "good_path g target hops a x started V es \<longleftrightarrow> is_path g a x es \<and> length es \<le> hops \<and> last (path_assets a es) = target \<and>
     distinct (path_assets a es) \<and> set (map ge_targetAsset es) \<inter> V = {} \<and> (es \<noteq> [] \<or> started)"

lemma path_assets_simps [simp]: "path_assets a [] = [a]" "path_assets a (e # es) = a # path_assets (ge_targetAsset e) es"
  by (simp_all add: path_assets_def)

lemma path_assets_neq [simp]: "path_assets a es \<noteq> []"
  by (simp add: path_assets_def)

lemma path_route_Cons:
  "path_route pm a x pp ap w (e # es) =
     path_route pm (ge_targetAsset e) (simulateSwap (ge_pool e) x) (pp @ [ge_poolId e]) (ap @ [a]) (js_add w (ge_weight e)) es"
  by (simp add: path_route_def)

lemma good_path_Cons:
  "good_path g target (Suc hops) a x started V (e # es) \<longleftrightarrow> a \<noteq> target \<and> e \<in> set (edges_of g a) \<and>
     ge_targetAsset e \<notin> insert a V \<and> \<not> js_leq (simulateSwap (ge_pool e) x) (Some 0) \<and>
     good_path g target hops (ge_targetAsset e) (simulateSwap (ge_pool e) x) True (insert a V) es"
proof -
  have "set (path_assets b es) = insert b (ge_targetAsset ` set es)" for b by (simp add: path_assets_def)
  moreover have "last (path_assets b es) \<in> set (path_assets b es)" for b by (rule last_in_set) simp
  ultimately show ?thesis by (auto simp: good_path_def)
qed

lemma good_path_0: "good_path g target 0 a x started V es \<longleftrightarrow> es = [] \<and> a = target \<and> started"
  by (auto simp: good_path_def)

lemma good_path_Nil: "good_path g target hops a x started V [] \<longleftrightarrow> a = target \<and> started"
  by (auto simp: good_path_def)

lemma good_paths_arrived: "good_path g target hops target x True V es \<longleftrightarrow> es = []"
proof (cases es)
  case (Cons e es')
  then show ?thesis by (cases hops) (auto simp: good_path_0 good_path_Cons)
qed (simp add: good_path_Nil)

lemma good_path_visited: "b \<notin> V \<Longrightarrow> target \<in> V \<Longrightarrow> \<not> good_path g target hops b y started V es"
proof
  assume a: "b \<notin> V" "target \<in> V" "good_path g target hops b y started V es"
  have "last (path_assets b es) \<in> set (path_assets b es)" by (rule last_in_set) simp
  with a show False by (auto simp: good_path_def path_assets_def)
qed

lemma UN_image_Collect: "(\<Union>e \<in> A. F e ` {x. P e x}) = {y. \<exists>e x. e \<in> A \<and> P e x \<and> y = F e x}"
  by blast

lemma dfs_spec:
  assumes "a \<notin> V"
  shows "\<exists>new. dfs g pm target hops a x pp ap w (V, R) = (V, R @ new) \<and>
    set new = path_route pm a x pp ap w ` {es. good_path g target hops a x (pp \<noteq> []) V es}"
  using assms
proof (induction hops arbitrary: a x pp ap w V R)
  case 0
  have "{es. good_path g target 0 a x (pp \<noteq> []) V es} = (if a = target \<and> pp \<noteq> [] then {[]} else {})"
    by (auto simp: good_path_0)
  then show ?case by (auto simp: path_route_def)
next
  case (Suc hops)
  show ?case
  proof (cases "a = target \<and> pp \<noteq> []")
    case True
    then have "{es. good_path g target (Suc hops) a x (pp \<noteq> []) V es} = {[]}" by (auto simp: good_paths_arrived)
    with True show ?thesis by (auto simp: path_route_def)
  next
    case False
    let ?f = "\<lambda>st e. if ge_targetAsset e \<in> fst st then st
                 else let outputAmount = simulateSwap (ge_pool e) x in
                   if js_leq outputAmount (Some 0) then st
                   else dfs g pm target hops (ge_targetAsset e) outputAmount (pp @ [ge_poolId e])
                     (ap @ [a]) (js_add w (ge_weight e)) st"
    let ?sub = "\<lambda>e. path_route pm (ge_targetAsset e) (simulateSwap (ge_pool e) x) (pp @ [ge_poolId e]) (ap @ [a]) (js_add w (ge_weight e)) `
        {es. ge_targetAsset e \<notin> insert a V \<and> \<not> js_leq (simulateSwap (ge_pool e) x) (Some 0) \<and>
          good_path g target hops (ge_targetAsset e) (simulateSwap (ge_pool e) x) True (insert a V) es}"
    have loop: "\<exists>new. foldl ?f (insert a V, R) edges = (insert a V, R @ new) \<and> set new = (\<Union>e \<in> set edges. ?sub e)" for edges R
    proof (induction edges arbitrary: R)
      case (Cons e edges)
      have "\<exists>new. ?f (insert a V, R) e = (insert a V, R @ new) \<and> set new = ?sub e"
      proof (cases "ge_targetAsset e \<in> insert a V \<or> js_leq (simulateSwap (ge_pool e) x) (Some 0)")
        case True
        then show ?thesis by (auto simp: Let_def)
      next
        case ok: False
        from Suc.IH [of "ge_targetAsset e" "insert a V" "simulateSwap (ge_pool e) x" "pp @ [ge_poolId e]" "ap @ [a]" "js_add w (ge_weight e)" R] ok
        show ?thesis by (simp add: Let_def)
      qed
      then obtain n1 where n1: "?f (insert a V, R) e = (insert a V, R @ n1)" "set n1 = ?sub e" by blast
      from Cons.IH [of "R @ n1"] obtain n2 where n2: "foldl ?f (insert a V, R @ n1) edges = (insert a V, R @ n1 @ n2)"
        "set n2 = (\<Union>e \<in> set edges. ?sub e)" by auto
      have "foldl ?f (insert a V, R) (e # edges) = (insert a V, R @ (n1 @ n2))" using n1(1) n2(1) by simp
      moreover have "set (n1 @ n2) = (\<Union>e \<in> set (e # edges). ?sub e)" using n1(2) n2(2) by simp
      ultimately show ?case by blast
    qed simp
    have sets: "path_route pm a x pp ap w ` {es. good_path g target (Suc hops) a x (pp \<noteq> []) V es}
        = (if a = target then {} else (\<Union>e \<in> set (edges_of g a). ?sub e))"
    proof -
      let ?P = "good_path g target (Suc hops) a x (pp \<noteq> []) V"
      have nil: "\<not> ?P []" using False by (auto simp: good_path_Nil)
      have ex: "(\<exists>es. ?P es \<and> Q es) \<longleftrightarrow> (\<exists>e es. ?P (e # es) \<and> Q (e # es))" for Q
        using nil by (metis list.exhaust)
      have iff: "r \<in> path_route pm a x pp ap w ` {es. ?P es} \<longleftrightarrow>
          (\<exists>e es. ?P (e # es) \<and> r = path_route pm a x pp ap w (e # es))" for r
        using ex [of "\<lambda>es. r = path_route pm a x pp ap w es"] by (simp only: image_iff Bex_def mem_Collect_eq)
      show ?thesis
      proof (rule set_eqI)
        fix r
        show "r \<in> path_route pm a x pp ap w ` {es. good_path g target (Suc hops) a x (pp \<noteq> []) V es} \<longleftrightarrow>
          r \<in> (if a = target then {} else (\<Union>e \<in> set (edges_of g a). ?sub e))"
          unfolding iff good_path_Cons path_route_Cons UN_image_Collect by (cases "a = target") simp_all
      qed
    qed
    show ?thesis
    proof (cases "map_of g a")
      case None
      then have "edges_of g a = []" by (simp add: edges_of_def)
      with sets have "path_route pm a x pp ap w ` {es. good_path g target (Suc hops) a x (pp \<noteq> []) V es} = {}" by simp
      moreover have "dfs g pm target (Suc hops) a x pp ap w (V, R) = (V, R)" using None False by auto
      ultimately show ?thesis by (intro exI [of _ "[]"]) simp
    next
      case (Some edges)
      then have ed: "edges_of g a = edges" by (simp add: edges_of_def)
      from loop [of R edges] obtain new where new: "foldl ?f (insert a V, R) edges = (insert a V, R @ new)"
        "set new = (\<Union>e \<in> set edges. ?sub e)" by blast
      have "dfs g pm target (Suc hops) a x pp ap w (V, R) = (insert a V - {a}, R @ new)" using False Some new(1) by (simp split del: if_split) auto
      moreover have "insert a V - {a} = V" using Suc.prems by simp
      moreover have "set new = path_route pm a x pp ap w ` {es. good_path g target (Suc hops) a x (pp \<noteq> []) V es}"
        using new(2) sets ed by (auto simp: good_path_visited)
      ultimately show ?thesis by auto
    qed
  qed
qed

section \<open>Routes in terms of pools\<close>

type_synonym hop = "liquidity_pool \<times> string"

text \<open>A sequence of swaps: each goes through a pool of the current asset to the other asset of the pool, with a positive output.\<close>

fun swap_path :: "liquidity_pool list \<Rightarrow> string \<Rightarrow> jnum \<Rightarrow> hop list \<Rightarrow> bool" where
  "swap_path pools a x [] = True"
| "swap_path pools a x ((p, b) # hs) = (p \<in> set pools \<and>
     (lp_assetCodeA p = a \<and> lp_assetCodeB p = b \<or> lp_assetCodeB p = a \<and> lp_assetCodeA p = b) \<and>
     \<not> js_leq (simulateSwap p x) (Some 0) \<and> swap_path pools b (simulateSwap p x) hs)"

fun swap_out :: "jnum \<Rightarrow> hop list \<Rightarrow> jnum" where
  "swap_out x [] = x"
| "swap_out x ((p, b) # hs) = swap_out (simulateSwap p x) hs"

definition simple_route :: "liquidity_pool list \<Rightarrow> string \<Rightarrow> string \<Rightarrow> jnum \<Rightarrow> nat \<Rightarrow> hop list \<Rightarrow> bool" where
  "simple_route pools tokenIn tokenOut x maxHops hs \<longleftrightarrow> swap_path pools tokenIn x hs \<and> hs \<noteq> [] \<and> length hs \<le> maxHops \<and>
     last (map snd hs) = tokenOut \<and> distinct (tokenIn # map snd hs)"

definition hop_edge :: "hop \<Rightarrow> graph_edge" where
  "hop_edge h = make_edge (fst h) (snd h)"

lemma hop_edge_sel [simp]: "ge_targetAsset (hop_edge h) = snd h" "ge_pool (hop_edge h) = fst h" "ge_poolId (hop_edge h) = lp_id (fst h)"
  by (simp_all add: hop_edge_def make_edge_def Let_def)

lemma edges_of_addEdge: "edges_of (route_addEdge p from till g) a = edges_of g a @ (if a = from then [make_edge p till] else [])"
  by (simp add: edges_of_def route_addEdge_def)

definition pool_edges :: "string \<Rightarrow> liquidity_pool \<Rightarrow> graph_edge list" where
  "pool_edges a p = (if a = lp_assetCodeA p then [make_edge p (lp_assetCodeB p)] else []) @
     (if a = lp_assetCodeB p then [make_edge p (lp_assetCodeA p)] else [])"

lemma edges_of_buildGraph: "edges_of (lq_graph (buildGraph db)) a = concat (map (pool_edges a) (findActivePools db))"
proof -
  have "edges_of (foldl (\<lambda>g p. route_addEdge p (lp_assetCodeB p) (lp_assetCodeA p) (route_addEdge p (lp_assetCodeA p) (lp_assetCodeB p) g)) g ps) a
      = edges_of g a @ concat (map (pool_edges a) ps)" for g ps
    by (induction ps arbitrary: g) (simp_all add: edges_of_addEdge pool_edges_def)
  from this [of "[]"] show ?thesis by (simp add: buildGraph_def Let_def edges_of_def)
qed

lemma pool_edges_iff:
  "e \<in> set (edges_of (lq_graph (buildGraph db)) a) \<longleftrightarrow> (\<exists>p b. p \<in> set (findActivePools db) \<and>
     (lp_assetCodeA p = a \<and> lp_assetCodeB p = b \<or> lp_assetCodeB p = a \<and> lp_assetCodeA p = b) \<and> e = hop_edge (p, b))"
  by (auto simp: edges_of_buildGraph pool_edges_def hop_edge_def split: if_splits)

lemma is_path_hops:
  "is_path (lq_graph (buildGraph db)) a x es \<longleftrightarrow> (\<exists>hs. es = map hop_edge hs \<and> swap_path (findActivePools db) a x hs)"
proof (induction es arbitrary: a x)
  case (Cons e es)
  show ?case
  proof
    assume "is_path (lq_graph (buildGraph db)) a x (e # es)"
    then obtain p b where e: "p \<in> set (findActivePools db)" "e = hop_edge (p, b)"
        "lp_assetCodeA p = a \<and> lp_assetCodeB p = b \<or> lp_assetCodeB p = a \<and> lp_assetCodeA p = b"
      and "\<not> js_leq (simulateSwap p x) (Some 0)" "is_path (lq_graph (buildGraph db)) b (simulateSwap p x) es"
      by (auto simp: pool_edges_iff)
    moreover from this(5) obtain hs where "es = map hop_edge hs" "swap_path (findActivePools db) b (simulateSwap p x) hs"
      unfolding Cons.IH by blast
    ultimately show "\<exists>hs. e # es = map hop_edge hs \<and> swap_path (findActivePools db) a x hs"
      by (intro exI [of _ "(p, b) # hs"]) simp
  next
    assume "\<exists>hs. e # es = map hop_edge hs \<and> swap_path (findActivePools db) a x hs"
    then obtain h hs where h: "e = hop_edge h" "es = map hop_edge hs" "swap_path (findActivePools db) a x (h # hs)"
      by (auto simp: Cons_eq_map_conv)
    obtain p b where pb: "h = (p, b)" by fastforce
    have "is_path (lq_graph (buildGraph db)) b (simulateSwap p x) es" unfolding Cons.IH using h pb by auto
    moreover have "e \<in> set (edges_of (lq_graph (buildGraph db)) a)" unfolding pool_edges_iff using h pb by auto
    ultimately show "is_path (lq_graph (buildGraph db)) a x (e # es)" using h pb by simp
  qed
qed simp

lemma out_amount_hops: "out_amount x (map hop_edge hs) = swap_out x hs"
  by (induction x hs rule: swap_out.induct) simp_all

lemma search_routes_iff:
  assumes "lq_graph db' = lq_graph (buildGraph db)"
  shows "r \<in> set (search_routes db' i out x mh) \<longleftrightarrow>
    (\<exists>hs. simple_route (findActivePools db) i out x mh hs \<and> r = path_route (lq_poolMap db') i x [] [] (Some 0) (map hop_edge hs))"
proof -
  obtain new where new: "dfs (lq_graph db') (lq_poolMap db') out mh i x [] [] (Some 0) ({}, []) = ({}, [] @ new)"
    "set new = path_route (lq_poolMap db') i x [] [] (Some 0) ` {es. good_path (lq_graph db') out mh i x False {} es}"
    using dfs_spec [of i "{}" "lq_graph db'" "lq_poolMap db'" out mh x "[]" "[]" "Some 0" "[]"] by auto
  have "good_path (lq_graph db') out mh i x False {} es \<longleftrightarrow> (\<exists>hs. es = map hop_edge hs \<and> simple_route (findActivePools db) i out x mh hs)" for es
  proof -
    have assets: "path_assets i (map hop_edge hs) = i # map snd hs" for hs by (simp add: path_assets_def comp_def)
    have "good_path (lq_graph db') out mh i x False {} (map hop_edge hs) \<longleftrightarrow> simple_route (findActivePools db) i out x mh hs" if
      "swap_path (findActivePools db) i x hs" for hs
      using that unfolding good_path_def simple_route_def assms is_path_hops assets by auto
    moreover have "good_path (lq_graph db') out mh i x False {} es \<Longrightarrow> \<exists>hs. es = map hop_edge hs \<and> swap_path (findActivePools db) i x hs"
      unfolding good_path_def assms is_path_hops by blast
    moreover have "simple_route (findActivePools db) i out x mh hs \<Longrightarrow> swap_path (findActivePools db) i x hs" for hs
      by (simp add: simple_route_def)
    ultimately show ?thesis by blast
  qed
  with new show ?thesis by (auto simp: search_routes_def)
qed

lemma path_route_hops [simp]:
  "rr_poolPath (path_route pm i x [] [] w (map hop_edge hs)) = map (\<lambda>h. lp_id (fst h)) hs"
  "rr_estimatedOutput (path_route pm i x [] [] w (map hop_edge hs)) = swap_out x hs"
  "rr_assetPath (path_route pm i x [] [] w (map hop_edge hs)) = i # map snd hs"
proof -
  have "butlast (path_assets i (map hop_edge hs)) @ [last (path_assets i (map hop_edge hs))] = path_assets i (map hop_edge hs)"
    by (rule append_butlast_last_id) simp
  then show "rr_assetPath (path_route pm i x [] [] w (map hop_edge hs)) = i # map snd hs"
    by (simp add: path_route_def found_route_def path_assets_def comp_def)
qed (simp_all add: path_route_def found_route_def out_amount_hops comp_def)

section \<open>The best route\<close>

definition numeric_pool :: "liquidity_pool \<Rightarrow> bool" where
  "numeric_pool p \<longleftrightarrow> parse_float (lp_tvl p) \<noteq> None \<and> parse_float (lp_feeRate p) \<noteq> None"

lemma constantProductOutput_Some:
  "constantProductOutput (Some a) (Some b) (Some f) (Some x) \<noteq> None"
  by (simp add: constantProductOutput_def Let_def js_div_def num_div_def)

lemma simulateSwap_Some: "numeric_pool p \<Longrightarrow> simulateSwap p (Some x) \<noteq> None"
proof -
  assume "numeric_pool p"
  then obtain t f where "parse_float (lp_tvl p) = Some t" "parse_float (lp_feeRate p) = Some f" by (auto simp: numeric_pool_def)
  then show ?thesis
    using constantProductOutput_Some [of "fl (t / 2)" "fl (t / 2)" f x] by (simp add: simulateSwap_def Let_def js_div_def num_div_def)
qed

lemma swap_out_Some:
  "swap_path pools a (Some x) hs \<Longrightarrow> \<forall>p \<in> set pools. numeric_pool p \<Longrightarrow> swap_out (Some x) hs \<noteq> None"
proof (induction hs arbitrary: a x)
  case (Cons h hs)
  obtain p b where h: "h = (p, b)" by fastforce
  obtain y where "simulateSwap p (Some x) = Some y" using Cons.prems h simulateSwap_Some [of p x] by auto
  with Cons.IH [of b y] Cons.prems h show ?case by simp
qed simp

interpretation route_order: priority_side output_cmp "\<lambda>r. - the (rr_estimatedOutput r)" "\<lambda>r. rr_estimatedOutput r \<noteq> None"
  by unfold_locales (auto simp: output_cmp_def num_sub_def)

lemma buildGraph_sel [simp]: "lq_cache (buildGraph db) = lq_cache db" "lq_pools (buildGraph db) = lq_pools db"
  by (simp_all add: buildGraph_def Let_def)

lemma getCachedRoute_cong: "lq_cache db = lq_cache db' \<Longrightarrow> getCachedRoute e i out db = getCachedRoute e i out db'"
  by (simp add: getCachedRoute_def)

text \<open>
  C11. With a graph built from the current pools, no cached route and numeric pool data, the best route
  is the best: when \<open>findOptimalRoutes\<close> returns a route, it is a sequence of swaps through active pools
  from the first asset to the second that visits no asset twice and has at most \<open>maxHops\<close> hops, its
  estimated output is the amount simulated through its pools, and no other such sequence yields more;
  when it returns none, there is no such sequence.
\<close>

theorem best_route_optimal:
  assumes "lq_graph db = []" and "getCachedRoute e tokenIn tokenOut db = None"
    and "\<forall>p \<in> set (findActivePools db). parse_float (lp_tvl p) \<noteq> None \<and> parse_float (lp_feeRate p) \<noteq> None"
  shows "case fst (findOptimalRoutes e tokenIn tokenOut (Some x) maxHops 1 db) of
      [] \<Rightarrow> \<nexists>hs. simple_route (findActivePools db) tokenIn tokenOut (Some x) maxHops hs
    | r # rs \<Rightarrow> rs = [] \<and> (\<exists>hs. simple_route (findActivePools db) tokenIn tokenOut (Some x) maxHops hs \<and>
          rr_poolPath r = map (\<lambda>h. lp_id (fst h)) hs \<and> rr_assetPath r = tokenIn # map snd hs \<and>
          rr_estimatedOutput r = swap_out (Some x) hs) \<and>
        (\<forall>hs. simple_route (findActivePools db) tokenIn tokenOut (Some x) maxHops hs \<longrightarrow>
          js_leq (swap_out (Some x) hs) (rr_estimatedOutput r))"
proof -
  let ?b = "buildGraph db"
  let ?rs = "search_routes ?b tokenIn tokenOut (Some x) maxHops"
  have res: "fst (findOptimalRoutes e tokenIn tokenOut (Some x) maxHops 1 db) = take 1 (js_sort output_cmp ?rs)"
    using assms(1,2) getCachedRoute_cong [of ?b db e tokenIn tokenOut] by (simp add: findOptimalRoutes_def Let_def split: list.splits)
  note iff = search_routes_iff [of ?b db, OF refl]
  have num: "\<forall>p \<in> set (findActivePools db). numeric_pool p" using assms(3) by (simp add: numeric_pool_def)
  have "\<forall>r \<in> set ?rs. rr_estimatedOutput r \<noteq> None"
    using swap_out_Some [OF _ num] by (auto simp: iff simple_route_def)
  from route_order.js_sort_all [OF this]
  have sorted: "set (js_sort output_cmp ?rs) = set ?rs" "sorted (map (\<lambda>r. - the (rr_estimatedOutput r)) (js_sort output_cmp ?rs))" by auto
  show ?thesis
  proof (cases "js_sort output_cmp ?rs")
    case Nil
    with sorted(1) have "set ?rs = {}" by simp
    then have "\<nexists>hs. simple_route (findActivePools db) tokenIn tokenOut (Some x) maxHops hs" using iff by (metis empty_iff)
    then show ?thesis using res Nil by simp
  next
    case (Cons r rs)
    then have r: "r \<in> set ?rs" using sorted(1) by auto
    have max: "js_leq (swap_out (Some x) hs) (rr_estimatedOutput r)"
      if hs: "simple_route (findActivePools db) tokenIn tokenOut (Some x) maxHops hs" for hs
    proof -
      let ?q = "path_route (lq_poolMap ?b) tokenIn (Some x) [] [] (Some 0) (map hop_edge hs)"
      have "?q \<in> set (r # rs)" using hs iff sorted(1) Cons by auto
      then have "- the (rr_estimatedOutput r) \<le> - the (rr_estimatedOutput ?q)" using sorted(2) Cons by auto
      moreover obtain y z where "rr_estimatedOutput r = Some y" "swap_out (Some x) hs = Some z"
      proof -
        have "rr_estimatedOutput r \<noteq> None" using \<open>\<forall>r \<in> set ?rs. rr_estimatedOutput r \<noteq> None\<close> r by blast
        moreover have "swap_out (Some x) hs \<noteq> None" using swap_out_Some [OF _ num] hs unfolding simple_route_def by blast
        ultimately show ?thesis using that by blast
      qed
      ultimately show ?thesis by simp
    qed
    from r obtain hs where "simple_route (findActivePools db) tokenIn tokenOut (Some x) maxHops hs"
      "r = path_route (lq_poolMap ?b) tokenIn (Some x) [] [] (Some 0) (map hop_edge hs)" using iff by auto
    then show ?thesis using res Cons max by auto
  qed
qed

section \<open>The cache forgets the amount\<close>

lemma findOptimalRoutes_cold:
  assumes "lq_graph db \<noteq> []" and "getCachedRoute e i out db = None"
  shows "findOptimalRoutes e i out x mh 1 db =
    (let rs = take 1 (js_sort output_cmp (search_routes db i out x mh))
     in (rs, case rs of [] \<Rightarrow> db | r # _ \<Rightarrow> cacheRoute e i out r db))"
  using assms by (simp add: findOptimalRoutes_def Let_def)

text \<open>
  The cache is keyed by the pair of assets only: for thirty seconds after a route was found for an
  amount \<open>x\<close>, a request for any other amount \<open>y\<close> is answered with the pools and the output of \<open>x\<close>.
\<close>

theorem cached_quote_ignores_amount:
  assumes "\<forall>c \<in> set (lq_cache db). \<not> (rc_tokenIn c = tokenIn \<and> rc_tokenOut c = tokenOut)"
    and "findOptimalRoutes e tokenIn tokenOut x maxHops 1 db = ([r], db1)" and "lq_graph db1 \<noteq> []"
    and "le_now e' \<le> le_now e + 30000"
  shows "findOptimalRoutes e' tokenIn tokenOut y maxHops' 1 db1 =
    ([\<lparr>rr_poolPath = rr_poolPath r, rr_assetPath = tokenIn # map (\<lambda>_. []) (rr_poolPath r) @ [tokenOut], rr_totalWeight = Some 0,
       rr_estimatedOutput = parse_float (le_numeric e 7 (js_num_str (rr_estimatedOutput r))),
       rr_priceImpact = parse_float (le_numeric e 8 (js_num_str (rr_priceImpact r))),
       rr_estimatedGas = parse_float (le_numeric e 0 (js_num_str (rr_estimatedGas r)))\<rparr>], db1)"
proof -
  let ?b = "if lq_graph db = [] then buildGraph db else db"
  have b: "lq_cache ?b = lq_cache db" by simp
  have none: "filter (\<lambda>c. rc_tokenIn c = tokenIn \<and> rc_tokenOut c = tokenOut) (lq_cache db) = []"
    using assms(1) by (auto simp: filter_empty_conv)
  then have "getCachedRoute e tokenIn tokenOut ?b = None" unfolding getCachedRoute_def b by simp
  with assms(2) have "db1 = cacheRoute e tokenIn tokenOut r ?b"
    by (auto simp: findOptimalRoutes_def Let_def split: list.splits if_splits)
  then have "filter (\<lambda>c. rc_tokenIn c = tokenIn \<and> rc_tokenOut c = tokenOut) (lq_cache db1) =
      [\<lparr>rc_tokenIn = tokenIn, rc_tokenOut = tokenOut, rc_poolPath = rr_poolPath r,
       rc_expectedOutput = le_numeric e 7 (js_num_str (rr_estimatedOutput r)),
       rc_priceImpact = le_numeric e 8 (js_num_str (rr_priceImpact r)),
       rc_estimatedGas = le_numeric e 0 (js_num_str (rr_estimatedGas r)),
       rc_confidence = le_numeric e 4 (js_fixed 4 (js_max (Some 0) (js_sub (Some 1) (rr_priceImpact r)))),
       rc_expiresAt = le_now e + 30000, rc_createdAt = le_now e\<rparr>]"
    using none by (simp add: cacheRoute_def)
  then show ?thesis
    using assms(3,4) by (simp add: findOptimalRoutes_def getCachedRoute_def Let_def)
qed

section \<open>Deactivated pools stay in the graph\<close>

lemma search_routes_cong:
  "lq_graph db = lq_graph db' \<Longrightarrow> lq_poolMap db = lq_poolMap db' \<Longrightarrow> search_routes db i out x mh = search_routes db' i out x mh"
  by (simp add: search_routes_def)

lemma active_pools_missing:
  assumes "keys_distinct lp_id pools" and "i \<in> set path" and "\<And>p. p \<in> set pools \<Longrightarrow> lp_id p = i \<Longrightarrow> lp_status p \<noteq> P_ACTIVE"
  shows "length (filter (\<lambda>p. lp_id p \<in> set path \<and> lp_status p = P_ACTIVE) pools) \<noteq> length path"
proof -
  let ?f = "filter (\<lambda>p. lp_id p \<in> set path \<and> lp_status p = P_ACTIVE) pools"
  have "distinct (map lp_id ?f)" using assms(1) by (simp add: keys_distinct_def distinct_map_filter)
  then have "length ?f = card (lp_id ` set ?f)" using distinct_card [of "map lp_id ?f"] by simp
  also have "\<dots> \<le> card (set path - {i})" using assms(3) by (intro card_mono) auto
  also have "\<dots> < card (set path)" using assms(2) by (intro psubset_card_mono) auto
  also have "\<dots> \<le> length path" by (rule card_length)
  finally show ?thesis by simp
qed

text \<open>
  The graph is built once and never again. When a pool of the best route is deactivated, the search still
  finds that route and the simulation refuses it, so the request fails although other routes may exist.
\<close>

theorem deactivated_pool_breaks_routing:
  assumes "keys_distinct lp_id (lq_pools db)" and "lq_graph db \<noteq> []"
    and "getCachedRoute e' tokenIn tokenOut db = None"
    and "js_sort output_cmp (search_routes db tokenIn tokenOut x maxHops) = r # rs" and "i \<in> set (rr_poolPath r)"
    and "deactivate e i db = Inr (p, db')"
  shows "\<exists>ids. fst (findBestRoute e' tokenIn tokenOut x maxHops db') = Inl (BadRequest (''Pools not found or inactive: '' @ ids))"
proof -
  from assms(6) obtain q where q: "row_by lp_id i (lq_pools db) = Some q"
    and db': "db' = save_pool e (q\<lparr>lp_status := P_INACTIVE\<rparr>) db"
    by (auto simp: deactivate_def findById_def Let_def split: option.splits)
  have qi: "lp_id q = i" using row_by_SomeD [OF q] by simp
  have same: "lq_graph db' = lq_graph db" "lq_poolMap db' = lq_poolMap db" "lq_cache db' = lq_cache db"
    by (simp_all add: db' save_pool_def)
  have "findOptimalRoutes e' tokenIn tokenOut x maxHops 1 db' = ([r], cacheRoute e' tokenIn tokenOut r db')"
    using findOptimalRoutes_cold [of db' e' tokenIn tokenOut x maxHops] getCachedRoute_cong [OF same(3), of e' tokenIn tokenOut]
      search_routes_cong [OF same(1,2)] same assms(2-4) by (simp add: Let_def)
  moreover have "\<exists>ids. simulateRoute tm (rr_poolPath r) x None (cacheRoute e' tokenIn tokenOut r db') =
      Inl (BadRequest (''Pools not found or inactive: '' @ ids))" for tm
  proof -
    have pools: "lq_pools (cacheRoute e' tokenIn tokenOut r db') = save_row lp_id (stored_pool e (q\<lparr>lp_status := P_INACTIVE\<rparr>)) (lq_pools db)"
      by (simp add: cacheRoute_def db' save_pool_def)
    have "lp_status p \<noteq> P_ACTIVE" if "p \<in> set (lq_pools (cacheRoute e' tokenIn tokenOut r db'))" "lp_id p = i" for p
      using that qi unfolding pools set_save_row [OF assms(1)] by (auto simp: stored_pool_def)
    moreover have "keys_distinct lp_id (lq_pools (cacheRoute e' tokenIn tokenOut r db'))"
      unfolding pools by (rule keys_distinct_save_row [OF assms(1)])
    ultimately have "length (filter (\<lambda>p. lp_id p \<in> set (rr_poolPath r) \<and> lp_status p = P_ACTIVE) (lq_pools (cacheRoute e' tokenIn tokenOut r db')))
        \<noteq> length (rr_poolPath r)" using active_pools_missing assms(5) by blast
    moreover have "rr_poolPath r \<noteq> []" using assms(5) by auto
    ultimately show ?thesis by (auto simp: simulateRoute_def loadPools_def Let_def)
  qed
  then obtain ids where "simulateRoute (le_now e') (rr_poolPath r) x None (cacheRoute e' tokenIn tokenOut r db') =
      Inl (BadRequest (''Pools not found or inactive: '' @ ids))" by blast
  ultimately show ?thesis by (intro exI [of _ ids]) (simp add: findBestRoute_def)
qed

section \<open>What the simulation reports\<close>

text \<open>
  The simulation accepts empty pools: when the first pool of a route has no liquidity, the result says
  that the route is feasible, that its output is the whole input and that there is no price impact.
\<close>

theorem empty_pool_is_feasible:
  assumes "loadPools (i # path) db = Inr pools" and "js_leq (parse_float (lp_tvl (hd pools))) (Some 0)" and "0 < x"
  shows "\<exists>r. simulateRoute tm (i # path) (Some x) None db = Inr r \<and> sr_isFeasible r \<and> sr_finalOutput r = Some x \<and>
    sr_overallPriceImpact r = Some 0"
proof -
  obtain p ps where p: "pools = p # ps" using assms(1) by (auto simp: loadPools_def Let_def split: if_splits)
  from assms p show ?thesis
    by (simp add: simulateRoute_def Let_def num_sub_def num_mul_def MAX_ACCEPTABLE_IMPACT_def)
qed

text \<open>After the first hop the two helper functions agree, so every later step names one asset as its input and its output.\<close>

lemma sim_loop_step:
  "\<exists>y f' k' s. (sim_loop (p # ps) (x, f, k, steps) = (y, f', k', steps @ [s]) \<or>
      sim_loop (p # ps) (x, f, k, steps) = sim_loop ps (y, f', k', steps @ [s])) \<and>
    (steps \<noteq> [] \<longrightarrow> ss_tokenIn s = ss_tokenOut s)"
proof (cases "js_leq (parse_float (lp_tvl p)) (Some 0)")
  case True
  then have "\<exists>s. sim_loop (p # ps) (x, f, k, steps) = (x, f, k, steps @ [s]) \<and> (steps \<noteq> [] \<longrightarrow> ss_tokenIn s = ss_tokenOut s)"
    by (simp add: Let_def determineInputAsset_def determineOutputAsset_def)
  then show ?thesis by blast
next
  case False
  then have "\<exists>y f' k' s. sim_loop (p # ps) (x, f, k, steps) = sim_loop ps (y, f', k', steps @ [s]) \<and>
      (steps \<noteq> [] \<longrightarrow> ss_tokenIn s = ss_tokenOut s)"
    by (simp only: sim_loop.simps Let_def if_False) (intro exI conjI, rule refl, simp add: determineInputAsset_def determineOutputAsset_def)
  then show ?thesis by blast
qed

lemma sim_loop_assets:
  assumes "\<forall>s \<in> set (tl steps). ss_tokenIn s = ss_tokenOut s"
  shows "\<forall>s \<in> set (tl (snd (snd (snd (sim_loop ps (x, f, k, steps)))))). ss_tokenIn s = ss_tokenOut s"
  using assms
proof (induction ps arbitrary: x f k steps)
  case (Cons p ps)
  obtain y f' k' s where s: "steps \<noteq> [] \<longrightarrow> ss_tokenIn s = ss_tokenOut s" and
    "sim_loop (p # ps) (x, f, k, steps) = (y, f', k', steps @ [s]) \<or> sim_loop (p # ps) (x, f, k, steps) = sim_loop ps (y, f', k', steps @ [s])"
    using sim_loop_step [of p ps x f k steps] by blast
  moreover have "\<forall>s \<in> set (tl (steps @ [s])). ss_tokenIn s = ss_tokenOut s" using s Cons.prems by (cases steps) auto
  ultimately show ?case using Cons.IH [of "steps @ [s]"] by auto
qed simp

section \<open>Triangles never pay\<close>

lemma rate_bound:
  assumes "getPoolRate p a b = Some r" and "\<And>f. parse_float (lp_feeRate p) = Some f \<Longrightarrow> 0 \<le> f"
  shows "0 \<le> r \<and> r \<le> 1"
proof -
  have "0 \<le> fl (1 / fl (1 + f)) \<and> fl (1 / fl (1 + f)) \<le> 1" if "0 \<le> f" for f
  proof -
    have "1 \<le> fl (1 + f)" using that fl_mono [of 1 "1 + f"] by (simp add: fl_one)
    then show ?thesis by (auto intro!: fl_le_one fl_nonneg simp: divide_le_eq)
  qed
  note bound = this
  show ?thesis
  proof (cases "parse_float (lp_feeRate p)")
    case None
    with assms(1) show ?thesis by (auto simp: getPoolRate_def js_div_def split: if_splits)
  next
    case (Some f)
    with assms(1) bound [OF assms(2)] show ?thesis
      by (auto simp: getPoolRate_def js_div_def num_div_def num_add_def split: if_splits)
  qed
qed

definition rates_ok :: "rate_graph \<Rightarrow> bool" where
  "rates_ok adj \<longleftrightarrow> (\<forall>a ns n. map_of adj a = Some ns \<longrightarrow> n \<in> set ns \<longrightarrow> (\<exists>r. nb_rate n = Some r \<and> 0 \<le> r \<and> r \<le> 1))"

lemma rates_ok_neighbors: "rates_ok adj \<Longrightarrow> n \<in> set (neighbors adj a) \<Longrightarrow> \<exists>r. nb_rate n = Some r \<and> 0 \<le> r \<and> r \<le> 1"
  by (cases "map_of adj a") (auto simp: rates_ok_def neighbors_def)

lemma rates_ok_ensure: "rates_ok adj \<Longrightarrow> rates_ok (ensure_node a adj)"
  by (auto simp: rates_ok_def ensure_node_def split: option.splits if_splits)

lemma rates_ok_add:
  assumes "rates_ok adj" and "\<And>f. parse_float (lp_feeRate p) = Some f \<Longrightarrow> 0 \<le> f"
  shows "rates_ok (add_neighbor a b p adj)"
proof (cases "getPoolRate p a b")
  case None
  with assms(1) show ?thesis by (simp add: add_neighbor_def Let_def)
next
  case (Some r)
  from rate_bound [OF Some assms(2)] have "0 \<le> r \<and> r \<le> 1" .
  then show ?thesis using assms(1) rates_ok_neighbors [OF assms(1)] Some
    unfolding rates_ok_def by (auto simp: add_neighbor_def Let_def split: if_splits)
qed

lemma rates_ok_adjacency:
  assumes "\<And>p f. p \<in> set pools \<Longrightarrow> parse_float (lp_feeRate p) = Some f \<Longrightarrow> 0 \<le> f"
  shows "rates_ok (rate_adjacency pools)"
proof -
  have "rates_ok (foldl (\<lambda>adj p. let adj = ensure_node (lp_assetCodeB p) (ensure_node (lp_assetCodeA p) adj)
     in add_neighbor (lp_assetCodeB p) (lp_assetCodeA p) p (add_neighbor (lp_assetCodeA p) (lp_assetCodeB p) p adj)) adj ps)"
    if "rates_ok adj" "set ps \<subseteq> set pools" for adj ps
    using that
  proof (induction ps arbitrary: adj)
    case (Cons p ps)
    then have fee: "\<And>f. parse_float (lp_feeRate p) = Some f \<Longrightarrow> 0 \<le> f" using assms [of p] Cons.prems(2) by auto
    have "rates_ok (add_neighbor (lp_assetCodeB p) (lp_assetCodeA p) p (add_neighbor (lp_assetCodeA p) (lp_assetCodeB p) p
        (ensure_node (lp_assetCodeB p) (ensure_node (lp_assetCodeA p) adj))))"
      by (intro rates_ok_add rates_ok_ensure Cons.prems(1) fee)
    from Cons.IH [OF this] Cons.prems(2) show ?case by (simp add: Let_def)
  qed simp
  from this [of "[]" pools] show ?thesis by (simp add: rate_adjacency_def rates_ok_def)
qed

text \<open>
  Rates are one over one plus the fee in both directions, so around a triangle they multiply to at
  most one: with fees that are not negative and a positive minimum spread no triangle is ever reported.
\<close>

theorem triangles_never_pay:
  assumes "\<And>p f. p \<in> set pools \<Longrightarrow> parse_float (lp_feeRate p) = Some f \<Longrightarrow> 0 \<le> f" and "0 < minSpread"
  shows "findTriangularArbitrage tm (Some minSpread) pools = []"
proof -
  have ok: "rates_ok (rate_adjacency pools)" by (rule rates_ok_adjacency [OF assms(1)])
  have "triangle_opportunity tm (Some minSpread) start n1 n2 n3 = []"
    if n: "n1 \<in> set (neighbors (rate_adjacency pools) a)" "n2 \<in> set (neighbors (rate_adjacency pools) b)"
      "n3 \<in> set (neighbors (rate_adjacency pools) c)" for start n1 n2 n3 a b c
  proof -
    obtain r1 r2 r3 where r: "nb_rate n1 = Some r1" "0 \<le> r1" "r1 \<le> 1" "nb_rate n2 = Some r2" "0 \<le> r2" "r2 \<le> 1"
        "nb_rate n3 = Some r3" "0 \<le> r3" "r3 \<le> 1"
      using n [THEN rates_ok_neighbors [OF ok]] by blast
    have "fl (r1 * r2) \<le> 1" "0 \<le> fl (r1 * r2)" using r by (auto intro!: fl_le_one fl_nonneg mult_le_one)
    then have "fl (fl (r1 * r2) * r3) \<le> 1" using r by (intro fl_le_one mult_le_one)
    then have "fl (fl (fl (r1 * r2) * r3) - 1) \<le> 0" using fl_mono [of "fl (fl (r1 * r2) * r3) - 1" 0] by simp
    then have "fl (fl (fl (fl (r1 * r2) * r3) - 1) * 100) \<le> 0" using fl_mono [of "fl (fl (fl (r1 * r2) * r3) - 1) * 100" 0] by simp
    with r assms(2) show ?thesis by (simp add: triangle_opportunity_def Let_def num_mul_def num_sub_def)
  qed
  then show ?thesis unfolding findTriangularArbitrage_def Let_def by (auto simp: concat_eq_Nil_conv)
qed

section \<open>A small market\<close>

definition demo_pool :: "string \<Rightarrow> string \<Rightarrow> string \<Rightarrow> string \<Rightarrow> liquidity_pool" where
  "demo_pool i a b tvl = \<lparr>lp_id = i, lp_name = i, lp_type = AMM, lp_status = P_ACTIVE, lp_assetCodeA = a, lp_assetIssuerA = None,
     lp_assetCodeB = b, lp_assetIssuerB = None, lp_tvl = tvl, lp_feeRate = ''0'', lp_volume24h = ''0'', lp_feeRevenue24h = ''0'',
     lp_maxInputSize = None, lp_onChainAddress = None, lp_lastRefreshedAt = None, lp_config = None\<rparr>"

definition demo_liq :: "liquidity_pool list \<Rightarrow> liq_db" where
  "demo_liq pools = \<lparr>lq_pools = pools, lq_snapshots = [], lq_cache = [], lq_arbs = [], lq_graph = [], lq_poolMap = []\<rparr>"

definition demo_market :: liq_db where
  "demo_market = demo_liq [demo_pool ''p1'' ''XLM'' ''USDC'' ''1000'']"

definition demo_env :: "int \<Rightarrow> liq_env" where
  "demo_env tm = \<lparr>le_now = tm, le_uuid = ''u'', le_numeric = (\<lambda>_ s. s)\<rparr>"

lemma parse_demo: "parse_float ''1000'' = Some (fl 1000)" "parse_float ''0'' = Some 0"
proof -
  have "digits_val 0 ''1000'' = Some 1000" "digits_val 0 ''0'' = Some 0" by code_simp+
  then show "parse_float ''1000'' = Some (fl 1000)" "parse_float ''0'' = Some 0"
    using parse_float_digits [of "''1000''" 1000] parse_float_digits [of "''0''" 0] by simp_all
qed

lemma demo_swap: "\<not> js_leq (simulateSwap (demo_pool i a b ''1000'') (Some 10)) (Some 0)"
proof -
  have "fl (1 - 0) = 1" by (simp add: fl_one)
  then have "0 < fl (10 * fl (1 - 0)) \<and> 0 < fl (fl 1000 / 2)" by simp
  then show ?thesis
    by (simp add: simulateSwap_def demo_pool_def parse_demo constantProductOutput_def Let_def js_div_def num_div_def num_mul_def
        num_sub_def num_add_def not_le add_pos_pos)
qed

lemma demo_active: "findActivePools demo_market = [demo_pool ''p1'' ''XLM'' ''USDC'' ''1000'']"
  by (simp add: findActivePools_def demo_market_def demo_liq_def demo_pool_def)

lemma demo_route: "simple_route (findActivePools demo_market) ''XLM'' ''USDC'' (Some 10) 4 [(demo_pool ''p1'' ''XLM'' ''USDC'' ''1000'', ''USDC'')]"
  using demo_swap [of "''p1''" "''XLM''" "''USDC''"] by (simp add: simple_route_def demo_active demo_pool_def)

lemma demo_only_route:
  assumes "simple_route (findActivePools demo_market) ''XLM'' ''USDC'' (Some 10) 4 hs"
  shows "map (\<lambda>h. lp_id (fst h)) hs = [''p1'']"
proof -
  obtain p b hs' where hs: "hs = (p, b) # hs'" using assms by (cases hs) (auto simp: simple_route_def)
  then have p: "p = demo_pool ''p1'' ''XLM'' ''USDC'' ''1000''" "b = ''USDC''"
    using assms by (auto simp: simple_route_def demo_active demo_pool_def)
  have "hs' = []"
  proof (cases hs')
    case (Cons h hs'')
    obtain q c where h: "h = (q, c)" by fastforce
    with hs p Cons assms have "q = demo_pool ''p1'' ''XLM'' ''USDC'' ''1000''" "c = ''XLM''"
      by (auto simp: simple_route_def demo_active demo_pool_def)
    with assms hs Cons h show ?thesis by (simp add: simple_route_def)
  qed
  with hs p show ?thesis by (simp add: demo_pool_def)
qed

lemma demo_market_sel: "lq_graph demo_market = []" "lq_cache demo_market = []" "lq_pools demo_market = [demo_pool ''p1'' ''XLM'' ''USDC'' ''1000'']"
  by (simp_all add: demo_market_def demo_liq_def)

lemma demo_numeric: "\<forall>p \<in> set (findActivePools demo_market). parse_float (lp_tvl p) \<noteq> None \<and> parse_float (lp_feeRate p) \<noteq> None"
  by (simp add: demo_active parse_demo demo_pool_def)

lemma demo_no_cache: "getCachedRoute e i out demo_market = None"
  by (simp add: getCachedRoute_def demo_market_sel)

theorem best_route_optimal_witness:
  "\<exists>r. fst (findOptimalRoutes (demo_env 0) ''XLM'' ''USDC'' (Some 10) 4 1 demo_market) = [r] \<and> rr_poolPath r = [''p1''] \<and>
     rr_assetPath r = [''XLM'', ''USDC'']"
proof -
  note best = best_route_optimal [OF demo_market_sel(1) demo_no_cache demo_numeric, where e = "demo_env 0" and tokenIn = "''XLM''" and tokenOut = "''USDC''" and x = 10 and maxHops = 4]
  show ?thesis
  proof (cases "fst (findOptimalRoutes (demo_env 0) ''XLM'' ''USDC'' (Some 10) 4 1 demo_market)")
    case Nil
    with best demo_route show ?thesis by (auto; metis)
  next
    case (Cons r rs)
    with best obtain hs where "rs = []" "simple_route (findActivePools demo_market) ''XLM'' ''USDC'' (Some 10) 4 hs"
      "rr_poolPath r = map (\<lambda>h. lp_id (fst h)) hs" "rr_assetPath r = ''XLM'' # map snd hs" by auto
    moreover from this(2) have "map (\<lambda>h. lp_id (fst h)) hs = [''p1'']" by (rule demo_only_route)
    moreover from this have "length hs = 1" by (metis length_map length_Cons list.size(3) One_nat_def)
    ultimately show ?thesis using Cons by (cases hs) (auto simp: simple_route_def)
  qed
qed

lemma demo_sorted:
  "\<exists>r rs. js_sort output_cmp (search_routes (buildGraph demo_market) ''XLM'' ''USDC'' (Some 10) 4) = r # rs \<and>
    ''p1'' \<in> set (rr_poolPath r)"
proof -
  note iff = search_routes_iff [of "buildGraph demo_market" demo_market, OF refl]
  let ?rs = "search_routes (buildGraph demo_market) ''XLM'' ''USDC'' (Some 10) 4"
  have num: "\<forall>p \<in> set (findActivePools demo_market). numeric_pool p" using demo_numeric by (simp add: numeric_pool_def)
  have "\<forall>r \<in> set ?rs. rr_estimatedOutput r \<noteq> None"
    using swap_out_Some [OF _ num] by (auto simp: iff simple_route_def)
  then have s: "set (js_sort output_cmp ?rs) = set ?rs" using route_order.js_sort_all by blast
  have "set ?rs \<noteq> {}" using iff demo_route by (metis empty_iff)
  with s obtain r rs where r: "js_sort output_cmp ?rs = r # rs" by (cases "js_sort output_cmp ?rs") auto
  then have "r \<in> set ?rs" using s by auto
  then obtain hs where "simple_route (findActivePools demo_market) ''XLM'' ''USDC'' (Some 10) 4 hs" "rr_poolPath r = map (\<lambda>h. lp_id (fst h)) hs"
    using iff by auto
  then have "rr_poolPath r = [''p1'']" using demo_only_route by simp
  with r show ?thesis by simp
qed

theorem cached_quote_ignores_amount_witness:
  "\<exists>r db1. findOptimalRoutes (demo_env 0) ''XLM'' ''USDC'' (Some 10) 4 1 demo_market = ([r], db1) \<and>
     map rr_estimatedOutput (fst (findOptimalRoutes (demo_env 1000) ''XLM'' ''USDC'' (Some 1000000) 4 1 db1)) =
       [parse_float (js_num_str (rr_estimatedOutput r))]"
proof -
  obtain r rs where r: "js_sort output_cmp (search_routes (buildGraph demo_market) ''XLM'' ''USDC'' (Some 10) 4) = r # rs"
    using demo_sorted by blast
  let ?db1 = "cacheRoute (demo_env 0) ''XLM'' ''USDC'' r (buildGraph demo_market)"
  have "getCachedRoute (demo_env 0) ''XLM'' ''USDC'' (buildGraph demo_market) = None"
    using getCachedRoute_cong [of "buildGraph demo_market" demo_market] demo_no_cache by (metis buildGraph_sel(1))
  then have res: "findOptimalRoutes (demo_env 0) ''XLM'' ''USDC'' (Some 10) 4 1 demo_market = ([r], ?db1)"
    using r by (simp add: findOptimalRoutes_def demo_market_sel Let_def)
  have "lq_graph ?db1 \<noteq> []"
    by (simp add: cacheRoute_def buildGraph_def Let_def demo_active demo_pool_def route_addEdge_def)
  from cached_quote_ignores_amount [OF _ res this, of "demo_env 1000" "Some 1000000" 4]
  have "findOptimalRoutes (demo_env 1000) ''XLM'' ''USDC'' (Some 1000000) 4 1 ?db1 =
     ([\<lparr>rr_poolPath = rr_poolPath r, rr_assetPath = ''XLM'' # map (\<lambda>_. []) (rr_poolPath r) @ [''USDC''], rr_totalWeight = Some 0,
       rr_estimatedOutput = parse_float (js_num_str (rr_estimatedOutput r)),
       rr_priceImpact = parse_float (js_num_str (rr_priceImpact r)),
       rr_estimatedGas = parse_float (js_num_str (rr_estimatedGas r))\<rparr>], ?db1)"
    by (simp add: demo_market_sel demo_env_def)
  with res show ?thesis by (intro exI [of _ r] exI [of _ ?db1]) simp
qed

theorem empty_pool_is_feasible_witness:
  "\<exists>r. simulateRoute 0 [''p0''] (Some 10) None (demo_liq [demo_pool ''p0'' ''XLM'' ''USDC'' ''0'']) = Inr r \<and> sr_isFeasible r \<and>
     sr_finalOutput r = Some 10 \<and> sr_overallPriceImpact r = Some 0"
proof -
  have "loadPools [''p0''] (demo_liq [demo_pool ''p0'' ''XLM'' ''USDC'' ''0'']) = Inr [demo_pool ''p0'' ''XLM'' ''USDC'' ''0'']"
    by (simp add: loadPools_def demo_liq_def demo_pool_def)
  from empty_pool_is_feasible [OF this, of 10 0] show ?thesis by (simp add: demo_pool_def parse_demo)
qed

end
