(* ===== verification/Compliance.thy ===== *)
theory Compliance
  imports JsNan JsDate
begin

text \<open>
  The module \<^verbatim>\<open>compliance\<close>: its tables and enums, the audit trail, the KYC workflow with its
  documents, the regional configuration and the review of flags. Scoring is in \<open>ComplianceRisk\<close>.

  The environment \<open>compliance_env\<close> has what the database decides: which strings a \<^verbatim>\<open>uuid\<close> column
  accepts, what a \<^verbatim>\<open>numeric(30,7)\<close> column stores for a string (\<open>None\<close>: the statement fails), and whether
  comparing an enum column with a string that is not one of its labels fails; and the hash function, the
  random salt and \<^verbatim>\<open>JSON.parse\<close>. An operation that changes tables before it throws returns both.
\<close>

section \<open>Enums\<close>

datatype kyc_level = UNVERIFIED | STANDARD | ENHANCED | INSTITUTIONAL

fun kyc_level_str :: "kyc_level \<Rightarrow> string" where
  "kyc_level_str UNVERIFIED = ''unverified''"
| "kyc_level_str STANDARD = ''standard''"
| "kyc_level_str ENHANCED = ''enhanced''"
| "kyc_level_str INSTITUTIONAL = ''institutional''"

datatype aml_risk_level = RISK_LOW | RISK_MEDIUM | RISK_HIGH | RISK_CRITICAL

fun risk_level_str :: "aml_risk_level \<Rightarrow> string" where
  "risk_level_str RISK_LOW = ''low''"
| "risk_level_str RISK_MEDIUM = ''medium''"
| "risk_level_str RISK_HIGH = ''high''"
| "risk_level_str RISK_CRITICAL = ''critical''"

datatype aml_flag_status = FLAG_PENDING | FLAG_REVIEWING | FLAG_CLEARED | FLAG_CONFIRMED

fun flag_status_str :: "aml_flag_status \<Rightarrow> string" where
  "flag_status_str FLAG_PENDING = ''pending''"
| "flag_status_str FLAG_REVIEWING = ''reviewing''"
| "flag_status_str FLAG_CLEARED = ''cleared''"
| "flag_status_str FLAG_CONFIRMED = ''confirmed''"

datatype compliance_region = REGION_US | REGION_EU | REGION_UK | REGION_ASIA_PACIFIC | REGION_GLOBAL

fun region_str :: "compliance_region \<Rightarrow> string" where
  "region_str REGION_US = ''us''"
| "region_str REGION_EU = ''eu''"
| "region_str REGION_UK = ''uk''"
| "region_str REGION_ASIA_PACIFIC = ''asia_pacific''"
| "region_str REGION_GLOBAL = ''global''"

definition regions :: "compliance_region list" where
  "regions = [REGION_US, REGION_EU, REGION_UK, REGION_ASIA_PACIFIC, REGION_GLOBAL]"

datatype kyc_document_status = DOC_PENDING | DOC_VERIFIED | DOC_REJECTED

fun doc_status_str :: "kyc_document_status \<Rightarrow> string" where
  "doc_status_str DOC_PENDING = ''pending''"
| "doc_status_str DOC_VERIFIED = ''verified''"
| "doc_status_str DOC_REJECTED = ''rejected''"

datatype kyc_document_type = ID_VERIFICATION | ADDRESS_PROOF | BENEFICIAL_OWNERSHIP

fun doc_type_str :: "kyc_document_type \<Rightarrow> string" where
  "doc_type_str ID_VERIFICATION = ''id_verification''"
| "doc_type_str ADDRESS_PROOF = ''address_proof''"
| "doc_type_str BENEFICIAL_OWNERSHIP = ''beneficial_ownership''"

section \<open>Tables\<close>

record kyc_verification =
  ky_id :: string
  ky_createdAt :: int
  ky_userId :: string
  ky_level :: kyc_level
  ky_riskLevel :: aml_risk_level
  ky_riskScore :: int
  ky_region :: "string option"
  ky_transactionsBlocked :: bool
  ky_blockReason :: "string option"
  ky_lastVerifiedAt :: "int option"
  ky_verificationExpiry :: "int option"
  ky_thirdPartyRefId :: "string option"
  ky_complianceNotes :: "string option"
  ky_metadata :: "json option"

record kyc_document =
  kd_id :: string
  kd_createdAt :: int
  kd_userId :: string
  kd_kycVerificationId :: string
  kd_documentType :: kyc_document_type
  kd_status :: kyc_document_status
  kd_fileName :: string
  kd_mimeType :: string
  kd_fileSize :: int
  kd_storagePath :: string
  kd_fileHash :: string
  kd_encryptionKeyId :: "string option"
  kd_reviewedBy :: "string option"
  kd_reviewedAt :: "int option"
  kd_rejectionReason :: "string option"
  kd_metadata :: "json option"

record aml_flag =
  fg_id :: string
  fg_createdAt :: int
  fg_userId :: string
  fg_transactionId :: "string option"
  fg_riskLevel :: aml_risk_level
  fg_status :: aml_flag_status
  fg_triggerRule :: string
  fg_description :: string
  fg_riskScore :: int
  fg_transactionAmount :: "string option"
  fg_reviewedBy :: "string option"
  fg_reviewedAt :: "int option"
  fg_resolutionNotes :: "string option"
  fg_evidence :: "json option"
  fg_sarFiled :: bool
  fg_sarReference :: "string option"

record compliance_config =
  cc_id :: string
  cc_region :: compliance_region
  cc_displayName :: string
  cc_amlTransactionThreshold :: string
  cc_dailyVolumeThreshold :: string
  cc_blockThresholdScore :: int
  cc_enhancedDueDiligenceScore :: int
  cc_flagThresholdScore :: int
  cc_maxDailyTransactions :: int
  cc_kycExpiryMonths :: int
  cc_institutionalRequiredLevel :: string
  cc_requireSarForCritical :: bool
  cc_isActive :: bool
  cc_customRules :: "json option"

record compliance_audit_log =
  al_id :: string
  al_createdAt :: int
  al_performedBy :: "string option"
  al_performedByRole :: "string option"
  al_targetUserId :: string
  al_action :: string
  al_description :: string
  al_entityType :: "string option"
  al_entityId :: "string option"
  al_previousState :: "json option"
  al_newState :: "json option"
  al_ipAddress :: "string option"
  al_metadata :: "json option"

text \<open>The events, with the payloads the service emits.\<close>

datatype compliance_event =
    KYC_INITIATED string string string
  | KYC_LEVEL_UPDATED string kyc_level kyc_level "string option"
  | KYC_DOCUMENT_UPLOADED string string kyc_document_type
  | AML_FLAG_CREATED string string aml_risk_level int "string list"
  | AML_FLAG_REVIEWED string string aml_flag_status string

record compliance_db =
  cd_kyc :: "kyc_verification list"
  cd_documents :: "kyc_document list"
  cd_flags :: "aml_flag list"
  cd_audit :: "compliance_audit_log list"
  cd_configs :: "compliance_config list"
  cd_events :: "compliance_event list"

record compliance_env = env +
  ce_uuid :: "string \<Rightarrow> bool"
  ce_numeric :: "string \<Rightarrow> string option"
  ce_enumStrict :: bool
  ce_sha256 :: "string \<Rightarrow> string"
  ce_salt :: string
  ce_jsonParse :: "string \<Rightarrow> json option"
  ce_dateParse :: "string \<Rightarrow> int option"

definition emit_event :: "compliance_event \<Rightarrow> compliance_db \<Rightarrow> compliance_db" where
  "emit_event ev db = db\<lparr>cd_events := cd_events db @ [ev]\<rparr>"

definition find_kyc :: "string \<Rightarrow> compliance_db \<Rightarrow> kyc_verification option" where
  "find_kyc userId db = row_by ky_userId userId (cd_kyc db)"

section \<open>Audit trail\<close>

record audit_record =
  au_performedBy :: string
  au_performedByRole :: string
  au_targetUserId :: string
  au_action :: string
  au_description :: string
  au_entityType :: "string option"
  au_entityId :: "string option"
  au_previousState :: "json option"
  au_newState :: "json option"
  au_ipAddress :: "string option"
  au_metadata :: "json option"

definition opt_fits :: "nat \<Rightarrow> string option \<Rightarrow> bool" where
  "opt_fits n s = (case s of None \<Rightarrow> True | Some t \<Rightarrow> length t \<le> n)"

text \<open>The column types of the audit table: two uuids and the lengths of the strings.\<close>

definition audit_columns_ok :: "compliance_env \<Rightarrow> audit_record \<Rightarrow> bool" where
  "audit_columns_ok e r \<longleftrightarrow> ce_uuid e (au_performedBy r) \<and> ce_uuid e (au_targetUserId r) \<and>
     length (au_performedByRole r) \<le> 32 \<and> length (au_action r) \<le> 64 \<and> opt_fits 64 (au_entityType r) \<and>
     opt_fits 128 (au_entityId r) \<and> opt_fits 64 (au_ipAddress r)"

definition appendAudit :: "compliance_env \<Rightarrow> nat \<Rightarrow> audit_record \<Rightarrow> compliance_db \<Rightarrow> compliance_db result" where
  "appendAudit e k r db =
     (if \<not> audit_columns_ok e r then Inl (QueryFailed ''compliance_audit_logs'')
      else Inr (db\<lparr>cd_audit := cd_audit db @ [\<lparr>al_id = uuid e k, al_createdAt = now e,
        al_performedBy = Some (au_performedBy r), al_performedByRole = Some (au_performedByRole r),
        al_targetUserId = au_targetUserId r, al_action = au_action r, al_description = au_description r,
        al_entityType = au_entityType r, al_entityId = au_entityId r, al_previousState = au_previousState r,
        al_newState = au_newState r, al_ipAddress = au_ipAddress r, al_metadata = au_metadata r\<rparr>]\<rparr>))"

text \<open>Append the record, then emit the events and return; a failing append throws and keeps what was saved.\<close>

definition audit_then :: "compliance_env \<Rightarrow> nat \<Rightarrow> audit_record \<Rightarrow> compliance_event list \<Rightarrow> 'a \<Rightarrow> compliance_db \<Rightarrow> 'a result \<times> compliance_db" where
  "audit_then e k r evs x db = (case appendAudit e k r db of
       Inl err \<Rightarrow> (Inl err, db)
     | Inr db' \<Rightarrow> (Inr x, foldl (\<lambda>d ev. emit_event ev d) db' evs))"

definition compliance_getAuditTrail :: "string \<Rightarrow> nat \<Rightarrow> nat \<Rightarrow> compliance_db \<Rightarrow> compliance_audit_log paginated_result" where
  "compliance_getAuditTrail userId page limit db = page_of al_createdAt (filter (\<lambda>l. al_targetUserId l = userId) (cd_audit db)) page limit"

definition getAllAuditLogs :: "nat \<Rightarrow> nat \<Rightarrow> compliance_db \<Rightarrow> compliance_audit_log paginated_result" where
  "getAllAuditLogs page limit db = page_of al_createdAt (cd_audit db) page limit"

section \<open>KYC verification\<close>

definition jstr_opt :: "string option \<Rightarrow> json" where
  "jstr_opt s = (case s of None \<Rightarrow> JNull | Some t \<Rightarrow> JStr t)"

text \<open>The region is a \<^verbatim>\<open>varchar(2)\<close> column.\<close>

definition save_kyc :: "kyc_verification \<Rightarrow> compliance_db \<Rightarrow> compliance_db result" where
  "save_kyc v db = (if opt_fits 2 (ky_region v) then Inr (db\<lparr>cd_kyc := save_row ky_id v (cd_kyc db)\<rparr>)
     else Inl (QueryFailed ''kyc_verifications''))"

definition new_kyc :: "compliance_env \<Rightarrow> string \<Rightarrow> string option \<Rightarrow> kyc_verification" where
  "new_kyc e userId region = \<lparr>ky_id = uuid e 0, ky_createdAt = now e, ky_userId = userId, ky_level = UNVERIFIED,
     ky_riskLevel = RISK_LOW, ky_riskScore = 0, ky_region = region, ky_transactionsBlocked = False, ky_blockReason = None,
     ky_lastVerifiedAt = None, ky_verificationExpiry = None, ky_thirdPartyRefId = None, ky_complianceNotes = None,
     ky_metadata = None\<rparr>"

record initiate_kyc_dto =
  ik_region :: string
  ik_targetLevel :: "kyc_level option"

definition level_state :: "kyc_verification \<Rightarrow> json" where
  "level_state v = JObj [(''level'', JStr (kyc_level_str (ky_level v))), (''riskLevel'', JStr (risk_level_str (ky_riskLevel v)))]"

definition initiateVerification ::
    "compliance_env \<Rightarrow> string \<Rightarrow> initiate_kyc_dto \<Rightarrow> string option \<Rightarrow> string option \<Rightarrow> compliance_db \<Rightarrow> kyc_verification result \<times> compliance_db" where
  "initiateVerification e userId dto performedBy performedByRole db =
     (let old = find_kyc userId db in
      if (case old of None \<Rightarrow> False | Some v \<Rightarrow> ky_level v = INSTITUTIONAL)
      then (Inl (Conflict ''User is already at maximum KYC verification level''), db)
      else
        let v = (case old of None \<Rightarrow> new_kyc e userId (Some (ik_region dto)) | Some v \<Rightarrow> v\<lparr>ky_region := Some (ik_region dto)\<rparr>) in
        case save_kyc v db of Inl err \<Rightarrow> (Inl err, db)
        | Inr db1 \<Rightarrow> audit_then e 1
            \<lparr>au_performedBy = case_option userId id performedBy, au_performedByRole = case_option ''user'' id performedByRole,
             au_targetUserId = userId, au_action = ''kyc.initiate_verification'',
             au_description = ''KYC verification initiated for region '' @ ik_region dto @
               (case ik_targetLevel dto of None \<Rightarrow> [] | Some l \<Rightarrow> '', targeting '' @ kyc_level_str l),
             au_entityType = Some ''kyc_verification'', au_entityId = Some (ky_id v),
             au_previousState = map_option level_state old, au_newState = Some (level_state v),
             au_ipAddress = None, au_metadata = None\<rparr>
            [KYC_INITIATED userId (ky_id v) (ik_region dto)] v db1)"

definition kyc_missing :: "string \<Rightarrow> http_error" where
  "kyc_missing userId = NotFound (''No KYC verification found for user '' @ userId)"

definition getVerificationStatus :: "string \<Rightarrow> compliance_db \<Rightarrow> kyc_verification result" where
  "getVerificationStatus userId db = (case find_kyc userId db of None \<Rightarrow> Inl (kyc_missing userId) | Some v \<Rightarrow> Inr v)"

text \<open>An empty string is no filter, as in the source, where it is falsy.\<close>

definition str_filter :: "string option \<Rightarrow> string \<Rightarrow> bool" where
  "str_filter q s = (if truthy q then s = the q else True)"

definition opt_filter :: "'a option \<Rightarrow> 'a \<Rightarrow> bool" where
  "opt_filter q x = (case q of None \<Rightarrow> True | Some y \<Rightarrow> x = y)"

record query_kyc_dto =
  qk_level :: "kyc_level option"
  qk_userId :: "string option"
  qk_region :: "string option"
  qk_transactionsBlocked :: "bool option"
  qk_page :: nat
  qk_limit :: nat

definition listVerifications :: "query_kyc_dto \<Rightarrow> compliance_db \<Rightarrow> kyc_verification paginated_result" where
  "listVerifications q db = page_of ky_createdAt
     (filter (\<lambda>v. opt_filter (qk_level q) (ky_level v) \<and> str_filter (qk_userId q) (ky_userId v) \<and>
        (truthy (qk_region q) \<longrightarrow> ky_region v = qk_region q) \<and>
        opt_filter (qk_transactionsBlocked q) (ky_transactionsBlocked v)) (cd_kyc db)) (qk_page q) (qk_limit q)"

record update_kyc_level_dto =
  uk_notes :: "string option"
  uk_transactionsBlocked :: "bool option"
  uk_blockReason :: "string option"

definition blocked_state :: "kyc_verification \<Rightarrow> json" where
  "blocked_state v = JObj [(''level'', JStr (kyc_level_str (ky_level v))), (''riskLevel'', JStr (risk_level_str (ky_riskLevel v))),
     (''transactionsBlocked'', JBool (ky_transactionsBlocked v))]"

definition level_change :: "kyc_level \<Rightarrow> update_kyc_level_dto \<Rightarrow> kyc_verification \<Rightarrow> kyc_verification" where
  "level_change level dto v =
     v\<lparr>ky_level := level,
       ky_transactionsBlocked := case_option (ky_transactionsBlocked v) id (uk_transactionsBlocked dto),
       ky_blockReason := (case uk_blockReason dto of None \<Rightarrow> ky_blockReason v | Some r \<Rightarrow> Some r),
       ky_complianceNotes := (if truthy (uk_notes dto) then uk_notes dto else ky_complianceNotes v)\<rparr>"

definition updateKycLevel ::
    "compliance_env \<Rightarrow> string \<Rightarrow> kyc_level \<Rightarrow> update_kyc_level_dto \<Rightarrow> string \<Rightarrow> string \<Rightarrow> compliance_db \<Rightarrow> kyc_verification result \<times> compliance_db" where
  "updateKycLevel e userId level dto performedBy performedByRole db = (case find_kyc userId db of
       None \<Rightarrow> (Inl (kyc_missing userId), db)
     | Some old \<Rightarrow>
        let v = level_change level dto old in
        case save_kyc v db of Inl err \<Rightarrow> (Inl err, db)
        | Inr db1 \<Rightarrow> audit_then e 0
            \<lparr>au_performedBy = performedBy, au_performedByRole = performedByRole, au_targetUserId = userId,
             au_action = ''kyc.update_level'',
             au_description = ''KYC level updated to '' @ kyc_level_str level @
               (if uk_transactionsBlocked dto = Some True then '' (transactions blocked)'' else []),
             au_entityType = Some ''kyc_verification'', au_entityId = Some (ky_id v),
             au_previousState = Some (blocked_state old), au_newState = Some (blocked_state v),
             au_ipAddress = None, au_metadata = None\<rparr>
            [KYC_LEVEL_UPDATED userId (ky_level old) level None] v db1)"

section \<open>Documents\<close>

record upload_file =
  uf_originalname :: string
  uf_mimetype :: string
  uf_size :: int
  uf_buffer :: string

definition ALLOWED_MIME_TYPES :: "string list" where
  "ALLOWED_MIME_TYPES = [''application/pdf'', ''image/jpeg'', ''image/png'', ''image/webp'']"

definition MAX_FILE_SIZE_BYTES :: int where
  "MAX_FILE_SIZE_BYTES = 10 * 1024 * 1024"

definition generateStoragePath :: "compliance_env \<Rightarrow> string \<Rightarrow> kyc_document_type \<Rightarrow> string \<Rightarrow> string" where
  "generateStoragePath e userId documentType originalFilename =
     (let hash = ce_sha256 e (userId @ ''-'' @ doc_type_str documentType @ ''-'' @ ce_salt e @ ''-'' @ int_to_string (now e));
          ext = last (split_on (CHR ''.'') originalFilename)
      in ''compliance/'' @ userId @ ''/'' @ doc_type_str documentType @ ''/'' @ hash @ ''.'' @ ext)"

definition new_document :: "compliance_env \<Rightarrow> string \<Rightarrow> kyc_verification \<Rightarrow> upload_file \<Rightarrow> kyc_document_type \<Rightarrow> string option \<Rightarrow> kyc_document" where
  "new_document e userId v file documentType notes =
     \<lparr>kd_id = uuid e 1, kd_createdAt = now e, kd_userId = userId, kd_kycVerificationId = ky_id v,
      kd_documentType = documentType, kd_status = DOC_PENDING, kd_fileName = uf_originalname file,
      kd_mimeType = uf_mimetype file, kd_fileSize = uf_size file,
      kd_storagePath = generateStoragePath e userId documentType (uf_originalname file),
      kd_fileHash = ce_sha256 e (uf_buffer file), kd_encryptionKeyId = Some (''kms-key-'' @ int_to_string (now e)),
      kd_reviewedBy = None, kd_reviewedAt = None, kd_rejectionReason = None,
      kd_metadata = (if truthy notes then Some (JObj [(''note'', JStr (the notes))]) else None)\<rparr>"

definition save_document :: "kyc_document \<Rightarrow> compliance_db \<Rightarrow> compliance_db result" where
  "save_document d db =
     (if length (kd_fileName d) \<le> 256 \<and> length (kd_mimeType d) \<le> 128 \<and> length (kd_storagePath d) \<le> 512
      then Inr (db\<lparr>cd_documents := save_row kd_id d (cd_documents db)\<rparr>) else Inl (QueryFailed ''kyc_documents''))"

definition getOrCreateKyc :: "compliance_env \<Rightarrow> string \<Rightarrow> compliance_db \<Rightarrow> kyc_verification \<times> compliance_db" where
  "getOrCreateKyc e userId db = (case find_kyc userId db of
       Some v \<Rightarrow> (v, db)
     | None \<Rightarrow> let v = new_kyc e userId None in (v, db\<lparr>cd_kyc := save_row ky_id v (cd_kyc db)\<rparr>))"

definition uploadDocument ::
    "compliance_env \<Rightarrow> string \<Rightarrow> upload_file \<Rightarrow> kyc_document_type \<Rightarrow> string option \<Rightarrow> string option \<Rightarrow> string option \<Rightarrow> compliance_db \<Rightarrow>
     kyc_document result \<times> compliance_db" where
  "uploadDocument e userId file documentType notes performedBy performedByRole db =
     (if uf_mimetype file \<notin> set ALLOWED_MIME_TYPES
      then (Inl (BadRequest (''Invalid file type: '' @ uf_mimetype file @ ''. Allowed: '' @ join_with '', '' ALLOWED_MIME_TYPES)), db)
      else if MAX_FILE_SIZE_BYTES < uf_size file
      then (Inl (BadRequest (''File size '' @ int_to_string (uf_size file) @ '' exceeds maximum of '' @
              int_to_string MAX_FILE_SIZE_BYTES @ '' bytes'')), db)
      else case getOrCreateKyc e userId db of (v, db1) \<Rightarrow>
        let d = new_document e userId v file documentType notes in
        case save_document d db1 of Inl err \<Rightarrow> (Inl err, db1)
        | Inr db2 \<Rightarrow> audit_then e 2
            \<lparr>au_performedBy = case_option userId id performedBy, au_performedByRole = case_option ''user'' id performedByRole,
             au_targetUserId = userId, au_action = ''kyc.document_upload'',
             au_description = ''Document uploaded: '' @ doc_type_str documentType @ '' ('' @ uf_originalname file @ '', '' @
               int_to_string (uf_size file) @ '' bytes)'',
             au_entityType = Some ''kyc_document'', au_entityId = Some (kd_id d), au_previousState = None, au_newState = None,
             au_ipAddress = None,
             au_metadata = Some (JObj [(''documentType'', JStr (doc_type_str documentType)), (''mimeType'', JStr (uf_mimetype file)),
               (''fileSize'', JNum (of_int (uf_size file))), (''fileHash'', JStr (kd_fileHash d))])\<rparr>
            [KYC_DOCUMENT_UPLOADED userId (kd_id d) documentType] d db2)"

definition getDocuments :: "string \<Rightarrow> compliance_db \<Rightarrow> kyc_document list" where
  "getDocuments userId db = newest_first kd_createdAt (filter (\<lambda>d. kd_userId d = userId) (cd_documents db))"

definition getDocument :: "string \<Rightarrow> string \<Rightarrow> bool \<Rightarrow> compliance_db \<Rightarrow> kyc_document result" where
  "getDocument documentId requesterId isPrivileged db = (case row_by kd_id documentId (cd_documents db) of
       None \<Rightarrow> Inl (NotFound (''Document '' @ documentId @ '' not found''))
     | Some d \<Rightarrow> if \<not> isPrivileged \<and> kd_userId d \<noteq> requesterId then Inl (NotFound (''Document '' @ documentId @ '' not found'')) else Inr d)"

definition isPrivilegedRole :: "string \<Rightarrow> bool" where
  "isPrivilegedRole role \<longleftrightarrow> role = ''admin'' \<or> role = ''analyst''"

definition verified_types :: "kyc_document list \<Rightarrow> kyc_document_type set" where
  "verified_types docs = kd_documentType ` set (filter (\<lambda>d. kd_status d = DOC_VERIFIED) docs)"

definition required_types :: "kyc_document_type list" where
  "required_types = [ID_VERIFICATION, ADDRESS_PROOF]"

definition completed_level :: "kyc_document list \<Rightarrow> kyc_level \<Rightarrow> kyc_level" where
  "completed_level docs level =
     (let types = verified_types docs; allRequiredVerified = list_all (\<lambda>t. t \<in> types) required_types in
      if allRequiredVerified \<and> BENEFICIAL_OWNERSHIP \<in> types then ENHANCED
      else if allRequiredVerified then STANDARD else level)"

text \<open>The row is changed before the event is built, so the event has the new level twice.\<close>

definition checkDocumentCompletion :: "string \<Rightarrow> compliance_db \<Rightarrow> compliance_db" where
  "checkDocumentCompletion userId db = (case find_kyc userId db of None \<Rightarrow> db
     | Some v \<Rightarrow>
        let newLevel = completed_level (filter (\<lambda>d. kd_userId d = userId) (cd_documents db)) (ky_level v) in
        if newLevel = ky_level v then db
        else emit_event (KYC_LEVEL_UPDATED userId newLevel newLevel (Some ''document_verification_complete''))
               (db\<lparr>cd_kyc := save_row ky_id (v\<lparr>ky_level := newLevel\<rparr>) (cd_kyc db)\<rparr>))"

definition reviewed_document :: "compliance_env \<Rightarrow> kyc_document_status \<Rightarrow> string \<Rightarrow> string option \<Rightarrow> kyc_document \<Rightarrow> kyc_document" where
  "reviewed_document e status reviewerId rejectionReason d =
     d\<lparr>kd_status := status, kd_reviewedBy := Some reviewerId, kd_reviewedAt := Some (now e),
       kd_rejectionReason := (if status = DOC_REJECTED \<and> truthy rejectionReason then rejectionReason else kd_rejectionReason d)\<rparr>"

definition reviewDocument ::
    "compliance_env \<Rightarrow> string \<Rightarrow> kyc_document_status \<Rightarrow> string \<Rightarrow> string \<Rightarrow> string option \<Rightarrow> compliance_db \<Rightarrow> kyc_document result \<times> compliance_db" where
  "reviewDocument e documentId status reviewerId reviewerRole rejectionReason db =
     (case getDocument documentId reviewerId (isPrivilegedRole reviewerRole) db of
       Inl err \<Rightarrow> (Inl err, db)
     | Inr old \<Rightarrow>
        let d = reviewed_document e status reviewerId rejectionReason old in
        case save_document d db of Inl err \<Rightarrow> (Inl err, db)
        | Inr db1 \<Rightarrow> audit_then e 0
            \<lparr>au_performedBy = reviewerId, au_performedByRole = reviewerRole, au_targetUserId = kd_userId d,
             au_action = ''kyc.document_'' @ doc_status_str status,
             au_description = ''Document '' @ doc_status_str status @ '': '' @ kd_fileName d @ '' ('' @ doc_type_str (kd_documentType d) @ '')'',
             au_entityType = Some ''kyc_document'', au_entityId = Some documentId,
             au_previousState = Some (JObj [(''status'', JStr (doc_status_str (kd_status old)))]),
             au_newState = Some (JObj [(''status'', JStr (doc_status_str status))]), au_ipAddress = None, au_metadata = None\<rparr>
            [] d (checkDocumentCompletion (kd_userId d) db1))"

definition retrieveDocument :: "string \<Rightarrow> string \<Rightarrow> compliance_db \<Rightarrow> (string \<times> string \<times> string) result" where
  "retrieveDocument documentId userId db = (case getDocument documentId userId False db of
       Inl err \<Rightarrow> Inl err
     | Inr d \<Rightarrow> Inr (kd_storagePath d, case_option [] id (kd_encryptionKeyId d), kd_fileName d))"

section \<open>Configuration\<close>

definition region_of :: "string \<Rightarrow> compliance_region option" where
  "region_of s = find (\<lambda>r. region_str r = s) regions"

definition default_config :: "compliance_env \<Rightarrow> nat \<Rightarrow> compliance_config" where
  "default_config e k = \<lparr>cc_id = uuid e k, cc_region = REGION_GLOBAL, cc_displayName = ''Global (Default)'',
     cc_amlTransactionThreshold = ''10000'', cc_dailyVolumeThreshold = ''50000'', cc_blockThresholdScore = 80,
     cc_enhancedDueDiligenceScore = 60, cc_flagThresholdScore = 40, cc_maxDailyTransactions = 50, cc_kycExpiryMonths = 12,
     cc_institutionalRequiredLevel = ''institutional'', cc_requireSarForCritical = True, cc_isActive = True, cc_customRules = None\<rparr>"

definition save_config :: "compliance_env \<Rightarrow> compliance_config \<Rightarrow> compliance_db \<Rightarrow> compliance_db result" where
  "save_config e c db = (case (ce_numeric e (cc_amlTransactionThreshold c), ce_numeric e (cc_dailyVolumeThreshold c)) of
       (Some a, Some v) \<Rightarrow>
         if length (cc_displayName c) \<le> 128
         then Inr (db\<lparr>cd_configs := save_row cc_id (c\<lparr>cc_amlTransactionThreshold := a, cc_dailyVolumeThreshold := v\<rparr>) (cd_configs db)\<rparr>)
         else Inl (QueryFailed ''compliance_configs'')
     | _ \<Rightarrow> Inl (QueryFailed ''compliance_configs''))"

definition find_config :: "compliance_region \<Rightarrow> compliance_db \<Rightarrow> compliance_config option" where
  "find_config r db = row_by cc_region r (cd_configs db)"

definition getConfigForRegion :: "compliance_env \<Rightarrow> nat \<Rightarrow> string \<Rightarrow> compliance_db \<Rightarrow> (compliance_config \<times> compliance_db) result" where
  "getConfigForRegion e k region db =
     (let r = region_of (to_lower region) in
      if r = None \<and> ce_enumStrict e then Inl (QueryFailed ''compliance_configs_region_enum'')
      else case Option.bind r (\<lambda>r. find_config r db) of
        Some c \<Rightarrow> Inr (c, db)
      | None \<Rightarrow> (case find_config REGION_GLOBAL db of
          Some c \<Rightarrow> Inr (c, db)
        | None \<Rightarrow> rbind (save_config e (default_config e k) db) (\<lambda>db'. Inr (default_config e k, db'))))"

definition listConfigs :: "compliance_db \<Rightarrow> compliance_config list" where
  "listConfigs db = concat (map (\<lambda>r. filter (\<lambda>c. cc_region c = r) (cd_configs db)) regions)"

text \<open>Only the fields that are in the request are assigned.\<close>

record upsert_config_dto =
  uc_region :: compliance_region
  uc_displayName :: "string option"
  uc_amlTransactionThreshold :: "string option"
  uc_dailyVolumeThreshold :: "string option"
  uc_blockThresholdScore :: "int option"
  uc_enhancedDueDiligenceScore :: "int option"
  uc_flagThresholdScore :: "int option"
  uc_maxDailyTransactions :: "int option"
  uc_kycExpiryMonths :: "int option"
  uc_requireSarForCritical :: "bool option"

definition assign_config :: "upsert_config_dto \<Rightarrow> compliance_config \<Rightarrow> compliance_config" where
  "assign_config dto c =
     c\<lparr>cc_region := uc_region dto,
       cc_displayName := case_option (cc_displayName c) id (uc_displayName dto),
       cc_amlTransactionThreshold := case_option (cc_amlTransactionThreshold c) id (uc_amlTransactionThreshold dto),
       cc_dailyVolumeThreshold := case_option (cc_dailyVolumeThreshold c) id (uc_dailyVolumeThreshold dto),
       cc_blockThresholdScore := case_option (cc_blockThresholdScore c) id (uc_blockThresholdScore dto),
       cc_enhancedDueDiligenceScore := case_option (cc_enhancedDueDiligenceScore c) id (uc_enhancedDueDiligenceScore dto),
       cc_flagThresholdScore := case_option (cc_flagThresholdScore c) id (uc_flagThresholdScore dto),
       cc_maxDailyTransactions := case_option (cc_maxDailyTransactions c) id (uc_maxDailyTransactions dto),
       cc_kycExpiryMonths := case_option (cc_kycExpiryMonths c) id (uc_kycExpiryMonths dto),
       cc_requireSarForCritical := case_option (cc_requireSarForCritical c) id (uc_requireSarForCritical dto)\<rparr>"

definition config_json :: "compliance_config \<Rightarrow> json" where
  "config_json c = JObj [(''id'', JStr (cc_id c)), (''region'', JStr (region_str (cc_region c))),
     (''displayName'', JStr (cc_displayName c)), (''amlTransactionThreshold'', JStr (cc_amlTransactionThreshold c)),
     (''dailyVolumeThreshold'', JStr (cc_dailyVolumeThreshold c)), (''blockThresholdScore'', JNum (of_int (cc_blockThresholdScore c))),
     (''enhancedDueDiligenceScore'', JNum (of_int (cc_enhancedDueDiligenceScore c))),
     (''flagThresholdScore'', JNum (of_int (cc_flagThresholdScore c))),
     (''maxDailyTransactions'', JNum (of_int (cc_maxDailyTransactions c))), (''kycExpiryMonths'', JNum (of_int (cc_kycExpiryMonths c))),
     (''institutionalRequiredLevel'', JStr (cc_institutionalRequiredLevel c)),
     (''requireSarForCritical'', JBool (cc_requireSarForCritical c)), (''isActive'', JBool (cc_isActive c)),
     (''customRules'', case_option JNull id (cc_customRules c))]"

text \<open>A new row without a display name violates the not-null column.\<close>

definition upsertConfig :: "compliance_env \<Rightarrow> upsert_config_dto \<Rightarrow> string \<Rightarrow> string \<Rightarrow> compliance_db \<Rightarrow> compliance_config result \<times> compliance_db" where
  "upsertConfig e dto performedBy performedByRole db =
     (let existing = find_config (uc_region dto) db;
          c = assign_config dto (case existing of Some x \<Rightarrow> x | None \<Rightarrow> (default_config e 0)\<lparr>cc_region := uc_region dto\<rparr>) in
      if existing = None \<and> uc_displayName dto = None then (Inl (QueryFailed ''compliance_configs''), db)
      else case save_config e c db of Inl err \<Rightarrow> (Inl err, db)
      | Inr db1 \<Rightarrow> audit_then e 1
          \<lparr>au_performedBy = performedBy, au_performedByRole = performedByRole, au_targetUserId = ''system'',
           au_action = (if existing = None then ''compliance.config_create'' else ''compliance.config_update''),
           au_description = ''Compliance config '' @ (if existing = None then ''created'' else ''updated'') @ '' for region '' @ region_str (uc_region dto),
           au_entityType = Some ''compliance_config'', au_entityId = Some (cc_id c),
           au_previousState = map_option config_json existing, au_newState = Some (config_json c),
           au_ipAddress = None, au_metadata = None\<rparr> [] c db1)"

section \<open>Flags\<close>

record query_aml_flag_dto =
  qf_status :: "aml_flag_status option"
  qf_riskLevel :: "aml_risk_level option"
  qf_userId :: "string option"
  qf_triggerRule :: "string option"
  qf_page :: nat
  qf_limit :: nat

definition listFlags :: "query_aml_flag_dto \<Rightarrow> compliance_db \<Rightarrow> aml_flag paginated_result" where
  "listFlags q db = page_of fg_createdAt
     (filter (\<lambda>f. opt_filter (qf_status q) (fg_status f) \<and> opt_filter (qf_riskLevel q) (fg_riskLevel f) \<and>
        str_filter (qf_userId q) (fg_userId f) \<and> str_filter (qf_triggerRule q) (fg_triggerRule f)) (cd_flags db)) (qf_page q) (qf_limit q)"

definition getFlag :: "string \<Rightarrow> string \<Rightarrow> bool \<Rightarrow> compliance_db \<Rightarrow> aml_flag result" where
  "getFlag flagId requesterId isPrivileged db = (case row_by fg_id flagId (cd_flags db) of
       None \<Rightarrow> Inl (NotFound (''AML flag '' @ flagId @ '' not found''))
     | Some f \<Rightarrow> if \<not> isPrivileged \<and> fg_userId f \<noteq> requesterId then Inl (NotFound (''AML flag '' @ flagId @ '' not found'')) else Inr f)"

record review_aml_flag_dto =
  rv_status :: aml_flag_status
  rv_resolutionNotes :: string
  rv_sarFiled :: "bool option"
  rv_sarReference :: "string option"
  rv_evidence :: "string option"

definition review_evidence :: "compliance_env \<Rightarrow> string \<Rightarrow> json" where
  "review_evidence e s = (case ce_jsonParse e s of Some j \<Rightarrow> j | None \<Rightarrow> JObj [(''rawEvidence'', JStr s)])"

definition reviewed_flag :: "compliance_env \<Rightarrow> string \<Rightarrow> review_aml_flag_dto \<Rightarrow> aml_flag \<Rightarrow> aml_flag" where
  "reviewed_flag e reviewerId dto f =
     f\<lparr>fg_status := rv_status dto, fg_resolutionNotes := Some (rv_resolutionNotes dto), fg_reviewedBy := Some reviewerId,
       fg_reviewedAt := Some (now e), fg_sarFiled := case_option (fg_sarFiled f) id (rv_sarFiled dto),
       fg_sarReference := (if truthy (rv_sarReference dto) then rv_sarReference dto else fg_sarReference f),
       fg_evidence := (if truthy (rv_evidence dto) then Some (review_evidence e (the (rv_evidence dto))) else fg_evidence f)\<rparr>"

definition save_flag :: "compliance_env \<Rightarrow> aml_flag \<Rightarrow> compliance_db \<Rightarrow> compliance_db result" where
  "save_flag e f db = (case fg_transactionAmount f of
       None \<Rightarrow> if opt_fits 128 (fg_sarReference f) then Inr (db\<lparr>cd_flags := save_row fg_id f (cd_flags db)\<rparr>) else Inl (QueryFailed ''aml_flags'')
     | Some a \<Rightarrow> (case ce_numeric e a of
         None \<Rightarrow> Inl (QueryFailed ''aml_flags'')
       | Some a' \<Rightarrow> if opt_fits 128 (fg_sarReference f)
           then Inr (db\<lparr>cd_flags := save_row fg_id (f\<lparr>fg_transactionAmount := Some a'\<rparr>) (cd_flags db)\<rparr>) else Inl (QueryFailed ''aml_flags'')))"

text \<open>A review reads the flag and goes on with that copy; there is no lock and no condition on the update.\<close>

definition reviewFlag_rest ::
    "compliance_env \<Rightarrow> string \<Rightarrow> string \<Rightarrow> string \<Rightarrow> review_aml_flag_dto \<Rightarrow> string option \<Rightarrow> aml_flag \<Rightarrow> compliance_db \<Rightarrow> aml_flag result \<times> compliance_db" where
  "reviewFlag_rest e flagId reviewerId reviewerRole dto ipAddress old db =
       (if fg_status old \<noteq> FLAG_PENDING \<and> fg_status old \<noteq> FLAG_REVIEWING
        then (Inl (Conflict (''AML flag '' @ flagId @ '' is already in '' @ flag_status_str (fg_status old) @ '' status and cannot be reviewed'')), db)
        else
          let f = reviewed_flag e reviewerId dto old in
          case save_flag e f db of Inl err \<Rightarrow> (Inl err, db)
          | Inr db1 \<Rightarrow> audit_then e 0
              \<lparr>au_performedBy = reviewerId, au_performedByRole = reviewerRole, au_targetUserId = fg_userId f,
               au_action = ''aml.flag_'' @ flag_status_str (rv_status dto),
               au_description = ''AML flag reviewed: '' @ flag_status_str (rv_status dto) @ '' - '' @ rv_resolutionNotes dto,
               au_entityType = Some ''aml_flag'', au_entityId = Some flagId,
               au_previousState = Some (JObj [(''status'', JStr (flag_status_str (fg_status old))),
                 (''resolutionNotes'', jstr_opt (fg_resolutionNotes old)), (''sarFiled'', JBool (fg_sarFiled old))]),
               au_newState = Some (JObj ([(''status'', JStr (flag_status_str (rv_status dto))),
                 (''resolutionNotes'', JStr (rv_resolutionNotes dto))] @
                 (case rv_sarFiled dto of None \<Rightarrow> [] | Some b \<Rightarrow> [(''sarFiled'', JBool b)]))),
               au_ipAddress = ipAddress, au_metadata = None\<rparr>
              [AML_FLAG_REVIEWED flagId (fg_userId f) (rv_status dto) reviewerId] f db1)"

definition reviewFlag ::
    "compliance_env \<Rightarrow> string \<Rightarrow> string \<Rightarrow> string \<Rightarrow> review_aml_flag_dto \<Rightarrow> string option \<Rightarrow> compliance_db \<Rightarrow> aml_flag result \<times> compliance_db" where
  "reviewFlag e flagId reviewerId reviewerRole dto ipAddress db =
     (case getFlag flagId reviewerId (isPrivilegedRole reviewerRole) db of
       Inl err \<Rightarrow> (Inl err, db)
     | Inr old \<Rightarrow> reviewFlag_rest e flagId reviewerId reviewerRole dto ipAddress old db)"

end
