(* ===== verification/ComplianceRisk.thy ===== *)
theory ComplianceRisk
  imports Compliance
begin

text \<open>
  Risk scoring of \<^verbatim>\<open>ComplianceService\<close>: the score of a user, its refresh, the assessment of a
  transaction with the flag it may create, and the check whether a user's transactions are blocked.
\<close>

section \<open>Score of a user\<close>

definition scoreToRiskLevel :: "int \<Rightarrow> aml_risk_level" where
  "scoreToRiskLevel score =
     (if 75 \<le> score then RISK_CRITICAL else if 50 \<le> score then RISK_HIGH else if 25 \<le> score then RISK_MEDIUM else RISK_LOW)"

text \<open>The weights \<^verbatim>\<open>RISK_WEIGHTS\<close>, in the order of the source.\<close>

definition RISK_WEIGHTS :: "(string \<times> number) list" where
  "RISK_WEIGHTS = [(''transactionAmount'', 25), (''transactionFrequency'', 20), (''accountAge'', 15), (''regionRisk'', 10),
     (''documentVerification'', 20), (''previousFlags'', 10)]"

definition weight :: "string \<Rightarrow> number" where
  "weight k = fl (the (map_of RISK_WEIGHTS k) / 100)"

definition HIGH_RISK_REGIONS :: "string list" where
  "HIGH_RISK_REGIONS = [''KP'', ''IR'', ''SY'']"

definition MEDIUM_RISK_REGIONS :: "string list" where
  "MEDIUM_RISK_REGIONS = [''RU'', ''CN'', ''NG'', ''PK'', ''BD'', ''MM'', ''IR'']"

definition upper_char :: "char \<Rightarrow> char" where
  "upper_char c = (let n = of_char c in if 97 \<le> n \<and> n \<le> (122::nat) then char_of (n - 32) else c)"

definition to_upper :: "string \<Rightarrow> string" where
  "to_upper s = map upper_char s"

fun kyc_level_score :: "kyc_level \<Rightarrow> number" where
  "kyc_level_score UNVERIFIED = 100"
| "kyc_level_score STANDARD = 40"
| "kyc_level_score ENHANCED = 15"
| "kyc_level_score INSTITUTIONAL = 5"

definition kyc_factor :: "kyc_verification option \<Rightarrow> number" where
  "kyc_factor v = num_mul (kyc_level_score (case v of None \<Rightarrow> UNVERIFIED | Some v \<Rightarrow> ky_level v)) (weight ''documentVerification'')"

definition document_factor :: "kyc_document list \<Rightarrow> number" where
  "document_factor docs =
     (let missing = filter (\<lambda>t. t \<notin> verified_types docs) required_types
      in num_mul (num_mul (fl (of_nat (length missing) / of_nat (length required_types))) 100) (weight ''documentVerification''))"

definition flag_score :: "int \<Rightarrow> aml_flag list \<Rightarrow> int" where
  "flag_score tm flags =
     (let recent = filter (\<lambda>f. tm - fg_createdAt f < 90 * 24 * 60 * 60 * 1000) flags;
          critical = filter (\<lambda>f. fg_riskLevel f = RISK_CRITICAL) recent;
          high = filter (\<lambda>f. fg_riskLevel f = RISK_HIGH) recent
      in min (int (length critical) * 40 + int (length high) * 20 + int (length recent) * 5) 100)"

definition age_score :: "int \<Rightarrow> kyc_verification option \<Rightarrow> number" where
  "age_score tm v =
     (let days = (case v of None \<Rightarrow> 0 | Some v \<Rightarrow> fl (of_int (tm - ky_createdAt v) / (24 * 60 * 60 * 1000)))
      in if days < 30 then 90 else if days < 90 then 60 else if days < 365 then 30 else 10)"

definition region_score :: "kyc_verification option \<Rightarrow> number" where
  "region_score v = (case Option.bind v ky_region of None \<Rightarrow> 20
     | Some r \<Rightarrow> if to_upper r \<in> set HIGH_RISK_REGIONS then 100 else if to_upper r \<in> set MEDIUM_RISK_REGIONS then 60 else 20)"

definition risk_factors :: "int \<Rightarrow> kyc_verification option \<Rightarrow> kyc_document list \<Rightarrow> aml_flag list \<Rightarrow> (string \<times> number) list" where
  "risk_factors tm v docs flags =
     [(''kycLevel'', kyc_factor v), (''documentVerification'', document_factor docs),
      (''previousFlags'', num_mul (of_int (flag_score tm flags)) (weight ''previousFlags'')),
      (''accountAge'', num_mul (age_score tm v) (weight ''accountAge'')),
      (''regionRisk'', num_mul (region_score v) (weight ''regionRisk'')),
      (''transactionAmount'', 0), (''transactionFrequency'', 0)]"

definition total_score :: "(string \<times> number) list \<Rightarrow> int" where
  "total_score factors =
     (let s = foldl num_add 0 (map snd factors)
      in min (math_round (num_mul (fl (s / fl (of_nat (length RISK_WEIGHTS) / 100))) (fl (100 / of_nat (length factors))))) 100)"

definition calculateRiskScore :: "compliance_env \<Rightarrow> string \<Rightarrow> compliance_db \<Rightarrow> int \<times> aml_risk_level \<times> (string \<times> number) list" where
  "calculateRiskScore e userId db =
     (let factors = risk_factors (now e) (find_kyc userId db) (filter (\<lambda>d. kd_userId d = userId) (cd_documents db))
            (filter (\<lambda>f. fg_userId f = userId) (cd_flags db));
          score = total_score factors
      in (score, scoreToRiskLevel score, factors))"

definition score_state :: "int \<Rightarrow> aml_risk_level \<Rightarrow> json" where
  "score_state score level = JObj [(''riskScore'', JNum (of_int score)), (''riskLevel'', JStr (risk_level_str level))]"

definition updateRiskAssessment :: "compliance_env \<Rightarrow> string \<Rightarrow> compliance_db \<Rightarrow> kyc_verification result \<times> compliance_db" where
  "updateRiskAssessment e userId db = (case find_kyc userId db of
       None \<Rightarrow> (Inl (kyc_missing userId), db)
     | Some old \<Rightarrow> (case calculateRiskScore e userId db of (score, level, factors) \<Rightarrow>
        let v = old\<lparr>ky_riskScore := score, ky_riskLevel := level\<rparr> in
        case save_kyc v db of Inl err \<Rightarrow> (Inl err, db)
        | Inr db1 \<Rightarrow> audit_then e 0
            \<lparr>au_performedBy = ''system'', au_performedByRole = ''system'', au_targetUserId = userId,
             au_action = ''compliance.risk_assessment'',
             au_description = ''Risk score updated: '' @ int_to_string score @ '' ('' @ risk_level_str level @ '')'',
             au_entityType = Some ''kyc_verification'', au_entityId = Some (ky_id v),
             au_previousState = Some (score_state (ky_riskScore old) (ky_riskLevel old)), au_newState = Some (score_state score level),
             au_ipAddress = None,
             au_metadata = Some (JObj [(''factors'', JObj (map (\<lambda>(k, x). (k, JNum x)) factors))])\<rparr> [] v db1))"

section \<open>Assessment of a transaction\<close>

record recent_transaction =
  rt_amount :: number
  rt_timestamp :: string

record assess_transaction_risk_dto =
  at_amount :: number
  at_transactionType :: string
  at_assetCode :: "string option"
  at_recentTransactions :: "recent_transaction list option"

text \<open>\<^verbatim>\<open>x % y\<close>, which is exact.\<close>

definition js_rem :: "number \<Rightarrow> number \<Rightarrow> number" where
  "js_rem x y = x - y * of_int (if 0 \<le> x / y then \<lfloor>x / y\<rfloor> else \<lceil>x / y\<rceil>)"

definition structured :: "jnum \<Rightarrow> recent_transaction \<Rightarrow> bool" where
  "structured threshold t \<longleftrightarrow> js_leq (js_mul threshold (Some (fl (9/10)))) (Some (rt_amount t)) \<and> js_less (Some (rt_amount t)) threshold"

definition in_last_day :: "compliance_env \<Rightarrow> recent_transaction \<Rightarrow> bool" where
  "in_last_day e t = (case date_parse (ce_dateParse e) (rt_timestamp t) of None \<Rightarrow> False | Some tt \<Rightarrow> now e - tt < 24 * 60 * 60 * 1000)"

definition history_rules :: "compliance_env \<Rightarrow> compliance_config \<Rightarrow> recent_transaction list \<Rightarrow> (string \<times> number) list" where
  "history_rules e config ts = (if ts = [] then [] else
     (if 3 \<le> length (filter (structured (parse_float (cc_amlTransactionThreshold config))) ts) then [(''structuring_detected'', 30)] else []) @
     (if js_less (parse_float (cc_dailyVolumeThreshold config))
           (Some (foldl (\<lambda>s t. num_add s (rt_amount t)) 0 (filter (in_last_day e) ts))) then [(''rapid_movement'', 25)] else []) @
     (if cc_maxDailyTransactions config < int (length ts) then [(''unusual_volume'', 20)] else []) @
     (if 5 \<le> length (filter (\<lambda>t. js_rem (rt_amount t) 1000 = 0 \<and> 0 < rt_amount t) ts) then [(''round_amounts'', 15)] else []))"

definition high_risk_region :: "kyc_verification option \<Rightarrow> bool" where
  "high_risk_region v = (case Option.bind v ky_region of None \<Rightarrow> False | Some r \<Rightarrow> r \<noteq> [] \<and> to_upper r \<in> set HIGH_RISK_REGIONS)"

text \<open>The rules that fire with what each adds to the score, in the order of the source.\<close>

definition triggered :: "compliance_env \<Rightarrow> compliance_config \<Rightarrow> kyc_verification option \<Rightarrow> assess_transaction_risk_dto \<Rightarrow> (string \<times> number) list" where
  "triggered e config v dto =
     (if js_leq (parse_float (cc_amlTransactionThreshold config)) (Some (at_amount dto)) then [(''aml_transaction_threshold'', 25)] else []) @
     history_rules e config (case_option [] id (at_recentTransactions dto)) @
     (if high_risk_region v then [(''high_risk_jurisdiction'', 20)] else [])"

definition transaction_score :: "(string \<times> number) list \<Rightarrow> kyc_verification option \<Rightarrow> int" where
  "transaction_score rules v =
     (let s = foldl num_add 0 (map snd rules);
          baseline = num_mul (of_int (case v of None \<Rightarrow> 0 | Some v \<Rightarrow> ky_riskScore v)) (fl (3/10))
      in min (math_round (num_add s baseline)) 100)"

record risk_result =
  ra_riskLevel :: aml_risk_level
  ra_riskScore :: int
  ra_shouldBlock :: bool
  ra_triggeredRules :: "string list"
  ra_flag :: "aml_flag option"

definition new_flag :: "compliance_env \<Rightarrow> string \<Rightarrow> assess_transaction_risk_dto \<Rightarrow> int \<Rightarrow> string list \<Rightarrow> aml_flag" where
  "new_flag e userId dto score rules =
     \<lparr>fg_id = uuid e 1, fg_createdAt = now e, fg_userId = userId, fg_transactionId = None, fg_riskLevel = scoreToRiskLevel score,
      fg_status = FLAG_PENDING, fg_triggerRule = hd rules,
      fg_description = ''Transaction risk assessment flagged: '' @ join_with '', '' rules, fg_riskScore = score,
      fg_transactionAmount = Some (num_to_string (at_amount dto)), fg_reviewedBy = None, fg_reviewedAt = None,
      fg_resolutionNotes = None,
      fg_evidence = Some (JObj ([(''transactionType'', JStr (at_transactionType dto))] @
        (case at_assetCode dto of None \<Rightarrow> [] | Some a \<Rightarrow> [(''assetCode'', JStr a)]) @
        [(''allTriggeredRules'', JArr (map JStr rules))])),
      fg_sarFiled = False, fg_sarReference = None\<rparr>"

definition assessTransactionRisk ::
    "compliance_env \<Rightarrow> string \<Rightarrow> assess_transaction_risk_dto \<Rightarrow> string option \<Rightarrow> string option \<Rightarrow> compliance_db \<Rightarrow> risk_result result \<times> compliance_db" where
  "assessTransactionRisk e userId dto performedBy performedByRole db =
     (let v = find_kyc userId db in
      case getConfigForRegion e 0 (case_option ''global'' id (Option.bind v ky_region)) db of
        Inl err \<Rightarrow> (Inl err, db)
      | Inr (config, db1) \<Rightarrow>
        let fired = triggered e config v dto; rules = map fst fired; score = transaction_score fired v; level = scoreToRiskLevel score;
            res = \<lparr>ra_riskLevel = level, ra_riskScore = score,
                   ra_shouldBlock = (cc_blockThresholdScore config \<le> score \<or> level = RISK_CRITICAL),
                   ra_triggeredRules = rules, ra_flag = None\<rparr> in
        if rules = [] then (Inr res, db1)
        else
          let f = new_flag e userId dto score rules in
          case save_flag e f db1 of Inl err \<Rightarrow> (Inl err, db1)
          | Inr db2 \<Rightarrow> audit_then e 2
              \<lparr>au_performedBy = case_option ''system'' id performedBy, au_performedByRole = case_option ''system'' id performedByRole,
               au_targetUserId = userId, au_action = ''aml.flag_created'',
               au_description = ''AML flag created: '' @ risk_level_str level @ '' risk (score: '' @ int_to_string score @ ''), rules: '' @
                 join_with '', '' rules,
               au_entityType = Some ''aml_flag'', au_entityId = Some (fg_id f), au_previousState = None, au_newState = None,
               au_ipAddress = None,
               au_metadata = Some (JObj [(''riskScore'', JNum (of_int score)), (''riskLevel'', JStr (risk_level_str level)),
                 (''triggeredRules'', JArr (map JStr rules)), (''transactionAmount'', JNum (at_amount dto))])\<rparr>
              [AML_FLAG_CREATED userId (fg_id f) level score rules] (res\<lparr>ra_flag := Some f\<rparr>) db2)"

section \<open>Blocking\<close>

definition shouldBlockTransactions :: "compliance_env \<Rightarrow> string \<Rightarrow> compliance_db \<Rightarrow> bool result \<times> compliance_db" where
  "shouldBlockTransactions e userId db = (case find_kyc userId db of
       None \<Rightarrow> (Inr True, db)
     | Some v \<Rightarrow>
        if ky_transactionsBlocked v \<or> ky_riskLevel v = RISK_CRITICAL then (Inr True, db)
        else (case getConfigForRegion e 0 (case_option ''global'' id (ky_region v)) db of
            Inl err \<Rightarrow> (Inl err, db)
          | Inr (config, db1) \<Rightarrow> (Inr (cc_blockThresholdScore config \<le> ky_riskScore v), db1)))"

end
