(* ===== verification/Compliance_Inv.thy ===== *)
theory Compliance_Inv
  imports ComplianceRisk Overlap
begin

text \<open>
  The risk score of a user is always 100 (\<open>calculateRiskScore_100\<close>); the step relation of the compliance
  service, one rule per operation with identifiers that are not in use, and the invariant of its tables.
\<close>

section \<open>The score\<close>

lemma region_score_ge: "20 \<le> region_score v"
  by (simp add: region_score_def split: option.splits)

lemma sum_ge_last:
  assumes "0 \<le> s" and "0 \<le> (c::rat)" and "c \<le> r"
  shows "9 / 10 * c \<le> num_add s r"
proof -
  have "9 / 10 * c \<le> 9 / 10 * (s + r)" using assms by simp
  also have "\<dots> \<le> fl (s + r)" using assms by (intro fl_rel) simp
  finally show ?thesis by (simp add: num_add_def)
qed

lemma num_mul_ge: "0 \<le> c \<Longrightarrow> 0 \<le> d \<Longrightarrow> c \<le> x \<Longrightarrow> d \<le> y \<Longrightarrow> 9 / 10 * (c * d) \<le> num_mul x y"
  using fl_rel(1) [of "x * y"] mult_mono [of c x d y] by (simp add: num_mul_def)

lemma weight_ge: "w \<in> set RISK_WEIGHTS \<Longrightarrow> 9 / 100 \<le> weight (fst w)"
  using fl_rel(1) [of "25 / 100"] fl_rel(1) [of "20 / 100"] fl_rel(1) [of "15 / 100"] fl_rel(1) [of "10 / 100"]
  by (auto simp: RISK_WEIGHTS_def weight_def)

lemma factor_nonneg: "0 \<le> x \<Longrightarrow> w \<in> set RISK_WEIGHTS \<Longrightarrow> 0 \<le> num_mul x (weight (fst w))"
  using weight_ge [of w] by (simp add: num_mul_def fl_nonneg)

lemma factors_nonneg:
  "0 \<le> kyc_factor v" "0 \<le> document_factor docs" "0 \<le> num_mul (of_int (flag_score tm flags)) (weight ''previousFlags'')"
  "0 \<le> num_mul (age_score tm v) (weight ''accountAge'')" "9 / 10 * (20 * (9 / 100)) \<le> num_mul (region_score v) (weight ''regionRisk'')"
proof -
  have w: "9 / 100 \<le> weight ''documentVerification''" "9 / 100 \<le> weight ''previousFlags''" "9 / 100 \<le> weight ''accountAge''"
    "9 / 100 \<le> weight ''regionRisk''"
    using weight_ge [of "(''documentVerification'', 20)"] weight_ge [of "(''previousFlags'', 10)"] weight_ge [of "(''accountAge'', 15)"]
      weight_ge [of "(''regionRisk'', 10)"] by (simp_all add: RISK_WEIGHTS_def)
  have "0 \<le> kyc_level_score l" for l by (cases l) simp_all
  then show "0 \<le> kyc_factor v" using w(1) by (simp add: kyc_factor_def num_mul_def fl_nonneg)
  show "0 \<le> document_factor docs" using w(1) by (simp add: document_factor_def Let_def num_mul_def fl_nonneg)
  show "0 \<le> num_mul (of_int (flag_score tm flags)) (weight ''previousFlags'')"
    using w(2) by (simp add: flag_score_def Let_def num_mul_def fl_nonneg)
  show "0 \<le> num_mul (age_score tm v) (weight ''accountAge'')" using w(3) by (simp add: age_score_def Let_def num_mul_def fl_nonneg)
  show "9 / 10 * (20 * (9 / 100)) \<le> num_mul (region_score v) (weight ''regionRisk'')"
    using num_mul_ge [OF _ _ region_score_ge w(4)] by simp
qed

lemma total_score_100: "total_score (risk_factors tm v docs flags) = 100"
proof -
  let ?k = "kyc_factor v" and ?d = "document_factor docs" and ?f = "num_mul (of_int (flag_score tm flags)) (weight ''previousFlags'')"
    and ?a = "num_mul (age_score tm v) (weight ''accountAge'')" and ?r = "num_mul (region_score v) (weight ''regionRisk'')"
  note n = factors_nonneg(1) [of v] factors_nonneg(2) [of docs] factors_nonneg(3) [of tm flags] factors_nonneg(4) [of tm v] factors_nonneg(5) [of v]
  define s4 where "s4 = num_add (num_add (num_add (num_add 0 ?k) ?d) ?f) ?a"
  have s4: "0 \<le> s4" using n by (simp add: s4_def num_add_def fl_nonneg)
  have "9 / 10 * (9 / 10 * (20 * (9 / 100))) \<le> num_add s4 ?r" using sum_ge_last [OF s4 _ n(5)] by simp
  then have s: "1 \<le> num_add (num_add (num_add s4 ?r) 0) 0" (is "_ \<le> ?s")
    using fl_rel(1) [of "num_add s4 ?r"] fl_rel(1) [of "fl (num_add s4 ?r)"] by (simp add: num_add_def)
  have sum: "foldl num_add 0 (map snd (risk_factors tm v docs flags)) = ?s" by (simp add: risk_factors_def s4_def)
  have "0 < fl (6 / 100)" "fl (6 / 100) \<le> 66 / 1000" using fl_rel(2) [of "6 / 100"] by simp_all
  then have "1 * 15 \<le> ?s / fl (6 / 100)" using s by (simp add: field_simps)
  then have "13 \<le> fl (?s / fl (6 / 100))" using fl_rel(1) [of "?s / fl (6 / 100)"] by simp
  moreover have "12 \<le> fl (100 / 7)" using fl_rel(1) [of "100 / 7"] by simp
  ultimately have "100 \<le> num_mul (fl (?s / fl (6 / 100))) (fl (100 / 7))" using num_mul_ge [of 13 12] by fastforce
  then have "100 \<le> math_round (num_mul (fl (?s / fl (6 / 100))) (fl (100 / 7)))" by (simp add: math_round_def le_floor_iff)
  then show ?thesis unfolding total_score_def sum Let_def by (simp add: RISK_WEIGHTS_def risk_factors_def)
qed

lemma calculateRiskScore_100: "calculateRiskScore e u db =
   (100, RISK_CRITICAL, risk_factors (now e) (find_kyc u db) (filter (\<lambda>d. kd_userId d = u) (cd_documents db)) (filter (\<lambda>f. fg_userId f = u) (cd_flags db)))"
  by (simp add: calculateRiskScore_def Let_def total_score_100 scoreToRiskLevel_def)

section \<open>Tables with a second unique column\<close>

lemma distinct_map_save_row_old:
  "row_by key (key x) t = Some r \<Longrightarrow> f x = f r \<Longrightarrow> distinct (map f t) \<Longrightarrow> distinct (map f (save_row key x t))"
  by (simp add: map_save_row_same)

lemma save_row_fresh: "key x \<notin> key ` set t \<Longrightarrow> save_row key x t = t @ [x]"
  by (simp add: save_row_new row_by_None_iff)

lemma find_kyc_SomeD: "find_kyc u db = Some v \<Longrightarrow> v \<in> set (cd_kyc db) \<and> ky_userId v = u"
  unfolding find_kyc_def by (rule row_by_SomeD)

lemma find_kyc_NoneD: "find_kyc u db = None \<Longrightarrow> u \<notin> ky_userId ` set (cd_kyc db)"
  by (simp add: find_kyc_def row_by_None_iff)

section \<open>Frames\<close>

lemma emit_event_simps [simp]:
  "cd_kyc (emit_event ev db) = cd_kyc db" "cd_documents (emit_event ev db) = cd_documents db" "cd_flags (emit_event ev db) = cd_flags db"
  "cd_audit (emit_event ev db) = cd_audit db" "cd_configs (emit_event ev db) = cd_configs db"
  by (simp_all add: emit_event_def)

lemma emit_events_simps [simp]:
  "cd_kyc (foldl (\<lambda>d ev. emit_event ev d) db evs) = cd_kyc db" "cd_documents (foldl (\<lambda>d ev. emit_event ev d) db evs) = cd_documents db"
  "cd_flags (foldl (\<lambda>d ev. emit_event ev d) db evs) = cd_flags db" "cd_audit (foldl (\<lambda>d ev. emit_event ev d) db evs) = cd_audit db"
  "cd_configs (foldl (\<lambda>d ev. emit_event ev d) db evs) = cd_configs db"
  by (induction evs arbitrary: db) simp_all

lemma audit_then_frame [simp]:
  "cd_kyc (snd (audit_then e k r evs x db)) = cd_kyc db" "cd_documents (snd (audit_then e k r evs x db)) = cd_documents db"
  "cd_flags (snd (audit_then e k r evs x db)) = cd_flags db" "cd_configs (snd (audit_then e k r evs x db)) = cd_configs db"
  by (simp_all add: audit_then_def appendAudit_def)

lemma audit_then_prefix: "\<exists>new. cd_audit (snd (audit_then e k r evs x db)) = cd_audit db @ new \<and> length new \<le> 1"
  by (simp add: audit_then_def appendAudit_def)

section \<open>What every operation keeps\<close>

definition used_ids :: "compliance_db \<Rightarrow> string set" where
  "used_ids db = ky_id ` set (cd_kyc db) \<union> kd_id ` set (cd_documents db) \<union> fg_id ` set (cd_flags db) \<union> cc_id ` set (cd_configs db)"

definition fresh_ids :: "compliance_env \<Rightarrow> compliance_db \<Rightarrow> bool" where
  "fresh_ids e db \<longleftrightarrow> inj (uuid e) \<and> range (uuid e) \<inter> used_ids db = {}"

text \<open>
  The operations, each with the values its parameters have by their types; a review of a document verifies or rejects
  it. (The endpoint of that review does not validate the status it is sent.)
\<close>

inductive compliance_step :: "compliance_db \<Rightarrow> compliance_db \<Rightarrow> bool" where
  initiate: "fresh_ids e db \<Longrightarrow> compliance_step db (snd (initiateVerification e u dto p r db))"
| level: "compliance_step db (snd (updateKycLevel e u l dto' p' r' db))"
| upload: "fresh_ids e db \<Longrightarrow> compliance_step db (snd (uploadDocument e u file ty notes p r db))"
| review: "st = DOC_VERIFIED \<or> st = DOC_REJECTED \<Longrightarrow> compliance_step db (snd (reviewDocument e i st p' r' reason db))"
| refresh: "compliance_step db (snd (updateRiskAssessment e u db))"
| assess: "fresh_ids e db \<Longrightarrow> compliance_step db (snd (assessTransactionRisk e u tx p r db))"
| block: "fresh_ids e db \<Longrightarrow> compliance_step db (snd (shouldBlockTransactions e u db))"
| flag: "compliance_step db (snd (reviewFlag e i p' r' rv ip db))"
| config: "fresh_ids e db \<Longrightarrow> getConfigForRegion e k reg db = Inr (c, db') \<Longrightarrow> compliance_step db db'"
| upsert: "fresh_ids e db \<Longrightarrow> compliance_step db (snd (upsertConfig e cdto p' r' db))"

definition empty_db :: compliance_db where
  "empty_db = \<lparr>cd_kyc = [], cd_documents = [], cd_flags = [], cd_audit = [], cd_configs = [], cd_events = []\<rparr>"

definition compliance_reachable :: "compliance_db \<Rightarrow> bool" where
  "compliance_reachable db \<longleftrightarrow> compliance_step\<^sup>*\<^sup>* empty_db db"

definition kyc_row_ok :: "kyc_verification \<Rightarrow> bool" where
  "kyc_row_ok v \<longleftrightarrow> opt_fits 2 (ky_region v) \<and>
     (ky_riskScore v = 0 \<and> ky_riskLevel v = RISK_LOW \<or> ky_riskScore v = 100 \<and> ky_riskLevel v = RISK_CRITICAL)"

definition kyc_ok :: "compliance_db \<Rightarrow> bool" where
  "kyc_ok db \<longleftrightarrow> keys_distinct ky_id (cd_kyc db) \<and> distinct (map ky_userId (cd_kyc db)) \<and> (\<forall>v \<in> set (cd_kyc db). kyc_row_ok v)"

definition documents_ok :: "compliance_db \<Rightarrow> bool" where
  "documents_ok db \<longleftrightarrow> keys_distinct kd_id (cd_documents db) \<and>
     (\<forall>d \<in> set (cd_documents db). (kd_status d = DOC_PENDING \<longleftrightarrow> kd_reviewedBy d = None) \<and>
        (kd_kycVerificationId d, kd_userId d) \<in> (\<lambda>v. (ky_id v, ky_userId v)) ` set (cd_kyc db))"

definition flag_row_ok :: "aml_flag \<Rightarrow> bool" where
  "flag_row_ok f \<longleftrightarrow> 0 \<le> fg_riskScore f \<and> fg_riskScore f \<le> 100 \<and> fg_riskLevel f = scoreToRiskLevel (fg_riskScore f) \<and>
     (fg_status f \<noteq> FLAG_PENDING \<longrightarrow> fg_reviewedBy f \<noteq> None \<and> fg_resolutionNotes f \<noteq> None)"

definition flags_ok :: "compliance_db \<Rightarrow> bool" where
  "flags_ok db \<longleftrightarrow> keys_distinct fg_id (cd_flags db) \<and> (\<forall>f \<in> set (cd_flags db). flag_row_ok f)"

definition configs_ok :: "compliance_db \<Rightarrow> bool" where
  "configs_ok db \<longleftrightarrow> keys_distinct cc_id (cd_configs db) \<and> distinct (map cc_region (cd_configs db))"

definition compliance_ok :: "compliance_db \<Rightarrow> bool" where
  "compliance_ok db \<longleftrightarrow> kyc_ok db \<and> documents_ok db \<and> flags_ok db \<and> configs_ok db"

lemma ok_cong:
  "cd_kyc db' = cd_kyc db \<Longrightarrow> kyc_ok db' = kyc_ok db"
  "cd_kyc db' = cd_kyc db \<Longrightarrow> cd_documents db' = cd_documents db \<Longrightarrow> documents_ok db' = documents_ok db"
  "cd_flags db' = cd_flags db \<Longrightarrow> flags_ok db' = flags_ok db"
  "cd_configs db' = cd_configs db \<Longrightarrow> configs_ok db' = configs_ok db"
  by (simp_all add: kyc_ok_def documents_ok_def flags_ok_def configs_ok_def)

lemma ok_tables:
  "compliance_ok db \<Longrightarrow> cd_kyc db' = cd_kyc db \<Longrightarrow> cd_documents db' = cd_documents db \<Longrightarrow> cd_flags db' = cd_flags db \<Longrightarrow>
   cd_configs db' = cd_configs db \<Longrightarrow> compliance_ok db'"
  using ok_cong by (metis compliance_ok_def)

text \<open>Changing a row of a user and adding a row for a new user.\<close>

lemma kyc_row_by: "kyc_ok db \<Longrightarrow> v \<in> set (cd_kyc db) \<Longrightarrow> row_by ky_id (ky_id v) (cd_kyc db) = Some v"
  by (simp add: kyc_ok_def row_by_distinct)

lemma ok_change_kyc:
  assumes "compliance_ok db" and "old \<in> set (cd_kyc db)" and "ky_id v = ky_id old" and "ky_userId v = ky_userId old" and "kyc_row_ok v"
  shows "compliance_ok (db\<lparr>cd_kyc := save_row ky_id v (cd_kyc db)\<rparr>)"
proof -
  have r: "row_by ky_id (ky_id v) (cd_kyc db) = Some old" using assms kyc_row_by by (simp add: compliance_ok_def)
  let ?db = "db\<lparr>cd_kyc := save_row ky_id v (cd_kyc db)\<rparr>"
  have "kyc_ok ?db"
    using assms set_save_row_subset [of ky_id v "cd_kyc db"] keys_distinct_save_row [of ky_id "cd_kyc db" v]
    by (auto simp: compliance_ok_def kyc_ok_def map_save_row_same [OF r])
  moreover have "(\<lambda>v. (ky_id v, ky_userId v)) ` set (cd_kyc ?db) = (\<lambda>v. (ky_id v, ky_userId v)) ` set (cd_kyc db)"
    using arg_cong [OF map_save_row_same [OF r, of "\<lambda>v. (ky_id v, ky_userId v)"], of set] assms by simp
  then have "documents_ok ?db" using assms(1) by (simp add: compliance_ok_def documents_ok_def)
  ultimately show ?thesis using assms(1) by (simp add: compliance_ok_def flags_ok_def configs_ok_def)
qed

lemma ok_new_kyc:
  assumes "compliance_ok db" and "ky_id v \<notin> ky_id ` set (cd_kyc db)" and "ky_userId v \<notin> ky_userId ` set (cd_kyc db)" and "kyc_row_ok v"
  shows "compliance_ok (db\<lparr>cd_kyc := save_row ky_id v (cd_kyc db)\<rparr>)"
  using assms by (auto simp: compliance_ok_def kyc_ok_def documents_ok_def flags_ok_def configs_ok_def save_row_fresh keys_distinct_def)

lemma save_flag_InrD: "save_flag e f db = Inr db' \<Longrightarrow> \<exists>a. db' = db\<lparr>cd_flags := save_row fg_id (f\<lparr>fg_transactionAmount := a\<rparr>) (cd_flags db)\<rparr>"
proof (cases "fg_transactionAmount f")
  case None
  assume "save_flag e f db = Inr db'"
  then have "db' = db\<lparr>cd_flags := save_row fg_id f (cd_flags db)\<rparr>" using None by (simp add: save_flag_def split: if_splits)
  moreover have "f = f\<lparr>fg_transactionAmount := None\<rparr>" using None by simp
  ultimately show ?thesis by metis
next
  case (Some a)
  assume "save_flag e f db = Inr db'"
  then show ?thesis using Some by (auto simp: save_flag_def split: option.splits if_splits)
qed

lemma flag_row_ok_amount [simp]: "flag_row_ok (f\<lparr>fg_transactionAmount := a\<rparr>) = flag_row_ok f"
  by (simp add: flag_row_ok_def)

lemma ok_save_flag:
  assumes "compliance_ok db" and "save_flag e f db = Inr db'" and "flag_row_ok f"
  shows "compliance_ok db'"
proof -
  obtain f' where f': "db' = db\<lparr>cd_flags := save_row fg_id f' (cd_flags db)\<rparr>" "flag_row_ok f'"
    using save_flag_InrD [OF assms(2)] assms(3) flag_row_ok_amount by blast
  then have "flags_ok db'"
    using assms(1) set_save_row_subset [of fg_id f' "cd_flags db"] keys_distinct_save_row [of fg_id "cd_flags db" f']
    by (auto simp: compliance_ok_def flags_ok_def)
  then show ?thesis using assms(1) f' by (simp add: compliance_ok_def kyc_ok_def documents_ok_def configs_ok_def)
qed

lemma ok_save_document:
  assumes "compliance_ok db" and "save_document d db = Inr db'" and "kd_status d = DOC_PENDING \<longleftrightarrow> kd_reviewedBy d = None"
    and "(kd_kycVerificationId d, kd_userId d) \<in> (\<lambda>v. (ky_id v, ky_userId v)) ` set (cd_kyc db)"
  shows "compliance_ok db'"
proof -
  have d: "db' = db\<lparr>cd_documents := save_row kd_id d (cd_documents db)\<rparr>" using assms(2) by (simp add: save_document_def split: if_splits)
  then have "documents_ok db'"
    using assms(1,3,4) set_save_row_subset [of kd_id d "cd_documents db"] keys_distinct_save_row [of kd_id "cd_documents db" d]
    unfolding compliance_ok_def documents_ok_def by fastforce
  then show ?thesis using assms(1) d by (simp add: compliance_ok_def kyc_ok_def flags_ok_def configs_ok_def)
qed

lemma ok_save_config:
  assumes "compliance_ok db" and "save_config e c db = Inr db'"
    and "row_by cc_id (cc_id c) (cd_configs db) = Some old \<and> cc_region c = cc_region old \<or>
      cc_id c \<notin> cc_id ` set (cd_configs db) \<and> cc_region c \<notin> cc_region ` set (cd_configs db)"
  shows "compliance_ok db'"
proof -
  obtain c' where c: "db' = db\<lparr>cd_configs := save_row cc_id c' (cd_configs db)\<rparr>" "cc_id c' = cc_id c" "cc_region c' = cc_region c"
    using assms(2) by (auto simp: save_config_def split: option.splits if_splits)
  have "distinct (map cc_region (save_row cc_id c' (cd_configs db)))"
    using assms(1,3) c by (auto simp: compliance_ok_def configs_ok_def map_save_row_same save_row_fresh)
  then have "configs_ok db'" using assms(1) c by (simp add: compliance_ok_def configs_ok_def keys_distinct_save_row)
  then show ?thesis using assms(1) c by (simp add: compliance_ok_def kyc_ok_def documents_ok_def flags_ok_def)
qed

lemma fresh_idsD: "fresh_ids e db \<Longrightarrow> uuid e k \<notin> ky_id ` set (cd_kyc db) \<and> uuid e k \<notin> kd_id ` set (cd_documents db) \<and>
   uuid e k \<notin> fg_id ` set (cd_flags db) \<and> uuid e k \<notin> cc_id ` set (cd_configs db)"
  unfolding fresh_ids_def used_ids_def by (meson UNIV_I UnCI disjoint_iff image_eqI)

lemma ok_audit_then [intro]: "compliance_ok db \<Longrightarrow> compliance_ok (snd (audit_then e k r evs x db))"
  by (erule ok_tables) simp_all

lemma save_kyc_InrD: "save_kyc v db = Inr db' \<Longrightarrow> db' = db\<lparr>cd_kyc := save_row ky_id v (cd_kyc db)\<rparr> \<and> opt_fits 2 (ky_region v)"
  by (simp add: save_kyc_def split: if_splits)

lemma ok_kyc_row: "compliance_ok db \<Longrightarrow> find_kyc u db = Some v \<Longrightarrow> kyc_row_ok v"
  using find_kyc_SomeD by (fastforce simp: compliance_ok_def kyc_ok_def)

lemma ok_save_kyc_old:
  assumes "compliance_ok db" and "find_kyc u db = Some old" and "save_kyc v db = Inr db'" and "ky_id v = ky_id old" and "ky_userId v = ky_userId old"
    and "ky_riskScore v = 0 \<and> ky_riskLevel v = RISK_LOW \<or> ky_riskScore v = 100 \<and> ky_riskLevel v = RISK_CRITICAL"
  shows "compliance_ok db'"
  using ok_change_kyc [of db old v] save_kyc_InrD [OF assms(3)] find_kyc_SomeD [OF assms(2)] assms by (simp add: kyc_row_ok_def)

lemma ok_initiate: "compliance_ok db \<Longrightarrow> fresh_ids e db \<Longrightarrow> compliance_ok (snd (initiateVerification e u dto p r db))"
proof (cases "find_kyc u db")
  case None
  assume a: "compliance_ok db" "fresh_ids e db"
  have "compliance_ok db'" if "save_kyc (new_kyc e u (Some (ik_region dto))) db = Inr db'" for db'
    using ok_new_kyc [of db "new_kyc e u (Some (ik_region dto))"] save_kyc_InrD [OF that] a fresh_idsD [OF a(2), of 0] find_kyc_NoneD [OF None]
    by (simp add: new_kyc_def kyc_row_ok_def)
  then show ?thesis using a None by (auto simp: initiateVerification_def Let_def split: sum.splits)
next
  case (Some v)
  assume a: "compliance_ok db" "fresh_ids e db"
  have "compliance_ok db'" if "save_kyc (v\<lparr>ky_region := Some (ik_region dto)\<rparr>) db = Inr db'" for db'
    using ok_save_kyc_old [OF a(1) Some that] ok_kyc_row [OF a(1) Some] by (simp add: kyc_row_ok_def)
  then show ?thesis using a Some by (auto simp: initiateVerification_def Let_def split: sum.splits)
qed

lemma ok_level: "compliance_ok db \<Longrightarrow> compliance_ok (snd (updateKycLevel e u l dto p r db))"
proof (cases "find_kyc u db")
  case None
  assume "compliance_ok db"
  then show ?thesis using None by (simp add: updateKycLevel_def)
next
  case (Some v)
  assume a: "compliance_ok db"
  have "compliance_ok db'" if "save_kyc (level_change l dto v) db = Inr db'" for db'
    using ok_save_kyc_old [OF a Some that] ok_kyc_row [OF a Some] by (simp add: kyc_row_ok_def level_change_def)
  then show ?thesis using a Some by (auto simp: updateKycLevel_def Let_def split: sum.splits)
qed

lemma ok_refresh: "compliance_ok db \<Longrightarrow> compliance_ok (snd (updateRiskAssessment e u db))"
proof (cases "find_kyc u db")
  case None
  assume "compliance_ok db"
  then show ?thesis using None by (simp add: updateRiskAssessment_def)
next
  case (Some v)
  assume a: "compliance_ok db"
  have "compliance_ok db'" if "save_kyc (v\<lparr>ky_riskScore := 100, ky_riskLevel := RISK_CRITICAL\<rparr>) db = Inr db'" for db'
    using ok_save_kyc_old [OF a Some that] by simp
  then show ?thesis using a Some by (auto simp: updateRiskAssessment_def calculateRiskScore_100 Let_def split: sum.splits)
qed

lemma ok_getOrCreate:
  assumes "compliance_ok db" and "fresh_ids e db" and "getOrCreateKyc e u db = (v, db1)"
  shows "compliance_ok db1 \<and> v \<in> set (cd_kyc db1) \<and> ky_userId v = u"
proof (cases "find_kyc u db")
  case None
  then show ?thesis
    using assms ok_new_kyc [of db "new_kyc e u None"] fresh_idsD [OF assms(2), of 0] find_kyc_NoneD [OF None]
    by (auto simp: getOrCreateKyc_def new_kyc_def kyc_row_ok_def opt_fits_def Let_def save_row_fresh)
next
  case (Some w)
  then show ?thesis using assms find_kyc_SomeD [OF Some] by (auto simp: getOrCreateKyc_def)
qed

lemma ok_upload: "compliance_ok db \<Longrightarrow> fresh_ids e db \<Longrightarrow> compliance_ok (snd (uploadDocument e u file ty notes p r db))"
proof -
  assume a: "compliance_ok db" "fresh_ids e db"
  obtain v db1 where g: "getOrCreateKyc e u db = (v, db1)" by fastforce
  note ok1 = ok_getOrCreate [OF a g]
  have "compliance_ok db2" if "save_document (new_document e u v file ty notes) db1 = Inr db2" for db2
    using ok_save_document [OF _ that] ok1 by (auto simp: new_document_def)
  then show ?thesis using a ok1 g by (auto simp: uploadDocument_def Let_def split: sum.splits)
qed

lemma ok_completion: "compliance_ok db \<Longrightarrow> compliance_ok (checkDocumentCompletion u db)"
proof (cases "find_kyc u db")
  case None
  assume "compliance_ok db"
  then show ?thesis using None by (simp add: checkDocumentCompletion_def)
next
  case (Some v)
  assume a: "compliance_ok db"
  have "compliance_ok (db\<lparr>cd_kyc := save_row ky_id (v\<lparr>ky_level := l\<rparr>) (cd_kyc db)\<rparr>)" for l
    using ok_change_kyc [OF a, of v "v\<lparr>ky_level := l\<rparr>"] find_kyc_SomeD [OF Some] ok_kyc_row [OF a Some] by (simp add: kyc_row_ok_def)
  then have "compliance_ok (emit_event ev (db\<lparr>cd_kyc := save_row ky_id (v\<lparr>ky_level := l\<rparr>) (cd_kyc db)\<rparr>))" for l ev
    by (rule ok_tables) simp_all
  then show ?thesis using a Some by (simp add: checkDocumentCompletion_def Let_def)
qed

lemma getDocument_InrD: "getDocument i u priv db = Inr d \<Longrightarrow> d \<in> set (cd_documents db) \<and> kd_id d = i \<and> (priv \<or> kd_userId d = u)"
  by (auto simp: getDocument_def dest: row_by_SomeD split: option.splits if_splits)

lemma ok_review:
  assumes a: "compliance_ok db" and "st = DOC_VERIFIED \<or> st = DOC_REJECTED"
  shows "compliance_ok (snd (reviewDocument e i st p r reason db))"
proof (cases "getDocument i p (isPrivilegedRole r) db")
  case (Inl err)
  then show ?thesis using a by (simp add: reviewDocument_def)
next
  case (Inr d)
  then have d: "d \<in> set (cd_documents db)" by (simp add: getDocument_InrD)
  have "compliance_ok db1" if "save_document (reviewed_document e st p reason d) db = Inr db1" for db1
    using ok_save_document [OF a that] d a assms(2) by (auto simp: reviewed_document_def compliance_ok_def documents_ok_def)
  then show ?thesis using a Inr by (auto simp: reviewDocument_def Let_def intro: ok_completion split: sum.splits)
qed

lemma region_row_new:
  "find_config r db = None \<Longrightarrow> r \<notin> cc_region ` set (cd_configs db)"
  by (simp add: find_config_def row_by_None_iff)

lemma find_config_SomeD: "find_config r db = Some c \<Longrightarrow> c \<in> set (cd_configs db) \<and> cc_region c = r"
  unfolding find_config_def by (rule row_by_SomeD)

lemma ok_getConfig:
  assumes a: "compliance_ok db" and "fresh_ids e db" and "getConfigForRegion e k reg db = Inr (c, db')"
  shows "compliance_ok db'"
proof -
  have "compliance_ok d" if "save_config e (default_config e k) db = Inr d" "find_config REGION_GLOBAL db = None" for d
    using ok_save_config [OF a that(1)] fresh_idsD [OF assms(2), of k] region_row_new [OF that(2)] by (simp add: default_config_def)
  then show ?thesis using assms by (auto simp: getConfigForRegion_def Let_def rbind_Inr_iff split: option.splits if_splits)
qed

lemma ok_upsert: "compliance_ok db \<Longrightarrow> fresh_ids e db \<Longrightarrow> compliance_ok (snd (upsertConfig e dto p r db))"
proof -
  assume a: "compliance_ok db" "fresh_ids e db"
  let ?c = "assign_config dto (case find_config (uc_region dto) db of Some x \<Rightarrow> x | None \<Rightarrow> (default_config e 0)\<lparr>cc_region := uc_region dto\<rparr>)"
  have "compliance_ok db1" if s: "save_config e ?c db = Inr db1" for db1
  proof (cases "find_config (uc_region dto) db")
    case None
    then show ?thesis
      using ok_save_config [OF a(1) s] fresh_idsD [OF a(2), of 0] region_row_new [OF None] by (simp add: assign_config_def default_config_def)
  next
    case (Some c)
    then show ?thesis
      using ok_save_config [OF a(1) s] Some find_config_SomeD [OF Some] a(1) by (auto simp: assign_config_def compliance_ok_def configs_ok_def row_by_distinct)
  qed
  then show ?thesis using a by (auto simp: upsertConfig_def Let_def split: sum.splits)
qed

lemma ok_block: "compliance_ok db \<Longrightarrow> fresh_ids e db \<Longrightarrow> compliance_ok (snd (shouldBlockTransactions e u db))"
  using ok_getConfig by (auto simp: shouldBlockTransactions_def split: option.splits sum.splits)

lemma transaction_score_bounds:
  assumes "\<And>k x. (k, x) \<in> set rules \<Longrightarrow> 0 \<le> x" and "\<And>w. v = Some w \<Longrightarrow> 0 \<le> ky_riskScore w"
  shows "0 \<le> transaction_score rules v \<and> transaction_score rules v \<le> 100"
proof -
  have "0 \<le> s \<Longrightarrow> 0 \<le> foldl num_add s (map snd rs)" if "\<forall>x \<in> set rs. 0 \<le> snd x" for s and rs :: "(string \<times> number) list"
    using that by (induction rs arbitrary: s) (auto simp: num_add_def fl_nonneg)
  then have "0 \<le> foldl num_add 0 (map snd rules)" using assms(1) by fastforce
  moreover have "0 \<le> num_mul (of_int (case v of None \<Rightarrow> 0 | Some w \<Rightarrow> ky_riskScore w)) (fl (3 / 10))"
    using assms(2) by (auto simp: num_mul_def intro!: fl_nonneg mult_nonneg_nonneg split: option.splits)
  ultimately have "0 \<le> math_round (num_add (foldl num_add 0 (map snd rules)) (num_mul (of_int (case v of None \<Rightarrow> 0 | Some w \<Rightarrow> ky_riskScore w)) (fl (3 / 10))))"
    by (simp add: math_round_def num_add_def fl_nonneg add_nonneg_nonneg le_floor_iff)
  then show ?thesis by (simp add: transaction_score_def Let_def)
qed

lemma triggered_nonneg: "(k, x) \<in> set (triggered e c v dto) \<Longrightarrow> 0 \<le> x"
  by (auto simp: triggered_def history_rules_def split: if_splits)

lemma ok_assess: "compliance_ok db \<Longrightarrow> fresh_ids e db \<Longrightarrow> compliance_ok (snd (assessTransactionRisk e u dto p r db))"
proof -
  assume a: "compliance_ok db" "fresh_ids e db"
  have "flag_row_ok (new_flag e u dto (transaction_score (triggered e c (find_kyc u db) dto) (find_kyc u db)) rs)" for c rs
    using transaction_score_bounds [where rules = "triggered e c (find_kyc u db) dto" and v = "find_kyc u db", OF triggered_nonneg] ok_kyc_row [OF a(1), of u]
    by (force simp: new_flag_def flag_row_ok_def kyc_row_ok_def)
  with a show ?thesis
    using ok_getConfig [OF a] ok_save_flag
    by (fastforce simp: assessTransactionRisk_def Let_def split: sum.splits prod.splits)
qed

lemma getFlag_InrD: "getFlag i u priv db = Inr f \<Longrightarrow> f \<in> set (cd_flags db) \<and> fg_id f = i \<and> (priv \<or> fg_userId f = u)"
  by (auto simp: getFlag_def dest: row_by_SomeD split: option.splits if_splits)

lemma ok_flag_rest:
  assumes "compliance_ok db" and "flag_row_ok f"
  shows "compliance_ok (snd (reviewFlag_rest e i p r dto ip f db))"
proof -
  have "flag_row_ok (reviewed_flag e p dto f)" using assms(2) by (simp add: flag_row_ok_def reviewed_flag_def)
  then show ?thesis using assms(1) ok_save_flag [OF assms(1)] by (auto simp: reviewFlag_rest_def Let_def split: sum.splits)
qed

lemma ok_flag: "compliance_ok db \<Longrightarrow> compliance_ok (snd (reviewFlag e i p r dto ip db))"
proof (cases "getFlag i p (isPrivilegedRole r) db")
  case (Inl err)
  assume "compliance_ok db"
  then show ?thesis using Inl by (simp add: reviewFlag_def)
next
  case (Inr f)
  assume a: "compliance_ok db"
  then have "flag_row_ok f" using getFlag_InrD [OF Inr] by (simp add: compliance_ok_def flags_ok_def)
  then show ?thesis using a Inr ok_flag_rest by (simp add: reviewFlag_def)
qed

lemma ok_step: "compliance_step db db' \<Longrightarrow> compliance_ok db \<Longrightarrow> compliance_ok db'"
proof (induction rule: compliance_step.induct)
  case config
  then show ?case using ok_getConfig by blast
qed (simp_all add: ok_initiate ok_level ok_upload ok_review ok_refresh ok_assess ok_block ok_flag ok_upsert)

lemma ok_reachable: "compliance_reachable db \<Longrightarrow> compliance_ok db"
proof -
  have "compliance_step\<^sup>*\<^sup>* a b \<Longrightarrow> compliance_ok a \<Longrightarrow> compliance_ok b" for a b by (induction rule: rtranclp_induct) (auto intro: ok_step)
  moreover have "compliance_ok empty_db"
    by (simp add: compliance_ok_def kyc_ok_def documents_ok_def flags_ok_def configs_ok_def empty_db_def keys_distinct_def)
  ultimately show "compliance_reachable db \<Longrightarrow> compliance_ok db" by (auto simp: compliance_reachable_def)
qed

end
