(* ===== verification/Compliance_Props.thy ===== *)
theory Compliance_Props
  imports Compliance_Inv
begin

text \<open>
  What the compliance service keeps and what it does not: the history of audit entries and closed flags,
  the locale \<open>owned_records\<close> of records that only their owner may see, interpreted on documents and flags,
  and the properties, with their witnesses.
\<close>

section \<open>History\<close>

definition closed_flag :: "aml_flag \<Rightarrow> bool" where
  "closed_flag f \<longleftrightarrow> fg_status f = FLAG_CLEARED \<or> fg_status f = FLAG_CONFIRMED"

definition extends :: "compliance_db \<Rightarrow> compliance_db \<Rightarrow> bool" where
  "extends db db' \<longleftrightarrow> (\<exists>new. cd_audit db' = cd_audit db @ new) \<and>
     {f \<in> set (cd_flags db). closed_flag f} \<subseteq> set (cd_flags db')"

lemma extends_refl [simp]: "extends db db"
  by (auto simp: extends_def)

lemma extends_trans: "extends a b \<Longrightarrow> extends b c \<Longrightarrow> extends a c"
  unfolding extends_def by fastforce

lemma extends_frame: "cd_audit db' = cd_audit db \<Longrightarrow> cd_flags db' = cd_flags db \<Longrightarrow> extends db db'"
  by (auto simp: extends_def)

lemma extends_audit_then: "extends db db1 \<Longrightarrow> extends db (snd (audit_then e k r evs x db1))"
  using audit_then_prefix [of e k r evs x db1] by (auto simp: extends_def)

lemma extends_saves:
  "save_kyc v db = Inr db' \<Longrightarrow> extends db db'" "save_document d db = Inr db' \<Longrightarrow> extends db db'" "save_config e c db = Inr db' \<Longrightarrow> extends db db'"
  by (rule extends_frame; auto simp: save_kyc_def save_document_def save_config_def split: if_splits option.splits)+

lemma extends_save_flag:
  assumes "flags_ok db" and "save_flag e f db = Inr db'" and "\<And>g. g \<in> set (cd_flags db) \<Longrightarrow> fg_id g = fg_id f \<Longrightarrow> \<not> closed_flag g"
  shows "extends db db'"
proof -
  obtain a where "db' = db\<lparr>cd_flags := save_row fg_id (f\<lparr>fg_transactionAmount := a\<rparr>) (cd_flags db)\<rparr>" using save_flag_InrD [OF assms(2)] by blast
  then show ?thesis using assms(1,3) by (auto simp: extends_def flags_ok_def set_save_row)
qed

lemma extends_completion: "extends db (checkDocumentCompletion u db)"
  by (rule extends_frame) (simp_all add: checkDocumentCompletion_def Let_def split: option.splits)

lemma extends_getConfig: "getConfigForRegion e k reg db = Inr (c, db') \<Longrightarrow> extends db db'"
  using extends_saves(3) by (fastforce simp: getConfigForRegion_def Let_def rbind_Inr_iff split: option.splits if_splits)

lemma extends_upload: "extends db (snd (uploadDocument e u file ty notes p r db))"
proof -
  obtain v db1 where g: "getOrCreateKyc e u db = (v, db1)" by fastforce
  then have "extends db db1" by (intro extends_frame) (auto simp: getOrCreateKyc_def Let_def split: option.splits)
  then show ?thesis
    using g extends_saves(2) [THEN extends_trans [of db db1, rotated]]
    by (auto simp: uploadDocument_def Let_def intro!: extends_audit_then split: sum.splits)
qed

lemma extends_assess:
  assumes "compliance_ok db" and "fresh_ids e db"
  shows "extends db (snd (assessTransactionRisk e u dto p r db))"
proof (cases "getConfigForRegion e 0 (case_option ''global'' id (Option.bind (find_kyc u db) ky_region)) db")
  case (Inl err)
  then show ?thesis by (simp add: assessTransactionRisk_def Let_def)
next
  case (Inr cd)
  obtain c db1 where g: "cd = (c, db1)" by fastforce
  note ex = extends_getConfig [OF Inr [unfolded g]]
  have ok: "compliance_ok db1" using ok_getConfig [OF assms] Inr g by blast
  have fl: "cd_flags db1 = cd_flags db" using Inr g
    by (auto simp: getConfigForRegion_def save_config_def Let_def rbind_Inr_iff split: option.splits if_splits)
  have "extends db db2" if "save_flag e (new_flag e u dto s rs) db1 = Inr db2" for db2 s rs
  proof (rule extends_trans [OF ex extends_save_flag [OF _ that]])
    show "flags_ok db1" using ok by (simp add: compliance_ok_def)
    show "\<not> closed_flag f" if f: "f \<in> set (cd_flags db1)" "fg_id f = fg_id (new_flag e u dto s rs)" for f
    proof -
      have "uuid e 1 \<in> fg_id ` set (cd_flags db)" using f fl by (auto simp: new_flag_def intro: rev_image_eqI)
      then show ?thesis using fresh_idsD [OF assms(2), of 1] by simp
    qed
  qed
  then show ?thesis using Inr g ex by (auto simp: assessTransactionRisk_def Let_def intro!: extends_audit_then split: sum.splits)
qed

lemma extends_flag_rest:
  assumes "flags_ok db" and "\<And>g. g \<in> set (cd_flags db) \<Longrightarrow> fg_id g = fg_id f \<Longrightarrow> closed_flag g \<Longrightarrow> closed_flag f"
    and "fg_status f \<in> {FLAG_PENDING, FLAG_REVIEWING} \<longrightarrow> \<not> closed_flag f"
  shows "extends db (snd (reviewFlag_rest e i p r dto ip f db))"
proof -
  have "extends db db1" if open_f: "\<not> closed_flag f" and s: "save_flag e (reviewed_flag e p dto f) db = Inr db1" for db1
    using assms(2) open_f by (intro extends_save_flag [OF assms(1) s]) (auto simp: reviewed_flag_def)
  then show ?thesis using assms(3) by (auto simp: reviewFlag_rest_def Let_def intro!: extends_audit_then split: sum.splits)
qed

lemma open_flag: "fg_status f \<in> {FLAG_PENDING, FLAG_REVIEWING} \<longrightarrow> \<not> closed_flag f"
  by (auto simp: closed_flag_def)

lemma extends_flag:
  assumes "compliance_ok db"
  shows "extends db (snd (reviewFlag e i p r dto ip db))"
proof (cases "getFlag i p (isPrivilegedRole r) db")
  case (Inl err)
  then show ?thesis by (simp add: reviewFlag_def)
next
  case (Inr f)
  have "g = f" if "g \<in> set (cd_flags db)" "fg_id g = fg_id f" for g
    using that getFlag_InrD [OF Inr] assms inj_onD [of fg_id "set (cd_flags db)" g f]
    by (auto simp: compliance_ok_def flags_ok_def keys_distinct_def distinct_map)
  then have "extends db (snd (reviewFlag_rest e i p r dto ip f db))"
    using assms by (intro extends_flag_rest [OF _ _ open_flag]) (auto simp: compliance_ok_def)
  then show ?thesis using Inr by (simp add: reviewFlag_def)
qed

lemma extends_step: "compliance_step db db' \<Longrightarrow> compliance_ok db \<Longrightarrow> extends db db'"
proof (induction rule: compliance_step.induct)
  case (initiate e db u dto p r)
  show ?case using extends_saves(1) by (auto simp: initiateVerification_def Let_def intro!: extends_audit_then split: sum.splits option.splits)
next
  case (level db e u l dto' p' r')
  show ?case using extends_saves(1) by (auto simp: updateKycLevel_def Let_def intro!: extends_audit_then split: sum.splits option.splits)
next
  case (review st db e i p' r' reason)
  have "extends db (checkDocumentCompletion u db1)" if "save_document d db = Inr db1" for d db1 u
    using extends_saves(2) [OF that] extends_completion by (rule extends_trans)
  then show ?case by (auto simp: reviewDocument_def Let_def intro!: extends_audit_then split: sum.splits)
next
  case (refresh db e u)
  show ?case using extends_saves(1) by (auto simp: updateRiskAssessment_def calculateRiskScore_100 Let_def intro!: extends_audit_then split: sum.splits option.splits)
next
  case (block e db u)
  show ?case using extends_getConfig by (auto simp: shouldBlockTransactions_def split: sum.splits option.splits)
next
  case (upsert e db cdto p' r')
  show ?case using extends_saves(3) by (auto simp: upsertConfig_def Let_def intro!: extends_audit_then split: sum.splits)
qed (simp_all add: extends_upload extends_assess extends_flag extends_getConfig)

lemma extends_steps: "compliance_step\<^sup>*\<^sup>* db db' \<Longrightarrow> compliance_ok db \<Longrightarrow> extends db db' \<and> compliance_ok db'"
  by (induction rule: rtranclp_induct) (auto intro: extends_step extends_trans ok_step)

section \<open>Records of other users\<close>

text \<open>
  What \<^verbatim>\<open>getDocument\<close> and \<^verbatim>\<open>getFlag\<close> share: a record is returned to its owner and to privileged roles, and
  everybody else gets the answer for a record that does not exist.
\<close>

locale owned_records =
  fixes rows :: "'db \<Rightarrow> 'r list"
    and rid :: "'r \<Rightarrow> string"
    and owner :: "'r \<Rightarrow> string"
    and lookup :: "string \<Rightarrow> string \<Rightarrow> bool \<Rightarrow> 'db \<Rightarrow> 'r result"
    and missing :: "string \<Rightarrow> http_error"
  assumes lookup_spec: "lookup i u priv db = (case row_by rid i (rows db) of None \<Rightarrow> Inl (missing i)
    | Some r \<Rightarrow> if priv \<or> owner r = u then Inr r else Inl (missing i))"
begin

lemma lookup_own:
  assumes "keys_distinct rid (rows db)"
  shows "lookup i u False db = Inr r \<longleftrightarrow> r \<in> set (rows db) \<and> rid r = i \<and> owner r = u"
  using row_by_distinct [OF assms] by (auto simp: lookup_spec dest: row_by_SomeD split: option.splits)

lemma lookup_cases: "lookup i u priv db = Inl (missing i) \<or> (\<exists>r. lookup i u priv db = Inr r)"
  by (auto simp: lookup_spec split: option.splits)

text \<open>The answer to a user depends on the user's own records only.\<close>

lemma lookup_noninterference:
  assumes "keys_distinct rid (rows db)" and "keys_distinct rid (rows db')"
    and "{r \<in> set (rows db). owner r = u} = {r \<in> set (rows db'). owner r = u}"
  shows "lookup i u False db = lookup i u False db'"
proof -
  have "lookup i u False db = Inr r \<longleftrightarrow> lookup i u False db' = Inr r" for r
    using assms(3) unfolding lookup_own [OF assms(1)] lookup_own [OF assms(2)] by blast
  then show ?thesis using lookup_cases [of i u False db] lookup_cases [of i u False db'] by (metis (full_types))
qed

end

interpretation documents: owned_records cd_documents kd_id kd_userId getDocument "\<lambda>i. NotFound (''Document '' @ i @ '' not found'')"
  by unfold_locales (simp add: getDocument_def split: option.splits)

interpretation flags: owned_records cd_flags fg_id fg_userId getFlag "\<lambda>i. NotFound (''AML flag '' @ i @ '' not found'')"
  by unfold_locales (simp add: getFlag_def split: option.splits)

section \<open>Properties\<close>

lemma find_kyc_changed:
  assumes "compliance_ok (db\<lparr>cd_kyc := save_row ky_id v (cd_kyc db)\<rparr>)"
  shows "find_kyc (ky_userId v) (db\<lparr>cd_kyc := save_row ky_id v (cd_kyc db)\<rparr>) = Some v"
proof -
  have "keys_distinct ky_userId (save_row ky_id v (cd_kyc db))"
    using assms by (simp add: compliance_ok_def kyc_ok_def keys_distinct_def)
  moreover have "v \<in> set (save_row ky_id v (cd_kyc db))" by (rule conjunct1 [OF row_by_SomeD [of ky_id "ky_id v"]]) (simp add: row_by_save_row)
  ultimately show ?thesis using row_by_distinct [of ky_userId _ v] by (simp add: find_kyc_def)
qed

lemma find_kyc_cong: "cd_kyc db' = cd_kyc db \<Longrightarrow> find_kyc u db' = find_kyc u db"
  by (simp add: find_kyc_def)

lemma save_kyc_row: "kyc_row_ok v \<Longrightarrow> save_kyc v db = Inr (db\<lparr>cd_kyc := save_row ky_id v (cd_kyc db)\<rparr>)"
  by (simp add: save_kyc_def kyc_row_ok_def)

text \<open>A refresh of a user who has a row stores the score 100.\<close>

lemma refresh_stores:
  assumes "compliance_ok db" and "find_kyc u db = Some v"
  shows "find_kyc u (snd (updateRiskAssessment e u db)) = Some (v\<lparr>ky_riskScore := 100, ky_riskLevel := RISK_CRITICAL\<rparr>)"
proof -
  let ?v = "v\<lparr>ky_riskScore := 100, ky_riskLevel := RISK_CRITICAL\<rparr>"
  have row: "kyc_row_ok ?v" using ok_kyc_row [OF assms] by (simp add: kyc_row_ok_def)
  note v = find_kyc_SomeD [OF assms(2)]
  have ok: "compliance_ok (db\<lparr>cd_kyc := save_row ky_id ?v (cd_kyc db)\<rparr>)" using ok_change_kyc [of db v ?v] assms(1) v row by simp
  have "find_kyc u (snd (updateRiskAssessment e u db)) = find_kyc u (db\<lparr>cd_kyc := save_row ky_id ?v (cd_kyc db)\<rparr>)"
    using assms(2) by (intro find_kyc_cong) (simp add: updateRiskAssessment_def calculateRiskScore_100 save_kyc_row [OF row] Let_def)
  then show ?thesis using find_kyc_changed [OF ok] v by simp
qed

text \<open>
  The weighted total of the risk factors is scaled so that it always exceeds 100: the risk score of every
  user is 100 and critical, whatever the verification, the documents and the flags. After a refresh of
  the assessment the transactions of the user are blocked.
\<close>

theorem assessed_users_blocked:
  assumes "compliance_reachable db"
  shows "fst (calculateRiskScore e u db) = 100 \<and> fst (snd (calculateRiskScore e u db)) = RISK_CRITICAL \<and>
    fst (shouldBlockTransactions e' u (snd (updateRiskAssessment e u db))) = Inr True"
proof (cases "find_kyc u db")
  case None
  then show ?thesis by (simp add: calculateRiskScore_100 shouldBlockTransactions_def updateRiskAssessment_def)
next
  case (Some v)
  show ?thesis using refresh_stores [OF ok_reachable [OF assms] Some, of e] by (simp add: calculateRiskScore_100 shouldBlockTransactions_def)
qed

text \<open>
  C12. In every reachable state of the compliance service a user has at most one verification and a region at
  most one configuration; a stored score is 0 (low) or 100 (critical); a document belongs to the verification of
  its user and is pending exactly until a reviewer is recorded; and the score of a flag lies between 0 and 100,
  agrees with its level, and a flag that is no longer pending names its reviewer and has notes.
\<close>

theorem compliance_invariant:
  assumes "compliance_reachable db"
  shows "distinct (map ky_userId (cd_kyc db)) \<and> distinct (map cc_region (cd_configs db)) \<and>
    (\<forall>v \<in> set (cd_kyc db). ky_riskScore v = 0 \<and> ky_riskLevel v = RISK_LOW \<or> ky_riskScore v = 100 \<and> ky_riskLevel v = RISK_CRITICAL) \<and>
    (\<forall>d \<in> set (cd_documents db). (kd_status d = DOC_PENDING \<longleftrightarrow> kd_reviewedBy d = None) \<and>
       (\<exists>v \<in> set (cd_kyc db). ky_id v = kd_kycVerificationId d \<and> ky_userId v = kd_userId d)) \<and>
    (\<forall>f \<in> set (cd_flags db). 0 \<le> fg_riskScore f \<and> fg_riskScore f \<le> 100 \<and> fg_riskLevel f = scoreToRiskLevel (fg_riskScore f) \<and>
       (fg_status f \<noteq> FLAG_PENDING \<longrightarrow> fg_reviewedBy f \<noteq> None \<and> fg_resolutionNotes f \<noteq> None))"
proof -
  note ok = ok_reachable [OF assms, unfolded compliance_ok_def]
  have k: "kyc_ok db" and d: "documents_ok db" and f: "flags_ok db" and c: "configs_ok db" using ok by simp_all
  have "\<exists>v \<in> set (cd_kyc db). ky_id v = kd_kycVerificationId x \<and> ky_userId v = kd_userId x" if "x \<in> set (cd_documents db)" for x
  proof -
    have "(kd_kycVerificationId x, kd_userId x) \<in> (\<lambda>v. (ky_id v, ky_userId v)) ` set (cd_kyc db)" using d that by (simp add: documents_ok_def)
    then show ?thesis by auto
  qed
  moreover have "kd_status x = DOC_PENDING \<longleftrightarrow> kd_reviewedBy x = None" if "x \<in> set (cd_documents db)" for x
    using d that unfolding documents_ok_def by blast
  ultimately show ?thesis using k f c by (simp add: kyc_ok_def kyc_row_ok_def flags_ok_def flag_row_ok_def configs_ok_def)
qed

text \<open>
  Reviews that overlap: a review reads the flag in one step and finishes with that copy in another, while the other
  operations run in between.
\<close>

definition flag_reads :: "compliance_db \<Rightarrow> aml_flag \<Rightarrow> bool" where
  "flag_reads db f \<longleftrightarrow> row_by fg_id (fg_id f) (cd_flags db) = Some f"

definition flag_finish :: "aml_flag \<Rightarrow> compliance_db \<Rightarrow> compliance_db \<Rightarrow> bool" where
  "flag_finish f db db' \<longleftrightarrow> (\<exists>e p r dto ip. db' = snd (reviewFlag_rest e (fg_id f) p r dto ip f db))"

abbreviation compliance_overlap :: "compliance_db \<times> aml_flag list \<Rightarrow> compliance_db \<times> aml_flag list \<Rightarrow> bool" where
  "compliance_overlap \<equiv> overlap flag_reads flag_finish compliance_step"

definition flag_row :: "string \<Rightarrow> compliance_db \<Rightarrow> aml_flag option" where
  "flag_row i db = row_by fg_id i (cd_flags db)"

lemma flag_row_iff: "flags_ok db \<Longrightarrow> flag_row i db = Some f \<longleftrightarrow> f \<in> set (cd_flags db) \<and> fg_id f = i"
  unfolding flag_row_def flags_ok_def by (metis row_by_SomeD row_by_distinct)

lemma extends_row:
  assumes "extends db db'" and "compliance_ok db" and "compliance_ok db'" and "flag_row i db = Some f" and "closed_flag f"
  shows "flag_row i db' = Some f"
  using assms flag_row_iff [of db i f] flag_row_iff [of db' i f] by (auto simp: extends_def compliance_ok_def)

lemma flag_finish_extends:
  assumes "flag_finish f db db'" and "compliance_ok db"
  shows "\<exists>new. cd_audit db' = cd_audit db @ new"
    and "fg_id f \<noteq> i \<or> closed_flag f \<Longrightarrow> flag_row i db' = flag_row i db"
proof -
  obtain e p r dto ip where db': "db' = snd (reviewFlag_rest e (fg_id f) p r dto ip f db)" using assms(1) by (auto simp: flag_finish_def)
  have s: "cd_audit db1 = cd_audit db \<and> (fg_id f \<noteq> i \<longrightarrow> flag_row i db1 = flag_row i db)"
    if "save_flag e (reviewed_flag e p dto f) db = Inr db1" for db1
    using save_flag_InrD [OF that] by (auto simp: flag_row_def row_by_save_row reviewed_flag_def)
  show "\<exists>new. cd_audit db' = cd_audit db @ new"
  proof (cases "save_flag e (reviewed_flag e p dto f) db")
    case (Inl err)
    then show ?thesis unfolding db' reviewFlag_rest_def Let_def by simp
  next
    case (Inr db1)
    have "\<exists>new. cd_audit (snd (audit_then e 0 a evs f' db1)) = cd_audit db @ new" for a evs and f' :: aml_flag
      using audit_then_prefix [of e 0 a evs f' db1] s [OF Inr] by auto
    then show ?thesis unfolding db' reviewFlag_rest_def Let_def Inr by simp
  qed
  show "flag_row i db' = flag_row i db" if "fg_id f \<noteq> i \<or> closed_flag f"
    using s that unfolding db' reviewFlag_rest_def Let_def by (auto simp: flag_row_def closed_flag_def split: sum.splits)
qed

interpretation closed_flags: settling flag_reads flag_finish compliance_step compliance_ok "\<lambda>_. flag_row_ok"
  "\<lambda>i db. \<exists>f. flag_row i db = Some f \<and> closed_flag f" "\<lambda>i f. fg_id f = i \<and> \<not> closed_flag f" flag_row
proof
  fix db db' f i
  assume ok: "compliance_ok db"
  show "flag_row_ok f" if "flag_reads db f" using that ok row_by_SomeD [of fg_id "fg_id f" "cd_flags db" f]
    by (auto simp: flag_reads_def compliance_ok_def flags_ok_def)
  show "compliance_ok db'" if "flag_row_ok f" "flag_finish f db db'" using that ok ok_flag_rest by (auto simp: flag_finish_def)
  show "compliance_ok db'" if "compliance_step db db'" using ok_step [OF that ok] .
  assume c: "\<exists>f. flag_row i db = Some f \<and> closed_flag f"
  show "\<not> (fg_id f = i \<and> \<not> closed_flag f)" if "flag_reads db f" using that c by (auto simp: flag_reads_def flag_row_def)
  show "(\<exists>f. flag_row i db' = Some f \<and> closed_flag f) \<and> flag_row i db' = flag_row i db"
    if "\<not> (fg_id f = i \<and> \<not> closed_flag f)" "flag_finish f db db'"
    using flag_finish_extends(2) [OF that(2) ok, of i] that(1) c by auto
  show "(\<exists>f. flag_row i db' = Some f \<and> closed_flag f) \<and> flag_row i db' = flag_row i db" if "compliance_step db db'"
    using extends_row [OF extends_step [OF that ok] ok ok_step [OF that ok]] c by auto
qed

lemma audit_extends:
  assumes "compliance_overlap\<^sup>*\<^sup>* c c'" and "closed_flags.sound c"
  shows "\<exists>new. cd_audit (fst c') = cd_audit (fst c) @ new"
  using assms(1)
proof (induction rule: rtranclp_induct)
  case (step c1 c2)
  have ok: "compliance_ok (fst c1)" using closed_flags.sound_run [OF step(1) assms(2)] by (simp add: closed_flags.sound_def)
  from step(2) have "\<exists>new. cd_audit (fst c2) = cd_audit (fst c1) @ new"
    by (cases rule: overlap.cases) (use ok flag_finish_extends(1) extends_step in \<open>auto simp: extends_def\<close>)
  then show ?case using step.IH by auto
qed simp

lemma start_sound: "closed_flags.sound (empty_db, [])"
  using ok_reachable [of empty_db] by (simp add: closed_flags.sound_def compliance_reachable_def)

text \<open>
  C20. History is kept, also when reviews overlap: every operation only appends to the audit trail, and a flag that
  was cleared or confirmed never changes again, unless a review that read it before is still running.
\<close>

theorem compliance_history:
  assumes "compliance_overlap\<^sup>*\<^sup>* (empty_db, []) (db, P)" and "compliance_overlap\<^sup>*\<^sup>* (db, P) (db', P')"
  shows "(\<exists>new. cd_audit db' = cd_audit db @ new) \<and>
    {f \<in> set (cd_flags db). (fg_status f = FLAG_CLEARED \<or> fg_status f = FLAG_CONFIRMED) \<and>
       (\<forall>g \<in> set P. fg_id g = fg_id f \<longrightarrow> fg_status g = FLAG_CLEARED \<or> fg_status g = FLAG_CONFIRMED)} \<subseteq> set (cd_flags db')"
proof -
  have so: "closed_flags.sound (db, P)" using closed_flags.sound_run [OF assms(1) start_sound] .
  then have ok: "flags_ok db" "flags_ok db'"
    using closed_flags.sound_run [OF assms(2)] by (auto simp: closed_flags.sound_def compliance_ok_def)
  have "f \<in> set (cd_flags db')" if f: "f \<in> set (cd_flags db)" "closed_flag f" "\<forall>g \<in> set P. fg_id g = fg_id f \<longrightarrow> closed_flag g" for f
  proof -
    have row: "flag_row (fg_id f) db = Some f" using f(1) flag_row_iff [OF ok(1)] by simp
    then have "closed_flags.quiet (fg_id f) (db, P)" using f(2,3) unfolding closed_flags.quiet_def by auto
    from closed_flags.quiet_run [OF assms(2) so this] row show ?thesis using flag_row_iff [OF ok(2)] by simp
  qed
  then show ?thesis using audit_extends [OF assms(2) so] by (auto simp: closed_flag_def)
qed

text \<open>
  Two reviews that both read a flag while it is open are both carried out: the later one changes the flag that the
  earlier one has closed.
\<close>

theorem overlapping_reviews:
  assumes "row_by fg_id i (cd_flags db) = Some f" and "fg_status f = FLAG_PENDING" and "fg_transactionAmount f = None"
    and "rv_status d1 = FLAG_CLEARED" and "\<not> truthy (rv_sarReference d1)" and "\<not> truthy (rv_sarReference d2)" and "opt_fits 128 (fg_sarReference f)"
  shows "map_option fg_status (flag_row i (snd (reviewFlag_rest e1 i p1 r1 d1 ip1 f db))) = Some FLAG_CLEARED \<and>
    map_option fg_status (flag_row i (snd (reviewFlag_rest e2 i p2 r2 d2 ip2 f (snd (reviewFlag_rest e1 i p1 r1 d1 ip1 f db))))) = Some (rv_status d2)"
proof -
  have "fg_id f = i" using row_by_SomeD [OF assms(1)] by simp
  then show ?thesis using assms(2-)
    by (simp add: reviewFlag_rest_def save_flag_def reviewed_flag_def flag_row_def row_by_save_row Let_def)
qed

text \<open>
  C19. Documents and flags of other users do not influence what a user without a privileged role is told: in two
  reachable states with the same documents and flags of the user, every request for a document, its storage
  reference or a flag has the same answer, so not even the existence of somebody else's record is revealed.
\<close>

theorem records_private:
  assumes "compliance_reachable db" and "compliance_reachable db'"
    and "{d \<in> set (cd_documents db). kd_userId d = u} = {d \<in> set (cd_documents db'). kd_userId d = u}"
    and "{f \<in> set (cd_flags db). fg_userId f = u} = {f \<in> set (cd_flags db'). fg_userId f = u}"
  shows "getDocument i u False db = getDocument i u False db' \<and> retrieveDocument i u db = retrieveDocument i u db' \<and>
    getFlag i u False db = getFlag i u False db'"
proof -
  have ok: "documents_ok db" "documents_ok db'" "flags_ok db" "flags_ok db'"
    using ok_reachable assms(1,2) by (simp_all add: compliance_ok_def)
  have "getDocument i u False db = getDocument i u False db'"
    using documents.lookup_noninterference [OF _ _ assms(3)] ok by (simp add: documents_ok_def)
  moreover have "getFlag i u False db = getFlag i u False db'"
    using flags.lookup_noninterference [OF _ _ assms(4)] ok by (simp add: flags_ok_def)
  ultimately show ?thesis by (simp add: retrieveDocument_def)
qed

text \<open>
  The level after a review: enhanced or standard when the required documents are verified, also for a user who
  was institutional, and otherwise what it was, also when a required document has just been rejected.
\<close>

theorem reviewDocument_level:
  assumes "compliance_reachable db" and "reviewDocument e i st p r reason db = (Inr d, db')" and "st \<noteq> DOC_PENDING"
  shows "\<exists>v v'. find_kyc (kd_userId d) db = Some v \<and> find_kyc (kd_userId d) db' = Some v' \<and>
    (let types = kd_documentType ` {x \<in> set (cd_documents db'). kd_userId x = kd_userId d \<and> kd_status x = DOC_VERIFIED} in
      ky_level v' = (if ID_VERIFICATION \<in> types \<and> ADDRESS_PROOF \<in> types
        then if BENEFICIAL_OWNERSHIP \<in> types then ENHANCED else STANDARD else ky_level v))"
proof -
  have ok: "compliance_ok db" using assms(1) by (rule ok_reachable)
  obtain old where g: "getDocument i p (isPrivilegedRole r) db = Inr old" using assms(2) by (auto simp: reviewDocument_def split: sum.splits)
  let ?d = "reviewed_document e st p reason old"
  obtain db1 where s: "save_document ?d db = Inr db1" and d: "d = ?d"
    using assms(2) g by (auto simp: reviewDocument_def audit_then_def Let_def split: sum.splits)
  have user: "kd_userId d = kd_userId old" by (simp add: d reviewed_document_def)
  have old: "old \<in> set (cd_documents db)" using getDocument_InrD [OF g] by simp
  then have "kd_userId d \<in> ky_userId ` set (cd_kyc db)" using ok user by (auto simp: compliance_ok_def documents_ok_def)
  then obtain v where v: "find_kyc (kd_userId d) db = Some v" unfolding find_kyc_def by (metis option.exhaust row_by_None_iff)
  have ok1: "compliance_ok db1"
    using ok_save_document [OF ok s] old ok assms(3) by (auto simp: reviewed_document_def compliance_ok_def documents_ok_def)
  have kyc1: "cd_kyc db1 = cd_kyc db" using s by (auto simp: save_document_def split: if_splits)
  then have v1: "find_kyc (kd_userId d) db1 = Some v" using v by (simp add: find_kyc_def)
  let ?n = "completed_level (filter (\<lambda>x. kd_userId x = kd_userId d) (cd_documents db1)) (ky_level v)"
  let ?c = "checkDocumentCompletion (kd_userId d) db1"
  have db': "cd_kyc db' = cd_kyc ?c" "cd_documents db' = cd_documents ?c"
    using assms(2) g s d by (auto simp: reviewDocument_def Let_def split: sum.splits)
      (metis audit_then_frame snd_conv)+
  have docs: "cd_documents db' = cd_documents db1" using db'(2) v1 by (simp add: checkDocumentCompletion_def Let_def)
  note u = find_kyc_SomeD [OF v1]
  have "find_kyc (kd_userId d) ?c = Some (v\<lparr>ky_level := ?n\<rparr>)"
  proof (cases "?n = ky_level v")
    case True
    then show ?thesis using v1 by (simp add: checkDocumentCompletion_def Let_def)
  next
    case False
    have "compliance_ok (db1\<lparr>cd_kyc := save_row ky_id (v\<lparr>ky_level := ?n\<rparr>) (cd_kyc db1)\<rparr>)"
      using ok_change_kyc [OF ok1, of v "v\<lparr>ky_level := ?n\<rparr>"] u ok_kyc_row [OF ok1 v1] by (simp add: kyc_row_ok_def)
    from find_kyc_changed [OF this] show ?thesis using False v1 u by (simp add: checkDocumentCompletion_def Let_def find_kyc_def)
  qed
  then have "find_kyc (kd_userId d) db' = Some (v\<lparr>ky_level := ?n\<rparr>)" using db'(1) by (simp add: find_kyc_def)
  moreover have "verified_types (filter (\<lambda>x. kd_userId x = kd_userId d) (cd_documents db1)) =
      kd_documentType ` {x \<in> set (cd_documents db'). kd_userId x = kd_userId d \<and> kd_status x = DOC_VERIFIED}"
    by (auto simp: verified_types_def docs)
  ultimately show ?thesis using v by (simp add: completed_level_def required_types_def Let_def)
qed

text \<open>
  The audit table accepts only uuids, and three operations record the user \<^verbatim>\<open>system\<close>. A change of a regional
  configuration therefore always throws, a refresh of a risk assessment as well, and both after the row
  was saved: the new thresholds and the critical level are in force without an entry in the audit trail.
\<close>

theorem system_entries_fail:
  assumes "compliance_reachable db" and "\<not> ce_uuid e ''system''"
  shows "\<not> is_ok (fst (upsertConfig e dto p r db)) \<and> cd_audit (snd (upsertConfig e dto p r db)) = cd_audit db \<and>
    \<not> is_ok (fst (updateRiskAssessment e u db)) \<and> cd_audit (snd (updateRiskAssessment e u db)) = cd_audit db \<and>
    (find_kyc u db \<noteq> None \<longrightarrow> map_option ky_riskLevel (find_kyc u (snd (updateRiskAssessment e u db))) = Some RISK_CRITICAL) \<and>
    (find_config (uc_region dto) db = Some c \<and> ce_numeric e (cc_amlTransactionThreshold (assign_config dto c)) = Some x \<and>
       ce_numeric e (cc_dailyVolumeThreshold (assign_config dto c)) = Some y \<and> length (cc_displayName (assign_config dto c)) \<le> 128 \<longrightarrow>
     row_by cc_id (cc_id c) (cd_configs (snd (upsertConfig e dto p r db))) =
       Some ((assign_config dto c)\<lparr>cc_amlTransactionThreshold := x, cc_dailyVolumeThreshold := y\<rparr>))"
proof (intro conjI impI)
  note ok = ok_reachable [OF assms(1)]
  have fails: "audit_then e k a evs z d = (Inl (QueryFailed ''compliance_audit_logs''), d)"
    if "au_performedBy a = ''system'' \<or> au_targetUserId a = ''system''" for k a evs and z :: 'z and d
    using that assms(2) by (auto simp: audit_then_def appendAudit_def audit_columns_ok_def)
  show "\<not> is_ok (fst (upsertConfig e dto p r db))" by (simp add: upsertConfig_def Let_def fails split: sum.splits)
  show "cd_audit (snd (upsertConfig e dto p r db)) = cd_audit db"
    by (auto simp: upsertConfig_def Let_def fails save_config_def split: sum.splits option.splits if_splits)
  show "\<not> is_ok (fst (updateRiskAssessment e u db))"
    by (simp add: updateRiskAssessment_def calculateRiskScore_100 Let_def fails split: sum.splits option.splits)
  show "cd_audit (snd (updateRiskAssessment e u db)) = cd_audit db"
    by (auto simp: updateRiskAssessment_def calculateRiskScore_100 Let_def fails save_kyc_def split: sum.splits option.splits if_splits)
  show "map_option ky_riskLevel (find_kyc u (snd (updateRiskAssessment e u db))) = Some RISK_CRITICAL" if "find_kyc u db \<noteq> None"
    using that refresh_stores [OF ok, of u _ e] by auto
  assume c: "find_config (uc_region dto) db = Some c \<and> ce_numeric e (cc_amlTransactionThreshold (assign_config dto c)) = Some x \<and>
       ce_numeric e (cc_dailyVolumeThreshold (assign_config dto c)) = Some y \<and> length (cc_displayName (assign_config dto c)) \<le> 128"
  then show "row_by cc_id (cc_id c) (cd_configs (snd (upsertConfig e dto p r db))) =
       Some ((assign_config dto c)\<lparr>cc_amlTransactionThreshold := x, cc_dailyVolumeThreshold := y\<rparr>)"
    by (simp add: upsertConfig_def Let_def fails save_config_def row_by_save_row) (simp add: assign_config_def)
qed

text \<open>
  The regions of users are two-letter country codes and those of configurations an enum with three such
  labels. When the database rejects other strings in a comparison with the enum, every assessment of a
  user from another country fails.
\<close>

lemma region_of_two:
  assumes "length c \<le> 2" and "to_lower c \<noteq> ''us''" and "to_lower c \<noteq> ''eu''" and "to_lower c \<noteq> ''uk''"
  shows "region_of (to_lower c) = None"
proof -
  have "length (to_lower c) \<le> 2" using assms(1) by (simp add: to_lower_def)
  then have "region_str r \<noteq> to_lower c" for r using assms(2-) by (cases r) (auto simp flip: length_greater_0_conv dest!: arg_cong [of _ _ length])
  then show ?thesis by (simp add: region_of_def find_None_iff)
qed

theorem foreign_region_fails:
  assumes "compliance_reachable db" and "ce_enumStrict e" and "find_kyc u db = Some v" and "ky_region v = Some c"
    and "to_lower c \<noteq> ''us''" and "to_lower c \<noteq> ''eu''" and "to_lower c \<noteq> ''uk''"
  shows "assessTransactionRisk e u dto p r db = (Inl (QueryFailed ''compliance_configs_region_enum''), db)"
proof -
  have "length c \<le> 2" using ok_kyc_row [OF ok_reachable [OF assms(1)] assms(3)] assms(4) by (simp add: kyc_row_ok_def opt_fits_def)
  from region_of_two [OF this assms(5-7)] show ?thesis
    using assms(2-4) by (simp add: assessTransactionRisk_def getConfigForRegion_def Let_def)
qed

section \<open>Witnesses\<close>

definition demo_cenv :: compliance_env where
  "demo_cenv = \<lparr>now = 0, uuid = nat_to_string, keypair = [], ce_uuid = (\<lambda>s. s \<noteq> ''system''), ce_numeric = Some, ce_enumStrict = True,
     ce_sha256 = id, ce_salt = [], ce_jsonParse = (\<lambda>s. None), ce_dateParse = (\<lambda>s. None)\<rparr>"

definition demo_kyc :: compliance_db where
  "demo_kyc = snd (initiateVerification demo_cenv ''ann'' \<lparr>ik_region = ''fr'', ik_targetLevel = None\<rparr> None None empty_db)"

lemma kyc_demo_fresh: "fresh_ids demo_cenv empty_db"
  by (simp add: fresh_ids_def used_ids_def empty_db_def demo_cenv_def inj_def nat_to_string_inj)

lemma demo_step: "compliance_step empty_db demo_kyc"
  unfolding demo_kyc_def by (rule compliance_step.initiate [OF kyc_demo_fresh])

lemma kyc_demo_reachable: "compliance_reachable demo_kyc" "compliance_reachable empty_db"
  using demo_step by (simp_all add: compliance_reachable_def r_into_rtranclp)

lemma demo_row: "find_kyc ''ann'' demo_kyc = Some (new_kyc demo_cenv ''ann'' (Some ''fr''))"
  by (simp add: demo_kyc_def initiateVerification_def Let_def empty_db_def find_kyc_def save_kyc_def new_kyc_def opt_fits_def)

theorem assessed_users_blocked_witness:
  "find_kyc ''ann'' demo_kyc \<noteq> None \<and> fst (calculateRiskScore demo_cenv ''ann'' demo_kyc) = 100 \<and>
   fst (shouldBlockTransactions demo_cenv ''ann'' (snd (updateRiskAssessment demo_cenv ''ann'' demo_kyc))) = Inr True"
  using assessed_users_blocked [OF kyc_demo_reachable(1), of demo_cenv "''ann''" demo_cenv] demo_row by simp

text \<open>
  A run with records in every table: ann starts a verification in a high-risk region and uploads a document, a
  transaction of hers raises a flag, a reviewer clears the flag, and bob starts a verification.
\<close>

definition run_env :: "char \<Rightarrow> compliance_env" where
  "run_env p = demo_cenv\<lparr>uuid := (\<lambda>k. p # replicate k CHR ''x''), ce_enumStrict := False\<rparr>"

lemma run_env_sel [simp]: "uuid (run_env p) k = p # replicate k CHR ''x''" "ce_enumStrict (run_env p) = False" "ce_numeric (run_env p) = Some"
  "ce_uuid (run_env p) s = (s \<noteq> ''system'')" "ce_sha256 (run_env p) = id" "now (run_env p) = 0"
  by (simp_all add: run_env_def demo_cenv_def)

lemma run_env_fresh: "used_ids db \<inter> range ((#) p) = {} \<Longrightarrow> fresh_ids (run_env p) db"
  by (auto simp: fresh_ids_def inj_def dest: arg_cong [of _ _ length])

definition run1 :: compliance_db where
  "run1 = snd (initiateVerification (run_env CHR ''a'') ''ann'' \<lparr>ik_region = ''IR'', ik_targetLevel = None\<rparr> None None empty_db)"

definition run2 :: compliance_db where
  "run2 = snd (uploadDocument (run_env CHR ''b'') ''ann'' \<lparr>uf_originalname = ''f'', uf_mimetype = ''image/png'', uf_size = 9, uf_buffer = ''x''\<rparr>
     ID_VERIFICATION None None None run1)"

definition run_tx :: assess_transaction_risk_dto where
  "run_tx = \<lparr>at_amount = 5, at_transactionType = ''trade'', at_assetCode = None, at_recentTransactions = None\<rparr>"

definition run3 :: compliance_db where
  "run3 = snd (assessTransactionRisk (run_env CHR ''c'') ''ann'' run_tx (Some ''ann'') None run2)"

definition run_dto :: review_aml_flag_dto where
  "run_dto = \<lparr>rv_status = FLAG_CLEARED, rv_resolutionNotes = ''ok'', rv_sarFiled = None, rv_sarReference = None, rv_evidence = None\<rparr>"

definition run4 :: compliance_db where
  "run4 = snd (reviewFlag (run_env CHR ''d'') ''cx'' ''eve'' ''admin'' run_dto None run3)"

definition run5 :: compliance_db where
  "run5 = snd (initiateVerification (run_env CHR ''e'') ''bob'' \<lparr>ik_region = ''us'', ik_targetLevel = None\<rparr> None None run4)"

lemma run1_tables: "cd_kyc run1 = [new_kyc (run_env CHR ''a'') ''ann'' (Some ''IR'')]" "cd_documents run1 = []" "cd_flags run1 = []" "cd_configs run1 = []"
  by (simp_all add: run1_def initiateVerification_def Let_def empty_db_def find_kyc_def save_kyc_def new_kyc_def opt_fits_def)

lemma run2_kyc: "find_kyc ''ann'' run1 = Some (new_kyc (run_env CHR ''a'') ''ann'' (Some ''IR''))"
  by (simp add: find_kyc_def run1_tables new_kyc_def)

lemma run2_tables: "cd_kyc run2 = cd_kyc run1" "\<exists>d. cd_documents run2 = [d] \<and> kd_id d = ''bx'' \<and> kd_userId d = ''ann''"
  "cd_flags run2 = []" "cd_configs run2 = []"
  by (simp_all add: run2_def uploadDocument_def run2_kyc getOrCreateKyc_def new_document_def save_document_def Let_def run1_tables
      ALLOWED_MIME_TYPES_def MAX_FILE_SIZE_BYTES_def generateStoragePath_def run_env_def demo_cenv_def
      int_to_string_def nat_to_string.simps)

lemma run3_tables: "cd_kyc run3 = cd_kyc run1" "cd_documents run3 = cd_documents run2" "map cc_id (cd_configs run3) = [''c'']"
  "\<exists>f. cd_flags run3 = [f] \<and> fg_id f = ''cx'' \<and> fg_status f = FLAG_PENDING \<and> opt_fits 128 (fg_sarReference f)"
proof -
  have v: "Option.bind (find_kyc ''ann'' run2) ky_region = Some ''IR''" "high_risk_region (find_kyc ''ann'' run2)"
    by (simp_all add: find_kyc_def run1_tables run2_tables new_kyc_def high_risk_region_def HIGH_RISK_REGIONS_def to_upper_def upper_char_def)
  have c: "getConfigForRegion (run_env CHR ''c'') 0 ''IR'' run2 = Inr (default_config (run_env CHR ''c'') 0,
      run2\<lparr>cd_configs := [default_config (run_env CHR ''c'') 0]\<rparr>)"
    by (simp add: getConfigForRegion_def region_of_def regions_def to_lower_def lower_char_def find_config_def run2_tables save_config_def
        default_config_def Let_def)
  have t: "triggered (run_env CHR ''c'') config (find_kyc ''ann'' run2) run_tx \<noteq> []" for config using v(2) by (simp add: triggered_def)
  show "cd_kyc run3 = cd_kyc run1" "cd_documents run3 = cd_documents run2" "map cc_id (cd_configs run3) = [''c'']"
    "\<exists>f. cd_flags run3 = [f] \<and> fg_id f = ''cx'' \<and> fg_status f = FLAG_PENDING \<and> opt_fits 128 (fg_sarReference f)"
    by (simp_all add: run3_def assessTransactionRisk_def v(1) c t Let_def save_flag_def new_flag_def run2_tables default_config_def opt_fits_def)
qed

lemma run4_flag: "row_by fg_id ''cx'' (cd_flags run3) = Some f \<Longrightarrow> run4 = snd (reviewFlag_rest (run_env CHR ''d'') (fg_id f) ''eve'' ''admin'' run_dto None f run3)"
  using row_by_SomeD [of fg_id "''cx''" "cd_flags run3" f] by (simp add: run4_def reviewFlag_def getFlag_def isPrivilegedRole_def)

lemma run4_tables: "cd_kyc run4 = cd_kyc run1" "cd_documents run4 = cd_documents run2" "cd_configs run4 = cd_configs run3"
  "\<exists>f. cd_flags run4 = [f] \<and> fg_id f = ''cx'' \<and> fg_status f = FLAG_CLEARED"
proof -
  obtain f where f: "cd_flags run3 = [f]" "fg_id f = ''cx''" "fg_status f = FLAG_PENDING" "opt_fits 128 (fg_sarReference f)" using run3_tables(4) by auto
  let ?f = "reviewed_flag (run_env CHR ''d'') ''eve'' run_dto f"
  have "opt_fits 128 (fg_sarReference ?f)" and id: "fg_id ?f = ''cx''" using f(2,4) by (simp_all add: reviewed_flag_def run_dto_def truthy_def)
  then have "\<exists>d. save_flag (run_env CHR ''d'') ?f run3 = Inr d" by (simp add: save_flag_def split: option.splits)
  from this save_flag_InrD obtain a where s: "save_flag (run_env CHR ''d'') ?f run3 = Inr (run3\<lparr>cd_flags := [?f\<lparr>fg_transactionAmount := a\<rparr>]\<rparr>)"
    using f(1,2) id by fastforce
  have eq: "run4 = snd (reviewFlag_rest (run_env CHR ''d'') ''cx'' ''eve'' ''admin'' run_dto None f run3)" using run4_flag [of f] f(1,2) by simp
  show "cd_kyc run4 = cd_kyc run1" "cd_documents run4 = cd_documents run2" "cd_configs run4 = cd_configs run3"
    "\<exists>f. cd_flags run4 = [f] \<and> fg_id f = ''cx'' \<and> fg_status f = FLAG_CLEARED"
    by (simp_all add: eq reviewFlag_rest_def f(3) Let_def s run3_tables(1,2) id) (simp add: reviewed_flag_def run_dto_def)
qed

lemma run_ids: "used_ids run1 = {''a''}" "used_ids run2 = {''a'', ''bx''}" "used_ids run4 = {''a'', ''bx'', ''cx'', ''c''}"
proof -
  obtain d where d: "cd_documents run2 = [d]" "kd_id d = ''bx''" using run2_tables(2) by auto
  obtain f where f: "cd_flags run4 = [f]" "fg_id f = ''cx''" using run4_tables(4) by auto
  obtain c where c: "cd_configs run3 = [c]" "cc_id c = ''c''" using run3_tables(3) by (auto simp: map_eq_Cons_conv)
  show "used_ids run1 = {''a''}" "used_ids run2 = {''a'', ''bx''}" "used_ids run4 = {''a'', ''bx'', ''cx'', ''c''}"
    by (auto simp: used_ids_def run1_tables run2_tables(1,3,4) run4_tables(1-3) d f c new_kyc_def)
qed

lemma run5_kyc: "map ky_userId (cd_kyc run5) = [''ann'', ''bob'']"
  by (simp add: run5_def initiateVerification_def Let_def find_kyc_def run1_tables run4_tables(1) save_kyc_def new_kyc_def opt_fits_def)

lemma run_steps: "compliance_step empty_db run1" "compliance_step run1 run2" "compliance_step run2 run3" "compliance_step run3 run4" "compliance_step run4 run5"
proof -
  have z: "fresh_ids (run_env CHR ''a'') empty_db" by (rule run_env_fresh) (simp add: used_ids_def empty_db_def)
  have f: "fresh_ids (run_env CHR ''b'') run1" "fresh_ids (run_env CHR ''c'') run2" "fresh_ids (run_env CHR ''e'') run4"
    by (rule run_env_fresh, auto simp: run_ids)+
  show "compliance_step empty_db run1" unfolding run1_def by (rule compliance_step.initiate [OF z])
  show "compliance_step run1 run2" unfolding run2_def by (rule compliance_step.upload [OF f(1)])
  show "compliance_step run2 run3" unfolding run3_def by (rule compliance_step.assess [OF f(2)])
  show "compliance_step run3 run4" unfolding run4_def by (rule compliance_step.flag)
  show "compliance_step run4 run5" unfolding run5_def by (rule compliance_step.initiate [OF f(3)])
qed

lemma run_reachable: "compliance_reachable run2" "compliance_reachable run4"
  using run_steps by (auto simp: compliance_reachable_def intro: rtranclp.rtrancl_into_rtrancl)

text \<open>The review of the run as two steps.\<close>

lemma run_overlap: "compliance_overlap\<^sup>*\<^sup>* (empty_db, []) (run4, [])" "compliance_overlap\<^sup>*\<^sup>* (run4, []) (run5, [])"
proof -
  obtain f where f: "cd_flags run3 = [f]" "fg_id f = ''cx''" using run3_tables(4) by auto
  then have "flag_finish f run3 run4" using run4_flag [of f] unfolding flag_finish_def by (intro exI) simp
  then have "compliance_overlap (run3, [f]) (run4, [])" by (rule ov_finish_sole)
  moreover have "compliance_overlap (run3, []) (run3, [f])" using f by (intro ov_read) (simp add: flag_reads_def)
  moreover have "compliance_overlap (empty_db, []) (run1, [])" "compliance_overlap (run1, []) (run2, [])" "compliance_overlap (run2, []) (run3, [])"
      "compliance_overlap (run4, []) (run5, [])"
    using run_steps by (auto intro: ov_other)
  ultimately show "compliance_overlap\<^sup>*\<^sup>* (empty_db, []) (run4, [])" "compliance_overlap\<^sup>*\<^sup>* (run4, []) (run5, [])"
    by (auto intro: rtranclp.rtrancl_into_rtrancl)
qed

theorem compliance_invariant_witness:
  "length (cd_documents run4) = 1 \<and> map fg_status (cd_flags run4) = [FLAG_CLEARED] \<and> distinct (map ky_userId (cd_kyc run4)) \<and>
   fg_reviewedBy (hd (cd_flags run4)) \<noteq> None \<and> fg_riskLevel (hd (cd_flags run4)) = scoreToRiskLevel (fg_riskScore (hd (cd_flags run4)))"
  using compliance_invariant [OF run_reachable(2)] run4_tables(2,4) run2_tables(2) by auto

theorem compliance_history_witness:
  "map fg_status (cd_flags run4) = [FLAG_CLEARED] \<and> map ky_userId (cd_kyc run5) = [''ann'', ''bob''] \<and> set (cd_flags run4) \<subseteq> set (cd_flags run5) \<and>
   (\<exists>new. cd_audit run5 = cd_audit run4 @ new)"
  using compliance_history [OF run_overlap] run4_tables(4) run5_kyc by auto

theorem records_private_witness:
  "map (\<lambda>d. (kd_id d, kd_userId d)) (cd_documents run2) = [(''bx'', ''ann'')] \<and>
   getDocument ''bx'' ''bob'' False run2 = getDocument ''bx'' ''bob'' False empty_db"
  using records_private [OF run_reachable(1) kyc_demo_reachable(2), of "''bob''" "''bx''"] run2_tables(2,3) by (auto simp: empty_db_def)

theorem system_entries_fail_witness:
  "\<not> is_ok (fst (updateRiskAssessment demo_cenv ''ann'' demo_kyc)) \<and>
   map_option ky_riskLevel (find_kyc ''ann'' (snd (updateRiskAssessment demo_cenv ''ann'' demo_kyc))) = Some RISK_CRITICAL"
  using system_entries_fail [OF kyc_demo_reachable(1), of demo_cenv _ _ _ "''ann''"] demo_row by (simp add: demo_cenv_def)

end
