(* ===== verification/RateLimit.thy ===== *)
theory RateLimit
  imports JsDate
begin

text \<open>
  The module \<^verbatim>\<open>rate-limiting\<close>: the configuration of the tiers with its cache, the two window strategies on
  Redis, path patterns, the guard in front of every route, and the admin endpoints.

  Redis is its documented behaviour on the commands the service sends: sorted sets with distinct members,
  counters and expiry times, by the clock of the server. A quota that is \<^verbatim>\<open>Infinity\<close> is \<open>None\<close>. The rows of
  the configuration table are read in the order of the table.
\<close>

section \<open>Redis\<close>

record redis =
  rd_zset :: "string \<Rightarrow> (string \<times> int) list"
  rd_count :: "string \<Rightarrow> int"
  rd_expiry :: "string \<Rightarrow> int option"

definition rd_live :: "int \<Rightarrow> string \<Rightarrow> redis \<Rightarrow> bool" where
  "rd_live tm k r = (case rd_expiry r k of None \<Rightarrow> True | Some x \<Rightarrow> tm < x)"

text \<open>An expired key is deleted before a command sees it.\<close>

definition rd_purge :: "int \<Rightarrow> string \<Rightarrow> redis \<Rightarrow> redis" where
  "rd_purge tm k r = (if rd_live tm k r then r
     else r\<lparr>rd_zset := (rd_zset r)(k := []), rd_count := (rd_count r)(k := 0), rd_expiry := (rd_expiry r)(k := None)\<rparr>)"

definition rd_del :: "string \<Rightarrow> redis \<Rightarrow> redis" where
  "rd_del k r = r\<lparr>rd_zset := (rd_zset r)(k := []), rd_count := (rd_count r)(k := 0), rd_expiry := (rd_expiry r)(k := None)\<rparr>"

definition zremrangebyscore :: "int \<Rightarrow> string \<Rightarrow> int \<Rightarrow> redis \<Rightarrow> redis" where
  "zremrangebyscore tm k maxScore r =
     (let r = rd_purge tm k r in r\<lparr>rd_zset := (rd_zset r)(k := filter (\<lambda>(m, s). maxScore < s) (rd_zset r k))\<rparr>)"

definition zadd :: "int \<Rightarrow> string \<Rightarrow> int \<Rightarrow> string \<Rightarrow> redis \<Rightarrow> redis" where
  "zadd tm k score member r =
     (let r = rd_purge tm k r in r\<lparr>rd_zset := (rd_zset r)(k := map_set member score (rd_zset r k))\<rparr>)"

definition expire :: "int \<Rightarrow> string \<Rightarrow> int \<Rightarrow> redis \<Rightarrow> redis" where
  "expire tm k seconds r = r\<lparr>rd_expiry := (rd_expiry r)(k := Some (tm + seconds * 1000))\<rparr>"

definition zcard :: "string \<Rightarrow> redis \<Rightarrow> int" where
  "zcard k r = int (length (rd_zset r k))"

definition incr :: "int \<Rightarrow> string \<Rightarrow> redis \<Rightarrow> int \<times> redis" where
  "incr tm k r = (let r = rd_purge tm k r; n = rd_count r k + 1 in (n, r\<lparr>rd_count := (rd_count r)(k := n)\<rparr>))"

text \<open>The score of the first element of the sorted set.\<close>

definition oldest_score :: "string \<Rightarrow> redis \<Rightarrow> int option" where
  "oldest_score k r = (case rd_zset r k of [] \<Rightarrow> None | x # xs \<Rightarrow> Some (foldl min (snd x) (map snd xs)))"

section \<open>Configuration\<close>

datatype rate_limit_tier = FREE | PREMIUM | ENTERPRISE

fun tier_str :: "rate_limit_tier \<Rightarrow> string" where
  "tier_str FREE = ''free''"
| "tier_str PREMIUM = ''premium''"
| "tier_str ENTERPRISE = ''enterprise''"

datatype window_strategy = SLIDING_WINDOW | FIXED_WINDOW

fun DEFAULT_TIER_QUOTAS :: "rate_limit_tier \<Rightarrow> int option" where
  "DEFAULT_TIER_QUOTAS FREE = Some 100"
| "DEFAULT_TIER_QUOTAS PREMIUM = Some 1000"
| "DEFAULT_TIER_QUOTAS ENTERPRISE = None"

definition DEFAULT_WINDOW_SIZE_SECS :: int where
  "DEFAULT_WINDOW_SIZE_SECS = 60"

record tier_config =
  rc_tier :: rate_limit_tier
  rc_maxRequests :: int
  rc_windowSizeSeconds :: int
  rc_endpointPattern :: "string option"
  rc_enabled :: bool

record quota =
  qt_maxRequests :: "int option"
  qt_windowSizeSeconds :: int

record endpoint_override =
  eo_endpointPattern :: string
  eo_quota :: quota

record rate_limiter =
  rl_configs :: "tier_config list"
  rl_tierQuotas :: "(rate_limit_tier \<times> quota) list"
  rl_endpointOverrides :: "endpoint_override list"
  rl_strategy :: window_strategy
  rl_redis :: redis

definition UNLIMITED_SENTINEL :: int where
  "UNLIMITED_SENTINEL = - 1"

definition MAX_REQUESTS_CAP :: int where
  "MAX_REQUESTS_CAP = 1000000"

definition normaliseStoredMaxRequests :: "int \<Rightarrow> int option" where
  "normaliseStoredMaxRequests v = (if v \<le> UNLIMITED_SENTINEL then None else Some v)"

definition config_quota :: "tier_config \<Rightarrow> quota" where
  "config_quota c = \<lparr>qt_maxRequests = (if rc_enabled c then normaliseStoredMaxRequests (rc_maxRequests c) else Some 0),
     qt_windowSizeSeconds = rc_windowSizeSeconds c\<rparr>"

definition config_override :: "tier_config \<Rightarrow> endpoint_override list" where
  "config_override c = (case rc_endpointPattern c of None \<Rightarrow> [] | Some p \<Rightarrow>
     if p = [] then [] else [\<lparr>eo_endpointPattern = p, eo_quota = config_quota c\<rparr>])"

definition loadConfigFromDb :: "rate_limiter \<Rightarrow> rate_limiter" where
  "loadConfigFromDb st = st\<lparr>rl_tierQuotas := foldl (\<lambda>m c. map_set (rc_tier c) (config_quota c) m) [] (rl_configs st),
     rl_endpointOverrides := concat (map config_override (rl_configs st))\<rparr>"

definition getConfig :: "rate_limit_tier \<Rightarrow> rate_limiter \<Rightarrow> tier_config option" where
  "getConfig tier st = row_by rc_tier tier (rl_configs st)"

fun tier_rank :: "rate_limit_tier \<Rightarrow> nat" where
  "tier_rank FREE = 0" | "tier_rank PREMIUM = 1" | "tier_rank ENTERPRISE = 2"

definition getAllConfigs :: "rate_limiter \<Rightarrow> tier_config list" where
  "getAllConfigs st = sort_key (\<lambda>c. tier_rank (rc_tier c)) (rl_configs st)"

record upsert_params =
  up_tier :: rate_limit_tier
  up_maxRequests :: number
  up_windowSizeSeconds :: "int option"
  up_endpointPattern :: "string option"
  up_enabled :: "bool option"
  up_unlimited :: "bool option"
  up_disableConfirmation :: "bool option"

definition stored_quota :: "upsert_params \<Rightarrow> int result" where
  "stored_quota p =
     (if up_unlimited p = Some True then Inr UNLIMITED_SENTINEL
      else if of_int \<lfloor>up_maxRequests p\<rfloor> \<noteq> up_maxRequests p \<or> up_maxRequests p < 1 \<or> of_int MAX_REQUESTS_CAP < up_maxRequests p
      then Inl (BadRequest (''maxRequests must be an integer between 1 and '' @ int_to_string MAX_REQUESTS_CAP @
             ''; pass unlimited: true for an unlimited quota''))
      else Inr \<lfloor>up_maxRequests p\<rfloor>)"

definition merged_config :: "upsert_params \<Rightarrow> int \<Rightarrow> tier_config option \<Rightarrow> tier_config" where
  "merged_config p stored old = (case old of
       Some c \<Rightarrow> c\<lparr>rc_maxRequests := stored,
         rc_windowSizeSeconds := case_option (rc_windowSizeSeconds c) id (up_windowSizeSeconds p),
         rc_endpointPattern := (case up_endpointPattern p of None \<Rightarrow> rc_endpointPattern c | Some x \<Rightarrow> Some x),
         rc_enabled := case_option (rc_enabled c) id (up_enabled p)\<rparr>
     | None \<Rightarrow> \<lparr>rc_tier = up_tier p, rc_maxRequests = stored,
         rc_windowSizeSeconds = case_option DEFAULT_WINDOW_SIZE_SECS id (up_windowSizeSeconds p),
         rc_endpointPattern = up_endpointPattern p, rc_enabled = case_option True id (up_enabled p)\<rparr>)"

definition rl_upsertConfig :: "upsert_params \<Rightarrow> rate_limiter \<Rightarrow> (tier_config \<times> rate_limiter) result" where
  "rl_upsertConfig p st =
     (if up_enabled p = Some False \<and> up_disableConfirmation p \<noteq> Some True
      then Inl (BadRequest ''Disabling a tier stores a zero quota and blocks every request to it. Repeat with disableConfirmation: true to confirm.'')
      else if up_endpointPattern p = Some ''*''
      then Inl (BadRequest (''endpointPattern cannot be '' @ [CHR 0x22] @ ''*'' @ [CHR 0x22] @ '' (would disable rate limiting globally)''))
      else rbind (stored_quota p) (\<lambda>stored.
        let c = merged_config p stored (getConfig (up_tier p) st)
        in Inr (c, loadConfigFromDb (st\<lparr>rl_configs := save_row rc_tier c (rl_configs st)\<rparr>))))"

section \<open>Path patterns\<close>

text \<open>
  The regular expression that \<^verbatim>\<open>pathMatchesPattern\<close> builds. Special characters are escaped, a star becomes
  \<^verbatim>\<open>.*\<close>, and a question mark is not escaped: it makes the character before it optional, after a
  quantifier it has no effect on what matches, and anywhere else it is a syntax error.
\<close>

datatype ritem = Lit char | Opt char | AnyStar

fun rx_compile :: "string \<Rightarrow> ritem list option" where
  "rx_compile [] = Some []"
| "rx_compile (c # cs) =
     (if c = CHR ''?'' then None
      else case cs of
        q1 # q2 # rest \<Rightarrow>
          if q1 \<noteq> CHR ''?'' then map_option (Cons (if c = CHR ''*'' then AnyStar else Lit c)) (rx_compile cs)
          else if c = CHR ''*'' then map_option (Cons AnyStar) (rx_compile (q2 # rest))
          else if q2 = CHR ''?'' then map_option (Cons (Opt c)) (rx_compile rest)
          else map_option (Cons (Opt c)) (rx_compile (q2 # rest))
      | [q1] \<Rightarrow>
          if q1 \<noteq> CHR ''?'' then map_option (Cons (if c = CHR ''*'' then AnyStar else Lit c)) (rx_compile [q1])
          else Some [if c = CHR ''*'' then AnyStar else Opt c]
      | [] \<Rightarrow> Some [if c = CHR ''*'' then AnyStar else Lit c])"

definition line_end :: "char \<Rightarrow> bool" where
  "line_end c \<longleftrightarrow> of_char c = (10::nat) \<or> of_char c = (13::nat)"

fun rx_match :: "ritem list \<Rightarrow> string \<Rightarrow> bool" where
  "rx_match [] s = (s = [])"
| "rx_match (Lit c # rs) [] = False"
| "rx_match (Lit c # rs) (d # t) = (c = d \<and> rx_match rs t)"
| "rx_match (Opt c # rs) [] = rx_match rs []"
| "rx_match (Opt c # rs) (d # t) = (rx_match rs (d # t) \<or> (c = d \<and> rx_match rs t))"
| "rx_match (AnyStar # rs) [] = rx_match rs []"
| "rx_match (AnyStar # rs) (d # t) = (rx_match rs (d # t) \<or> (\<not> line_end d \<and> rx_match (AnyStar # rs) t))"

definition pathMatchesPattern :: "string \<Rightarrow> string \<Rightarrow> bool result" where
  "pathMatchesPattern path pattern =
     (if pattern = [] then Inr False
      else case rx_compile pattern of None \<Rightarrow> Inl (SyntaxError ''Invalid regular expression'') | Some r \<Rightarrow> Inr (rx_match r path))"

fun find_override :: "string \<Rightarrow> endpoint_override list \<Rightarrow> endpoint_override option result" where
  "find_override path [] = Inr None"
| "find_override path (eo # os) =
     rbind (pathMatchesPattern path (eo_endpointPattern eo)) (\<lambda>m. if m then Inr (Some eo) else find_override path os)"

definition getEffectiveLimits :: "rate_limit_tier \<Rightarrow> string option \<Rightarrow> rate_limiter \<Rightarrow> quota result" where
  "getEffectiveLimits tier endpoint st =
     rbind (case endpoint of None \<Rightarrow> Inr None | Some p \<Rightarrow> if p = [] then Inr None else find_override p (rl_endpointOverrides st)) (\<lambda>ov.
       case ov of
         Some eo \<Rightarrow> Inr (eo_quota eo)
       | None \<Rightarrow> (case map_of (rl_tierQuotas st) tier of
           Some q \<Rightarrow> Inr q
         | None \<Rightarrow> Inr \<lparr>qt_maxRequests = DEFAULT_TIER_QUOTAS tier, qt_windowSizeSeconds = DEFAULT_WINDOW_SIZE_SECS\<rparr>))"

section \<open>Checks\<close>

record rate_limit_result =
  rr_allowed :: bool
  rr_limit :: "int option"
  rr_remaining :: "int option"
  rr_resetSeconds :: int
  rr_retryAfterSeconds :: int

definition ceil_div :: "int \<Rightarrow> int \<Rightarrow> int" where
  "ceil_div a b = - ((- a) div b)"

definition limit_result :: "int \<Rightarrow> int \<Rightarrow> int \<Rightarrow> rate_limit_result" where
  "limit_result currentCount maxRequests resetSeconds =
     \<lparr>rr_allowed = (currentCount \<le> maxRequests), rr_limit = Some maxRequests, rr_remaining = Some (max 0 (maxRequests - currentCount)),
      rr_resetSeconds = max 0 resetSeconds, rr_retryAfterSeconds = (if currentCount \<le> maxRequests then 0 else resetSeconds)\<rparr>"

text \<open>
  The member is the time with six characters of a random number, which are the argument \<open>rnd\<close>. The commands of the
  pipeline are one step here; the code sends them together, but Redis may run commands of other clients in between.
\<close>

definition slidingWindowCheck :: "string \<Rightarrow> int \<Rightarrow> string \<Rightarrow> int \<Rightarrow> int \<Rightarrow> redis \<Rightarrow> rate_limit_result \<times> redis" where
  "slidingWindowCheck k tm rnd windowMs maxRequests r =
     (let r1 = zremrangebyscore tm k (tm - windowMs) r;
          r2 = zadd tm k tm (int_to_string tm @ '':'' @ rnd) r1;
          r3 = expire tm k (ceil_div windowMs 1000 + 1) r2;
          reset = (case oldest_score k r3 of Some x \<Rightarrow> ceil_div (x + windowMs - tm) 1000 | None \<Rightarrow> ceil_div windowMs 1000)
      in (limit_result (zcard k r3) maxRequests reset, r3))"

definition fixedWindowCheck :: "string \<Rightarrow> int \<Rightarrow> int \<Rightarrow> int \<Rightarrow> redis \<Rightarrow> rate_limit_result \<times> redis" where
  "fixedWindowCheck k tm windowMs maxRequests r =
     (let windowStart = (tm div windowMs) * windowMs;
          windowKey = k @ '':'' @ int_to_string windowStart
      in case incr tm windowKey r of (n, r1) \<Rightarrow>
        (limit_result n maxRequests (ceil_div (windowStart + windowMs - tm) 1000),
         expire tm windowKey (ceil_div windowMs 1000 + 1) r1))"

definition redis_key :: "string \<Rightarrow> rate_limit_tier \<Rightarrow> string option \<Rightarrow> string" where
  "redis_key key tier endpoint = ''rl:'' @ key @ '':'' @ tier_str tier @ '':'' @ case_option ''global'' id endpoint"

definition check :: "int \<Rightarrow> string \<Rightarrow> string \<Rightarrow> rate_limit_tier \<Rightarrow> string option \<Rightarrow> rate_limiter \<Rightarrow> (rate_limit_result \<times> rate_limiter) result" where
  "check tm rnd key tier endpoint st = rbind (getEffectiveLimits tier endpoint st) (\<lambda>q.
     case qt_maxRequests q of
       None \<Rightarrow> Inr (\<lparr>rr_allowed = True, rr_limit = None, rr_remaining = None, rr_resetSeconds = 0, rr_retryAfterSeconds = 0\<rparr>, st)
     | Some maxRequests \<Rightarrow>
        let k = redis_key key tier endpoint; windowMs = qt_windowSizeSeconds q * 1000;
            res = (case rl_strategy st of
                SLIDING_WINDOW \<Rightarrow> slidingWindowCheck k tm rnd windowMs maxRequests (rl_redis st)
              | FIXED_WINDOW \<Rightarrow> fixedWindowCheck k tm windowMs maxRequests (rl_redis st))
        in Inr (fst res, st\<lparr>rl_redis := snd res\<rparr>))"

record usage =
  us_used :: int
  us_limit :: "int option"
  us_remaining :: "int option"
  us_resetSeconds :: int

definition getUsage :: "int \<Rightarrow> string \<Rightarrow> rate_limit_tier \<Rightarrow> string option \<Rightarrow> rate_limiter \<Rightarrow> (usage \<times> rate_limiter) result" where
  "getUsage tm key tier endpoint st = rbind (getEffectiveLimits tier endpoint st) (\<lambda>q.
     case qt_maxRequests q of
       None \<Rightarrow> Inr (\<lparr>us_used = 0, us_limit = None, us_remaining = None, us_resetSeconds = 0\<rparr>, st)
     | Some maxRequests \<Rightarrow>
        let k = redis_key key tier endpoint;
            r = zremrangebyscore tm k (tm - qt_windowSizeSeconds q * 1000) (rl_redis st); n = zcard k r
        in Inr (\<lparr>us_used = n, us_limit = Some maxRequests, us_remaining = Some (max 0 (maxRequests - n)),
                 us_resetSeconds = qt_windowSizeSeconds q\<rparr>, st\<lparr>rl_redis := r\<rparr>))"

definition clearKey :: "string \<Rightarrow> rate_limit_tier \<Rightarrow> string option \<Rightarrow> rate_limiter \<Rightarrow> rate_limiter" where
  "clearKey key tier endpoint st = st\<lparr>rl_redis := rd_del (redis_key key tier endpoint) (rl_redis st)\<rparr>"

section \<open>Guard\<close>

record guard_request =
  rq_userId :: "string option"
  rq_apiKeyId :: "string option"
  rq_userTier :: "rate_limit_tier option"
  rq_xApiKey :: "string option"
  rq_ip :: "string option"
  rq_remoteAddress :: "string option"
  rq_path :: string

definition nonempty :: "string option \<Rightarrow> string option" where
  "nonempty s = (case s of Some t \<Rightarrow> if t = [] then None else s | None \<Rightarrow> None)"

definition hashApiKey :: "(string \<Rightarrow> string) \<Rightarrow> string \<Rightarrow> string" where
  "hashApiKey sha256 rawKey = take 32 (sha256 rawKey)"

definition extractKey :: "(string \<Rightarrow> string) \<Rightarrow> guard_request \<Rightarrow> string" where
  "extractKey sha256 rq = (case nonempty (rq_userId rq) of Some i \<Rightarrow> ''user:'' @ i
     | None \<Rightarrow> (case nonempty (rq_apiKeyId rq) of Some i \<Rightarrow> ''apikey:'' @ i
       | None \<Rightarrow> (case nonempty (rq_xApiKey rq) of Some k \<Rightarrow> ''apikey:'' @ hashApiKey sha256 k
         | None \<Rightarrow> ''ip:'' @ (case nonempty (rq_ip rq) of Some a \<Rightarrow> a
             | None \<Rightarrow> (case nonempty (rq_remoteAddress rq) of Some a \<Rightarrow> a | None \<Rightarrow> ''unknown'')))))"

definition determineTier :: "guard_request \<Rightarrow> rate_limit_tier" where
  "determineTier rq = case_option FREE id (rq_userTier rq)"

definition effective_result :: "int option \<Rightarrow> rate_limit_result \<Rightarrow> rate_limit_result" where
  "effective_result override res = (case (override, rr_limit res, rr_remaining res) of
       (Some m, Some limit, Some remaining) \<Rightarrow>
         let left = max 0 (m - (limit - remaining)) in
         res\<lparr>rr_limit := Some m, rr_remaining := Some left, rr_allowed := (0 < left),
             rr_retryAfterSeconds := (if 0 < left then 0 else rr_retryAfterSeconds res)\<rparr>
     | _ \<Rightarrow> res)"

definition limit_headers :: "rate_limit_result \<Rightarrow> (string \<times> string) list" where
  "limit_headers res = (case (rr_limit res, rr_remaining res) of
       (Some l, Some n) \<Rightarrow> [(''X-RateLimit-Limit'', int_to_string l), (''X-RateLimit-Remaining'', int_to_string n),
          (''X-RateLimit-Reset'', int_to_string (rr_resetSeconds res)),
          (''X-RateLimit-Policy'', int_to_string l @ '';w='' @ int_to_string (rr_resetSeconds res))]
     | _ \<Rightarrow> [])"

record guard_outcome =
  go_result :: "unit result"
  go_headers :: "(string \<times> string) list"
  go_state :: rate_limiter

definition canActivate ::
    "(string \<Rightarrow> string) \<Rightarrow> int \<Rightarrow> string \<Rightarrow> bool \<Rightarrow> int option \<Rightarrow> guard_request \<Rightarrow> rate_limiter \<Rightarrow> guard_outcome" where
  "canActivate sha256 tm rnd bypass override rq st =
     (if bypass then \<lparr>go_result = Inr (), go_headers = [], go_state = st\<rparr>
      else case check tm rnd (extractKey sha256 rq) (determineTier rq) (Some (rq_path rq)) st of
        Inl err \<Rightarrow> \<lparr>go_result = Inl err, go_headers = [], go_state = st\<rparr>
      | Inr (res0, st') \<Rightarrow>
        let res = effective_result override res0 in
        if rr_allowed res then \<lparr>go_result = Inr (), go_headers = limit_headers res, go_state = st'\<rparr>
        else \<lparr>go_result = Inl (TooManyRequests ''Rate limit exceeded. Please try again later.''),
              go_headers = limit_headers res @ [(''Retry-After'', int_to_string (rr_retryAfterSeconds res))], go_state = st'\<rparr>)"

section \<open>Admin endpoints\<close>

definition resolveKey :: "string option \<Rightarrow> string \<Rightarrow> string \<Rightarrow> bool \<Rightarrow> string" where
  "resolveKey key userId role allowAll = (if role = ''admin'' \<and> allowAll then case_option (''user:'' @ userId) id key else ''user:'' @ userId)"

definition usage_endpoint :: "int \<Rightarrow> rate_limit_tier \<Rightarrow> string \<Rightarrow> string \<Rightarrow> string option \<Rightarrow> string option \<Rightarrow> rate_limiter \<Rightarrow> (usage \<times> rate_limiter) result" where
  "usage_endpoint tm tier userId role key endpoint st = getUsage tm (resolveKey key userId role False) tier endpoint st"

definition clear_endpoint :: "rate_limit_tier \<Rightarrow> string \<Rightarrow> string \<Rightarrow> string option \<Rightarrow> string option \<Rightarrow> string option \<Rightarrow> rate_limiter \<Rightarrow> string \<times> rate_limiter" where
  "clear_endpoint tier userId role key endpoint all st =
     (let k = resolveKey key userId role (all = Some ''true'')
      in (''Cleared rate limit for '' @ k, clearKey k tier endpoint st))"

end
