(* ===== verification/RateLimit_Props.thy ===== *)
theory RateLimit_Props
  imports RateLimit
begin

text \<open>
  What the limiter promises and what the guard makes of it: the sliding window counts exactly, over every
  run of checks by any clients (\<open>rl_after\<close>); the guard lets clients choose their counter; and a decorator
  or a pattern can switch the limit off.
\<close>

section \<open>Runs\<close>

record rl_request =
  q_tm :: int
  q_rnd :: string
  q_key :: string
  q_tier :: rate_limit_tier
  q_endpoint :: "string option"

definition q_redisKey :: "rl_request \<Rightarrow> string" where
  "q_redisKey q = redis_key (q_key q) (q_tier q) (q_endpoint q)"

definition q_member :: "rl_request \<Rightarrow> string" where
  "q_member q = int_to_string (q_tm q) @ '':'' @ q_rnd q"

definition q_check :: "rl_request \<Rightarrow> rate_limiter \<Rightarrow> (rate_limit_result \<times> rate_limiter) result" where
  "q_check q st = check (q_tm q) (q_rnd q) (q_key q) (q_tier q) (q_endpoint q) st"

definition q_after :: "rl_request \<Rightarrow> rate_limiter \<Rightarrow> rate_limiter" where
  "q_after q st = (case q_check q st of Inl _ \<Rightarrow> st | Inr (_, st') \<Rightarrow> st')"

definition rl_after :: "rl_request list \<Rightarrow> rate_limiter \<Rightarrow> rate_limiter" where
  "rl_after qs st = foldl (\<lambda>st q. q_after q st) st qs"

lemma rl_after_simps [simp]: "rl_after [] st = st" "rl_after (qs @ [q]) st = q_after q (rl_after qs st)"
  by (simp_all add: rl_after_def)

lemma getEffectiveLimits_redis [simp]: "getEffectiveLimits t e (st\<lparr>rl_redis := r\<rparr>) = getEffectiveLimits t e st"
  by (simp add: getEffectiveLimits_def cong: option.case_cong if_cong)

text \<open>A check changes the Redis store only.\<close>

lemma q_after_redis: "\<exists>r. q_after q st = st\<lparr>rl_redis := r\<rparr>"
proof (cases "getEffectiveLimits (q_tier q) (q_endpoint q) st")
  case (Inl e)
  then have "q_after q st = st\<lparr>rl_redis := rl_redis st\<rparr>" by (simp add: q_after_def q_check_def check_def)
  then show ?thesis by blast
next
  case (Inr l)
  show ?thesis
  proof (cases "qt_maxRequests l")
    case None
    then have "q_after q st = st\<lparr>rl_redis := rl_redis st\<rparr>" using Inr by (simp add: q_after_def q_check_def check_def)
    then show ?thesis by blast
  qed (use Inr in \<open>simp add: q_after_def q_check_def check_def Let_def, blast\<close>)
qed

lemma rl_after_redis: "\<exists>r. rl_after qs st = st\<lparr>rl_redis := r\<rparr>"
proof (induction qs rule: rev_induct)
  case Nil
  have "st = st\<lparr>rl_redis := rl_redis st\<rparr>" by simp
  then show ?case by (metis rl_after_simps(1))
next
  case (snoc q qs)
  then obtain r where "rl_after qs st = st\<lparr>rl_redis := r\<rparr>" by blast
  moreover obtain r' where "q_after q (st\<lparr>rl_redis := r\<rparr>) = (st\<lparr>rl_redis := r\<rparr>)\<lparr>rl_redis := r'\<rparr>" using q_after_redis by blast
  ultimately show ?case by auto
qed

lemma rl_after_limits [simp]:
  "getEffectiveLimits t e (rl_after qs st) = getEffectiveLimits t e st" "rl_strategy (rl_after qs st) = rl_strategy st"
  using rl_after_redis [of qs st] by auto

section \<open>The sliding window\<close>

definition recent :: "int \<Rightarrow> int \<Rightarrow> string \<times> int \<Rightarrow> bool" where
  "recent w t x \<longleftrightarrow> t - w < snd x"

definition live_set :: "int \<Rightarrow> string \<Rightarrow> redis \<Rightarrow> (string \<times> int) list" where
  "live_set t k r = (if rd_live t k r then rd_zset r k else [])"

lemma ceil_div_seconds [simp]: "ceil_div (s * 1000) 1000 = s"
  by (simp add: ceil_div_def flip: mult_minus_left)

lemma sliding_set:
  fixes k t rnd w mx r
  defines "r' \<equiv> snd (slidingWindowCheck k t rnd w mx r)" and "m \<equiv> int_to_string t @ '':'' @ rnd"
  assumes "m \<notin> fst ` set (filter (recent w t) (live_set t k r))" and "w = s * 1000"
  shows "rd_zset r' k = filter (recent w t) (live_set t k r) @ [(m, t)]" and "rd_expiry r' k = Some (t + (s + 1) * 1000)"
proof -
  let ?r1 = "zremrangebyscore t k (t - w) r"
  have rec: "(\<lambda>(m, s). t - w < s) = recent w t" by (auto simp: recent_def fun_eq_iff)
  have z1: "rd_zset ?r1 k = filter (recent w t) (live_set t k r)"
    by (simp add: zremrangebyscore_def rd_purge_def live_set_def rec Let_def)
  have l1: "rd_live t k ?r1" by (simp add: zremrangebyscore_def rd_purge_def rd_live_def Let_def split: option.splits)
  have "rd_zset (zadd t k t m ?r1) k = filter (recent w t) (live_set t k r) @ [(m, t)]"
    using assms(3) l1 z1 by (simp add: zadd_def rd_purge_def map_set_new Let_def)
  then show "rd_zset r' k = filter (recent w t) (live_set t k r) @ [(m, t)]"
    by (simp add: r'_def m_def slidingWindowCheck_def expire_def Let_def)
  show "rd_expiry r' k = Some (t + (s + 1) * 1000)" by (simp add: r'_def slidingWindowCheck_def expire_def assms(4) Let_def)
qed

lemma sliding_result:
  "\<exists>reset. fst (slidingWindowCheck k t rnd w mx r) = limit_result (int (length (rd_zset (snd (slidingWindowCheck k t rnd w mx r)) k))) mx reset"
  by (auto simp: slidingWindowCheck_def zcard_def Let_def)

lemma sliding_other:
  assumes "k' \<noteq> k"
  shows "rd_zset (snd (slidingWindowCheck k t rnd w mx r)) k' = rd_zset r k'"
    and "rd_expiry (snd (slidingWindowCheck k t rnd w mx r)) k' = rd_expiry r k'"
  using assms by (simp_all add: slidingWindowCheck_def zremrangebyscore_def zadd_def expire_def rd_purge_def Let_def)

text \<open>What the sorted set of a key holds: at any later time, its recent entries are the recent requests.\<close>

definition window_log :: "string \<Rightarrow> int \<Rightarrow> rl_request list \<Rightarrow> redis \<Rightarrow> bool" where
  "window_log k w qs r \<longleftrightarrow> (\<forall>t. (\<forall>q \<in> set qs. q_tm q \<le> t) \<longrightarrow>
     filter (recent w t) (live_set t k r) = filter (recent w t) (map (\<lambda>q. (q_member q, q_tm q)) (filter (\<lambda>q. q_redisKey q = k) qs)))"

lemma filter_recent_mono: "t \<le> t' \<Longrightarrow> filter (recent w t') (filter (recent w t) xs) = filter (recent w t') xs"
  by (induction xs) (auto simp: recent_def)

lemma window_log_same:
  fixes q k w mx r
  defines "res \<equiv> slidingWindowCheck k (q_tm q) (q_rnd q) w mx r"
  assumes log: "window_log k w qs r" and k: "q_redisKey q = k" and w: "w = s * 1000" "0 < s"
    and ord: "\<forall>p \<in> set qs. q_tm p \<le> q_tm q"
    and new: "q_member q \<notin> q_member ` set (filter (\<lambda>p. q_redisKey p = k) qs)"
  shows "window_log k w (qs @ [q]) (snd res)"
    and "\<exists>reset. fst res = limit_result (int (length (filter (\<lambda>p. q_redisKey p = k \<and> q_tm q - w < q_tm p) (qs @ [q])))) mx reset"
proof -
  let ?t = "q_tm q" and ?E = "\<lambda>qs. map (\<lambda>q. (q_member q, q_tm q)) (filter (\<lambda>q. q_redisKey q = k) qs)"
  have E: "filter (recent w ?t) (live_set ?t k r) = filter (recent w ?t) (?E qs)" using log ord by (simp add: window_log_def)
  have "q_member q \<notin> fst ` set (filter (recent w ?t) (live_set ?t k r))" unfolding E using new by auto
  note set = sliding_set [OF this [unfolded q_member_def] w(1), where mx = mx, folded res_def q_member_def]
  have z: "rd_zset (snd res) k = filter (recent w ?t) (?E (qs @ [q]))"
    using set(1) E k w by (simp add: recent_def)
  have "length (filter (recent w ?t) (?E qs')) = length (filter (\<lambda>p. q_redisKey p = k \<and> q_tm q - w < q_tm p) qs')" for qs'
    by (induction qs') (auto simp: recent_def)
  then show "\<exists>reset. fst res = limit_result (int (length (filter (\<lambda>p. q_redisKey p = k \<and> q_tm q - w < q_tm p) (qs @ [q])))) mx reset"
    using sliding_result [of k ?t "q_rnd q" w mx r] z by (simp only: res_def)
  show "window_log k w (qs @ [q]) (snd res)"
    unfolding window_log_def
  proof (intro allI impI)
    fix t assume later: "\<forall>p \<in> set (qs @ [q]). q_tm p \<le> t"
    show "filter (recent w t) (live_set t k (snd res)) = filter (recent w t) (?E (qs @ [q]))"
    proof (cases "rd_live t k (snd res)")
      case True
      then show ?thesis using z filter_recent_mono [of ?t t w "?E (qs @ [q])"] later by (simp add: live_set_def)
    next
      case False
      then have "?t + w < t" using set(2) w(1) by (simp add: rd_live_def)
      then have "\<forall>x \<in> set (?E (qs @ [q])). \<not> recent w t x" using ord by (auto simp: recent_def)
      then show ?thesis using False by (simp add: live_set_def filter_empty_conv)
    qed
  qed
qed

lemma window_log_other:
  assumes "window_log k w qs r" and "q_redisKey q \<noteq> k"
  shows "window_log k w (qs @ [q]) (snd (slidingWindowCheck (q_redisKey q) t rnd w' mx r))"
proof -
  have "live_set t' k (snd (slidingWindowCheck (q_redisKey q) t rnd w' mx r)) = live_set t' k r" for t'
    using assms(2) sliding_other [of k "q_redisKey q" t rnd w' mx r] by (simp add: live_set_def rd_live_def)
  then show ?thesis using assms by (simp add: window_log_def)
qed

lemma window_log_idle: "window_log k w qs r \<Longrightarrow> q_redisKey q \<noteq> k \<Longrightarrow> window_log k w (qs @ [q]) r"
  by (simp add: window_log_def)

lemma q_check_sliding:
  assumes "rl_strategy st = SLIDING_WINDOW" and "getEffectiveLimits (q_tier q) (q_endpoint q) st = Inr l" and "qt_maxRequests l = Some mx"
  defines "res \<equiv> slidingWindowCheck (q_redisKey q) (q_tm q) (q_rnd q) (qt_windowSizeSeconds l * 1000) mx (rl_redis st)"
  shows "q_check q st = Inr (fst res, st\<lparr>rl_redis := snd res\<rparr>)"
  using assms by (simp add: q_check_def check_def q_redisKey_def Let_def)

lemma window_log_run:
  assumes "rl_strategy st = SLIDING_WINDOW" and lim: "getEffectiveLimits tier ep st = Inr l" "qt_maxRequests l = Some mx" "0 < qt_windowSizeSeconds l"
    and fresh: "rd_zset (rl_redis st) k = []"
    and same: "\<forall>p \<in> set qs. q_redisKey p = k \<longrightarrow> q_tier p = tier \<and> q_endpoint p = ep"
    and ord: "sorted (map q_tm qs)" and dist: "distinct (map q_member (filter (\<lambda>p. q_redisKey p = k) qs))"
  shows "window_log k (qt_windowSizeSeconds l * 1000) qs (rl_redis (rl_after qs st))"
  using same ord dist
proof (induction qs rule: rev_induct)
  case Nil
  show ?case using fresh by (simp add: window_log_def live_set_def)
next
  case (snoc q qs)
  let ?st = "rl_after qs st" and ?w = "qt_windowSizeSeconds l * 1000"
  have log: "window_log k ?w qs (rl_redis ?st)" using snoc by (auto simp: sorted_append)
  show ?case
  proof (cases "q_redisKey q = k")
    case True
    then have "getEffectiveLimits (q_tier q) (q_endpoint q) ?st = Inr l" using snoc.prems(1) lim(1) by simp
    note c = q_check_sliding [OF _ this lim(2)]
    have "window_log k ?w (qs @ [q]) (snd (slidingWindowCheck k (q_tm q) (q_rnd q) ?w mx (rl_redis ?st)))"
      using window_log_same(1) [OF log True refl lim(3)] snoc.prems(2,3) True by (auto simp: sorted_append)
    then show ?thesis using c True assms(1) by (simp add: q_after_def)
  next
    case False
    show ?thesis
    proof (cases "getEffectiveLimits (q_tier q) (q_endpoint q) ?st")
      case (Inl e)
      then show ?thesis using window_log_idle [OF log False] by (simp add: q_after_def q_check_def check_def)
    next
      case (Inr l')
      show ?thesis
      proof (cases "qt_maxRequests l'")
        case None
        then show ?thesis using window_log_idle [OF log False] Inr by (simp add: q_after_def q_check_def check_def)
      next
        case (Some mx')
        then show ?thesis using window_log_other [OF log False] q_check_sliding [OF _ Inr Some] assms(1) by (simp add: q_after_def)
      qed
    qed
  qed
qed

definition in_window :: "int \<Rightarrow> rl_request \<Rightarrow> rl_request list \<Rightarrow> int" where
  "in_window seconds q qs = int (length (filter (\<lambda>p. q_redisKey p = q_redisKey q \<and> q_tm q - seconds * 1000 < q_tm p) qs))"

lemma sliding_exact:
  assumes "rl_strategy st = SLIDING_WINDOW"
    and "getEffectiveLimits (q_tier q) (q_endpoint q) st = Inr l" and "qt_maxRequests l = Some mx" and "0 < qt_windowSizeSeconds l"
    and "rd_zset (rl_redis st) (q_redisKey q) = []"
    and "\<forall>p \<in> set qs. q_redisKey p = q_redisKey q \<longrightarrow> q_tier p = q_tier q \<and> q_endpoint p = q_endpoint q"
    and "sorted (map q_tm (qs @ [q]))" and "distinct (map q_member (filter (\<lambda>p. q_redisKey p = q_redisKey q) (qs @ [q])))"
  shows "\<exists>res st'. q_check q (rl_after qs st) = Inr (res, st') \<and>
    (rr_allowed res \<longleftrightarrow> in_window (qt_windowSizeSeconds l) q (qs @ [q]) \<le> mx) \<and>
    rr_remaining res = Some (max 0 (mx - in_window (qt_windowSizeSeconds l) q (qs @ [q])))"
proof -
  let ?st = "rl_after qs st"
  have log: "window_log (q_redisKey q) (qt_windowSizeSeconds l * 1000) qs (rl_redis ?st)"
    using window_log_run [OF assms(1-6)] assms(7,8) by (simp add: sorted_append)
  have "getEffectiveLimits (q_tier q) (q_endpoint q) ?st = Inr l" using assms(2) by simp
  note c = q_check_sliding [OF _ this assms(3)]
  show ?thesis
    using c assms(1) window_log_same(2) [OF log refl refl assms(4), of mx] assms(7,8)
    by (auto simp: sorted_append in_window_def limit_result_def)
qed

text \<open>The same for a position of a longer run.\<close>

definition allowed_at :: "rate_limiter \<Rightarrow> rl_request list \<Rightarrow> nat \<Rightarrow> bool" where
  "allowed_at st qs i = (case q_check (qs ! i) (rl_after (take i qs) st) of Inl _ \<Rightarrow> False | Inr (res, _) \<Rightarrow> rr_allowed res)"

lemma allowed_at_count:
  assumes "rl_strategy st = SLIDING_WINDOW" and "getEffectiveLimits tier ep st = Inr l" and "qt_maxRequests l = Some mx"
    and "0 < qt_windowSizeSeconds l" and "rd_zset (rl_redis st) k = []"
    and same: "\<forall>p \<in> set qs. q_redisKey p = k \<longrightarrow> q_tier p = tier \<and> q_endpoint p = ep"
    and "sorted (map q_tm qs)" and "distinct (map q_member (filter (\<lambda>p. q_redisKey p = k) qs))"
    and i: "i < length qs" "q_redisKey (qs ! i) = k" "allowed_at st qs i"
  shows "in_window (qt_windowSizeSeconds l) (qs ! i) (take (Suc i) qs) \<le> mx"
proof -
  let ?q = "qs ! i"
  have t: "take i qs @ [?q] = take (Suc i) qs" using i(1) by (simp add: take_Suc_conv_app_nth)
  have q: "q_tier ?q = tier" "q_endpoint ?q = ep" using same i by simp_all
  have split: "map q_tm qs = map q_tm (take (Suc i) qs) @ map q_tm (drop (Suc i) qs)" by (metis append_take_drop_id map_append)
  have ord: "sorted (map q_tm (take (Suc i) qs))" using assms(7) unfolding split by (simp add: sorted_append)
  have "filter (\<lambda>p. q_redisKey p = k) qs = filter (\<lambda>p. q_redisKey p = k) (take (Suc i) qs) @ filter (\<lambda>p. q_redisKey p = k) (drop (Suc i) qs)"
    by (metis append_take_drop_id filter_append)
  then have dist: "distinct (map q_member (filter (\<lambda>p. q_redisKey p = k) (take (Suc i) qs)))" using assms(8) by simp
  have "\<forall>p \<in> set (take i qs). q_redisKey p = k \<longrightarrow> q_tier p = tier \<and> q_endpoint p = ep" using same by (auto dest: in_set_takeD)
  with sliding_exact [of st ?q l mx "take i qs"] obtain res st' where
    "q_check ?q (rl_after (take i qs) st) = Inr (res, st')" "rr_allowed res \<longleftrightarrow> in_window (qt_windowSizeSeconds l) ?q (take (Suc i) qs) \<le> mx"
    using assms(1-5) q i(2) ord dist unfolding t by auto
  then show ?thesis using i(3) by (simp add: allowed_at_def)
qed

text \<open>
  The sliding window is exact: after any sequence of checks, for any clients, tiers and paths, the answer to
  a request is computed from the number of requests with its key within the last window, this one
  included: it is allowed exactly when they are at most the quota, and the remaining quota is what they
  leave. Requests that were rejected count as well. (The random parts of the recorded members differ for requests
  of one key in the same millisecond.)
\<close>

theorem sliding_window_exact:
  assumes "rl_strategy st = SLIDING_WINDOW"
    and "getEffectiveLimits (q_tier q) (q_endpoint q) st = Inr l" and "qt_maxRequests l = Some mx" and "0 < qt_windowSizeSeconds l"
    and "rd_zset (rl_redis st) (q_redisKey q) = []"
    and "\<forall>p \<in> set qs. q_redisKey p = q_redisKey q \<longrightarrow> q_tier p = q_tier q \<and> q_endpoint p = q_endpoint q"
    and "sorted (map q_tm (qs @ [q]))" and "distinct (map q_member (filter (\<lambda>p. q_redisKey p = q_redisKey q) (qs @ [q])))"
  shows "\<exists>res st'. q_check q (rl_after qs st) = Inr (res, st') \<and>
    (rr_allowed res \<longleftrightarrow> in_window (qt_windowSizeSeconds l) q (qs @ [q]) \<le> mx) \<and>
    rr_remaining res = Some (max 0 (mx - in_window (qt_windowSizeSeconds l) q (qs @ [q])))"
  using sliding_exact [OF assms] .

text \<open>
  C18. The sliding-window strategy, in a run of checks with an unchanged configuration: when a key is empty at the start
  and always checked with the same tier and endpoint, the clock does not go back, the random members of the key are
  distinct, and no two checks mix their commands on Redis, then no interval of the length of the window contains more
  allowed requests with the key than the quota.
\<close>

theorem sliding_window_bound:
  assumes "rl_strategy st = SLIDING_WINDOW" and "getEffectiveLimits tier ep st = Inr l" and "qt_maxRequests l = Some mx" and "0 \<le> mx"
    and "0 < qt_windowSizeSeconds l" and "rd_zset (rl_redis st) k = []"
    and "\<forall>p \<in> set qs. q_redisKey p = k \<longrightarrow> q_tier p = tier \<and> q_endpoint p = ep"
    and "sorted (map q_tm qs)" and "distinct (map q_member (filter (\<lambda>p. q_redisKey p = k) qs))"
  shows "int (card {i. i < length qs \<and> q_redisKey (qs ! i) = k \<and> T - qt_windowSizeSeconds l * 1000 < q_tm (qs ! i) \<and> q_tm (qs ! i) \<le> T \<and>
     allowed_at st qs i}) \<le> mx"
proof (cases "{i. i < length qs \<and> q_redisKey (qs ! i) = k \<and> T - qt_windowSizeSeconds l * 1000 < q_tm (qs ! i) \<and> q_tm (qs ! i) \<le> T \<and>
     allowed_at st qs i} = {}")
  case True
  show ?thesis unfolding True using assms(4) by simp
next
  case False
  let ?S = "{i. i < length qs \<and> q_redisKey (qs ! i) = k \<and> T - qt_windowSizeSeconds l * 1000 < q_tm (qs ! i) \<and> q_tm (qs ! i) \<le> T \<and>
     allowed_at st qs i}"
  have fin: "finite ?S" by simp
  define m where "m = Max ?S"
  have m: "m \<in> ?S" unfolding m_def using fin False by (rule Max_in)
  let ?P = "\<lambda>p. q_redisKey p = k \<and> q_tm (qs ! m) - qt_windowSizeSeconds l * 1000 < q_tm p"
  let ?B = "{i. i < length (take (Suc m) qs) \<and> ?P (take (Suc m) qs ! i)}"
  have "?S \<subseteq> ?B"
  proof
    fix i assume i: "i \<in> ?S"
    then have "i \<le> m" unfolding m_def using fin by (simp add: Max_ge)
    then show "i \<in> ?B" using i m by auto
  qed
  then have "card ?S \<le> card ?B" by (intro card_mono) simp_all
  also have "card ?B = length (filter ?P (take (Suc m) qs))" by (simp add: length_filter_conv_card)
  also have "int \<dots> \<le> mx" using allowed_at_count [OF assms(1-3,5-9), of m] m by (simp add: in_window_def)
  finally show ?thesis by simp
qed

section \<open>The guard\<close>

fun guard_run :: "(string \<Rightarrow> string) \<Rightarrow> (int \<times> string \<times> guard_request) list \<Rightarrow> rate_limiter \<Rightarrow> unit result list" where
  "guard_run sha [] st = []"
| "guard_run sha ((tm, rnd, rq) # evs) st =
     (let out = canActivate sha tm rnd False None rq st in go_result out # guard_run sha evs (go_state out))"

definition anonymous :: "string \<Rightarrow> guard_request \<Rightarrow> bool" where
  "anonymous path rq \<longleftrightarrow> rq_userId rq = None \<and> rq_apiKeyId rq = None \<and> rq_userTier rq = None \<and> rq_path rq = path \<and> nonempty (rq_xApiKey rq) \<noteq> None"

definition fingerprint :: "(string \<Rightarrow> string) \<Rightarrow> guard_request \<Rightarrow> string" where
  "fingerprint sha rq = hashApiKey sha (the (rq_xApiKey rq))"

lemma anonymous_key: "anonymous path rq \<Longrightarrow> extractKey sha rq = ''apikey:'' @ fingerprint sha rq \<and> determineTier rq = FREE"
  by (auto simp: anonymous_def extractKey_def nonempty_def fingerprint_def determineTier_def split: option.splits if_splits)

lemma redis_key_inj: "redis_key a t e = redis_key b t e \<longleftrightarrow> a = b"
  by (simp add: redis_key_def)

lemma first_request_allowed:
  assumes "rd_zset r k = []" and "1 \<le> mx"
  shows "rr_allowed (fst (slidingWindowCheck k t rnd (s * 1000) mx r))"
proof -
  have l: "live_set t k r = []" using assms(1) by (simp add: live_set_def)
  have "rd_zset (snd (slidingWindowCheck k t rnd (s * 1000) mx r)) k = [(int_to_string t @ '':'' @ rnd, t)]"
    using sliding_set(1) [of t rnd "s * 1000" k r s mx] l by simp
  then show ?thesis using sliding_result [of k t rnd "s * 1000" mx r] assms(2) by (auto simp: limit_result_def)
qed

text \<open>
  The limit for anonymous clients can be evaded: the header with an API key is not verified before the
  guard, and its fingerprint names the counter. A client who sends a different key with each request is
  allowed every time, in any number, whatever the quota, from one address and without credentials.
\<close>

theorem key_rotation_evades_limit:
  assumes "rl_strategy st = SLIDING_WINDOW" and "getEffectiveLimits FREE (Some path) st = Inr l" and "qt_maxRequests l = Some mx" and "1 \<le> mx"
    and "\<forall>ev \<in> set evs. anonymous path (snd (snd ev))"
    and "distinct (map (\<lambda>ev. fingerprint sha (snd (snd ev))) evs)"
    and "\<forall>ev \<in> set evs. rd_zset (rl_redis st) (redis_key (''apikey:'' @ fingerprint sha (snd (snd ev))) FREE (Some path)) = []"
  shows "guard_run sha evs st = replicate (length evs) (Inr ())"
  using assms(1,2,5-7)
proof (induction evs arbitrary: st)
  case Nil
  show ?case by simp
next
  case (Cons ev evs)
  obtain tm rnd rq where ev: "ev = (tm, rnd, rq)" by (metis surj_pair)
  have anon: "anonymous path rq" using Cons.prems(3) ev by simp
  let ?k = "redis_key (''apikey:'' @ fingerprint sha rq) FREE (Some path)"
  let ?res = "slidingWindowCheck ?k tm rnd (qt_windowSizeSeconds l * 1000) mx (rl_redis st)"
  let ?st = "st\<lparr>rl_redis := snd ?res\<rparr>"
  have "rr_allowed (fst ?res)" using first_request_allowed [of "rl_redis st" ?k mx] Cons.prems(5) ev assms(4) by simp
  moreover have "check tm rnd (extractKey sha rq) (determineTier rq) (Some (rq_path rq)) st = Inr (fst ?res, ?st)"
    using anonymous_key [OF anon, of sha] anon Cons.prems(1,2) assms(3) by (simp add: check_def anonymous_def Let_def)
  ultimately have out: "canActivate sha tm rnd False None rq st = \<lparr>go_result = Inr (), go_headers = limit_headers (fst ?res), go_state = ?st\<rparr>"
    by (simp add: canActivate_def effective_result_def Let_def)
  have empty: "rd_zset (rl_redis ?st) (redis_key (''apikey:'' @ fingerprint sha (snd (snd e))) FREE (Some path)) = []" if "e \<in> set evs" for e
  proof -
    have "fingerprint sha rq \<noteq> fingerprint sha (snd (snd e))" using Cons.prems(4) that ev by force
    then have "redis_key (''apikey:'' @ fingerprint sha (snd (snd e))) FREE (Some path) \<noteq> ?k" by (simp add: redis_key_inj)
    from sliding_other(1) [OF this] show ?thesis using Cons.prems(5) that by simp
  qed
  have "guard_run sha evs ?st = replicate (length evs) (Inr ())"
    using Cons.IH [of ?st] Cons.prems empty by simp
  then show ?case by (simp add: ev out)
qed

text \<open>
  The limit in a route's decorator: of a quota of \<open>m\<close> requests only \<open>m - 1\<close> are allowed, and when \<open>m\<close> is above the
  quota of the tier no request is rejected at all.
\<close>

theorem route_override_semantics:
  assumes "check tm rnd (extractKey sha rq) (determineTier rq) (Some (rq_path rq)) st = Inr (limit_result n limit reset, st')"
  shows "is_ok (go_result (canActivate sha tm rnd False (Some m) rq st)) \<longleftrightarrow> min limit n < m"
  using assms by (auto simp: canActivate_def effective_result_def limit_result_def Let_def min_def)

section \<open>Configuration\<close>

lemma rx_star_matches: "\<forall>c \<in> set s. \<not> line_end c \<Longrightarrow> rx_match [AnyStar] s"
  by (induction s) simp_all

lemma slash_star_matches: "\<forall>c \<in> set s. \<not> line_end c \<Longrightarrow> pathMatchesPattern (CHR ''/'' # s) ''/*'' = Inr True"
  by (simp add: pathMatchesPattern_def rx_star_matches)

text \<open>
  The pattern \<^verbatim>\<open>*\<close> is rejected because it would switch the limiter off; the pattern \<^verbatim>\<open>/*\<close> is accepted and does
  so: after it was stored with an unlimited quota for one tier, every request of every tier is allowed.
\<close>

theorem wildcard_disables_limiting:
  assumes "rl_configs st = []" and "up_endpointPattern p = Some ''/*''" and "up_unlimited p = Some True" and "up_enabled p = None"
  shows "\<exists>c st'. rl_upsertConfig p st = Inr (c, st') \<and>
    ((\<forall>x \<in> set path. \<not> line_end x) \<longrightarrow> is_ok (go_result (canActivate sha tm rnd False override (rq\<lparr>rq_path := CHR ''/'' # path\<rparr>) st')))"
proof -
  let ?c = "merged_config p UNLIMITED_SENTINEL None"
  let ?st = "loadConfigFromDb (st\<lparr>rl_configs := [?c]\<rparr>)"
  have up: "rl_upsertConfig p st = Inr (?c, ?st)" using assms by (simp add: rl_upsertConfig_def stored_quota_def getConfig_def Let_def)
  have q: "rl_endpointOverrides ?st = [\<lparr>eo_endpointPattern = ''/*'', eo_quota = config_quota ?c\<rparr>]" "qt_maxRequests (config_quota ?c) = None"
    using assms by (simp_all add: loadConfigFromDb_def config_override_def merged_config_def config_quota_def normaliseStoredMaxRequests_def)
  have "is_ok (go_result (canActivate sha tm rnd False override (rq\<lparr>rq_path := CHR ''/'' # path\<rparr>) ?st))" if "\<forall>x \<in> set path. \<not> line_end x"
    using slash_star_matches [OF that] q by (simp add: canActivate_def check_def getEffectiveLimits_def effective_result_def Let_def split: option.splits)
  with up show ?thesis by blast
qed

section \<open>Witnesses\<close>

definition demo_rl :: rate_limiter where
  "demo_rl = \<lparr>rl_configs = [], rl_tierQuotas = [], rl_endpointOverrides = [], rl_strategy = SLIDING_WINDOW,
     rl_redis = \<lparr>rd_zset = (\<lambda>_. []), rd_count = (\<lambda>_. 0), rd_expiry = (\<lambda>_. None)\<rparr>\<rparr>"

definition demo_q :: "int \<Rightarrow> rl_request" where
  "demo_q t = \<lparr>q_tm = t, q_rnd = ''x'', q_key = ''ip:1'', q_tier = FREE, q_endpoint = Some ''/a''\<rparr>"

definition demo_l :: quota where
  "demo_l = \<lparr>qt_maxRequests = Some 100, qt_windowSizeSeconds = 60\<rparr>"

lemma demo_limits: "getEffectiveLimits FREE (Some ''/a'') demo_rl = Inr demo_l" "rl_strategy demo_rl = SLIDING_WINDOW"
  "qt_maxRequests demo_l = Some 100" "qt_windowSizeSeconds demo_l = 60" "rd_zset (rl_redis demo_rl) k = []"
  by (simp_all add: getEffectiveLimits_def demo_rl_def demo_l_def DEFAULT_WINDOW_SIZE_SECS_def)

lemma demo_members: "distinct (map q_member [demo_q 0, demo_q 1])"
  by (simp add: q_member_def demo_q_def int_to_string_def nat_to_string_inj)

theorem sliding_window_exact_witness:
  "\<exists>res st'. q_check (demo_q 1) (rl_after [demo_q 0] demo_rl) = Inr (res, st') \<and> rr_allowed res \<and> rr_remaining res = Some 98"
  using sliding_window_exact [of demo_rl "demo_q 1" demo_l 100 "[demo_q 0]"] demo_limits demo_members
  by (simp add: demo_q_def in_window_def q_redisKey_def)

theorem sliding_window_bound_witness:
  "int (card {i. i < length [demo_q 0, demo_q 1] \<and> q_redisKey ([demo_q 0, demo_q 1] ! i) = q_redisKey (demo_q 0) \<and>
      1 - 60000 < q_tm ([demo_q 0, demo_q 1] ! i) \<and> q_tm ([demo_q 0, demo_q 1] ! i) \<le> 1 \<and> allowed_at demo_rl [demo_q 0, demo_q 1] i}) \<le> 100"
proof -
  have k: "q_redisKey (demo_q t) = q_redisKey (demo_q 0)" for t by (simp add: demo_q_def q_redisKey_def)
  have "\<forall>p \<in> set [demo_q 0, demo_q 1]. q_redisKey p = q_redisKey (demo_q 0) \<longrightarrow> q_tier p = FREE \<and> q_endpoint p = Some ''/a''"
    by (simp add: demo_q_def)
  moreover have "sorted (map q_tm [demo_q 0, demo_q 1])" by (simp add: demo_q_def)
  moreover have "distinct (map q_member (filter (\<lambda>p. q_redisKey p = q_redisKey (demo_q 0)) [demo_q 0, demo_q 1]))"
    using demo_members k [of 1] by simp
  ultimately show ?thesis
    using sliding_window_bound [of demo_rl FREE "Some ''/a''" demo_l 100 "q_redisKey (demo_q 0)" "[demo_q 0, demo_q 1]" 1] demo_limits
    by simp
qed

definition demo_rq :: "string \<Rightarrow> guard_request" where
  "demo_rq k = \<lparr>rq_userId = None, rq_apiKeyId = None, rq_userTier = None, rq_xApiKey = Some k, rq_ip = Some ''10.0.0.1'',
     rq_remoteAddress = None, rq_path = ''/a''\<rparr>"

theorem key_rotation_evades_limit_witness:
  "guard_run id [(0, ''x'', demo_rq ''k1''), (0, ''x'', demo_rq ''k2'')] demo_rl = [Inr (), Inr ()]"
  using key_rotation_evades_limit [of demo_rl "''/a''" demo_l 100 "[(0, ''x'', demo_rq ''k1''), (0, ''x'', demo_rq ''k2'')]" id] demo_limits
  by (simp add: anonymous_def demo_rq_def nonempty_def fingerprint_def hashApiKey_def numeral_2_eq_2)

end
