(* ===== verification/Risk.thy ===== *)
theory Risk
  imports JsNan JsDate
begin

text \<open>
  The module \<^verbatim>\<open>risk-management\<close>: the position monitor with its alerts, liquidation risk and cascades, stress
  tests, value at risk and the reports. Numbers of positions are finite. The functions whose precision the
  language leaves to its implementations (square root, logarithm, the square by \<^verbatim>\<open>**\<close>) are the fields of
  \<open>risk_math\<close>. The time of computation of a result is kept, the duration measurement is not.
\<close>

record risk_math =
  rm_sqrt :: "number \<Rightarrow> number"
  rm_log :: "number \<Rightarrow> number"
  rm_square :: "number \<Rightarrow> number"

definition dec :: "int \<Rightarrow> nat \<Rightarrow> number" where
  "dec n k = fl (of_int n / 10 ^ k)"

section \<open>Data\<close>

record position =
  po_id :: string
  po_asset :: string
  po_poolId :: "string option"
  po_quantity :: number
  po_entryPrice :: number
  po_currentPrice :: number
  po_liquidationThreshold :: "number option"
  po_leverage :: "number option"
  po_counterparty :: "string option"
  po_isLiquidityProvider :: bool

record liquidation_risk =
  lr_positionId :: string
  lr_currentPrice :: number
  lr_liquidationPrice :: number
  lr_distanceToLiquidation :: number
  lr_atRisk :: bool
  lr_cascadeDepth :: nat

record stress_scenario =
  sc_id :: string
  sc_priceShock :: number
  sc_liquidityShock :: "number option"
  sc_counterpartyShock :: "string option"

record stress_result =
  sr_scenarioId :: string
  sr_portfolioValueBefore :: number
  sr_portfolioValueAfter :: number
  sr_loss :: number
  sr_lossPercent :: number
  sr_marginCalls :: "string list"
  sr_breaches :: "string list"
  sr_computedAt :: int

datatype concentration_level = CONC_LOW | CONC_MEDIUM | CONC_HIGH

record concentration_risk =
  cr_level :: concentration_level
  cr_topAssetShare :: number
  cr_herfindahlIndex :: number
  cr_breaches :: "string list"

datatype risk_severity = SEVERITY_INFO | SEVERITY_WARNING | SEVERITY_CRITICAL

record risk_alert =
  rk_id :: string
  rk_severity :: risk_severity
  rk_type :: string
  rk_message :: string
  rk_positionId :: "string option"
  rk_metadata :: json
  rk_raisedAt :: int

record risk_thresholds =
  th_maxAssetShare :: "number option"
  th_maxCounterpartyShare :: "number option"
  th_maxPositionValue :: "number option"

record monitor =
  mo_positions :: "(string \<times> position) list"
  mo_alerts :: "risk_alert list"

section \<open>Position monitor\<close>

definition upsertPosition :: "position \<Rightarrow> monitor \<Rightarrow> monitor" where
  "upsertPosition p m = m\<lparr>mo_positions := map_set (po_id p) p (mo_positions m)\<rparr>"

definition removePosition :: "string \<Rightarrow> monitor \<Rightarrow> bool \<times> monitor" where
  "removePosition i m = (map_of (mo_positions m) i \<noteq> None, m\<lparr>mo_positions := map_delete i (mo_positions m)\<rparr>)"

definition getPosition :: "string \<Rightarrow> monitor \<Rightarrow> position option" where
  "getPosition i m = map_of (mo_positions m) i"

definition listPositions :: "monitor \<Rightarrow> position list" where
  "listPositions m = map snd (mo_positions m)"

definition updatePrice :: "string \<Rightarrow> number \<Rightarrow> monitor \<Rightarrow> position option \<times> monitor" where
  "updatePrice i price m = (case map_of (mo_positions m) i of
       None \<Rightarrow> (None, m)
     | Some p \<Rightarrow> let p' = p\<lparr>po_currentPrice := price\<rparr> in (Some p', m\<lparr>mo_positions := map_set i p' (mo_positions m)\<rparr>))"

definition positionValue :: "position \<Rightarrow> number" where
  "positionValue p = num_mul \<bar>po_quantity p\<bar> (po_currentPrice p)"

definition total_value :: "position list \<Rightarrow> number" where
  "total_value ps = foldl (\<lambda>s p. num_add s (positionValue p)) 0 ps"

definition portfolioValue :: "monitor \<Rightarrow> number" where
  "portfolioValue m = total_value (listPositions m)"

definition add_exposure :: "string \<Rightarrow> number \<Rightarrow> (string \<times> number) list \<Rightarrow> (string \<times> number) list" where
  "add_exposure k v m = map_set k (num_add (case_option 0 id (map_of m k)) v) m"

definition exposures_by_asset :: "position list \<Rightarrow> (string \<times> number) list" where
  "exposures_by_asset ps = foldl (\<lambda>m p. add_exposure (po_asset p) (positionValue p) m) [] ps"

definition exposures_by_counterparty :: "position list \<Rightarrow> (string \<times> number) list" where
  "exposures_by_counterparty ps =
     foldl (\<lambda>m p. if truthy (po_counterparty p) then add_exposure (the (po_counterparty p)) (positionValue p) m else m) [] ps"

definition share_step :: "number \<Rightarrow> number \<times> number \<Rightarrow> number \<Rightarrow> number \<times> number" where
  "share_step total_v acc v = (let share = fl (v / total_v) in
     (if fst acc < share then share else fst acc, num_add (snd acc) (num_mul share share)))"

definition percent1 :: "number \<Rightarrow> string" where
  "percent1 x = to_fixed 1 (num_mul x 100) @ ''%''"

definition concentration :: "risk_thresholds \<Rightarrow> monitor \<Rightarrow> concentration_risk" where
  "concentration th m =
     (let ps = listPositions m; whole = portfolioValue m in
      if whole \<le> 0 \<or> ps = [] then \<lparr>cr_level = CONC_LOW, cr_topAssetShare = 0, cr_herfindahlIndex = 0, cr_breaches = []\<rparr>
      else
        case foldl (share_step whole) (0, 0) (map snd (exposures_by_asset ps)) of (topShare, hhi) \<Rightarrow>
        let maxAsset = case_option (dec 5 1) id (th_maxAssetShare th);
            maxCp = case_option (dec 6 1) id (th_maxCounterpartyShare th);
            assetBreach = (if maxAsset < topShare
              then [''Largest asset exposure '' @ percent1 topShare @ '' exceeds the '' @ percent1 maxAsset @ '' limit''] else []);
            cpBreaches = concat (map (\<lambda>(cp, v). let share = fl (v / whole) in
              if maxCp < share then [''Counterparty '' @ cp @ '' holds '' @ percent1 share @ '' of the portfolio, above the '' @ percent1 maxCp @ '' limit'']
              else []) (exposures_by_counterparty ps))
        in \<lparr>cr_level = (if dec 7 1 < topShare \<or> dec 5 1 < hhi then CONC_HIGH else if maxAsset < topShare \<or> dec 3 1 < hhi then CONC_MEDIUM else CONC_LOW),
            cr_topAssetShare = topShare, cr_herfindahlIndex = hhi, cr_breaches = assetBreach @ cpBreaches\<rparr>)"

definition impermanentLoss :: "risk_math \<Rightarrow> position \<Rightarrow> number" where
  "impermanentLoss rm p =
     (if \<not> po_isLiquidityProvider p \<or> po_entryPrice p \<le> 0 then 0
      else let ratio = fl (po_currentPrice p / po_entryPrice p) in
        if ratio \<le> 0 then 1
        else max 0 (num_sub 1 (fl (num_mul 2 (rm_sqrt rm ratio) / num_add 1 ratio))))"

record alert_data =
  ad_severity :: risk_severity
  ad_type :: string
  ad_message :: string
  ad_positionId :: "string option"
  ad_metadata :: json

definition raise_alert :: "int \<Rightarrow> alert_data \<Rightarrow> monitor \<Rightarrow> monitor" where
  "raise_alert tm a m = m\<lparr>mo_alerts := mo_alerts m @ [\<lparr>
     rk_id = ad_type a @ ''-'' @ case_option ''portfolio'' id (ad_positionId a) @ ''-'' @ nat_to_string (length (mo_alerts m)),
     rk_severity = ad_severity a, rk_type = ad_type a, rk_message = ad_message a, rk_positionId = ad_positionId a,
     rk_metadata = ad_metadata a, rk_raisedAt = tm\<rparr>]\<rparr>"

definition position_alerts :: "risk_math \<Rightarrow> risk_thresholds \<Rightarrow> position \<Rightarrow> alert_data list" where
  "position_alerts rm th p =
     (let v = positionValue p; il = impermanentLoss rm p in
      (case th_maxPositionValue th of None \<Rightarrow> [] | Some mx \<Rightarrow> if mx < v
         then [\<lparr>ad_severity = SEVERITY_WARNING, ad_type = ''position-size'',
                ad_message = ''Position '' @ po_id p @ '' is worth '' @ to_fixed 2 v @ '', above the configured maximum'',
                ad_positionId = Some (po_id p), ad_metadata = JObj [(''value'', JNum v)]\<rparr>] else []) @
      (if dec 5 2 < il
       then [\<lparr>ad_severity = SEVERITY_INFO, ad_type = ''impermanent-loss'',
              ad_message = ''Position '' @ po_id p @ '' is down '' @ to_fixed 2 (num_mul il 100) @ ''% to impermanent loss'',
              ad_positionId = Some (po_id p), ad_metadata = JObj [(''impermanentLoss'', JNum il)]\<rparr>] else []))"

fun concentration_level_str :: "concentration_level \<Rightarrow> string" where
  "concentration_level_str CONC_LOW = ''low''"
| "concentration_level_str CONC_MEDIUM = ''medium''"
| "concentration_level_str CONC_HIGH = ''high''"

definition portfolio_alerts :: "risk_thresholds \<Rightarrow> monitor \<Rightarrow> alert_data list" where
  "portfolio_alerts th m =
     (let c = concentration th m; ps = listPositions m in
      map (\<lambda>b. \<lparr>ad_severity = SEVERITY_CRITICAL, ad_type = ''concentration'', ad_message = b, ad_positionId = None,
                ad_metadata = JObj [(''level'', JStr (concentration_level_str (cr_level c)))]\<rparr>) (cr_breaches c) @
      (if portfolioValue m \<le> 0 \<and> ps \<noteq> []
       then [\<lparr>ad_severity = SEVERITY_WARNING, ad_type = ''portfolio-value'',
              ad_message = ''Portfolio has a non-zero position count but a zero value'', ad_positionId = None,
              ad_metadata = JObj [(''positionCount'', JNum (of_nat (length ps)))]\<rparr>] else []))"

definition evaluateThresholds :: "risk_math \<Rightarrow> int \<Rightarrow> risk_thresholds \<Rightarrow> monitor \<Rightarrow> risk_alert list \<times> monitor" where
  "evaluateThresholds rm tm th m =
     (let m' = foldl (\<lambda>m a. raise_alert tm a m) (m\<lparr>mo_alerts := []\<rparr>)
                 (concat (map (position_alerts rm th) (listPositions m)) @ portfolio_alerts th m)
      in (mo_alerts m', m'))"

definition listAlerts :: "monitor \<Rightarrow> risk_alert list" where
  "listAlerts m = mo_alerts m"

section \<open>Liquidation\<close>

definition margin_of :: "position \<Rightarrow> number" where
  "margin_of p = case_option (dec 5 2) id (po_liquidationThreshold p)"

definition leverage_of :: "position \<Rightarrow> number" where
  "leverage_of p = case_option 1 id (po_leverage p)"

text \<open>The price of the formula both services use.\<close>

definition margin_price :: "position \<Rightarrow> number" where
  "margin_price p =
     (if po_quantity p < 0 then num_mul (po_entryPrice p) (num_sub (num_add 1 (fl (1 / leverage_of p))) (margin_of p))
      else num_mul (po_entryPrice p) (num_add (num_sub 1 (fl (1 / leverage_of p))) (margin_of p)))"

definition liquidationPrice :: "position \<Rightarrow> number option" where
  "liquidationPrice p = (if leverage_of p \<le> 1 then None else Some (max 0 (margin_price p)))"

definition assess :: "position \<Rightarrow> liquidation_risk" where
  "assess p = (case liquidationPrice p of
       None \<Rightarrow> \<lparr>lr_positionId = po_id p, lr_currentPrice = po_currentPrice p, lr_liquidationPrice = po_currentPrice p,
                lr_distanceToLiquidation = 100, lr_atRisk = False, lr_cascadeDepth = 0\<rparr>
     | Some l \<Rightarrow>
        let d = (if po_currentPrice p = 0 then 100 else num_mul (fl (num_sub (po_currentPrice p) l / po_currentPrice p)) 100)
        in \<lparr>lr_positionId = po_id p, lr_currentPrice = po_currentPrice p, lr_liquidationPrice = l,
            lr_distanceToLiquidation = d, lr_atRisk = (d \<le> 10), lr_cascadeDepth = 0\<rparr>)"

definition assessAll :: "position list \<Rightarrow> liquidation_risk list" where
  "assessAll ps = map assess ps"

definition positions_by_id :: "position list \<Rightarrow> (string \<times> position) list" where
  "positions_by_id ps = foldl (\<lambda>m p. map_set (po_id p) p m) [] ps"

text \<open>The members of a group that are not in an earlier one, each once, with their depth.\<close>

fun add_members :: "liquidation_risk list \<Rightarrow> nat \<Rightarrow> position list \<Rightarrow> liquidation_risk list \<times> string set \<Rightarrow> liquidation_risk list \<times> string set" where
  "add_members risks depth [] acc = acc"
| "add_members risks depth (p # ps) (grp, seen) =
     (case find (\<lambda>r. lr_positionId r = po_id p) risks of
        None \<Rightarrow> add_members risks depth ps (grp, seen)
      | Some r \<Rightarrow> if po_id p \<in> seen then add_members risks depth ps (grp, seen)
          else add_members risks depth ps (grp @ [r\<lparr>lr_cascadeDepth := depth\<rparr>], insert (po_id p) seen))"

definition pool_members :: "position list \<Rightarrow> position option \<Rightarrow> position list" where
  "pool_members ps seed = (case seed of None \<Rightarrow> [] | Some s \<Rightarrow> if truthy (po_poolId s)
     then filter (\<lambda>p. po_poolId p = po_poolId s \<and> po_id p \<noteq> po_id s) ps else [])"

definition counterparty_members :: "position list \<Rightarrow> position option \<Rightarrow> position list" where
  "counterparty_members ps seed = (case seed of None \<Rightarrow> [] | Some s \<Rightarrow> if truthy (po_counterparty s)
     then filter (\<lambda>p. po_counterparty p = po_counterparty s \<and> po_id p \<noteq> po_id s \<and> po_id p \<notin> po_id ` set (pool_members ps seed)) ps else [])"

definition cascade_group :: "liquidation_risk list \<Rightarrow> position list \<Rightarrow> liquidation_risk \<Rightarrow> string set \<Rightarrow> liquidation_risk list \<times> string set" where
  "cascade_group risks ps r seen =
     (let seed = map_of (positions_by_id ps) (lr_positionId r) in
      case add_members risks 2 (counterparty_members ps seed) (add_members risks 1 (pool_members ps seed) ([], seen)) of
        (grp, seen') \<Rightarrow> (r\<lparr>lr_cascadeDepth := 0\<rparr> # grp, insert (lr_positionId r) seen'))"

fun cascade_loop :: "liquidation_risk list \<Rightarrow> position list \<Rightarrow> liquidation_risk list \<Rightarrow> string set \<Rightarrow> liquidation_risk list list" where
  "cascade_loop risks ps [] seen = []"
| "cascade_loop risks ps (r # rs) seen =
     (if lr_positionId r \<in> seen then cascade_loop risks ps rs seen
      else case cascade_group risks ps r seen of (grp, seen') \<Rightarrow> grp # cascade_loop risks ps rs seen')"

definition detectCascade :: "liquidation_risk list \<Rightarrow> position list \<Rightarrow> liquidation_risk list list" where
  "detectCascade risks ps = cascade_loop risks ps (filter lr_atRisk risks) {}"

text \<open>The em dashes of the messages are written as hyphens.\<close>

definition recommendedActions :: "liquidation_risk \<Rightarrow> string list" where
  "recommendedActions r = (if \<not> lr_atRisk r then [] else
     (if lr_distanceToLiquidation r \<le> 0 then [''Position is already past its liquidation price - settle now''] else []) @
     [''Reduce position size to lower the liquidation price'', ''Add collateral to widen the maintenance margin''] @
     (if 0 < lr_cascadeDepth r then [''Check correlated positions - the same pool or counterparty is also at risk''] else []))"

section \<open>Stress tests\<close>

definition defaultScenarios :: "stress_scenario list" where
  "defaultScenarios =
     [\<lparr>sc_id = ''market-crash-50'', sc_priceShock = - dec 5 1, sc_liquidityShock = None, sc_counterpartyShock = None\<rparr>,
      \<lparr>sc_id = ''liquidity-crunch'', sc_priceShock = - dec 1 1, sc_liquidityShock = Some (- dec 9 1), sc_counterpartyShock = None\<rparr>,
      \<lparr>sc_id = ''flash-crash-80'', sc_priceShock = - dec 8 1, sc_liquidityShock = None, sc_counterpartyShock = None\<rparr>]"

definition shocked_price :: "stress_scenario \<Rightarrow> position \<Rightarrow> number" where
  "shocked_price s p = num_mul (po_currentPrice p) (num_add 1 (sc_priceShock s))"

definition defaulted :: "stress_scenario \<Rightarrow> position \<Rightarrow> bool" where
  "defaulted s p \<longleftrightarrow> sc_counterpartyShock s \<noteq> None \<and> po_counterparty p = sc_counterpartyShock s"

definition shocked_value :: "stress_scenario \<Rightarrow> position \<Rightarrow> number" where
  "shocked_value s p =
     (if defaulted s p then 0
      else let v = num_mul \<bar>po_quantity p\<bar> (shocked_price s p) in
        case sc_liquidityShock s of None \<Rightarrow> v
        | Some l \<Rightarrow> if po_isLiquidityProvider p then num_mul v (max 0 (num_add 1 l)) else v)"

definition wouldBeLiquidated :: "position \<Rightarrow> number \<Rightarrow> bool" where
  "wouldBeLiquidated p price \<longleftrightarrow> 1 < leverage_of p \<and> (if po_quantity p < 0 then margin_price p \<le> price else price \<le> margin_price p)"

definition default_breach :: "stress_scenario \<Rightarrow> position \<Rightarrow> string" where
  "default_breach s p = ''Counterparty '' @ the (sc_counterpartyShock s) @ '' defaulted; position '' @ po_id p @ '' written down to zero''"

definition stress_run :: "int \<Rightarrow> position list \<Rightarrow> stress_scenario \<Rightarrow> stress_result" where
  "stress_run tm ps s =
     (let before = total_value ps; after = foldl (\<lambda>a p. num_add a (shocked_value s p)) 0 ps; loss = num_sub before after in
      \<lparr>sr_scenarioId = sc_id s, sr_portfolioValueBefore = before, sr_portfolioValueAfter = after, sr_loss = loss,
       sr_lossPercent = (if before = 0 then 0 else num_mul (fl (loss / before)) 100),
       sr_marginCalls = map po_id (filter (\<lambda>p. wouldBeLiquidated p (shocked_price s p)) ps),
       sr_breaches = map (default_breach s) (filter (defaulted s) ps), sr_computedAt = tm\<rparr>)"

definition runAll :: "int \<Rightarrow> position list \<Rightarrow> stress_scenario list \<Rightarrow> stress_result list" where
  "runAll tm ps ss = map (stress_run tm ps) ss"

definition validateAgainstHistory :: "number \<Rightarrow> number \<Rightarrow> number \<times> number" where
  "validateAgainstHistory predictedLoss realisedLoss =
     (let absoluteError = \<bar>num_sub predictedLoss realisedLoss\<bar>
      in (absoluteError, if realisedLoss = 0 then 0 else num_mul (fl (absoluteError / \<bar>realisedLoss\<bar>)) 100))"

section \<open>Value at risk\<close>

definition ascending :: "number \<Rightarrow> number \<Rightarrow> jnum" where
  "ascending a b = Some (num_sub a b)"

text \<open>A confidence above one gives a negative index, and with it \<^verbatim>\<open>NaN\<close>.\<close>

definition historical :: "number list \<Rightarrow> number \<Rightarrow> jnum" where
  "historical returns confidence =
     (if returns = [] then Some 0
      else let srt = js_sort ascending returns;
               i = min \<lfloor>num_mul (num_sub 1 confidence) (of_nat (length srt))\<rfloor> (int (length srt) - 1)
        in if i < 0 then None else Some \<bar>min 0 (srt ! nat i)\<bar>)"

fun horner :: "number \<Rightarrow> number \<Rightarrow> number list \<Rightarrow> number" where
  "horner x acc [] = acc"
| "horner x acc (c # cs) = horner x (num_add (num_mul acc x) c) cs"

definition poly :: "number list \<Rightarrow> number \<Rightarrow> number" where
  "poly cs x = (case cs of [] \<Rightarrow> 0 | c # cs \<Rightarrow> horner x c cs)"

definition z_a :: "number list" where
  "z_a = [dec (-396968302866538) 13, dec 220946098424521 12, dec (-275928510446969) 12, dec 138357751867269 12,
     dec (-306647980661472) 13, dec 250662827745924 14]"

definition z_b :: "number list" where
  "z_b = [dec (-544760987982241) 13, dec 161585836858041 12, dec (-155698979859887) 12, dec 668013118877197 13,
     dec (-132806815528857) 13, 1]"

definition z_c :: "number list" where
  "z_c = [dec (-778489400243029) 17, dec (-322396458041136) 15, dec (-240075827716184) 14, dec (-254973253934373) 14,
     dec 437466414146497 14, dec 293816398269878 14]"

definition z_d :: "number list" where
  "z_d = [dec 778469570904146 17, dec 32246712907004 14, dec 2445134137143 12, dec 375440866190742 14, 1]"

definition zScore :: "risk_math \<Rightarrow> number \<Rightarrow> jnum result" where
  "zScore rm p =
     (if p \<le> 0 \<or> 1 \<le> p then Inl (PlainError ''Confidence level must be strictly between 0 and 1'')
      else let pLow = dec 2425 5 in
        if p < pLow then let q = rm_sqrt rm (num_mul (- 2) (rm_log rm p)) in Inr (num_div (poly z_c q) (poly z_d q))
        else if p \<le> num_sub 1 pLow
        then let q = num_sub p (dec 5 1); r = num_mul q q in Inr (num_div (num_mul (poly z_a r) q) (poly z_b r))
        else let q = rm_sqrt rm (num_mul (- 2) (rm_log rm (num_sub 1 p))) in Inr (num_div (- poly z_c q) (poly z_d q)))"

definition mean :: "number list \<Rightarrow> number" where
  "mean xs = fl (foldl num_add 0 xs / of_nat (length xs))"

definition std_dev :: "risk_math \<Rightarrow> number list \<Rightarrow> number" where
  "std_dev rm xs = rm_sqrt rm (fl (foldl (\<lambda>s r. num_add s (rm_square rm (num_sub r (mean xs)))) 0 xs / of_nat (length xs)))"

definition parametricVar :: "risk_math \<Rightarrow> number list \<Rightarrow> number \<Rightarrow> jnum result" where
  "parametricVar rm returns confidence =
     (if returns = [] then Inr (Some 0)
      else rbind (zScore rm confidence) (\<lambda>z. Inr (js_abs (js_sub (Some (mean returns)) (js_mul z (Some (std_dev rm returns)))))))"

datatype var_method = Historical | Parametric

definition portfolioVar :: "risk_math \<Rightarrow> number list \<Rightarrow> number \<Rightarrow> var_method \<Rightarrow> jnum result" where
  "portfolioVar rm returns confidence m =
     (if returns = [] then Inr (Some 0)
      else case m of Historical \<Rightarrow> Inr (historical returns confidence) | Parametric \<Rightarrow> parametricVar rm returns confidence)"

definition add_weighted :: "number \<Rightarrow> number list \<Rightarrow> number list \<Rightarrow> number list" where
  "add_weighted w returns acc = map (\<lambda>(a, r). num_add a (num_mul r w)) (zip acc returns) @ drop (length returns) acc"

definition portfolio_step :: "(string \<Rightarrow> number list option) \<Rightarrow> number \<Rightarrow> nat \<times> number list \<Rightarrow> position \<Rightarrow> nat \<times> number list" where
  "portfolio_step returnsByAsset whole acc p = (case returnsByAsset (po_asset p) of
       None \<Rightarrow> acc
     | Some rs \<Rightarrow> if rs = [] then acc
         else let w = fl (positionValue p / whole); start = (if snd acc = [] then map (\<lambda>_. 0) rs else snd acc)
           in (max (fst acc) (length rs), add_weighted w rs start))"

record var_result =
  va_valueAtRisk95 :: jnum
  va_valueAtRisk99 :: jnum
  va_method :: var_method
  va_sampleSize :: nat
  va_computedAt :: int

definition calculateVar :: "risk_math \<Rightarrow> int \<Rightarrow> position list \<Rightarrow> (string \<Rightarrow> number list option) \<Rightarrow> var_method \<Rightarrow> var_result result" where
  "calculateVar rm tm ps returnsByAsset m =
     (let whole = total_value ps;
          acc = (if 0 < whole then foldl (portfolio_step returnsByAsset whole) (0, []) ps else (0, []))
      in rbind (portfolioVar rm (snd acc) (dec 95 2) m) (\<lambda>v95.
         rbind (portfolioVar rm (snd acc) (dec 99 2) m) (\<lambda>v99.
           Inr \<lparr>va_valueAtRisk95 = js_mul v95 (Some whole), va_valueAtRisk99 = js_mul v99 (Some whole), va_method = m,
                va_sampleSize = fst acc, va_computedAt = tm\<rparr>)))"

definition unrealizedPnl :: "position \<Rightarrow> number" where
  "unrealizedPnl p = num_mul (num_mul (if po_quantity p < 0 then - 1 else 1) (num_sub (po_currentPrice p) (po_entryPrice p))) \<bar>po_quantity p\<bar>"

section \<open>Reports\<close>

record risk_metrics =
  me_portfolioValue :: number
  me_var95 :: number
  me_var99 :: number
  me_concentration :: concentration_risk
  me_liquidityRisk :: number
  me_largestExposure :: number
  me_counterpartyCount :: nat
  me_computedAt :: int

record counterparty_share =
  cs_counterparty :: string
  cs_exposure :: number
  cs_share :: number

record risk_report =
  rp_generatedAt :: int
  rp_metrics :: risk_metrics
  rp_positionCount :: nat
  rp_alerts :: "risk_alert list"
  rp_topCounterparties :: "counterparty_share list"

definition dailySummary :: "int \<Rightarrow> risk_metrics \<Rightarrow> nat \<Rightarrow> risk_alert list \<Rightarrow> counterparty_share list \<Rightarrow> risk_report" where
  "dailySummary tm metrics positionCount alerts cps = \<lparr>rp_generatedAt = tm, rp_metrics = metrics, rp_positionCount = positionCount,
     rp_alerts = alerts, rp_topCounterparties = cps\<rparr>"

definition topCounterparties :: "(string \<times> number) list \<Rightarrow> nat \<Rightarrow> counterparty_share list" where
  "topCounterparties exposures limit =
     (let whole = foldl (\<lambda>s e. num_add s (snd e)) 0 exposures in
      map (\<lambda>e. \<lparr>cs_counterparty = fst e, cs_exposure = snd e, cs_share = (if whole = 0 then 0 else fl (snd e / whole))\<rparr>)
        (take limit (js_sort (\<lambda>a b. Some (num_sub (snd b) (snd a))) exposures)))"

record portfolio_snapshot =
  ps_positions :: "position list"
  ps_timestamp :: int

record risk_trend_point =
  tp_timestamp :: int
  tp_portfolioValue :: number
  tp_var95 :: number
  tp_var99 :: number

definition trend :: "portfolio_snapshot list \<Rightarrow> risk_trend_point list" where
  "trend snapshots = map (\<lambda>s. \<lparr>tp_timestamp = ps_timestamp s, tp_portfolioValue = total_value (ps_positions s), tp_var95 = 0, tp_var99 = 0\<rparr>)
     (js_sort (\<lambda>a b. Some (num_sub (of_int (ps_timestamp a)) (of_int (ps_timestamp b)))) snapshots)"

definition average :: "number list \<Rightarrow> number" where
  "average xs = (if xs = [] then 0 else mean xs)"

record risk_benchmark =
  bm_subject :: risk_metrics
  bm_peerVar95 :: number
  bm_peerVar99 :: number
  bm_peerConcentration :: number
  bm_percentile :: number

definition benchmark :: "risk_metrics \<Rightarrow> risk_metrics list \<Rightarrow> risk_benchmark" where
  "benchmark subject peers =
     (if peers = [] then \<lparr>bm_subject = subject, bm_peerVar95 = 0, bm_peerVar99 = 0, bm_peerConcentration = 0, bm_percentile = 100\<rparr>
      else \<lparr>bm_subject = subject, bm_peerVar95 = average (map me_var95 peers), bm_peerVar99 = average (map me_var99 peers),
            bm_peerConcentration = average (map (\<lambda>m. cr_topAssetShare (me_concentration m)) peers),
            bm_percentile = num_mul (fl (of_nat (length (filter (\<lambda>m. me_var99 subject < me_var99 m) peers)) / of_nat (length peers))) 100\<rparr>)"

end
