(* ===== verification/Risk_Props.thy ===== *)
theory Risk_Props
  imports Risk
begin

text \<open>
What the risk services of Risk compute: which way the liquidation assessment reads the distance to the
liquidation price, that the cascade groups never share a position and cover every position at risk, that the
historical value at risk grows with the confidence level, that a deeper crash leaves no more value and no fewer
margin calls, that the parametric figure turns a certain gain into a risk, and that alert identifiers never
repeat. The order of the sorted return series is an instance of the priority order of the trading engine.
\<close>


section \<open>Signs of rounded results\<close>

lemma fl_neg_iff: "fl x < 0 \<longleftrightarrow> x < 0"
  using fl_pos_iff [of "- x"] by (simp add: fl_minus)

lemma fl_nonneg_iff': "0 \<le> fl x \<longleftrightarrow> 0 \<le> x"
  using fl_neg_iff [of x] by linarith

lemma fl_nonpos_iff: "fl x \<le> 0 \<longleftrightarrow> x \<le> 0"
  using fl_pos_iff [of x] by linarith

lemma distance_sign:
  assumes "0 < c"
  shows "num_mul (fl (num_sub c l / c)) 100 < 0 \<longleftrightarrow> c < l" "num_mul (fl (num_sub c l / c)) 100 \<le> 0 \<longleftrightarrow> c \<le> l"
proof -
  have "num_sub c l / c < 0 \<longleftrightarrow> num_sub c l < 0" "num_sub c l / c \<le> 0 \<longleftrightarrow> num_sub c l \<le> 0" using assms by (simp_all add: divide_less_0_iff divide_le_0_iff)
  then show "num_mul (fl (num_sub c l / c)) 100 < 0 \<longleftrightarrow> c < l" "num_mul (fl (num_sub c l / c)) 100 \<le> 0 \<longleftrightarrow> c \<le> l"
    by (auto simp: num_mul_def num_sub_def fl_neg_iff fl_nonpos_iff mult_less_0_iff mult_le_0_iff)
qed

lemma distance_far:
  assumes "0 < c" and "0 \<le> l" and "2 * l \<le> c"
  shows "10 < num_mul (fl (num_sub c l / c)) 100"
proof -
  have "9 / 10 * (c / 2) \<le> 9 / 10 * (c - l)" using assms by simp
  also have "\<dots> \<le> num_sub c l" using fl_rel(1) [of "c - l"] assms by (simp add: num_sub_def)
  finally have "45 / 100 \<le> num_sub c l / c" using assms(1) by (simp add: field_simps)
  moreover have "10 < num_mul (fl y) 100" if "45 / 100 \<le> y" for y
    using that fl_rel(1) [of y] fl_rel(1) [of "fl y * 100"] by (simp add: num_mul_def)
  ultimately show ?thesis by blast
qed

text \<open>
  For a long position with leverage the liquidation service and the stress test agree: the distance is not
  positive exactly when the position would be liquidated at the current price, and then it is at risk. For
  a short position the distance has the wrong sign: while it is safe it is reported as past its
  liquidation price and at risk, and when the price has risen far beyond the liquidation price it is
  reported as safe.
\<close>

theorem liquidation_direction:
  assumes "1 < leverage_of p" and "0 < po_currentPrice p"
  shows "(0 \<le> po_quantity p \<longrightarrow> (lr_distanceToLiquidation (assess p) \<le> 0 \<longleftrightarrow> wouldBeLiquidated p (po_currentPrice p)) \<and>
      (wouldBeLiquidated p (po_currentPrice p) \<longrightarrow> lr_atRisk (assess p))) \<and>
    (po_quantity p < 0 \<longrightarrow> (\<not> wouldBeLiquidated p (po_currentPrice p) \<longrightarrow> lr_distanceToLiquidation (assess p) < 0 \<and> lr_atRisk (assess p)) \<and>
      (2 * max 0 (margin_price p) \<le> po_currentPrice p \<longrightarrow> wouldBeLiquidated p (po_currentPrice p) \<and> \<not> lr_atRisk (assess p)))"
proof -
  let ?c = "po_currentPrice p" and ?l = "max 0 (margin_price p)"
  have lp: "liquidationPrice p = Some ?l" using assms(1) by (simp add: liquidationPrice_def)
  have d: "lr_distanceToLiquidation (assess p) = num_mul (fl (num_sub ?c ?l / ?c)) 100" "lr_atRisk (assess p) \<longleftrightarrow> num_mul (fl (num_sub ?c ?l / ?c)) 100 \<le> 10"
    using assms(2) by (simp_all add: assess_def lp Let_def)
  note sign = distance_sign [OF assms(2), of ?l]
  have le: "?c \<le> ?l \<longleftrightarrow> ?c \<le> margin_price p" and less: "?c < ?l \<longleftrightarrow> ?c < margin_price p" using assms(2) by auto
  have far: "2 * ?l \<le> ?c \<Longrightarrow> 10 < num_mul (fl (num_sub ?c ?l / ?c)) 100" using distance_far [OF assms(2), of ?l] by simp
  show ?thesis
  proof (cases "po_quantity p < 0")
    case True
    then have w: "wouldBeLiquidated p ?c \<longleftrightarrow> margin_price p \<le> ?c" using assms(1) by (simp add: wouldBeLiquidated_def)
    have "2 * ?l \<le> ?c \<Longrightarrow> margin_price p \<le> ?c" using assms(2) by (auto simp: max_def split: if_splits)
    then show ?thesis using True w d sign less far by auto
  next
    case False
    then have w: "wouldBeLiquidated p ?c \<longleftrightarrow> ?c \<le> margin_price p" using assms(1) by (simp add: wouldBeLiquidated_def)
    then show ?thesis using False d sign le by auto
  qed
qed

section \<open>Cascades\<close>

abbreviation ids :: "liquidation_risk list \<Rightarrow> string set" where "ids g \<equiv> lr_positionId ` set g"

definition new_members :: "liquidation_risk list \<Rightarrow> nat \<Rightarrow> position list \<Rightarrow> string set \<Rightarrow> liquidation_risk list \<Rightarrow> bool" where
  "new_members risks d ps seen new \<longleftrightarrow> distinct (map lr_positionId new) \<and> ids new \<inter> seen = {} \<and> ids new \<subseteq> ids risks \<and>
     ids new \<subseteq> po_id ` set ps \<and> (\<forall>r \<in> set new. lr_cascadeDepth r = d)"

lemma new_members_mono: "new_members risks d ps seen new \<Longrightarrow> new_members risks d (p # ps) seen new"
  by (auto simp: new_members_def)

lemma new_members_Cons:
  assumes "new_members risks d ps (insert (po_id p) seen) new" and "po_id p \<notin> seen" and "r \<in> set risks" and "lr_positionId r = po_id p"
  shows "new_members risks d (p # ps) seen (r\<lparr>lr_cascadeDepth := d\<rparr> # new)"
proof -
  have n: "distinct (map lr_positionId new)" "ids new \<inter> insert (po_id p) seen = {}" "ids new \<subseteq> ids risks" "ids new \<subseteq> po_id ` set ps"
    "\<forall>r \<in> set new. lr_cascadeDepth r = d" using assms(1) by (simp_all add: new_members_def)
  have "po_id p \<in> ids risks" using assms(3,4) by (metis image_eqI)
  moreover have "po_id p \<notin> ids new" using n(2) by blast
  ultimately show ?thesis using n assms(2,4) by (simp add: new_members_def) blast
qed

lemma add_members_spec:
  "add_members risks d ps (g, seen) = (g', seen') \<Longrightarrow> \<exists>new. g' = g @ new \<and> seen' = seen \<union> ids new \<and> new_members risks d ps seen new"
proof (induction ps arbitrary: g seen)
  case Nil
  then show ?case by (simp add: new_members_def)
next
  case (Cons p ps)
  show ?case
  proof (cases "find (\<lambda>r. lr_positionId r = po_id p) risks = None \<or> po_id p \<in> seen")
    case True
    then have "add_members risks d ps (g, seen) = (g', seen')" using Cons.prems by (auto split: option.splits)
    from Cons.IH [OF this] show ?thesis using new_members_mono by blast
  next
    case False
    then obtain r where f: "find (\<lambda>r. lr_positionId r = po_id p) risks = Some r" by auto
    have r: "r \<in> set risks" "lr_positionId r = po_id p" using f by (auto simp: find_Some_iff)
    let ?r = "r\<lparr>lr_cascadeDepth := d\<rparr>"
    have "add_members risks d ps (g @ [?r], insert (po_id p) seen) = (g', seen')" using Cons.prems f False by simp
    from Cons.IH [OF this] obtain new where new: "g' = (g @ [?r]) @ new" "seen' = insert (po_id p) seen \<union> ids new"
      "new_members risks d ps (insert (po_id p) seen) new" by blast
    have "g' = g @ (?r # new)" "seen' = seen \<union> ids (?r # new)" using new r by simp_all
    then show ?thesis using new_members_Cons [OF new(3) _ r] False by blast
  qed
qed

lemma positions_by_id_key: "map_of (positions_by_id ps) i = Some s \<Longrightarrow> po_id s = i"
proof (induction ps arbitrary: i s rule: rev_induct)
  case Nil
  then show ?case by (simp add: positions_by_id_def)
next
  case (snoc p ps)
  have "positions_by_id (ps @ [p]) = map_set (po_id p) p (positions_by_id ps)" by (simp add: positions_by_id_def)
  then show ?case using snoc.IH [of i s] snoc.prems by (cases "i = po_id p") simp_all
qed

lemma cascade_group_spec:
  assumes "cascade_group risks ps r seen = (g, seen')" and "lr_positionId r \<notin> seen" and "r \<in> set risks"
  shows "distinct (map lr_positionId g) \<and> ids g \<inter> seen = {} \<and> seen' = seen \<union> ids g \<and> ids g \<subseteq> ids risks \<and> lr_positionId r \<in> ids g \<and>
    g \<noteq> [] \<and> hd g = r\<lparr>lr_cascadeDepth := 0\<rparr> \<and> (\<forall>x \<in> set (tl g). lr_cascadeDepth x = 1 \<or> lr_cascadeDepth x = 2)"
proof -
  let ?seed = "map_of (positions_by_id ps) (lr_positionId r)"
  obtain g1 s1 where a1: "add_members risks 1 (pool_members ps ?seed) ([], seen) = (g1, s1)" by fastforce
  obtain g2 s2 where a2: "add_members risks 2 (counterparty_members ps ?seed) (g1, s1) = (g2, s2)" by fastforce
  have g: "g = r\<lparr>lr_cascadeDepth := 0\<rparr> # g2" "seen' = insert (lr_positionId r) s2" using assms(1) a1 a2 by (auto simp: cascade_group_def Let_def)
  have self: "lr_positionId r \<notin> po_id ` set (pool_members ps ?seed)" "lr_positionId r \<notin> po_id ` set (counterparty_members ps ?seed)"
    using positions_by_id_key [of ps "lr_positionId r"] by (auto simp: pool_members_def counterparty_members_def split: option.splits if_splits)
  from add_members_spec [OF a1] obtain n1 where n1: "g1 = n1" "s1 = seen \<union> ids n1" "new_members risks 1 (pool_members ps ?seed) seen n1" by auto
  from add_members_spec [OF a2] obtain n2 where n2: "g2 = n1 @ n2" "s2 = s1 \<union> ids n2" "new_members risks 2 (counterparty_members ps ?seed) s1 n2"
    using n1(1) by blast
  have "lr_positionId r \<notin> ids n1" "lr_positionId r \<notin> ids n2" using self n1(3) n2(3) by (auto simp: new_members_def)
  moreover have "ids n1 \<inter> ids n2 = {}" "ids n2 \<inter> seen = {}" using n1(2) n2(3) unfolding new_members_def by blast+
  moreover have "lr_positionId r \<in> ids risks" using assms(3) by simp
  ultimately show ?thesis using g n1 n2 assms(2) by (auto simp: new_members_def)
qed

lemma cascade_loop_spec:
  assumes "set rs \<subseteq> set risks"
  shows "distinct (map lr_positionId (concat (cascade_loop risks ps rs seen))) \<and> ids (concat (cascade_loop risks ps rs seen)) \<inter> seen = {} \<and>
    ids rs \<subseteq> seen \<union> ids (concat (cascade_loop risks ps rs seen)) \<and> ids (concat (cascade_loop risks ps rs seen)) \<subseteq> ids risks"
  using assms
proof (induction rs arbitrary: seen)
  case Nil
  show ?case by simp
next
  case (Cons r rs)
  show ?case
  proof (cases "lr_positionId r \<in> seen")
    case True
    then show ?thesis using Cons.IH [of seen] Cons.prems by auto
  next
    case False
    obtain g seen' where g: "cascade_group risks ps r seen = (g, seen')" by fastforce
    have "r \<in> set risks" using Cons.prems by simp
    note s = cascade_group_spec [OF g False this]
    have ih: "distinct (map lr_positionId (concat (cascade_loop risks ps rs seen')))" "ids (concat (cascade_loop risks ps rs seen')) \<inter> seen' = {}"
      "ids rs \<subseteq> seen' \<union> ids (concat (cascade_loop risks ps rs seen'))" "ids (concat (cascade_loop risks ps rs seen')) \<subseteq> ids risks"
      using Cons.IH [of seen'] Cons.prems by auto
    have eq: "concat (cascade_loop risks ps (r # rs) seen) = g @ concat (cascade_loop risks ps rs seen')" using False g by simp
    have dis: "ids g \<inter> ids (concat (cascade_loop risks ps rs seen')) = {}" using s ih(2) by blast
    have un: "ids (g @ xs) = ids g \<union> ids xs" for xs by auto
    show ?thesis unfolding eq un
    proof (intro conjI)
      show "distinct (map lr_positionId (g @ concat (cascade_loop risks ps rs seen')))" using s ih(1) dis by (simp add: image_image)
    qed (use s ih in auto)
  qed
qed

text \<open>
  C33. The groups of a cascade are a partition: no position is in two groups or twice in one, every position at
  risk is in a group, and every member is one of the assessed positions.
\<close>

theorem cascade_partition:
  "distinct (map lr_positionId (concat (detectCascade risks ps))) \<and>
   ids (filter lr_atRisk risks) \<subseteq> ids (concat (detectCascade risks ps)) \<and> ids (concat (detectCascade risks ps)) \<subseteq> ids risks"
  using cascade_loop_spec [of "filter lr_atRisk risks" risks ps "{}"] by (simp add: detectCascade_def)



section \<open>Value at risk\<close>

interpretation returns_order: priority_side ascending "\<lambda>x. x" "\<lambda>_. True"
  by unfold_locales (simp add: ascending_def num_sub_def)

definition var_index :: "nat \<Rightarrow> number \<Rightarrow> int" where
  "var_index n c = min \<lfloor>num_mul (num_sub 1 c) (of_nat n)\<rfloor> (int n - 1)"

lemma var_index_nonneg: "c \<le> 1 \<Longrightarrow> 0 < n \<Longrightarrow> 0 \<le> var_index n c"
  by (simp add: var_index_def num_mul_def num_sub_def fl_nonneg)

lemma var_index_antimono:
  assumes "c \<le> c'"
  shows "var_index n c' \<le> var_index n c"
proof -
  have "num_sub 1 c' \<le> num_sub 1 c" using assms by (simp add: num_sub_def fl_mono)
  then have "num_mul (num_sub 1 c') (of_nat n) \<le> num_mul (num_sub 1 c) (of_nat n)" by (simp add: num_mul_def fl_mono mult_right_mono)
  then show ?thesis unfolding var_index_def by (meson floor_mono min.mono order_refl)
qed

lemma historical_eq:
  assumes "xs \<noteq> []" and "c \<le> 1"
  shows "historical xs c = Some \<bar>min 0 (js_sort ascending xs ! nat (var_index (length (js_sort ascending xs)) c))\<bar>"
proof -
  have "js_sort ascending xs \<noteq> []" using returns_order.js_sort_all [of xs] assms(1) by (metis empty_iff set_empty2)
  then have "0 \<le> var_index (length (js_sort ascending xs)) c" using var_index_nonneg assms(2) by simp
  then show ?thesis using assms(1) unfolding historical_def Let_def var_index_def [symmetric] by auto
qed

lemma historical_mono:
  assumes "c \<le> c'" and "c' \<le> 1"
  shows "\<exists>x y. historical xs c = Some x \<and> historical xs c' = Some y \<and> 0 \<le> x \<and> x \<le> y"
proof (cases "xs = []")
  case True
  then show ?thesis by (simp add: historical_def)
next
  case False
  let ?s = "js_sort ascending xs"
  have s: "sorted ?s" "?s \<noteq> []" using returns_order.js_sort_all [of xs] False by (auto simp: list.map_ident)
  have i: "0 \<le> var_index (length ?s) c'" "var_index (length ?s) c' \<le> var_index (length ?s) c" "var_index (length ?s) c < int (length ?s)"
    using var_index_nonneg [of c' "length ?s"] var_index_antimono [OF assms(1)] assms(2) s(2) by (auto simp: var_index_def)
  then have "?s ! nat (var_index (length ?s) c') \<le> ?s ! nat (var_index (length ?s) c)" by (intro sorted_nth_mono [OF s(1)]) auto
  then show ?thesis using historical_eq [OF False] assms by fastforce
qed

lemma dec_bounds: "dec 95 2 \<le> dec 99 2" "dec 99 2 \<le> 1"
  by (auto simp: dec_def intro: fl_mono fl_le_one)

text \<open>
  The historical method never fails, and the loss it reports at 99 percent is at least the one at 95
  percent; for a portfolio of non-negative value both are not negative.
\<close>

theorem historical_var_monotone:
  "\<exists>res v95 v99. calculateVar rm tm ps returnsByAsset Historical = Inr res \<and> va_valueAtRisk95 res = Some v95 \<and> va_valueAtRisk99 res = Some v99 \<and>
     (0 \<le> total_value ps \<longrightarrow> 0 \<le> v95 \<and> v95 \<le> v99)"
proof -
  let ?w = "total_value ps"
  let ?xs = "snd (if 0 < ?w then foldl (portfolio_step returnsByAsset ?w) (0, []) ps else (0, []))"
  obtain x y where xy: "historical ?xs (dec 95 2) = Some x" "historical ?xs (dec 99 2) = Some y" "0 \<le> x" "x \<le> y"
    using historical_mono [OF dec_bounds] by blast
  have h: "portfolioVar rm ?xs c Historical = Inr (historical ?xs c)" for c by (simp add: portfolioVar_def historical_def)
  have "0 \<le> ?w \<Longrightarrow> 0 \<le> num_mul x ?w \<and> num_mul x ?w \<le> num_mul y ?w"
    using xy(3,4) by (simp add: num_mul_def fl_nonneg fl_mono mult_right_mono)
  moreover have "calculateVar rm tm ps returnsByAsset Historical = Inr \<lparr>va_valueAtRisk95 = Some (num_mul x ?w), va_valueAtRisk99 = Some (num_mul y ?w),
     va_method = Historical, va_sampleSize = fst (if 0 < ?w then foldl (portfolio_step returnsByAsset ?w) (0, []) ps else (0, [])), va_computedAt = tm\<rparr>"
    by (simp add: calculateVar_def Let_def h xy(1,2))
  ultimately show ?thesis by simp
qed

text \<open>The parametric method takes an absolute value: a certain gain is reported as a loss of the same size.\<close>

theorem certain_gain_is_risk:
  assumes "0 < r" and "fl r = r" and "rm_square rm 0 = 0" and "rm_sqrt rm 0 = 0" and "zScore rm c = Inr (Some z)"
  shows "parametricVar rm [r] c = Inr (Some r)"
  using assms by (simp add: parametricVar_def mean_def std_dev_def num_add_def num_sub_def num_mul_def js_abs_def)

section \<open>Stress tests\<close>

lemma shocked_value_mono:
  assumes "sc_priceShock s \<le> sc_priceShock s'" and "sc_liquidityShock s' = sc_liquidityShock s" and "sc_counterpartyShock s' = sc_counterpartyShock s"
    and "0 \<le> po_currentPrice p"
  shows "shocked_price s p \<le> shocked_price s' p" and "shocked_value s p \<le> shocked_value s' p"
proof -
  have "num_add 1 (sc_priceShock s) \<le> num_add 1 (sc_priceShock s')" using assms(1) by (simp add: num_add_def fl_mono)
  then show price: "shocked_price s p \<le> shocked_price s' p" using assms(4) by (simp add: shocked_price_def num_mul_def fl_mono mult_left_mono)
  then have v: "num_mul \<bar>po_quantity p\<bar> (shocked_price s p) \<le> num_mul \<bar>po_quantity p\<bar> (shocked_price s' p)"
    by (simp add: num_mul_def fl_mono mult_left_mono)
  have "num_mul (num_mul \<bar>po_quantity p\<bar> (shocked_price s p)) (max 0 x) \<le> num_mul (num_mul \<bar>po_quantity p\<bar> (shocked_price s' p)) (max 0 x)" for x
    using v unfolding num_mul_def [of _ "max 0 x"] by (intro fl_mono mult_right_mono) simp_all
  then show "shocked_value s p \<le> shocked_value s' p" using v assms(2,3) by (simp add: shocked_value_def defaulted_def Let_def split: option.splits)
qed

text \<open>
  A deeper price shock is never better: with the same shocks to liquidity and counterparties, the value of
  the portfolio after it is at most the value after the milder one, in the rounded arithmetic of the code, and
  every long position that is called under the milder shock is called under the deeper one.
\<close>

theorem stress_monotone:
  assumes "sc_priceShock s \<le> sc_priceShock s'" and "sc_liquidityShock s' = sc_liquidityShock s" and "sc_counterpartyShock s' = sc_counterpartyShock s"
    and "\<forall>p \<in> set ps. 0 \<le> po_currentPrice p"
  shows "sr_portfolioValueAfter (stress_run tm ps s) \<le> sr_portfolioValueAfter (stress_run tm ps s') \<and>
    sr_loss (stress_run tm ps s') \<le> sr_loss (stress_run tm ps s) \<and>
    (\<forall>p \<in> set ps. 0 \<le> po_quantity p \<longrightarrow> wouldBeLiquidated p (shocked_price s' p) \<longrightarrow> po_id p \<in> set (sr_marginCalls (stress_run tm ps s)))"
proof -
  have "a \<le> b \<Longrightarrow> foldl (\<lambda>a p. num_add a (shocked_value s p)) a ps \<le> foldl (\<lambda>a p. num_add a (shocked_value s' p)) b ps" for a b
    using assms(4)
  proof (induction ps arbitrary: a b)
    case (Cons p ps)
    have "num_add a (shocked_value s p) \<le> num_add b (shocked_value s' p)"
      using Cons.prems shocked_value_mono(2) [OF assms(1-3), of p] by (simp add: num_add_def fl_mono add_mono)
    then show ?case using Cons.IH Cons.prems(2) by simp
  qed simp
  then have after: "sr_portfolioValueAfter (stress_run tm ps s) \<le> sr_portfolioValueAfter (stress_run tm ps s')"
    by (simp add: stress_run_def Let_def)
  moreover have "sr_loss (stress_run tm ps s') \<le> sr_loss (stress_run tm ps s)"
    using after by (simp add: stress_run_def Let_def num_sub_def fl_mono)
  moreover have "po_id p \<in> set (sr_marginCalls (stress_run tm ps s))"
    if "p \<in> set ps" "0 \<le> po_quantity p" "wouldBeLiquidated p (shocked_price s' p)" for p
  proof -
    have "wouldBeLiquidated p (shocked_price s p)"
      using that shocked_value_mono(1) [OF assms(1-3), of p] assms(4) by (auto simp: wouldBeLiquidated_def)
    then show ?thesis using that(1) by (simp add: stress_run_def Let_def)
  qed
  ultimately show ?thesis by blast
qed

section \<open>Alerts\<close>

lemma last_dash_unique:
  assumes "a @ CHR ''-'' # u = b @ CHR ''-'' # v" and "CHR ''-'' \<notin> set u" and "CHR ''-'' \<notin> set v"
  shows "u = v"
proof -
  have "takeWhile (\<lambda>c. c \<noteq> CHR ''-'') (rev (a @ CHR ''-'' # u)) = rev u" "takeWhile (\<lambda>c. c \<noteq> CHR ''-'') (rev (b @ CHR ''-'' # v)) = rev v"
    using assms(2,3) by (simp_all add: takeWhile_append)
  then show ?thesis using assms(1) by (metis rev_is_rev_conv)
qed

lemma dash_free: "CHR ''-'' \<notin> set (nat_to_string n)"
  using nat_to_string_digits [of "CHR ''-''" n] by auto

definition numbered :: "risk_alert list \<Rightarrow> bool" where
  "numbered as \<longleftrightarrow> (\<forall>i < length as. \<exists>pre. rk_id (as ! i) = pre @ CHR ''-'' # nat_to_string i)"

lemma numbered_raise: "numbered (mo_alerts m) \<Longrightarrow> numbered (mo_alerts (foldl (\<lambda>m a. raise_alert tm a m) m as))"
proof (induction as arbitrary: m)
  case (Cons a as)
  have "\<exists>pre. rk_id (mo_alerts (raise_alert tm a m) ! i) = pre @ CHR ''-'' # nat_to_string i" if "i < length (mo_alerts (raise_alert tm a m))" for i
    using that Cons.prems by (cases "i < length (mo_alerts m)") (auto simp: numbered_def raise_alert_def nth_append less_Suc_eq)
  then show ?case using Cons.IH by (simp add: numbered_def)
qed simp

text \<open>The identifiers of the alerts of an evaluation are distinct, and alerts of earlier evaluations are gone.\<close>

theorem alert_ids_distinct:
  "distinct (map rk_id (fst (evaluateThresholds rm tm th m))) \<and> mo_alerts (snd (evaluateThresholds rm tm th m)) = fst (evaluateThresholds rm tm th m) \<and>
   mo_positions (snd (evaluateThresholds rm tm th m)) = mo_positions m"
proof -
  let ?as = "fst (evaluateThresholds rm tm th m)"
  have "numbered (mo_alerts (m\<lparr>mo_alerts := []\<rparr>))" by (simp add: numbered_def)
  from numbered_raise [OF this] have "numbered ?as" unfolding evaluateThresholds_def Let_def fst_conv by blast
  then have "rk_id (?as ! i) \<noteq> rk_id (?as ! j)" if "i < length ?as" "j < length ?as" "i \<noteq> j" for i j
    using that last_dash_unique dash_free nat_to_string_inj unfolding numbered_def by metis
  then have "distinct (map rk_id ?as)" by (auto simp: distinct_conv_nth)
  moreover have "mo_positions (foldl (\<lambda>m a. raise_alert tm a m) m' as) = mo_positions m'" for m' as
    by (induction as arbitrary: m') (simp_all add: raise_alert_def)
  ultimately show ?thesis by (simp add: evaluateThresholds_def Let_def)
qed

section \<open>Witnesses\<close>

definition demo_position :: "number \<Rightarrow> position" where
  "demo_position q = \<lparr>po_id = ''p'', po_asset = ''XLM'', po_poolId = None, po_quantity = q, po_entryPrice = 0, po_currentPrice = 1,
     po_liquidationThreshold = None, po_leverage = Some 2, po_counterparty = None, po_isLiquidityProvider = False\<rparr>"

theorem liquidation_direction_witness:
  "wouldBeLiquidated (demo_position (- 1)) 1 \<and> \<not> lr_atRisk (assess (demo_position (- 1)))"
  using liquidation_direction [of "demo_position (- 1)"] by (simp add: demo_position_def leverage_of_def margin_price_def num_mul_def)

definition demo_scenario :: "number \<Rightarrow> stress_scenario" where
  "demo_scenario x = \<lparr>sc_id = ''s'', sc_priceShock = x, sc_liquidityShock = None, sc_counterpartyShock = None\<rparr>"

theorem stress_monotone_witness:
  "sr_portfolioValueAfter (stress_run 0 [demo_position 1] (demo_scenario (- 1 / 2))) \<le>
   sr_portfolioValueAfter (stress_run 0 [demo_position 1] (demo_scenario (- 1 / 10)))"
  using stress_monotone [of "demo_scenario (- 1 / 2)" "demo_scenario (- 1 / 10)" "[demo_position 1]" 0]
  by (simp add: demo_scenario_def demo_position_def)

theorem historical_var_monotone_witness:
  "\<exists>res v95 v99. calculateVar \<lparr>rm_sqrt = id, rm_log = id, rm_square = id\<rparr> 0 [] (\<lambda>_. None) Historical = Inr res \<and>
     va_valueAtRisk95 res = Some v95 \<and> va_valueAtRisk99 res = Some v99 \<and> v95 \<le> v99"
  using historical_var_monotone [of "\<lparr>rm_sqrt = id, rm_log = id, rm_square = id\<rparr>" 0 "[]" "\<lambda>_. None"] by (auto simp: total_value_def)

end
