(* ===== verification/Marketplace.thy ===== *)
theory Marketplace
  imports LiqPools
begin

text \<open>
  The marketplace (\<^verbatim>\<open>src/src/modules/marketplace\<close>): listings, orders on listings, the evaluation of their
  price conditions and the job that triggers them, with prices from the oracle of the liquidity aggregator.

  What a call reads from its surroundings is \<open>market_env\<close>: the clock, the identifier of a new row, which
  strings are identifiers, and what a \<^verbatim>\<open>numeric\<close> column of seven or two decimals returns for a literal
  stored in it (\<open>None\<close>: the database rejects it). A handler that was rejected throws \<open>QueryFailed\<close>.
  Request bodies hold only the fields of their class, which the validation pipe of the server enforces.
\<close>

record market_env =
  mk_now :: int
  mk_uuid :: string
  mk_is_uuid :: "string \<Rightarrow> bool"
  mk_numeric7 :: "string \<Rightarrow> string option"
  mk_numeric2 :: "string \<Rightarrow> string option"

section \<open>Data\<close>

datatype listing_status = L_ACTIVE | L_SOLD | L_CANCELLED

record listing =
  li_id :: string
  li_title :: string
  li_description :: "string option"
  li_assetCode :: string
  li_assetIssuer :: "string option"
  li_amount :: string
  li_price :: string
  li_priceAssetCode :: string
  li_status :: listing_status
  li_sellerId :: string
  li_createdAt :: int

datatype market_order_type = O_MARKET | O_LIMIT | O_STOP_LOSS | O_TRAILING_STOP

datatype market_order_status = O_PENDING | O_TRIGGERED | O_FILLED | O_CANCELLED | O_REJECTED

datatype market_order_side = O_BUY | O_SELL

fun market_order_status_str :: "market_order_status \<Rightarrow> string" where
  "market_order_status_str O_PENDING = ''pending''"
| "market_order_status_str O_TRIGGERED = ''triggered''"
| "market_order_status_str O_FILLED = ''filled''"
| "market_order_status_str O_CANCELLED = ''cancelled''"
| "market_order_status_str O_REJECTED = ''rejected''"

record market_order =
  or_id :: string
  or_userId :: string
  or_listingId :: string
  or_orderType :: market_order_type
  or_side :: market_order_side
  or_amount :: string
  or_price :: "string option"
  or_stopPrice :: "string option"
  or_stopPercentage :: "string option"
  or_status :: market_order_status
  or_filledAmount :: string
  or_triggeredAt :: "int option"
  or_executedAt :: "int option"
  or_createdAt :: int

record create_listing_dto =
  cl_title :: string
  cl_description :: "string field"
  cl_assetCode :: string
  cl_assetIssuer :: "string field"
  cl_amount :: string
  cl_price :: string
  cl_priceAssetCode :: "string field"

record update_listing_dto =
  ul_title :: "string field"
  ul_description :: "string field"
  ul_assetCode :: "string field"
  ul_assetIssuer :: "string field"
  ul_amount :: "string field"
  ul_price :: "string field"
  ul_priceAssetCode :: "string field"

record create_listing_order_dto =
  od_listingId :: string
  od_side :: market_order_side
  od_orderType :: market_order_type
  od_amount :: string
  od_price :: "string field"
  od_stopPercentage :: "string field"

record query_listing_dto =
  ql_page :: nat
  ql_limit :: nat
  ql_assetCode :: "string option"
  ql_status :: "listing_status option"

record query_listing_order_dto =
  qo_page :: nat
  qo_limit :: nat
  qo_orderType :: "market_order_type option"
  qo_status :: "market_order_status option"
  qo_listingId :: "string option"

record market_db =
  md_listings :: "listing list"
  md_orders :: "market_order list"

section \<open>Columns\<close>

text \<open>A literal in a \<^verbatim>\<open>numeric\<close> column, in a nullable one, and in one that a request may leave as it is.\<close>

definition numeric_overflow :: http_error where
  "numeric_overflow = QueryFailed ''numeric field overflow''"

definition store_numeric :: "(string \<Rightarrow> string option) \<Rightarrow> string \<Rightarrow> string result" where
  "store_numeric col s = (case col s of None \<Rightarrow> Inl numeric_overflow | Some t \<Rightarrow> Inr t)"

definition store_nullable :: "(string \<Rightarrow> string option) \<Rightarrow> string option \<Rightarrow> string option result" where
  "store_nullable col s = (case s of None \<Rightarrow> Inr None | Some t \<Rightarrow> rbind (store_numeric col t) (\<lambda>u. Inr (Some u)))"

definition assign_numeric :: "(string \<Rightarrow> string option) \<Rightarrow> string \<Rightarrow> string field \<Rightarrow> string \<Rightarrow> string result" where
  "assign_numeric col c f old = (case f of Undefined \<Rightarrow> Inr old | Null \<Rightarrow> Inl (not_null c) | Val v \<Rightarrow> store_numeric col v)"

section \<open>Listings\<close>

text \<open>The row of a new listing; the column default \<^verbatim>\<open>XLM\<close> fills an absent quote asset.\<close>

definition new_listing :: "market_env \<Rightarrow> string \<Rightarrow> create_listing_dto \<Rightarrow> listing result" where
  "new_listing me sellerId dto =
     rbind (store_numeric (mk_numeric7 me) (cl_amount dto)) (\<lambda>amt.
     rbind (store_numeric (mk_numeric7 me) (cl_price dto)) (\<lambda>pr.
     rbind (assign ''priceAssetCode'' (cl_priceAssetCode dto) ''XLM'') (\<lambda>pac.
       Inr \<lparr>li_id = mk_uuid me, li_title = cl_title dto, li_description = field_opt (cl_description dto),
            li_assetCode = cl_assetCode dto, li_assetIssuer = field_opt (cl_assetIssuer dto), li_amount = amt, li_price = pr,
            li_priceAssetCode = pac, li_status = L_ACTIVE, li_sellerId = sellerId, li_createdAt = mk_now me\<rparr>)))"

definition listing_create :: "market_env \<Rightarrow> string \<Rightarrow> create_listing_dto \<Rightarrow> market_db \<Rightarrow> listing result \<times> market_db" where
  "listing_create me sellerId dto db = (case new_listing me sellerId dto of
       Inl e \<Rightarrow> (Inl e, db)
     | Inr l \<Rightarrow> (Inr l, db\<lparr>md_listings := save_row li_id l (md_listings db)\<rparr>))"

definition listing_findAll :: "query_listing_dto \<Rightarrow> market_db \<Rightarrow> listing paginated_result" where
  "listing_findAll q db = page_of li_createdAt
     (filter (\<lambda>l. (case ql_status q of None \<Rightarrow> True | Some s \<Rightarrow> li_status l = s) \<and>
                  (truthy (ql_assetCode q) \<longrightarrow> ql_assetCode q = Some (li_assetCode l))) (md_listings db)) (ql_page q) (ql_limit q)"

definition listing_findOne :: "string \<Rightarrow> market_db \<Rightarrow> listing result" where
  "listing_findOne i db = (case row_by li_id i (md_listings db) of
       None \<Rightarrow> Inl (NotFound (''Listing '' @ i @ '' not found'')) | Some l \<Rightarrow> Inr l)"

definition assigned_listing :: "market_env \<Rightarrow> update_listing_dto \<Rightarrow> listing \<Rightarrow> listing result" where
  "assigned_listing me dto l =
     rbind (assign ''title'' (ul_title dto) (li_title l)) (\<lambda>t.
     rbind (assign ''assetCode'' (ul_assetCode dto) (li_assetCode l)) (\<lambda>ac.
     rbind (assign_numeric (mk_numeric7 me) ''amount'' (ul_amount dto) (li_amount l)) (\<lambda>amt.
     rbind (assign_numeric (mk_numeric7 me) ''price'' (ul_price dto) (li_price l)) (\<lambda>pr.
     rbind (assign ''priceAssetCode'' (ul_priceAssetCode dto) (li_priceAssetCode l)) (\<lambda>pac.
       Inr (l\<lparr>li_title := t, li_description := assign_nullable (ul_description dto) (li_description l), li_assetCode := ac,
              li_assetIssuer := assign_nullable (ul_assetIssuer dto) (li_assetIssuer l), li_amount := amt, li_price := pr,
              li_priceAssetCode := pac\<rparr>))))))"

definition listing_update :: "market_env \<Rightarrow> string \<Rightarrow> string \<Rightarrow> update_listing_dto \<Rightarrow> market_db \<Rightarrow> listing result \<times> market_db" where
  "listing_update me i userId dto db = (case listing_findOne i db of
       Inl e \<Rightarrow> (Inl e, db)
     | Inr l \<Rightarrow> if li_sellerId l \<noteq> userId then (Inl (Forbidden ''Not your listing''), db)
         else case assigned_listing me dto l of
           Inl e \<Rightarrow> (Inl e, db)
         | Inr l' \<Rightarrow> (Inr l', db\<lparr>md_listings := save_row li_id l' (md_listings db)\<rparr>))"

definition listing_cancel :: "string \<Rightarrow> string \<Rightarrow> market_db \<Rightarrow> listing result \<times> market_db" where
  "listing_cancel i userId db = (case listing_findOne i db of
       Inl e \<Rightarrow> (Inl e, db)
     | Inr l \<Rightarrow> if li_sellerId l \<noteq> userId then (Inl (Forbidden ''You do not own this listing''), db)
         else let l' = l\<lparr>li_status := L_CANCELLED\<rparr> in (Inr l', db\<lparr>md_listings := save_row li_id l' (md_listings db)\<rparr>))"

definition assertOwnership :: "listing \<Rightarrow> string \<Rightarrow> unit result" where
  "assertOwnership l userId = (if li_sellerId l \<noteq> userId then Inl (Forbidden ''You do not own this listing'') else Inr ())"

section \<open>Orders\<close>

definition new_listing_order :: "market_env \<Rightarrow> string \<Rightarrow> create_listing_order_dto \<Rightarrow> market_order result" where
  "new_listing_order me buyerId dto =
     rbind (store_numeric (mk_numeric7 me) (od_amount dto)) (\<lambda>amt.
     rbind (store_nullable (mk_numeric7 me) (field_opt (od_price dto))) (\<lambda>pr.
     rbind (store_nullable (mk_numeric2 me) (field_opt (od_stopPercentage dto))) (\<lambda>pct.
     rbind (store_numeric (mk_numeric7 me) ''0'') (\<lambda>z.
       Inr \<lparr>or_id = mk_uuid me, or_userId = buyerId, or_listingId = od_listingId dto, or_orderType = od_orderType dto,
            or_side = od_side dto, or_amount = amt, or_price = pr, or_stopPrice = None, or_stopPercentage = pct,
            or_status = O_PENDING, or_filledAmount = z, or_triggeredAt = None, or_executedAt = None, or_createdAt = mk_now me\<rparr>))))"

definition listing_createOrder :: "market_env \<Rightarrow> string \<Rightarrow> create_listing_order_dto \<Rightarrow> market_db \<Rightarrow> market_order result \<times> market_db" where
  "listing_createOrder me buyerId dto db =
     (if \<not> mk_is_uuid me (od_listingId dto)
      then (Inl (QueryFailed (''invalid input syntax for type uuid: '' @ od_listingId dto)), db)
      else case find (\<lambda>l. li_id l = od_listingId dto \<and> li_status l = L_ACTIVE) (md_listings db) of
        None \<Rightarrow> (Inl (NotFound ''Listing not found or not active''), db)
      | Some l \<Rightarrow>
          if od_orderType dto = O_LIMIT \<and> \<not> truthy (field_opt (od_price dto)) then (Inl (BadRequest ''Limit orders require a price''), db)
          else if od_orderType dto = O_STOP_LOSS \<and> \<not> truthy (field_opt (od_price dto))
          then (Inl (BadRequest ''Stop-loss orders require a price (stop price)''), db)
          else case new_listing_order me buyerId dto of
            Inl e \<Rightarrow> (Inl e, db)
          | Inr x \<Rightarrow> (Inr x, db\<lparr>md_orders := save_row or_id x (md_orders db)\<rparr>))"

definition findAllOrders :: "query_listing_order_dto \<Rightarrow> market_db \<Rightarrow> market_order paginated_result" where
  "findAllOrders q db = page_of or_createdAt
     (filter (\<lambda>x. (case qo_status q of None \<Rightarrow> True | Some s \<Rightarrow> or_status x = s) \<and>
                  (case qo_orderType q of None \<Rightarrow> True | Some t \<Rightarrow> or_orderType x = t) \<and>
                  (truthy (qo_listingId q) \<longrightarrow> qo_listingId q = Some (or_listingId x))) (md_orders db)) (qo_page q) (qo_limit q)"

definition findOneOrder :: "string \<Rightarrow> market_db \<Rightarrow> market_order result" where
  "findOneOrder i db = (case row_by or_id i (md_orders db) of None \<Rightarrow> Inl (NotFound ''Order not found'') | Some x \<Rightarrow> Inr x)"

text \<open>
  Cancelling and triggering read the order, check it and write it back; other requests can run in between.
  The check and the write are definitions of their own, and the handler is their composition.
\<close>

definition save_order :: "market_order \<Rightarrow> market_db \<Rightarrow> market_db" where
  "save_order x db = db\<lparr>md_orders := save_row or_id x (md_orders db)\<rparr>"

definition cancel_check :: "string \<Rightarrow> string \<Rightarrow> market_db \<Rightarrow> market_order result" where
  "cancel_check i userId db =
     rbind (findOneOrder i db) (\<lambda>x.
       if or_userId x \<noteq> userId then Inl (Forbidden ''Not your order'')
       else if or_status x \<noteq> O_PENDING then Inl (BadRequest ''Only pending orders can be cancelled'')
       else Inr (x\<lparr>or_status := O_CANCELLED\<rparr>))"

definition listing_cancelOrder :: "string \<Rightarrow> string \<Rightarrow> market_db \<Rightarrow> market_order result \<times> market_db" where
  "listing_cancelOrder i userId db = (case cancel_check i userId db of
       Inl e \<Rightarrow> (Inl e, db) | Inr x \<Rightarrow> (Inr x, save_order x db))"

definition trigger_price :: "market_order \<Rightarrow> jnum" where
  "trigger_price x = (if or_orderType x = O_STOP_LOSS \<or> or_orderType x = O_TRAILING_STOP
     then parse_float (case or_stopPrice x of None \<Rightarrow> ''0'' | Some s \<Rightarrow> s)
     else parse_float (case or_price x of None \<Rightarrow> ''0'' | Some s \<Rightarrow> s))"

definition evaluateOrderTrigger :: "market_order \<Rightarrow> jnum \<Rightarrow> bool" where
  "evaluateOrderTrigger x currentPrice \<longleftrightarrow>
     (if or_orderType x = O_MARKET then False
      else let price = trigger_price x in
        if price = None \<or> js_leq price (Some 0) then False
        else case or_orderType x of
          O_LIMIT \<Rightarrow> if or_side x = O_BUY then js_leq currentPrice price else js_leq price currentPrice
        | O_STOP_LOSS \<Rightarrow> if or_side x = O_BUY then js_leq price currentPrice else js_leq currentPrice price
        | O_TRAILING_STOP \<Rightarrow> if or_side x = O_BUY then js_leq price currentPrice else js_leq currentPrice price
        | O_MARKET \<Rightarrow> False)"

definition trigger_check :: "int \<Rightarrow> string \<Rightarrow> market_db \<Rightarrow> market_order result" where
  "trigger_check tm i db =
     rbind (findOneOrder i db) (\<lambda>x.
       if or_status x \<noteq> O_PENDING
       then Inl (BadRequest (''Only pending orders can be triggered; current status is '' @ market_order_status_str (or_status x)))
       else Inr (x\<lparr>or_status := O_TRIGGERED, or_triggeredAt := Some tm\<rparr>))"

definition triggerOrder :: "int \<Rightarrow> string \<Rightarrow> market_db \<Rightarrow> market_order result \<times> market_db" where
  "triggerOrder tm i db = (case trigger_check tm i db of
       Inl e \<Rightarrow> (Inl e, db) | Inr x \<Rightarrow> (Inr x, save_order x db))"

text \<open>
  The loop over the orders that were read: each one that is due is triggered, and the first error ends the
  loop. Before each call other requests may have run: \<open>others\<close> lists what they did to the tables.
\<close>

fun trigger_loop :: "int \<Rightarrow> jnum \<Rightarrow> market_order list \<Rightarrow> (market_db \<Rightarrow> market_db) list \<Rightarrow> market_db \<Rightarrow> market_order list result \<times> market_db" where
  "trigger_loop tm p [] others db = (Inr [], db)"
| "trigger_loop tm p (x # xs) others db =
     (if evaluateOrderTrigger x p
      then case triggerOrder tm (or_id x) (case others of [] \<Rightarrow> db | f # _ \<Rightarrow> f db) of
        (Inl e, db') \<Rightarrow> (Inl e, db')
      | (Inr y, db') \<Rightarrow> (case trigger_loop tm p xs (tl others) db' of
            (Inl e, db'') \<Rightarrow> (Inl e, db'') | (Inr ys, db'') \<Rightarrow> (Inr (y # ys), db''))
      else trigger_loop tm p xs others db)"

definition pendingOrders :: "market_db \<Rightarrow> market_order list" where
  "pendingOrders db = filter (\<lambda>x. or_status x = O_PENDING) (md_orders db)"

definition monitorAndTriggerOrders :: "int \<Rightarrow> jnum \<Rightarrow> (market_db \<Rightarrow> market_db) list \<Rightarrow> market_db \<Rightarrow> market_order list result \<times> market_db" where
  "monitorAndTriggerOrders tm p others db = trigger_loop tm p (pendingOrders db) others db"

section \<open>The monitoring job\<close>

text \<open>The market price of a listing; \<open>None\<close> for the tables of the oracle means that it throws.\<close>

definition getCurrentPrice :: "liq_db option \<Rightarrow> listing \<Rightarrow> jnum" where
  "getCurrentPrice lq l =
     (let fallback = parse_float (li_price l) in
      case lq of None \<Rightarrow> fallback
      | Some db \<Rightarrow> let a = getAggregatedPrice (li_assetCode l) (li_assetIssuer l) (li_priceAssetCode l) None db in
          if 0 < ap_poolCount a \<and> js_less (Some 0) (ap_weightedPrice a) then ap_weightedPrice a else fallback)"

definition group_step :: "(string \<times> market_order list) list \<Rightarrow> market_order \<Rightarrow> (string \<times> market_order list) list" where
  "group_step m x = (if or_orderType x = O_MARKET then m
     else map_set (or_listingId x) ((case map_of m (or_listingId x) of None \<Rightarrow> [] | Some g \<Rightarrow> g) @ [x]) m)"

definition ordersByListing :: "market_order list \<Rightarrow> (string \<times> market_order list) list" where
  "ordersByListing xs = foldl group_step [] xs"

fun listing_loop :: "int \<Rightarrow> liq_db option \<Rightarrow> (string \<times> market_order list) list \<Rightarrow> market_db \<Rightarrow> unit result \<times> market_db" where
  "listing_loop tm lq [] db = (Inr (), db)"
| "listing_loop tm lq ((lid, xs) # gs) db =
     (case row_by li_id lid (md_listings db) of
        None \<Rightarrow> listing_loop tm lq gs db
      | Some l \<Rightarrow> let p = getCurrentPrice lq l in
          if p = None \<or> js_leq p (Some 0) then listing_loop tm lq gs db
          else case trigger_loop tm p xs [] db of
            (Inl e, db') \<Rightarrow> (Inl e, db')
          | (Inr _, db') \<Rightarrow> listing_loop tm lq gs db')"

text \<open>One time stands for the whole run; the code reads the clock again for each order that it triggers.\<close>

definition checkPendingOrders :: "int \<Rightarrow> liq_db option \<Rightarrow> market_db \<Rightarrow> unit result \<times> market_db" where
  "checkPendingOrders tm lq db =
     (if pendingOrders db = [] then (Inr (), db)
      else listing_loop tm lq (ordersByListing (pendingOrders db)) db)"

end
