(* ===== verification/Market_Props.thy ===== *)
theory Market_Props
  imports Marketplace
begin

text \<open>
  What the marketplace promises: the monitoring job triggers exactly the orders that are due; under any
  interleaving of requests and jobs (\<open>market_run\<close>) only limit orders trigger and none is filled; and two ways a
  cancellation and a trigger that run at the same time disturb each other.
\<close>

section \<open>The monitoring job\<close>

definition triggered_at :: "int \<Rightarrow> market_order \<Rightarrow> market_order" where
  "triggered_at tm x = x\<lparr>or_status := O_TRIGGERED, or_triggeredAt := Some tm\<rparr>"

definition trigger_ids :: "int \<Rightarrow> string set \<Rightarrow> market_db \<Rightarrow> market_db" where
  "trigger_ids tm S db = db\<lparr>md_orders := map (\<lambda>x. if or_id x \<in> S then triggered_at tm x else x) (md_orders db)\<rparr>"

lemma triggered_at_simps [simp]:
  "or_id (triggered_at tm x) = or_id x" "triggered_at tm (triggered_at tm x) = triggered_at tm x"
  "or_status (triggered_at tm x) = O_TRIGGERED" "or_listingId (triggered_at tm x) = or_listingId x"
  by (simp_all add: triggered_at_def)

lemma trigger_ids_simps [simp]:
  "md_listings (trigger_ids tm S db) = md_listings db"
  "map or_id (md_orders (trigger_ids tm S db)) = map or_id (md_orders db)"
  "keys_distinct or_id (md_orders (trigger_ids tm S db)) \<longleftrightarrow> keys_distinct or_id (md_orders db)"
  "trigger_ids tm {} db = db"
  by (simp_all add: trigger_ids_def keys_distinct_def comp_def if_distrib cong: if_cong)

lemma trigger_ids_twice [simp]: "trigger_ids tm S (trigger_ids tm T db) = trigger_ids tm (S \<union> T) db"
  by (simp add: trigger_ids_def comp_def)

lemma kept_by_trigger_ids: "x \<in> set (md_orders db) \<Longrightarrow> or_id x \<notin> S \<Longrightarrow> x \<in> set (md_orders (trigger_ids tm S db))"
  by (force simp: trigger_ids_def)

lemma triggerOrder_pending:
  assumes "keys_distinct or_id (md_orders db)" and "x \<in> set (md_orders db)" and "or_status x = O_PENDING"
  shows "triggerOrder tm (or_id x) db = (Inr (triggered_at tm x), trigger_ids tm {or_id x} db)"
proof -
  have r: "row_by or_id (or_id x) (md_orders db) = Some x" using assms by (simp add: row_by_distinct)
  then have "save_row or_id (triggered_at tm x) (md_orders db) = map (\<lambda>y. if or_id y = or_id x then triggered_at tm x else y) (md_orders db)"
    using assms(1) by (subst save_row_as_map [where r = x]) simp_all
  also have "\<dots> = map (\<lambda>y. if or_id y = or_id x then triggered_at tm y else y) (md_orders db)"
    using assms(1,2) by (auto simp: keys_distinct_def distinct_map dest: inj_onD)
  finally show ?thesis using r assms(3)
    by (simp add: triggerOrder_def trigger_check_def findOneOrder_def save_order_def trigger_ids_def triggered_at_def)
qed

text \<open>Orders that were read as pending and are still in the table: a loop over them triggers those that are due.\<close>

definition scanned :: "market_order list \<Rightarrow> market_db \<Rightarrow> bool" where
  "scanned xs db \<longleftrightarrow> keys_distinct or_id (md_orders db) \<and> distinct (map or_id xs) \<and>
     (\<forall>x \<in> set xs. x \<in> set (md_orders db) \<and> or_status x = O_PENDING)"

lemma trigger_loop_undisturbed:
  "scanned xs db \<Longrightarrow> trigger_loop tm p xs [] db =
     (Inr (map (triggered_at tm) (filter (\<lambda>x. evaluateOrderTrigger x p) xs)),
      trigger_ids tm (or_id ` {x \<in> set xs. evaluateOrderTrigger x p}) db)"
proof (induction xs arbitrary: db)
  case Nil
  show ?case by simp
next
  case (Cons x xs)
  show ?case
  proof (cases "evaluateOrderTrigger x p")
    case False
    with Cons have "trigger_loop tm p (x # xs) [] db = (Inr (map (triggered_at tm) (filter (\<lambda>x. evaluateOrderTrigger x p) xs)),
      trigger_ids tm (or_id ` {x \<in> set xs. evaluateOrderTrigger x p}) db)" by (simp add: scanned_def)
    moreover have "{y. (y = x \<or> y \<in> set xs) \<and> evaluateOrderTrigger y p} = {y \<in> set xs. evaluateOrderTrigger y p}" using False by auto
    ultimately show ?thesis using False by simp
  next
    case True
    have t: "triggerOrder tm (or_id x) db = (Inr (triggered_at tm x), trigger_ids tm {or_id x} db)"
      using Cons.prems by (intro triggerOrder_pending) (auto simp: scanned_def)
    have "scanned xs (trigger_ids tm {or_id x} db)" using Cons.prems
      by (auto simp: scanned_def intro!: kept_by_trigger_ids intro: rev_image_eqI dest: sym)
    from Cons.IH [OF this] True t have "trigger_loop tm p (x # xs) [] db =
      (Inr (map (triggered_at tm) (filter (\<lambda>x. evaluateOrderTrigger x p) (x # xs))),
       trigger_ids tm (or_id ` {x \<in> set xs. evaluateOrderTrigger x p} \<union> {or_id x}) db)" by simp
    moreover have "or_id ` {y. (y = x \<or> y \<in> set xs) \<and> evaluateOrderTrigger y p} = or_id ` {x \<in> set xs. evaluateOrderTrigger x p} \<union> {or_id x}"
      using True by auto
    ultimately show ?thesis by simp
  qed
qed

text \<open>The groups of the job: one per listing, with the orders of that listing in the order they were read.\<close>

lemma ordersByListing_snoc: "ordersByListing (xs @ [x]) = group_step (ordersByListing xs) x"
  by (simp add: ordersByListing_def)

lemma distinct_ordersByListing: "distinct (map fst (ordersByListing xs))"
  by (induction xs rule: rev_induct) (auto simp: ordersByListing_snoc group_step_def distinct_map_set ordersByListing_def)

lemma ordersByListing_groups:
  "map_of (ordersByListing xs) lid = (let g = filter (\<lambda>x. or_orderType x \<noteq> O_MARKET \<and> or_listingId x = lid) xs in if g = [] then None else Some g)"
proof (induction xs arbitrary: lid rule: rev_induct)
  case Nil
  show ?case by (simp add: ordersByListing_def)
next
  case (snoc x xs)
  then show ?case by (simp add: ordersByListing_snoc group_step_def Let_def)
qed

definition due_at :: "liq_db option \<Rightarrow> listing list \<Rightarrow> string \<Rightarrow> market_order \<Rightarrow> bool" where
  "due_at lq ls lid x \<longleftrightarrow> (case row_by li_id lid ls of None \<Rightarrow> False
     | Some l \<Rightarrow> js_less (Some 0) (getCurrentPrice lq l) \<and> evaluateOrderTrigger x (getCurrentPrice lq l))"

lemma no_price: "p = None \<or> js_leq p (Some 0) \<longleftrightarrow> \<not> js_less (Some 0) p"
  by (cases p) auto

definition grouped :: "(string \<times> market_order list) list \<Rightarrow> market_db \<Rightarrow> bool" where
  "grouped gs db \<longleftrightarrow> distinct (map fst gs) \<and> keys_distinct or_id (md_orders db) \<and>
     (\<forall>(lid, xs) \<in> set gs. scanned xs db \<and> (\<forall>x \<in> set xs. or_listingId x = lid))"

lemma listing_loop_undisturbed:
  "grouped gs db \<Longrightarrow> listing_loop tm lq gs db =
     (Inr (), trigger_ids tm {or_id x | x lid xs. (lid, xs) \<in> set gs \<and> x \<in> set xs \<and> due_at lq (md_listings db) lid x} db)"
  (is "_ \<Longrightarrow> _ = (_, trigger_ids tm (?ids gs db) db)")
proof (induction gs arbitrary: db)
  case Nil
  show ?case by simp
next
  case (Cons g gs)
  obtain lid xs where g: "g = (lid, xs)" by force
  define S where S: "S = or_id ` {x \<in> set xs. due_at lq (md_listings db) lid x}"
  have ids: "?ids (g # gs) db = ?ids gs db \<union> S" unfolding g S by auto
  have "grouped gs (trigger_ids tm S db)"
  proof -
    have "x \<in> set (md_orders (trigger_ids tm S db))" if "(lid', ys) \<in> set gs" "x \<in> set ys" for lid' ys x
    proof -
      have "scanned ys db \<and> (\<forall>x \<in> set ys. or_listingId x = lid')" using Cons.prems that(1) by (auto simp: grouped_def)
      then have "x \<in> set (md_orders db)" "or_listingId x = lid'" "keys_distinct or_id (md_orders db)" using that(2) by (auto simp: scanned_def)
      moreover have "lid' \<noteq> lid" using Cons.prems that(1) unfolding g by (auto simp: grouped_def intro: rev_image_eqI)
      moreover have "y \<in> set (md_orders db) \<and> or_listingId y = lid" if "y \<in> set xs" for y
        using that Cons.prems g by (auto simp: grouped_def scanned_def)
      ultimately have "or_id x \<notin> S" by (auto simp: S keys_distinct_def distinct_map dest: inj_onD)
      then show ?thesis using \<open>x \<in> set (md_orders db)\<close> by (simp add: kept_by_trigger_ids)
    qed
    then show ?thesis using Cons.prems by (force simp: grouped_def scanned_def)
  qed
  from Cons.IH [OF this] have rest: "listing_loop tm lq gs (trigger_ids tm S db) = (Inr (), trigger_ids tm (?ids gs db \<union> S) db)" by simp
  have "scanned xs db" using Cons.prems g by (simp add: grouped_def)
  note loop = trigger_loop_undisturbed [OF this]
  show ?case
  proof (cases "row_by li_id lid (md_listings db)")
    case None
    then have "S = {}" by (simp add: S due_at_def)
    then show ?thesis using rest None unfolding ids by (simp add: g)
  next
    case (Some l)
    show ?thesis
    proof (cases "js_less (Some 0) (getCurrentPrice lq l)")
      case False
      then have "S = {}" using Some by (simp add: S due_at_def)
      then show ?thesis using rest Some False unfolding ids by (simp add: g Let_def no_price)
    next
      case True
      then have "or_id ` {x \<in> set xs. evaluateOrderTrigger x (getCurrentPrice lq l)} = S"
        using Some by (simp add: S due_at_def)
      then show ?thesis using rest Some True loop unfolding ids by (simp add: g Let_def no_price)
    qed
  qed
qed

text \<open>
  C34. A run of the monitoring job that no other request disturbs ends without an error and triggers exactly
  the orders whose condition holds: every pending order whose listing exists, has a positive price (of the
  oracle, or its own when the oracle has none) and meets the condition of the order becomes triggered with the
  time of the run; every other order and every listing is as before.
\<close>

theorem checkPendingOrders_exact:
  assumes "keys_distinct or_id (md_orders db)"
  shows "checkPendingOrders tm lq db = (Inr (), db\<lparr>md_orders :=
    map (\<lambda>x. if or_status x = O_PENDING \<and> (\<exists>l. row_by li_id (or_listingId x) (md_listings db) = Some l \<and>
            js_less (Some 0) (getCurrentPrice lq l) \<and> evaluateOrderTrigger x (getCurrentPrice lq l))
        then x\<lparr>or_status := O_TRIGGERED, or_triggeredAt := Some tm\<rparr> else x) (md_orders db)\<rparr>)"
proof -
  let ?ps = "pendingOrders db" and ?gs = "ordersByListing (pendingOrders db)"
  have grp: "(lid, xs) \<in> set ?gs \<longleftrightarrow> xs \<noteq> [] \<and> xs = filter (\<lambda>x. or_orderType x \<noteq> O_MARKET \<and> or_listingId x = lid) ?ps" for lid xs
  proof -
    have "(lid, xs) \<in> set ?gs \<longleftrightarrow> map_of ?gs lid = Some xs" using distinct_ordersByListing by simp
    then show ?thesis by (auto simp: ordersByListing_groups Let_def)
  qed
  have "distinct (map or_id (filter P ?ps))" for P
    using assms by (simp add: pendingOrders_def keys_distinct_def distinct_map_filter)
  moreover have ps: "x \<in> set ?ps \<longleftrightarrow> x \<in> set (md_orders db) \<and> or_status x = O_PENDING" for x by (auto simp: pendingOrders_def)
  ultimately have gr: "grouped ?gs db" using assms by (auto simp: grouped_def scanned_def distinct_ordersByListing grp)
  define T where T: "T = {or_id x | x lid xs. (lid, xs) \<in> set ?gs \<and> x \<in> set xs \<and> due_at lq (md_listings db) lid x}"
  from listing_loop_undisturbed [OF gr] have loop: "listing_loop tm lq ?gs db = (Inr (), trigger_ids tm T db)"
    unfolding T .
  have mem: "or_id x \<in> T \<longleftrightarrow>
    or_status x = O_PENDING \<and> due_at lq (md_listings db) (or_listingId x) x" if "x \<in> set (md_orders db)" for x
  proof
    assume "or_status x = O_PENDING \<and> due_at lq (md_listings db) (or_listingId x) x"
    moreover from this have "or_orderType x \<noteq> O_MARKET" by (auto simp: due_at_def evaluateOrderTrigger_def split: option.splits)
    ultimately show "or_id x \<in> T"
      using that by (auto simp: T grp ps filter_empty_conv intro!: exI [of _ x] bexI [of _ x])
  next
    assume "or_id x \<in> T"
    then obtain y where "or_id x = or_id y" "y \<in> set (md_orders db)" "or_status y = O_PENDING" "due_at lq (md_listings db) (or_listingId y) y"
      by (auto simp: T grp ps)
    moreover from this that assms have "x = y" by (auto simp: keys_distinct_def distinct_map dest: inj_onD)
    ultimately show "or_status x = O_PENDING \<and> due_at lq (md_listings db) (or_listingId x) x" by simp
  qed
  have "checkPendingOrders tm lq db = listing_loop tm lq ?gs db" by (simp add: checkPendingOrders_def ordersByListing_def)
  moreover have "map (\<lambda>x. if or_id x \<in> T then triggered_at tm x else x) (md_orders db) =
    map (\<lambda>x. if or_status x = O_PENDING \<and> (\<exists>l. row_by li_id (or_listingId x) (md_listings db) = Some l \<and>
            js_less (Some 0) (getCurrentPrice lq l) \<and> evaluateOrderTrigger x (getCurrentPrice lq l))
        then x\<lparr>or_status := O_TRIGGERED, or_triggeredAt := Some tm\<rparr> else x) (md_orders db)"
    by (auto simp: mem due_at_def triggered_at_def split: option.splits)
  ultimately show ?thesis by (simp add: loop trigger_ids_def)
qed

section \<open>Requests and jobs side by side\<close>

text \<open>
  The orders under concurrent requests. A scan of a job reads pending orders; a trigger or a cancellation reads
  and checks its order, and its write is a step of its own, so anything can happen between. Everything else is
  one step. A new row has an identifier no row has.
\<close>

record market_world =
  mw_db :: market_db
  mw_scans :: "market_order list"
  mw_writes :: "market_order list"

inductive market_run :: "market_world \<Rightarrow> bool" where
  mr_start: "market_run \<lparr>mw_db = \<lparr>md_listings = [], md_orders = []\<rparr>, mw_scans = [], mw_writes = []\<rparr>"
| mr_listing: "market_run w \<Longrightarrow> market_run (w\<lparr>mw_db := snd (listing_create me u dto (mw_db w))\<rparr>)"
| mr_update: "market_run w \<Longrightarrow> market_run (w\<lparr>mw_db := snd (listing_update me i u upd (mw_db w))\<rparr>)"
| mr_withdraw: "market_run w \<Longrightarrow> market_run (w\<lparr>mw_db := snd (listing_cancel i u (mw_db w))\<rparr>)"
| mr_order: "market_run w \<Longrightarrow> mk_uuid me \<notin> or_id ` set (md_orders (mw_db w)) \<Longrightarrow>
    market_run (w\<lparr>mw_db := snd (listing_createOrder me u od (mw_db w))\<rparr>)"
| mr_scan: "market_run w \<Longrightarrow> market_run (w\<lparr>mw_scans := mw_scans w @ pendingOrders (mw_db w)\<rparr>)"
| mr_trigger: "market_run w \<Longrightarrow> x \<in> set (mw_scans w) \<Longrightarrow> evaluateOrderTrigger x p \<Longrightarrow> trigger_check tm (or_id x) (mw_db w) = Inr y \<Longrightarrow>
    market_run (w\<lparr>mw_writes := y # mw_writes w\<rparr>)"
| mr_cancel: "market_run w \<Longrightarrow> cancel_check i u (mw_db w) = Inr y \<Longrightarrow> market_run (w\<lparr>mw_writes := y # mw_writes w\<rparr>)"
| mr_write: "market_run w \<Longrightarrow> y \<in> set (mw_writes w) \<Longrightarrow>
    market_run (w\<lparr>mw_db := save_order y (mw_db w), mw_writes := remove1 y (mw_writes w)\<rparr>)"

text \<open>What never changes in an order.\<close>

definition order_terms :: "market_order \<Rightarrow> market_order" where
  "order_terms x = x\<lparr>or_status := O_PENDING, or_triggeredAt := None\<rparr>"

definition order_ok :: "market_order \<Rightarrow> bool" where
  "order_ok x \<longleftrightarrow> or_stopPrice x = None \<and> or_executedAt x = None \<and>
     (or_status x = O_PENDING \<or> or_status x = O_CANCELLED \<or> or_status x = O_TRIGGERED \<and> or_orderType x = O_LIMIT \<and> js_less (Some 0) (trigger_price x))"

definition world_orders :: "market_world \<Rightarrow> market_order set" where
  "world_orders w = set (md_orders (mw_db w)) \<union> set (mw_scans w) \<union> set (mw_writes w)"

definition terms_agree :: "market_order set \<Rightarrow> bool" where
  "terms_agree S \<longleftrightarrow> (\<forall>x \<in> S. \<forall>y \<in> S. or_id x = or_id y \<longrightarrow> order_terms x = order_terms y)"

lemma terms_agreeD: "terms_agree S \<Longrightarrow> x \<in> S \<Longrightarrow> y \<in> S \<Longrightarrow> or_id x = or_id y \<Longrightarrow> order_terms x = order_terms y"
  unfolding terms_agree_def by blast

lemma terms_agree_subset: "terms_agree S \<Longrightarrow> T \<subseteq> S \<Longrightarrow> terms_agree T"
  unfolding terms_agree_def by blast

lemma terms_agree_insert:
  assumes "terms_agree S" and "\<And>z. z \<in> S \<Longrightarrow> or_id z = or_id y \<Longrightarrow> order_terms z = order_terms y"
  shows "terms_agree (insert y S)"
  unfolding terms_agree_def
proof (intro ballI impI)
  fix a b
  assume "a \<in> insert y S" "b \<in> insert y S" "or_id a = or_id b"
  then show "order_terms a = order_terms b"
    by (elim insertE) (blast intro: assms(2) assms(2) [symmetric] terms_agreeD [OF assms(1)] sym [of "or_id _"])+
qed

definition world_ok :: "market_world \<Rightarrow> bool" where
  "world_ok w \<longleftrightarrow> keys_distinct or_id (md_orders (mw_db w)) \<and>
     (\<forall>x \<in> world_orders w. order_ok x \<and> or_id x \<in> or_id ` set (md_orders (mw_db w))) \<and>
     terms_agree (world_orders w)"

lemma order_terms_same:
  assumes "order_terms x = order_terms y"
  shows "or_orderType x = or_orderType y" "trigger_price x = trigger_price y" "or_stopPrice x = or_stopPrice y"
    "or_executedAt x = or_executedAt y" "or_id x = or_id y"
proof -
  from assms have "or_orderType (order_terms x) = or_orderType (order_terms y)" "or_price (order_terms x) = or_price (order_terms y)"
    "or_stopPrice (order_terms x) = or_stopPrice (order_terms y)" "or_executedAt (order_terms x) = or_executedAt (order_terms y)"
    "or_id (order_terms x) = or_id (order_terms y)" by simp_all
  then show "or_orderType x = or_orderType y" "trigger_price x = trigger_price y" "or_stopPrice x = or_stopPrice y"
    "or_executedAt x = or_executedAt y" "or_id x = or_id y" by (simp_all add: order_terms_def trigger_price_def)
qed

text \<open>An order without a stop price is due only if it is a limit order with a positive price.\<close>

lemma due_without_stop:
  assumes "or_stopPrice x = None" and "evaluateOrderTrigger x p"
  shows "or_orderType x = O_LIMIT" "js_less (Some 0) (trigger_price x)"
proof -
  have z: "parse_float ''0'' = Some 0" by code_simp
  show "or_orderType x = O_LIMIT" using assms z
    by (cases "or_orderType x") (auto simp: evaluateOrderTrigger_def trigger_price_def)
  show "js_less (Some 0) (trigger_price x)" using assms
    by (cases "trigger_price x") (auto simp: evaluateOrderTrigger_def Let_def split: if_splits)
qed

lemma trigger_checkD:
  assumes "trigger_check tm i db = Inr y"
  shows "\<exists>x \<in> set (md_orders db). or_id x = i \<and> y = x\<lparr>or_status := O_TRIGGERED, or_triggeredAt := Some tm\<rparr>"
  using assms by (auto simp: trigger_check_def findOneOrder_def rbind_Inr_iff split: option.splits if_splits dest: row_by_SomeD)

lemma cancel_checkD:
  assumes "cancel_check i u db = Inr y"
  shows "\<exists>x \<in> set (md_orders db). or_id x = i \<and> y = x\<lparr>or_status := O_CANCELLED\<rparr>"
  using assms by (auto simp: cancel_check_def findOneOrder_def rbind_Inr_iff split: option.splits if_splits dest: row_by_SomeD)

lemma order_terms_update [simp]:
  "order_terms (x\<lparr>or_status := s\<rparr>) = order_terms x" "order_terms (x\<lparr>or_triggeredAt := t\<rparr>) = order_terms x"
  by (simp_all add: order_terms_def)

lemma new_listing_order_fields:
  "new_listing_order me u dto = Inr x \<Longrightarrow> or_id x = mk_uuid me \<and> order_ok x"
  by (auto simp: new_listing_order_def rbind_Inr_iff order_ok_def)

text \<open>A write that is checked against a row of the table keeps the world in order.\<close>

lemma world_ok_pending_write:
  assumes "world_ok w" and "x \<in> set (md_orders (mw_db w))" and "order_terms y = order_terms x" and "order_ok y"
  shows "world_ok (w\<lparr>mw_writes := y # mw_writes w\<rparr>)"
proof -
  have "or_id y = or_id x" using assms(3) by (rule order_terms_same(5))
  moreover have new: "world_orders (w\<lparr>mw_writes := y # mw_writes w\<rparr>) = insert y (world_orders w)" and x: "x \<in> world_orders w"
    using assms(2) by (auto simp: world_orders_def)
  moreover have "terms_agree (insert y (world_orders w))"
    using assms(1,3) x \<open>or_id y = or_id x\<close> by (auto simp: world_ok_def intro!: terms_agree_insert dest: terms_agreeD [of _ _ x])
  ultimately show ?thesis using assms(1,2,4) unfolding world_ok_def new by simp
qed

lemma world_ok_listings:
  "md_orders db = md_orders (mw_db w) \<Longrightarrow> world_ok (w\<lparr>mw_db := db\<rparr>) \<longleftrightarrow> world_ok w"
  by (simp add: world_ok_def world_orders_def)

lemma listing_steps_keep_orders:
  "md_orders (snd (listing_create me u dto db)) = md_orders db"
  "md_orders (snd (listing_update me i u upd db)) = md_orders db"
  "md_orders (snd (listing_cancel i u db)) = md_orders db"
  by (simp_all add: listing_create_def listing_update_def listing_cancel_def Let_def split: sum.split)

lemma listing_createOrder_cases:
  "snd (listing_createOrder me u od db) = db \<or> (\<exists>x. new_listing_order me u od = Inr x \<and> snd (listing_createOrder me u od db) = save_order x db)"
  by (simp add: listing_createOrder_def save_order_def split: option.split sum.split)

lemma world_ok_new_order:
  assumes "world_ok w" and "mk_uuid me \<notin> or_id ` set (md_orders (mw_db w))"
  shows "world_ok (w\<lparr>mw_db := snd (listing_createOrder me u od (mw_db w))\<rparr>)"
proof -
  consider "md_orders (snd (listing_createOrder me u od (mw_db w))) = md_orders (mw_db w)"
    | x where "new_listing_order me u od = Inr x" "md_orders (snd (listing_createOrder me u od (mw_db w))) = save_row or_id x (md_orders (mw_db w))"
    using listing_createOrder_cases [of me u od "mw_db w"] by (auto simp: save_order_def)
  then show ?thesis
  proof cases
    case 1
    then show ?thesis using assms by (simp add: world_ok_listings)
  next
    case 2
    from new_listing_order_fields [OF 2(1)] have x: "or_id x = mk_uuid me" "order_ok x" by simp_all
    then have "row_by or_id (or_id x) (md_orders (mw_db w)) = None" using assms(2) by (simp add: row_by_None_iff)
    then have "save_row or_id x (md_orders (mw_db w)) = md_orders (mw_db w) @ [x]" by (rule save_row_new)
    then have orders: "md_orders (snd (listing_createOrder me u od (mw_db w))) = md_orders (mw_db w) @ [x]" using 2(2) by simp
    have "or_id z \<noteq> or_id x" if "z \<in> world_orders w" for z
      using that assms x unfolding world_ok_def by metis
    then have "terms_agree (insert x (world_orders w))" using assms by (auto simp: world_ok_def intro: terms_agree_insert)
    moreover have new: "world_orders (w\<lparr>mw_db := snd (listing_createOrder me u od (mw_db w))\<rparr>) = insert x (world_orders w)"
      by (auto simp: world_orders_def orders)
    ultimately show ?thesis using assms x unfolding world_ok_def new by (auto simp: orders keys_distinct_def)
  qed
qed

lemma world_ok_write:
  assumes "world_ok w" and "y \<in> set (mw_writes w)"
  shows "world_ok (w\<lparr>mw_db := save_order y (mw_db w), mw_writes := remove1 y (mw_writes w)\<rparr>)"
proof -
  have "or_id ` set (save_row or_id y (md_orders (mw_db w))) = or_id ` set (md_orders (mw_db w))"
    using assms by (auto simp: key_set_save_row world_ok_def world_orders_def)
  moreover have "set (save_row or_id y (md_orders (mw_db w))) \<subseteq> world_orders w" "set (remove1 y (mw_writes w)) \<subseteq> world_orders w"
    "set (mw_scans w) \<subseteq> world_orders w"
    using assms(2) set_save_row_subset [of or_id y "md_orders (mw_db w)"] set_remove1_subset [of y "mw_writes w"] by (auto simp: world_orders_def)
  moreover from this have "world_orders (w\<lparr>mw_db := save_order y (mw_db w), mw_writes := remove1 y (mw_writes w)\<rparr>) \<subseteq> world_orders w"
    by (simp add: world_orders_def save_order_def)
  ultimately show ?thesis using assms(1) by (auto simp: world_ok_def save_order_def keys_distinct_save_row intro: terms_agree_subset)
qed

lemma market_run_ok: "market_run w \<Longrightarrow> world_ok w"
proof (induction rule: market_run.induct)
  case mr_start
  show ?case by (simp add: world_ok_def world_orders_def keys_distinct_def terms_agree_def)
next
  case (mr_trigger w x p tm y)
  from trigger_checkD [OF mr_trigger(4)] obtain z where z: "z \<in> set (md_orders (mw_db w))" "or_id z = or_id x"
    "y = z\<lparr>or_status := O_TRIGGERED, or_triggeredAt := Some tm\<rparr>" by blast
  then have "order_terms z = order_terms x" "order_ok x" using mr_trigger
    by (auto simp: world_ok_def world_orders_def intro: terms_agreeD)
  moreover have "order_terms y = order_terms z" using z by simp
  moreover have "order_terms y = order_terms x" using calculation by simp
  ultimately have "order_ok y" using due_without_stop [of x p] mr_trigger(3) order_terms_same [of y x] z(3) by (simp add: order_ok_def)
  then show ?case using mr_trigger(5) z \<open>order_terms y = order_terms z\<close> by (auto intro: world_ok_pending_write)
next
  case (mr_cancel w i u y)
  from cancel_checkD [OF mr_cancel(2)] obtain z where z: "z \<in> set (md_orders (mw_db w))" "y = z\<lparr>or_status := O_CANCELLED\<rparr>" by blast
  moreover have "order_ok z" using mr_cancel(3) z(1) by (simp add: world_ok_def world_orders_def)
  ultimately show ?case using mr_cancel(3) by (auto intro!: world_ok_pending_write simp: order_ok_def)
next
  case (mr_scan w)
  have "world_orders (w\<lparr>mw_scans := mw_scans w @ pendingOrders (mw_db w)\<rparr>) = world_orders w"
    by (auto simp: world_orders_def pendingOrders_def)
  with mr_scan show ?case by (simp add: world_ok_def)
qed (simp_all add: world_ok_listings listing_steps_keep_orders world_ok_new_order world_ok_write)

text \<open>
  C35. Stop-loss and trailing-stop orders never trigger: whatever requests and jobs do, in any interleaving and at
  any price, only limit orders with a positive limit price are ever triggered, and no order is ever filled or
  rejected. Only a limit order has a price that the evaluation reads, because no request sets a stop price.
\<close>

theorem only_limit_orders_trigger:
  assumes "market_run w" and "x \<in> set (md_orders (mw_db w))"
  shows "(or_status x = O_PENDING \<or> or_status x = O_CANCELLED \<or>
      or_status x = O_TRIGGERED \<and> or_orderType x = O_LIMIT \<and> js_less (Some 0) (trigger_price x)) \<and>
    (or_orderType x = O_STOP_LOSS \<or> or_orderType x = O_TRAILING_STOP \<longrightarrow> \<not> evaluateOrderTrigger x p)"
proof -
  have "order_ok x" using market_run_ok [OF assms(1)] assms(2) by (simp add: world_ok_def world_orders_def)
  then show ?thesis using due_without_stop(1) [of x p] by (auto simp: order_ok_def)
qed

text \<open>
  A cancellation that is confirmed can be lost: it and the trigger both read the pending order, and the write of
  the trigger comes last.
\<close>

theorem lost_cancellation:
  assumes "market_run w" and "x \<in> set (mw_scans w)" and "row_by or_id (or_id x) (md_orders (mw_db w)) = Some x"
    and "or_status x = O_PENDING" and "evaluateOrderTrigger x p"
  shows "\<exists>c w'. cancel_check (or_id x) (or_userId x) (mw_db w) = Inr c \<and> market_run w' \<and> mw_writes w' = mw_writes w \<and>
    row_by or_id (or_id x) (md_orders (mw_db w')) = Some (x\<lparr>or_status := O_TRIGGERED, or_triggeredAt := Some tm\<rparr>)"
proof -
  let ?c = "x\<lparr>or_status := O_CANCELLED\<rparr>" and ?t = "x\<lparr>or_status := O_TRIGGERED, or_triggeredAt := Some tm\<rparr>"
  have c: "cancel_check (or_id x) (or_userId x) (mw_db w) = Inr ?c" and t: "trigger_check tm (or_id x) (mw_db w) = Inr ?t"
    using assms by (simp_all add: cancel_check_def trigger_check_def findOneOrder_def)
  note run = mr_cancel [OF mr_trigger [OF assms(1,2,5) t], of "or_id x" "or_userId x" ?c]
  have "market_run (w\<lparr>mw_writes := ?c # ?t # mw_writes w\<rparr>)" using run c by simp
  from mr_write [OF this, of ?c] have "market_run (w\<lparr>mw_db := save_order ?c (mw_db w), mw_writes := ?t # mw_writes w\<rparr>)" by simp
  from mr_write [OF this, of ?t] have "market_run (w\<lparr>mw_db := save_order ?t (save_order ?c (mw_db w)), mw_writes := mw_writes w\<rparr>)" by simp
  moreover have "row_by or_id (or_id x) (md_orders (save_order ?t (save_order ?c (mw_db w)))) = Some ?t"
    by (simp add: save_order_def row_by_save_row)
  ultimately show ?thesis using c by (intro exI conjI) (assumption | simp)+
qed

lemma trigger_loop_skip:
  "(\<And>z. z \<in> set xs \<Longrightarrow> \<not> evaluateOrderTrigger z p) \<Longrightarrow> trigger_loop tm p (xs @ ys) others db = trigger_loop tm p ys others db"
  by (induction xs) simp_all

lemma listing_cancelOrder_owner:
  assumes "row_by or_id (or_id x) (md_orders db) = Some x" and "or_status x = O_PENDING"
  shows "listing_cancelOrder (or_id x) (or_userId x) db = (Inr (x\<lparr>or_status := O_CANCELLED\<rparr>), save_order (x\<lparr>or_status := O_CANCELLED\<rparr>) db)"
  using assms by (simp add: listing_cancelOrder_def cancel_check_def findOneOrder_def)

text \<open>
  One cancellation at the wrong moment ends the whole run of the monitor: when the owner cancels the first
  order that is due after the pending orders were read, the run throws, and no other order that is due is triggered.
\<close>

theorem cancellation_aborts_monitor:
  assumes "keys_distinct or_id (md_orders db)" and "pendingOrders db = xs @ x # ys"
    and "\<forall>z \<in> set xs. \<not> evaluateOrderTrigger z p" and "evaluateOrderTrigger x p"
  shows "monitorAndTriggerOrders tm p [\<lambda>d. snd (listing_cancelOrder (or_id x) (or_userId x) d)] db =
    (Inl (BadRequest ''Only pending orders can be triggered; current status is cancelled''),
     db\<lparr>md_orders := map (\<lambda>z. if or_id z = or_id x then z\<lparr>or_status := O_CANCELLED\<rparr> else z) (md_orders db)\<rparr>)"
proof -
  let ?c = "x\<lparr>or_status := O_CANCELLED\<rparr>"
  have "x \<in> set (pendingOrders db)" using assms(2) by simp
  then have x: "x \<in> set (md_orders db)" "or_status x = O_PENDING" by (simp_all add: pendingOrders_def)
  then have r: "row_by or_id (or_id x) (md_orders db) = Some x" using assms(1) by (simp add: row_by_distinct)
  have "save_row or_id ?c (md_orders db) = map (\<lambda>z. if or_id z = or_id x then ?c else z) (md_orders db)"
    using save_row_as_map [OF assms(1), of ?c x] r by simp
  also have "\<dots> = map (\<lambda>z. if or_id z = or_id x then z\<lparr>or_status := O_CANCELLED\<rparr> else z) (md_orders db)"
    using assms(1) x by (auto simp: keys_distinct_def distinct_map dest: inj_onD)
  finally have saved: "save_order ?c db = db\<lparr>md_orders := map (\<lambda>z. if or_id z = or_id x then z\<lparr>or_status := O_CANCELLED\<rparr> else z) (md_orders db)\<rparr>"
    by (simp add: save_order_def)
  have "triggerOrder tm (or_id x) (save_order ?c db) =
    (Inl (BadRequest ''Only pending orders can be triggered; current status is cancelled''), save_order ?c db)"
    by (simp add: triggerOrder_def trigger_check_def findOneOrder_def save_order_def row_by_save_row)
  then show ?thesis using assms(3,4) listing_cancelOrder_owner [OF r x(2)]
    by (simp add: monitorAndTriggerOrders_def assms(2) trigger_loop_skip saved)
qed

section \<open>Instances\<close>

definition demo_menv :: "string \<Rightarrow> market_env" where
  "demo_menv i = \<lparr>mk_now = 7, mk_uuid = i, mk_is_uuid = (\<lambda>_. True), mk_numeric7 = Some, mk_numeric2 = Some\<rparr>"

definition demo_listing_dto :: create_listing_dto where
  "demo_listing_dto = \<lparr>cl_title = ''t'', cl_description = Undefined, cl_assetCode = ''USDC'', cl_assetIssuer = Undefined,
     cl_amount = ''5'', cl_price = ''2'', cl_priceAssetCode = Undefined\<rparr>"

definition demo_order_dto :: "market_order_type \<Rightarrow> create_listing_order_dto" where
  "demo_order_dto ot = \<lparr>od_listingId = ''l'', od_side = O_BUY, od_orderType = ot, od_amount = ''1'', od_price = Val ''2'', od_stopPercentage = Undefined\<rparr>"

definition demo_listing :: listing where
  "demo_listing = \<lparr>li_id = ''l'', li_title = ''t'', li_description = None, li_assetCode = ''USDC'', li_assetIssuer = None,
     li_amount = ''5'', li_price = ''2'', li_priceAssetCode = ''XLM'', li_status = L_ACTIVE, li_sellerId = ''s'', li_createdAt = 7\<rparr>"

definition demo_order :: "string \<Rightarrow> market_order_type \<Rightarrow> market_order" where
  "demo_order i ot = \<lparr>or_id = i, or_userId = ''u'', or_listingId = ''l'', or_orderType = ot, or_side = O_BUY, or_amount = ''1'',
     or_price = Some ''2'', or_stopPrice = None, or_stopPercentage = None, or_status = O_PENDING, or_filledAmount = ''0'',
     or_triggeredAt = None, or_executedAt = None, or_createdAt = 7\<rparr>"

definition demo_market :: "market_order list \<Rightarrow> market_db" where
  "demo_market xs = \<lparr>md_listings = [demo_listing], md_orders = xs\<rparr>"

lemma demo_listing_create: "snd (listing_create (demo_menv ''l'') ''s'' demo_listing_dto \<lparr>md_listings = [], md_orders = []\<rparr>) = demo_market []"
  by (simp add: listing_create_def new_listing_def demo_menv_def demo_listing_dto_def store_numeric_def assign_def demo_market_def demo_listing_def)

lemma demo_order_create:
  "snd (listing_createOrder (demo_menv ''o'') ''u'' (demo_order_dto O_STOP_LOSS) (demo_market [])) = demo_market [demo_order ''o'' O_STOP_LOSS]"
  by (simp add: listing_createOrder_def new_listing_order_def demo_menv_def demo_order_dto_def store_numeric_def store_nullable_def demo_market_def
      demo_listing_def demo_order_def truthy_def)

lemma demo_stop_run: "market_run \<lparr>mw_db = demo_market [demo_order ''o'' O_STOP_LOSS], mw_scans = [], mw_writes = []\<rparr>"
proof -
  from mr_listing [OF mr_start, of "demo_menv ''l''" "''s''" demo_listing_dto]
  have "market_run \<lparr>mw_db = demo_market [], mw_scans = [], mw_writes = []\<rparr>" by (simp add: demo_listing_create)
  from mr_order [OF this, of "demo_menv ''o''" "''u''" "demo_order_dto O_STOP_LOSS"] show ?thesis
    by (simp add: demo_order_create) (simp add: demo_market_def)
qed

lemma parse_two: "parse_float ''2'' = Some 2"
  by code_simp

lemma demo_limit_due: "evaluateOrderTrigger (demo_order i O_LIMIT) (Some 2)"
  by (simp add: evaluateOrderTrigger_def demo_order_def trigger_price_def parse_two)

theorem checkPendingOrders_exact_witness:
  "map or_status (md_orders (snd (checkPendingOrders 9 None (demo_market [demo_order ''a'' O_LIMIT, demo_order ''b'' O_MARKET])))) = [O_TRIGGERED, O_PENDING]"
  using checkPendingOrders_exact [of "demo_market [demo_order ''a'' O_LIMIT, demo_order ''b'' O_MARKET]" 9 None]
  by (simp add: keys_distinct_def demo_market_def demo_listing_def getCurrentPrice_def parse_two evaluateOrderTrigger_def trigger_price_def demo_order_def)

theorem only_limit_orders_trigger_witness:
  "\<not> evaluateOrderTrigger (demo_order ''o'' O_STOP_LOSS) (Some 1)"
  using only_limit_orders_trigger [OF demo_stop_run, of "demo_order ''o'' O_STOP_LOSS" "Some 1"]
  by (simp add: demo_market_def demo_order_def)

theorem cancellation_aborts_monitor_witness:
  "map or_status (md_orders (snd (monitorAndTriggerOrders 9 (Some 2) [\<lambda>d. snd (listing_cancelOrder ''a'' ''u'' d)]
     (demo_market [demo_order ''a'' O_LIMIT, demo_order ''b'' O_LIMIT])))) = [O_CANCELLED, O_PENDING]"
  using cancellation_aborts_monitor [of "demo_market [demo_order ''a'' O_LIMIT, demo_order ''b'' O_LIMIT]" "[]" "demo_order ''a'' O_LIMIT"
      "[demo_order ''b'' O_LIMIT]" "Some 2" 9]
  by (simp add: demo_limit_due keys_distinct_def demo_market_def pendingOrders_def) (simp add: demo_order_def)

end
