(* ===== verification/Json.thy ===== *)
theory Json
  imports JsDate "HOL-Library.Sublist"
begin

text \<open>
  \<^verbatim>\<open>JSON.parse\<close> as ECMA-404 and the language define it, for the values and texts of \<^verbatim>\<open>JSON.stringify\<close> in
  \<open>JsDate\<close>. The members of an object are in the order of insertion (no key of the code is an array index). A
  string is a list of eight-bit units; an escape of four hexadecimal digits beyond them keeps its low byte.

  The parser takes fuel, one unit for each level and element; \<open>json_parse\<close> gives it the length of the text, and
  what is shown about rejected texts holds for every fuel. \<open>braces\<close> follows the nesting of a text outside its
  strings: every text the parser accepts is balanced, and no proper prefix of an object is.
\<close>

section \<open>Parsing\<close>

fun skip_ws :: "string \<Rightarrow> string" where
  "skip_ws (c # r) = (if c = CHR '' '' \<or> c = CHR 0x09 \<or> c = CHR 0x0A \<or> c = CHR 0x0D then skip_ws r else c # r)"
| "skip_ws [] = []"

definition hex_value :: "char \<Rightarrow> nat option" where
  "hex_value c = (let n = of_char c in
     if 48 \<le> n \<and> n \<le> 57 then Some (n - 48) else if 97 \<le> n \<and> n \<le> 102 then Some (n - 87)
     else if 65 \<le> n \<and> n \<le> 70 then Some (n - 55) else None)"

definition simple_escape :: "char \<Rightarrow> char option" where
  "simple_escape c =
     (if c = CHR 0x22 \<or> c = CHR 0x5C \<or> c = CHR ''/'' then Some c
      else if c = CHR ''b'' then Some (CHR 0x08) else if c = CHR ''f'' then Some (CHR 0x0C)
      else if c = CHR ''n'' then Some (CHR 0x0A) else if c = CHR ''r'' then Some (CHR 0x0D)
      else if c = CHR ''t'' then Some (CHR 0x09) else None)"

fun parse_chars :: "string \<Rightarrow> (string \<times> string) option" where
  "parse_chars [] = None"
| "parse_chars (c # r) =
     (if c = CHR 0x22 then Some ([], r)
      else if of_char c < (32 :: nat) then None
      else if c = CHR 0x5C then
        (case r of
           [] \<Rightarrow> None
         | e # r1 \<Rightarrow>
             if e = CHR ''u'' then
               (case r1 of h1 # h2 # h3 # h4 # r2 \<Rightarrow>
                  (case (hex_value h1, hex_value h2, hex_value h3, hex_value h4) of
                     (Some a1, Some a2, Some a3, Some a4) \<Rightarrow>
                       map_option (\<lambda>(t, q). (char_of (a1 * 4096 + a2 * 256 + a3 * 16 + a4) # t, q)) (parse_chars r2)
                   | _ \<Rightarrow> None)
                | _ \<Rightarrow> None)
             else (case simple_escape e of None \<Rightarrow> None | Some x \<Rightarrow> map_option (\<lambda>(t, q). (x # t, q)) (parse_chars r1)))
      else map_option (\<lambda>(t, q). (c # t, q)) (parse_chars r))"

text \<open>The grammar of numbers: an optional minus, an integer without leading zeros, a fraction and an exponent.\<close>

definition is_digit :: "char \<Rightarrow> bool" where
  "is_digit c \<longleftrightarrow> 48 \<le> (of_char c :: nat) \<and> (of_char c :: nat) \<le> 57"

definition some_digits :: "string \<Rightarrow> (string \<times> string) option" where
  "some_digits s = (let ds = takeWhile is_digit s in if ds = [] then None else Some (ds, dropWhile is_digit s))"

definition parse_int :: "string \<Rightarrow> (string \<times> string) option" where
  "parse_int s = (case s of c # r \<Rightarrow> if c = CHR ''0'' then Some (''0'', r) else some_digits s | [] \<Rightarrow> None)"

definition parse_frac :: "string \<Rightarrow> (string \<times> string) option" where
  "parse_frac s = (case s of c # r \<Rightarrow> if c = CHR ''.'' then map_option (\<lambda>(ds, q). (CHR ''.'' # ds, q)) (some_digits r) else Some ([], s)
     | [] \<Rightarrow> Some ([], []))"

definition parse_exp :: "string \<Rightarrow> (string \<times> string) option" where
  "parse_exp s = (case s of
       c # r \<Rightarrow> if c = CHR ''e'' \<or> c = CHR ''E''
         then (case r of x # r' \<Rightarrow> if x = CHR ''+'' \<or> x = CHR ''-'' then map_option (\<lambda>(ds, q). (c # x # ds, q)) (some_digits r')
                                  else map_option (\<lambda>(ds, q). (c # ds, q)) (some_digits r)
               | [] \<Rightarrow> None)
         else Some ([], s)
     | [] \<Rightarrow> Some ([], []))"

definition parse_sign :: "string \<Rightarrow> string \<times> string" where
  "parse_sign s = (case s of c # r \<Rightarrow> if c = CHR ''-'' then (''-'', r) else ([], s) | [] \<Rightarrow> ([], []))"

definition parse_number :: "string \<Rightarrow> (string \<times> string) option" where
  "parse_number s =
     (case parse_sign s of (sg, r0) \<Rightarrow>
      case parse_int r0 of None \<Rightarrow> None | Some (i, r1) \<Rightarrow>
      case parse_frac r1 of None \<Rightarrow> None | Some (f, r2) \<Rightarrow>
      case parse_exp r2 of None \<Rightarrow> None | Some (e, r3) \<Rightarrow> Some (sg @ i @ f @ e, r3))"

fun parse_value :: "nat \<Rightarrow> string \<Rightarrow> (json \<times> string) option"
  and parse_elements :: "nat \<Rightarrow> string \<Rightarrow> (json list \<times> string) option"
  and parse_members :: "nat \<Rightarrow> string \<Rightarrow> ((string \<times> json) list \<times> string) option" where
  "parse_value 0 s = None"
| "parse_value (Suc n) s =
     (case skip_ws s of [] \<Rightarrow> None | c # r \<Rightarrow>
        if c = CHR 0x22 then map_option (\<lambda>(t, q). (JStr t, q)) (parse_chars r)
        else if c = CHR ''{'' then
          (if starts_with (skip_ws r) ''}'' then Some (JObj [], tl (skip_ws r))
           else map_option (\<lambda>(ms, q). (JObj (foldl (\<lambda>m (k, v). map_set k v m) [] ms), q)) (parse_members n r))
        else if c = CHR ''['' then
          (if starts_with (skip_ws r) '']'' then Some (JArr [], tl (skip_ws r))
           else map_option (\<lambda>(vs, q). (JArr vs, q)) (parse_elements n r))
        else if starts_with (c # r) ''null'' then Some (JNull, drop 4 (c # r))
        else if starts_with (c # r) ''true'' then Some (JBool True, drop 4 (c # r))
        else if starts_with (c # r) ''false'' then Some (JBool False, drop 5 (c # r))
        else Option.bind (parse_number (c # r)) (\<lambda>(t, q). map_option (\<lambda>x. (JNum x, q)) (parse_float t)))"
| "parse_elements 0 s = None"
| "parse_elements (Suc n) s =
     (case parse_value n s of None \<Rightarrow> None | Some (v, r) \<Rightarrow>
        (case skip_ws r of [] \<Rightarrow> None | c # q \<Rightarrow>
           if c = CHR '']'' then Some ([v], q)
           else if c = CHR '','' then map_option (\<lambda>(vs, q'). (v # vs, q')) (parse_elements n q) else None))"
| "parse_members 0 s = None"
| "parse_members (Suc n) s =
     (case skip_ws s of [] \<Rightarrow> None | c # r \<Rightarrow>
        if c \<noteq> CHR 0x22 then None
        else case parse_chars r of None \<Rightarrow> None | Some (k, r1) \<Rightarrow>
          (case skip_ws r1 of [] \<Rightarrow> None | c1 # r2 \<Rightarrow>
             if c1 \<noteq> CHR '':'' then None
             else case parse_value n r2 of None \<Rightarrow> None | Some (v, r3) \<Rightarrow>
               (case skip_ws r3 of [] \<Rightarrow> None | c2 # q \<Rightarrow>
                  if c2 = CHR ''}'' then Some ([(k, v)], q)
                  else if c2 = CHR '','' then map_option (\<lambda>(ms, q'). ((k, v) # ms, q')) (parse_members n q) else None)))"

definition parse_text :: "nat \<Rightarrow> string \<Rightarrow> json option" where
  "parse_text n s = (case parse_value n s of Some (j, r) \<Rightarrow> if skip_ws r = [] then Some j else None | None \<Rightarrow> None)"

definition json_parse :: "string \<Rightarrow> json result" where
  "json_parse s = (case parse_text (2 * length s + 2) s of None \<Rightarrow> Inl (SyntaxError ''invalid JSON'') | Some j \<Rightarrow> Inr j)"

section \<open>Nesting\<close>

text \<open>Where a position of a text is: outside strings, in a string, or after a backslash in one.\<close>

datatype text_mode = Outside | Inside | Escaped

fun brace :: "int \<times> text_mode \<Rightarrow> char \<Rightarrow> int \<times> text_mode" where
  "brace (d, Outside) c = (if c = CHR 0x22 then (d, Inside) else if c = CHR ''{'' then (d + 1, Outside)
     else if c = CHR ''}'' then (d - 1, Outside) else (d, Outside))"
| "brace (d, Inside) c = (if c = CHR 0x22 then (d, Outside) else if c = CHR 0x5C then (d, Escaped) else (d, Inside))"
| "brace (d, Escaped) c = (d, Inside)"

definition braces :: "int \<times> text_mode \<Rightarrow> string \<Rightarrow> int \<times> text_mode" where
  "braces st s = foldl brace st s"

definition neutral :: "string \<Rightarrow> bool" where
  "neutral s \<longleftrightarrow> (\<forall>d. braces (d, Outside) s = (d, Outside))"

lemma braces_simps [simp]:
  "braces st [] = st" "braces st (c # s) = braces (brace st c) s" "braces st (s @ t) = braces (braces st s) t"
  by (simp_all add: braces_def)

definition plain :: "char \<Rightarrow> bool" where
  "plain c \<longleftrightarrow> c \<noteq> CHR 0x22 \<and> c \<noteq> CHR ''{'' \<and> c \<noteq> CHR ''}'' \<and> c \<noteq> CHR 0x5C"

lemma braces_plain: "\<forall>c \<in> set s. plain c \<Longrightarrow> braces (d, Outside) s = (d, Outside)"
  by (induction s) (auto simp: plain_def)

lemma neutral_plain: "\<forall>c \<in> set s. plain c \<Longrightarrow> neutral s"
  by (simp add: neutral_def braces_plain)

lemma neutral_Cons: "plain c \<Longrightarrow> neutral (c # s) \<longleftrightarrow> neutral s"
  by (simp add: neutral_def plain_def)

lemma neutral_append: "neutral s \<Longrightarrow> neutral t \<Longrightarrow> neutral (s @ t)"
  by (simp add: neutral_def)

lemma neutral_braces: "neutral s \<Longrightarrow> neutral (CHR ''{'' # s @ ''}'')"
  by (simp add: neutral_def)

text \<open>Every accepted text is balanced, with whatever fuel.\<close>

lemma skip_ws_split: "\<exists>u. s = u @ skip_ws s \<and> neutral u"
proof (induction s)
  case Nil
  show ?case by (simp add: neutral_def)
next
  case (Cons c s)
  then obtain u where u: "s = u @ skip_ws s" "neutral u" by blast
  show ?case
  proof (cases "c = CHR '' '' \<or> c = CHR 0x09 \<or> c = CHR 0x0A \<or> c = CHR 0x0D")
    case True
    then have "neutral (c # u)" using u(2) by (auto simp: neutral_Cons plain_def)
    with True u(1) show ?thesis by (intro exI [of _ "c # u"]) auto
  next
    case False
    then show ?thesis by (intro exI [of _ "[]"]) (auto simp: neutral_def)
  qed
qed

lemma hex_value_plain: "hex_value c = Some a \<Longrightarrow> plain c"
  by (auto simp: hex_value_def plain_def Let_def split: if_splits)

definition closing :: "string \<Rightarrow> bool" where
  "closing u \<longleftrightarrow> (\<forall>d. braces (d, Inside) u = (d, Outside))"

lemma parse_chars_split: "parse_chars s = Some (t, r) \<Longrightarrow> \<exists>u. s = u @ r \<and> closing u"
proof (induction "length s" arbitrary: s t rule: less_induct)
  case less
  from less.prems obtain c q where s: "s = c # q" by (cases s) auto
  consider "c = CHR 0x22" | "c = CHR 0x5C" | "c \<noteq> CHR 0x22" "c \<noteq> CHR 0x5C" by blast
  then show ?case
  proof cases
    case 1
    then show ?thesis using less.prems s by (intro exI [of _ "[c]"]) (simp add: closing_def)
  next
    case 2
    with less.prems s obtain e r1 where q: "q = e # r1" by (cases q) auto
    show ?thesis
    proof (cases "e = CHR ''u''")
      case True
      with 2 less.prems s q obtain h1 h2 h3 h4 r2 t2 where h: "r1 = h1 # h2 # h3 # h4 # r2" "parse_chars r2 = Some (t2, r)"
        "plain h1" "plain h2" "plain h3" "plain h4"
        by (auto split: list.splits option.splits dest: hex_value_plain)
      from less.hyps [OF _ h(2)] s q h(1) obtain u where "r2 = u @ r" "closing u" by auto
      then show ?thesis using 2 s q h True
        by (intro exI [of _ "c # e # h1 # h2 # h3 # h4 # u"]) (simp add: closing_def plain_def)
    next
      case False
      with 2 less.prems s q obtain t1 where p: "parse_chars r1 = Some (t1, r)" by (auto split: option.splits)
      from less.hyps [OF _ p] s q obtain u where "r1 = u @ r" "closing u" by auto
      then show ?thesis using 2 s q by (intro exI [of _ "c # e # u"]) (simp add: closing_def)
    qed
  next
    case 3
    with less.prems s obtain t1 where p: "parse_chars q = Some (t1, r)" by (auto split: if_splits)
    from less.hyps [OF _ p] s obtain u where "q = u @ r" "closing u" by auto
    then show ?thesis using 3 s by (intro exI [of _ "c # u"]) (simp add: closing_def)
  qed
qed

lemma quoted_neutral: "closing u \<Longrightarrow> neutral (CHR 0x22 # u)"
  by (simp add: closing_def neutral_def)

text \<open>The pieces of a number are digits, signs, a point and an exponent.\<close>

lemma is_digit_plain: "is_digit c \<Longrightarrow> plain c"
  by (auto simp: is_digit_def plain_def)

lemma some_digits_split: "some_digits s = Some (ds, r) \<Longrightarrow> s = ds @ r \<and> neutral ds"
  by (auto simp: some_digits_def Let_def intro!: neutral_plain is_digit_plain dest: set_takeWhileD split: if_splits)

lemma parse_number_split:
  assumes "parse_number s = Some (t, r)"
  shows "s = t @ r \<and> neutral t"
proof -
  obtain sg r0 where sg: "parse_sign s = (sg, r0)" by force
  with assms obtain i r1 f r2 e where n: "parse_int r0 = Some (i, r1)" "parse_frac r1 = Some (f, r2)" "parse_exp r2 = Some (e, r)" "t = sg @ i @ f @ e"
    by (auto simp: parse_number_def split: option.splits)
  have "s = sg @ r0 \<and> neutral sg" using sg by (auto simp: parse_sign_def neutral_def split: list.splits if_splits)
  moreover have "r0 = i @ r1 \<and> neutral i" using n(1) some_digits_split
    by (auto simp: parse_int_def neutral_def split: list.splits if_splits)
  moreover have "r1 = f @ r2 \<and> neutral f" using n(2) some_digits_split
    by (auto simp: parse_frac_def neutral_Cons plain_def split: list.splits if_splits) (auto simp: neutral_def)
  moreover have "r2 = e @ r \<and> neutral e" using n(3) some_digits_split
    by (auto simp: parse_exp_def neutral_Cons plain_def split: list.splits if_splits) (auto simp: neutral_def)
  ultimately show ?thesis using n(4) by (auto intro!: neutral_append)
qed

definition unbracing :: "string \<Rightarrow> bool" where
  "unbracing u \<longleftrightarrow> (\<forall>d. braces (d + 1, Outside) u = (d, Outside))"

text \<open>What the parser consumed, as a pair of texts: \<open>split_by P s r\<close> says that \<open>s\<close> is some \<open>P\<close>-text before \<open>r\<close>.\<close>

definition split_by :: "(string \<Rightarrow> bool) \<Rightarrow> string \<Rightarrow> string \<Rightarrow> bool" where
  "split_by P s r \<longleftrightarrow> (\<exists>u. s = u @ r \<and> P u)"

lemma split_by_trans:
  assumes "split_by P s q" and "split_by Q q r" and "\<And>u v. P u \<Longrightarrow> Q v \<Longrightarrow> R (u @ v)"
  shows "split_by R s r"
  using assms by (fastforce simp: split_by_def)

lemma split_by_Cons: "split_by P s (c # r) \<Longrightarrow> (\<And>u. P u \<Longrightarrow> Q (u @ [c])) \<Longrightarrow> split_by Q s r"
  by (fastforce simp: split_by_def)

lemma neutral_snoc: "plain c \<Longrightarrow> neutral u \<Longrightarrow> neutral (u @ [c])"
  by (simp add: neutral_def plain_def)

lemma split_plain: "split_by neutral s (c # r) \<Longrightarrow> plain c \<Longrightarrow> split_by neutral s r"
  by (erule split_by_Cons) (simp add: neutral_snoc)

lemma split_brace: "split_by neutral s (CHR ''}'' # r) \<Longrightarrow> split_by unbracing s r"
  by (erule split_by_Cons) (simp add: neutral_def unbracing_def)

lemma split_ws: "skip_ws s = t \<Longrightarrow> split_by neutral s t"
  using skip_ws_split [of s] by (auto simp: split_by_def)

lemma starts_with_split: "starts_with s p \<Longrightarrow> s = p @ drop (length p) s"
  by (induction s p rule: starts_with.induct) auto

lemma split_literal: "starts_with s p \<Longrightarrow> \<forall>c \<in> set p. plain c \<Longrightarrow> split_by neutral s (drop (length p) s)"
  using starts_with_split [of s p] neutral_plain [of p] by (auto simp: split_by_def)

lemmas split_neutral = split_by_trans [where P = neutral and Q = neutral and R = neutral, OF _ _ neutral_append]

lemma split_string: "parse_chars r = Some (t, q) \<Longrightarrow> split_by neutral (CHR 0x22 # r) q"
  using parse_chars_split [of r t q] quoted_neutral by (fastforce simp: split_by_def)

lemma split_object: "split_by unbracing r q \<Longrightarrow> split_by neutral (CHR ''{'' # r) q"
  by (fastforce simp: split_by_def unbracing_def neutral_def)

lemma split_array: "split_by neutral r q \<Longrightarrow> split_by neutral (CHR ''['' # r) q"
  by (fastforce simp: split_by_def neutral_def)

lemma split_atom:
  assumes "parse_value (Suc n) s = Some (j, r)" and "skip_ws s = c # q" and "c \<noteq> CHR 0x22" "c \<noteq> CHR ''{''" "c \<noteq> CHR ''[''"
  shows "split_by neutral (c # q) r"
proof -
  consider "starts_with (c # q) ''null''" "r = drop (length ''null'') (c # q)" | "starts_with (c # q) ''true''" "r = drop (length ''true'') (c # q)"
    | "starts_with (c # q) ''false''" "r = drop (length ''false'') (c # q)" | t where "parse_number (c # q) = Some (t, r)"
    using assms by (auto simp: eval_nat_numeral bind_eq_Some_conv split: if_splits)
  then show ?thesis
  proof cases
    case 1
    then show ?thesis using split_literal [OF 1(1)] by (simp add: plain_def)
  next
    case 2
    then show ?thesis using split_literal [OF 2(1)] by (simp add: plain_def)
  next
    case 3
    then show ?thesis using split_literal [OF 3(1)] by (simp add: plain_def)
  next
    case 4
    then show ?thesis using parse_number_split by (auto simp: split_by_def)
  qed
qed

lemma split_value:
  assumes E: "\<And>s vs r. parse_elements n s = Some (vs, r) \<Longrightarrow> split_by neutral s r"
    and M: "\<And>s ms r. parse_members n s = Some (ms, r) \<Longrightarrow> split_by unbracing s r"
    and p: "parse_value (Suc n) s = Some (j, r)"
  shows "split_by neutral s r"
proof -
  from p obtain c q where w: "skip_ws s = c # q" by (auto split: list.splits)
  consider "c = CHR 0x22" | "c = CHR ''{''" | "c = CHR ''[''" | "c \<noteq> CHR 0x22" "c \<noteq> CHR ''{''" "c \<noteq> CHR ''[''" by blast
  then have "split_by neutral (c # q) r"
  proof cases
    case 1
    then show ?thesis using p w by (auto intro: split_string)
  next
    case 2
    have "split_by unbracing q r"
    proof (cases "starts_with (skip_ws q) ''}''")
      case True
      then have "skip_ws q = CHR ''}'' # r" using p w 2 by (cases "skip_ws q") auto
      from split_ws [OF this] show ?thesis by (rule split_brace)
    next
      case False
      then show ?thesis using p w 2 by (auto intro: M)
    qed
    with 2 show ?thesis by (simp add: split_object)
  next
    case 3
    have "split_by neutral q r"
    proof (cases "starts_with (skip_ws q) '']''")
      case True
      then have "skip_ws q = CHR '']'' # r" using p w 3 by (cases "skip_ws q") auto
      from split_ws [OF this] show ?thesis by (rule split_plain) (simp add: plain_def)
    next
      case False
      then show ?thesis using p w 3 by (auto intro: E)
    qed
    with 3 show ?thesis by (simp add: split_array)
  next
    case 4
    then show ?thesis using split_atom [OF p w] by simp
  qed
  then show ?thesis using split_ws [OF w] by (blast intro: split_neutral)
qed

lemma split_elements:
  assumes V: "\<And>s j r. parse_value n s = Some (j, r) \<Longrightarrow> split_by neutral s r"
    and E: "\<And>s vs r. parse_elements n s = Some (vs, r) \<Longrightarrow> split_by neutral s r"
    and p: "parse_elements (Suc n) s = Some (vs, r)"
  shows "split_by neutral s r"
proof -
  from p obtain v r1 c q where w: "parse_value n s = Some (v, r1)" "skip_ws r1 = c # q" by (auto split: option.splits list.splits)
  have sq: "split_by neutral s (c # q)" using V [OF w(1)] split_ws [OF w(2)] by (rule split_neutral)
  show ?thesis
  proof (cases "c = CHR '']''")
    case True
    then show ?thesis using p w split_plain [OF sq] by (simp add: plain_def)
  next
    case False
    with p w obtain vs' where "c = CHR '',''" "parse_elements n q = Some (vs', r)" by (auto split: if_splits)
    moreover have "split_by neutral s q" using split_plain [OF sq] \<open>c = CHR '',''\<close> by (simp add: plain_def)
    ultimately show ?thesis using E by (blast intro: split_neutral)
  qed
qed

lemma split_members:
  assumes V: "\<And>s j r. parse_value n s = Some (j, r) \<Longrightarrow> split_by neutral s r"
    and M: "\<And>s ms r. parse_members n s = Some (ms, r) \<Longrightarrow> split_by unbracing s r"
    and p: "parse_members (Suc n) s = Some (ms, r)"
  shows "split_by unbracing s r"
proof -
  from p obtain q0 k r1 r2 v r3 c q where w: "skip_ws s = CHR 0x22 # q0" "parse_chars q0 = Some (k, r1)" "skip_ws r1 = CHR '':'' # r2"
    "parse_value n r2 = Some (v, r3)" "skip_ws r3 = c # q" by (auto split: option.splits list.splits if_splits)
  have "split_by neutral s r1" using split_ws [OF w(1)] split_string [OF w(2)] by (rule split_neutral)
  moreover have "split_by neutral r1 r2" using split_ws [OF w(3)] by (rule split_plain) (simp add: plain_def)
  moreover have "split_by neutral r2 (c # q)" using V [OF w(4)] split_ws [OF w(5)] by (rule split_neutral)
  ultimately have sq: "split_by neutral s (c # q)" by (blast intro: split_neutral)
  show ?thesis
  proof (cases "c = CHR ''}''")
    case True
    then show ?thesis using p w sq by (simp add: split_brace)
  next
    case False
    with p w obtain ms' where m: "c = CHR '',''" "parse_members n q = Some (ms', r)" by (auto split: if_splits)
    have "split_by neutral s q" using split_plain [OF sq] by (simp add: m(1) plain_def)
    then show ?thesis using M [OF m(2)] by (rule split_by_trans) (simp add: neutral_def unbracing_def)
  qed
qed

lemma parse_split:
  "(\<forall>s j r. parse_value n s = Some (j, r) \<longrightarrow> split_by neutral s r) \<and>
   (\<forall>s vs r. parse_elements n s = Some (vs, r) \<longrightarrow> split_by neutral s r) \<and>
   (\<forall>s ms r. parse_members n s = Some (ms, r) \<longrightarrow> split_by unbracing s r)"
proof (induction n)
  case 0
  show ?case by simp
next
  case (Suc n)
  then show ?case using split_value [of n] split_elements [of n] split_members [of n] by blast
qed

lemma parse_text_neutral:
  assumes "parse_text n s = Some j"
  shows "neutral s"
proof -
  from assms obtain r where r: "parse_value n s = Some (j, r)" "skip_ws r = []" by (auto simp: parse_text_def split: option.splits prod.splits if_splits)
  from r(1) have "split_by neutral s r" using parse_split by blast
  with split_ws [OF r(2)] have "split_by neutral s []" by (blast intro: split_neutral)
  then show ?thesis by (simp add: split_by_def)
qed

section \<open>Texts of values\<close>

text \<open>The nesting along a text never falls below a level.\<close>

fun above :: "int \<Rightarrow> int \<times> text_mode \<Rightarrow> string \<Rightarrow> bool" where
  "above d st [] \<longleftrightarrow> d \<le> fst st"
| "above d st (c # t) \<longleftrightarrow> d \<le> fst st \<and> above d (brace st c) t"

lemma above_start: "above d st t \<Longrightarrow> d \<le> fst st"
  by (cases t) auto

lemma above_append: "above d st (s @ t) \<longleftrightarrow> above d st s \<and> above d (braces st s) t"
  by (induction s arbitrary: st) (auto dest: above_start)

definition safe :: "string \<Rightarrow> bool" where
  "safe t \<longleftrightarrow> (\<forall>d. braces (d, Outside) t = (d, Outside) \<and> above d (d, Outside) t)"


lemma above_prefix: "above d st t \<Longrightarrow> prefix p t \<Longrightarrow> d \<le> fst (braces st p)"
  by (auto simp: prefix_def above_append dest: above_start)

lemma above_le: "above d st t \<Longrightarrow> d' \<le> d \<Longrightarrow> above d' st t"
  by (induction t arbitrary: st) auto

lemma safe_append: "safe s \<Longrightarrow> safe t \<Longrightarrow> safe (s @ t)"
  by (simp add: safe_def above_append)

lemma safe_Cons: "plain c \<Longrightarrow> safe t \<Longrightarrow> safe (c # t)"
  by (simp add: safe_def plain_def)

lemma safe_plain: "\<forall>c \<in> set t. plain c \<Longrightarrow> safe t"
  by (induction t) (simp_all add: safe_Cons safe_def [of "[]"])

lemma hex_digit_plain: "n < 16 \<Longrightarrow> plain (hex_digit n)"
  by (auto simp: hex_digit_def plain_def char_of_eq_iff take_bit_eq_mod)

lemma json_escape_inside: "braces (d, Inside) (json_escape c) = (d, Inside) \<and> above d (d, Inside) (json_escape c)"
proof -
  have "plain (hex_digit (of_char c div 16))" if "of_char c < (32 :: nat)" using that by (intro hex_digit_plain) simp
  moreover have "plain (hex_digit (of_char c mod 16))" by (intro hex_digit_plain) simp
  moreover have "(of_char c = (34 :: nat)) = (c = CHR 0x22)" "(of_char c = (92 :: nat)) = (c = CHR 0x5C)"
    using of_char_eq_iff [where 'a = nat, of c "CHR 0x22"] of_char_eq_iff [where 'a = nat, of c "CHR 0x5C"] by simp_all
  ultimately show ?thesis by (auto simp: json_escape_def Let_def plain_def)
qed

lemma escaped_inside: "braces (d, Inside) (concat (map json_escape s)) = (d, Inside) \<and> above d (d, Inside) (concat (map json_escape s))"
  by (induction s) (simp_all add: json_escape_inside above_append)

lemma safe_quote: "safe (json_quote s)"
  using escaped_inside by (simp add: safe_def json_quote_def above_append)

text \<open>Numbers are written with digits, signs, a point and an exponent.\<close>

lemma digit_plain: "digit_val c \<noteq> None \<Longrightarrow> plain c"
  by (auto simp: digit_val_def plain_def Let_def split: if_splits)

lemma nat_to_string_plain: "c \<in> set (nat_to_string n) \<Longrightarrow> plain c"
  by (rule digit_plain [OF nat_to_string_digits])

lemma pos_to_string_plain: "c \<in> set (pos_to_string x) \<Longrightarrow> plain c"
proof -
  obtain s k n where sh: "shortest 17 x (dec_expo x) 1 = (s, k, n)" by (cases "shortest 17 x (dec_expo x) 1") auto
  assume "c \<in> set (pos_to_string x)"
  then have "c \<in> set (nat_to_string (nat s)) \<union> set (nat_to_string (nat \<bar>n - 1\<bar>)) \<union> set ''0.e+-''"
    unfolding pos_to_string_def sh by (auto simp: Let_def split: if_splits dest: in_set_takeD in_set_dropD)
  moreover have "plain c" if "c \<in> set ''0.e+-''" using that by (auto simp: plain_def)
  ultimately show ?thesis using nat_to_string_plain by blast
qed

lemma num_to_string_plain: "c \<in> set (num_to_string x) \<Longrightarrow> plain c"
  by (auto simp: num_to_string_def intro: pos_to_string_plain split: if_splits) (auto simp: plain_def)

lemma safe_braces: "safe t \<Longrightarrow> safe (CHR ''{'' # t @ ''}'')"
  by (auto simp: safe_def above_append intro: above_le)

lemma safe_join: "(\<And>t. t \<in> set ts \<Longrightarrow> safe t) \<Longrightarrow> safe (join_with '','' ts)"
  by (induction "'',''" ts rule: join_with.induct) (auto intro!: safe_append safe_Cons simp: plain_def safe_def [of "[]"])

lemma safe_members:
  assumes "\<And>m. m \<in> set ms \<Longrightarrow> safe (json_stringify (snd m))"
  shows "safe (join_with '','' (map (\<lambda>kv. json_quote (fst kv) @ '':'' @ json_stringify (snd kv)) ms))"
  using assms by (intro safe_join) (auto intro!: safe_append safe_quote safe_Cons simp: plain_def)

lemma safe_stringify: "safe (json_stringify j)"
proof (induction j rule: json_stringify.induct)
  case (3 x)
  show ?case using num_to_string_plain by (simp add: safe_plain)
next
  case (4 i)
  show ?case using nat_to_string_plain by (intro safe_plain) (auto simp: int_to_string_def plain_def)
next
  case (6 js)
  then have "safe (join_with '','' (map json_stringify js))" by (intro safe_join) auto
  moreover have "safe '']''" by (intro safe_plain) (simp add: plain_def)
  ultimately show ?case by (simp add: safe_Cons safe_append plain_def)
next
  case (7 ms)
  then have "safe (join_with '','' (map (\<lambda>kv. json_quote (fst kv) @ '':'' @ json_stringify (snd kv)) ms))" by (intro safe_members) simp
  from safe_braces [OF this] show ?case by simp
qed (auto intro: safe_plain safe_quote simp: plain_def)

text \<open>An object text that is cut short is inside at least one brace.\<close>

lemma cut_object:
  assumes "prefix p (json_stringify (JObj ms))" and "p \<noteq> []" and "p \<noteq> json_stringify (JObj ms)"
  shows "d + 1 \<le> fst (braces (d, Outside) p)"
proof -
  define b where "b = join_with '','' (map (\<lambda>kv. json_quote (fst kv) @ '':'' @ json_stringify (snd kv)) ms)"
  have "safe b" unfolding b_def by (intro safe_members safe_stringify)
  obtain q where q: "p = CHR ''{'' # q" "prefix q (b @ ''}'')" "q \<noteq> b @ ''}''"
    using assms by (cases p) (auto simp: b_def)
  then have "prefix q b" by (simp add: prefix_snoc)
  with \<open>safe b\<close> have "d + 1 \<le> fst (braces (d + 1, Outside) q)" by (auto simp: safe_def intro: above_prefix)
  then show ?thesis by (simp add: q(1))
qed

text \<open>
  The text of an object whose last member is an object, cut within that member, is no JSON text again when a
  quote and a brace are put after it.
\<close>

lemma cut_text_rejected:
  assumes "safe h" and "T = json_stringify (JObj ms)" and "length h + 1 < m" and "m < length (CHR ''{'' # h @ T @ ''}'')"
  shows "parse_text n (take m (CHR ''{'' # h @ T @ ''}'') @ [CHR 0x22, CHR ''}'']) = None"
proof -
  define p where "p = take (m - length h - 1) T"
  have m: "m = Suc (length h + (m - length h - 1))" "m - length h - 1 \<le> length T" using assms(3,4) by simp_all
  have "take m (CHR ''{'' # h @ T @ ''}'') = take (Suc (length h + (m - length h - 1))) (CHR ''{'' # h @ T @ ''}'')" using m(1) by simp
  also have "\<dots> = CHR ''{'' # h @ p" using m(2) by (simp add: p_def)
  finally have cut: "take m (CHR ''{'' # h @ T @ ''}'') = CHR ''{'' # h @ p" .
  have "p \<noteq> []" using assms(2,3) m by (auto simp: p_def)
  obtain e md where b: "braces (1, Outside) p = (e, md)" by force
  have "(p = T \<and> e = 1 \<and> md = Outside) \<or> 2 \<le> e"
  proof (cases "p = T")
    case True
    have "safe T" unfolding assms(2) by (rule safe_stringify)
    then show ?thesis using b True by (simp add: safe_def)
  next
    case False
    then show ?thesis using b cut_object [where ms = ms and p = p and d = 1] assms(2) \<open>p \<noteq> []\<close> by (simp add: p_def take_is_prefix)
  qed
  moreover have "braces (0, Outside) (take m (CHR ''{'' # h @ T @ ''}'') @ [CHR 0x22, CHR ''}'']) = brace (brace (e, md) (CHR 0x22)) (CHR ''}'')"
    using assms(1) b by (simp add: cut safe_def)
  ultimately have "braces (0, Outside) (take m (CHR ''{'' # h @ T @ ''}'') @ [CHR 0x22, CHR ''}'']) \<noteq> (0, Outside)"
    by (cases md) auto
  then have "\<not> neutral (take m (CHR ''{'' # h @ T @ ''}'') @ [CHR 0x22, CHR ''}''])" unfolding neutral_def by blast
  then show ?thesis using parse_text_neutral by (cases "parse_text n (take m (CHR ''{'' # h @ T @ ''}'') @ [CHR 0x22, CHR ''}''])") blast+
qed

end
