(* ===== verification/Webhook.thy ===== *)
theory Webhook
  imports Json JsNan
begin

text \<open>
  Webhooks (\<^verbatim>\<open>src/src/modules/webhooks\<close>): signing, subscriptions, deliveries with their retries, and the endpoints on
  deliveries.

  \<open>webhook_env\<close> is what one call reads from its surroundings: the clock, the clock when a response is in, the
  identifier of a new row, random bytes as hexadecimal text, HMAC-SHA256 as hexadecimal text, and what a
  \<^verbatim>\<open>jsonb\<close> column returns for a value stored in it. A request that is sent is recorded in
  \<open>ws_requests\<close>; its outcome is an argument. Work that the code starts without waiting, or puts on a
  timer, is a job in \<open>ws_jobs\<close>, with its due time, the delivery object and the subscription object it holds.
\<close>

section \<open>Data\<close>

datatype webhook_status = WH_ACTIVE | WH_INACTIVE | WH_PAUSED | WH_DISABLED_BY_ADMIN

datatype delivery_status = DL_PENDING | DL_SUCCESS | DL_FAILED | DL_RETRYING

record webhook_subscription =
  sb_id :: string
  sb_userId :: string
  sb_name :: string
  sb_url :: string
  sb_secret :: string
  sb_events :: "string list"
  sb_status :: webhook_status
  sb_description :: "string option"
  sb_customHeaders :: "(string \<times> string) list option"
  sb_authToken :: "string option"
  sb_maxRetries :: nat
  sb_rateLimitPerMinute :: nat
  sb_totalDeliveries :: nat
  sb_totalFailures :: nat
  sb_lastDeliveredAt :: "int option"
  sb_lastFailedAt :: "int option"
  sb_lastEventAt :: "int option"
  sb_createdAt :: int

record webhook_delivery =
  dl_id :: string
  dl_subscriptionId :: string
  dl_eventType :: string
  dl_payload :: json
  dl_signature :: string
  dl_status :: delivery_status
  dl_httpStatusCode :: "nat option"
  dl_responseBody :: "string option"
  dl_errorMessage :: "string option"
  dl_attemptNumber :: nat
  dl_maxRetries :: nat
  dl_durationMs :: "int option"
  dl_deliveredAt :: int
  dl_nextRetryAt :: "int option"
  dl_createdAt :: int

record create_webhook_dto =
  cw_name :: string
  cw_url :: string
  cw_events :: "string list"
  cw_description :: "string field"
  cw_customHeaders :: "(string \<times> string) list field"
  cw_authToken :: "string field"
  cw_maxRetries :: "nat field"
  cw_rateLimitPerMinute :: "nat field"

record update_webhook_dto =
  uw_name :: "string field"
  uw_url :: "string field"
  uw_events :: "string list field"
  uw_description :: "string field"
  uw_status :: "webhook_status field"
  uw_customHeaders :: "(string \<times> string) list field"
  uw_authToken :: "string field"
  uw_maxRetries :: "nat field"
  uw_rateLimitPerMinute :: "nat field"

record http_request =
  rq_url :: string
  rq_headers :: "(string \<times> string) list"
  rq_body :: string

datatype http_outcome = HttpResponse nat string | HttpError string

record webhook_env =
  we_now :: int
  we_end :: int
  we_uuid :: string
  we_random8 :: string
  we_random32 :: string
  we_hmac :: "string \<Rightarrow> string \<Rightarrow> string"
  we_jsonb :: "json \<Rightarrow> json"

record webhook_state =
  ws_subscriptions :: "webhook_subscription list"
  ws_deliveries :: "webhook_delivery list"
  ws_jobs :: "(int \<times> webhook_delivery \<times> webhook_subscription) list"
  ws_requests :: "http_request list"

section \<open>Signing\<close>

definition generateSecret :: "webhook_env \<Rightarrow> string" where
  "generateSecret we = we_random32 we"

definition signPayload :: "webhook_env \<Rightarrow> json \<Rightarrow> string \<Rightarrow> string" where
  "signPayload we payload secret = we_hmac we secret (json_stringify payload)"

text \<open>\<^verbatim>\<open>Buffer.from(s, 'hex')\<close> reads pairs of digits up to the first that is none.\<close>

fun hex_bytes :: "string \<Rightarrow> nat list" where
  "hex_bytes (a # b # r) = (case (hex_value a, hex_value b) of (Some x, Some y) \<Rightarrow> (16 * x + y) # hex_bytes r | _ \<Rightarrow> [])"
| "hex_bytes _ = []"

text \<open>The comparison in constant time throws on buffers of different lengths, and the handler returns false.\<close>

definition verifySignature :: "webhook_env \<Rightarrow> string \<Rightarrow> string \<Rightarrow> string \<Rightarrow> bool" where
  "verifySignature we payload signature secret =
     (let expectedSignature = we_hmac we secret payload in
      if length expectedSignature \<noteq> length signature then False
      else let a = hex_bytes expectedSignature; b = hex_bytes signature in
        if length a \<noteq> length b then False else a = b)"

definition getSignatureHeaders :: "webhook_env \<Rightarrow> json \<Rightarrow> string \<Rightarrow> (string \<times> string) list" where
  "getSignatureHeaders we payload secret =
     [(''X-Webhook-Signature'', ''sha256='' @ signPayload we payload secret), (''X-Webhook-Timestamp'', toISOString (we_now we))]"

section \<open>Deliveries\<close>

definition MAX_PAYLOAD_SIZE :: nat where
  "MAX_PAYLOAD_SIZE = 256 * 1024"

definition BASE_RETRY_DELAY_MS :: nat where
  "BASE_RETRY_DELAY_MS = 1000"

definition MAX_RETRY_DELAY_MS :: nat where
  "MAX_RETRY_DELAY_MS = 5 * 60 * 1000"

fun base36 :: "nat \<Rightarrow> string" where
  "base36 n = (if n < 36 then [] else base36 (n div 36)) @ [(let d = n mod 36 in if d < 10 then char_of (48 + d) else char_of (87 + d))]"

declare base36.simps [simp del]

definition generateEventId :: "webhook_env \<Rightarrow> string" where
  "generateEventId we = ''evt_'' @ base36 (nat (we_now we)) @ ''_'' @ we_random8 we"

definition calculateRetryDelay :: "nat \<Rightarrow> nat" where
  "calculateRetryDelay attemptNumber = min (BASE_RETRY_DELAY_MS * 2 ^ (attemptNumber - 1)) MAX_RETRY_DELAY_MS"

definition calculateRetryTime :: "int \<Rightarrow> nat \<Rightarrow> int" where
  "calculateRetryTime tm attemptNumber = tm + int (calculateRetryDelay attemptNumber)"

definition save_delivery :: "webhook_env \<Rightarrow> webhook_delivery \<Rightarrow> webhook_state \<Rightarrow> webhook_state" where
  "save_delivery we d st = st\<lparr>ws_deliveries := save_row dl_id (d\<lparr>dl_payload := we_jsonb we (dl_payload d)\<rparr>) (ws_deliveries st)\<rparr>"

definition update_subscription :: "string \<Rightarrow> (webhook_subscription \<Rightarrow> webhook_subscription) \<Rightarrow> webhook_state \<Rightarrow> webhook_state" where
  "update_subscription i f st = st\<lparr>ws_subscriptions := map (\<lambda>s. if sb_id s = i then f s else s) (ws_subscriptions st)\<rparr>"

definition fullPayload :: "webhook_env \<Rightarrow> string \<Rightarrow> json \<Rightarrow> json" where
  "fullPayload we eventType payload =
     JObj [(''id'', JStr (generateEventId we)), (''event'', JStr eventType), (''timestamp'', JStr (toISOString (we_now we))), (''data'', payload)]"

definition truncatedPayload :: "json \<Rightarrow> json result" where
  "truncatedPayload full =
     (let payloadJson = json_stringify full in
      if MAX_PAYLOAD_SIZE < length payloadJson then json_parse (take MAX_PAYLOAD_SIZE payloadJson @ [CHR 0x22, CHR ''}'']) else Inr full)"

definition new_delivery :: "webhook_env \<Rightarrow> webhook_subscription \<Rightarrow> string \<Rightarrow> json \<Rightarrow> webhook_delivery" where
  "new_delivery we s eventType payload =
     \<lparr>dl_id = we_uuid we, dl_subscriptionId = sb_id s, dl_eventType = eventType, dl_payload = payload,
      dl_signature = signPayload we payload (sb_secret s), dl_status = DL_PENDING, dl_httpStatusCode = None, dl_responseBody = None,
      dl_errorMessage = None, dl_attemptNumber = 0, dl_maxRetries = sb_maxRetries s, dl_durationMs = None,
      dl_deliveredAt = we_now we, dl_nextRetryAt = None, dl_createdAt = we_now we\<rparr>"

definition deliverEvent :: "webhook_env \<Rightarrow> webhook_subscription \<Rightarrow> string \<Rightarrow> json \<Rightarrow> webhook_state \<Rightarrow> webhook_delivery result \<times> webhook_state" where
  "deliverEvent we s eventType payload st =
     (case truncatedPayload (fullPayload we eventType payload) of
        Inl e \<Rightarrow> (Inl e, st)
      | Inr p \<Rightarrow> let d = new_delivery we s eventType p; st1 = save_delivery we d st
                in (Inr d, st1\<lparr>ws_jobs := ws_jobs st1 @ [(we_now we, d, s)]\<rparr>))"

text \<open>Every matching active subscription gets a delivery; an error of one is logged. The \<open>k\<close>-th delivery has its own surroundings.\<close>

fun deliver_all :: "(nat \<Rightarrow> webhook_env) \<Rightarrow> nat \<Rightarrow> webhook_subscription list \<Rightarrow> string \<Rightarrow> json \<Rightarrow> webhook_state \<Rightarrow> webhook_state" where
  "deliver_all we k [] eventType payload st = st"
| "deliver_all we k (s # ss) eventType payload st = deliver_all we (Suc k) ss eventType payload (snd (deliverEvent (we k) s eventType payload st))"

definition processEvent :: "(nat \<Rightarrow> webhook_env) \<Rightarrow> string \<Rightarrow> json \<Rightarrow> webhook_state \<Rightarrow> webhook_state" where
  "processEvent we eventType payload st =
     deliver_all we 0 (filter (\<lambda>s. eventType \<in> set (sb_events s)) (filter (\<lambda>s. sb_status s = WH_ACTIVE) (ws_subscriptions st))) eventType payload st"

definition delivery_headers :: "webhook_delivery \<Rightarrow> webhook_subscription \<Rightarrow> (string \<times> string) list" where
  "delivery_headers d s =
     (let base = [(''Content-Type'', ''application/json''), (''User-Agent'', ''InterChangableTrade-Webhook/1.0''), (''X-Webhook-ID'', sb_id s),
            (''X-Webhook-Signature'', ''sha256='' @ dl_signature d), (''X-Webhook-Timestamp'', toISOString (dl_deliveredAt d)),
            (''X-Webhook-Event'', dl_eventType d), (''X-Webhook-Delivery-Id'', dl_id d)];
          custom = (case sb_customHeaders s of None \<Rightarrow> base | Some hs \<Rightarrow> foldl (\<lambda>m (k, v). map_set k v m) base hs)
      in if truthy (sb_authToken s) then map_set ''Authorization'' (''Bearer '' @ the (sb_authToken s)) custom else custom)"

definition attempt_error :: "http_outcome \<Rightarrow> string option" where
  "attempt_error out = (case out of
       HttpResponse status body \<Rightarrow> if 200 \<le> status \<and> status \<le> 299 then None else Some (''HTTP '' @ nat_to_string status @ '': '' @ take 200 body)
     | HttpError m \<Rightarrow> Some m)"

definition delivery_succeeded :: "webhook_env \<Rightarrow> nat \<Rightarrow> string \<Rightarrow> webhook_delivery \<Rightarrow> webhook_subscription \<Rightarrow> webhook_state \<Rightarrow> webhook_state" where
  "delivery_succeeded we status body d s st =
     update_subscription (sb_id s) (\<lambda>x. x\<lparr>sb_totalDeliveries := sb_totalDeliveries x + 1, sb_lastDeliveredAt := Some (we_end we), sb_lastEventAt := Some (we_end we)\<rparr>)
       (save_delivery we (d\<lparr>dl_status := DL_SUCCESS, dl_httpStatusCode := Some status, dl_responseBody := Some (take 1024 body),
          dl_durationMs := Some (we_end we - we_now we)\<rparr>) st)"

definition delivery_failed :: "webhook_env \<Rightarrow> string \<Rightarrow> webhook_delivery \<Rightarrow> webhook_subscription \<Rightarrow> webhook_state \<Rightarrow> webhook_state" where
  "delivery_failed we msg d s st =
     (let d1 = d\<lparr>dl_httpStatusCode := None, dl_responseBody := None, dl_errorMessage := Some msg, dl_durationMs := Some (we_end we - we_now we)\<rparr> in
      if dl_attemptNumber d1 < dl_maxRetries d1 then
        let n = dl_attemptNumber d1 + 1;
            d2 = d1\<lparr>dl_attemptNumber := n, dl_status := DL_RETRYING, dl_nextRetryAt := Some (calculateRetryTime (we_end we) n)\<rparr>;
            st1 = save_delivery we d2 st
        in st1\<lparr>ws_jobs := ws_jobs st1 @ [(we_end we + int (calculateRetryDelay n), d2, s)]\<rparr>
      else
        update_subscription (sb_id s) (\<lambda>x. x\<lparr>sb_totalFailures := sb_totalFailures x + 1, sb_lastFailedAt := Some (we_end we)\<rparr>)
          (save_delivery we (d1\<lparr>dl_status := DL_FAILED, dl_attemptNumber := dl_attemptNumber d1 + 1\<rparr>) st))"

text \<open>The outcome is the one of the request; statements of the database are assumed to succeed.\<close>

definition executeDelivery :: "webhook_env \<Rightarrow> http_outcome \<Rightarrow> webhook_delivery \<Rightarrow> webhook_subscription \<Rightarrow> webhook_state \<Rightarrow> webhook_state" where
  "executeDelivery we out d s st =
     (let d1 = d\<lparr>dl_status := DL_RETRYING\<rparr>;
          st1 = save_delivery we d1 st;
          st2 = st1\<lparr>ws_requests := ws_requests st1 @ [\<lparr>rq_url = sb_url s, rq_headers = delivery_headers d1 s, rq_body = json_stringify (dl_payload d1)\<rparr>]\<rparr>
      in case attempt_error out of
           Some msg \<Rightarrow> delivery_failed we msg d1 s st2
         | None \<Rightarrow> (case out of HttpResponse status body \<Rightarrow> delivery_succeeded we status body d1 s st2 | HttpError _ \<Rightarrow> st2))"

text \<open>The event loop runs a job: the code that was started or whose timer fired.\<close>

definition run_job :: "webhook_env \<Rightarrow> http_outcome \<Rightarrow> webhook_state \<Rightarrow> webhook_state" where
  "run_job we out st = (case ws_jobs st of [] \<Rightarrow> st | (_, d, s) # js \<Rightarrow> executeDelivery we out d s (st\<lparr>ws_jobs := js\<rparr>))"

record delivery_query =
  dq_status :: "delivery_status option"
  dq_eventType :: "string option"
  dq_startDate :: "int option"
  dq_endDate :: "int option"
  dq_page :: "nat option"
  dq_limit :: "nat option"

definition getDeliveries :: "string \<Rightarrow> delivery_query \<Rightarrow> webhook_state \<Rightarrow> webhook_delivery list \<times> nat" where
  "getDeliveries subscriptionId q st =
     (let rows = filter (\<lambda>d. dl_subscriptionId d = subscriptionId \<and>
                 (case dq_status q of None \<Rightarrow> True | Some x \<Rightarrow> dl_status d = x) \<and>
                 (if truthy (dq_eventType q) then dq_eventType q = Some (dl_eventType d) else True) \<and>
                 (case dq_startDate q of None \<Rightarrow> True | Some t \<Rightarrow> t \<le> dl_deliveredAt d) \<and>
                 (case dq_endDate q of None \<Rightarrow> True | Some t \<Rightarrow> dl_deliveredAt d \<le> t)) (ws_deliveries st);
          page = (case dq_page q of None \<Rightarrow> 1 | Some n \<Rightarrow> n); limit = (case dq_limit q of None \<Rightarrow> 20 | Some n \<Rightarrow> n)
      in (take limit (drop ((page - 1) * limit) (newest_first dl_createdAt rows)), length rows))"

definition getDelivery :: "string \<Rightarrow> webhook_state \<Rightarrow> webhook_delivery result" where
  "getDelivery deliveryId st = (case row_by dl_id deliveryId (ws_deliveries st) of
       None \<Rightarrow> Inl (PlainError (''Delivery '' @ deliveryId @ '' not found'')) | Some d \<Rightarrow> Inr d)"

definition retryDelivery :: "webhook_env \<Rightarrow> http_outcome \<Rightarrow> string \<Rightarrow> string \<Rightarrow> webhook_state \<Rightarrow> webhook_delivery result \<times> webhook_state" where
  "retryDelivery we out deliveryId subscriptionId st =
     (case getDelivery deliveryId st of
        Inl e \<Rightarrow> (Inl e, st)
      | Inr d \<Rightarrow> (case row_by sb_id subscriptionId (ws_subscriptions st) of
          None \<Rightarrow> (Inl (PlainError (''Subscription '' @ subscriptionId @ '' not found'')), st)
        | Some s \<Rightarrow>
            let d1 = d\<lparr>dl_status := DL_PENDING, dl_attemptNumber := 0, dl_errorMessage := None, dl_nextRetryAt := None\<rparr>;
                st1 = executeDelivery we out d1 s (save_delivery we d1 st)
            in (getDelivery deliveryId st1, st1)))"

definition sendTestDelivery :: "webhook_env \<Rightarrow> webhook_subscription \<Rightarrow> webhook_state \<Rightarrow> webhook_delivery result \<times> webhook_state" where
  "sendTestDelivery we s st = deliverEvent we s ''webhook.test''
     (JObj [(''message'', JStr ''This is a test webhook delivery''), (''webhook_id'', JStr (sb_id s)), (''webhook_name'', JStr (sb_name s))]) st"

section \<open>Subscriptions\<close>

definition subscription_create :: "webhook_env \<Rightarrow> string \<Rightarrow> create_webhook_dto \<Rightarrow> webhook_state \<Rightarrow> webhook_subscription \<times> webhook_state" where
  "subscription_create we userId dto st =
     (let s = \<lparr>sb_id = we_uuid we, sb_userId = userId, sb_name = cw_name dto, sb_url = cw_url dto, sb_secret = generateSecret we,
               sb_events = cw_events dto, sb_status = WH_ACTIVE, sb_description = field_opt (cw_description dto),
               sb_customHeaders = field_opt (cw_customHeaders dto), sb_authToken = field_opt (cw_authToken dto),
               sb_maxRetries = (case field_opt (cw_maxRetries dto) of None \<Rightarrow> 5 | Some n \<Rightarrow> n),
               sb_rateLimitPerMinute = (case field_opt (cw_rateLimitPerMinute dto) of None \<Rightarrow> 60 | Some n \<Rightarrow> n),
               sb_totalDeliveries = 0, sb_totalFailures = 0, sb_lastDeliveredAt = None, sb_lastFailedAt = None, sb_lastEventAt = None,
               sb_createdAt = we_now we\<rparr>
      in (s, st\<lparr>ws_subscriptions := save_row sb_id s (ws_subscriptions st)\<rparr>))"

text \<open>\<^verbatim>\<open>ILIKE\<close>: a percent sign is any text, an underscore any character, a backslash takes the next one as it is.\<close>

fun ilike :: "string \<Rightarrow> string \<Rightarrow> bool" where
  "ilike [] s \<longleftrightarrow> s = []"
| "ilike (p # ps) s \<longleftrightarrow>
     (if p = CHR ''%'' then ilike ps s \<or> (case s of [] \<Rightarrow> False | _ # t \<Rightarrow> ilike (p # ps) t)
      else if p = CHR ''_'' then (case s of [] \<Rightarrow> False | _ # t \<Rightarrow> ilike ps t)
      else if p = CHR 0x5C \<and> ps \<noteq> [] then (case s of [] \<Rightarrow> False | c # t \<Rightarrow> lower_char c = lower_char (hd ps) \<and> ilike (tl ps) t)
      else (case s of [] \<Rightarrow> False | c # t \<Rightarrow> lower_char c = lower_char p \<and> ilike ps t))"

definition findAllByUser :: "string \<Rightarrow> webhook_status option \<Rightarrow> string option \<Rightarrow> nat option \<Rightarrow> nat option \<Rightarrow> webhook_state \<Rightarrow> webhook_subscription list \<times> nat" where
  "findAllByUser userId status search page limit st =
     (let rows = filter (\<lambda>s. sb_userId s = userId \<and> (case status of None \<Rightarrow> True | Some x \<Rightarrow> sb_status s = x) \<and>
                   (if truthy search then ilike (''%'' @ the search @ ''%'') (sb_name s) else True)) (ws_subscriptions st);
          pg = (case page of None \<Rightarrow> 1 | Some n \<Rightarrow> n); lim = (case limit of None \<Rightarrow> 20 | Some n \<Rightarrow> n)
      in (take lim (drop ((pg - 1) * lim) (newest_first sb_createdAt rows)), length rows))"

definition subscription_findOne :: "string \<Rightarrow> string \<Rightarrow> webhook_state \<Rightarrow> webhook_subscription result" where
  "subscription_findOne i userId st = (case find (\<lambda>s. sb_id s = i \<and> sb_userId s = userId) (ws_subscriptions st) of
       None \<Rightarrow> Inl (NotFound (''Webhook subscription '' @ i @ '' not found'')) | Some s \<Rightarrow> Inr s)"

definition assigned_subscription :: "update_webhook_dto \<Rightarrow> webhook_subscription \<Rightarrow> webhook_subscription result" where
  "assigned_subscription dto s =
     rbind (assign ''name'' (uw_name dto) (sb_name s)) (\<lambda>nm.
     rbind (assign ''url'' (uw_url dto) (sb_url s)) (\<lambda>u.
     rbind (assign ''events'' (uw_events dto) (sb_events s)) (\<lambda>evs.
     rbind (assign ''status'' (uw_status dto) (sb_status s)) (\<lambda>x.
     rbind (assign ''maxRetries'' (uw_maxRetries dto) (sb_maxRetries s)) (\<lambda>mr.
     rbind (assign ''rateLimitPerMinute'' (uw_rateLimitPerMinute dto) (sb_rateLimitPerMinute s)) (\<lambda>rl.
       Inr (s\<lparr>sb_name := nm, sb_url := u, sb_events := evs, sb_description := assign_nullable (uw_description dto) (sb_description s),
              sb_status := x, sb_customHeaders := assign_nullable (uw_customHeaders dto) (sb_customHeaders s),
              sb_authToken := assign_nullable (uw_authToken dto) (sb_authToken s), sb_maxRetries := mr, sb_rateLimitPerMinute := rl\<rparr>)))))))"

definition subscription_update :: "string \<Rightarrow> string \<Rightarrow> update_webhook_dto \<Rightarrow> webhook_state \<Rightarrow> webhook_subscription result \<times> webhook_state" where
  "subscription_update i userId dto st =
     (case rbind (subscription_findOne i userId st) (assigned_subscription dto) of
        Inl e \<Rightarrow> (Inl e, st)
      | Inr s \<Rightarrow> (Inr s, st\<lparr>ws_subscriptions := save_row sb_id s (ws_subscriptions st)\<rparr>))"

definition subscription_remove :: "string \<Rightarrow> string \<Rightarrow> webhook_state \<Rightarrow> unit result \<times> webhook_state" where
  "subscription_remove i userId st = (case subscription_findOne i userId st of
       Inl e \<Rightarrow> (Inl e, st)
     | Inr s \<Rightarrow> (Inr (), st\<lparr>ws_subscriptions := filter (\<lambda>x. sb_id x \<noteq> sb_id s) (ws_subscriptions st)\<rparr>))"

definition status_dto :: "webhook_status \<Rightarrow> update_webhook_dto" where
  "status_dto x = \<lparr>uw_name = Undefined, uw_url = Undefined, uw_events = Undefined, uw_description = Undefined, uw_status = Val x,
     uw_customHeaders = Undefined, uw_authToken = Undefined, uw_maxRetries = Undefined, uw_rateLimitPerMinute = Undefined\<rparr>"

definition pause :: "string \<Rightarrow> string \<Rightarrow> webhook_state \<Rightarrow> webhook_subscription result \<times> webhook_state" where
  "pause i userId st = subscription_update i userId (status_dto WH_PAUSED) st"

definition resume :: "string \<Rightarrow> string \<Rightarrow> webhook_state \<Rightarrow> webhook_subscription result \<times> webhook_state" where
  "resume i userId st = subscription_update i userId (status_dto WH_ACTIVE) st"

definition sendTest :: "webhook_env \<Rightarrow> string \<Rightarrow> string \<Rightarrow> webhook_state \<Rightarrow> webhook_delivery result \<times> webhook_state" where
  "sendTest we i userId st = (case subscription_findOne i userId st of Inl e \<Rightarrow> (Inl e, st) | Inr s \<Rightarrow> sendTestDelivery we s st)"

record webhook_stats =
  wt_total :: nat
  wt_active :: nat
  wt_paused :: nat
  wt_inactive :: nat
  wt_totalDeliveries :: nat
  wt_totalFailures :: nat

definition webhook_getStats :: "string \<Rightarrow> webhook_state \<Rightarrow> webhook_stats" where
  "webhook_getStats userId st =
     (let rows = filter (\<lambda>s. sb_userId s = userId) (ws_subscriptions st); count = (\<lambda>x. length (filter (\<lambda>s. sb_status s = x) rows))
      in \<lparr>wt_total = length rows, wt_active = count WH_ACTIVE, wt_paused = count WH_PAUSED, wt_inactive = count WH_INACTIVE,
          wt_totalDeliveries = sum_list (map sb_totalDeliveries rows), wt_totalFailures = sum_list (map sb_totalFailures rows)\<rparr>)"

definition rotateSecret :: "webhook_env \<Rightarrow> string \<Rightarrow> string \<Rightarrow> webhook_state \<Rightarrow> string result \<times> webhook_state" where
  "rotateSecret we i userId st = (case subscription_findOne i userId st of
       Inl e \<Rightarrow> (Inl e, st)
     | Inr s \<Rightarrow> (Inr (generateSecret we),
         st\<lparr>ws_subscriptions := save_row sb_id (s\<lparr>sb_secret := generateSecret we\<rparr>) (ws_subscriptions st)\<rparr>))"

section \<open>Endpoints and listener\<close>

definition deliveries_endpoint :: "string \<Rightarrow> string \<Rightarrow> delivery_query \<Rightarrow> webhook_state \<Rightarrow> (webhook_delivery list \<times> nat) result" where
  "deliveries_endpoint userId i q st = rbind (subscription_findOne i userId st) (\<lambda>_. Inr (getDeliveries i q st))"

definition delivery_endpoint :: "string \<Rightarrow> string \<Rightarrow> string \<Rightarrow> webhook_state \<Rightarrow> webhook_delivery result" where
  "delivery_endpoint userId i deliveryId st = rbind (subscription_findOne i userId st) (\<lambda>_. getDelivery deliveryId st)"

definition retry_endpoint :: "webhook_env \<Rightarrow> http_outcome \<Rightarrow> string \<Rightarrow> string \<Rightarrow> string \<Rightarrow> webhook_state \<Rightarrow> webhook_delivery result \<times> webhook_state" where
  "retry_endpoint we out userId i deliveryId st = (case subscription_findOne i userId st of
       Inl e \<Rightarrow> (Inl e, st) | Inr _ \<Rightarrow> retryDelivery we out deliveryId i st)"

text \<open>The events the listener routes, each under its own name, and how it forwards one.\<close>

definition webhook_events :: "string list" where
  "webhook_events = [''trade.created'', ''trade.completed'', ''trade.cancelled'', ''trade.failed'',
     ''settlement.initiated'', ''settlement.completed'', ''settlement.failed'', ''balance.changed'', ''balance.low'',
     ''escrow.created'', ''escrow.funded'', ''escrow.released'', ''escrow.disputed'', ''escrow.resolved'',
     ''transaction.initiated'', ''transaction.confirmed'', ''transaction.failed'', ''wallet.created'', ''wallet.updated'',
     ''user.registered'', ''user.kyc_completed'', ''user.kyc_failed'', ''compliance.aml.flag_created'', ''compliance.aml.flag_reviewed'',
     ''marketplace.asset_listed'', ''marketplace.asset_sold'', ''marketplace.asset_delisted'', ''notification.sent'', ''notification.failed'']"

definition webhook_dispatch :: "(nat \<Rightarrow> webhook_env) \<Rightarrow> string \<Rightarrow> json \<Rightarrow> webhook_state \<Rightarrow> webhook_state" where
  "webhook_dispatch we eventName payload st = (if eventName \<in> set webhook_events then processEvent we eventName payload st else st)"

end
