(* ===== verification/Webhook_Props.thy ===== *)
theory Webhook_Props
  imports Webhook
begin

text \<open>
  What the webhooks promise: oversized events are dropped, every delivery settles within its retries, who can
  read and resend a delivery, which signatures verify, and why a resent delivery carries one that does not.
\<close>

section \<open>Oversized events\<close>

text \<open>The text of an event before its data.\<close>

definition payload_head :: "webhook_env \<Rightarrow> string \<Rightarrow> string" where
  "payload_head we eventType =
     json_quote ''id'' @ '':'' @ json_quote (generateEventId we) @ '','' @ json_quote ''event'' @ '':'' @ json_quote eventType @ '','' @
     json_quote ''timestamp'' @ '':'' @ json_quote (toISOString (we_now we)) @ '','' @ json_quote ''data'' @ '':''"

lemma fullPayload_text: "json_stringify (fullPayload we eventType payload) = CHR ''{'' # payload_head we eventType @ json_stringify payload @ ''}''"
  by (simp add: fullPayload_def payload_head_def)

lemma safe_colon: "safe '':''" and safe_comma: "safe '',''"
  by (simp_all add: safe_plain plain_def)

lemma safe_payload_head: "safe (payload_head we eventType)"
  unfolding payload_head_def by (intro safe_append safe_quote safe_colon safe_comma)

lemma oversized_rejected:
  assumes "length (payload_head we ev) + 1 < MAX_PAYLOAD_SIZE" and "MAX_PAYLOAD_SIZE < length (json_stringify (JObj ms))"
  shows "truncatedPayload (fullPayload we ev (JObj ms)) = Inl (SyntaxError ''invalid JSON'')"
proof -
  let ?full = "CHR ''{'' # payload_head we ev @ json_stringify (JObj ms) @ ''}''"
  have "MAX_PAYLOAD_SIZE < length ?full" using assms(2) by simp
  moreover from this have "parse_text n (take MAX_PAYLOAD_SIZE ?full @ [CHR 0x22, CHR ''}'']) = None" for n
    using assms(1) by (intro cut_text_rejected [OF safe_payload_head refl])
  ultimately show ?thesis by (simp only: truncatedPayload_def fullPayload_text Let_def json_parse_def option.case if_True)
qed

text \<open>
  C37. An event whose data takes more than 256 KB is dropped without a trace: cutting the text and closing it with
  a quote and one brace never gives JSON again, because the data is an object inside the payload. So no
  subscription gets a delivery record, a request or a retry, and the caller sees no error.
\<close>

theorem oversized_events_dropped:
  assumes "\<And>k. length (payload_head (we k) ev) + 1 < MAX_PAYLOAD_SIZE" and "MAX_PAYLOAD_SIZE < length (json_stringify (JObj ms))"
  shows "processEvent we ev (JObj ms) st = st \<and> deliverEvent (we 0) s ev (JObj ms) st = (Inl (SyntaxError ''invalid JSON''), st)"
proof -
  have one: "deliverEvent (we k) x ev (JObj ms) st = (Inl (SyntaxError ''invalid JSON''), st)" for k x
    using oversized_rejected [OF assms(1,2)] by (simp add: deliverEvent_def)
  then have "deliver_all we k ss ev (JObj ms) st = st" for k ss by (induction ss arbitrary: k) simp_all
  then show ?thesis using one by (simp add: processEvent_def)
qed

section \<open>Retries\<close>

fun run_jobs :: "(nat \<Rightarrow> webhook_env) \<Rightarrow> (nat \<Rightarrow> http_outcome) \<Rightarrow> nat \<Rightarrow> nat \<Rightarrow> webhook_state \<Rightarrow> webhook_state" where
  "run_jobs we outs k 0 st = st"
| "run_jobs we outs k (Suc n) st = run_jobs we outs (Suc k) n (run_job (we k) (outs k) st)"

lemma run_jobs_idle: "ws_jobs st = [] \<Longrightarrow> run_jobs we outs k n st = st"
  by (induction n arbitrary: k) (simp_all add: run_job_def)

text \<open>The one row of a delivery, and what its requests have in common.\<close>

definition stored :: "string \<Rightarrow> webhook_state \<Rightarrow> webhook_delivery option" where
  "stored i st = row_by dl_id i (ws_deliveries st)"

definition same_request :: "webhook_delivery \<Rightarrow> webhook_subscription \<Rightarrow> http_request \<Rightarrow> bool" where
  "same_request d s r \<longleftrightarrow> rq_url r = sb_url s \<and> rq_body r = json_stringify (dl_payload d) \<and> rq_headers r = delivery_headers d s"

lemma stored_save [simp]: "stored i (save_delivery we d st) = (if i = dl_id d then Some (d\<lparr>dl_payload := we_jsonb we (dl_payload d)\<rparr>) else stored i st)"
  by (simp add: stored_def save_delivery_def row_by_save_row)

lemma save_delivery_simps [simp]:
  "ws_jobs (save_delivery we d st) = ws_jobs st" "ws_requests (save_delivery we d st) = ws_requests st"
  "ws_subscriptions (save_delivery we d st) = ws_subscriptions st"
  by (simp_all add: save_delivery_def)

lemma update_subscription_simps [simp]:
  "ws_jobs (update_subscription i f st) = ws_jobs st" "ws_requests (update_subscription i f st) = ws_requests st"
  "stored j (update_subscription i f st) = stored j st"
  by (simp_all add: update_subscription_def stored_def)

lemma stored_update [simp]: "stored i (st\<lparr>ws_requests := r\<rparr>) = stored i st" "stored i (st\<lparr>ws_jobs := q\<rparr>) = stored i st"
  by (simp_all add: stored_def)

lemma headers_update [simp]:
  "delivery_headers (d\<lparr>dl_status := x\<rparr>) s = delivery_headers d s" "delivery_headers (d\<lparr>dl_attemptNumber := n\<rparr>) s = delivery_headers d s"
  "delivery_headers (d\<lparr>dl_nextRetryAt := r\<rparr>) s = delivery_headers d s" "delivery_headers (d\<lparr>dl_httpStatusCode := c\<rparr>) s = delivery_headers d s"
  "delivery_headers (d\<lparr>dl_responseBody := b\<rparr>) s = delivery_headers d s" "delivery_headers (d\<lparr>dl_errorMessage := m\<rparr>) s = delivery_headers d s"
  "delivery_headers (d\<lparr>dl_durationMs := u\<rparr>) s = delivery_headers d s"
  by (simp_all add: delivery_headers_def)

text \<open>One attempt: what it sends and how it leaves the job queue and the row.\<close>

lemma attempt_sends:
  "\<exists>r. ws_requests (executeDelivery we out d s st) = ws_requests st @ [r] \<and> same_request d s r"
  by (auto simp: executeDelivery_def delivery_failed_def delivery_succeeded_def same_request_def Let_def split: option.split http_outcome.split)

lemma attempt_succeeds:
  assumes "attempt_error out = None"
  shows "ws_jobs (executeDelivery we out d s st) = ws_jobs st \<and>
    (\<exists>r. stored (dl_id d) (executeDelivery we out d s st) = Some r \<and> dl_status r = DL_SUCCESS \<and> dl_attemptNumber r = dl_attemptNumber d)"
  using assms by (cases out) (auto simp: executeDelivery_def delivery_succeeded_def attempt_error_def Let_def)

lemma attempt_gives_up:
  assumes "attempt_error out \<noteq> None" and "\<not> dl_attemptNumber d < dl_maxRetries d"
  shows "ws_jobs (executeDelivery we out d s st) = ws_jobs st \<and>
    (\<exists>r. stored (dl_id d) (executeDelivery we out d s st) = Some r \<and> dl_status r = DL_FAILED \<and> dl_attemptNumber r = Suc (dl_attemptNumber d))"
  using assms by (auto simp: executeDelivery_def delivery_failed_def Let_def)

lemma attempt_retries:
  assumes "attempt_error out \<noteq> None" and "dl_attemptNumber d < dl_maxRetries d"
  shows "\<exists>d'. ws_jobs (executeDelivery we out d s st) = ws_jobs st @ [(we_end we + int (calculateRetryDelay (Suc (dl_attemptNumber d))), d', s)] \<and>
    dl_id d' = dl_id d \<and> dl_maxRetries d' = dl_maxRetries d \<and> dl_attemptNumber d' = Suc (dl_attemptNumber d) \<and>
    json_stringify (dl_payload d') = json_stringify (dl_payload d) \<and> delivery_headers d' s = delivery_headers d s"
  using assms by (auto simp: executeDelivery_def delivery_failed_def Let_def)

lemma same_request_cong:
  "json_stringify (dl_payload d') = json_stringify (dl_payload d) \<Longrightarrow> delivery_headers d' s = delivery_headers d s \<Longrightarrow> same_request d' s r = same_request d s r"
  by (simp add: same_request_def)

text \<open>
  The chain of attempts from one job: with \<open>n\<close> failures before a success, or with failures only. \<open>settled\<close>
  says how it ends.
\<close>

definition settled :: "webhook_delivery \<Rightarrow> webhook_subscription \<Rightarrow> delivery_status \<Rightarrow> nat \<Rightarrow> nat \<Rightarrow> webhook_state \<Rightarrow> webhook_state \<Rightarrow> bool" where
  "settled d s x a n st st' \<longleftrightarrow> ws_jobs st' = [] \<and>
     (\<exists>r. stored (dl_id d) st' = Some r \<and> dl_status r = x \<and> dl_attemptNumber r = a) \<and>
     (\<exists>rs. ws_requests st' = ws_requests st @ rs \<and> length rs = n \<and> (\<forall>r \<in> set rs. same_request d s r))"

lemma settled_step:
  assumes "settled d' s x a n st1 st2" and "ws_requests st1 = ws_requests st @ [r]" and "same_request d s r"
    and "dl_id d' = dl_id d" "json_stringify (dl_payload d') = json_stringify (dl_payload d)" "delivery_headers d' s = delivery_headers d s"
  shows "settled d s x a (Suc n) st st2"
proof -
  from assms(1) obtain rs where rs: "ws_requests st2 = ws_requests st1 @ rs" "length rs = n" "\<forall>r \<in> set rs. same_request d' s r"
    by (auto simp: settled_def)
  moreover have "same_request d' s q = same_request d s q" for q using assms(5,6) by (rule same_request_cong)
  ultimately have "ws_requests st2 = ws_requests st @ (r # rs) \<and> length (r # rs) = Suc n \<and> (\<forall>q \<in> set (r # rs). same_request d s q)"
    using assms(2,3) by simp
  then show ?thesis using assms(1,4) unfolding settled_def by metis
qed

lemma run_job_single: "ws_jobs st = [(t, d, s)] \<Longrightarrow> run_job we out st = executeDelivery we out d s (st\<lparr>ws_jobs := []\<rparr>)"
  by (simp add: run_job_def)

lemma chain_end:
  assumes "ws_jobs (executeDelivery we out d s (st\<lparr>ws_jobs := []\<rparr>)) = []"
    and "stored (dl_id d) (executeDelivery we out d s (st\<lparr>ws_jobs := []\<rparr>)) = Some r" "dl_status r = x" "dl_attemptNumber r = a"
  shows "settled d s x a (Suc 0) st (executeDelivery we out d s (st\<lparr>ws_jobs := []\<rparr>))"
proof -
  obtain q where "ws_requests (executeDelivery we out d s (st\<lparr>ws_jobs := []\<rparr>)) = ws_requests st @ [q]" "same_request d s q"
    using attempt_sends [of we out d s "st\<lparr>ws_jobs := []\<rparr>"] by auto
  then show ?thesis using assms by (auto simp: settled_def intro!: exI [of _ "[q]"])
qed

lemma chain_next:
  assumes "ws_jobs st = [(t, d, s)]" and "attempt_error out \<noteq> None" and "dl_attemptNumber d < dl_maxRetries d"
  obtains t' d' q where "ws_jobs (run_job we out st) = [(t', d', s)]" "dl_id d' = dl_id d" "dl_maxRetries d' = dl_maxRetries d"
    "dl_attemptNumber d' = Suc (dl_attemptNumber d)" "json_stringify (dl_payload d') = json_stringify (dl_payload d)"
    "delivery_headers d' s = delivery_headers d s" "ws_requests (run_job we out st) = ws_requests st @ [q]" "same_request d s q"
proof -
  have "run_job we out st = executeDelivery we out d s (st\<lparr>ws_jobs := []\<rparr>)" using assms(1) by (rule run_job_single)
  then show ?thesis using attempt_retries [OF assms(2,3), of we s "st\<lparr>ws_jobs := []\<rparr>"] attempt_sends [of we out d s "st\<lparr>ws_jobs := []\<rparr>"] that by auto
qed

lemma chain_succeeds:
  assumes "ws_jobs st = [(t, d, s)]" and "dl_attemptNumber d + n \<le> dl_maxRetries d"
    and "\<And>i. i < n \<Longrightarrow> attempt_error (outs (k + i)) \<noteq> None" and "attempt_error (outs (k + n)) = None"
  shows "settled d s DL_SUCCESS (dl_attemptNumber d + n) (Suc n) st (run_jobs we outs k (Suc n) st)"
  using assms
proof (induction n arbitrary: k st t d)
  case 0
  then show ?case using attempt_succeeds [of "outs k" "we k" d s "st\<lparr>ws_jobs := []\<rparr>"] by (auto simp: run_job_single intro!: chain_end)
next
  case (Suc n)
  have "attempt_error (outs k) \<noteq> None" "dl_attemptNumber d < dl_maxRetries d" using Suc.prems(2) Suc.prems(3) [of 0] by simp_all
  from chain_next [OF Suc.prems(1) this, of "we k"] obtain t' d' q where
    j: "ws_jobs (run_job (we k) (outs k) st) = [(t', d', s)]" and d': "dl_id d' = dl_id d" "dl_maxRetries d' = dl_maxRetries d"
      "dl_attemptNumber d' = Suc (dl_attemptNumber d)" "json_stringify (dl_payload d') = json_stringify (dl_payload d)"
      "delivery_headers d' s = delivery_headers d s" and q: "ws_requests (run_job (we k) (outs k) st) = ws_requests st @ [q]" "same_request d s q" .
  have "settled d' s DL_SUCCESS (dl_attemptNumber d' + n) (Suc n) (run_job (we k) (outs k) st) (run_jobs we outs (Suc k) (Suc n) (run_job (we k) (outs k) st))"
    using Suc.prems(2,4) Suc.prems(3) [of "Suc _"] d' by (intro Suc.IH [OF j]) simp_all
  from settled_step [OF this q d'(1,4,5)] d'(3) show ?case by simp
qed

lemma chain_fails:
  assumes "ws_jobs st = [(t, d, s)]" and "dl_attemptNumber d + n = dl_maxRetries d"
    and "\<And>i. i \<le> n \<Longrightarrow> attempt_error (outs (k + i)) \<noteq> None"
  shows "settled d s DL_FAILED (Suc (dl_maxRetries d)) (Suc n) st (run_jobs we outs k (Suc n) st)"
  using assms
proof (induction n arbitrary: k st t d)
  case 0
  then show ?case using attempt_gives_up [of "outs k" d "we k" s "st\<lparr>ws_jobs := []\<rparr>"] 0(3) [of 0] by (auto simp: run_job_single intro!: chain_end)
next
  case (Suc n)
  have "attempt_error (outs k) \<noteq> None" "dl_attemptNumber d < dl_maxRetries d" using Suc.prems(2) Suc.prems(3) [of 0] by simp_all
  from chain_next [OF Suc.prems(1) this, of "we k"] obtain t' d' q where
    j: "ws_jobs (run_job (we k) (outs k) st) = [(t', d', s)]" and d': "dl_id d' = dl_id d" "dl_maxRetries d' = dl_maxRetries d"
      "dl_attemptNumber d' = Suc (dl_attemptNumber d)" "json_stringify (dl_payload d') = json_stringify (dl_payload d)"
      "delivery_headers d' s = delivery_headers d s" and q: "ws_requests (run_job (we k) (outs k) st) = ws_requests st @ [q]" "same_request d s q" .
  have "settled d' s DL_FAILED (Suc (dl_maxRetries d')) (Suc n) (run_job (we k) (outs k) st) (run_jobs we outs (Suc k) (Suc n) (run_job (we k) (outs k) st))"
    using Suc.prems(2) Suc.prems(3) [of "Suc _"] d' by (intro Suc.IH [OF j]) simp_all
  from settled_step [OF this q d'(1,4,5)] d'(2) show ?case by simp
qed

text \<open>
  C36. Every delivery settles: from the job that a new delivery starts, with any responses, the attempts end. If the
  first success is the \<open>n\<close>-th retry, within the allowed number, then \<open>n + 1\<close> equal requests were sent and the row
  is a success with attempt number \<open>n\<close>; if all attempts fail, \<open>maxRetries + 1\<close> requests were sent, the row is
  failed, and nothing is left to run.
\<close>

theorem delivery_settles:
  assumes "ws_jobs st = [(t, d, s)]" and "dl_attemptNumber d = 0"
  shows "(\<forall>n \<le> dl_maxRetries d. (\<forall>i < n. attempt_error (outs i) \<noteq> None) \<and> attempt_error (outs n) = None \<longrightarrow>
      settled d s DL_SUCCESS n (Suc n) st (run_jobs we outs 0 (Suc n) st)) \<and>
    ((\<forall>i \<le> dl_maxRetries d. attempt_error (outs i) \<noteq> None) \<longrightarrow>
      settled d s DL_FAILED (Suc (dl_maxRetries d)) (Suc (dl_maxRetries d)) st (run_jobs we outs 0 (Suc (dl_maxRetries d)) st))"
  using chain_succeeds [OF assms(1), of _ outs 0 we] chain_fails [OF assms(1), of "dl_maxRetries d" outs 0 we] assms(2) by simp

text \<open>The waits between attempts double from one second up to five minutes.\<close>

lemma retry_delay_bounds: "1000 \<le> calculateRetryDelay n \<and> calculateRetryDelay n \<le> 300000"
  by (simp add: calculateRetryDelay_def BASE_RETRY_DELAY_MS_def MAX_RETRY_DELAY_MS_def)

lemma retry_delay_grows: "calculateRetryDelay n \<le> calculateRetryDelay (Suc n)"
  by (simp only: calculateRetryDelay_def, intro min.mono mult_le_mono power_increasing) simp_all

section \<open>Ownership\<close>

lemma findOne_row:
  assumes "subscription_findOne i u st = Inr s" and "keys_distinct sb_id (ws_subscriptions st)"
  shows "row_by sb_id i (ws_subscriptions st) = Some s \<and> sb_userId s = u"
proof -
  from assms(1) have "s \<in> set (ws_subscriptions st)" "sb_id s = i" "sb_userId s = u"
    by (auto simp: subscription_findOne_def find_Some_iff split: option.splits)
  then show ?thesis using row_by_distinct [OF assms(2), of s] by simp
qed

text \<open>
  C38. The endpoints on a delivery check that the caller owns the webhook in the path and not that the delivery
  belongs to it: a user with any webhook of their own reads every delivery of every user, and a retry sends the
  foreign payload to the user's own address and overwrites the row of the delivery.
\<close>

theorem foreign_delivery_disclosed:
  assumes "keys_distinct sb_id (ws_subscriptions st)" and "subscription_findOne i u st = Inr s" and "getDelivery j st = Inr d"
  shows "delivery_endpoint u i j st = Inr d \<and>
    (\<exists>r. ws_requests (snd (retry_endpoint we out u i j st)) = ws_requests st @ [r] \<and> rq_url r = sb_url s \<and> rq_body r = json_stringify (dl_payload d)) \<and>
    (\<exists>x. stored j (snd (retry_endpoint we out u i j st)) = Some x \<and> dl_status x \<noteq> DL_PENDING \<and> dl_attemptNumber x \<le> 1)"
proof -
  let ?d = "d\<lparr>dl_status := DL_PENDING, dl_attemptNumber := 0, dl_errorMessage := None, dl_nextRetryAt := None\<rparr>"
  let ?st = "executeDelivery we out ?d s (save_delivery we ?d st)"
  have row: "row_by sb_id i (ws_subscriptions st) = Some s" using findOne_row [OF assms(2,1)] by simp
  have id: "dl_id d = j" using assms(3) by (auto simp: getDelivery_def split: option.splits dest: row_by_SomeD)
  have "snd (retry_endpoint we out u i j st) = ?st" using assms(2,3) row by (simp add: retry_endpoint_def retryDelivery_def Let_def)
  moreover from attempt_sends [of we out ?d s "save_delivery we ?d st"]
  have "\<exists>r. ws_requests ?st = ws_requests st @ [r] \<and> rq_url r = sb_url s \<and> rq_body r = json_stringify (dl_payload d)"
    by (auto simp: same_request_def)
  moreover have "\<exists>x. stored j ?st = Some x \<and> dl_status x \<noteq> DL_PENDING \<and> dl_attemptNumber x \<le> 1"
    using id by (cases out) (auto simp: executeDelivery_def delivery_failed_def delivery_succeeded_def attempt_error_def Let_def)
  ultimately show ?thesis using assms(2,3) by (simp add: delivery_endpoint_def)
qed

section \<open>Signatures\<close>

definition lower_hex :: "string \<Rightarrow> bool" where
  "lower_hex s \<longleftrightarrow> (\<forall>c \<in> set s. let n = of_char c :: nat in 48 \<le> n \<and> n \<le> 57 \<or> 97 \<le> n \<and> n \<le> 102)"

lemma of_lower_char: "of_char (lower_char c) = (let n = of_char c :: nat in if 65 \<le> n \<and> n \<le> 90 then n + 32 else n)"
  by (simp add: lower_char_def Let_def of_char_of take_bit_eq_mod)

lemma hex_value_iff:
  "hex_value c = Some v \<longleftrightarrow> (let n = of_char c in n = v + 48 \<and> v \<le> 9 \<or> n = v + 87 \<and> 10 \<le> v \<and> v \<le> 15 \<or> n = v + 55 \<and> 10 \<le> v \<and> v \<le> 15)"
  by (auto simp: hex_value_def Let_def)

lemma hex_value_eq:
  assumes "lower_hex [c]"
  shows "\<exists>v < 16. hex_value c = Some v \<and> (\<forall>d. hex_value d = Some v \<longleftrightarrow> lower_char d = c)"
proof -
  obtain m :: nat where m: "of_char c = m" by blast
  define v where "v = (if m \<le> 57 then m - 48 else m - 87)"
  have v: "m = v + 48 \<and> v \<le> 9 \<or> m = v + 87 \<and> 10 \<le> v \<and> v \<le> 15" using assms m by (auto simp: lower_hex_def Let_def v_def)
  then have "hex_value c = Some v" by (auto simp: hex_value_iff Let_def m)
  moreover have "hex_value d = Some v \<longleftrightarrow> lower_char d = c" for d
  proof -
    have "lower_char d = c \<longleftrightarrow> of_char (lower_char d) = m" using m by (metis of_char_eq_iff)
    then show ?thesis using v by (auto simp: hex_value_iff of_lower_char Let_def)
  qed
  ultimately show ?thesis using v by (intro exI [of _ v]) auto
qed

lemma hex_value_less: "hex_value c = Some v \<Longrightarrow> v < 16"
  by (auto simp: hex_value_iff Let_def)

lemma hex_bytes_pair:
  assumes "hex_value a = Some p" and "hex_value b = Some q"
  shows "hex_bytes (a # b # e) = hex_bytes (x # y # r) \<longleftrightarrow> hex_value x = Some p \<and> hex_value y = Some q \<and> hex_bytes e = hex_bytes r"
proof (cases "hex_value x = None \<or> hex_value y = None")
  case True
  then show ?thesis using assms by (auto split: option.split)
next
  case False
  then obtain p' q' where x: "hex_value x = Some p'" "hex_value y = Some q'" by auto
  have "q < 16" "q' < 16" using assms x hex_value_less by auto
  then have "(16 * p + q) div 16 = p" "(16 * p + q) mod 16 = q" "(16 * p' + q') div 16 = p'" "(16 * p' + q') mod 16 = q'" by simp_all
  then have "16 * p + q = 16 * p' + q' \<longleftrightarrow> p = p' \<and> q = q'" by metis
  then show ?thesis using assms x by auto
qed

lemma hex_bytes_eq:
  "length e = length t \<Longrightarrow> even (length e) \<Longrightarrow> lower_hex e \<Longrightarrow> hex_bytes e = hex_bytes t \<longleftrightarrow> to_lower t = e"
proof (induction e arbitrary: t rule: hex_bytes.induct)
  case (1 a b e)
  from 1(2) obtain x y r where t: "t = x # y # r" by (cases t; cases "tl t") auto
  have ab: "lower_hex [a]" "lower_hex [b]" "lower_hex e" using 1(4) by (auto simp: lower_hex_def)
  from hex_value_eq [OF ab(1)] hex_value_eq [OF ab(2)] obtain p q where v: "hex_value a = Some p" "hex_value b = Some q"
    "\<And>d. hex_value d = Some p \<longleftrightarrow> lower_char d = a" "\<And>d. hex_value d = Some q \<longleftrightarrow> lower_char d = b" by blast
  have "hex_bytes e = hex_bytes r \<longleftrightarrow> to_lower r = e" using 1(1) [OF refl v(1,2)] 1(2,3) t ab(3) by simp
  then show ?case unfolding t hex_bytes_pair [OF v(1,2)] v(3,4) by (auto simp: to_lower_def)
qed (auto simp: to_lower_def)

lemma verify_hex:
  assumes "lower_hex (we_hmac we secret payload)" and "length (we_hmac we secret payload) = 64"
  shows "verifySignature we payload signature secret \<longleftrightarrow> to_lower signature = we_hmac we secret payload"
proof -
  let ?e = "we_hmac we secret payload"
  have "verifySignature we payload signature secret \<longleftrightarrow> length ?e = length signature \<and> hex_bytes ?e = hex_bytes signature"
    by (auto simp: verifySignature_def Let_def)
  also have "\<dots> \<longleftrightarrow> to_lower signature = ?e"
  proof (cases "length ?e = length signature")
    case True
    then show ?thesis using hex_bytes_eq [OF True] assms by simp
  next
    case False
    then show ?thesis by (metis length_map to_lower_def)
  qed
  finally show ?thesis .
qed

text \<open>
  A signature is accepted exactly when it is the HMAC of the payload, up to the case of its letters; and the
  value of the signature header of a delivery, with its prefix, is never accepted.
\<close>

theorem verifySignature_iff:
  assumes "lower_hex (we_hmac we secret payload)" and "length (we_hmac we secret payload) = 64"
  shows "(verifySignature we payload signature secret \<longleftrightarrow> to_lower signature = we_hmac we secret payload) \<and>
    \<not> verifySignature we payload (''sha256='' @ we_hmac we secret payload) secret"
  using verify_hex [OF assms] by (simp add: verifySignature_def)

text \<open>
  A retry from the endpoint sends the payload as the database returns it, with the signature of the text before
  it was stored. A \<^verbatim>\<open>jsonb\<close> column orders the keys of an object by length, so the texts differ.
\<close>

lemma reordered_text:
  "json_stringify (JObj [(''id'', JStr i), (''data'', x), (''event'', y), (''timestamp'', z)]) \<noteq>
   json_stringify (JObj [(''id'', JStr i), (''event'', y'), (''timestamp'', z'), (''data'', x')])"
  by (simp add: json_quote_def json_escape_def)

theorem retried_signature_invalid:
  assumes "\<And>i ev ts x. we_jsonb we (JObj [(''id'', JStr i), (''event'', JStr ev), (''timestamp'', JStr ts), (''data'', x)]) =
      JObj [(''id'', JStr i), (''data'', we_jsonb we x), (''event'', JStr ev), (''timestamp'', JStr ts)]"
    and "\<And>t. lower_hex (we_hmac we secret t) \<and> length (we_hmac we secret t) = 64"
    and "json_stringify (we_jsonb we (fullPayload we ev payload)) \<noteq> json_stringify (fullPayload we ev payload) \<Longrightarrow>
      we_hmac we secret (json_stringify (we_jsonb we (fullPayload we ev payload))) \<noteq> we_hmac we secret (json_stringify (fullPayload we ev payload))"
    and "deliverEvent we s ev payload st = (Inr d, st')" and "sb_secret s = secret" and "length (json_stringify (fullPayload we ev payload)) \<le> MAX_PAYLOAD_SIZE"
  shows "\<exists>r. getDelivery (dl_id d) st' = Inr r \<and> dl_signature r = dl_signature d \<and>
    verifySignature we (json_stringify (dl_payload d)) (dl_signature d) secret \<and>
    \<not> verifySignature we (json_stringify (dl_payload r)) (dl_signature r) secret"
proof -
  have d: "d = new_delivery we s ev (fullPayload we ev payload)" "st' = (save_delivery we d st)\<lparr>ws_jobs := ws_jobs st @ [(we_now we, d, s)]\<rparr>"
    using assms(4,6) by (auto simp: deliverEvent_def truncatedPayload_def Let_def)
  let ?r = "d\<lparr>dl_payload := we_jsonb we (dl_payload d)\<rparr>"
  have "getDelivery (dl_id d) st' = Inr ?r" using d(2) by (simp add: getDelivery_def save_delivery_def row_by_save_row)
  moreover have sig: "dl_signature d = we_hmac we secret (json_stringify (dl_payload d))" "dl_payload d = fullPayload we ev payload"
    using d(1) assms(5) by (simp_all add: new_delivery_def signPayload_def)
  moreover have "json_stringify (we_jsonb we (fullPayload we ev payload)) \<noteq> json_stringify (fullPayload we ev payload)"
    unfolding fullPayload_def assms(1) by (rule reordered_text)
  moreover have "to_lower (we_hmac we secret t) = we_hmac we secret t" for t
    using assms(2) [of t] hex_bytes_eq [OF refl, of "we_hmac we secret t"] by simp
  moreover have "verifySignature we t x secret \<longleftrightarrow> to_lower x = we_hmac we secret t" for t x using assms(2) [of t] by (simp add: verify_hex)
  ultimately show ?thesis using assms(3) by auto
qed

section \<open>Instances\<close>

definition demo_wenv :: webhook_env where
  "demo_wenv = \<lparr>we_now = 0, we_end = 5, we_uuid = ''n'', we_random8 = ''r'', we_random32 = ''z'', we_hmac = (\<lambda>_ _. replicate 64 (CHR ''a'')),
     we_jsonb = (\<lambda>j. j)\<rparr>"

definition demo_hook :: "string \<Rightarrow> string \<Rightarrow> string \<Rightarrow> webhook_subscription" where
  "demo_hook i u url = \<lparr>sb_id = i, sb_userId = u, sb_name = ''n'', sb_url = url, sb_secret = ''k'', sb_events = [''trade.created''], sb_status = WH_ACTIVE,
     sb_description = None, sb_customHeaders = None, sb_authToken = None, sb_maxRetries = 1, sb_rateLimitPerMinute = 60, sb_totalDeliveries = 0,
     sb_totalFailures = 0, sb_lastDeliveredAt = None, sb_lastFailedAt = None, sb_lastEventAt = None, sb_createdAt = 0\<rparr>"

definition demo_delivery :: webhook_delivery where
  "demo_delivery = new_delivery demo_wenv (demo_hook ''h'' ''alice'' ''https://a'') ''trade.created'' (JObj [])"

definition demo_wstate :: webhook_state where
  "demo_wstate = \<lparr>ws_subscriptions = [demo_hook ''h'' ''alice'' ''https://a'', demo_hook ''m'' ''mallory'' ''https://m''],
     ws_deliveries = [demo_delivery], ws_jobs = [(0, demo_delivery, demo_hook ''h'' ''alice'' ''https://a'')], ws_requests = []\<rparr>"

text \<open>A value of 256 KB.\<close>

definition demo_large :: "(string \<times> json) list" where
  "demo_large = [(''x'', JStr (replicate MAX_PAYLOAD_SIZE (CHR ''a'')))]"

lemma length_plain_text: "length (concat (map json_escape (replicate n (CHR ''a'')))) = n"
  by (induction n) (simp_all add: json_escape_def)

lemma demo_large_length: "MAX_PAYLOAD_SIZE < length (json_stringify (JObj demo_large))"
  by (simp add: demo_large_def json_quote_def length_plain_text del: map_replicate)

lemma demo_head_length: "length (payload_head demo_wenv ''trade.created'') + 1 < MAX_PAYLOAD_SIZE"
proof -
  have "length (payload_head demo_wenv ''trade.created'') = 85" by code_simp
  then show ?thesis by (simp add: MAX_PAYLOAD_SIZE_def)
qed

theorem oversized_events_dropped_witness:
  "processEvent (\<lambda>_. demo_wenv) ''trade.created'' (JObj demo_large) demo_wstate = demo_wstate"
  using oversized_events_dropped [of "\<lambda>_. demo_wenv" "''trade.created''" demo_large demo_wstate "demo_hook ''h'' ''alice'' ''https://a''"]
    demo_head_length demo_large_length by blast

theorem delivery_settles_witness:
  "settled demo_delivery (demo_hook ''h'' ''alice'' ''https://a'') DL_FAILED 2 2 demo_wstate
     (run_jobs (\<lambda>_. demo_wenv) (\<lambda>_. HttpError ''timeout'') 0 2 demo_wstate)"
proof -
  have "ws_jobs demo_wstate = [(0, demo_delivery, demo_hook ''h'' ''alice'' ''https://a'')]" "dl_attemptNumber demo_delivery = 0" "dl_maxRetries demo_delivery = 1"
    by (simp_all add: demo_wstate_def demo_delivery_def new_delivery_def demo_hook_def)
  then show ?thesis using delivery_settles [of demo_wstate 0 demo_delivery "demo_hook ''h'' ''alice'' ''https://a''" "\<lambda>_. HttpError ''timeout''" "\<lambda>_. demo_wenv"]
    by (simp add: attempt_error_def numeral_2_eq_2)
qed

theorem foreign_delivery_disclosed_witness:
  "delivery_endpoint ''mallory'' ''m'' ''n'' demo_wstate = Inr demo_delivery"
  using foreign_delivery_disclosed [of demo_wstate "''m''" "''mallory''" "demo_hook ''m'' ''mallory'' ''https://m''" "''n''" demo_delivery]
  by (simp add: keys_distinct_def demo_wstate_def demo_hook_def subscription_findOne_def getDelivery_def demo_delivery_def new_delivery_def demo_wenv_def)

theorem verifySignature_iff_witness:
  "verifySignature demo_wenv ''p'' (replicate 64 (CHR ''A'')) ''k'' \<and> \<not> verifySignature demo_wenv ''p'' (''sha256='' @ replicate 64 (CHR ''a'')) ''k''"
proof -
  have "to_lower (replicate 64 (CHR ''A'')) = replicate 64 (CHR ''a'')" by code_simp
  then show ?thesis using verifySignature_iff [of demo_wenv "''k''" "''p''" "replicate 64 (CHR ''A'')"]
    by (simp add: demo_wenv_def lower_hex_def)
qed

end
