(* ===== verification/Login.thy ===== *)
theory Login
  imports RateLimit Wallet JsNan
begin

text \<open>
  Authentication (\<^verbatim>\<open>src/src/modules/auth\<close>) and users (\<^verbatim>\<open>src/src/modules/users\<close>): accounts, password and wallet
  logins with their limits, refresh tokens and their rotation, password resets, API keys, step-up tokens, the
  clean-up of credentials and the strategies that turn a credential into a caller.

  \<open>login_env\<close> is what a call reads from its surroundings: the clock, the identifiers of new rows, 32 random bytes as
  text, whether Redis answers and whether the audit table can be written (the code goes on without either), the
  configured life of a refresh token, and the libraries: bcrypt, HMAC-SHA256 with the pepper, the token library, and
  the keys and signatures of the Stellar SDK. The tables keep what the unique indexes of the schema promise.
\<close>

section \<open>Data\<close>

datatype account_role = ROLE_USER | ROLE_ADMIN | ROLE_ANALYST | ROLE_ARBITRATOR

record account =
  ac_id :: string
  ac_email :: string
  ac_passwordHash :: string
  ac_displayName :: "string option"
  ac_stellarPublicKey :: "string option"
  ac_role :: account_role
  ac_isActive :: bool
  ac_createdAt :: int

record refresh_token =
  rt_id :: string
  rt_userId :: string
  rt_tokenHash :: string
  rt_lookupHash :: string
  rt_deviceHint :: "string option"
  rt_ipAddress :: "string option"
  rt_userAgent :: "string option"
  rt_expiresAt :: int
  rt_isRevoked :: bool
  rt_revokedAt :: "int option"

record password_reset_token =
  pr_id :: string
  pr_userId :: string
  pr_tokenHash :: string
  pr_lookupHash :: string
  pr_expiresAt :: int
  pr_isUsed :: bool

record stellar_challenge =
  sg_id :: string
  sg_nonce :: string
  sg_publicKey :: string
  sg_expiresAt :: int
  sg_isUsed :: bool
  sg_createdAt :: int

record api_key =
  ak_id :: string
  ak_userId :: string
  ak_name :: string
  ak_keyHash :: string
  ak_lookupHash :: string
  ak_keyPreview :: string
  ak_isActive :: bool
  ak_lastUsedAt :: "int option"
  ak_expiresAt :: "int option"
  ak_scopes :: "string list option"
  ak_createdAt :: int

datatype auth_event = EV_REGISTER | EV_LOGIN_SUCCESS | EV_LOGIN_FAILED | EV_LOGOUT | EV_TOKEN_REFRESH | EV_TOKEN_REVOKED
  | EV_PASSWORD_RESET_REQUEST | EV_PASSWORD_RESET_SUCCESS | EV_API_KEY_CREATED | EV_API_KEY_REVOKED | EV_STELLAR_AUTH_CHALLENGE
  | EV_STELLAR_AUTH_SUCCESS | EV_STELLAR_AUTH_FAILED | EV_STEP_UP_TOKEN_ISSUED | EV_OAUTH_LOGIN_SUCCESS | EV_ACCOUNT_LOCKED

record request_context =
  cx_ipAddress :: "string option"
  cx_userAgent :: "string option"
  cx_deviceHint :: "string option"

record auth_audit_log =
  aa_userId :: "string option"
  aa_eventType :: auth_event
  aa_ipAddress :: "string option"
  aa_userAgent :: "string option"
  aa_metadata :: "(string \<times> json) list option"
  aa_success :: bool
  aa_failureReason :: "string option"

record jwt_claims =
  jw_sub :: string
  jw_email :: "string option"
  jw_role :: "account_role option"
  jw_purpose :: "string option"
  jw_scope :: "string option"

record auth_db =
  ad_users :: "account list"
  ad_refresh :: "refresh_token list"
  ad_resets :: "password_reset_token list"
  ad_challenges :: "stellar_challenge list"
  ad_apiKeys :: "api_key list"
  ad_audit :: "auth_audit_log list"
  ad_redis :: redis

record login_env =
  le_now :: int
  le_uuid :: string
  le_uuid2 :: string
  le_random :: string
  le_redis_up :: bool
  le_audit_up :: bool
  le_refreshTtl :: int
  le_hash :: "string \<Rightarrow> string"
  le_compare :: "string \<Rightarrow> string \<Rightarrow> bool"
  le_digest :: "string \<Rightarrow> string"
  le_sign :: "jwt_claims \<Rightarrow> int option \<Rightarrow> string"
  le_validKey :: "string \<Rightarrow> bool"
  le_verify :: "string \<Rightarrow> string \<Rightarrow> string \<Rightarrow> bool"

record auth_result =
  ru_accessToken :: string
  ru_refreshToken :: string
  ru_userId :: string
  ru_email :: string
  ru_role :: account_role

definition duplicate_key :: "string \<Rightarrow> http_error" where
  "duplicate_key c = QueryFailed (''duplicate key value violates unique constraint on '' @ c)"

section \<open>Audit\<close>

definition auth_record :: "login_env \<Rightarrow> auth_audit_log \<Rightarrow> auth_db \<Rightarrow> auth_db" where
  "auth_record e x db = (if le_audit_up e then db\<lparr>ad_audit := ad_audit db @ [x]\<rparr> else db)"

definition recordSuccess :: "login_env \<Rightarrow> auth_event \<Rightarrow> string option \<Rightarrow> string option \<Rightarrow> string option \<Rightarrow> (string \<times> json) list option \<Rightarrow> auth_db \<Rightarrow> auth_db" where
  "recordSuccess e ev u ip ua md db = auth_record e \<lparr>aa_userId = u, aa_eventType = ev, aa_ipAddress = ip, aa_userAgent = ua,
     aa_metadata = md, aa_success = True, aa_failureReason = None\<rparr> db"

definition recordAuthFailure :: "login_env \<Rightarrow> auth_event \<Rightarrow> string option \<Rightarrow> string option \<Rightarrow> string option \<Rightarrow> (string \<times> json) list option \<Rightarrow> string \<Rightarrow> auth_db \<Rightarrow> auth_db" where
  "recordAuthFailure e ev u ip ua md reason db = auth_record e \<lparr>aa_userId = u, aa_eventType = ev, aa_ipAddress = ip, aa_userAgent = ua,
     aa_metadata = md, aa_success = False, aa_failureReason = Some reason\<rparr> db"

section \<open>Login limits\<close>

definition MAX_FAILURES :: int where "MAX_FAILURES = 5"
definition FAILURE_WINDOW_SECS :: int where "FAILURE_WINDOW_SECS = 300"
definition LOCKOUT_SECS :: int where "LOCKOUT_SECS = 900"
definition CHALLENGE_WINDOW_SECS :: int where "CHALLENGE_WINDOW_SECS = 60"
definition CHALLENGE_MAX_PER_IP :: int where "CHALLENGE_MAX_PER_IP = 20"
definition CHALLENGE_MAX_PER_KEY :: int where "CHALLENGE_MAX_PER_KEY = 5"

definition rd_exists :: "int \<Rightarrow> string \<Rightarrow> redis \<Rightarrow> bool" where
  "rd_exists tm k r = (let r = rd_purge tm k r in rd_count r k \<noteq> 0 \<or> rd_zset r k \<noteq> [])"

text \<open>\<^verbatim>\<open>SET key 1 EX seconds\<close>, and \<^verbatim>\<open>TTL\<close>: seconds, rounded; below zero for a missing key or one without expiry.\<close>

definition rd_set_ex :: "int \<Rightarrow> string \<Rightarrow> int \<Rightarrow> redis \<Rightarrow> redis" where
  "rd_set_ex tm k secs r = r\<lparr>rd_zset := (rd_zset r)(k := []), rd_count := (rd_count r)(k := 1), rd_expiry := (rd_expiry r)(k := Some (tm + secs * 1000))\<rparr>"

definition rd_ttl :: "int \<Rightarrow> string \<Rightarrow> redis \<Rightarrow> int" where
  "rd_ttl tm k r = (if \<not> rd_exists tm k r then - 2 else case rd_expiry r k of None \<Rightarrow> - 1 | Some x \<Rightarrow> (x - tm + 500) div 1000)"

definition lock_key :: "string \<Rightarrow> string" where "lock_key i = ''auth:lock:'' @ i"
definition fail_key :: "string \<Rightarrow> string" where "fail_key i = ''auth:fail:'' @ i"

definition isLockedOut :: "login_env \<Rightarrow> string \<Rightarrow> auth_db \<Rightarrow> bool" where
  "isLockedOut e i db = (le_redis_up e \<and> rd_exists (le_now e) (lock_key i) (ad_redis db))"

definition getLockoutTtl :: "login_env \<Rightarrow> string \<Rightarrow> auth_db \<Rightarrow> int" where
  "getLockoutTtl e i db = (if le_redis_up e then max 0 (rd_ttl (le_now e) (lock_key i) (ad_redis db)) else 0)"

definition recordFailure :: "login_env \<Rightarrow> string \<Rightarrow> auth_db \<Rightarrow> auth_db" where
  "recordFailure e i db =
     (if \<not> le_redis_up e then db
      else let (failures, r) = incr (le_now e) (fail_key i) (ad_redis db);
               r = expire (le_now e) (fail_key i) FAILURE_WINDOW_SECS r;
               r = (if MAX_FAILURES \<le> failures then rd_set_ex (le_now e) (lock_key i) LOCKOUT_SECS r else r)
           in db\<lparr>ad_redis := r\<rparr>)"

definition clearFailures :: "login_env \<Rightarrow> string \<Rightarrow> auth_db \<Rightarrow> auth_db" where
  "clearFailures e i db = (if le_redis_up e then db\<lparr>ad_redis := rd_del (lock_key i) (rd_del (fail_key i) (ad_redis db))\<rparr> else db)"

fun challenge_checks :: "int \<Rightarrow> (string \<times> int) list \<Rightarrow> redis \<Rightarrow> unit result \<times> redis" where
  "challenge_checks tm [] r = (Inr (), r)"
| "challenge_checks tm ((k, limit) # cs) r =
     (case incr tm k r of (n, r1) \<Rightarrow>
        let r2 = (if n = 1 then expire tm k CHALLENGE_WINDOW_SECS r1 else r1) in
        if limit < n then (Inl (TooManyRequests (''Too many Stellar challenge requests. Try again in '' @ int_to_string (max (rd_ttl tm k r2) 0) @ '' seconds.'')), r2)
        else challenge_checks tm cs r2)"

definition assertStellarChallengeAllowed :: "login_env \<Rightarrow> string option \<Rightarrow> string \<Rightarrow> auth_db \<Rightarrow> unit result \<times> auth_db" where
  "assertStellarChallengeAllowed e ip publicKey db =
     (if \<not> le_redis_up e then (Inr (), db)
      else let checks = (case ip of None \<Rightarrow> [] | Some a \<Rightarrow> if a = [] then [] else [(''auth:stellar-challenge:ip:'' @ a, CHALLENGE_MAX_PER_IP)]) @
                        [(''auth:stellar-challenge:key:'' @ publicKey, CHALLENGE_MAX_PER_KEY)]
           in case challenge_checks (le_now e) checks (ad_redis db) of (res, r) \<Rightarrow> (res, db\<lparr>ad_redis := r\<rparr>))"

section \<open>Users\<close>

record create_user_dto =
  cu_email :: string
  cu_password :: string
  cu_displayName :: "string field"
  cu_stellarPublicKey :: "string field"

record update_user_dto =
  uu_email :: "string field"
  uu_displayName :: "string field"

definition insert_user :: "account \<Rightarrow> auth_db \<Rightarrow> account result \<times> auth_db" where
  "insert_user u db =
     (if \<exists>x \<in> set (ad_users db). ac_email x = ac_email u then (Inl (duplicate_key ''email''), db)
      else if ac_stellarPublicKey u \<noteq> None \<and> (\<exists>x \<in> set (ad_users db). ac_stellarPublicKey x = ac_stellarPublicKey u)
      then (Inl (duplicate_key ''stellarPublicKey''), db)
      else (Inr u, db\<lparr>ad_users := ad_users db @ [u]\<rparr>))"

definition users_create :: "login_env \<Rightarrow> create_user_dto \<Rightarrow> auth_db \<Rightarrow> account result \<times> auth_db" where
  "users_create e dto db =
     (case find (\<lambda>u. ac_email u = cu_email dto) (ad_users db) of
        Some _ \<Rightarrow> (Inl (Conflict ''Email is already registered''), db)
      | None \<Rightarrow> insert_user \<lparr>ac_id = le_uuid e, ac_email = cu_email dto, ac_passwordHash = le_hash e (cu_password dto),
          ac_displayName = field_opt (cu_displayName dto), ac_stellarPublicKey = field_opt (cu_stellarPublicKey dto),
          ac_role = ROLE_USER, ac_isActive = True, ac_createdAt = le_now e\<rparr> db)"

definition users_findAll :: "nat \<Rightarrow> nat \<Rightarrow> auth_db \<Rightarrow> account paginated_result" where
  "users_findAll page limit db = page_of ac_createdAt (ad_users db) page limit"

definition users_findOne :: "string \<Rightarrow> auth_db \<Rightarrow> account result" where
  "users_findOne i db = (case row_by ac_id i (ad_users db) of None \<Rightarrow> Inl (NotFound (''User '' @ i @ '' not found'')) | Some u \<Rightarrow> Inr u)"

definition findByEmailWithSecret :: "string \<Rightarrow> auth_db \<Rightarrow> account option" where
  "findByEmailWithSecret email db = find (\<lambda>u. ac_email u = email) (ad_users db)"

definition users_update :: "string \<Rightarrow> update_user_dto \<Rightarrow> string option \<Rightarrow> bool \<Rightarrow> auth_db \<Rightarrow> account result \<times> auth_db" where
  "users_update i dto requesterId isPrivileged db =
     (case users_findOne i db of
        Inl err \<Rightarrow> (Inl err, db)
      | Inr u \<Rightarrow>
          if \<not> isPrivileged \<and> requesterId \<noteq> Some i then (Inl (Forbidden ''You may only update your own account''), db)
          else case assign ''email'' (uu_email dto) (ac_email u) of
            Inl err \<Rightarrow> (Inl err, db)
          | Inr m \<Rightarrow>
              if \<exists>x \<in> set (ad_users db). ac_id x \<noteq> i \<and> ac_email x = m then (Inl (duplicate_key ''email''), db)
              else let u' = u\<lparr>ac_email := m, ac_displayName := assign_nullable (uu_displayName dto) (ac_displayName u)\<rparr>
                   in (Inr u', db\<lparr>ad_users := save_row ac_id u' (ad_users db)\<rparr>))"

text \<open>Deleting an account deletes what refers to it, and the audit trail forgets its identifier.\<close>

definition users_remove :: "string \<Rightarrow> auth_db \<Rightarrow> unit result \<times> auth_db" where
  "users_remove i db =
     (if row_by ac_id i (ad_users db) = None then (Inl (NotFound (''User '' @ i @ '' not found'')), db)
      else (Inr (), db\<lparr>ad_users := filter (\<lambda>u. ac_id u \<noteq> i) (ad_users db), ad_refresh := filter (\<lambda>t. rt_userId t \<noteq> i) (ad_refresh db),
              ad_resets := filter (\<lambda>t. pr_userId t \<noteq> i) (ad_resets db), ad_apiKeys := filter (\<lambda>k. ak_userId k \<noteq> i) (ad_apiKeys db),
              ad_audit := map (\<lambda>a. if aa_userId a = Some i then a\<lparr>aa_userId := None\<rparr> else a) (ad_audit db)\<rparr>))"

definition findByEmail :: "string \<Rightarrow> auth_db \<Rightarrow> account option" where
  "findByEmail email db = find (\<lambda>u. ac_email u = email) (ad_users db)"

definition findByStellarPublicKey :: "string \<Rightarrow> auth_db \<Rightarrow> account option" where
  "findByStellarPublicKey k db = find (\<lambda>u. ac_stellarPublicKey u = Some k) (ad_users db)"

definition createFromStellarKey :: "login_env \<Rightarrow> string \<Rightarrow> auth_db \<Rightarrow> account result \<times> auth_db" where
  "createFromStellarKey e k db =
     (case findByStellarPublicKey k db of
        Some _ \<Rightarrow> (Inl (Conflict ''A user with this Stellar public key already exists''), db)
      | None \<Rightarrow> insert_user \<lparr>ac_id = le_uuid e, ac_email = to_lower (take 8 k) @ ''@stellar.local'', ac_passwordHash = [],
          ac_displayName = Some (''User '' @ take 8 k), ac_stellarPublicKey = Some k, ac_role = ROLE_USER, ac_isActive = True,
          ac_createdAt = le_now e\<rparr> db)"

definition updatePassword :: "string \<Rightarrow> string \<Rightarrow> auth_db \<Rightarrow> auth_db" where
  "updatePassword i h db = db\<lparr>ad_users := map (\<lambda>u. if ac_id u = i then u\<lparr>ac_passwordHash := h\<rparr> else u) (ad_users db)\<rparr>"

definition assertOwnerOrAdmin :: "string \<Rightarrow> string \<Rightarrow> account_role \<Rightarrow> unit result" where
  "assertOwnerOrAdmin i callerId callerRole =
     (if callerId \<noteq> i \<and> callerRole \<noteq> ROLE_ADMIN then Inl (Forbidden ''You may only access your own user account'') else Inr ())"

definition update_endpoint :: "string \<Rightarrow> string \<Rightarrow> account_role \<Rightarrow> update_user_dto \<Rightarrow> auth_db \<Rightarrow> account result \<times> auth_db" where
  "update_endpoint i callerId callerRole dto db = (case assertOwnerOrAdmin i callerId callerRole of
       Inl err \<Rightarrow> (Inl err, db) | Inr _ \<Rightarrow> users_update i dto (Some callerId) (callerRole = ROLE_ADMIN) db)"

section \<open>Token pairs\<close>

definition issueTokenPair :: "login_env \<Rightarrow> account \<Rightarrow> request_context \<Rightarrow> auth_db \<Rightarrow> auth_result \<times> auth_db" where
  "issueTokenPair e u ctx db =
     (let t = \<lparr>rt_id = le_uuid2 e, rt_userId = ac_id u, rt_tokenHash = le_hash e (le_random e), rt_lookupHash = le_digest e (le_random e),
               rt_deviceHint = cx_deviceHint ctx, rt_ipAddress = cx_ipAddress ctx, rt_userAgent = cx_userAgent ctx,
               rt_expiresAt = le_now e + le_refreshTtl e * 1000, rt_isRevoked = False, rt_revokedAt = None\<rparr>
      in (\<lparr>ru_accessToken = le_sign e \<lparr>jw_sub = ac_id u, jw_email = Some (ac_email u), jw_role = Some (ac_role u), jw_purpose = None, jw_scope = None\<rparr> None,
           ru_refreshToken = le_random e, ru_userId = ac_id u, ru_email = ac_email u, ru_role = ac_role u\<rparr>,
          db\<lparr>ad_refresh := save_row rt_id t (ad_refresh db)\<rparr>))"

definition issue_ok :: "login_env \<Rightarrow> account \<Rightarrow> request_context \<Rightarrow> auth_db \<Rightarrow> auth_result result \<times> auth_db" where
  "issue_ok e u ctx db = (case issueTokenPair e u ctx db of (r, db') \<Rightarrow> (Inr r, db'))"

definition auth_register :: "login_env \<Rightarrow> create_user_dto \<Rightarrow> request_context \<Rightarrow> auth_db \<Rightarrow> auth_result result \<times> auth_db" where
  "auth_register e dto ctx db = (case users_create e dto db of
       (Inl err, db') \<Rightarrow> (Inl err, db')
     | (Inr u, db') \<Rightarrow> issue_ok e u ctx (recordSuccess e EV_REGISTER (Some (ac_id u)) (cx_ipAddress ctx) (cx_userAgent ctx) None db'))"

definition login_rejected :: "login_env \<Rightarrow> string \<Rightarrow> string option \<Rightarrow> request_context \<Rightarrow> auth_db \<Rightarrow> auth_result result \<times> auth_db" where
  "login_rejected e email u ctx db = (Inl (Unauthorized ''Invalid credentials''),
     recordAuthFailure e EV_LOGIN_FAILED u (cx_ipAddress ctx) (cx_userAgent ctx) None ''Invalid credentials'' (recordFailure e email db))"

definition login :: "login_env \<Rightarrow> string \<Rightarrow> string \<Rightarrow> request_context \<Rightarrow> auth_db \<Rightarrow> auth_result result \<times> auth_db" where
  "login e email password ctx db =
     (if isLockedOut e email db then
        let ttl = int_to_string (getLockoutTtl e email db) in
        (Inl (Unauthorized (''Too many failed attempts. Try again in '' @ ttl @ '' seconds.'')),
         recordAuthFailure e EV_LOGIN_FAILED None (cx_ipAddress ctx) (cx_userAgent ctx) (Some [(''email'', JStr email)])
           (''Account locked out, retry in '' @ ttl @ ''s'') db)
      else case findByEmailWithSecret email db of
        None \<Rightarrow> login_rejected e email None ctx db
      | Some u \<Rightarrow>
          if \<not> ac_isActive u then login_rejected e email None ctx db
          else if \<not> le_compare e password (ac_passwordHash u) then login_rejected e email (Some (ac_id u)) ctx db
          else issue_ok e u ctx (recordSuccess e EV_LOGIN_SUCCESS (Some (ac_id u)) (cx_ipAddress ctx) (cx_userAgent ctx) None (clearFailures e email db)))"

section \<open>Wallet login\<close>

definition CHALLENGE_TTL_SECONDS :: int where "CHALLENGE_TTL_SECONDS = 120"

definition createChallenge :: "login_env \<Rightarrow> string \<Rightarrow> auth_db \<Rightarrow> (string \<times> int) result \<times> auth_db" where
  "createChallenge e k db =
     (if \<not> le_validKey e k then (Inl (BadRequest ''Invalid Stellar public key''), db)
      else if \<exists>c \<in> set (ad_challenges db). sg_nonce c = le_random e then (Inl (duplicate_key ''nonce''), db)
      else let x = le_now e + CHALLENGE_TTL_SECONDS * 1000;
               c = \<lparr>sg_id = le_uuid e, sg_nonce = le_random e, sg_publicKey = k, sg_expiresAt = x, sg_isUsed = False, sg_createdAt = le_now e\<rparr>
           in (Inr (le_random e, x), db\<lparr>ad_challenges := ad_challenges db @ [c]\<rparr>))"

text \<open>
  The newest unused challenge of a key: the last of those with the latest creation time. (The query leaves the order of
  challenges of the same millisecond open; here the one inserted last counts.)
\<close>

definition newest_unused :: "string \<Rightarrow> auth_db \<Rightarrow> stellar_challenge option" where
  "newest_unused k db = (case newest_first sg_createdAt (rev (filter (\<lambda>c. sg_publicKey c = k \<and> \<not> sg_isUsed c) (ad_challenges db))) of
       [] \<Rightarrow> None | c # _ \<Rightarrow> Some c)"

definition challenge_check :: "login_env \<Rightarrow> stellar_challenge option \<Rightarrow> stellar_challenge result" where
  "challenge_check e oc = (case oc of
       None \<Rightarrow> Inl (Unauthorized ''Invalid or expired challenge'')
     | Some c \<Rightarrow> if sg_isUsed c then Inl (Unauthorized ''Challenge already used'')
         else if sg_expiresAt c < le_now e then Inl (Unauthorized ''Challenge has expired'') else Inr c)"

text \<open>The transaction locks the row, so that it is one step; \<open>between\<close> is what other requests did after the first read.\<close>

definition consume_challenge :: "login_env \<Rightarrow> string \<Rightarrow> string \<Rightarrow> string \<Rightarrow> string \<Rightarrow> auth_db \<Rightarrow> string result \<times> auth_db" where
  "consume_challenge e i nonce k sig db =
     (case challenge_check e (row_by sg_id i (ad_challenges db)) of
        Inl err \<Rightarrow> (Inl err, db)
      | Inr c \<Rightarrow>
          if map_option sg_id (newest_unused k db) \<noteq> Some (sg_id c)
          then (Inl (Unauthorized ''Challenge has been superseded by a newer challenge''), db)
          else if \<not> le_verify e k nonce sig then (Inl (Unauthorized ''Signature verification failed''), db)
          else (Inr k, db\<lparr>ad_challenges := map (\<lambda>x. if sg_id x = i then x\<lparr>sg_isUsed := True\<rparr> else x) (ad_challenges db)\<rparr>))"

definition verifyChallenge :: "login_env \<Rightarrow> (auth_db \<Rightarrow> auth_db) \<Rightarrow> string \<Rightarrow> string \<Rightarrow> string \<Rightarrow> auth_db \<Rightarrow> string result \<times> auth_db" where
  "verifyChallenge e between nonce k sig db =
     (if \<not> le_validKey e k then (Inl (BadRequest ''Invalid Stellar public key''), db)
      else case challenge_check e (find (\<lambda>c. sg_nonce c = nonce \<and> sg_publicKey c = k) (ad_challenges db)) of
        Inl err \<Rightarrow> (Inl err, db)
      | Inr c \<Rightarrow> consume_challenge e (sg_id c) nonce k sig (between db))"

definition stellarChallenge :: "login_env \<Rightarrow> string \<Rightarrow> request_context \<Rightarrow> auth_db \<Rightarrow> (string \<times> int) result \<times> auth_db" where
  "stellarChallenge e k ctx db = (case assertStellarChallengeAllowed e (cx_ipAddress ctx) k db of
       (Inl err, db') \<Rightarrow> (Inl err, db')
     | (Inr _, db') \<Rightarrow> createChallenge e k
         (recordSuccess e EV_STELLAR_AUTH_CHALLENGE None (cx_ipAddress ctx) (cx_userAgent ctx) (Some [(''publicKey'', JStr k)]) db'))"

definition stellarVerify :: "login_env \<Rightarrow> (auth_db \<Rightarrow> auth_db) \<Rightarrow> string \<Rightarrow> string \<Rightarrow> string \<Rightarrow> request_context \<Rightarrow> auth_db \<Rightarrow> auth_result result \<times> auth_db" where
  "stellarVerify e between nonce k sig ctx db =
     (case verifyChallenge e between nonce k sig db of
        (Inl err, db1) \<Rightarrow> (Inl err, recordAuthFailure e EV_STELLAR_AUTH_FAILED None (cx_ipAddress ctx) (cx_userAgent ctx)
            (Some [(''publicKey'', JStr k)]) (error_message err) db1)
      | (Inr _, db1) \<Rightarrow>
          (case (case findByStellarPublicKey k db1 of Some u \<Rightarrow> (Inr u, db1) | None \<Rightarrow> createFromStellarKey e k db1) of
             (Inl err, db2) \<Rightarrow> (Inl err, db2)
           | (Inr u, db2) \<Rightarrow>
               if \<not> ac_isActive u then (Inl (Unauthorized ''Account is inactive''), db2)
               else issue_ok e u ctx (recordSuccess e EV_STELLAR_AUTH_SUCCESS (Some (ac_id u)) (cx_ipAddress ctx) (cx_userAgent ctx)
                 (Some [(''publicKey'', JStr k)]) db2)))"

section \<open>Refresh and logout\<close>

definition live_token :: "login_env \<Rightarrow> string \<Rightarrow> auth_db \<Rightarrow> refresh_token option" where
  "live_token e raw db = find (\<lambda>t. rt_lookupHash t = le_digest e raw \<and> \<not> rt_isRevoked t \<and> le_now e < rt_expiresAt t) (ad_refresh db)"

definition revoked :: "int \<Rightarrow> refresh_token \<Rightarrow> refresh_token" where
  "revoked tm t = t\<lparr>rt_isRevoked := True, rt_revokedAt := Some tm\<rparr>"

text \<open>
  The token that a request presents is checked, then revoked, and then a new pair is issued. Other requests can run
  in between: nothing locks the row, and the update has no condition.
\<close>

definition refresh_check :: "login_env \<Rightarrow> string \<Rightarrow> auth_db \<Rightarrow> (refresh_token \<times> account) result" where
  "refresh_check e raw db = (case live_token e raw db of
       None \<Rightarrow> Inl (Unauthorized ''Invalid or expired refresh token'')
     | Some t \<Rightarrow> (case row_by ac_id (rt_userId t) (ad_users db) of
           None \<Rightarrow> Inl (Unauthorized ''Invalid or expired refresh token'')
         | Some u \<Rightarrow> if le_compare e raw (rt_tokenHash t) then Inr (t, u) else Inl (Unauthorized ''Invalid or expired refresh token'')))"

definition refresh_revoke :: "login_env \<Rightarrow> refresh_token \<Rightarrow> request_context \<Rightarrow> auth_db \<Rightarrow> auth_db" where
  "refresh_revoke e t ctx db = recordSuccess e EV_TOKEN_REFRESH (Some (rt_userId t)) (cx_ipAddress ctx) (cx_userAgent ctx) None
     (db\<lparr>ad_refresh := save_row rt_id (revoked (le_now e) t) (ad_refresh db)\<rparr>)"

definition refresh_rotate :: "login_env \<Rightarrow> refresh_token \<times> account \<Rightarrow> request_context \<Rightarrow> auth_db \<Rightarrow> auth_result \<times> auth_db" where
  "refresh_rotate e m ctx db = (case m of (t, u) \<Rightarrow> issueTokenPair e u ctx (refresh_revoke e t ctx db))"

definition refreshAccessToken :: "login_env \<Rightarrow> string \<Rightarrow> request_context \<Rightarrow> auth_db \<Rightarrow> auth_result result \<times> auth_db" where
  "refreshAccessToken e raw ctx db = (case refresh_check e raw db of
       Inl err \<Rightarrow> (Inl err, db) | Inr m \<Rightarrow> (case refresh_rotate e m ctx db of (r, db') \<Rightarrow> (Inr r, db')))"

definition DEFAULT_STEP_UP_TTL_SECONDS :: int where "DEFAULT_STEP_UP_TTL_SECONDS = 300"

definition step_up_issue :: "login_env \<Rightarrow> string \<Rightarrow> int \<Rightarrow> string \<times> int" where
  "step_up_issue e userId ttl =
     (le_sign e \<lparr>jw_sub = userId, jw_email = None, jw_role = None, jw_purpose = Some STEP_UP_PURPOSE, jw_scope = Some STEP_UP_SCOPE\<rparr> (Some ttl),
      le_now e + ttl * 1000)"

definition issueStepUpToken :: "login_env \<Rightarrow> string \<Rightarrow> string \<Rightarrow> auth_db \<Rightarrow> (string \<times> int) result \<times> auth_db" where
  "issueStepUpToken e userId raw db =
     (case find (\<lambda>t. rt_userId t = userId \<and> rt_lookupHash t = le_digest e raw \<and> \<not> rt_isRevoked t \<and> le_now e < rt_expiresAt t) (ad_refresh db) of
        None \<Rightarrow> (Inl (Unauthorized ''Invalid or expired refresh token''), db)
      | Some t \<Rightarrow> if \<not> le_compare e raw (rt_tokenHash t) then (Inl (Unauthorized ''Invalid or expired refresh token''), db)
          else (Inr (step_up_issue e userId DEFAULT_STEP_UP_TTL_SECONDS), recordSuccess e EV_STEP_UP_TOKEN_ISSUED (Some userId) None None None db))"

definition logout_check :: "login_env \<Rightarrow> string \<Rightarrow> string \<Rightarrow> auth_db \<Rightarrow> refresh_token option" where
  "logout_check e userId raw db =
     (case find (\<lambda>t. rt_userId t = userId \<and> rt_lookupHash t = le_digest e raw \<and> \<not> rt_isRevoked t) (ad_refresh db) of
        None \<Rightarrow> None
      | Some t \<Rightarrow> if le_compare e raw (rt_tokenHash t) then Some t else None)"

definition logout_revoke :: "login_env \<Rightarrow> string \<Rightarrow> refresh_token \<Rightarrow> auth_db \<Rightarrow> auth_db" where
  "logout_revoke e userId t db =
     recordSuccess e EV_LOGOUT (Some userId) None None None (db\<lparr>ad_refresh := save_row rt_id (revoked (le_now e) t) (ad_refresh db)\<rparr>)"

definition logout :: "login_env \<Rightarrow> string \<Rightarrow> string \<Rightarrow> auth_db \<Rightarrow> auth_db" where
  "logout e userId raw db = (case logout_check e userId raw db of None \<Rightarrow> db | Some t \<Rightarrow> logout_revoke e userId t db)"

definition logoutAll :: "login_env \<Rightarrow> string \<Rightarrow> auth_db \<Rightarrow> auth_db" where
  "logoutAll e userId db = recordSuccess e EV_LOGOUT (Some userId) None None (Some [(''logoutAll'', JBool True)])
     (db\<lparr>ad_refresh := map (\<lambda>t. if rt_userId t = userId \<and> \<not> rt_isRevoked t then revoked (le_now e) t else t) (ad_refresh db)\<rparr>)"

section \<open>Password reset\<close>

definition requestPasswordReset :: "login_env \<Rightarrow> string \<Rightarrow> request_context \<Rightarrow> auth_db \<Rightarrow> auth_db" where
  "requestPasswordReset e email ctx db = (case findByEmail email db of
       None \<Rightarrow> db
     | Some u \<Rightarrow>
         let db1 = db\<lparr>ad_resets := map (\<lambda>t. if pr_userId t = ac_id u \<and> \<not> pr_isUsed t then t\<lparr>pr_isUsed := True\<rparr> else t) (ad_resets db)\<rparr>;
             t = \<lparr>pr_id = le_uuid e, pr_userId = ac_id u, pr_tokenHash = le_hash e (le_random e), pr_lookupHash = le_digest e (le_random e),
                  pr_expiresAt = le_now e + 3600000, pr_isUsed = False\<rparr>
         in recordSuccess e EV_PASSWORD_RESET_REQUEST (Some (ac_id u)) (cx_ipAddress ctx) (cx_userAgent ctx) None
              (db1\<lparr>ad_resets := save_row pr_id t (ad_resets db1)\<rparr>))"

definition confirmPasswordReset :: "login_env \<Rightarrow> string \<Rightarrow> string \<Rightarrow> request_context \<Rightarrow> auth_db \<Rightarrow> unit result \<times> auth_db" where
  "confirmPasswordReset e raw newPassword ctx db =
     (case find (\<lambda>t. pr_lookupHash t = le_digest e raw \<and> \<not> pr_isUsed t \<and> le_now e < pr_expiresAt t) (ad_resets db) of
        None \<Rightarrow> (Inl (BadRequest ''Invalid or expired reset token''), db)
      | Some t \<Rightarrow>
          if row_by ac_id (pr_userId t) (ad_users db) = None \<or> \<not> le_compare e raw (pr_tokenHash t)
          then (Inl (BadRequest ''Invalid or expired reset token''), db)
          else let db1 = updatePassword (pr_userId t) (le_hash e newPassword) db;
                   db2 = db1\<lparr>ad_resets := save_row pr_id (t\<lparr>pr_isUsed := True\<rparr>) (ad_resets db1)\<rparr>;
                   db3 = logoutAll e (pr_userId t) db2
               in (Inr (), recordSuccess e EV_PASSWORD_RESET_SUCCESS (Some (pr_userId t)) (cx_ipAddress ctx) (cx_userAgent ctx) None db3))"

section \<open>API keys\<close>

record create_api_key_dto =
  kd_name :: string
  kd_expires :: "int option"
  kd_scopes :: "string list option"

definition apiKey_create :: "login_env \<Rightarrow> string \<Rightarrow> create_api_key_dto \<Rightarrow> auth_db \<Rightarrow> (api_key \<times> string) result \<times> auth_db" where
  "apiKey_create e userId dto db =
     (case find (\<lambda>k. ak_userId k = userId \<and> ak_name k = kd_name dto) (ad_apiKeys db) of
        Some _ \<Rightarrow> (Inl (Conflict (''An API key named '' @ [CHR 0x22] @ kd_name dto @ [CHR 0x22] @ '' already exists'')), db)
      | None \<Rightarrow>
          let raw = ''ict_'' @ le_random e;
              k = \<lparr>ak_id = le_uuid e, ak_userId = userId, ak_name = kd_name dto, ak_keyHash = le_hash e raw, ak_lookupHash = le_digest e raw,
                   ak_keyPreview = drop (length raw - 8) raw, ak_isActive = True, ak_lastUsedAt = None, ak_expiresAt = kd_expires dto,
                   ak_scopes = kd_scopes dto, ak_createdAt = le_now e\<rparr>
          in if \<exists>x \<in> set (ad_apiKeys db). ak_name x = kd_name dto then (Inl (duplicate_key ''name''), db)
             else (Inr (k, raw), db\<lparr>ad_apiKeys := save_row ak_id k (ad_apiKeys db)\<rparr>))"

definition listForUser :: "string \<Rightarrow> auth_db \<Rightarrow> api_key list" where
  "listForUser userId db = newest_first ak_createdAt (filter (\<lambda>k. ak_userId k = userId) (ad_apiKeys db))"

definition apiKey_validate :: "login_env \<Rightarrow> string \<Rightarrow> auth_db \<Rightarrow> api_key result \<times> auth_db" where
  "apiKey_validate e raw db =
     (if \<not> starts_with raw ''ict_'' then (Inl (Unauthorized ''Invalid API key format''), db)
      else case find (\<lambda>k. ak_lookupHash k = le_digest e raw \<and> ak_isActive k \<and> (case ak_expiresAt k of None \<Rightarrow> True | Some x \<Rightarrow> le_now e < x)) (ad_apiKeys db) of
        None \<Rightarrow> (Inl (Unauthorized ''Invalid or expired API key''), db)
      | Some k \<Rightarrow> if \<not> le_compare e raw (ak_keyHash k) then (Inl (Unauthorized ''Invalid or expired API key''), db)
          else (Inr k, db\<lparr>ad_apiKeys := map (\<lambda>x. if ak_id x = ak_id k then x\<lparr>ak_lastUsedAt := Some (le_now e)\<rparr> else x) (ad_apiKeys db)\<rparr>))"

definition apiKey_revoke :: "string \<Rightarrow> string \<Rightarrow> auth_db \<Rightarrow> unit result \<times> auth_db" where
  "apiKey_revoke userId i db = (case find (\<lambda>k. ak_id k = i \<and> ak_userId k = userId) (ad_apiKeys db) of
       None \<Rightarrow> (Inl (NotFound ''API key not found''), db)
     | Some k \<Rightarrow> (Inr (), db\<lparr>ad_apiKeys := save_row ak_id (k\<lparr>ak_isActive := False\<rparr>) (ad_apiKeys db)\<rparr>))"

section \<open>Callers\<close>

record caller =
  ca_id :: string
  ca_email :: string
  ca_role :: account_role

definition jwt_validate :: "jwt_claims \<Rightarrow> auth_db \<Rightarrow> caller result" where
  "jwt_validate p db =
     (if truthy (jw_purpose p) then Inl (Unauthorized ''Not a valid access token'')
      else case row_by ac_id (jw_sub p) (ad_users db) of
        None \<Rightarrow> Inl (Unauthorized ''Account is inactive or missing'')
      | Some u \<Rightarrow> if \<not> ac_isActive u then Inl (Unauthorized ''Account is inactive or missing'')
          else Inr \<lparr>ca_id = ac_id u, ca_email = ac_email u, ca_role = ac_role u\<rparr>)"

definition api_key_caller :: "login_env \<Rightarrow> string option \<Rightarrow> auth_db \<Rightarrow> (caller \<times> string \<times> string list) result \<times> auth_db" where
  "api_key_caller e header db =
     (if \<not> truthy header then (Inl (Unauthorized ''Missing X-Api-Key header''), db)
      else case apiKey_validate e (the header) db of
        (Inl err, db') \<Rightarrow> (Inl err, db')
      | (Inr k, db') \<Rightarrow> (case row_by ac_id (ak_userId k) (ad_users db) of
            None \<Rightarrow> (Inl (Unauthorized ''Associated account is inactive''), db')
          | Some u \<Rightarrow> if \<not> ac_isActive u then (Inl (Unauthorized ''Associated account is inactive''), db')
              else (Inr (\<lparr>ca_id = ac_id u, ca_email = ac_email u, ca_role = ac_role u\<rparr>, ak_id k, case_option [] id (ak_scopes k)), db')))"

definition roles_guard :: "account_role list \<Rightarrow> caller option \<Rightarrow> unit result" where
  "roles_guard required c = (if required = [] then Inr ()
     else case c of None \<Rightarrow> Inl (Forbidden ''Insufficient role'')
       | Some u \<Rightarrow> if ca_role u \<in> set required then Inr () else Inl (Forbidden ''Insufficient role''))"

section \<open>Clean-up\<close>

definition REVOKED_TOKEN_RETENTION_MS :: int where "REVOKED_TOKEN_RETENTION_MS = 7 * 24 * 60 * 60 * 1000"

definition cleanupExpiredCredentials :: "int \<Rightarrow> auth_db \<Rightarrow> (nat \<times> nat \<times> nat) \<times> auth_db" where
  "cleanupExpiredCredentials tm db =
     (let dead_refresh = (\<lambda>t. rt_expiresAt t \<le> tm \<or> (rt_isRevoked t \<and> (case rt_revokedAt t of None \<Rightarrow> False | Some x \<Rightarrow> x \<le> tm - REVOKED_TOKEN_RETENTION_MS)));
          dead_reset = (\<lambda>t. pr_expiresAt t \<le> tm \<or> pr_isUsed t); dead_challenge = (\<lambda>c. sg_expiresAt c \<le> tm \<or> sg_isUsed c)
      in ((length (filter dead_refresh (ad_refresh db)), length (filter dead_reset (ad_resets db)), length (filter dead_challenge (ad_challenges db))),
          db\<lparr>ad_refresh := filter (\<lambda>t. \<not> dead_refresh t) (ad_refresh db), ad_resets := filter (\<lambda>t. \<not> dead_reset t) (ad_resets db),
             ad_challenges := filter (\<lambda>c. \<not> dead_challenge c) (ad_challenges db)\<rparr>))"

end
