(* ===== verification/Login_Inv.thy ===== *)
theory Login_Inv
  imports Login Overlap
begin

text \<open>
  Runs of the authentication service in which requests overlap: what each operation leaves alone, how it may change the
  table of refresh tokens, and the invariant that a run keeps, by which an accepted refresh token is refused ever after.
\<close>

section \<open>Frames\<close>

text \<open>What the helpers leave alone.\<close>

lemma auth_record_frame [simp]:
  "ad_users (auth_record e x db) = ad_users db" "ad_refresh (auth_record e x db) = ad_refresh db"
  "ad_challenges (auth_record e x db) = ad_challenges db" "ad_redis (auth_record e x db) = ad_redis db"
  "ad_resets (auth_record e x db) = ad_resets db"
  by (simp_all add: auth_record_def)

lemma record_frame [simp]:
  "ad_users (recordSuccess e ev u ip ua md db) = ad_users db" "ad_refresh (recordSuccess e ev u ip ua md db) = ad_refresh db"
  "ad_challenges (recordSuccess e ev u ip ua md db) = ad_challenges db" "ad_redis (recordSuccess e ev u ip ua md db) = ad_redis db"
  "ad_users (recordAuthFailure e ev u ip ua md rs db) = ad_users db" "ad_refresh (recordAuthFailure e ev u ip ua md rs db) = ad_refresh db"
  "ad_challenges (recordAuthFailure e ev u ip ua md rs db) = ad_challenges db" "ad_redis (recordAuthFailure e ev u ip ua md rs db) = ad_redis db"
  "ad_resets (recordSuccess e ev u ip ua md db) = ad_resets db"
  by (simp_all add: recordSuccess_def recordAuthFailure_def)

lemma limiter_frame [simp]:
  "ad_users (recordFailure e i db) = ad_users db" "ad_refresh (recordFailure e i db) = ad_refresh db"
  "ad_users (clearFailures e i db) = ad_users db" "ad_refresh (clearFailures e i db) = ad_refresh db"
  "ad_refresh (snd (assertStellarChallengeAllowed e ip k db)) = ad_refresh db"
  "ad_users (snd (assertStellarChallengeAllowed e ip k db)) = ad_users db"
  by (simp_all add: recordFailure_def clearFailures_def assertStellarChallengeAllowed_def Let_def split: prod.split)

lemma users_frame [simp]:
  "ad_refresh (snd (insert_user u db)) = ad_refresh db" "ad_refresh (snd (users_create e dto db)) = ad_refresh db"
  "ad_refresh (snd (createFromStellarKey e k db)) = ad_refresh db" "ad_refresh (updatePassword i h db) = ad_refresh db"
  "ad_refresh (snd (users_update i dt rq pv db)) = ad_refresh db"
  by (simp_all add: insert_user_def users_create_def createFromStellarKey_def updatePassword_def users_update_def Let_def split: option.split sum.split)

lemma challenge_frame [simp]:
  "ad_refresh (snd (createChallenge e k db)) = ad_refresh db" "ad_refresh (snd (consume_challenge e i n k sg db)) = ad_refresh db"
  "ad_refresh (snd (verifyChallenge e (\<lambda>d. d) n k sg db)) = ad_refresh db"
  by (simp_all add: createChallenge_def consume_challenge_def verifyChallenge_def Let_def split: sum.split)

lemma apiKey_frame [simp]:
  "ad_refresh (snd (apiKey_create e u dto db)) = ad_refresh db" "ad_refresh (snd (apiKey_validate e raw db)) = ad_refresh db"
  "ad_refresh (snd (apiKey_revoke u i db)) = ad_refresh db"
  by (simp_all add: apiKey_create_def apiKey_validate_def apiKey_revoke_def Let_def split: option.split)

lemma logoutAll_frame [simp]: "ad_users (logoutAll e u db) = ad_users db"
  by (simp add: logoutAll_def)

section \<open>Refresh tokens\<close>

text \<open>A token that an issuing operation adds, by its identifier and its digest.\<close>

definition fresh_row :: "login_env \<Rightarrow> refresh_token \<Rightarrow> bool" where
  "fresh_row e t \<longleftrightarrow> rt_id t = le_uuid2 e \<and> rt_lookupHash t = le_digest e (le_random e)"

text \<open>How an operation may change the table: rows are revoked or deleted, and one fresh row is appended.\<close>

definition older :: "refresh_token list \<Rightarrow> refresh_token list \<Rightarrow> bool" where
  "older L L' \<longleftrightarrow> (\<exists>f P. L' = map f (filter P L) \<and> (\<forall>t. rt_id (f t) = rt_id t \<and> rt_lookupHash (f t) = rt_lookupHash t \<and> (rt_isRevoked t \<longrightarrow> rt_isRevoked (f t))))"

lemma older_refl [simp]: "older L L"
  unfolding older_def by (rule exI [of _ "\<lambda>t. t"], rule exI [of _ "\<lambda>_. True"]) simp

lemma older_map: "(\<And>t. rt_id (f t) = rt_id t \<and> rt_lookupHash (f t) = rt_lookupHash t \<and> (rt_isRevoked t \<longrightarrow> rt_isRevoked (f t))) \<Longrightarrow> older L (map f L)"
  unfolding older_def by (rule exI [of _ f], rule exI [of _ "\<lambda>_. True"]) simp

lemma older_filter: "older L (filter P L)"
  unfolding older_def by (rule exI [of _ "\<lambda>t. t"], rule exI [of _ P]) simp

text \<open>
  The operations that are one step each on the table of refresh tokens. Refreshing and logging out are not among them:
  they read a row and write it later (below). A new pair can be issued for any account at any time: this includes a
  refresh, a login or a registration that was overtaken between its checks and the insertion of its token.
\<close>

datatype login_op = Op_register create_user_dto request_context | Op_login string string request_context | Op_challenge string request_context
  | Op_verify string string string request_context | Op_issue account request_context | Op_stepUp string string
  | Op_logoutAll string | Op_requestReset string request_context | Op_confirmReset string string request_context
  | Op_apiKey string create_api_key_dto | Op_useKey string | Op_revokeKey string string | Op_updateUser string update_user_dto "string option" bool
  | Op_removeUser string | Op_cleanup

fun exec_op :: "login_env \<Rightarrow> login_op \<Rightarrow> auth_db \<Rightarrow> auth_db" where
  "exec_op e (Op_register dto ctx) db = snd (auth_register e dto ctx db)"
| "exec_op e (Op_login email password ctx) db = snd (login e email password ctx db)"
| "exec_op e (Op_challenge k ctx) db = snd (stellarChallenge e k ctx db)"
| "exec_op e (Op_verify n k sg ctx) db = snd (stellarVerify e (\<lambda>d. d) n k sg ctx db)"
| "exec_op e (Op_issue u ctx) db = snd (issueTokenPair e u ctx db)"
| "exec_op e (Op_stepUp u raw) db = snd (issueStepUpToken e u raw db)"
| "exec_op e (Op_logoutAll u) db = logoutAll e u db"
| "exec_op e (Op_requestReset email ctx) db = requestPasswordReset e email ctx db"
| "exec_op e (Op_confirmReset raw pw ctx) db = snd (confirmPasswordReset e raw pw ctx db)"
| "exec_op e (Op_apiKey u dto) db = snd (apiKey_create e u dto db)"
| "exec_op e (Op_useKey raw) db = snd (apiKey_validate e raw db)"
| "exec_op e (Op_revokeKey u i) db = snd (apiKey_revoke u i db)"
| "exec_op e (Op_updateUser i dto rq pv) db = snd (users_update i dto rq pv db)"
| "exec_op e (Op_removeUser i) db = snd (users_remove i db)"
| "exec_op e Op_cleanup db = snd (cleanupExpiredCredentials (le_now e) db)"

text \<open>Every operation makes one of the two changes.\<close>

definition changes :: "login_env \<Rightarrow> refresh_token list \<Rightarrow> refresh_token list \<Rightarrow> bool" where
  "changes e L L' \<longleftrightarrow> older L L' \<or> (\<exists>t. fresh_row e t \<and> L' = save_row rt_id t L)"

lemma changes_issue: "ad_refresh db' = L \<Longrightarrow> changes e L (ad_refresh (snd (issue_ok e u ctx db')))"
  unfolding changes_def issue_ok_def issueTokenPair_def Let_def by (intro disjI2 exI conjI) (auto simp: fresh_row_def)

lemma changes_refl [simp]: "changes e L L"
  by (simp add: changes_def)

lemma snd_case_refresh:
  "changes e L (ad_refresh (snd (login_rejected e email u ctx db)))" if "ad_refresh db = L"
  using that by (simp add: login_rejected_def)

lemma exec_changes_issuing:
  "changes e (ad_refresh db) (ad_refresh (exec_op e (Op_register dto ctx) db))"
  "changes e (ad_refresh db) (ad_refresh (exec_op e (Op_login email password ctx) db))"
proof -
  have "ad_refresh (snd (users_create e dto db)) = ad_refresh db" by simp
  then show "changes e (ad_refresh db) (ad_refresh (exec_op e (Op_register dto ctx) db))"
    by (cases "users_create e dto db") (auto simp: auth_register_def intro!: changes_issue split: sum.split)
  show "changes e (ad_refresh db) (ad_refresh (exec_op e (Op_login email password ctx) db))"
    by (auto simp: login_def Let_def intro!: changes_issue snd_case_refresh split: option.split)
qed

lemma exec_changes_verify: "changes e (ad_refresh db) (ad_refresh (exec_op e (Op_verify n k sg ctx) db))"
proof -
  obtain r db1 where v: "verifyChallenge e (\<lambda>d. d) n k sg db = (r, db1)" by force
  then have db1: "ad_refresh db1 = ad_refresh db" using challenge_frame(3) [of e n k sg db] by simp
  obtain r2 db2 where u: "(case findByStellarPublicKey k db1 of Some u \<Rightarrow> (Inr u, db1) | None \<Rightarrow> createFromStellarKey e k db1) = (r2, db2)" by force
  then have "ad_refresh db2 = ad_refresh db" using db1 users_frame(3) [of e k db1] by (auto split: option.splits) (metis snd_conv users_frame(3))
  then show ?thesis using v u db1 by (auto simp: stellarVerify_def intro!: changes_issue split: sum.split)
qed

lemma older_save_revoked:
  assumes "distinct (map rt_id L)" and "t \<in> set L"
  shows "save_row rt_id (revoked tm t) L = map (\<lambda>x. if rt_id x = rt_id t then revoked tm t else x) L" "older L (save_row rt_id (revoked tm t) L)"
proof -
  have d: "keys_distinct rt_id L" using assms(1) by (simp add: keys_distinct_def)
  then show m: "save_row rt_id (revoked tm t) L = map (\<lambda>x. if rt_id x = rt_id t then revoked tm t else x) L"
    using save_row_as_map [OF d, of "revoked tm t" t] row_by_distinct [OF d assms(2)] by (simp add: revoked_def)
  also have "\<dots> = map (\<lambda>x. if rt_id x = rt_id t then revoked tm x else x) L"
    using assms by (auto simp: distinct_map dest: inj_onD)
  finally show "older L (save_row rt_id (revoked tm t) L)" by (simp add: older_map revoked_def)
qed

lemma exec_changes_revoking:
  "changes e (ad_refresh db) (ad_refresh (exec_op e (Op_logoutAll u) db))"
    "changes e (ad_refresh db) (ad_refresh (exec_op e (Op_confirmReset raw pw ctx) db))"
    "changes e (ad_refresh db) (ad_refresh (exec_op e (Op_removeUser i) db))"
    "changes e (ad_refresh db) (ad_refresh (exec_op e Op_cleanup db))"
proof -
  have all: "older (ad_refresh d) (ad_refresh (logoutAll e u' d))" for u' d
    by (auto simp: logoutAll_def revoked_def intro!: older_map)
  then show "changes e (ad_refresh db) (ad_refresh (exec_op e (Op_logoutAll u) db))" by (simp add: changes_def)
  have "older (ad_refresh db) (ad_refresh (logoutAll e u' ((updatePassword u' h db)\<lparr>ad_resets := x\<rparr>)))" for u' h x
    using all [of "(updatePassword u' h db)\<lparr>ad_resets := x\<rparr>" u'] by simp
  then show "changes e (ad_refresh db) (ad_refresh (exec_op e (Op_confirmReset raw pw ctx) db))"
    by (auto simp: confirmPasswordReset_def Let_def changes_def split: option.split)
  show "changes e (ad_refresh db) (ad_refresh (exec_op e (Op_removeUser i) db))" "changes e (ad_refresh db) (ad_refresh (exec_op e Op_cleanup db))"
    by (auto simp: users_remove_def cleanupExpiredCredentials_def Let_def changes_def intro!: older_filter)
qed

lemma exec_changes_none:
  "ad_refresh (exec_op e (Op_challenge k ctx) db) = ad_refresh db" "ad_refresh (exec_op e (Op_stepUp u raw) db) = ad_refresh db"
  "ad_refresh (exec_op e (Op_requestReset email ctx) db) = ad_refresh db"
proof -
  have "ad_refresh (snd (assertStellarChallengeAllowed e (cx_ipAddress ctx) k db)) = ad_refresh db" by simp
  then show "ad_refresh (exec_op e (Op_challenge k ctx) db) = ad_refresh db"
    by (cases "assertStellarChallengeAllowed e (cx_ipAddress ctx) k db") (auto simp: stellarChallenge_def split: sum.split)
qed (auto simp: issueStepUpToken_def requestPasswordReset_def Let_def split: option.split)

lemma exec_changes_issue: "changes e (ad_refresh db) (ad_refresh (exec_op e (Op_issue u ctx) db))"
  using changes_issue [of db "ad_refresh db" e u ctx] by (simp add: issue_ok_def issueTokenPair_def Let_def)

lemma exec_changes: "changes e (ad_refresh db) (ad_refresh (exec_op e op db))"
  by (cases op) (use exec_changes_issuing exec_changes_issue exec_changes_verify exec_changes_revoking exec_changes_none in simp_all)

lemma save_fresh_refresh: "rt_id t \<notin> rt_id ` set L \<Longrightarrow> save_row rt_id t L = L @ [t]"
  by (induction L) auto

text \<open>A refresh that succeeds, and the table it leaves.\<close>

lemma refreshAccessToken_ok:
  assumes "is_ok (fst (refreshAccessToken e raw ctx db))" and "distinct (map rt_id (ad_refresh db))" and "le_uuid2 e \<notin> rt_id ` set (ad_refresh db)"
  obtains t n where "t \<in> set (ad_refresh db)" "rt_lookupHash t = le_digest e raw" "\<not> rt_isRevoked t" "fresh_row e n"
    "ad_refresh (snd (refreshAccessToken e raw ctx db)) = map (\<lambda>x. if rt_id x = rt_id t then revoked (le_now e) t else x) (ad_refresh db) @ [n]"
proof -
  obtain t u where tu: "refresh_check e raw db = Inr (t, u)"
    using assms(1) by (auto simp: refreshAccessToken_def split: sum.splits prod.splits)
  then have t: "t \<in> set (ad_refresh db)" "rt_lookupHash t = le_digest e raw" "\<not> rt_isRevoked t"
    by (auto simp: refresh_check_def live_token_def find_Some_iff split: option.splits if_splits)
  define L where "L = map (\<lambda>x. if rt_id x = rt_id t then revoked (le_now e) t else x) (ad_refresh db)"
  have "rt_id (if rt_id x = rt_id t then revoked (le_now e) t else x) = rt_id x" for x by (simp add: revoked_def)
  then have "map rt_id L = map rt_id (ad_refresh db)" by (simp add: L_def comp_def)
  then have ids: "rt_id ` set L = rt_id ` set (ad_refresh db)" by (metis list.set_map)
  define n where "n = \<lparr>rt_id = le_uuid2 e, rt_userId = ac_id u, rt_tokenHash = le_hash e (le_random e), rt_lookupHash = le_digest e (le_random e),
    rt_deviceHint = cx_deviceHint ctx, rt_ipAddress = cx_ipAddress ctx, rt_userAgent = cx_userAgent ctx,
    rt_expiresAt = le_now e + le_refreshTtl e * 1000, rt_isRevoked = False, rt_revokedAt = None\<rparr>"
  have "ad_refresh (snd (refreshAccessToken e raw ctx db)) = save_row rt_id n L"
    by (simp add: refreshAccessToken_def tu refresh_rotate_def refresh_revoke_def issueTokenPair_def older_save_revoked(1) [OF assms(2) t(1)] n_def L_def)
  also have "\<dots> = L @ [n]" using assms(3) ids by (intro save_fresh_refresh) (simp add: n_def)
  finally show thesis using that [OF t, of n] by (simp add: L_def n_def fresh_row_def)
qed

section \<open>Overlapping requests\<close>

text \<open>
  The world of a run: the database, the tokens that refresh requests were accepted with, and the identifiers and
  digests of the tokens issued so far. A request in flight has read its token and will revoke that copy.
\<close>

record login_world =
  lw_db :: auth_db
  lw_accepted :: "string list"
  lw_issued :: "(string \<times> string) set"

datatype in_flight = In_refresh string "refresh_token \<times> account" | In_logout string refresh_token

fun flight_reads :: "(string \<Rightarrow> string) \<Rightarrow> login_world \<Rightarrow> in_flight \<Rightarrow> bool" where
  "flight_reads dg w (In_refresh raw m) \<longleftrightarrow> (\<exists>e. le_digest e = dg \<and> refresh_check e raw (lw_db w) = Inr m)"
| "flight_reads dg w (In_logout u t) \<longleftrightarrow> (\<exists>e raw. le_digest e = dg \<and> logout_check e u raw (lw_db w) = Some t)"

fun flight_finish :: "in_flight \<Rightarrow> login_world \<Rightarrow> login_world \<Rightarrow> bool" where
  "flight_finish (In_refresh raw m) w w' \<longleftrightarrow>
     (\<exists>e ctx. w' = w\<lparr>lw_db := refresh_revoke e (fst m) ctx (lw_db w), lw_accepted := lw_accepted w @ [raw]\<rparr>)"
| "flight_finish (In_logout u t) w w' \<longleftrightarrow> (\<exists>e. w' = w\<lparr>lw_db := logout_revoke e u t (lw_db w)\<rparr>)"

definition login_other :: "(string \<Rightarrow> string) \<Rightarrow> login_world \<Rightarrow> login_world \<Rightarrow> bool" where
  "login_other dg w w' \<longleftrightarrow> (\<exists>e op. le_digest e = dg \<and> le_uuid2 e \<notin> fst ` lw_issued w \<and> dg (le_random e) \<notin> snd ` lw_issued w \<and>
     w' = w\<lparr>lw_db := exec_op e op (lw_db w), lw_issued := insert (le_uuid2 e, dg (le_random e)) (lw_issued w)\<rparr>)"

abbreviation login_overlap :: "(string \<Rightarrow> string) \<Rightarrow> login_world \<times> in_flight list \<Rightarrow> login_world \<times> in_flight list \<Rightarrow> bool" where
  "login_overlap dg \<equiv> overlap (flight_reads dg) flight_finish (login_other dg)"

definition login_start :: "auth_db \<Rightarrow> login_world" where
  "login_start db = \<lparr>lw_db = db, lw_accepted = [], lw_issued = {}\<rparr>"

text \<open>A token that is used up: it was issued, and every row with its digest is revoked.\<close>

definition spent :: "string \<Rightarrow> login_world \<Rightarrow> bool" where
  "spent h w \<longleftrightarrow> h \<in> snd ` lw_issued w \<and> (\<forall>t \<in> set (ad_refresh (lw_db w)). rt_lookupHash t = h \<longrightarrow> rt_isRevoked t)"

definition issued_ok :: "(string \<times> string) set \<Rightarrow> bool" where
  "issued_ok S \<longleftrightarrow> inj_on fst S \<and> inj_on snd S"

definition login_world_ok :: "(string \<Rightarrow> string) \<Rightarrow> login_world \<Rightarrow> bool" where
  "login_world_ok dg w \<longleftrightarrow> distinct (map rt_id (ad_refresh (lw_db w))) \<and> issued_ok (lw_issued w) \<and>
     (\<lambda>t. (rt_id t, rt_lookupHash t)) ` set (ad_refresh (lw_db w)) \<subseteq> lw_issued w \<and> (\<forall>raw \<in> set (lw_accepted w). spent (dg raw) w)"

fun flight_token :: "in_flight \<Rightarrow> refresh_token" where
  "flight_token (In_refresh raw m) = fst m"
| "flight_token (In_logout u t) = t"

fun stale_flight :: "(string \<Rightarrow> string) \<Rightarrow> string \<Rightarrow> in_flight \<Rightarrow> bool" where
  "stale_flight dg h (In_refresh raw m) \<longleftrightarrow> dg raw = h"
| "stale_flight dg h (In_logout u t) \<longleftrightarrow> False"

definition flight_ok :: "(string \<Rightarrow> string) \<Rightarrow> login_world \<Rightarrow> in_flight \<Rightarrow> bool" where
  "flight_ok dg w r \<longleftrightarrow> (rt_id (flight_token r), rt_lookupHash (flight_token r)) \<in> lw_issued w \<and>
     (case r of In_refresh raw m \<Rightarrow> rt_lookupHash (fst m) = dg raw | _ \<Rightarrow> True)"

lemma flight_ok_mono: "lw_issued w \<subseteq> lw_issued w' \<Longrightarrow> flight_ok dg w r \<Longrightarrow> flight_ok dg w' r"
  by (auto simp: flight_ok_def)

text \<open>Finishing a request saves the revoked copy and nothing else in the table.\<close>

lemma flight_finish_table:
  assumes "flight_finish r w w'"
  obtains tm where "ad_refresh (lw_db w') = save_row rt_id (revoked tm (flight_token r)) (ad_refresh (lw_db w))" "lw_issued w' = lw_issued w"
  using assms by (cases r) (auto simp: refresh_revoke_def logout_revoke_def)

lemma finish_spent:
  assumes "login_world_ok dg w" and "flight_ok dg w r" and "flight_finish r w w'"
  shows "spent h w \<Longrightarrow> spent h w'" and "spent (rt_lookupHash (flight_token r)) w'" and "distinct (map rt_id (ad_refresh (lw_db w')))"
    and "(\<lambda>t. (rt_id t, rt_lookupHash t)) ` set (ad_refresh (lw_db w')) \<subseteq> lw_issued w"
proof -
  let ?t = "flight_token r"
  obtain tm where L: "ad_refresh (lw_db w') = save_row rt_id (revoked tm ?t) (ad_refresh (lw_db w))" and I: "lw_issued w' = lw_issued w"
    using flight_finish_table [OF assms(3)] .
  have k: "keys_distinct rt_id (ad_refresh (lw_db w))" and sub: "(\<lambda>t. (rt_id t, rt_lookupHash t)) ` set (ad_refresh (lw_db w)) \<subseteq> lw_issued w"
    and inj: "inj_on snd (lw_issued w)" and t: "(rt_id ?t, rt_lookupHash ?t) \<in> lw_issued w"
    using assms(1,2) by (auto simp: login_world_ok_def keys_distinct_def issued_ok_def flight_ok_def)
  have S: "set (ad_refresh (lw_db w')) = insert (revoked tm ?t) {x \<in> set (ad_refresh (lw_db w)). rt_id x \<noteq> rt_id ?t}"
    using set_save_row [OF k, of "revoked tm ?t"] by (simp add: L revoked_def)
  show "spent h w \<Longrightarrow> spent h w'" by (auto simp: spent_def S I revoked_def)
  have "rt_id x = rt_id ?t" if "x \<in> set (ad_refresh (lw_db w))" "rt_lookupHash x = rt_lookupHash ?t" for x
    using inj_onD [OF inj, of "(rt_id x, rt_lookupHash x)" "(rt_id ?t, rt_lookupHash ?t)"] that sub t by auto
  then show "spent (rt_lookupHash ?t) w'" using t by (force simp: spent_def S I revoked_def)
  show "distinct (map rt_id (ad_refresh (lw_db w')))" using keys_distinct_save_row [OF k, of "revoked tm ?t"] by (simp add: L keys_distinct_def)
  show "(\<lambda>t. (rt_id t, rt_lookupHash t)) ` set (ad_refresh (lw_db w')) \<subseteq> lw_issued w" using sub t by (auto simp: S revoked_def)
qed

lemma finish_world_ok:
  assumes "login_world_ok dg w" and "flight_ok dg w r" and "flight_finish r w w'"
  shows "login_world_ok dg w'"
proof -
  note f = finish_spent [OF assms]
  have "lw_issued w' = lw_issued w" using flight_finish_table [OF assms(3)] by metis
  moreover have "spent (dg raw) w'" if "raw \<in> set (lw_accepted w')" for raw
    using that f(1,2) assms by (cases r) (auto simp: login_world_ok_def flight_ok_def)
  ultimately show ?thesis using assms(1) f(3,4) by (simp add: login_world_ok_def)
qed

lemma other_table:
  assumes "login_other dg w w'" and "login_world_ok dg w"
  obtains i h where "i \<notin> fst ` lw_issued w" "h \<notin> snd ` lw_issued w" "lw_issued w' = insert (i, h) (lw_issued w)" "lw_accepted w' = lw_accepted w"
    "older (ad_refresh (lw_db w)) (ad_refresh (lw_db w')) \<or> (\<exists>t. rt_id t = i \<and> rt_lookupHash t = h \<and> ad_refresh (lw_db w') = ad_refresh (lw_db w) @ [t])"
proof -
  obtain e op where e: "le_digest e = dg" "le_uuid2 e \<notin> fst ` lw_issued w" "dg (le_random e) \<notin> snd ` lw_issued w"
    and w': "w' = w\<lparr>lw_db := exec_op e op (lw_db w), lw_issued := insert (le_uuid2 e, dg (le_random e)) (lw_issued w)\<rparr>"
    using assms(1) by (auto simp: login_other_def)
  have n: "le_uuid2 e \<notin> rt_id ` set (ad_refresh (lw_db w))" using assms(2) e(2) by (force simp: login_world_ok_def)
  have "older (ad_refresh (lw_db w)) (ad_refresh (lw_db w')) \<or>
    (\<exists>t. rt_id t = le_uuid2 e \<and> rt_lookupHash t = dg (le_random e) \<and> ad_refresh (lw_db w') = ad_refresh (lw_db w) @ [t])"
    using exec_changes [of e "lw_db w" op] n e(1) by (auto simp: w' changes_def fresh_row_def save_fresh_refresh)
  from that [OF e(2,3) _ _ this] show thesis by (simp add: w')
qed

lemma other_world_ok:
  assumes "login_other dg w w'" and "login_world_ok dg w"
  shows "login_world_ok dg w'" and "spent h w \<Longrightarrow> spent h w'"
proof -
  obtain i k where ik: "i \<notin> fst ` lw_issued w" "k \<notin> snd ` lw_issued w" "lw_issued w' = insert (i, k) (lw_issued w)" "lw_accepted w' = lw_accepted w"
    and T: "older (ad_refresh (lw_db w)) (ad_refresh (lw_db w')) \<or> (\<exists>t. rt_id t = i \<and> rt_lookupHash t = k \<and> ad_refresh (lw_db w') = ad_refresh (lw_db w) @ [t])"
    using other_table [OF assms] .
  have ok: "distinct (map rt_id (ad_refresh (lw_db w)))" "issued_ok (lw_issued w)" "\<And>t. t \<in> set (ad_refresh (lw_db w)) \<Longrightarrow> (rt_id t, rt_lookupHash t) \<in> lw_issued w"
    using assms(2) by (auto simp: login_world_ok_def)
  show sp: "spent h w'" if sw: "spent h w" for h using T
  proof
    assume "older (ad_refresh (lw_db w)) (ad_refresh (lw_db w'))"
    then show ?thesis using sw ik(3) by (auto simp: older_def spent_def)
  next
    have "h \<in> snd ` lw_issued w" using sw by (simp add: spent_def)
    then have "h \<noteq> k" using ik(2) by metis
    moreover assume "\<exists>t. rt_id t = i \<and> rt_lookupHash t = k \<and> ad_refresh (lw_db w') = ad_refresh (lw_db w) @ [t]"
    ultimately show ?thesis using sw ik(3) by (auto simp: spent_def)
  qed
  have "issued_ok (lw_issued w')" using ok(2) ik(1-3) by (force simp: issued_ok_def)
  moreover have "distinct (map rt_id (ad_refresh (lw_db w'))) \<and> (\<lambda>t. (rt_id t, rt_lookupHash t)) ` set (ad_refresh (lw_db w')) \<subseteq> lw_issued w'" using T
  proof
    assume "older (ad_refresh (lw_db w)) (ad_refresh (lw_db w'))"
    then show ?thesis using ok(1,3) ik(3) by (auto simp: older_def distinct_map_filter comp_def)
  next
    assume "\<exists>t. rt_id t = i \<and> rt_lookupHash t = k \<and> ad_refresh (lw_db w') = ad_refresh (lw_db w) @ [t]"
    then show ?thesis using ok(1,3) ik(1,3) by force
  qed
  ultimately show "login_world_ok dg w'" using assms(2) sp ik(4) by (simp add: login_world_ok_def)
qed

lemma refresh_checkD:
  "refresh_check e raw db = Inr m \<Longrightarrow> fst m \<in> set (ad_refresh db) \<and> \<not> rt_isRevoked (fst m) \<and> rt_lookupHash (fst m) = le_digest e raw"
  by (auto simp: refresh_check_def live_token_def find_Some_iff split: option.splits if_splits)

lemma logout_checkD: "logout_check e u raw db = Some t \<Longrightarrow> t \<in> set (ad_refresh db)"
  by (auto simp: logout_check_def find_Some_iff split: option.splits if_splits)

lemma reads_ok:
  assumes "flight_reads dg w r" and "login_world_ok dg w"
  shows "flight_ok dg w r" and "spent h w \<Longrightarrow> \<not> stale_flight dg h r"
proof -
  have "flight_token r \<in> set (ad_refresh (lw_db w)) \<and> (\<forall>raw m. r = In_refresh raw m \<longrightarrow> rt_lookupHash (fst m) = dg raw \<and> \<not> rt_isRevoked (fst m))"
    using assms(1) by (cases r) (auto dest: refresh_checkD logout_checkD)
  then show "flight_ok dg w r" "spent h w \<Longrightarrow> \<not> stale_flight dg h r"
    using assms(2) by (cases r; auto simp: flight_ok_def login_world_ok_def spent_def)+
qed

interpretation spent_tokens: settling "flight_reads dg" flight_finish "login_other dg" "login_world_ok dg" "flight_ok dg"
  spent "stale_flight dg" "\<lambda>h w. filter (\<lambda>raw. dg raw = h) (lw_accepted w)" for dg
proof
  fix w w' r h
  show "flight_ok dg w r" if "login_world_ok dg w" "flight_reads dg w r" using reads_ok(1) [OF that(2,1)] .
  show "login_world_ok dg w'" if "login_world_ok dg w" "flight_ok dg w r" "flight_finish r w w'" using finish_world_ok [OF that] .
  show "login_world_ok dg w'" if "login_world_ok dg w" "login_other dg w w'" using other_world_ok(1) [OF that(2,1)] .
  show "flight_ok dg w' r'" if "flight_finish r w w'" "flight_ok dg w r'" for r'
    using flight_finish_table [OF that(1)] flight_ok_mono [OF _ that(2)] by (metis subset_refl)
  show "flight_ok dg w' r'" if "login_other dg w w'" "flight_ok dg w r'" for r'
    using flight_ok_mono [OF _ that(2), of w'] that(1) by (fastforce simp: login_other_def)
  show "\<not> stale_flight dg h r" if "login_world_ok dg w" "spent h w" "flight_reads dg w r" using reads_ok(2) [OF that(3,1,2)] .
  show "spent h w' \<and> filter (\<lambda>raw. dg raw = h) (lw_accepted w') = filter (\<lambda>raw. dg raw = h) (lw_accepted w)"
    if "login_world_ok dg w" "flight_ok dg w r" "spent h w" "\<not> stale_flight dg h r" "flight_finish r w w'"
    using finish_spent(1) [OF that(1,2,5,3)] that(4,5) by (cases r) auto
  show "spent h w' \<and> filter (\<lambda>raw. dg raw = h) (lw_accepted w') = filter (\<lambda>raw. dg raw = h) (lw_accepted w)"
    if "login_world_ok dg w" "spent h w" "login_other dg w w'"
    using other_world_ok(2) [OF that(3,1,2)] that(3) by (auto simp: login_other_def)
qed

text \<open>
  Once a token is used up, requests that are in flight with it can still be accepted, each once, and no other: the
  acceptances and the requests in flight add up to the same number.
\<close>

definition uses :: "(string \<Rightarrow> string) \<Rightarrow> string \<Rightarrow> login_world \<times> in_flight list \<Rightarrow> nat" where
  "uses dg h c = length (filter (\<lambda>raw. dg raw = h) (lw_accepted (fst c))) + length (filter (stale_flight dg h) (snd c))"

lemma uses_step:
  assumes "login_overlap dg c c'" and "spent_tokens.sound dg c" and "spent h (fst c)"
  shows "spent h (fst c') \<and> uses dg h c' = uses dg h c"
  using assms
proof (cases rule: overlap.cases)
  case (ov_read w r P)
  then show ?thesis using assms(2,3) reads_ok(2) [of dg w r h] by (auto simp: uses_def spent_tokens.sound_def)
next
  case (ov_finish r P w w')
  have "spent h w'" using ov_finish assms(2,3) finish_spent(1) [of dg w r w' h] by (auto simp: spent_tokens.sound_def)
  moreover have "length (filter (stale_flight dg h) P) = length (filter (stale_flight dg h) (remove1 r P)) + (if stale_flight dg h r then 1 else 0)"
    using ov_finish(3) by (induction P) auto
  ultimately show ?thesis using ov_finish by (cases r) (auto simp: uses_def)
next
  case (ov_other w w' P)
  then show ?thesis using assms(2,3) other_world_ok(2) [of dg w w' h] by (auto simp: uses_def spent_tokens.sound_def login_other_def)
qed

lemma uses_run:
  assumes "(login_overlap dg)\<^sup>*\<^sup>* c c'" and "spent_tokens.sound dg c" and "spent h (fst c)"
  shows "spent h (fst c') \<and> uses dg h c' = uses dg h c"
  using assms(1)
proof (induction rule: rtranclp_induct)
  case (step c1 c2)
  then show ?case using uses_step [OF step(2) spent_tokens.sound_run [OF step(1) assms(2)], of h] by simp
qed (use assms(3) in simp)

lemma login_start_sound: "ad_refresh db = [] \<Longrightarrow> spent_tokens.sound dg (login_start db, [])"
  by (simp add: spent_tokens.sound_def login_world_ok_def login_start_def issued_ok_def)

end
