(* ===== verification/Login_Props.thy ===== *)
theory Login_Props
  imports Login_Inv
begin

text \<open>
  Authentication: refresh tokens, reset tokens and challenges as one-time credentials; wallet keys bound without a
  signature; challenges that anyone can supersede; and the lock-out after failed logins.
\<close>

lemma find_append: "find P (xs @ ys) = (case find P xs of None \<Rightarrow> find P ys | Some x \<Rightarrow> Some x)"
  by (induction xs) auto

lemma find_last: "\<forall>x \<in> set xs. \<not> P x \<Longrightarrow> P y \<Longrightarrow> find P (xs @ [y]) = Some y"
  by (induction xs) auto

lemma row_by_first: "k \<notin> key ` set xs \<Longrightarrow> key x = k \<Longrightarrow> row_by key k (xs @ x # ys) = Some x"
  by (induction xs) auto

section \<open>Accounts\<close>

lemma insert_user_ok:
  assumes "insert_user u db = (Inr v, db')"
  shows "v = u" "ad_users db' = ad_users db @ [u]" "findByEmailWithSecret (ac_email u) db' = Some u"
    "ac_stellarPublicKey u = Some k \<Longrightarrow> findByStellarPublicKey k db' = Some u"
  using assms by (auto simp: insert_user_def findByEmailWithSecret_def findByStellarPublicKey_def find_last split: if_splits)

lemma issue_ok_users [simp]: "ad_users (snd (issue_ok e u ctx db)) = ad_users db"
  by (simp add: issue_ok_def issueTokenPair_def Let_def)

lemma issue_ok_result: "issue_ok e u ctx db = (r, db') \<Longrightarrow> \<exists>q. r = Inr q \<and> ru_userId q = ac_id u"
  by (auto simp: issue_ok_def issueTokenPair_def Let_def)

lemma fst_issue_ok: "\<exists>q. fst (issue_ok e u ctx db) = Inr q \<and> ru_userId q = ac_id u"
  by (auto simp: issue_ok_def issueTokenPair_def Let_def)

lemma auth_register_ok:
  assumes "auth_register e dto ctx db = (Inr r, db')"
  obtains u where "findByEmailWithSecret (cu_email dto) db' = Some u" "ac_id u = ru_userId r" "ac_isActive u"
    "ac_passwordHash u = le_hash e (cu_password dto)" "\<And>k. cu_stellarPublicKey dto = Val k \<Longrightarrow> findByStellarPublicKey k db' = Some u"
proof -
  obtain u d where c: "users_create e dto db = (Inr u, d)"
    and i: "issue_ok e u ctx (recordSuccess e EV_REGISTER (Some (ac_id u)) (cx_ipAddress ctx) (cx_userAgent ctx) None d) = (Inr r, db')"
    using assms by (auto simp: auth_register_def split: prod.splits sum.splits)
  then have us: "ad_users db' = ad_users d" by (metis issue_ok_users record_frame(1) snd_conv)
  have id: "ac_id u = ru_userId r" using issue_ok_result [OF i] by auto
  obtain v where v: "insert_user v db = (Inr u, d)" "ac_email v = cu_email dto" "ac_isActive v" "ac_passwordHash v = le_hash e (cu_password dto)"
    "ac_stellarPublicKey v = field_opt (cu_stellarPublicKey dto)"
    using c by (fastforce simp: users_create_def split: option.splits)
  note ins = insert_user_ok [OF v(1)]
  show thesis
  proof (rule that)
    show "findByEmailWithSecret (cu_email dto) db' = Some u" using ins(1,3) v(2) us by (simp add: findByEmailWithSecret_def)
    show "findByStellarPublicKey k db' = Some u" if "cu_stellarPublicKey dto = Val k" for k
      using ins(1) ins(4) [of k] v(5) that us by (simp add: findByStellarPublicKey_def)
  qed (use ins(1) v id in simp_all)
qed

lemma consume_users: "ad_users (snd (consume_challenge e i n k sg db)) = ad_users db"
  by (simp add: consume_challenge_def split: sum.split)

lemma verifyChallenge_users: "ad_users (between db) = ad_users db \<Longrightarrow> ad_users (snd (verifyChallenge e between n k sg db)) = ad_users db"
  by (auto simp: verifyChallenge_def consume_users split: sum.split)

lemma stellarVerify_known:
  assumes "stellarVerify e between n k sg ctx db = (Inr s, db')" and "ad_users (between db) = ad_users db"
    and "findByStellarPublicKey k db = Some u"
  shows "ru_userId s = ac_id u" "ad_users db' = ad_users db"
proof -
  obtain r db1 where v: "verifyChallenge e between n k sg db = (r, db1)" by force
  with verifyChallenge_users [where between = between and db = db, OF assms(2)] have us: "ad_users db1 = ad_users db" by (metis snd_conv)
  with assms(3) have f: "findByStellarPublicKey k db1 = Some u" by (simp add: findByStellarPublicKey_def)
  obtain x where i: "issue_ok e u ctx x = (Inr s, db')" "ad_users x = ad_users db1"
    using assms(1) v f by (auto simp: stellarVerify_def split: sum.splits if_splits)
  show "ru_userId s = ac_id u" using issue_ok_result [OF i(1)] by auto
  show "ad_users db' = ad_users db" using i us by (metis issue_ok_users snd_conv)
qed

lemma login_ok:
  assumes "findByEmailWithSecret email db = Some u" and "ac_isActive u" and "le_compare e pw (ac_passwordHash u)" and "\<not> isLockedOut e email db"
  shows "\<exists>q. fst (login e email pw ctx db) = Inr q \<and> ru_userId q = ac_id u"
  using assms fst_issue_ok by (simp add: login_def)

text \<open>
  C39. Registration binds a wallet key that nobody has signed for: when an account is registered with the public key of
  someone else, the owner of the key who then signs in with a valid signature is given that account, and whoever
  registered it still signs in to it with the password.
\<close>

theorem unverified_key_binding:
  assumes reg: "auth_register e1 dto ctx1 db = (Inr a, db1)" and key: "cu_stellarPublicKey dto = Val k"
    and between: "ad_users db2 = ad_users db1" "ad_users (others db2) = ad_users db2"
    and victim: "stellarVerify e2 others nonce k sig ctx2 db2 = (Inr s, db3)"
    and bcrypt: "le_compare e3 (cu_password dto) (le_hash e1 (cu_password dto))" and free: "\<not> isLockedOut e3 (cu_email dto) db3"
  shows "ru_userId s = ru_userId a \<and> (\<exists>q. fst (login e3 (cu_email dto) (cu_password dto) ctx3 db3) = Inr q \<and> ru_userId q = ru_userId s)"
proof -
  obtain u where u: "findByEmailWithSecret (cu_email dto) db1 = Some u" "ac_id u = ru_userId a" "ac_isActive u"
    "ac_passwordHash u = le_hash e1 (cu_password dto)" "findByStellarPublicKey k db1 = Some u"
    using auth_register_ok [OF reg] key by metis
  have "findByStellarPublicKey k db2 = Some u" using u(5) between(1) by (simp add: findByStellarPublicKey_def)
  note s = stellarVerify_known [OF victim between(2) this]
  have sa: "ru_userId s = ru_userId a" using s(1) u(2) by simp
  have "findByEmailWithSecret (cu_email dto) db3 = Some u" using u(1) s(2) between(1) by (simp add: findByEmailWithSecret_def)
  from login_ok [OF this u(3) _ free] bcrypt u(2,4) sa show ?thesis by simp
qed

section \<open>Challenges\<close>

lemma newest_unused_last:
  assumes "ad_challenges db = cs @ [c]" and "sg_publicKey c = k" and "\<not> sg_isUsed c" and "\<And>x. x \<in> set cs \<Longrightarrow> sg_createdAt x \<le> sg_createdAt c"
  shows "newest_unused k db = Some c"
proof -
  have "newest_first sg_createdAt (c # xs) = c # newest_first sg_createdAt xs" if "\<And>x. x \<in> set xs \<Longrightarrow> sg_createdAt x \<le> sg_createdAt c" for xs
    using that by (auto simp: newest_first_def insort_is_Cons)
  from this [of "rev (filter (\<lambda>c. sg_publicKey c = k \<and> \<not> sg_isUsed c) cs)"] assms show ?thesis by (simp add: newest_unused_def)
qed

lemma createChallenge_ok:
  assumes "createChallenge e k db = (Inr (n, x), db')"
  obtains c where "ad_challenges db' = ad_challenges db @ [c]" "sg_id c = le_uuid e" "sg_nonce c = n" "sg_publicKey c = k" "\<not> sg_isUsed c"
    "sg_createdAt c = le_now e" "sg_expiresAt c = x" "n \<notin> sg_nonce ` set (ad_challenges db)"
  using assms by (fastforce simp: createChallenge_def Let_def split: if_splits)

text \<open>
  C40. A challenge that would be accepted is refused once anyone has requested another challenge for the same key,
  without signing anything: the newest unused challenge of a key is the only one that counts.
\<close>

theorem challenge_superseded:
  assumes victim: "createChallenge e1 k db = (Inr (nonce, x), db1)" and other: "createChallenge e2 k db1 = (Inr (nonce2, x2), db2)"
    and times: "\<forall>c \<in> set (ad_challenges db). sg_createdAt c \<le> le_now e1" "le_now e1 \<le> le_now e2" "le_now e3 \<le> x"
    and ids: "le_uuid e1 \<notin> sg_id ` set (ad_challenges db)" "le_uuid e2 \<noteq> le_uuid e1"
    and signed: "le_validKey e3 k" "le_verify e3 k nonce sig"
  shows "fst (verifyChallenge e3 (\<lambda>d. d) nonce k sig db1) = Inr k \<and>
    verifyChallenge e3 (\<lambda>d. d) nonce k sig db2 = (Inl (Unauthorized ''Challenge has been superseded by a newer challenge''), db2)"
proof -
  obtain c where c: "ad_challenges db1 = ad_challenges db @ [c]" "sg_id c = le_uuid e1" "sg_nonce c = nonce" "sg_publicKey c = k" "\<not> sg_isUsed c"
    "sg_createdAt c = le_now e1" "sg_expiresAt c = x" "nonce \<notin> sg_nonce ` set (ad_challenges db)"
    using createChallenge_ok [OF victim] .
  obtain d where d: "ad_challenges db2 = ad_challenges db1 @ [d]" "sg_id d = le_uuid e2" "sg_publicKey d = k" "\<not> sg_isUsed d" "sg_createdAt d = le_now e2"
    using createChallenge_ok [OF other] .
  have old: "find (\<lambda>c. sg_nonce c = nonce \<and> sg_publicKey c = k) (ad_challenges db) = None" using c(8) by (auto simp: find_None_iff)
  have row: "row_by sg_id (le_uuid e1) (ad_challenges db @ c # xs) = Some c" for xs
    using row_by_first [OF ids(1) c(2)] .
  have "newest_unused k db1 = Some c" using newest_unused_last [OF c(1,4,5)] times(1) c(6) by simp
  then have "fst (verifyChallenge e3 (\<lambda>d. d) nonce k sig db1) = Inr k"
    using c old row [of "[]"] times(3) signed by (simp add: verifyChallenge_def challenge_check_def consume_challenge_def find_append)
  moreover have "newest_unused k db2 = Some d" using newest_unused_last [OF d(1,3,4)] times c d(5) by fastforce
  ultimately show ?thesis
    using c d ids(2) old row [of "[d]"] times(3) signed by (simp add: verifyChallenge_def challenge_check_def consume_challenge_def find_append)
qed

section \<open>Lock-out\<close>

definition failure_state :: "int \<Rightarrow> int \<Rightarrow> string \<Rightarrow> redis \<Rightarrow> bool" where
  "failure_state n tm i r \<longleftrightarrow> rd_count r (fail_key i) = n \<and> (n = 0 \<or> rd_expiry r (fail_key i) = Some (tm + FAILURE_WINDOW_SECS * 1000)) \<and>
     rd_count r (lock_key i) = 0 \<and> rd_zset r (lock_key i) = []"

lemma keys_differ [simp]: "lock_key i \<noteq> fail_key j" "fail_key j \<noteq> lock_key i"
  by (simp_all add: lock_key_def fail_key_def)

lemma failure_state_free: "failure_state n tm i (ad_redis db) \<Longrightarrow> \<not> isLockedOut e i db"
  by (auto simp: failure_state_def isLockedOut_def rd_exists_def rd_purge_def Let_def)

lemma recordFailure_step:
  assumes "failure_state n tm i (ad_redis db)" and "le_redis_up e" and "0 \<le> n" and "n = 0 \<or> tm \<le> le_now e \<and> le_now e < tm + FAILURE_WINDOW_SECS * 1000"
  shows "n + 1 < MAX_FAILURES \<Longrightarrow> failure_state (n + 1) (le_now e) i (ad_redis (recordFailure e i db))"
    and "n + 1 = MAX_FAILURES \<Longrightarrow> rd_count (ad_redis (recordFailure e i db)) (lock_key i) = 1 \<and>
      rd_zset (ad_redis (recordFailure e i db)) (lock_key i) = [] \<and>
      rd_expiry (ad_redis (recordFailure e i db)) (lock_key i) = Some (le_now e + LOCKOUT_SECS * 1000)"
  using assms by (auto simp: recordFailure_def failure_state_def incr_def expire_def rd_set_ex_def rd_purge_def rd_live_def Let_def MAX_FAILURES_def split: option.splits)

lemma locked_until:
  assumes "rd_count (ad_redis db) (lock_key i) = 1" "rd_zset (ad_redis db) (lock_key i) = []" "rd_expiry (ad_redis db) (lock_key i) = Some x"
  shows "isLockedOut e i db \<longleftrightarrow> le_redis_up e \<and> le_now e < x"
  using assms by (auto simp: isLockedOut_def rd_exists_def rd_purge_def rd_live_def Let_def)

text \<open>A login that does not get in: no such account, an inactive one, or a wrong password.\<close>

definition bad_login :: "login_env \<Rightarrow> string \<Rightarrow> string \<Rightarrow> auth_db \<Rightarrow> bool" where
  "bad_login e email pw db = (case findByEmailWithSecret email db of None \<Rightarrow> True | Some u \<Rightarrow> \<not> ac_isActive u \<or> \<not> le_compare e pw (ac_passwordHash u))"

lemma bad_login_step:
  assumes "bad_login e email pw db" and "\<not> isLockedOut e email db"
  shows "fst (login e email pw ctx db) = Inl (Unauthorized ''Invalid credentials'')"
    "ad_redis (snd (login e email pw ctx db)) = ad_redis (recordFailure e email db)" "ad_users (snd (login e email pw ctx db)) = ad_users db"
  using assms by (auto simp: login_def bad_login_def login_rejected_def split: option.splits)

fun attempts :: "(login_env \<times> string) list \<Rightarrow> string \<Rightarrow> request_context \<Rightarrow> auth_db \<Rightarrow> auth_db" where
  "attempts [] email ctx db = db"
| "attempts ((e, pw) # as) email ctx db = attempts as email ctx (snd (login e email pw ctx db))"

fun close_attempts :: "(login_env \<times> string) list \<Rightarrow> bool" where
  "close_attempts [] = True"
| "close_attempts [a] = le_redis_up (fst a)"
| "close_attempts (a # b # as) = (le_redis_up (fst a) \<and> le_now (fst a) \<le> le_now (fst b) \<and> le_now (fst b) < le_now (fst a) + FAILURE_WINDOW_SECS * 1000 \<and> close_attempts (b # as))"

lemma attempts_lock:
  assumes "failure_state n tm email (ad_redis db)" and "0 \<le> n" and "as \<noteq> []" and "n + int (length as) = MAX_FAILURES" and "close_attempts as"
    and "n = 0 \<or> tm \<le> le_now (fst (hd as)) \<and> le_now (fst (hd as)) < tm + FAILURE_WINDOW_SECS * 1000"
    and "\<And>e pw. (e, pw) \<in> set as \<Longrightarrow> bad_login e email pw db"
  shows "isLockedOut e' email (attempts as email ctx db) \<longleftrightarrow> le_redis_up e' \<and> le_now e' < le_now (fst (last as)) + LOCKOUT_SECS * 1000"
  using assms
proof (induction as arbitrary: n tm db)
  case Nil
  then show ?case by simp
next
  case (Cons a as)
  obtain e pw where a: "a = (e, pw)" by force
  let ?db = "snd (login e email pw ctx db)"
  have up: "le_redis_up e" using Cons.prems(5) a by (cases as) auto
  have bad: "bad_login e email pw db" using Cons.prems(7) a by simp
  note step = bad_login_step [OF bad failure_state_free [OF Cons.prems(1)], of ctx]
  have win: "n = 0 \<or> tm \<le> le_now e \<and> le_now e < tm + FAILURE_WINDOW_SECS * 1000" using Cons.prems(6) a by simp
  note rec = recordFailure_step [OF Cons.prems(1) up Cons.prems(2) win]
  show ?case
  proof (cases as)
    case Nil
    then have "n + 1 = MAX_FAILURES" using Cons.prems(4) by simp
    from rec(2) [OF this] have "rd_count (ad_redis ?db) (lock_key email) = 1" "rd_zset (ad_redis ?db) (lock_key email) = []"
      "rd_expiry (ad_redis ?db) (lock_key email) = Some (le_now e + LOCKOUT_SECS * 1000)" by (simp_all add: step)
    from locked_until [OF this] show ?thesis by (simp add: Nil a)
  next
    case (Cons b bs)
    then have "n + 1 < MAX_FAILURES" using Cons.prems(4) by simp
    from rec(1) [OF this] have fs: "failure_state (n + 1) (le_now e) email (ad_redis ?db)" by (simp add: step)
    have bads: "bad_login f email pw' ?db" if "(f, pw') \<in> set as" for f pw'
      using Cons.prems(7) [of f pw'] that step(3) by (simp add: bad_login_def findByEmailWithSecret_def)
    have "isLockedOut e' email (attempts as email ctx ?db) \<longleftrightarrow> le_redis_up e' \<and> le_now e' < le_now (fst (last as)) + LOCKOUT_SECS * 1000"
      using Cons.prems Cons a by (intro Cons.IH [OF fs _ _ _ _ _ bads]) auto
    then show ?thesis using Cons a by simp
  qed
qed

lemma distinct_map_eq: "distinct (map f xs) \<Longrightarrow> x \<in> set xs \<Longrightarrow> y \<in> set xs \<Longrightarrow> f x = f y \<Longrightarrow> x = y"
  by (metis distinct_map inj_onD)

section \<open>One-time credentials\<close>

text \<open>
  Refresh tokens, reset tokens and signed challenges are used up by the request that redeems them. The contract that
  they share: only a live credential is redeemed, and it is not live afterwards, for any request with the same keys.
\<close>

locale one_time =
  fixes redeem :: "login_env \<Rightarrow> 'c \<Rightarrow> auth_db \<Rightarrow> 'r result \<times> auth_db"
    and live :: "login_env \<Rightarrow> 'c \<Rightarrow> auth_db \<Rightarrow> bool"
    and ready :: "login_env \<Rightarrow> auth_db \<Rightarrow> bool"
  assumes redeem_live: "is_ok (fst (redeem e c db)) \<Longrightarrow> live e c db"
    and redeem_refused: "\<not> is_ok (fst (redeem e c db)) \<Longrightarrow> snd (redeem e c db) = db"
    and used_up: "ready e db \<Longrightarrow> is_ok (fst (redeem e c db)) \<Longrightarrow> le_digest e' = le_digest e \<Longrightarrow> \<not> live e' c (snd (redeem e c db))"
begin

lemma replay_refused:
  assumes "ready e db" and "is_ok (fst (redeem e c db))" and "le_digest e' = le_digest e"
  shows "\<not> is_ok (fst (redeem e' c (snd (redeem e c db))))" "snd (redeem e' c (snd (redeem e c db))) = snd (redeem e c db)"
proof -
  show r: "\<not> is_ok (fst (redeem e' c (snd (redeem e c db))))" using used_up [OF assms] redeem_live by blast
  show "snd (redeem e' c (snd (redeem e c db))) = snd (redeem e c db)" using redeem_refused [OF r] .
qed

end

definition unused_reset :: "login_env \<Rightarrow> string \<Rightarrow> auth_db \<Rightarrow> bool" where
  "unused_reset e raw db \<longleftrightarrow> (\<exists>t \<in> set (ad_resets db). pr_lookupHash t = le_digest e raw \<and> \<not> pr_isUsed t)"

definition unused_challenge :: "string \<times> string \<times> string \<Rightarrow> auth_db \<Rightarrow> bool" where
  "unused_challenge m db \<longleftrightarrow> (\<exists>c \<in> set (ad_challenges db). sg_nonce c = fst m \<and> sg_publicKey c = fst (snd m) \<and> \<not> sg_isUsed c)"

definition tokens_ready :: "login_env \<Rightarrow> auth_db \<Rightarrow> bool" where
  "tokens_ready e db \<longleftrightarrow> distinct (map rt_id (ad_refresh db)) \<and> distinct (map rt_lookupHash (ad_refresh db)) \<and>
     le_uuid2 e \<notin> rt_id ` set (ad_refresh db) \<and> le_digest e (le_random e) \<notin> rt_lookupHash ` set (ad_refresh db)"

definition resets_ready :: "login_env \<Rightarrow> auth_db \<Rightarrow> bool" where
  "resets_ready e db \<longleftrightarrow> distinct (map pr_id (ad_resets db)) \<and> distinct (map pr_lookupHash (ad_resets db))"

definition challenges_ready :: "login_env \<Rightarrow> auth_db \<Rightarrow> bool" where
  "challenges_ready e db \<longleftrightarrow> distinct (map sg_nonce (ad_challenges db))"

lemma live_token_dead:
  assumes "\<And>x. x \<in> set (ad_refresh db) \<Longrightarrow> rt_lookupHash x = le_digest e raw \<Longrightarrow> rt_isRevoked x"
  shows "live_token e raw db = None"
  using assms by (auto simp: live_token_def find_None_iff)

lemma refresh_used_up:
  assumes "tokens_ready e db" and acc: "is_ok (fst (refreshAccessToken e raw ctx db))" and dg: "le_digest e' = le_digest e"
  shows "live_token e' raw (snd (refreshAccessToken e raw ctx db)) = None"
proof -
  have d: "distinct (map rt_id (ad_refresh db))" "distinct (map rt_lookupHash (ad_refresh db))"
    and f: "le_uuid2 e \<notin> rt_id ` set (ad_refresh db)" "le_digest e (le_random e) \<notin> rt_lookupHash ` set (ad_refresh db)"
    using assms(1) by (auto simp: tokens_ready_def)
  obtain t n where t: "t \<in> set (ad_refresh db)" "rt_lookupHash t = le_digest e raw" "fresh_row e n"
    "ad_refresh (snd (refreshAccessToken e raw ctx db)) = map (\<lambda>x. if rt_id x = rt_id t then revoked (le_now e) t else x) (ad_refresh db) @ [n]"
    using refreshAccessToken_ok [OF acc d(1) f(1)] by blast
  show ?thesis
  proof (rule live_token_dead)
    fix x assume x: "x \<in> set (ad_refresh (snd (refreshAccessToken e raw ctx db)))" "rt_lookupHash x = le_digest e' raw"
    have "rt_lookupHash n \<notin> rt_lookupHash ` set (ad_refresh db)" using f(2) t(3) by (simp add: fresh_row_def)
    moreover have "rt_lookupHash x \<in> rt_lookupHash ` set (ad_refresh db)" using x(2) dg t(2) imageI [OF t(1), of rt_lookupHash] by simp
    ultimately have "x \<noteq> n" by auto
    with x(1) obtain y where "y \<in> set (ad_refresh db)" "x = (if rt_id y = rt_id t then revoked (le_now e) t else y)" by (auto simp: t(4))
    then show "rt_isRevoked x" using x(2) dg t(2) distinct_map_eq [OF d(2) _ t(1)] by (auto simp: revoked_def split: if_splits)
  qed
qed

interpretation refresh_credential: one_time "\<lambda>e raw. refreshAccessToken e raw ctx" "\<lambda>e raw db. live_token e raw db \<noteq> None" tokens_ready
proof
  show "live_token e raw db \<noteq> None" if "is_ok (fst (refreshAccessToken e raw ctx db))" for e raw db
    using that by (auto simp: refreshAccessToken_def refresh_check_def split: option.splits)
  show "snd (refreshAccessToken e raw ctx db) = db" if "\<not> is_ok (fst (refreshAccessToken e raw ctx db))" for e raw db
    using that by (auto simp: refreshAccessToken_def split: sum.splits prod.splits)
qed (simp add: refresh_used_up)

interpretation reset_credential: one_time "\<lambda>e (raw, pw). confirmPasswordReset e raw pw ctx" "\<lambda>e (raw, pw). unused_reset e raw" resets_ready
proof
  show "(case c of (raw, pw) \<Rightarrow> unused_reset e raw) db" if "is_ok (fst ((case c of (raw, pw) \<Rightarrow> confirmPasswordReset e raw pw ctx) db))" for e c db
    using that by (auto simp: confirmPasswordReset_def unused_reset_def find_Some_iff Let_def split: option.splits) (metis nth_mem)
  show "snd ((case c of (raw, pw) \<Rightarrow> confirmPasswordReset e raw pw ctx) db) = db" if "\<not> is_ok (fst ((case c of (raw, pw) \<Rightarrow> confirmPasswordReset e raw pw ctx) db))" for e c db
    using that by (auto simp: confirmPasswordReset_def Let_def split: option.splits prod.splits)
  show "\<not> (case c of (raw, pw) \<Rightarrow> unused_reset e' raw) (snd ((case c of (raw, pw) \<Rightarrow> confirmPasswordReset e raw pw ctx) db))"
    if r: "resets_ready e db" and a: "is_ok (fst ((case c of (raw, pw) \<Rightarrow> confirmPasswordReset e raw pw ctx) db))" and d: "le_digest e' = le_digest e" for e e' c db
  proof -
    obtain raw pw where c: "c = (raw, pw)" by force
    obtain t where t: "find (\<lambda>t. pr_lookupHash t = le_digest e raw \<and> \<not> pr_isUsed t \<and> le_now e < pr_expiresAt t) (ad_resets db) = Some t"
      and res: "ad_resets (snd (confirmPasswordReset e raw pw ctx db)) = save_row pr_id (t\<lparr>pr_isUsed := True\<rparr>) (ad_resets db)"
      using a c by (auto simp: confirmPasswordReset_def Let_def logoutAll_def updatePassword_def split: option.splits if_splits)
    then have tin: "t \<in> set (ad_resets db)" "pr_lookupHash t = le_digest e raw" by (auto simp: find_Some_iff)
    have k: "keys_distinct pr_id (ad_resets db)" and h: "distinct (map pr_lookupHash (ad_resets db))" using r by (auto simp: resets_ready_def keys_distinct_def)
    have "set (save_row pr_id (t\<lparr>pr_isUsed := True\<rparr>) (ad_resets db)) = insert (t\<lparr>pr_isUsed := True\<rparr>) {x \<in> set (ad_resets db). pr_id x \<noteq> pr_id t}"
      using set_save_row [OF k] by simp
    moreover have "x = t" if "x \<in> set (ad_resets db)" "pr_lookupHash x = le_digest e raw" for x
      using distinct_map_eq [OF h _ tin(1)] that tin(2) by simp
    ultimately show ?thesis using d by (auto simp: c unused_reset_def res)
  qed
qed

interpretation challenge_credential: one_time "\<lambda>e (n, k, sg). verifyChallenge e (\<lambda>d. d) n k sg" "\<lambda>_. unused_challenge" challenges_ready
proof
  show "unused_challenge c db" if "is_ok (fst ((case c of (n, k, sg) \<Rightarrow> verifyChallenge e (\<lambda>d. d) n k sg) db))" for e c db
    using that by (auto simp: verifyChallenge_def unused_challenge_def challenge_check_def find_Some_iff split: option.splits if_splits sum.splits prod.splits)
  show "snd ((case c of (n, k, sg) \<Rightarrow> verifyChallenge e (\<lambda>d. d) n k sg) db) = db"
    if "\<not> is_ok (fst ((case c of (n, k, sg) \<Rightarrow> verifyChallenge e (\<lambda>d. d) n k sg) db))" for e c db
    using that by (auto simp: verifyChallenge_def consume_challenge_def split: sum.splits prod.splits if_splits)
  show "\<not> unused_challenge c (snd ((case c of (n, k, sg) \<Rightarrow> verifyChallenge e (\<lambda>d. d) n k sg) db))"
    if r: "challenges_ready e db" and a: "is_ok (fst ((case c of (n, k, sg) \<Rightarrow> verifyChallenge e (\<lambda>d. d) n k sg) db))" for e c db
  proof -
    obtain n k sg where c: "c = (n, k, sg)" by (cases c)
    obtain x where x: "find (\<lambda>c. sg_nonce c = n \<and> sg_publicKey c = k) (ad_challenges db) = Some x"
      and res: "ad_challenges (snd (verifyChallenge e (\<lambda>d. d) n k sg db)) = map (\<lambda>y. if sg_id y = sg_id x then y\<lparr>sg_isUsed := True\<rparr> else y) (ad_challenges db)"
      using a c by (auto simp: verifyChallenge_def consume_challenge_def challenge_check_def split: option.splits if_splits sum.splits)
    have "y = x" if "y \<in> set (ad_challenges db)" "sg_nonce y = n" for y
      using that x r by (auto simp: challenges_ready_def distinct_map find_Some_iff dest: inj_onD)
    then show ?thesis by (auto simp: c unused_challenge_def res)
  qed
qed

corollary challenge_replay_refused:
  assumes "distinct (map sg_nonce (ad_challenges db))" and "verifyChallenge e (\<lambda>d. d) n k sg db = (Inr k', db')" and "le_digest e' = le_digest e"
  shows "\<not> is_ok (fst (verifyChallenge e' (\<lambda>d. d) n k sg db'))" "snd (verifyChallenge e' (\<lambda>d. d) n k sg db') = db'"
  using challenge_credential.replay_refused [of e db "(n, k, sg)" e'] assms by (simp_all add: challenges_ready_def)

corollary reset_replay_refused:
  assumes "distinct (map pr_id (ad_resets db))" "distinct (map pr_lookupHash (ad_resets db))"
    and "confirmPasswordReset e raw pw ctx db = (Inr (), db')" and "le_digest e' = le_digest e"
  shows "\<not> is_ok (fst (confirmPasswordReset e' raw pw ctx db'))" "snd (confirmPasswordReset e' raw pw ctx db') = db'"
  using reset_credential.replay_refused [of e db ctx "(raw, pw)" e'] assms by (simp_all add: resets_ready_def)

text \<open>A confirmed reset ends every session of the account.\<close>

theorem reset_revokes_sessions:
  assumes "confirmPasswordReset e raw pw ctx db = (Inr (), db')"
  shows "\<exists>t \<in> set (ad_resets db). pr_lookupHash t = le_digest e raw \<and> (\<forall>r \<in> set (ad_refresh db'). rt_userId r = pr_userId t \<longrightarrow> rt_isRevoked r)"
  using assms
  by (auto simp: confirmPasswordReset_def Let_def logoutAll_def updatePassword_def revoked_def find_Some_iff split: option.splits if_splits intro!: bexI nth_mem)

text \<open>
  The check of a refresh token and its rotation are not one step: two requests that both pass the check before either
  rotates are both given a new pair, and both new tokens are live.
\<close>

theorem concurrent_refreshes:
  assumes "refresh_check e1 raw db = Inr m" and "refresh_check e2 raw db = Inr m" and "le_uuid2 e1 \<noteq> le_uuid2 e2"
    and "le_uuid2 e1 \<notin> rt_id ` set (ad_refresh db)" and "le_uuid2 e2 \<notin> rt_id ` set (ad_refresh db)"
    and db': "db' = snd (refresh_rotate e2 m ctx2 (snd (refresh_rotate e1 m ctx1 db)))"
  shows "\<exists>t1 t2. row_by rt_id (le_uuid2 e1) (ad_refresh db') = Some t1 \<and> row_by rt_id (le_uuid2 e2) (ad_refresh db') = Some t2 \<and>
    \<not> rt_isRevoked t1 \<and> \<not> rt_isRevoked t2"
proof -
  obtain t u where m: "m = (t, u)" by force
  have "t \<in> set (ad_refresh db)" using assms(1) m by (auto simp: refresh_check_def live_token_def find_Some_iff split: option.splits if_splits)
  then have "le_uuid2 e1 \<noteq> rt_id t" "le_uuid2 e2 \<noteq> rt_id t" using assms(4,5) by auto
  then show ?thesis using assms(3) by (simp add: db' refresh_rotate_def refresh_revoke_def m issueTokenPair_def Let_def row_by_save_row revoked_def)
qed

lemma spent_refused:
  assumes "spent (le_digest e raw) w"
  shows "refreshAccessToken e raw ctx (lw_db w) = (Inl (Unauthorized ''Invalid or expired refresh token''), lw_db w)"
  using live_token_dead [of "lw_db w" e raw] assms by (simp add: refreshAccessToken_def refresh_check_def spent_def)

text \<open>
  C17. Refresh tokens in runs in which requests overlap: a refresh passes its check in one step and revokes the token in
  another, and anything may happen in between. From the moment a token has been accepted, every request that presents
  it afterwards is refused without a change of state, whatever the clock, the context and the state of the limiter. Only
  requests that had passed the check before can still be accepted, each once: the number of acceptances and the number of
  such requests in flight add up to the same number ever after.
\<close>

theorem refresh_token_single_use:
  assumes "ad_refresh db = []" and "(login_overlap dg)\<^sup>*\<^sup>* (login_start db, []) (w, P)" and "raw \<in> set (lw_accepted w)"
    and "(login_overlap dg)\<^sup>*\<^sup>* (w, P) (w', P')"
  shows "(\<forall>e ctx. le_digest e = dg \<longrightarrow>
      refreshAccessToken e raw ctx (lw_db w') = (Inl (Unauthorized ''Invalid or expired refresh token''), lw_db w')) \<and>
    length (filter (\<lambda>x. dg x = dg raw) (lw_accepted w')) + length (filter (stale_flight dg (dg raw)) P') =
    length (filter (\<lambda>x. dg x = dg raw) (lw_accepted w)) + length (filter (stale_flight dg (dg raw)) P)"
proof -
  have so: "spent_tokens.sound dg (w, P)" using spent_tokens.sound_run [OF assms(2) login_start_sound [OF assms(1)]] .
  then have "spent (dg raw) w" using assms(3) by (simp add: spent_tokens.sound_def login_world_ok_def)
  with uses_run [OF assms(4) so, of "dg raw"] show ?thesis using spent_refused by (auto simp: uses_def)
qed

text \<open>A token that one request alone holds when it is accepted is accepted once.\<close>

theorem sole_refresh_once:
  assumes "ad_refresh db = []" and "(login_overlap dg)\<^sup>*\<^sup>* (login_start db, []) (w, [In_refresh raw m])"
    and "filter (\<lambda>x. dg x = dg raw) (lw_accepted w) = []" and "flight_finish (In_refresh raw m) w w1" and "(login_overlap dg)\<^sup>*\<^sup>* (w1, []) (w', P')"
  shows "filter (\<lambda>x. dg x = dg raw) (lw_accepted w') = [raw]"
proof -
  have "login_overlap dg (w, [In_refresh raw m]) (w1, [])" using assms(4) by (rule ov_finish_sole)
  then have so: "spent_tokens.sound dg (w1, [])"
    using spent_tokens.sound_run [OF assms(2) login_start_sound [OF assms(1)]] spent_tokens.sound_step by blast
  have ac: "lw_accepted w1 = lw_accepted w @ [raw]" using assms(4) by auto
  then have "spent_tokens.quiet dg (dg raw) (w1, [])" using so by (simp add: spent_tokens.sound_def spent_tokens.quiet_def login_world_ok_def)
  from spent_tokens.quiet_run [OF assms(5) so this] show ?thesis using ac assms(3) by simp
qed

text \<open>
  Five refused logins for one address, each less than five minutes after the one before, lock the address for fifteen
  minutes from the last of them, whatever password is then given; after that it is free again.
\<close>

theorem five_failures_lock:
  assumes "failure_state 0 tm email (ad_redis db)" and "length as = 5" and "close_attempts as"
    and "\<And>e pw. (e, pw) \<in> set as \<Longrightarrow> bad_login e email pw db" and "le_redis_up e"
  shows "le_now e < le_now (fst (last as)) + 900000 \<longleftrightarrow>
    (\<exists>ttl. fst (login e email pw ctx' (attempts as email ctx db)) = Inl (Unauthorized (''Too many failed attempts. Try again in '' @ ttl @ '' seconds.'')))"
proof -
  have "as \<noteq> []" using assms(2) by auto
  then have "isLockedOut e email (attempts as email ctx db) \<longleftrightarrow> le_now e < le_now (fst (last as)) + 900000"
    using attempts_lock [OF assms(1) _ _ _ assms(3) _ assms(4), of e ctx] assms(2,5) by (auto simp: MAX_FAILURES_def LOCKOUT_SECS_def)
  then show ?thesis using fst_issue_ok by (auto simp: login_def login_rejected_def Let_def split: option.split) (metis fst_issue_ok sum.distinct(1))
qed

section \<open>Instances\<close>

definition ex_env :: "int \<Rightarrow> string \<Rightarrow> login_env" where
  "ex_env tm n = \<lparr>le_now = tm, le_uuid = ''u'' @ n, le_uuid2 = ''t'' @ n, le_random = ''r'' @ n, le_redis_up = True, le_audit_up = True,
     le_refreshTtl = 604800, le_hash = (\<lambda>s. ''b'' @ s), le_compare = (\<lambda>p h. h = ''b'' @ p), le_digest = (\<lambda>s. ''h'' @ s),
     le_sign = (\<lambda>c x. ''jwt-'' @ jw_sub c), le_validKey = (\<lambda>k. k \<noteq> []), le_verify = (\<lambda>k m s. s = k @ m)\<rparr>"

definition ex_db :: auth_db where
  "ex_db = \<lparr>ad_users = [], ad_refresh = [], ad_resets = [], ad_challenges = [], ad_apiKeys = [], ad_audit = [],
     ad_redis = \<lparr>rd_zset = (\<lambda>_. []), rd_count = (\<lambda>_. 0), rd_expiry = (\<lambda>_. None)\<rparr>\<rparr>"

definition ex_ctx :: request_context where "ex_ctx = \<lparr>cx_ipAddress = None, cx_userAgent = None, cx_deviceHint = None\<rparr>"

definition ex_dto :: create_user_dto where
  "ex_dto = \<lparr>cu_email = ''a@x'', cu_password = ''pw'', cu_displayName = Undefined, cu_stellarPublicKey = Val ''GK''\<rparr>"

definition ex_reg :: auth_db where "ex_reg = snd (auth_register (ex_env 1000 ''1'') ex_dto ex_ctx ex_db)"
definition ex_chal :: auth_db where "ex_chal = snd (createChallenge (ex_env 2000 ''2'') ''GK'' ex_reg)"
definition ex_in :: auth_db where "ex_in = snd (stellarVerify (ex_env 3000 ''3'') (\<lambda>d. d) ''r2'' ''GK'' ''GKr2'' ex_ctx ex_chal)"
definition ex_pair :: "string \<Rightarrow> auth_result" where
  "ex_pair n = \<lparr>ru_accessToken = ''jwt-u1'', ru_refreshToken = ''r'' @ n, ru_userId = ''u1'', ru_email = ''a@x'', ru_role = ROLE_USER\<rparr>"

lemma ex_registered: "auth_register (ex_env 1000 ''1'') ex_dto ex_ctx ex_db = (Inr (ex_pair ''1''), ex_reg)"
  by (rule prod_eqI) (code_simp, simp add: ex_reg_def)

text \<open>A registration, and a refresh with its token.\<close>

definition ex_world :: login_world where
  "ex_world = \<lparr>lw_db = ex_reg, lw_accepted = [], lw_issued = {(''t1'', ''hr1'')}\<rparr>"

definition ex_held :: "refresh_token \<times> account" where
  "ex_held = (hd (ad_refresh ex_reg), hd (ad_users ex_reg))"

definition ex_used :: login_world where
  "ex_used = ex_world\<lparr>lw_db := refresh_revoke (ex_env 2000 ''2'') (fst ex_held) ex_ctx ex_reg, lw_accepted := [''r1'']\<rparr>"

definition ex_after :: login_world where
  "ex_after = ex_used\<lparr>lw_db := snd (issueTokenPair (ex_env 2000 ''2'') (snd ex_held) ex_ctx (lw_db ex_used)), lw_issued := {(''t2'', ''hr2''), (''t1'', ''hr1'')}\<rparr>"

lemma ex_digest: "le_digest (ex_env tm n) = (@) ''h''"
  by (auto simp: ex_env_def)

lemma ex_used_run: "(login_overlap ((@) ''h''))\<^sup>*\<^sup>* (login_start ex_db, []) (ex_used, [])" "(login_overlap ((@) ''h''))\<^sup>*\<^sup>* (ex_used, []) (ex_after, [])"
proof -
  have w: "ex_world = (login_start ex_db)\<lparr>lw_db := exec_op (ex_env 1000 ''1'') (Op_register ex_dto ex_ctx) (lw_db (login_start ex_db)),
      lw_issued := insert (le_uuid2 (ex_env 1000 ''1''), ''h'' @ le_random (ex_env 1000 ''1'')) (lw_issued (login_start ex_db))\<rparr>"
    by (simp add: ex_world_def login_start_def ex_reg_def ex_env_def)
  have "login_other ((@) ''h'') (login_start ex_db) ex_world"
    unfolding login_other_def by (rule exI [of _ "ex_env 1000 ''1''"], rule exI [of _ "Op_register ex_dto ex_ctx"]) (use w in \<open>simp add: ex_digest login_start_def\<close>)
  then have a: "login_overlap ((@) ''h'') (login_start ex_db, []) (ex_world, [])" by (rule ov_other)
  have "refresh_check (ex_env 2000 ''2'') ''r1'' ex_reg = Inr ex_held" by code_simp
  then have "flight_reads ((@) ''h'') ex_world (In_refresh ''r1'' ex_held)" using ex_digest by (auto simp: ex_world_def)
  then have b: "login_overlap ((@) ''h'') (ex_world, []) (ex_world, [In_refresh ''r1'' ex_held])" by (rule ov_read)
  have "flight_finish (In_refresh ''r1'' ex_held) ex_world ex_used" by (auto simp: ex_used_def ex_world_def)
  then have c: "login_overlap ((@) ''h'') (ex_world, [In_refresh ''r1'' ex_held]) (ex_used, [])" by (rule ov_finish_sole)
  show "(login_overlap ((@) ''h''))\<^sup>*\<^sup>* (login_start ex_db, []) (ex_used, [])" using a b c by (auto intro: rtranclp.rtrancl_into_rtrancl)
  have "login_other ((@) ''h'') ex_used ex_after" unfolding login_other_def
    by (rule exI [of _ "ex_env 2000 ''2''"], rule exI [of _ "Op_issue (snd ex_held) ex_ctx"])
      (simp add: ex_digest ex_after_def ex_used_def ex_world_def, simp add: ex_env_def)
  then show "(login_overlap ((@) ''h''))\<^sup>*\<^sup>* (ex_used, []) (ex_after, [])" by (auto intro: ov_other)
qed

theorem refresh_token_single_use_witness:
  "map rt_isRevoked (ad_refresh (lw_db ex_after)) = [True, False] \<and> filter (\<lambda>x. ''h'' @ x = ''hr1'') (lw_accepted ex_after) = [''r1''] \<and>
   refreshAccessToken (ex_env 3000 ''3'') ''r1'' ex_ctx (lw_db ex_after) = (Inl (Unauthorized ''Invalid or expired refresh token''), lw_db ex_after)"
proof -
  have "map rt_isRevoked (ad_refresh (lw_db ex_after)) = [True, False]" "filter (\<lambda>x. ''h'' @ x = ''hr1'') (lw_accepted ex_after) = [''r1'']" by code_simp+
  moreover have "ad_refresh ex_db = []" "''r1'' \<in> set (lw_accepted ex_used)" by (simp_all add: ex_db_def ex_used_def)
  ultimately show ?thesis using refresh_token_single_use [OF _ ex_used_run(1) _ ex_used_run(2), of "''r1''"] ex_digest by simp
qed

lemma ex_verified: "stellarVerify (ex_env 3000 ''3'') (\<lambda>d. d) ''r2'' ''GK'' ''GKr2'' ex_ctx ex_chal = (Inr (ex_pair ''3''), ex_in)"
  by (rule prod_eqI) (code_simp, simp add: ex_in_def)

lemma ex_chal_users: "ad_users ex_chal = ad_users ex_reg"
  by (simp add: ex_chal_def createChallenge_def Let_def)

theorem unverified_key_binding_witness:
  "ru_userId (ex_pair ''3'') = ru_userId (ex_pair ''1'') \<and>
    (\<exists>q. fst (login (ex_env 4000 ''4'') ''a@x'' ''pw'' ex_ctx ex_in) = Inr q \<and> ru_userId q = ''u1'')"
proof -
  have d: "cu_email ex_dto = ''a@x''" "cu_password ex_dto = ''pw''" "cu_stellarPublicKey ex_dto = Val ''GK''" by (simp_all add: ex_dto_def)
  have "le_compare (ex_env 4000 ''4'') (cu_password ex_dto) (le_hash (ex_env 1000 ''1'') (cu_password ex_dto))" by (simp add: ex_env_def)
  moreover have "\<not> isLockedOut (ex_env 4000 ''4'') (cu_email ex_dto) ex_in" by code_simp
  ultimately show ?thesis
    using unverified_key_binding [OF ex_registered d(3) ex_chal_users refl ex_verified, of "ex_env 4000 ''4''" ex_ctx] by (simp add: d ex_pair_def)
qed

definition ex_mine :: auth_db where "ex_mine = snd (createChallenge (ex_env 1000 ''1'') ''GK'' ex_db)"
definition ex_theirs :: auth_db where "ex_theirs = snd (createChallenge (ex_env 2000 ''2'') ''GK'' ex_mine)"

theorem challenge_superseded_witness:
  "fst (verifyChallenge (ex_env 3000 ''3'') (\<lambda>d. d) ''r1'' ''GK'' ''GKr1'' ex_mine) = Inr ''GK'' \<and>
   verifyChallenge (ex_env 3000 ''3'') (\<lambda>d. d) ''r1'' ''GK'' ''GKr1'' ex_theirs =
     (Inl (Unauthorized ''Challenge has been superseded by a newer challenge''), ex_theirs)"
proof -
  have m: "createChallenge (ex_env 1000 ''1'') ''GK'' ex_db = (Inr (''r1'', 121000), ex_mine)" by (rule prod_eqI) (code_simp, simp add: ex_mine_def)
  have t: "createChallenge (ex_env 2000 ''2'') ''GK'' ex_mine = (Inr (''r2'', 122000), ex_theirs)" by (rule prod_eqI) (code_simp, simp add: ex_theirs_def)
  show ?thesis using challenge_superseded [OF m t, of "ex_env 3000 ''3''" "''GKr1''"] by (simp add: ex_env_def ex_db_def)
qed

end
