(* ===== verification/Spec2Isabelle.thy ===== *)
theory Spec2Isabelle
  imports Escrow_Props TxCoordinator_Props Auth_Props TradeBook_Props Multisig_Props Dispute_Props
    Gateway_Props Liq_Props Compliance_Props RateLimit_Props Risk_Props Market_Props
    Webhook_Props Login_Props
begin

text \<open>
  \<^bold>\<open>Verification of the InterChangableTrade core\<close>

  The program is a NestJS server for asset trading on Stellar. Its modules live under
  \<^verbatim>\<open>src/src/modules\<close>; each has services (the logic), entities (database rows), request
  bodies and a controller. A service reads and writes its tables through repositories, keeps
  some state in memory, and calls the Stellar SDK, Soroban contracts, the clock and the random
  generators. This development models the services as functions on explicit states and proves
  what they promise.

  \<^bold>\<open>Conventions.\<close> A table is the list of its rows (\<open>save_row\<close>, \<open>row_by\<close>);
  a \<^verbatim>\<open>Map\<close> is an association list in insertion order (\<open>map_set\<close>). An
  operation takes the state and returns the new state with a \<open>result\<close>: \<open>Inl\<close> of the
  exception it throws, \<open>Inr\<close> of its value. An operation that changes the state although it
  throws returns both. The clock, generated identifiers and random key pairs come from the
  record \<open>env\<close>; code that is not in the repository (contracts, the Stellar network, the hash
  function, whether the database commits) is an argument of the operations. Numbers of the
  language are rationals that every arithmetic operation rounds to 53 binary digits
  (\<open>fl\<close>), with \<open>None\<close> for \<^verbatim>\<open>NaN\<close>; infinities, subnormal numbers and the sign of zero
  are not modelled. Logging and duration measurements are left out.

  \<^bold>\<open>Foundations.\<close>
  \<^item> \<open>Prelude\<close>: results, decimal strings, string operations, maps and sets of JavaScript, tables,
    and the locale \<open>repository\<close>, the contract between a service and its table, which
    \<open>TxBatch_Props\<close> interprets on the tables of batches and legs.
  \<^item> \<open>JsNumber\<close>: doubles, \<^verbatim>\<open>Math.round\<close>, \<^verbatim>\<open>toFixed\<close>,
    \<^verbatim>\<open>toString\<close>, \<^verbatim>\<open>parseFloat\<close>; rounding is monotone and exact on whole
    numbers below \<open>2^53\<close>, and printing such a number and parsing it gives it back.
  \<^item> \<open>JsNan\<close>: numbers that may be \<^verbatim>\<open>NaN\<close>, sorting with a comparator, and the locale \<open>priority_side\<close> of what
    such a sort promises, interpreted on the order books and on the routes.
  \<^item> \<open>JsDate\<close>: UTC fields, \<^verbatim>\<open>toISOString\<close>, \<^verbatim>\<open>JSON.stringify\<close>.
  \<^item> \<open>Stroops\<close>: the fixed-point amounts of the escrow module.
  \<^item> \<open>Overlap\<close>: requests that overlap. A handler that reads a row, waits and writes is a read and a finish, between
    which other requests run; the locale \<open>settling\<close> is the contract of handlers that leave alone what is settled,
    interpreted on the pool of transactions (\<open>Multisig_Props\<close>), on reviews of flags (\<open>Compliance_Props\<close>) and on
    refresh tokens (\<open>Login_Inv\<close>).

  \<^bold>\<open>Escrow\<close> (\<^verbatim>\<open>escrow\<close>). \<open>Escrow\<close> has the entities and every operation of
  \<^verbatim>\<open>EscrowService\<close> on the state \<open>escrow_db\<close>; a release is split into its reads and its
  guarded update so that two of them can interleave. \<open>Escrow_Inv\<close> has the invariant and its
  preservation, \<open>Escrow_Run\<close> the step relation and reachable states, \<open>Escrow_Props\<close> the
  properties: no escrow releases more than its amount, concurrent releases conflict, approvals
  reach the threshold, disputes freeze what non-admins can do.

  \<^bold>\<open>Transaction coordinator\<close> (\<^verbatim>\<open>transaction-coordinator\<close>,
  \<^verbatim>\<open>stellar/soroban/gas-optimizer.service.ts\<close>). \<open>TxTypes\<close> has the data,
  \<open>TxGraph\<close> the dependency graph and the layered plan, \<open>TxRetry\<close> the retry loop with its
  termination proof, \<open>TxCheck\<close> the consistency checker, \<open>TxGas\<close> the gas optimizer,
  \<open>TxBatch\<close> the two-phase executor, \<open>TxCoordinator\<close> the operations on batches. The
  theories \<open>TxGraph_Props\<close>, \<open>TxBatch_Props\<close> and \<open>TxCoordinator_Props\<close> show that plans
  respect dependencies, that a batch is all or nothing, and which states are final.

  \<^bold>\<open>Authorization\<close> (\<^verbatim>\<open>authorization\<close>). \<open>Auth\<close> has roles, policies, delegations,
  thresholds, signers, the hash-chained audit trail and the facade on the state
  \<open>auth_state\<close>. \<open>Auth_Props\<close> characterises decisions by a specification of its own over the
  registered policies (which shows that deny policies refuse inside their limits), shows that the audit chain of every
  reachable state verifies and what verification detects, and the life cycle of delegations.

  \<^bold>\<open>Trading engine\<close> (\<^verbatim>\<open>trading-engine\<close>). \<open>TradeEngine\<close> has the order books, the
  matching loop and the operations of \<^verbatim>\<open>TradingEngineService\<close> on the state
  \<open>te_state\<close>; the loop is a partial function whose value \<open>None\<close> would be a loop that
  does not end. \<open>TradeMatch\<close> states matching as a specification on whole units and proves that
  the loop ends and refines it; \<open>TradeBook\<close> has the sides in price-time priority and the
  invariant of the books;
  \<open>TradeBook_Props\<close> has its preservation, reachable states and the properties. These are about
  calls that run one after the other with transactions that commit, on limit orders with a price other than 0
  whose quantities are whole numbers below \<open>2^53\<close>, where the arithmetic of the
  loop is exact; for fractions it rounds. Creating an order is a part up to the transaction and a part after it, and
  \<open>TradeBook_Props\<close> also shows what calls that overlap and transactions that fail do to the books.

  \<^bold>\<open>Wallets\<close> (\<^verbatim>\<open>wallet\<close>, \<^verbatim>\<open>auth/step-up-token.service.ts\<close>). \<open>Wallet\<close> has the
  operations of \<^verbatim>\<open>WalletService\<close> with the custodial signer and its policy;
  \<open>Multisig\<close> the pool of multi-signature transactions and the operations that configure the
  signers of an account. \<open>Multisig_Props\<close> has the invariant of the pool over its step relation
  (weights, verified and distinct signers, one submission), the policies of the two custodial signing paths, the
  primary wallet and the stored keys. A call is one step of that relation; that final transactions stay as they are
  is shown for signing, broadcasting and cancelling calls that overlap, and a separate theorem shows a cancellation
  that a signature read earlier undoes.

  \<^bold>\<open>Dispute resolution\<close> (\<^verbatim>\<open>dispute-resolution\<close>). \<open>Dispute\<close> has the services of the
  module on the state \<open>dispute_db\<close>, which contains the trades of the trading engine: filing,
  assignment of arbitrators, evidence, messages, decisions with their enforcement, appeals and the
  metrics. What depends on the query builder and on the database's check of amounts is in the
  record \<open>dispute_env\<close>. \<open>Dispute_Props\<close> has the invariant of filings, decisions and
  workloads over the step relation, and what appeals and failing enforcements leave behind.

  \<^bold>\<open>Stellar gateway\<close> (\<^verbatim>\<open>stellar/gateway\<close>). \<open>Gateway\<close> has the rate limiter, the connection pool,
  the request queue and the four operations on the state \<open>gateway\<close>, as the events of an event loop.
  \<open>Gateway_Inv\<close> has the locale \<open>connection_source\<close>, the contract between the gateway and its pool,
  interpreted on the pool, and the invariant over every interleaving; \<open>Gateway_Props\<close> the bounds, the
  exclusive use of connections, the settlement of requests, and what the limiter does and does
  not limit.

  \<^bold>\<open>Liquidity aggregator\<close> (\<^verbatim>\<open>liquidity-aggregator\<close>). On the state \<open>liq_db\<close>, \<open>LiqPools\<close> has the entities,
  the pool registry and the price oracle; \<open>LiqMonitor\<close> snapshots, alerts and the search for arbitrage;
  \<open>LiqRoutes\<close> the graph of pools, the depth-first search for routes, the route cache and the
  simulator; \<open>LiqSplit\<close> price impact, the greedy splitter and the orchestrating service. The search
  recurses on the hops that are left. \<open>Liq_Props\<close> shows that a fresh search finds the best simple
  path, and what the cache, empty pools and pools deactivated later do to the answers.

  \<^bold>\<open>Compliance\<close> (\<^verbatim>\<open>compliance\<close>). On the state \<open>compliance_db\<close>, \<open>Compliance\<close> has the verifications, documents,
  flags, regional configurations and the audit trail with their operations; \<open>ComplianceRisk\<close> the scores
  and the assessment of transactions. \<open>Compliance_Inv\<close> has the step relation and the invariant of the
  tables; \<open>Compliance_Props\<close> the history that is kept, also when reviews of flags overlap, the privacy of records (locale
  \<open>owned_records\<close>, interpreted on documents and flags), and what becomes of scores, levels and
  configurations. What the database accepts in a column is part of \<open>compliance_env\<close>.

  \<^bold>\<open>Rate limiting\<close> (\<^verbatim>\<open>rate-limiting\<close>). \<open>RateLimit\<close> has the Redis commands the service sends, the configuration
  and its cache, path patterns as the regular expressions the code builds, the sliding and the fixed window,
  the guard and the admin endpoints on keys. \<open>RateLimit_Props\<close> shows that the sliding window counts
  exactly over every run and bounds what is allowed, and how the guard, route limits and
  patterns defeat it.

  \<^bold>\<open>Risk management\<close> (\<^verbatim>\<open>risk-management\<close>). \<open>Risk\<close> has the five services: the position monitor with its
  exposures and alerts, liquidation prices and cascades, stress tests, value at risk, and reports; \<open>risk_math\<close>
  holds the square root, logarithm and square of the JavaScript library. \<open>Risk_Props\<close> shows that cascades partition
  the positions at risk, that deeper shocks and higher confidence never report less loss in the rounded
  arithmetic, that alert identifiers never repeat, and which way the distance to liquidation reads for shorts.

  \<^bold>\<open>Marketplace\<close> (\<^verbatim>\<open>marketplace\<close>). \<open>Marketplace\<close> has the listings, the orders on them, the conditions that trigger
  an order and the monitoring job, which takes prices from the oracle of \<open>LiqPools\<close>. \<open>Market_Props\<close> shows what the
  job does when nothing disturbs it, and over every interleaving of requests and jobs which orders trigger at all.

  \<^bold>\<open>Webhooks\<close> (\<^verbatim>\<open>webhooks\<close>). \<open>Json\<close> adds a parser for JSON texts to the serializer of \<open>JsDate\<close>, with what it rejects;
  its fuel is twice the length of the text, one unit for each level and element, and the rejections hold for
  every fuel. \<open>Webhook\<close> has signing, subscriptions, deliveries and the jobs of their retries. \<open>Webhook_Props\<close> shows how
  deliveries end, what happens to oversized events, and what the endpoints and signatures guarantee.

  \<^bold>\<open>Authentication and users\<close> (\<^verbatim>\<open>auth\<close>, \<^verbatim>\<open>users\<close>). On the tables of \<open>auth_db\<close>, \<open>Login\<close> has accounts, logins by password
  and by wallet with their limits, token pairs and their rotation, password resets, API keys, the strategies that
  make a caller of a credential, and the clean-up. \<open>Login_Inv\<close> has runs in which requests overlap at the level of
  statements on the table of refresh tokens, and what they keep; \<open>Login_Props\<close> that accepted tokens are refused to
  later requests, that refresh tokens, reset tokens and challenges are one-time
  credentials (locale \<open>one_time\<close>, interpreted on all three), how long failed logins lock an address, and how keys
  and challenges of other people can be used against them. Two refreshes that pass the check together are both
  accepted, which is shown apart.

  \<^bold>\<open>Not modelled.\<close> Controllers, modules, interceptors and guards (declarations for the
  framework); analytics, notifications, portfolio and audit-log queries (mostly SQL and delivery
  through external services); the SDK wrappers of \<^verbatim>\<open>stellar\<close> and the network clients of
  \<^verbatim>\<open>blockchain-indexer\<close>.
\<close>

end
